(* ===== verification/Prelude.thy ===== *)
theory Prelude
  imports Main "HOL-Library.AList" "HOL-Library.Char_ord" "HOL-Library.List_Lexorder"
    "HOL-Library.Sublist" "HOL-Library.Multiset"
begin

text \<open>
  Shared vocabulary of the development: Python exceptions as values, results as sums,
  insertion-ordered dictionaries as association lists, decimal rendering of integers and
  the generic lemmas the components use.  Nothing in this theory models a file of the
  repository; it models the pieces of the language that the files use.
\<close>

section \<open>Exceptions and results\<close>

datatype exc =
    TransactionException string
  | ValueError string
  | TypeError string
  | KeyError string
  | RuntimeError string
  | EOFError string
  | AssertionError string
  | FileNotFoundError string
  | OtherError string

type_synonym 'a res = "exc + 'a"

named_theorems res_simps "unfolding of sequencing on results"

definition rbind :: "'a res \<Rightarrow> ('a \<Rightarrow> 'b res) \<Rightarrow> 'b res" where
  "rbind m f = (case m of Inl e \<Rightarrow> Inl e | Inr x \<Rightarrow> f x)"

lemma rbind_simps [simp, res_simps]:
  "rbind (Inl e) f = Inl e"
  "rbind (Inr x) f = f x"
  by (simp_all add: rbind_def)

lemma rbind_Inr_iff: "rbind m f = Inr y \<longleftrightarrow> (\<exists>x. m = Inr x \<and> f x = Inr y)"
  by (cases m) auto

lemma rbind_InrE:
  assumes "rbind m f = Inr y"
  obtains x where "m = Inr x" "f x = Inr y"
  using assms by (auto simp: rbind_Inr_iff)

lemma rbind_cong [fundef_cong]:
  "m = m' \<Longrightarrow> (\<And>x. m' = Inr x \<Longrightarrow> f x = g x) \<Longrightarrow> rbind m f = rbind m' g"
  by (cases m') auto

definition guard :: "bool \<Rightarrow> exc \<Rightarrow> unit res" where
  "guard b e = (if b then Inr () else Inl e)"

lemma guard_Inr_iff [simp]: "guard b e = Inr u \<longleftrightarrow> b"
  by (simp add: guard_def)

lemma guard_simps [simp, res_simps]:
  "guard True e = Inr ()"
  "guard False e = Inl e"
  by (simp_all add: guard_def)

definition is_ok :: "'a res \<Rightarrow> bool" where
  "is_ok m = (case m of Inl _ \<Rightarrow> False | Inr _ \<Rightarrow> True)"

lemma is_ok_simps [simp]: "\<not> is_ok (Inl e)" "is_ok (Inr x)"
  by (simp_all add: is_ok_def)

lemma is_ok_iff: "is_ok m \<longleftrightarrow> (\<exists>x. m = Inr x)"
  by (cases m) auto

text \<open>A comprehension whose body may raise: the first exception aborts it.\<close>

fun mapR :: "('a \<Rightarrow> 'b res) \<Rightarrow> 'a list \<Rightarrow> 'b list res" where
  "mapR f [] = Inr []"
| "mapR f (x # xs) = rbind (f x) (\<lambda>y. rbind (mapR f xs) (\<lambda>ys. Inr (y # ys)))"

lemma mapR_cong [fundef_cong]:
  "xs = ys \<Longrightarrow> (\<And>x. x \<in> set ys \<Longrightarrow> f x = g x) \<Longrightarrow> mapR f xs = mapR g ys"
proof (induction ys arbitrary: xs)
  case Nil
  then show ?case by simp
next
  case (Cons y ys)
  have "mapR f ys = mapR g ys"
    by (rule Cons.IH) (simp_all add: Cons.prems)
  with Cons.prems show ?case by simp
qed

lemma mapR_Inr_iff: "mapR f xs = Inr ys \<longleftrightarrow> list_all2 (\<lambda>x y. f x = Inr y) xs ys"
  by (induction xs arbitrary: ys) (auto simp: rbind_Inr_iff list_all2_Cons1)

lemma mapR_total: "(\<And>x. x \<in> set xs \<Longrightarrow> f x = Inr (g x)) \<Longrightarrow> mapR f xs = Inr (map g xs)"
  by (induction xs) auto

lemma mapR_in_set: "mapR f xs = Inr ys \<Longrightarrow> y \<in> set ys \<Longrightarrow> \<exists>x\<in>set xs. f x = Inr y"
  by (induction xs arbitrary: ys) (auto simp: rbind_Inr_iff)

lemma mapR_set_in: "mapR f xs = Inr ys \<Longrightarrow> x \<in> set xs \<Longrightarrow> \<exists>y\<in>set ys. f x = Inr y"
  by (auto simp: mapR_Inr_iff list_all2_conv_all_nth in_set_conv_nth)

lemma mapR_is_ok: "(\<And>x. x \<in> set xs \<Longrightarrow> is_ok (f x)) \<Longrightarrow> is_ok (mapR f xs)"
proof (induction xs)
  case (Cons x xs)
  obtain y ys where "f x = Inr y" "mapR f xs = Inr ys" using Cons.IH Cons.prems [of x] Cons.prems unfolding is_ok_iff by (metis list.set_intros)
  then show ?case by simp
qed simp

lemma mapR_length: "mapR f xs = Inr ys \<Longrightarrow> length ys = length xs"
  by (simp add: mapR_Inr_iff list_all2_lengthD)


section \<open>Steps\<close>

text \<open>A step on a state returns a result or an exception together with the state it leaves behind.\<close>

type_synonym ('s, 'a) step = "'s \<Rightarrow> 'a res \<times> 's"

definition sbind :: "('s, 'a) step \<Rightarrow> ('a \<Rightarrow> ('s, 'b) step) \<Rightarrow> ('s, 'b) step" where
  "sbind m f s = (case m s of (Inl e, s') \<Rightarrow> (Inl e, s') | (Inr x, s') \<Rightarrow> f x s')"

definition sret :: "'a \<Rightarrow> ('s, 'a) step" where
  "sret x s = (Inr x, s)"

fun smap :: "('x \<Rightarrow> ('s, 'a) step) \<Rightarrow> 'x list \<Rightarrow> ('s, 'a list) step" where
  "smap f [] = sret []"
| "smap f (x # xs) = sbind (f x) (\<lambda>y. sbind (smap f xs) (\<lambda>ys. sret (y # ys)))"

definition slift :: "'a res \<Rightarrow> ('s, 'a) step" where
  "slift r s = (r, s)"

lemma sbind_Inr:
  assumes "sbind m f s = (Inr y, s')"
  obtains x s1 where "m s = (Inr x, s1)" "f x s1 = (Inr y, s')"
  using assms by (auto simp: sbind_def split: prod.splits sum.splits)

lemma smap_length: "smap f xs s = (Inr ys, s') \<Longrightarrow> length ys = length xs"
  by (induction xs arbitrary: s ys) (auto simp: sret_def elim!: sbind_Inr)

text \<open>A step keeps a property of the state, whether it raises or not.\<close>

named_theorems maintains_rules "steps that keep a property of the state"

definition maintains :: "('s \<Rightarrow> bool) \<Rightarrow> ('s, 'a) step \<Rightarrow> bool" where
  "maintains P m \<longleftrightarrow> (\<forall>s. P s \<longrightarrow> P (snd (m s)))"

lemma maintainsD: "maintains P m \<Longrightarrow> P s \<Longrightarrow> m s = (r, s') \<Longrightarrow> P s'"
  unfolding maintains_def by (metis snd_conv)

lemma maintains_sret [maintains_rules]: "maintains P (sret x)"
  by (simp add: maintains_def sret_def)

lemma maintains_slift [maintains_rules]: "maintains P (slift r)"
  by (simp add: maintains_def slift_def)

lemma maintains_sbind [maintains_rules]: "maintains P m \<Longrightarrow> (\<And>x. maintains P (f x)) \<Longrightarrow> maintains P (sbind m f)"
  unfolding maintains_def sbind_def by (auto split: prod.split sum.split; metis snd_conv)

lemma maintains_sbind_slift: "(\<And>x. r = Inr x \<Longrightarrow> maintains P (f x)) \<Longrightarrow> maintains P (sbind (slift r) f)"
  by (cases r) (auto simp: maintains_def sbind_def slift_def)

lemma maintains_if [maintains_rules]: "maintains P m \<Longrightarrow> maintains P m' \<Longrightarrow> maintains P (if b then m else m')"
  by simp

lemma maintains_smap [maintains_rules]: "(\<And>x. x \<in> set xs \<Longrightarrow> maintains P (f x)) \<Longrightarrow> maintains P (smap f xs)"
  by (induction xs) (auto intro: maintains_rules)

section \<open>Dictionaries\<close>

text \<open>
  A Python dict is an association list in insertion order: \<^const>\<open>map_of\<close> looks a key
  up, \<^const>\<open>AList.update\<close> is item assignment (in place for a known key, at the end for a
  new one) and \<^const>\<open>AList.delete\<close> is removal.
\<close>

type_synonym ('k, 'v) dict = "('k \<times> 'v) list"

definition dict_wf :: "('k, 'v) dict \<Rightarrow> bool" where
  "dict_wf d \<longleftrightarrow> distinct (map fst d)"

definition dict_update :: "('k, 'v) dict \<Rightarrow> ('k, 'v) dict \<Rightarrow> ('k, 'v) dict" where
  "dict_update d e = fold (\<lambda>(k, v) acc. AList.update k v acc) e d"

named_theorems dict_simps "lookups in updated dictionaries"

lemma dict_wf_Nil [simp]: "dict_wf []"
  by (simp add: dict_wf_def)

lemma dict_wf_Cons [simp]: "dict_wf ((k, v) # d) \<longleftrightarrow> k \<notin> fst ` set d \<and> dict_wf d"
  by (simp add: dict_wf_def)

lemma dict_wf_update [simp]: "dict_wf d \<Longrightarrow> dict_wf (AList.update k v d)"
  by (simp add: dict_wf_def distinct_update)

lemma dict_wf_delete [simp]: "dict_wf d \<Longrightarrow> dict_wf (AList.delete k d)"
  by (simp add: dict_wf_def distinct_delete)

lemma dict_update_Nil [simp]: "dict_update d [] = d"
  by (simp add: dict_update_def)

lemma dict_update_Cons [simp]:
  "dict_update d ((k, v) # e) = dict_update (AList.update k v d) e"
  by (simp add: dict_update_def)

lemma dict_wf_dict_update [simp]: "dict_wf d \<Longrightarrow> dict_wf (dict_update d e)"
proof (induction e arbitrary: d)
  case Nil
  then show ?case by simp
next
  case (Cons kv e)
  then show ?case by (cases kv) simp
qed

lemma map_of_AList_update [dict_simps]:
  "map_of (AList.update k v d) k' = (if k' = k then Some v else map_of d k')"
  by (simp add: update_conv')

lemma map_of_AList_delete [dict_simps]:
  "map_of (AList.delete k d) k' = (if k' = k then None else map_of d k')"
  by (simp add: delete_conv')

lemma map_of_dict_update [dict_simps]:
  "dict_wf e \<Longrightarrow>
   map_of (dict_update d e) k = (case map_of e k of None \<Rightarrow> map_of d k | Some v \<Rightarrow> Some v)"
proof (induction e arbitrary: d)
  case Nil
  then show ?case by simp
next
  case (Cons kv e)
  obtain k1 v1 where kv: "kv = (k1, v1)" by (cases kv)
  have e: "map_of e k1 = None" and "dict_wf e"
    using Cons.prems by (simp_all add: kv map_of_eq_None_iff)
  then have "map_of (dict_update d (kv # e)) k =
      (case map_of e k of None \<Rightarrow> map_of (AList.update k1 v1 d) k | Some v \<Rightarrow> Some v)"
    by (simp add: kv Cons.IH)
  with e show ?case
    by (simp add: kv map_of_AList_update split: option.split)
qed

lemma map_of_None_fst: "map_of d k = None \<longleftrightarrow> k \<notin> fst ` set d"
  by (rule map_of_eq_None_iff)

lemma dict_wf_map_of_iff: "dict_wf d \<Longrightarrow> map_of d k = Some v \<longleftrightarrow> (k, v) \<in> set d"
  by (simp add: dict_wf_def)

lemma dict_wf_filter [simp]: "dict_wf d \<Longrightarrow> dict_wf (filter P d)"
proof -
  assume "dict_wf d"
  then have "distinct (map fst (filter P d))"
    unfolding dict_wf_def by (rule distinct_map_filter)
  then show ?thesis by (simp add: dict_wf_def)
qed

text \<open>Sorting the items of a dict by key keeps the dict and makes its order canonical.\<close>

lemma dict_wf_sort_key [simp]: "dict_wf (sort_key fst d) = dict_wf d"
proof -
  have "mset (map fst (sort_key fst d)) = mset (map fst d)" by simp
  then show ?thesis
    unfolding dict_wf_def by (metis mset_eq_imp_distinct_iff)
qed

lemma dict_wf_perm: "mset d = mset e \<Longrightarrow> dict_wf d = dict_wf e"
  unfolding dict_wf_def by (rule mset_eq_imp_distinct_iff) simp

lemma map_of_perm:
  assumes "dict_wf d" "mset d = mset e"
  shows "map_of d = map_of e"
proof -
  have "mset (map fst d) = mset (map fst e)" using assms(2) by simp
  then have "dict_wf e"
    using assms(1) unfolding dict_wf_def by (metis mset_eq_imp_distinct_iff)
  moreover have "set d = set e" using assms(2) by (rule mset_eq_setD)
  ultimately have "map_of d k = map_of e k" for k
    using assms(1) by (metis dict_wf_map_of_iff not_Some_eq)
  then show ?thesis by (rule ext)
qed

lemma map_of_sort_key: "dict_wf d \<Longrightarrow> map_of (sort_key fst d) = map_of d"
  by (rule map_of_perm) (simp_all)

text \<open>A sorted dict is determined by its lookup function.\<close>

lemma sorted_dict_unique:
  fixes d e :: "('k::linorder, 'v) dict"
  assumes "sorted (map fst d)" "dict_wf d" "sorted (map fst e)" "dict_wf e"
    and "map_of d = map_of e"
  shows "d = e"
proof -
  have "set d = set e"
    using assms(2,4,5) by (auto simp: dict_wf_map_of_iff [symmetric])
  then show ?thesis
    using assms by (intro map_sorted_distinct_set_unique [of fst])
      (auto simp: dict_wf_def distinct_map inj_on_def)
qed


section \<open>Decimal rendering of integers\<close>

definition digit_char :: "nat \<Rightarrow> char" where
  "digit_char d = char_of (48 + d)"

fun nat_digits :: "nat \<Rightarrow> string" where
  "nat_digits n = (if n < 10 then [digit_char n] else nat_digits (n div 10) @ [digit_char (n mod 10)])"

declare nat_digits.simps [simp del]

definition str_int :: "int \<Rightarrow> string" where
  "str_int i = (if i < 0 then CHR ''-'' # nat_digits (nat (- i)) else nat_digits (nat i))"

lemma digit_char_eq_iff: "a < 10 \<Longrightarrow> b < 10 \<Longrightarrow> digit_char a = digit_char b \<longleftrightarrow> a = b"
  by (auto simp: digit_char_def char_of_eq_iff take_bit_nat_eq_self)

lemma digit_char_0: "digit_char 0 = CHR ''0''"
  by code_simp

section \<open>Text and lists\<close>

text \<open>\<^verbatim>\<open>s.split(c)\<close> for one character.\<close>

fun split_on :: "char \<Rightarrow> string \<Rightarrow> string list" where
  "split_on c [] = [[]]"
| "split_on c (x # xs) =
     (if x = c then [] # split_on c xs
      else case split_on c xs of [] \<Rightarrow> [[x]] | part # parts \<Rightarrow> (x # part) # parts)"

text \<open>\<^verbatim>\<open>s.split(c, 1)\<close> when \<^verbatim>\<open>c in s\<close>.\<close>

definition split_once :: "char \<Rightarrow> string \<Rightarrow> string \<times> string" where
  "split_once c s = (takeWhile (\<lambda>x. x \<noteq> c) s, tl (dropWhile (\<lambda>x. x \<noteq> c) s))"

text \<open>\<^verbatim>\<open>s.upper()\<close> on ASCII letters.\<close>

definition ascii_upper :: "string \<Rightarrow> string" where
  "ascii_upper s = map (\<lambda>c. if CHR ''a'' \<le> c \<and> c \<le> CHR ''z'' then char_of (of_char c - 32 :: nat) else c) s"

text \<open>A stable sort in reverse order.\<close>

definition sorted_reverse :: "('a \<Rightarrow> 'k::linorder) \<Rightarrow> 'a list \<Rightarrow> 'a list" where
  "sorted_reverse key xs = rev (sort_key key (rev xs))"

end
