(* ===== verification/Abci_Wire.thy ===== *)
theory Abci_Wire
  imports Prelude "HOL-Library.Word"
begin

text \<open>
  The length-prefixed message stream between CometBFT and the application:
  \<^verbatim>\<open>src/src/abci/utils.py\<close> (varints and framing) and the read loop
  \<^verbatim>\<open>ABCIServer._handler\<close> of \<^verbatim>\<open>src/src/abci/server.py\<close>.  A \<^verbatim>\<open>BytesIO\<close> is the list of
  the bytes from its position on.  The protobuf classes are parameters: \<open>parse\<close> is
  \<^verbatim>\<open>ParseFromString\<close> and \<open>ser\<close> is \<^verbatim>\<open>SerializeToString\<close>.
\<close>

unbundle bit_operations_syntax

type_synonym byte = "8 word"
type_synonym bytes = "byte list"

section \<open>Varints\<close>

lemma drop_bit_7_less: "drop_bit 7 (n::nat) \<noteq> 0 \<Longrightarrow> drop_bit 7 n < n"
  by (cases "n = 0") (simp_all add: drop_bit_eq_div div_less_dividend)

function encode_varint :: "nat \<Rightarrow> bytes" where
  "encode_varint number =
     (let towrite = number AND 0x7F;
          number' = drop_bit 7 number
      in if number' \<noteq> 0 then word_of_nat (towrite OR 0x80) # encode_varint number'
         else [word_of_nat towrite])"
  by pat_completeness auto
termination
  by (relation "measure id") (simp_all add: drop_bit_7_less)

declare encode_varint.simps [simp del]

definition read_one :: "bytes \<Rightarrow> (nat \<times> bytes) res" where
  "read_one stream =
     (case stream of
        [] \<Rightarrow> Inl (EOFError ''Unexpected EOF while reading bytes'')
      | c # rest \<Rightarrow> Inr (unat c, rest))"

fun decode_varint_loop :: "nat \<Rightarrow> nat \<Rightarrow> bytes \<Rightarrow> (nat \<times> bytes) res" where
  "decode_varint_loop shift result stream =
     (case stream of
        [] \<Rightarrow> Inl (EOFError ''Unexpected EOF while reading bytes'')
      | c # rest \<Rightarrow>
          (let i = unat c;
               result' = result OR push_bit shift (i AND 0x7F);
               shift' = shift + 7
           in if i AND 0x80 = 0 then Inr (result', rest)
              else decode_varint_loop shift' result' rest))"

declare decode_varint_loop.simps [simp del]

definition decode_varint :: "bytes \<Rightarrow> (nat \<times> bytes) res" where
  "decode_varint stream = decode_varint_loop 0 0 stream"


subsection \<open>Bit facts\<close>

lemma and_7F: "(n::nat) AND 0x7F = n mod 128"
proof -
  have "n AND 0x7F = n AND mask 7" by (simp add: mask_eq_exp_minus_1)
  also have "\<dots> = take_bit 7 n" by (simp add: take_bit_eq_mask)
  finally show ?thesis by (simp add: take_bit_eq_mod)
qed

lemma or_push_bit_eq_add:
  assumes "(a::nat) < 2 ^ s"
  shows "a OR push_bit s b = a + b * 2 ^ s"
proof -
  have "take_bit s a = a" using assms by (simp add: take_bit_nat_eq_self_iff)
  then have "\<not> bit a n" if "s \<le> n" for n
    using that by (metis bit_take_bit_iff not_le)
  then have "a AND push_bit s b = 0"
    by (auto simp: bit_eq_iff bit_simps)
  then show ?thesis
    by (simp add: disjunctive_add_eq_or [symmetric] push_bit_eq_mult)
qed

lemma or_80: "(m::nat) < 128 \<Longrightarrow> m OR 0x80 = m + 128"
  using or_push_bit_eq_add [of m 7 1] by (simp add: push_bit_eq_mult)

lemma and_80_eq_0: "(i::nat) < 256 \<Longrightarrow> i AND 0x80 = 0 \<longleftrightarrow> i < 128"
proof -
  assume "i < 256"
  have bit_128: "bit (128::nat) n \<longleftrightarrow> n = 7" for n
    using bit_exp_iff [where 'a = nat, of 7 n] by auto
  have "i AND 0x80 = 0 \<longleftrightarrow> \<not> bit i 7"
    unfolding bit_eq_iff by (auto simp: bit_and_iff bit_128)
  also have "\<dots> \<longleftrightarrow> even (i div 128)" by (simp add: bit_iff_odd)
  also have "\<dots> \<longleftrightarrow> i < 128"
  proof
    assume "even (i div 128)"
    moreover have "i div 128 < 2" using \<open>i < 256\<close> by (simp add: div_less_iff_less_mult)
    then have "i div 128 = 0 \<or> i div 128 = Suc 0" by (rule less_2_cases)
    ultimately have "i div 128 = 0" by auto
    then show "i < 128" by (simp add: div_eq_0_iff)
  qed simp
  finally show ?thesis .
qed

lemma encode_varint_small: "n < 128 \<Longrightarrow> encode_varint n = [word_of_nat n]"
  by (subst encode_varint.simps) (simp add: and_7F drop_bit_eq_div)

definition cont_byte :: "nat \<Rightarrow> byte" where
  "cont_byte m = word_of_nat (m + 128)"

lemma encode_varint_large:
  "128 \<le> n \<Longrightarrow> encode_varint n = cont_byte (n mod 128) # encode_varint (n div 128)"
  by (subst encode_varint.simps)
    (simp add: and_7F or_80 drop_bit_eq_div div_eq_0_iff cont_byte_def Let_def)

lemma unat_byte: "n < 256 \<Longrightarrow> unat (word_of_nat n :: byte) = n"
  by (simp add: unat_of_nat)

lemma unat_cont_byte: "m < 128 \<Longrightarrow> unat (cont_byte m) = m + 128"
  unfolding cont_byte_def by (rule unat_byte) simp

lemma decode_varint_loop_stop:
  "n < 128 \<Longrightarrow> r < 2 ^ s \<Longrightarrow>
   decode_varint_loop s r (word_of_nat n # rest) = Inr (r + n * 2 ^ s, rest)"
  by (subst decode_varint_loop.simps)
    (simp add: unat_byte and_7F and_80_eq_0 or_push_bit_eq_add)

lemma decode_varint_loop_more:
  "m < 128 \<Longrightarrow> r < 2 ^ s \<Longrightarrow>
   decode_varint_loop s r (cont_byte m # rest) =
   decode_varint_loop (s + 7) (r + m * 2 ^ s) rest"
  by (subst decode_varint_loop.simps)
    (simp add: unat_cont_byte and_7F and_80_eq_0 or_push_bit_eq_add)

lemma shifted_bound:
  fixes r m s :: nat
  assumes "r < 2 ^ s" "m < 128"
  shows "r + m * 2 ^ s < 2 ^ (s + 7)"
proof -
  have "r + m * 2 ^ s < (m + 1) * 2 ^ s" using assms(1) by (simp add: algebra_simps)
  also have "\<dots> \<le> 128 * 2 ^ s" using assms(2) by (intro mult_right_mono) simp_all
  finally show ?thesis by (simp add: power_add)
qed

lemma decode_varint_loop_encode:
  "r < 2 ^ s \<Longrightarrow>
   decode_varint_loop s r (encode_varint n @ rest) = Inr (r + n * 2 ^ s, rest)"
proof (induction n arbitrary: r s rule: less_induct)
  case (less n)
  show ?case
  proof (cases "n < 128")
    case True
    then show ?thesis
      by (simp add: encode_varint_small decode_varint_loop_stop less.prems)
  next
    case False
    have IH: "decode_varint_loop (s + 7) (r + n mod 128 * 2 ^ s) (encode_varint (n div 128) @ rest)
        = Inr (r + n mod 128 * 2 ^ s + n div 128 * 2 ^ (s + 7), rest)"
      by (rule less.IH) (use False less.prems in \<open>simp_all add: shifted_bound\<close>)
    have "n mod 128 * 2 ^ s + n div 128 * 2 ^ (s + 7) = (n mod 128 + 128 * (n div 128)) * 2 ^ s"
      by (simp only: power_add add_mult_distrib) (simp add: ac_simps)
    then have "r + n mod 128 * 2 ^ s + n div 128 * 2 ^ (s + 7) = r + n * 2 ^ s"
      by simp
    with IH False show ?thesis
      by (simp add: encode_varint_large decode_varint_loop_more less.prems)
  qed
qed

lemma decode_varint_loop_strict_prefix:
  "strict_prefix p (encode_varint n) \<Longrightarrow> r < 2 ^ s \<Longrightarrow>
   \<exists>e. decode_varint_loop s r p = Inl e"
proof (induction n arbitrary: p r s rule: less_induct)
  case (less n)
  show ?case
  proof (cases p)
    case Nil
    then show ?thesis by (simp add: decode_varint_loop.simps)
  next
    case (Cons b q)
    have n: "128 \<le> n"
      using less.prems(1) Cons by (cases "n < 128") (auto simp: encode_varint_small)
    with less.prems(1) Cons have b: "b = cont_byte (n mod 128)"
      and q: "strict_prefix q (encode_varint (n div 128))"
      by (simp_all add: encode_varint_large)
    have "\<exists>e. decode_varint_loop (s + 7) (r + n mod 128 * 2 ^ s) q = Inl e"
      by (rule less.IH) (use n q less.prems in \<open>simp_all add: shifted_bound\<close>)
    with b Cons show ?thesis by (simp add: decode_varint_loop_more less.prems)
  qed
qed

lemma decode_varint_loop_shorter:
  "decode_varint_loop s r stream = Inr (n, rest) \<Longrightarrow> length rest < length stream"
proof (induction stream arbitrary: s r)
  case Nil
  then show ?case by (simp add: decode_varint_loop.simps)
next
  case (Cons c cs)
  then show ?case
    by (subst (asm) decode_varint_loop.simps)
      (auto simp: Let_def split: if_splits intro: less_SucI)
qed


section \<open>Frames\<close>

text \<open>
  One round of the loop of \<^verbatim>\<open>read_messages\<close>: the length is decoded and that many bytes
  are read.  \<^const>\<open>None\<close> stands for either way of not having enough data yet, after which
  the code seeks back to where the round started.
\<close>

definition next_frame :: "(bytes \<Rightarrow> (nat \<times> bytes) res) \<Rightarrow> bytes \<Rightarrow> (bytes \<times> bytes) option" where
  "next_frame dec reader =
     (case dec reader of
        Inl _ \<Rightarrow> None
      | Inr (len, rest) \<Rightarrow>
          (let data = take len rest
           in if length data < len then None else Some (data, drop len rest)))"

definition frame :: "(nat \<Rightarrow> bytes) \<Rightarrow> bytes \<Rightarrow> bytes" where
  "frame enc bz = enc (length bz) @ bz"

text \<open>What the framing needs of a length encoding: a self-delimiting prefix code.\<close>

locale length_codec =
  fixes enc :: "nat \<Rightarrow> bytes" and dec :: "bytes \<Rightarrow> (nat \<times> bytes) res"
  assumes dec_enc: "dec (enc n @ rest) = Inr (n, rest)"
    and dec_incomplete: "strict_prefix p (enc n) \<Longrightarrow> \<exists>e. dec p = Inl e"
    and dec_shorter: "dec stream = Inr (n, rest) \<Longrightarrow> length rest < length stream"
begin

lemma next_frame_complete: "next_frame dec (frame enc bz @ rest) = Some (bz, rest)"
  by (simp add: next_frame_def frame_def dec_enc)

lemma next_frame_shorter: "next_frame dec s = Some (bz, rest) \<Longrightarrow> length rest < length s"
  by (auto simp: next_frame_def Let_def split: sum.splits if_splits dest!: dec_shorter)

lemma next_frame_incomplete:
  assumes "strict_prefix p (frame enc bz)"
  shows "next_frame dec p = None"
proof (cases "strict_prefix p (enc (length bz))")
  case True
  then obtain e where "dec p = Inl e" using dec_incomplete by blast
  then show ?thesis by (simp add: next_frame_def)
next
  case False
  with assms obtain q where q: "p = enc (length bz) @ q" "strict_prefix q bz"
    unfolding frame_def
    by (metis append_self_conv prefix_append prefix_order.less_le same_prefix_prefix
        prefix_order.dual_order.refl append_Nil2)
  then have "length q < length bz" by (simp add: prefix_length_less)
  with q(1) show ?thesis by (simp add: next_frame_def dec_enc)
qed

end

interpretation varint: length_codec encode_varint decode_varint
proof unfold_locales
  show "decode_varint (encode_varint n @ rest) = Inr (n, rest)" for n rest
    using decode_varint_loop_encode [of 0 0 n rest] by (simp add: decode_varint_def)
  show "\<exists>e. decode_varint p = Inl e" if "strict_prefix p (encode_varint n)" for p n
    using decode_varint_loop_strict_prefix [OF that, of 0 0] by (simp add: decode_varint_def)
  show "length rest < length stream" if "decode_varint stream = Inr (n, rest)" for stream n rest
    using decode_varint_loop_shorter that by (simp add: decode_varint_def)
qed

definition write_message :: "('m \<Rightarrow> bytes) \<Rightarrow> 'm \<Rightarrow> bytes" where
  "write_message ser message = frame encode_varint (ser message)"

function read_messages :: "(bytes \<Rightarrow> 'm res) \<Rightarrow> bytes \<Rightarrow> ('m list \<times> bytes) res" where
  "read_messages parse reader =
     (case next_frame decode_varint reader of
        None \<Rightarrow> Inr ([], reader)
      | Some (data, rest) \<Rightarrow>
          rbind (parse data) (\<lambda>msg.
          rbind (read_messages parse rest) (\<lambda>(msgs, left).
          Inr (msg # msgs, left))))"
  by pat_completeness auto
termination
  by (relation "measure (\<lambda>(_, s). length s)") (auto dest: varint.next_frame_shorter)

declare read_messages.simps [simp del]

lemma read_messages_shorter:
  "read_messages parse s = Inr (msgs, left) \<Longrightarrow> length left \<le> length s \<and> (msgs \<noteq> [] \<longrightarrow> length left < length s)"
proof (induction parse s arbitrary: msgs left rule: read_messages.induct)
  case (1 parse s)
  show ?case
  proof (cases "next_frame decode_varint s")
    case None
    with "1.prems" show ?thesis by (simp add: read_messages.simps [of parse s])
  next
    case (Some fr)
    obtain bz rest where fr: "fr = (bz, rest)" by (cases fr)
    with Some "1.prems" obtain m ms where m: "parse bz = Inr m"
      and ms: "read_messages parse rest = Inr (ms, left)"
      by (auto simp: read_messages.simps [of parse s] rbind_Inr_iff)
    from "1.IH" [OF Some fr [symmetric] m ms] have "length left \<le> length rest" by simp
    with varint.next_frame_shorter [of s bz rest] Some fr show ?thesis by simp
  qed
qed


section \<open>The connection loop\<close>

text \<open>
  One connection of \<^verbatim>\<open>ABCIServer._handler\<close>: the application state, the bytes written to
  the socket, the unparsed buffer, and the exception that ended the coroutine, if any.
  \<open>process\<close> is \<^verbatim>\<open>ProtocolHandler.process\<close>: it may raise, and otherwise returns the bytes
  of the response.
\<close>

record 'st conn =
  c_app :: 'st
  c_written :: bytes
  c_data :: bytes
  c_failed :: "exc option"

type_synonym ('st, 'm) processor = "'st \<Rightarrow> 'm \<Rightarrow> (bytes \<times> 'st) res"

fun handle_messages :: "('st, 'm) processor \<Rightarrow> 'st conn \<Rightarrow> 'm list \<Rightarrow> 'st conn" where
  "handle_messages process c [] = c"
| "handle_messages process c (message # rest) =
     (case process (c_app c) message of
        Inl e \<Rightarrow> c\<lparr>c_failed := Some e\<rparr>
      | Inr (response, st) \<Rightarrow>
          handle_messages process (c\<lparr>c_app := st, c_written := c_written c @ response\<rparr>) rest)"

lemma handle_messages_data [simp]: "c_data (handle_messages process c ms) = c_data c"
  by (induction process c ms rule: handle_messages.induct) (auto split: sum.split)

lemma handle_messages_append:
  "c_failed c = None \<Longrightarrow>
   handle_messages process c (xs @ ys) =
   (let c' = handle_messages process c xs
    in if c_failed c' \<noteq> None then c' else handle_messages process c' ys)"
  by (induction process c xs rule: handle_messages.induct) (auto split: sum.split)

lemma handle_messages_set_data:
  "handle_messages process (c\<lparr>c_data := d\<rparr>) ms = (handle_messages process c ms)\<lparr>c_data := d\<rparr>"
proof (induction ms arbitrary: c)
  case (Cons m ms)
  show ?case
  proof (cases "process (c_app c) m")
    case (Inr r)
    obtain resp st where r: "r = (resp, st)" by (cases r)
    let ?c = "c\<lparr>c_app := st, c_written := c_written c @ resp\<rparr>"
    have "c\<lparr>c_data := d, c_app := st, c_written := c_written c @ resp\<rparr> = ?c\<lparr>c_data := d\<rparr>"
      by simp
    then have "handle_messages process (c\<lparr>c_data := d, c_app := st, c_written := c_written c @ resp\<rparr>) ms
        = (handle_messages process ?c ms)\<lparr>c_data := d\<rparr>"
      using Cons.IH [of ?c] by (simp only:)
    then show ?thesis by (simp add: Inr r)
  qed simp
qed simp

function drain :: "(bytes \<Rightarrow> 'm res) \<Rightarrow> ('st, 'm) processor \<Rightarrow> 'st conn \<Rightarrow> 'st conn" where
  "drain parse process c =
     (case read_messages parse (c_data c) of
        Inl e \<Rightarrow> c\<lparr>c_failed := Some e\<rparr>
      | Inr (messages, left) \<Rightarrow>
          if messages = [] then c
          else let c' = handle_messages process (c\<lparr>c_data := left\<rparr>) messages
               in if c_failed c' \<noteq> None then c' else drain parse process c')"
  by pat_completeness auto
termination
  by (relation "measure (\<lambda>(_, _, c). length (c_data c))") (auto dest: read_messages_shorter)

declare drain.simps [simp del]

fun handler :: "(bytes \<Rightarrow> 'm res) \<Rightarrow> ('st, 'm) processor \<Rightarrow> 'st conn \<Rightarrow> bytes list \<Rightarrow> 'st conn" where
  "handler parse process c [] = c"
| "handler parse process c (bits # chunks) =
     (if bits = [] then c
      else let c' = drain parse process (c\<lparr>c_data := c_data c @ bits\<rparr>)
           in if c_failed c' \<noteq> None then c' else handler parse process c' chunks)"


subsection \<open>Segmentation does not matter\<close>

abbreviation frames :: "('m \<Rightarrow> bytes) \<Rightarrow> 'm list \<Rightarrow> bytes" where
  "frames ser ms \<equiv> concat (map (write_message ser) ms)"

lemma next_frame_Nil: "next_frame decode_varint [] = None"
  by (simp add: next_frame_def decode_varint_def decode_varint_loop.simps)

lemma read_messages_stop: "next_frame decode_varint b = None \<Longrightarrow> read_messages parse b = Inr ([], b)"
  by (simp add: read_messages.simps [of parse b])

lemma read_messages_prefix:
  assumes "\<And>m. m \<in> set ms \<Longrightarrow> parse (ser m) = Inr m"
    and "b @ rest = frames ser ms"
  shows "\<exists>k left. read_messages parse b = Inr (take k ms, left) \<and>
           left @ rest = frames ser (drop k ms) \<and> next_frame decode_varint left = None"
  using assms
proof (induction ms arbitrary: b)
  case Nil
  then show ?case by (simp add: read_messages_stop next_frame_Nil)
next
  case (Cons m ms)
  let ?f = "frame encode_varint (ser m)"
  have eq: "b @ rest = ?f @ frames ser ms"
    using Cons.prems(2) by (simp add: write_message_def [of ser m])
  show ?case
  proof (cases "strict_prefix b ?f")
    case True
    then have none: "next_frame decode_varint b = None" by (rule varint.next_frame_incomplete)
    then have "read_messages parse b = Inr (take 0 (m # ms), b)" by (simp add: read_messages_stop)
    moreover have "b @ rest = frames ser (drop 0 (m # ms))" using Cons.prems(2) by simp
    ultimately show ?thesis using none by blast
  next
    case False
    have "prefix ?f b"
    proof -
      have "prefix ?f b \<or> prefix b ?f"
        using eq by (metis prefix_same_cases prefixI)
      with False show ?thesis by (auto simp: strict_prefix_def)
    qed
    then obtain b' where b: "b = ?f @ b'" by (auto simp: prefix_def)
    with eq have b': "b = ?f @ b'" "b' @ rest = frames ser ms" by simp_all
    obtain k left where k: "read_messages parse b' = Inr (take k ms, left)"
      "left @ rest = frames ser (drop k ms)" "next_frame decode_varint left = None"
      using Cons.IH [of b'] Cons.prems(1) b'(2) by auto
    have "read_messages parse b = Inr (take (Suc k) (m # ms), left)"
      using k(1) Cons.prems(1) [of m]
      by (simp add: read_messages.simps [of parse "?f @ b'"] b'(1) varint.next_frame_complete)
    moreover have "left @ rest = frames ser (drop (Suc k) (m # ms))" using k(2) by simp
    ultimately show ?thesis using k(3) by blast
  qed
qed

lemma drain_eq:
  assumes "read_messages parse (c_data c) = Inr (ms, left)"
    and "next_frame decode_varint left = None" and "c_failed c = None"
  shows "drain parse process c = (handle_messages process c ms)\<lparr>c_data := left\<rparr>"
proof (cases "ms = []")
  case True
  then have "left = c_data c"
    using assms(1) by (simp add: read_messages.simps [of parse "c_data c"] rbind_Inr_iff
        split: option.splits prod.splits)
  with True assms(1) show ?thesis by (simp add: drain.simps [of parse process c])
next
  case False
  have "drain parse process (c'\<lparr>c_data := left\<rparr>) = c'\<lparr>c_data := left\<rparr>" for c'
    using read_messages_stop [OF assms(2), of parse]
    by (simp add: drain.simps [of parse process "c'\<lparr>c_data := left\<rparr>"])
  with False assms(1) show ?thesis
    by (simp add: drain.simps [of parse process c] handle_messages_set_data Let_def)
qed

lemma handler_segmented:
  assumes "\<And>m. m \<in> set ms \<Longrightarrow> parse (ser m) = Inr m"
    and "[] \<notin> set chunks" and "c_data c @ concat chunks = frames ser ms"
    and "next_frame decode_varint (c_data c) = None" and "c_failed c = None"
  shows "\<exists>d. handler parse process c chunks = (handle_messages process c ms)\<lparr>c_data := d\<rparr> \<and>
    (c_failed (handle_messages process c ms) = None \<longrightarrow> d = [])"
  using assms
proof (induction chunks arbitrary: c ms)
  case Nil
  have "ms = []"
  proof (rule ccontr)
    assume "ms \<noteq> []"
    then obtain m ms' where "ms = m # ms'" by (cases ms) auto
    with Nil.prems(3,4) show False
      by (simp add: write_message_def varint.next_frame_complete)
  qed
  moreover have "c_data c = []" using Nil.prems(3) calculation by simp
  ultimately show ?case by (auto intro!: exI [of _ "[]"])
next
  case (Cons bits chunks)
  let ?c = "c\<lparr>c_data := c_data c @ bits\<rparr>"
  obtain k left where k: "read_messages parse (c_data ?c) = Inr (take k ms, left)"
    "left @ concat chunks = frames ser (drop k ms)" "next_frame decode_varint left = None"
    using read_messages_prefix [of ms parse ser "c_data ?c" "concat chunks"] Cons.prems(1,3) by auto
  let ?d = "(handle_messages process c (take k ms))\<lparr>c_data := left\<rparr>"
  have d: "drain parse process ?c = ?d"
    using drain_eq [OF k(1,3)] Cons.prems(5) by (simp add: handle_messages_set_data)
  have app: "handle_messages process c ms = (let c' = handle_messages process c (take k ms)
      in if c_failed c' \<noteq> None then c' else handle_messages process c' (drop k ms))"
    using handle_messages_append [OF Cons.prems(5), of process "take k ms" "drop k ms"] by simp
  show ?case
  proof (cases "c_failed ?d = None")
    case True
    have "\<exists>d. handler parse process ?d chunks = (handle_messages process ?d (drop k ms))\<lparr>c_data := d\<rparr> \<and>
        (c_failed (handle_messages process ?d (drop k ms)) = None \<longrightarrow> d = [])"
      by (rule Cons.IH) (use Cons.prems(1,2) k(2,3) True in \<open>auto dest: in_set_dropD\<close>)
    with True d app Cons.prems(2) show ?thesis
      by (auto simp: handle_messages_set_data)
  next
    case False
    with d app Cons.prems(2) show ?thesis by auto
  qed
qed


section \<open>Properties\<close>

text \<open>A length written with encode\_varint is read back exactly by decode\_varint, whatever
  bytes follow it in the stream, and no proper prefix of the encoding decodes.\<close>

theorem varint_roundtrip:
  "decode_varint (encode_varint n @ rest) = Inr (n, rest) \<and>
   (\<forall>p. strict_prefix p (encode_varint n) \<longrightarrow> \<not> is_ok (decode_varint p))"
  using varint.dec_enc varint.dec_incomplete by (auto simp: is_ok_iff) (metis Inl_Inr_False)

theorem varint_roundtrip_witness:
  "decode_varint (encode_varint 300 @ [7]) = Inr (300, [7]) \<and>
   strict_prefix [] (encode_varint 300) \<and> \<not> is_ok (decode_varint [])"
  using varint_roundtrip [of 300 "[7]"] by (auto simp: encode_varint_large)

text \<open>C14: For a byte stream that consists of whole, correctly framed requests which all parse: however
  the transport segments it into nonempty reads, the connection loop hands the application exactly
  those requests in order, writes the same responses, stops at the same exception of a handler,
  and leaves nothing in its buffer when no handler raised.\<close>

theorem segmentation_independent:
  assumes "\<forall>m\<in>set ms. parse (ser m) = Inr m" and "[] \<notin> set chunks"
    and "concat chunks = concat (map (write_message ser) ms)"
  shows "\<exists>d. handler parse process \<lparr>c_app = st, c_written = [], c_data = [], c_failed = None\<rparr> chunks =
      (handle_messages process \<lparr>c_app = st, c_written = [], c_data = [], c_failed = None\<rparr> ms)\<lparr>c_data := d\<rparr> \<and>
      (c_failed (handle_messages process \<lparr>c_app = st, c_written = [], c_data = [], c_failed = None\<rparr> ms) = None
        \<longrightarrow> d = [])"
  by (rule handler_segmented) (use assms next_frame_Nil in auto)

text \<open>The parsing of all requests is needed.  The loop parses every complete frame it has before it
  answers the first one, so a request followed by a frame that does not parse is answered when
  the two arrive in two reads, and not when they arrive in one.\<close>

lemma unparsable_frame_segmentation:
  "let parse = (\<lambda>b. if b = [9] then Inl (ValueError ''DecodeError'') else Inr b);
       process = (\<lambda>n m. Inr (m, n + 1));
       c0 = \<lparr>c_app = 0 :: nat, c_written = [], c_data = [], c_failed = None\<rparr> in
     c_written (handler parse process c0 [[1, 7, 1, 9]]) = [] \<and> c_written (handler parse process c0 [[1, 7], [1, 9]]) = [7]"
  by code_simp

theorem segmentation_independent_witness:
  "\<exists>d. handler Inr (\<lambda>n m. Inr (m, n + 1)) \<lparr>c_app = 0::nat, c_written = [], c_data = [], c_failed = None\<rparr>
        [[2, 10], [11, 1], [12]] =
      (handle_messages (\<lambda>n m. Inr (m, n + 1)) \<lparr>c_app = 0, c_written = [], c_data = [], c_failed = None\<rparr>
        [[10, 11], [12]])\<lparr>c_data := d\<rparr> \<and> d = []"
proof -
  have "concat [[2, 10], [11, 1], [12]] = concat (map (write_message (\<lambda>m. m)) [[10, 11], [12::byte]])"
    by (simp add: write_message_def frame_def encode_varint_small)
  then show ?thesis
    using segmentation_independent [of "[[10, 11], [12]]" Inr "\<lambda>m. m" "[[2, 10], [11, 1], [12]]"
        "\<lambda>n m. Inr (m, n + 1)" "0::nat"]
    by auto
qed

end
