(* ===== verification/Py_Value.thy ===== *)
theory Py_Value
  imports Prelude
begin

text \<open>
  The Python values that transactions, contract state and configuration are made of, and
  the standard-library functions the sources apply to them: truth testing, \<^verbatim>\<open>json.dumps\<close>
  with \<^verbatim>\<open>ensure_ascii=False\<close> and compact separators, \<^verbatim>\<open>bytes.fromhex\<close>,
  \<^verbatim>\<open>binascii.hexlify\<close> and UTF-8 validity.  Text is its UTF-8 bytes, so the order of
  strings is Python's order of code points.  A float is kept as its text: the sources only
  ever test for it.
\<close>

section \<open>Values\<close>

text \<open>A \<^verbatim>\<open>decimal.Decimal\<close>: sign, coefficient, exponent.\<close>

datatype dec = Dec (dec_neg: bool) (dec_coeff: nat) (dec_exp: int)

datatype pyval =
    PNone
  | PBool bool
  | PInt int
  | PFloat string
  | PStr string
  | PBytes string
  | PDec dec
  | PDatetime string
  | PList "pyval list"
  | PTuple "pyval list"
  | PDict "(pyval \<times> pyval) list"
  | PObject string

lemma size_list_elem [termination_simp]: "x \<in> set xs \<Longrightarrow> size x < Suc (size_list size xs)"
  by (induction xs) auto

lemma size_dict_value [termination_simp]:
  "kv \<in> set kvs \<Longrightarrow> size (snd kv) < Suc (size_list (size_prod size size) kvs)"
  unfolding size_prod_simp by (induction kvs) auto

lemma size_dict_value' [termination_simp]:
  "(k, v) \<in> set kvs \<Longrightarrow> size v < Suc (size_list (size_prod size size) kvs)"
  using size_dict_value [of "(k, v)" kvs] by simp

fun is_str :: "pyval \<Rightarrow> bool" where
  "is_str (PStr _) = True"
| "is_str _ = False"

fun is_dict :: "pyval \<Rightarrow> bool" where
  "is_dict (PDict _) = True"
| "is_dict _ = False"

fun str_of :: "pyval \<Rightarrow> string" where
  "str_of (PStr s) = s"
| "str_of _ = []"

text \<open>The integer a value compares equal to: a bool is an int.\<close>

fun int_value :: "pyval \<Rightarrow> int option" where
  "int_value (PInt i) = Some i"
| "int_value (PBool b) = Some (if b then 1 else 0)"
| "int_value _ = None"

lemma is_str_iff: "is_str v \<longleftrightarrow> (\<exists>s. v = PStr s)"
  by (cases v) auto

lemma is_dict_iff: "is_dict v \<longleftrightarrow> (\<exists>d. v = PDict d)"
  by (cases v) auto

lemma str_of_eq [simp]: "is_str v \<Longrightarrow> PStr (str_of v) = v"
  by (cases v) auto

text \<open>\<^verbatim>\<open>bool(v)\<close>, as \<^verbatim>\<open>or\<close>, \<^verbatim>\<open>not\<close> and \<^verbatim>\<open>if\<close> use it.\<close>

fun truthy :: "pyval \<Rightarrow> bool" where
  "truthy PNone = False"
| "truthy (PBool b) = b"
| "truthy (PInt i) = (i \<noteq> 0)"
| "truthy (PFloat s) = (s \<noteq> ''0.0'' \<and> s \<noteq> ''-0.0'')"
| "truthy (PStr s) = (s \<noteq> [])"
| "truthy (PBytes s) = (s \<noteq> [])"
| "truthy (PDec d) = (dec_coeff d \<noteq> 0)"
| "truthy (PDatetime _) = True"
| "truthy (PList xs) = (xs \<noteq> [])"
| "truthy (PTuple xs) = (xs \<noteq> [])"
| "truthy (PDict kvs) = (kvs \<noteq> [])"
| "truthy (PObject _) = True"

definition py_or :: "pyval \<Rightarrow> pyval \<Rightarrow> pyval" where
  "py_or a b = (if truthy a then a else b)"

text \<open>\<^verbatim>\<open>d.get(key)\<close> and \<^verbatim>\<open>d[key]\<close> on a dict; every other value has no such items.\<close>

fun dget :: "pyval \<Rightarrow> string \<Rightarrow> pyval option" where
  "dget (PDict kvs) k = map_of kvs (PStr k)"
| "dget _ k = None"

definition dget_or :: "pyval \<Rightarrow> string \<Rightarrow> pyval \<Rightarrow> pyval" where
  "dget_or d k v = (case dget d k of None \<Rightarrow> v | Some x \<Rightarrow> x)"

definition dindex :: "pyval \<Rightarrow> string \<Rightarrow> pyval res" where
  "dindex d k =
     (if \<not> is_dict d then Inl (TypeError ''not subscriptable by a string'')
      else case dget d k of None \<Rightarrow> Inl (KeyError k) | Some v \<Rightarrow> Inr v)"

lemma dindex_Inr_iff: "dindex d k = Inr v \<longleftrightarrow> dget d k = Some v"
  by (cases d) (auto simp: dindex_def split: option.splits)

section \<open>JSON text\<close>

definition hex_digit :: "nat \<Rightarrow> char" where
  "hex_digit d = (if d < 10 then char_of (48 + d) else char_of (87 + d))"

definition json_escape :: "char \<Rightarrow> string" where
  "json_escape c =
     (if c = CHR 0x22 then [CHR 0x5C, CHR 0x22]
      else if c = CHR 0x5C then [CHR 0x5C, CHR 0x5C]
      else if c = CHR 0x0A then [CHR 0x5C, CHR ''n'']
      else if c = CHR 0x0D then [CHR 0x5C, CHR ''r'']
      else if c = CHR 0x09 then [CHR 0x5C, CHR ''t'']
      else if c = CHR 0x08 then [CHR 0x5C, CHR ''b'']
      else if c = CHR 0x0C then [CHR 0x5C, CHR ''f'']
      else if of_char c < (32::nat)
      then [CHR 0x5C, CHR ''u'', CHR ''0'', CHR ''0'', hex_digit (of_char c div 16), hex_digit (of_char c mod 16)]
      else [c])"

definition json_string :: "string \<Rightarrow> string" where
  "json_string s = CHR 0x22 # concat (map json_escape s) @ [CHR 0x22]"

fun join_comma :: "string list \<Rightarrow> string" where
  "join_comma [] = []"
| "join_comma [x] = x"
| "join_comma (x # y # zs) = x @ CHR '','' # join_comma (y # zs)"

text \<open>
  \<^verbatim>\<open>json.dumps(v, ensure_ascii=False, separators=(",", ":"))\<close>.  Keys that are not strings
  do not reach it in the sources modelled here; they count as unserialisable.
\<close>

fun json_dumps :: "pyval \<Rightarrow> string res" where
  "json_dumps PNone = Inr ''null''"
| "json_dumps (PBool b) = Inr (if b then ''true'' else ''false'')"
| "json_dumps (PInt i) = Inr (str_int i)"
| "json_dumps (PFloat s) = Inr s"
| "json_dumps (PStr s) = Inr (json_string s)"
| "json_dumps (PList xs) =
     rbind (mapR json_dumps xs) (\<lambda>ts. Inr (CHR ''['' # join_comma ts @ '']''))"
| "json_dumps (PTuple xs) =
     rbind (mapR json_dumps xs) (\<lambda>ts. Inr (CHR ''['' # join_comma ts @ '']''))"
| "json_dumps (PDict kvs) =
     rbind (mapR (\<lambda>kv. if is_str (fst kv)
                        then rbind (json_dumps (snd kv)) (\<lambda>t. Inr (json_string (str_of (fst kv)) @ CHR '':'' # t))
                        else Inl (TypeError ''keys must be str'')) kvs)
       (\<lambda>ts. Inr (CHR ''{'' # join_comma ts @ ''}''))"
| "json_dumps _ = Inl (TypeError ''Object is not JSON serializable'')"

section \<open>Hexadecimal text\<close>

definition hex_value :: "char \<Rightarrow> nat option" where
  "hex_value c =
     (let n = of_char c :: nat
      in if 48 \<le> n \<and> n \<le> 57 then Some (n - 48)
         else if 97 \<le> n \<and> n \<le> 102 then Some (n - 87)
         else if 65 \<le> n \<and> n \<le> 70 then Some (n - 55)
         else None)"

definition is_hex :: "char \<Rightarrow> bool" where
  "is_hex c = (hex_value c \<noteq> None)"

definition is_ascii_space :: "char \<Rightarrow> bool" where
  "is_ascii_space c = (of_char c \<in> {9, 10, 11, 12, 13, 32 :: nat})"

text \<open>\<^verbatim>\<open>binascii.hexlify\<close> and \<^verbatim>\<open>bytes.hex\<close>: two lower-case digits a byte.\<close>

definition hexlify :: "string \<Rightarrow> string" where
  "hexlify s = concat (map (\<lambda>c. [hex_digit (of_char c div 16), hex_digit (of_char c mod 16)]) s)"

text \<open>\<^verbatim>\<open>bytes.fromhex\<close>: either case, and ASCII white space is skipped between bytes.\<close>

fun fromhex :: "string \<Rightarrow> string res" where
  "fromhex [] = Inr []"
| "fromhex [c] =
     (if is_ascii_space c then Inr [] else Inl (ValueError ''non-hexadecimal number found in fromhex() arg''))"
| "fromhex (c # d # rest) =
     (if is_ascii_space c then fromhex (d # rest)
      else case (hex_value c, hex_value d) of
             (Some a, Some b) \<Rightarrow> rbind (fromhex rest) (\<lambda>t. Inr (char_of (16 * a + b) # t))
           | _ \<Rightarrow> Inl (ValueError ''non-hexadecimal number found in fromhex() arg''))"

lemma hex_digit_value: "d < 16 \<Longrightarrow> hex_value (hex_digit d) = Some d"
  by (auto simp: hex_digit_def hex_value_def Let_def)

lemma hex_digit_not_space: "d < 16 \<Longrightarrow> \<not> is_ascii_space (hex_digit d)"
  by (auto simp: hex_digit_def is_ascii_space_def)

lemma of_char_less_256: "of_char c < (256::nat)"
  by (cases c) (simp add: of_char_def horner_sum_simps)

lemma of_char_div_16: "of_char c div 16 < (16::nat)"
  using of_char_less_256 [of c] by (simp add: div_less_iff_less_mult)

lemma fromhex_hexlify [simp]: "fromhex (hexlify s) = Inr s"
proof (induction s)
  case Nil
  then show ?case by (simp add: hexlify_def)
next
  case (Cons c s)
  note of_char_div_16 [of c]
  moreover have "of_char c mod 16 < (16::nat)" by simp
  moreover have "char_of (16 * (of_char c div 16) + of_char c mod 16 :: nat) = c" by simp
  ultimately show ?case
    using Cons by (simp add: hexlify_def hex_digit_value hex_digit_not_space del: mult_div_mod_eq)
qed

section \<open>UTF-8\<close>

definition utf8_cont :: "char \<Rightarrow> bool" where
  "utf8_cont c = (of_char c \<in> {0x80 .. 0xBF :: nat})"

text \<open>\<^verbatim>\<open>bytes.decode("utf-8")\<close> succeeds: well-formed, no overlong form, no surrogate.\<close>

fun utf8_valid :: "string \<Rightarrow> bool" where
  "utf8_valid [] = True"
| "utf8_valid (a # s) =
     (let n = of_char a :: nat in
      if n < 0x80 then utf8_valid s
      else if 0xC2 \<le> n \<and> n \<le> 0xDF then
        (case s of b # s1 \<Rightarrow> utf8_cont b \<and> utf8_valid s1 | _ \<Rightarrow> False)
      else if 0xE0 \<le> n \<and> n \<le> 0xEF then
        (case s of b # c # s2 \<Rightarrow>
           utf8_cont b \<and> utf8_cont c \<and> (n = 0xE0 \<longrightarrow> 0xA0 \<le> (of_char b :: nat)) \<and>
           (n = 0xED \<longrightarrow> of_char b \<le> (0x9F :: nat)) \<and> utf8_valid s2
         | _ \<Rightarrow> False)
      else if 0xF0 \<le> n \<and> n \<le> 0xF4 then
        (case s of b # c # d # s3 \<Rightarrow>
           utf8_cont b \<and> utf8_cont c \<and> utf8_cont d \<and> (n = 0xF0 \<longrightarrow> 0x90 \<le> (of_char b :: nat)) \<and>
           (n = 0xF4 \<longrightarrow> of_char b \<le> (0x8F :: nat)) \<and> utf8_valid s3
         | _ \<Rightarrow> False)
      else False)"

lemma utf8_valid_ascii: "list_all (\<lambda>c. of_char c < (128::nat)) s \<Longrightarrow> utf8_valid s"
  by (induction s) simp_all

lemma utf8_valid_hexlify: "utf8_valid (hexlify s)"
proof (rule utf8_valid_ascii)
  have "of_char (hex_digit d) < (128::nat)" if "d < 16" for d
    using that by (auto simp: hex_digit_def)
  moreover note of_char_div_16
  ultimately show "list_all (\<lambda>c. of_char c < (128::nat)) (hexlify s)"
    by (induction s) (simp_all add: hexlify_def)
qed

end
