(* ===== verification/Formatting.thy ===== *)
theory Formatting
  imports Py_Value
begin

text \<open>
  Field formats of a transaction (\<^verbatim>\<open>src/src/xian/formatting.py\<close>).  The regular
  expressions are written as character tests over the whole string (\<^verbatim>\<open>fullmatch\<close>).
  \<^verbatim>\<open>contracting.names.is_safe_contract_name\<close> is a parameter.
\<close>

definition MIN_JSON_INTEGER :: int where
  "MIN_JSON_INTEGER = - (2 ^ 63)"

definition MAX_JSON_INTEGER :: int where
  "MAX_JSON_INTEGER = 2 ^ 64 - 1"

definition is_letter :: "char \<Rightarrow> bool" where
  "is_letter c = (of_char c \<in> {65 .. 90 :: nat} \<or> of_char c \<in> {97 .. 122 :: nat})"

definition is_digit :: "char \<Rightarrow> bool" where
  "is_digit c = (of_char c \<in> {48 .. 57 :: nat})"

definition vk_is_formatted :: "pyval \<Rightarrow> bool" where
  "vk_is_formatted s = (is_str s \<and> length (str_of s) = 64 \<and> list_all is_hex (str_of s))"

definition signature_is_formatted :: "pyval \<Rightarrow> bool" where
  "signature_is_formatted s = (is_str s \<and> length (str_of s) = 128 \<and> list_all is_hex (str_of s))"

definition identifier_is_formatted :: "pyval \<Rightarrow> bool" where
  "identifier_is_formatted s =
     (is_str s \<and>
      (case str_of s of
         [] \<Rightarrow> False
       | c # cs \<Rightarrow> is_letter c \<and> list_all (\<lambda>x. is_letter x \<or> is_digit x \<or> x = CHR ''_'') cs))"

fun json_value_is_formatted :: "pyval \<Rightarrow> bool" where
  "json_value_is_formatted (PDict kvs) =
     list_all (\<lambda>kv. is_str (fst kv) \<and> json_value_is_formatted (snd kv)) kvs"
| "json_value_is_formatted (PList xs) = list_all json_value_is_formatted xs"
| "json_value_is_formatted (PInt i) = (MIN_JSON_INTEGER \<le> i \<and> i \<le> MAX_JSON_INTEGER)"
| "json_value_is_formatted (PFloat _) = False"
| "json_value_is_formatted _ = True"

definition kwargs_are_formatted :: "pyval \<Rightarrow> bool" where
  "kwargs_are_formatted kwargs =
     (case kwargs of
        PDict kvs \<Rightarrow> list_all (\<lambda>kv. identifier_is_formatted (fst kv)) kvs \<and> json_value_is_formatted kwargs
      | _ \<Rightarrow> False)"

definition number_is_formatted :: "pyval \<Rightarrow> bool" where
  "number_is_formatted v =
     (case v of
        PInt i \<Rightarrow> if i < 0 then False else i \<le> MAX_JSON_INTEGER
      | _ \<Rightarrow> False)"

definition cid_id_formated :: "pyval \<Rightarrow> bool" where
  "cid_id_formated s = is_str s"

definition contract_name_is_formatted :: "(pyval \<Rightarrow> bool) \<Rightarrow> pyval \<Rightarrow> bool" where
  "contract_name_is_formatted is_safe_contract_name s =
     (is_safe_contract_name s \<and> prefix ''con_'' (str_of s))"

text \<open>The rule tables: a rule is a predicate or a nested table of rules.\<close>

datatype rule = RFun "pyval \<Rightarrow> bool" | RDict "(string \<times> rule) list"

definition TRANSACTION_PAYLOAD_RULES :: "(string \<times> rule) list" where
  "TRANSACTION_PAYLOAD_RULES =
     [(''sender'', RFun vk_is_formatted),
      (''nonce'', RFun number_is_formatted),
      (''chi_supplied'', RFun number_is_formatted),
      (''contract'', RFun identifier_is_formatted),
      (''function'', RFun identifier_is_formatted),
      (''kwargs'', RFun kwargs_are_formatted),
      (''chain_id'', RFun cid_id_formated)]"

definition TRANSACTION_METADATA_RULES :: "(string \<times> rule) list" where
  "TRANSACTION_METADATA_RULES = [(''signature'', RFun signature_is_formatted)]"

definition TRANSACTION_RULES :: "(string \<times> rule) list" where
  "TRANSACTION_RULES =
     [(''metadata'', RDict TRANSACTION_METADATA_RULES),
      (''payload'', RDict TRANSACTION_PAYLOAD_RULES)]"

section \<open>Lemmas\<close>

lemma number_is_formatted_iff:
  "number_is_formatted v \<longleftrightarrow> (\<exists>i. v = PInt i \<and> 0 \<le> i \<and> i < 2 ^ 64)"
  by (cases v) (auto simp: number_is_formatted_def MAX_JSON_INTEGER_def)

lemma vk_is_formatted_str: "vk_is_formatted v \<Longrightarrow> \<exists>s. v = PStr s"
  by (simp add: vk_is_formatted_def is_str_iff)

lemma identifier_is_formatted_str: "identifier_is_formatted v \<Longrightarrow> \<exists>s. v = PStr s \<and> s \<noteq> []"
  by (cases v) (auto simp: identifier_is_formatted_def)

lemma kwargs_are_formatted_dict:
  "kwargs_are_formatted v \<Longrightarrow> \<exists>kvs. v = PDict kvs \<and> (\<forall>kv\<in>set kvs. is_str (fst kv))"
  by (cases v) (auto simp: kwargs_are_formatted_def list_all_iff identifier_is_formatted_def)

end
