(* ===== verification/Encoding.thy ===== *)
theory Encoding
  imports Complex_Main Formatting
begin

text \<open>
  Canonical transaction text and bytes (\<^verbatim>\<open>src/src/xian/utils/encoding.py\<close>).
  \<^verbatim>\<open>json.loads\<close> is the parameter \<open>loads\<close>; everything else is computed here.
\<close>

section \<open>Canonical JSON\<close>

definition MIN_CANONICAL_JSON_INTEGER :: int where
  "MIN_CANONICAL_JSON_INTEGER = - (2 ^ 63)"

definition MAX_CANONICAL_JSON_INTEGER :: int where
  "MAX_CANONICAL_JSON_INTEGER = 2 ^ 64 - 1"

definition MAX_CANONICAL_JSON_DEPTH :: nat where
  "MAX_CANONICAL_JSON_DEPTH = 128"

text \<open>\<^verbatim>\<open>dict(sorted(items))\<close> for items whose keys are distinct strings.\<close>

definition sort_items :: "(string \<times> 'v) list \<Rightarrow> (string \<times> 'v) list" where
  "sort_items items = sort_key fst items"

definition str_items :: "(string \<times> pyval) list \<Rightarrow> (pyval \<times> pyval) list" where
  "str_items items = map (\<lambda>(k, v). (PStr k, v)) items"

fun canonical_json_value :: "nat \<Rightarrow> pyval \<Rightarrow> pyval res" where
  "canonical_json_value depth (PDict kvs) =
     (if MAX_CANONICAL_JSON_DEPTH < depth then Inl (ValueError ''recursion limit exceeded'')
      else rbind (mapR (\<lambda>kv. if \<not> is_str (fst kv)
                              then Inl (ValueError ''Transaction JSON object keys must be strings'')
                              else rbind (canonical_json_value (depth + 1) (snd kv))
                                     (\<lambda>item. Inr (str_of (fst kv), item))) kvs)
             (\<lambda>items. Inr (PDict (str_items (sort_items items)))))"
| "canonical_json_value depth (PList xs) =
     (if MAX_CANONICAL_JSON_DEPTH < depth then Inl (ValueError ''recursion limit exceeded'')
      else rbind (mapR (canonical_json_value (depth + 1)) xs) (\<lambda>ys. Inr (PList ys)))"
| "canonical_json_value depth (PInt i) =
     (if MAX_CANONICAL_JSON_DEPTH < depth then Inl (ValueError ''recursion limit exceeded'')
      else if \<not> (MIN_CANONICAL_JSON_INTEGER \<le> i \<and> i \<le> MAX_CANONICAL_JSON_INTEGER)
      then Inl (ValueError ''Transaction bytes are not canonical'')
      else Inr (PInt i))"
| "canonical_json_value depth (PFloat s) =
     (if MAX_CANONICAL_JSON_DEPTH < depth then Inl (ValueError ''recursion limit exceeded'')
      else Inl (ValueError ''Transaction bytes are not canonical''))"
| "canonical_json_value depth v =
     (if MAX_CANONICAL_JSON_DEPTH < depth then Inl (ValueError ''recursion limit exceeded'') else Inr v)"

definition canonical_json_text :: "pyval \<Rightarrow> string res" where
  "canonical_json_text value = rbind (canonical_json_value 0 value) json_dumps"

section \<open>Transaction bytes\<close>

definition utf8_decode :: "string \<Rightarrow> string res" where
  "utf8_decode s = (if utf8_valid s then Inr s else Inl (ValueError ''invalid utf-8''))"

definition decode_transaction_bytes :: "(string \<Rightarrow> pyval res) \<Rightarrow> string \<Rightarrow> (pyval \<times> string) res" where
  "decode_transaction_bytes loads raw =
     rbind (utf8_decode raw) (\<lambda>tx_hex.
     rbind (fromhex tx_hex) (\<lambda>tx_decoded_bytes.
     rbind (utf8_decode tx_decoded_bytes) (\<lambda>tx_str.
     rbind (loads tx_str) (\<lambda>tx_json.
     rbind (canonical_json_text tx_json) (\<lambda>canonical_tx_str.
     if tx_str \<noteq> canonical_tx_str then Inl (ValueError ''Transaction bytes are not canonical'')
     else rbind (case dindex tx_json ''payload'' of
                   Inl (KeyError _) \<Rightarrow> Inl (ValueError ''Invalid payload'')
                 | r \<Rightarrow> r) (\<lambda>payload.
     rbind (canonical_json_text payload) (\<lambda>payload_str.
     Inr (tx_json, payload_str))))))))"

definition encode_transaction_bytes :: "string \<Rightarrow> string" where
  "encode_transaction_bytes tx_str = hexlify tx_str"

section \<open>Decimal text\<close>

text \<open>
  \<^verbatim>\<open>format(value, "f")\<close> of a finite decimal: the coefficient's digits with the point
  placed by the exponent, padded with zeros.
\<close>

definition format_f :: "dec \<Rightarrow> string" where
  "format_f d =
     (let digits = nat_digits (dec_coeff d);
          body = (if 0 \<le> dec_exp d then digits @ replicate (if dec_coeff d = 0 then 0 else nat (dec_exp d)) (CHR ''0'')
                  else let k = nat (- dec_exp d);
                           padded = replicate (Suc k - length digits) (CHR ''0'') @ digits;
                           n = length padded - k
                       in take n padded @ CHR ''.'' # drop n padded)
      in (if dec_neg d then CHR ''-'' # body else body))"

definition rstrip :: "char \<Rightarrow> string \<Rightarrow> string" where
  "rstrip c s = rev (dropWhile (\<lambda>x. x = c) (rev s))"

definition decimal_to_plain_string :: "dec \<Rightarrow> string" where
  "decimal_to_plain_string value =
     (let text = format_f value;
          text' = (if CHR ''.'' \<in> set text then rstrip (CHR ''.'') (rstrip (CHR ''0'') text) else text)
      in if text' = [] \<or> text' = ''-0'' then ''0'' else text')"

section \<open>Canonical values are sorted and stable\<close>

text \<open>What \<^const>\<open>canonical_json_value\<close> establishes: keys sorted, integers in range, no float.\<close>

fun canonical :: "pyval \<Rightarrow> bool" where
  "canonical (PDict kvs) =
     (list_all (\<lambda>kv. is_str (fst kv) \<and> canonical (snd kv)) kvs \<and> sorted (map (\<lambda>kv. str_of (fst kv)) kvs))"
| "canonical (PList xs) = list_all canonical xs"
| "canonical (PInt i) = (MIN_CANONICAL_JSON_INTEGER \<le> i \<and> i \<le> MAX_CANONICAL_JSON_INTEGER)"
| "canonical (PFloat _) = False"
| "canonical _ = True"


lemma sort_items_sorted: "sorted (map fst (sort_items items))"
  by (simp add: sort_items_def)

lemma set_sort_items [simp]: "set (sort_items items) = set items"
  by (simp add: sort_items_def)

lemma map_fst_str_items: "map (\<lambda>kv. str_of (fst kv)) (str_items items) = map fst items"
  by (simp add: str_items_def comp_def case_prod_beta)

lemma canonical_str_items:
  "canonical (PDict (str_items (sort_items items))) \<longleftrightarrow> (\<forall>kv\<in>set items. canonical (snd kv))"
proof -
  have "canonical (PDict (str_items (sort_items items))) \<longleftrightarrow>
      list_all (\<lambda>kv. is_str (fst kv) \<and> canonical (snd kv)) (str_items (sort_items items))"
    by (simp add: map_fst_str_items sort_items_sorted)
  also have "\<dots> \<longleftrightarrow> (\<forall>kv\<in>set items. canonical (snd kv))"
    by (auto simp: str_items_def list_all_iff)
  finally show ?thesis .
qed

lemma canonical_json_value_canonical:
  "canonical_json_value depth v = Inr w \<Longrightarrow> canonical w"
proof (induction depth v arbitrary: w rule: canonical_json_value.induct)
  case (1 depth kvs)
  then obtain items where w: "w = PDict (str_items (sort_items items))"
    and deep: "\<not> MAX_CANONICAL_JSON_DEPTH < depth"
    and items: "mapR (\<lambda>kv. if \<not> is_str (fst kv)
        then Inl (ValueError ''Transaction JSON object keys must be strings'')
        else rbind (canonical_json_value (depth + 1) (snd kv)) (\<lambda>item. Inr (str_of (fst kv), item))) kvs
        = Inr items"
    by (auto simp: rbind_Inr_iff split: if_splits)
  have "canonical (snd it)" if "it \<in> set items" for it
  proof -
    from mapR_in_set [OF items that] obtain kv where "kv \<in> set kvs" "is_str (fst kv)"
      "canonical_json_value (depth + 1) (snd kv) = Inr (snd it)"
      by (auto simp: rbind_Inr_iff split: if_splits)
    with "1.IH" [of kv "snd it"] deep show ?thesis by simp
  qed
  then show ?case by (simp add: w canonical_str_items del: canonical.simps)
next
  case (2 depth xs)
  then obtain ys where w: "w = PList ys" and deep: "\<not> MAX_CANONICAL_JSON_DEPTH < depth"
    and ys: "mapR (canonical_json_value (depth + 1)) xs = Inr ys"
    by (auto simp: rbind_Inr_iff split: if_splits)
  have "canonical y" if "y \<in> set ys" for y
    using mapR_in_set [OF ys that] "2.IH" deep by auto
  then show ?case by (simp add: w list_all_iff)
qed (auto split: if_splits)


lemma sort_items_idem [simp]: "sort_items (sort_items items) = sort_items items"
  by (simp add: sort_items_def sort_key_id_if_sorted)

lemma canonical_json_value_idem:
  "canonical_json_value depth v = Inr w \<Longrightarrow> canonical_json_value depth w = Inr w"
proof (induction depth v arbitrary: w rule: canonical_json_value.induct)
  case (1 depth kvs)
  let ?f = "\<lambda>kv. if \<not> is_str (fst kv)
        then Inl (ValueError ''Transaction JSON object keys must be strings'')
        else rbind (canonical_json_value (depth + 1) (snd kv)) (\<lambda>item. Inr (str_of (fst kv), item))"
  from 1 obtain items where w: "w = PDict (str_items (sort_items items))"
    and deep: "\<not> MAX_CANONICAL_JSON_DEPTH < depth" and items: "mapR ?f kvs = Inr items"
    by (auto simp: rbind_Inr_iff split: if_splits)
  have stable: "canonical_json_value (depth + 1) (snd it) = Inr (snd it)" if "it \<in> set items" for it
  proof -
    from mapR_in_set [OF items that] obtain kv where "kv \<in> set kvs" "is_str (fst kv)"
      "canonical_json_value (depth + 1) (snd kv) = Inr (snd it)"
      by (auto simp: rbind_Inr_iff split: if_splits)
    with "1.IH" [of kv "snd it"] deep show ?thesis by simp
  qed
  have "mapR ?f (str_items (sort_items items)) =
      Inr (map (\<lambda>kv. (str_of (fst kv), snd kv)) (str_items (sort_items items)))"
    by (rule mapR_total) (auto simp: str_items_def dest: stable)
  also have "map (\<lambda>kv. (str_of (fst kv), snd kv)) (str_items (sort_items items)) = sort_items items"
    by (simp add: str_items_def comp_def case_prod_beta)
  finally show ?case using deep by (simp add: w)
next
  case (2 depth xs)
  then obtain ys where w: "w = PList ys" and deep: "\<not> MAX_CANONICAL_JSON_DEPTH < depth"
    and ys: "mapR (canonical_json_value (depth + 1)) xs = Inr ys"
    by (auto simp: rbind_Inr_iff split: if_splits)
  have "mapR (canonical_json_value (depth + 1)) ys = Inr (map (\<lambda>y. y) ys)"
    by (rule mapR_total) (use mapR_in_set [OF ys] "2.IH" deep in auto)
  with deep show ?case by (simp add: w)
qed (auto split: if_splits)

text \<open>The order in which a dict's items were inserted does not show in the canonical value.\<close>

lemma mapR_perm:
  assumes "mapR f xs = Inr ys" "mset xs = mset xs'"
  shows "\<exists>ys'. mapR f xs' = Inr ys' \<and> mset ys' = mset ys"
proof -
  define g where "g = (\<lambda>x. projr (f x))"
  have f: "f x = Inr (g x)" if "x \<in> set xs" for x
    using assms(1) that by (auto simp: mapR_Inr_iff g_def list_all2_conv_all_nth in_set_conv_nth)
  have "ys = map g xs" using mapR_total [of xs f g] f assms(1) by simp
  moreover have "mapR f xs' = Inr (map g xs')"
    by (rule mapR_total) (use f assms(2) in \<open>auto dest: mset_eq_setD\<close>)
  ultimately show ?thesis using assms(2) by simp
qed

lemma sort_items_perm:
  fixes items items' :: "(string \<times> 'v) list"
  assumes "dict_wf items" "mset items = mset items'"
  shows "sort_items items = sort_items items'"
proof (rule sorted_dict_unique)
  have "mset (map fst items) = mset (map fst items')" using assms(2) by simp
  then show wf': "dict_wf (sort_items items')"
    using assms(1) by (metis dict_wf_def dict_wf_sort_key mset_eq_imp_distinct_iff sort_items_def)
  show "map_of (sort_items items) = map_of (sort_items items')"
    using assms map_of_sort_key map_of_perm wf' unfolding sort_items_def by (metis dict_wf_sort_key)
qed (use assms in \<open>simp_all add: sort_items_def\<close>)

section \<open>Decimal text depends on the value only\<close>

lemma nat_digits_mult10: "0 < c \<Longrightarrow> nat_digits (10 * c) = nat_digits c @ [CHR ''0'']"
  by (subst nat_digits.simps) (simp add: digit_char_0)

lemma length_nat_digits_pos: "0 < length (nat_digits n)"
  by (subst nat_digits.simps) simp

lemma set_nat_digits: "set (nat_digits n) \<subseteq> digit_char ` {..<10}"
proof (induction n rule: nat_digits.induct)
  case (1 n)
  show ?case
    by (subst nat_digits.simps) (use 1 in auto)
qed

lemma no_point_in_digits: "CHR ''.'' \<notin> set (nat_digits n)"
proof
  assume "CHR ''.'' \<in> set (nat_digits n)"
  then obtain d where "d < 10" "CHR ''.'' = digit_char d" using set_nat_digits [of n] by auto
  then have "of_char (CHR ''.'') = (of_char (digit_char d) :: nat)" by simp
  with \<open>d < 10\<close> show False by (simp add: digit_char_def take_bit_nat_eq_self)
qed

lemma rstrip_snoc: "rstrip c (s @ [c]) = rstrip c s" "x \<noteq> c \<Longrightarrow> rstrip c (s @ [x]) = s @ [x]"
  by (simp_all add: rstrip_def)

lemma rstrip_id: "s \<noteq> [] \<Longrightarrow> last s \<noteq> c \<Longrightarrow> rstrip c s = s"
  by (cases s rule: rev_cases) (simp_all add: rstrip_snoc)


lemma rstrip_replicate: "rstrip c (s @ replicate k c) = rstrip c s"
  by (induction k) (simp_all add: replicate_append_same [symmetric] rstrip_snoc(1) flip: append_assoc)

lemma plain_string_zero: "decimal_to_plain_string (Dec neg 0 e) = ''0''"
proof (cases "0 \<le> e")
  case True
  then show ?thesis
    by (simp add: decimal_to_plain_string_def format_f_def nat_digits.simps [of 0] digit_char_0 Let_def)
next
  case False
  define k where "k = nat (- e)"
  have fmt: "format_f (Dec neg 0 e) = (if neg then ''-0.'' else ''0.'') @ replicate k (CHR ''0'')"
  proof -
    obtain m where m: "k = Suc m" using False by (cases k) (auto simp: k_def)
    then have "replicate m (CHR ''0'') @ ''0'' = replicate k (CHR ''0'')"
      by (simp add: replicate_append_same)
    then show ?thesis
      using False by (simp add: format_f_def Let_def k_def [symmetric] m nat_digits.simps [of 0] digit_char_0)
  qed
  have "rstrip (CHR ''0'') (format_f (Dec neg 0 e)) = (if neg then ''-0.'' else ''0.'')"
    unfolding fmt rstrip_replicate by (simp add: rstrip_def)
  moreover have "CHR ''.'' \<in> set (format_f (Dec neg 0 e))" unfolding fmt by simp
  ultimately show ?thesis
    by (simp add: decimal_to_plain_string_def Let_def rstrip_def)
qed

lemma rstrip_Cons: "rstrip c s \<noteq> [] \<Longrightarrow> rstrip c (x # s) = x # rstrip c s"
  by (simp add: rstrip_def dropWhile_append)

lemma format_f_step:
  assumes "0 < c"
  shows "e < 0 \<Longrightarrow> format_f (Dec neg (10 * c) (e - 1)) = format_f (Dec neg c e) @ ''0''"
    and "0 < e \<Longrightarrow> format_f (Dec neg (10 * c) (e - 1)) = format_f (Dec neg c e)"
    and "format_f (Dec neg (10 * c) (- 1)) = format_f (Dec neg c 0) @ ''.0''"
proof -
  let ?ds = "nat_digits c"
  show "format_f (Dec neg (10 * c) (e - 1)) = format_f (Dec neg c e) @ ''0''" if "e < 0"
  proof -
    define k where "k = nat (- e)"
    let ?p = "replicate (Suc k - length ?ds) (CHR ''0'') @ ?ds"
    have k: "nat (- (e - 1)) = Suc k" "nat (1 - e) = Suc k" using that by (simp_all add: k_def)
    have "length ?p - k \<le> length ?p" by simp
    then show ?thesis
      using that assms by (simp add: format_f_def Let_def k k_def [symmetric] nat_digits_mult10 Suc_diff_le)
  qed
  show "format_f (Dec neg (10 * c) (e - 1)) = format_f (Dec neg c e)" if "0 < e"
  proof -
    have "nat e = Suc (nat (e - 1))" using that by simp
    then show ?thesis using that assms by (simp add: format_f_def Let_def nat_digits_mult10)
  qed
  show "format_f (Dec neg (10 * c) (- 1)) = format_f (Dec neg c 0) @ ''.0''"
    using assms length_nat_digits_pos [of c]
    by (simp add: format_f_def Let_def nat_digits_mult10 Suc_le_eq)
qed


lemma format_f_point: "CHR ''.'' \<in> set (format_f (Dec neg c e)) \<longleftrightarrow> e < 0"
  using no_point_in_digits [of c] by (auto simp: format_f_def Let_def)

lemma plain_string_step:
  assumes "0 < c"
  shows "decimal_to_plain_string (Dec neg (10 * c) (e - 1)) = decimal_to_plain_string (Dec neg c e)"
proof -
  consider "e < 0" | "0 < e" | "e = 0" by linarith
  then show ?thesis
  proof cases
    case 1
    then have "rstrip (CHR ''0'') (format_f (Dec neg (10 * c) (e - 1))) = rstrip (CHR ''0'') (format_f (Dec neg c e))"
      by (simp only: format_f_step(1) [OF assms] rstrip_snoc)
    moreover from 1 have "e - 1 < 0" by simp
    ultimately show ?thesis
      using 1 by (simp only: decimal_to_plain_string_def format_f_point Let_def if_True)
  next
    case 2
    then have "format_f (Dec neg (10 * c) (e - 1)) = format_f (Dec neg c e)"
      by (rule format_f_step(2) [OF assms])
    then show ?thesis by (simp only: decimal_to_plain_string_def)
  next
    case 3
    let ?t = "format_f (Dec neg c 0)"
    have no_point: "CHR ''.'' \<notin> set ?t" by (simp add: format_f_point)
    have "?t \<noteq> []" using length_nat_digits_pos [of c] by (auto simp: format_f_def Let_def)
    with no_point have "rstrip (CHR ''.'') ?t = ?t" by (intro rstrip_id) (auto dest: last_in_set)
    moreover have "rstrip (CHR ''0'') (?t @ ''.0'') = ?t @ ''.''"
      using rstrip_snoc(1) [of "CHR ''0''" "?t @ ''.''"] rstrip_snoc(2) [of "CHR ''.''" "CHR ''0''" ?t] by simp
    ultimately have "rstrip (CHR ''.'') (rstrip (CHR ''0'') (?t @ ''.0'')) = ?t"
      by (simp only: rstrip_snoc)
    moreover have "CHR ''.'' \<in> set (?t @ ''.0'')" by simp
    ultimately have "decimal_to_plain_string (Dec neg (10 * c) (- 1)) = (if ?t = [] \<or> ?t = ''-0'' then ''0'' else ?t)"
      by (simp only: decimal_to_plain_string_def format_f_step(3) [OF assms] Let_def if_True)
    with no_point 3 show ?thesis by (simp add: decimal_to_plain_string_def Let_def)
  qed
qed

lemma plain_string_shift:
  assumes "0 < c"
  shows "decimal_to_plain_string (Dec neg (c * 10 ^ k) (e - int k)) = decimal_to_plain_string (Dec neg c e)"
proof (induction k)
  case (Suc k)
  have "Dec neg (c * 10 ^ Suc k) (e - int (Suc k)) = Dec neg (10 * (c * 10 ^ k)) (e - int k - 1)" by simp
  moreover have "0 < c * 10 ^ k" using assms by simp
  ultimately show ?case using Suc plain_string_step [of "c * 10 ^ k" neg "e - int k"] by (simp only:)
qed simp

definition dec_value :: "dec \<Rightarrow> rat" where
  "dec_value d = (if dec_neg d then - 1 else 1) * of_nat (dec_coeff d) * 10 powi dec_exp d"

lemma dec_value_eq_0: "dec_value (Dec neg c e) = 0 \<longleftrightarrow> c = 0"
  by (simp add: dec_value_def)

lemma plain_string_value_le:
  assumes "dec_value (Dec n1 c1 e1) = dec_value (Dec n2 c2 e2)" "0 < c1" "e2 \<le> e1"
  shows "decimal_to_plain_string (Dec n1 c1 e1) = decimal_to_plain_string (Dec n2 c2 e2)"
proof -
  define k where "k = nat (e1 - e2)"
  have e1: "e1 = e2 + int k" using assms(3) by (simp add: k_def)
  have "(10::rat) powi e1 = 10 powi e2 * 10 ^ k" by (simp add: e1 power_int_add)
  with assms(1) have eq: "(if n1 then - 1 else 1) * of_nat (c1 * 10 ^ k) = (if n2 then - 1 else 1) * (of_nat c2 :: rat)"
    by (simp add: dec_value_def)
  have pos: "(0::rat) < of_nat (c1 * 10 ^ k)" using assms(2) by simp
  have n: "n1 = n2"
  proof (rule ccontr)
    assume "n1 \<noteq> n2"
    with eq have "(of_nat (c1 * 10 ^ k) :: rat) = - of_nat c2" by (cases n1; cases n2; simp)
    moreover have "(0::rat) \<le> of_nat c2" by simp
    ultimately show False using pos by linarith
  qed
  with eq have "(of_nat (c1 * 10 ^ k) :: rat) = of_nat c2" by (cases n2) simp_all
  then have "c2 = c1 * 10 ^ k" by (simp only: of_nat_eq_iff)
  moreover have "e2 = e1 - int k" by (simp add: e1)
  ultimately show ?thesis using plain_string_shift [OF assms(2)] n by simp
qed


section \<open>Properties\<close>

lemma decode_transaction_bytes_Inr:
  assumes "decode_transaction_bytes loads raw = Inr (tx, p)"
  shows "\<exists>s payload. fromhex raw = Inr s \<and> utf8_valid raw \<and> utf8_valid s \<and> loads s = Inr tx \<and>
    canonical_json_text tx = Inr s \<and> dget tx ''payload'' = Some payload \<and> canonical_json_text payload = Inr p"
proof -
  from assms obtain s payload where "fromhex raw = Inr s" "utf8_valid raw" "utf8_valid s"
    "loads s = Inr tx" "canonical_json_text tx = Inr s" "canonical_json_text payload = Inr p"
    and payload: "(case dindex tx ''payload'' of
        Inl (KeyError _) \<Rightarrow> Inl (ValueError ''Invalid payload'') | r \<Rightarrow> r) = Inr payload"
    unfolding decode_transaction_bytes_def utf8_decode_def
    by (simp add: rbind_Inr_iff split: if_splits) blast
  moreover from payload have "dget tx ''payload'' = Some payload"
    by (simp add: dindex_Inr_iff [symmetric] split: sum.splits exc.splits)
  ultimately show ?thesis by blast
qed

text \<open>Two decimals of the same numeric value have the same text in receipts, events and
  state-root leaves, whatever their sign of zero, trailing zeros or exponent.\<close>

theorem plain_string_of_value:
  assumes "dec_value a = dec_value b"
  shows "decimal_to_plain_string a = decimal_to_plain_string b"
proof -
  obtain n1 c1 e1 n2 c2 e2 where ab: "a = Dec n1 c1 e1" "b = Dec n2 c2 e2"
    by (cases a; cases b)
  show ?thesis
  proof (cases "c1 = 0")
    case True
    then have "c2 = 0" using assms dec_value_eq_0 ab by metis
    with True show ?thesis by (simp add: ab plain_string_zero)
  next
    case False
    then have "c2 \<noteq> 0" using assms dec_value_eq_0 ab by metis
    with False show ?thesis
      using plain_string_value_le [of n1 c1 e1 n2 c2 e2] plain_string_value_le [of n2 c2 e2 n1 c1 e1]
        assms by (cases "e2 \<le> e1") (simp_all add: ab)
  qed
qed

theorem plain_string_of_value_witness:
  "decimal_to_plain_string (Dec True 1500 (- 3)) = decimal_to_plain_string (Dec True 15 (- 1)) \<and>
   decimal_to_plain_string (Dec True 15 (- 1)) = ''-1.5''"
proof -
  have "dec_value (Dec True 1500 (- 3)) = dec_value (Dec True 15 (- 1))"
    by (simp add: dec_value_def power_int_minus)
  from plain_string_of_value [OF this] show ?thesis by code_simp
qed

text \<open>C16: A transaction that decode\_transaction\_bytes accepts is canonical.  For a parser that reads
  the canonical text of the transaction back as the value that text was made from, the returned
  transaction is its own canonical form, so its object keys are sorted at every level, its
  integers are in range and it holds no float; the hex-decoded bytes are exactly its compact
  text, and the returned payload text is the canonical text of its payload.\<close>

theorem decoded_bytes_are_canonical:
  assumes reads: "\<And>w s. canonical_json_value 0 tx = Inr w \<Longrightarrow> json_dumps w = Inr s \<Longrightarrow> loads s = Inr w"
    and dec: "decode_transaction_bytes loads raw = Inr (tx, p)"
  shows "canonical tx \<and> canonical_json_value 0 tx = Inr tx \<and>
    (\<exists>s payload. fromhex raw = Inr s \<and> json_dumps tx = Inr s \<and>
       dget tx ''payload'' = Some payload \<and> canonical_json_text payload = Inr p)"
proof -
  obtain s w payload where d: "fromhex raw = Inr s" "loads s = Inr tx" "canonical_json_value 0 tx = Inr w"
    "json_dumps w = Inr s" "dget tx ''payload'' = Some payload" "canonical_json_text payload = Inr p"
    using decode_transaction_bytes_Inr [OF dec] unfolding canonical_json_text_def by (fastforce simp: rbind_Inr_iff)
  have "w = tx" using reads [OF d(3,4)] d(2) by simp
  then show ?thesis using d canonical_json_value_canonical [OF d(3)] by simp
qed

abbreviation ping_tx :: pyval where
  "ping_tx \<equiv> PDict [(PStr ''payload'', PDict [(PStr ''nonce'', PInt 7)])]"

abbreviation ping_text :: string where
  "ping_text \<equiv> [CHR ''{'', CHR 0x22, CHR ''p'', CHR ''a'', CHR ''y'', CHR ''l'', CHR ''o'', CHR ''a'', CHR ''d'', CHR 0x22, CHR '':'', CHR ''{'', CHR 0x22, CHR ''n'', CHR ''o'', CHR ''n'', CHR ''c'', CHR ''e'', CHR 0x22, CHR '':'', CHR ''7'', CHR ''}'', CHR ''}'']"

theorem decoded_bytes_are_canonical_witness:
  "canonical ping_tx \<and> fromhex (hexlify ping_text) = Inr ping_text \<and> json_dumps ping_tx = Inr ping_text"
proof -
  let ?loads = "\<lambda>t. if t = ping_text then Inr ping_tx else Inl (ValueError [])"
  have form: "canonical_json_value 0 ping_tx = Inr ping_tx" "json_dumps ping_tx = Inr ping_text" by code_simp+
  have "decode_transaction_bytes ?loads (hexlify ping_text) = Inr (ping_tx, drop 11 (take 22 ping_text))" by code_simp
  moreover have "?loads s = Inr w" if "canonical_json_value 0 ping_tx = Inr w" "json_dumps w = Inr s" for w s
  proof -
    have "w = ping_tx" using that(1) unfolding form(1) by (metis sum.inject(2))
    then have "s = ping_text" using that(2) form(2) by (metis sum.inject(2))
    with \<open>w = ping_tx\<close> show ?thesis by (simp only: if_True simp_thms)
  qed
  ultimately have c: "canonical ping_tx \<and> canonical_json_value 0 ping_tx = Inr ping_tx \<and>
      (\<exists>s payload. fromhex (hexlify ping_text) = Inr s \<and> json_dumps ping_tx = Inr s \<and>
         dget ping_tx ''payload'' = Some payload \<and> canonical_json_text payload = Inr (drop 11 (take 22 ping_text)))"
    by (intro decoded_bytes_are_canonical [of ping_tx ?loads "hexlify ping_text"])
  then show ?thesis unfolding form(2) sum.inject by (elim conjE exE) (simp only: simp_thms)
qed

text \<open>C15: Encoding the canonical text of a canonical transaction and decoding the bytes returns the
  transaction together with the canonical text of its payload, for every parser that reads back
  that text.\<close>

theorem transaction_bytes_roundtrip:
  assumes "canonical_json_value 0 tx = Inr tx" and "json_dumps tx = Inr s" and "utf8_valid s"
    and "loads s = Inr tx" and "dget tx ''payload'' = Some payload"
    and "canonical_json_text payload = Inr p"
  shows "decode_transaction_bytes loads (encode_transaction_bytes s) = Inr (tx, p)"
proof -
  have "dindex tx ''payload'' = Inr payload" using assms(5) by (simp add: dindex_Inr_iff)
  with assms show ?thesis
    by (simp add: decode_transaction_bytes_def encode_transaction_bytes_def utf8_decode_def
        utf8_valid_hexlify canonical_json_text_def)
qed

theorem transaction_bytes_roundtrip_witness:
  "decode_transaction_bytes (\<lambda>t. Inr ping_tx) (encode_transaction_bytes ping_text) =
     Inr (ping_tx, drop 11 (take 22 ping_text))"
proof (rule transaction_bytes_roundtrip)
  show "canonical_json_value 0 ping_tx = Inr ping_tx" by code_simp
  show "json_dumps ping_tx = Inr ping_text" by code_simp
  show "utf8_valid ping_text" by code_simp
  show "dget ping_tx ''payload'' = Some (PDict [(PStr ''nonce'', PInt 7)])" by simp
  show "canonical_json_text (PDict [(PStr ''nonce'', PInt 7)]) = Inr (drop 11 (take 22 ping_text))"
    by code_simp
qed simp

text \<open>The canonicality check looks at the text under the hex layer only: white space before the
  hex digits of any transaction is accepted and decodes to the same transaction, so one signed
  transaction has many raw encodings with different hashes.\<close>

theorem raw_hex_layer_not_canonical:
  "decode_transaction_bytes loads (CHR '' '' # raw) = decode_transaction_bytes loads raw"
proof -
  have "fromhex (CHR '' '' # raw) = fromhex raw"
    by (cases raw) (simp_all add: is_ascii_space_def)
  then show ?thesis by (simp add: decode_transaction_bytes_def utf8_decode_def)
qed

end
