(* ===== verification/Abci_Json.thy ===== *)
theory Abci_Json
  imports Encoding
begin

text \<open>
  The JSON text of ABCI results and of state leaves, and the remaining helpers of
  \<^verbatim>\<open>src/src/xian/utils/encoding.py\<close>.  Third-party parts are in \<open>json_env\<close>: the test for a
  wrapped set and its encoding, the text of an exception object, the text of other objects
  that are not JSON, and the representation of bytes that are not UTF-8.
\<close>

record json_env =
  je_is_wrapper_set :: "pyval \<Rightarrow> bool"
  je_encode_set_value :: "pyval \<Rightarrow> pyval"
  je_exception_text :: "pyval \<Rightarrow> string option"
  je_bytes_repr :: "string \<Rightarrow> string"

section \<open>ASCII JSON text\<close>

text \<open>The code points of UTF-8 text.\<close>

fun code_points :: "string \<Rightarrow> nat list" where
  "code_points [] = []"
| "code_points (a # s) =
     (let n = of_char a in
      if n < 0x80 then n # code_points s
      else if n < 0xE0 then
        (case s of b # s1 \<Rightarrow> ((n - 0xC0) * 64 + (of_char b - 0x80)) # code_points s1 | _ \<Rightarrow> [])
      else if n < 0xF0 then
        (case s of b # c # s2 \<Rightarrow>
           ((n - 0xE0) * 4096 + (of_char b - 0x80) * 64 + (of_char c - 0x80)) # code_points s2
         | _ \<Rightarrow> [])
      else
        (case s of b # c # d # s3 \<Rightarrow>
           ((n - 0xF0) * 262144 + (of_char b - 0x80) * 4096 + (of_char c - 0x80) * 64 + (of_char d - 0x80))
             # code_points s3
         | _ \<Rightarrow> []))"

definition u_escape :: "nat \<Rightarrow> string" where
  "u_escape n =
     [CHR 0x5C, CHR ''u'', hex_digit (n div 4096), hex_digit (n div 256 mod 16), hex_digit (n div 16 mod 16),
      hex_digit (n mod 16)]"

definition ascii_escape :: "nat \<Rightarrow> string" where
  "ascii_escape n =
     (if n = 0x22 then [CHR 0x5C, CHR 0x22]
      else if n = 0x5C then [CHR 0x5C, CHR 0x5C]
      else if n = 0x0A then [CHR 0x5C, CHR ''n'']
      else if n = 0x0D then [CHR 0x5C, CHR ''r'']
      else if n = 0x09 then [CHR 0x5C, CHR ''t'']
      else if n = 0x08 then [CHR 0x5C, CHR ''b'']
      else if n = 0x0C then [CHR 0x5C, CHR ''f'']
      else if 32 \<le> n \<and> n \<le> 126 then [char_of n]
      else if n < 0x10000 then u_escape n
      else u_escape (0xD800 + (n - 0x10000) div 1024) @ u_escape (0xDC00 + (n - 0x10000) mod 1024))"

definition ascii_json_string :: "string \<Rightarrow> string" where
  "ascii_json_string s = CHR 0x22 # concat (map ascii_escape (code_points s)) @ [CHR 0x22]"

text \<open>\<^verbatim>\<open>json.dumps(v, separators=(",", ":"))\<close>, which escapes every character outside ASCII.\<close>

fun ascii_json_dumps :: "pyval \<Rightarrow> string res" where
  "ascii_json_dumps (PStr s) = Inr (ascii_json_string s)"
| "ascii_json_dumps (PList xs) =
     rbind (mapR ascii_json_dumps xs) (\<lambda>ts. Inr (CHR ''['' # join_comma ts @ '']''))"
| "ascii_json_dumps (PTuple xs) =
     rbind (mapR ascii_json_dumps xs) (\<lambda>ts. Inr (CHR ''['' # join_comma ts @ '']''))"
| "ascii_json_dumps (PDict kvs) =
     rbind (mapR (\<lambda>kv. if is_str (fst kv)
                        then rbind (ascii_json_dumps (snd kv))
                               (\<lambda>t. Inr (ascii_json_string (str_of (fst kv)) @ CHR '':'' # t))
                        else Inl (TypeError ''keys must be str'')) kvs)
       (\<lambda>ts. Inr (CHR ''{'' # join_comma ts @ ''}''))"
| "ascii_json_dumps v = json_dumps v"

fun join_spaced :: "string list \<Rightarrow> string" where
  "join_spaced [] = []"
| "join_spaced [x] = x"
| "join_spaced (x # y # zs) = x @ '', '' @ join_spaced (y # zs)"

text \<open>\<^verbatim>\<open>json.dumps(v)\<close> with its default separators, a comma or a colon and a space.\<close>

fun spaced_json_dumps :: "pyval \<Rightarrow> string res" where
  "spaced_json_dumps (PList xs) =
     rbind (mapR spaced_json_dumps xs) (\<lambda>ts. Inr (CHR ''['' # join_spaced ts @ '']''))"
| "spaced_json_dumps (PTuple xs) =
     rbind (mapR spaced_json_dumps xs) (\<lambda>ts. Inr (CHR ''['' # join_spaced ts @ '']''))"
| "spaced_json_dumps (PDict kvs) =
     rbind (mapR (\<lambda>kv. if is_str (fst kv)
                        then rbind (spaced_json_dumps (snd kv)) (\<lambda>t. Inr (ascii_json_string (str_of (fst kv)) @ '': '' @ t))
                        else Inl (TypeError ''keys must be str'')) kvs)
       (\<lambda>ts. Inr (CHR ''{'' # join_spaced ts @ ''}''))"
| "spaced_json_dumps v = ascii_json_dumps v"

text \<open>JSON text exists for every value made of text, numbers, truth values, lists and dicts.\<close>

fun json_plain :: "pyval \<Rightarrow> bool" where
  "json_plain (PList xs) = list_all json_plain xs"
| "json_plain (PDict kvs) = list_all (\<lambda>kv. is_str (fst kv) \<and> json_plain (snd kv)) kvs"
| "json_plain (PStr _) = True"
| "json_plain (PInt _) = True"
| "json_plain PNone = True"
| "json_plain (PBool _) = True"
| "json_plain (PFloat _) = True"
| "json_plain _ = False"

lemma dumps_plain: "json_plain v \<Longrightarrow> is_ok (ascii_json_dumps v)"
proof (induction v rule: json_plain.induct)
  case (1 xs)
  then have "is_ok (mapR ascii_json_dumps xs)" by (intro mapR_is_ok) (auto simp: list_all_iff)
  then show ?case by (auto simp: is_ok_iff)
next
  case (2 kvs)
  let ?f = "\<lambda>kv. if is_str (fst kv)
     then rbind (ascii_json_dumps (snd kv)) (\<lambda>t. Inr (ascii_json_string (str_of (fst kv)) @ CHR '':'' # t))
     else Inl (TypeError ''keys must be str'')"
  have "is_ok (?f kv)" if "kv \<in> set kvs" for kv
  proof -
    have "is_str (fst kv)" "is_ok (ascii_json_dumps (snd kv))" using 2 that by (auto simp: list_all_iff)
    then show ?thesis by (auto simp: is_ok_iff rbind_Inr_iff)
  qed
  then have "is_ok (mapR ?f kvs)" by (rule mapR_is_ok)
  then show ?case by (auto simp: is_ok_iff)
qed simp_all

section \<open>Normalisation\<close>

definition decode_or_repr :: "json_env \<Rightarrow> string \<Rightarrow> string" where
  "decode_or_repr E b = (if utf8_valid b then b else je_bytes_repr E b)"

function normalize_for_abci_json :: "json_env \<Rightarrow> pyval \<Rightarrow> pyval res" where
  "normalize_for_abci_json E v =
     (if je_is_wrapper_set E v then Inr (je_encode_set_value E v)
      else case je_exception_text E v of
        Some t \<Rightarrow> Inr (PStr t)
      | None \<Rightarrow>
          (case v of
             PDec d \<Rightarrow> Inr (PStr (decimal_to_plain_string d))
           | PDatetime t \<Rightarrow> Inr (PStr t)
           | PBytes b \<Rightarrow> Inr (PStr (decode_or_repr E b))
           | PDict kvs \<Rightarrow>
               rbind (mapR (\<lambda>kv. if \<not> is_str (fst kv) then Inl (AssertionError ''Non-string key types not allowed.'')
                                  else rbind (normalize_for_abci_json E (snd kv)) (\<lambda>item. Inr (str_of (fst kv), item))) kvs)
                 (\<lambda>normalized. Inr (PDict (str_items (sort_items normalized))))
           | PTuple xs \<Rightarrow> rbind (mapR (normalize_for_abci_json E) xs) (\<lambda>ys. Inr (PList ys))
           | PList xs \<Rightarrow> rbind (mapR (normalize_for_abci_json E) xs) (\<lambda>ys. Inr (PList ys))
           | _ \<Rightarrow> Inr v))"
  by pat_completeness auto
termination
  by (relation "measure (size \<circ> snd)") (auto simp: size_list_elem size_dict_value)

declare normalize_for_abci_json.simps [simp del]

definition encode_abci_json :: "json_env \<Rightarrow> pyval \<Rightarrow> string res" where
  "encode_abci_json E obj = rbind (normalize_for_abci_json E obj) ascii_json_dumps"

text \<open>
  \<^verbatim>\<open>stringify_decimals\<close>: decimals, times and bytes become text; nothing in it raises on the
  values of the model.
\<close>

fun stringify_decimals :: "json_env \<Rightarrow> pyval \<Rightarrow> pyval" where
  "stringify_decimals E (PDec d) = PStr (decimal_to_plain_string d)"
| "stringify_decimals E (PDict kvs) = PDict (map (\<lambda>kv. (fst kv, stringify_decimals E (snd kv))) kvs)"
| "stringify_decimals E (PList xs) = PList (map (stringify_decimals E) xs)"
| "stringify_decimals E (PDatetime t) = PStr t"
| "stringify_decimals E (PBytes b) = PStr (decode_or_repr E b)"
| "stringify_decimals E v = v"

definition convert_binary_to_hex :: "string \<Rightarrow> string" where
  "convert_binary_to_hex binary_data = hexlify binary_data"

definition hash_bytes :: "(string \<Rightarrow> string) \<Rightarrow> string \<Rightarrow> string" where
  "hash_bytes sha256 bytes = hexlify (sha256 bytes)"

end
