(* ===== verification/Driver.thy ===== *)
theory Driver
  imports Py_Value
begin

text \<open>
  The storage driver of the contracting runtime (\<^verbatim>\<open>client.raw_driver\<close>), which the
  application calls and which is not part of the repository.  A driver is a record of the
  operations the sources use, over an arbitrary state type; what the sources rely on is the
  predicate \<open>driver_laws\<close>: reads see the last write, writes stay off the disk until
  \<^verbatim>\<open>hard_apply\<close> or \<^verbatim>\<open>commit\<close>, and \<^verbatim>\<open>flush_cache\<close> falls back to what is on disk.  Detaching takes the
  pending state out of the live driver, attaching puts it back; the detached part is kept as a
  driver state of its own, and so is a snapshot.  Read tracking and the per-transaction journals
  do not change what is read.  Theorems that
  need the laws take \<open>driver_laws\<close> as a hypothesis; \<open>mem_driver\<close> is a driver with
  which they hold.  A missing key reads as \<^verbatim>\<open>None\<close>.
\<close>

record 'd driver =
  d_get :: "'d \<Rightarrow> string \<Rightarrow> pyval"
  d_set :: "string \<Rightarrow> pyval \<Rightarrow> 'd \<Rightarrow> 'd"
  d_value_from_disk :: "'d \<Rightarrow> string \<Rightarrow> pyval"
  d_pending_writes :: "'d \<Rightarrow> (string, pyval) dict"
  d_items :: "'d \<Rightarrow> string \<Rightarrow> (string, pyval) dict"
  d_hard_apply :: "string \<Rightarrow> 'd \<Rightarrow> 'd"
  d_flush_cache :: "'d \<Rightarrow> 'd"
  d_flush_file :: "string \<Rightarrow> 'd \<Rightarrow> 'd"
  d_get_var :: "'d \<Rightarrow> string \<Rightarrow> string \<Rightarrow> pyval list \<Rightarrow> pyval res"
  d_set_var :: "string \<Rightarrow> string \<Rightarrow> pyval list \<Rightarrow> pyval \<Rightarrow> 'd \<Rightarrow> 'd"
  d_make_key :: "string \<Rightarrow> string \<Rightarrow> pyval list \<Rightarrow> string"
  d_apply_writes :: "(string, pyval) dict \<Rightarrow> 'd \<Rightarrow> 'd"
  d_detach_pending_state :: "'d \<Rightarrow> 'd \<times> 'd"
  d_attach_pending_state :: "'d \<Rightarrow> 'd \<Rightarrow> 'd"
  d_rollback :: "string \<Rightarrow> 'd \<Rightarrow> 'd"
  d_restore_pending_writes :: "(string, pyval) dict \<Rightarrow> 'd \<Rightarrow> 'd"
  d_flush_full :: "'d \<Rightarrow> 'd"
  d_snapshot_state :: "'d \<Rightarrow> 'd"
  d_restore_state :: "'d \<Rightarrow> 'd \<Rightarrow> 'd"
  d_read_tracking :: "'d \<Rightarrow> bool"
  d_set_read_tracking :: "bool \<Rightarrow> 'd \<Rightarrow> 'd"
  d_clear_transaction :: "'d \<Rightarrow> 'd"
  d_commit :: "'d \<Rightarrow> 'd"

definition driver_laws :: "'d driver \<Rightarrow> bool" where
  "driver_laws D \<longleftrightarrow>
     (\<forall>d k v. d_value_from_disk D (d_set D k v d) = d_value_from_disk D d) \<and>
     (\<forall>d k v k'. map_of (d_pending_writes D (d_set D k v d)) k' =
        (if k' = k then Some v else map_of (d_pending_writes D d) k')) \<and>
     (\<forall>d. dict_wf (d_pending_writes D d)) \<and>
     (\<forall>d k. d_get D d k = (case map_of (d_pending_writes D d) k of
        Some v \<Rightarrow> v | None \<Rightarrow> d_value_from_disk D d k)) \<and>
     (\<forall>d n. d_value_from_disk D (d_hard_apply D n d) = d_get D d) \<and>
     (\<forall>d n. d_pending_writes D (d_hard_apply D n d) = []) \<and>
     (\<forall>d. d_value_from_disk D (d_flush_cache D d) = d_value_from_disk D d) \<and>
     (\<forall>d. d_pending_writes D (d_flush_cache D d) = []) \<and>
     (\<forall>d p. dict_wf (d_items D d p)) \<and>
     (\<forall>d p k. map_of (d_items D d p) k =
        (if prefix p k \<and> d_get D d k \<noteq> PNone then Some (d_get D d k) else None)) \<and>
     (\<forall>d c v a x. d_set_var D c v a x d = d_set D (d_make_key D c v a) x d) \<and>
     (\<forall>d c v a. d_get_var D d c v a = Inr (d_get D d (d_make_key D c v a))) \<and>
     (\<forall>ws d. d_apply_writes D ws d = fold (\<lambda>(k, v). d_set D k v) ws d) \<and>
     (\<forall>d. d_pending_writes D (snd (d_detach_pending_state D d)) = [] \<and>
        d_value_from_disk D (snd (d_detach_pending_state D d)) = d_value_from_disk D d) \<and>
     (\<forall>d live. d_pending_writes D (d_attach_pending_state D (fst (d_detach_pending_state D d)) live) = d_pending_writes D d \<and>
        d_value_from_disk D (d_attach_pending_state D (fst (d_detach_pending_state D d)) live) = d_value_from_disk D live) \<and>
     (\<forall>n d. d_value_from_disk D (d_rollback D n d) = d_value_from_disk D d) \<and>
     (\<forall>ws d. d_value_from_disk D (d_restore_pending_writes D ws d) = d_value_from_disk D d \<and>
        (dict_wf ws \<longrightarrow> d_pending_writes D (d_restore_pending_writes D ws d) = ws)) \<and>
     (\<forall>d. d_value_from_disk D (d_flush_full D d) = (\<lambda>_. PNone) \<and> d_pending_writes D (d_flush_full D d) = []) \<and>
     (\<forall>d d2. d_pending_writes D (d_restore_state D (d_snapshot_state D d) d2) = d_pending_writes D d \<and>
        d_value_from_disk D (d_restore_state D (d_snapshot_state D d) d2) = d_value_from_disk D d2) \<and>
     (\<forall>d b. d_pending_writes D (d_set_read_tracking D b d) = d_pending_writes D d \<and>
        d_value_from_disk D (d_set_read_tracking D b d) = d_value_from_disk D d) \<and>
     (\<forall>d. d_pending_writes D (d_clear_transaction D d) = d_pending_writes D d \<and>
        d_value_from_disk D (d_clear_transaction D d) = d_value_from_disk D d) \<and>
     (\<forall>d. d_value_from_disk D (d_commit D d) = d_get D d \<and> d_pending_writes D (d_commit D d) = [])"

named_theorems driver_simps "laws of the storage driver"

lemma driver_lawsD [driver_simps]:
  assumes "driver_laws D"
  shows "d_value_from_disk D (d_set D k v d) = d_value_from_disk D d"
    and "map_of (d_pending_writes D (d_set D k v d)) k' =
      (if k' = k then Some v else map_of (d_pending_writes D d) k')"
    and "d_value_from_disk D (d_hard_apply D n d) = d_get D d"
    and "d_pending_writes D (d_hard_apply D n d) = []"
    and "d_value_from_disk D (d_flush_cache D d) = d_value_from_disk D d"
    and "d_pending_writes D (d_flush_cache D d) = []"
    and "map_of (d_items D d p) k =
      (if prefix p k \<and> d_get D d k \<noteq> PNone then Some (d_get D d k) else None)"
    and "d_set_var D c x a y d = d_set D (d_make_key D c x a) y d"
    and "d_get_var D d c x a = Inr (d_get D d (d_make_key D c x a))"
    and "d_apply_writes D ws d = fold (\<lambda>(k, v). d_set D k v) ws d"
    and "d_pending_writes D (snd (d_detach_pending_state D d)) = []"
    and "d_value_from_disk D (snd (d_detach_pending_state D d)) = d_value_from_disk D d"
    and "d_pending_writes D (d_attach_pending_state D (fst (d_detach_pending_state D d)) d2) = d_pending_writes D d"
    and "d_value_from_disk D (d_attach_pending_state D (fst (d_detach_pending_state D d)) d2) = d_value_from_disk D d2"
    and "d_value_from_disk D (d_rollback D n d) = d_value_from_disk D d"
    and "d_value_from_disk D (d_restore_pending_writes D ws d) = d_value_from_disk D d"
    and "dict_wf ws \<Longrightarrow> d_pending_writes D (d_restore_pending_writes D ws d) = ws"
    and "d_value_from_disk D (d_flush_full D d) = (\<lambda>_. PNone)"
    and "d_pending_writes D (d_flush_full D d) = []"
    and "d_pending_writes D (d_restore_state D (d_snapshot_state D d) d2) = d_pending_writes D d"
    and "d_value_from_disk D (d_restore_state D (d_snapshot_state D d) d2) = d_value_from_disk D d2"
    and "d_pending_writes D (d_set_read_tracking D b d) = d_pending_writes D d"
    and "d_value_from_disk D (d_set_read_tracking D b d) = d_value_from_disk D d"
    and "d_pending_writes D (d_clear_transaction D d) = d_pending_writes D d"
    and "d_value_from_disk D (d_clear_transaction D d) = d_value_from_disk D d"
    and "d_value_from_disk D (d_commit D d) = d_get D d"
    and "d_pending_writes D (d_commit D d) = []"
  using assms unfolding driver_laws_def by (elim conjE, simp)+

lemma driver_wfD:
  assumes "driver_laws D"
  shows "dict_wf (d_pending_writes D d)" "dict_wf (d_items D d p)"
  using assms by (simp_all only: driver_laws_def)

lemma driver_get_split:
  assumes "driver_laws D"
  shows "d_get D d k = (case map_of (d_pending_writes D d) k of
    Some v \<Rightarrow> v | None \<Rightarrow> d_value_from_disk D d k)"
proof -
  have "\<forall>d k. d_get D d k = (case map_of (d_pending_writes D d) k of
      Some v \<Rightarrow> v | None \<Rightarrow> d_value_from_disk D d k)"
    using assms unfolding driver_laws_def by (elim conjE)
  then show ?thesis by blast
qed

lemma get_cong:
  "driver_laws D \<Longrightarrow> d_pending_writes D d = d_pending_writes D e \<Longrightarrow> d_value_from_disk D d = d_value_from_disk D e \<Longrightarrow>
   d_get D d = d_get D e"
  by (rule ext) (simp add: driver_get_split split: option.split)

lemma get_set [driver_simps]:
  "driver_laws D \<Longrightarrow> d_get D (d_set D k v d) k' = (if k' = k then v else d_get D d k')"
  by (simp add: driver_get_split [of D "d_set D k v d"] driver_get_split [of D d] driver_simps
    split: option.split)

lemma get_hard_apply [driver_simps]:
  "driver_laws D \<Longrightarrow> d_get D (d_hard_apply D n d) = d_get D d"
  by (rule ext) (simp add: driver_get_split [of D "d_hard_apply D n d"] driver_simps)

lemma get_flush_cache [driver_simps]:
  "driver_laws D \<Longrightarrow> d_get D (d_flush_cache D d) = d_value_from_disk D d"
  by (rule ext) (simp add: driver_get_split [of D "d_flush_cache D d"] driver_simps)

lemma get_fold_set:
  assumes "driver_laws D"
  shows "d_get D (fold (\<lambda>(k, v). d_set D k v) ws d) k = (case map_of (rev ws) k of Some v \<Rightarrow> v | None \<Rightarrow> d_get D d k)"
proof (induction ws arbitrary: d)
  case (Cons w ws)
  obtain k1 v1 where w: "w = (k1, v1)" by (cases w)
  show ?case by (simp add: w Cons.IH get_set [OF assms] map_add_def split: option.split)
qed simp

lemma get_fold_set_wf:
  assumes "driver_laws D" "dict_wf ws"
  shows "d_get D (fold (\<lambda>(k, v). d_set D k v) ws d) k = (case map_of ws k of Some v \<Rightarrow> v | None \<Rightarrow> d_get D d k)"
proof -
  have "map_of (rev ws) = map_of ws" by (rule map_of_perm [symmetric]) (simp_all add: assms(2))
  then show ?thesis by (simp add: get_fold_set [OF assms(1)])
qed

text \<open>A driver in memory: values on disk and pending writes.\<close>

record mem_db =
  db_disk :: "(string, pyval) dict"
  db_pending :: "(string, pyval) dict"

definition mem_lookup :: "(string, pyval) dict \<Rightarrow> string \<Rightarrow> pyval" where
  "mem_lookup m k = (case map_of m k of None \<Rightarrow> PNone | Some v \<Rightarrow> v)"

definition mem_get :: "mem_db \<Rightarrow> string \<Rightarrow> pyval" where
  "mem_get d k = (case map_of (AList.clearjunk (db_pending d)) k of Some v \<Rightarrow> v | None \<Rightarrow> mem_lookup (db_disk d) k)"

definition mem_all :: "mem_db \<Rightarrow> (string, pyval) dict" where
  "mem_all d = AList.clearjunk (db_pending d @ db_disk d)"

definition mem_make_key :: "string \<Rightarrow> string \<Rightarrow> pyval list \<Rightarrow> string" where
  "mem_make_key c v args = c @ ''.'' @ v @ concat (map (\<lambda>a. '':'' @ str_of a) args)"

definition mem_driver :: "mem_db driver" where
  "mem_driver =
     \<lparr>d_get = mem_get,
      d_set = (\<lambda>k v d. d\<lparr>db_pending := AList.update k v (db_pending d)\<rparr>),
      d_value_from_disk = (\<lambda>d. mem_lookup (db_disk d)),
      d_pending_writes = (\<lambda>d. AList.clearjunk (db_pending d)),
      d_items = (\<lambda>d p. filter (\<lambda>kv. prefix p (fst kv) \<and> snd kv \<noteq> PNone) (mem_all d)),
      d_hard_apply = (\<lambda>_ d. \<lparr>db_disk = mem_all d, db_pending = []\<rparr>),
      d_flush_cache = (\<lambda>d. d\<lparr>db_pending := []\<rparr>),
      d_flush_file = (\<lambda>p d. \<lparr>db_disk = filter (\<lambda>kv. \<not> prefix p (fst kv)) (db_disk d),
                             db_pending = filter (\<lambda>kv. \<not> prefix p (fst kv)) (db_pending d)\<rparr>),
      d_get_var = (\<lambda>d c v a. Inr (mem_get d (mem_make_key c v a))),
      d_set_var = (\<lambda>c v a x d. d\<lparr>db_pending := AList.update (mem_make_key c v a) x (db_pending d)\<rparr>),
      d_make_key = mem_make_key,
      d_apply_writes = (\<lambda>ws d. fold (\<lambda>(k, v) d. d\<lparr>db_pending := AList.update k v (db_pending d)\<rparr>) ws d),
      d_detach_pending_state = (\<lambda>d. (d, d\<lparr>db_pending := []\<rparr>)),
      d_attach_pending_state = (\<lambda>staged d. d\<lparr>db_pending := db_pending staged\<rparr>),
      d_rollback = (\<lambda>_ d. d\<lparr>db_pending := []\<rparr>),
      d_restore_pending_writes = (\<lambda>ws d. d\<lparr>db_pending := ws\<rparr>),
      d_flush_full = (\<lambda>d. \<lparr>db_disk = [], db_pending = []\<rparr>),
      d_snapshot_state = (\<lambda>d. d),
      d_restore_state = (\<lambda>snapshot d. d\<lparr>db_pending := db_pending snapshot\<rparr>),
      d_read_tracking = (\<lambda>_. False),
      d_set_read_tracking = (\<lambda>_ d. d),
      d_clear_transaction = (\<lambda>d. d),
      d_commit = (\<lambda>d. \<lparr>db_disk = mem_all d, db_pending = []\<rparr>)\<rparr>"

lemma dict_wf_clearjunk [simp]: "dict_wf (AList.clearjunk d)"
  by (simp add: dict_wf_def distinct_clearjunk)

lemma map_of_filter_dict:
  "dict_wf d \<Longrightarrow> map_of (filter P d) k = (case map_of d k of Some v \<Rightarrow> if P (k, v) then Some v else None | None \<Rightarrow> None)"
proof (induction d)
  case (Cons kv d)
  have "map_of (filter P d) (fst kv) = None" "map_of d (fst kv) = None"
    using Cons.prems by (cases kv; auto simp: map_of_None_fst)+
  with Cons show ?case by (cases kv) auto
qed simp

lemma clearjunk_dict_wf: "dict_wf d \<Longrightarrow> AList.clearjunk d = d"
  by (simp add: dict_wf_def AList.distinct_clearjunk_id)

lemma mem_driver_laws: "driver_laws mem_driver"
proof -
  have all: "map_of (mem_all d) k = (case map_of (db_pending d) k of Some v \<Rightarrow> Some v | None \<Rightarrow> map_of (db_disk d) k)" for d k
    by (simp add: mem_all_def map_of_clearjunk map_add_def split: option.split)
  have get: "mem_get d k = mem_lookup (mem_all d) k" for d k
    by (simp add: mem_get_def mem_lookup_def all map_of_clearjunk split: option.split)
  have wf: "dict_wf (mem_all d)" for d by (simp add: mem_all_def)
  show ?thesis
    unfolding driver_laws_def mem_driver_def
    by (intro conjI allI)
      (auto simp: mem_get_def map_of_clearjunk map_of_AList_update wf map_of_filter_dict mem_lookup_def all clearjunk_dict_wf
        split: option.splits)
qed

text \<open>Separators of storage keys.\<close>

definition INDEX_SEPARATOR :: string where
  "INDEX_SEPARATOR = ''.''"

definition DELIMITER :: string where
  "DELIMITER = '':''"

end
