(* ===== verification/Fee_Policy.thy ===== *)
theory Fee_Policy
  imports Py_Value
begin

text \<open>
  Transaction fee policies (\<^verbatim>\<open>src/src/xian/fee_policy.py\<close>): the three policies, the
  budget check of one transaction and the budget check of a block.
\<close>

definition PAID_METERED :: string where "PAID_METERED = ''paid_metered''"
definition FREE_METERED :: string where "FREE_METERED = ''free_metered''"
definition SYSTEM_UNMETERED :: string where "SYSTEM_UNMETERED = ''system_unmetered''"
definition DEFAULT_FREE_TX_MAX_CHI :: int where "DEFAULT_FREE_TX_MAX_CHI = 1000000"
definition DEFAULT_FREE_BLOCK_MAX_CHI :: int where "DEFAULT_FREE_BLOCK_MAX_CHI = 20000000"

record fee_policy =
  mode :: string
  meter_execution :: bool
  charge_fees :: bool
  distribute_fee_rewards :: bool
  require_chi_balance :: bool
  max_tx_chi :: "int option"
  max_block_chi :: "int option"

definition paid_metered :: "int option \<Rightarrow> int option \<Rightarrow> fee_policy" where
  "paid_metered tx_max block_max =
     \<lparr>mode = PAID_METERED, meter_execution = True, charge_fees = True, distribute_fee_rewards = True,
      require_chi_balance = True, max_tx_chi = tx_max, max_block_chi = block_max\<rparr>"

definition free_metered :: "int \<Rightarrow> int \<Rightarrow> fee_policy" where
  "free_metered tx_max block_max =
     \<lparr>mode = FREE_METERED, meter_execution = True, charge_fees = False, distribute_fee_rewards = False,
      require_chi_balance = False, max_tx_chi = Some tx_max, max_block_chi = Some block_max\<rparr>"

definition system_unmetered :: fee_policy where
  "system_unmetered =
     \<lparr>mode = SYSTEM_UNMETERED, meter_execution = False, charge_fees = False, distribute_fee_rewards = False,
      require_chi_balance = False, max_tx_chi = None, max_block_chi = None\<rparr>"

text \<open>
  \<^verbatim>\<open>str.strip().lower()\<close> on text, and \<^verbatim>\<open>int(value)\<close>: numbers convert, other values
  raise.  Text conversion is the parameter \<open>int_of_text\<close>.
\<close>

definition lower_char :: "char \<Rightarrow> char" where
  "lower_char c = (let n = of_char c :: nat in if 65 \<le> n \<and> n \<le> 90 then char_of (n + 32) else c)"

definition py_lower :: "string \<Rightarrow> string" where
  "py_lower s = map lower_char s"

definition py_strip :: "string \<Rightarrow> string" where
  "py_strip s = rev (dropWhile is_ascii_space (rev (dropWhile is_ascii_space s)))"

definition normalize_tx_fee_mode :: "pyval \<Rightarrow> string res" where
  "normalize_tx_fee_mode v =
     (let normalized = (case py_or v (PStr PAID_METERED) of
                          PStr s \<Rightarrow> py_lower (py_strip s) | _ \<Rightarrow> ''not a mode'')
      in if normalized \<in> {PAID_METERED, FREE_METERED} then Inr normalized
         else Inl (ValueError ''tx_fee_mode must be one of the supported modes''))"

definition dec_trunc :: "dec \<Rightarrow> int" where
  "dec_trunc d =
     (let m = (if 0 \<le> dec_exp d then int (dec_coeff d) * 10 ^ nat (dec_exp d)
               else int (dec_coeff d div 10 ^ nat (- dec_exp d)))
      in if dec_neg d then - m else m)"

fun py_int :: "(string \<Rightarrow> int res) \<Rightarrow> pyval \<Rightarrow> int res" where
  "py_int int_of_text (PInt i) = Inr i"
| "py_int int_of_text (PBool b) = Inr (if b then 1 else 0)"
| "py_int int_of_text (PDec d) = Inr (dec_trunc d)"
| "py_int int_of_text (PStr s) = int_of_text s"
| "py_int int_of_text (PFloat s) = int_of_text s"
| "py_int int_of_text _ = Inl (TypeError ''int() argument must be a string or a real number'')"

definition positive_int :: "(string \<Rightarrow> int res) \<Rightarrow> pyval \<Rightarrow> int res" where
  "positive_int int_of_text value =
     (case py_int int_of_text value of
        Inl _ \<Rightarrow> Inl (ValueError ''must be greater than zero'')
      | Inr normalized \<Rightarrow>
          if normalized \<le> 0 then Inl (ValueError ''must be greater than zero'') else Inr normalized)"

definition from_runtime_config :: "(string \<Rightarrow> int res) \<Rightarrow> pyval \<Rightarrow> fee_policy res" where
  "from_runtime_config int_of_text config =
     (let payload = py_or config (PDict [])
      in rbind (normalize_tx_fee_mode (dget_or payload ''tx_fee_mode'' PNone)) (\<lambda>m.
         if m = PAID_METERED then Inr (paid_metered None None)
         else rbind (positive_int int_of_text
                       (dget_or payload ''free_tx_max_chi'' (PInt DEFAULT_FREE_TX_MAX_CHI))) (\<lambda>tx_max.
              rbind (positive_int int_of_text
                       (dget_or payload ''free_block_max_chi'' (PInt DEFAULT_FREE_BLOCK_MAX_CHI))) (\<lambda>block_max.
              Inr (free_metered tx_max block_max)))))"

definition tx_chi_supplied :: "(string \<Rightarrow> int res) \<Rightarrow> pyval \<Rightarrow> int res" where
  "tx_chi_supplied int_of_text tx =
     (let payload = (if is_dict tx then dget_or tx ''payload'' PNone else PNone)
      in if \<not> is_dict payload then Inl (TransactionException ''Transaction payload is missing'')
         else case py_int int_of_text (py_or (dget_or payload ''chi_supplied'' PNone) (PInt 0)) of
                Inl _ \<Rightarrow> Inl (TransactionException ''Transaction chi_supplied is invalid'')
              | Inr chi_supplied \<Rightarrow>
                  if chi_supplied < 0 then Inl (TransactionException ''Transaction chi_supplied is invalid'')
                  else Inr chi_supplied)"

definition validate_tx :: "(string \<Rightarrow> int res) \<Rightarrow> fee_policy \<Rightarrow> pyval \<Rightarrow> unit res" where
  "validate_tx int_of_text policy tx =
     rbind (tx_chi_supplied int_of_text tx) (\<lambda>chi_supplied.
     if meter_execution policy \<and> chi_supplied \<le> 0
     then Inl (TransactionException ''Transaction chi_supplied must be greater than zero'')
     else case max_tx_chi policy of
            None \<Rightarrow> Inr ()
          | Some limit \<Rightarrow>
              if limit < chi_supplied
              then Inl (TransactionException
                     (''Transaction chi_supplied exceeds maximum configured limit of '' @ str_int limit))
              else Inr ())"

definition validate_block_total :: "fee_policy \<Rightarrow> int \<Rightarrow> unit res" where
  "validate_block_total policy total_chi_supplied =
     (case max_block_chi policy of
        None \<Rightarrow> Inr ()
      | Some limit \<Rightarrow>
          if limit < total_chi_supplied
          then Inl (TransactionException
                 (''Block chi_supplied exceeds maximum configured limit of '' @ str_int limit))
          else Inr ())"

section \<open>Lemmas\<close>

lemma tx_chi_supplied_nonneg: "tx_chi_supplied it tx = Inr chi \<Longrightarrow> 0 \<le> chi"
  by (auto simp: tx_chi_supplied_def Let_def split: if_splits sum.splits)

lemma validate_tx_Inr_iff:
  "validate_tx it policy tx = Inr u \<longleftrightarrow>
   (\<exists>chi. tx_chi_supplied it tx = Inr chi \<and> (meter_execution policy \<longrightarrow> 0 < chi) \<and>
      (\<forall>limit. max_tx_chi policy = Some limit \<longrightarrow> chi \<le> limit))"
proof (cases "tx_chi_supplied it tx")
  case (Inr chi)
  then show ?thesis by (cases "max_tx_chi policy") (auto simp: validate_tx_def)
qed (simp add: validate_tx_def)

lemma validate_block_total_Inr_iff:
  "validate_block_total policy chi = Inr u \<longleftrightarrow>
   (\<forall>limit. max_block_chi policy = Some limit \<longrightarrow> chi \<le> limit)"
  by (cases "max_block_chi policy") (auto simp: validate_block_total_def)

lemmas fee_policy_defs = paid_metered_def free_metered_def system_unmetered_def

text \<open>Whatever the runtime configuration, a node gets either a configuration error, or the paid
  policy without caps, or the free policy with two positive caps; the policy always meters user
  transactions, and it charges fees exactly when it distributes rewards and demands a balance.\<close>

theorem from_runtime_config_policies:
  assumes "from_runtime_config it config = Inr policy"
  shows "meter_execution policy \<and> (charge_fees policy \<longleftrightarrow> distribute_fee_rewards policy) \<and>
    (charge_fees policy \<longleftrightarrow> require_chi_balance policy) \<and>
    (if charge_fees policy then policy = paid_metered None None
     else \<exists>tx_max block_max. 0 < tx_max \<and> 0 < block_max \<and> policy = free_metered tx_max block_max)"
  using assms
  by (auto simp: from_runtime_config_def Let_def rbind_Inr_iff fee_policy_defs positive_int_def
      split: if_splits sum.splits)

theorem from_runtime_config_policies_witness:
  "meter_execution (free_metered 5 9) \<and> \<not> charge_fees (free_metered 5 9) \<and>
   (\<exists>tx_max block_max. 0 < tx_max \<and> 0 < block_max \<and> free_metered 5 9 = free_metered tx_max block_max)"
proof -
  have "from_runtime_config (\<lambda>_. Inl (ValueError [])) (PDict [(PStr ''tx_fee_mode'', PStr '' FREE_metered''),
      (PStr ''free_tx_max_chi'', PInt 5), (PStr ''free_block_max_chi'', PInt 9)]) = Inr (free_metered 5 9)"
    by code_simp
  from from_runtime_config_policies [OF this] show ?thesis by (auto simp: free_metered_def)
qed

end
