(* ===== verification/Tx_Validation.thy ===== *)
theory Tx_Validation
  imports Encoding Fee_Policy
begin

text \<open>
  Static and consensus validation of a transaction (\<^verbatim>\<open>src/src/xian/utils/tx.py\<close>).
  Third-party code is in the parameters of \<open>static_env\<close>: the JSON parser, the optional native
  decoder, signature verification and the contract-name check.
\<close>

record static_env =
  se_loads :: "string \<Rightarrow> pyval res"
  se_native :: "(string \<Rightarrow> string \<Rightarrow> pyval res) option"
  se_verify :: "pyval \<Rightarrow> string \<Rightarrow> pyval \<Rightarrow> bool res"
  se_is_safe_contract_name :: "pyval \<Rightarrow> bool"

section \<open>Formatting of dictionaries\<close>

fun format_value :: "pyval \<Rightarrow> pyval res" where
  "format_value (PDict kvs) =
     rbind (mapR (\<lambda>kv. if \<not> is_str (fst kv) then Inl (AssertionError ''Non-string key types not allowed.'')
                        else rbind (format_value (snd kv)) (\<lambda>item. Inr (str_of (fst kv), item))) kvs)
       (\<lambda>items. Inr (PDict (str_items (sort_items items))))"
| "format_value (PList xs) = rbind (mapR format_value xs) (\<lambda>ys. Inr (PList ys))"
| "format_value v = Inr v"

definition format_dictionary :: "pyval \<Rightarrow> pyval res" where
  "format_dictionary d = format_value d"

definition canonical_json :: "pyval \<Rightarrow> string res" where
  "canonical_json value = rbind (format_dictionary value) json_dumps"

definition payload_field :: "pyval \<Rightarrow> string \<Rightarrow> pyval res" where
  "payload_field tx k = rbind (dindex tx ''payload'') (\<lambda>p. dindex p k)"

definition unpack_transaction :: "pyval \<Rightarrow> (pyval \<times> pyval \<times> string) res" where
  "unpack_transaction tx =
     rbind (dindex tx ''metadata'') (\<lambda>metadata.
     rbind (dindex tx ''payload'') (\<lambda>payload.
     let chain_id = dget_or payload ''chain_id'' (PStr []) in
     rbind (dindex payload ''sender'') (\<lambda>sender.
     rbind (dindex metadata ''signature'') (\<lambda>signature.
     rbind (dindex payload ''contract'') (\<lambda>contract.
     rbind (dindex payload ''function'') (\<lambda>function.
     rbind (dindex payload ''kwargs'') (\<lambda>kwargs.
     rbind (dindex payload ''nonce'') (\<lambda>nonce.
     rbind (dindex payload ''chi_supplied'') (\<lambda>chi_supplied.
     rbind (canonical_json (PDict
              [(PStr ''chain_id'', chain_id), (PStr ''contract'', contract),
               (PStr ''function'', function), (PStr ''kwargs'', kwargs), (PStr ''nonce'', nonce),
               (PStr ''sender'', sender), (PStr ''chi_supplied'', chi_supplied)])) (\<lambda>tx_for_verification.
     Inr (sender, signature, tx_for_verification)))))))))))"

text \<open>
  Hash and size of a transaction: \<open>encode_wire\<close> and \<open>sha3_256_hex\<close> are the runtime
  encoder and the hash function.
\<close>

definition tx_hash_from_tx :: "(pyval \<Rightarrow> string res) \<Rightarrow> (string \<Rightarrow> string) \<Rightarrow> pyval \<Rightarrow> string res" where
  "tx_hash_from_tx encode_wire sha3_256_hex tx =
     rbind (format_dictionary tx) (\<lambda>tx_dict.
     rbind (encode_wire tx_dict) (\<lambda>encoded_tx. Inr (sha3_256_hex encoded_tx)))"

definition canonical_transaction_size_bytes :: "(pyval \<Rightarrow> string res) \<Rightarrow> pyval \<Rightarrow> nat res" where
  "canonical_transaction_size_bytes encode_wire tx =
     rbind (format_dictionary (PDict
              [(PStr ''metadata'', dget_or tx ''metadata'' (PDict [])),
               (PStr ''payload'', dget_or tx ''payload'' (PDict []))])) (\<lambda>tx_dict.
     rbind (encode_wire tx_dict) (\<lambda>encoded. Inr (length encoded)))"

section \<open>Format rules\<close>

text \<open>
  \<^verbatim>\<open>key not in d\<close> followed by \<^verbatim>\<open>d[key]\<close> for a string key: on a list or a string the
  containment test is allowed and the subscript raises; other values are not containers.
\<close>

definition rule_item :: "pyval \<Rightarrow> string \<Rightarrow> pyval option res" where
  "rule_item d key =
     (case d of
        PDict kvs \<Rightarrow> Inr (map_of kvs (PStr key))
      | PList xs \<Rightarrow> if PStr key \<in> set xs then Inl (TypeError ''list indices must be integers'') else Inr None
      | PTuple xs \<Rightarrow> if PStr key \<in> set xs then Inl (TypeError ''tuple indices must be integers'') else Inr None
      | PStr s \<Rightarrow> if sublist key s then Inl (TypeError ''string indices must be integers'') else Inr None
      | _ \<Rightarrow> Inl (TypeError ''argument is not a container''))"

fun all_res :: "('a \<Rightarrow> bool res) \<Rightarrow> 'a list \<Rightarrow> bool res" where
  "all_res f [] = Inr True"
| "all_res f (x # xs) = rbind (f x) (\<lambda>b. if b then all_res f xs else Inr False)"

lemma all_res_cong [fundef_cong]:
  "xs = ys \<Longrightarrow> (\<And>x. x \<in> set ys \<Longrightarrow> f x = g x) \<Longrightarrow> all_res f xs = all_res g ys"
proof (induction ys arbitrary: xs)
  case (Cons y ys)
  have "all_res f ys = all_res g ys" by (rule Cons.IH) (simp_all add: Cons.prems)
  with Cons.prems show ?case by (simp cong: if_cong)
qed simp

fun recurse_rules :: "pyval \<Rightarrow> rule \<Rightarrow> bool res"
  and recurse_items :: "pyval \<Rightarrow> (string \<times> rule) list \<Rightarrow> bool res" where
  "recurse_rules d (RFun f) = Inr (f d)"
| "recurse_rules d (RDict items) = recurse_items d items"
| "recurse_items d [] = Inr True"
| "recurse_items d ((key, subrule) # rest) =
     rbind (rule_item d key) (\<lambda>item.
     case item of
       None \<Rightarrow> Inr False
     | Some arg \<Rightarrow>
         rbind (case subrule of
                  RFun f \<Rightarrow> Inr (f arg)
                | RDict _ \<Rightarrow>
                    (case arg of
                       PDict _ \<Rightarrow> recurse_rules arg subrule
                     | PList as \<Rightarrow> all_res (\<lambda>a. recurse_rules a subrule) as
                     | _ \<Rightarrow> Inr False))
           (\<lambda>ok. if ok then recurse_items d rest else Inr False))"

definition dict_has_keys :: "pyval \<Rightarrow> string set \<Rightarrow> bool" where
  "dict_has_keys d keys =
     (case d of PDict kvs \<Rightarrow> fst ` set kvs = PStr ` keys | _ \<Rightarrow> False)"

definition check_format :: "pyval \<Rightarrow> (string \<times> rule) list \<Rightarrow> unit res" where
  "check_format d rule =
     (if \<not> dict_has_keys d (fst ` set rule)
      then Inl (TransactionException ''Transaction has unexpected or missing keys'')
      else rbind (recurse_rules d (RDict rule)) (\<lambda>ok.
           if \<not> ok then Inl (TransactionException ''Transaction has wrongly formatted dictionary'')
           else Inr ()))"

definition dict_items :: "pyval \<Rightarrow> (pyval \<times> pyval) list" where
  "dict_items d = (case d of PDict kvs \<Rightarrow> kvs | _ \<Rightarrow> [])"

fun check_required :: "pyval \<Rightarrow> string list \<Rightarrow> unit res" where
  "check_required payload [] = Inr ()"
| "check_required payload (key # keys) =
     (if dget payload key \<in> {None, Some PNone, Some (PStr [])}
      then Inl (TransactionException (''Payload key '' @ key @ '' is missing''))
      else check_required payload keys)"

definition check_tx_keys :: "pyval \<Rightarrow> unit res" where
  "check_tx_keys tx =
     (if \<not> is_dict tx then Inl (OtherError ''AttributeError'')
      else let metadata = dget_or tx ''metadata'' PNone in
      if \<not> is_dict metadata \<or> \<not> truthy metadata then Inl (TransactionException ''Metadata is missing'')
      else if length (dict_items metadata) \<noteq> 1
      then Inl (TransactionException ''Wrong number of metadata entries'')
      else let payload = dget_or tx ''payload'' PNone in
      if \<not> is_dict payload \<or> \<not> truthy payload then Inl (TransactionException ''Payload is missing'')
      else if \<not> fst ` set (dict_items payload) \<subseteq> PStr ` fst ` set TRANSACTION_PAYLOAD_RULES
      then Inl (TransactionException ''Payload keys are not valid'')
      else check_required payload [''sender'', ''contract'', ''function'', ''chi_supplied''])"

definition check_tx_formatting :: "pyval \<Rightarrow> unit res" where
  "check_tx_formatting tx =
     rbind (check_tx_keys tx) (\<lambda>_. check_format tx TRANSACTION_RULES)"

definition check_contract_name :: "(pyval \<Rightarrow> bool) \<Rightarrow> pyval \<Rightarrow> pyval \<Rightarrow> pyval \<Rightarrow> unit res" where
  "check_contract_name is_safe contract function name =
     (if contract = PStr ''submission'' \<and> function = PStr ''submit_contract'' \<and>
         \<not> contract_name_is_formatted is_safe name
      then Inl (TransactionException ''Transaction contract name is invalid'') else Inr ())"

section \<open>Static validation\<close>

definition validate_transaction_static :: "static_env \<Rightarrow> string \<Rightarrow> pyval \<Rightarrow> unit res" where
  "validate_transaction_static env chain_id tx =
     rbind (check_tx_formatting tx) (\<lambda>_.
     rbind (unpack_transaction tx) (\<lambda>(sender, signature, payload).
     rbind (se_verify env sender payload signature) (\<lambda>ok.
     if \<not> ok then Inl (TransactionException ''Bad signature'')
     else rbind (dindex tx ''payload'') (\<lambda>p.
     if dget_or p ''chain_id'' (PStr []) \<noteq> PStr chain_id then Inl (TransactionException ''Wrong chain_id'')
     else rbind (dindex p ''kwargs'') (\<lambda>kwargs.
     rbind (dindex p ''contract'') (\<lambda>contract.
     rbind (dindex p ''function'') (\<lambda>function.
     check_contract_name (se_is_safe_contract_name env) contract function
       (dget_or kwargs ''name'' PNone))))))))"

definition exc_text :: "exc \<Rightarrow> string" where
  "exc_text e =
     (case e of TransactionException s \<Rightarrow> s | ValueError s \<Rightarrow> s | TypeError s \<Rightarrow> s | KeyError s \<Rightarrow> s
      | RuntimeError s \<Rightarrow> s | EOFError s \<Rightarrow> s | AssertionError s \<Rightarrow> s | FileNotFoundError s \<Rightarrow> s
      | OtherError s \<Rightarrow> s)"

definition decode_and_validate_transaction_static_bytes ::
    "static_env \<Rightarrow> string \<Rightarrow> nat option \<Rightarrow> string \<Rightarrow> pyval res" where
  "decode_and_validate_transaction_static_bytes env chain_id max_raw_tx_bytes raw_tx =
     rbind (case max_raw_tx_bytes of
              None \<Rightarrow> Inr ()
            | Some limit \<Rightarrow>
                if limit < length raw_tx
                then Inl (TransactionException (''Transaction exceeds maximum configured size of ''
                       @ str_int (int limit) @ '' bytes''))
                else Inr ()) (\<lambda>_.
     case se_native env of
       Some native \<Rightarrow>
         (case native raw_tx chain_id of
            Inl e \<Rightarrow> Inl (TransactionException (exc_text e))
          | Inr tx \<Rightarrow> Inr tx)
     | None \<Rightarrow>
         rbind (decode_transaction_bytes (se_loads env) raw_tx) (\<lambda>(tx, _).
         rbind (validate_transaction_static env chain_id tx) (\<lambda>_. Inr tx)))"



section \<open>Consensus validation: the sequential nonce tracker\<close>

record nonce_tracker =
  committed_nonce_getter :: "string \<Rightarrow> int option"
  latest_nonces :: "(string, int) dict"

definition sequential_nonce_tracker :: "(string \<Rightarrow> int option) \<Rightarrow> nonce_tracker" where
  "sequential_nonce_tracker getter = \<lparr>committed_nonce_getter = getter, latest_nonces = []\<rparr>"

definition expected_nonce :: "nonce_tracker \<Rightarrow> string \<Rightarrow> int" where
  "expected_nonce tracker sender =
     (let current_nonce = (case map_of (latest_nonces tracker) sender of
                             None \<Rightarrow> committed_nonce_getter tracker sender
                           | Some n \<Rightarrow> Some n)
      in case current_nonce of None \<Rightarrow> 0 | Some n \<Rightarrow> n + 1)"

definition nonce_mismatch :: "int \<Rightarrow> pyval \<Rightarrow> exc" where
  "nonce_mismatch expected got =
     TransactionException (''Transaction nonce is invalid. Expected '' @ str_int expected @ '', got '' @
       (case got of PInt n \<Rightarrow> str_int n | _ \<Rightarrow> ''a non-integer''))"

definition validate_and_advance :: "nonce_tracker \<Rightarrow> pyval \<Rightarrow> nonce_tracker res" where
  "validate_and_advance tracker tx =
     rbind (payload_field tx ''sender'') (\<lambda>sender.
     rbind (payload_field tx ''nonce'') (\<lambda>tx_nonce.
     if \<not> is_str sender then Inl (TypeError ''sender is not a string'')
     else let expected = expected_nonce tracker (str_of sender)
          in if int_value tx_nonce \<noteq> Some expected then Inl (nonce_mismatch expected tx_nonce)
             else Inr (tracker\<lparr>latest_nonces := AList.update (str_of sender) expected (latest_nonces tracker)\<rparr>)))"

definition validate_consensus_transaction_after_static :: "nonce_tracker \<Rightarrow> pyval \<Rightarrow> nonce_tracker res" where
  "validate_consensus_transaction_after_static tracker tx = validate_and_advance tracker tx"

definition validate_consensus_transaction ::
    "static_env \<Rightarrow> string \<Rightarrow> nonce_tracker \<Rightarrow> pyval \<Rightarrow> nonce_tracker res" where
  "validate_consensus_transaction env chain_id tracker tx =
     rbind (validate_transaction_static env chain_id tx) (\<lambda>_.
     validate_consensus_transaction_after_static tracker tx)"

section \<open>Balance check at admission\<close>

text \<open>
  Contract numbers are third-party decimals.  The operations the balance check uses are
  parameters; each may raise, as on operands that are not numbers.
\<close>

record num_ops =
  n_add :: "pyval \<Rightarrow> pyval \<Rightarrow> pyval res"
  n_sub :: "pyval \<Rightarrow> pyval \<Rightarrow> pyval res"
  n_mul :: "pyval \<Rightarrow> pyval \<Rightarrow> pyval res"
  n_div :: "pyval \<Rightarrow> pyval \<Rightarrow> pyval res"
  n_lt :: "pyval \<Rightarrow> pyval \<Rightarrow> bool res"

definition too_few_chi :: exc where
  "too_few_chi = TransactionException ''Transaction sender has too few chi for this transaction''"

definition check_enough_chi ::
    "num_ops \<Rightarrow> pyval \<Rightarrow> pyval \<Rightarrow> pyval \<Rightarrow> pyval \<Rightarrow> pyval \<Rightarrow> pyval \<Rightarrow> unit res" where
  "check_enough_chi N balance chi_per_tau chi_supplied contract function amount =
     rbind (n_mul N balance chi_per_tau) (\<lambda>b.
     rbind (n_lt N b chi_supplied) (\<lambda>poor.
     if poor then Inl too_few_chi
     else if contract = PStr ''currency'' \<and> function = PStr ''transfer''
     then rbind (n_sub N balance amount) (\<lambda>left.
          rbind (n_mul N left chi_per_tau) (\<lambda>chi.
          rbind (n_div N chi (PInt 6)) (\<lambda>txs.
          rbind (n_lt N txs (PInt 2)) (\<lambda>few.
          if few then Inl too_few_chi else Inr ()))))
     else Inr ()))"

section \<open>Lemmas\<close>

text \<open>What a statically valid transaction looks like.\<close>

definition payload_well_formed :: "(pyval \<times> pyval) list \<Rightarrow> bool" where
  "payload_well_formed payload \<longleftrightarrow>
     fst ` set payload = PStr ` fst ` set TRANSACTION_PAYLOAD_RULES \<and>
     (\<exists>sender. map_of payload (PStr ''sender'') = Some (PStr sender) \<and> length sender = 64 \<and> list_all is_hex sender) \<and>
     (\<exists>nonce. map_of payload (PStr ''nonce'') = Some (PInt nonce) \<and> 0 \<le> nonce \<and> nonce < 2 ^ 64) \<and>
     (\<exists>chi. map_of payload (PStr ''chi_supplied'') = Some (PInt chi) \<and> 0 \<le> chi \<and> chi < 2 ^ 64) \<and>
     (\<exists>contract. map_of payload (PStr ''contract'') = Some contract \<and> identifier_is_formatted contract) \<and>
     (\<exists>func. map_of payload (PStr ''function'') = Some func \<and> identifier_is_formatted func) \<and>
     (\<exists>kwargs. map_of payload (PStr ''kwargs'') = Some kwargs \<and> kwargs_are_formatted kwargs)"

definition tx_well_formed :: "string \<Rightarrow> pyval \<Rightarrow> bool" where
  "tx_well_formed chain_id tx \<longleftrightarrow>
     (\<exists>kvs payload signature. tx = PDict kvs \<and> fst ` set kvs = {PStr ''metadata'', PStr ''payload''} \<and>
        map_of kvs (PStr ''metadata'') = Some (PDict [(PStr ''signature'', signature)]) \<and>
        signature_is_formatted signature \<and>
        map_of kvs (PStr ''payload'') = Some (PDict payload) \<and> payload_well_formed payload \<and>
        map_of payload (PStr ''chain_id'') = Some (PStr chain_id))"

lemma recurse_items_flat:
  assumes "is_dict d" "\<forall>kr\<in>set rs. \<exists>f. snd kr = RFun f"
  shows "recurse_items d rs = Inr True \<longleftrightarrow>
    (\<forall>(k, r)\<in>set rs. \<exists>v f. dget d k = Some v \<and> r = RFun f \<and> f v)"
  using assms
proof (induction rs)
  case (Cons kr rs)
  obtain k f where kr: "kr = (k, RFun f)" using Cons.prems(2) by (cases kr) auto
  obtain kvs where d: "d = PDict kvs" using Cons.prems(1) by (auto simp: is_dict_iff)
  show ?case
    using Cons.IH [OF Cons.prems(1)] Cons.prems(2)
    by (auto simp: kr d rule_item_def split: option.splits if_splits)
qed simp

lemmas rule_tables = TRANSACTION_RULES_def TRANSACTION_METADATA_RULES_def TRANSACTION_PAYLOAD_RULES_def

lemma check_tx_formatting_fields:
  assumes "check_tx_formatting tx = Inr ()"
  shows "\<exists>kvs metadata payload. tx = PDict kvs \<and> dget tx ''metadata'' = Some (PDict metadata) \<and>
    dget tx ''payload'' = Some (PDict payload) \<and>
    fst ` set kvs = {PStr ''metadata'', PStr ''payload''} \<and> length metadata = 1 \<and>
    fst ` set payload \<subseteq> PStr ` fst ` set TRANSACTION_PAYLOAD_RULES \<and>
    recurse_items (PDict metadata) TRANSACTION_METADATA_RULES = Inr True \<and>
    recurse_items (PDict payload) TRANSACTION_PAYLOAD_RULES = Inr True"
proof -
  from assms have keys: "check_tx_keys tx = Inr ()" and fmt: "check_format tx TRANSACTION_RULES = Inr ()"
    by (auto simp: check_tx_formatting_def rbind_Inr_iff)
  from keys obtain kvs where tx: "tx = PDict kvs"
    by (cases tx) (auto simp: check_tx_keys_def)
  from keys tx obtain metadata where m: "dget tx ''metadata'' = Some (PDict metadata)" "length metadata = 1"
    by (auto simp: check_tx_keys_def Let_def dget_or_def is_dict_iff dict_items_def split: if_splits option.splits)
  from keys tx obtain payload where p: "dget tx ''payload'' = Some (PDict payload)"
    "fst ` set payload \<subseteq> PStr ` fst ` set TRANSACTION_PAYLOAD_RULES"
    by (auto simp: check_tx_keys_def Let_def dget_or_def is_dict_iff dict_items_def split: if_splits option.splits)
  from fmt have "fst ` set kvs = PStr ` fst ` set TRANSACTION_RULES"
    and "recurse_items tx TRANSACTION_RULES = Inr True"
    by (auto simp: check_format_def tx dict_has_keys_def rbind_Inr_iff split: if_splits)
  with m p show ?thesis
    by (auto simp: tx TRANSACTION_RULES_def rule_item_def rbind_Inr_iff split: if_splits)
qed


lemma check_tx_formatting_payload:
  assumes "recurse_items (PDict payload) TRANSACTION_PAYLOAD_RULES = Inr True"
    and "fst ` set payload \<subseteq> PStr ` fst ` set TRANSACTION_PAYLOAD_RULES"
  shows "payload_well_formed payload" and "\<exists>c. map_of payload (PStr ''chain_id'') = Some (PStr c)"
proof -
  have flat: "\<forall>(k, r)\<in>set TRANSACTION_PAYLOAD_RULES.
      \<exists>v f. dget (PDict payload) k = Some v \<and> r = RFun f \<and> f v"
    using assms(1) by (subst (asm) recurse_items_flat) (auto simp: TRANSACTION_PAYLOAD_RULES_def)
  have keys: "fst ` set payload = PStr ` fst ` set TRANSACTION_PAYLOAD_RULES"
  proof
    show "PStr ` fst ` set TRANSACTION_PAYLOAD_RULES \<subseteq> fst ` set payload"
    proof clarify
      fix k r assume "(k, r) \<in> set TRANSACTION_PAYLOAD_RULES"
      with flat obtain v where "map_of payload (PStr k) = Some v" by auto
      then have "(PStr k, v) \<in> set payload" by (rule map_of_SomeD)
      then show "PStr (fst (k, r)) \<in> fst ` set payload" by (metis fst_conv image_eqI)
    qed
  qed (rule assms(2))
  have field: "\<exists>v. map_of payload (PStr k) = Some v \<and> f v"
    if "(k, RFun f) \<in> set TRANSACTION_PAYLOAD_RULES" for k f
    using bspec [OF flat that] by auto
  have "\<exists>v. map_of payload (PStr ''sender'') = Some v \<and> vk_is_formatted v"
    and "\<exists>v. map_of payload (PStr ''nonce'') = Some v \<and> number_is_formatted v"
    and "\<exists>v. map_of payload (PStr ''chi_supplied'') = Some v \<and> number_is_formatted v"
    and "\<exists>v. map_of payload (PStr ''contract'') = Some v \<and> identifier_is_formatted v"
    and "\<exists>v. map_of payload (PStr ''function'') = Some v \<and> identifier_is_formatted v"
    and "\<exists>v. map_of payload (PStr ''kwargs'') = Some v \<and> kwargs_are_formatted v"
    and cid: "\<exists>v. map_of payload (PStr ''chain_id'') = Some v \<and> cid_id_formated v"
    by (rule field, simp add: TRANSACTION_PAYLOAD_RULES_def)+
  then show "payload_well_formed payload"
    unfolding payload_well_formed_def keys
    by (auto simp: vk_is_formatted_def is_str_iff number_is_formatted_iff)
  from cid show "\<exists>c. map_of payload (PStr ''chain_id'') = Some (PStr c)"
    by (auto simp: cid_id_formated_def is_str_iff)
qed

lemma static_well_formed:
  assumes "validate_transaction_static env chain_id tx = Inr ()"
  shows "tx_well_formed chain_id tx"
proof -
  from assms have "check_tx_formatting tx = Inr ()" by (auto simp: validate_transaction_static_def rbind_Inr_iff)
  from check_tx_formatting_fields [OF this] obtain kvs metadata payload where
    tx: "tx = PDict kvs" and m: "dget tx ''metadata'' = Some (PDict metadata)" "length metadata = 1"
    and p: "dget tx ''payload'' = Some (PDict payload)"
    and keys: "fst ` set kvs = {PStr ''metadata'', PStr ''payload''}"
    and pk: "fst ` set payload \<subseteq> PStr ` fst ` set TRANSACTION_PAYLOAD_RULES"
    and rm: "recurse_items (PDict metadata) TRANSACTION_METADATA_RULES = Inr True"
    and rp: "recurse_items (PDict payload) TRANSACTION_PAYLOAD_RULES = Inr True"
    by blast
  from rm m(2) obtain signature where sig: "metadata = [(PStr ''signature'', signature)]" "signature_is_formatted signature"
    by (auto simp: TRANSACTION_METADATA_RULES_def rule_item_def length_Suc_conv split: option.splits if_splits)
  have "dget_or (PDict payload) ''chain_id'' (PStr []) = PStr chain_id"
    using assms p by (auto simp: validate_transaction_static_def rbind_Inr_iff dindex_Inr_iff split: if_splits)
  with check_tx_formatting_payload(2) [OF rp pk] have "map_of payload (PStr ''chain_id'') = Some (PStr chain_id)"
    by (auto simp: dget_or_def)
  with check_tx_formatting_payload(1) [OF rp pk] keys m p sig show ?thesis
    unfolding tx_well_formed_def by (auto simp: tx)
qed

lemma static_verified:
  assumes "validate_transaction_static env chain_id tx = Inr ()"
  shows "\<exists>sender signature msg. unpack_transaction tx = Inr (sender, signature, msg) \<and>
    se_verify env sender msg signature = Inr True"
  using assms by (auto simp: validate_transaction_static_def rbind_Inr_iff split: if_splits)


lemma format_value_perm:
  assumes "format_value (PDict kvs) = Inr w" "dict_wf kvs" "mset kvs = mset kvs'"
  shows "format_value (PDict kvs') = Inr w"
proof -
  let ?f = "\<lambda>kv. if \<not> is_str (fst kv) then Inl (AssertionError ''Non-string key types not allowed.'')
                else rbind (format_value (snd kv)) (\<lambda>item. Inr (str_of (fst kv), item))"
  from assms(1) obtain items where items: "mapR ?f kvs = Inr items" and w: "w = PDict (str_items (sort_items items))"
    by (auto simp: rbind_Inr_iff)
  from mapR_perm [OF items assms(3)] obtain items' where items': "mapR ?f kvs' = Inr items'" "mset items' = mset items"
    by blast
  have "list_all2 (\<lambda>kv it. ?f kv = Inr it) kvs items" using items by (simp add: mapR_Inr_iff)
  then have "map fst kvs = map (PStr \<circ> fst) items"
    by (induction rule: list_all2_induct) (auto simp: rbind_Inr_iff split: if_splits)
  then have "dict_wf items"
    using assms(2) by (simp add: dict_wf_def distinct_map comp_inj_on_iff) (metis distinct_map map_map)
  then have "sort_items items = sort_items items'" using items'(2) by (intro sort_items_perm) simp_all
  then show ?thesis using items'(1) by (simp add: w)
qed

lemma canonical_json_perm:
  assumes "canonical_json (PDict kvs) = Inr msg" "mset kvs = mset kvs'" "dict_wf kvs"
  shows "canonical_json (PDict kvs') = Inr msg"
proof -
  from assms(1) obtain w where "format_value (PDict kvs) = Inr w" "json_dumps w = Inr msg"
    unfolding canonical_json_def format_dictionary_def by (rule rbind_InrE)
  with format_value_perm [OF this(1) assms(3,2)] show ?thesis
    by (simp only: canonical_json_def format_dictionary_def rbind_simps)
qed

lemma payload_items_perm:
  assumes wf: "dict_wf payload" and keys: "fst ` set payload = set ks" and ks: "distinct ks"
  shows "mset (map (\<lambda>k. (k, the (map_of payload k))) ks) = mset payload"
proof -
  have "set (map (\<lambda>k. (k, the (map_of payload k))) ks) = set payload"
  proof (intro equalityI subsetI)
    fix kv assume "kv \<in> set (map (\<lambda>k. (k, the (map_of payload k))) ks)"
    then obtain k where k: "k \<in> set ks" "kv = (k, the (map_of payload k))" by auto
    then obtain v where "map_of payload k = Some v"
      using keys by (metis map_of_None_fst not_Some_eq)
    with k wf show "kv \<in> set payload" by (simp add: dict_wf_map_of_iff)
  next
    fix kv assume kv: "kv \<in> set payload"
    then have "map_of payload (fst kv) = Some (snd kv)" using wf by (simp add: dict_wf_map_of_iff)
    moreover have "fst kv \<in> set ks" using kv keys by auto
    ultimately show "kv \<in> set (map (\<lambda>k. (k, the (map_of payload k))) ks)"
      by (force simp: image_iff)
  qed
  moreover have "distinct payload" using wf by (auto simp: dict_wf_def distinct_map)
  moreover have "distinct (map (\<lambda>k. (k, the (map_of payload k))) ks)"
    using ks by (simp add: distinct_map inj_on_def)
  ultimately show ?thesis by (metis set_eq_iff_mset_eq_distinct)
qed


abbreviation signed_keys :: "string list" where
  "signed_keys \<equiv> [''chain_id'', ''contract'', ''function'', ''kwargs'', ''nonce'', ''sender'', ''chi_supplied'']"

lemma signed_keys_rules: "fst ` set TRANSACTION_PAYLOAD_RULES = set signed_keys"
proof -
  have "set [a, b, c, d, e, f, g] = set [g, d, e, f, b, a, c]" for a b c d e f g :: string by auto
  then show ?thesis by (simp only: TRANSACTION_PAYLOAD_RULES_def list.map fst_conv set_map [symmetric])
qed

lemma unpack_transaction_signed:
  assumes "unpack_transaction tx = Inr (sender, signature, msg)"
    and "dget tx ''payload'' = Some (PDict payload)" and "payload_well_formed payload"
  shows "canonical_json (PDict (map (\<lambda>k. (k, the (map_of payload k))) (map PStr signed_keys))) = Inr msg"
    and "map_of payload (PStr ''sender'') = Some sender"
    and "\<exists>metadata. dget tx ''metadata'' = Some metadata \<and> dget metadata ''signature'' = Some signature"
proof -
  have "PStr ''chain_id'' \<in> fst ` set payload"
    using assms(3) by (simp add: payload_well_formed_def TRANSACTION_PAYLOAD_RULES_def)
  then obtain c where c: "map_of payload (PStr ''chain_id'') = Some c"
    by (metis map_of_None_fst not_Some_eq)
  from assms(1) obtain metadata p sd sg ct f kw n chi m where
    b: "dindex tx ''metadata'' = Inr metadata" "dindex tx ''payload'' = Inr p" "dindex p ''sender'' = Inr sd"
      "dindex metadata ''signature'' = Inr sg" "dindex p ''contract'' = Inr ct" "dindex p ''function'' = Inr f"
      "dindex p ''kwargs'' = Inr kw" "dindex p ''nonce'' = Inr n" "dindex p ''chi_supplied'' = Inr chi"
    and m: "canonical_json (PDict
              [(PStr ''chain_id'', dget_or p ''chain_id'' (PStr [])), (PStr ''contract'', ct),
               (PStr ''function'', f), (PStr ''kwargs'', kw), (PStr ''nonce'', n),
               (PStr ''sender'', sd), (PStr ''chi_supplied'', chi)]) = Inr m"
    and r: "(sender, signature, msg) = (sd, sg, m)"
    unfolding unpack_transaction_def Let_def by (elim rbind_InrE) simp
  have p: "p = PDict payload" using b(2) assms(2) by (simp add: dindex_Inr_iff)
  note d = dindex_Inr_iff dget.simps
  show "canonical_json (PDict (map (\<lambda>k. (k, the (map_of payload k))) (map PStr signed_keys))) = Inr msg"
    using m r b(3,5-9) by (simp add: p d dget_or_def c)
  show "map_of payload (PStr ''sender'') = Some sender" using b(3) r by (simp add: p d)
  show "\<exists>metadata. dget tx ''metadata'' = Some metadata \<and> dget metadata ''signature'' = Some signature"
    using b(1,4) r by (simp add: dindex_Inr_iff)
qed

text \<open>A concrete signed transfer and an environment whose verifier knows one signature.\<close>

definition sample_payload :: "int \<Rightarrow> (pyval \<times> pyval) list" where
  "sample_payload nonce =
     [(PStr ''chain_id'', PStr ''xian-1''), (PStr ''chi_supplied'', PInt 50), (PStr ''contract'', PStr ''currency''),
      (PStr ''function'', PStr ''transfer''), (PStr ''kwargs'', PDict [(PStr ''amount'', PInt 5)]),
      (PStr ''nonce'', PInt nonce), (PStr ''sender'', PStr (replicate 64 CHR ''a''))]"

definition sample_tx :: "int \<Rightarrow> pyval" where
  "sample_tx nonce =
     PDict [(PStr ''metadata'', PDict [(PStr ''signature'', PStr (replicate 128 CHR ''b''))]),
            (PStr ''payload'', PDict (sample_payload nonce))]"

definition sample_env :: static_env where
  "sample_env =
     \<lparr>se_loads = (\<lambda>_. Inl (ValueError ''json'')), se_native = None,
      se_verify = (\<lambda>sender msg signature. Inr (signature = PStr (replicate 128 CHR ''b'') \<and>
        sender = PStr (replicate 64 CHR ''a''))),
      se_is_safe_contract_name = is_str\<rparr>"

lemma sample_static: "validate_transaction_static sample_env ''xian-1'' (sample_tx 0) = Inr ()"
  by code_simp

text \<open>Every transaction that passes static validation is completely well formed: its only keys are
  metadata and payload, metadata holds one 64-byte hex signature, and payload holds exactly the
  seven fields, with a 32-byte hex sender, a nonce and a chi budget that fit in 64 bits,
  identifiers as contract and function, JSON keyword arguments, and the chain id of the node.\<close>

theorem static_validation_well_formed:
  assumes "validate_transaction_static env chain_id tx = Inr ()"
  shows "tx_well_formed chain_id tx"
  using assms by (rule static_well_formed)

theorem static_validation_well_formed_witness: "tx_well_formed ''xian-1'' (sample_tx 0)"
  by (rule static_validation_well_formed [OF sample_static])

text \<open>C11: The signature of a statically valid transaction was verified, under the sender's key, over the
  canonical JSON text of the whole payload: no payload field is outside what is signed.\<close>

theorem signature_covers_payload:
  assumes "validate_transaction_static env chain_id tx = Inr ()"
    and "dget tx ''payload'' = Some (PDict payload)" and "dict_wf payload"
  shows "\<exists>sender signature metadata msg. map_of payload (PStr ''sender'') = Some sender \<and>
    dget tx ''metadata'' = Some metadata \<and> dget metadata ''signature'' = Some signature \<and>
    canonical_json (PDict payload) = Inr msg \<and> se_verify env sender msg signature = Inr True"
proof -
  from static_well_formed [OF assms(1)] assms(2) have pwf: "payload_well_formed payload"
    by (auto simp: tx_well_formed_def)
  from static_verified [OF assms(1)] obtain sender signature msg where
    u: "unpack_transaction tx = Inr (sender, signature, msg)" and v: "se_verify env sender msg signature = Inr True"
    by blast
  let ?L = "map (\<lambda>k. (k, the (map_of payload k))) (map PStr signed_keys)"
  have "fst ` set payload = set (map PStr signed_keys)"
    using pwf by (simp only: payload_well_formed_def signed_keys_rules set_map)
  then have "mset ?L = mset payload" by (rule payload_items_perm [OF assms(3)]) simp
  moreover have "dict_wf ?L" by (simp add: dict_wf_def)
  ultimately have "canonical_json (PDict payload) = Inr msg"
    by (rule canonical_json_perm [OF unpack_transaction_signed(1) [OF u assms(2) pwf]])
  with unpack_transaction_signed(2,3) [OF u assms(2) pwf] v show ?thesis by blast
qed

theorem signature_covers_payload_witness:
  "\<exists>sender signature metadata msg. map_of (sample_payload 0) (PStr ''sender'') = Some sender \<and>
    dget (sample_tx 0) ''metadata'' = Some metadata \<and> dget metadata ''signature'' = Some signature \<and>
    canonical_json (PDict (sample_payload 0)) = Inr msg \<and> se_verify sample_env sender msg signature = Inr True"
  by (rule signature_covers_payload [OF sample_static])
    (simp_all add: sample_tx_def sample_payload_def dict_wf_def)

end
