(* ===== verification/State_Root.thy ===== *)
theory State_Root
  imports Abci_Json Driver
begin

text \<open>
  The state root (\<^verbatim>\<open>src/src/xian/state_root.py\<close>): a treap over the consensus keys, with a
  hash in every node, behind a cache that stages the writes of a block, commits them or rolls
  them back.  SHA-256 and the value encoder are the parameters of \<open>hash_env\<close>.  The nodes are
  mutable objects with a single owner, so a node is a value here.
\<close>

record hash_env =
  he_sha256 :: "string \<Rightarrow> string"
  he_json :: json_env

section \<open>Keys and hashes\<close>

definition STATE_ROOT_VERSION :: string where
  "STATE_ROOT_VERSION = ''xian-state-root-v2''"

definition EMPTY_STATE_ROOT :: "hash_env \<Rightarrow> string" where
  "EMPTY_STATE_ROOT H = he_sha256 H (STATE_ROOT_VERSION @ '':empty'')"

definition LEAF_PREFIX :: string where
  "LEAF_PREFIX = STATE_ROOT_VERSION @ '':leaf:''"

definition NODE_PREFIX :: string where
  "NODE_PREFIX = STATE_ROOT_VERSION @ '':node:''"

definition PRIORITY_PREFIX :: string where
  "PRIORITY_PREFIX = STATE_ROOT_VERSION @ '':priority:''"

definition EXECUTION_POLICY_KEY :: string where
  "EXECUTION_POLICY_KEY = ''__execution_policy''"

definition is_consensus_state_key :: "string \<Rightarrow> bool" where
  "is_consensus_state_key key \<longleftrightarrow>
     key = EXECUTION_POLICY_KEY \<or> \<not> prefix ''__'' key \<or> prefix (''__n'' @ INDEX_SEPARATOR) key"

text \<open>\<^verbatim>\<open>n.to_bytes(8, "big")\<close> and \<^verbatim>\<open>int.from_bytes(b, "big")\<close>.\<close>

fun be_bytes :: "nat \<Rightarrow> int \<Rightarrow> string" where
  "be_bytes 0 n = []"
| "be_bytes (Suc width) n = be_bytes width (n div 256) @ [char_of (n mod 256)]"

definition be_int :: "string \<Rightarrow> int" where
  "be_int bytes = foldl (\<lambda>acc c. acc * 256 + of_char c) 0 bytes"

definition length_prefixed :: "string \<Rightarrow> string res" where
  "length_prefixed payload =
     (if 256 ^ 8 \<le> int (length payload) then Inl (OtherError ''OverflowError'')
      else Inr (be_bytes 8 (int (length payload)) @ payload))"

definition hash_priority :: "hash_env \<Rightarrow> string \<Rightarrow> int" where
  "hash_priority H key = be_int (he_sha256 H (PRIORITY_PREFIX @ key))"

definition hash_leaf :: "hash_env \<Rightarrow> string \<Rightarrow> pyval \<Rightarrow> string res" where
  "hash_leaf H key value =
     rbind (encode_abci_json (he_json H) value) (\<lambda>value_bytes.
     rbind (length_prefixed key) (\<lambda>k.
     rbind (length_prefixed value_bytes) (\<lambda>v.
     Inr (he_sha256 H (LEAF_PREFIX @ k @ v)))))"

definition hash_node :: "hash_env \<Rightarrow> string \<Rightarrow> string \<Rightarrow> string \<Rightarrow> string" where
  "hash_node H left leaf_hash right = he_sha256 H (NODE_PREFIX @ left @ leaf_hash @ right)"

section \<open>The treap\<close>

text \<open>A node: key, priority, leaf hash, left and right subtree, hash of the subtree.\<close>

datatype treap = Tip | TreapNode string int string treap treap string

fun subtree_hash :: "hash_env \<Rightarrow> treap \<Rightarrow> string" where
  "subtree_hash H Tip = EMPTY_STATE_ROOT H"
| "subtree_hash H (TreapNode _ _ _ _ _ root_hash) = root_hash"

fun refresh :: "hash_env \<Rightarrow> treap \<Rightarrow> treap" where
  "refresh H Tip = Tip"
| "refresh H (TreapNode key prio leaf_hash l r _) =
     TreapNode key prio leaf_hash l r (hash_node H (subtree_hash H l) leaf_hash (subtree_hash H r))"

definition new_node :: "hash_env \<Rightarrow> string \<Rightarrow> string \<Rightarrow> treap" where
  "new_node H key leaf_hash = refresh H (TreapNode key (hash_priority H key) leaf_hash Tip Tip [])"

fun rotate_right :: "hash_env \<Rightarrow> treap \<Rightarrow> treap" where
  "rotate_right H (TreapNode k p lh (TreapNode k1 p1 lh1 l1 r1 h1) r h) =
     refresh H (TreapNode k1 p1 lh1 l1 (refresh H (TreapNode k p lh r1 r h)) h1)"
| "rotate_right H t = t"

fun rotate_left :: "hash_env \<Rightarrow> treap \<Rightarrow> treap" where
  "rotate_left H (TreapNode k p lh l (TreapNode k1 p1 lh1 l1 r1 h1) h) =
     refresh H (TreapNode k1 p1 lh1 (refresh H (TreapNode k p lh l l1 h)) r1 h1)"
| "rotate_left H t = t"

fun has_lower_priority :: "treap \<Rightarrow> int \<Rightarrow> bool" where
  "has_lower_priority Tip p = False"
| "has_lower_priority (TreapNode _ p1 _ _ _ _) p = (p1 < p)"

fun insert_or_update :: "hash_env \<Rightarrow> treap \<Rightarrow> string \<Rightarrow> string \<Rightarrow> treap" where
  "insert_or_update H Tip key leaf_hash = new_node H key leaf_hash"
| "insert_or_update H (TreapNode k p lh l r h) key leaf_hash =
     (if key = k then refresh H (TreapNode k p leaf_hash l r h)
      else if key < k then
        (let l' = insert_or_update H l key leaf_hash; node = TreapNode k p lh l' r h
         in if has_lower_priority l' p then rotate_right H node else refresh H node)
      else
        (let r' = insert_or_update H r key leaf_hash; node = TreapNode k p lh l r' h
         in if has_lower_priority r' p then rotate_left H node else refresh H node))"

fun merge_treaps :: "hash_env \<Rightarrow> treap \<Rightarrow> treap \<Rightarrow> treap" where
  "merge_treaps H Tip t = t"
| "merge_treaps H t Tip = t"
| "merge_treaps H (TreapNode k1 p1 lh1 l1 r1 h1) (TreapNode k2 p2 lh2 l2 r2 h2) =
     (if p1 < p2
      then refresh H (TreapNode k1 p1 lh1 l1 (merge_treaps H r1 (TreapNode k2 p2 lh2 l2 r2 h2)) h1)
      else refresh H (TreapNode k2 p2 lh2 (merge_treaps H (TreapNode k1 p1 lh1 l1 r1 h1) l2) r2 h2))"

fun delete_key :: "hash_env \<Rightarrow> treap \<Rightarrow> string \<Rightarrow> treap" where
  "delete_key H Tip key = Tip"
| "delete_key H (TreapNode k p lh l r h) key =
     (if key = k then merge_treaps H l r
      else if key < k then refresh H (TreapNode k p lh (delete_key H l key) r h)
      else refresh H (TreapNode k p lh l (delete_key H r key) h))"

section \<open>The cache\<close>

record root_cache =
  rc_root :: treap
  rc_leaf_hashes :: "(string, string) dict"
  rc_staged :: "(string, string option) dict"

definition empty_cache :: root_cache where
  "empty_cache = \<lparr>rc_root = Tip, rc_leaf_hashes = [], rc_staged = []\<rparr>"

definition root_hash :: "hash_env \<Rightarrow> root_cache \<Rightarrow> string" where
  "root_hash H c = subtree_hash H (rc_root c)"

definition leaf_count :: "root_cache \<Rightarrow> nat" where
  "leaf_count c = length (rc_leaf_hashes c)"

definition set_leaf_hash :: "hash_env \<Rightarrow> string \<Rightarrow> string option \<Rightarrow> root_cache \<Rightarrow> root_cache" where
  "set_leaf_hash H key leaf_hash c =
     (case leaf_hash of
        None \<Rightarrow> c\<lparr>rc_leaf_hashes := AList.delete key (rc_leaf_hashes c), rc_root := delete_key H (rc_root c) key\<rparr>
      | Some h \<Rightarrow> c\<lparr>rc_leaf_hashes := AList.update key h (rc_leaf_hashes c),
                    rc_root := insert_or_update H (rc_root c) key h\<rparr>)"

definition commit_root :: "root_cache \<Rightarrow> root_cache" where
  "commit_root c = c\<lparr>rc_staged := []\<rparr>"

definition rollback :: "hash_env \<Rightarrow> root_cache \<Rightarrow> root_cache" where
  "rollback H c =
     (fold (\<lambda>(key, old). set_leaf_hash H key old) (rev (rc_staged c)) c)\<lparr>rc_staged := []\<rparr>"

text \<open>The loops of \<^verbatim>\<open>rebuild\<close> and \<^verbatim>\<open>prepare\<close>; an exception leaves the cache as it is then.\<close>

fun rebuild_loop :: "hash_env \<Rightarrow> (pyval \<times> pyval) list \<Rightarrow> root_cache \<Rightarrow> string res \<times> root_cache" where
  "rebuild_loop H [] c = (Inr (root_hash H c), c)"
| "rebuild_loop H ((key, value) # items) c =
     (if \<not> is_str key then (Inl (TypeError ''state root keys must be strings''), c)
      else if value = PNone \<or> \<not> is_consensus_state_key (str_of key) then rebuild_loop H items c
      else if map_of (rc_leaf_hashes c) (str_of key) \<noteq> None
      then (Inl (ValueError (''duplicate consensus state key: '' @ str_of key)), c)
      else case hash_leaf H (str_of key) value of
             Inl e \<Rightarrow> (Inl e, c)
           | Inr h \<Rightarrow> rebuild_loop H items (set_leaf_hash H (str_of key) (Some h) c))"

definition rebuild :: "hash_env \<Rightarrow> (pyval \<times> pyval) list \<Rightarrow> root_cache \<Rightarrow> string res \<times> root_cache" where
  "rebuild H items c = rebuild_loop H items ((rollback H c)\<lparr>rc_root := Tip, rc_leaf_hashes := []\<rparr>)"

definition optional_leaf :: "hash_env \<Rightarrow> string \<Rightarrow> pyval \<Rightarrow> string option res" where
  "optional_leaf H key value =
     (if value = PNone then Inr None else rbind (hash_leaf H key value) (\<lambda>h. Inr (Some h)))"

fun prepare_root_loop :: "hash_env \<Rightarrow> (pyval \<times> pyval) list \<Rightarrow> root_cache \<Rightarrow> string res \<times> root_cache" where
  "prepare_root_loop H [] c = (Inr (root_hash H c), c)"
| "prepare_root_loop H ((key, value) # items) c =
     (if \<not> is_str key then (Inl (TypeError ''state root keys must be strings''), c)
      else if \<not> is_consensus_state_key (str_of key) then prepare_root_loop H items c
      else case optional_leaf H (str_of key) value of
             Inl e \<Rightarrow> (Inl e, c)
           | Inr new_leaf_hash \<Rightarrow>
               let old_leaf_hash = map_of (rc_leaf_hashes c) (str_of key) in
               if old_leaf_hash = new_leaf_hash then prepare_root_loop H items c
               else prepare_root_loop H items
                      (set_leaf_hash H (str_of key) new_leaf_hash
                        (c\<lparr>rc_staged := AList.update (str_of key) old_leaf_hash (rc_staged c)\<rparr>)))"

definition prepare_root :: "hash_env \<Rightarrow> (pyval \<times> pyval) list \<Rightarrow> root_cache \<Rightarrow> string res \<times> root_cache" where
  "prepare_root H writes c = prepare_root_loop H writes (rollback H c)"

definition key_items :: "(string, pyval) dict \<Rightarrow> (pyval \<times> pyval) list" where
  "key_items d = map (\<lambda>(k, v). (PStr k, v)) d"

definition cache_from_items :: "hash_env \<Rightarrow> (pyval \<times> pyval) list \<Rightarrow> string res \<times> root_cache" where
  "cache_from_items H items = rebuild H items empty_cache"

definition cache_from_driver :: "hash_env \<Rightarrow> 'd driver \<Rightarrow> 'd \<Rightarrow> string res \<times> root_cache" where
  "cache_from_driver H D d = cache_from_items H (key_items (d_items D d []))"

definition merkle_root_from_items :: "hash_env \<Rightarrow> (pyval \<times> pyval) list \<Rightarrow> string res" where
  "merkle_root_from_items H items = fst (cache_from_items H items)"

definition compute_driver_state_root :: "hash_env \<Rightarrow> 'd driver \<Rightarrow> 'd \<Rightarrow> string res" where
  "compute_driver_state_root H D d = fst (cache_from_driver H D d)"

text \<open>Roots of exported state; \<open>py_str\<close> is the text of a value.\<close>

definition entry_pair :: "pyval \<Rightarrow> (pyval \<times> pyval) res" where
  "entry_pair entry = rbind (dindex entry ''key'') (\<lambda>k. rbind (dindex entry ''value'') (\<lambda>v. Inr (k, v)))"

definition list_items :: "pyval \<Rightarrow> pyval list res" where
  "list_items v = (case v of PList xs \<Rightarrow> Inr xs | PTuple xs \<Rightarrow> Inr xs
     | PDict kvs \<Rightarrow> Inr (map fst kvs) | _ \<Rightarrow> Inl (TypeError ''not iterable''))"

definition exported_state_items :: "(pyval \<Rightarrow> string) \<Rightarrow> pyval \<Rightarrow> (pyval \<times> pyval) list res" where
  "exported_state_items py_str exported_state =
     rbind (list_items (dget_or exported_state ''genesis'' (PList []))) (\<lambda>genesis.
     rbind (mapR entry_pair genesis) (\<lambda>items.
     rbind (list_items (dget_or exported_state ''nonces'' (PList []))) (\<lambda>nonces.
     rbind (mapR entry_pair nonces) (\<lambda>nonce_items.
     Inr (items @ map (\<lambda>(k, v). (PStr (''__n'' @ INDEX_SEPARATOR @ py_str k), v)) nonce_items)))))"

definition compute_exported_state_root :: "hash_env \<Rightarrow> (pyval \<Rightarrow> string) \<Rightarrow> pyval \<Rightarrow> string res" where
  "compute_exported_state_root H py_str exported_state =
     rbind (exported_state_items py_str exported_state) (merkle_root_from_items H)"

section \<open>Treap invariant\<close>

fun treap_keys :: "treap \<Rightarrow> string set" where
  "treap_keys Tip = {}"
| "treap_keys (TreapNode k _ _ l r _) = insert k (treap_keys l \<union> treap_keys r)"

fun leaf_at :: "treap \<Rightarrow> string \<Rightarrow> string option" where
  "leaf_at Tip x = None"
| "leaf_at (TreapNode k _ lh l r _) x =
     (if x = k then Some lh else if x < k then leaf_at l x else leaf_at r x)"

fun treap_ok :: "hash_env \<Rightarrow> treap \<Rightarrow> bool" where
  "treap_ok H Tip = True"
| "treap_ok H (TreapNode k p lh l r h) =
     (p = hash_priority H k \<and> h = hash_node H (subtree_hash H l) lh (subtree_hash H r) \<and>
      (\<forall>x\<in>treap_keys l. x < k \<and> p \<le> hash_priority H x) \<and>
      (\<forall>x\<in>treap_keys r. k < x \<and> p \<le> hash_priority H x) \<and>
      treap_ok H l \<and> treap_ok H r)"

lemma leaf_at_keys: "treap_ok H t \<Longrightarrow> leaf_at t x \<noteq> None \<longleftrightarrow> x \<in> treap_keys t"
proof (induction t)
  case (TreapNode k p lh l r h)
  then show ?case by (auto dest: less_asym)
qed simp

lemma refresh_simps [simp]:
  "treap_keys (refresh H t) = treap_keys t"
  "leaf_at (refresh H t) = leaf_at t"
  "has_lower_priority (refresh H t) p = has_lower_priority t p"
  by (cases t; simp add: fun_eq_iff)+

lemma root_lower:
  "treap_ok H t \<Longrightarrow> \<not> has_lower_priority t p \<Longrightarrow> x \<in> treap_keys t \<Longrightarrow> p \<le> hash_priority H x"
  by (cases t) fastforce+

lemma rotate_right_ok:
  assumes "treap_ok H l'" "treap_ok H r" "\<forall>x\<in>treap_keys l'. x < k" "\<forall>x\<in>treap_keys r. k < x \<and> p \<le> hash_priority H x"
    and "has_lower_priority l' p" "p = hash_priority H k"
    and "\<And>x. x \<in> treap_keys l' \<Longrightarrow> hash_priority H x < p \<Longrightarrow> x = key"
  shows "treap_ok H (rotate_right H (TreapNode k p lh l' r h)) \<and>
    treap_keys (rotate_right H (TreapNode k p lh l' r h)) = insert k (treap_keys l' \<union> treap_keys r) \<and>
    leaf_at (rotate_right H (TreapNode k p lh l' r h)) = leaf_at (TreapNode k p lh l' r h)"
proof (cases l')
  case Tip
  with assms(5) show ?thesis by simp
next
  case (TreapNode k1 p1 lh1 l1 r1 h1)
  have k1: "k1 = key" "hash_priority H k1 < p" using assms(1,5) assms(7) [of k1] by (simp_all add: TreapNode)
  have r1: "p \<le> hash_priority H x" if "x \<in> treap_keys r1" for x
    using assms(1) assms(7) [of x] that k1 by (force simp: TreapNode not_less)
  have "k1 < k" "\<forall>x\<in>treap_keys r1. k1 < x \<and> x < k" "\<forall>x\<in>treap_keys l1. x < k1 \<and> p1 \<le> hash_priority H x"
    using assms(1,3) by (auto simp: TreapNode)
  moreover have "k1 < x \<and> p1 \<le> hash_priority H x" if "x \<in> treap_keys r" for x
    using assms(4) that \<open>k1 < k\<close> k1(2) assms(1) by (force simp: TreapNode)
  ultimately show ?thesis
    using assms(1,2,4,6) k1 r1 by (auto simp: TreapNode fun_eq_iff dest: less_asym)
qed

lemma rotate_left_ok:
  assumes "treap_ok H l" "treap_ok H r'" "\<forall>x\<in>treap_keys l. x < k \<and> p \<le> hash_priority H x" "\<forall>x\<in>treap_keys r'. k < x"
    and "has_lower_priority r' p" "p = hash_priority H k"
    and "\<And>x. x \<in> treap_keys r' \<Longrightarrow> hash_priority H x < p \<Longrightarrow> x = key"
  shows "treap_ok H (rotate_left H (TreapNode k p lh l r' h)) \<and>
    treap_keys (rotate_left H (TreapNode k p lh l r' h)) = insert k (treap_keys l \<union> treap_keys r') \<and>
    leaf_at (rotate_left H (TreapNode k p lh l r' h)) = leaf_at (TreapNode k p lh l r' h)"
proof (cases r')
  case Tip
  with assms(5) show ?thesis by simp
next
  case (TreapNode k1 p1 lh1 l1 r1 h1)
  have k1: "k1 = key" "hash_priority H k1 < p" using assms(2,5) assms(7) [of k1] by (simp_all add: TreapNode)
  have l1: "p \<le> hash_priority H x" if "x \<in> treap_keys l1" for x
    using assms(2) assms(7) [of x] that k1 by (force simp: TreapNode not_less)
  have "k < k1" "\<forall>x\<in>treap_keys l1. x < k1 \<and> k < x" "\<forall>x\<in>treap_keys r1. k1 < x \<and> p1 \<le> hash_priority H x"
    using assms(2,4) by (auto simp: TreapNode)
  moreover have "x < k1 \<and> p1 \<le> hash_priority H x" if "x \<in> treap_keys l" for x
    using assms(3) that \<open>k < k1\<close> k1(2) assms(2) by (force simp: TreapNode)
  ultimately show ?thesis
    using assms(1,2,3,6) k1 l1 by (auto simp: TreapNode fun_eq_iff dest: less_asym)
qed

lemma insert_ok:
  assumes "treap_ok H t"
  shows "treap_ok H (insert_or_update H t key lh0) \<and>
    treap_keys (insert_or_update H t key lh0) = insert key (treap_keys t) \<and>
    leaf_at (insert_or_update H t key lh0) = (leaf_at t)(key \<mapsto> lh0)"
  using assms
proof (induction t)
  case Tip
  then show ?case by (auto simp: new_node_def fun_eq_iff)
next
  case (TreapNode k p lh l r h)
  have p: "p = hash_priority H k" using TreapNode.prems by simp
  consider "key = k" | "key < k" | "k < key" by (rule linorder_cases)
  then show ?case
  proof cases
    case 1
    with TreapNode.prems show ?thesis by (auto simp: fun_eq_iff)
  next
    case 2
    let ?l = "insert_or_update H l key lh0"
    have "treap_ok H l" using TreapNode.prems by simp
    from TreapNode.IH(1) [OF this] have l: "treap_ok H ?l" "treap_keys ?l = insert key (treap_keys l)"
      "leaf_at ?l = (leaf_at l)(key \<mapsto> lh0)" by blast+
    have low: "x = key" if "x \<in> treap_keys ?l" "hash_priority H x < p" for x
      using that TreapNode.prems l(2) by (force simp: not_le [symmetric])
    show ?thesis
    proof (cases "has_lower_priority ?l p")
      case True
      have "treap_ok H (rotate_right H (TreapNode k p lh ?l r h)) \<and>
        treap_keys (rotate_right H (TreapNode k p lh ?l r h)) = insert k (treap_keys ?l \<union> treap_keys r) \<and>
        leaf_at (rotate_right H (TreapNode k p lh ?l r h)) = leaf_at (TreapNode k p lh ?l r h)"
        by (rule rotate_right_ok [where key = key]) (use TreapNode.prems 2 l True low in \<open>auto\<close>)
      with 2 True l show ?thesis by (auto simp: fun_eq_iff Let_def)
    next
      case False
      with root_lower [OF l(1) False] TreapNode.prems 2 l show ?thesis by (auto simp: fun_eq_iff Let_def)
    qed
  next
    case 3
    let ?r = "insert_or_update H r key lh0"
    have "treap_ok H r" using TreapNode.prems by simp
    from TreapNode.IH(2) [OF this] have r: "treap_ok H ?r" "treap_keys ?r = insert key (treap_keys r)"
      "leaf_at ?r = (leaf_at r)(key \<mapsto> lh0)" by blast+
    have low: "x = key" if "x \<in> treap_keys ?r" "hash_priority H x < p" for x
      using that TreapNode.prems r(2) by (force simp: not_le [symmetric])
    show ?thesis
    proof (cases "has_lower_priority ?r p")
      case True
      have "treap_ok H (rotate_left H (TreapNode k p lh l ?r h)) \<and>
        treap_keys (rotate_left H (TreapNode k p lh l ?r h)) = insert k (treap_keys l \<union> treap_keys ?r) \<and>
        leaf_at (rotate_left H (TreapNode k p lh l ?r h)) = leaf_at (TreapNode k p lh l ?r h)"
        by (rule rotate_left_ok [where key = key]) (use TreapNode.prems 3 r True low in \<open>auto\<close>)
      with 3 True r show ?thesis by (auto simp: fun_eq_iff Let_def)
    next
      case False
      with root_lower [OF r(1) False] TreapNode.prems 3 r show ?thesis by (auto simp: fun_eq_iff Let_def)
    qed
  qed
qed

lemma merge_ok:
  assumes "treap_ok H a" "treap_ok H b" "\<forall>x\<in>treap_keys a. \<forall>y\<in>treap_keys b. x < y"
  shows "treap_ok H (merge_treaps H a b) \<and> treap_keys (merge_treaps H a b) = treap_keys a \<union> treap_keys b \<and>
    leaf_at (merge_treaps H a b) = leaf_at a ++ leaf_at b"
  using assms
proof (induction H a b rule: merge_treaps.induct)
  case (3 H k1 p1 lh1 l1 r1 h1 k2 p2 lh2 l2 r2 h2)
  let ?a = "TreapNode k1 p1 lh1 l1 r1 h1" and ?b = "TreapNode k2 p2 lh2 l2 r2 h2"
  have dom: "leaf_at t x = None" if "treap_ok H t" "x \<notin> treap_keys t" for t x
    using leaf_at_keys [OF that(1), of x] that(2) by simp
  have k12: "k1 < k2" using 3(5) by simp
  show ?case
  proof (cases "p1 < p2")
    case True
    have "treap_ok H r1" "\<forall>x\<in>treap_keys r1. \<forall>y\<in>treap_keys ?b. x < y" using 3(3,5) by simp_all
    from "3.IH"(1) [OF True this(1) 3(4) this(2)]
    have m: "treap_ok H (merge_treaps H r1 ?b)" "treap_keys (merge_treaps H r1 ?b) = treap_keys r1 \<union> treap_keys ?b"
      "leaf_at (merge_treaps H r1 ?b) = leaf_at r1 ++ leaf_at ?b"
      by blast+
    have "p1 \<le> hash_priority H x" if "x \<in> treap_keys ?b" for x using that 3(3,4) True by force
    then have ok: "treap_ok H (merge_treaps H ?a ?b)" using 3(3,4,5) True m(1,2) by auto
    have "leaf_at (merge_treaps H ?a ?b) x = (leaf_at ?a ++ leaf_at ?b) x" for x
    proof (cases "x < k1 \<or> x = k1")
      case True
      then have "x \<notin> treap_keys ?b" using 3(3,4,5) by (auto dest: less_asym)
      then have "leaf_at ?b x = None" using dom 3(3,4) by blast
      with True \<open>p1 < p2\<close> m show ?thesis by (auto simp: map_add_def split: option.split)
    next
      case False
      with \<open>p1 < p2\<close> m show ?thesis by (auto simp: map_add_def split: option.split)
    qed
    then have "leaf_at (merge_treaps H ?a ?b) = leaf_at ?a ++ leaf_at ?b" by (rule ext)
    moreover have "treap_keys (merge_treaps H ?a ?b) = treap_keys ?a \<union> treap_keys ?b" using m(2) True by auto
    ultimately show ?thesis using ok by blast
  next
    case False
    have "treap_ok H l2" "\<forall>x\<in>treap_keys ?a. \<forall>y\<in>treap_keys l2. x < y" using 3(4,5) by simp_all
    from "3.IH"(2) [OF False 3(3) this]
    have m: "treap_ok H (merge_treaps H ?a l2)" "treap_keys (merge_treaps H ?a l2) = treap_keys ?a \<union> treap_keys l2"
      "leaf_at (merge_treaps H ?a l2) = leaf_at ?a ++ leaf_at l2"
      by blast+
    have "p2 \<le> hash_priority H x" if "x \<in> treap_keys ?a" for x using that 3(3,4) False by force
    then have ok: "treap_ok H (merge_treaps H ?a ?b)" using 3(3,4,5) False m(1,2) by auto
    have "leaf_at (merge_treaps H ?a ?b) x = (leaf_at ?a ++ leaf_at ?b) x" for x
    proof (cases "x < k2")
      case True
      with False m show ?thesis by (auto simp: map_add_def split: option.split)
    next
      case ge: False
      then have "x \<notin> treap_keys ?a" using 3(3,4,5) by (auto dest: less_asym)
      then have "leaf_at ?a x = None" using dom 3(3,4) by blast
      with False ge m show ?thesis by (auto simp: map_add_def split: option.split)
    qed
    then have "leaf_at (merge_treaps H ?a ?b) = leaf_at ?a ++ leaf_at ?b" by (rule ext)
    moreover have "treap_keys (merge_treaps H ?a ?b) = treap_keys ?a \<union> treap_keys ?b" using m(2) False by auto
    ultimately show ?thesis using ok by blast
  qed
qed (auto simp: map_add_def fun_eq_iff split: option.split)

lemma delete_ok:
  assumes "treap_ok H t"
  shows "treap_ok H (delete_key H t key) \<and> treap_keys (delete_key H t key) = treap_keys t - {key} \<and>
    leaf_at (delete_key H t key) = (leaf_at t)(key := None)"
  using assms
proof (induction t)
  case (TreapNode k p lh l r h)
  consider "key = k" | "key < k" | "k < key" by (rule linorder_cases)
  then show ?case
  proof cases
    case 1
    have "x < y" if "x \<in> treap_keys l" "y \<in> treap_keys r" for x y
      using that TreapNode.prems less_trans [of x k y] by simp
    moreover have "treap_ok H l" "treap_ok H r" using TreapNode.prems by simp_all
    ultimately have m: "treap_ok H (merge_treaps H l r)" "treap_keys (merge_treaps H l r) = treap_keys l \<union> treap_keys r"
      "leaf_at (merge_treaps H l r) = leaf_at l ++ leaf_at r"
      using merge_ok [of H l r] by blast+
    have l: "leaf_at l x = None" if "\<not> x < k" for x
      using leaf_at_keys [of H l x] TreapNode.prems that by (cases "leaf_at l x") auto
    have r: "leaf_at r x = None" if "\<not> k < x" for x
      using leaf_at_keys [of H r x] TreapNode.prems that by (cases "leaf_at r x") auto
    have "(leaf_at l ++ leaf_at r) x = ((leaf_at (TreapNode k p lh l r h))(key := None)) x" for x
      using l [of x] r [of x] by (cases x k rule: linorder_cases) (auto simp: 1 map_add_def split: option.split dest: less_asym)
    then have "leaf_at (merge_treaps H l r) = (leaf_at (TreapNode k p lh l r h))(key := None)"
      unfolding m(3) by (rule ext)
    moreover have "k \<notin> treap_keys l \<union> treap_keys r" using TreapNode.prems by auto
    then have "treap_keys (merge_treaps H l r) = treap_keys (TreapNode k p lh l r h) - {key}"
      using m(2) by (simp add: 1)
    moreover have "delete_key H (TreapNode k p lh l r h) key = merge_treaps H l r" by (simp add: 1)
    ultimately show ?thesis using m(1) by (simp only: simp_thms)
  next
    case 2
    have l: "treap_ok H l" using TreapNode.prems by simp
    note IH = TreapNode.IH(1) [OF this, THEN conjunct1] TreapNode.IH(1) [OF this, THEN conjunct2, THEN conjunct1]
      TreapNode.IH(1) [OF this, THEN conjunct2, THEN conjunct2]
    have "\<not> k < key" "key \<noteq> k" using 2 by (simp_all add: less_imp_not_less less_imp_neq)
    moreover have "key \<notin> treap_keys r" using TreapNode.prems \<open>\<not> k < key\<close> by auto
    ultimately have "treap_keys (delete_key H (TreapNode k p lh l r h) key) = treap_keys (TreapNode k p lh l r h) - {key}"
      using 2 IH(2) by auto
    moreover have "treap_ok H (delete_key H (TreapNode k p lh l r h) key)" using 2 IH(1,2) TreapNode.prems by auto
    moreover have "leaf_at (delete_key H (TreapNode k p lh l r h) key) x = ((leaf_at (TreapNode k p lh l r h))(key := None)) x" for x
      using 2 IH(3) \<open>key \<noteq> k\<close> by simp
    ultimately show ?thesis by blast
  next
    case 3
    have r: "treap_ok H r" using TreapNode.prems by simp
    note IH = TreapNode.IH(2) [OF this, THEN conjunct1] TreapNode.IH(2) [OF this, THEN conjunct2, THEN conjunct1]
      TreapNode.IH(2) [OF this, THEN conjunct2, THEN conjunct2]
    have "\<not> key < k" "key \<noteq> k" using 3 by (simp_all add: less_imp_not_less less_imp_neq [symmetric])
    moreover have "key \<notin> treap_keys l" using TreapNode.prems \<open>\<not> key < k\<close> by auto
    ultimately have "treap_keys (delete_key H (TreapNode k p lh l r h) key) = treap_keys (TreapNode k p lh l r h) - {key}"
      using IH(2) by auto
    moreover have "treap_ok H (delete_key H (TreapNode k p lh l r h) key)" using \<open>\<not> key < k\<close> \<open>key \<noteq> k\<close> IH(1,2) TreapNode.prems by auto
    moreover have "leaf_at (delete_key H (TreapNode k p lh l r h) key) x = ((leaf_at (TreapNode k p lh l r h))(key := None)) x" for x
      using \<open>\<not> key < k\<close> \<open>key \<noteq> k\<close> IH(3) by auto
    ultimately show ?thesis by blast
  qed
qed (simp add: fun_eq_iff)

lemma treap_keys_eq: "treap_ok H s \<Longrightarrow> treap_ok H t \<Longrightarrow> leaf_at s = leaf_at t \<Longrightarrow> treap_keys s = treap_keys t"
  by (metis leaf_at_keys subsetI subset_antisym)

lemma leaf_at_left:
  "treap_ok H (TreapNode k p lh l r h) \<Longrightarrow> leaf_at l x = (if x < k then leaf_at (TreapNode k p lh l r h) x else None)"
  using leaf_at_keys [of H l x] by (cases "leaf_at l x") auto

lemma leaf_at_right:
  "treap_ok H (TreapNode k p lh l r h) \<Longrightarrow> leaf_at r x = (if k < x then leaf_at (TreapNode k p lh l r h) x else None)"
  using leaf_at_keys [of H r x] by (cases "leaf_at r x") (auto dest: less_asym)

text \<open>With distinct priorities a treap is determined by its leaves.\<close>

lemma treap_unique:
  assumes "treap_ok H s" "treap_ok H t" "inj_on (hash_priority H) (treap_keys s)" "leaf_at s = leaf_at t"
  shows "s = t"
  using assms
proof (induction s arbitrary: t)
  case Tip
  with treap_keys_eq [OF Tip(1,2,4)] show ?case by (cases t) simp_all
next
  case (TreapNode k p lh l r h)
  note keys = treap_keys_eq [OF TreapNode.prems(1,2,4)]
  then obtain k2 p2 lh2 l2 r2 h2 where t: "t = TreapNode k2 p2 lh2 l2 r2 h2" by (cases t) auto
  have "hash_priority H k \<le> hash_priority H k2" if "k2 \<noteq> k"
    using keys TreapNode.prems(1) that by (auto simp: t)
  moreover have "hash_priority H k2 \<le> hash_priority H k" if "k2 \<noteq> k"
    using keys TreapNode.prems(2) that by (auto simp: t)
  ultimately have "hash_priority H k2 = hash_priority H k" by fastforce
  moreover have "k2 \<in> treap_keys (TreapNode k p lh l r h)" "k \<in> treap_keys (TreapNode k p lh l r h)"
    using keys by (auto simp: t)
  ultimately have k: "k2 = k" using TreapNode.prems(3) unfolding inj_on_def by blast
  have "leaf_at (TreapNode k p lh l r h) k = leaf_at t k" by (rule fun_cong [OF TreapNode.prems(4)])
  then have lh: "lh2 = lh" by (simp add: t k)
  have "l = l2"
  proof (rule TreapNode.IH(1))
    show "leaf_at l = leaf_at l2"
      using leaf_at_left [OF TreapNode.prems(1)] leaf_at_left [OF TreapNode.prems(2) [unfolded t k]]
        TreapNode.prems(4) by (simp add: fun_eq_iff t k)
  qed (use TreapNode.prems in \<open>auto simp: t intro: inj_on_subset\<close>)
  moreover have "r = r2"
  proof (rule TreapNode.IH(2))
    show "leaf_at r = leaf_at r2"
      using leaf_at_right [OF TreapNode.prems(1)] leaf_at_right [OF TreapNode.prems(2) [unfolded t k]]
        TreapNode.prems(4) by (simp add: fun_eq_iff t k)
  qed (use TreapNode.prems in \<open>auto simp: t intro: inj_on_subset\<close>)
  ultimately show ?case using TreapNode.prems(1,2) by (simp add: t k lh)
qed

section \<open>Authenticated maps\<close>

text \<open>
  What the cache needs of the tree: updates and deletions act on the leaves like on a map, and
  the tree is a function of its leaves, on a set of keys that \<open>admissible\<close> allows.
\<close>

locale authenticated_map =
  fixes admissible :: "'k set \<Rightarrow> bool"
    and inv :: "'k set \<Rightarrow> 't \<Rightarrow> bool"
    and leaf :: "'t \<Rightarrow> 'k \<Rightarrow> 'v option"
    and empty :: 't
    and upd :: "'k \<Rightarrow> 'v \<Rightarrow> 't \<Rightarrow> 't"
    and del :: "'k \<Rightarrow> 't \<Rightarrow> 't"
  assumes inv_empty: "admissible K \<Longrightarrow> inv K empty"
    and leaf_empty: "leaf empty k = None"
    and inv_upd: "inv K t \<Longrightarrow> k \<in> K \<Longrightarrow> inv K (upd k v t)"
    and leaf_upd: "inv K t \<Longrightarrow> leaf (upd k v t) = (leaf t)(k \<mapsto> v)"
    and inv_del: "inv K t \<Longrightarrow> inv K (del k t)"
    and leaf_del: "inv K t \<Longrightarrow> leaf (del k t) = (leaf t)(k := None)"
    and leaf_inj: "inv K t \<Longrightarrow> inv K t' \<Longrightarrow> leaf t = leaf t' \<Longrightarrow> t = t'"
begin

lemma inv_set: "inv K t \<Longrightarrow> k \<in> K \<Longrightarrow> inv K (case v of None \<Rightarrow> del k t | Some x \<Rightarrow> upd k x t)"
  by (cases v) (simp_all add: inv_upd inv_del)

lemma leaf_set: "inv K t \<Longrightarrow> leaf (case v of None \<Rightarrow> del k t | Some x \<Rightarrow> upd k x t) = (leaf t)(k := v)"
  by (cases v) (simp_all add: leaf_upd leaf_del)

text \<open>Any two histories of updates and deletions that end with the same leaves end with the same tree.\<close>

lemma inv_fold: "inv K t \<Longrightarrow> fst ` set ops \<subseteq> K \<Longrightarrow>
    inv K (fold (\<lambda>(k, v) t. case v of None \<Rightarrow> del k t | Some x \<Rightarrow> upd k x t) ops t)"
  by (induction ops arbitrary: t) (auto simp: inv_set)

lemma history_independent:
  assumes "inv K t" "inv K t'" "fst ` set ops \<subseteq> K" "fst ` set ops' \<subseteq> K"
    and "leaf (fold (\<lambda>(k, v) t. case v of None \<Rightarrow> del k t | Some x \<Rightarrow> upd k x t) ops t) =
      leaf (fold (\<lambda>(k, v) t. case v of None \<Rightarrow> del k t | Some x \<Rightarrow> upd k x t) ops' t')"
  shows "fold (\<lambda>(k, v) t. case v of None \<Rightarrow> del k t | Some x \<Rightarrow> upd k x t) ops t =
      fold (\<lambda>(k, v) t. case v of None \<Rightarrow> del k t | Some x \<Rightarrow> upd k x t) ops' t'"
  using leaf_inj [OF inv_fold [OF assms(1,3)] inv_fold [OF assms(2,4)] assms(5)] .

end

text \<open>Keys whose priorities are distinct: SHA-256 has no collision among them.\<close>

definition distinct_priorities :: "hash_env \<Rightarrow> string set \<Rightarrow> bool" where
  "distinct_priorities H K \<longleftrightarrow> inj_on (hash_priority H) K"

definition treap_inv :: "hash_env \<Rightarrow> string set \<Rightarrow> treap \<Rightarrow> bool" where
  "treap_inv H K t \<longleftrightarrow> distinct_priorities H K \<and> treap_ok H t \<and> treap_keys t \<subseteq> K"

interpretation root_tree: authenticated_map "distinct_priorities H" "treap_inv H" leaf_at Tip
    "\<lambda>k v t. insert_or_update H t k v" "\<lambda>k t. delete_key H t k" for H
proof unfold_locales
  fix K t t'
  assume "treap_inv H K t" "treap_inv H K t'" "leaf_at t = leaf_at t'"
  then show "t = t'"
    unfolding treap_inv_def distinct_priorities_def by (metis inj_on_subset treap_unique)
qed (use insert_ok delete_ok in \<open>auto simp: treap_inv_def\<close>)

section \<open>The cache and the state\<close>

abbreviation leaves :: "root_cache \<Rightarrow> string \<Rightarrow> string option" where
  "leaves c \<equiv> map_of (rc_leaf_hashes c)"

definition cache_ok :: "hash_env \<Rightarrow> string set \<Rightarrow> root_cache \<Rightarrow> bool" where
  "cache_ok H K c \<longleftrightarrow> treap_inv H K (rc_root c) \<and> leaf_at (rc_root c) = leaves c"

definition leaf_value :: "hash_env \<Rightarrow> string \<Rightarrow> pyval \<Rightarrow> string option" where
  "leaf_value H key v =
     (if \<not> is_consensus_state_key key \<or> v = PNone then None
      else case hash_leaf H key v of Inr h \<Rightarrow> Some h | Inl _ \<Rightarrow> None)"

definition hashable :: "hash_env \<Rightarrow> string \<Rightarrow> pyval \<Rightarrow> bool" where
  "hashable H key v \<longleftrightarrow> is_consensus_state_key key \<longrightarrow> v \<noteq> PNone \<longrightarrow> is_ok (hash_leaf H key v)"

lemma set_leaf_hash_simps [simp]:
  "leaves (set_leaf_hash H key h c) = (leaves c)(key := h)"
  "rc_staged (set_leaf_hash H key h c) = rc_staged c"
  "rc_root (set_leaf_hash H key h c) =
     (case h of None \<Rightarrow> delete_key H (rc_root c) key | Some x \<Rightarrow> insert_or_update H (rc_root c) key x)"
  by (cases h; simp add: set_leaf_hash_def fun_eq_iff dict_simps)+

lemma cache_ok_set:
  assumes "cache_ok H K c" "key \<in> K"
  shows "cache_ok H K (set_leaf_hash H key h c)"
  using assms root_tree.inv_set [of H K "rc_root c" key h] root_tree.leaf_set [of H K "rc_root c" key h]
  by (simp add: cache_ok_def)

lemma cache_ok_staged [simp]: "cache_ok H K (c\<lparr>rc_staged := x\<rparr>) = cache_ok H K c"
  by (simp add: cache_ok_def)

lemma root_hash_staged [simp]: "root_hash H (c\<lparr>rc_staged := x\<rparr>) = root_hash H c"
  by (simp add: root_hash_def)

lemma cache_root_unique:
  assumes "cache_ok H K c" "cache_ok H K c'" "leaves c = leaves c'"
  shows "rc_root c = rc_root c'" "root_hash H c = root_hash H c'"
proof -
  show "rc_root c = rc_root c'"
    using assms root_tree.leaf_inj [of H K "rc_root c" "rc_root c'"] by (simp add: cache_ok_def)
  then show "root_hash H c = root_hash H c'" by (simp add: root_hash_def)
qed

lemma empty_cache_ok:
  "distinct_priorities H K \<Longrightarrow> cache_ok H K ((rollback H empty_cache)\<lparr>rc_root := Tip, rc_leaf_hashes := []\<rparr>)"
  by (auto simp: cache_ok_def treap_inv_def fun_eq_iff)

lemma key_items_simps [simp]:
  "key_items [] = []"
  "key_items ((k, v) # d) = (PStr k, v) # key_items d"
  by (simp_all add: key_items_def)

lemma leaf_value_hash: "is_consensus_state_key k \<Longrightarrow> v \<noteq> PNone \<Longrightarrow> hash_leaf H k v = Inr h \<Longrightarrow> leaf_value H k v = Some h"
  by (simp add: leaf_value_def)

text \<open>Rebuilding from a dict of hashable values succeeds and gives the leaves of the values.\<close>

lemma rebuild_loop_ok:
  assumes "cache_ok H K c" "dict_wf items" "fst ` set items \<subseteq> K" "\<forall>(k, v)\<in>set items. hashable H k v"
    and "\<forall>k\<in>fst ` set items. leaves c k = None"
  shows "\<exists>c'. rebuild_loop H (key_items items) c = (Inr (root_hash H c'), c') \<and> cache_ok H K c' \<and>
    rc_staged c' = rc_staged c \<and>
    leaves c' = (\<lambda>k. case map_of items k of Some v \<Rightarrow> leaf_value H k v | None \<Rightarrow> leaves c k)"
  using assms
proof (induction items arbitrary: c)
  case (Cons kv items)
  obtain k v where kv: "kv = (k, v)" by (cases kv)
  have k: "k \<in> K" "map_of items k = None" "leaves c k = None" using Cons.prems by (auto simp: kv map_of_None_fst)
  show ?case
  proof (cases "v = PNone \<or> \<not> is_consensus_state_key k")
    case True
    then have "leaf_value H k v = None" by (auto simp: leaf_value_def)
    with True Cons.IH [OF Cons.prems(1)] Cons.prems k show ?thesis by (auto simp: kv fun_eq_iff)
  next
    case False
    with Cons.prems(4) obtain h where h: "hash_leaf H k v = Inr h" by (auto simp: kv hashable_def is_ok_def split: sum.splits)
    let ?c = "set_leaf_hash H k (Some h) c"
    have "\<exists>c'. rebuild_loop H (key_items items) ?c = (Inr (root_hash H c'), c') \<and> cache_ok H K c' \<and>
      rc_staged c' = rc_staged ?c \<and>
      leaves c' = (\<lambda>k. case map_of items k of Some v \<Rightarrow> leaf_value H k v | None \<Rightarrow> leaves ?c k)"
      by (rule Cons.IH) (use Cons.prems k(1) in \<open>auto simp: kv cache_ok_set\<close>)
    then show ?thesis
      using False h k leaf_value_hash [OF _ _ h] by (auto simp: kv fun_eq_iff split: option.split)
  qed
qed simp

text \<open>Preparing stages the old leaf of every key that changes.\<close>

definition staged_ok :: "(string \<Rightarrow> string option) \<Rightarrow> root_cache \<Rightarrow> bool" where
  "staged_ok old c \<longleftrightarrow> dict_wf (rc_staged c) \<and>
     (\<forall>k. leaves c k = old k \<or> map_of (rc_staged c) k = Some (old k)) \<and>
     (\<forall>k x. map_of (rc_staged c) k = Some x \<longrightarrow> x = old k)"

lemma staged_ok_set:
  assumes "staged_ok old c" "leaves c k = old k"
  shows "staged_ok old (set_leaf_hash H k h (c\<lparr>rc_staged := AList.update k (leaves c k) (rc_staged c)\<rparr>))"
  using assms by (auto simp: staged_ok_def dict_simps)

lemma prepare_root_loop_ok:
  assumes "prepare_root_loop H (key_items items) c = (Inr r, c')"
    and "cache_ok H K c" "dict_wf items" "fst ` set items \<subseteq> K"
    and "staged_ok old c" "\<forall>k\<in>fst ` set items. leaves c k = old k"
  shows "cache_ok H K c' \<and> r = root_hash H c' \<and> staged_ok old c' \<and> (\<forall>(k, v)\<in>set items. hashable H k v) \<and>
    fst ` set (rc_staged c') \<subseteq> fst ` set (rc_staged c) \<union> fst ` set items \<and>
    leaves c' = (\<lambda>k. case map_of items k of
      Some v \<Rightarrow> if is_consensus_state_key k then leaf_value H k v else leaves c k | None \<Rightarrow> leaves c k)"
  using assms
proof (induction items arbitrary: c)
  case (Cons kv items)
  obtain k v where kv: "kv = (k, v)" by (cases kv)
  have k: "k \<in> K" "map_of items k = None" "leaves c k = old k"
    using Cons.prems by (auto simp: kv map_of_None_fst)
  have items: "dict_wf items" "fst ` set items \<subseteq> K" "\<forall>k\<in>fst ` set items. leaves c k = old k"
    using Cons.prems by (auto simp: kv)
  show ?case
  proof (cases "is_consensus_state_key k")
    case False
    with Cons.prems(1) have "prepare_root_loop H (key_items items) c = (Inr r, c')" by (simp add: kv)
    from Cons.IH [OF this Cons.prems(2) items(1,2) Cons.prems(5) items(3)] False k(2) show ?thesis
      by (auto simp: kv hashable_def fun_eq_iff)
  next
    case True
    with Cons.prems(1) obtain new where new: "optional_leaf H k v = Inr new"
      by (cases "optional_leaf H k v") (auto simp: kv)
    have leaf: "hashable H k v" "leaf_value H k v = new"
      using new True by (auto simp: optional_leaf_def leaf_value_def hashable_def is_ok_iff rbind_Inr_iff split: if_splits)
    show ?thesis
    proof (cases "leaves c k = new")
      case same: True
      with Cons.prems(1) True new have "prepare_root_loop H (key_items items) c = (Inr r, c')" by (simp add: kv)
      from Cons.IH [OF this Cons.prems(2) items(1,2) Cons.prems(5) items(3)] True k(2) leaf same show ?thesis
        by (auto simp: kv fun_eq_iff)
    next
      case changed: False
      let ?c = "set_leaf_hash H k new (c\<lparr>rc_staged := AList.update k (leaves c k) (rc_staged c)\<rparr>)"
      have run: "prepare_root_loop H (key_items items) ?c = (Inr r, c')"
        using Cons.prems(1) True new changed by (simp add: kv Let_def)
      have "cache_ok H K ?c" using Cons.prems(2) k(1) by (simp add: cache_ok_set)
      moreover have "staged_ok old ?c" using Cons.prems(5) k(3) by (rule staged_ok_set)
      moreover have "\<forall>x\<in>fst ` set items. leaves ?c x = old x"
        using items(3) k(2) by (auto simp: map_of_None_fst)
      ultimately have "cache_ok H K c' \<and> r = root_hash H c' \<and> staged_ok old c' \<and> (\<forall>(k, v)\<in>set items. hashable H k v) \<and>
        fst ` set (rc_staged c') \<subseteq> fst ` set (rc_staged ?c) \<union> fst ` set items \<and>
        leaves c' = (\<lambda>k. case map_of items k of
          Some v \<Rightarrow> if is_consensus_state_key k then leaf_value H k v else leaves ?c k | None \<Rightarrow> leaves ?c k)"
        by (intro Cons.IH [OF run _ items(1,2)])
      then show ?thesis
        using True leaf k(2) by (auto simp: kv fun_eq_iff AList.dom_update split: option.split)
    qed
  qed
qed simp

text \<open>Rolling back puts every staged leaf back, so the tree is the one before.\<close>

lemma rollback_fold:
  assumes "cache_ok H K c" "fst ` set st \<subseteq> K" "dict_wf st"
  shows "cache_ok H K (fold (\<lambda>(key, old). set_leaf_hash H key old) st c) \<and>
    leaves (fold (\<lambda>(key, old). set_leaf_hash H key old) st c) =
      (\<lambda>k. case map_of st k of Some x \<Rightarrow> x | None \<Rightarrow> leaves c k)"
  using assms
proof (induction st arbitrary: c)
  case (Cons kv st)
  obtain k x where kv: "kv = (k, x)" by (cases kv)
  have "map_of st k = None" using Cons.prems by (simp add: kv map_of_None_fst)
  with Cons.IH [of "set_leaf_hash H k x c"] Cons.prems show ?case
    by (auto simp: kv cache_ok_set fun_eq_iff split: option.split)
qed simp

lemma map_of_rev: "dict_wf d \<Longrightarrow> map_of (rev d) = map_of d"
  by (rule map_of_perm [symmetric]) simp_all

lemma dict_wf_rev [simp]: "dict_wf (rev d) = dict_wf d"
  by (simp add: dict_wf_def rev_map [symmetric])

lemma rollback_ok:
  assumes "cache_ok H K c" "staged_ok old c" "fst ` set (rc_staged c) \<subseteq> K"
  shows "cache_ok H K (rollback H c) \<and> leaves (rollback H c) = old \<and> rc_staged (rollback H c) = []"
proof -
  have wf: "dict_wf (rc_staged c)" using assms(2) by (simp add: staged_ok_def)
  have "fst ` set (rev (rc_staged c)) \<subseteq> K" "dict_wf (rev (rc_staged c))" using assms(3) wf by simp_all
  from rollback_fold [OF assms(1) this]
  have ok: "cache_ok H K (rollback H c)"
    and l: "leaves (rollback H c) k = (case map_of (rc_staged c) k of Some x \<Rightarrow> x | None \<Rightarrow> leaves c k)" for k
    by (simp_all add: rollback_def map_of_rev [OF wf])
  have "leaves (rollback H c) k = old k" for k
  proof (cases "map_of (rc_staged c) k")
    case None
    then have "leaves c k = old k" using assms(2) unfolding staged_ok_def by (metis option.distinct(1))
    with None l [of k] show ?thesis by simp
  next
    case (Some x)
    then have "x = old k" using assms(2) unfolding staged_ok_def by blast
    with Some l [of k] show ?thesis by simp
  qed
  then have "leaves (rollback H c) = old" by (rule ext)
  with ok show ?thesis by (simp add: rollback_def)
qed

text \<open>The cache of a node between blocks: nothing staged, the leaves of what is on disk.\<close>

definition cache_matches :: "hash_env \<Rightarrow> string set \<Rightarrow> 'd driver \<Rightarrow> 'd \<Rightarrow> root_cache \<Rightarrow> bool" where
  "cache_matches H K D d c \<longleftrightarrow> cache_ok H K c \<and> rc_staged c = [] \<and>
     (\<forall>k. leaves c k = leaf_value H k (d_value_from_disk D d k) \<and> hashable H k (d_value_from_disk D d k))"

definition keys_within :: "'d driver \<Rightarrow> 'd \<Rightarrow> string set \<Rightarrow> bool" where
  "keys_within D d K \<longleftrightarrow>
     (\<forall>k. k \<notin> K \<longrightarrow> d_value_from_disk D d k = PNone \<and> map_of (d_pending_writes D d) k = None)"

lemma leaf_value_PNone [simp]: "leaf_value H k PNone = None"
  by (simp add: leaf_value_def)

lemma hashable_PNone [simp]: "hashable H k PNone"
  by (simp add: hashable_def)

lemma rollback_unstaged: "rc_staged c = [] \<Longrightarrow> rollback H c = c"
  by (simp add: rollback_def)

lemma cache_matches_prepare:
  assumes laws: "driver_laws D" and keys: "keys_within D d K" and c: "cache_matches H K D d c"
    and run: "prepare_root H (key_items (d_pending_writes D d)) c = (Inr app_hash, c')"
  shows "cache_ok H K c'" "app_hash = root_hash H c'" "staged_ok (leaves c) c'" "fst ` set (rc_staged c') \<subseteq> K"
    "leaves c' k = leaf_value H k (d_get D d k)" "hashable H k (d_get D d k)"
proof -
  let ?w = "d_pending_writes D d"
  have wf: "dict_wf ?w" using laws by (rule driver_wfD)
  have sub: "fst ` set ?w \<subseteq> K" using keys by (auto simp: keys_within_def map_of_None_fst)
  have "cache_ok H K c" "rc_staged c = []" using c by (simp_all add: cache_matches_def)
  moreover have "prepare_root_loop H (key_items ?w) c = (Inr app_hash, c')"
    using run by (simp add: prepare_root_def rollback_unstaged calculation(2))
  moreover have "staged_ok (leaves c) c" by (simp add: staged_ok_def calculation(2))
  ultimately have r: "cache_ok H K c' \<and> app_hash = root_hash H c' \<and> staged_ok (leaves c) c' \<and>
      (\<forall>(k, v)\<in>set ?w. hashable H k v) \<and> fst ` set (rc_staged c') \<subseteq> fst ` set (rc_staged c) \<union> fst ` set ?w \<and>
      leaves c' = (\<lambda>k. case map_of ?w k of
        Some v \<Rightarrow> if is_consensus_state_key k then leaf_value H k v else leaves c k | None \<Rightarrow> leaves c k)"
    using prepare_root_loop_ok [of H ?w c app_hash c' K "leaves c"] wf sub by blast
  then show "cache_ok H K c'" "app_hash = root_hash H c'" "staged_ok (leaves c) c'" by blast+
  have "fst ` set (rc_staged c') \<subseteq> fst ` set (rc_staged c) \<union> fst ` set ?w" using r by blast
  then have "fst ` set (rc_staged c') \<subseteq> fst ` set ?w" by (simp add: \<open>rc_staged c = []\<close>)
  with sub show "fst ` set (rc_staged c') \<subseteq> K" by blast
  have old: "leaves c k = leaf_value H k (d_value_from_disk D d k)" "hashable H k (d_value_from_disk D d k)"
    using c by (simp_all add: cache_matches_def)
  have "leaves c' k = leaf_value H k (d_get D d k) \<and> hashable H k (d_get D d k)"
  proof (cases "map_of ?w k")
    case None
    with r old show ?thesis by (simp add: driver_get_split [OF laws])
  next
    case (Some v)
    then have "(k, v) \<in> set ?w" by (rule map_of_SomeD)
    with r Some old show ?thesis by (auto simp: driver_get_split [OF laws] leaf_value_def)
  qed
  then show "leaves c' k = leaf_value H k (d_get D d k)" "hashable H k (d_get D d k)" by blast+
qed

lemma cache_from_driver_ok:
  assumes laws: "driver_laws D" and K: "distinct_priorities H K" "\<And>k. d_get D d k \<noteq> PNone \<Longrightarrow> k \<in> K"
    and hash: "\<And>k. hashable H k (d_get D d k)"
  shows "\<exists>c. cache_from_driver H D d = (Inr (root_hash H c), c) \<and> cache_ok H K c \<and> rc_staged c = [] \<and>
    (\<forall>k. leaves c k = leaf_value H k (d_get D d k))"
proof -
  let ?items = "d_items D d []" and ?c = "(rollback H empty_cache)\<lparr>rc_root := Tip, rc_leaf_hashes := []\<rparr>"
  have m: "map_of ?items k = (if d_get D d k \<noteq> PNone then Some (d_get D d k) else None)" for k
    by (simp add: driver_lawsD(7) [OF laws])
  have wf: "dict_wf ?items" using laws by (rule driver_wfD)
  have item: "v = d_get D d k \<and> d_get D d k \<noteq> PNone" if "(k, v) \<in> set ?items" for k v
    using that m [of k] wf by (auto simp: dict_wf_map_of_iff [symmetric] split: if_splits)
  then have "fst ` set ?items \<subseteq> K" "\<forall>(k, v)\<in>set ?items. hashable H k v" using K(2) hash by fastforce+
  from rebuild_loop_ok [OF empty_cache_ok [OF K(1)] wf this] obtain c where
    c: "rebuild_loop H (key_items ?items) ?c = (Inr (root_hash H c), c)" "cache_ok H K c" "rc_staged c = rc_staged ?c"
      "leaves c = (\<lambda>k. case map_of ?items k of Some v \<Rightarrow> leaf_value H k v | None \<Rightarrow> leaves ?c k)" by auto
  have "rc_staged ?c = []" by (simp add: rollback_def empty_cache_def)
  moreover have "leaves c k = leaf_value H k (d_get D d k)" for k using c(4) m [of k] by auto
  ultimately show ?thesis using c by (auto simp: cache_from_driver_def cache_from_items_def rebuild_def)
qed

text \<open>The root of a state, and what a scan of the database computes.\<close>

definition root_of :: "hash_env \<Rightarrow> string set \<Rightarrow> (string \<Rightarrow> pyval) \<Rightarrow> string \<Rightarrow> bool" where
  "root_of H K S h \<longleftrightarrow>
     (\<exists>c. cache_ok H K c \<and> h = root_hash H c \<and> (\<forall>k. leaves c k = leaf_value H k (S k) \<and> hashable H k (S k)))"

lemma root_of_unique: "root_of H K S h \<Longrightarrow> root_of H K S h' \<Longrightarrow> h = h'"
  unfolding root_of_def by (metis (no_types, lifting) cache_root_unique(2) ext)

lemma rebuild_loop_hashable:
  "rebuild_loop H (key_items items) c = (Inr h, c') \<Longrightarrow> (k, v) \<in> set items \<Longrightarrow> hashable H k v"
proof (induction items arbitrary: c)
  case (Cons kv items)
  obtain k' v' where kv: "kv = (k', v')" by (cases kv)
  show ?case using Cons.prems Cons.IH
    by (cases "v' = PNone \<or> \<not> is_consensus_state_key k'")
      (auto simp: kv hashable_def is_ok_def split: if_splits sum.splits)
qed simp

lemma rebuild_from_any: "rebuild H items c = rebuild H items empty_cache"
proof -
  have "(rollback H c)\<lparr>rc_root := Tip, rc_leaf_hashes := []\<rparr> = empty_cache" for c
    by (rule root_cache.equality) (simp_all add: rollback_def empty_cache_def)
  then show ?thesis by (simp add: rebuild_def)
qed

lemma recomputed_root:
  assumes laws: "driver_laws D" and K: "distinct_priorities H K" "\<And>k. k \<notin> K \<Longrightarrow> d_get D d k = PNone"
    and root: "root_of H K (d_get D d) h"
  shows "compute_driver_state_root H D d = Inr h"
proof -
  have K': "d_get D d k \<noteq> PNone \<Longrightarrow> k \<in> K" for k using K(2) by blast
  have hash: "hashable H k (d_get D d k)" for k using root by (auto simp: root_of_def)
  obtain c where c: "cache_from_driver H D d = (Inr (root_hash H c), c)" "cache_ok H K c"
    "\<forall>k. leaves c k = leaf_value H k (d_get D d k)"
    using cache_from_driver_ok [OF laws K(1) K' hash] by blast
  then have "root_of H K (d_get D d) (root_hash H c)" using hash by (auto simp: root_of_def)
  from root_of_unique [OF this root] c(1) show ?thesis by (simp add: compute_driver_state_root_def)
qed

section \<open>Properties\<close>

text \<open>A database with two keys and a block that changes one and adds another, hashed by the identity.\<close>

definition sample_hash :: hash_env where
  "sample_hash = \<lparr>he_sha256 = id, he_json = \<lparr>je_is_wrapper_set = (\<lambda>_. False), je_encode_set_value = id,
     je_exception_text = (\<lambda>_. None), je_bytes_repr = id\<rparr>\<rparr>"

definition sample_db :: mem_db where
  "sample_db = \<lparr>db_disk = [(''a'', PInt 1), (''b'', PInt 2)], db_pending = [(''c'', PInt 3), (''a'', PNone)]\<rparr>"

definition sample_keys :: "string set" where
  "sample_keys = {''a'', ''b'', ''c''}"

definition sample_cache :: root_cache where
  "sample_cache = snd (cache_from_items sample_hash (key_items (db_disk sample_db)))"

lemma sample_priorities: "distinct_priorities sample_hash sample_keys"
  unfolding distinct_priorities_def sample_keys_def by code_simp

lemma sample_keys_within: "keys_within mem_driver sample_db sample_keys"
  by (auto simp: keys_within_def sample_db_def sample_keys_def mem_driver_def mem_lookup_def)

lemma sample_matches: "cache_matches sample_hash sample_keys mem_driver sample_db sample_cache"
proof -
  let ?d = "sample_db\<lparr>db_pending := []\<rparr>"
  have get: "d_get mem_driver ?d = d_value_from_disk mem_driver sample_db"
    by (simp add: mem_driver_def mem_get_def fun_eq_iff)
  have hash: "hashable sample_hash k (d_get mem_driver ?d k)" for k
  proof -
    have "list_all (\<lambda>(k, v). is_ok (hash_leaf sample_hash k v)) (db_disk sample_db)" by code_simp
    then show ?thesis unfolding get
      by (auto simp: hashable_def mem_driver_def mem_lookup_def list_all_iff split: option.splits dest: map_of_SomeD)
  qed
  have "d_get mem_driver ?d k \<noteq> PNone \<Longrightarrow> k \<in> sample_keys" for k
    using sample_keys_within by (auto simp: get keys_within_def)
  from cache_from_driver_ok [OF mem_driver_laws sample_priorities this hash] obtain c where
    c: "cache_from_driver sample_hash mem_driver ?d = (Inr (root_hash sample_hash c), c)" "cache_ok sample_hash sample_keys c"
      "rc_staged c = []" "\<forall>k. leaves c k = leaf_value sample_hash k (d_get mem_driver ?d k)"
    by blast
  have "d_items mem_driver ?d [] = db_disk sample_db" by code_simp
  then have "c = sample_cache" using c(1) by (simp add: cache_from_driver_def sample_cache_def)
  with c hash show ?thesis by (simp add: cache_matches_def get)
qed

lemma sample_prepare:
  "prepare_root sample_hash (key_items (d_pending_writes mem_driver sample_db)) sample_cache =
    (Inr (root_hash sample_hash (snd (prepare_root sample_hash (key_items (d_pending_writes mem_driver sample_db)) sample_cache))),
     snd (prepare_root sample_hash (key_items (d_pending_writes mem_driver sample_db)) sample_cache))"
  by code_simp

lemmas sample_hyps = mem_driver_laws sample_keys_within sample_matches sample_prepare

text \<open>C4: The app hash of a block is the hash of the state it leaves behind: the root that
  \<^verbatim>\<open>prepare\<close> computes incrementally from the pending writes equals the root that a node
  computes from scratch from the database once the writes are applied, and after committing the
  cache matches the database again, ready for the next block.  SHA-256 must give the keys
  involved distinct priorities.\<close>

theorem prepared_root_is_recomputed_root:
  assumes "driver_laws D" and "distinct_priorities H K" and "keys_within D d K" and "cache_matches H K D d c"
    and "prepare_root H (key_items (d_pending_writes D d)) c = (Inr app_hash, c')"
  shows "compute_driver_state_root H D (d_hard_apply D n d) = Inr app_hash \<and>
    cache_matches H K D (d_hard_apply D n d) (commit_root c')"
proof
  note p = cache_matches_prepare [OF assms(1,3-5)]
  have K: "k \<in> K" if "d_get D (d_hard_apply D n d) k \<noteq> PNone" for k
    using that assms(1,3) by (auto simp: driver_simps keys_within_def driver_get_split [of D d])
  have get: "d_get D (d_hard_apply D n d) = d_get D d" using assms(1) by (rule get_hard_apply)
  have "hashable H k (d_get D (d_hard_apply D n d) k)" for k unfolding get by (rule p(6))
  from cache_from_driver_ok [OF assms(1,2) K this] obtain c2 where
    c2: "cache_from_driver H D (d_hard_apply D n d) = (Inr (root_hash H c2), c2)" "cache_ok H K c2"
      "\<forall>k. leaves c2 k = leaf_value H k (d_get D d k)" by (auto simp: get)
  have "leaves c2 = leaves c'" using p(5) c2(3) by (simp add: fun_eq_iff)
  from cache_root_unique(2) [OF c2(2) p(1) this] c2(1) p(2)
  show "compute_driver_state_root H D (d_hard_apply D n d) = Inr app_hash"
    by (simp add: compute_driver_state_root_def)
  show "cache_matches H K D (d_hard_apply D n d) (commit_root c')"
    using p(1,5,6) by (simp add: cache_matches_def commit_root_def driver_lawsD(3) [OF assms(1)])
qed

theorem prepared_root_is_recomputed_root_witness:
  "\<exists>app_hash c'. prepare_root sample_hash (key_items (d_pending_writes mem_driver sample_db)) sample_cache = (Inr app_hash, c') \<and>
     compute_driver_state_root sample_hash mem_driver (d_hard_apply mem_driver ''1'' sample_db) = Inr app_hash"
  using prepared_root_is_recomputed_root [OF sample_hyps(1) sample_priorities sample_hyps(2-4), of "''1''"] sample_prepare
  by blast

text \<open>Rolling back a prepared block gives back exactly the tree, the root and the leaves from before
  the block, whatever rotations and merges the block's writes caused.\<close>

theorem rollback_restores:
  assumes "driver_laws D" and "keys_within D d K" and "cache_matches H K D d c"
    and "prepare_root H (key_items (d_pending_writes D d)) c = (Inr app_hash, c')"
  shows "rc_root (rollback H c') = rc_root c \<and> root_hash H (rollback H c') = root_hash H c \<and>
    leaves (rollback H c') = leaves c \<and> cache_matches H K D d (rollback H c')"
proof -
  note p = cache_matches_prepare [OF assms]
  from rollback_ok [OF p(1,3,4)] have r: "cache_ok H K (rollback H c')" "leaves (rollback H c') = leaves c"
    "rc_staged (rollback H c') = []" by auto
  have c: "cache_ok H K c" using assms(3) by (simp add: cache_matches_def)
  from cache_root_unique [OF r(1) c r(2)] r assms(3) show ?thesis by (simp add: cache_matches_def)
qed

theorem rollback_restores_witness:
  "rc_root (rollback sample_hash
     (snd (prepare_root sample_hash (key_items (d_pending_writes mem_driver sample_db)) sample_cache))) = rc_root sample_cache"
  using rollback_restores [OF sample_hyps] by blast

text \<open>The root of a set of items does not depend on their order.\<close>

theorem root_order_independent:
  assumes "dict_wf items" and "mset items = mset items'"
    and "distinct_priorities H (fst ` set items)" and "\<forall>(k, v)\<in>set items. hashable H k v"
  shows "\<exists>app_hash. merkle_root_from_items H (key_items items) = Inr app_hash \<and>
    merkle_root_from_items H (key_items items') = Inr app_hash"
proof -
  let ?K = "fst ` set items" and ?c = "(rollback H empty_cache)\<lparr>rc_root := Tip, rc_leaf_hashes := []\<rparr>"
  have set: "set items' = set items" using assms(2) by (metis mset_eq_setD)
  have "mset (map fst items') = mset (map fst items)" using assms(2) by simp
  then have wf': "dict_wf items'" using assms(1) unfolding dict_wf_def by (metis mset_eq_imp_distinct_iff)
  note build = rebuild_loop_ok [OF empty_cache_ok [OF assms(3)]]
  from build [OF assms(1)] assms(4) obtain c where
    c: "rebuild_loop H (key_items items) ?c = (Inr (root_hash H c), c)" "cache_ok H ?K c"
      "leaves c = (\<lambda>k. case map_of items k of Some v \<Rightarrow> leaf_value H k v | None \<Rightarrow> leaves ?c k)" by auto
  from build [OF wf'] assms(4) obtain c2 where
    c2: "rebuild_loop H (key_items items') ?c = (Inr (root_hash H c2), c2)" "cache_ok H ?K c2"
      "leaves c2 = (\<lambda>k. case map_of items' k of Some v \<Rightarrow> leaf_value H k v | None \<Rightarrow> leaves ?c k)"
    unfolding set by auto
  have "leaves c = leaves c2" unfolding c(3) c2(3) map_of_perm [OF assms(1,2)] ..
  from cache_root_unique(2) [OF c(2) c2(2) this] c(1) c2(1) show ?thesis
    by (simp add: merkle_root_from_items_def cache_from_items_def rebuild_def)
qed

theorem root_order_independent_witness:
  "\<exists>app_hash. merkle_root_from_items sample_hash (key_items [(''a'', PInt 1), (''b'', PInt 2)]) = Inr app_hash \<and>
    merkle_root_from_items sample_hash (key_items [(''b'', PInt 2), (''a'', PInt 1)]) = Inr app_hash"
proof (rule root_order_independent)
  show "distinct_priorities sample_hash (fst ` set [(''a'', PInt 1), (''b'', PInt 2)])"
    unfolding distinct_priorities_def by code_simp
  show "\<forall>(k, v)\<in>set [(''a'', PInt 1), (''b'', PInt 2)]. hashable sample_hash k v"
    unfolding hashable_def by code_simp
qed simp_all

end
