(* ===== verification/Execution_Policy.thy ===== *)
theory Execution_Policy
  imports State_Root
begin

text \<open>
  The execution policy a chain is pinned to (\<^verbatim>\<open>src/src/xian/execution_policy.py\<close>): the
  marker in genesis, the marker in the store on disk and the settings that used to choose an
  engine.  The store is its entries by key, or None when \<^verbatim>\<open>data.mdb\<close> does not exist;
  \<^verbatim>\<open>json.loads\<close> is a parameter.
\<close>

definition VM_EXECUTION_MODE :: string where "VM_EXECUTION_MODE = ''xian_vm_v1''"
definition VM_BYTECODE_VERSION :: string where "VM_BYTECODE_VERSION = ''xvm-1''"
definition VM_GAS_SCHEDULE :: string where "VM_GAS_SCHEDULE = ''xvm-gas-2''"
definition VM_EXECUTION_REVISION :: string where "VM_EXECUTION_REVISION = ''xvm-execution-5''"
definition SET_CODEC :: string where "SET_CODEC = ''xian-set-1''"

lemmas policy_constants =
  VM_EXECUTION_MODE_def VM_BYTECODE_VERSION_def VM_GAS_SCHEDULE_def VM_EXECUTION_REVISION_def SET_CODEC_def

definition current_execution_policy :: "(pyval \<times> pyval) list" where
  "current_execution_policy =
     [(PStr ''execution_revision'', PStr VM_EXECUTION_REVISION), (PStr ''gas_schedule'', PStr VM_GAS_SCHEDULE),
      (PStr ''bytecode_version'', PStr VM_BYTECODE_VERSION), (PStr ''set_codec'', PStr SET_CODEC)]"

text \<open>Equality of dicts does not see the order of their items.\<close>

definition dict_eq :: "(pyval \<times> pyval) list \<Rightarrow> (pyval \<times> pyval) list \<Rightarrow> bool" where
  "dict_eq d e = (length d = length e \<and> list_all (\<lambda>(k, v). map_of d k = Some v) e)"

definition incompatible_policy :: exc where
  "incompatible_policy = ValueError ''incompatible or missing execution policy''"

definition validate_execution_policy :: "pyval \<Rightarrow> unit res" where
  "validate_execution_policy v =
     (case v of PDict d \<Rightarrow> guard (dict_eq d current_execution_policy) incompatible_policy
      | _ \<Rightarrow> Inl incompatible_policy)"

definition genesis_policies :: "pyval \<Rightarrow> pyval list" where
  "genesis_policies genesis =
     (let state = dget_or genesis ''abci_genesis'' genesis in
      case dget_or state ''genesis'' (PList []) of
        PList entries \<Rightarrow>
          map (\<lambda>entry. dget_or entry ''value'' PNone)
            (filter (\<lambda>entry. is_dict entry \<and> dget_or entry ''key'' PNone = PStr EXECUTION_POLICY_KEY) entries)
      | _ \<Rightarrow> [])"

definition validate_genesis_execution_policy :: "pyval \<Rightarrow> unit res" where
  "validate_genesis_execution_policy genesis =
     (let policies = genesis_policies genesis in
      if length policies \<noteq> 1 then Inl (ValueError ''genesis must contain exactly one execution policy'')
      else validate_execution_policy (hd policies))"

type_synonym lmdb = "(string, string) dict option"

definition decode_policy :: "(string \<Rightarrow> pyval res) \<Rightarrow> string option \<Rightarrow> pyval res" where
  "decode_policy loads raw =
     (case raw of None \<Rightarrow> Inr PNone
      | Some bytes \<Rightarrow>
          (case loads bytes of
             Inl (ValueError _) \<Rightarrow> Inl (ValueError ''invalid persisted execution policy'')
           | Inl (TypeError _) \<Rightarrow> Inl (ValueError ''invalid persisted execution policy'')
           | r \<Rightarrow> r))"

definition validate_persisted_execution_policy :: "(string \<Rightarrow> pyval res) \<Rightarrow> lmdb \<Rightarrow> bool res" where
  "validate_persisted_execution_policy loads store =
     (case store of None \<Rightarrow> Inr False
      | Some entries \<Rightarrow>
          if length entries = 0 then Inr False
          else rbind (decode_policy loads (map_of entries EXECUTION_POLICY_KEY)) (\<lambda>v.
               rbind (validate_execution_policy v) (\<lambda>_. Inr True)))"

text \<open>
  The store is inspected and then, if it is empty, marked in a write transaction of its own,
  which may see another store (\<open>seen\<close>): another process could have written in between.
\<close>

definition initialize_execution_policy :: "(string \<Rightarrow> pyval res) \<Rightarrow> lmdb \<Rightarrow> lmdb \<Rightarrow> lmdb res" where
  "initialize_execution_policy loads store seen =
     rbind (validate_persisted_execution_policy loads store) (\<lambda>valid.
     if valid then Inr seen
     else let entries = (case seen of None \<Rightarrow> [] | Some e \<Rightarrow> e) in
       if length entries \<noteq> 0 then Inl (ValueError ''state changed during execution policy initialization'')
       else rbind (json_dumps (PDict current_execution_policy)) (\<lambda>encoded.
            Inr (Some (AList.update EXECUTION_POLICY_KEY encoded entries))))"

definition py_spaces :: "string \<Rightarrow> string" where
  "py_spaces s = dropWhile is_ascii_space (rev (dropWhile is_ascii_space (rev s)))"

definition validate_vm_execution_mode :: "string option \<Rightarrow> unit res" where
  "validate_vm_execution_mode mode =
     (let selected = py_spaces (case mode of Some m \<Rightarrow> if m \<noteq> [] then m else VM_EXECUTION_MODE | None \<Rightarrow> VM_EXECUTION_MODE)
      in guard (selected = VM_EXECUTION_MODE) (ValueError ''xian_vm_v1 is the only supported execution mode''))"

definition validate_vm_execution_config :: "pyval \<Rightarrow> unit res" where
  "validate_vm_execution_config xian_config =
     (if dget xian_config ''tracer_mode'' \<noteq> None then Inl (ValueError ''xian.tracer_mode is no longer supported'')
      else if dget xian_config ''execution'' \<noteq> None then Inl (ValueError ''xian.execution has been removed'')
      else validate_vm_execution_mode None)"

section \<open>The marker guards the store\<close>

definition policy_text :: string where
  "policy_text = (case json_dumps (PDict current_execution_policy) of Inr t \<Rightarrow> t | Inl _ \<Rightarrow> [])"

lemma policy_dumps: "json_dumps (PDict current_execution_policy) = Inr policy_text"
  by (simp add: policy_text_def current_execution_policy_def)

lemma current_policy_valid: "validate_execution_policy (PDict current_execution_policy) = Inr ()"
  by (simp add: validate_execution_policy_def dict_eq_def current_execution_policy_def)

text \<open>Initialisation marks exactly the stores that need it.  When it succeeds, the store
  passes the check of the next start; a store that already had entries was valid and is kept
  as it is, and an empty one holds the marker alone.\<close>

theorem initialization_guards_store:
  assumes parse: "loads policy_text = Inr (PDict current_execution_policy)"
    and "initialize_execution_policy loads store store = Inr store'"
  shows "validate_persisted_execution_policy loads store' = Inr True \<and>
    (if store = None \<or> store = Some [] then store' = Some [(EXECUTION_POLICY_KEY, policy_text)] else store' = store)"
proof -
  obtain valid where v: "validate_persisted_execution_policy loads store = Inr valid"
    using assms(2) by (auto simp: initialize_execution_policy_def elim: rbind_InrE)
  show ?thesis
  proof (cases valid)
    case True
    then have "store' = store" "store \<noteq> None" "store \<noteq> Some []"
      using assms(2) v
      by (auto simp: initialize_execution_policy_def validate_persisted_execution_policy_def split: option.splits)
    with v True show ?thesis by simp
  next
    case False
    then have empty: "store = None \<or> store = Some []"
      using v by (auto simp: validate_persisted_execution_policy_def rbind_Inr_iff split: option.splits if_splits)
    then have "store' = Some [(EXECUTION_POLICY_KEY, policy_text)]"
      using assms(2) v False by (auto simp: initialize_execution_policy_def Let_def policy_dumps simp del: json_dumps.simps)
    with empty parse show ?thesis
      by (simp add: validate_persisted_execution_policy_def decode_policy_def current_policy_valid)
  qed
qed

definition sample_loads :: "string \<Rightarrow> pyval res" where
  "sample_loads s = (if s = policy_text then Inr (PDict current_execution_policy) else Inl (ValueError ''json''))"

theorem initialization_guards_store_witness:
  "validate_persisted_execution_policy sample_loads (Some [(EXECUTION_POLICY_KEY, policy_text)]) = Inr True"
proof -
  have "initialize_execution_policy sample_loads None None = Inr (Some [(EXECUTION_POLICY_KEY, policy_text)])"
    by (simp add: initialize_execution_policy_def validate_persisted_execution_policy_def policy_dumps
      del: json_dumps.simps)
  with initialization_guards_store [of sample_loads None] show ?thesis
    by (simp add: sample_loads_def)
qed

end
