(* ===== verification/Execution.thy ===== *)
theory Execution
  imports Abci_Json Driver Tx_Validation Execution_Policy
begin

text \<open>
  The execution engine (\<^verbatim>\<open>src/src/xian/execution_engine.py\<close>) around the native virtual
  machine.  The machine, the IR parser and validator, runtime features and contract decimals are
  third-party and are the fields of \<open>vm_env\<close>: the machine may raise, and may leave the
  driver in any state.  Numbers are compared and combined with the operations of \<^typ>\<open>num_ops\<close>.
\<close>

record vm_output =
  vo_status :: int
  vo_result :: pyval
  vo_writes :: "(string, pyval) dict"
  vo_events :: "pyval list"
  vo_chi_used :: int
  vo_contract_costs :: "(string, pyval) dict"

record vm_request =
  rq_sender :: pyval
  rq_contract :: string
  rq_function :: string
  rq_kwargs :: pyval
  rq_environment :: "(string, pyval) dict"
  rq_meter :: bool
  rq_chi_budget :: int
  rq_size_bytes :: int

text \<open>What the native machine is called with.\<close>

record vm_call =
  vc_contract_name :: string
  vc_function_name :: string
  vc_kwargs :: pyval
  vc_context :: "(string, pyval) dict"
  vc_meter :: bool
  vc_chi_budget_raw :: int
  vc_transaction_size_bytes :: int

record 'd vm_env =
  vm_execute :: "'d \<Rightarrow> vm_call \<Rightarrow> vm_output res \<times> 'd"
  vm_get_owner :: "'d \<Rightarrow> string \<Rightarrow> pyval"
  vm_transaction_reads :: "'d \<Rightarrow> (string, pyval) dict"
  vm_transaction_read_prefixes :: "'d \<Rightarrow> string set"
  vm_validate_persistent_value :: "pyval \<Rightarrow> unit res"
  vm_json :: json_env
  vm_num :: num_ops
  vm_make_decimal :: "pyval \<Rightarrow> pyval res"
  vm_get_contract_ir :: "'d \<Rightarrow> string \<Rightarrow> pyval"
  vm_sha256 :: "string \<Rightarrow> string"
  vm_loads :: "string \<Rightarrow> pyval res"
  vm_validate_module_ir :: "pyval \<Rightarrow> unit res"
  vm_uses_zk :: "pyval \<Rightarrow> bool"
  vm_zk_enabled :: "'d \<Rightarrow> bool"
  vm_str :: "pyval \<Rightarrow> string"

section \<open>Fees of a transaction\<close>

definition vm_requires_contract_source :: "string \<Rightarrow> string \<Rightarrow> pyval \<Rightarrow> bool" where
  "vm_requires_contract_source contract_name function_name kwargs =
     (let code = dget_or kwargs ''code'' PNone in
      contract_name = ''submission'' \<and> function_name = ''submit_contract'' \<and> (\<not> is_str code \<or> code = PStr []))"

definition vm_contract_source_error :: "string \<Rightarrow> string \<Rightarrow> string" where
  "vm_contract_source_error contract_name function_name =
     ''xian_vm_v1 requires source code for '' @ contract_name @ ''.'' @ function_name"

definition metering_write_key :: "'d driver \<Rightarrow> pyval \<Rightarrow> string" where
  "metering_write_key D sender = d_make_key D ''currency'' ''balances'' [sender]"

text \<open>Contract decimals are \<^const>\<open>PDec\<close>; other text and floats are converted through their text.\<close>

definition coerce_balance_value :: "'d vm_env \<Rightarrow> pyval \<Rightarrow> pyval res" where
  "coerce_balance_value E balance =
     (case balance of
        PDec _ \<Rightarrow> Inr balance
      | PDict _ \<Rightarrow> vm_make_decimal E (dget_or balance ''__fixed__'' PNone)
      | PNone \<Rightarrow> Inr (PInt 0)
      | PStr s \<Rightarrow> vm_make_decimal E (PStr s)
      | PFloat s \<Rightarrow> vm_make_decimal E (PStr s)
      | _ \<Rightarrow> Inr balance)"

definition vm_metering_writes ::
    "'d vm_env \<Rightarrow> 'd driver \<Rightarrow> 'd \<Rightarrow> pyval \<Rightarrow> int \<Rightarrow> pyval \<Rightarrow> (string, pyval) dict option \<Rightarrow> (string, pyval) dict res" where
  "vm_metering_writes E D d sender chi_used chi_cost base_writes =
     (if chi_used \<le> 0 then Inr []
      else let key = metering_write_key D sender in
        rbind (coerce_balance_value E
                 (case Option.bind base_writes (\<lambda>bw. map_of bw key) of Some v \<Rightarrow> v | None \<Rightarrow> d_get D d key)) (\<lambda>balance.
        rbind (vm_make_decimal E (PInt chi_used)) (\<lambda>used.
        rbind (vm_make_decimal E chi_cost) (\<lambda>cost.
        rbind (n_div (vm_num E) used cost) (\<lambda>to_deduct.
        rbind (n_sub (vm_num E) balance to_deduct) (\<lambda>rest.
        rbind (n_lt (vm_num E) rest (PInt 0)) (\<lambda>negative.
        Inr [(key, if negative then PInt 0 else rest)])))))))"

section \<open>Running a contract\<close>

definition failed_output :: "pyval \<Rightarrow> vm_output" where
  "failed_output result =
     \<lparr>vo_status = 1, vo_result = result, vo_writes = [], vo_events = [], vo_chi_used = 0, vo_contract_costs = []\<rparr>"

definition exc_value :: "exc \<Rightarrow> pyval" where
  "exc_value e = PObject (exc_text e)"

definition unencodable_error :: pyval where
  "unencodable_error = PObject ''Contract writes or events cannot be encoded for consensus.''"

definition caught_by_validation :: "exc \<Rightarrow> bool" where
  "caught_by_validation e =
     (case e of AssertionError _ \<Rightarrow> True | TypeError _ \<Rightarrow> True | ValueError _ \<Rightarrow> True
      | OtherError s \<Rightarrow> s = ''RecursionError'' | _ \<Rightarrow> False)"

definition effects :: "vm_output \<Rightarrow> pyval" where
  "effects out = PTuple [PDict (map (\<lambda>(k, v). (PStr k, v)) (vo_writes out)), PList (vo_events out)]"

definition check_effects :: "'d vm_env \<Rightarrow> vm_output \<Rightarrow> unit res" where
  "check_effects E out =
     (if map_of (vo_writes out) EXECUTION_POLICY_KEY \<noteq> None
      then Inl (ValueError ''contract effects cannot change the protected execution policy'')
      else rbind (vm_validate_persistent_value E (effects out)) (\<lambda>_.
           rbind (encode_abci_json (vm_json E) (effects out)) (\<lambda>_. Inr ())))"

definition validated_vm_result :: "'d vm_env \<Rightarrow> vm_output \<Rightarrow> vm_output res" where
  "validated_vm_result E out =
     (if vo_status out \<noteq> 0 then Inr out
      else case check_effects E out of
             Inr _ \<Rightarrow> Inr out
           | Inl e \<Rightarrow> if caught_by_validation e
                      then Inr (out\<lparr>vo_status := 1, vo_result := unencodable_error, vo_writes := [], vo_events := []\<rparr>)
                      else Inl e)"

definition call_context :: "'d vm_env \<Rightarrow> 'd \<Rightarrow> vm_request \<Rightarrow> (string, pyval) dict" where
  "call_context E d rq =
     (let env = (\<lambda>k. case map_of (rq_environment rq) k of Some v \<Rightarrow> v | None \<Rightarrow> PNone) in
      [(''signer'', rq_sender rq), (''caller'', rq_sender rq), (''this'', PStr (rq_contract rq)),
       (''entry'', PTuple [PStr (rq_contract rq), PStr (rq_function rq)]),
       (''owner'', vm_get_owner E d (rq_contract rq)),
       (''submission_name'', if rq_contract rq = ''submission'' then dget_or (rq_kwargs rq) ''name'' PNone else PNone),
       (''now'', env ''now''), (''block_num'', env ''block_num''), (''block_hash'', env ''block_hash''),
       (''chain_id'', env ''chain_id''), (''__input_hash'', env ''__input_hash'')])"

definition vm_call_of :: "'d vm_env \<Rightarrow> 'd \<Rightarrow> vm_request \<Rightarrow> vm_call" where
  "vm_call_of E d rq =
     \<lparr>vc_contract_name = rq_contract rq, vc_function_name = rq_function rq, vc_kwargs = rq_kwargs rq,
      vc_context = call_context E d rq, vc_meter = rq_meter rq,
      vc_chi_budget_raw = max (rq_chi_budget rq) 0 * 1000,
      vc_transaction_size_bytes = max (rq_size_bytes rq) 0\<rparr>"

definition execute_vm_contract :: "'d vm_env \<Rightarrow> 'd \<Rightarrow> vm_request \<Rightarrow> vm_output res \<times> 'd" where
  "execute_vm_contract E d rq =
     (if vm_requires_contract_source (rq_contract rq) (rq_function rq) (rq_kwargs rq)
      then (Inr (failed_output (PObject (vm_contract_source_error (rq_contract rq) (rq_function rq)))), d)
      else case vm_execute E d (vm_call_of E d rq) of
             (Inl e, d') \<Rightarrow> (Inr (failed_output (exc_value e)), d')
           | (Inr out, d') \<Rightarrow> (validated_vm_result E out, d'))"

record vm_tx_result =
  vt_output :: vm_output
  vt_writes :: "(string, pyval) dict"
  vt_chi_used :: int
  vt_contract_costs :: "(string, pyval) dict"
  vt_reads :: "(string, pyval) dict"
  vt_prefix_reads :: "string set"

definition merge_metering ::
    "'d vm_env \<Rightarrow> 'd driver \<Rightarrow> 'd \<Rightarrow> vm_request \<Rightarrow> pyval \<Rightarrow> bool \<Rightarrow> bool \<Rightarrow> vm_output \<Rightarrow>
     (string, pyval) dict \<Rightarrow> string set \<Rightarrow> vm_tx_result res" where
  "merge_metering E D d rq chi_cost on_success_only apply_metering_writes out reads prefix_reads =
     rbind (if apply_metering_writes \<and> (vo_status out = 0 \<or> \<not> on_success_only) \<and> rq_meter rq \<and> 0 < vo_chi_used out
            then vm_metering_writes E D d (rq_sender rq) (vo_chi_used out) chi_cost (Some (vo_writes out))
            else Inr []) (\<lambda>metering.
     Inr \<lparr>vt_output = out, vt_writes = dict_update (vo_writes out) metering, vt_chi_used = vo_chi_used out,
          vt_contract_costs = vo_contract_costs out, vt_reads = reads, vt_prefix_reads = prefix_reads\<rparr>)"

definition execute_vm_transaction ::
    "'d vm_env \<Rightarrow> 'd driver \<Rightarrow> 'd \<Rightarrow> vm_request \<Rightarrow> pyval \<Rightarrow> bool \<Rightarrow> bool \<Rightarrow> vm_tx_result res \<times> 'd" where
  "execute_vm_transaction E D d rq chi_cost on_success_only apply_metering_writes =
     (let base = d_snapshot_state D d in
      case execute_vm_contract E d rq of
        (Inl e, d') \<Rightarrow> (Inl e, d')
      | (Inr out, d') \<Rightarrow>
          let d2 = d_restore_state D base d'
          in (merge_metering E D d2 rq chi_cost on_success_only apply_metering_writes out
                (vm_transaction_reads E d') (vm_transaction_read_prefixes E d'), d2))"

section \<open>The native runtime\<close>

record vm_bindings =
  vb_runtime_info :: pyval
  vb_supports_execution_policy :: "string \<Rightarrow> string \<Rightarrow> bool"

text \<open>None is a node without the native package.\<close>

definition build_vm_runtime :: "vm_bindings option \<Rightarrow> pyval res" where
  "build_vm_runtime bindings =
     (case bindings of
        None \<Rightarrow> Inl (ValueError ''requires the native xian-tech-vm-core package'')
      | Some b \<Rightarrow>
          let info = vb_runtime_info b in
          if dget info ''execution_revision'' \<noteq> Some (PStr VM_EXECUTION_REVISION) \<or>
             dget info ''set_codec'' \<noteq> Some (PStr SET_CODEC)
          then Inl (ValueError ''native runtime execution policy does not match the node'')
          else if dget info ''vm_profile'' \<noteq> Some (PStr VM_EXECUTION_MODE)
          then Inl (ValueError ''xian_vm_v1 native runtime reported an unexpected vm_profile'')
          else if \<not> vb_supports_execution_policy b VM_BYTECODE_VERSION VM_GAS_SCHEDULE
          then Inl (ValueError ''xian_vm_v1 native runtime does not support execution policy'')
          else Inr info)"

section \<open>Preparation of contracts\<close>

text \<open>
  Prepared contracts are cached for the life of the process by name and code hash.  The
  recursion follows imports and its depth is bounded by \<open>fuel\<close>; None is running out of it.
\<close>

record prepared =
  pr_contract_name :: string
  pr_artifact_hash :: string
  pr_imports :: "string list"

type_synonym prepared_cache = "(string \<times> string, prepared) dict"

definition load_vm_module_ir_json :: "'d vm_env \<Rightarrow> 'd \<Rightarrow> string \<Rightarrow> (string \<times> string) res" where
  "load_vm_module_ir_json E d contract_name =
     (case vm_get_contract_ir E d contract_name of
        PStr ir \<Rightarrow> if ir \<noteq> [] then Inr (hexlify (vm_sha256 E ir), ir)
                  else Inl (ValueError ''xian_vm_v1 requires persisted __xian_ir_v1__'')
      | _ \<Rightarrow> Inl (ValueError ''xian_vm_v1 requires persisted __xian_ir_v1__''))"

definition reject_disabled_runtime_features :: "'d vm_env \<Rightarrow> 'd \<Rightarrow> pyval \<Rightarrow> unit res" where
  "reject_disabled_runtime_features E d module_ir =
     (if vm_uses_zk E module_ir \<and> \<not> vm_zk_enabled E d
      then Inl (ValueError ''the chain zk runtime feature is disabled'') else Inr ())"

definition import_modules :: "'d vm_env \<Rightarrow> pyval \<Rightarrow> string list res" where
  "import_modules E module_ir =
     (case dget_or module_ir ''imports'' (PList []) of
        PList specs \<Rightarrow>
          Inr (sorted_list_of_set (set
            (map (\<lambda>spec. case dget_or spec ''module'' PNone of PStr s \<Rightarrow> s | v \<Rightarrow> vm_str E v)
              (filter (\<lambda>spec. truthy (dget_or spec ''module'' PNone)) specs))))
      | _ \<Rightarrow> Inl (TypeError ''not iterable''))"

text \<open>The loop over imports; \<open>prepare\<close> is the recursive call.\<close>

fun prepare_imports ::
    "(string \<Rightarrow> prepared_cache \<Rightarrow> (unit res \<times> prepared_cache) option) \<Rightarrow> string list \<Rightarrow> prepared_cache \<Rightarrow>
     (unit res \<times> prepared_cache) option" where
  "prepare_imports prepare [] cache = Some (Inr (), cache)"
| "prepare_imports prepare (imp # imps) cache =
     (case prepare imp cache of
        None \<Rightarrow> None
      | Some (Inl e, cache') \<Rightarrow> Some (Inl e, cache')
      | Some (Inr _, cache') \<Rightarrow> prepare_imports prepare imps cache')"

definition load_module :: "'d vm_env \<Rightarrow> 'd \<Rightarrow> string \<Rightarrow> (string \<times> pyval) res" where
  "load_module E d name =
     rbind (load_vm_module_ir_json E d name) (\<lambda>(h, ir).
     rbind (vm_loads E ir) (\<lambda>module_ir.
     rbind (reject_disabled_runtime_features E d module_ir) (\<lambda>_. Inr (h, module_ir))))"

primrec prepare_bundle ::
    "nat \<Rightarrow> 'd vm_env \<Rightarrow> 'd \<Rightarrow> string list \<Rightarrow> string \<Rightarrow> prepared_cache \<Rightarrow> (unit res \<times> prepared_cache) option" where
  "prepare_bundle 0 E d stack name cache = None"
| "prepare_bundle (Suc fuel) E d stack name cache =
     (if name \<in> set stack then Some (Inl (ValueError ''xian_vm_v1 import graph contains a cycle''), cache)
      else case load_module E d name of
        Inl e \<Rightarrow> Some (Inl e, cache)
      | Inr (h, module_ir) \<Rightarrow>
          if map_of cache (name, h) \<noteq> None then Some (Inr (), cache)
          else case rbind (vm_validate_module_ir E module_ir) (\<lambda>_. import_modules E module_ir) of
            Inl e \<Rightarrow> Some (Inl e, cache)
          | Inr imports \<Rightarrow>
              prepare_imports (prepare_bundle fuel E d (stack @ [name])) imports
                (AList.update (name, h) \<lparr>pr_contract_name = name, pr_artifact_hash = h, pr_imports = imports\<rparr> cache))"

definition prepare_vm_contract ::
    "nat \<Rightarrow> 'd vm_env \<Rightarrow> 'd \<Rightarrow> string \<Rightarrow> prepared_cache \<Rightarrow> (unit res \<times> prepared_cache) option" where
  "prepare_vm_contract fuel E d name cache = prepare_bundle fuel E d [] name cache"

definition clear_prepared_contract_cache :: "prepared_cache \<Rightarrow> prepared_cache" where
  "clear_prepared_contract_cache cache = []"

section \<open>Preparation terminates\<close>

lemma prepare_imports_returns:
  "(\<And>imp cache. imp \<in> set imps \<Longrightarrow> prepare imp cache \<noteq> None) \<Longrightarrow> prepare_imports prepare imps cache \<noteq> None"
proof (induction imps arbitrary: cache)
  case (Cons imp imps)
  have "prepare imp cache \<noteq> None" by (rule Cons.prems) simp
  moreover have "prepare_imports prepare imps cache' \<noteq> None" for cache'
    by (rule Cons.IH) (simp add: Cons.prems)
  ultimately show ?case by (auto split: sum.split)
qed simp

lemma prepare_bundle_returns:
  assumes "finite S" "{n. is_ok (load_module E d n)} \<subseteq> S"
  shows "distinct stack \<Longrightarrow> set stack \<subseteq> S \<Longrightarrow> card S < fuel + length stack \<Longrightarrow>
    prepare_bundle fuel E d stack name cache \<noteq> None"
proof (induction fuel arbitrary: stack name cache)
  case 0
  then show ?case
    using assms(1) by (metis add_0 card_mono distinct_card not_le)
next
  case (Suc fuel)
  have "prepare_bundle fuel E d (stack @ [name]) imp cache' \<noteq> None"
    if "name \<notin> set stack" "is_ok (load_module E d name)" for imp cache'
    using Suc.prems assms(2) that by (intro Suc.IH) auto
  then have "prepare_imports (prepare_bundle fuel E d (stack @ [name])) imps cache' \<noteq> None"
    if "name \<notin> set stack" "is_ok (load_module E d name)" for imps cache'
    using that by (intro prepare_imports_returns)
  then show ?case
    by (cases "load_module E d name") (auto split: sum.split)
qed

text \<open>C19: Preparation of a contract always returns, on every import graph and every cache, cycles
  included: with more fuel than there are loadable contracts the bound is never reached.\<close>

theorem preparation_returns:
  assumes "finite S" "{n. is_ok (load_module E d n)} \<subseteq> S" "card S < fuel"
  shows "\<exists>r cache'. prepare_vm_contract fuel E d name cache = Some (r, cache')"
  using prepare_bundle_returns [OF assms(1,2), of "[]" fuel name cache] assms(3)
  by (auto simp: prepare_vm_contract_def)

section \<open>Execution stays off the driver\<close>

lemma execute_vm_contract_disk:
  assumes "\<And>d c. d_value_from_disk D (snd (vm_execute E d c)) = d_value_from_disk D d"
  shows "d_value_from_disk D (snd (execute_vm_contract E d rq)) = d_value_from_disk D d"
  using assms [of d "vm_call_of E d rq"]
  by (auto simp: execute_vm_contract_def split: prod.split sum.split)

lemma execute_vm_transaction_Inr:
  assumes "execute_vm_transaction E D d rq chi_cost a b = (Inr r, d')"
  obtains out d1 where "execute_vm_contract E d rq = (Inr out, d1)"
    "d' = d_restore_state D (d_snapshot_state D d) d1"
    "merge_metering E D d' rq chi_cost a b out (vm_transaction_reads E d1) (vm_transaction_read_prefixes E d1) = Inr r"
  using assms by (auto simp: execute_vm_transaction_def Let_def split: prod.splits sum.splits)

lemma vm_metering_keys:
  "vm_metering_writes E D d sender chi_used chi_cost base = Inr ws \<Longrightarrow> fst ` set ws \<subseteq> {metering_write_key D sender}"
  by (auto simp: vm_metering_writes_def Let_def split: if_splits elim!: rbind_InrE)

lemma map_of_dict_update_None:
  "map_of d k = None \<Longrightarrow> k \<notin> fst ` set e \<Longrightarrow> map_of (dict_update d e) k = None"
proof (induction e arbitrary: d)
  case (Cons kv e)
  then show ?case by (cases kv) (simp add: map_of_AList_update)
qed simp

lemma merge_metering_writes:
  assumes "merge_metering E D d rq chi_cost a b out reads pres = Inr r"
  shows "vt_output r = out \<and> vt_chi_used r = vo_chi_used out \<and>
    (\<exists>m. vt_writes r = dict_update (vo_writes out) m \<and> fst ` set m \<subseteq> {metering_write_key D (rq_sender rq)} \<and>
         (vo_status out \<noteq> 0 \<and> a \<longrightarrow> m = []))"
proof -
  obtain m where m: "(if b \<and> (vo_status out = 0 \<or> \<not> a) \<and> rq_meter rq \<and> 0 < vo_chi_used out
      then vm_metering_writes E D d (rq_sender rq) (vo_chi_used out) chi_cost (Some (vo_writes out)) else Inr []) = Inr m"
    and r: "vt_output r = out \<and> vt_chi_used r = vo_chi_used out \<and> vt_writes r = dict_update (vo_writes out) m"
    using assms by (auto simp: merge_metering_def elim!: rbind_InrE)
  have "fst ` set m \<subseteq> {metering_write_key D (rq_sender rq)}" "vo_status out \<noteq> 0 \<and> a \<longrightarrow> m = []"
    using m by (auto split: if_splits dest: vm_metering_keys)
  with r show ?thesis by blast
qed

lemma validated_protects_policy:
  "validated_vm_result E out = Inr out' \<Longrightarrow> vo_status out' = 0 \<Longrightarrow> map_of (vo_writes out') EXECUTION_POLICY_KEY = None"
  by (auto simp: validated_vm_result_def check_effects_def split: if_splits sum.splits)

lemma execute_vm_contract_protects_policy:
  "execute_vm_contract E d rq = (Inr out, d1) \<Longrightarrow> vo_status out = 0 \<Longrightarrow>
   map_of (vo_writes out) EXECUTION_POLICY_KEY = None"
  by (auto simp: execute_vm_contract_def failed_output_def validated_protects_policy split: if_splits prod.splits sum.splits)

text \<open>C7: Executing a transaction, with success or not, leaves the driver as it was: the machine's
  own writes are rolled back and are only reported.  The reported writes are those of the machine
  and at most one more, the fee payer's balance; and when the status is 0 and the key of that
  balance is not the key of the execution policy, no write to the execution policy is reported.\<close>

theorem execution_confined:
  assumes "driver_laws D"
    and "\<And>d c. d_value_from_disk D (snd (vm_execute E d c)) = d_value_from_disk D d"
    and run: "execute_vm_transaction E D d rq chi_cost a b = (Inr r, d')"
  shows "d_pending_writes D d' = d_pending_writes D d \<and> d_get D d' = d_get D d \<and>
    (\<exists>m. vt_writes r = dict_update (vo_writes (vt_output r)) m \<and>
         fst ` set m \<subseteq> {metering_write_key D (rq_sender rq)}) \<and>
    (vo_status (vt_output r) = 0 \<and> metering_write_key D (rq_sender rq) \<noteq> EXECUTION_POLICY_KEY \<longrightarrow>
       map_of (vt_writes r) EXECUTION_POLICY_KEY = None)"
proof -
  obtain out d1 where out: "execute_vm_contract E d rq = (Inr out, d1)"
    "d' = d_restore_state D (d_snapshot_state D d) d1"
    "merge_metering E D d' rq chi_cost a b out (vm_transaction_reads E d1) (vm_transaction_read_prefixes E d1) = Inr r"
    using run by (rule execute_vm_transaction_Inr)
  have disk: "d_value_from_disk D d1 = d_value_from_disk D d"
    using execute_vm_contract_disk [of D E d rq, OF assms(2)] out(1) by simp
  have pending: "d_pending_writes D d' = d_pending_writes D d" "d_value_from_disk D d' = d_value_from_disk D d"
    using assms(1) disk by (simp_all add: out(2) driver_simps)
  then have get: "d_get D d' = d_get D d" by (rule get_cong [OF assms(1)])
  note w = merge_metering_writes [OF out(3)]
  have policy: "map_of (vt_writes r) EXECUTION_POLICY_KEY = None"
    if "vo_status (vt_output r) = 0" "metering_write_key D (rq_sender rq) \<noteq> EXECUTION_POLICY_KEY"
  proof -
    obtain m where m: "vt_writes r = dict_update (vo_writes out) m" "fst ` set m \<subseteq> {metering_write_key D (rq_sender rq)}"
      using w by blast
    have "map_of (vo_writes out) EXECUTION_POLICY_KEY = None"
      using that(1) w execute_vm_contract_protects_policy [OF out(1)] by simp
    then show ?thesis
      unfolding m(1) using m(2) that(2) by (intro map_of_dict_update_None) (simp, metis singletonD subsetD)
  qed
  have "\<exists>m. vt_writes r = dict_update (vo_writes (vt_output r)) m \<and>
      fst ` set m \<subseteq> {metering_write_key D (rq_sender rq)}"
    using w by blast
  moreover have "vo_status (vt_output r) = 0 \<and> metering_write_key D (rq_sender rq) \<noteq> EXECUTION_POLICY_KEY \<longrightarrow>
      map_of (vt_writes r) EXECUTION_POLICY_KEY = None"
    by (intro impI policy) (elim conjE, assumption)+
  ultimately show ?thesis
    using pending(1) get by (intro conjI)
qed

section \<open>A small machine\<close>

definition int_op :: "(int \<Rightarrow> int \<Rightarrow> 'a) \<Rightarrow> pyval \<Rightarrow> pyval \<Rightarrow> 'a res" where
  "int_op f a b =
     (case (int_value a, int_value b) of (Some x, Some y) \<Rightarrow> Inr (f x y) | _ \<Rightarrow> Inl (TypeError ''operand''))"

definition int_num_ops :: num_ops where
  "int_num_ops =
     \<lparr>n_add = int_op (\<lambda>x y. PInt (x + y)), n_sub = int_op (\<lambda>x y. PInt (x - y)), n_mul = int_op (\<lambda>x y. PInt (x * y)),
      n_div = int_op (\<lambda>x y. PInt (x div y)), n_lt = int_op (<)\<rparr>"

definition sample_json :: json_env where
  "sample_json =
     \<lparr>je_is_wrapper_set = (\<lambda>_. False), je_encode_set_value = id, je_exception_text = (\<lambda>_. None), je_bytes_repr = id\<rparr>"

text \<open>
  The machine writes one variable, charges ten chi and leaves a stray write behind; the contract
  \<^verbatim>\<open>loop\<close> imports itself.
\<close>

definition sample_vm :: "mem_db vm_env" where
  "sample_vm =
     \<lparr>vm_execute = (\<lambda>d c. (Inr \<lparr>vo_status = (if vc_function_name c = ''fail'' then 1 else 0), vo_result = PNone,
          vo_writes = [(''con.x'', PInt 1)], vo_events = [], vo_chi_used = 10, vo_contract_costs = []\<rparr>,
          d_set mem_driver ''stray'' (PInt 9) d)),
      vm_get_owner = (\<lambda>_ _. PNone), vm_transaction_reads = (\<lambda>_. []), vm_transaction_read_prefixes = (\<lambda>_. {}),
      vm_validate_persistent_value = (\<lambda>_. Inr ()), vm_json = sample_json, vm_num = int_num_ops,
      vm_make_decimal = Inr, vm_get_contract_ir = (\<lambda>d n. if n = ''con'' \<or> n = ''loop'' then PStr n else PNone),
      vm_sha256 = id, vm_loads = (\<lambda>s. Inr (if s = ''loop''
          then PDict [(PStr ''imports'', PList [PDict [(PStr ''module'', PStr ''loop'')]])] else PDict [])),
      vm_validate_module_ir = (\<lambda>_. Inr ()), vm_uses_zk = (\<lambda>_. False), vm_zk_enabled = (\<lambda>_. True), vm_str = (\<lambda>_. [])\<rparr>"

definition sample_request :: vm_request where
  "sample_request =
     \<lparr>rq_sender = PStr ''ab'', rq_contract = ''con'', rq_function = ''f'', rq_kwargs = PDict [], rq_environment = [],
      rq_meter = True, rq_chi_budget = 100, rq_size_bytes = 7\<rparr>"

definition sample_funds :: mem_db where
  "sample_funds = \<lparr>db_disk = [(''currency.balances:ab'', PInt 50)], db_pending = []\<rparr>"

theorem preparation_returns_witness:
  "\<exists>r cache'. prepare_vm_contract 3 sample_vm sample_funds ''loop'' [] = Some (r, cache')"
proof (rule preparation_returns [of "{''con'', ''loop''}"])
  show "{n. is_ok (load_module sample_vm sample_funds n)} \<subseteq> {''con'', ''loop''}"
    by (auto simp: load_module_def load_vm_module_ir_json_def sample_vm_def split: if_splits)
qed simp_all

theorem execution_confined_witness:
  "d_get mem_driver (snd (execute_vm_transaction sample_vm mem_driver sample_funds sample_request (PInt 2) True True)) =
     d_get mem_driver sample_funds \<and>
   map_option vt_writes (case fst (execute_vm_transaction sample_vm mem_driver sample_funds sample_request (PInt 2) True True)
     of Inr r \<Rightarrow> Some r | Inl e \<Rightarrow> None) = Some [(''con.x'', PInt 1), (''currency.balances:ab'', PInt 45)]"
proof -
  obtain r d' where run:
    "execute_vm_transaction sample_vm mem_driver sample_funds sample_request (PInt 2) True True = (Inr r, d')"
    "vt_writes r = [(''con.x'', PInt 1), (''currency.balances:ab'', PInt 45)]"
  proof -
    have "case execute_vm_transaction sample_vm mem_driver sample_funds sample_request (PInt 2) True True of
      (Inr r, d') \<Rightarrow> vt_writes r = [(''con.x'', PInt 1), (''currency.balances:ab'', PInt 45)] | _ \<Rightarrow> False"
      by code_simp
    then show thesis using that by (auto split: prod.splits sum.splits)
  qed
  have "d_value_from_disk mem_driver (snd (vm_execute sample_vm d c)) = d_value_from_disk mem_driver d" for d c
    by (simp add: sample_vm_def mem_driver_def)
  from execution_confined [OF mem_driver_laws this run(1)] run show ?thesis by simp
qed

text \<open>Preparation depends on what the process prepared before.  A contract that imports
  itself is refused on an empty cache, but the refusal leaves it in the cache, and the same
  preparation on the same state then succeeds; after a restart it is refused again.\<close>

theorem preparation_depends_on_cache:
  "\<exists>e cache. prepare_vm_contract 3 sample_vm sample_funds ''loop'' [] = Some (Inl e, cache) \<and>
     prepare_vm_contract 3 sample_vm sample_funds ''loop'' cache = Some (Inr (), cache) \<and>
     prepare_vm_contract 3 sample_vm sample_funds ''loop'' (clear_prepared_contract_cache cache) = Some (Inl e, cache)"
proof -
  have mods: "import_modules sample_vm (PDict [(PStr ''imports'', PList [PDict [(PStr ''module'', PStr ''loop'')]])]) = Inr [''loop'']"
    by (simp add: import_modules_def sample_vm_def dget_or_def)
  have load: "load_module sample_vm sample_funds ''loop'' =
      Inr (hexlify ''loop'', PDict [(PStr ''imports'', PList [PDict [(PStr ''module'', PStr ''loop'')]])])"
    by (simp add: load_module_def load_vm_module_ir_json_def reject_disabled_runtime_features_def sample_vm_def)
  have valid: "vm_validate_module_ir sample_vm v = Inr ()" for v by (simp add: sample_vm_def)
  let ?cache = "[((''loop'', hexlify ''loop''),
    \<lparr>pr_contract_name = ''loop'', pr_artifact_hash = hexlify ''loop'', pr_imports = [''loop'']\<rparr>)]"
  have "prepare_vm_contract 3 sample_vm sample_funds ''loop'' [] =
      Some (Inl (ValueError ''xian_vm_v1 import graph contains a cycle''), ?cache)"
    "prepare_vm_contract 3 sample_vm sample_funds ''loop'' ?cache = Some (Inr (), ?cache)"
    by (simp_all add: prepare_vm_contract_def numeral_3_eq_3 load mods valid)
  then show ?thesis
    by (metis clear_prepared_contract_cache_def)
qed

end
