(* ===== verification/Nonce_Storage.thy ===== *)
theory Nonce_Storage
  imports Tx_Validation Driver
begin

text \<open>
  Nonces (\<^verbatim>\<open>src/src/xian/nonce.py\<close>): the committed nonce of a sender lives in the driver, the
  reservations of transactions admitted to the local mempool live in memory and expire.
  Every method holds the lock, so it is one step; the readings of the monotonic clock it
  makes are its \<open>now\<close> arguments, in ticks.  A method that may raise returns the storage
  beside its result, since reservations are pruned before anything is checked.
\<close>

section \<open>Storage\<close>

record reservation =
  res_tx_hash :: string
  reserved_at :: int

record nonce_storage =
  pending_nonces :: "(string, (int, reservation) dict) dict"
  reservation_ttl :: int
  max_pending_nonces_per_sender :: nat

definition new_nonce_storage :: "int \<Rightarrow> int \<Rightarrow> nonce_storage" where
  "new_nonce_storage ttl limit =
     \<lparr>pending_nonces = [], reservation_ttl = ttl, max_pending_nonces_per_sender = nat (max limit 1)\<rparr>"

definition sender_pending :: "nonce_storage \<Rightarrow> string \<Rightarrow> (int, reservation) dict" where
  "sender_pending st sender = (case map_of (pending_nonces st) sender of None \<Rightarrow> [] | Some p \<Rightarrow> p)"

definition pop_sender :: "string \<Rightarrow> nonce_storage \<Rightarrow> nonce_storage" where
  "pop_sender sender st = st\<lparr>pending_nonces := AList.delete sender (pending_nonces st)\<rparr>"

definition put_sender :: "string \<Rightarrow> (int, reservation) dict \<Rightarrow> nonce_storage \<Rightarrow> nonce_storage" where
  "put_sender sender p st = st\<lparr>pending_nonces := AList.update sender p (pending_nonces st)\<rparr>"

definition prune_pending_for_sender :: "int \<Rightarrow> string \<Rightarrow> nonce_storage \<Rightarrow> nonce_storage" where
  "prune_pending_for_sender now sender st =
     (let pending = sender_pending st sender in
      if pending = [] then pop_sender sender st
      else if reservation_ttl st \<le> 0 then st
      else let expires_before = now - reservation_ttl st;
               kept = filter (\<lambda>(_, r). \<not> reserved_at r < expires_before) pending
           in if kept = [] then pop_sender sender st else put_sender sender kept st)"

definition prune_pending :: "(string \<Rightarrow> int) \<Rightarrow> nonce_storage \<Rightarrow> nonce_storage" where
  "prune_pending now st =
     fold (\<lambda>sender. prune_pending_for_sender (now sender) sender) (map fst (pending_nonces st)) st"

section \<open>Committed nonces\<close>

definition NONCE_FILENAME :: string where
  "NONCE_FILENAME = ''__n''"

definition nonce_key :: "string \<Rightarrow> string" where
  "nonce_key sender = NONCE_FILENAME @ INDEX_SEPARATOR @ sender @ DELIMITER"

definition get_nonce :: "'d driver \<Rightarrow> 'd \<Rightarrow> string \<Rightarrow> int option" where
  "get_nonce D d sender = int_value (d_get D d (nonce_key sender))"

definition set_nonce :: "'d driver \<Rightarrow> string \<Rightarrow> pyval \<Rightarrow> 'd \<Rightarrow> 'd" where
  "set_nonce D sender value d = d_set D (nonce_key sender) value d"

definition set_nonce_by_tx :: "'d driver \<Rightarrow> pyval \<Rightarrow> 'd \<Rightarrow> 'd res" where
  "set_nonce_by_tx D tx d =
     rbind (payload_field tx ''sender'') (\<lambda>sender.
     rbind (payload_field tx ''nonce'') (\<lambda>nonce.
     if is_str sender then Inr (set_nonce D (str_of sender) nonce d)
     else Inl (TypeError ''can only concatenate str'')))"

definition safe_set_nonce :: "'d driver \<Rightarrow> string \<Rightarrow> int \<Rightarrow> 'd \<Rightarrow> 'd" where
  "safe_set_nonce D sender value d =
     (let current_nonce = (case get_nonce D d sender of None \<Rightarrow> - 1 | Some n \<Rightarrow> n)
      in if value > current_nonce then set_nonce D sender (PInt value) d else d)"

section \<open>Reservations\<close>

text \<open>The loop that walks up the reserved nonces as long as they are consecutive.\<close>

function latest_reserved :: "(int, 'a) dict \<Rightarrow> int \<Rightarrow> int" where
  "latest_reserved pending latest =
     (if map_of pending (latest + 1) \<noteq> None then latest_reserved pending (latest + 1) else latest)"
  by pat_completeness auto

termination latest_reserved
proof (relation "measure (\<lambda>(pending, latest). card {n \<in> fst ` set pending. latest < n})")
  fix pending :: "(int, 'a) dict" and latest :: int
  assume "map_of pending (latest + 1) \<noteq> None"
  then have "latest + 1 \<in> {n \<in> fst ` set pending. latest < n}" by (simp add: map_of_None_fst)
  moreover have "latest + 1 \<notin> {n \<in> fst ` set pending. latest + 1 < n}" by simp
  moreover have "{n \<in> fst ` set pending. latest + 1 < n} \<subseteq> {n \<in> fst ` set pending. latest < n}"
    by (rule Collect_mono) simp
  ultimately have "card {n \<in> fst ` set pending. latest + 1 < n} < card {n \<in> fst ` set pending. latest < n}"
    by (intro psubset_card_mono) (simp, blast)
  then show "((pending, latest + 1), (pending, latest))
      \<in> measure (\<lambda>(pending, latest). card {n \<in> fst ` set pending. latest < n})"
    by simp
qed simp

declare latest_reserved.simps [simp del]

definition committed_or_start :: "'d driver \<Rightarrow> 'd \<Rightarrow> string \<Rightarrow> int" where
  "committed_or_start D d sender = (case get_nonce D d sender of None \<Rightarrow> - 1 | Some n \<Rightarrow> n)"

definition get_pending_nonce ::
    "'d driver \<Rightarrow> 'd \<Rightarrow> int \<Rightarrow> string \<Rightarrow> nonce_storage \<Rightarrow> int option \<times> nonce_storage" where
  "get_pending_nonce D d now sender st =
     (let st = prune_pending_for_sender now sender st;
          pending = sender_pending st sender in
      if pending = [] then (None, st)
      else let current_nonce = committed_or_start D d sender;
               latest_nonce = latest_reserved pending current_nonce
           in (if latest_nonce = current_nonce then None else Some latest_nonce, st))"

definition get_next_nonce ::
    "'d driver \<Rightarrow> 'd \<Rightarrow> int \<Rightarrow> string \<Rightarrow> nonce_storage \<Rightarrow> int \<times> nonce_storage" where
  "get_next_nonce D d now sender st =
     (let (pending_nonce, st) = get_pending_nonce D d now sender st;
          current_nonce = (case pending_nonce of None \<Rightarrow> get_nonce D d sender | Some n \<Rightarrow> Some n)
      in (case current_nonce of None \<Rightarrow> 0 | Some n \<Rightarrow> n + 1, st))"

definition get_latest_nonce ::
    "'d driver \<Rightarrow> 'd \<Rightarrow> int \<Rightarrow> string \<Rightarrow> nonce_storage \<Rightarrow> int \<times> nonce_storage" where
  "get_latest_nonce D d now sender st =
     (let (pending_nonce, st) = get_pending_nonce D d now sender st;
          latest_nonce = (case pending_nonce of None \<Rightarrow> get_nonce D d sender | Some n \<Rightarrow> Some n)
      in (case latest_nonce of None \<Rightarrow> 0 | Some n \<Rightarrow> n, st))"

definition reserve :: "string \<Rightarrow> int \<Rightarrow> string \<Rightarrow> int \<Rightarrow> nonce_storage \<Rightarrow> nonce_storage" where
  "reserve sender nonce tx_hash now st =
     put_sender sender (AList.update nonce \<lparr>res_tx_hash = tx_hash, reserved_at = now\<rparr> (sender_pending st sender)) st"

text \<open>
  \<^verbatim>\<open>check_nonce\<close> reads the clock when it prunes, when it computes the expected nonce (which
  prunes again) and when it stamps the reservation.
\<close>

definition check_nonce_of ::
    "'d driver \<Rightarrow> 'd \<Rightarrow> int \<times> int \<times> int \<Rightarrow> string \<Rightarrow> pyval \<Rightarrow> string \<Rightarrow> nonce_storage
      \<Rightarrow> unit res \<times> nonce_storage" where
  "check_nonce_of D d clock tx_sender tx_nonce tx_hash st =
     (let (now1, now2, now3) = clock;
          st = prune_pending_for_sender now1 tx_sender st;
          existing = Option.bind (int_value tx_nonce) (map_of (sender_pending st tx_sender)) in
      if existing \<noteq> None \<and> res_tx_hash (the existing) = tx_hash
      then (Inr (), reserve tx_sender (the (int_value tx_nonce)) tx_hash now3 st)
      else let (expected_nonce, st) = get_next_nonce D d now2 tx_sender st in
           if int_value tx_nonce \<noteq> Some expected_nonce
           then (Inl (nonce_mismatch expected_nonce tx_nonce), st)
           else if max_pending_nonces_per_sender st \<le> length (sender_pending st tx_sender)
           then (Inl (TransactionException ''Too many pending transactions reserved for sender''), st)
           else (Inr (), reserve tx_sender expected_nonce tx_hash now3 st))"

definition check_nonce ::
    "'d driver \<Rightarrow> 'd \<Rightarrow> int \<times> int \<times> int \<Rightarrow> pyval \<Rightarrow> string \<Rightarrow> nonce_storage \<Rightarrow> unit res \<times> nonce_storage" where
  "check_nonce D d clock tx tx_hash st =
     (case rbind (payload_field tx ''nonce'') (\<lambda>nonce.
           rbind (payload_field tx ''sender'') (\<lambda>sender.
           if is_str sender then Inr (nonce, sender) else Inl (TypeError ''unhashable''))) of
        Inl e \<Rightarrow> (Inl e, st)
      | Inr (nonce, sender) \<Rightarrow> check_nonce_of D d clock (str_of sender) nonce tx_hash st)"

definition set_pending_nonce ::
    "'d driver \<Rightarrow> 'd \<Rightarrow> int \<Rightarrow> string \<Rightarrow> int \<Rightarrow> nonce_storage \<Rightarrow> nonce_storage" where
  "set_pending_nonce D d now sender value st =
     (let current_nonce = committed_or_start D d sender;
          pending = map (\<lambda>nonce. (nonce, \<lparr>res_tx_hash = ''manual:'' @ sender @ '':'' @ str_int nonce,
                                          reserved_at = now\<rparr>)) [current_nonce + 1 .. value]
      in if pending \<noteq> [] then put_sender sender pending st else pop_sender sender st)"

definition reconcile_sender :: "'d driver \<Rightarrow> 'd \<Rightarrow> string \<Rightarrow> nonce_storage \<Rightarrow> nonce_storage" where
  "reconcile_sender D d sender st =
     (case get_nonce D d sender of
        None \<Rightarrow> st
      | Some committed_nonce \<Rightarrow>
          let kept = filter (\<lambda>(nonce, _). \<not> nonce \<le> committed_nonce) (sender_pending st sender)
          in if kept = [] then pop_sender sender st else put_sender sender kept st)"

definition reconcile_pending :: "'d driver \<Rightarrow> 'd \<Rightarrow> (string \<Rightarrow> int) \<Rightarrow> nonce_storage \<Rightarrow> nonce_storage" where
  "reconcile_pending D d now st =
     (let st = prune_pending now st
      in fold (reconcile_sender D d) (map fst (pending_nonces st)) st)"

definition flush_pending :: "nonce_storage \<Rightarrow> nonce_storage" where
  "flush_pending st = st\<lparr>pending_nonces := []\<rparr>"

definition flush_nonces :: "'d driver \<Rightarrow> 'd \<Rightarrow> nonce_storage \<Rightarrow> 'd \<times> nonce_storage" where
  "flush_nonces D d st = (d_flush_file D NONCE_FILENAME d, flush_pending st)"

section \<open>Lemmas\<close>

definition live :: "int \<Rightarrow> int \<Rightarrow> (int, reservation) dict \<Rightarrow> (int, reservation) dict" where
  "live ttl now p = (if ttl \<le> 0 then p else filter (\<lambda>(_, r). \<not> reserved_at r < now - ttl) p)"

named_theorems nonce_simps "what the operations do to the reservations of one sender"

lemma live_Nil [simp]: "live ttl now [] = []"
  by (simp add: live_def)

lemma live_live: "now \<le> now' \<Longrightarrow> live ttl now' (live ttl now p) = live ttl now' p"
  by (auto simp: live_def filter_filter intro!: filter_cong)

lemma sender_pending_pop [nonce_simps]:
  "sender_pending (pop_sender s st) s' = (if s' = s then [] else sender_pending st s')"
  by (simp add: sender_pending_def pop_sender_def dict_simps)

lemma sender_pending_put [nonce_simps]:
  "sender_pending (put_sender s p st) s' = (if s' = s then p else sender_pending st s')"
  by (simp add: sender_pending_def put_sender_def dict_simps)

lemma params_pop_put [nonce_simps]:
  "reservation_ttl (pop_sender s st) = reservation_ttl st"
  "reservation_ttl (put_sender s p st) = reservation_ttl st"
  "max_pending_nonces_per_sender (pop_sender s st) = max_pending_nonces_per_sender st"
  "max_pending_nonces_per_sender (put_sender s p st) = max_pending_nonces_per_sender st"
  by (simp_all add: pop_sender_def put_sender_def)

lemma params_prune [nonce_simps]:
  "reservation_ttl (prune_pending_for_sender now s st) = reservation_ttl st"
  "max_pending_nonces_per_sender (prune_pending_for_sender now s st) = max_pending_nonces_per_sender st"
  by (simp_all add: prune_pending_for_sender_def Let_def nonce_simps)

lemma sender_pending_prune [nonce_simps]:
  "sender_pending (prune_pending_for_sender now s st) s' =
     (if s' = s then live (reservation_ttl st) now (sender_pending st s) else sender_pending st s')"
  by (auto simp: prune_pending_for_sender_def Let_def nonce_simps live_def)

lemma params_fold_prune [nonce_simps]:
  "reservation_ttl (fold (\<lambda>s. prune_pending_for_sender (now s) s) xs st) = reservation_ttl st"
  "max_pending_nonces_per_sender (fold (\<lambda>s. prune_pending_for_sender (now s) s) xs st) =
     max_pending_nonces_per_sender st"
  by (induction xs arbitrary: st) (simp_all add: nonce_simps)

lemma sender_pending_fold_prune:
  "sender_pending (fold (\<lambda>s. prune_pending_for_sender (now s) s) xs st) s =
     (if s \<in> set xs then live (reservation_ttl st) (now s) (sender_pending st s) else sender_pending st s)"
  by (induction xs arbitrary: st) (auto simp: nonce_simps live_live)

lemma sender_pending_outside: "s \<notin> fst ` set (pending_nonces st) \<Longrightarrow> sender_pending st s = []"
  by (simp add: sender_pending_def map_of_None_fst [THEN iffD2])

lemma sender_pending_prune_all [nonce_simps]:
  "sender_pending (prune_pending now st) s = live (reservation_ttl st) (now s) (sender_pending st s)"
  by (auto simp: prune_pending_def sender_pending_fold_prune sender_pending_outside)

text \<open>What the loop over reserved nonces returns.\<close>

lemma latest_reserved_ge: "c \<le> latest_reserved p c"
proof (induction p c rule: latest_reserved.induct)
  case (1 p c)
  then show ?case by (cases "map_of p (c + 1) = None") (simp_all add: latest_reserved.simps [of p c])
qed

lemma latest_reserved_free: "map_of p (latest_reserved p c + 1) = None"
proof (induction p c rule: latest_reserved.induct)
  case (1 p c)
  then show ?case by (cases "map_of p (c + 1) = None") (simp_all add: latest_reserved.simps [of p c])
qed

lemma latest_reserved_run:
  "c < n \<Longrightarrow> n \<le> latest_reserved p c \<Longrightarrow> map_of p n \<noteq> None"
proof (induction p c rule: latest_reserved.induct)
  case (1 p c)
  show ?case
  proof (cases "map_of p (c + 1) \<noteq> None")
    case True
    with 1 show ?thesis by (cases "n = c + 1") (auto simp: latest_reserved.simps [of p c])
  next
    case False
    with 1 show ?thesis by (simp add: latest_reserved.simps [of p c])
  qed
qed

lemma latest_reserved_unique:
  assumes "c \<le> l" "\<And>n. c < n \<Longrightarrow> n \<le> l \<Longrightarrow> map_of p n \<noteq> None" "map_of p (l + 1) = None"
  shows "latest_reserved p c = l"
proof -
  have "\<not> latest_reserved p c < l"
    using assms(2) [of "latest_reserved p c + 1"] latest_reserved_free [of p c] latest_reserved_ge [of c p] by force
  moreover have "\<not> l < latest_reserved p c"
    using latest_reserved_run [of c "l + 1" p] assms(1,3) by auto
  ultimately show ?thesis by simp
qed

lemma latest_reserved_Nil [simp]: "latest_reserved [] c = c"
  by (simp add: latest_reserved.simps)

lemma latest_reserved_filter:
  "dict_wf p \<Longrightarrow> latest_reserved (filter (\<lambda>(n, _). \<not> n \<le> c) p) c = latest_reserved p c"
  by (rule latest_reserved_unique)
    (use latest_reserved_ge [of c p] in \<open>auto simp: map_of_filter_dict latest_reserved_free
      dest: latest_reserved_run split: option.split\<close>)

lemma get_next_nonce_eq [nonce_simps]:
  "get_next_nonce D d now s st =
     (latest_reserved (live (reservation_ttl st) now (sender_pending st s)) (committed_or_start D d s) + 1,
      prune_pending_for_sender now s st)"
  by (auto simp: get_next_nonce_def get_pending_nonce_def Let_def nonce_simps committed_or_start_def
      split: option.split)

lemma live_lookup:
  assumes "dict_wf p" "map_of p n = Some r" "ttl \<le> 0 \<or> now \<le> reserved_at r + ttl"
  shows "map_of (live ttl now p) n = Some r"
  using assms by (auto simp: live_def map_of_filter_dict)

lemma dict_wf_live [simp]: "dict_wf p \<Longrightarrow> dict_wf (live ttl now p)"
  by (simp add: live_def)

lemma length_live: "length (live ttl now p) \<le> length p"
  by (simp add: live_def)

lemma sender_pending_reserve [nonce_simps]:
  "sender_pending (reserve s n h now st) s' =
     (if s' = s then AList.update n \<lparr>res_tx_hash = h, reserved_at = now\<rparr> (sender_pending st s)
      else sender_pending st s')"
  "reservation_ttl (reserve s n h now st) = reservation_ttl st"
  "max_pending_nonces_per_sender (reserve s n h now st) = max_pending_nonces_per_sender st"
  by (simp_all add: reserve_def nonce_simps)

text \<open>
  The result of \<^verbatim>\<open>check_nonce\<close> by cases: the same transaction again, a nonce out of
  sequence, a sender with too many reservations, or a new reservation.
\<close>

lemma check_nonce_of_cases:
  fixes D d now1 now2 now3 s nonce h st
  defines "st1 \<equiv> prune_pending_for_sender now1 s st"
  defines "st2 \<equiv> prune_pending_for_sender now2 s st1"
  defines "expected \<equiv> latest_reserved (sender_pending st2 s) (committed_or_start D d s) + 1"
  obtains
    (again) n r where "int_value nonce = Some n" "map_of (sender_pending st1 s) n = Some r" "res_tx_hash r = h"
      "check_nonce_of D d (now1, now2, now3) s nonce h st = (Inr (), reserve s n h now3 st1)"
  | (mismatch) "int_value nonce \<noteq> Some expected"
      "check_nonce_of D d (now1, now2, now3) s nonce h st = (Inl (nonce_mismatch expected nonce), st2)"
  | (full) "int_value nonce = Some expected"
      "max_pending_nonces_per_sender st \<le> length (sender_pending st2 s)"
      "check_nonce_of D d (now1, now2, now3) s nonce h st =
         (Inl (TransactionException ''Too many pending transactions reserved for sender''), st2)"
  | (fresh) "int_value nonce = Some expected"
      "length (sender_pending st2 s) < max_pending_nonces_per_sender st"
      "check_nonce_of D d (now1, now2, now3) s nonce h st = (Inr (), reserve s expected h now3 st2)"
proof -
  let ?existing = "Option.bind (int_value nonce) (map_of (sender_pending st1 s))"
  have next_eq: "get_next_nonce D d now2 s st1 = (expected, st2)"
    by (simp add: get_next_nonce_eq expected_def st2_def nonce_simps)
  have max_eq: "max_pending_nonces_per_sender st2 = max_pending_nonces_per_sender st"
    by (simp add: st1_def st2_def nonce_simps)
  have eq: "check_nonce_of D d (now1, now2, now3) s nonce h st =
     (if ?existing \<noteq> None \<and> res_tx_hash (the ?existing) = h
      then (Inr (), reserve s (the (int_value nonce)) h now3 st1)
      else if int_value nonce \<noteq> Some expected then (Inl (nonce_mismatch expected nonce), st2)
      else if max_pending_nonces_per_sender st \<le> length (sender_pending st2 s)
      then (Inl (TransactionException ''Too many pending transactions reserved for sender''), st2)
      else (Inr (), reserve s expected h now3 st2))"
    unfolding check_nonce_of_def Let_def prod.case st1_def [symmetric] next_eq max_eq by (rule refl)
  show thesis
  proof (cases "?existing \<noteq> None \<and> res_tx_hash (the ?existing) = h")
    case True
    then obtain n r where "int_value nonce = Some n" "map_of (sender_pending st1 s) n = Some r" "res_tx_hash r = h"
      by (auto simp: bind_eq_Some_conv)
    with again eq show thesis by simp
  next
    case False
    with eq mismatch full fresh show thesis by (auto simp: not_le split: if_splits)
  qed
qed

text \<open>Well-formed reservations, and the states a running node reaches.\<close>

definition pending_ok :: "nonce_storage \<Rightarrow> bool" where
  "pending_ok st \<longleftrightarrow> dict_wf (pending_nonces st) \<and>
     list_all (\<lambda>(_, p). p \<noteq> [] \<and> dict_wf p \<and> length p \<le> max_pending_nonces_per_sender st) (pending_nonces st)"

inductive pending_reachable :: "'d driver \<Rightarrow> int \<Rightarrow> int \<Rightarrow> nonce_storage \<Rightarrow> bool" for D ttl limit where
  start: "pending_reachable D ttl limit (new_nonce_storage ttl limit)"
| admit: "pending_reachable D ttl limit st \<Longrightarrow>
    pending_reachable D ttl limit (snd (check_nonce D d clock tx tx_hash st))"
| query: "pending_reachable D ttl limit st \<Longrightarrow>
    pending_reachable D ttl limit (snd (get_next_nonce D d now sender st))"
| commit: "pending_reachable D ttl limit st \<Longrightarrow>
    pending_reachable D ttl limit (reconcile_pending D d clk st)"
| flush: "pending_reachable D ttl limit st \<Longrightarrow> pending_reachable D ttl limit (flush_pending st)"

lemma pending_okD:
  assumes "pending_ok st"
  shows "dict_wf (sender_pending st s)" "length (sender_pending st s) \<le> max_pending_nonces_per_sender st"
proof -
  have "dict_wf (sender_pending st s) \<and> length (sender_pending st s) \<le> max_pending_nonces_per_sender st"
  proof (cases "map_of (pending_nonces st) s")
    case None
    then show ?thesis by (simp add: sender_pending_def)
  next
    case (Some p)
    then have "(s, p) \<in> set (pending_nonces st)" by (rule map_of_SomeD)
    with assms Some show ?thesis by (auto simp: pending_ok_def list_all_iff sender_pending_def)
  qed
  then show "dict_wf (sender_pending st s)" "length (sender_pending st s) \<le> max_pending_nonces_per_sender st"
    by simp_all
qed

lemma set_AList_update_subset: "set (AList.update k v d) \<subseteq> insert (k, v) (set d)"
  by (induction d) auto

lemma set_AList_delete_subset: "set (AList.delete k d) \<subseteq> set d"
  by (auto simp: AList.delete_eq)

lemma pending_ok_pop: "pending_ok st \<Longrightarrow> pending_ok (pop_sender s st)"
  using set_AList_delete_subset [of s "pending_nonces st"]
  by (auto simp: pending_ok_def pop_sender_def list_all_iff)

lemma pending_ok_put:
  "pending_ok st \<Longrightarrow> p \<noteq> [] \<Longrightarrow> dict_wf p \<Longrightarrow> length p \<le> max_pending_nonces_per_sender st \<Longrightarrow>
   pending_ok (put_sender s p st)"
  using set_AList_update_subset [of s p "pending_nonces st"]
  by (auto simp: pending_ok_def put_sender_def list_all_iff)

lemma pending_ok_filter:
  assumes "pending_ok st"
  shows "pending_ok (let kept = filter P (sender_pending st s)
    in if kept = [] then pop_sender s st else put_sender s kept st)"
proof (cases "filter P (sender_pending st s) = []")
  case True
  then show ?thesis by (simp add: pending_ok_pop assms)
next
  case False
  have "length (filter P (sender_pending st s)) \<le> max_pending_nonces_per_sender st"
    using length_filter_le pending_okD(2) [OF assms] by (rule le_trans)
  then show ?thesis
    using False pending_okD(1) [OF assms] pending_ok_put [OF assms False] by simp
qed

lemma pending_ok_prune: "pending_ok st \<Longrightarrow> pending_ok (prune_pending_for_sender now s st)"
  using pending_ok_filter [of st "\<lambda>(_, r). \<not> reserved_at r < now - reservation_ttl st" s]
  by (simp add: prune_pending_for_sender_def Let_def pending_ok_pop)

lemma pending_ok_reconcile: "pending_ok st \<Longrightarrow> pending_ok (reconcile_sender D d s st)"
  using pending_ok_filter [of st _ s]
  by (simp add: reconcile_sender_def Let_def split: option.split)

lemma pending_ok_fold:
  assumes "\<And>s st. pending_ok st \<Longrightarrow> pending_ok (f s st)"
  shows "pending_ok st \<Longrightarrow> pending_ok (fold f xs st)"
  by (induction xs arbitrary: st) (simp_all add: assms)

lemma length_AList_update:
  "length (AList.update k v d) = (if map_of d k = None then Suc (length d) else length d)"
  by (induction d) auto

lemma pending_ok_reserve:
  assumes "pending_ok st"
    and "map_of (sender_pending st s) n \<noteq> None \<or> length (sender_pending st s) < max_pending_nonces_per_sender st"
  shows "pending_ok (reserve s n h now st)"
proof -
  let ?p = "AList.update n \<lparr>res_tx_hash = h, reserved_at = now\<rparr> (sender_pending st s)"
  have "length ?p \<le> max_pending_nonces_per_sender st"
    using assms(2) pending_okD(2) [OF assms(1)] by (auto simp: length_AList_update)
  moreover have "?p \<noteq> []" by (cases "sender_pending st s") auto
  ultimately show ?thesis
    unfolding reserve_def by (intro pending_ok_put) (simp_all add: assms(1) pending_okD(1))
qed

lemma pending_ok_check_nonce_of:
  assumes "pending_ok st"
  shows "pending_ok (snd (check_nonce_of D d clock s nonce h st))"
proof -
  obtain t1 t2 t3 where clock: "clock = (t1, t2, t3)" by (rule prod_cases3)
  have st1: "pending_ok (prune_pending_for_sender t1 s st)" using assms by (rule pending_ok_prune)
  show ?thesis
    by (cases rule: check_nonce_of_cases [of nonce t1 s st h D d t2 t3])
      (simp_all add: clock st1 pending_ok_prune pending_ok_reserve nonce_simps)
qed

lemma pending_ok_check_nonce: "pending_ok st \<Longrightarrow> pending_ok (snd (check_nonce D d clock tx h st))"
  unfolding check_nonce_def by (auto simp: pending_ok_check_nonce_of split: sum.split)

lemma reachable_pending_ok: "pending_reachable D ttl limit st \<Longrightarrow> pending_ok st"
proof (induction rule: pending_reachable.induct)
  case (admit st d clock tx tx_hash)
  then show ?case by (simp add: pending_ok_check_nonce)
next
  case (query st d now sender)
  then show ?case by (simp add: get_next_nonce_eq pending_ok_prune)
next
  case (commit st d clk)
  then show ?case
    unfolding reconcile_pending_def prune_pending_def Let_def
    by (intro pending_ok_fold pending_ok_reconcile pending_ok_prune) simp_all
qed (simp_all add: new_nonce_storage_def flush_pending_def pending_ok_def)

lemma params_reconcile_fold [nonce_simps]:
  "reservation_ttl (fold (reconcile_sender D d) xs st) = reservation_ttl st"
  "max_pending_nonces_per_sender (fold (reconcile_sender D d) xs st) = max_pending_nonces_per_sender st"
  by (induction xs arbitrary: st)
    (simp_all add: reconcile_sender_def Let_def nonce_simps split: option.split)

lemma params_reconcile [nonce_simps]:
  "reservation_ttl (reconcile_pending D d clk st) = reservation_ttl st"
  "max_pending_nonces_per_sender (reconcile_pending D d clk st) = max_pending_nonces_per_sender st"
  by (simp_all add: reconcile_pending_def Let_def prune_pending_def nonce_simps)

lemma params_check_nonce_of:
  "reservation_ttl (snd (check_nonce_of D d clock s nonce h st)) = reservation_ttl st \<and>
   max_pending_nonces_per_sender (snd (check_nonce_of D d clock s nonce h st)) = max_pending_nonces_per_sender st"
proof -
  obtain t1 t2 t3 where clock: "clock = (t1, t2, t3)" by (rule prod_cases3)
  show ?thesis
    by (cases rule: check_nonce_of_cases [of nonce t1 s st h D d t2 t3]) (simp_all add: clock nonce_simps)
qed

lemma reachable_max: "pending_reachable D ttl limit st \<Longrightarrow> max_pending_nonces_per_sender st = nat (max limit 1)"
proof (induction rule: pending_reachable.induct)
  case (admit st d clock tx tx_hash)
  then show ?case by (auto simp: check_nonce_def params_check_nonce_of split: sum.split)
qed (simp_all add: new_nonce_storage_def get_next_nonce_eq flush_pending_def nonce_simps)

lemma sender_pending_reconcile_sender:
  "sender_pending (reconcile_sender D d s st) s' =
     (if s' = s then filter (\<lambda>(n, _). \<not> n \<le> committed_or_start D d s \<or> get_nonce D d s = None) (sender_pending st s)
      else sender_pending st s')"
  by (auto simp: reconcile_sender_def Let_def nonce_simps committed_or_start_def
      split: option.split intro!: filter_True [symmetric])

lemma sender_pending_reconcile [nonce_simps]:
  "sender_pending (reconcile_pending D d clk st) s =
     filter (\<lambda>(n, _). \<not> n \<le> committed_or_start D d s \<or> get_nonce D d s = None)
       (live (reservation_ttl st) (clk s) (sender_pending st s))"
proof -
  have fold: "sender_pending (fold (reconcile_sender D d) xs st) s =
      (if s \<in> set xs then filter (\<lambda>(n, _). \<not> n \<le> committed_or_start D d s \<or> get_nonce D d s = None)
        (sender_pending st s) else sender_pending st s)" for xs st
    by (induction xs arbitrary: st)
      (auto simp: sender_pending_reconcile_sender filter_filter intro!: filter_cong)
  show ?thesis
    using sender_pending_outside [of s "prune_pending clk st"]
    by (auto simp: reconcile_pending_def Let_def fold sender_pending_prune_all)
qed

lemma live_filter: "live ttl now (filter P p) = filter P (live ttl now p)"
  by (auto simp: live_def filter_filter intro!: filter_cong)

section \<open>Properties\<close>

text \<open>A database in memory where the sender \<open>alice\<close> has committed one nonce.\<close>

definition mem_driver_start :: "int \<Rightarrow> mem_db" where
  "mem_driver_start n = \<lparr>db_disk = [(nonce_key ''alice'', PInt n)], db_pending = []\<rparr>"

text \<open>C12: While a reservation of a nonce lives, no other transaction of the sender with that nonce is
  admitted, whatever the committed state has become in the meantime: an admission for one
  transaction makes every admission of a different one at the same nonce fail until the
  reservation expires.\<close>

theorem no_double_admission:
  assumes "pending_ok st"
    and "check_nonce_of D d (t1, t2, t3) s nonce h st = (Inr (), st')"
    and "h' \<noteq> h"
    and "reservation_ttl st \<le> 0 \<or> (t1' \<le> t3 + reservation_ttl st \<and> t2' \<le> t3 + reservation_ttl st)"
  shows "\<exists>e. fst (check_nonce_of D d' (t1', t2', t3') s nonce h' st') = Inl e"
proof -
  let ?ttl = "reservation_ttl st"
  have ok': "pending_ok st'" and ttl': "reservation_ttl st' = ?ttl"
    using pending_ok_check_nonce_of [OF assms(1), of D d "(t1, t2, t3)" s nonce h]
      params_check_nonce_of [of D d "(t1, t2, t3)" s nonce h st] by (simp_all add: assms(2))
  obtain n where n: "int_value nonce = Some n"
    and held: "map_of (sender_pending st' s) n = Some \<lparr>res_tx_hash = h, reserved_at = t3\<rparr>"
    by (cases rule: check_nonce_of_cases [of nonce t1 s st h D d t2 t3])
      (use assms(2) in \<open>auto simp: nonce_simps dict_simps\<close>)
  have live1: "map_of (live ?ttl t1' (sender_pending st' s)) n = Some \<lparr>res_tx_hash = h, reserved_at = t3\<rparr>"
    by (rule live_lookup [OF pending_okD(1) [OF ok'] held]) (use assms(4) in auto)
  have live2: "map_of (live ?ttl t2' (live ?ttl t1' (sender_pending st' s))) n \<noteq> None"
    by (subst live_lookup [OF _ live1]) (use assms(4) in \<open>auto simp: pending_okD(1) [OF ok']\<close>)
  show ?thesis
    by (cases rule: check_nonce_of_cases [of nonce t1' s st' h' D d' t2' t3'])
      (use n live1 live2 assms(3) in \<open>auto simp: nonce_simps ttl' latest_reserved_free\<close>)
qed

theorem no_double_admission_witness:
  "\<exists>e. fst (check_nonce_of mem_driver (mem_driver_start 4) (30, 30, 30) ''alice'' (PInt 5) ''h2''
      (snd (check_nonce_of mem_driver (mem_driver_start 4) (10, 10, 10) ''alice'' (PInt 5) ''h1''
        (new_nonce_storage 60 128)))) = Inl e"
  by (rule no_double_admission [of "new_nonce_storage 60 128" mem_driver "mem_driver_start 4" 10 10 10 "''alice''"
        "PInt 5" "''h1''"]) (code_simp, code_simp, simp, code_simp)

text \<open>C13: The reservations of a running node stay bounded: in every state it reaches by admissions,
  nonce queries, commits and flushes, each sender has at most the configured number of pending
  nonces (at least one is allowed), each nonce is reserved once, and no empty entry is kept.\<close>

theorem reservations_bounded:
  assumes "pending_reachable D ttl limit st"
  shows "pending_ok st \<and> length (sender_pending st s) \<le> nat (max limit 1)"
  using reachable_pending_ok [OF assms] pending_okD(2) [of st s] reachable_max [OF assms] by simp

theorem reservations_bounded_witness:
  "pending_ok (snd (check_nonce mem_driver (mem_driver_start 4) (1, 1, 1) (sample_tx 0) ''h'' (new_nonce_storage 60 1))) \<and>
   length (sender_pending (snd (check_nonce mem_driver (mem_driver_start 4) (1, 1, 1) (sample_tx 0) ''h''
     (new_nonce_storage 60 1))) ''alice'') \<le> nat (max 1 1)"
  by (rule reservations_bounded [of mem_driver 60]) (intro pending_reachable.intros)

text \<open>Reconciling the reservations after a commit drops every reserved nonce up to the committed
  one and does not change the next nonce of any sender.\<close>

theorem reconcile_keeps_next_nonce:
  assumes "pending_ok st" and "clk s \<le> now"
  shows "fst (get_next_nonce D d now s (reconcile_pending D d clk st)) = fst (get_next_nonce D d now s st) \<and>
    (\<forall>c n. get_nonce D d s = Some c \<longrightarrow> n \<le> c \<longrightarrow> map_of (sender_pending (reconcile_pending D d clk st) s) n = None)"
proof
  let ?p = "live (reservation_ttl st) now (sender_pending st s)"
  have wf: "dict_wf ?p" using pending_okD(1) [OF assms(1)] by simp
  have "latest_reserved (filter (\<lambda>(n, _). \<not> n \<le> committed_or_start D d s \<or> get_nonce D d s = None) ?p)
      (committed_or_start D d s) = latest_reserved ?p (committed_or_start D d s)"
    using latest_reserved_filter [OF wf]
    by (cases "get_nonce D d s") simp_all
  then show "fst (get_next_nonce D d now s (reconcile_pending D d clk st)) = fst (get_next_nonce D d now s st)"
    by (simp add: nonce_simps live_filter live_live [OF assms(2)])
  show "\<forall>c n. get_nonce D d s = Some c \<longrightarrow> n \<le> c \<longrightarrow>
      map_of (sender_pending (reconcile_pending D d clk st) s) n = None"
    using pending_okD(1) [OF assms(1), of s]
    by (auto simp: nonce_simps map_of_filter_dict committed_or_start_def split: option.split)
qed

theorem reconcile_keeps_next_nonce_witness:
  "fst (get_next_nonce mem_driver (mem_driver_start 4) 2 ''alice''
      (reconcile_pending mem_driver (mem_driver_start 4) (\<lambda>_. 1) (new_nonce_storage 60 128))) = 5"
proof -
  have "fst (get_next_nonce mem_driver (mem_driver_start 4) 2 ''alice'' (new_nonce_storage 60 128)) = 5" by code_simp
  with reconcile_keeps_next_nonce [of "new_nonce_storage 60 128" "\<lambda>_. 1" "''alice''" 2 mem_driver "mem_driver_start 4"]
  show ?thesis by (simp add: pending_ok_def new_nonce_storage_def)
qed

end
