(* ===== verification/Latest_Block.thy ===== *)
theory Latest_Block
  imports Nonce_Storage
begin

text \<open>
  The latest-block marker (\<^verbatim>\<open>src/src/xian/utils/block.py\<close>): the authoritative record in
  the database, its mirror in a JSON file, block time, and the application of a genesis block.
  The mirror is absent, unreadable, or holds a JSON value.  \<open>io_ok\<close> says whether the operating
  system carries out a write; the write goes to a temporary file first, so a failure leaves the
  mirror as it was.  Text conversion of values is in \<open>text_env\<close>.
\<close>

record text_env =
  te_str :: "pyval \<Rightarrow> string"
  te_int_of_text :: "string \<Rightarrow> int res"

record latest_block =
  lb_hash :: string
  lb_height :: int
  lb_nanos :: int

type_synonym mirror_file = "pyval res option"

definition LATEST_BLOCK_KEY :: string where
  "LATEST_BLOCK_KEY = ''__latest_block''"

definition LATEST_BLOCK_DEFAULT :: latest_block where
  "LATEST_BLOCK_DEFAULT = \<lparr>lb_hash = [], lb_height = 0, lb_nanos = 0\<rparr>"

definition LATEST_BLOCK_READ_RETRIES :: nat where
  "LATEST_BLOCK_READ_RETRIES = 8"

definition latest_to_py :: "latest_block \<Rightarrow> pyval" where
  "latest_to_py lb =
     PDict [(PStr ''hash'', PStr (lb_hash lb)), (PStr ''height'', PInt (lb_height lb)), (PStr ''nanos'', PInt (lb_nanos lb))]"

section \<open>The marker\<close>

definition py_str :: "text_env \<Rightarrow> pyval \<Rightarrow> string" where
  "py_str T v = (case v of PStr s \<Rightarrow> s | PInt i \<Rightarrow> str_int i | _ \<Rightarrow> te_str T v)"

definition normalize_latest_block :: "text_env \<Rightarrow> pyval \<Rightarrow> latest_block res" where
  "normalize_latest_block T v =
     (if \<not> is_dict v then Inl (OtherError ''AttributeError'')
      else let block_hash = py_str T (py_or (dget_or v ''hash'' (PStr [])) (PStr [])) in
        rbind (py_int (te_int_of_text T) (py_or (dget_or v ''height'' (PInt 0)) (PInt 0))) (\<lambda>height.
        rbind (py_int (te_int_of_text T) (py_or (dget_or v ''nanos'' (PInt 0)) (PInt 0))) (\<lambda>nanos.
        Inr \<lparr>lb_hash = block_hash, lb_height = height, lb_nanos = nanos\<rparr>)))"

definition write_latest_block_json :: "text_env \<Rightarrow> bool \<Rightarrow> bool \<Rightarrow> pyval \<Rightarrow> mirror_file \<Rightarrow> mirror_file res" where
  "write_latest_block_json T io_ok replace_existing latest m =
     rbind (normalize_latest_block T latest) (\<lambda>lb.
     if \<not> io_ok then Inl (OtherError ''OSError'')
     else if replace_existing \<or> m = None then Inr (Some (Inr (latest_to_py lb))) else Inr m)"

definition load_committed_latest_block :: "text_env \<Rightarrow> 'd driver \<Rightarrow> 'd \<Rightarrow> latest_block option res" where
  "load_committed_latest_block T D d =
     (let latest = d_value_from_disk D d LATEST_BLOCK_KEY in
      if latest = PNone then Inr None
      else if \<not> is_dict latest then Inl (ValueError ''committed latest-block marker must be a mapping'')
      else rbind (normalize_latest_block T latest) (\<lambda>normalized.
           case fromhex (lb_hash normalized) of
             Inl _ \<Rightarrow> Inl (ValueError ''committed latest-block marker has an invalid app hash'')
           | Inr _ \<Rightarrow> Inr (Some normalized)))"

definition stage_latest_block ::
    "text_env \<Rightarrow> 'd driver \<Rightarrow> string \<Rightarrow> int \<Rightarrow> int \<Rightarrow> 'd \<Rightarrow> (latest_block \<times> 'd) res" where
  "stage_latest_block T D block_hash height nanos d =
     rbind (normalize_latest_block T (PDict
              [(PStr ''hash'', PStr (hexlify block_hash)), (PStr ''height'', PInt height), (PStr ''nanos'', PInt nanos)]))
       (\<lambda>latest. Inr (latest, d_apply_writes D [(LATEST_BLOCK_KEY, latest_to_py latest)] d))"

definition write_latest_block :: "text_env \<Rightarrow> bool \<Rightarrow> latest_block \<Rightarrow> mirror_file \<Rightarrow> mirror_file res" where
  "write_latest_block T io_ok latest m = write_latest_block_json T io_ok True (latest_to_py latest) m"

definition try_write_latest_block :: "text_env \<Rightarrow> bool \<Rightarrow> latest_block \<Rightarrow> mirror_file \<Rightarrow> (bool \<times> mirror_file) res" where
  "try_write_latest_block T io_ok latest m =
     (case write_latest_block T io_ok latest m of
        Inr m' \<Rightarrow> Inr (True, m')
      | Inl e \<Rightarrow> if e = OtherError ''OSError'' then Inr (False, m) else Inl e)"

definition get_committed_latest_block :: "text_env \<Rightarrow> 'd driver \<Rightarrow> 'd \<Rightarrow> latest_block res" where
  "get_committed_latest_block T D d =
     rbind (load_committed_latest_block T D d) (\<lambda>committed.
     Inr (case committed of None \<Rightarrow> LATEST_BLOCK_DEFAULT | Some lb \<Rightarrow> lb))"

text \<open>Reading the mirror: the exceptions that \<^verbatim>\<open>reconcile_latest_block\<close> catches give no block.\<close>

definition caught_by_reconcile :: "exc \<Rightarrow> bool" where
  "caught_by_reconcile e =
     (case e of FileNotFoundError _ \<Rightarrow> True | TypeError _ \<Rightarrow> True | ValueError _ \<Rightarrow> True
      | OtherError s \<Rightarrow> s = ''OSError'' | _ \<Rightarrow> False)"

definition read_mirror :: "text_env \<Rightarrow> mirror_file \<Rightarrow> latest_block res" where
  "read_mirror T m =
     (case m of None \<Rightarrow> Inl (FileNotFoundError ''__latest_block.json'')
      | Some r \<Rightarrow> rbind r (normalize_latest_block T))"

definition reconcile_latest_block ::
    "text_env \<Rightarrow> bool \<Rightarrow> 'd driver \<Rightarrow> 'd \<Rightarrow> mirror_file \<Rightarrow> (latest_block \<times> mirror_file) res" where
  "reconcile_latest_block T io_ok D d m =
     rbind (get_committed_latest_block T D d) (\<lambda>committed.
     rbind (case read_mirror T m of
              Inr lb \<Rightarrow> Inr (Some lb)
            | Inl e \<Rightarrow> if caught_by_reconcile e then Inr None else Inl e) (\<lambda>mirrored.
     if mirrored \<noteq> Some committed
     then rbind (try_write_latest_block T io_ok committed m) (\<lambda>(_, m'). Inr (committed, m'))
     else Inr (committed, m)))"

section \<open>The mirror as a file\<close>

definition create_latest_block_json_if_not_exists :: "text_env \<Rightarrow> bool \<Rightarrow> mirror_file \<Rightarrow> mirror_file res" where
  "create_latest_block_json_if_not_exists T io_ok m =
     (if m \<noteq> None then Inr m
      else write_latest_block_json T io_ok False (latest_to_py LATEST_BLOCK_DEFAULT) m)"

fun load_retries :: "text_env \<Rightarrow> bool \<Rightarrow> nat \<Rightarrow> exc option \<Rightarrow> mirror_file \<Rightarrow> (latest_block \<times> mirror_file) res" where
  "load_retries T io_ok 0 last_error m =
     (case last_error of
        Some (FileNotFoundError _) \<Rightarrow> Inl (OtherError ''__latest_block.json not found'')
      | Some (ValueError _) \<Rightarrow> Inl (OtherError ''Error decoding __latest_block.json'')
      | _ \<Rightarrow> Inl (OtherError ''Error loading __latest_block.json''))"
| "load_retries T io_ok (Suc n) last_error m =
     (case m of
        None \<Rightarrow> rbind (create_latest_block_json_if_not_exists T io_ok m)
                  (load_retries T io_ok n (Some (FileNotFoundError ''__latest_block.json'')))
      | Some (Inl (ValueError e)) \<Rightarrow> load_retries T io_ok n (Some (ValueError e)) m
      | Some (Inl e) \<Rightarrow> Inl e
      | Some (Inr v) \<Rightarrow> rbind (normalize_latest_block T v) (\<lambda>lb. Inr (lb, m)))"

definition load_latest_block :: "text_env \<Rightarrow> bool \<Rightarrow> mirror_file \<Rightarrow> (latest_block \<times> mirror_file) res" where
  "load_latest_block T io_ok m =
     rbind (create_latest_block_json_if_not_exists T io_ok m)
       (load_retries T io_ok LATEST_BLOCK_READ_RETRIES None)"

text \<open>
  The three readers of the mirror.  Reading creates a missing file, so they answer with the
  file that is there afterwards; when they raise, it is as it was.
\<close>

definition get_latest_block_hash :: "text_env \<Rightarrow> bool \<Rightarrow> mirror_file \<Rightarrow> (string \<times> mirror_file) res" where
  "get_latest_block_hash T io_ok m =
     rbind (load_latest_block T io_ok m) (\<lambda>(lb, m). rbind (fromhex (lb_hash lb)) (\<lambda>h. Inr (h, m)))"

definition get_latest_block_height :: "text_env \<Rightarrow> bool \<Rightarrow> mirror_file \<Rightarrow> (int \<times> mirror_file) res" where
  "get_latest_block_height T io_ok m = rbind (load_latest_block T io_ok m) (\<lambda>(lb, m). Inr (lb_height lb, m))"

definition get_latest_block_nanos :: "text_env \<Rightarrow> bool \<Rightarrow> mirror_file \<Rightarrow> (int \<times> mirror_file) res" where
  "get_latest_block_nanos T io_ok m = rbind (load_latest_block T io_ok m) (\<lambda>(lb, m). Inr (lb_nanos lb, m))"

definition set_latest_block ::
    "text_env \<Rightarrow> bool \<Rightarrow> string option \<Rightarrow> int option \<Rightarrow> int option \<Rightarrow> mirror_file \<Rightarrow> mirror_file res" where
  "set_latest_block T io_ok block_hash height nanos m =
     rbind (load_latest_block T io_ok m) (\<lambda>(lb, m).
     let lb = (case block_hash of None \<Rightarrow> lb | Some h \<Rightarrow> lb\<lparr>lb_hash := hexlify h\<rparr>);
         lb = (case height of None \<Rightarrow> lb | Some h \<Rightarrow> lb\<lparr>lb_height := h\<rparr>);
         lb = (case nanos of None \<Rightarrow> lb | Some n \<Rightarrow> lb\<lparr>lb_nanos := n\<rparr>)
     in write_latest_block_json T io_ok True (latest_to_py lb) m)"

definition set_latest_block_hash :: "text_env \<Rightarrow> bool \<Rightarrow> string \<Rightarrow> mirror_file \<Rightarrow> mirror_file res" where
  "set_latest_block_hash T io_ok h m = set_latest_block T io_ok (Some h) None None m"

definition set_latest_block_height :: "text_env \<Rightarrow> bool \<Rightarrow> int \<Rightarrow> mirror_file \<Rightarrow> mirror_file res" where
  "set_latest_block_height T io_ok h m = set_latest_block T io_ok None (Some h) None m"

definition set_latest_block_nanos :: "text_env \<Rightarrow> bool \<Rightarrow> int \<Rightarrow> mirror_file \<Rightarrow> mirror_file res" where
  "set_latest_block_nanos T io_ok n m = set_latest_block T io_ok None None (Some n) m"

section \<open>Time\<close>

text \<open>A UTC date and time as seconds since the epoch and microseconds.\<close>

definition nanoseconds_to_utc_datetime :: "int \<Rightarrow> int \<times> int" where
  "nanoseconds_to_utc_datetime nanoseconds =
     (nanoseconds div 1000000000, nanoseconds mod 1000000000 div 1000)"

definition convert_cometbft_time_to_datetime :: "int \<Rightarrow> int \<times> int" where
  "convert_cometbft_time_to_datetime nanoseconds = nanoseconds_to_utc_datetime nanoseconds"

definition get_nanotime_from_block_time :: "int \<Rightarrow> int \<Rightarrow> int" where
  "get_nanotime_from_block_time seconds nanos = seconds * 1000000000 + nanos"

section \<open>Genesis\<close>

fun convert_runtime_value :: "(pyval \<Rightarrow> pyval res) \<Rightarrow> pyval \<Rightarrow> pyval res" where
  "convert_runtime_value convert_dict (PDict kvs) = convert_dict (PDict kvs)"
| "convert_runtime_value convert_dict (PList xs) =
     rbind (mapR (convert_runtime_value convert_dict) xs) (\<lambda>ys. Inr (PList ys))"
| "convert_runtime_value convert_dict v = Inr v"

text \<open>One entry of a genesis list: its key must be text and its value is converted.\<close>

definition set_entry ::
    "'d driver \<Rightarrow> (pyval \<Rightarrow> pyval res) \<Rightarrow> pyval \<Rightarrow> 'd \<Rightarrow> 'd res" where
  "set_entry D convert_dict s d =
     rbind (dindex s ''value'') (\<lambda>raw.
     rbind (convert_runtime_value convert_dict raw) (\<lambda>value.
     rbind (dindex s ''key'') (\<lambda>key.
     if is_str key then Inr (d_set D (str_of key) value d) else Inl (TypeError ''key must be str''))))"

definition set_nonce_entry :: "'d driver \<Rightarrow> pyval \<Rightarrow> 'd \<Rightarrow> 'd res" where
  "set_nonce_entry D n d =
     rbind (dindex n ''key'') (\<lambda>key.
     rbind (dindex n ''value'') (\<lambda>value.
     if is_str key then Inr (set_nonce D (str_of key) value d) else Inl (TypeError ''can only concatenate str'')))"

fun foldR :: "('a \<Rightarrow> 's \<Rightarrow> 's res) \<Rightarrow> 'a list \<Rightarrow> 's \<Rightarrow> 's res" where
  "foldR f [] s = Inr s"
| "foldR f (x # xs) s = rbind (f x s) (foldR f xs)"

definition iter_list :: "pyval \<Rightarrow> pyval list res" where
  "iter_list v = (case v of PList xs \<Rightarrow> Inr xs | PTuple xs \<Rightarrow> Inr xs
     | PDict kvs \<Rightarrow> Inr (map fst kvs) | _ \<Rightarrow> Inl (TypeError ''not iterable''))"

definition apply_state_changes_from_block ::
    "text_env \<Rightarrow> (pyval \<Rightarrow> pyval res) \<Rightarrow> 'd driver \<Rightarrow> pyval \<Rightarrow> 'd \<Rightarrow> 'd res" where
  "apply_state_changes_from_block T convert_dict D block d =
     rbind (iter_list (dget_or block ''genesis'' (PList []))) (\<lambda>state_changes.
     rbind (foldR (set_entry D convert_dict) state_changes d) (\<lambda>d.
     rbind (iter_list (dget_or block ''nonces'' (PList []))) (\<lambda>nonces.
     rbind (foldR (set_nonce_entry D) nonces d) (\<lambda>d.
     rbind (iter_list (dget_or block ''rewards'' (PList []))) (\<lambda>rewards.
     rbind (foldR (set_entry D convert_dict) rewards d) (\<lambda>d.
     Inr (d_hard_apply D (py_str T (dget_or block ''hlc_timestamp'' PNone)) d)))))))"

definition store_genesis_block ::
    "text_env \<Rightarrow> (pyval \<Rightarrow> pyval res) \<Rightarrow> 'd driver \<Rightarrow> pyval \<Rightarrow> 'd \<Rightarrow> 'd res" where
  "store_genesis_block T convert_dict D genesis_block d =
     (if genesis_block = PNone then Inr d else apply_state_changes_from_block T convert_dict D genesis_block d)"

section \<open>Lemmas\<close>

lemma normalize_latest_to_py [simp]: "normalize_latest_block T (latest_to_py lb) = Inr lb"
  by (simp add: normalize_latest_block_def latest_to_py_def dget_or_def py_or_def py_str_def)

lemma latest_to_py_simps [simp]: "latest_to_py lb \<noteq> PNone" "is_dict (latest_to_py lb)"
  by (simp_all add: latest_to_py_def)

lemma stage_latest_block_eq:
  assumes "driver_laws D"
  shows "stage_latest_block T D h ht n d =
    Inr (\<lparr>lb_hash = hexlify h, lb_height = ht, lb_nanos = n\<rparr>,
         d_set D LATEST_BLOCK_KEY (latest_to_py \<lparr>lb_hash = hexlify h, lb_height = ht, lb_nanos = n\<rparr>) d)"
  using normalize_latest_to_py [of T "\<lparr>lb_hash = hexlify h, lb_height = ht, lb_nanos = n\<rparr>"]
  by (simp add: stage_latest_block_def latest_to_py_def driver_simps [OF assms])

lemma committed_of_marker:
  assumes "d_value_from_disk D d LATEST_BLOCK_KEY = latest_to_py \<lparr>lb_hash = hexlify h, lb_height = ht, lb_nanos = n\<rparr>"
  shows "get_committed_latest_block T D d = Inr \<lparr>lb_hash = hexlify h, lb_height = ht, lb_nanos = n\<rparr>"
  by (simp add: get_committed_latest_block_def load_committed_latest_block_def assms Let_def)

lemma committed_cong:
  "d_value_from_disk D d LATEST_BLOCK_KEY = d_value_from_disk D d' LATEST_BLOCK_KEY \<Longrightarrow>
   get_committed_latest_block T D d = get_committed_latest_block T D d'"
  by (simp add: get_committed_latest_block_def load_committed_latest_block_def)

lemma write_latest_block_eq:
  "write_latest_block T io_ok lb m = (if io_ok then Inr (Some (Inr (latest_to_py lb))) else Inl (OtherError ''OSError''))"
  by (simp add: write_latest_block_def write_latest_block_json_def)

lemma try_write_eq:
  "try_write_latest_block T io_ok lb m = Inr (io_ok, if io_ok then Some (Inr (latest_to_py lb)) else m)"
  by (simp add: try_write_latest_block_def write_latest_block_eq)

definition mirror_readable :: "text_env \<Rightarrow> mirror_file \<Rightarrow> bool" where
  "mirror_readable T m = (case read_mirror T m of Inr _ \<Rightarrow> True | Inl e \<Rightarrow> caught_by_reconcile e)"

lemma reconcile_eq:
  assumes "get_committed_latest_block T D d = Inr lb" "mirror_readable T m"
  shows "\<exists>m'. reconcile_latest_block T io_ok D d m = Inr (lb, m') \<and> (io_ok \<longrightarrow> read_mirror T m' = Inr lb)"
proof (cases "read_mirror T m = Inr lb")
  case True
  then show ?thesis by (simp add: reconcile_latest_block_def assms(1))
next
  case False
  obtain mirrored where "(case read_mirror T m of
      Inr lb \<Rightarrow> Inr (Some lb) | Inl e \<Rightarrow> if caught_by_reconcile e then Inr None else Inl e) = Inr mirrored"
    "mirrored \<noteq> Some lb"
    using assms(2) False by (cases "read_mirror T m") (auto simp: mirror_readable_def)
  then show ?thesis
    by (simp add: reconcile_latest_block_def assms(1) try_write_eq read_mirror_def)
qed

text \<open>What a read leaves of the mirror: the file itself, or the default block in place of a missing one.\<close>

definition mirror_kept :: "mirror_file \<Rightarrow> mirror_file \<Rightarrow> bool" where
  "mirror_kept m m' \<longleftrightarrow> m' = m \<or> m = None \<and> m' = Some (Inr (latest_to_py LATEST_BLOCK_DEFAULT))"

lemma mirror_kept_refl [simp]: "mirror_kept m m"
  by (simp add: mirror_kept_def)

lemma mirror_kept_trans: "mirror_kept m m1 \<Longrightarrow> mirror_kept m1 m2 \<Longrightarrow> mirror_kept m m2"
  by (auto simp: mirror_kept_def)

lemma create_latest_block_eq:
  "create_latest_block_json_if_not_exists T io_ok m =
     (if m \<noteq> None then Inr m else if io_ok then Inr (Some (Inr (latest_to_py LATEST_BLOCK_DEFAULT))) else Inl (OtherError ''OSError''))"
  by (simp add: create_latest_block_json_if_not_exists_def write_latest_block_json_def)

lemma load_retries_present: "load_retries T io_ok n le (Some v) = Inr (lb, m') \<Longrightarrow> m' = Some v"
  by (induction n arbitrary: le) (auto split: sum.splits exc.splits option.splits elim!: rbind_InrE)

lemma load_latest_block_mirror:
  assumes "load_latest_block T io_ok m = Inr (lb, m')"
  shows "m' = (case m of None \<Rightarrow> Some (Inr (latest_to_py LATEST_BLOCK_DEFAULT)) | Some _ \<Rightarrow> m) \<and> mirror_kept m m'"
  using assms
  by (cases m) (auto simp: load_latest_block_def create_latest_block_eq mirror_kept_def dest!: load_retries_present split: if_splits)

text \<open>A read that raises has created nothing: the file was there, or could not be written.\<close>

lemma load_latest_block_raises:
  "load_latest_block T io_ok m = Inl e \<Longrightarrow> m \<noteq> None \<or> \<not> io_ok"
  by (auto simp: load_latest_block_def create_latest_block_eq LATEST_BLOCK_READ_RETRIES_def numeral_eq_Suc)

lemma get_latest_block_mirror:
  "get_latest_block_hash T io_ok m = Inr (h, m') \<Longrightarrow> mirror_kept m m'"
  "get_latest_block_height T io_ok m = Inr (n, m') \<Longrightarrow> mirror_kept m m'"
  "get_latest_block_nanos T io_ok m = Inr (n, m') \<Longrightarrow> mirror_kept m m'"
  by (auto simp: get_latest_block_hash_def get_latest_block_height_def get_latest_block_nanos_def
      dest!: load_latest_block_mirror elim!: rbind_InrE)

section \<open>Properties\<close>

text \<open>The commit marker is exact and atomic: staging it changes nothing that a restart would
  read, and once the database has applied the pending writes a restart reads exactly the staged
  app hash, height and time.\<close>

theorem commit_marker_durable:
  assumes "driver_laws D" and "stage_latest_block T D app_hash height nanos d = Inr (lb, d1)"
  shows "get_committed_latest_block T D d1 = get_committed_latest_block T D d \<and>
    get_committed_latest_block T D (d_hard_apply D n d1) =
      Inr \<lparr>lb_hash = hexlify app_hash, lb_height = height, lb_nanos = nanos\<rparr>"
proof -
  let ?lb = "\<lparr>lb_hash = hexlify app_hash, lb_height = height, lb_nanos = nanos\<rparr>"
  from assms have d1: "d1 = d_set D LATEST_BLOCK_KEY (latest_to_py ?lb) d"
    by (auto simp: stage_latest_block_eq)
  have "get_committed_latest_block T D d1 = get_committed_latest_block T D d"
    by (rule committed_cong) (simp add: d1 driver_simps [OF assms(1)])
  moreover have "d_value_from_disk D (d_hard_apply D n d1) LATEST_BLOCK_KEY = latest_to_py ?lb"
    by (simp add: d1 driver_simps [OF assms(1)] get_set [OF assms(1)])
  then have "get_committed_latest_block T D (d_hard_apply D n d1) = Inr ?lb" by (rule committed_of_marker)
  ultimately show ?thesis by (rule conjI)
qed

definition sample_text :: text_env where
  "sample_text = \<lparr>te_str = (\<lambda>_. []), te_int_of_text = (\<lambda>_. Inl (ValueError ''int''))\<rparr>"

theorem commit_marker_durable_witness:
  "get_committed_latest_block sample_text mem_driver
      (d_hard_apply mem_driver ''9'' (snd (projr (stage_latest_block sample_text mem_driver ''ab'' 7 9 (mem_driver_start 0))))) =
    Inr \<lparr>lb_hash = hexlify ''ab'', lb_height = 7, lb_nanos = 9\<rparr>"
proof -
  let ?r = "stage_latest_block sample_text mem_driver ''ab'' 7 9 (mem_driver_start 0)"
  have "?r = Inr (fst (projr ?r), snd (projr ?r))" by (simp add: stage_latest_block_eq [OF mem_driver_laws])
  from commit_marker_durable [OF mem_driver_laws this, of "''9''"] show ?thesis by blast
qed

text \<open>Reconciliation always answers with the committed block, whatever the JSON mirror holds as
  long as reading it fails in a way the code catches or gives an object, and when the file can be
  written the mirror agrees with the database afterwards.\<close>

theorem reconcile_repairs_mirror:
  assumes "get_committed_latest_block T D d = Inr lb" and "mirror_readable T m"
  shows "\<exists>m'. reconcile_latest_block T io_ok D d m = Inr (lb, m') \<and> (io_ok \<longrightarrow> read_mirror T m' = Inr lb)"
  using assms by (rule reconcile_eq)

theorem reconcile_repairs_mirror_witness:
  "\<exists>m'. reconcile_latest_block sample_text True mem_driver (mem_driver_start 0) (Some (Inl (ValueError ''json''))) =
      Inr (LATEST_BLOCK_DEFAULT, m') \<and> (True \<longrightarrow> read_mirror sample_text m' = Inr LATEST_BLOCK_DEFAULT)"
  by (rule reconcile_repairs_mirror) code_simp+

text \<open>A mirror file that holds valid JSON other than an object is not repaired: reconciliation
  fails with an attribute error, so the file outside the database can stop the node from
  answering Info.\<close>

theorem reconcile_fails_on_non_object:
  "reconcile_latest_block T io_ok mem_driver (mem_driver_start 0) (Some (Inr (PList []))) =
     Inl (OtherError ''AttributeError'')"
proof -
  have "get_committed_latest_block T mem_driver (mem_driver_start 0) = Inr LATEST_BLOCK_DEFAULT"
    by (simp add: get_committed_latest_block_def load_committed_latest_block_def mem_driver_def mem_driver_start_def
        mem_lookup_def nonce_key_def NONCE_FILENAME_def LATEST_BLOCK_KEY_def Let_def INDEX_SEPARATOR_def)
  then show ?thesis
    by (simp add: reconcile_latest_block_def read_mirror_def normalize_latest_block_def caught_by_reconcile_def)
qed

end
