(* ===== verification/Rewards.thy ===== *)
theory Rewards
  imports Latest_Block Encoding
begin

text \<open>
  Fee rewards (\<^verbatim>\<open>src/src/xian/rewards.py\<close>): the fee of a transaction is split between the
  foundation, the developers of the contracts it ran and the validators, and a validator's
  part between its operator and its delegators.  The arithmetic of \<^verbatim>\<open>decimal.Decimal\<close> under
  the runtime's context and of contract decimals is third-party: values are rationals and the
  operations, with whatever rounding they have, are the fields of \<open>reward_env\<close>.  A value
  that is not a finite number does not parse.
\<close>

record reward_env =
  re_parse :: "string \<Rightarrow> rat res"
  re_add :: "rat \<Rightarrow> rat \<Rightarrow> rat"
  re_sub :: "rat \<Rightarrow> rat \<Rightarrow> rat"
  re_mul :: "rat \<Rightarrow> rat \<Rightarrow> rat"
  re_div :: "rat \<Rightarrow> rat \<Rightarrow> rat"
  re_round :: "rat \<Rightarrow> rat"
  re_cd :: "rat \<Rightarrow> rat res"
  re_cd_add :: "rat \<Rightarrow> rat \<Rightarrow> rat"
  re_cd_div :: "rat \<Rightarrow> pyval \<Rightarrow> rat res"
  re_str :: "pyval \<Rightarrow> string"
  re_value :: "rat \<Rightarrow> pyval"
  re_credit :: "pyval \<Rightarrow> rat \<Rightarrow> pyval res"

section \<open>Reading the validator contract\<close>

definition plain_decimal :: "reward_env \<Rightarrow> pyval \<Rightarrow> rat res" where
  "plain_decimal E v =
     (case v of PDec d \<Rightarrow> Inr (dec_value d) | PInt i \<Rightarrow> Inr (of_int i) | PStr s \<Rightarrow> re_parse E s
      | PFloat s \<Rightarrow> re_parse E s | _ \<Rightarrow> Inl (OtherError ''InvalidOperation''))"

definition as_decimal :: "reward_env \<Rightarrow> pyval \<Rightarrow> rat res" where
  "as_decimal E v = (if is_dict v then rbind (dindex v ''__fixed__'') (plain_decimal E) else plain_decimal E v)"

definition calculate_participant_reward :: "reward_env \<Rightarrow> pyval \<Rightarrow> int \<Rightarrow> int \<Rightarrow> rat res" where
  "calculate_participant_reward E ratio participants total_chi =
     (let participants = (if participants \<noteq> 0 then participants else 1) in
      re_cd E (case as_decimal E ratio of
                 Inr r \<Rightarrow> re_round E (re_mul E (re_div E r (of_int participants)) (of_int total_chi))
               | Inl _ \<Rightarrow> 0))"

definition get_validator_power :: "reward_env \<Rightarrow> 'd driver \<Rightarrow> 'd \<Rightarrow> pyval \<Rightarrow> rat res" where
  "get_validator_power E D d validator =
     rbind (d_get_var D d ''validators'' ''powers'' [validator]) (\<lambda>p.
     if p = PNone then Inr 1
     else rbind (as_decimal E p) (\<lambda>n. Inr (if n \<le> 0 then 1 else n)))"

definition get_validator_reward_key :: "'d driver \<Rightarrow> 'd \<Rightarrow> pyval \<Rightarrow> pyval res" where
  "get_validator_reward_key D d validator =
     rbind (d_get_var D d ''validators'' ''reward_keys'' [validator]) (\<lambda>k.
     Inr (if k = PNone \<or> k = PStr [] then validator else k))"

definition get_validator_commission_bps :: "reward_env \<Rightarrow> 'd driver \<Rightarrow> 'd \<Rightarrow> pyval \<Rightarrow> rat res" where
  "get_validator_commission_bps E D d validator =
     rbind (d_get_var D d ''validators'' ''commission_bps'' [validator]) (\<lambda>c.
     if c = PNone then Inr 0
     else rbind (as_decimal E c) (\<lambda>n. Inr (if n < 0 then 0 else if n > 10000 then 10000 else n)))"

definition nonnegative_or_zero :: "reward_env \<Rightarrow> pyval \<Rightarrow> rat res" where
  "nonnegative_or_zero E v =
     (if v = PNone then Inr 0 else rbind (as_decimal E v) (\<lambda>n. Inr (if n < 0 then 0 else n)))"

definition get_validator_self_bond :: "reward_env \<Rightarrow> 'd driver \<Rightarrow> 'd \<Rightarrow> pyval \<Rightarrow> rat res" where
  "get_validator_self_bond E D d validator =
     rbind (d_get_var D d ''validators'' ''self_bond'' [validator]) (nonnegative_or_zero E)"

definition get_validator_delegators :: "'d driver \<Rightarrow> 'd \<Rightarrow> pyval \<Rightarrow> pyval list res" where
  "get_validator_delegators D d validator =
     rbind (d_get_var D d ''validators'' ''delegator_lists'' [validator]) (\<lambda>v.
     if \<not> truthy v then Inr [] else iter_list v)"

definition get_validator_delegation :: "reward_env \<Rightarrow> 'd driver \<Rightarrow> 'd \<Rightarrow> pyval \<Rightarrow> pyval \<Rightarrow> rat res" where
  "get_validator_delegation E D d delegator validator =
     rbind (d_get_var D d ''validators'' ''delegations'' [delegator, validator]) (nonnegative_or_zero E)"

definition get_delegator_reward_key :: "'d driver \<Rightarrow> 'd \<Rightarrow> pyval \<Rightarrow> pyval \<Rightarrow> pyval res" where
  "get_delegator_reward_key D d delegator validator =
     rbind (d_get_var D d ''validators'' ''delegator_reward_keys'' [delegator, validator]) (\<lambda>k.
     Inr (if k = PNone \<or> k = PStr [] then delegator else k))"

section \<open>Amounts, records and shares\<close>

type_synonym amounts = "(pyval, rat) dict"

record reward_record =
  rr_type :: string
  rr_recipient :: pyval
  rr_source :: pyval
  rr_validator :: "pyval option"
  rr_delegator :: "pyval option"
  rr_value :: rat

definition key_ok :: "pyval \<Rightarrow> bool" where
  "key_ok k = (case k of PList _ \<Rightarrow> False | PDict _ \<Rightarrow> False | _ \<Rightarrow> True)"

text \<open>\<^verbatim>\<open>mapping[key] += amount\<close> on a mapping whose default is the contract decimal zero.\<close>

definition add_amount :: "reward_env \<Rightarrow> pyval \<Rightarrow> rat \<Rightarrow> amounts \<Rightarrow> amounts res" where
  "add_amount E k a m =
     (if \<not> key_ok k then Inl (TypeError ''unhashable type'')
      else Inr (AList.update k (re_cd_add E (case map_of m k of Some x \<Rightarrow> x | None \<Rightarrow> 0) a) m))"

text \<open>
  Every weight but the last takes its rounded part of \<open>base\<close>, the last one what is left
  of \<open>amount\<close>.
\<close>

fun shares :: "reward_env \<Rightarrow> rat \<Rightarrow> rat \<Rightarrow> rat \<Rightarrow> rat \<Rightarrow> ('a \<times> rat) list \<Rightarrow> ('a \<times> rat) list" where
  "shares E base weight amount allocated [] = []"
| "shares E base weight amount allocated [(x, w)] = [(x, re_sub E amount allocated)]"
| "shares E base weight amount allocated ((x, w) # y # rest) =
     (let share = re_div E (re_mul E base w) weight
      in (x, share) # shares E base weight amount (re_add E allocated share) (y # rest))"

definition weight_sum :: "reward_env \<Rightarrow> ('a \<times> rat) list \<Rightarrow> rat" where
  "weight_sum E ws = fold (\<lambda>(_, w) t. re_add E t w) ws 0"

section \<open>One validator\<close>

fun delegator_weights :: "reward_env \<Rightarrow> 'd driver \<Rightarrow> 'd \<Rightarrow> pyval \<Rightarrow> pyval list \<Rightarrow> ((pyval \<times> pyval) \<times> rat) list res" where
  "delegator_weights E D d validator [] = Inr []"
| "delegator_weights E D d validator (delegator # rest) =
     rbind (get_validator_delegation E D d delegator validator) (\<lambda>delegation.
     if delegation \<le> 0 then delegator_weights E D d validator rest
     else rbind (get_delegator_reward_key D d delegator validator) (\<lambda>reward_key.
          rbind (delegator_weights E D d validator rest) (\<lambda>ws.
          Inr (((delegator, reward_key), delegation) # ws))))"

definition operator_record :: "pyval \<Rightarrow> pyval \<Rightarrow> rat \<Rightarrow> reward_record" where
  "operator_record key validator amount =
     \<lparr>rr_type = ''validator_reward'', rr_recipient = key, rr_source = PNone, rr_validator = Some validator,
      rr_delegator = None, rr_value = amount\<rparr>"

definition delegator_record :: "pyval \<Rightarrow> pyval \<Rightarrow> pyval \<Rightarrow> rat \<Rightarrow> reward_record" where
  "delegator_record key validator delegator amount =
     \<lparr>rr_type = ''delegator_reward'', rr_recipient = key, rr_source = PNone, rr_validator = Some validator,
      rr_delegator = Some delegator, rr_value = amount\<rparr>"

type_synonym outputs = "amounts \<times> reward_record list"

definition pay :: "reward_env \<Rightarrow> pyval \<Rightarrow> (rat \<Rightarrow> reward_record) \<Rightarrow> rat \<Rightarrow> outputs \<Rightarrow> outputs res" where
  "pay E key mk share out =
     rbind (re_cd E share) (\<lambda>amount.
     rbind (add_amount E key amount (fst out)) (\<lambda>m. Inr (m, snd out @ [mk amount])))"

definition pay_delegator :: "reward_env \<Rightarrow> pyval \<Rightarrow> (pyval \<times> pyval) \<times> rat \<Rightarrow> outputs \<Rightarrow> outputs res" where
  "pay_delegator E validator =
     (\<lambda>((delegator, reward_key), share). pay E reward_key (delegator_record reward_key validator delegator) share)"

definition pay_stakers ::
    "reward_env \<Rightarrow> pyval \<Rightarrow> pyval \<Rightarrow> rat \<Rightarrow> rat \<Rightarrow> ((pyval \<times> pyval) \<times> rat) list \<Rightarrow> rat \<Rightarrow> outputs res" where
  "pay_stakers E validator operator_key bps self_bond ws amount =
     (let stake_base = re_add E self_bond (weight_sum E ws);
          commission = re_div E (re_mul E amount bps) 10000;
          remainder = re_sub E amount commission;
          operator_total = (if self_bond > 0
            then re_add E commission (re_div E (re_mul E remainder self_bond) stake_base) else commission)
      in rbind (if operator_total > 0
                then pay E operator_key (operator_record operator_key validator) operator_total ([], [])
                else Inr ([], []))
           (foldR (pay_delegator E validator) (shares E remainder stake_base amount operator_total ws)))"

definition build_single_validator_reward_outputs ::
    "reward_env \<Rightarrow> 'd driver \<Rightarrow> 'd \<Rightarrow> pyval \<Rightarrow> rat \<Rightarrow> outputs res" where
  "build_single_validator_reward_outputs E D d validator total_reward =
     rbind (get_validator_reward_key D d validator) (\<lambda>operator_key.
     rbind (get_validator_commission_bps E D d validator) (\<lambda>bps.
     rbind (get_validator_self_bond E D d validator) (\<lambda>self_bond.
     rbind (get_validator_delegators D d validator) (\<lambda>delegators.
     rbind (delegator_weights E D d validator delegators) (\<lambda>ws.
     if re_add E self_bond (weight_sum E ws) \<le> 0
     then rbind (re_cd E total_reward) (\<lambda>amount.
          if \<not> key_ok operator_key then Inl (TypeError ''unhashable type'')
          else Inr ([(operator_key, amount)], [operator_record operator_key validator amount]))
     else pay_stakers E validator operator_key bps self_bond ws total_reward)))))"

section \<open>The validator set and the developers\<close>

definition merge_outputs ::
    "reward_env \<Rightarrow> 'd driver \<Rightarrow> 'd \<Rightarrow> pyval \<times> rat \<Rightarrow> outputs \<Rightarrow> outputs res" where
  "merge_outputs E D d = (\<lambda>(validator, share) (m, recs).
     rbind (build_single_validator_reward_outputs E D d validator share) (\<lambda>(share_mapping, share_records).
     rbind (foldR (\<lambda>(k, a). add_amount E k a) share_mapping m) (\<lambda>m.
     Inr (m, recs @ share_records))))"

definition build_validator_set_reward_outputs ::
    "reward_env \<Rightarrow> 'd driver \<Rightarrow> 'd \<Rightarrow> int \<Rightarrow> pyval \<Rightarrow> pyval list \<Rightarrow> rat \<Rightarrow> outputs res" where
  "build_validator_set_reward_outputs E D d total_chi participant_ratio validators additional_chi =
     rbind (as_decimal E participant_ratio) (\<lambda>ratio.
     let validator_total = re_add E (re_mul E (of_int total_chi) ratio) additional_chi in
     rbind (mapR (\<lambda>v. rbind (get_validator_power E D d v) (\<lambda>p. Inr (v, p))) validators) (\<lambda>nodes.
     if nodes = [] then Inr ([], [])
     else foldR (merge_outputs E D d) (shares E validator_total (weight_sum E nodes) validator_total 0 nodes) ([], [])))"

definition developer_record :: "pyval \<Rightarrow> string \<Rightarrow> rat \<Rightarrow> reward_record" where
  "developer_record recipient source amount =
     \<lparr>rr_type = ''developer_reward'', rr_recipient = recipient, rr_source = PStr source, rr_validator = None,
      rr_delegator = None, rr_value = amount\<rparr>"

fun cost_weights :: "reward_env \<Rightarrow> (string, pyval) dict \<Rightarrow> (string \<times> rat) list res" where
  "cost_weights E [] = Inr []"
| "cost_weights E ((source, weight) # rest) =
     rbind (as_decimal E weight) (\<lambda>w.
     rbind (cost_weights E rest) (\<lambda>ws. Inr (if w > 0 then (source, w) # ws else ws)))"

definition pay_developer ::
    "reward_env \<Rightarrow> 'd driver \<Rightarrow> 'd \<Rightarrow> string \<times> rat \<Rightarrow> outputs \<times> rat \<Rightarrow> (outputs \<times> rat) res" where
  "pay_developer E D d = (\<lambda>(source, share) (out, redirected).
     rbind (d_get_var D d source ''__developer__'' []) (\<lambda>recipient.
     if \<not> truthy recipient \<or> recipient = PStr ''sys'' then Inr (out, re_add E redirected share)
     else rbind (pay E recipient (developer_record recipient source) share out) (\<lambda>out. Inr (out, redirected))))"

definition find_developer_and_reward ::
    "reward_env \<Rightarrow> 'd driver \<Rightarrow> 'd \<Rightarrow> int \<Rightarrow> string \<Rightarrow> pyval \<Rightarrow> (string, pyval) dict option \<Rightarrow> (outputs \<times> rat) res" where
  "find_developer_and_reward E D d total_chi contract developer_ratio contract_costs =
     rbind (as_decimal E developer_ratio) (\<lambda>ratio.
     let developer_total = re_mul E (of_int total_chi) ratio in
     rbind (case contract_costs of None \<Rightarrow> Inr [] | Some costs \<Rightarrow> cost_weights E (sort_key fst costs)) (\<lambda>ws.
     let weights = (if ws = [] then [(contract, 1)] else ws) in
     foldR (pay_developer E D d) (shares E developer_total (weight_sum E weights) developer_total 0 weights)
       (([], []), 0)))"

section \<open>The rewards of a transaction\<close>

definition reward_split :: "'d driver \<Rightarrow> 'd \<Rightarrow> pyval res" where
  "reward_split D d = d_get_var D d ''rewards'' ''S'' [PStr ''value'']"

text \<open>Unpacking the four ratios: too few or too many raise, and so does a value that is not a sequence.\<close>

definition unpack_ratios :: "pyval \<Rightarrow> (pyval \<times> pyval \<times> pyval \<times> pyval) res" where
  "unpack_ratios v =
     (case iter_list v of
        Inl _ \<Rightarrow> Inl (OtherError ''NotImplementedError'')
      | Inr [validator, burn, foundation, developer] \<Rightarrow> Inr (validator, burn, foundation, developer)
      | Inr _ \<Rightarrow> Inl (ValueError ''unpack''))"

record tx_rewards =
  tr_validators :: outputs
  tr_foundation :: rat
  tr_developers :: outputs

definition active_validators :: "'d driver \<Rightarrow> 'd \<Rightarrow> pyval list res" where
  "active_validators D d =
     rbind (d_get_var D d ''validators'' ''active_validators'' []) (\<lambda>v.
     if \<not> truthy v then Inr [] else iter_list v)"

text \<open>Both callers have checked that the split is set up.\<close>

definition calculate_tx_output_rewards ::
    "reward_env \<Rightarrow> 'd driver \<Rightarrow> 'd \<Rightarrow> int \<Rightarrow> string \<Rightarrow> (string, pyval) dict option \<Rightarrow> tx_rewards res" where
  "calculate_tx_output_rewards E D d total_chi contract contract_costs =
     rbind (reward_split D d) (\<lambda>split.
     if \<not> truthy split then Inl (ValueError ''not enough values to unpack'')
     else rbind (unpack_ratios split) (\<lambda>(validator_ratio, burn_ratio, foundation_ratio, developer_ratio).
     rbind (calculate_participant_reward E foundation_ratio 1 total_chi) (\<lambda>foundation.
     rbind (find_developer_and_reward E D d total_chi contract developer_ratio contract_costs) (\<lambda>(developers, redirected).
     rbind (active_validators D d) (\<lambda>validators.
     rbind (build_validator_set_reward_outputs E D d total_chi validator_ratio validators redirected) (\<lambda>vs.
     Inr \<lparr>tr_validators = vs, tr_foundation = foundation, tr_developers = developers\<rparr>))))))"

record reward_report =
  rp_validator :: amounts
  rp_delegator :: amounts
  rp_foundation :: amounts
  rp_developer :: amounts

definition empty_report :: reward_report where
  "empty_report = \<lparr>rp_validator = [], rp_delegator = [], rp_foundation = [], rp_developer = []\<rparr>"

definition reward_zero :: "pyval \<Rightarrow> bool" where
  "reward_zero v = (case v of PInt i \<Rightarrow> i = 0 | PBool b \<Rightarrow> \<not> b | PDec d \<Rightarrow> dec_coeff d = 0
     | PFloat s \<Rightarrow> s = ''0.0'' \<or> s = ''-0.0'' | _ \<Rightarrow> False)"

definition balance_key :: "reward_env \<Rightarrow> pyval \<Rightarrow> string" where
  "balance_key E recipient = ''currency.balances:'' @ re_str E recipient"

type_synonym deltas = "(string, rat) dict"

definition add_delta :: "reward_env \<Rightarrow> pyval \<Rightarrow> rat \<Rightarrow> deltas \<Rightarrow> deltas" where
  "add_delta E recipient a ds =
     (let k = balance_key E recipient
      in AList.update k (re_cd_add E (case map_of ds k of Some x \<Rightarrow> x | None \<Rightarrow> 0) a) ds)"

definition bump :: "reward_env \<Rightarrow> pyval \<Rightarrow> rat \<Rightarrow> amounts \<Rightarrow> amounts" where
  "bump E k a m = AList.update k (case map_of m k of None \<Rightarrow> a | Some x \<Rightarrow> re_cd_add E x a) m"

text \<open>An amount of chi in the currency: \<^verbatim>\<open>ContractingDecimal(str(amount / chi_rate))\<close>.\<close>

definition in_currency :: "reward_env \<Rightarrow> pyval \<Rightarrow> rat \<Rightarrow> rat res" where
  "in_currency E chi_rate a = rbind (re_cd_div E a chi_rate) (re_cd E)"

type_synonym tx_outputs = "reward_report \<times> deltas \<times> reward_record list"

definition report_foundation :: "reward_env \<Rightarrow> pyval \<Rightarrow> pyval \<Rightarrow> rat \<Rightarrow> tx_outputs res" where
  "report_foundation E chi_rate owner foundation =
     (if foundation = 0 then Inr (empty_report, [], [])
      else rbind (in_currency E chi_rate foundation) (\<lambda>a.
        if \<not> key_ok owner then Inl (TypeError ''unhashable type'')
        else Inr (empty_report\<lparr>rp_foundation := [(owner, a)]\<rparr>, add_delta E owner a [],
          [\<lparr>rr_type = ''foundation_reward'', rr_recipient = owner, rr_source = PNone, rr_validator = None,
            rr_delegator = None, rr_value = a\<rparr>])))"

definition report_validator :: "reward_env \<Rightarrow> pyval \<Rightarrow> reward_record \<Rightarrow> tx_outputs \<Rightarrow> tx_outputs res" where
  "report_validator E chi_rate r = (\<lambda>(rep, ds, recs).
     rbind (in_currency E chi_rate (rr_value r)) (\<lambda>a.
     Inr (if rr_type r = ''delegator_reward''
          then rep\<lparr>rp_delegator := bump E (rr_recipient r) a (rp_delegator rep)\<rparr>
          else rep\<lparr>rp_validator := bump E (rr_recipient r) a (rp_validator rep)\<rparr>,
          add_delta E (rr_recipient r) a ds, recs @ [r\<lparr>rr_source := PNone, rr_value := a\<rparr>])))"

definition report_developer :: "reward_env \<Rightarrow> pyval \<Rightarrow> pyval \<times> rat \<Rightarrow> tx_outputs \<Rightarrow> tx_outputs res" where
  "report_developer E chi_rate = (\<lambda>(developer, reward) (rep, ds, recs).
     rbind (in_currency E chi_rate reward) (\<lambda>a.
     Inr (rep\<lparr>rp_developer := bump E developer a (rp_developer rep)\<rparr>, add_delta E developer a ds, recs)))"

definition report_developer_record :: "reward_env \<Rightarrow> pyval \<Rightarrow> reward_record \<Rightarrow> tx_outputs \<Rightarrow> tx_outputs res" where
  "report_developer_record E chi_rate r = (\<lambda>(rep, ds, recs).
     rbind (in_currency E chi_rate (rr_value r)) (\<lambda>a. Inr (rep, ds, recs @ [r\<lparr>rr_value := a\<rparr>])))"

definition report_rewards :: "reward_env \<Rightarrow> pyval \<Rightarrow> pyval \<Rightarrow> tx_rewards \<Rightarrow> tx_outputs res" where
  "report_rewards E chi_rate owner t =
     rbind (report_foundation E chi_rate owner (tr_foundation t)) (\<lambda>out.
     rbind (foldR (report_validator E chi_rate) (snd (tr_validators t)) out) (\<lambda>out.
     rbind (foldR (report_developer E chi_rate) (fst (tr_developers t)) out) (\<lambda>out.
     foldR (report_developer_record E chi_rate) (snd (tr_developers t)) out)))"

definition build_tx_reward_outputs ::
    "reward_env \<Rightarrow> 'd driver \<Rightarrow> 'd \<Rightarrow> int \<Rightarrow> string \<Rightarrow> (string, pyval) dict option \<Rightarrow>
     (reward_report option \<times> deltas \<times> reward_record list) res" where
  "build_tx_reward_outputs E D d total_chi contract contract_costs =
     rbind (reward_split D d) (\<lambda>split.
     if \<not> truthy split \<or> total_chi \<le> 0 then Inr (None, [], [])
     else rbind (d_get_var D d ''chi_cost'' ''S'' [PStr ''value'']) (\<lambda>chi_rate.
     rbind (d_get_var D d ''foundation'' ''owner'' []) (\<lambda>owner.
     if chi_rate = PNone \<or> reward_zero chi_rate \<or> owner = PNone then Inr (None, [], [])
     else rbind (calculate_tx_output_rewards E D d total_chi contract contract_costs) (\<lambda>t.
     rbind (report_rewards E chi_rate owner t) (\<lambda>(rep, ds, recs).
     if rp_validator rep = [] \<and> rp_delegator rep = [] \<and> rp_foundation rep = [] \<and> rp_developer rep = []
     then Inr (None, [], recs) else Inr (Some rep, ds, recs))))))"

section \<open>Direct distribution\<close>

definition credit :: "reward_env \<Rightarrow> 'd driver \<Rightarrow> pyval \<Rightarrow> rat \<Rightarrow> 'd \<Rightarrow> 'd res" where
  "credit E D recipient amount d =
     (let k = balance_key E recipient in
      rbind (re_credit E (py_or (d_get D d k) (PInt 0)) amount) (\<lambda>balance. Inr (d_set D k balance d)))"

definition distribute_validator_rewards :: "reward_env \<Rightarrow> 'd driver \<Rightarrow> pyval \<Rightarrow> amounts \<Rightarrow> 'd \<Rightarrow> 'd res" where
  "distribute_validator_rewards E D chi_cost =
     foldR (\<lambda>(recipient, reward) d. rbind (re_cd_div E reward chi_cost) (\<lambda>a. credit E D recipient a d))"

definition distribute_foundation_reward :: "reward_env \<Rightarrow> 'd driver \<Rightarrow> rat \<Rightarrow> 'd \<Rightarrow> 'd res" where
  "distribute_foundation_reward E D reward d = credit E D (d_get D d ''foundation.owner'') reward d"

definition distribute_developer_rewards :: "reward_env \<Rightarrow> 'd driver \<Rightarrow> pyval \<Rightarrow> amounts \<Rightarrow> 'd \<Rightarrow> 'd res" where
  "distribute_developer_rewards E D chi_cost =
     foldR (\<lambda>(recipient, amount) d.
       rbind (re_cd_div E amount chi_cost) (\<lambda>a. credit E D recipient (re_round E a) d))"

definition distribute_rewards :: "reward_env \<Rightarrow> 'd driver \<Rightarrow> int \<Rightarrow> string \<Rightarrow> 'd \<Rightarrow> 'd res" where
  "distribute_rewards E D amount contract d =
     rbind (reward_split D d) (\<lambda>split.
     if \<not> truthy split \<or> amount \<le> 0 then Inr d
     else rbind (calculate_tx_output_rewards E D d amount contract None) (\<lambda>t.
     let chi_cost = d_get D d ''chi_cost.S:value'' in
     rbind (re_cd_div E (tr_foundation t) chi_cost) (\<lambda>foundation.
     rbind (distribute_validator_rewards E D chi_cost (fst (tr_validators t)) d) (\<lambda>d.
     rbind (distribute_foundation_reward E D foundation d) (\<lambda>d.
     distribute_developer_rewards E D chi_cost (fst (tr_developers t)) d)))))"

section \<open>Laws of the arithmetic\<close>

text \<open>
  The runtime's context rounds towards minus infinity.  \<open>F\<close> is the set of amounts it
  represents; sums, differences and products of amounts are exact, quotients are rounded down
  into \<open>F\<close>, and contract decimals never exceed what they are made from.
\<close>

definition floor_division :: "reward_env \<Rightarrow> rat set \<Rightarrow> bool" where
  "floor_division E F \<longleftrightarrow>
     (\<forall>a b. 0 < b \<longrightarrow> re_div E a b \<in> F \<and> re_div E a b \<le> a / b) \<and>
     (\<forall>a a' b. 0 < b \<and> a \<le> a' \<longrightarrow> re_div E a b \<le> re_div E a' b) \<and>
     (\<forall>a b. a \<in> F \<and> 0 < b \<longrightarrow> re_div E (a * b) b = a)"

definition reward_laws :: "reward_env \<Rightarrow> rat set \<Rightarrow> bool" where
  "reward_laws E F \<longleftrightarrow>
     re_add E = (+) \<and> re_sub E = (-) \<and> re_mul E = (*) \<and> re_cd_add E = (+) \<and> floor_division E F \<and>
     0 \<in> F \<and> (\<forall>a b. a \<in> F \<and> b \<in> F \<longrightarrow> a + b \<in> F \<and> a - b \<in> F) \<and> (\<forall>x y. re_cd E x = Inr y \<longrightarrow> y \<le> x)"

lemma reward_lawsD:
  assumes "reward_laws E F"
  shows "re_add E = (+)" "re_sub E = (-)" "re_mul E = (*)" "re_cd_add E = (+)" "0 \<in> F"
    "a \<in> F \<Longrightarrow> b \<in> F \<Longrightarrow> a + b \<in> F" "a \<in> F \<Longrightarrow> b \<in> F \<Longrightarrow> a - b \<in> F"
    "re_cd E x = Inr y \<Longrightarrow> y \<le> x"
    "0 < b \<Longrightarrow> re_div E a b \<in> F" "0 < b \<Longrightarrow> re_div E a b \<le> a / b"
    "0 < b \<Longrightarrow> a \<le> a' \<Longrightarrow> re_div E a b \<le> re_div E a' b"
    "0 < b \<Longrightarrow> a \<in> F \<Longrightarrow> re_div E (a * b) b = a"
  using assms unfolding reward_laws_def floor_division_def by blast+

lemma div_nonneg:
  assumes "reward_laws E F" "0 < b" "0 \<le> a"
  shows "0 \<le> re_div E a b"
proof -
  have "re_div E (0 * b) b \<le> re_div E a b"
    using assms by (intro reward_lawsD(11) [OF assms(1)]) simp_all
  with reward_lawsD(12) [OF assms(1,2) reward_lawsD(5) [OF assms(1)]] show ?thesis by simp
qed

text \<open>Loops: a measure that every step raises by at most \<open>g x\<close>, and an invariant.\<close>

lemma foldR_measure:
  fixes \<mu> :: "'s \<Rightarrow> rat"
  assumes "\<And>x s s'. x \<in> set xs \<Longrightarrow> f x s = Inr s' \<Longrightarrow> \<mu> s' \<le> \<mu> s + g x" "foldR f xs s = Inr s'"
  shows "\<mu> s' \<le> \<mu> s + sum_list (map g xs)"
  using assms
proof (induction xs arbitrary: s)
  case (Cons x xs)
  obtain s1 where s1: "f x s = Inr s1" "foldR f xs s1 = Inr s'"
    using Cons.prems(2) by (auto elim: rbind_InrE)
  have "\<mu> s' \<le> \<mu> s1 + sum_list (map g xs)"
    using s1(2) by (rule Cons.IH [rotated]) (simp add: Cons.prems(1))
  moreover have "\<mu> s1 \<le> \<mu> s + g x" using s1(1) by (intro Cons.prems(1)) simp_all
  ultimately show ?case by simp
qed simp

lemma foldR_invariant:
  assumes "P s" "\<And>x s s'. x \<in> set xs \<Longrightarrow> P s \<Longrightarrow> f x s = Inr s' \<Longrightarrow> P s'" "foldR f xs s = Inr s'"
  shows "P s'"
  using assms
proof (induction xs arbitrary: s)
  case (Cons x xs)
  obtain s1 where s1: "f x s = Inr s1" "foldR f xs s1 = Inr s'"
    using Cons.prems(3) by (auto elim: rbind_InrE)
  have "P s1" by (rule Cons.prems(2) [OF _ Cons.prems(1) s1(1)]) simp
  moreover have "P s2" if "x' \<in> set xs" "P s3" "f x' s3 = Inr s2" for x' s3 s2
    using that by (intro Cons.prems(2) [of x' s3 s2]) simp_all
  ultimately show ?case using s1(2) by (intro Cons.IH [of s1])
qed simp

section \<open>Shares\<close>

abbreviation (input) amount_sum :: "('a \<times> rat) list \<Rightarrow> rat" where
  "amount_sum m \<equiv> sum_list (map snd m)"

abbreviation (input) record_sum :: "reward_record list \<Rightarrow> rat" where
  "record_sum rs \<equiv> sum_list (map rr_value rs)"

lemma weight_sum_eq: "reward_laws E F \<Longrightarrow> weight_sum E ws = amount_sum ws"
proof -
  assume "reward_laws E F"
  then have "fold (\<lambda>(_, w) t. re_add E t w) ws s = s + amount_sum ws" for s
    by (induction ws arbitrary: s) (auto simp: reward_lawsD(1))
  then show ?thesis by (simp add: weight_sum_def)
qed

lemma positive_sum: "\<forall>w \<in> snd ` set ws. 0 < w \<Longrightarrow> ws \<noteq> [] \<Longrightarrow> 0 < amount_sum ws"
proof (induction ws)
  case (Cons x ws)
  then show ?case by (cases "ws = []") auto
qed simp

lemma shares_sum:
  assumes "reward_laws E F"
  shows "ws \<noteq> [] \<Longrightarrow> amount_sum (shares E base weight amount allocated ws) = amount - allocated"
proof (induction ws arbitrary: allocated rule: induct_list012)
  case (2 x)
  then show ?case by (cases x) (simp add: reward_lawsD(2) [OF assms])
next
  case (3 x y zs)
  then show ?case by (cases x) (simp add: Let_def reward_lawsD(1) [OF assms])
qed simp

lemma shares_bounds:
  assumes laws: "reward_laws E F" and T: "0 \<le> T" "T \<in> F" and pos: "0 < weight"
  shows "allocated \<in> F \<Longrightarrow> allocated \<le> T * u / weight \<Longrightarrow> u + amount_sum ws = weight \<Longrightarrow>
    \<forall>w \<in> snd ` set ws. 0 < w \<Longrightarrow> (x, share) \<in> set (shares E T weight T allocated ws) \<Longrightarrow> 0 \<le> share \<and> share \<in> F"
proof (induction ws arbitrary: allocated u rule: induct_list012)
  case (2 z)
  have "T * u / weight \<le> T * weight / weight"
    using 2 T(1) pos by (intro divide_right_mono mult_left_mono) auto
  then show ?case
    using 2 T pos by (cases z) (auto simp: reward_lawsD(2) [OF laws] intro: reward_lawsD(7) [OF laws])
next
  case (3 z y zs)
  obtain k w where z: "z = (k, w)" by (cases z)
  let ?share = "re_div E (T * w) weight"
  note l = reward_lawsD [OF laws]
  have w: "0 < w" using "3.prems" by (simp add: z)
  have share: "?share \<in> F" "?share \<le> T * w / weight" "0 \<le> ?share"
    using T(1) pos w by (auto intro: l div_nonneg [OF laws])
  have "allocated + ?share \<in> F" using share(1) "3.prems"(1) by (rule l(6) [rotated])
  moreover have "allocated + ?share \<le> T * (u + w) / weight"
    using "3.prems"(2) share(2) by (simp add: ring_distribs add_divide_distrib)
  ultimately have "0 \<le> share \<and> share \<in> F"
    if "(x, share) \<in> set (shares E T weight T (allocated + ?share) (y # zs))"
    using that "3.IH"(2) [of "allocated + ?share" "u + w"] "3.prems" by (auto simp: z add.assoc)
  then show ?case
    using "3.prems"(5) share(1,3) by (auto simp: z Let_def l(1,3))
qed simp

section \<open>No step pays more than it was given\<close>

lemma update_sum:
  fixes m :: "('k \<times> rat) list"
  shows "amount_sum (AList.update k v m) = amount_sum m + v - (case map_of m k of Some x \<Rightarrow> x | None \<Rightarrow> 0)"
  by (induction m) auto

lemma add_amount_sum:
  "reward_laws E F \<Longrightarrow> add_amount E k a m = Inr m' \<Longrightarrow> amount_sum m' = amount_sum m + a"
  by (auto simp: add_amount_def update_sum reward_lawsD(4) split: if_splits)

lemma pay_bound:
  assumes "reward_laws E F" "pay E key mk share out = Inr out'" "\<And>a. rr_value (mk a) = a"
  shows "record_sum (snd out') \<le> record_sum (snd out) + share" "amount_sum (fst out') \<le> amount_sum (fst out) + share"
proof -
  obtain a m where a: "re_cd E share = Inr a" "add_amount E key a (fst out) = Inr m" "out' = (m, snd out @ [mk a])"
    using assms(2) by (auto simp: pay_def elim!: rbind_InrE)
  have "a \<le> share" using assms(1) a(1) by (rule reward_lawsD(8))
  then show "record_sum (snd out') \<le> record_sum (snd out) + share" "amount_sum (fst out') \<le> amount_sum (fst out) + share"
    using add_amount_sum [OF assms(1) a(2)] by (simp_all add: a(3) assms(3))
qed

lemma pay_delegators_bound:
  assumes "reward_laws E F" "foldR (pay_delegator E validator) ss out = Inr out'"
  shows "record_sum (snd out') \<le> record_sum (snd out) + amount_sum ss"
proof (rule foldR_measure [where \<mu> = "\<lambda>out. record_sum (snd out)" and f = "pay_delegator E validator", OF _ assms(2)])
  fix x s s'
  assume "pay_delegator E validator x s = Inr s'"
  then show "record_sum (snd s') \<le> record_sum (snd s) + snd x"
    by (cases x) (auto simp: pay_delegator_def delegator_record_def intro: pay_bound(1) [OF assms(1)])
qed

lemma pay_stakers_bound:
  assumes laws: "reward_laws E F" and amount: "0 \<le> amount" "amount \<in> F"
    and bps: "0 \<le> bps" "bps \<le> 10000" and bond: "0 \<le> bond" and stake: "0 < bond + amount_sum ws"
    and pay: "pay_stakers E validator key bps bond ws amount = Inr out"
  shows "record_sum (snd out) \<le> amount"
proof -
  note l = reward_lawsD [OF laws]
  define commission where "commission = re_div E (amount * bps) 10000"
  define rest where "rest = amount - commission"
  define own where "own = (if bond > 0 then commission + re_div E (rest * bond) (bond + amount_sum ws) else commission)"
  have cancel: "re_div E (amount * 10000) 10000 = amount" using amount(2) by (intro l(12)) simp_all
  have c: "0 \<le> commission" unfolding commission_def using amount bps by (intro div_nonneg [OF laws]) simp_all
  have "commission \<le> re_div E (amount * 10000) 10000"
    unfolding commission_def using amount(1) bps(2) by (intro l(11) mult_left_mono) simp_all
  then have rest: "0 \<le> rest" by (simp add: cancel rest_def)
  have restF: "rest \<in> F" unfolding rest_def using amount(2) by (intro l(7)) (simp_all add: commission_def l(9))
  have own: "0 \<le> own" unfolding own_def using c rest bond stake by (auto intro!: add_nonneg_nonneg div_nonneg [OF laws])
  obtain out1 where out1: "(if own > 0 then pay E key (operator_record key validator) own ([], []) else Inr ([], [])) = Inr out1"
    "foldR (pay_delegator E validator) (shares E rest (bond + amount_sum ws) amount own ws) out1 = Inr out"
    using pay unfolding pay_stakers_def Let_def l(1,2,3) weight_sum_eq [OF laws] own_def rest_def commission_def
    by (elim rbind_InrE) blast
  have "record_sum (snd out1) \<le> own"
    using out1(1) own pay_bound(1) [OF laws, of key "operator_record key validator" own "([], [])" out1]
    by (auto simp: operator_record_def split: if_splits)
  moreover have "record_sum (snd out) \<le> record_sum (snd out1) + amount_sum (shares E rest (bond + amount_sum ws) amount own ws)"
    using out1(2) by (rule pay_delegators_bound [OF laws])
  moreover have "own = amount" if "ws = []"
    using that bond stake restF by (simp add: own_def l(12) rest_def)
  ultimately show ?thesis
    using shares_sum [OF laws, of ws rest "bond + amount_sum ws" amount own] by (cases "ws = []") auto
qed

lemma single_validator_bound:
  assumes laws: "reward_laws E F" and amount: "0 \<le> amount" "amount \<in> F"
    and build: "build_single_validator_reward_outputs E D d validator amount = Inr out"
  shows "record_sum (snd out) \<le> amount"
proof -
  obtain key bps bond ds ws where *:
    "get_validator_commission_bps E D d validator = Inr bps" "get_validator_self_bond E D d validator = Inr bond"
    "delegator_weights E D d validator ds = Inr ws"
    "(if re_add E bond (weight_sum E ws) \<le> 0
      then rbind (re_cd E amount) (\<lambda>a. if \<not> key_ok key then Inl (TypeError ''unhashable type'')
             else Inr ([(key, a)], [operator_record key validator a]))
      else pay_stakers E validator key bps bond ws amount) = Inr out"
    using build unfolding build_single_validator_reward_outputs_def by (elim rbind_InrE) blast
  have bps: "0 \<le> bps" "bps \<le> 10000"
    using *(1) by (auto simp: get_validator_commission_bps_def split: if_splits elim!: rbind_InrE)
  have bond: "0 \<le> bond"
    using *(2) by (auto simp: get_validator_self_bond_def nonnegative_or_zero_def split: if_splits elim!: rbind_InrE)
  show ?thesis
  proof (cases "re_add E bond (weight_sum E ws) \<le> 0")
    case True
    then show ?thesis
      using *(4) reward_lawsD(8) [OF laws, of amount]
      by (auto simp: operator_record_def split: if_splits elim!: rbind_InrE)
  next
    case False
    then have "0 < bond + amount_sum ws" by (simp add: reward_lawsD(1) [OF laws] weight_sum_eq [OF laws])
    then show ?thesis
      using *(4) False by (intro pay_stakers_bound [OF laws amount bps bond]) simp_all
  qed
qed

lemma validator_power_positive: "get_validator_power E D d v = Inr p \<Longrightarrow> 0 < p"
  by (auto simp: get_validator_power_def split: if_splits elim!: rbind_InrE)

lemma validator_set_bound:
  assumes laws: "reward_laws E F" and ratio: "as_decimal E participant_ratio = Inr r"
    and total: "0 \<le> of_int t * r + extra" "of_int t * r + extra \<in> F"
    and build: "build_validator_set_reward_outputs E D d t participant_ratio validators extra = Inr out"
  shows "record_sum (snd out) \<le> of_int t * r + extra"
proof -
  let ?T = "of_int t * r + extra"
  obtain nodes where nodes: "mapR (\<lambda>v. rbind (get_validator_power E D d v) (\<lambda>p. Inr (v, p))) validators = Inr nodes"
    "(if nodes = [] then Inr ([], [])
      else foldR (merge_outputs E D d) (shares E ?T (weight_sum E nodes) ?T 0 nodes) ([], [])) = Inr out"
    using build ratio
    by (auto simp: build_validator_set_reward_outputs_def Let_def reward_lawsD(1,3) [OF laws] simp del: foldR.simps
        elim!: rbind_InrE)
  have "0 < snd node" if "node \<in> set nodes" for node
    using mapR_in_set [OF nodes(1) that] by (auto elim!: rbind_InrE dest: validator_power_positive)
  then have pos: "\<forall>w \<in> snd ` set nodes. 0 < w" by blast
  show ?thesis
  proof (cases "nodes = []")
    case True
    then show ?thesis using nodes(2) total(1) by auto
  next
    case False
    have W: "0 < amount_sum nodes" using pos False by (rule positive_sum)
    let ?S = "shares E ?T (amount_sum nodes) ?T 0 nodes"
    have "record_sum (snd out) \<le> record_sum (snd (([], []) :: outputs)) + sum_list (map snd ?S)"
    proof (rule foldR_measure [where \<mu> = "\<lambda>out. record_sum (snd out)" and f = "merge_outputs E D d"])
      show "foldR (merge_outputs E D d) ?S ([], []) = Inr out"
        using nodes(2) False by (simp add: weight_sum_eq [OF laws])
      fix x s s'
      assume x: "x \<in> set ?S" and step: "merge_outputs E D d x s = Inr s'"
      have "0 \<le> snd x \<and> snd x \<in> F"
        using x shares_bounds [OF laws total W, of 0 0 nodes "fst x" "snd x"] pos reward_lawsD(5) [OF laws] by simp
      with step show "record_sum (snd s') \<le> record_sum (snd s) + snd x"
        by (auto simp: merge_outputs_def split: prod.splits elim!: rbind_InrE dest!: single_validator_bound [OF laws])
    qed
    also have "\<dots> = ?T" using shares_sum [OF laws False] by simp
    finally show ?thesis .
  qed
qed

lemma cost_weights_positive:
  "cost_weights E costs = Inr ws \<Longrightarrow> (x, w) \<in> set ws \<Longrightarrow> 0 < w"
  by (induction costs arbitrary: ws) (auto split: if_splits elim!: rbind_InrE)

lemma developer_bound:
  assumes laws: "reward_laws E F" and ratio: "as_decimal E developer_ratio = Inr r"
    and total: "0 \<le> of_int t * r" "of_int t * r \<in> F"
    and find: "find_developer_and_reward E D d t contract developer_ratio costs = Inr (out, redirected)"
  shows "amount_sum (fst out) + redirected \<le> of_int t * r" "0 \<le> redirected" "redirected \<in> F"
proof -
  let ?T = "of_int t * r"
  note l = reward_lawsD [OF laws]
  obtain ws where ws: "(case costs of None \<Rightarrow> Inr [] | Some cs \<Rightarrow> cost_weights E (sort_key fst cs)) = Inr ws"
    "foldR (pay_developer E D d) (shares E ?T (weight_sum E (if ws = [] then [(contract, 1)] else ws)) ?T 0
       (if ws = [] then [(contract, 1)] else ws)) (([], []), 0) = Inr (out, redirected)"
    using find ratio unfolding find_developer_and_reward_def Let_def l(3) by (auto simp del: foldR.simps elim!: rbind_InrE)
  define weights where "weights = (if ws = [] then [(contract, 1 :: rat)] else ws)"
  have pos: "\<forall>w \<in> snd ` set weights. 0 < w"
    using ws(1) by (auto simp: weights_def split: option.splits dest: cost_weights_positive)
  have ne: "weights \<noteq> []" by (simp add: weights_def)
  have W: "0 < amount_sum weights" using pos ne by (rule positive_sum)
  let ?S = "shares E ?T (amount_sum weights) ?T 0 weights"
  have loop: "foldR (pay_developer E D d) ?S (([], []), 0) = Inr (out, redirected)"
    using ws(2) by (simp only: weights_def [symmetric] weight_sum_eq [OF laws])
  have share: "0 \<le> snd x \<and> snd x \<in> F" if "x \<in> set ?S" for x
    using that shares_bounds [OF laws total W, of 0 0 weights "fst x" "snd x"] pos l(5) by simp
  have "amount_sum (fst (fst (out, redirected))) + snd (out, redirected) \<le>
      amount_sum (fst (fst (([], []) :: outputs, 0 :: rat))) + snd (([], []) :: outputs, 0 :: rat) + sum_list (map snd ?S)"
  proof (rule foldR_measure [where \<mu> = "\<lambda>st. amount_sum (fst (fst st)) + snd st", OF _ loop])
    fix x s s'
    assume "pay_developer E D d x s = Inr s'"
    then show "amount_sum (fst (fst s')) + snd s' \<le> amount_sum (fst (fst s)) + snd s + snd x"
      by (auto simp: pay_developer_def developer_record_def l(1) split: prod.splits if_splits elim!: rbind_InrE
          dest!: pay_bound(2) [OF laws])
  qed
  then show "amount_sum (fst out) + redirected \<le> ?T" using shares_sum [OF laws ne] by simp
  have "0 \<le> snd (out, redirected) \<and> snd (out, redirected) \<in> F"
  proof (rule foldR_invariant [where P = "\<lambda>st. 0 \<le> snd st \<and> snd st \<in> F", OF _ _ loop])
    show "0 \<le> snd (([], []) :: outputs, 0 :: rat) \<and> snd (([], []) :: outputs, 0) \<in> F" using l(5) by simp
    fix x and s s' :: "outputs \<times> rat"
    assume "x \<in> set ?S" "0 \<le> snd s \<and> snd s \<in> F" "pay_developer E D d x s = Inr s'"
    then show "0 \<le> snd s' \<and> snd s' \<in> F"
      using share [of x] by (auto simp: pay_developer_def l(1) split: prod.splits if_splits elim!: rbind_InrE intro!: l(6))
  qed
  then show "0 \<le> redirected" "redirected \<in> F" by simp_all
qed

section \<open>Currency\<close>

abbreviation (input) delta_sum :: "tx_outputs \<Rightarrow> rat" where
  "delta_sum out \<equiv> amount_sum (fst (snd out))"

text \<open>Conversion at the rate \<open>c\<close> does not round up either.\<close>

definition rate_laws :: "reward_env \<Rightarrow> pyval \<Rightarrow> rat \<Rightarrow> bool" where
  "rate_laws E chi_rate c \<longleftrightarrow> 0 < c \<and> (\<forall>x y. re_cd_div E x chi_rate = Inr y \<longrightarrow> y \<le> x / c)"

lemma in_currency_le:
  "reward_laws E F \<Longrightarrow> rate_laws E chi_rate c \<Longrightarrow> in_currency E chi_rate x = Inr y \<Longrightarrow> y \<le> x / c"
  by (auto simp: in_currency_def rate_laws_def elim!: rbind_InrE intro: order_trans reward_lawsD(8))

lemma add_delta_sum: "reward_laws E F \<Longrightarrow> amount_sum (add_delta E k a ds) = amount_sum ds + a"
  by (simp add: add_delta_def Let_def update_sum reward_lawsD(4))

lemma sum_list_divide: "sum_list (map (\<lambda>x. f x / c) xs) = sum_list (map f xs) / (c :: rat)"
  by (induction xs) (simp_all add: add_divide_distrib)

lemma report_rewards_bound:
  assumes laws: "reward_laws E F" "rate_laws E chi_rate c" and report: "report_rewards E chi_rate owner t = Inr out"
  shows "delta_sum out \<le> (tr_foundation t + record_sum (snd (tr_validators t)) + amount_sum (fst (tr_developers t))) / c"
proof -
  note le = in_currency_le [OF laws] and ds = add_delta_sum [OF laws(1)]
  obtain o1 o2 o3 where o: "report_foundation E chi_rate owner (tr_foundation t) = Inr o1"
    "foldR (report_validator E chi_rate) (snd (tr_validators t)) o1 = Inr o2"
    "foldR (report_developer E chi_rate) (fst (tr_developers t)) o2 = Inr o3"
    "foldR (report_developer_record E chi_rate) (snd (tr_developers t)) o3 = Inr out"
    using report unfolding report_rewards_def by (elim rbind_InrE) blast
  have "delta_sum o1 \<le> tr_foundation t / c"
    using o(1) by (auto simp: report_foundation_def ds split: if_splits elim!: rbind_InrE dest!: le)
  moreover have "delta_sum o2 \<le> delta_sum o1 + sum_list (map (\<lambda>r. rr_value r / c) (snd (tr_validators t)))"
    by (rule foldR_measure [where \<mu> = delta_sum, OF _ o(2)])
      (auto simp: report_validator_def ds split: prod.splits elim!: rbind_InrE dest!: le)
  moreover have "delta_sum o3 \<le> delta_sum o2 + sum_list (map (\<lambda>x. snd x / c) (fst (tr_developers t)))"
    by (rule foldR_measure [where \<mu> = delta_sum, OF _ o(3)])
      (auto simp: report_developer_def ds split: prod.splits elim!: rbind_InrE dest!: le)
  moreover have "delta_sum out \<le> delta_sum o3 + sum_list (map (\<lambda>_. 0) (snd (tr_developers t)))"
    by (rule foldR_measure [where \<mu> = delta_sum, OF _ o(4)])
      (auto simp: report_developer_record_def split: prod.splits elim!: rbind_InrE)
  ultimately show ?thesis by (simp add: add_divide_distrib sum_list_divide)
qed

lemma reward_split_bound:
  assumes laws: "reward_laws E F" "rate_laws E chi_rate c" and rate: "d_get_var D d ''chi_cost'' ''S'' [PStr ''value''] = Inr chi_rate"
    and split: "reward_split D d = Inr (PList [vr, br, fr, dr])"
    and ratios: "as_decimal E vr = Inr v" "as_decimal E fr = Inr f" "as_decimal E dr = Inr w"
    and nonneg: "0 \<le> v" "0 \<le> w" "of_int t * v \<in> F" "of_int t * w \<in> F" "0 \<le> t"
    and build: "build_tx_reward_outputs E D d t contract costs = Inr (report, deltas, records)" "deltas \<noteq> []"
  shows "amount_sum deltas * c \<le> of_int t * v + of_int t * w + re_round E (re_div E f 1 * of_int t)"
proof -
  note l = reward_lawsD [OF laws(1)]
  obtain owner txr out where txr: "calculate_tx_output_rewards E D d t contract costs = Inr txr"
    "report_rewards E chi_rate owner txr = Inr out" "deltas = fst (snd out)"
    using build rate
    by (auto simp: build_tx_reward_outputs_def split: if_splits prod.splits elim!: rbind_InrE)
  obtain foundation developers redirected validators vs where parts:
    "calculate_participant_reward E fr 1 t = Inr foundation"
    "find_developer_and_reward E D d t contract dr costs = Inr (developers, redirected)"
    "build_validator_set_reward_outputs E D d t vr validators redirected = Inr vs"
    "txr = \<lparr>tr_validators = vs, tr_foundation = foundation, tr_developers = developers\<rparr>"
    using txr(1) split
    by (auto simp: calculate_tx_output_rewards_def unpack_ratios_def iter_list_def elim!: rbind_InrE)
  have dev: "amount_sum (fst developers) + redirected \<le> of_int t * w" "0 \<le> redirected" "redirected \<in> F"
    using nonneg by (auto intro!: developer_bound [OF laws(1) ratios(3) _ _ parts(2)])
  have val: "record_sum (snd vs) \<le> of_int t * v + redirected"
    using nonneg dev by (intro validator_set_bound [OF laws(1) ratios(1) _ _ parts(3)] l(6)) simp_all
  have "foundation \<le> re_round E (re_div E f 1 * of_int t)"
    using parts(1) ratios(2) by (intro l(8)) (simp add: calculate_participant_reward_def l(3))
  moreover have "amount_sum deltas \<le> (foundation + record_sum (snd vs) + amount_sum (fst developers)) / c"
    using report_rewards_bound [OF laws txr(2)] by (simp add: txr(3) parts(4))
  then have "amount_sum deltas * c \<le> foundation + record_sum (snd vs) + amount_sum (fst developers)"
    using laws(2) by (simp add: rate_laws_def pos_le_divide_eq)
  ultimately show ?thesis using dev val by linarith
qed


text \<open>Whole-number arithmetic, and a chain with two validators, one of them with a delegator.\<close>

definition whole :: "rat \<Rightarrow> rat" where
  "whole x = of_int \<lfloor>x\<rfloor>"

definition whole_env :: reward_env where
  "whole_env =
     \<lparr>re_parse = (\<lambda>_. Inl (OtherError ''InvalidOperation'')), re_add = (+), re_sub = (-), re_mul = (*),
      re_div = (\<lambda>a b. whole (a / b)), re_round = whole, re_cd = (\<lambda>x. Inr (whole x)), re_cd_add = (+),
      re_cd_div = (\<lambda>x r. case int_value r of Some i \<Rightarrow> Inr (whole (x / of_int i)) | None \<Rightarrow> Inl (TypeError ''operand'')),
      re_str = str_of, re_value = (\<lambda>x. PInt \<lfloor>x\<rfloor>),
      re_credit = (\<lambda>b x. case int_value b of Some i \<Rightarrow> Inr (PInt (i + \<lfloor>x\<rfloor>)) | None \<Rightarrow> Inl (TypeError ''operand''))\<rparr>"

lemma whole_env_laws: "reward_laws whole_env \<int>"
proof -
  have "whole x \<in> \<int>" "whole x \<le> x" for x by (simp_all add: whole_def)
  moreover have "whole x \<le> whole y" if "x \<le> y" for x y using that by (simp add: whole_def floor_mono)
  moreover have "whole x = x" if "x \<in> \<int>" for x using that by (auto simp: whole_def Ints_def)
  ultimately show ?thesis
    by (auto simp: reward_laws_def floor_division_def whole_env_def divide_right_mono)
qed

lemma whole_env_rate: "rate_laws whole_env (PInt 2) 2"
proof -
  have "whole (x / 2) \<le> x / 2" for x unfolding whole_def by (rule of_int_floor_le)
  then show ?thesis by (simp add: rate_laws_def whole_env_def)
qed

definition sample_chain :: mem_db where
  "sample_chain =
     \<lparr>db_disk =
        [(''rewards.S:value'', PList [PDec (Dec False 5 (- 1)), PInt 0, PInt 0, PDec (Dec False 25 (- 2))]),
         (''chi_cost.S:value'', PInt 2), (''foundation.owner'', PStr ''o''), (''con.__developer__'', PStr ''dev''),
         (''validators.active_validators'', PList [PStr ''a'', PStr ''b'']),
         (''validators.powers:a'', PInt 2), (''validators.powers:b'', PInt 1), (''validators.self_bond:a'', PInt 10),
         (''validators.commission_bps:a'', PInt 1000), (''validators.delegator_lists:a'', PList [PStr ''x'']),
         (''validators.delegations:x:a'', PInt 20)],
      db_pending = []\<rparr>"

lemma sample_chain_rewards:
  "case build_tx_reward_outputs whole_env mem_driver sample_chain 100 ''con'' (Some [(''con'', PInt 7)]) of
     Inr (report, deltas, records) \<Rightarrow>
       deltas = [(''currency.balances:a'', 6), (''currency.balances:x'', 10), (''currency.balances:b'', 8),
                 (''currency.balances:dev'', 12)]
   | _ \<Rightarrow> False"
  by code_simp


end
