(* ===== verification/Tx_Processor.thy ===== *)
theory Tx_Processor
  imports Execution Rewards Fee_Policy
begin

text \<open>
  The transaction processor (\<^verbatim>\<open>src/src/xian/processor.py\<close>): it runs a transaction on the
  virtual machine, decides which writes count, adds the fee rewards and applies the result to
  the driver.  Its state is the driver, the chi cost cached for the block and the prepared
  contracts of the process.  A transaction that reaches it names its contract and function as
  text.  Running out of preparation fuel stands for Python's recursion limit.
\<close>

record 'd proc_env =
  px_driver :: "'d driver"
  px_vm :: "'d vm_env"
  px_rewards :: reward_env
  px_convert_dict :: "pyval \<Rightarrow> pyval res"
  px_encode_wire :: "pyval \<Rightarrow> string res"
  px_sha3_256_hex :: "string \<Rightarrow> string"
  px_safe_repr :: "pyval \<Rightarrow> pyval"
  px_from_datetime :: "int \<times> int \<Rightarrow> pyval"
  px_text :: text_env
  px_fuel :: nat

record 'd proc =
  ps_driver :: 'd
  ps_chi_cost :: "pyval option"
  ps_prepared :: prepared_cache

record tx_result =
  xr_hash :: string
  xr_status :: int
  xr_state :: "(string, pyval) dict"
  xr_events :: "pyval list"
  xr_chi_used :: int
  xr_result :: pyval
  xr_rewards :: "reward_report option"
  xr_reward_records :: "reward_record list"

record tx_access =
  ta_index :: int
  ta_sender :: pyval
  ta_nonce :: pyval
  ta_reads :: "string set"
  ta_prefix_reads :: "string set"
  ta_writes :: "string set"
  ta_additive_writes :: "string set"
  ta_status :: int

record tx_response =
  rs_tx_result :: "tx_result option"
  rs_chi_rewards_amount :: int
  rs_chi_rewards_contract :: pyval
  rs_base_writes :: "(string, pyval) dict"
  rs_reward_deltas :: deltas
  rs_access :: "tx_access option"

section \<open>Chi cost\<close>

definition chi_cost_key :: "'d proc_env \<Rightarrow> string" where
  "chi_cost_key E = d_make_key (px_driver E) ''chi_cost'' ''S'' [PStr ''value'']"

definition reset_block_cache :: "'d proc \<Rightarrow> 'd proc" where
  "reset_block_cache st = st\<lparr>ps_chi_cost := None\<rparr>"

definition get_chi_cost :: "'d proc_env \<Rightarrow> 'd proc \<Rightarrow> (pyval \<times> 'd proc) res" where
  "get_chi_cost E st =
     (case ps_chi_cost st of
        Some c \<Rightarrow> Inr (c, st)
      | None \<Rightarrow>
          rbind (d_get_var (px_driver E) (ps_driver st) ''chi_cost'' ''S'' [PStr ''value'']) (\<lambda>v.
          let c = py_or v (PInt 1) in Inr (c, st\<lparr>ps_chi_cost := Some c\<rparr>)))"

definition update_chi_cost_cache :: "'d proc_env \<Rightarrow> (string, pyval) dict \<Rightarrow> 'd proc \<Rightarrow> 'd proc" where
  "update_chi_cost_cache E base_writes st =
     (case map_of base_writes (chi_cost_key E) of None \<Rightarrow> st | Some v \<Rightarrow> st\<lparr>ps_chi_cost := Some v\<rparr>)"

section \<open>Environment\<close>

definition get_timestamp_hash_from_tx :: "'d proc_env \<Rightarrow> pyval \<Rightarrow> pyval \<Rightarrow> string res" where
  "get_timestamp_hash_from_tx E nanos signature =
     (if is_str signature then Inr (px_sha3_256_hex E (py_str (px_text E) nanos @ str_of signature))
      else Inl (TypeError ''can only concatenate str''))"

definition get_now_from_nanos :: "'d proc_env \<Rightarrow> pyval \<Rightarrow> pyval res" where
  "get_now_from_nanos E nanos =
     (case int_value nanos of Some n \<Rightarrow> Inr (px_from_datetime E (nanoseconds_to_utc_datetime n))
      | None \<Rightarrow> Inl (TypeError ''unsupported operand''))"

definition get_environment :: "'d proc_env \<Rightarrow> pyval \<Rightarrow> (string, pyval) dict res" where
  "get_environment E tx =
     rbind (dindex tx ''b_meta'') (\<lambda>meta.
     rbind (dindex meta ''nanos'') (\<lambda>nanos.
     rbind (dindex tx ''metadata'') (\<lambda>metadata.
     rbind (dindex metadata ''signature'') (\<lambda>signature.
     rbind (dindex meta ''chain_id'') (\<lambda>chain_id.
     rbind (dindex meta ''hash'') (\<lambda>block_hash.
     rbind (dindex meta ''height'') (\<lambda>height.
     rbind (get_timestamp_hash_from_tx E nanos signature) (\<lambda>input_hash.
     rbind (get_now_from_nanos E nanos) (\<lambda>now.
     Inr [(''block_hash'', block_hash), (''block_num'', height), (''__input_hash'', PStr input_hash),
          (''__xian_execution_mode__'', PStr VM_EXECUTION_MODE), (''now'', now), (''chain_id'', chain_id)])))))))))"

section \<open>Execution\<close>

definition text_value :: "pyval \<Rightarrow> string res" where
  "text_value v = (case v of PStr s \<Rightarrow> Inr s | _ \<Rightarrow> Inl (TypeError ''text expected''))"

definition execute_vm_tx ::
    "'d proc_env \<Rightarrow> pyval \<Rightarrow> string \<Rightarrow> string \<Rightarrow> pyval \<Rightarrow> pyval \<Rightarrow> (string, pyval) dict \<Rightarrow> bool \<Rightarrow> bool \<Rightarrow> 'd
      \<Rightarrow> vm_tx_result res \<times> 'd" where
  "execute_vm_tx E tx contract func kwargs chi_cost environment metering charge d =
     (let d = d_clear_transaction (px_driver E) d in
      case rbind (payload_field tx ''sender'') (\<lambda>sender.
           rbind (payload_field tx ''chi_supplied'') (\<lambda>chi_supplied.
           rbind (canonical_transaction_size_bytes (px_encode_wire E) tx) (\<lambda>size_bytes.
           case int_value chi_supplied of
             None \<Rightarrow> Inl (TypeError ''chi_supplied'')
           | Some budget \<Rightarrow>
               Inr \<lparr>rq_sender = sender, rq_contract = contract, rq_function = func, rq_kwargs = kwargs,
                    rq_environment = environment, rq_meter = metering, rq_chi_budget = budget,
                    rq_size_bytes = int size_bytes\<rparr>))) of
        Inl e \<Rightarrow> (Inl e, d)
      | Inr rq \<Rightarrow> execute_vm_transaction (px_vm E) (px_driver E) d rq chi_cost True charge)"

definition missing_source_result :: "string \<Rightarrow> string \<Rightarrow> vm_tx_result" where
  "missing_source_result contract func =
     \<lparr>vt_output = failed_output (PObject (vm_contract_source_error contract func)), vt_writes = [], vt_chi_used = 0,
      vt_contract_costs = [], vt_reads = [], vt_prefix_reads = {}\<rparr>"

text \<open>\<^verbatim>\<open>except (TypeError, ValueError): return None\<close>.\<close>

definition no_output_on_error :: "'a res \<Rightarrow> 'a option res" where
  "no_output_on_error r =
     (case r of Inr x \<Rightarrow> Inr (Some x) | Inl (TypeError _) \<Rightarrow> Inr None | Inl (ValueError _) \<Rightarrow> Inr None | Inl e \<Rightarrow> Inl e)"

definition prepare_step :: "'d proc_env \<Rightarrow> pyval \<Rightarrow> 'd proc \<Rightarrow> string res \<times> 'd proc" where
  "prepare_step E tx st =
     (case rbind (payload_field tx ''contract'') text_value of
        Inl e \<Rightarrow> (Inl e, st)
      | Inr contract \<Rightarrow>
          (case prepare_vm_contract (px_fuel E) (px_vm E) (ps_driver st) contract (ps_prepared st) of
             None \<Rightarrow> (Inl (OtherError ''RecursionError''), st)
           | Some (Inl e, cache) \<Rightarrow> (Inl e, st\<lparr>ps_prepared := cache\<rparr>)
           | Some (Inr _, cache) \<Rightarrow> (Inr contract, st\<lparr>ps_prepared := cache\<rparr>)))"

definition run_step ::
    "'d proc_env \<Rightarrow> pyval \<Rightarrow> string \<Rightarrow> pyval \<Rightarrow> (string, pyval) dict \<Rightarrow> bool \<Rightarrow> bool \<Rightarrow> 'd \<Rightarrow> vm_tx_result res \<times> 'd" where
  "run_step E tx contract chi_cost environment metering charge d =
     (case rbind (payload_field tx ''kwargs'') (\<lambda>kw. rbind (px_convert_dict E kw) (\<lambda>kwargs.
           rbind (payload_field tx ''function'') (\<lambda>f. rbind (text_value f) (\<lambda>func. Inr (kwargs, func))))) of
        Inl e \<Rightarrow> (Inl e, d)
      | Inr (kwargs, func) \<Rightarrow>
          if vm_requires_contract_source contract func kwargs then (Inr (missing_source_result contract func), d)
          else execute_vm_tx E tx contract func kwargs chi_cost environment metering charge d)"

definition execute_tx ::
    "'d proc_env \<Rightarrow> pyval \<Rightarrow> pyval \<Rightarrow> (string, pyval) dict \<Rightarrow> bool \<Rightarrow> bool \<Rightarrow> 'd proc \<Rightarrow> vm_tx_result option res \<times> 'd proc" where
  "execute_tx E tx chi_cost environment metering charge st =
     (case prepare_step E tx st of
        (Inl e, st) \<Rightarrow> (no_output_on_error (Inl e), st)
      | (Inr contract, st) \<Rightarrow>
          (case run_step E tx contract chi_cost environment metering charge (ps_driver st) of
             (r, d) \<Rightarrow> (no_output_on_error r, st\<lparr>ps_driver := d\<rparr>)))"

section \<open>The writes that count\<close>

definition determine_writes_from_output ::
    "'d proc_env \<Rightarrow> 'd \<Rightarrow> int \<Rightarrow> (string, pyval) dict \<Rightarrow> int \<Rightarrow> pyval \<Rightarrow> pyval \<Rightarrow> bool \<Rightarrow> (string, pyval) dict res" where
  "determine_writes_from_output E d status_code output_writes chi_used chi_cost sender charge =
     (if status_code = 0 then Inr output_writes
      else if \<not> charge then Inr []
      else vm_metering_writes (px_vm E) (px_driver E) d sender chi_used chi_cost None)"

definition add_reward ::
    "'d proc_env \<Rightarrow> 'd \<Rightarrow> string \<times> rat \<Rightarrow> (string, pyval) dict \<Rightarrow> (string, pyval) dict res" where
  "add_reward E d = (\<lambda>(key, delta) ws.
     rbind (case map_of ws key of
              Some v \<Rightarrow> n_add (vm_num (px_vm E)) v (re_value (px_rewards E) delta)
            | None \<Rightarrow>
                let current = d_get (px_driver E) d key
                in n_add (vm_num (px_vm E)) (if current = PNone then PInt 0 else current) (re_value (px_rewards E) delta))
       (\<lambda>v. Inr (AList.update key v ws)))"

definition materialize_writes ::
    "'d proc_env \<Rightarrow> 'd \<Rightarrow> (string, pyval) dict \<Rightarrow> deltas \<Rightarrow> (string, pyval) dict res" where
  "materialize_writes E d base_writes reward_deltas =
     rbind (foldR (add_reward E d) reward_deltas base_writes) (\<lambda>ws. Inr (sort_key fst ws))"

definition apply_tx_result :: "'d proc_env \<Rightarrow> (string, pyval) dict \<Rightarrow> 'd \<Rightarrow> 'd" where
  "apply_tx_result E state d = fold (\<lambda>(k, v). d_set (px_driver E) k v) state d"

record processed =
  pp_tx_result :: tx_result
  pp_reads :: "string set"
  pp_prefix_reads :: "string set"
  pp_base_writes :: "(string, pyval) dict"
  pp_reward_deltas :: deltas

definition process_tx_output ::
    "'d proc_env \<Rightarrow> vm_tx_result \<Rightarrow> pyval \<Rightarrow> pyval \<Rightarrow> bool \<Rightarrow> bool \<Rightarrow> bool \<Rightarrow> 'd \<Rightarrow> processed res \<times> 'd" where
  "process_tx_output E output tx chi_cost charge distribute track d =
     (let status = vo_status (vt_output output) in
      case rbind (tx_hash_from_tx (px_encode_wire E) (px_sha3_256_hex E) tx) (\<lambda>tx_hash.
           rbind (if distribute \<and> status = 0
                  then rbind (payload_field tx ''contract'') (\<lambda>c. rbind (text_value c) (\<lambda>contract.
                       build_tx_reward_outputs (px_rewards E) (px_driver E) d (vt_chi_used output) contract
                         (Some (vt_contract_costs output))))
                  else Inr (None, [], [])) (\<lambda>(rewards, deltas, records).
           rbind (payload_field tx ''sender'') (\<lambda>sender.
           rbind (determine_writes_from_output E d status (vt_writes output) (vt_chi_used output) chi_cost sender charge) (\<lambda>base.
           rbind (materialize_writes E d base deltas) (\<lambda>writes.
           Inr \<lparr>pp_tx_result =
                  \<lparr>xr_hash = tx_hash, xr_status = status, xr_state = writes, xr_events = vo_events (vt_output output),
                   xr_chi_used = vt_chi_used output, xr_result = px_safe_repr E (vo_result (vt_output output)),
                   xr_rewards = rewards, xr_reward_records = records\<rparr>,
                pp_reads = (if track then fst ` set (vt_reads output) else {}),
                pp_prefix_reads = (if track then vt_prefix_reads output else {}),
                pp_base_writes = base, pp_reward_deltas = deltas\<rparr>))))) of
        Inl e \<Rightarrow> (Inl e, d)
      | Inr p \<Rightarrow> (Inr p, apply_tx_result E (xr_state (pp_tx_result p)) d))"

definition build_access_record ::
    "pyval \<Rightarrow> int \<Rightarrow> string set \<Rightarrow> string set \<Rightarrow> (string, pyval) dict \<Rightarrow> deltas \<Rightarrow> tx_access res" where
  "build_access_record tx status_code reads prefix_reads base_writes reward_deltas =
     rbind (dindex tx ''payload'') (\<lambda>payload.
     rbind (dindex payload ''sender'') (\<lambda>sender.
     Inr \<lparr>ta_index = - 1, ta_sender = sender, ta_nonce = dget_or payload ''nonce'' (PInt 0), ta_reads = reads,
          ta_prefix_reads = prefix_reads, ta_writes = fst ` set base_writes,
          ta_additive_writes = fst ` set reward_deltas, ta_status = status_code\<rparr>))"

definition no_result :: tx_response where
  "no_result =
     \<lparr>rs_tx_result = None, rs_chi_rewards_amount = 0, rs_chi_rewards_contract = PNone, rs_base_writes = [],
      rs_reward_deltas = [], rs_access = None\<rparr>"

definition respond ::
    "pyval \<Rightarrow> vm_tx_result \<Rightarrow> processed \<Rightarrow> bool \<Rightarrow> tx_response res" where
  "respond tx output p track =
     rbind (payload_field tx ''contract'') (\<lambda>contract.
     if \<not> track then Inr (no_result\<lparr>rs_tx_result := Some (pp_tx_result p), rs_chi_rewards_amount := vt_chi_used output,
                               rs_chi_rewards_contract := contract\<rparr>)
     else rbind (build_access_record tx (vo_status (vt_output output)) (pp_reads p) (pp_prefix_reads p)
                   (pp_base_writes p) (pp_reward_deltas p)) (\<lambda>access.
          Inr \<lparr>rs_tx_result = Some (pp_tx_result p), rs_chi_rewards_amount = vt_chi_used output,
               rs_chi_rewards_contract = contract, rs_base_writes = pp_base_writes p,
               rs_reward_deltas = pp_reward_deltas p, rs_access = Some access\<rparr>))"

text \<open>The body of the \<^verbatim>\<open>try\<close>; every exception in it becomes a response without a result.\<close>

definition process_guarded ::
    "'d proc_env \<Rightarrow> pyval \<Rightarrow> bool \<Rightarrow> fee_policy \<Rightarrow> bool \<Rightarrow> pyval \<Rightarrow> (string, pyval) dict \<Rightarrow> 'd proc \<Rightarrow> tx_response \<times> 'd proc" where
  "process_guarded E tx rewards policy track chi_cost environment st =
     (case execute_tx E tx chi_cost environment (meter_execution policy) (charge_fees policy) st of
        (Inl _, st) \<Rightarrow> (no_result, st)
      | (Inr None, st) \<Rightarrow> (no_result, st)
      | (Inr (Some output), st) \<Rightarrow>
          (case process_tx_output E output tx chi_cost (charge_fees policy) (distribute_fee_rewards policy \<and> rewards)
                  track (ps_driver st) of
             (Inl _, d) \<Rightarrow> (no_result, st\<lparr>ps_driver := d\<rparr>)
           | (Inr p, d) \<Rightarrow>
               (case respond tx output p track of
                  Inl _ \<Rightarrow> (no_result, update_chi_cost_cache E (pp_base_writes p) (st\<lparr>ps_driver := d\<rparr>))
                | Inr r \<Rightarrow> (r, update_chi_cost_cache E (pp_base_writes p) (st\<lparr>ps_driver := d\<rparr>)))))"

definition process_tx ::
    "'d proc_env \<Rightarrow> pyval \<Rightarrow> bool \<Rightarrow> fee_policy option \<Rightarrow> bool \<Rightarrow> 'd proc \<Rightarrow> tx_response res \<times> 'd proc" where
  "process_tx E tx rewards fee_policy track st =
     (let previous = d_read_tracking (px_driver E) (ps_driver st);
          st = st\<lparr>ps_driver := d_set_read_tracking (px_driver E) track (ps_driver st)\<rparr>
      in case rbind (get_environment E tx) (\<lambda>environment. rbind (get_chi_cost E st) (\<lambda>(c, st). Inr (environment, c, st))) of
           Inl e \<Rightarrow> (Inl e, st)
         | Inr (environment, chi_cost, st) \<Rightarrow>
             let policy = (case fee_policy of Some p \<Rightarrow> p | None \<Rightarrow> system_unmetered);
                 (r, st) = process_guarded E tx rewards policy track chi_cost environment st
             in (Inr r, st\<lparr>ps_driver := d_set_read_tracking (px_driver E) previous (ps_driver st)\<rparr>))"

section \<open>Access estimates\<close>

definition estimated ::
    "pyval \<Rightarrow> pyval \<Rightarrow> string set \<Rightarrow> string set \<Rightarrow> tx_access option" where
  "estimated payload sender reads writes =
     Some \<lparr>ta_index = - 1, ta_sender = sender, ta_nonce = dget_or payload ''nonce'' (PInt 0), ta_reads = reads,
           ta_prefix_reads = {}, ta_writes = writes, ta_additive_writes = {}, ta_status = 0\<rparr>"

definition estimate_access :: "'d proc_env \<Rightarrow> pyval \<Rightarrow> tx_access option" where
  "estimate_access E tx =
     (let payload = dget_or tx ''payload'' PNone in
      if \<not> is_dict payload then None
      else let sender = dget_or payload ''sender'' PNone; contract = dget_or payload ''contract'' PNone;
               func = dget_or payload ''function'' PNone;
               kwargs = py_or (dget_or payload ''kwargs'' PNone) (PDict []) in
      if \<not> is_str sender \<or> \<not> is_str contract \<or> \<not> is_str func \<or> \<not> is_dict kwargs then None
      else let key = (\<lambda>v args. d_make_key (px_driver E) (str_of contract) v args);
               arg = (\<lambda>n. dget_or kwargs n PNone); f = str_of func in
      if f = ''transfer'' then
        (if \<not> is_str (arg ''to'') then None
         else let ks = {key ''balances'' [sender], key ''balances'' [arg ''to'']} in estimated payload sender ks ks)
      else if f = ''approve'' then
        (if \<not> is_str (arg ''to'') then None else estimated payload sender {} {key ''approvals'' [sender, arg ''to'']})
      else if f = ''approve_from_authorizer'' then
        (if \<not> is_str (arg ''owner'') \<or> \<not> is_str (arg ''spender'') then None
         else estimated payload sender {key ''metadata'' [PStr ''permit_authorizer'']}
                {key ''approvals'' [arg ''owner'', arg ''spender'']})
      else if f = ''transfer_from'' then
        (if \<not> is_str (arg ''to'') \<or> \<not> is_str (arg ''main_account'') then None
         else let ks = {key ''approvals'' [arg ''main_account'', sender], key ''balances'' [arg ''main_account''],
                        key ''balances'' [arg ''to'']}
              in estimated payload sender ks ks)
      else if f = ''change_metadata'' then
        (if \<not> is_str (arg ''key'') then None
         else estimated payload sender {key ''metadata'' [PStr ''operator'']} {key ''metadata'' [arg ''key'']})
      else if f = ''set_operator'' then estimated payload sender {} {key ''metadata'' [PStr ''operator'']}
      else if f = ''set_permit_authorizer'' then estimated payload sender {} {key ''metadata'' [PStr ''permit_authorizer'']}
      else if f = ''balance_of'' then
        (if \<not> is_str (arg ''address'') then None else estimated payload sender {key ''balances'' [arg ''address'']} {})
      else if str_of contract \<in> {''chi_cost'', ''rewards''} \<and> f = ''current_value'' then
        estimated payload sender {key ''S'' [PStr ''value'']} {}
      else if str_of contract \<in> {''chi_cost'', ''rewards''} \<and> f = ''set_value'' then
        estimated payload sender {} {key ''S'' [PStr ''value'']}
      else None)"

section \<open>Encoding errors are caught\<close>

lemma mapR_Inl: "mapR f xs = Inl e \<Longrightarrow> \<exists>x\<in>set xs. f x = Inl e"
  by (induction xs) (auto simp: rbind_def split: sum.splits)

lemma json_dumps_error: "json_dumps v = Inl e \<Longrightarrow> \<exists>m. e = TypeError m"
proof (induction v rule: json_dumps.induct)
  case (8 kvs)
  then show ?case by (fastforce simp: rbind_def split: sum.splits if_splits dest!: mapR_Inl)
qed (fastforce simp: rbind_def split: sum.splits dest!: mapR_Inl)+

lemma ascii_json_dumps_error: "ascii_json_dumps v = Inl e \<Longrightarrow> \<exists>m. e = TypeError m"
proof (induction v rule: ascii_json_dumps.induct)
  case (4 kvs)
  then show ?case by (fastforce simp: rbind_def split: sum.splits if_splits dest!: mapR_Inl)
qed (fastforce simp: rbind_def split: sum.splits dest!: mapR_Inl dest: json_dumps_error)+

lemma normalize_error: "normalize_for_abci_json J v = Inl e \<Longrightarrow> \<exists>m. e = AssertionError m"
proof (induction J v rule: normalize_for_abci_json.induct)
  case (1 J v)
  note step = "1.prems" [unfolded normalize_for_abci_json.simps [of J v]]
  have plain: "\<not> je_is_wrapper_set J v" "je_exception_text J v = None"
    using step by (auto split: if_splits option.splits)
  note IH = "1.IH" [OF plain]
  show ?case
  proof (cases v)
    case (PDict kvs)
    obtain kv where kv: "kv \<in> set kvs" "(if \<not> is_str (fst kv) then Inl (AssertionError ''Non-string key types not allowed.'')
        else rbind (normalize_for_abci_json J (snd kv)) (\<lambda>item. Inr (str_of (fst kv), item))) = Inl e"
      using step plain by (auto simp: PDict rbind_def split: sum.splits dest!: mapR_Inl)
    show ?thesis
    proof (cases "is_str (fst kv)")
      case True
      then have "normalize_for_abci_json J (snd kv) = Inl e"
        using kv(2) by (auto simp: rbind_def split: sum.splits)
      with True PDict kv(1) show ?thesis using IH by blast
    qed (use kv(2) in auto)
  next
    case (PTuple xs)
    then show ?thesis
      using step plain IH by (auto simp: rbind_def split: sum.splits dest!: mapR_Inl)
  next
    case (PList xs)
    then show ?thesis
      using step plain IH by (auto simp: rbind_def split: sum.splits dest!: mapR_Inl)
  qed (use step plain in auto)
qed

lemma encode_error_caught: "encode_abci_json J v = Inl e \<Longrightarrow> caught_by_validation e"
  by (auto simp: encode_abci_json_def rbind_def caught_by_validation_def split: sum.splits
      dest!: normalize_error ascii_json_dumps_error)

section \<open>Execution does not touch the state\<close>

text \<open>
  What the node relies on in the machine: it never writes to disk by itself, it reports its
  writes as a dict, and the value check raises what the engine catches.
\<close>

definition vm_confined :: "'d driver \<Rightarrow> 'd vm_env \<Rightarrow> bool" where
  "vm_confined D V \<longleftrightarrow>
     (\<forall>d c. d_value_from_disk D (snd (vm_execute V d c)) = d_value_from_disk D d) \<and>
     (\<forall>d c out d'. vm_execute V d c = (Inr out, d') \<longrightarrow> dict_wf (vo_writes out)) \<and>
     (\<forall>v e. vm_validate_persistent_value V v = Inl e \<longrightarrow> caught_by_validation e)"

definition same_state :: "'d driver \<Rightarrow> 'd \<Rightarrow> 'd \<Rightarrow> bool" where
  "same_state D d e \<longleftrightarrow> d_pending_writes D d = d_pending_writes D e \<and> d_value_from_disk D d = d_value_from_disk D e"

lemma same_state_refl [simp]: "same_state D d d"
  by (simp add: same_state_def)

lemma same_state_trans [trans]: "same_state D a b \<Longrightarrow> same_state D b c \<Longrightarrow> same_state D a c"
  by (simp add: same_state_def)

lemma same_state_get: "driver_laws D \<Longrightarrow> same_state D d e \<Longrightarrow> d_get D d = d_get D e"
  by (auto simp: same_state_def intro: get_cong)

lemma same_state_ops [simp]:
  assumes "driver_laws D"
  shows "same_state D (d_set_read_tracking D b d) d" "same_state D (d_clear_transaction D d) d"
  using assms by (simp_all add: same_state_def driver_simps)

lemma validated_never_raises:
  assumes "vm_confined D V"
  shows "validated_vm_result V out \<noteq> Inl e"
proof -
  have "caught_by_validation e" if "check_effects V out = Inl e" for e
    using that assms encode_error_caught
    by (auto simp: check_effects_def vm_confined_def rbind_def caught_by_validation_def split: if_splits sum.splits)
  then show ?thesis
    by (auto simp: validated_vm_result_def split: sum.split)
qed

lemma execute_vm_contract_returns:
  assumes "vm_confined D V"
  obtains out d' where "execute_vm_contract V d rq = (Inr out, d')" "d_value_from_disk D d' = d_value_from_disk D d"
    "dict_wf (vo_writes out)"
proof (cases "vm_requires_contract_source (rq_contract rq) (rq_function rq) (rq_kwargs rq)")
  case True
  then show thesis by (intro that) (auto simp: execute_vm_contract_def failed_output_def)
next
  case False
  obtain r d1 where r: "vm_execute V d (vm_call_of V d rq) = (r, d1)" by fastforce
  have disk: "d_value_from_disk D d1 = d_value_from_disk D d"
    using assms r by (metis snd_conv vm_confined_def)
  show thesis
  proof (cases r)
    case (Inl e)
    with False r disk show thesis
      by (intro that [of "failed_output (exc_value e)" d1]) (auto simp: execute_vm_contract_def failed_output_def)
  next
    case (Inr out)
    have wf: "dict_wf (vo_writes out)" using assms r Inr unfolding vm_confined_def by blast
    obtain out' where out': "validated_vm_result V out = Inr out'"
      using validated_never_raises [OF assms] by (metis obj_sumE)
    then have "dict_wf (vo_writes out')"
      using wf by (auto simp: validated_vm_result_def split: if_splits sum.splits)
    with False r Inr out' disk show thesis by (intro that [of out' d1]) (auto simp: execute_vm_contract_def)
  qed
qed

lemma execute_vm_transaction_same:
  assumes "driver_laws D" "vm_confined D V"
  shows "same_state D (snd (execute_vm_transaction V D d rq chi_cost a b)) d"
    and "fst (execute_vm_transaction V D d rq chi_cost a b) = Inr r \<Longrightarrow> dict_wf (vt_writes r)"
proof -
  obtain out d1 where out: "execute_vm_contract V d rq = (Inr out, d1)" "d_value_from_disk D d1 = d_value_from_disk D d"
    "dict_wf (vo_writes out)"
    by (rule execute_vm_contract_returns [OF assms(2)])
  then show "same_state D (snd (execute_vm_transaction V D d rq chi_cost a b)) d"
    using assms(1) by (simp add: execute_vm_transaction_def Let_def same_state_def driver_simps)
  assume "fst (execute_vm_transaction V D d rq chi_cost a b) = Inr r"
  with out(1,3) show "dict_wf (vt_writes r)"
    by (auto simp: execute_vm_transaction_def Let_def dest!: merge_metering_writes)
qed

lemma run_step_same:
  assumes "driver_laws (px_driver E)" "vm_confined (px_driver E) (px_vm E)"
  shows "same_state (px_driver E) (snd (run_step E tx contract chi_cost env m c d)) d"
    and "fst (run_step E tx contract chi_cost env m c d) = Inr r \<Longrightarrow> dict_wf (vt_writes r)"
proof -
  note same = execute_vm_transaction_same [OF assms]
  have "same_state (px_driver E) (snd (execute_vm_tx E tx contract func kwargs chi_cost env m c d)) d" for func kwargs
    using same_state_ops(2) [OF assms(1), of d]
    by (auto simp: execute_vm_tx_def Let_def split: sum.split intro: same_state_trans [OF same(1)])
  moreover have "dict_wf (vt_writes r)"
    if "fst (execute_vm_tx E tx contract func kwargs chi_cost env m c d) = Inr r" for func kwargs
    using that same(2) by (auto simp: execute_vm_tx_def Let_def split: sum.splits)
  ultimately show "same_state (px_driver E) (snd (run_step E tx contract chi_cost env m c d)) d"
    "fst (run_step E tx contract chi_cost env m c d) = Inr r \<Longrightarrow> dict_wf (vt_writes r)"
    by (auto simp: run_step_def missing_source_result_def split: sum.splits prod.splits if_splits)
qed

lemma execute_tx_cases:
  assumes "execute_tx E tx chi_cost env m c st = (r, st')"
  obtains e st1 where "prepare_step E tx st = (Inl e, st1)" "st' = st1" "r = no_output_on_error (Inl e)"
  | contract st1 where "prepare_step E tx st = (Inr contract, st1)"
      "st' = st1\<lparr>ps_driver := snd (run_step E tx contract chi_cost env m c (ps_driver st1))\<rparr>"
      "r = no_output_on_error (fst (run_step E tx contract chi_cost env m c (ps_driver st1)))"
  using assms by (auto simp: execute_tx_def split: prod.splits sum.splits)

lemma prepare_step_same:
  assumes "prepare_step E tx st = (q, st1)"
  shows "ps_driver st1 = ps_driver st" "ps_chi_cost st1 = ps_chi_cost st"
    "q = Inr contract \<Longrightarrow> payload_field tx ''contract'' = Inr (PStr contract)"
  using assms
  by (auto simp: prepare_step_def text_value_def split: sum.splits option.splits prod.splits pyval.splits elim!: rbind_InrE)

lemma no_output_on_error_Some:
  "no_output_on_error r = Inr (Some x) \<longleftrightarrow> r = Inr x" "Inr (Some x) = no_output_on_error r \<longleftrightarrow> r = Inr x"
  by (auto simp: no_output_on_error_def split: sum.splits exc.splits)

lemma execute_tx_same:
  assumes laws: "driver_laws (px_driver E)" "vm_confined (px_driver E) (px_vm E)"
    and run: "execute_tx E tx chi_cost env m c st = (r, st')"
  shows "same_state (px_driver E) (ps_driver st') (ps_driver st)" "ps_chi_cost st' = ps_chi_cost st"
    and "r = Inr (Some out) \<Longrightarrow> dict_wf (vt_writes out)"
    and "r = Inr (Some out) \<Longrightarrow> \<exists>contract. payload_field tx ''contract'' = Inr contract"
proof -
  note same = run_step_same [OF laws]
  show "same_state (px_driver E) (ps_driver st') (ps_driver st)"
    using run by (cases rule: execute_tx_cases) (auto dest!: prepare_step_same(1) intro: same(1))
  show "ps_chi_cost st' = ps_chi_cost st"
    using run by (cases rule: execute_tx_cases) (auto dest!: prepare_step_same(2))
  show "dict_wf (vt_writes out)" if "r = Inr (Some out)"
    using run by (cases rule: execute_tx_cases) (use that in \<open>auto simp: no_output_on_error_Some intro: same(2)\<close>)
  show "\<exists>contract. payload_field tx ''contract'' = Inr contract" if "r = Inr (Some out)"
    using run by (cases rule: execute_tx_cases) (use that in \<open>auto simp: no_output_on_error_Some dest: prepare_step_same(3)\<close>)
qed

section \<open>What a processed transaction changes\<close>

lemma apply_tx_result_disk:
  "driver_laws (px_driver E) \<Longrightarrow>
   d_value_from_disk (px_driver E) (apply_tx_result E ws d) = d_value_from_disk (px_driver E) d"
  by (induction ws arbitrary: d) (auto simp: apply_tx_result_def driver_simps)

lemma apply_tx_result_pending:
  assumes "driver_laws (px_driver E)"
  shows "dict_wf ws \<Longrightarrow> map_of (d_pending_writes (px_driver E) (apply_tx_result E ws d)) k =
      (case map_of ws k of Some v \<Rightarrow> Some v | None \<Rightarrow> map_of (d_pending_writes (px_driver E) d) k)"
proof (induction ws arbitrary: d)
  case (Cons kv ws)
  obtain k1 v1 where kv: "kv = (k1, v1)" by (cases kv)
  have none: "map_of ws k1 = None" and wf: "dict_wf ws"
    using Cons.prems by (simp_all add: kv map_of_None_fst)
  have step: "apply_tx_result E (kv # ws) d = apply_tx_result E ws (d_set (px_driver E) k1 v1 d)"
    by (simp add: apply_tx_result_def kv)
  show ?case
    unfolding step Cons.IH [OF wf] using none assms by (simp add: kv driver_simps split: option.split)
qed (simp add: apply_tx_result_def)

lemma apply_tx_result_get:
  assumes "driver_laws (px_driver E)" "dict_wf ws"
  shows "d_get (px_driver E) (apply_tx_result E ws d) k =
    (case map_of ws k of Some v \<Rightarrow> v | None \<Rightarrow> d_get (px_driver E) d k)"
  using apply_tx_result_pending [OF assms] apply_tx_result_disk [OF assms(1)]
  by (simp add: driver_get_split [OF assms(1)] split: option.split)

lemma keys_update: "fst ` set (AList.update k v ws) = insert k (fst ` set ws)"
  by (simp add: dom_map_of_conv_image_fst [symmetric] update_conv')

lemma foldR_add_reward:
  "foldR (add_reward E d) ds ws = Inr ws' \<Longrightarrow> dict_wf ws \<Longrightarrow> dict_wf ws' \<and> fst ` set ws' = fst ` set ws \<union> fst ` set ds"
proof (induction ds arbitrary: ws)
  case (Cons x ds)
  obtain ws1 where ws1: "add_reward E d x ws = Inr ws1" "foldR (add_reward E d) ds ws1 = Inr ws'"
    using Cons.prems(1) by (auto elim: rbind_InrE)
  obtain v where "ws1 = AList.update (fst x) v ws"
    using ws1(1) by (cases x) (auto simp: add_reward_def elim!: rbind_InrE)
  then have "dict_wf ws1 \<and> fst ` set ws1 = insert (fst x) (fst ` set ws)"
    using Cons.prems(2) by (simp add: keys_update)
  with Cons.IH [OF ws1(2)] show ?case by auto
qed simp

lemma materialize_writes_keys:
  assumes "materialize_writes E d base ds = Inr ws" "dict_wf base"
  shows "dict_wf ws" "sorted (map fst ws)" "fst ` set ws = fst ` set base \<union> fst ` set ds"
proof -
  obtain x where x: "foldR (add_reward E d) ds base = Inr x" "ws = sort_key fst x"
    using assms(1) by (auto simp: materialize_writes_def elim!: rbind_InrE)
  show "dict_wf ws" "sorted (map fst ws)" "fst ` set ws = fst ` set base \<union> fst ` set ds"
    using foldR_add_reward [OF x(1) assms(2)] by (simp_all add: x(2))
qed

lemma vm_metering_wf: "vm_metering_writes V D d sender chi c base = Inr ws \<Longrightarrow> dict_wf ws"
  by (auto simp: vm_metering_writes_def Let_def split: if_splits elim!: rbind_InrE)

lemma determine_writes:
  assumes "determine_writes_from_output E d status ws chi c sender charge = Inr base" "dict_wf ws"
  shows "dict_wf base" "status = 0 \<Longrightarrow> base = ws"
    "status \<noteq> 0 \<Longrightarrow> fst ` set base \<subseteq> (if charge then {metering_write_key (px_driver E) sender} else {})"
  using assms
  by (auto simp: determine_writes_from_output_def vm_metering_wf split: if_splits dest: vm_metering_keys)

lemma process_tx_output_spec:
  assumes "process_tx_output E output tx chi_cost charge distribute track d = (r, d')" "dict_wf (vt_writes output)"
  shows "r = Inl e \<Longrightarrow> d' = d"
    and "r = Inr p \<Longrightarrow> d' = apply_tx_result E (xr_state (pp_tx_result p)) d \<and>
      dict_wf (xr_state (pp_tx_result p)) \<and> sorted (map fst (xr_state (pp_tx_result p))) \<and>
      (\<exists>sender. payload_field tx ''sender'' = Inr sender \<and>
        (xr_status (pp_tx_result p) \<noteq> 0 \<longrightarrow>
          fst ` set (xr_state (pp_tx_result p)) \<subseteq> (if charge then {metering_write_key (px_driver E) sender} else {})))"
proof -
  show "d' = d" if "r = Inl e"
    using assms(1) that by (auto simp: process_tx_output_def Let_def split: sum.splits)
  show "d' = apply_tx_result E (xr_state (pp_tx_result p)) d \<and>
      dict_wf (xr_state (pp_tx_result p)) \<and> sorted (map fst (xr_state (pp_tx_result p))) \<and>
      (\<exists>sender. payload_field tx ''sender'' = Inr sender \<and>
        (xr_status (pp_tx_result p) \<noteq> 0 \<longrightarrow>
          fst ` set (xr_state (pp_tx_result p)) \<subseteq> (if charge then {metering_write_key (px_driver E) sender} else {})))"
    if p: "r = Inr p"
  proof -
    obtain sender base deltas writes where *:
      "payload_field tx ''sender'' = Inr sender"
      "determine_writes_from_output E d (vo_status (vt_output output)) (vt_writes output) (vt_chi_used output) chi_cost
         sender charge = Inr base"
      "materialize_writes E d base deltas = Inr writes"
      "vo_status (vt_output output) \<noteq> 0 \<Longrightarrow> deltas = []"
      "xr_state (pp_tx_result p) = writes" "xr_status (pp_tx_result p) = vo_status (vt_output output)"
      "d' = apply_tx_result E writes d"
      using assms(1) p
      by (auto simp: process_tx_output_def Let_def split: sum.splits if_splits prod.splits elim!: rbind_InrE)
    note det = determine_writes [OF *(2) assms(2)]
    note mat = materialize_writes_keys [OF *(3) det(1)]
    show ?thesis using *(1,4,5,6,7) det(3) mat by auto
  qed
qed

lemma respond_returns:
  assumes "payload_field tx ''contract'' = Inr contract" "payload_field tx ''sender'' = Inr sender"
  obtains r where "respond tx output p track = Inr r" "rs_tx_result r = Some (pp_tx_result p)"
proof -
  obtain payload where "dindex tx ''payload'' = Inr payload" "dindex payload ''sender'' = Inr sender"
    using assms(2) by (auto simp: payload_field_def elim!: rbind_InrE)
  then show thesis
    using assms(1) that by (cases track) (auto simp: respond_def build_access_record_def)
qed

definition effects_of :: "'d proc_env \<Rightarrow> pyval \<Rightarrow> bool \<Rightarrow> tx_result option \<Rightarrow> 'd \<Rightarrow> 'd \<Rightarrow> bool" where
  "effects_of E tx charge result d d' \<longleftrightarrow>
     (case result of
        None \<Rightarrow> same_state (px_driver E) d' d
      | Some r \<Rightarrow>
          dict_wf (xr_state r) \<and> sorted (map fst (xr_state r)) \<and>
          d_get (px_driver E) d' = (\<lambda>k. case map_of (xr_state r) k of Some v \<Rightarrow> v | None \<Rightarrow> d_get (px_driver E) d k) \<and>
          d_value_from_disk (px_driver E) d' = d_value_from_disk (px_driver E) d \<and>
          (\<exists>sender. payload_field tx ''sender'' = Inr sender \<and>
             (xr_status r \<noteq> 0 \<longrightarrow>
                fst ` set (xr_state r) \<subseteq> (if charge then {metering_write_key (px_driver E) sender} else {}))))"

lemma effects_of_same:
  assumes "driver_laws (px_driver E)" "same_state (px_driver E) e d" "same_state (px_driver E) d' e'"
    "effects_of E tx charge r e e'"
  shows "effects_of E tx charge r d d'"
proof (cases r)
  case None
  then show ?thesis using assms by (auto simp: effects_of_def same_state_def)
next
  case (Some x)
  then show ?thesis
    using assms same_state_get [OF assms(1,2)] same_state_get [OF assms(1,3)]
    by (simp add: effects_of_def same_state_def cong: option.case_cong)
qed

lemma process_guarded_effects:
  assumes laws: "driver_laws (px_driver E)" "vm_confined (px_driver E) (px_vm E)"
    and run: "process_guarded E tx rewards policy track chi_cost env st = (r, st')"
  shows "effects_of E tx (charge_fees policy) (rs_tx_result r) (ps_driver st) (ps_driver st')"
proof -
  obtain q st1 where q: "execute_tx E tx chi_cost env (meter_execution policy) (charge_fees policy) st = (q, st1)" by fastforce
  note same = execute_tx_same [OF laws q]
  show ?thesis
  proof (cases "\<exists>out. q = Inr (Some out)")
    case False
    then have "r = no_result" "st' = st1"
      using run q by (auto simp: process_guarded_def split: sum.splits option.splits)
    with same(1) show ?thesis by (simp add: effects_of_def no_result_def)
  next
    case True
    then obtain out where out: "q = Inr (Some out)" by blast
    obtain x d where x: "process_tx_output E out tx chi_cost (charge_fees policy) (distribute_fee_rewards policy \<and> rewards)
        track (ps_driver st1) = (x, d)" by fastforce
    note spec = process_tx_output_spec [OF x same(3) [OF out]]
    show ?thesis
    proof (cases x)
      case (Inl e)
      then have "r = no_result" "ps_driver st' = ps_driver st1"
        using run q out x spec(1) [OF Inl] by (auto simp: process_guarded_def)
      with same(1) show ?thesis by (simp add: effects_of_def no_result_def)
    next
      case (Inr p)
      obtain contract where "payload_field tx ''contract'' = Inr contract" using same(4) [OF out] by blast
      moreover obtain sender where "payload_field tx ''sender'' = Inr sender" using spec(2) [OF Inr] by blast
      ultimately obtain y where y: "respond tx out p track = Inr y" "rs_tx_result y = Some (pp_tx_result p)"
        by (rule respond_returns)
      have "r = y" "ps_driver st' = d"
        using run q out x Inr y by (auto simp: process_guarded_def update_chi_cost_cache_def split: option.splits)
      moreover have "effects_of E tx (charge_fees policy) (Some (pp_tx_result p)) (ps_driver st1) d"
        using spec(2) [OF Inr] laws(1)
        by (auto simp: effects_of_def apply_tx_result_get apply_tx_result_disk)
      ultimately show ?thesis
        using effects_of_same [OF laws(1) same(1) same_state_refl] y(2) by simp
    qed
  qed
qed

lemma process_tx_state:
  assumes "driver_laws (px_driver E)" "vm_confined (px_driver E) (px_vm E)"
    and run: "process_tx E tx rewards (Some policy) track st = (Inr r, st')"
  shows "effects_of E tx (charge_fees policy) (rs_tx_result r) (ps_driver st) (ps_driver st')"
proof -
  let ?D = "px_driver E"
  define st1 where "st1 = st\<lparr>ps_driver := d_set_read_tracking ?D track (ps_driver st)\<rparr>"
  obtain env c st2 st3 where env: "get_chi_cost E st1 = Inr (c, st2)"
    and guarded: "process_guarded E tx rewards policy track c env st2 = (r, st3)"
      "st' = st3\<lparr>ps_driver := d_set_read_tracking ?D (d_read_tracking ?D (ps_driver st)) (ps_driver st3)\<rparr>"
    using run by (auto simp: process_tx_def Let_def st1_def split: sum.splits prod.splits elim!: rbind_InrE)
  have "ps_driver st2 = d_set_read_tracking ?D track (ps_driver st)"
    using env by (auto simp: get_chi_cost_def Let_def st1_def split: option.splits elim!: rbind_InrE)
  then have "same_state ?D (ps_driver st2) (ps_driver st)" "same_state ?D (ps_driver st') (ps_driver st3)"
    using assms(1) by (simp_all add: guarded(2))
  from effects_of_same [OF assms(1) this process_guarded_effects [OF assms(1,2) guarded(1)]]
  show ?thesis .
qed

text \<open>C5: What a transaction does to the state.  Without a result nothing changed.  With a result
  the state afterwards is the state before with exactly the reported writes, in key order and
  each key once, still off the disk; and a failed transaction writes at most the balance that
  pays its fee, and nothing where fees are not charged.\<close>

theorem process_tx_effects:
  assumes "driver_laws (px_driver E)" "vm_confined (px_driver E) (px_vm E)"
    and "process_tx E tx rewards (Some policy) track st = (Inr r, st')"
  shows "effects_of E tx (charge_fees policy) (rs_tx_result r) (ps_driver st) (ps_driver st')"
  using assms by (rule process_tx_state)

text \<open>A processor on the sample machine, and a call that fails.\<close>

definition sample_proc :: "mem_db proc_env" where
  "sample_proc =
     \<lparr>px_driver = mem_driver, px_vm = sample_vm, px_rewards = whole_env, px_convert_dict = Inr,
      px_encode_wire = (\<lambda>_. Inr ''wire''), px_sha3_256_hex = id, px_safe_repr = id,
      px_from_datetime = (\<lambda>_. PDatetime ''now''), px_text = sample_text, px_fuel = 5\<rparr>"

definition sample_call :: "string \<Rightarrow> pyval" where
  "sample_call func =
     PDict [(PStr ''payload'', PDict [(PStr ''sender'', PStr ''ab''), (PStr ''contract'', PStr ''con''),
              (PStr ''function'', PStr func), (PStr ''kwargs'', PDict []), (PStr ''chi_supplied'', PInt 100)]),
            (PStr ''metadata'', PDict [(PStr ''signature'', PStr ''s'')]),
            (PStr ''b_meta'', PDict [(PStr ''nanos'', PInt 5), (PStr ''height'', PInt 1), (PStr ''hash'', PStr ''h''),
              (PStr ''chain_id'', PStr ''xian-1'')])]"

definition sample_state :: "mem_db proc" where
  "sample_state = \<lparr>ps_driver = sample_funds, ps_chi_cost = Some (PInt 2), ps_prepared = []\<rparr>"

lemma sample_proc_confined: "vm_confined (px_driver sample_proc) (px_vm sample_proc)"
  by (auto simp: vm_confined_def sample_proc_def sample_vm_def mem_driver_def)

theorem process_tx_effects_witness:
  "effects_of sample_proc (sample_call ''fail'') True
     (case fst (process_tx sample_proc (sample_call ''fail'') True (Some (paid_metered None None)) False sample_state) of
        Inr r \<Rightarrow> rs_tx_result r | Inl e \<Rightarrow> None)
     sample_funds
     (ps_driver (snd (process_tx sample_proc (sample_call ''fail'') True (Some (paid_metered None None)) False sample_state)))"
proof -
  obtain r st' where run: "process_tx sample_proc (sample_call ''fail'') True (Some (paid_metered None None)) False sample_state = (Inr r, st')"
  proof -
    have "case process_tx sample_proc (sample_call ''fail'') True (Some (paid_metered None None)) False sample_state of
      (Inr r, st') \<Rightarrow> map_option xr_state (rs_tx_result r) = Some [(''currency.balances:ab'', PInt 45)] | _ \<Rightarrow> False"
      by code_simp
    then show thesis using that by (auto split: prod.splits sum.splits)
  qed
  have "driver_laws (px_driver sample_proc)" by (simp add: sample_proc_def mem_driver_laws)
  moreover have "charge_fees (paid_metered None None)" "ps_driver sample_state = sample_funds"
    by (simp_all add: paid_metered_def sample_state_def)
  ultimately show ?thesis
    using process_tx_effects [OF _ sample_proc_confined run] unfolding run by simp
qed

text \<open>The chi cost cached within a block is not the one the next block reads.  When a
  transaction sets the cost to zero, the cache of the processor that ran it says zero, while a
  processor that starts from the same state, like a worker process or the next block, says one.\<close>

theorem chi_cost_cache_incoherent:
  "let zero = [(chi_cost_key sample_proc, PInt 0)];
       st = update_chi_cost_cache sample_proc zero (sample_state\<lparr>ps_driver := apply_tx_result sample_proc zero sample_funds\<rparr>)
   in map_sum id fst (get_chi_cost sample_proc st) = Inr (PInt 0) \<and>
      map_sum id fst (get_chi_cost sample_proc (reset_block_cache st)) = Inr (PInt 1)"
  by code_simp

end
