(* ===== verification/Admission.thy ===== *)
theory Admission
  imports Nonce_Storage
begin

text \<open>
  Admission of transactions: \<^verbatim>\<open>CheckTx\<close> into the local mempool
  (\<^verbatim>\<open>src/src/xian/methods/check_tx.py\<close>), \<^verbatim>\<open>PrepareProposal\<close> and
  \<^verbatim>\<open>ProcessProposal\<close> (\<^verbatim>\<open>prepare_proposal.py\<close>, \<^verbatim>\<open>process_proposal.py\<close>) and the
  decoding of a decided block (\<^verbatim>\<open>finalize_block.py\<close>).  The last three run the same check
  of one transaction against the running nonce and chi totals; the locale
  \<open>sequential_admission\<close> holds what follows from that alone.
\<close>

section \<open>Configuration\<close>

text \<open>The node's settings, and the third-party functions the checks call.\<close>

record node_cfg =
  cfg_env :: static_env
  cfg_chain_id :: string
  cfg_max_tx_bytes :: "nat option"
  cfg_fee_policy :: fee_policy
  cfg_int_of_text :: "string \<Rightarrow> int res"
  cfg_num_ops :: num_ops
  cfg_convert_dict :: "pyval \<Rightarrow> pyval res"
  cfg_sha256_hex :: "string \<Rightarrow> string"

definition decode_static :: "node_cfg \<Rightarrow> string \<Rightarrow> pyval res" where
  "decode_static cfg raw_tx =
     decode_and_validate_transaction_static_bytes (cfg_env cfg) (cfg_chain_id cfg) (cfg_max_tx_bytes cfg) raw_tx"

section \<open>CheckTx\<close>

definition none_or :: "pyval \<Rightarrow> pyval \<Rightarrow> pyval" where
  "none_or v alt = (if v = PNone then alt else v)"

definition wrap_failure :: "string \<Rightarrow> 'a res \<Rightarrow> 'a res" where
  "wrap_failure msg r = (case r of Inl e \<Rightarrow> Inl (TransactionException (msg @ exc_text e)) | Inr x \<Rightarrow> Inr x)"

text \<open>The balance check of \<^verbatim>\<open>validate_transaction_after_static\<close>.\<close>

definition check_balance :: "'d driver \<Rightarrow> 'd \<Rightarrow> node_cfg \<Rightarrow> pyval \<Rightarrow> unit res" where
  "check_balance D d cfg tx =
     rbind (wrap_failure ''Failed to retrieve 'currency' balance for sender: ''
        (rbind (payload_field tx ''sender'') (\<lambda>sender. d_get_var D d ''currency'' ''balances'' [sender]))) (\<lambda>balance.
     rbind (wrap_failure ''Failed to get chi cost: '' (d_get_var D d ''chi_cost'' ''S'' [PStr ''value''])) (\<lambda>chi_rate.
     rbind (payload_field tx ''contract'') (\<lambda>contract.
     rbind (payload_field tx ''function'') (\<lambda>func.
     rbind (payload_field tx ''chi_supplied'') (\<lambda>chi_supplied.
     rbind (payload_field tx ''kwargs'') (\<lambda>kwargs.
     if \<not> is_dict kwargs then Inl (OtherError ''AttributeError'')
     else let amount = none_or (dget_or kwargs ''amount'' PNone) (PInt 0) in
          rbind (if is_dict amount then cfg_convert_dict cfg amount else Inr amount) (\<lambda>amount.
          check_enough_chi (cfg_num_ops cfg) (none_or balance (PInt 0)) (none_or chi_rate (PInt 20))
            (none_or chi_supplied (PInt 0)) contract func amount)))))))"

definition validate_transaction_after_static ::
    "'d driver \<Rightarrow> 'd \<Rightarrow> node_cfg \<Rightarrow> fee_policy option \<Rightarrow> int \<times> int \<times> int \<Rightarrow> pyval \<Rightarrow> string \<Rightarrow> nonce_storage
      \<Rightarrow> unit res \<times> nonce_storage" where
  "validate_transaction_after_static D d cfg policy clock tx tx_hash st =
     (case rbind (case policy of None \<Rightarrow> Inr () | Some p \<Rightarrow> validate_tx (cfg_int_of_text cfg) p tx) (\<lambda>_.
           case policy of
             Some p \<Rightarrow> if \<not> require_chi_balance p then Inr () else check_balance D d cfg tx
           | None \<Rightarrow> check_balance D d cfg tx) of
        Inl e \<Rightarrow> (Inl e, st)
      | Inr _ \<Rightarrow> check_nonce D d clock tx tx_hash st)"

definition validate_transaction ::
    "'d driver \<Rightarrow> 'd \<Rightarrow> node_cfg \<Rightarrow> fee_policy option \<Rightarrow> int \<times> int \<times> int \<Rightarrow> pyval \<Rightarrow> string \<Rightarrow> nonce_storage
      \<Rightarrow> unit res \<times> nonce_storage" where
  "validate_transaction D d cfg policy clock tx tx_hash st =
     (case validate_transaction_static (cfg_env cfg) (cfg_chain_id cfg) tx of
        Inl e \<Rightarrow> (Inl e, st)
      | Inr _ \<Rightarrow> validate_transaction_after_static D d cfg policy clock tx tx_hash st)"

definition OkCode :: int where "OkCode = 0"
definition ErrorCode :: int where "ErrorCode = 1"

definition check_tx :: "'d driver \<Rightarrow> 'd \<Rightarrow> node_cfg \<Rightarrow> int \<times> int \<times> int \<Rightarrow> string \<Rightarrow> nonce_storage \<Rightarrow> int \<times> nonce_storage" where
  "check_tx D d cfg clock raw_tx st =
     (case decode_static cfg raw_tx of
        Inl _ \<Rightarrow> (ErrorCode, st)
      | Inr tx \<Rightarrow>
          (case validate_transaction_after_static D d cfg (Some (cfg_fee_policy cfg)) clock tx
                  (cfg_sha256_hex cfg raw_tx) st of
             (Inl _, st) \<Rightarrow> (ErrorCode, st)
           | (Inr _, st) \<Rightarrow> (OkCode, st)))"

section \<open>Proposals and blocks\<close>

text \<open>The running totals of a proposal: the nonce tracker and the chi supplied so far.\<close>

record totals =
  nonces :: nonce_tracker
  block_chi_supplied :: int

definition new_totals :: "(string \<Rightarrow> int option) \<Rightarrow> totals" where
  "new_totals getter = \<lparr>nonces = sequential_nonce_tracker getter, block_chi_supplied = 0\<rparr>"

definition admit_decoded :: "node_cfg \<Rightarrow> totals \<Rightarrow> pyval \<Rightarrow> totals res" where
  "admit_decoded cfg acc tx =
     rbind (validate_tx (cfg_int_of_text cfg) (cfg_fee_policy cfg) tx) (\<lambda>_.
     rbind (tx_chi_supplied (cfg_int_of_text cfg) tx) (\<lambda>chi.
     let next_block_chi_supplied = block_chi_supplied acc + chi in
     rbind (validate_block_total (cfg_fee_policy cfg) next_block_chi_supplied) (\<lambda>_.
     rbind (validate_consensus_transaction_after_static (nonces acc) tx) (\<lambda>tracker.
     Inr \<lparr>nonces = tracker, block_chi_supplied = next_block_chi_supplied\<rparr>))))"

definition admit :: "node_cfg \<Rightarrow> totals \<Rightarrow> string \<Rightarrow> totals res" where
  "admit cfg acc raw_tx = rbind (decode_static cfg raw_tx) (admit_decoded cfg acc)"

fun prepare_loop :: "node_cfg \<Rightarrow> nat \<Rightarrow> nat \<Rightarrow> totals \<Rightarrow> string list \<Rightarrow> string list" where
  "prepare_loop cfg max_tx_bytes block_tx_bytes acc [] = []"
| "prepare_loop cfg max_tx_bytes block_tx_bytes acc (raw_tx # rest) =
     (let next_block_tx_bytes = block_tx_bytes + length raw_tx in
      if max_tx_bytes < next_block_tx_bytes then prepare_loop cfg max_tx_bytes block_tx_bytes acc rest
      else case admit cfg acc raw_tx of
             Inl _ \<Rightarrow> prepare_loop cfg max_tx_bytes block_tx_bytes acc rest
           | Inr acc' \<Rightarrow> raw_tx # prepare_loop cfg max_tx_bytes next_block_tx_bytes acc' rest)"

definition prepare_proposal :: "node_cfg \<Rightarrow> (string \<Rightarrow> int option) \<Rightarrow> nat \<Rightarrow> string list \<Rightarrow> string list" where
  "prepare_proposal cfg get_committed_nonce max_tx_bytes txs =
     prepare_loop cfg max_tx_bytes 0 (new_totals get_committed_nonce) txs"

fun process_loop :: "node_cfg \<Rightarrow> totals \<Rightarrow> string list \<Rightarrow> bool" where
  "process_loop cfg acc [] = True"
| "process_loop cfg acc (raw_tx # rest) =
     (case admit cfg acc raw_tx of Inl _ \<Rightarrow> False | Inr acc' \<Rightarrow> process_loop cfg acc' rest)"

text \<open>True is ACCEPT, False is REJECT.\<close>

definition process_proposal :: "node_cfg \<Rightarrow> (string \<Rightarrow> int option) \<Rightarrow> string list \<Rightarrow> bool" where
  "process_proposal cfg get_committed_nonce txs = process_loop cfg (new_totals get_committed_nonce) txs"

text \<open>An entry of a decided block: an error result, or a decoded transaction with its bytes.\<close>

datatype block_entry = EntryError string | EntryTx pyval string

definition attach_b_meta :: "pyval \<Rightarrow> pyval \<Rightarrow> pyval" where
  "attach_b_meta b_meta tx =
     (case tx of PDict kvs \<Rightarrow> PDict (AList.update (PStr ''b_meta'') b_meta kvs) | _ \<Rightarrow> tx)"

fun decode_loop :: "node_cfg \<Rightarrow> pyval \<Rightarrow> totals \<Rightarrow> string list \<Rightarrow> block_entry list" where
  "decode_loop cfg b_meta acc [] = []"
| "decode_loop cfg b_meta acc (tx_bytes # rest) =
     (case decode_static cfg tx_bytes of
        Inl e \<Rightarrow> EntryError (''Error decoding transaction: '' @ exc_text e) # decode_loop cfg b_meta acc rest
      | Inr tx \<Rightarrow>
          (case admit_decoded cfg acc tx of
             Inl e \<Rightarrow> EntryError (''Invalid transaction in block: '' @ exc_text e) # decode_loop cfg b_meta acc rest
           | Inr acc' \<Rightarrow> EntryTx (attach_b_meta b_meta tx) tx_bytes # decode_loop cfg b_meta acc' rest))"

definition decode_block_transactions ::
    "node_cfg \<Rightarrow> (string \<Rightarrow> int option) \<Rightarrow> pyval \<Rightarrow> string list \<Rightarrow> block_entry list" where
  "decode_block_transactions cfg get_committed_nonce b_meta txs =
     decode_loop cfg b_meta (new_totals get_committed_nonce) txs"

fun decoded_txs :: "block_entry list \<Rightarrow> pyval list" where
  "decoded_txs [] = []"
| "decoded_txs (EntryTx tx _ # es) = tx # decoded_txs es"
| "decoded_txs (EntryError _ # es) = decoded_txs es"

fun is_error_entry :: "block_entry \<Rightarrow> bool" where
  "is_error_entry (EntryError _) = True"
| "is_error_entry (EntryTx _ _) = False"

section \<open>One check, three users\<close>

text \<open>
  The contract between the three loops: selection keeps what is admitted and fits, acceptance
  demands that everything is admitted, and judging records for each item whether it is.
\<close>

locale sequential_admission =
  fixes step :: "'s \<Rightarrow> 'r \<Rightarrow> 's res"
    and weight :: "'r \<Rightarrow> nat"
    and select :: "nat \<Rightarrow> nat \<Rightarrow> 's \<Rightarrow> 'r list \<Rightarrow> 'r list"
    and accepts :: "'s \<Rightarrow> 'r list \<Rightarrow> bool"
    and verdicts :: "'s \<Rightarrow> 'r list \<Rightarrow> bool list"
  assumes select_Nil: "select limit used s [] = []"
    and select_Cons: "select limit used s (x # xs) =
      (if limit < used + weight x then select limit used s xs
       else case step s x of
              Inl _ \<Rightarrow> select limit used s xs
            | Inr s' \<Rightarrow> x # select limit (used + weight x) s' xs)"
    and accepts_Nil: "accepts s []"
    and accepts_Cons: "accepts s (x # xs) = (case step s x of Inl _ \<Rightarrow> False | Inr s' \<Rightarrow> accepts s' xs)"
    and verdicts_Nil: "verdicts s [] = []"
    and verdicts_Cons: "verdicts s (x # xs) =
      (case step s x of Inl _ \<Rightarrow> False # verdicts s xs | Inr s' \<Rightarrow> True # verdicts s' xs)"
begin

lemma accepts_select: "accepts s (select limit used s xs)"
proof (induction xs arbitrary: s used)
  case (Cons x xs)
  then show ?case by (cases "step s x") (simp_all add: select_Cons accepts_Cons)
qed (simp add: select_Nil accepts_Nil)

lemma select_fits: "used \<le> limit \<Longrightarrow> used + sum_list (map weight (select limit used s xs)) \<le> limit"
proof (induction xs arbitrary: s used)
  case (Cons x xs)
  show ?case
  proof (cases "limit < used + weight x")
    case True
    with Cons show ?thesis by (simp add: select_Cons)
  next
    case False
    with Cons.IH [of "used + weight x"] Cons show ?thesis
      by (cases "step s x") (simp_all add: select_Cons add.assoc)
  qed
qed (simp add: select_Nil)

lemma select_subseq: "subseq (select limit used s xs) xs"
proof (induction xs arbitrary: s used)
  case (Cons x xs)
  then show ?case by (cases "step s x") (auto simp: select_Cons)
qed (simp add: select_Nil)

lemma select_accepted:
  "accepts s xs \<Longrightarrow> used + sum_list (map weight xs) \<le> limit \<Longrightarrow> select limit used s xs = xs"
proof (induction xs arbitrary: s used)
  case (Cons x xs)
  then obtain s' where "step s x = Inr s'" "accepts s' xs"
    by (auto simp: accepts_Cons split: sum.splits)
  with Cons show ?case by (simp add: select_Cons add.assoc)
qed (simp add: select_Nil)

lemma verdicts_accepts: "accepts s xs \<longleftrightarrow> (\<forall>b\<in>set (verdicts s xs). b)"
proof (induction xs arbitrary: s)
  case (Cons x xs)
  then show ?case by (cases "step s x") (simp_all add: accepts_Cons verdicts_Cons)
qed (simp add: accepts_Nil verdicts_Nil)

lemma length_verdicts: "length (verdicts s xs) = length xs"
proof (induction xs arbitrary: s)
  case (Cons x xs)
  then show ?case by (cases "step s x") (simp_all add: verdicts_Cons)
qed (simp add: verdicts_Nil)

end

lemma admit_eq: "admit cfg acc raw = (case decode_static cfg raw of Inl e \<Rightarrow> Inl e | Inr tx \<Rightarrow> admit_decoded cfg acc tx)"
  by (simp add: admit_def rbind_def)

interpretation proposals: sequential_admission "admit cfg" length
    "\<lambda>limit used acc. prepare_loop cfg limit used acc" "process_loop cfg"
    "\<lambda>acc txs. map (\<lambda>e. \<not> is_error_entry e) (decode_loop cfg b_meta acc txs)" for cfg b_meta
  by unfold_locales (auto simp: Let_def admit_eq split: sum.split)

lemma length_decode_loop: "length (decode_loop cfg b_meta acc txs) = length txs"
  using proposals.length_verdicts [of cfg b_meta acc txs] by simp

section \<open>What an accepted transaction does to the totals\<close>

definition tx_sender :: "pyval \<Rightarrow> string option" where
  "tx_sender tx = (case payload_field tx ''sender'' of Inr (PStr s) \<Rightarrow> Some s | _ \<Rightarrow> None)"

definition tx_nonce :: "pyval \<Rightarrow> int option" where
  "tx_nonce tx = (case payload_field tx ''nonce'' of Inr v \<Rightarrow> int_value v | Inl _ \<Rightarrow> None)"

definition tx_chi :: "node_cfg \<Rightarrow> pyval \<Rightarrow> int" where
  "tx_chi cfg tx = (case tx_chi_supplied (cfg_int_of_text cfg) tx of Inr chi \<Rightarrow> chi | Inl _ \<Rightarrow> 0)"

definition first_nonce :: "(string \<Rightarrow> int option) \<Rightarrow> string \<Rightarrow> int" where
  "first_nonce get_committed_nonce s = (case get_committed_nonce s of None \<Rightarrow> 0 | Some n \<Rightarrow> n + 1)"

lemma expected_nonce_start: "expected_nonce (nonces (new_totals g)) s = first_nonce g s"
  by (simp add: new_totals_def sequential_nonce_tracker_def expected_nonce_def first_nonce_def)

lemma validate_and_advance_Inr:
  assumes "validate_and_advance tr tx = Inr tr'"
  shows "\<exists>s. tx_sender tx = Some s \<and> tx_nonce tx = Some (expected_nonce tr s) \<and>
    (\<forall>s'. expected_nonce tr' s' = expected_nonce tr s' + (if s' = s then 1 else 0))"
proof -
  from assms obtain v n where v: "payload_field tx ''sender'' = Inr v" and n: "payload_field tx ''nonce'' = Inr n"
    and r: "(if \<not> is_str v then Inl (TypeError ''sender is not a string'')
      else let expected = expected_nonce tr (str_of v) in
        if int_value n \<noteq> Some expected then Inl (nonce_mismatch expected n)
        else Inr (tr\<lparr>latest_nonces := AList.update (str_of v) expected (latest_nonces tr)\<rparr>)) = Inr tr'"
    unfolding validate_and_advance_def by (elim rbind_InrE)
  from r obtain s where s: "v = PStr s" by (cases v) auto
  from r have e: "int_value n = Some (expected_nonce tr s)"
    and tr': "tr' = tr\<lparr>latest_nonces := AList.update s (expected_nonce tr s) (latest_nonces tr)\<rparr>"
    by (simp_all add: s Let_def split: if_splits)
  have "expected_nonce tr' s' = expected_nonce tr s' + (if s' = s then 1 else 0)" for s'
    by (cases "s' = s") (auto simp: tr' expected_nonce_def dict_simps Let_def split: option.split)
  with v n e s show ?thesis by (auto simp: tx_sender_def tx_nonce_def)
qed

lemma admit_decoded_Inr:
  assumes "admit_decoded cfg acc tx = Inr acc'"
  shows "\<exists>s. tx_sender tx = Some s \<and> tx_nonce tx = Some (expected_nonce (nonces acc) s) \<and>
      (\<forall>s'. expected_nonce (nonces acc') s' = expected_nonce (nonces acc) s' + (if s' = s then 1 else 0))"
    and "block_chi_supplied acc' = block_chi_supplied acc + tx_chi cfg tx"
    and "max_block_chi (cfg_fee_policy cfg) = Some limit \<Longrightarrow> block_chi_supplied acc' \<le> limit"
    and "0 \<le> tx_chi cfg tx"
proof -
  from assms obtain chi tracker where chi: "tx_chi_supplied (cfg_int_of_text cfg) tx = Inr chi"
    and block: "validate_block_total (cfg_fee_policy cfg) (block_chi_supplied acc + chi) = Inr ()"
    and tracker: "validate_and_advance (nonces acc) tx = Inr tracker"
    and acc': "Inr \<lparr>nonces = tracker, block_chi_supplied = block_chi_supplied acc + chi\<rparr> = Inr acc'"
    unfolding admit_decoded_def Let_def validate_consensus_transaction_after_static_def
    by (elim rbind_InrE) auto
  show "\<exists>s. tx_sender tx = Some s \<and> tx_nonce tx = Some (expected_nonce (nonces acc) s) \<and>
      (\<forall>s'. expected_nonce (nonces acc') s' = expected_nonce (nonces acc) s' + (if s' = s then 1 else 0))"
    using validate_and_advance_Inr [OF tracker] acc' by auto
  show "block_chi_supplied acc' = block_chi_supplied acc + tx_chi cfg tx" using acc' chi by (auto simp: tx_chi_def)
  show "block_chi_supplied acc' \<le> limit" if "max_block_chi (cfg_fee_policy cfg) = Some limit"
    using block acc' that by (auto simp: validate_block_total_Inr_iff)
  show "0 \<le> tx_chi cfg tx" using tx_chi_supplied_nonneg [OF chi] by (simp add: tx_chi_def chi)
qed

lemma process_loop_Cons:
  assumes "process_loop cfg acc (raw # raws)"
  obtains tx acc' where "decode_static cfg raw = Inr tx" "admit_decoded cfg acc tx = Inr acc'"
    "process_loop cfg acc' raws"
  using assms by (auto simp: admit_eq split: sum.splits)

definition nonces_of :: "string \<Rightarrow> pyval list \<Rightarrow> int option list" where
  "nonces_of s txs = map tx_nonce (filter (\<lambda>tx. tx_sender tx = Some s) txs)"

definition consecutive_from :: "int \<Rightarrow> int option list \<Rightarrow> bool" where
  "consecutive_from start ns \<longleftrightarrow> ns = map (\<lambda>i. Some (start + int i)) [0..<length ns]"

lemma consecutive_from_Nil [simp]: "consecutive_from start []"
  by (simp add: consecutive_from_def)

lemma consecutive_from_Cons: "consecutive_from start (n # ns) \<longleftrightarrow> n = Some start \<and> consecutive_from (start + 1) ns"
  by (simp add: consecutive_from_def upt_conv_Cons map_Suc_upt [symmetric] add.assoc comp_def del: upt_Suc)

lemma process_loop_facts:
  assumes "process_loop cfg acc raws"
  shows "\<exists>txs. mapR (decode_static cfg) raws = Inr txs \<and>
    (\<forall>s. consecutive_from (expected_nonce (nonces acc) s) (nonces_of s txs)) \<and>
    (\<forall>limit. raws \<noteq> [] \<longrightarrow> max_block_chi (cfg_fee_policy cfg) = Some limit \<longrightarrow>
       block_chi_supplied acc + sum_list (map (tx_chi cfg) txs) \<le> limit)"
  using assms
proof (induction raws arbitrary: acc)
  case Nil
  then show ?case by (simp add: nonces_of_def)
next
  case (Cons raw raws)
  from process_loop_Cons [OF Cons.prems] obtain tx acc' where
    tx: "decode_static cfg raw = Inr tx" and step: "admit_decoded cfg acc tx = Inr acc'"
    and rest: "process_loop cfg acc' raws" .
  from Cons.IH [OF rest] obtain txs where txs: "mapR (decode_static cfg) raws = Inr txs"
    and nonces: "\<And>s. consecutive_from (expected_nonce (nonces acc') s) (nonces_of s txs)"
    and chi: "\<And>limit. raws \<noteq> [] \<Longrightarrow> max_block_chi (cfg_fee_policy cfg) = Some limit \<Longrightarrow>
       block_chi_supplied acc' + sum_list (map (tx_chi cfg) txs) \<le> limit"
    by blast
  from admit_decoded_Inr(1) [OF step] obtain s0 where
    s0: "tx_sender tx = Some s0" "tx_nonce tx = Some (expected_nonce (nonces acc) s0)"
      "\<And>s'. expected_nonce (nonces acc') s' = expected_nonce (nonces acc) s' + (if s' = s0 then 1 else 0)"
    by blast
  have "consecutive_from (expected_nonce (nonces acc) s) (nonces_of s (tx # txs))" for s
    using nonces [of s] s0 by (cases "s = s0") (auto simp: nonces_of_def consecutive_from_Cons)
  moreover have "block_chi_supplied acc + sum_list (map (tx_chi cfg) (tx # txs)) \<le> limit"
    if "max_block_chi (cfg_fee_policy cfg) = Some limit" for limit
  proof (cases "raws = []")
    case True
    with admit_decoded_Inr(2,3) [OF step] txs that show ?thesis by force
  next
    case False
    with chi [OF False that] admit_decoded_Inr(2) [OF step] show ?thesis by simp
  qed
  ultimately show ?case using tx txs by auto
qed

lemma check_nonce_first:
  assumes "check_nonce D d clock tx h st = (Inr (), st')" and "tx_sender tx = Some s"
    and "\<And>now. live (reservation_ttl st) now (sender_pending st s) = []"
  shows "tx_nonce tx = Some (first_nonce (get_nonce D d) s)"
proof -
  obtain t1 t2 t3 where clock: "clock = (t1, t2, t3)" by (rule prod_cases3)
  have s: "payload_field tx ''sender'' = Inr (PStr s)"
    using assms(2) by (auto simp: tx_sender_def split: sum.splits pyval.splits)
  from assms(1) obtain n where n: "payload_field tx ''nonce'' = Inr n"
    and c: "check_nonce_of D d (t1, t2, t3) s n h st = (Inr (), st')"
    by (auto simp: check_nonce_def s clock split: sum.splits) (cases "payload_field tx ''nonce''"; auto)+
  have "int_value n = Some (first_nonce (get_nonce D d) s)"
    by (cases rule: check_nonce_of_cases [of n t1 s st h D d t2 t3])
      (use c in \<open>auto simp: nonce_simps assms(3) committed_or_start_def first_nonce_def split: option.splits\<close>)
  then show ?thesis by (simp add: tx_nonce_def n)
qed

lemma validate_and_advance_ok:
  assumes "tx_sender tx = Some s" "tx_nonce tx = Some (expected_nonce tr s)"
  shows "\<exists>tr'. validate_and_advance tr tx = Inr tr'"
proof -
  have "payload_field tx ''sender'' = Inr (PStr s)"
    using assms(1) by (auto simp: tx_sender_def split: sum.splits pyval.splits)
  moreover obtain n where "payload_field tx ''nonce'' = Inr n" "int_value n = Some (expected_nonce tr s)"
    using assms(2) by (auto simp: tx_nonce_def split: sum.splits)
  ultimately show ?thesis by (simp add: validate_and_advance_def Let_def)
qed

lemma check_tx_Ok:
  assumes "check_tx D d cfg clock raw st = (OkCode, st')" "decode_static cfg raw = Inr tx"
  shows "validate_tx (cfg_int_of_text cfg) (cfg_fee_policy cfg) tx = Inr ()"
    and "check_nonce D d clock tx (cfg_sha256_hex cfg raw) st = (Inr (), st')"
proof -
  have v: "validate_transaction_after_static D d cfg (Some (cfg_fee_policy cfg)) clock tx (cfg_sha256_hex cfg raw) st
      = (Inr (), st')"
    using assms by (auto simp: check_tx_def OkCode_def ErrorCode_def split: prod.splits sum.splits)
  show "validate_tx (cfg_int_of_text cfg) (cfg_fee_policy cfg) tx = Inr ()"
    using v by (cases "validate_tx (cfg_int_of_text cfg) (cfg_fee_policy cfg) tx")
      (simp_all add: validate_transaction_after_static_def)
  show "check_nonce D d clock tx (cfg_sha256_hex cfg raw) st = (Inr (), st')"
    using v by (auto simp: validate_transaction_after_static_def split: sum.splits)
qed

section \<open>Properties\<close>

text \<open>A node with the free fee policy whose native decoder knows one-byte transactions.\<close>

definition sample_num_ops :: num_ops where
  "sample_num_ops =
     \<lparr>n_add = (\<lambda>_ _. Inr (PInt 0)), n_sub = (\<lambda>_ _. Inr (PInt 0)), n_mul = (\<lambda>_ _. Inr (PInt 0)),
      n_div = (\<lambda>_ _. Inr (PInt 0)), n_lt = (\<lambda>_ _. Inr True)\<rparr>"

definition sample_cfg :: node_cfg where
  "sample_cfg =
     \<lparr>cfg_env = sample_env\<lparr>se_native := Some (\<lambda>raw _.
        case raw of [c] \<Rightarrow> Inr (sample_tx (of_char c)) | _ \<Rightarrow> Inl (ValueError ''decode''))\<rparr>,
      cfg_chain_id = ''xian-1'', cfg_max_tx_bytes = Some 10, cfg_fee_policy = free_metered 100 120,
      cfg_int_of_text = (\<lambda>_. Inl (ValueError ''int'')), cfg_num_ops = sample_num_ops,
      cfg_convert_dict = Inr, cfg_sha256_hex = id\<rparr>"

abbreviation (input) raw0 :: string where "raw0 \<equiv> [CHR 0x00]"
abbreviation (input) raw1 :: string where "raw1 \<equiv> [CHR 0x01]"

text \<open>C8: A proposal that \<^verbatim>\<open>PrepareProposal\<close> builds is accepted by \<^verbatim>\<open>ProcessProposal\<close> on the same
  committed state, its transactions are offered ones in the offered order, and together they
  are at most \<^verbatim>\<open>max_tx_bytes\<close> long.\<close>

theorem prepared_proposal_accepted:
  "process_proposal cfg g (prepare_proposal cfg g max_tx_bytes txs) \<and>
   subseq (prepare_proposal cfg g max_tx_bytes txs) txs \<and>
   sum_list (map length (prepare_proposal cfg g max_tx_bytes txs)) \<le> max_tx_bytes"
  unfolding process_proposal_def prepare_proposal_def
  using proposals.accepts_select [of cfg "new_totals g" max_tx_bytes 0 txs]
    proposals.select_subseq [of cfg max_tx_bytes 0 "new_totals g" txs]
    proposals.select_fits [of 0 max_tx_bytes cfg "new_totals g" txs]
  by simp

text \<open>C10: Acceptance is exactly what finalization needs: a block passes \<^verbatim>\<open>ProcessProposal\<close> if and only
  if \<^verbatim>\<open>FinalizeBlock\<close> on the same committed state decodes every one of its transactions without
  an error entry, and finalization always has one entry for every transaction of the block.\<close>

theorem accepted_iff_decodes:
  "(process_proposal cfg g txs \<longleftrightarrow> filter is_error_entry (decode_block_transactions cfg g b_meta txs) = []) \<and>
   length (decode_block_transactions cfg g b_meta txs) = length txs"
  using proposals.verdicts_accepts [of cfg "new_totals g" txs b_meta]
  by (auto simp: process_proposal_def decode_block_transactions_def length_decode_loop filter_empty_conv)

text \<open>C9: In an accepted proposal the nonces of each sender are consecutive, start right after the
  sender's committed nonce (at 0 for a new sender) and appear in block order, and the chi the
  block's transactions supply together stays within the block limit of the fee policy.\<close>

theorem accepted_nonces_consecutive:
  assumes "process_proposal cfg g raws"
  shows "\<exists>txs. mapR (decode_static cfg) raws = Inr txs \<and>
    (\<forall>s. consecutive_from (first_nonce g s) (nonces_of s txs)) \<and>
    (\<forall>limit. raws \<noteq> [] \<longrightarrow> max_block_chi (cfg_fee_policy cfg) = Some limit \<longrightarrow>
       sum_list (map (tx_chi cfg) txs) \<le> limit)"
  using process_loop_facts [OF assms [unfolded process_proposal_def]]
  by (simp only: expected_nonce_start) (simp add: new_totals_def)

theorem accepted_nonces_consecutive_witness:
  "\<exists>txs. mapR (decode_static sample_cfg) [raw0, raw1] = Inr txs \<and>
    (\<forall>s. consecutive_from (first_nonce (\<lambda>_. None) s) (nonces_of s txs)) \<and>
    (\<forall>limit. [raw0, raw1] \<noteq> [] \<longrightarrow> max_block_chi (cfg_fee_policy sample_cfg) = Some limit \<longrightarrow>
       sum_list (map (tx_chi sample_cfg) txs) \<le> limit)"
  by (rule accepted_nonces_consecutive) code_simp

text \<open>A transaction that \<^verbatim>\<open>CheckTx\<close> admits for a sender without live reservations can be proposed
  at once: alone in a block it passes \<^verbatim>\<open>ProcessProposal\<close> on the same committed state, as long
  as its chi fits the block limit, which \<^verbatim>\<open>CheckTx\<close> does not look at.\<close>

theorem checked_tx_is_proposable:
  assumes "check_tx D d cfg clock raw st = (OkCode, st')"
    and "decode_static cfg raw = Inr tx" and "tx_sender tx = Some s"
    and "\<And>now. live (reservation_ttl st) now (sender_pending st s) = []"
    and "\<And>limit. max_block_chi (cfg_fee_policy cfg) = Some limit \<Longrightarrow> tx_chi cfg tx \<le> limit"
  shows "process_proposal cfg (get_nonce D d) [raw]"
proof -
  let ?acc = "new_totals (get_nonce D d)"
  note ok = check_tx_Ok [OF assms(1,2)]
  from ok(1) obtain chi where chi: "tx_chi_supplied (cfg_int_of_text cfg) tx = Inr chi"
    by (auto simp: validate_tx_Inr_iff)
  have "validate_block_total (cfg_fee_policy cfg) chi = Inr ()"
    using assms(5) by (simp add: validate_block_total_Inr_iff tx_chi_def chi)
  moreover obtain tr' where "validate_and_advance (nonces ?acc) tx = Inr tr'"
    using validate_and_advance_ok [OF assms(3), of "nonces ?acc"] check_nonce_first [OF ok(2) assms(3,4)]
    by (auto simp: expected_nonce_start)
  moreover have "block_chi_supplied ?acc = 0" by (simp add: new_totals_def)
  ultimately have "\<exists>acc'. admit_decoded cfg ?acc tx = Inr acc'"
    by (simp add: admit_decoded_def ok(1) chi validate_consensus_transaction_after_static_def)
  then show ?thesis by (auto simp: process_proposal_def admit_eq assms(2))
qed

theorem checked_tx_is_proposable_witness:
  "process_proposal sample_cfg (get_nonce mem_driver (mem_driver_start 4)) [raw0]"
proof (rule checked_tx_is_proposable [of _ _ _ "(1, 1, 1)" _ "new_nonce_storage 60 128"])
  show "check_tx mem_driver (mem_driver_start 4) sample_cfg (1, 1, 1) raw0 (new_nonce_storage 60 128) =
      (OkCode, snd (check_tx mem_driver (mem_driver_start 4) sample_cfg (1, 1, 1) raw0 (new_nonce_storage 60 128)))"
    by code_simp
  show "decode_static sample_cfg raw0 = Inr (sample_tx 0)" by code_simp
  show "tx_sender (sample_tx 0) = Some (replicate 64 CHR ''a'')" by code_simp
  have "tx_chi sample_cfg (sample_tx 0) = 50" by code_simp
  then show "tx_chi sample_cfg (sample_tx 0) \<le> limit"
    if "max_block_chi (cfg_fee_policy sample_cfg) = Some limit" for limit
    using that by (simp add: sample_cfg_def free_metered_def)
qed (simp add: new_nonce_storage_def sender_pending_def)

end
