(* ===== verification/State_Patches.thy ===== *)
theory State_Patches
  imports Abci_Json Driver Fee_Policy
begin

text \<open>
  Governed state patches (\<^verbatim>\<open>src/src/xian/utils/state_patches.py\<close>): loading of bundle files,
  the schedule in the governance contract's state, and the application of the bundles due at a
  height.  Third-party parts are in \<open>patch_env\<close>: SHA-256, the key of the VM code, the
  contract compiler, the decoder of runtime values and the text of a value.  A bundle file is its name and its parsed
  JSON, or the error of reading it.
\<close>

record patch_env =
  pe_sha256 :: "string \<Rightarrow> string"
  pe_vm_ir_key :: string
  pe_artifacts :: "string \<Rightarrow> pyval \<Rightarrow> (pyval \<times> pyval) res"
  pe_convert_dict :: "pyval \<Rightarrow> pyval res"
  pe_str :: "pyval \<Rightarrow> string"

record patch_change =
  pc_key :: string
  pc_value :: pyval
  pc_comment :: pyval

record patch_bundle =
  bu_patch_id :: string
  bu_activation_height :: pyval
  bu_governance_contract :: string
  bu_hash :: string
  bu_summary :: pyval
  bu_uri :: pyval
  bu_chain_id :: "string option"
  bu_changes :: "patch_change list"
  bu_file_path :: string

record patch_record =
  pr_patch_id :: string
  pr_proposal_id :: pyval
  pr_bundle_hash :: string
  pr_activation_height :: pyval
  pr_governance_contract :: string
  pr_summary :: pyval
  pr_uri :: pyval
  pr_emergency :: bool
  pr_status :: string

record patch_execution =
  ex_record :: patch_record
  ex_bundle :: patch_bundle
  ex_hash :: string
  ex_changes :: "patch_change list"

record patch_manager =
  pm_chain_id :: "string option"
  pm_governance_contract :: string
  pm_bundles :: "(string, patch_bundle) dict"
  pm_loaded :: bool

definition STATE_PATCH_BUNDLE_VERSION :: int where
  "STATE_PATCH_BUNDLE_VERSION = 1"

definition patch_id_ok :: "string \<Rightarrow> bool" where
  "patch_id_ok s =
     (3 \<le> length s \<and> length s \<le> 128 \<and>
      (let word = (\<lambda>c. of_char c \<in> {97 .. 122 :: nat} \<or> of_char c \<in> {48 .. 57 :: nat}) in
       word (hd s) \<and> list_all (\<lambda>c. word c \<or> c = CHR ''_'' \<or> c = CHR ''-'') s))"

section \<open>Hashes\<close>

text \<open>\<^verbatim>\<open>json.dumps(value, sort_keys=True, separators=(",", ":"))\<close> on values whose keys are text.\<close>

fun sort_keys :: "pyval \<Rightarrow> pyval" where
  "sort_keys (PDict kvs) =
     PDict (sort_key (\<lambda>kv. str_of (fst kv)) (map (\<lambda>kv. (fst kv, sort_keys (snd kv))) kvs))"
| "sort_keys (PList xs) = PList (map sort_keys xs)"
| "sort_keys (PTuple xs) = PTuple (map sort_keys xs)"
| "sort_keys v = v"

definition canonical_json_sorted :: "pyval \<Rightarrow> string res" where
  "canonical_json_sorted v = ascii_json_dumps (sort_keys v)"

definition hash_text :: "patch_env \<Rightarrow> string \<Rightarrow> string" where
  "hash_text P t = hash_bytes (pe_sha256 P) t"

definition canonical_change :: "patch_change \<Rightarrow> pyval" where
  "canonical_change c = PDict [(PStr ''comment'', pc_comment c), (PStr ''key'', PStr (pc_key c)), (PStr ''value'', pc_value c)]"

definition canonical_changes :: "patch_change list \<Rightarrow> pyval" where
  "canonical_changes cs = PList (map canonical_change (sort_key pc_key cs))"

definition opt_str :: "string option \<Rightarrow> pyval" where
  "opt_str s = (case s of None \<Rightarrow> PNone | Some t \<Rightarrow> PStr t)"

definition hash_from_bundle_payload ::
    "patch_env \<Rightarrow> string \<Rightarrow> pyval \<Rightarrow> string \<Rightarrow> string option \<Rightarrow> pyval \<Rightarrow> pyval \<Rightarrow> pyval \<Rightarrow> patch_change list \<Rightarrow> string res" where
  "hash_from_bundle_payload P patch_id activation_height governance_contract chain_id summary uri version changes =
     rbind (canonical_json_sorted (PDict
       [(PStr ''activation_height'', activation_height), (PStr ''chain_id'', opt_str chain_id),
        (PStr ''changes'', canonical_changes changes), (PStr ''governance_contract'', PStr governance_contract),
        (PStr ''patch_id'', PStr patch_id), (PStr ''summary'', summary), (PStr ''uri'', uri),
        (PStr ''version'', version)])) (\<lambda>t. Inr (hash_text P t))"

definition hash_from_execution_payload :: "patch_env \<Rightarrow> patch_record \<Rightarrow> patch_change list \<Rightarrow> string res" where
  "hash_from_execution_payload P r changes =
     rbind (canonical_json_sorted (PDict
       [(PStr ''activation_height'', pr_activation_height r), (PStr ''bundle_hash'', PStr (pr_bundle_hash r)),
        (PStr ''changes'', canonical_changes changes), (PStr ''emergency'', PBool (pr_emergency r)),
        (PStr ''governance_contract'', PStr (pr_governance_contract r)), (PStr ''patch_id'', PStr (pr_patch_id r)),
        (PStr ''proposal_id'', pr_proposal_id r)])) (\<lambda>t. Inr (hash_text P t))"

text \<open>The inner text of a value has the default separators, the outer one the compact ones.\<close>

definition hash_from_state_changes :: "patch_env \<Rightarrow> patch_change list \<Rightarrow> string res" where
  "hash_from_state_changes P changes =
     rbind (mapR (\<lambda>c. rbind (spaced_json_dumps (sort_keys (pc_value c))) (\<lambda>t. Inr (pc_key c, t))) changes) (\<lambda>serialized.
     rbind (canonical_json_sorted (PList (map (\<lambda>(k, t). PDict [(PStr ''key'', PStr k), (PStr ''value'', PStr t)])
              (sort_key fst serialized)))) (\<lambda>t. Inr (hash_text P t)))"

section \<open>Loading of bundles\<close>

definition suffix_of :: "string \<Rightarrow> string \<Rightarrow> bool" where
  "suffix_of end s = prefix (rev end) (rev s)"

fun normalize_changes :: "patch_env \<Rightarrow> string list \<Rightarrow> pyval list \<Rightarrow> patch_change list res" where
  "normalize_changes P seen_keys [] = Inr []"
| "normalize_changes P seen_keys (raw_change # rest) =
     (if \<not> is_dict raw_change then Inl (ValueError ''contains a non-object patch change'')
      else let key = dget_or raw_change ''key'' PNone in
        if \<not> is_str key \<or> str_of key = [] then Inl (ValueError ''contains a patch change with no key'')
        else if str_of key \<in> set seen_keys then Inl (ValueError ''contains duplicate key'')
        else if str_of key = ''__execution_policy''
        then Inl (ValueError ''cannot patch the protected execution policy'')
        else if suffix_of ''.__code__'' (str_of key) then Inl (ValueError ''cannot patch __code__ directly'')
        else if suffix_of (''.'' @ pe_vm_ir_key P) (str_of key) then Inl (ValueError ''cannot patch the VM code directly'')
        else rbind (normalize_changes P (str_of key # seen_keys) rest) (\<lambda>cs.
             Inr (\<lparr>pc_key = str_of key, pc_value = dget_or raw_change ''value'' PNone,
                   pc_comment = dget_or raw_change ''comment'' (PStr [])\<rparr> # cs)))"

definition load_bundle_file :: "patch_env \<Rightarrow> patch_manager \<Rightarrow> string \<Rightarrow> pyval res \<Rightarrow> patch_bundle res" where
  "load_bundle_file P pm file contents =
     rbind contents (\<lambda>payload.
     if \<not> is_dict payload then Inl (OtherError ''AttributeError'')
     else if int_value (dget_or payload ''version'' PNone) \<noteq> Some STATE_PATCH_BUNDLE_VERSION
     then Inl (ValueError ''has unsupported state patch bundle version'')
     else let patch_id = dget_or payload ''patch_id'' PNone in
     if \<not> is_str patch_id \<or> \<not> patch_id_ok (str_of patch_id) then Inl (ValueError ''has invalid patch_id'')
     else let activation_height = dget_or payload ''activation_height'' PNone in
     if (case int_value activation_height of None \<Rightarrow> True | Some h \<Rightarrow> h \<le> 0)
     then Inl (ValueError ''must set a positive activation_height'')
     else let governance = dget_or payload ''governance_contract'' (PStr (pm_governance_contract pm)) in
     if \<not> is_str governance \<or> str_of governance = [] then Inl (ValueError ''has invalid governance_contract'')
     else let chain_id = dget_or payload ''chain_id'' PNone in
     if chain_id \<noteq> PNone \<and> (\<not> is_str chain_id \<or> str_of chain_id = []) then Inl (ValueError ''has invalid chain_id'')
     else case dget_or payload ''changes'' PNone of
       PList (c # cs) \<Rightarrow>
         rbind (normalize_changes P [] (c # cs)) (\<lambda>changes.
         let chain = (if chain_id = PNone then None else Some (str_of chain_id));
             summary = dget_or payload ''summary'' (PStr []); uri = dget_or payload ''uri'' (PStr []) in
         rbind (dindex payload ''version'') (\<lambda>version.
         rbind (hash_from_bundle_payload P (str_of patch_id) activation_height (str_of governance) chain summary uri
                  version changes) (\<lambda>bundle_hash.
         Inr \<lparr>bu_patch_id = str_of patch_id, bu_activation_height = activation_height,
              bu_governance_contract = str_of governance, bu_hash = bundle_hash, bu_summary = summary, bu_uri = uri,
              bu_chain_id = chain, bu_changes = changes, bu_file_path = file\<rparr>)))
     | _ \<Rightarrow> Inl (ValueError ''must define a non-empty changes list''))"

fun load_bundles ::
    "patch_env \<Rightarrow> patch_manager \<Rightarrow> (string \<times> pyval res) list \<Rightarrow> (string, patch_bundle) dict \<Rightarrow> (string, patch_bundle) dict res" where
  "load_bundles P pm [] bundles = Inr bundles"
| "load_bundles P pm ((file, contents) # rest) bundles =
     rbind (load_bundle_file P pm file contents) (\<lambda>b.
     if map_of bundles (bu_patch_id b) \<noteq> None then Inl (ValueError ''duplicate patch_id in bundle inventory'')
     else load_bundles P pm rest (AList.update (bu_patch_id b) b bundles))"

text \<open>The files of the bundle directory in name order, or None when there is no directory.\<close>

definition load_patches ::
    "patch_env \<Rightarrow> (string \<times> pyval res) list option \<Rightarrow> patch_manager \<Rightarrow> unit res \<times> patch_manager" where
  "load_patches P files pm =
     (case files of
        None \<Rightarrow> (Inr (), pm\<lparr>pm_bundles := [], pm_loaded := True\<rparr>)
      | Some fs \<Rightarrow>
          (case load_bundles P pm fs [] of
             Inl e \<Rightarrow> (Inl e, pm\<lparr>pm_bundles := [], pm_loaded := False\<rparr>)
           | Inr bundles \<Rightarrow> (Inr (), pm\<lparr>pm_bundles := bundles, pm_loaded := True\<rparr>)))"

definition require_loaded :: "patch_manager \<Rightarrow> unit res" where
  "require_loaded pm =
     (if pm_loaded pm then Inr () else Inl (RuntimeError ''State patch bundle inventory is not loaded''))"

section \<open>The schedule\<close>

definition patch_var :: "'d driver \<Rightarrow> 'd \<Rightarrow> patch_manager \<Rightarrow> string \<Rightarrow> string \<Rightarrow> pyval res" where
  "patch_var D d pm patch_id field =
     d_get_var D d (pm_governance_contract pm) ''patches'' [PStr patch_id, PStr field]"

definition scheduled_prefix :: "patch_manager \<Rightarrow> int \<Rightarrow> string" where
  "scheduled_prefix pm height = pm_governance_contract pm @ ''.scheduled_patches:'' @ str_int height @ '':''"

definition is_int :: "pyval \<Rightarrow> bool" where
  "is_int v = (int_value v \<noteq> None)"

definition read_patch_fields :: "'d driver \<Rightarrow> 'd \<Rightarrow> patch_manager \<Rightarrow> int \<Rightarrow> string \<Rightarrow> string \<Rightarrow> patch_record res" where
  "read_patch_fields D d pm height patch_id status =
     rbind (patch_var D d pm patch_id ''proposal_id'') (\<lambda>proposal_id.
     rbind (patch_var D d pm patch_id ''bundle_hash'') (\<lambda>bundle_hash.
     rbind (patch_var D d pm patch_id ''activation_height'') (\<lambda>activation_height.
     rbind (patch_var D d pm patch_id ''summary'') (\<lambda>summary.
     rbind (patch_var D d pm patch_id ''uri'') (\<lambda>uri.
     rbind (patch_var D d pm patch_id ''emergency'') (\<lambda>emergency.
     if \<not> is_int proposal_id then Inl (ValueError ''missing proposal_id for governed state patch'')
     else if \<not> is_str bundle_hash \<or> str_of bundle_hash = []
     then Inl (ValueError ''missing bundle_hash for governed state patch'')
     else if int_value activation_height \<noteq> Some height
     then Inl (ValueError ''governed state patch has inconsistent activation height'')
     else Inr \<lparr>pr_patch_id = patch_id, pr_proposal_id = proposal_id, pr_bundle_hash = str_of bundle_hash,
            pr_activation_height = activation_height, pr_governance_contract = pm_governance_contract pm,
            pr_summary = py_or summary (PStr []), pr_uri = py_or uri (PStr []), pr_emergency = truthy emergency,
            pr_status = status\<rparr>))))))"

definition read_patch_record ::
    "'d driver \<Rightarrow> 'd \<Rightarrow> patch_manager \<Rightarrow> int \<Rightarrow> bool \<Rightarrow> string \<times> pyval \<Rightarrow> patch_record option res" where
  "read_patch_record D d pm height include_applied item =
     (let patch_id = drop (length (scheduled_prefix pm height)) (fst item) in
      if \<not> truthy (snd item) then Inr None
      else rbind (patch_var D d pm patch_id ''status'') (\<lambda>status.
      if status \<notin> {PStr ''approved'', PStr ''applied''} then Inr None
      else if status = PStr ''applied'' \<and> \<not> include_applied then Inr None
      else rbind (read_patch_fields D d pm height patch_id (str_of status)) (\<lambda>r. Inr (Some r))))"

fun somes :: "'a option list \<Rightarrow> 'a list" where
  "somes [] = []"
| "somes (None # xs) = somes xs"
| "somes (Some x # xs) = x # somes xs"

definition read_scheduled_patch_records ::
    "'d driver \<Rightarrow> 'd \<Rightarrow> patch_manager \<Rightarrow> int \<Rightarrow> bool \<Rightarrow> patch_record list res" where
  "read_scheduled_patch_records D d pm height include_applied =
     rbind (mapR (read_patch_record D d pm height include_applied) (d_items D d (scheduled_prefix pm height)))
       (\<lambda>rs. Inr (sort_key pr_patch_id (somes rs)))"

section \<open>Execution\<close>

fun split_dots :: "string \<Rightarrow> string list" where
  "split_dots [] = [[]]"
| "split_dots (c # s) =
     (if c = CHR ''.'' then [] # split_dots s
      else case split_dots s of p # ps \<Rightarrow> (c # p) # ps | [] \<Rightarrow> [[c]])"

definition is_source_key :: "string \<Rightarrow> bool" where
  "is_source_key key = (let parts = split_dots key in 1 < length parts \<and> parts ! 1 = ''__source__'')"

definition ir_key :: "patch_env \<Rightarrow> string \<Rightarrow> string" where
  "ir_key P key = hd (split_dots key) @ ''.'' @ pe_vm_ir_key P"

definition build_contract_artifacts_from_source :: "patch_env \<Rightarrow> patch_change \<Rightarrow> (pyval \<times> pyval) res" where
  "build_contract_artifacts_from_source P c = pe_artifacts P (hd (split_dots (pc_key c))) (pc_value c)"

definition ir_comment :: "patch_env \<Rightarrow> patch_change \<Rightarrow> pyval" where
  "ir_comment P c =
     PStr (''Persisted VM IR for '' @ (case pc_comment c of PStr s \<Rightarrow> s | v \<Rightarrow> pe_str P v))"

definition expand_change :: "patch_env \<Rightarrow> patch_change \<Rightarrow> patch_change list res" where
  "expand_change P c =
     (if is_source_key (pc_key c)
      then rbind (build_contract_artifacts_from_source P c) (\<lambda>(normalized_source, vm_ir_json).
           Inr [c\<lparr>pc_value := normalized_source\<rparr>,
                \<lparr>pc_key = ir_key P (pc_key c), pc_value = vm_ir_json, pc_comment = ir_comment P c\<rparr>])
      else Inr [c])"

definition build_applied_changes :: "patch_env \<Rightarrow> patch_bundle \<Rightarrow> patch_change list res" where
  "build_applied_changes P b =
     rbind (mapR (expand_change P) (bu_changes b)) (\<lambda>cs. Inr (sort_key pc_key (concat cs)))"

definition validate_bundle_against_record :: "patch_manager \<Rightarrow> patch_bundle \<Rightarrow> patch_record \<Rightarrow> unit res" where
  "validate_bundle_against_record pm b r =
     (if bu_hash b \<noteq> pr_bundle_hash r then Inl (ValueError ''state patch bundle hash mismatch'')
      else if int_value (bu_activation_height b) \<noteq> int_value (pr_activation_height r)
      then Inl (ValueError ''state patch activation height mismatch'')
      else if bu_governance_contract b \<noteq> pr_governance_contract r
      then Inl (ValueError ''state patch governance contract mismatch'')
      else if bu_chain_id b \<noteq> None \<and> pm_chain_id pm \<noteq> bu_chain_id b
      then Inl (ValueError ''state patch targets another chain_id'') else Inr ())"

definition build_execution :: "patch_env \<Rightarrow> patch_manager \<Rightarrow> patch_record \<Rightarrow> patch_execution res" where
  "build_execution P pm r =
     (case map_of (pm_bundles pm) (pr_patch_id r) of
        None \<Rightarrow> Inl (FileNotFoundError ''missing local state patch bundle for approved patch'')
      | Some b \<Rightarrow>
          rbind (validate_bundle_against_record pm b r) (\<lambda>_.
          rbind (build_applied_changes P b) (\<lambda>applied_changes.
          rbind (hash_from_execution_payload P r applied_changes) (\<lambda>h.
          Inr \<lparr>ex_record = r, ex_bundle = b, ex_hash = h, ex_changes = applied_changes\<rparr>))))"

definition build_executions ::
    "patch_env \<Rightarrow> 'd driver \<Rightarrow> 'd \<Rightarrow> patch_manager \<Rightarrow> int \<Rightarrow> bool \<Rightarrow> patch_execution list res" where
  "build_executions P D d pm height include_applied =
     rbind (require_loaded pm) (\<lambda>_.
     rbind (read_scheduled_patch_records D d pm height include_applied) (\<lambda>records.
     mapR (build_execution P pm) records))"

definition apply_change :: "patch_env \<Rightarrow> 'd driver \<Rightarrow> patch_change \<Rightarrow> 'd \<Rightarrow> 'd res" where
  "apply_change P D c d =
     (if is_source_key (pc_key c)
      then rbind (build_contract_artifacts_from_source P c) (\<lambda>(normalized_source, vm_ir_json).
           Inr (d_set D (ir_key P (pc_key c)) vm_ir_json (d_set D (pc_key c) normalized_source d)))
      else rbind (if is_dict (pc_value c) then pe_convert_dict P (pc_value c) else Inr (pc_value c)) (\<lambda>value.
           Inr (d_set D (pc_key c) value d)))"

fun apply_changes :: "patch_env \<Rightarrow> 'd driver \<Rightarrow> patch_change list \<Rightarrow> 'd \<Rightarrow> 'd res" where
  "apply_changes P D [] d = Inr d"
| "apply_changes P D (c # cs) d = rbind (apply_change P D c d) (apply_changes P D cs)"

definition apply_single_bundle :: "patch_env \<Rightarrow> 'd driver \<Rightarrow> patch_execution \<Rightarrow> 'd \<Rightarrow> 'd res" where
  "apply_single_bundle P D ex d = apply_changes P D (bu_changes (ex_bundle ex)) d"

definition mark_patch_applied ::
    "'d driver \<Rightarrow> patch_manager \<Rightarrow> int \<Rightarrow> int \<Rightarrow> pyval \<Rightarrow> patch_execution \<Rightarrow> 'd \<Rightarrow> 'd" where
  "mark_patch_applied D pm height nanos block_hash ex d =
     (let put = (\<lambda>field v. d_set_var D (pm_governance_contract pm) ''patches'' [PStr (pr_patch_id (ex_record ex)), PStr field] v)
      in put ''execution_hash'' (PStr (ex_hash ex))
          (put ''applied_at_nanos'' (PInt nanos)
            (put ''applied_block_hash'' block_hash
              (put ''applied_block_height'' (PInt height)
                (put ''status'' (PStr ''applied'') d)))))"

fun apply_executions ::
    "patch_env \<Rightarrow> 'd driver \<Rightarrow> patch_manager \<Rightarrow> int \<Rightarrow> int \<Rightarrow> pyval \<Rightarrow> patch_execution list \<Rightarrow> 'd \<Rightarrow> 'd res" where
  "apply_executions P D pm height nanos block_hash [] d = Inr d"
| "apply_executions P D pm height nanos block_hash (ex # exs) d =
     rbind (apply_single_bundle P D ex d) (\<lambda>d.
     apply_executions P D pm height nanos block_hash exs (mark_patch_applied D pm height nanos block_hash ex d))"

definition aggregate_hash :: "patch_env \<Rightarrow> patch_execution list \<Rightarrow> string res" where
  "aggregate_hash P exs =
     rbind (canonical_json_sorted (PList (map (\<lambda>ex. PStr (ex_hash ex)) exs))) (\<lambda>t. Inr (hash_text P t))"

definition apply_patches_for_block ::
    "patch_env \<Rightarrow> 'd driver \<Rightarrow> patch_manager \<Rightarrow> int \<Rightarrow> int \<Rightarrow> pyval \<Rightarrow> 'd
      \<Rightarrow> (string option \<times> patch_execution list \<times> 'd) res" where
  "apply_patches_for_block P D pm height nanos block_hash d =
     rbind (build_executions P D d pm height False) (\<lambda>executions.
     if executions = [] then Inr (None, [], d)
     else rbind (apply_executions P D pm height nanos block_hash executions d) (\<lambda>d.
          rbind (aggregate_hash P executions) (\<lambda>h. Inr (Some h, executions, d))))"

definition build_applied_patches_for_block ::
    "patch_env \<Rightarrow> 'd driver \<Rightarrow> 'd \<Rightarrow> patch_manager \<Rightarrow> int \<Rightarrow> (string option \<times> patch_execution list) res" where
  "build_applied_patches_for_block P D d pm height =
     rbind (build_executions P D d pm height True) (\<lambda>executions.
     if executions = [] then Inr (None, [])
     else rbind (aggregate_hash P executions) (\<lambda>h. Inr (Some h, executions)))"

section \<open>Inventories\<close>

definition to_inventory_record :: "patch_bundle \<Rightarrow> pyval" where
  "to_inventory_record b =
     PDict [(PStr ''patch_id'', PStr (bu_patch_id b)), (PStr ''activation_height'', bu_activation_height b),
            (PStr ''governance_contract'', PStr (bu_governance_contract b)), (PStr ''bundle_hash'', PStr (bu_hash b)),
            (PStr ''summary'', bu_summary b), (PStr ''uri'', bu_uri b), (PStr ''chain_id'', opt_str (bu_chain_id b)),
            (PStr ''change_count'', PInt (int (length (bu_changes b)))), (PStr ''file_path'', PStr (bu_file_path b))]"

definition record_to_dict :: "patch_bundle option \<Rightarrow> patch_record \<Rightarrow> pyval" where
  "record_to_dict local_bundle r =
     PDict [(PStr ''patch_id'', PStr (pr_patch_id r)), (PStr ''proposal_id'', pr_proposal_id r),
            (PStr ''bundle_hash'', PStr (pr_bundle_hash r)), (PStr ''activation_height'', pr_activation_height r),
            (PStr ''governance_contract'', PStr (pr_governance_contract r)), (PStr ''summary'', pr_summary r),
            (PStr ''uri'', pr_uri r), (PStr ''emergency'', PBool (pr_emergency r)), (PStr ''status'', PStr (pr_status r)),
            (PStr ''local_bundle_available'', PBool (local_bundle \<noteq> None)),
            (PStr ''local_file_path'', opt_str (map_option bu_file_path local_bundle))]"

definition change_to_py :: "patch_change \<Rightarrow> pyval" where
  "change_to_py c = PDict [(PStr ''key'', PStr (pc_key c)), (PStr ''value'', pc_value c), (PStr ''comment'', pc_comment c)]"

definition to_payload_dict :: "patch_execution \<Rightarrow> pyval" where
  "to_payload_dict ex =
     (let r = ex_record ex in
      PDict [(PStr ''patch_id'', PStr (pr_patch_id r)), (PStr ''proposal_id'', pr_proposal_id r),
             (PStr ''bundle_hash'', PStr (pr_bundle_hash r)), (PStr ''execution_hash'', PStr (ex_hash ex)),
             (PStr ''activation_height'', pr_activation_height r),
             (PStr ''governance_contract'', PStr (pr_governance_contract r)), (PStr ''summary'', pr_summary r),
             (PStr ''uri'', pr_uri r), (PStr ''emergency'', PBool (pr_emergency r)),
             (PStr ''changes'', PList (map change_to_py (ex_changes ex)))])"

definition get_local_bundle_inventory :: "patch_manager \<Rightarrow> pyval list res" where
  "get_local_bundle_inventory pm =
     rbind (require_loaded pm) (\<lambda>_.
     Inr (map to_inventory_record (sort_key bu_patch_id (map snd (pm_bundles pm)))))"

definition get_scheduled_patch_inventory :: "'d driver \<Rightarrow> 'd \<Rightarrow> patch_manager \<Rightarrow> int \<Rightarrow> pyval list res" where
  "get_scheduled_patch_inventory D d pm height =
     rbind (require_loaded pm) (\<lambda>_.
     rbind (read_scheduled_patch_records D d pm height True) (\<lambda>records.
     Inr (map (\<lambda>r. record_to_dict (map_of (pm_bundles pm) (pr_patch_id r)) r) records)))"

section \<open>Lemmas\<close>

lemma set_somes: "x \<in> set (somes xs) \<longleftrightarrow> Some x \<in> set xs"
  by (induction xs rule: somes.induct) auto

text \<open>What governance has decided about a patch in a state.\<close>

definition governed :: "'d driver \<Rightarrow> 'd \<Rightarrow> patch_manager \<Rightarrow> int \<Rightarrow> patch_record \<Rightarrow> bool" where
  "governed D d pm height r \<longleftrightarrow>
     patch_var D d pm (pr_patch_id r) ''status'' = Inr (PStr (pr_status r)) \<and>
     patch_var D d pm (pr_patch_id r) ''bundle_hash'' = Inr (PStr (pr_bundle_hash r)) \<and> pr_bundle_hash r \<noteq> [] \<and>
     patch_var D d pm (pr_patch_id r) ''activation_height'' = Inr (pr_activation_height r) \<and>
     int_value (pr_activation_height r) = Some height \<and> pr_governance_contract r = pm_governance_contract pm"

lemma read_patch_fields_Inr:
  assumes "read_patch_fields D d pm height pid status = Inr r"
  shows "pr_patch_id r = pid" "pr_status r = status" "patch_var D d pm pid ''bundle_hash'' = Inr (PStr (pr_bundle_hash r))"
    "pr_bundle_hash r \<noteq> []" "patch_var D d pm pid ''activation_height'' = Inr (pr_activation_height r)"
    "int_value (pr_activation_height r) = Some height" "pr_governance_contract r = pm_governance_contract pm"
  using assms unfolding read_patch_fields_def
  by (elim rbind_InrE; auto simp: is_str_iff split: if_splits)+

lemma read_patch_record_governed:
  assumes "read_patch_record D d pm height incl item = Inr (Some r)"
  shows "governed D d pm height r" "pr_status r = ''approved'' \<or> pr_status r = ''applied'' \<and> incl"
proof -
  let ?id = "drop (length (scheduled_prefix pm height)) (fst item)"
  from assms obtain status where st: "patch_var D d pm ?id ''status'' = Inr status"
    "status = PStr ''approved'' \<or> status = PStr ''applied'' \<and> incl"
    and f: "read_patch_fields D d pm height ?id (str_of status) = Inr r"
    by (auto simp: read_patch_record_def Let_def rbind_Inr_iff split: if_splits)
  note r = read_patch_fields_Inr [OF f]
  show "governed D d pm height r" using st r by (auto simp: governed_def)
  show "pr_status r = ''approved'' \<or> pr_status r = ''applied'' \<and> incl" using st(2) r(2) by auto
qed

lemma read_records_governed:
  assumes "read_scheduled_patch_records D d pm height incl = Inr rs" "r \<in> set rs"
  shows "governed D d pm height r" "pr_status r = ''approved'' \<or> pr_status r = ''applied'' \<and> incl"
proof -
  from assms obtain os where os: "mapR (read_patch_record D d pm height incl) (d_items D d (scheduled_prefix pm height)) = Inr os"
    "Some r \<in> set os" by (auto simp: read_scheduled_patch_records_def rbind_Inr_iff set_somes)
  then obtain item where "read_patch_record D d pm height incl item = Inr (Some r)"
    by (metis mapR_in_set)
  then show "governed D d pm height r" "pr_status r = ''approved'' \<or> pr_status r = ''applied'' \<and> incl"
    by (rule read_patch_record_governed)+
qed

lemma build_execution_Inr:
  assumes "build_execution P pm r = Inr ex"
  shows "ex_record ex = r" "map_of (pm_bundles pm) (pr_patch_id r) = Some (ex_bundle ex)"
    "bu_hash (ex_bundle ex) = pr_bundle_hash r" "int_value (bu_activation_height (ex_bundle ex)) = int_value (pr_activation_height r)"
    "bu_governance_contract (ex_bundle ex) = pr_governance_contract r"
    "bu_chain_id (ex_bundle ex) = None \<or> bu_chain_id (ex_bundle ex) = pm_chain_id pm"
    "build_applied_changes P (ex_bundle ex) = Inr (ex_changes ex)"
  using assms unfolding build_execution_def
  by (auto simp: rbind_Inr_iff validate_bundle_against_record_def split: option.splits if_splits)

lemma build_executions_Inr:
  assumes "build_executions P D d pm height incl = Inr exs" "ex \<in> set exs"
  shows "governed D d pm height (ex_record ex)" "pr_status (ex_record ex) = ''approved'' \<or> incl"
    "build_execution P pm (ex_record ex) = Inr ex"
proof -
  from assms(1) obtain rs where rs: "read_scheduled_patch_records D d pm height incl = Inr rs"
    "mapR (build_execution P pm) rs = Inr exs" by (auto simp: build_executions_def rbind_Inr_iff)
  from mapR_in_set [OF rs(2) assms(2)] obtain r where r: "r \<in> set rs" "build_execution P pm r = Inr ex" by blast
  with build_execution_Inr(1) [OF r(2)] show "build_execution P pm (ex_record ex) = Inr ex" by simp
  from read_records_governed [OF rs(1) r(1)] build_execution_Inr(1) [OF r(2)]
  show "governed D d pm height (ex_record ex)" "pr_status (ex_record ex) = ''approved'' \<or> incl" by auto
qed

text \<open>The writes of a change, and of a list of changes, as a list of items.\<close>

definition change_writes :: "patch_env \<Rightarrow> patch_change \<Rightarrow> (string \<times> pyval) list res" where
  "change_writes P c =
     (if is_source_key (pc_key c)
      then rbind (build_contract_artifacts_from_source P c) (\<lambda>(src, ir). Inr [(pc_key c, src), (ir_key P (pc_key c), ir)])
      else rbind (if is_dict (pc_value c) then pe_convert_dict P (pc_value c) else Inr (pc_value c))
             (\<lambda>value. Inr [(pc_key c, value)]))"

lemma apply_change_writes: "apply_change P D c d = rbind (change_writes P c) (\<lambda>ws. Inr (fold (\<lambda>(k, v). d_set D k v) ws d))"
  by (cases "build_contract_artifacts_from_source P c"; cases "pe_convert_dict P (pc_value c)")
    (auto simp: apply_change_def change_writes_def)

lemma apply_changes_writes:
  "apply_changes P D cs d = rbind (mapR (change_writes P) cs) (\<lambda>wss. Inr (fold (\<lambda>(k, v). d_set D k v) (concat wss) d))"
proof (induction cs arbitrary: d)
  case (Cons c cs)
  show ?case
    by (cases "change_writes P c"; cases "mapR (change_writes P) cs") (simp_all add: apply_change_writes Cons.IH)
qed simp

lemma canonical_changes_perm:
  assumes "mset cs = mset cs'" "distinct (map pc_key cs)"
  shows "canonical_changes cs = canonical_changes cs'"
proof -
  have "sort_key pc_key cs = sort_key pc_key cs'"
  proof (rule map_sorted_distinct_set_unique [of pc_key])
    have set: "set cs' = set cs" using assms(1) by (metis mset_eq_setD)
    have "mset (map pc_key (sort_key pc_key cs)) = mset (map pc_key cs)"
      "mset (map pc_key (sort_key pc_key cs')) = mset (map pc_key cs)" using assms(1) by simp_all
    with assms(2) show "distinct (map pc_key (sort_key pc_key cs))" "distinct (map pc_key (sort_key pc_key cs'))"
      by (metis mset_eq_imp_distinct_iff)+
    show "inj_on pc_key (set (sort_key pc_key cs) \<union> set (sort_key pc_key cs'))"
      using assms(2) by (simp add: set distinct_map)
    show "set (sort_key pc_key cs) = set (sort_key pc_key cs')" by (simp add: set)
  qed simp_all
  then show ?thesis by (simp add: canonical_changes_def)
qed

text \<open>Which keys the application of executions can change.\<close>

definition mark_fields :: "string list" where
  "mark_fields = [''status'', ''applied_block_height'', ''applied_block_hash'', ''applied_at_nanos'', ''execution_hash'']"

definition change_keys :: "patch_env \<Rightarrow> patch_change \<Rightarrow> string set" where
  "change_keys P c = (if is_source_key (pc_key c) then {pc_key c, ir_key P (pc_key c)} else {pc_key c})"

definition execution_keys :: "patch_env \<Rightarrow> 'd driver \<Rightarrow> patch_manager \<Rightarrow> patch_execution \<Rightarrow> string set" where
  "execution_keys P D pm ex =
     (\<Union>c\<in>set (bu_changes (ex_bundle ex)). change_keys P c) \<union>
     (\<lambda>field. d_make_key D (pm_governance_contract pm) ''patches'' [PStr (pr_patch_id (ex_record ex)), PStr field]) ` set mark_fields"

lemma apply_change_confined:
  assumes "driver_laws D" "apply_change P D c d = Inr d'" "k \<notin> change_keys P c"
  shows "d_get D d' k = d_get D d k"
  using assms by (auto simp: apply_change_def change_keys_def rbind_Inr_iff get_set [OF assms(1)] split: if_splits prod.splits)

lemma apply_changes_confined:
  assumes "driver_laws D" "apply_changes P D cs d = Inr d'" "\<And>c. c \<in> set cs \<Longrightarrow> k \<notin> change_keys P c"
  shows "d_get D d' k = d_get D d k"
  using assms(2,3)
proof (induction cs arbitrary: d)
  case (Cons c cs)
  then obtain d1 where d1: "apply_change P D c d = Inr d1" "apply_changes P D cs d1 = Inr d'" by (auto simp: rbind_Inr_iff)
  with Cons apply_change_confined [OF assms(1) d1(1), of k] show ?case by simp
qed simp

lemma mark_patch_applied_confined:
  assumes "driver_laws D" "k \<notin> (\<lambda>field. d_make_key D (pm_governance_contract pm) ''patches''
      [PStr (pr_patch_id (ex_record ex)), PStr field]) ` set mark_fields"
  shows "d_get D (mark_patch_applied D pm height nanos h ex d) k = d_get D d k"
  using assms(2) by (simp add: mark_patch_applied_def mark_fields_def driver_lawsD(8) [OF assms(1)] get_set [OF assms(1)])

lemma apply_executions_confined:
  assumes "driver_laws D" "apply_executions P D pm height nanos h exs d = Inr d'"
    and "\<And>ex. ex \<in> set exs \<Longrightarrow> k \<notin> execution_keys P D pm ex"
  shows "d_get D d' k = d_get D d k"
  using assms(2,3)
proof (induction exs arbitrary: d)
  case (Cons ex exs)
  then obtain d1 where d1: "apply_changes P D (bu_changes (ex_bundle ex)) d = Inr d1"
    "apply_executions P D pm height nanos h exs (mark_patch_applied D pm height nanos h ex d1) = Inr d'"
    by (auto simp: rbind_Inr_iff apply_single_bundle_def)
  have "k \<notin> execution_keys P D pm ex" using Cons.prems(2) by simp
  then have "d_get D d1 k = d_get D d k" "d_get D (mark_patch_applied D pm height nanos h ex d1) k = d_get D d1 k"
    using apply_changes_confined [OF assms(1) d1(1)] mark_patch_applied_confined [OF assms(1)]
    by (auto simp: execution_keys_def)
  with Cons.IH [OF d1(2)] Cons.prems(2) show ?case by simp
qed simp

text \<open>
  What an execution writes, as a list of items in the order of the writes: those of the bundle
  and then the marks on the record.
\<close>

definition mark_writes :: "'d driver \<Rightarrow> patch_manager \<Rightarrow> int \<Rightarrow> int \<Rightarrow> pyval \<Rightarrow> patch_execution \<Rightarrow> (string \<times> pyval) list" where
  "mark_writes D pm height nanos block_hash ex =
     map (\<lambda>(field, v). (d_make_key D (pm_governance_contract pm) ''patches'' [PStr (pr_patch_id (ex_record ex)), PStr field], v))
       (zip mark_fields [PStr ''applied'', PInt height, block_hash, PInt nanos, PStr (ex_hash ex)])"

definition execution_writes ::
    "patch_env \<Rightarrow> 'd driver \<Rightarrow> patch_manager \<Rightarrow> int \<Rightarrow> int \<Rightarrow> pyval \<Rightarrow> patch_execution \<Rightarrow> (string \<times> pyval) list res" where
  "execution_writes P D pm height nanos block_hash ex =
     rbind (mapR (change_writes P) (bu_changes (ex_bundle ex))) (\<lambda>wss. Inr (concat wss @ mark_writes D pm height nanos block_hash ex))"

lemma mark_patch_applied_writes:
  assumes "driver_laws D"
  shows "mark_patch_applied D pm height nanos h ex d = fold (\<lambda>(k, v). d_set D k v) (mark_writes D pm height nanos h ex) d"
  by (simp add: mark_patch_applied_def mark_writes_def mark_fields_def driver_lawsD(8) [OF assms])

lemma apply_executions_writes:
  assumes "driver_laws D" "apply_executions P D pm height nanos h exs d = Inr d'"
  shows "\<exists>wss. mapR (execution_writes P D pm height nanos h) exs = Inr wss \<and> d' = fold (\<lambda>(k, v). d_set D k v) (concat wss) d"
  using assms(2)
proof (induction exs arbitrary: d)
  case (Cons ex exs)
  then obtain d1 where d1: "apply_changes P D (bu_changes (ex_bundle ex)) d = Inr d1"
    "apply_executions P D pm height nanos h exs (mark_patch_applied D pm height nanos h ex d1) = Inr d'"
    by (auto simp: rbind_Inr_iff apply_single_bundle_def)
  obtain ws where ws: "mapR (change_writes P) (bu_changes (ex_bundle ex)) = Inr ws"
    "d1 = fold (\<lambda>(k, v). d_set D k v) (concat ws) d"
    using d1(1) by (auto simp: apply_changes_writes elim!: rbind_InrE)
  have ex: "execution_writes P D pm height nanos h ex = Inr (concat ws @ mark_writes D pm height nanos h ex)"
    by (simp add: execution_writes_def ws(1))
  obtain wss where "mapR (execution_writes P D pm height nanos h) exs = Inr wss"
    "d' = fold (\<lambda>(k, v). d_set D k v) (concat wss) (mark_patch_applied D pm height nanos h ex d1)"
    using Cons.IH [OF d1(2)] by blast
  then show ?case by (simp add: ex ws(2) mark_patch_applied_writes [OF assms(1)])
qed simp

text \<open>Which patches are due: the scheduled ones, with the status governance gave them.\<close>

definition patch_due :: "'d driver \<Rightarrow> 'd \<Rightarrow> patch_manager \<Rightarrow> int \<Rightarrow> string \<Rightarrow> bool" where
  "patch_due D d pm height pid \<longleftrightarrow>
     truthy (d_get D d (scheduled_prefix pm height @ pid)) \<and> patch_var D d pm pid ''status'' = Inr (PStr ''approved'')"

lemma scheduled_items:
  assumes "driver_laws D"
  shows "kv \<in> set (d_items D d p) \<longleftrightarrow> (\<exists>x. kv = (p @ x, d_get D d (p @ x)) \<and> d_get D d (p @ x) \<noteq> PNone)"
proof -
  have "kv \<in> set (d_items D d p) \<longleftrightarrow> map_of (d_items D d p) (fst kv) = Some (snd kv)"
    using driver_wfD(2) [OF assms, of d p] by (simp add: dict_wf_def)
  then show ?thesis by (cases kv) (auto simp: driver_lawsD(7) [OF assms] prefix_def)
qed

lemma read_records_due:
  assumes laws: "driver_laws D" and rs: "read_scheduled_patch_records D d pm height False = Inr rs"
  shows "pr_patch_id ` set rs = {pid. patch_due D d pm height pid}"
proof -
  let ?p = "scheduled_prefix pm height"
  let ?item = "\<lambda>pid. (?p @ pid, d_get D d (?p @ pid))"
  obtain ros where ros1: "mapR (read_patch_record D d pm height False) (d_items D d ?p) = Inr ros" "rs = sort_key pr_patch_id (somes ros)"
    using rs by (auto simp: read_scheduled_patch_records_def rbind_Inr_iff)
  have "set rs = {r. Some r \<in> set ros}" by (auto simp: ros1(2) set_somes)
  note ros = ros1(1) this
  note items = scheduled_items [OF laws, of _ d ?p]
  have due: "read_patch_record D d pm height False (?item pid) = Inr (Some r) \<Longrightarrow> pr_patch_id r = pid \<and> patch_due D d pm height pid" for pid r
    by (auto simp: read_patch_record_def Let_def patch_due_def rbind_Inr_iff read_patch_fields_Inr(1) split: if_splits)
  have read: "patch_due D d pm height pid \<Longrightarrow> read_patch_record D d pm height False (?item pid) = Inr ro \<Longrightarrow> \<exists>r. ro = Some r" for pid ro
    by (auto simp: read_patch_record_def Let_def patch_due_def rbind_Inr_iff split: if_splits)
  show ?thesis
  proof (intro set_eqI iffI)
    fix pid assume "pid \<in> pr_patch_id ` set rs"
    then obtain r where r: "pid = pr_patch_id r" "Some r \<in> set ros" using ros(2) by auto
    from mapR_in_set [OF ros(1) r(2)] obtain kv where kv: "kv \<in> set (d_items D d ?p)"
      "read_patch_record D d pm height False kv = Inr (Some r)" by blast
    then obtain pid' where "kv = ?item pid'" using items by blast
    with due kv(2) r(1) show "pid \<in> {pid. patch_due D d pm height pid}" by auto
  next
    fix pid assume pid: "pid \<in> {pid. patch_due D d pm height pid}"
    then have "d_get D d (?p @ pid) \<noteq> PNone" by (auto simp: patch_due_def)
    then have "?item pid \<in> set (d_items D d ?p)" using items by blast
    then obtain ro where ro: "ro \<in> set ros" "read_patch_record D d pm height False (?item pid) = Inr ro"
      using mapR_set_in [OF ros(1)] by blast
    then obtain r where "ro = Some r" using read pid by blast
    with ro due ros(2) show "pid \<in> pr_patch_id ` set rs" by force
  qed
qed

lemma distinct_somes:
  assumes "mapR f kvs = Inr ros" "distinct (map g kvs)" "\<And>kv r. kv \<in> set kvs \<Longrightarrow> f kv = Inr (Some r) \<Longrightarrow> pid r = g kv"
  shows "distinct (map pid (somes ros)) \<and> pid ` set (somes ros) \<subseteq> g ` set kvs"
  using assms
proof (induction kvs arbitrary: ros)
  case (Cons kv kvs)
  then obtain ro ros' where r: "f kv = Inr ro" "mapR f kvs = Inr ros'" "ros = ro # ros'" by (auto simp: rbind_Inr_iff)
  have "distinct (map pid (somes ros')) \<and> pid ` set (somes ros') \<subseteq> g ` set kvs"
    using Cons.prems by (intro Cons.IH r(2)) auto
  moreover have "pid x = g kv" if "ro = Some x" for x using Cons.prems(3) [of kv x] r(1) that by simp
  ultimately show ?case using Cons.prems(2) unfolding r(3) by (cases ro) auto
qed simp

lemma read_records_order:
  assumes laws: "driver_laws D" and rs: "read_scheduled_patch_records D d pm height False = Inr rs"
  shows "map pr_patch_id rs = sorted_list_of_set {pid. patch_due D d pm height pid}"
proof -
  let ?p = "scheduled_prefix pm height"
  let ?id = "\<lambda>kv :: string \<times> pyval. drop (length ?p) (fst kv)"
  obtain ros where ros: "mapR (read_patch_record D d pm height False) (d_items D d ?p) = Inr ros" "rs = sort_key pr_patch_id (somes ros)"
    using rs by (auto simp: read_scheduled_patch_records_def rbind_Inr_iff)
  have "inj_on ?id (set (d_items D d ?p))"
  proof (rule inj_onI)
    fix a b assume ab: "a \<in> set (d_items D d ?p)" "b \<in> set (d_items D d ?p)" "?id a = ?id b"
    obtain x where "a = (?p @ x, d_get D d (?p @ x))" using ab(1) unfolding scheduled_items [OF laws] by blast
    moreover obtain y where "b = (?p @ y, d_get D d (?p @ y))" using ab(2) unfolding scheduled_items [OF laws] by blast
    ultimately show "a = b" using ab(3) by simp
  qed
  moreover have "distinct (d_items D d ?p)" using driver_wfD(2) [OF laws, of d ?p] by (simp add: dict_wf_def distinct_map)
  ultimately have "distinct (map ?id (d_items D d ?p))" by (simp add: distinct_map)
  moreover have "pr_patch_id r = ?id kv" if "read_patch_record D d pm height False kv = Inr (Some r)" for kv r
    using that by (auto simp: read_patch_record_def Let_def rbind_Inr_iff read_patch_fields_Inr(1) split: if_splits)
  ultimately have "distinct (map pr_patch_id (somes ros))"
    using distinct_somes [OF ros(1), of ?id pr_patch_id] by blast
  moreover have "mset (map pr_patch_id rs) = mset (map pr_patch_id (somes ros))" by (simp add: ros(2))
  ultimately have "distinct (map pr_patch_id rs)" by (metis mset_eq_imp_distinct_iff)
  moreover have "sorted (map pr_patch_id rs)" by (simp add: ros(2))
  ultimately have "sorted_list_of_set (set (map pr_patch_id rs)) = map pr_patch_id rs"
    by (intro sorted_list_of_set.idem_if_sorted_distinct)
  then show ?thesis using read_records_due [OF assms] by simp
qed

lemma build_executions_due:
  assumes "driver_laws D" "build_executions P D d pm height False = Inr exs"
  shows "map (\<lambda>ex. pr_patch_id (ex_record ex)) exs = sorted_list_of_set {pid. patch_due D d pm height pid}"
proof -
  from assms(2) obtain rs where rs: "read_scheduled_patch_records D d pm height False = Inr rs"
    "mapR (build_execution P pm) rs = Inr exs" by (auto simp: build_executions_def rbind_Inr_iff)
  have "map ex_record exs = rs"
    using rs(2) by (auto simp: mapR_Inr_iff list_all2_conv_all_nth build_execution_Inr(1) intro!: nth_equalityI)
  then have "map (\<lambda>ex. pr_patch_id (ex_record ex)) exs = map pr_patch_id rs" by (metis (mono_tags) list.map_comp comp_apply map_eq_conv)
  with read_records_order [OF assms(1) rs(1)] show ?thesis by simp
qed

section \<open>Properties\<close>

text \<open>C18: State patches run exactly as governance decided.  When the patch step of a block succeeds, the
  executed patches are, in the order of their ids, all those and only those that the state
  schedules for this height with the status approved; each of them ran with the local bundle of
  that id, whose hash, activation height, governance contract and, if it names one, chain are
  the approved ones; and the state afterwards is the state before with the writes of the
  bundles and the marks on the patches' records, later writes over earlier ones, so that no
  other key changes.\<close>

theorem applied_patches_governed:
  assumes "driver_laws D" and "apply_patches_for_block P D pm height nanos block_hash d = Inr (h, exs, d')"
  shows "map (\<lambda>ex. pr_patch_id (ex_record ex)) exs = sorted_list_of_set {pid. patch_due D d pm height pid} \<and>
    (\<forall>ex\<in>set exs. patch_var D d pm (pr_patch_id (ex_record ex)) ''status'' = Inr (PStr ''approved'') \<and>
      patch_var D d pm (pr_patch_id (ex_record ex)) ''bundle_hash'' = Inr (PStr (bu_hash (ex_bundle ex))) \<and>
      map_of (pm_bundles pm) (pr_patch_id (ex_record ex)) = Some (ex_bundle ex) \<and>
      int_value (bu_activation_height (ex_bundle ex)) = Some height \<and>
      bu_governance_contract (ex_bundle ex) = pm_governance_contract pm \<and>
      (bu_chain_id (ex_bundle ex) = None \<or> bu_chain_id (ex_bundle ex) = pm_chain_id pm)) \<and>
    (\<exists>wss. mapR (execution_writes P D pm height nanos block_hash) exs = Inr wss \<and>
      (\<forall>k. d_get D d' k = (case map_of (rev (concat wss)) k of Some v \<Rightarrow> v | None \<Rightarrow> d_get D d k))) \<and>
    (\<forall>k. d_get D d' k \<noteq> d_get D d k \<longrightarrow> (\<exists>ex\<in>set exs. k \<in> execution_keys P D pm ex))"
proof (intro conjI)
  obtain exs' where e': "build_executions P D d pm height False = Inr exs'"
    using assms(2) by (auto simp: apply_patches_for_block_def rbind_Inr_iff)
  with assms(2) have "exs' = exs" by (auto simp: apply_patches_for_block_def rbind_Inr_iff split: if_splits)
  with e' have e: "build_executions P D d pm height False = Inr exs" by simp
  have run: "apply_executions P D pm height nanos block_hash exs d = Inr d'"
    using assms(2) by (auto simp: apply_patches_for_block_def rbind_Inr_iff e split: if_splits)
  show "map (\<lambda>ex. pr_patch_id (ex_record ex)) exs = sorted_list_of_set {pid. patch_due D d pm height pid}"
    by (rule build_executions_due [OF assms(1) e])
  show "\<forall>k. d_get D d' k \<noteq> d_get D d k \<longrightarrow> (\<exists>ex\<in>set exs. k \<in> execution_keys P D pm ex)"
    using apply_executions_confined [OF assms(1) run] by blast
  show "\<exists>wss. mapR (execution_writes P D pm height nanos block_hash) exs = Inr wss \<and>
      (\<forall>k. d_get D d' k = (case map_of (rev (concat wss)) k of Some v \<Rightarrow> v | None \<Rightarrow> d_get D d k))"
    using apply_executions_writes [OF assms(1) run] get_fold_set [OF assms(1)] by metis
  have gov: "governed D d pm height (ex_record ex)" "pr_status (ex_record ex) = ''approved''"
    "build_execution P pm (ex_record ex) = Inr ex" if "ex \<in> set exs" for ex
    using build_executions_Inr [OF e that] by simp_all
  show "\<forall>ex\<in>set exs. patch_var D d pm (pr_patch_id (ex_record ex)) ''status'' = Inr (PStr ''approved'') \<and>
      patch_var D d pm (pr_patch_id (ex_record ex)) ''bundle_hash'' = Inr (PStr (bu_hash (ex_bundle ex))) \<and>
      map_of (pm_bundles pm) (pr_patch_id (ex_record ex)) = Some (ex_bundle ex) \<and>
      int_value (bu_activation_height (ex_bundle ex)) = Some height \<and>
      bu_governance_contract (ex_bundle ex) = pm_governance_contract pm \<and>
      (bu_chain_id (ex_bundle ex) = None \<or> bu_chain_id (ex_bundle ex) = pm_chain_id pm)"
  proof
    fix ex assume ex: "ex \<in> set exs"
    show "patch_var D d pm (pr_patch_id (ex_record ex)) ''status'' = Inr (PStr ''approved'') \<and>
      patch_var D d pm (pr_patch_id (ex_record ex)) ''bundle_hash'' = Inr (PStr (bu_hash (ex_bundle ex))) \<and>
      map_of (pm_bundles pm) (pr_patch_id (ex_record ex)) = Some (ex_bundle ex) \<and>
      int_value (bu_activation_height (ex_bundle ex)) = Some height \<and>
      bu_governance_contract (ex_bundle ex) = pm_governance_contract pm \<and>
      (bu_chain_id (ex_bundle ex) = None \<or> bu_chain_id (ex_bundle ex) = pm_chain_id pm)"
      using gov(1,2) [OF ex] build_execution_Inr [OF gov(3) [OF ex]] by (simp add: governed_def)
  qed
qed

text \<open>A bundle that sets one key, approved for height 7.\<close>

definition sample_patch_env :: patch_env where
  "sample_patch_env = \<lparr>pe_sha256 = take 4, pe_vm_ir_key = ''__ir__'', pe_artifacts = (\<lambda>_ src. Inr (src, src)),
     pe_convert_dict = Inr, pe_str = (\<lambda>_. [])\<rparr>"

definition sample_bundle :: patch_bundle where
  "sample_bundle = \<lparr>bu_patch_id = ''fix'', bu_activation_height = PInt 7, bu_governance_contract = ''gov'', bu_hash = ''h'',
     bu_summary = PStr [], bu_uri = PStr [], bu_chain_id = None,
     bu_changes = [\<lparr>pc_key = ''c.x'', pc_value = PInt 1, pc_comment = PStr []\<rparr>], bu_file_path = ''f''\<rparr>"

definition sample_manager :: patch_manager where
  "sample_manager = \<lparr>pm_chain_id = None, pm_governance_contract = ''gov'', pm_bundles = [(''fix'', sample_bundle)], pm_loaded = True\<rparr>"

definition sample_patch_db :: mem_db where
  "sample_patch_db = \<lparr>db_disk = [(''gov.scheduled_patches:7:fix'', PBool True), (''gov.patches:fix:status'', PStr ''approved''),
     (''gov.patches:fix:proposal_id'', PInt 1), (''gov.patches:fix:bundle_hash'', PStr ''h''),
     (''gov.patches:fix:activation_height'', PInt 7)], db_pending = []\<rparr>"

lemma sample_patch_run:
  "(case apply_patches_for_block sample_patch_env mem_driver sample_manager 7 9 PNone sample_patch_db of
     Inr (h, exs, d') \<Rightarrow> h \<noteq> None \<and> map (\<lambda>ex. pr_patch_id (ex_record ex)) exs = [''fix''] \<and> mem_get d' ''c.x'' = PInt 1
   | Inl _ \<Rightarrow> False)"
  by code_simp

theorem applied_patches_governed_witness:
  "\<exists>h exs d'. apply_patches_for_block sample_patch_env mem_driver sample_manager 7 9 PNone sample_patch_db = Inr (h, exs, d') \<and>
     exs \<noteq> [] \<and> map (\<lambda>ex. pr_patch_id (ex_record ex)) exs = sorted_list_of_set {pid. patch_due mem_driver sample_patch_db sample_manager 7 pid} \<and>
     (\<forall>ex\<in>set exs. map_of (pm_bundles sample_manager) (pr_patch_id (ex_record ex)) = Some (ex_bundle ex))"
proof -
  obtain h exs d' where run: "apply_patches_for_block sample_patch_env mem_driver sample_manager 7 9 PNone sample_patch_db = Inr (h, exs, d')"
    and "exs \<noteq> []"
    using sample_patch_run by (auto split: sum.splits prod.splits)
  with applied_patches_governed [OF mem_driver_laws run] show ?thesis by blast
qed

text \<open>Two copies of a bundle that list the same changes in different orders have the same bundle hash,
  so governance cannot tell them apart, and as long as no two changes write one storage key
  they leave the same state.\<close>

theorem bundle_order_irrelevant:
  assumes "driver_laws D" and "mset cs = mset cs'" and "distinct (map pc_key cs)"
    and "mapR (change_writes P) cs = Inr wss" and "dict_wf (concat wss)"
  shows "hash_from_bundle_payload P pid ah gov chain sm uri ver cs = hash_from_bundle_payload P pid ah gov chain sm uri ver cs' \<and>
    (\<exists>d1 d2. apply_changes P D cs d = Inr d1 \<and> apply_changes P D cs' d = Inr d2 \<and> d_get D d1 = d_get D d2)"
proof
  show "hash_from_bundle_payload P pid ah gov chain sm uri ver cs = hash_from_bundle_payload P pid ah gov chain sm uri ver cs'"
    unfolding hash_from_bundle_payload_def canonical_changes_perm [OF assms(2,3)] ..
  from mapR_perm [OF assms(4,2)] obtain wss' where w: "mapR (change_writes P) cs' = Inr wss'" "mset wss' = mset wss" by blast
  have "mset (concat xss) = sum_mset (image_mset mset (mset xss))" for xss :: "(string \<times> pyval) list list"
    by (induction xss) simp_all
  then have "mset (concat wss') = mset (concat wss)" using w(2) by simp
  then have "map_of (concat wss) = map_of (concat wss')" "dict_wf (concat wss')"
    using map_of_perm [OF assms(5)] assms(5) unfolding dict_wf_def by (metis, metis mset_eq_imp_distinct_iff mset_map)
  then have "d_get D (fold (\<lambda>(k, v). d_set D k v) (concat wss) d) = d_get D (fold (\<lambda>(k, v). d_set D k v) (concat wss') d)"
    by (simp add: fun_eq_iff get_fold_set_wf [OF assms(1)] assms(5))
  then show "\<exists>d1 d2. apply_changes P D cs d = Inr d1 \<and> apply_changes P D cs' d = Inr d2 \<and> d_get D d1 = d_get D d2"
    by (simp add: apply_changes_writes assms(4) w(1))
qed

theorem bundle_order_irrelevant_witness:
  "hash_from_bundle_payload sample_patch_env ''fix'' (PInt 7) ''gov'' None (PStr []) (PStr []) (PInt 1)
      [\<lparr>pc_key = ''b.x'', pc_value = PInt 1, pc_comment = PStr []\<rparr>, \<lparr>pc_key = ''a.x'', pc_value = PInt 2, pc_comment = PStr []\<rparr>] =
    hash_from_bundle_payload sample_patch_env ''fix'' (PInt 7) ''gov'' None (PStr []) (PStr []) (PInt 1)
      [\<lparr>pc_key = ''a.x'', pc_value = PInt 2, pc_comment = PStr []\<rparr>, \<lparr>pc_key = ''b.x'', pc_value = PInt 1, pc_comment = PStr []\<rparr>]"
proof -
  let ?a = "\<lparr>pc_key = ''a.x'', pc_value = PInt 2, pc_comment = PStr []\<rparr>"
    and ?b = "\<lparr>pc_key = ''b.x'', pc_value = PInt 1, pc_comment = PStr []\<rparr>"
  have "mapR (change_writes sample_patch_env) [?b, ?a] = Inr [[(''b.x'', PInt 1)], [(''a.x'', PInt 2)]]" by code_simp
  from bundle_order_irrelevant [OF mem_driver_laws _ _ this, of "[?a, ?b]"] show ?thesis by simp
qed

text \<open>The order of changes matters all the same when two of them belong to the source of one
  contract: a bundle with the keys \<open>a.__source__\<close> and \<open>a.__source__.b\<close> passes the checks on its
  changes, and its two orders have one bundle hash but leave different VM code behind.\<close>

theorem bundle_order_can_matter:
  "hash_from_bundle_payload sample_patch_env pid ah gov chain sm uri ver
      [\<lparr>pc_key = ''a.__source__'', pc_value = PStr ''one'', pc_comment = PStr []\<rparr>,
       \<lparr>pc_key = ''a.__source__.b'', pc_value = PStr ''two'', pc_comment = PStr []\<rparr>] =
     hash_from_bundle_payload sample_patch_env pid ah gov chain sm uri ver
      [\<lparr>pc_key = ''a.__source__.b'', pc_value = PStr ''two'', pc_comment = PStr []\<rparr>,
       \<lparr>pc_key = ''a.__source__'', pc_value = PStr ''one'', pc_comment = PStr []\<rparr>] \<and>
   is_ok (normalize_changes sample_patch_env []
      [PDict [(PStr ''key'', PStr ''a.__source__''), (PStr ''value'', PStr ''one'')],
       PDict [(PStr ''key'', PStr ''a.__source__.b''), (PStr ''value'', PStr ''two'')]]) \<and>
   map (\<lambda>cs. map_sum id (\<lambda>d. mem_get d ''a.__ir__'') (apply_changes sample_patch_env mem_driver cs sample_patch_db))
      [[\<lparr>pc_key = ''a.__source__'', pc_value = PStr ''one'', pc_comment = PStr []\<rparr>,
        \<lparr>pc_key = ''a.__source__.b'', pc_value = PStr ''two'', pc_comment = PStr []\<rparr>],
       [\<lparr>pc_key = ''a.__source__.b'', pc_value = PStr ''two'', pc_comment = PStr []\<rparr>,
        \<lparr>pc_key = ''a.__source__'', pc_value = PStr ''one'', pc_comment = PStr []\<rparr>]] =
     [Inr (PStr ''two''), Inr (PStr ''one'')]"
proof (intro conjI)
  show "hash_from_bundle_payload sample_patch_env pid ah gov chain sm uri ver
      [\<lparr>pc_key = ''a.__source__'', pc_value = PStr ''one'', pc_comment = PStr []\<rparr>,
       \<lparr>pc_key = ''a.__source__.b'', pc_value = PStr ''two'', pc_comment = PStr []\<rparr>] =
     hash_from_bundle_payload sample_patch_env pid ah gov chain sm uri ver
      [\<lparr>pc_key = ''a.__source__.b'', pc_value = PStr ''two'', pc_comment = PStr []\<rparr>,
       \<lparr>pc_key = ''a.__source__'', pc_value = PStr ''one'', pc_comment = PStr []\<rparr>]"
    unfolding hash_from_bundle_payload_def by (subst canonical_changes_perm) auto
qed code_simp+

end
