(* ===== verification/Validators.thy ===== *)
theory Validators
  imports Driver Formatting Fee_Policy
begin

text \<open>
  Validator updates (\<^verbatim>\<open>src/src/xian/validators.py\<close>): the set the contract state selects, the
  set consensus runs with, and the updates that turn the second into the first.
\<close>

definition CONSENSUS_VALIDATORS_KEY :: string where
  "CONSENSUS_VALIDATORS_KEY = ''validators.__consensus__''"

definition DEFAULT_VALIDATOR_POWER :: int where
  "DEFAULT_VALIDATOR_POWER = 10"

type_synonym validator_set = "(pyval, pyval) dict"

text \<open>\<^verbatim>\<open>power <= 0\<close> and \<^verbatim>\<open>int(power)\<close> on numbers; other values raise.\<close>

definition validator_power :: "pyval \<Rightarrow> int res" where
  "validator_power voting_power =
     (case voting_power of
        PNone \<Rightarrow> Inr DEFAULT_VALIDATOR_POWER
      | PInt i \<Rightarrow> Inr (if i \<le> 0 then DEFAULT_VALIDATOR_POWER else i)
      | PBool b \<Rightarrow> Inr (if b then 1 else DEFAULT_VALIDATOR_POWER)
      | PDec d \<Rightarrow> Inr (if dec_neg d \<or> dec_coeff d = 0 then DEFAULT_VALIDATOR_POWER else dec_trunc d)
      | _ \<Rightarrow> Inl (TypeError ''<= not supported''))"

fun collect_validators ::
    "(string \<Rightarrow> pyval) \<Rightarrow> pyval list \<Rightarrow> validator_set \<Rightarrow> validator_set option res" where
  "collect_validators read [] desired = Inr (Some desired)"
| "collect_validators read (validator # rest) desired =
     (if \<not> vk_is_formatted validator then collect_validators read rest desired
      else rbind (validator_power (read (''validators.powers:'' @ str_of validator))) (\<lambda>voting_power.
        let key = PStr (py_lower (str_of validator)) in
        if map_of desired key \<noteq> None \<and> map_of desired key \<noteq> Some (PInt voting_power) then Inr None
        else collect_validators read rest (AList.update key (PInt voting_power) desired)))"

definition get_validators_from_state :: "(string \<Rightarrow> pyval) \<Rightarrow> validator_set option res" where
  "get_validators_from_state read =
     (case py_or (read ''validators.active_validators'') (PList []) of
        PList validators \<Rightarrow> collect_validators read validators []
      | _ \<Rightarrow> Inr None)"

definition or_empty :: "validator_set option \<Rightarrow> validator_set" where
  "or_empty v = (case v of None \<Rightarrow> [] | Some s \<Rightarrow> s)"

definition committed_validators :: "'d driver \<Rightarrow> 'd \<Rightarrow> validator_set res" where
  "committed_validators D d =
     (case d_value_from_disk D d CONSENSUS_VALIDATORS_KEY of
        PNone \<Rightarrow> rbind (get_validators_from_state (d_value_from_disk D d)) (\<lambda>v. Inr (or_empty v))
      | PDict validators \<Rightarrow> Inr validators
      | _ \<Rightarrow> Inl (OtherError ''AttributeError''))"

definition to_bytes :: "pyval \<Rightarrow> string res" where
  "to_bytes data = (if is_str data then fromhex (str_of data) else Inl (TypeError ''fromhex() argument must be str''))"

text \<open>An update: the public key's bytes and the new voting_power, 0 to remove.\<close>

definition changed_power :: "validator_set \<Rightarrow> pyval \<times> pyval \<Rightarrow> bool" where
  "changed_power committed vp \<longleftrightarrow> map_of committed (fst vp) \<noteq> Some (snd vp)"

definition build_validator_updates :: "'d driver \<Rightarrow> 'd \<Rightarrow> ((string \<times> pyval) list \<times> 'd) res" where
  "build_validator_updates D d =
     rbind (get_validators_from_state (d_get D d)) (\<lambda>selected.
     rbind (committed_validators D d) (\<lambda>validators_committed.
     let validators_state = (if or_empty selected = [] then validators_committed else or_empty selected);
         d' = (if validators_state \<noteq> [] then d_set D CONSENSUS_VALIDATORS_KEY (PDict validators_state) d else d) in
     rbind (mapR (\<lambda>(validator, voting_power). rbind (to_bytes validator) (\<lambda>b. Inr (b, voting_power)))
              (filter (changed_power validators_committed) validators_state)) (\<lambda>changes.
     rbind (mapR (\<lambda>(validator, _). rbind (to_bytes validator) (\<lambda>b. Inr (b, PInt 0)))
              (filter (\<lambda>vp. map_of validators_state (fst vp) = None) validators_committed)) (\<lambda>removals.
     Inr (changes @ removals, d')))))"

section \<open>Lemmas\<close>

definition lower_hex :: "char \<Rightarrow> bool" where
  "lower_hex c \<longleftrightarrow> (of_char c :: nat) \<in> {48..57} \<or> (of_char c :: nat) \<in> {97..102}"

text \<open>A consensus set: lower-case 32-byte keys, each once, with positive integer power.\<close>

definition validator_ok :: "pyval \<times> pyval \<Rightarrow> bool" where
  "validator_ok vp \<longleftrightarrow>
     is_str (fst vp) \<and> length (str_of (fst vp)) = 64 \<and> list_all lower_hex (str_of (fst vp)) \<and>
     (case snd vp of PInt p \<Rightarrow> 0 < p | _ \<Rightarrow> False)"

definition validators_ok :: "validator_set \<Rightarrow> bool" where
  "validators_ok vs \<longleftrightarrow> dict_wf vs \<and> list_all validator_ok vs"

lemma lower_char_hex: "is_hex c \<Longrightarrow> lower_hex (lower_char c)"
  by (auto simp: is_hex_def hex_value_def lower_hex_def lower_char_def Let_def split: if_splits)

lemma lower_hex_value: "lower_hex c \<Longrightarrow> \<exists>v. hex_value c = Some v \<and> v < 16 \<and> hex_digit v = c"
  by (auto simp: lower_hex_def hex_value_def hex_digit_def Let_def)

lemma lower_hex_not_space: "lower_hex c \<Longrightarrow> \<not> is_ascii_space c"
  by (auto simp: lower_hex_def is_ascii_space_def)

lemma char_of_digits: "a < 16 \<Longrightarrow> b < 16 \<Longrightarrow> of_char (char_of (16 * a + b :: nat)) = 16 * a + b"
  by (simp add: take_bit_nat_eq_self)

lemma fromhex_lower:
  "list_all lower_hex s \<Longrightarrow> even (length s) \<Longrightarrow> \<exists>b. fromhex s = Inr b \<and> hexlify b = s"
proof (induction s rule: induct_list012)
  case (3 c d rest)
  then obtain b where b: "fromhex rest = Inr b" "hexlify b = rest" by auto
  obtain x y where x: "hex_value c = Some x" "x < 16" "hex_digit x = c"
    and y: "hex_value d = Some y" "y < 16" "hex_digit y = d"
    using lower_hex_value [of c] lower_hex_value [of d] "3.prems"(1) by auto
  have "hexlify [char_of (16 * x + y)] = [c, d]"
    using x y by (simp add: hexlify_def char_of_digits del: of_char_of)
  then have "hexlify (char_of (16 * x + y) # b) = c # d # rest" using b(2) by (simp add: hexlify_def)
  then show ?case using b x y "3.prems"(1) lower_hex_not_space [of c] by simp
qed (simp_all add: hexlify_def)

definition positive_powers :: "(string \<Rightarrow> pyval) \<Rightarrow> bool" where
  "positive_powers read \<longleftrightarrow>
     (\<forall>s. case validator_power (read (''validators.powers:'' @ s)) of Inr p \<Rightarrow> 0 < p | Inl _ \<Rightarrow> True)"

lemma lower_vk_ok:
  assumes "vk_is_formatted v" "0 < p"
  shows "validator_ok (PStr (py_lower (str_of v)), PInt p)"
  using assms by (auto simp: vk_is_formatted_def validator_ok_def py_lower_def list_all_iff lower_char_hex)

lemma validators_ok_update:
  assumes "validators_ok vs" "validator_ok (k, v)"
  shows "validators_ok (AList.update k v vs)"
proof -
  have "set (AList.update k v vs) \<subseteq> insert (k, v) (set vs)" by (induction vs) auto
  with assms show ?thesis by (auto simp: validators_ok_def list_all_iff)
qed

lemma collect_validators_ok:
  assumes "collect_validators read vs desired = Inr (Some result)" "positive_powers read" "validators_ok desired"
  shows "validators_ok result"
  using assms
proof (induction read vs desired rule: collect_validators.induct)
  case (2 read v rest desired)
  show ?case
  proof (cases "vk_is_formatted v")
    case True
    with "2.prems"(1) obtain p where p: "validator_power (read (''validators.powers:'' @ str_of v)) = Inr p"
      by (auto simp: rbind_Inr_iff)
    then have "0 < p" using "2.prems"(2) unfolding positive_powers_def by (metis sum.case(2))
    then have "validators_ok (AList.update (PStr (py_lower (str_of v))) (PInt p) desired)"
      using "2.prems"(3) True by (simp add: validators_ok_update lower_vk_ok)
    with True p "2.prems" "2.IH"(2) [of p] show ?thesis by (auto simp: Let_def split: if_splits)
  qed (use 2 in simp)
qed simp

lemma get_validators_ok:
  assumes "get_validators_from_state read = Inr v" "positive_powers read"
  shows "validators_ok (or_empty v)"
proof (cases v)
  case None
  then show ?thesis by (simp add: or_empty_def validators_ok_def)
next
  case (Some s)
  then have "\<exists>vs. collect_validators read vs [] = Inr (Some s)"
    using assms(1) by (auto simp: get_validators_from_state_def split: pyval.splits)
  with assms(2) Some show ?thesis
    using collect_validators_ok by (fastforce simp: or_empty_def validators_ok_def)
qed

text \<open>On a well-formed set the public keys are the keys, decoded.\<close>

definition pub_key :: "pyval \<Rightarrow> string" where
  "pub_key v = (case to_bytes v of Inr b \<Rightarrow> b | Inl _ \<Rightarrow> [])"

lemma to_bytes_ok:
  assumes "validator_ok vp"
  shows "to_bytes (fst vp) = Inr (pub_key (fst vp))" "PStr (hexlify (pub_key (fst vp))) = fst vp"
proof -
  have "is_str (fst vp)" "list_all lower_hex (str_of (fst vp))" "even (length (str_of (fst vp)))"
    using assms by (simp_all add: validator_ok_def)
  with fromhex_lower [of "str_of (fst vp)"] obtain b where
    "fromhex (str_of (fst vp)) = Inr b" "hexlify b = str_of (fst vp)" by blast
  with \<open>is_str (fst vp)\<close> show "to_bytes (fst vp) = Inr (pub_key (fst vp))" "PStr (hexlify (pub_key (fst vp))) = fst vp"
    by (auto simp: to_bytes_def pub_key_def is_str_iff)
qed

lemma mapR_to_bytes:
  "list_all validator_ok vs \<Longrightarrow>
   mapR (\<lambda>(v, p). rbind (to_bytes v) (\<lambda>b. Inr (b, f p))) vs = Inr (map (\<lambda>(v, p). (pub_key v, f p)) vs)"
  by (induction vs) (auto dest: to_bytes_ok(1))

text \<open>What consensus does with updates: a new power for a key, or its removal.\<close>

definition apply_updates :: "(string \<times> pyval) list \<Rightarrow> (string \<Rightarrow> pyval option) \<Rightarrow> string \<Rightarrow> pyval option" where
  "apply_updates us m = fold (\<lambda>(k, p) m. if p = PInt 0 then m(k := None) else m(k \<mapsto> p)) us m"

definition consensus_set :: "validator_set \<Rightarrow> string \<Rightarrow> pyval option" where
  "consensus_set vs k = map_of vs (PStr (hexlify k))"

lemma apply_updates_distinct:
  assumes "distinct (map fst us)"
  shows "apply_updates us m k = (case map_of us k of None \<Rightarrow> m k | Some p \<Rightarrow> if p = PInt 0 then None else Some p)"
  using assms
proof (induction us arbitrary: m)
  case (Cons u us)
  obtain k1 p1 where u: "u = (k1, p1)" by (cases u)
  have "map_of us k1 = None" using Cons.prems by (simp add: u map_of_None_fst)
  with Cons show ?case by (auto simp: u apply_updates_def split: option.split)
qed (simp add: apply_updates_def)

text \<open>
  The updates between two well-formed sets: distinct public keys, and applied to the first
  they give the second.
\<close>

definition updates_between :: "validator_set \<Rightarrow> validator_set \<Rightarrow> (string \<times> pyval) list" where
  "updates_between old new =
     map (\<lambda>(v, p). (pub_key v, p)) (filter (changed_power old) new) @
     map (\<lambda>(v, p). (pub_key v, PInt 0)) (filter (\<lambda>vp. map_of new (fst vp) = None) old)"

lemma pub_key_inj:
  assumes "list_all validator_ok vs" "list_all validator_ok ws" "v \<in> fst ` set vs" "w \<in> fst ` set ws"
    and "pub_key v = pub_key w"
  shows "v = w"
proof -
  from assms(1,3) obtain vp where vp: "validator_ok vp" "fst vp = v" by (auto simp: list_all_iff)
  from assms(2,4) obtain wp where wp: "validator_ok wp" "fst wp = w" by (auto simp: list_all_iff)
  from to_bytes_ok(2) [OF vp(1)] to_bytes_ok(2) [OF wp(1)] assms(5) show ?thesis
    by (simp add: vp(2) wp(2))
qed

lemma distinct_updates:
  assumes "validators_ok old" "validators_ok new"
  shows "distinct (map fst (updates_between old new))"
proof -
  have ok: "list_all validator_ok (old @ new)" "dict_wf old" "dict_wf new"
    using assms by (simp_all add: validators_ok_def)
  have inj: "inj_on pub_key (fst ` set (old @ new))"
    by (intro inj_onI pub_key_inj [OF ok(1) ok(1)])
  let ?ks = "map fst (filter (changed_power old) new) @ map fst (filter (\<lambda>vp. map_of new (fst vp) = None) old)"
  have "distinct ?ks"
    using ok(2,3) by (auto simp: dict_wf_def distinct_map_filter map_of_None_fst rev_image_eqI)
  moreover have "set ?ks \<subseteq> fst ` set (old @ new)" by auto
  ultimately have "distinct (map pub_key ?ks)" using inj by (simp only: distinct_map inj_on_subset simp_thms)
  moreover have "map fst (updates_between old new) = map pub_key ?ks"
    by (simp add: updates_between_def comp_def case_prod_beta)
  ultimately show ?thesis by simp
qed

lemma pub_key_hexlify [simp]: "pub_key (PStr (hexlify k)) = k"
  by (simp add: pub_key_def to_bytes_def)

lemma pub_key_eq_iff: "validator_ok vp \<Longrightarrow> pub_key (fst vp) = k \<longleftrightarrow> fst vp = PStr (hexlify k)"
  using to_bytes_ok(2) [of vp] by auto

lemma mem_updates:
  assumes "validators_ok old" "validators_ok new"
  shows "(k, p) \<in> set (updates_between old new) \<longleftrightarrow>
    (PStr (hexlify k), p) \<in> set new \<and> map_of old (PStr (hexlify k)) \<noteq> Some p \<or>
    p = PInt 0 \<and> map_of new (PStr (hexlify k)) = None \<and> map_of old (PStr (hexlify k)) \<noteq> None"
proof -
  have ok: "validator_ok vp" if "vp \<in> set old \<or> vp \<in> set new" for vp
    using assms that by (auto simp: validators_ok_def list_all_iff)
  have "(k, p) \<in> set (map (\<lambda>(v, p). (pub_key v, p)) (filter (changed_power old) new)) \<longleftrightarrow>
      (\<exists>vp\<in>set new. changed_power old vp \<and> pub_key (fst vp) = k \<and> snd vp = p)"
    by (auto simp: image_iff case_prod_beta)
  also have "\<dots> \<longleftrightarrow> (\<exists>vp\<in>set new. fst vp = PStr (hexlify k) \<and> snd vp = p \<and> map_of old (fst vp) \<noteq> Some p)"
    by (intro bex_cong refl) (auto simp: ok pub_key_eq_iff changed_power_def)
  also have "\<dots> \<longleftrightarrow> (PStr (hexlify k), p) \<in> set new \<and> map_of old (PStr (hexlify k)) \<noteq> Some p"
    by force
  finally have changes: "(k, p) \<in> set (map (\<lambda>(v, p). (pub_key v, p)) (filter (changed_power old) new)) \<longleftrightarrow>
      (PStr (hexlify k), p) \<in> set new \<and> map_of old (PStr (hexlify k)) \<noteq> Some p" .
  have "(k, p) \<in> set (map (\<lambda>(v, p). (pub_key v, PInt 0)) (filter (\<lambda>vp. map_of new (fst vp) = None) old)) \<longleftrightarrow>
      p = PInt 0 \<and> (\<exists>vp\<in>set old. pub_key (fst vp) = k \<and> map_of new (fst vp) = None)"
    by (force simp: image_iff case_prod_beta)
  also have "(\<exists>vp\<in>set old. pub_key (fst vp) = k \<and> map_of new (fst vp) = None) \<longleftrightarrow>
      (\<exists>vp\<in>set old. fst vp = PStr (hexlify k) \<and> map_of new (fst vp) = None)"
    by (intro bex_cong refl) (auto simp: ok pub_key_eq_iff)
  also have "\<dots> \<longleftrightarrow> map_of new (PStr (hexlify k)) = None \<and> map_of old (PStr (hexlify k)) \<noteq> None"
    by (force simp: map_of_None_fst image_iff)
  finally have removals:
    "(k, p) \<in> set (map (\<lambda>(v, p). (pub_key v, PInt 0)) (filter (\<lambda>vp. map_of new (fst vp) = None) old)) \<longleftrightarrow>
      p = PInt 0 \<and> map_of new (PStr (hexlify k)) = None \<and> map_of old (PStr (hexlify k)) \<noteq> None" .
  show ?thesis unfolding updates_between_def set_append Un_iff changes removals ..
qed

lemma apply_updates_between:
  assumes "validators_ok old" "validators_ok new"
  shows "apply_updates (updates_between old new) (consensus_set old) = consensus_set new"
proof
  fix k
  let ?us = "updates_between old new" and ?v = "PStr (hexlify k)"
  have wf: "dict_wf ?us" "dict_wf new"
    using distinct_updates [OF assms] assms(2) by (simp_all add: dict_wf_def validators_ok_def)
  have lookup: "map_of ?us k = Some p \<longleftrightarrow> map_of new ?v = Some p \<and> map_of old ?v \<noteq> Some p \<or>
      p = PInt 0 \<and> map_of new ?v = None \<and> map_of old ?v \<noteq> None" for p
    by (simp only: dict_wf_map_of_iff [OF wf(1)] dict_wf_map_of_iff [OF wf(2)] mem_updates [OF assms])
  have pos: "p \<noteq> PInt 0" if "map_of new ?v = Some p" for p
    using map_of_SomeD [OF that] assms(2) by (auto simp: validators_ok_def list_all_iff validator_ok_def)
  have "apply_updates ?us (consensus_set old) k =
      (case map_of ?us k of None \<Rightarrow> map_of old ?v | Some p \<Rightarrow> if p = PInt 0 then None else Some p)"
    unfolding apply_updates_distinct [OF distinct_updates [OF assms]] consensus_set_def ..
  also have "\<dots> = map_of new ?v"
  proof (cases "map_of ?us k")
    case None
    then have "map_of new ?v = Some p \<longrightarrow> map_of old ?v = Some p" for p using lookup [of p] by simp
    moreover have "map_of new ?v = None \<longrightarrow> map_of old ?v = None" using None lookup [of "PInt 0"] by auto
    ultimately show ?thesis using None by (cases "map_of new ?v") simp_all
  next
    case (Some p)
    with lookup [of p] pos [of p] show ?thesis by auto
  qed
  finally show "apply_updates ?us (consensus_set old) k = consensus_set new k" by (simp add: consensus_set_def)
qed

lemma build_validator_updates_eq:
  assumes "get_validators_from_state (d_get D d) = Inr selected" "committed_validators D d = Inr old"
    and "validators_ok old" "positive_powers (d_get D d)"
  defines "new \<equiv> if or_empty selected = [] then old else or_empty selected"
  shows "validators_ok new" "build_validator_updates D d =
    Inr (updates_between old new, if new \<noteq> [] then d_set D CONSENSUS_VALIDATORS_KEY (PDict new) d else d)"
proof -
  show new: "validators_ok new" using get_validators_ok [OF assms(1,4)] assms(3) by (simp add: new_def)
  have "list_all validator_ok (filter (changed_power old) new)"
    "list_all validator_ok (filter (\<lambda>vp. map_of new (fst vp) = None) old)"
    using new assms(3) by (auto simp: validators_ok_def list_all_iff)
  then show "build_validator_updates D d =
      Inr (updates_between old new, if new \<noteq> [] then d_set D CONSENSUS_VALIDATORS_KEY (PDict new) d else d)"
    using mapR_to_bytes [of _ "\<lambda>p. p"] mapR_to_bytes [of _ "\<lambda>_. PInt 0"]
    by (simp add: build_validator_updates_def assms(1,2) new_def [symmetric] Let_def updates_between_def)
qed

section \<open>Properties\<close>

text \<open>C17: The validator updates of a block turn the set consensus runs with into the set the node
  records for the next block: for a well-formed, non-empty committed set and a contract state in
  which every selected power is positive after its conversion to an integer, the updates applied
  to the committed set give exactly the staged one, no public key occurs twice in them, and an
  empty or contradictory selection in the contract state never empties the set.\<close>

theorem updates_reach_staged_set:
  assumes "driver_laws D" and "committed_validators D d = Inr old" and "validators_ok old" and "old \<noteq> []"
    and "positive_powers (d_get D d)" and "build_validator_updates D d = Inr (updates, d')"
  shows "\<exists>new. d_get D d' CONSENSUS_VALIDATORS_KEY = PDict new \<and> new \<noteq> [] \<and> validators_ok new \<and>
    distinct (map fst updates) \<and> apply_updates updates (consensus_set old) = consensus_set new"
proof -
  from assms(6) obtain selected where sel: "get_validators_from_state (d_get D d) = Inr selected"
    by (auto simp: build_validator_updates_def rbind_Inr_iff)
  let ?new = "if or_empty selected = [] then old else or_empty selected"
  note b = build_validator_updates_eq [OF sel assms(2,3,5)]
  have "?new \<noteq> []" using assms(4) by simp
  with b(2) assms(6) have u: "updates = updates_between old ?new"
    and d': "d' = d_set D CONSENSUS_VALIDATORS_KEY (PDict ?new) d" by simp_all
  have "d_get D d' CONSENSUS_VALIDATORS_KEY = PDict ?new" by (simp add: d' get_set [OF assms(1)])
  with \<open>?new \<noteq> []\<close> b(1) distinct_updates [OF assms(3) b(1)] apply_updates_between [OF assms(3) b(1)]
  show ?thesis unfolding u by blast
qed

text \<open>A committed set of one validator, and a selection that replaces it.\<close>

definition sample_validators_db :: mem_db where
  "sample_validators_db =
     \<lparr>db_disk = [(CONSENSUS_VALIDATORS_KEY, PDict [(PStr (replicate 64 CHR ''a''), PInt 10)])],
      db_pending = [(''validators.active_validators'', PList [PStr (replicate 64 CHR ''B'')])]\<rparr>"

lemma sample_validators_run:
  "committed_validators mem_driver sample_validators_db = Inr [(PStr (replicate 64 CHR ''a''), PInt 10)]"
  "get_validators_from_state (d_get mem_driver sample_validators_db) = Inr (Some [(PStr (replicate 64 CHR ''b''), PInt 10)])"
  "validators_ok [(PStr (replicate 64 CHR ''a''), PInt 10)]"
  by code_simp+

lemma sample_validators_powers: "positive_powers (d_get mem_driver sample_validators_db)"
  by (auto simp: positive_powers_def mem_driver_def sample_validators_db_def mem_get_def mem_lookup_def
      validator_power_def DEFAULT_VALIDATOR_POWER_def CONSENSUS_VALIDATORS_KEY_def)

theorem updates_reach_staged_set_witness:
  "\<exists>updates d' new. build_validator_updates mem_driver sample_validators_db = Inr (updates, d') \<and>
    d_get mem_driver d' CONSENSUS_VALIDATORS_KEY = PDict new \<and> new \<noteq> [] \<and>
    apply_updates updates (consensus_set [(PStr (replicate 64 CHR ''a''), PInt 10)]) = consensus_set new"
proof -
  obtain updates d' where run: "build_validator_updates mem_driver sample_validators_db = Inr (updates, d')"
    using build_validator_updates_eq(2) [OF sample_validators_run(2,1,3) sample_validators_powers] by blast
  from updates_reach_staged_set [OF mem_driver_laws sample_validators_run(1,3) _ sample_validators_powers run] run
  show ?thesis by blast
qed

definition fractional_power_db :: mem_db where
  "fractional_power_db =
     \<lparr>db_disk = [(CONSENSUS_VALIDATORS_KEY, PDict [(PStr (replicate 64 CHR ''a''), PInt 10)])],
      db_pending = [(''validators.active_validators'', PList [PStr (replicate 64 CHR ''a''), PStr (replicate 64 CHR ''b'')]),
                    (''validators.powers:'' @ replicate 64 CHR ''b'', PDec (Dec False 5 (- 1)))]\<rparr>"

text \<open>Positive powers are needed: a power between 0 and 1 in the contract state is not rejected but rounds to 0, so a validator
  that is not in the committed set gets an update that removes it, which consensus refuses for
  an unknown key.\<close>

theorem fractional_power_removes_unknown:
  "\<exists>updates d'. build_validator_updates mem_driver fractional_power_db = Inr (updates, d') \<and>
    (pub_key (PStr (replicate 64 CHR ''b'')), PInt 0) \<in> set updates \<and>
    consensus_set [(PStr (replicate 64 CHR ''a''), PInt 10)] (pub_key (PStr (replicate 64 CHR ''b''))) = None"
proof -
  let ?a = "PStr (replicate 64 CHR ''a'')" and ?b = "PStr (replicate 64 CHR ''b'')"
  have ok: "validator_ok (?b, PInt 1)" by (simp add: validator_ok_def list_all_iff lower_hex_def)
  note b = to_bytes_ok [OF ok, simplified]
  have sel: "get_validators_from_state (d_get mem_driver fractional_power_db) = Inr (Some [(?a, PInt 10), (?b, PInt 0)])"
    and com: "committed_validators mem_driver fractional_power_db = Inr [(?a, PInt 10)]" by code_simp+
  have "build_validator_updates mem_driver fractional_power_db = Inr ([(pub_key ?b, PInt 0)],
      d_set mem_driver CONSENSUS_VALIDATORS_KEY (PDict [(?a, PInt 10), (?b, PInt 0)]) fractional_power_db)"
    by (simp add: build_validator_updates_def sel com or_empty_def changed_power_def b(1))
  moreover have "consensus_set [(?a, PInt 10)] (pub_key ?b) = None" by (simp add: consensus_set_def b(2))
  ultimately show ?thesis by auto
qed

end
