(* ===== verification/Finalize_Block.thy ===== *)
theory Finalize_Block
  imports Tx_Processor Admission State_Patches Validators
begin

text \<open>
  Execution of a decided block (\<^verbatim>\<open>src/src/xian/methods/finalize_block.py\<close> and
  \<^verbatim>\<open>_evidence.py\<close>) up to the point where the application hash is known.  A step takes the
  application's state and returns a result or an exception together with the state it leaves
  behind, so that what a failed block leaves behind is visible.  Logging, profiling and the
  warm-up of the proof cache have no effect on the state modelled here; the speculative
  scheduler is third-party and is the parameter \<open>ae_parallel\<close>, which returns None when the
  block is executed serially.
\<close>

section \<open>Steps\<close>

text \<open>
  A computation on the state that replaces it unless it raises.  The pending writes it had
  made before it raised are not tracked: the block is lost in either case.
\<close>

definition update_or_raise :: "('s \<Rightarrow> ('a \<times> 's) res) \<Rightarrow> ('s, 'a) step" where
  "update_or_raise f s = (case f s of Inl e \<Rightarrow> (Inl e, s) | Inr (x, s') \<Rightarrow> (Inr x, s'))"

section \<open>The application's state\<close>

record block_meta =
  bm_nanos :: int
  bm_height :: int
  bm_hash :: string
  bm_chain_id :: string

definition meta_to_py :: "block_meta \<Rightarrow> pyval" where
  "meta_to_py m =
     PDict [(PStr ''nanos'', PInt (bm_nanos m)), (PStr ''height'', PInt (bm_height m)),
            (PStr ''hash'', PStr (bm_hash m)), (PStr ''chain_id'', PStr (bm_chain_id m))]"

record misbehavior =
  mb_type :: int
  mb_address :: string
  mb_height :: int
  mb_seconds :: int
  mb_nanos :: int
  mb_total_voting_power :: int

record block_request =
  br_txs :: "string list"
  br_hash :: string
  br_height :: int
  br_seconds :: int
  br_nanos :: int
  br_misbehavior :: "misbehavior list"

record 'd app_env =
  ae_proc :: "'d proc_env"
  ae_cfg :: node_cfg
  ae_hash :: hash_env
  ae_patch :: patch_env
  ae_patches :: patch_manager
  ae_parallel :: "'d proc \<Rightarrow> pyval list \<Rightarrow> (tx_response list \<times> 'd proc) option"
  ae_bds_enabled :: bool

record 'd app =
  ap_proc :: "'d proc"
  ap_root :: root_cache
  ap_nonces :: nonce_storage
  ap_meta :: "block_meta option"
  ap_merkle_root :: "string option"
  ap_staged :: "'d option"
  ap_mirror :: mirror_file

abbreviation (input) ae_driver :: "'d app_env \<Rightarrow> 'd driver" where
  "ae_driver E \<equiv> px_driver (ae_proc E)"

abbreviation (input) ap_driver :: "'d app \<Rightarrow> 'd" where
  "ap_driver st \<equiv> ps_driver (ap_proc st)"

definition set_driver :: "'d \<Rightarrow> 'd app \<Rightarrow> 'd app" where
  "set_driver d st = st\<lparr>ap_proc := (ap_proc st)\<lparr>ps_driver := d\<rparr>\<rparr>"

text \<open>A system transaction, run by the processor on the state of the application.\<close>

definition run_system_tx :: "'d app_env \<Rightarrow> pyval \<Rightarrow> ('d app, tx_result option) step" where
  "run_system_tx E tx st =
     (case process_tx (ae_proc E) tx False (Some system_unmetered) False (ap_proc st) of
        (Inl e, p) \<Rightarrow> (Inl e, st\<lparr>ap_proc := p\<rparr>)
      | (Inr r, p) \<Rightarrow> (Inr (rs_tx_result r), st\<lparr>ap_proc := p\<rparr>))"

section \<open>Results and events\<close>

record exec_tx_result =
  et_code :: int
  et_data :: string
  et_events :: "(string \<times> (string \<times> string \<times> bool) list) list"

definition error_tx_result :: "string \<Rightarrow> exec_tx_result" where
  "error_tx_result message =
     \<lparr>et_code = ErrorCode, et_data = ''{'' @ ascii_json_string ''error'' @ '': '' @ ascii_json_string message @ ''}'',
      et_events = []\<rparr>"

definition safe_positive_int :: "(string \<Rightarrow> int res) \<Rightarrow> pyval \<Rightarrow> int \<Rightarrow> int res" where
  "safe_positive_int int_of_text value alt =
     (case py_int int_of_text value of
        Inr n \<Rightarrow> Inr (if n \<le> 0 then alt else n)
      | Inl (TypeError _) \<Rightarrow> Inr alt
      | Inl (ValueError _) \<Rightarrow> Inr alt
      | Inl e \<Rightarrow> Inl e)"

definition translate_key :: "string \<Rightarrow> string" where
  "translate_key k = concat (map (\<lambda>c. if c = CHR ''.'' then ''_'' else if c = CHR '':'' then ''__'' else [c]) k)"

definition state_change_event ::
    "text_env \<Rightarrow> tx_result \<Rightarrow> (string \<times> (string \<times> string \<times> bool) list) option" where
  "state_change_event T r =
     (let changes = map (\<lambda>(k, v). (translate_key k, py_str T v, False)) (xr_state r)
      in if changes = [] then None else Some (''StateChange'', changes))"

definition dict_of :: "pyval \<Rightarrow> (pyval \<times> pyval) list res" where
  "dict_of v = (case v of PDict kvs \<Rightarrow> Inr kvs | _ \<Rightarrow> Inl (OtherError ''AttributeError''))"

definition contract_event_attributes ::
    "text_env \<Rightarrow> json_env \<Rightarrow> pyval \<Rightarrow> (string \<times> string \<times> bool) list res" where
  "contract_event_attributes T J ev =
     (if \<not> is_dict ev then Inl (OtherError ''AttributeError'')
      else let field = (\<lambda>k. (k, py_str T (dget_or ev k (PStr [])), True));
               attrs = (\<lambda>indexed. map (\<lambda>(k, v). (py_str T k, py_str T (stringify_decimals J v), indexed))) in
        rbind (dict_of (dget_or ev ''data_indexed'' (PDict []))) (\<lambda>indexed.
        rbind (dict_of (dget_or ev ''data'' (PDict []))) (\<lambda>data.
        Inr ([field ''contract'', field ''signer'', field ''caller''] @ attrs True indexed @ attrs False data))))"

definition build_tx_events ::
    "text_env \<Rightarrow> json_env \<Rightarrow> tx_result \<Rightarrow> (string \<times> (string \<times> string \<times> bool) list) list res" where
  "build_tx_events T J r =
     (if xr_status r \<noteq> 0 then Inr []
      else rbind (mapR (\<lambda>ev. rbind (contract_event_attributes T J ev) (\<lambda>attrs.
                     Inr (py_str T (dget_or ev ''event'' (PStr ''ContractEvent'')), attrs))) (xr_events r)) (\<lambda>events.
        Inr (case state_change_event T r of None \<Rightarrow> events | Some e \<Rightarrow> e # events)))"

definition amounts_to_py :: "reward_env \<Rightarrow> amounts \<Rightarrow> pyval" where
  "amounts_to_py R m = PDict (map (\<lambda>(k, a). (k, re_value R a)) m)"

definition report_to_py :: "reward_env \<Rightarrow> reward_report option \<Rightarrow> pyval" where
  "report_to_py R rep =
     (case rep of None \<Rightarrow> PNone
      | Some r \<Rightarrow> PDict [(PStr ''validator_reward'', amounts_to_py R (rp_validator r)),
                       (PStr ''delegator_reward'', amounts_to_py R (rp_delegator r)),
                       (PStr ''foundation_reward'', amounts_to_py R (rp_foundation r)),
                       (PStr ''developer_reward'', amounts_to_py R (rp_developer r))])"

definition record_to_py :: "reward_env \<Rightarrow> reward_record \<Rightarrow> pyval" where
  "record_to_py R r =
     PDict ([(PStr ''type'', PStr (rr_type r)), (PStr ''recipient_key'', rr_recipient r),
             (PStr ''source_contract'', rr_source r), (PStr ''value'', re_value R (rr_value r))] @
            (case rr_validator r of None \<Rightarrow> [] | Some v \<Rightarrow> [(PStr ''validator_key'', v)]) @
            (case rr_delegator r of None \<Rightarrow> [] | Some v \<Rightarrow> [(PStr ''delegator_key'', v)]))"

definition tx_result_to_py :: "reward_env \<Rightarrow> tx_result \<Rightarrow> pyval" where
  "tx_result_to_py R r =
     PDict [(PStr ''hash'', PStr (xr_hash r)), (PStr ''status'', PInt (xr_status r)),
            (PStr ''state'', PList (map (\<lambda>(k, v). PDict [(PStr ''key'', PStr k), (PStr ''value'', v)]) (xr_state r))),
            (PStr ''events'', PList (xr_events r)), (PStr ''chi_used'', PInt (xr_chi_used r)),
            (PStr ''result'', xr_result r), (PStr ''rewards'', report_to_py R (xr_rewards r)),
            (PStr ''reward_records'',
               if xr_reward_records r = [] then PNone else PList (map (record_to_py R) (xr_reward_records r)))]"

section \<open>Transactions of the block\<close>

definition initialize_block :: "'d app_env \<Rightarrow> block_request \<Rightarrow> 'd app \<Rightarrow> block_meta \<times> 'd app" where
  "initialize_block E req st =
     (let meta = \<lparr>bm_nanos = get_nanotime_from_block_time (br_seconds req) (br_nanos req), bm_height = br_height req,
                  bm_hash = convert_binary_to_hex (br_hash req), bm_chain_id = cfg_chain_id (ae_cfg E)\<rparr>
      in (meta, st\<lparr>ap_meta := Some meta, ap_proc := reset_block_cache (ap_proc st)\<rparr>))"

definition execute_in_parallel ::
    "'d app_env \<Rightarrow> pyval list \<Rightarrow> 'd app \<Rightarrow> tx_response list option \<times> 'd app" where
  "execute_in_parallel E txs st =
     (case ae_parallel E (ap_proc st) txs of
        None \<Rightarrow> (None, st)
      | Some (rs, p) \<Rightarrow> (Some rs, st\<lparr>ap_proc := p\<rparr>))"

datatype processed_entry = Rejected string | Processed nat pyval string tx_result

definition entry_of_response :: "nat \<Rightarrow> pyval \<Rightarrow> string \<Rightarrow> tx_response res \<Rightarrow> processed_entry" where
  "entry_of_response i tx raw r =
     (case r of
        Inl e \<Rightarrow> Rejected (''Error processing tx: '' @ exc_text e)
      | Inr resp \<Rightarrow>
          (case rs_tx_result resp of
             None \<Rightarrow> Rejected ''Transaction processor returned no tx_result''
           | Some x \<Rightarrow> Processed i tx raw x))"

text \<open>The results of parallel execution are taken in order; an iterator that runs out raises.\<close>

fun execute_block_transactions ::
    "'d app_env \<Rightarrow> tx_response list option \<Rightarrow> nat \<Rightarrow> block_entry list \<Rightarrow> 'd proc \<Rightarrow> processed_entry list \<times> 'd proc" where
  "execute_block_transactions E results i [] p = ([], p)"
| "execute_block_transactions E results i (EntryError message # es) p =
     (let (out, p) = execute_block_transactions E results (Suc i) es p in (Rejected message # out, p))"
| "execute_block_transactions E None i (EntryTx tx raw # es) p =
     (let (r, p) = process_tx (ae_proc E) tx True (Some (cfg_fee_policy (ae_cfg E))) False p;
          (out, p) = execute_block_transactions E None (Suc i) es p
      in (entry_of_response i tx raw r # out, p))"
| "execute_block_transactions E (Some results) i (EntryTx tx raw # es) p =
     (let (out, p) = execute_block_transactions E (Some (tl results)) (Suc i) es p
      in (entry_of_response i tx raw (case results of [] \<Rightarrow> Inl (OtherError []) | r # _ \<Rightarrow> Inr r) # out, p))"

definition assemble_entry :: "'d app_env \<Rightarrow> processed_entry \<Rightarrow> ('d app, exec_tx_result) step" where
  "assemble_entry E entry st =
     (case entry of
        Rejected message \<Rightarrow> (Inr (error_tx_result message), st)
      | Processed i tx raw r \<Rightarrow>
          if xr_hash r = [] then (Inr (error_tx_result ''Transaction processor returned no tx hash''), st)
          else (case set_nonce_by_tx (ae_driver E) tx (ap_driver st) of
                  Inl e \<Rightarrow> (Inl e, st)
                | Inr d \<Rightarrow>
                    (case rbind (encode_abci_json (he_json (ae_hash E)) (tx_result_to_py (px_rewards (ae_proc E)) r)) (\<lambda>data.
                          rbind (build_tx_events (px_text (ae_proc E)) (he_json (ae_hash E)) r) (\<lambda>events.
                          Inr \<lparr>et_code = xr_status r, et_data = data, et_events = events\<rparr>)) of
                       Inl e \<Rightarrow> (Inl e, set_driver d st)
                     | Inr x \<Rightarrow> (Inr x, set_driver d st))))"

definition assemble_tx_results :: "'d app_env \<Rightarrow> processed_entry list \<Rightarrow> ('d app, exec_tx_result list) step" where
  "assemble_tx_results E = smap (assemble_entry E)"

text \<open>What the indexer is handed for a transaction: its place, its envelope and payload, and its result.\<close>

record bds_transaction =
  bt_tx_index :: nat
  bt_envelope :: pyval
  bt_payload :: pyval
  bt_tx_result :: tx_result

definition bds_transactions :: "'d app_env \<Rightarrow> processed_entry list \<Rightarrow> bds_transaction list" where
  "bds_transactions E entries =
     (if \<not> ae_bds_enabled E then []
      else concat (map (\<lambda>entry. case entry of
             Rejected _ \<Rightarrow> []
           | Processed i tx raw r \<Rightarrow>
               if xr_hash r = [] then []
               else [\<lparr>bt_tx_index = i,
                      bt_envelope = (case tx of PDict kvs \<Rightarrow> PDict (filter (\<lambda>kv. fst kv \<noteq> PStr ''b_meta'') kvs) | _ \<Rightarrow> tx),
                      bt_payload = dget_or tx ''payload'' PNone,
                      bt_tx_result = r\<lparr>xr_hash := ascii_upper (hash_bytes (he_sha256 (ae_hash E)) raw)\<rparr>\<rparr>]) entries))"

section \<open>Evidence\<close>

definition SYSTEM_EVIDENCE_SENDER :: string where
  "SYSTEM_EVIDENCE_SENDER = ''__evidence_penalty_driver__''"

definition misbehavior_type_name :: "int \<Rightarrow> string option" where
  "misbehavior_type_name t =
     (if t = 1 then Some ''DUPLICATE_VOTE'' else if t = 2 then Some ''LIGHT_CLIENT_ATTACK'' else None)"

definition validator_consensus_address :: "(string \<Rightarrow> string) \<Rightarrow> pyval \<Rightarrow> string option res" where
  "validator_consensus_address sha256 key =
     (case to_bytes key of
        Inr b \<Rightarrow> Inr (Some (take 20 (sha256 b)))
      | Inl (ValueError _) \<Rightarrow> Inr None
      | Inl e \<Rightarrow> Inl e)"

fun find_validator :: "(string \<Rightarrow> string) \<Rightarrow> string \<Rightarrow> pyval list \<Rightarrow> pyval option res" where
  "find_validator sha256 address [] = Inr None"
| "find_validator sha256 address (key # keys) =
     rbind (validator_consensus_address sha256 key) (\<lambda>a.
     if a = Some address then Inr (Some key) else find_validator sha256 address keys)"

definition resolve_misbehaving_validator_key :: "'d app_env \<Rightarrow> 'd \<Rightarrow> string \<Rightarrow> pyval option res" where
  "resolve_misbehaving_validator_key E d address =
     (if address = [] then Inr None
      else rbind (iter_list (py_or (d_get (ae_driver E) d ''validators.validator_registry'')
                   (py_or (d_get (ae_driver E) d ''validators.active_validators'') (PList [])))) (\<lambda>keys.
           find_validator (he_sha256 (ae_hash E)) address keys))"

definition misbehavior_evidence_id :: "'d app_env \<Rightarrow> misbehavior \<Rightarrow> string \<Rightarrow> string \<Rightarrow> string" where
  "misbehavior_evidence_id E m infraction key =
     hexlify (he_sha256 (ae_hash E)
       (infraction @ '':'' @ key @ '':'' @ hexlify (mb_address m) @ '':'' @ str_int (mb_height m) @ '':'' @
        str_int (mb_seconds m) @ '':'' @ str_int (mb_nanos m) @ '':'' @ str_int (mb_total_voting_power m)))"

definition system_tx :: "block_meta \<Rightarrow> string \<Rightarrow> string \<Rightarrow> (pyval \<times> pyval) list \<Rightarrow> string \<Rightarrow> pyval" where
  "system_tx meta sender func kwargs signature =
     PDict [(PStr ''payload'', PDict [(PStr ''sender'', PStr sender), (PStr ''contract'', PStr ''validators''),
              (PStr ''function'', PStr func), (PStr ''kwargs'', PDict kwargs), (PStr ''chi_supplied'', PInt 0)]),
            (PStr ''metadata'', PDict [(PStr ''signature'', PStr signature)]),
            (PStr ''b_meta'', meta_to_py meta)]"

definition evidence_tx :: "'d app_env \<Rightarrow> block_meta \<Rightarrow> misbehavior \<Rightarrow> string \<Rightarrow> string \<Rightarrow> pyval" where
  "evidence_tx E meta m infraction key =
     (let evidence_id = misbehavior_evidence_id E m infraction key in
      system_tx meta SYSTEM_EVIDENCE_SENDER ''apply_evidence_penalty''
        [(PStr ''member'', PStr key), (PStr ''infraction_type'', PStr infraction),
         (PStr ''evidence_id'', PStr evidence_id), (PStr ''evidence_height'', PInt (mb_height m))]
        (''evidence-penalty:'' @ evidence_id))"

definition wrote_state :: "tx_result option \<Rightarrow> bool" where
  "wrote_state r = (case r of None \<Rightarrow> False | Some x \<Rightarrow> xr_status x = 0 \<and> xr_state x \<noteq> [])"

definition apply_evidence :: "'d app_env \<Rightarrow> block_meta \<Rightarrow> misbehavior \<Rightarrow> ('d app, bool) step" where
  "apply_evidence E meta m st =
     (case misbehavior_type_name (mb_type m) of
        None \<Rightarrow> (Inr False, st)
      | Some infraction \<Rightarrow>
          (case resolve_misbehaving_validator_key E (ap_driver st) (mb_address m) of
             Inl e \<Rightarrow> (Inl e, st)
           | Inr None \<Rightarrow> (Inr False, st)
           | Inr (Some key) \<Rightarrow>
               sbind (run_system_tx E (evidence_tx E meta m infraction (str_of key))) (\<lambda>r. sret (wrote_state r)) st))"

definition maybe_apply_evidence_penalties :: "'d app_env \<Rightarrow> block_meta \<Rightarrow> block_request \<Rightarrow> ('d app, bool) step" where
  "maybe_apply_evidence_penalties E meta req =
     sbind (smap (apply_evidence E meta) (br_misbehavior req)) (\<lambda>applied. sret (\<exists>b \<in> set applied. b))"

section \<open>Epoch rebalance\<close>

definition SYSTEM_REBALANCE_SENDER :: string where
  "SYSTEM_REBALANCE_SENDER = ''__validator_epoch_driver__''"

definition rebalance_due :: "'d app_env \<Rightarrow> 'd \<Rightarrow> int \<Rightarrow> bool res" where
  "rebalance_due E d height =
     (let get = d_get (ae_driver E) d; selection_mode = get ''validators.config:selection_mode'' in
      if selection_mode = PNone \<or> selection_mode = PStr ''manual'' then Inr False
      else rbind (safe_positive_int (cfg_int_of_text (ae_cfg E)) (get ''validators.config:rebalance_interval'') 1) (\<lambda>interval.
        let last_epoch = get ''validators.last_rebalance_epoch'' in
        if last_epoch = PNone then Inr True
        else n_lt (vm_num (px_vm (ae_proc E))) last_epoch (PInt (height div interval))))"

definition maybe_run_validator_epoch_rebalance :: "'d app_env \<Rightarrow> block_meta \<Rightarrow> ('d app, bool) step" where
  "maybe_run_validator_epoch_rebalance E meta st =
     (case rebalance_due E (ap_driver st) (bm_height meta) of
        Inl e \<Rightarrow> (Inl e, st)
      | Inr False \<Rightarrow> (Inr False, st)
      | Inr True \<Rightarrow>
          sbind (run_system_tx E (system_tx meta SYSTEM_REBALANCE_SENDER ''rebalance'' []
                   (''validator-epoch-rebalance:'' @ str_int (bm_height meta)))) (\<lambda>r. sret (wrote_state r)) st)"

section \<open>The commit boundary\<close>

definition validator_updates_step :: "'d app_env \<Rightarrow> ('d app, (string \<times> pyval) list) step" where
  "validator_updates_step E = update_or_raise (\<lambda>st.
     rbind (build_validator_updates (ae_driver E) (ap_driver st)) (\<lambda>(updates, d). Inr (updates, set_driver d st)))"

definition patches_step :: "'d app_env \<Rightarrow> block_meta \<Rightarrow> ('d app, string option \<times> patch_execution list) step" where
  "patches_step E meta = update_or_raise (\<lambda>st.
     rbind (apply_patches_for_block (ae_patch E) (ae_driver E) (ae_patches E) (bm_height meta) (bm_nanos meta)
              (PStr (bm_hash meta)) (ap_driver st)) (\<lambda>(h, executions, d). Inr ((h, executions), set_driver d st)))"

definition prepare_root_step :: "'d app_env \<Rightarrow> ('d app, string) step" where
  "prepare_root_step E st =
     (case prepare_root (ae_hash E) (key_items (d_pending_writes (ae_driver E) (ap_driver st))) (ap_root st) of
        (Inl e, c) \<Rightarrow> (Inl e, st\<lparr>ap_root := c\<rparr>)
      | (Inr h, c) \<Rightarrow> (Inr h, st\<lparr>ap_root := c, ap_merkle_root := Some h\<rparr>))"

definition stage_pending_commit_driver_state :: "'d app_env \<Rightarrow> ('d app, unit) step" where
  "stage_pending_commit_driver_state E st =
     (case ap_staged st of
        Some _ \<Rightarrow> (Inl (RuntimeError ''previous block has staged writes that were not committed''), st)
      | None \<Rightarrow>
          (case d_detach_pending_state (ae_driver E) (ap_driver st) of
             (staged, rest) \<Rightarrow> (Inr (), set_driver rest (st\<lparr>ap_staged := Some staged\<rparr>))))"

record finalized =
  fb_validator_updates :: "(string \<times> pyval) list"
  fb_tx_results :: "exec_tx_result list"
  fb_app_hash :: string
  fb_bds :: "bds_transaction list"
  fb_patch_hash :: "string option"

definition transactions_step ::
    "'d app_env \<Rightarrow> block_meta \<Rightarrow> block_request \<Rightarrow> ('d app, exec_tx_result list \<times> bds_transaction list) step" where
  "transactions_step E meta req st =
     (let entries = decode_block_transactions (ae_cfg E) (get_nonce (ae_driver E) (ap_driver st)) (meta_to_py meta) (br_txs req);
          (results, st) = execute_in_parallel E (decoded_txs entries) st;
          (processed, p) = execute_block_transactions E results 0 entries (ap_proc st)
      in sbind (assemble_tx_results E processed) (\<lambda>tx_results. sret (tx_results, bds_transactions E processed))
           (st\<lparr>ap_proc := p\<rparr>))"

text \<open>Everything before the application hash.\<close>

definition block_step ::
    "'d app_env \<Rightarrow> block_meta \<Rightarrow> block_request \<Rightarrow>
     ('d app, exec_tx_result list \<times> bds_transaction list \<times> (string \<times> pyval) list \<times> string option) step" where
  "block_step E meta req =
     sbind (transactions_step E meta req) (\<lambda>(tx_results, bds).
     sbind (maybe_apply_evidence_penalties E meta req) (\<lambda>_.
     sbind (maybe_run_validator_epoch_rebalance E meta) (\<lambda>_.
     sbind (validator_updates_step E) (\<lambda>updates.
     sbind (patches_step E meta) (\<lambda>(patch_hash, patches).
     sret (tx_results, bds, updates, patch_hash))))))"

text \<open>\<^verbatim>\<open>methods.finalize_block.finalize_block\<close>.\<close>

definition finalize_body :: "'d app_env \<Rightarrow> block_request \<Rightarrow> ('d app, finalized) step" where
  "finalize_body E req st =
     (let (meta, st) = initialize_block E req st in
      sbind (block_step E meta req) (\<lambda>(tx_results, bds, updates, patch_hash).
      sbind (prepare_root_step E) (\<lambda>app_hash.
      sbind (stage_pending_commit_driver_state E) (\<lambda>_.
      sret \<lparr>fb_validator_updates = updates, fb_tx_results = tx_results, fb_app_hash = app_hash, fb_bds = bds,
            fb_patch_hash = patch_hash\<rparr>))) st)"

text \<open>
  \<^verbatim>\<open>Xian.finalize_block\<close>: an exception discards the staged writes and rolls the root cache
  back, and is raised again.
\<close>

definition finalize_block :: "'d app_env \<Rightarrow> block_request \<Rightarrow> ('d app, finalized) step" where
  "finalize_block E req st =
     (case finalize_body E req st of
        (Inr r, st) \<Rightarrow> (Inr r, st)
      | (Inl e, st) \<Rightarrow> (Inl e, st\<lparr>ap_staged := None, ap_root := rollback (ae_hash E) (ap_root st)\<rparr>))"

section \<open>Executing a block writes nothing to disk\<close>

text \<open>What a step of the block leaves alone: the disk, the root cache, the staged block, the
  mempool reservations and the mirror file.\<close>

definition keeps :: "'d app_env \<Rightarrow> 'd app \<Rightarrow> 'd app \<Rightarrow> bool" where
  "keeps E s s' \<longleftrightarrow>
     d_value_from_disk (ae_driver E) (ap_driver s') = d_value_from_disk (ae_driver E) (ap_driver s) \<and>
     ap_root s' = ap_root s \<and> ap_staged s' = ap_staged s \<and> ap_nonces s' = ap_nonces s \<and> ap_mirror s' = ap_mirror s \<and>
     ap_meta s' = ap_meta s \<and> ap_merkle_root s' = ap_merkle_root s"

definition framed :: "'d app_env \<Rightarrow> ('d app, 'a) step \<Rightarrow> bool" where
  "framed E m \<longleftrightarrow> (\<forall>s. keeps E s (snd (m s)))"

text \<open>The assumptions on the machine, the driver and the scheduler.\<close>

definition node_ok :: "'d app_env \<Rightarrow> bool" where
  "node_ok E \<longleftrightarrow>
     driver_laws (ae_driver E) \<and> vm_confined (ae_driver E) (px_vm (ae_proc E)) \<and>
     (\<forall>p txs rs p'. ae_parallel E p txs = Some (rs, p') \<longrightarrow>
        d_value_from_disk (ae_driver E) (ps_driver p') = d_value_from_disk (ae_driver E) (ps_driver p))"

named_theorems frame_intros "steps that keep the disk and the node's other state"

lemma keeps_refl [simp]: "keeps E s s"
  by (simp add: keeps_def)

lemma keeps_trans: "keeps E a b \<Longrightarrow> keeps E b c \<Longrightarrow> keeps E a c"
  by (simp add: keeps_def)

lemma framed_sret [frame_intros]: "framed E (sret x)"
  by (simp add: framed_def sret_def)

lemma framed_sbind [frame_intros]: "framed E m \<Longrightarrow> (\<And>x. framed E (f x)) \<Longrightarrow> framed E (sbind m f)"
  unfolding framed_def sbind_def by (auto split: prod.split sum.split) (metis keeps_trans snd_conv)+

lemma framed_smap [frame_intros]: "(\<And>x. framed E (f x)) \<Longrightarrow> framed E (smap f xs)"
  by (induction xs) (auto intro!: frame_intros)

lemma framed_case_prod [frame_intros]: "(\<And>a b. framed E (f a b)) \<Longrightarrow> framed E (case x of (a, b) \<Rightarrow> f a b)"
  by (cases x) simp

lemma keeps_set_driver:
  "d_value_from_disk (ae_driver E) d = d_value_from_disk (ae_driver E) (ap_driver s) \<Longrightarrow> keeps E s (set_driver d s)"
  by (simp add: keeps_def set_driver_def)

lemma keeps_proc:
  "d_value_from_disk (ae_driver E) (ps_driver p) = d_value_from_disk (ae_driver E) (ap_driver s) \<Longrightarrow>
   keeps E s (s\<lparr>ap_proc := p\<rparr>)"
  by (simp add: keeps_def)

lemma process_tx_disk:
  assumes "driver_laws (px_driver P)" "vm_confined (px_driver P) (px_vm P)"
  shows "d_value_from_disk (px_driver P) (ps_driver (snd (process_tx P tx rewards (Some policy) track st))) =
    d_value_from_disk (px_driver P) (ps_driver st)"
proof -
  obtain r st' where run: "process_tx P tx rewards (Some policy) track st = (r, st')" by fastforce
  show ?thesis
  proof (cases r)
    case (Inl e)
    then have "ps_driver st' = d_set_read_tracking (px_driver P) track (ps_driver st)"
      using run by (auto simp: process_tx_def Let_def split: sum.splits prod.splits)
    then show ?thesis using assms(1) by (simp add: run driver_simps)
  next
    case (Inr x)
    then show ?thesis
      using process_tx_state [OF assms, of tx rewards policy track st x st'] run
      by (auto simp: effects_of_def same_state_def split: option.splits)
  qed
qed

lemma node_okD:
  assumes "node_ok E"
  shows "driver_laws (ae_driver E)" "vm_confined (ae_driver E) (px_vm (ae_proc E))"
    "ae_parallel E p txs = Some (rs, p') \<Longrightarrow>
     d_value_from_disk (ae_driver E) (ps_driver p') = d_value_from_disk (ae_driver E) (ps_driver p)"
  using assms unfolding node_ok_def by blast+

lemma framed_run_system_tx [frame_intros]: "node_ok E \<Longrightarrow> framed E (run_system_tx E tx)"
  unfolding framed_def run_system_tx_def
  by (auto split: prod.split sum.split intro!: keeps_proc) (metis process_tx_disk node_okD(1,2) snd_conv)+

lemma execute_block_transactions_disk:
  "node_ok E \<Longrightarrow>
   d_value_from_disk (ae_driver E) (ps_driver (snd (execute_block_transactions E results i entries p))) =
    d_value_from_disk (ae_driver E) (ps_driver p)"
proof (induction E results i entries p rule: execute_block_transactions.induct)
  case (3 E i tx raw es p)
  obtain r p1 where r: "process_tx (ae_proc E) tx True (Some (cfg_fee_policy (ae_cfg E))) False p = (r, p1)" by fastforce
  have "d_value_from_disk (ae_driver E) (ps_driver p1) = d_value_from_disk (ae_driver E) (ps_driver p)"
    using process_tx_disk [OF node_okD(1,2) [OF "3.prems"], of tx True "cfg_fee_policy (ae_cfg E)" False p] by (simp add: r)
  with "3.IH" [OF r [symmetric] refl "3.prems"] show ?case by (auto simp: r split: prod.split)
qed (auto simp: Let_def split: prod.splits)

lemma set_nonce_by_tx_disk:
  "driver_laws D \<Longrightarrow> set_nonce_by_tx D tx d = Inr d' \<Longrightarrow> d_value_from_disk D d' = d_value_from_disk D d"
  by (auto simp: set_nonce_by_tx_def set_nonce_def driver_simps split: if_splits elim!: rbind_InrE)

lemma framed_assemble [frame_intros]: "node_ok E \<Longrightarrow> framed E (assemble_tx_results E entries)"
proof -
  assume E: "node_ok E"
  have "framed E (assemble_entry E entry)" for entry
    unfolding framed_def assemble_entry_def
    by (auto split: processed_entry.split sum.split intro!: keeps_set_driver
        dest!: set_nonce_by_tx_disk [OF node_okD(1) [OF E]])
  then show ?thesis unfolding assemble_tx_results_def by (rule framed_smap)
qed

lemma framed_transactions_step [frame_intros]:
  assumes "node_ok E"
  shows "framed E (transactions_step E meta req)"
proof -
  have "keeps E st (snd (transactions_step E meta req st))" for st
  proof -
    let ?entries = "decode_block_transactions (ae_cfg E) (get_nonce (ae_driver E) (ap_driver st)) (meta_to_py meta) (br_txs req)"
    obtain results st1 where par: "execute_in_parallel E (decoded_txs ?entries) st = (results, st1)" by fastforce
    obtain processed p where ex: "execute_block_transactions E results 0 ?entries (ap_proc st1) = (processed, p)" by fastforce
    have "keeps E st st1"
      using par node_okD(3) [OF assms] by (auto simp: execute_in_parallel_def keeps_def split: option.splits)
    also have "keeps E st1 (st1\<lparr>ap_proc := p\<rparr>)"
      using execute_block_transactions_disk [OF assms, of results 0 ?entries "ap_proc st1"] by (intro keeps_proc) (simp add: ex)
    finally (keeps_trans) have "keeps E st (st1\<lparr>ap_proc := p\<rparr>)" .
    moreover have "framed E (sbind (assemble_tx_results E processed) (\<lambda>tx_results. sret (tx_results, bds_transactions E processed)))"
      by (intro frame_intros assms)
    ultimately show ?thesis
      unfolding transactions_step_def par ex framed_def Let_def prod.case by (blast intro: keeps_trans)
  qed
  then show ?thesis by (simp add: framed_def)
qed

lemma framed_evidence [frame_intros]: "node_ok E \<Longrightarrow> framed E (maybe_apply_evidence_penalties E meta req)"
proof -
  assume E: "node_ok E"
  have "framed E (apply_evidence E meta m)" for m
    using framed_sbind [OF framed_run_system_tx [OF E] framed_sret]
    unfolding framed_def apply_evidence_def by (auto split: option.split sum.split)
  then show ?thesis unfolding maybe_apply_evidence_penalties_def by (intro frame_intros)
qed

lemma framed_rebalance [frame_intros]: "node_ok E \<Longrightarrow> framed E (maybe_run_validator_epoch_rebalance E meta)"
  using framed_sbind [OF framed_run_system_tx framed_sret]
  unfolding framed_def maybe_run_validator_epoch_rebalance_def by (auto split: sum.split bool.split)

lemma build_validator_updates_disk:
  "driver_laws D \<Longrightarrow> build_validator_updates D d = Inr (updates, d') \<Longrightarrow> d_value_from_disk D d' = d_value_from_disk D d"
  by (auto simp: build_validator_updates_def Let_def driver_simps split: if_splits elim!: rbind_InrE)

lemma framed_update_or_raise:
  "(\<And>s x s'. f s = Inr (x, s') \<Longrightarrow> keeps E s s') \<Longrightarrow> framed E (update_or_raise f)"
  by (auto simp: framed_def update_or_raise_def split: sum.split)

lemma framed_validator_updates [frame_intros]: "node_ok E \<Longrightarrow> framed E (validator_updates_step E)"
  unfolding validator_updates_step_def
  by (rule framed_update_or_raise)
    (auto elim!: rbind_InrE intro!: keeps_set_driver dest!: build_validator_updates_disk [OF node_okD(1)])

lemma fold_set_disk: "driver_laws D \<Longrightarrow> d_value_from_disk D (fold (\<lambda>(k, v). d_set D k v) ws d) = d_value_from_disk D d"
  by (induction ws arbitrary: d) (auto simp: driver_simps)

lemma apply_executions_disk:
  assumes "driver_laws D"
  shows "apply_executions P D pm height nanos h exs d = Inr d' \<Longrightarrow> d_value_from_disk D d' = d_value_from_disk D d"
proof (induction exs arbitrary: d)
  case (Cons ex exs)
  obtain d1 where d1: "apply_single_bundle P D ex d = Inr d1"
    "apply_executions P D pm height nanos h exs (mark_patch_applied D pm height nanos h ex d1) = Inr d'"
    using Cons.prems by (auto elim!: rbind_InrE)
  have "d_value_from_disk D d1 = d_value_from_disk D d"
    using d1(1) by (auto simp: apply_single_bundle_def apply_changes_writes fold_set_disk [OF assms] elim!: rbind_InrE)
  moreover have "d_value_from_disk D (mark_patch_applied D pm height nanos h ex d1) = d_value_from_disk D d1"
    using assms by (simp add: mark_patch_applied_def driver_simps)
  ultimately show ?case using Cons.IH [OF d1(2)] by simp
qed simp

lemma framed_patches [frame_intros]: "node_ok E \<Longrightarrow> framed E (patches_step E meta)"
  unfolding patches_step_def
  by (rule framed_update_or_raise)
    (auto simp: apply_patches_for_block_def split: if_splits elim!: rbind_InrE intro!: keeps_set_driver
      dest!: apply_executions_disk [OF node_okD(1)])

lemma framed_block_step: "node_ok E \<Longrightarrow> framed E (block_step E meta req)"
  unfolding block_step_def by (intro frame_intros)

text \<open>A block that is finalized: the state before the application hash, the hash, and what is staged.\<close>

lemma finalize_success:
  assumes "finalize_block E req st = (Inr r, st')"
  obtains meta st0 x s1 c staged rest where
    "initialize_block E req st = (meta, st0)" "block_step E meta req st0 = (Inr x, s1)"
    "fst x = fb_tx_results r" "fst (snd (snd x)) = fb_validator_updates r"
    "prepare_root (ae_hash E) (key_items (d_pending_writes (ae_driver E) (ap_driver s1))) (ap_root s1) = (Inr (fb_app_hash r), c)"
    "ap_staged s1 = None" "d_detach_pending_state (ae_driver E) (ap_driver s1) = (staged, rest)"
    "st' = set_driver rest (s1\<lparr>ap_root := c, ap_merkle_root := Some (fb_app_hash r), ap_staged := Some staged\<rparr>)"
proof -
  obtain meta st0 where init: "initialize_block E req st = (meta, st0)" by fastforce
  have body: "finalize_body E req st = (Inr r, st')"
    using assms by (auto simp: finalize_block_def split: prod.splits sum.splits)
  obtain x s1 where x: "block_step E meta req st0 = (Inr x, s1)"
    "(case x of (tx_results, bds, updates, patch_hash) \<Rightarrow>
       sbind (prepare_root_step E) (\<lambda>app_hash. sbind (stage_pending_commit_driver_state E) (\<lambda>_.
       sret \<lparr>fb_validator_updates = updates, fb_tx_results = tx_results, fb_app_hash = app_hash, fb_bds = bds,
             fb_patch_hash = patch_hash\<rparr>))) s1 = (Inr r, st')"
    using body unfolding finalize_body_def init Let_def prod.case by (rule sbind_Inr)
  obtain h s2 u s3 where h: "prepare_root_step E s1 = (Inr h, s2)" "stage_pending_commit_driver_state E s2 = (Inr u, s3)"
    "st' = s3" "fb_app_hash r = h" "fst x = fb_tx_results r" "fst (snd (snd x)) = fb_validator_updates r"
    using x(2) by (auto simp: sret_def split: prod.splits elim!: sbind_Inr)
  obtain c where c: "prepare_root (ae_hash E) (key_items (d_pending_writes (ae_driver E) (ap_driver s1))) (ap_root s1) = (Inr h, c)"
    "s2 = s1\<lparr>ap_root := c, ap_merkle_root := Some h\<rparr>"
    using h(1) by (auto simp: prepare_root_step_def split: prod.splits sum.splits)
  obtain staged rest where "ap_staged s1 = None" "d_detach_pending_state (ae_driver E) (ap_driver s1) = (staged, rest)"
    "s3 = set_driver rest (s1\<lparr>ap_root := c, ap_merkle_root := Some h, ap_staged := Some staged\<rparr>)"
    using h(2) by (auto simp: stage_pending_commit_driver_state_def c(2) split: prod.splits option.splits)
  with init x(1) h(3-6) c(1) show thesis by (intro that [of meta st0 x s1 c staged rest]) simp_all
qed

section \<open>One result per transaction\<close>

lemma decode_loop_length: "length (decode_loop cfg meta acc txs) = length txs"
  by (induction cfg meta acc txs rule: decode_loop.induct) (auto split: sum.split)

lemma execute_block_transactions_length:
  "length (fst (execute_block_transactions E results i entries p)) = length entries"
  by (induction E results i entries p rule: execute_block_transactions.induct) (auto simp: Let_def split: prod.splits)

lemma transactions_step_length:
  assumes "transactions_step E meta req st = (Inr (tx_results, bds), st')"
  shows "length tx_results = length (br_txs req)"
proof -
  let ?entries = "decode_block_transactions (ae_cfg E) (get_nonce (ae_driver E) (ap_driver st)) (meta_to_py meta) (br_txs req)"
  obtain results st1 where par: "execute_in_parallel E (decoded_txs ?entries) st = (results, st1)" by fastforce
  obtain processed p where ex: "execute_block_transactions E results 0 ?entries (ap_proc st1) = (processed, p)" by fastforce
  have "length tx_results = length processed"
    using assms by (auto simp: transactions_step_def par ex sret_def assemble_tx_results_def elim!: sbind_Inr dest: smap_length)
  also have "\<dots> = length ?entries"
    using execute_block_transactions_length [of E results 0 ?entries "ap_proc st1"] by (simp add: ex)
  finally show ?thesis by (simp add: decode_block_transactions_def decode_loop_length)
qed

lemma block_step_length: "block_step E meta req st = (Inr x, st') \<Longrightarrow> length (fst x) = length (br_txs req)"
  by (auto simp: block_step_def sret_def elim!: sbind_Inr dest!: transactions_step_length)

text \<open>A rejected transaction costs nothing.\<close>

lemma rejected_transaction_free:
  assumes "node_ok E" "br_txs req = [raw]" "ae_parallel E (ap_proc st) [tx] = None"
    and decode: "decode_block_transactions (ae_cfg E) (get_nonce (ae_driver E) (ap_driver st)) (meta_to_py meta) [raw] = [EntryTx tx raw]"
    and run: "process_tx (ae_proc E) tx True (Some (cfg_fee_policy (ae_cfg E))) False (ap_proc st) = (Inr resp, p)"
    and none: "rs_tx_result resp = None"
  shows "transactions_step E meta req st =
      (Inr ([error_tx_result ''Transaction processor returned no tx_result''], []), st\<lparr>ap_proc := p\<rparr>) \<and>
    same_state (ae_driver E) (ps_driver p) (ap_driver st)"
proof
  show "transactions_step E meta req st =
      (Inr ([error_tx_result ''Transaction processor returned no tx_result''], []), st\<lparr>ap_proc := p\<rparr>)"
    using assms(2,3) none by (simp add: transactions_step_def decode execute_in_parallel_def Let_def run
        entry_of_response_def assemble_tx_results_def assemble_entry_def sbind_def sret_def bds_transactions_def)
  show "same_state (ae_driver E) (ps_driver p) (ap_driver st)"
    using process_tx_state [OF node_okD(1,2) [OF assms(1)] run] none by (simp add: effects_of_def)
qed

section \<open>A sample node\<close>

definition sample_node :: "mem_db app_env" where
  "sample_node =
     \<lparr>ae_proc = sample_proc, ae_cfg = sample_cfg, ae_hash = sample_hash, ae_patch = sample_patch_env,
      ae_patches = sample_manager\<lparr>pm_bundles := []\<rparr>, ae_parallel = (\<lambda>_ _. None), ae_bds_enabled = False\<rparr>"

lemma sample_node_ok: "node_ok sample_node"
proof -
  have "px_driver (ae_proc sample_node) = mem_driver" "px_vm (ae_proc sample_node) = px_vm sample_proc"
    "ae_parallel sample_node = (\<lambda>_ _. None)" by (simp_all add: sample_node_def sample_proc_def)
  moreover have "px_driver sample_proc = mem_driver" by (simp add: sample_proc_def)
  ultimately show ?thesis using mem_driver_laws sample_proc_confined by (simp add: node_ok_def)
qed

definition sample_app :: "mem_db \<Rightarrow> mem_db app" where
  "sample_app d =
     \<lparr>ap_proc = \<lparr>ps_driver = d, ps_chi_cost = None, ps_prepared = []\<rparr>, ap_root = snd (cache_from_driver sample_hash mem_driver d),
      ap_nonces = new_nonce_storage 60 8, ap_meta = None, ap_merkle_root = None, ap_staged = None, ap_mirror = None\<rparr>"

definition sample_block :: "string list \<Rightarrow> block_request" where
  "sample_block txs =
     \<lparr>br_txs = txs, br_hash = ''h'', br_height = 1, br_seconds = 0, br_nanos = 5, br_misbehavior = []\<rparr>"

lemma sample_finalize:
  "case finalize_block sample_node (sample_block [raw0]) (sample_app (mem_driver_start 0)) of
     (Inr r, st) \<Rightarrow> True | _ \<Rightarrow> False"
  by code_simp

section \<open>Properties\<close>

text \<open>A finalized block answers every transaction it contains with exactly one result, whether the
  transaction was executed, refused by validation or rejected by the processor.\<close>

theorem one_result_per_transaction:
  assumes "finalize_block E req st = (Inr r, st')"
  shows "length (fb_tx_results r) = length (br_txs req)"
  using assms by (rule finalize_success) (auto dest: block_step_length)

theorem one_result_per_transaction_witness:
  "\<exists>r st'. finalize_block sample_node (sample_block [raw0]) (sample_app (mem_driver_start 0)) = (Inr r, st') \<and>
     length (fb_tx_results r) = length (br_txs (sample_block [raw0]))"
proof -
  obtain r st' where "finalize_block sample_node (sample_block [raw0]) (sample_app (mem_driver_start 0)) = (Inr r, st')"
    using sample_finalize by (auto split: prod.splits sum.splits)
  with one_result_per_transaction [OF this] show ?thesis by blast
qed

text \<open>A transaction whose execution is refused before it starts is answered with an error and
  costs its sender nothing: every storage key, the nonce of the sender included, reads as before.\<close>

theorem rejected_transaction_costs_nothing:
  assumes "node_ok E" and "br_txs req = [raw]" and "ae_parallel E (ap_proc st) [tx] = None"
    and "decode_block_transactions (ae_cfg E) (get_nonce (ae_driver E) (ap_driver st)) (meta_to_py meta) [raw] = [EntryTx tx raw]"
    and "process_tx (ae_proc E) tx True (Some (cfg_fee_policy (ae_cfg E))) False (ap_proc st) = (Inr resp, p)"
    and "rs_tx_result resp = None"
  shows "transactions_step E meta req st =
      (Inr ([error_tx_result ''Transaction processor returned no tx_result''], []), st\<lparr>ap_proc := p\<rparr>) \<and>
    same_state (ae_driver E) (ps_driver p) (ap_driver st) \<and>
    get_nonce (ae_driver E) (ps_driver p) sender = get_nonce (ae_driver E) (ap_driver st) sender"
proof -
  have "d_get (ae_driver E) (ps_driver p) = d_get (ae_driver E) (ap_driver st)"
    if "same_state (ae_driver E) (ps_driver p) (ap_driver st)"
    using that by (auto simp: same_state_def intro: get_cong [OF node_okD(1) [OF assms(1)]])
  with rejected_transaction_free [OF assms] show ?thesis by (simp add: get_nonce_def)
qed

definition sample_meta :: block_meta where
  "sample_meta = fst (initialize_block sample_node (sample_block [raw0]) (sample_app (mem_driver_start 0)))"

definition sample_entry :: pyval where
  "sample_entry = hd (decoded_txs (decode_block_transactions sample_cfg (get_nonce mem_driver (mem_driver_start 0)) (meta_to_py sample_meta) [raw0]))"

theorem rejected_transaction_costs_nothing_witness:
  "\<exists>p. transactions_step sample_node sample_meta (sample_block [raw0]) (sample_app (mem_driver_start 0)) =
      (Inr ([error_tx_result ''Transaction processor returned no tx_result''], []), (sample_app (mem_driver_start 0))\<lparr>ap_proc := p\<rparr>) \<and>
    get_nonce mem_driver (ps_driver p) ''alice'' = get_nonce mem_driver (mem_driver_start 0) ''alice''"
proof -
  let ?st = "sample_app (mem_driver_start 0)"
  have d: "ae_driver sample_node = mem_driver" by (simp add: sample_node_def sample_proc_def)
  have dec: "decode_block_transactions (ae_cfg sample_node) (get_nonce (ae_driver sample_node) (ap_driver ?st)) (meta_to_py sample_meta) [raw0] =
      [EntryTx sample_entry raw0]" by code_simp
  have "case process_tx (ae_proc sample_node) sample_entry True (Some (cfg_fee_policy (ae_cfg sample_node))) False (ap_proc ?st) of
      (Inr resp, p) \<Rightarrow> rs_tx_result resp = None | _ \<Rightarrow> False" by code_simp
  then obtain resp p where "process_tx (ae_proc sample_node) sample_entry True (Some (cfg_fee_policy (ae_cfg sample_node))) False (ap_proc ?st) =
      (Inr resp, p)" "rs_tx_result resp = None" by (auto split: prod.splits sum.splits)
  moreover have "br_txs (sample_block [raw0]) = [raw0]" "ae_parallel sample_node (ap_proc ?st) [sample_entry] = None"
    by (simp_all add: sample_block_def sample_node_def)
  moreover have "ap_driver ?st = mem_driver_start 0" by (simp add: sample_app_def)
  ultimately show ?thesis
    using rejected_transaction_costs_nothing [OF sample_node_ok _ _ dec, of "sample_block [raw0]" resp p "''alice''"] by (auto simp: d)
qed

end
