(* ===== verification/State_Export.thy ===== *)
theory State_Export
  imports Latest_Block Execution_Policy
begin

text \<open>
  Export and import of the whole state (\<^verbatim>\<open>src/src/xian/state_export.py\<close>).  The two listings of
  the storage driver are arguments; what the code relies on is \<open>state_listing\<close>.  Third-party parts
  are in \<open>export_env\<close>: the SHA3 digest, the founder's key and signature, and the text encoding of an
  exported state.  Importing replaces the database before its last check, so an import returns its
  result or exception together with the database and the mirror file it leaves behind.
\<close>

record export_env =
  xe_sha3_256_hex :: "string \<Rightarrow> string"
  xe_public_key :: "string \<Rightarrow> string"
  xe_sign :: "string \<Rightarrow> string \<Rightarrow> string"
  xe_encode :: "pyval \<Rightarrow> string"
  xe_decode :: "string \<Rightarrow> pyval res"

section \<open>The founder's signature\<close>

text \<open>The values the encoder hands to \<^verbatim>\<open>serialize\<close>: wrapped sets and bytes.\<close>

fun serialize :: "json_env \<Rightarrow> pyval \<Rightarrow> pyval" where
  "serialize J (PList xs) = PList (map (serialize J) xs)"
| "serialize J (PTuple xs) = PTuple (map (serialize J) xs)"
| "serialize J (PDict kvs) = PDict (map (\<lambda>kv. (fst kv, serialize J (snd kv))) kvs)"
| "serialize J (PBytes b) = PStr (hexlify b)"
| "serialize J v = (if je_is_wrapper_set J v then je_encode_set_value J v else v)"

definition hash_state_changes :: "export_env \<Rightarrow> json_env \<Rightarrow> pyval \<Rightarrow> string res" where
  "hash_state_changes X J state_changes =
     rbind (spaced_json_dumps (serialize J state_changes)) (\<lambda>t. Inr (xe_sha3_256_hex X t))"

section \<open>Export\<close>

definition entry_to_py :: "string \<times> pyval \<Rightarrow> pyval" where
  "entry_to_py kv = PDict [(PStr ''key'', PStr (fst kv)), (PStr ''value'', snd kv)]"

definition exported_to_py ::
    "string \<Rightarrow> int \<Rightarrow> int \<Rightarrow> string \<Rightarrow> string \<Rightarrow> (string, pyval) dict \<Rightarrow> (string, pyval) dict \<Rightarrow> pyval" where
  "exported_to_py app_hash number nanos signature sender genesis nonces =
     PDict [(PStr ''hash'', PStr app_hash), (PStr ''number'', PInt number), (PStr ''nanos'', PInt nanos),
            (PStr ''origin'', PDict [(PStr ''signature'', PStr signature), (PStr ''sender'', PStr sender)]),
            (PStr ''genesis'', PList (map entry_to_py genesis)), (PStr ''nonces'', PList (map entry_to_py nonces))]"

definition exported_nonces :: "(string, pyval) dict \<Rightarrow> (string, pyval) dict" where
  "exported_nonces run_state =
     sort_key fst (map (\<lambda>(k, v). (drop 4 k, v)) (filter (\<lambda>(k, _). prefix ''__n.'' k) run_state))"

definition exported_genesis :: "(string, pyval) dict \<Rightarrow> pyval \<Rightarrow> (string, pyval) dict" where
  "exported_genesis contract_state execution_policy =
     sort_key fst (filter (\<lambda>(_, v). v \<noteq> PNone) contract_state @ [(EXECUTION_POLICY_KEY, execution_policy)])"

text \<open>The latest block: given by the caller, or read from the mirror file.\<close>

record export_request =
  xq_founder_private_key :: "string option"
  xq_latest_block_hash :: "string option"
  xq_latest_block_height :: "int option"
  xq_latest_block_nanos :: "int option"

definition given_or :: "'a option \<Rightarrow> (mirror_file \<Rightarrow> ('a \<times> mirror_file) res) \<Rightarrow> mirror_file \<Rightarrow> ('a \<times> mirror_file) res" where
  "given_or x r m = (case x of Some v \<Rightarrow> Inr (v, m) | None \<Rightarrow> r m)"

definition build_exported_state ::
    "export_env \<Rightarrow> hash_env \<Rightarrow> text_env \<Rightarrow> bool \<Rightarrow> mirror_file \<Rightarrow> export_request \<Rightarrow>
     (string, pyval) dict \<Rightarrow> (string, pyval) dict \<Rightarrow> (pyval \<times> mirror_file) res" where
  "build_exported_state X H T io_ok m rq contract_state run_state =
     (let execution_policy = (case map_of run_state EXECUTION_POLICY_KEY of None \<Rightarrow> PNone | Some v \<Rightarrow> v) in
      rbind (validate_execution_policy execution_policy) (\<lambda>_.
      rbind (given_or (xq_latest_block_hash rq) (get_latest_block_hash T io_ok) m) (\<lambda>(latest_app_hash, m).
      rbind (given_or (xq_latest_block_height rq) (get_latest_block_height T io_ok) m) (\<lambda>(number, m).
      rbind (given_or (xq_latest_block_nanos rq) (get_latest_block_nanos T io_ok) m) (\<lambda>(nanos, m).
      let nonces = exported_nonces run_state;
          genesis = exported_genesis contract_state execution_policy;
          exported = (\<lambda>app_hash signature sender. exported_to_py app_hash number nanos signature sender genesis nonces) in
      rbind (compute_exported_state_root H (py_str T) (exported [] [] [])) (\<lambda>state_root.
      if latest_app_hash \<noteq> [] \<and> latest_app_hash \<noteq> state_root
      then Inl (ValueError ''exported state root does not match latest block app hash'')
      else case xq_founder_private_key rq of
             None \<Rightarrow> Inr (exported (hexlify state_root) [] [], m)
           | Some key \<Rightarrow>
               if key = [] then Inr (exported (hexlify state_root) [] [], m)
               else rbind (hash_state_changes X (he_json H) (PList (map entry_to_py genesis))) (\<lambda>digest.
                    Inr (exported (hexlify state_root) (xe_sign X key digest) (xe_public_key X key), m))))))))"

definition export_state ::
    "export_env \<Rightarrow> hash_env \<Rightarrow> text_env \<Rightarrow> bool \<Rightarrow> mirror_file \<Rightarrow> string option \<Rightarrow>
     (string, pyval) dict \<Rightarrow> (string, pyval) dict \<Rightarrow> (string \<times> mirror_file) res" where
  "export_state X H T io_ok m founder_private_key contract_state run_state =
     rbind (build_exported_state X H T io_ok m
              \<lparr>xq_founder_private_key = founder_private_key, xq_latest_block_hash = None, xq_latest_block_height = None,
               xq_latest_block_nanos = None\<rparr> contract_state run_state) (\<lambda>(exported, m). Inr (xe_encode X exported, m))"

definition load_exported_state :: "export_env \<Rightarrow> string \<Rightarrow> pyval res" where
  "load_exported_state X content = xe_decode X content"

section \<open>Import\<close>

definition import_writes :: "text_env \<Rightarrow> pyval \<Rightarrow> (string, pyval) dict res" where
  "import_writes T exported_state =
     rbind (list_items (dget_or exported_state ''genesis'' (PList []))) (\<lambda>genesis.
     rbind (mapR entry_pair genesis) (\<lambda>items.
     rbind (list_items (dget_or exported_state ''nonces'' (PList []))) (\<lambda>nonces.
     rbind (mapR entry_pair nonces) (\<lambda>nonce_items.
     Inr (dict_update (dict_update [] (map (\<lambda>(k, v). (str_of k, v)) items))
            (map (\<lambda>(k, v). (''__n'' @ INDEX_SEPARATOR @ py_str T k, v)) nonce_items))))))"

definition advertised_hash :: "pyval \<Rightarrow> string res" where
  "advertised_hash exported_state =
     (let h = dget_or exported_state ''hash'' (PStr []) in
      if is_str h then fromhex (str_of h) else Inl (TypeError ''fromhex() argument must be str''))"

record import_report =
  im_height :: int
  im_app_hash :: string
  im_nanos :: int
  im_keys_imported :: nat

text \<open>The part of \<^verbatim>\<open>import_state\<close> that has touched the database: its writes, its marker and the final check.\<close>

definition install_state ::
    "hash_env \<Rightarrow> text_env \<Rightarrow> bool \<Rightarrow> 'd driver \<Rightarrow> string \<Rightarrow> pyval \<Rightarrow> 'd \<times> mirror_file \<Rightarrow>
     import_report res \<times> 'd \<times> mirror_file" where
  "install_state H T io_ok D state_root exported_state s =
     (let (d, m) = s; d = d_flush_full D d in
      case rbind (import_writes T exported_state) (\<lambda>writes.
           rbind (py_int (te_int_of_text T) (dget_or exported_state ''number'' (PInt 0))) (\<lambda>height.
           rbind (py_int (te_int_of_text T) (dget_or exported_state ''nanos'' (PInt 0))) (\<lambda>nanos.
           rbind (stage_latest_block T D state_root height nanos d) (\<lambda>(latest, d).
           Inr (writes, height, nanos, latest, d))))) of
        Inl e \<Rightarrow> (Inl e, d, m)
      | Inr (writes, height, nanos, latest, d) \<Rightarrow>
          (let d = d_commit D (d_apply_writes D writes d) in
           case rbind (compute_driver_state_root H D d) (\<lambda>h.
                  guard (h = state_root) (ValueError ''imported state root mismatch'')) of
             Inl e \<Rightarrow> (Inl e, d, m)
           | Inr _ \<Rightarrow>
               (case try_write_latest_block T io_ok latest m of
                  Inl e \<Rightarrow> (Inl e, d, m)
                | Inr (_, m) \<Rightarrow>
                    (Inr \<lparr>im_height = height, im_app_hash = hexlify state_root, im_nanos = nanos, im_keys_imported = length writes\<rparr>,
                     d, m))))"

definition import_state ::
    "hash_env \<Rightarrow> text_env \<Rightarrow> (string \<Rightarrow> pyval res) \<Rightarrow> bool \<Rightarrow> 'd driver \<Rightarrow> lmdb \<Rightarrow> pyval \<Rightarrow>
     'd \<times> mirror_file \<Rightarrow> import_report res \<times> 'd \<times> mirror_file" where
  "import_state H T loads io_ok D store exported_state s =
     (case rbind (validate_genesis_execution_policy exported_state) (\<lambda>_.
           rbind (validate_persisted_execution_policy loads store) (\<lambda>_.
           rbind (compute_exported_state_root H (py_str T) exported_state) (\<lambda>state_root.
           rbind (advertised_hash exported_state) (\<lambda>advertised.
           if advertised \<noteq> state_root then Inl (ValueError ''exported state root mismatch'') else Inr state_root)))) of
        Inl e \<Rightarrow> (Inl e, s)
      | Inr state_root \<Rightarrow> install_state H T io_ok D state_root exported_state s)"

text \<open>The marker is no consensus key.\<close>

lemma marker_not_consensus [simp]: "\<not> is_consensus_state_key LATEST_BLOCK_KEY"
  by code_simp

lemma marker_leaf [simp]: "leaf_value H LATEST_BLOCK_KEY v = None" "hashable H LATEST_BLOCK_KEY v"
  by (simp_all add: leaf_value_def hashable_def)

section \<open>What an import writes\<close>

lemma import_writes_wf: "import_writes T ex = Inr ws \<Longrightarrow> dict_wf ws"
  by (auto simp: import_writes_def elim!: rbind_InrE)

definition imported_block :: "string \<Rightarrow> int \<Rightarrow> int \<Rightarrow> latest_block" where
  "imported_block state_root height nanos = \<lparr>lb_hash = hexlify state_root, lb_height = height, lb_nanos = nanos\<rparr>"

definition imported_db :: "'d driver \<Rightarrow> string \<Rightarrow> int \<Rightarrow> int \<Rightarrow> (string, pyval) dict \<Rightarrow> 'd \<Rightarrow> 'd" where
  "imported_db D state_root height nanos writes d =
     d_commit D (d_apply_writes D writes
       (d_set D LATEST_BLOCK_KEY (latest_to_py (imported_block state_root height nanos)) (d_flush_full D d)))"

lemma imported_value:
  assumes laws: "driver_laws D" and wf: "dict_wf writes"
  shows "d_get D (imported_db D h height nanos writes d) k =
      (case map_of writes k of Some v \<Rightarrow> v | None \<Rightarrow> if k = LATEST_BLOCK_KEY then latest_to_py (imported_block h height nanos) else PNone)"
    "d_value_from_disk D (imported_db D h height nanos writes d) = d_get D (imported_db D h height nanos writes d)"
proof -
  have "d_get D (d_flush_full D d) k = PNone" for k by (simp add: driver_get_split [OF laws] driver_simps [OF laws])
  then have g: "d_get D (d_apply_writes D writes
       (d_set D LATEST_BLOCK_KEY (latest_to_py (imported_block h height nanos)) (d_flush_full D d))) k =
     (case map_of writes k of Some v \<Rightarrow> v | None \<Rightarrow> if k = LATEST_BLOCK_KEY then latest_to_py (imported_block h height nanos) else PNone)" for k
    by (simp add: driver_lawsD(10) [OF laws] get_fold_set_wf [OF laws wf] get_set [OF laws] split: option.split)
  have disk: "d_value_from_disk D (imported_db D h height nanos writes d) k =
      (case map_of writes k of Some v \<Rightarrow> v | None \<Rightarrow> if k = LATEST_BLOCK_KEY then latest_to_py (imported_block h height nanos) else PNone)" for k
    by (simp add: imported_db_def driver_lawsD(26) [OF laws] g)
  have get: "d_get D (imported_db D h height nanos writes d) k = d_value_from_disk D (imported_db D h height nanos writes d) k" for k
    by (simp add: imported_db_def driver_get_split [OF laws] driver_lawsD(27) [OF laws])
  from disk get show "d_get D (imported_db D h height nanos writes d) k =
      (case map_of writes k of Some v \<Rightarrow> v | None \<Rightarrow> if k = LATEST_BLOCK_KEY then latest_to_py (imported_block h height nanos) else PNone)"
    by simp
  show "d_value_from_disk D (imported_db D h height nanos writes d) = d_get D (imported_db D h height nanos writes d)"
    using get by (simp add: fun_eq_iff)
qed

lemma install_state_eq:
  assumes laws: "driver_laws D" and "import_writes T ex = Inr writes"
    and "py_int (te_int_of_text T) (dget_or ex ''number'' (PInt 0)) = Inr height"
    and "py_int (te_int_of_text T) (dget_or ex ''nanos'' (PInt 0)) = Inr nanos"
  shows "install_state H T io_ok D h ex (d, m) =
    (case rbind (compute_driver_state_root H D (imported_db D h height nanos writes d)) (\<lambda>h'.
            guard (h' = h) (ValueError ''imported state root mismatch'')) of
       Inl e \<Rightarrow> (Inl e, imported_db D h height nanos writes d, m)
     | Inr _ \<Rightarrow>
         (Inr \<lparr>im_height = height, im_app_hash = hexlify h, im_nanos = nanos, im_keys_imported = length writes\<rparr>,
          imported_db D h height nanos writes d,
          if io_ok then Some (Inr (latest_to_py (imported_block h height nanos))) else m))"
  by (simp add: install_state_def assms(2-4) stage_latest_block_eq [OF laws] try_write_eq imported_db_def imported_block_def
      Let_def split: sum.split)

lemma install_state_success:
  assumes laws: "driver_laws D" and run: "install_state H T io_ok D h ex (d, m) = (Inr rep, d', m')"
  obtains writes where "import_writes T ex = Inr writes" "d' = imported_db D h (im_height rep) (im_nanos rep) writes d"
    "compute_driver_state_root H D d' = Inr h" "im_app_hash rep = hexlify h"
    "m' = (if io_ok then Some (Inr (latest_to_py (imported_block h (im_height rep) (im_nanos rep)))) else m)"
proof -
  obtain writes height nanos where w: "import_writes T ex = Inr writes"
    "py_int (te_int_of_text T) (dget_or ex ''number'' (PInt 0)) = Inr height"
    "py_int (te_int_of_text T) (dget_or ex ''nanos'' (PInt 0)) = Inr nanos"
    using run by (auto simp: install_state_def Let_def split: sum.splits prod.splits elim!: rbind_InrE)
  note r = run [unfolded install_state_eq [OF laws w]]
  then have c: "compute_driver_state_root H D (imported_db D h height nanos writes d) = Inr h"
    by (auto simp: rbind_def guard_def split: sum.splits if_splits)
  with r show thesis by (intro that [of writes]) (auto simp: w(1))
qed

text \<open>A database whose import is accepted holds the root that was advertised.\<close>

lemma import_state_success:
  assumes laws: "driver_laws D" and run: "import_state H T loads io_ok D store ex (d, m) = (Inr rep, d', m')"
  obtains h writes where "compute_exported_state_root H (py_str T) ex = Inr h" "advertised_hash ex = Inr h"
    "import_writes T ex = Inr writes" "d' = imported_db D h (im_height rep) (im_nanos rep) writes d"
    "compute_driver_state_root H D d' = Inr h" "im_app_hash rep = hexlify h"
    "m' = (if io_ok then Some (Inr (latest_to_py (imported_block h (im_height rep) (im_nanos rep)))) else m)"
proof -
  obtain h where h: "compute_exported_state_root H (py_str T) ex = Inr h" "advertised_hash ex = Inr h"
    "install_state H T io_ok D h ex (d, m) = (Inr rep, d', m')"
    using run by (auto simp: import_state_def split: sum.splits if_splits elim!: rbind_InrE)
  from laws h(3) show thesis by (rule install_state_success) (intro that [OF h(1,2)])
qed

section \<open>Exported items\<close>

text \<open>The driver's listings of a state: contract keys, and the keys that start with two underscores.\<close>

definition state_listing :: "(string \<Rightarrow> pyval) \<Rightarrow> (string, pyval) dict \<Rightarrow> (string, pyval) dict \<Rightarrow> bool" where
  "state_listing S contract_state run_state \<longleftrightarrow>
     dict_wf contract_state \<and> dict_wf run_state \<and>
     (\<forall>k. map_of contract_state k = (if \<not> prefix ''__'' k \<and> S k \<noteq> PNone then Some (S k) else None)) \<and>
     (\<forall>k. map_of run_state k = (if prefix ''__'' k \<and> S k \<noteq> PNone then Some (S k) else None))"

definition nonce_items :: "(string, pyval) dict \<Rightarrow> (string, pyval) dict" where
  "nonce_items run_state = map (\<lambda>(k, v). (''__n'' @ INDEX_SEPARATOR @ k, v)) (exported_nonces run_state)"

lemma entry_pair_to_py: "entry_pair (entry_to_py kv) = Inr (PStr (fst kv), snd kv)"
  by (simp add: entry_pair_def entry_to_py_def dindex_def)

lemma mapR_entries: "mapR entry_pair (map entry_to_py d) = Inr (key_items d)"
  by (induction d) (auto simp: entry_pair_to_py)

lemma exported_fields:
  "dget_or (exported_to_py h n t sg sd genesis nonces) ''genesis'' v = PList (map entry_to_py genesis)"
  "dget_or (exported_to_py h n t sg sd genesis nonces) ''nonces'' v = PList (map entry_to_py nonces)"
  "dget_or (exported_to_py h n t sg sd genesis nonces) ''hash'' v = PStr h"
  "dget_or (exported_to_py h n t sg sd genesis nonces) ''number'' v = PInt n"
  "dget_or (exported_to_py h n t sg sd genesis nonces) ''nanos'' v = PInt t"
  by (simp_all add: exported_to_py_def dget_or_def)

lemma exported_root:
  "compute_exported_state_root H (py_str T) (exported_to_py h n t sg sd genesis (exported_nonces run_state)) =
   merkle_root_from_items H (key_items (genesis @ nonce_items run_state))"
  by (simp add: compute_exported_state_root_def exported_state_items_def exported_fields list_items_def mapR_entries
      nonce_items_def) (simp add: key_items_def py_str_def comp_def case_prod_beta)

lemma import_writes_exported:
  "import_writes T (exported_to_py h n t sg sd genesis (exported_nonces run_state)) =
   Inr (dict_update (dict_update [] genesis) (nonce_items run_state))"
proof -
  have "map (\<lambda>(k, v). (str_of k, v)) (key_items d) = d" for d by (induction d) auto
  moreover have "map (\<lambda>(k, v). (''__n'' @ INDEX_SEPARATOR @ py_str T k, v)) (key_items d) =
      map (\<lambda>(k, v). (''__n'' @ INDEX_SEPARATOR @ k, v)) d" for d
    by (simp add: key_items_def py_str_def case_prod_beta)
  ultimately show ?thesis
    by (simp add: import_writes_def exported_fields list_items_def mapR_entries nonce_items_def)
qed

lemma mset_sort_key_map: "mset (map f (sort_key g xs)) = mset (map f xs)"
  by simp

lemma nonce_items_perm: "mset (nonce_items run_state) = mset (filter (\<lambda>(k, _). prefix ''__n.'' k) run_state)"
proof -
  have "map ((\<lambda>(k, v). (''__n'' @ INDEX_SEPARATOR @ k, v)) \<circ> (\<lambda>(k, v). (drop 4 k, v))) (filter (\<lambda>(k, _). prefix ''__n.'' k) xs) =
      filter (\<lambda>(k, _). prefix ''__n.'' k) xs" for xs :: "(string, pyval) dict"
    by (intro map_idI) (auto simp: INDEX_SEPARATOR_def prefix_def)
  then show ?thesis by (simp only: nonce_items_def exported_nonces_def mset_sort_key_map map_map)
qed

text \<open>The items of an export are exactly the consensus keys of the state.\<close>

lemma exported_items:
  assumes listing: "state_listing S contract_state run_state" and policy: "S EXECUTION_POLICY_KEY \<noteq> PNone"
  shows "dict_wf (exported_genesis contract_state (S EXECUTION_POLICY_KEY) @ nonce_items run_state)"
    "map_of (exported_genesis contract_state (S EXECUTION_POLICY_KEY) @ nonce_items run_state) k =
      (if is_consensus_state_key k \<and> S k \<noteq> PNone then Some (S k) else None)"
proof -
  let ?G = "filter (\<lambda>(_, v). v \<noteq> PNone) contract_state @ [(EXECUTION_POLICY_KEY, S EXECUTION_POLICY_KEY)]"
  let ?N = "filter (\<lambda>(k, _). prefix ''__n.'' k) run_state"
  let ?L = "exported_genesis contract_state (S EXECUTION_POLICY_KEY) @ nonce_items run_state"
  note l = listing [unfolded state_listing_def]
  have keys: "\<not> prefix ''__'' k" if "k \<in> fst ` set contract_state" for k
  proof -
    have "map_of contract_state k \<noteq> None" using that by (simp add: map_of_None_fst)
    then show ?thesis using l by metis
  qed
  have perm: "mset ?L = mset (?G @ ?N)" by (simp add: exported_genesis_def nonce_items_perm)
  have pol: "prefix ''__'' EXECUTION_POLICY_KEY" "\<not> prefix ''__n.'' EXECUTION_POLICY_KEY"
    by (simp_all add: EXECUTION_POLICY_KEY_def)
  have disj: "fst ` set ?G \<inter> fst ` set ?N = {}" using keys pol by (force simp: prefix_def)
  have "dict_wf (filter (\<lambda>(_, v). v \<noteq> PNone) contract_state)" using l by simp
  then have "dict_wf ?G" using keys pol(1) by (auto simp: dict_wf_def)
  moreover have "dict_wf ?N" using l by simp
  ultimately have wf: "dict_wf (?G @ ?N)" using disj by (simp add: dict_wf_def)
  then show wfL: "dict_wf ?L" unfolding dict_wf_perm [OF perm] .
  have G: "map_of ?G k = (if (\<not> prefix ''__'' k \<or> k = EXECUTION_POLICY_KEY) \<and> S k \<noteq> PNone then Some (S k) else None)" for k
    using l pol(1) policy by (auto simp: map_of_filter_dict map_add_def split: option.split)
  have N: "map_of ?N k = (if prefix ''__n.'' k \<and> S k \<noteq> PNone then Some (S k) else None)" for k
    using l by (auto simp: map_of_filter_dict prefix_def split: option.split)
  have "map_of (?G @ ?N) k = (if is_consensus_state_key k \<and> S k \<noteq> PNone then Some (S k) else None)"
    using G [of k] N [of k] pol(2) by (auto simp: map_add_def is_consensus_state_key_def INDEX_SEPARATOR_def prefix_def split: option.split if_splits)
  then show "map_of ?L k = (if is_consensus_state_key k \<and> S k \<noteq> PNone then Some (S k) else None)"
    using map_of_perm [OF wfL perm] by simp
qed

lemma merkle_root_of:
  assumes K: "distinct_priorities H K" and items: "dict_wf items" "fst ` set items \<subseteq> K"
    and run: "merkle_root_from_items H (key_items items) = Inr h"
  shows "root_of H K (\<lambda>k. case map_of items k of Some v \<Rightarrow> v | None \<Rightarrow> PNone) h"
proof -
  let ?c = "(rollback H empty_cache)\<lparr>rc_root := Tip, rc_leaf_hashes := []\<rparr>"
  obtain c where c: "rebuild_loop H (key_items items) ?c = (Inr h, c)"
    using run by (cases "rebuild_loop H (key_items items) ?c") (simp add: merkle_root_from_items_def cache_from_items_def rebuild_def)
  have hash: "\<forall>(k, v)\<in>set items. hashable H k v" using rebuild_loop_hashable [OF c] by blast
  from rebuild_loop_ok [OF empty_cache_ok [OF K] items hash] c have
    "cache_ok H K c" "h = root_hash H c" "\<forall>k. leaves c k = (case map_of items k of Some v \<Rightarrow> leaf_value H k v | None \<Rightarrow> None)"
    by (auto split: option.split)
  then show ?thesis
    using hash unfolding root_of_def by (intro exI [of _ c]) (auto dest: map_of_SomeD split: option.split)
qed

lemma root_of_cong:
  assumes "\<And>k. is_consensus_state_key k \<Longrightarrow> S k = S' k"
  shows "root_of H K S h = root_of H K S' h"
proof -
  have "leaf_value H k (S k) = leaf_value H k (S' k)" "hashable H k (S k) = hashable H k (S' k)" for k
    using assms [of k] by (auto simp: leaf_value_def hashable_def)
  then show ?thesis by (simp add: root_of_def)
qed

lemma build_exported_state_success:
  assumes "build_exported_state X H T io_ok m rq contract_state run_state = Inr (ex, m1)"
  obtains number nanos h sg sd policy where
    "policy = (case map_of run_state EXECUTION_POLICY_KEY of None \<Rightarrow> PNone | Some v \<Rightarrow> v)"
    "validate_execution_policy policy = Inr ()"
    "ex = exported_to_py (hexlify h) number nanos sg sd (exported_genesis contract_state policy) (exported_nonces run_state)"
    "merkle_root_from_items H (key_items (exported_genesis contract_state policy @ nonce_items run_state)) = Inr h"
proof -
  let ?p = "case map_of run_state EXECUTION_POLICY_KEY of None \<Rightarrow> PNone | Some v \<Rightarrow> v"
  obtain number nanos h sg sd where e: "validate_execution_policy ?p = Inr ()"
    "compute_exported_state_root H (py_str T) (exported_to_py [] number nanos [] []
       (exported_genesis contract_state ?p) (exported_nonces run_state)) = Inr h"
    "ex = exported_to_py (hexlify h) number nanos sg sd (exported_genesis contract_state ?p) (exported_nonces run_state)"
    using assms by (auto simp: build_exported_state_def Let_def split: if_splits option.splits elim!: rbind_InrE)
  with exported_root show thesis by (intro that [of ?p h number nanos sg sd]) simp_all
qed

lemma filter_key:
  "dict_wf d \<Longrightarrow> map_of d k = Some v \<Longrightarrow> filter (\<lambda>kv. fst kv = k) d = [(k, v)]"
proof (induction d)
  case (Cons kv d)
  show ?case
  proof (cases "fst kv = k")
    case True
    then have "\<forall>x\<in>set d. fst x \<noteq> k" using Cons.prems(1) by (cases kv) auto
    then have "filter (\<lambda>kv. fst kv = k) d = []" by (simp add: filter_empty_conv)
    with True Cons.prems(2) show ?thesis by (cases kv) simp
  qed (use Cons in \<open>cases kv; auto\<close>)
qed simp

lemma exported_policy_valid:
  assumes "dict_wf genesis" "map_of genesis EXECUTION_POLICY_KEY = Some policy" "validate_execution_policy policy = Inr ()"
  shows "validate_genesis_execution_policy (exported_to_py h n t sg sd genesis nonces) = Inr ()"
proof -
  let ?ex = "exported_to_py h n t sg sd genesis nonces"
  have "dget_or ?ex ''abci_genesis'' ?ex = ?ex" by (simp add: exported_to_py_def dget_or_def)
  moreover have "filter (\<lambda>e. is_dict e \<and> dget_or e ''key'' PNone = PStr k) (map entry_to_py d) =
      map entry_to_py (filter (\<lambda>kv. fst kv = k) d)" for k d
    by (induction d) (auto simp: entry_to_py_def dget_or_def)
  ultimately have "genesis_policies ?ex = [policy]"
    by (simp add: genesis_policies_def exported_fields filter_key [OF assms(1,2)]) (simp add: entry_to_py_def dget_or_def)
  then show ?thesis by (simp add: validate_genesis_execution_policy_def assms(3))
qed

text \<open>The writes of importing an export: the consensus keys of the state.\<close>

lemma exported_writes:
  assumes wf: "dict_wf (genesis @ nonces)"
  shows "dict_wf (dict_update (dict_update [] genesis) nonces)"
    "map_of (dict_update (dict_update [] genesis) nonces) k = map_of (genesis @ nonces) k"
proof -
  have w: "dict_wf genesis" "dict_wf nonces" "fst ` set genesis \<inter> fst ` set nonces = {}"
    using wf by (auto simp: dict_wf_def)
  show "dict_wf (dict_update (dict_update [] genesis) nonces)" by simp
  have "map_of genesis k = None \<or> map_of nonces k = None" using w(3) by (auto simp: map_of_None_fst)
  then show "map_of (dict_update (dict_update [] genesis) nonces) k = map_of (genesis @ nonces) k"
    by (auto simp: map_of_dict_update [OF w(1)] map_of_dict_update [OF w(2)] map_add_def split: option.split)
qed

lemma import_exported:
  fixes D :: "'d driver" and d :: 'd
  assumes laws: "driver_laws D" and K: "distinct_priorities H K" "LATEST_BLOCK_KEY \<in> K" "fst ` set (genesis @ nonce_items run_state) \<subseteq> K"
    and wf: "dict_wf (genesis @ nonce_items run_state)" and marker: "map_of (genesis @ nonce_items run_state) LATEST_BLOCK_KEY = None"
    and policy: "map_of genesis EXECUTION_POLICY_KEY = Some policy" "validate_execution_policy policy = Inr ()"
    and store: "is_ok (validate_persisted_execution_policy loads store)"
    and h: "merkle_root_from_items H (key_items (genesis @ nonce_items run_state)) = Inr h"
    and ex: "ex = exported_to_py (hexlify h) number nanos sg sd genesis (exported_nonces run_state)"
  defines "W \<equiv> dict_update (dict_update [] genesis) (nonce_items run_state)"
  defines "d' \<equiv> imported_db D h number nanos W d"
  obtains m' where "import_state H T loads io_ok D store ex (d, m) =
      (Inr \<lparr>im_height = number, im_app_hash = hexlify h, im_nanos = nanos, im_keys_imported = length W\<rparr>, d', m')"
    "compute_driver_state_root H D d' = Inr h"
proof -
  note w = exported_writes [OF wf, folded W_def]
  let ?V = "\<lambda>k. case map_of (genesis @ nonce_items run_state) k of Some v \<Rightarrow> v | None \<Rightarrow> PNone"
  have get: "d_get D d' k = (case map_of (genesis @ nonce_items run_state) k of
      Some v \<Rightarrow> v | None \<Rightarrow> if k = LATEST_BLOCK_KEY then latest_to_py (imported_block h number nanos) else PNone)" for k
    unfolding d'_def imported_value(1) [OF laws w(1)] w(2) ..
  have "root_of H K (d_get D d') h = root_of H K ?V h"
    by (intro root_of_cong) (auto simp: get split: option.split)
  moreover have "root_of H K ?V h" using merkle_root_of [OF K(1) wf K(3) h] .
  moreover have "d_get D d' k = PNone" if "k \<notin> K" for k
  proof -
    have "map_of (genesis @ nonce_items run_state) k = None" using that K(3) unfolding map_of_None_fst by blast
    then show ?thesis using that K(2) by (auto simp: get simp del: map_of_append)
  qed
  ultimately have root: "compute_driver_state_root H D d' = Inr h" using laws K(1) by (intro recomputed_root) auto
  obtain b where b: "validate_persisted_execution_policy loads store = Inr b" using store by (auto simp: is_ok_iff)
  have "dict_wf genesis" using wf by (auto simp: dict_wf_def)
  note pol = exported_policy_valid [OF this policy]
  have writes: "import_writes T ex = Inr W" unfolding ex W_def by (rule import_writes_exported)
  have "install_state H T io_ok D h ex (d, m) =
    (Inr \<lparr>im_height = number, im_app_hash = hexlify h, im_nanos = nanos, im_keys_imported = length W\<rparr>, d',
     if io_ok then Some (Inr (latest_to_py (imported_block h number nanos))) else m)"
    using install_state_eq [OF laws writes, of number nanos H io_ok h d m] root
    by (simp add: d'_def ex exported_fields)
  then have "import_state H T loads io_ok D store ex (d, m) =
    (Inr \<lparr>im_height = number, im_app_hash = hexlify h, im_nanos = nanos, im_keys_imported = length W\<rparr>, d',
     if io_ok then Some (Inr (latest_to_py (imported_block h number nanos))) else m)"
    by (simp add: import_state_def ex pol b exported_root h advertised_hash_def exported_fields)
  then show thesis using root by (rule that)
qed

section \<open>A sample state\<close>

text \<open>A hash of one character: the last one of the text.\<close>

definition short_hash :: hash_env where
  "short_hash = sample_hash\<lparr>he_sha256 := \<lambda>s. [last s]\<rparr>"

definition sample_export_env :: export_env where
  "sample_export_env = \<lparr>xe_sha3_256_hex = id, xe_public_key = id, xe_sign = (\<lambda>k m. k @ m), xe_encode = (\<lambda>_. []), xe_decode = (\<lambda>_. Inr PNone)\<rparr>"

definition sample_export_request :: export_request where
  "sample_export_request =
     \<lparr>xq_founder_private_key = None, xq_latest_block_hash = Some [], xq_latest_block_height = Some 7, xq_latest_block_nanos = Some 9\<rparr>"

definition sample_contract_state :: "(string, pyval) dict" where
  "sample_contract_state = [(''a'', PInt 1)]"

definition sample_run_state :: "(string, pyval) dict" where
  "sample_run_state = [(EXECUTION_POLICY_KEY, PDict current_execution_policy), (''__n.b:'', PInt 4)]"

definition sample_exported :: pyval where
  "sample_exported = fst (projr (build_exported_state sample_export_env short_hash sample_text True None sample_export_request
     sample_contract_state sample_run_state))"

definition exported_keys :: "string set" where
  "exported_keys = {''a'', EXECUTION_POLICY_KEY, ''__n.b:'', LATEST_BLOCK_KEY}"

lemma sample_exported_ok:
  "build_exported_state sample_export_env short_hash sample_text True None sample_export_request
     sample_contract_state sample_run_state = Inr (sample_exported, None)"
proof -
  have "case (build_exported_state sample_export_env short_hash sample_text True None sample_export_request
     sample_contract_state sample_run_state) of Inr (_, m) \<Rightarrow> m = None | Inl _ \<Rightarrow> False" by code_simp
  then show ?thesis by (auto simp: sample_exported_def split: sum.splits prod.splits)
qed

lemma sample_listing:
  "state_listing (mem_lookup (sample_contract_state @ sample_run_state)) sample_contract_state sample_run_state"
  by (auto simp: state_listing_def sample_contract_state_def sample_run_state_def mem_lookup_def EXECUTION_POLICY_KEY_def
      dict_wf_def)

lemma exported_keys_priorities: "distinct_priorities short_hash exported_keys"
  unfolding distinct_priorities_def exported_keys_def by code_simp

text \<open>A state whose entries name the commit marker itself.\<close>

definition foreign_genesis :: "(string, pyval) dict" where
  "foreign_genesis =
     [(''a'', PInt 1), (EXECUTION_POLICY_KEY, PDict current_execution_policy),
      (LATEST_BLOCK_KEY, latest_to_py \<lparr>lb_hash = ''ff'', lb_height = 99, lb_nanos = 0\<rparr>)]"

definition foreign_export :: pyval where
  "foreign_export =
     exported_to_py (hexlify (projr (merkle_root_from_items short_hash (key_items foreign_genesis)))) 7 9 [] [] foreign_genesis []"

lemma foreign_import:
  "case import_state short_hash sample_text (\<lambda>_. Inr PNone) True mem_driver None foreign_export (mem_driver_start 3, None) of
     (Inr rep, d', m') \<Rightarrow>
       im_height rep = 7 \<and>
       get_committed_latest_block sample_text mem_driver d' = Inr \<lparr>lb_hash = ''ff'', lb_height = 99, lb_nanos = 0\<rparr>
   | _ \<Rightarrow> False"
  by code_simp

section \<open>Properties\<close>

text \<open>C22: State sync is lossless: a state exported from one database and imported into another, whatever
  that one held, gives a database with the same value for every consensus key, whose recomputed
  root is the exported hash, and whose marker carries the exported hash, height and time.\<close>

theorem export_import_roundtrip:
  assumes "driver_laws D" and "distinct_priorities H K" and "\<forall>k. S k \<noteq> PNone \<longrightarrow> k \<in> K" and "LATEST_BLOCK_KEY \<in> K"
    and "state_listing S contract_state run_state"
    and "build_exported_state X H T io_ok m rq contract_state run_state = Inr (ex, m1)"
    and "is_ok (validate_persisted_execution_policy loads store)"
  shows "\<exists>rep d' m' h. import_state H T loads io_ok' D store ex (d, m0) = (Inr rep, d', m') \<and>
    (\<forall>k. is_consensus_state_key k \<longrightarrow> d_value_from_disk D d' k = S k) \<and>
    compute_driver_state_root H D d' = Inr h \<and> dget ex ''hash'' = Some (PStr (hexlify h)) \<and>
    get_committed_latest_block T D d' = Inr \<lparr>lb_hash = hexlify h, lb_height = im_height rep, lb_nanos = im_nanos rep\<rparr> \<and>
    dget ex ''number'' = Some (PInt (im_height rep)) \<and> dget ex ''nanos'' = Some (PInt (im_nanos rep))"
proof -
  obtain number nanos h sg sd policy where b:
    "policy = (case map_of run_state EXECUTION_POLICY_KEY of None \<Rightarrow> PNone | Some v \<Rightarrow> v)"
    "validate_execution_policy policy = Inr ()"
    "ex = exported_to_py (hexlify h) number nanos sg sd (exported_genesis contract_state policy) (exported_nonces run_state)"
    "merkle_root_from_items H (key_items (exported_genesis contract_state policy @ nonce_items run_state)) = Inr h"
    using assms(6) by (rule build_exported_state_success)
  have pol: "policy = S EXECUTION_POLICY_KEY" "S EXECUTION_POLICY_KEY \<noteq> PNone"
    using b(1,2) assms(5) by (auto simp: state_listing_def EXECUTION_POLICY_KEY_def validate_execution_policy_def split: if_splits)
  note items = exported_items [OF assms(5) pol(2), folded pol(1)]
  let ?G = "exported_genesis contract_state policy" and ?N = "nonce_items run_state"
  let ?d = "imported_db D h number nanos (dict_update (dict_update [] ?G) ?N) d"
  have K: "fst ` set (?G @ ?N) \<subseteq> K"
  proof
    fix k assume "k \<in> fst ` set (?G @ ?N)"
    then have "map_of (?G @ ?N) k \<noteq> None" by (simp only: map_of_None_fst) simp
    then show "k \<in> K" using assms(3) items(2) by metis
  qed
  have marker: "map_of (?G @ ?N) LATEST_BLOCK_KEY = None"
    unfolding items(2) by simp
  have "map_of ?N EXECUTION_POLICY_KEY = None"
    by (auto simp: nonce_items_def map_of_None_fst EXECUTION_POLICY_KEY_def INDEX_SEPARATOR_def)
  then have policy: "map_of ?G EXECUTION_POLICY_KEY = Some policy"
    using items(2) [of EXECUTION_POLICY_KEY] pol by (auto simp: is_consensus_state_key_def map_add_def split: option.splits)
  obtain m' where i: "import_state H T loads io_ok' D store ex (d, m0) =
      (Inr \<lparr>im_height = number, im_app_hash = hexlify h, im_nanos = nanos,
            im_keys_imported = length (dict_update (dict_update [] ?G) ?N)\<rparr>, ?d, m')"
    "compute_driver_state_root H D ?d = Inr h"
    using assms(1,2,4) K items(1) marker policy b(2) assms(7) b(4,3) by (rule import_exported)
  note w = exported_writes [OF items(1)]
  have disk: "d_value_from_disk D ?d k = (case map_of (?G @ ?N) k of
      Some v \<Rightarrow> v | None \<Rightarrow> if k = LATEST_BLOCK_KEY then latest_to_py (imported_block h number nanos) else PNone)" for k
    unfolding imported_value [OF assms(1) w(1)] w(2) ..
  have "d_value_from_disk D ?d LATEST_BLOCK_KEY = latest_to_py (imported_block h number nanos)"
    by (simp add: disk marker del: map_of_append)
  then have "get_committed_latest_block T D ?d = Inr (imported_block h number nanos)"
    unfolding imported_block_def by (rule committed_of_marker)
  moreover have "d_value_from_disk D ?d k = S k" if "is_consensus_state_key k" for k
    using that marker by (auto simp: disk items(2) simp del: map_of_append)
  ultimately show ?thesis using i by (auto simp: imported_block_def b(3) exported_to_py_def)
qed

theorem export_import_roundtrip_witness:
  "\<exists>rep d' m' h. import_state short_hash sample_text (\<lambda>_. Inr PNone) True mem_driver None sample_exported (mem_driver_start 3, None) =
      (Inr rep, d', m') \<and> compute_driver_state_root short_hash mem_driver d' = Inr h \<and> d_value_from_disk mem_driver d' ''__n.b:'' = PInt 4"
proof -
  let ?S = "mem_lookup (sample_contract_state @ sample_run_state)"
  have K: "\<forall>k. ?S k \<noteq> PNone \<longrightarrow> k \<in> exported_keys" "LATEST_BLOCK_KEY \<in> exported_keys"
    by (auto simp: mem_lookup_def sample_contract_state_def sample_run_state_def exported_keys_def)
  have store: "is_ok (validate_persisted_execution_policy (\<lambda>_. Inr PNone) None)" by code_simp
  have key: "is_consensus_state_key ''__n.b:''" "?S ''__n.b:'' = PInt 4"
    by (simp_all add: is_consensus_state_key_def INDEX_SEPARATOR_def mem_lookup_def sample_contract_state_def sample_run_state_def
        EXECUTION_POLICY_KEY_def)
  from export_import_roundtrip [OF mem_driver_laws exported_keys_priorities K sample_listing sample_exported_ok store,
      of True "mem_driver_start 3" None] key show ?thesis by metis
qed

text \<open>An accepted import is faithful: the root recomputed from the database afterwards is the hash
  the exported state advertised, every key it lists has the listed value, and apart from the
  marker nothing else is in the database.\<close>

theorem import_installs_advertised_root:
  assumes "driver_laws D" and "import_state H T loads io_ok D store ex (d, m) = (Inr rep, d', m')"
  shows "\<exists>h writes. advertised_hash ex = Inr h \<and> compute_driver_state_root H D d' = Inr h \<and> im_app_hash rep = hexlify h \<and>
    import_writes T ex = Inr writes \<and>
    (\<forall>k. k \<noteq> LATEST_BLOCK_KEY \<longrightarrow> d_value_from_disk D d' k = (case map_of writes k of Some v \<Rightarrow> v | None \<Rightarrow> PNone))"
proof -
  obtain h writes where i: "advertised_hash ex = Inr h" "import_writes T ex = Inr writes"
    "d' = imported_db D h (im_height rep) (im_nanos rep) writes d" "compute_driver_state_root H D d' = Inr h" "im_app_hash rep = hexlify h"
    using assms by (rule import_state_success)
  have "d_value_from_disk D d' k = (case map_of writes k of Some v \<Rightarrow> v | None \<Rightarrow> PNone)" if "k \<noteq> LATEST_BLOCK_KEY" for k
    using that by (simp add: i(3) imported_value [OF assms(1) import_writes_wf [OF i(2)]] split: option.split)
  with i show ?thesis by blast
qed

theorem import_installs_advertised_root_witness:
  "\<exists>rep d' m' h. import_state short_hash sample_text (\<lambda>_. Inr PNone) True mem_driver None foreign_export (mem_driver_start 3, None) =
      (Inr rep, d', m') \<and> compute_driver_state_root short_hash mem_driver d' = Inr h \<and> advertised_hash foreign_export = Inr h"
proof -
  obtain rep d' m' where r: "import_state short_hash sample_text (\<lambda>_. Inr PNone) True mem_driver None foreign_export (mem_driver_start 3, None) =
      (Inr rep, d', m')"
    using foreign_import by (auto split: prod.splits sum.splits)
  from import_installs_advertised_root [OF mem_driver_laws r] r show ?thesis by blast
qed

text \<open>Keys outside consensus are imported unchecked: a state that lists the commit marker among its
  entries is accepted although its root does not cover that entry, and the node then reports the
  listed height and hash as its latest block instead of the imported ones.\<close>

theorem import_accepts_foreign_marker:
  "case import_state short_hash sample_text (\<lambda>_. Inr PNone) True mem_driver None foreign_export (mem_driver_start 3, None) of
     (Inr rep, d', m') \<Rightarrow>
       im_height rep = 7 \<and>
       get_committed_latest_block sample_text mem_driver d' = Inr \<lparr>lb_hash = ''ff'', lb_height = 99, lb_nanos = 0\<rparr>
   | _ \<Rightarrow> False"
  by (rule foreign_import)

text \<open>An export does not serve as a genesis when it has nonces: the exported key of a sender's nonce
  keeps the final delimiter, which the genesis loader appends once more, so loading the entry
  leaves the sender's nonce as it was and stores the value under a key no sender has.\<close>

theorem exported_nonce_misplaced_by_genesis:
  assumes "driver_laws D" and "exported_nonces [(nonce_key sender, v)] = [entry]"
    and "set_nonce_entry D (entry_to_py entry) d = Inr d'"
  shows "d_get D d' (nonce_key sender) = d_get D d (nonce_key sender) \<and>
    d_get D d' (nonce_key (sender @ DELIMITER)) = v"
proof -
  have entry: "entry = (sender @ DELIMITER, v)"
    using assms(2) by (auto simp: exported_nonces_def nonce_key_def NONCE_FILENAME_def INDEX_SEPARATOR_def split: if_splits)
  have "d' = d_set D (nonce_key (sender @ DELIMITER)) v d"
    using assms(3) by (simp add: entry set_nonce_entry_def entry_to_py_def dindex_def set_nonce_def)
  moreover have "nonce_key sender \<noteq> nonce_key (sender @ DELIMITER)" by (simp add: nonce_key_def DELIMITER_def)
  ultimately show ?thesis by (simp add: get_set [OF assms(1)])
qed

theorem exported_nonce_misplaced_by_genesis_witness:
  "\<exists>d'. set_nonce_entry mem_driver (entry_to_py (''bob:'', PInt 4)) (mem_driver_start 0) = Inr d' \<and>
     d_get mem_driver d' (nonce_key ''bob'') = d_get mem_driver (mem_driver_start 0) (nonce_key ''bob'')"
proof -
  have e: "exported_nonces [(nonce_key ''bob'', PInt 4)] = [(''bob:'', PInt 4)]" by code_simp
  have "is_ok (set_nonce_entry mem_driver (entry_to_py (''bob:'', PInt 4)) (mem_driver_start 0))" by code_simp
  then obtain d' where "set_nonce_entry mem_driver (entry_to_py (''bob:'', PInt 4)) (mem_driver_start 0) = Inr d'"
    by (auto simp: is_ok_iff)
  with exported_nonce_misplaced_by_genesis [OF mem_driver_laws e] show ?thesis by blast
qed

end
