(* ===== verification/Runtime_Features.thy ===== *)
theory Runtime_Features
  imports Driver
begin

text \<open>
  The features of the contract runtime a chain has switched on
  (\<^verbatim>\<open>src/src/xian/runtime_features.py\<close>).  Their registry belongs to the contracting package and
  is a parameter: the default features, the normalisation of a mapping (or \<^verbatim>\<open>None\<close>), the state
  key of a feature and the installation into a driver.  What is relied on is \<open>feature_laws\<close>.
\<close>

record 'd feature_env =
  fe_defaults :: "(string, pyval) dict"
  fe_normalize :: "pyval \<Rightarrow> (string, bool) dict res"
  fe_state_key :: "string \<Rightarrow> string"
  fe_install :: "(string, bool) dict \<Rightarrow> 'd \<Rightarrow> 'd"

record runtime_feature_resolution =
  rf_features :: "(string, bool) dict"
  rf_source :: string

definition feature_dict :: "(string, pyval) dict \<Rightarrow> pyval" where
  "feature_dict fs = PDict (map (\<lambda>(k, v). (PStr k, v)) fs)"

definition bool_features :: "(string, bool) dict \<Rightarrow> (string, pyval) dict" where
  "bool_features fs = map (\<lambda>(k, b). (k, PBool b)) fs"

definition install_driver_runtime_features :: "'d feature_env \<Rightarrow> runtime_feature_resolution \<Rightarrow> 'd \<Rightarrow> 'd" where
  "install_driver_runtime_features F resolution d = fe_install F (rf_features resolution) d"

text \<open>Features that were found, or None when there was none.\<close>

definition explicit_features :: "'d feature_env \<Rightarrow> (string, pyval) dict \<Rightarrow> (string, bool) dict option res" where
  "explicit_features F features =
     (if features = [] then Inr None else rbind (fe_normalize F (feature_dict features)) (\<lambda>fs. Inr (Some fs)))"

definition explicit_features_from_driver ::
    "'d feature_env \<Rightarrow> 'd driver \<Rightarrow> 'd option \<Rightarrow> (string, bool) dict option res" where
  "explicit_features_from_driver F D driver =
     (case driver of
        None \<Rightarrow> Inr None
      | Some d \<Rightarrow>
          explicit_features F
            (filter (\<lambda>(_, value). value \<noteq> PNone) (map (\<lambda>(feature, _). (feature, d_get D d (fe_state_key F feature))) (fe_defaults F))))"

definition abci_genesis_state :: "pyval \<Rightarrow> pyval list" where
  "abci_genesis_state genesis =
     (if \<not> is_dict genesis then []
      else let abci_genesis = dget_or genesis ''abci_genesis'' genesis in
        if \<not> is_dict abci_genesis then []
        else case dget_or abci_genesis ''genesis'' PNone of PList state \<Rightarrow> state | _ \<Rightarrow> [])"

text \<open>An entry sets every feature whose state key it names.\<close>

definition features_of_entry :: "'d feature_env \<Rightarrow> pyval \<Rightarrow> (string, pyval) dict \<Rightarrow> (string, pyval) dict" where
  "features_of_entry F entry features =
     (if \<not> is_dict entry then features
      else case dget_or entry ''key'' PNone of
        PStr key \<Rightarrow>
          fold (\<lambda>(feature, _) acc. if key = fe_state_key F feature then AList.update feature (dget_or entry ''value'' PNone) acc else acc)
            (fe_defaults F) features
      | _ \<Rightarrow> features)"

definition explicit_features_from_genesis :: "'d feature_env \<Rightarrow> pyval \<Rightarrow> (string, bool) dict option res" where
  "explicit_features_from_genesis F genesis =
     explicit_features F (fold (features_of_entry F) (abci_genesis_state genesis) [])"

definition resolve_runtime_features ::
    "'d feature_env \<Rightarrow> 'd driver \<Rightarrow> 'd option \<Rightarrow> pyval \<Rightarrow> runtime_feature_resolution res" where
  "resolve_runtime_features F D driver genesis =
     rbind (explicit_features_from_driver F D driver) (\<lambda>from_driver.
     rbind (case from_driver of Some fs \<Rightarrow> Inr (Some fs, ''state'')
            | None \<Rightarrow> rbind (explicit_features_from_genesis F genesis) (\<lambda>fs. Inr (fs, ''genesis''))) (\<lambda>(explicit, source).
     case explicit of
       None \<Rightarrow> rbind (fe_normalize F (feature_dict (fe_defaults F))) (\<lambda>fs. Inr \<lparr>rf_features = fs, rf_source = ''default''\<rparr>)
     | Some fs \<Rightarrow> rbind (fe_normalize F (feature_dict (bool_features fs))) (\<lambda>fs. Inr \<lparr>rf_features = fs, rf_source = source\<rparr>)))"

definition feature_entry :: "'d feature_env \<Rightarrow> string \<times> bool \<Rightarrow> string \<times> pyval" where
  "feature_entry F fb = (fe_state_key F (fst fb), PBool (snd fb))"

definition genesis_runtime_feature_entries :: "'d feature_env \<Rightarrow> pyval \<Rightarrow> (string \<times> pyval) list res" where
  "genesis_runtime_feature_entries F features =
     rbind (fe_normalize F features) (\<lambda>resolved. Inr (map (feature_entry F) (sort_key fst resolved)))"

section \<open>Features survive genesis\<close>

text \<open>
  The documented behaviour of the registry: normalisation returns a flag for each default feature,
  and gives the same flags when it is applied to a mapping with exactly these flags, in any order;
  different features have different keys; installing does not touch what the driver stores.
\<close>

definition feature_laws :: "'d feature_env \<Rightarrow> 'd driver \<Rightarrow> bool" where
  "feature_laws F D \<longleftrightarrow>
     dict_wf (fe_defaults F) \<and> fe_defaults F \<noteq> [] \<and>
     inj_on (fe_state_key F) (fst ` set (fe_defaults F)) \<and>
     (\<forall>v fs. fe_normalize F v = Inr fs \<longrightarrow> map fst fs = map fst (fe_defaults F)) \<and>
     (\<forall>v fs gs. fe_normalize F v = Inr fs \<longrightarrow> dict_wf gs \<longrightarrow> map_of gs = map_of fs \<longrightarrow>
        fe_normalize F (feature_dict (bool_features gs)) = Inr fs) \<and>
     (\<forall>fs d. d_pending_writes D (fe_install F fs d) = d_pending_writes D d \<and>
        d_value_from_disk D (fe_install F fs d) = d_value_from_disk D d)"

lemma map_of_bool_features: "map_of (bool_features fs) k = map_option PBool (map_of fs k)"
  by (induction fs) (auto simp: bool_features_def)

lemma bool_features_inj: "bool_features fs = bool_features gs \<Longrightarrow> fs = gs"
  by (induction fs arbitrary: gs) (auto simp: bool_features_def Cons_eq_map_conv)

lemma fst_bool_features [simp]: "map fst (bool_features fs) = map fst fs"
  by (simp add: bool_features_def split_def)

text \<open>The flags of a normalised mapping, and the state they are written to.\<close>

definition holds_features :: "'d feature_env \<Rightarrow> (string \<Rightarrow> pyval) \<Rightarrow> (string, bool) dict \<Rightarrow> bool" where
  "holds_features F S fs \<longleftrightarrow> (\<forall>(feature, b)\<in>set fs. S (fe_state_key F feature) = PBool b)"

lemma normalized_laws:
  assumes "feature_laws F D" "fe_normalize F v = Inr fs"
  shows "map fst fs = map fst (fe_defaults F)" "dict_wf fs" "fs \<noteq> []"
    "dict_wf gs \<Longrightarrow> map_of gs = map_of fs \<Longrightarrow> fe_normalize F (feature_dict (bool_features gs)) = Inr fs"
proof -
  have laws: "\<forall>v fs. fe_normalize F v = Inr fs \<longrightarrow> map fst fs = map fst (fe_defaults F)"
    "\<forall>v fs gs. fe_normalize F v = Inr fs \<longrightarrow> dict_wf gs \<longrightarrow> map_of gs = map_of fs \<longrightarrow>
        fe_normalize F (feature_dict (bool_features gs)) = Inr fs"
    "dict_wf (fe_defaults F)" "fe_defaults F \<noteq> []"
    using assms(1) unfolding feature_laws_def by blast+
  show m: "map fst fs = map fst (fe_defaults F)" using laws(1) assms(2) by blast
  then show "dict_wf fs" using laws(3) by (simp add: dict_wf_def)
  show "fs \<noteq> []" using m laws(4) by auto
  show "dict_wf gs \<Longrightarrow> map_of gs = map_of fs \<Longrightarrow> fe_normalize F (feature_dict (bool_features gs)) = Inr fs"
    using laws(2) assms(2) by blast
qed

lemma explicit_normalized:
  assumes "feature_laws F D" "fe_normalize F v = Inr fs" "dict_wf gs" "map_of gs = map_of (bool_features fs)"
  shows "explicit_features F gs = Inr (Some fs)"
proof -
  obtain hs where hs: "gs = bool_features hs"
  proof -
    have "\<exists>b. v = PBool b" if "(k, v) \<in> set gs" for k v
      using that assms(3,4) by (auto simp: dict_wf_map_of_iff [symmetric] map_of_bool_features)
    then have "\<forall>kv\<in>set gs. \<exists>b. kv = (fst kv, PBool b)" by fastforce
    then obtain f where "\<forall>kv\<in>set gs. kv = (fst kv, PBool (f kv))" by metis
    then have "gs = bool_features (map (\<lambda>kv. (fst kv, f kv)) gs)"
      by (auto simp: bool_features_def intro!: map_idI [symmetric])
    with that show thesis by blast
  qed
  have "map_of hs k = map_of fs k" for k
    using fun_cong [OF assms(4), of k] by (cases "map_of hs k"; cases "map_of fs k") (simp_all add: hs map_of_bool_features)
  then have "map_of hs = map_of fs" by blast
  moreover have "dict_wf hs" using assms(3) by (simp add: hs dict_wf_def)
  ultimately have "fe_normalize F (feature_dict gs) = Inr fs" using normalized_laws(4) [OF assms(1,2)] by (simp add: hs)
  moreover have "gs \<noteq> []"
  proof
    assume "gs = []"
    with assms(4) have "map_of (bool_features fs) (fst (hd fs)) = None" by simp
    with normalized_laws(3) [OF assms(1,2)] show False by (cases fs) (auto simp: bool_features_def)
  qed
  ultimately show ?thesis by (simp add: explicit_features_def)
qed

lemma explicit_from_state:
  assumes "feature_laws F D" "fe_normalize F v = Inr fs" "holds_features F (d_get D d) fs"
  shows "explicit_features_from_driver F D (Some d) = Inr (Some fs)"
proof -
  note n = normalized_laws [OF assms(1,2)]
  have "map (\<lambda>(feature, _). (feature, d_get D d (fe_state_key F feature))) (fe_defaults F) =
      map (\<lambda>feature. (feature, d_get D d (fe_state_key F feature))) (map fst fs)"
    by (simp add: n(1) split_def)
  also have "\<dots> = bool_features fs"
    using assms(3) by (auto simp: holds_features_def bool_features_def)
  finally have "filter (\<lambda>(_, value). value \<noteq> PNone)
      (map (\<lambda>(feature, _). (feature, d_get D d (fe_state_key F feature))) (fe_defaults F)) = bool_features fs"
    by (auto simp: bool_features_def filter_id_conv)
  then show ?thesis
    using explicit_normalized [OF assms(1,2), of "bool_features fs"] n(2)
    by (simp add: explicit_features_from_driver_def dict_wf_def)
qed

text \<open>Reading a list of entries: the last entry of a feature's key decides.\<close>

definition genesis_entry :: "string \<times> pyval \<Rightarrow> pyval" where
  "genesis_entry kv = PDict [(PStr ''key'', PStr (fst kv)), (PStr ''value'', snd kv)]"

lemma features_of_genesis_entry:
  "features_of_entry F (genesis_entry kv) acc =
     fold (\<lambda>(feature, _) acc. if fst kv = fe_state_key F feature then AList.update feature (snd kv) acc else acc) (fe_defaults F) acc"
proof -
  have "dget_or (genesis_entry kv) ''key'' PNone = PStr (fst kv)" "dget_or (genesis_entry kv) ''value'' PNone = snd kv"
    "is_dict (genesis_entry kv)" by (simp_all add: genesis_entry_def dget_or_def)
  then show ?thesis unfolding features_of_entry_def by (simp only: pyval.case if_False not_True_eq_False)
qed

lemma update_features_map_of:
  assumes "inj_on key (fst ` set ds)" "dict_wf ds" "dict_wf acc"
  shows "map_of (fold (\<lambda>(f, _) acc. if k = key f then AList.update f v acc else acc) ds acc) g =
     (if g \<in> fst ` set ds \<and> key g = k then Some v else map_of acc g) \<and>
     dict_wf (fold (\<lambda>(f, _) acc. if k = key f then AList.update f v acc else acc) ds acc)"
  using assms
proof (induction ds arbitrary: acc)
  case (Cons d ds)
  obtain f x where d: "d = (f, x)" by (cases d)
  have "inj_on key (fst ` set ds)" "dict_wf ds" using Cons.prems(1,2) by (auto simp: d inj_on_def)
  from Cons.IH [OF this, of "if k = key f then AList.update f v acc else acc"] Cons.prems(3)
  show ?case by (auto simp: d map_of_AList_update)
qed simp

lemma entries_features:
  assumes "inj_on (fe_state_key F) (fst ` set (fe_defaults F))" "dict_wf (fe_defaults F)"
  shows "dict_wf items \<Longrightarrow> dict_wf acc \<Longrightarrow>
    map_of (fold (features_of_entry F) (map genesis_entry items) acc) g =
      (if g \<in> fst ` set (fe_defaults F) \<and> map_of items (fe_state_key F g) \<noteq> None
       then map_of items (fe_state_key F g) else map_of acc g) \<and>
    dict_wf (fold (features_of_entry F) (map genesis_entry items) acc)"
proof (induction items arbitrary: acc)
  case (Cons kv items)
  obtain k v where kv: "kv = (k, v)" by (cases kv)
  let ?acc = "features_of_entry F (genesis_entry kv) acc"
  have u: "map_of ?acc g = (if g \<in> fst ` set (fe_defaults F) \<and> fe_state_key F g = k then Some v else map_of acc g)" "dict_wf ?acc"
    unfolding features_of_genesis_entry kv fst_conv snd_conv
    using update_features_map_of [OF assms Cons.prems(2)] by blast+
  have "dict_wf items" "map_of items k = None" using Cons.prems(1) by (auto simp: kv map_of_eq_None_iff)
  with Cons.IH [OF this(1) u(2)] u(1) show ?case by (auto simp: kv)
qed simp

lemma explicit_from_entries:
  assumes laws: "feature_laws F D" and norm: "fe_normalize F v = Inr fs" and wf: "dict_wf items"
    and holds: "holds_features F (\<lambda>k. case map_of items k of Some v \<Rightarrow> v | None \<Rightarrow> PNone) fs"
    and gen: "abci_genesis_state genesis = map genesis_entry items"
  shows "explicit_features_from_genesis F genesis = Inr (Some fs)"
proof -
  note n = normalized_laws [OF laws norm]
  have inj: "inj_on (fe_state_key F) (fst ` set (fe_defaults F))" "dict_wf (fe_defaults F)"
    using laws unfolding feature_laws_def by blast+
  let ?gs = "fold (features_of_entry F) (map genesis_entry items) []"
  have keys: "fst ` set (fe_defaults F) = fst ` set fs" using arg_cong [OF n(1), of set] by simp
  have "map_of ?gs g = map_of (bool_features fs) g" for g
  proof (cases "map_of fs g")
    case None
    then have "g \<notin> fst ` set (fe_defaults F)" by (simp add: keys map_of_eq_None_iff)
    with entries_features [OF inj wf, of "[]" g] None show ?thesis by (simp add: map_of_bool_features)
  next
    case (Some b)
    then have "(g, b) \<in> set fs" by (rule map_of_SomeD)
    then have "map_of items (fe_state_key F g) = Some (PBool b)" "g \<in> fst ` set (fe_defaults F)"
      using holds unfolding holds_features_def keys by (fastforce split: option.splits, force)
    with entries_features [OF inj wf, of "[]" g] Some show ?thesis by (simp add: map_of_bool_features)
  qed
  moreover have "dict_wf ?gs" using entries_features [OF inj wf, of "[]"] by simp
  ultimately show ?thesis
    using explicit_normalized [OF laws norm, of ?gs] by (simp add: explicit_features_from_genesis_def gen fun_eq_iff)
qed

lemma resolve_explicit:
  assumes "feature_laws F D" "fe_normalize F v = Inr fs"
  shows "explicit_features_from_driver F D driver = Inr (Some fs) \<Longrightarrow>
      resolve_runtime_features F D driver genesis = Inr \<lparr>rf_features = fs, rf_source = ''state''\<rparr>"
    "explicit_features_from_driver F D driver = Inr None \<Longrightarrow> explicit_features_from_genesis F genesis = Inr (Some fs) \<Longrightarrow>
      resolve_runtime_features F D driver genesis = Inr \<lparr>rf_features = fs, rf_source = ''genesis''\<rparr>"
  using normalized_laws(2,4) [OF assms] by (simp_all add: resolve_runtime_features_def)

text \<open>A registry of two features.\<close>

definition sample_features :: "mem_db feature_env" where
  "sample_features =
     \<lparr>fe_defaults = [(''zkp'', PBool False), (''async'', PBool True)],
      fe_normalize = (\<lambda>v.
        if v = PNone \<or> is_dict v
        then Inr [(''zkp'', truthy (dget_or v ''zkp'' (PBool False))), (''async'', truthy (dget_or v ''async'' (PBool True)))]
        else Inl (ValueError ''runtime features must be a mapping'')),
      fe_state_key = (\<lambda>feature. ''__runtime.'' @ feature),
      fe_install = (\<lambda>_ d. d)\<rparr>"

lemma dget_bool_features:
  "dget (feature_dict (bool_features gs)) k = map_option PBool (map_of gs k)"
  by (induction gs) (auto simp: bool_features_def feature_dict_def)

lemma sample_feature_laws: "feature_laws sample_features mem_driver"
proof -
  have "fe_normalize sample_features (feature_dict (bool_features gs)) = Inr fs"
    if "fe_normalize sample_features v = Inr fs" "map_of gs = map_of fs" for v fs gs
    using that by (auto simp: sample_features_def dget_or_def dget_bool_features split: if_splits)
      (simp_all add: feature_dict_def)
  then show ?thesis unfolding feature_laws_def by (auto simp: sample_features_def inj_on_def split: if_splits)
qed

end
