(* ===== verification/Application.thy ===== *)
theory Application
  imports Finalize_Block State_Export Runtime_Features
begin

text \<open>
  The application object that CometBFT drives (\<^verbatim>\<open>src/src/xian/xian_abci.py\<close>) and the handlers
  around FinalizeBlock: Commit, Info, InitChain, CheckTx and the start of the process
  (\<^verbatim>\<open>methods/commit.py\<close>, \<^verbatim>\<open>methods/info.py\<close>, \<^verbatim>\<open>methods/init_chain.py\<close>).  The handlers
  that touch the state are serialised by a lock, so a run is a sequence of handler calls.
  Between two blocks the node is \<open>idle\<close>; after FinalizeBlock, and after a Commit whose write
  transaction failed, a block is \<open>decided\<close>.  An exception in the middle of storing a genesis
  leaves the driver as after the flush here: InitChain is then called again.
\<close>

section \<open>Staged writes\<close>

definition restore_pending_commit_driver_state :: "'d app_env \<Rightarrow> 'd app \<Rightarrow> 'd app" where
  "restore_pending_commit_driver_state E st =
     (case ap_staged st of
        None \<Rightarrow> st
      | Some staged \<Rightarrow> (set_driver (d_attach_pending_state (ae_driver E) staged (ap_driver st)) st)\<lparr>ap_staged := None\<rparr>)"

definition discard_pending_commit_driver_state :: "'d app \<Rightarrow> 'd app" where
  "discard_pending_commit_driver_state st = st\<lparr>ap_staged := None\<rparr>"

section \<open>Commit\<close>

text \<open>The write transaction of \<^verbatim>\<open>hard_apply\<close> succeeds, or raises and leaves the driver in some state.\<close>

datatype 'd apply_outcome = Applied | ApplyFailed "'d \<Rightarrow> 'd"

definition atomic_failure :: "'d driver \<Rightarrow> 'd apply_outcome \<Rightarrow> bool" where
  "atomic_failure D out =
     (case out of Applied \<Rightarrow> True | ApplyFailed f \<Rightarrow> (\<forall>d. d_value_from_disk D (f d) = d_value_from_disk D d))"

record commit_settings =
  cs_pruning_enabled :: bool
  cs_blocks_to_keep :: int

definition retain_height :: "commit_settings \<Rightarrow> int \<Rightarrow> int" where
  "retain_height cs height =
     (if cs_pruning_enabled cs \<and> height > cs_blocks_to_keep cs then height - cs_blocks_to_keep cs else 0)"

definition commit ::
    "'d app_env \<Rightarrow> commit_settings \<Rightarrow> 'd apply_outcome \<Rightarrow> bool \<Rightarrow> (string \<Rightarrow> int) \<Rightarrow> ('d app, int) step" where
  "commit E cs out io_ok now st =
     (let D = ae_driver E; T = px_text (ae_proc E); st = restore_pending_commit_driver_state E st in
      case ap_meta st of
        None \<Rightarrow> (Inl (TypeError ''NoneType object is not subscriptable''), st)
      | Some meta \<Rightarrow>
          (case ap_merkle_root st of
             None \<Rightarrow> (Inl (OtherError ''AttributeError''), st)
           | Some app_hash \<Rightarrow>
               (case stage_latest_block T D app_hash (bm_height meta) (bm_nanos meta) (ap_driver st) of
                  Inl e \<Rightarrow> (Inl e, st)
                | Inr (latest, d) \<Rightarrow>
                    (case out of
                       ApplyFailed f \<Rightarrow>
                         (Inl (OtherError ''hard_apply''),
                          set_driver (d_restore_pending_writes D (d_pending_writes D d)
                            (d_rollback D (str_int (bm_nanos meta)) (f d))) st)
                     | Applied \<Rightarrow>
                         (let d = d_hard_apply D (str_int (bm_nanos meta)) d;
                              st = (set_driver d st)\<lparr>ap_root := commit_root (ap_root st),
                                                    ap_nonces := reconcile_pending D d now (ap_nonces st)\<rparr>
                          in case try_write_latest_block T io_ok latest (ap_mirror st) of
                               Inl e \<Rightarrow> (Inl e, st)
                             | Inr (_, m) \<Rightarrow>
                                 (Inr (retain_height cs (bm_height meta)),
                                  st\<lparr>ap_mirror := m, ap_merkle_root := None, ap_meta := None\<rparr>))))))"

section \<open>Info and CheckTx\<close>

definition info :: "'d app_env \<Rightarrow> bool \<Rightarrow> ('d app, int \<times> string) step" where
  "info E io_ok st =
     (case reconcile_latest_block (px_text (ae_proc E)) io_ok (ae_driver E) (ap_driver st) (ap_mirror st) of
        Inl e \<Rightarrow> (Inl e, st)
      | Inr (latest, m) \<Rightarrow>
          (case fromhex (lb_hash latest) of
             Inl e \<Rightarrow> (Inl e, st\<lparr>ap_mirror := m\<rparr>)
           | Inr app_hash \<Rightarrow> (Inr (lb_height latest, app_hash), st\<lparr>ap_mirror := m\<rparr>)))"

definition app_check_tx :: "'d app_env \<Rightarrow> int \<times> int \<times> int \<Rightarrow> string \<Rightarrow> 'd app \<Rightarrow> int \<times> 'd app" where
  "app_check_tx E clock raw_tx st =
     (case check_tx (ae_driver E) (ap_driver st) (ae_cfg E) clock raw_tx (ap_nonces st) of
        (code, n) \<Rightarrow> (code, st\<lparr>ap_nonces := n\<rparr>))"

section \<open>Genesis and start\<close>

definition genesis_hash_matches :: "pyval \<Rightarrow> string \<Rightarrow> unit res" where
  "genesis_hash_matches genesis state_root =
     (let expected = dget_or genesis ''hash'' PNone in
      if \<not> truthy expected then Inr ()
      else if \<not> is_str expected then Inl (TypeError ''fromhex() argument must be str'')
      else rbind (fromhex (str_of expected)) (\<lambda>h.
           guard (h = state_root) (ValueError ''genesis state root does not match abci_genesis.hash'')))"

definition init_chain ::
    "'d app_env \<Rightarrow> (pyval \<Rightarrow> pyval res) \<Rightarrow> bool \<Rightarrow> pyval \<Rightarrow> ('d app, string) step" where
  "init_chain E convert_dict io_ok genesis st =
     (let D = ae_driver E; T = px_text (ae_proc E) in
      case validate_genesis_execution_policy genesis of
        Inl e \<Rightarrow> (Inl e, st)
      | Inr _ \<Rightarrow>
          (let st = set_driver (d_flush_full D (ap_driver st)) st in
           case store_genesis_block T convert_dict D genesis (ap_driver st) of
             Inl e \<Rightarrow> (Inl e, st)
           | Inr d \<Rightarrow>
               (case rebuild (ae_hash E) (key_items (d_items D d [])) (ap_root st) of
                  (Inl e, c) \<Rightarrow> (Inl e, (set_driver d st)\<lparr>ap_root := c\<rparr>)
                | (Inr state_root, c) \<Rightarrow>
                    (let st = (set_driver d st)\<lparr>ap_root := c\<rparr> in
                     case rbind (genesis_hash_matches genesis state_root) (\<lambda>_.
                          rbind (py_int (te_int_of_text T) (py_or (dget_or genesis ''number'' (PInt 0)) (PInt 0))) (\<lambda>number.
                          set_latest_block T io_ok (Some state_root) (Some number) None (ap_mirror st))) of
                       Inl e \<Rightarrow> (Inl e, st)
                     | Inr m \<Rightarrow> (Inr state_root, st\<lparr>ap_mirror := m\<rparr>)))))"

text \<open>
  The constructor: a new process over the storage that is on disk, up to the point where it has
  its state.  What it finds outside the driver is in \<open>boot_env\<close>: the settings and the genesis
  document, the entries of the store, the registry of runtime features and whether the native
  verifier can be imported.  A store without entries gets the execution policy before the
  driver is opened.
\<close>

record 'd boot_env =
  bo_config :: pyval
  bo_genesis :: pyval
  bo_loads :: "string \<Rightarrow> pyval res"
  bo_store :: lmdb
  bo_features :: "'d feature_env"
  bo_zk_available :: bool

definition require_zk_verifier_if_enabled :: "bool \<Rightarrow> (string, bool) dict \<Rightarrow> unit res" where
  "require_zk_verifier_if_enabled available features =
     (case map_of features ''zk'' of
        Some True \<Rightarrow> guard available (OtherError ''SystemExit'')
      | _ \<Rightarrow> Inr ())"

definition open_storage :: "'d driver \<Rightarrow> bool \<Rightarrow> 'd \<Rightarrow> 'd" where
  "open_storage D marked d =
     (let d = d_flush_cache D d in
      if marked then d_hard_apply D [] (d_set D EXECUTION_POLICY_KEY (PDict current_execution_policy) d) else d)"

definition resolve_features_or_exit :: "'d boot_env \<Rightarrow> 'd driver \<Rightarrow> 'd \<Rightarrow> runtime_feature_resolution res" where
  "resolve_features_or_exit B D d =
     (case resolve_runtime_features (bo_features B) D (Some d) (bo_genesis B) of
        Inl (ValueError _) \<Rightarrow> Inl (OtherError ''SystemExit'')
      | r \<Rightarrow> r)"

definition start_node ::
    "'d app_env \<Rightarrow> 'd boot_env \<Rightarrow> bool \<Rightarrow> int \<Rightarrow> int \<Rightarrow> 'd \<Rightarrow> mirror_file \<Rightarrow> 'd app res" where
  "start_node E B io_ok ttl limit d m =
     rbind (validate_vm_execution_config (bo_config B)) (\<lambda>_.
     rbind (validate_genesis_execution_policy (bo_genesis B)) (\<lambda>_.
     rbind (validate_persisted_execution_policy (bo_loads B) (bo_store B)) (\<lambda>_.
     rbind (initialize_execution_policy (bo_loads B) (bo_store B) (bo_store B)) (\<lambda>store.
     let d = open_storage (ae_driver E) (store \<noteq> bo_store B) d in
     rbind (reconcile_latest_block (px_text (ae_proc E)) io_ok (ae_driver E) d m) (\<lambda>(_, m).
     rbind (resolve_features_or_exit B (ae_driver E) d) (\<lambda>resolution.
     let d = install_driver_runtime_features (bo_features B) resolution d in
     rbind (require_zk_verifier_if_enabled (bo_zk_available B) (rf_features resolution)) (\<lambda>_.
     case cache_from_driver (ae_hash E) (ae_driver E) d of
       (Inl e, _) \<Rightarrow> Inl e
     | (Inr _, c) \<Rightarrow>
         if dget_or (bo_genesis B) ''chain_id'' PNone = PNone then Inl (ValueError ''No value set for chain_id in genesis block'')
         else if dget_or (bo_genesis B) ''abci_genesis'' PNone = PNone
         then Inl (ValueError ''No value set for abci_genesis in Tendermint genesis.json'')
         else Inr \<lparr>ap_proc = \<lparr>ps_driver = d, ps_chi_cost = None, ps_prepared = []\<rparr>, ap_root = c,
                ap_nonces = new_nonce_storage ttl limit, ap_meta = None, ap_merkle_root = None, ap_staged = None,
                ap_mirror = m\<rparr>)))))))"

text \<open>
  What a restart of a running node meets: a store that is in use, so InitChain has left at least
  the execution policy in it, and a feature registry whose installation leaves the stored
  values alone.
\<close>

definition store_in_use :: "'d app_env \<Rightarrow> 'd boot_env \<Rightarrow> bool" where
  "store_in_use E B \<longleftrightarrow>
     bo_store B \<noteq> None \<and> bo_store B \<noteq> Some [] \<and>
     (\<forall>fs d. d_pending_writes (ae_driver E) (fe_install (bo_features B) fs d) = d_pending_writes (ae_driver E) d \<and>
        d_value_from_disk (ae_driver E) (fe_install (bo_features B) fs d) = d_value_from_disk (ae_driver E) d)"

text \<open>The checks a start has to pass.\<close>

definition boot_ready :: "'d app_env \<Rightarrow> 'd boot_env \<Rightarrow> 'd \<Rightarrow> bool" where
  "boot_ready E B d \<longleftrightarrow>
     is_ok (validate_vm_execution_config (bo_config B)) \<and> is_ok (validate_genesis_execution_policy (bo_genesis B)) \<and>
     is_ok (validate_persisted_execution_policy (bo_loads B) (bo_store B)) \<and>
     (case resolve_runtime_features (bo_features B) (ae_driver E) (Some (d_flush_cache (ae_driver E) d)) (bo_genesis B) of
        Inl _ \<Rightarrow> False
      | Inr resolution \<Rightarrow> map_of (rf_features resolution) ''zk'' = Some True \<longrightarrow> bo_zk_available B) \<and>
     dget_or (bo_genesis B) ''chain_id'' PNone \<noteq> PNone \<and> dget_or (bo_genesis B) ''abci_genesis'' PNone \<noteq> PNone"

section \<open>Idle nodes and decided blocks\<close>

definition restored :: "'d app_env \<Rightarrow> 'd app \<Rightarrow> 'd" where
  "restored E st = ap_driver (restore_pending_commit_driver_state E st)"

definition disk_ok :: "'d app_env \<Rightarrow> string set \<Rightarrow> 'd \<Rightarrow> bool" where
  "disk_ok E K d \<longleftrightarrow>
     (\<forall>k. hashable (ae_hash E) k (d_value_from_disk (ae_driver E) d k) \<and>
          (k \<notin> K \<longrightarrow> d_value_from_disk (ae_driver E) d k = PNone))"

text \<open>Between blocks: nothing pending, nothing staged, and the root cache is the tree of the disk.\<close>

definition idle :: "'d app_env \<Rightarrow> string set \<Rightarrow> 'd app \<Rightarrow> bool" where
  "idle E K st \<longleftrightarrow> ap_staged st = None \<and> d_pending_writes (ae_driver E) (ap_driver st) = [] \<and>
     cache_matches (ae_hash E) K (ae_driver E) (ap_driver st) (ap_root st)"

text \<open>A finalized block that is not yet on disk: its writes are staged, or pending after a failed Commit.\<close>

definition decided :: "'d app_env \<Rightarrow> string set \<Rightarrow> block_meta \<Rightarrow> string \<Rightarrow> 'd app \<Rightarrow> bool" where
  "decided E K meta h st \<longleftrightarrow>
     ap_meta st = Some meta \<and> ap_merkle_root st = Some h \<and>
     d_value_from_disk (ae_driver E) (restored E st) = d_value_from_disk (ae_driver E) (ap_driver st) \<and>
     keys_within (ae_driver E) (restored E st) K \<and>
     cache_ok (ae_hash E) K (ap_root st) \<and> h = root_hash (ae_hash E) (ap_root st) \<and>
     (\<forall>k. leaves (ap_root st) k = leaf_value (ae_hash E) k (d_get (ae_driver E) (restored E st) k) \<and>
          hashable (ae_hash E) k (d_get (ae_driver E) (restored E st) k))"

definition block_marker :: "block_meta \<Rightarrow> string \<Rightarrow> latest_block" where
  "block_marker meta h = \<lparr>lb_hash = hexlify h, lb_height = bm_height meta, lb_nanos = bm_nanos meta\<rparr>"

text \<open>What the disk will hold once the decided block is committed.\<close>

definition next_state :: "'d app_env \<Rightarrow> block_meta \<Rightarrow> string \<Rightarrow> 'd app \<Rightarrow> string \<Rightarrow> pyval" where
  "next_state E meta h st =
     (d_get (ae_driver E) (restored E st))(LATEST_BLOCK_KEY := latest_to_py (block_marker meta h))"

lemma set_driver_simps [simp]:
  "ap_driver (set_driver d st) = d" "ap_root (set_driver d st) = ap_root st" "ap_nonces (set_driver d st) = ap_nonces st"
  "ap_meta (set_driver d st) = ap_meta st" "ap_merkle_root (set_driver d st) = ap_merkle_root st"
  "ap_staged (set_driver d st) = ap_staged st" "ap_mirror (set_driver d st) = ap_mirror st"
  by (simp_all add: set_driver_def)

lemma initialize_block_simps:
  assumes "initialize_block E req st = (meta, st0)"
  shows "ap_meta st0 = Some meta" "ap_driver st0 = ap_driver st" "ap_root st0 = ap_root st" "ap_staged st0 = ap_staged st"
    "ap_mirror st0 = ap_mirror st" "bm_height meta = br_height req"
    "bm_nanos meta = get_nanotime_from_block_time (br_seconds req) (br_nanos req)"
  using assms by (auto simp: initialize_block_def Let_def reset_block_cache_def)

lemma restored_staged:
  assumes laws: "driver_laws (ae_driver E)" and "d_detach_pending_state (ae_driver E) d = (staged, rest)"
    and "ap_staged st = Some staged"
  shows "d_pending_writes (ae_driver E) (restored E st) = d_pending_writes (ae_driver E) d"
    "d_value_from_disk (ae_driver E) (restored E st) = d_value_from_disk (ae_driver E) (ap_driver st)"
  using driver_lawsD(13,14) [OF laws, of d "ap_driver st"] assms(2,3)
  by (simp_all add: restored_def restore_pending_commit_driver_state_def)

lemma restored_unstaged: "ap_staged st = None \<Longrightarrow> restored E st = ap_driver st"
  by (simp add: restored_def restore_pending_commit_driver_state_def)

lemma keys_within_cong:
  "d_pending_writes D d = d_pending_writes D d' \<Longrightarrow> d_value_from_disk D d = d_value_from_disk D d' \<Longrightarrow>
   keys_within D d K = keys_within D d' K"
  by (simp add: keys_within_def)

text \<open>FinalizeBlock turns an idle node into one with a decided block and leaves the disk alone.\<close>

lemma finalize_decides:
  assumes ok: "node_ok E" and idle: "idle E K st" and fin: "finalize_block E req st = (Inr r, st')"
    and keys: "keys_within (ae_driver E) (restored E st') K"
  obtains meta where "decided E K meta (fb_app_hash r) st'" "bm_height meta = br_height req"
    "bm_nanos meta = get_nanotime_from_block_time (br_seconds req) (br_nanos req)"
    "d_value_from_disk (ae_driver E) (ap_driver st') = d_value_from_disk (ae_driver E) (ap_driver st)"
    "ap_mirror st' = ap_mirror st"
proof -
  let ?D = "ae_driver E"
  note laws = node_okD(1) [OF ok]
  obtain meta st0 x s1 c staged rest where f:
    "initialize_block E req st = (meta, st0)" "block_step E meta req st0 = (Inr x, s1)"
    "prepare_root (ae_hash E) (key_items (d_pending_writes ?D (ap_driver s1))) (ap_root s1) = (Inr (fb_app_hash r), c)"
    "d_detach_pending_state ?D (ap_driver s1) = (staged, rest)"
    "st' = set_driver rest (s1\<lparr>ap_root := c, ap_merkle_root := Some (fb_app_hash r), ap_staged := Some staged\<rparr>)"
    using fin by (rule finalize_success)
  note init = initialize_block_simps [OF f(1)]
  have "keeps E st0 s1" using framed_block_step [OF ok, of meta req] f(2) by (metis framed_def snd_conv)
  then have k: "d_value_from_disk ?D (ap_driver s1) = d_value_from_disk ?D (ap_driver st)" "ap_root s1 = ap_root st"
    "ap_meta s1 = Some meta" "ap_mirror s1 = ap_mirror st"
    using init by (simp_all add: keeps_def)
  have disk: "d_value_from_disk ?D (ap_driver st') = d_value_from_disk ?D (ap_driver st)"
    using driver_lawsD(12) [OF laws, of "ap_driver s1"] f(4,5) k(1) by simp
  note rs = restored_staged [OF laws f(4), of st']
  have r: "d_pending_writes ?D (restored E st') = d_pending_writes ?D (ap_driver s1)"
    "d_value_from_disk ?D (restored E st') = d_value_from_disk ?D (ap_driver s1)"
    using rs disk k(1) f(5) by simp_all
  have get: "d_get ?D (restored E st') = d_get ?D (ap_driver s1)" using laws r by (rule get_cong)
  have within: "keys_within ?D (ap_driver s1) K" using keys keys_within_cong [OF r] by simp
  have "cache_matches (ae_hash E) K ?D (ap_driver s1) (ap_root s1)"
    using idle k by (simp add: idle_def cache_matches_def)
  note p = cache_matches_prepare [OF laws within this f(3)]
  have "ap_root st' = c" "ap_meta st' = Some meta" "ap_merkle_root st' = Some (fb_app_hash r)" using k(3) by (simp_all add: f(5))
  with p(1,2,5,6) keys r(2) k(1) disk have "decided E K meta (fb_app_hash r) st'" unfolding decided_def get by simp
  then show thesis using that [of meta] init(6,7) disk k(4) f(5) by simp
qed

lemma commit_decided:
  assumes laws: "driver_laws (ae_driver E)" and dec: "decided E K meta h st"
  shows "commit E cs out io_ok now st =
    (let D = ae_driver E; st0 = restore_pending_commit_driver_state E st;
         d = d_set D LATEST_BLOCK_KEY (latest_to_py (block_marker meta h)) (restored E st) in
     case out of
       ApplyFailed f \<Rightarrow>
         (Inl (OtherError ''hard_apply''),
          set_driver (d_restore_pending_writes D (d_pending_writes D d) (d_rollback D (str_int (bm_nanos meta)) (f d))) st0)
     | Applied \<Rightarrow>
         (Inr (retain_height cs (bm_height meta)),
          (set_driver (d_hard_apply D (str_int (bm_nanos meta)) d) st0)
            \<lparr>ap_root := commit_root (ap_root st),
             ap_nonces := reconcile_pending D (d_hard_apply D (str_int (bm_nanos meta)) d) now (ap_nonces st),
             ap_mirror := if io_ok then Some (Inr (latest_to_py (block_marker meta h))) else ap_mirror st,
             ap_merkle_root := None, ap_meta := None\<rparr>))"
proof -
  have st0: "ap_meta (restore_pending_commit_driver_state E st) = Some meta"
    "ap_merkle_root (restore_pending_commit_driver_state E st) = Some h"
    "ap_root (restore_pending_commit_driver_state E st) = ap_root st"
    "ap_nonces (restore_pending_commit_driver_state E st) = ap_nonces st"
    "ap_mirror (restore_pending_commit_driver_state E st) = ap_mirror st"
    "ap_driver (restore_pending_commit_driver_state E st) = restored E st"
    using dec by (simp_all add: decided_def restored_def restore_pending_commit_driver_state_def split: option.split)
  show ?thesis
    by (simp add: commit_def Let_def st0 stage_latest_block_eq [OF laws] try_write_eq block_marker_def
        split: apply_outcome.split)
qed

text \<open>A failed Commit leaves the block decided, to be retried, and the disk as it was.\<close>

lemma failed_commit:
  assumes laws: "driver_laws (ae_driver E)" and dec: "decided E K meta h st" and K: "LATEST_BLOCK_KEY \<in> K"
    and out: "atomic_failure (ae_driver E) (ApplyFailed f)"
  obtains st' where "commit E cs (ApplyFailed f) io_ok now st = (Inl (OtherError ''hard_apply''), st')"
    "decided E K meta h st'" "next_state E meta h st' = next_state E meta h st"
    "d_value_from_disk (ae_driver E) (ap_driver st') = d_value_from_disk (ae_driver E) (ap_driver st)"
    "ap_mirror st' = ap_mirror st"
proof -
  let ?D = "ae_driver E" and ?st0 = "restore_pending_commit_driver_state E st"
  let ?d = "d_set ?D LATEST_BLOCK_KEY (latest_to_py (block_marker meta h)) (restored E st)"
  let ?d' = "d_restore_pending_writes ?D (d_pending_writes ?D ?d) (d_rollback ?D (str_int (bm_nanos meta)) (f ?d))"
  define st' where "st' = set_driver ?d' ?st0"
  have run: "commit E cs (ApplyFailed f) io_ok now st = (Inl (OtherError ''hard_apply''), st')"
    by (simp add: commit_decided [OF laws dec] Let_def st'_def)
  have fields: "ap_staged st' = None" "ap_driver st' = ?d'" "ap_root st' = ap_root st" "ap_mirror st' = ap_mirror st"
    "ap_meta st' = ap_meta st" "ap_merkle_root st' = ap_merkle_root st"
    by (simp_all add: st'_def restore_pending_commit_driver_state_def split: option.split)
  have pend: "d_pending_writes ?D ?d' = d_pending_writes ?D ?d" by (simp add: driver_simps [OF laws] driver_wfD [OF laws])
  have disk: "d_value_from_disk ?D ?d' = d_value_from_disk ?D ?d" "d_value_from_disk ?D ?d = d_value_from_disk ?D (ap_driver st)"
    using out dec by (simp_all add: driver_simps [OF laws] atomic_failure_def decided_def)
  have r: "restored E st' = ?d'" using fields(1,2) by (simp add: restored_unstaged)
  have get: "d_get ?D (restored E st') = (d_get ?D (restored E st))(LATEST_BLOCK_KEY := latest_to_py (block_marker meta h))"
    unfolding r get_cong [OF laws pend disk(1)] by (simp add: fun_eq_iff get_set [OF laws])
  have "keys_within ?D ?d K"
    using dec K by (auto simp: decided_def keys_within_def driver_simps [OF laws])
  then have within: "keys_within ?D (restored E st') K" unfolding r by (simp add: keys_within_cong [OF pend disk(1)])
  have leaf: "leaves (ap_root st') k = leaf_value (ae_hash E) k (d_get ?D (restored E st') k) \<and>
      hashable (ae_hash E) k (d_get ?D (restored E st') k)" for k
    using dec unfolding get fields(3) by (cases "k = LATEST_BLOCK_KEY") (auto simp: decided_def)
  have "d_value_from_disk ?D (restored E st') = d_value_from_disk ?D (ap_driver st')" by (simp add: r fields(2))
  with within leaf dec have "decided E K meta h st'" unfolding decided_def fields(3,5,6) by simp
  moreover have "next_state E meta h st' = next_state E meta h st" unfolding next_state_def get by simp
  moreover have "d_value_from_disk ?D (ap_driver st') = d_value_from_disk ?D (ap_driver st)" unfolding fields(2) using disk by simp
  ultimately show thesis using run fields(4) that [of st'] by blast
qed

text \<open>A Commit that goes through makes the decided state the state on disk and the node idle again.\<close>

lemma applied_commit:
  assumes laws: "driver_laws (ae_driver E)" and dec: "decided E K meta h st"
  obtains st' where "commit E cs Applied io_ok now st = (Inr (retain_height cs (bm_height meta)), st')"
    "idle E K st'" "d_value_from_disk (ae_driver E) (ap_driver st') = next_state E meta h st"
    "root_hash (ae_hash E) (ap_root st') = h"
    "ap_mirror st' = (if io_ok then Some (Inr (latest_to_py (block_marker meta h))) else ap_mirror st)"
proof -
  let ?D = "ae_driver E" and ?st0 = "restore_pending_commit_driver_state E st"
  let ?d = "d_set ?D LATEST_BLOCK_KEY (latest_to_py (block_marker meta h)) (restored E st)"
  let ?d' = "d_hard_apply ?D (str_int (bm_nanos meta)) ?d"
  define st' where "st' = (set_driver ?d' ?st0)
     \<lparr>ap_root := commit_root (ap_root st), ap_nonces := reconcile_pending ?D ?d' now (ap_nonces st),
      ap_mirror := if io_ok then Some (Inr (latest_to_py (block_marker meta h))) else ap_mirror st,
      ap_merkle_root := None, ap_meta := None\<rparr>"
  have run: "commit E cs Applied io_ok now st = (Inr (retain_height cs (bm_height meta)), st')"
    by (simp add: commit_decided [OF laws dec] Let_def st'_def)
  have fields: "ap_staged st' = None" "ap_driver st' = ?d'" "ap_root st' = commit_root (ap_root st)"
    "ap_mirror st' = (if io_ok then Some (Inr (latest_to_py (block_marker meta h))) else ap_mirror st)"
    by (simp_all add: st'_def restore_pending_commit_driver_state_def split: option.split)
  have disk: "d_value_from_disk ?D (ap_driver st') = next_state E meta h st"
    unfolding fields(2) driver_lawsD(3) [OF laws] next_state_def by (simp add: fun_eq_iff get_set [OF laws])
  have "leaves (ap_root st) k = leaf_value (ae_hash E) k (next_state E meta h st k) \<and>
      hashable (ae_hash E) k (next_state E meta h st k)" for k
    using dec by (cases "k = LATEST_BLOCK_KEY") (auto simp: decided_def next_state_def)
  then have "cache_matches (ae_hash E) K ?D (ap_driver st') (ap_root st')"
    using dec unfolding cache_matches_def disk fields(3) by (simp add: decided_def commit_root_def)
  moreover have "d_pending_writes ?D (ap_driver st') = []" unfolding fields(2) by (rule driver_lawsD(4) [OF laws])
  ultimately have "idle E K st'" using fields(1) by (simp add: idle_def)
  moreover have "root_hash (ae_hash E) (ap_root st') = h" using dec by (simp add: fields(3) commit_root_def decided_def)
  ultimately show thesis using run disk fields(4) that [of st'] by blast
qed

section \<open>Restart and genesis\<close>

lemma idle_root: "idle E K st \<Longrightarrow>
   root_of (ae_hash E) K (d_value_from_disk (ae_driver E) (ap_driver st)) (root_hash (ae_hash E) (ap_root st))"
  unfolding idle_def cache_matches_def root_of_def by blast

lemma decided_root: "decided E K meta h st \<Longrightarrow> root_of (ae_hash E) K (next_state E meta h st) h"
  unfolding decided_def root_of_def next_state_def by (intro exI [of _ "ap_root st"]) auto

lemma disk_ok_cong:
  "d_value_from_disk (ae_driver E) d = d_value_from_disk (ae_driver E) d' \<Longrightarrow> disk_ok E K d = disk_ok E K d'"
  by (simp add: disk_ok_def)

text \<open>The cache a new process builds from the disk.\<close>

lemma fresh_cache:
  assumes laws: "driver_laws (ae_driver E)" and K: "distinct_priorities (ae_hash E) K"
    and pending: "d_pending_writes (ae_driver E) d = []" and disk: "disk_ok E K d"
  obtains c where "cache_from_driver (ae_hash E) (ae_driver E) d = (Inr (root_hash (ae_hash E) c), c)"
    "cache_matches (ae_hash E) K (ae_driver E) d c"
proof -
  have get: "d_get (ae_driver E) d k = d_value_from_disk (ae_driver E) d k" for k
    by (simp add: driver_get_split [OF laws] pending)
  have ok: "hashable (ae_hash E) k (d_get (ae_driver E) d k)" "d_get (ae_driver E) d k \<noteq> PNone \<Longrightarrow> k \<in> K" for k
    using disk unfolding disk_ok_def get by blast+
  obtain c where c: "cache_from_driver (ae_hash E) (ae_driver E) d = (Inr (root_hash (ae_hash E) c), c)"
    "cache_ok (ae_hash E) K c" "rc_staged c = []"
    "\<forall>k. leaves c k = leaf_value (ae_hash E) k (d_get (ae_driver E) d k)"
    using cache_from_driver_ok [OF laws K ok(2,1)] by blast
  with ok(1) show thesis
    by (intro that [of c]) (auto simp: cache_matches_def get)
qed

lemma initialize_in_use:
  "bo_store B \<noteq> None \<Longrightarrow> bo_store B \<noteq> Some [] \<Longrightarrow>
   initialize_execution_policy (bo_loads B) (bo_store B) (bo_store B) =
     rbind (validate_persisted_execution_policy (bo_loads B) (bo_store B)) (\<lambda>_. Inr (bo_store B))"
  by (cases "bo_store B") (auto simp: initialize_execution_policy_def validate_persisted_execution_policy_def rbind_def split: sum.split)

lemma resolved_features:
  "resolve_features_or_exit B D d = Inr r \<longleftrightarrow> resolve_runtime_features (bo_features B) D (Some d) (bo_genesis B) = Inr r"
  by (auto simp: resolve_features_or_exit_def split: sum.split exc.split)

lemma zk_verifier_present:
  "is_ok (require_zk_verifier_if_enabled available features) \<longleftrightarrow> (map_of features ''zk'' = Some True \<longrightarrow> available)"
  by (auto simp: require_zk_verifier_if_enabled_def guard_def split: option.splits bool.splits)

text \<open>A start that returns has passed every check, and is on the storage it found.\<close>

lemma start_node_Inr:
  assumes run: "start_node E B io_ok ttl limit d m = Inr st" and used: "store_in_use E B"
  obtains lb where "boot_ready E B d"
    "reconcile_latest_block (px_text (ae_proc E)) io_ok (ae_driver E) (d_flush_cache (ae_driver E) d) m = Inr (lb, ap_mirror st)"
proof -
  let ?D = "ae_driver E" and ?d = "d_flush_cache (ae_driver E) d"
  have s: "bo_store B \<noteq> None" "bo_store B \<noteq> Some []" using used by (simp_all add: store_in_use_def)
  have op: "open_storage ?D (bo_store B \<noteq> bo_store B) d = ?d" by (simp add: open_storage_def)
  obtain u v w lb m1 res z where r: "validate_vm_execution_config (bo_config B) = Inr u" "validate_genesis_execution_policy (bo_genesis B) = Inr v"
    "validate_persisted_execution_policy (bo_loads B) (bo_store B) = Inr w"
    "reconcile_latest_block (px_text (ae_proc E)) io_ok ?D ?d m = Inr (lb, m1)"
    "resolve_features_or_exit B ?D ?d = Inr res" "require_zk_verifier_if_enabled (bo_zk_available B) (rf_features res) = Inr z"
    and ids: "dget_or (bo_genesis B) ''chain_id'' PNone \<noteq> PNone" "dget_or (bo_genesis B) ''abci_genesis'' PNone \<noteq> PNone"
    "ap_mirror st = m1"
    using run unfolding start_node_def initialize_in_use [OF s] Let_def
    by (elim rbind_InrE; clarsimp simp: op [simplified] elim!: rbind_InrE) (auto split: prod.splits sum.splits if_splits)
  have "is_ok (require_zk_verifier_if_enabled (bo_zk_available B) (rf_features res))" by (simp add: r(6))
  then have "boot_ready E B d"
    using r(1-3) r(5) [unfolded resolved_features] ids by (simp add: boot_ready_def zk_verifier_present)
  with r(4) ids(3) show thesis by (intro that) simp_all
qed

lemma start_node_ok:
  assumes laws: "driver_laws (ae_driver E)" and K: "distinct_priorities (ae_hash E) K" and disk: "disk_ok E K d"
    and committed: "get_committed_latest_block (px_text (ae_proc E)) (ae_driver E) d = Inr lb"
    and mirror: "mirror_readable (px_text (ae_proc E)) m"
    and used: "store_in_use E B" and ready: "boot_ready E B d"
  obtains st m' where "start_node E B io_ok ttl limit d m = Inr st" "idle E K st"
    "d_value_from_disk (ae_driver E) (ap_driver st) = d_value_from_disk (ae_driver E) d"
    "reconcile_latest_block (px_text (ae_proc E)) io_ok (ae_driver E) (d_flush_cache (ae_driver E) d) m = Inr (lb, m')"
    "ap_mirror st = m'"
proof -
  let ?D = "ae_driver E" and ?T = "px_text (ae_proc E)" and ?d = "d_flush_cache (ae_driver E) d"
  have s: "bo_store B \<noteq> None" "bo_store B \<noteq> Some []" using used by (simp_all add: store_in_use_def)
  have "get_committed_latest_block ?T ?D ?d = Inr lb"
    using committed committed_cong [of ?D ?d d ?T] by (simp add: driver_lawsD(5) [OF laws])
  from reconcile_eq [OF this mirror] obtain m' where m': "reconcile_latest_block ?T io_ok ?D ?d m = Inr (lb, m')" by blast
  obtain u v w where checks: "validate_vm_execution_config (bo_config B) = Inr u" "validate_genesis_execution_policy (bo_genesis B) = Inr v"
    "validate_persisted_execution_policy (bo_loads B) (bo_store B) = Inr w"
    using ready unfolding boot_ready_def is_ok_iff by blast
  obtain res where res: "resolve_runtime_features (bo_features B) ?D (Some ?d) (bo_genesis B) = Inr res"
    "map_of (rf_features res) ''zk'' = Some True \<longrightarrow> bo_zk_available B"
    using ready unfolding boot_ready_def by (auto split: sum.splits)
  let ?i = "install_driver_runtime_features (bo_features B) res ?d"
  have same: "d_pending_writes ?D ?i = d_pending_writes ?D ?d" "d_value_from_disk ?D ?i = d_value_from_disk ?D ?d"
    using used by (simp_all add: store_in_use_def install_driver_runtime_features_def)
  have i: "d_pending_writes ?D ?i = []" "d_value_from_disk ?D ?i = d_value_from_disk ?D d"
    by (simp_all add: same driver_simps [OF laws])
  obtain c where c: "cache_from_driver (ae_hash E) ?D ?i = (Inr (root_hash (ae_hash E) c), c)" "cache_matches (ae_hash E) K ?D ?i c"
    using laws K i(1) disk_ok_cong [THEN iffD2, OF i(2) disk] by (rule fresh_cache)
  define st where "st = \<lparr>ap_proc = \<lparr>ps_driver = ?i, ps_chi_cost = None, ps_prepared = []\<rparr>, ap_root = c,
     ap_nonces = new_nonce_storage ttl limit, ap_meta = None, ap_merkle_root = None, ap_staged = None, ap_mirror = m'\<rparr>"
  have "is_ok (require_zk_verifier_if_enabled (bo_zk_available B) (rf_features res))" using res(2) by (simp add: zk_verifier_present)
  then have "start_node E B io_ok ttl limit d m = Inr st"
    using ready res(1) by (auto simp: start_node_def initialize_in_use [OF s] Let_def checks m' c(1) st_def is_ok_iff
        open_storage_def resolved_features [THEN iffD2] boot_ready_def)
  moreover have "idle E K st" using c(2) i(1) by (simp add: idle_def st_def)
  moreover have "d_value_from_disk ?D (ap_driver st) = d_value_from_disk ?D d" by (simp add: st_def i(2))
  ultimately show thesis using m' that [of st m'] by (simp add: st_def)
qed

lemma store_genesis_pending:
  assumes laws: "driver_laws D" and "d_pending_writes D d = []" "store_genesis_block T conv D genesis d = Inr d'"
  shows "d_pending_writes D d' = []"
  using assms(2,3) by (auto simp: store_genesis_block_def apply_state_changes_from_block_def driver_lawsD(4) [OF laws]
      split: if_splits elim!: rbind_InrE)

lemma init_chain_success:
  assumes "init_chain E conv io_ok genesis st = (Inr h, st')"
  obtains d c m where "store_genesis_block (px_text (ae_proc E)) conv (ae_driver E) genesis (d_flush_full (ae_driver E) (ap_driver st)) = Inr d"
    "rebuild (ae_hash E) (key_items (d_items (ae_driver E) d [])) (ap_root st) = (Inr h, c)"
    "genesis_hash_matches genesis h = Inr ()" "st' = (set_driver d st)\<lparr>ap_root := c, ap_mirror := m\<rparr>"
    "\<exists>number m0. set_latest_block (px_text (ae_proc E)) io_ok (Some h) (Some number) None m0 = Inr m"
  using assms
  by (auto simp: init_chain_def Let_def set_driver_def split: sum.splits prod.splits elim!: rbind_InrE) blast

lemma set_latest_block_mirror:
  "set_latest_block T io_ok (Some h) (Some n) None m = Inr m' \<Longrightarrow> mirror_readable T m'"
  by (auto simp: set_latest_block_def Let_def write_latest_block_json_def mirror_readable_def read_mirror_def
      split: if_splits elim!: rbind_InrE)

text \<open>Genesis leaves the node idle on the declared state, with that state's root as the app hash.\<close>

lemma init_chain_idle:
  assumes laws: "driver_laws (ae_driver E)" and K: "distinct_priorities (ae_hash E) K"
    and run: "init_chain E conv io_ok genesis st = (Inr h, st')" and st: "ap_staged st = None"
    and keys: "keys_within (ae_driver E) (ap_driver st') K"
  shows "idle E K st'" "disk_ok E K (ap_driver st')" "h = root_hash (ae_hash E) (ap_root st')"
    "mirror_readable (px_text (ae_proc E)) (ap_mirror st')"
proof -
  let ?D = "ae_driver E"
  obtain d c m number m0 where i:
    "store_genesis_block (px_text (ae_proc E)) conv ?D genesis (d_flush_full ?D (ap_driver st)) = Inr d"
    "rebuild (ae_hash E) (key_items (d_items ?D d [])) (ap_root st) = (Inr h, c)"
    "st' = (set_driver d st)\<lparr>ap_root := c, ap_mirror := m\<rparr>"
    "set_latest_block (px_text (ae_proc E)) io_ok (Some h) (Some number) None m0 = Inr m"
    using run by (rule init_chain_success) blast
  have pend: "d_pending_writes ?D d = []" using laws driver_lawsD(19) [OF laws] i(1) by (rule store_genesis_pending)
  have get: "d_get ?D d = d_value_from_disk ?D d" by (simp add: fun_eq_iff driver_get_split [OF laws] pend)
  have c: "cache_from_driver (ae_hash E) ?D d = (Inr h, c)"
    using i(2) rebuild_from_any [of "ae_hash E" _ "ap_root st"] by (simp add: cache_from_driver_def cache_from_items_def)
  have hash: "hashable (ae_hash E) k (d_get ?D d k)" for k
  proof (cases "d_get ?D d k = PNone")
    case False
    then have "map_of (d_items ?D d []) k = Some (d_get ?D d k)" by (simp add: driver_lawsD(7) [OF laws])
    then have "(k, d_get ?D d k) \<in> set (d_items ?D d [])" by (rule map_of_SomeD)
    with i(2) show ?thesis unfolding rebuild_def by (rule rebuild_loop_hashable)
  qed simp
  have in_K: "k \<in> K" if "d_get ?D d k \<noteq> PNone" for k using that keys by (auto simp: keys_within_def get i(3))
  from cache_from_driver_ok [OF laws K in_K hash] c have
    "h = root_hash (ae_hash E) c" "cache_ok (ae_hash E) K c" "rc_staged c = []"
    "\<forall>k. leaves c k = leaf_value (ae_hash E) k (d_get ?D d k)" by auto
  then show "idle E K st'" "h = root_hash (ae_hash E) (ap_root st')"
    using st pend hash by (simp_all add: idle_def i(3) cache_matches_def get)
  show "disk_ok E K (ap_driver st')" using hash in_K by (auto simp: disk_ok_def i(3) get)
  show "mirror_readable (px_text (ae_proc E)) (ap_mirror st')" using set_latest_block_mirror [OF i(4)] by (simp add: i(3))
qed

lemma reconcile_mirror:
  "reconcile_latest_block T io_ok D d m = Inr (lb, m') \<Longrightarrow> mirror_readable T m \<Longrightarrow> mirror_readable T m'"
  by (auto simp: reconcile_latest_block_def try_write_eq mirror_readable_def read_mirror_def split: if_splits elim!: rbind_InrE)

lemma info_answer:
  assumes "get_committed_latest_block (px_text (ae_proc E)) (ae_driver E) (ap_driver st) = Inr lb" "fromhex (lb_hash lb) = Inr h"
    "mirror_readable (px_text (ae_proc E)) (ap_mirror st)"
  obtains m where "info E io_ok st = (Inr (lb_height lb, h), st\<lparr>ap_mirror := m\<rparr>)"
    "mirror_readable (px_text (ae_proc E)) m"
proof -
  obtain m where m: "reconcile_latest_block (px_text (ae_proc E)) io_ok (ae_driver E) (ap_driver st) (ap_mirror st) = Inr (lb, m)"
    using reconcile_eq [OF assms(1,3)] by blast
  then have "info E io_ok st = (Inr (lb_height lb, h), st\<lparr>ap_mirror := m\<rparr>)" by (simp add: info_def assms(2))
  moreover have "mirror_readable (px_text (ae_proc E)) m" using m assms(3) by (rule reconcile_mirror)
  ultimately show thesis by (rule that)
qed

section \<open>A sample node\<close>

definition chain_node :: "mem_db app_env" where
  "chain_node = sample_node\<lparr>ae_hash := short_hash\<rparr>"

lemma chain_node_ok: "node_ok chain_node"
  using sample_node_ok by (simp add: chain_node_def node_ok_def)

lemma chain_node_driver: "ae_driver chain_node = mem_driver"
  by (simp add: chain_node_def sample_node_def sample_proc_def)

end
