(* ===== verification/Node_Protocol.thy ===== *)
theory Node_Protocol
  imports Application
begin

text \<open>
  The node as a whole, under every sequence of calls CometBFT makes: a step relation over the
  handlers of \<^verbatim>\<open>xian_abci.py\<close>, the specification it implements (a state on disk that is
  replaced in one step by the state of a decided block), the simulation between them, and what
  holds in every reachable state.  CometBFT calls FinalizeBlock and Commit in turn and stops
  after an error, which closes the connection and ends the process; a restart keeps what is on
  disk.  Events carry no more than the specification needs.
\<close>

section \<open>The node as a transition system\<close>

text \<open>What CometBFT may call next, and the events of a run.\<close>

datatype phase = Ready | Decided | Halted

datatype node_event = Quiet | Decide string int int | Halt | Persist | Restart

inductive node_step :: "'d app_env \<Rightarrow> string set \<Rightarrow> phase \<times> 'd app \<Rightarrow> node_event \<Rightarrow> phase \<times> 'd app \<Rightarrow> bool" for E K where
  CheckTx: "app_check_tx E clock raw st = (code, st') \<Longrightarrow> node_step E K (ph, st) Quiet (ph, st')"
| Info: "info E io_ok st = (answer, st') \<Longrightarrow> node_step E K (ph, st) Quiet (ph, st')"
| Finalize: "finalize_block E req st = (Inr r, st') \<Longrightarrow> keys_within (ae_driver E) (restored E st') K \<Longrightarrow>
    node_step E K (Ready, st)
      (Decide (fb_app_hash r) (br_height req) (get_nanotime_from_block_time (br_seconds req) (br_nanos req))) (Decided, st')"
| FinalizeFails: "finalize_block E req st = (Inl e, st') \<Longrightarrow> node_step E K (Ready, st) Halt (Halted, st')"
| Commit: "commit E cs Applied io_ok now st = (Inr n, st') \<Longrightarrow> node_step E K (Decided, st) Persist (Ready, st')"
| CommitFails: "atomic_failure (ae_driver E) (ApplyFailed f) \<Longrightarrow> commit E cs (ApplyFailed f) io_ok now st = (Inl e, st') \<Longrightarrow>
    node_step E K (Decided, st) Quiet (Decided, st')"
| Restarted: "store_in_use E B \<Longrightarrow> start_node E B io_ok ttl limit (ap_driver st) (ap_mirror st) = Inr st' \<Longrightarrow>
    node_step E K (ph, st) Restart (Ready, st')"

inductive_cases node_step_cases [consumes 1]: "node_step E K (ph, st) ev (ph', st')"

text \<open>
  The specification: a state on disk and possibly a decided next state.  Deciding a block
  announces the root of the next state, whose marker names that root; persisting replaces the
  state in one step; a restart forgets the decided state and nothing else.
\<close>

type_synonym spec_state = "(string \<Rightarrow> pyval) \<times> (string \<Rightarrow> pyval) option"

inductive spec_step :: "hash_env \<Rightarrow> string set \<Rightarrow> spec_state \<Rightarrow> node_event \<Rightarrow> spec_state \<Rightarrow> bool" for H K where
  "spec_step H K (S, p) Quiet (S, p)"
| "root_of H K S' h \<Longrightarrow> S' LATEST_BLOCK_KEY = latest_to_py \<lparr>lb_hash = hexlify h, lb_height = ht, lb_nanos = n\<rparr> \<Longrightarrow>
   (\<And>k. k \<notin> K \<Longrightarrow> S' k = PNone) \<Longrightarrow> spec_step H K (S, None) (Decide h ht n) (S, Some S')"
| "spec_step H K (S, None) Halt (S, None)"
| "spec_step H K (S, Some S') Persist (S', None)"
| "spec_step H K (S, p) Restart (S, None)"

inductive_cases spec_step_cases [consumes 1]: "spec_step H K (S, p) ev (S', p')"

inductive trace :: "('s \<Rightarrow> 'l \<Rightarrow> 's \<Rightarrow> bool) \<Rightarrow> 's \<Rightarrow> 'l list \<Rightarrow> 's \<Rightarrow> bool" for step where
  trace_Nil: "trace step s [] s"
| trace_snoc: "trace step s ls s' \<Longrightarrow> step s' l s'' \<Longrightarrow> trace step s (ls @ [l]) s''"

locale simulation =
  fixes cstep :: "'s \<Rightarrow> 'l \<Rightarrow> 's \<Rightarrow> bool" and astep :: "'a \<Rightarrow> 'l \<Rightarrow> 'a \<Rightarrow> bool"
    and sim :: "'s \<Rightarrow> 'a \<Rightarrow> bool"
  assumes sim_step: "sim s a \<Longrightarrow> cstep s l s' \<Longrightarrow> \<exists>a'. astep a l a' \<and> sim s' a'"
begin

lemma sim_trace:
  assumes "trace cstep s ls s'" "sim s a"
  shows "\<exists>a'. trace astep a ls a' \<and> sim s' a'"
  using assms
proof (induction rule: trace.induct)
  case (trace_snoc s ls s' l s'')
  obtain a' where a': "trace astep a ls a'" "sim s' a'" using trace_snoc.IH [OF trace_snoc.prems] by blast
  obtain a'' where a'': "astep a' l a''" "sim s'' a''" using sim_step [OF a'(2) trace_snoc.hyps(2)] by blast
  from trace.trace_snoc [of astep, OF a'(1) a''(1)] a''(2) show ?case by blast
qed (blast intro: trace.trace_Nil)

text \<open>An invariant of the abstract machine holds of what every reachable concrete state stands for.\<close>

lemma sim_invariant:
  assumes "trace cstep s ls s'" "sim s a" "J a" "\<And>a l a'. J a \<Longrightarrow> astep a l a' \<Longrightarrow> J a'"
  obtains a' where "sim s' a'" "J a'"
proof -
  obtain a' where a': "trace astep a ls a'" "sim s' a'" using sim_trace [OF assms(1,2)] by blast
  have "J a'" using a'(1) assms(3) by (induction rule: trace.induct) (auto intro: assms(4))
  with a'(2) show thesis by (rule that)
qed

end

text \<open>How the node's state stands for a state of the specification.\<close>

definition stands_for :: "'d app_env \<Rightarrow> string set \<Rightarrow> phase \<times> 'd app \<Rightarrow> spec_state \<Rightarrow> bool" where
  "stands_for E K cfg a \<longleftrightarrow>
     (case (cfg, a) of ((ph, st), (S, p)) \<Rightarrow>
        node_ok E \<and> distinct_priorities (ae_hash E) K \<and> LATEST_BLOCK_KEY \<in> K \<and>
        d_value_from_disk (ae_driver E) (ap_driver st) = S \<and> disk_ok E K (ap_driver st) \<and>
        mirror_readable (px_text (ae_proc E)) (ap_mirror st) \<and>
        (case ph of
           Ready \<Rightarrow> p = None \<and> idle E K st
         | Decided \<Rightarrow> (\<exists>meta h. decided E K meta h st \<and> p = Some (next_state E meta h st))
         | Halted \<Rightarrow> p = None))"

lemma stands_forI:
  assumes "stands_for E K (ph, st) (S, p)"
    and "d_value_from_disk (ae_driver E) (ap_driver st') = d_value_from_disk (ae_driver E) (ap_driver st)"
    and "mirror_readable (px_text (ae_proc E)) (ap_mirror st')"
    and "case ph' of Ready \<Rightarrow> p' = None \<and> idle E K st'
         | Decided \<Rightarrow> (\<exists>meta h. decided E K meta h st' \<and> p' = Some (next_state E meta h st')) | Halted \<Rightarrow> p' = None"
  shows "stands_for E K (ph', st') (S, p')"
  using assms disk_ok_cong [OF assms(2)] by (simp add: stands_for_def)

lemma stands_forD:
  assumes "stands_for E K (ph, st) (S, p)"
  shows "node_ok E" "distinct_priorities (ae_hash E) K" "LATEST_BLOCK_KEY \<in> K"
    "d_value_from_disk (ae_driver E) (ap_driver st) = S" "disk_ok E K (ap_driver st)"
    "mirror_readable (px_text (ae_proc E)) (ap_mirror st)"
    "ph = Ready \<Longrightarrow> p = None \<and> idle E K st" "ph = Halted \<Longrightarrow> p = None"
    "ph = Decided \<Longrightarrow> \<exists>meta h. decided E K meta h st \<and> p = Some (next_state E meta h st)"
  using assms by (auto simp: stands_for_def)

lemma idle_cong: "ap_staged st' = ap_staged st \<Longrightarrow> ap_driver st' = ap_driver st \<Longrightarrow> ap_root st' = ap_root st \<Longrightarrow> idle E K st' = idle E K st"
  by (simp add: idle_def)

lemma restored_cong: "ap_staged st' = ap_staged st \<Longrightarrow> ap_driver st' = ap_driver st \<Longrightarrow> restored E st' = restored E st"
  by (simp add: restored_def restore_pending_commit_driver_state_def split: option.split)

text \<open>Handlers that touch only the reservations and the mirror.\<close>

lemma stands_for_quiet:
  assumes s: "stands_for E K (ph, st) (S, p)" and st': "st' = st\<lparr>ap_nonces := n, ap_mirror := m\<rparr>"
    and m: "mirror_readable (px_text (ae_proc E)) m"
  shows "stands_for E K (ph, st') (S, p)"
proof -
  have "restored E st' = restored E st" by (rule restored_cong) (simp_all add: st')
  then have dec: "decided E K meta h st' = decided E K meta h st" "next_state E meta h st' = next_state E meta h st" for meta h
    by (simp_all add: decided_def next_state_def st')
  have "idle E K st' = idle E K st" by (rule idle_cong) (simp_all add: st')
  with dec s show ?thesis by (intro stands_forI [OF s]) (auto simp: st' m stands_for_def split: phase.split)
qed

lemma info_state:
  assumes "info E io_ok st = (answer, st')" "mirror_readable (px_text (ae_proc E)) (ap_mirror st)"
  obtains m where "st' = st\<lparr>ap_nonces := ap_nonces st, ap_mirror := m\<rparr>" "mirror_readable (px_text (ae_proc E)) m"
proof (cases "reconcile_latest_block (px_text (ae_proc E)) io_ok (ae_driver E) (ap_driver st) (ap_mirror st)")
  case (Inl e)
  with assms show thesis by (intro that [of "ap_mirror st"]) (auto simp: info_def)
next
  case (Inr r)
  obtain lb m where r: "r = (lb, m)" by (cases r)
  have "mirror_readable (px_text (ae_proc E)) m" using Inr assms(2) unfolding r by (rule reconcile_mirror)
  moreover have "st' = st\<lparr>ap_mirror := m\<rparr>" using assms(1) by (auto simp: info_def Inr r split: sum.splits)
  ultimately show thesis by (intro that [of m]) simp_all
qed

lemma failed_finalize:
  assumes "node_ok E" "finalize_block E req st = (Inl e, st')"
  shows "d_value_from_disk (ae_driver E) (ap_driver st') = d_value_from_disk (ae_driver E) (ap_driver st)"
    "ap_mirror st' = ap_mirror st"
proof -
  obtain meta st0 where init: "initialize_block E req st = (meta, st0)" by fastforce
  obtain rx s1 where b: "block_step E meta req st0 = (rx, s1)" by fastforce
  have "keeps E st0 s1" using framed_block_step [OF assms(1), of meta req] b by (metis framed_def snd_conv)
  then have k: "d_value_from_disk (ae_driver E) (ap_driver s1) = d_value_from_disk (ae_driver E) (ap_driver st)"
    "ap_mirror s1 = ap_mirror st"
    using initialize_block_simps [OF init] by (simp_all add: keeps_def)
  have "ap_driver st' = ap_driver s1 \<and> ap_mirror st' = ap_mirror s1"
    using assms(2) init
    by (auto simp: finalize_block_def finalize_body_def b sbind_def prepare_root_step_def sret_def
        stage_pending_commit_driver_state_def split: prod.splits sum.splits option.splits)
  with k show "d_value_from_disk (ae_driver E) (ap_driver st') = d_value_from_disk (ae_driver E) (ap_driver st)"
    "ap_mirror st' = ap_mirror st" by simp_all
qed

lemma commit_phase:
  assumes s: "stands_for E K (Decided, st) (S, p)" and run: "commit E cs Applied io_ok now st = (Inr n, st')"
  shows "\<exists>a'. spec_step (ae_hash E) K (S, p) Persist a' \<and> stands_for E K (Ready, st') a'"
proof -
  note s' = stands_forD [OF s]
  note laws = node_okD(1) [OF s'(1)]
  obtain meta h where dec: "decided E K meta h st" "p = Some (next_state E meta h st)" using s'(9) by blast
  obtain st'' where c: "commit E cs Applied io_ok now st = (Inr (retain_height cs (bm_height meta)), st'')"
    "idle E K st''" "d_value_from_disk (ae_driver E) (ap_driver st'') = next_state E meta h st"
    "ap_mirror st'' = (if io_ok then Some (Inr (latest_to_py (block_marker meta h))) else ap_mirror st)"
    using laws dec(1) by (rule applied_commit)
  have "st'' = st'" using c(1) run by simp
  note c = c [unfolded this]
  have "mirror_readable (px_text (ae_proc E)) (ap_mirror st')"
    using s'(6) by (simp add: c(4) mirror_readable_def read_mirror_def)
  moreover have "disk_ok E K (ap_driver st')"
    using dec(1) s'(3) unfolding disk_ok_def c(3)
    by (auto simp: next_state_def decided_def keys_within_def driver_get_split [OF laws])
  ultimately have "stands_for E K (Ready, st') (next_state E meta h st, None)"
    using s'(1-3) c(2,3) by (simp add: stands_for_def)
  then show ?thesis unfolding dec(2) using spec_step.intros(4) by blast
qed

lemma finalize_phase:
  assumes s: "stands_for E K (Ready, st) (S, p)" and run: "finalize_block E req st = (Inr r, st')"
    and keys: "keys_within (ae_driver E) (restored E st') K"
  shows "\<exists>a'. spec_step (ae_hash E) K (S, p)
      (Decide (fb_app_hash r) (br_height req) (get_nanotime_from_block_time (br_seconds req) (br_nanos req))) a' \<and>
    stands_for E K (Decided, st') a'"
proof -
  note s' = stands_forD [OF s]
  note laws = node_okD(1) [OF s'(1)]
  have idle: "p = None" "idle E K st" using s'(7) by blast+
  obtain meta where m: "decided E K meta (fb_app_hash r) st'" "bm_height meta = br_height req"
    "bm_nanos meta = get_nanotime_from_block_time (br_seconds req) (br_nanos req)"
    "d_value_from_disk (ae_driver E) (ap_driver st') = d_value_from_disk (ae_driver E) (ap_driver st)"
    "ap_mirror st' = ap_mirror st"
    using s'(1) idle(2) run keys by (rule finalize_decides)
  let ?S = "next_state E meta (fb_app_hash r) st'"
  have marker: "?S LATEST_BLOCK_KEY = latest_to_py \<lparr>lb_hash = hexlify (fb_app_hash r), lb_height = br_height req,
      lb_nanos = get_nanotime_from_block_time (br_seconds req) (br_nanos req)\<rparr>"
    by (simp add: next_state_def block_marker_def m(2,3))
  have "?S k = PNone" if "k \<notin> K" for k
    using that keys s'(3) by (auto simp: next_state_def keys_within_def driver_get_split [OF laws])
  with decided_root [OF m(1)] marker have "spec_step (ae_hash E) K (S, p)
      (Decide (fb_app_hash r) (br_height req) (get_nanotime_from_block_time (br_seconds req) (br_nanos req))) (S, Some ?S)"
    unfolding idle(1) by (rule spec_step.intros(2))
  moreover have "stands_for E K (Decided, st') (S, Some ?S)"
    using m(1) s'(6) by (intro stands_forI [OF s m(4)]) (auto simp: m(5))
  ultimately show ?thesis by blast
qed

lemma restart_phase:
  assumes s: "stands_for E K (ph, st) (S, p)" and used: "store_in_use E B"
    and run: "start_node E B io_ok ttl limit (ap_driver st) (ap_mirror st) = Inr st'"
  shows "stands_for E K (Ready, st') (S, None)"
proof -
  note s' = stands_forD [OF s]
  note laws = node_okD(1) [OF s'(1)]
  obtain lb where ready: "boot_ready E B (ap_driver st)" and r: "reconcile_latest_block (px_text (ae_proc E)) io_ok (ae_driver E)
      (d_flush_cache (ae_driver E) (ap_driver st)) (ap_mirror st) = Inr (lb, ap_mirror st')"
    using run used by (rule start_node_Inr)
  then have "get_committed_latest_block (px_text (ae_proc E)) (ae_driver E) (d_flush_cache (ae_driver E) (ap_driver st)) = Inr lb"
    by (auto simp: reconcile_latest_block_def split: if_splits elim!: rbind_InrE)
  then have "get_committed_latest_block (px_text (ae_proc E)) (ae_driver E) (ap_driver st) = Inr lb"
    using committed_cong [of "ae_driver E" "d_flush_cache (ae_driver E) (ap_driver st)" "ap_driver st"]
    by (simp add: driver_lawsD(5) [OF laws])
  with laws s'(2,5) obtain st'' m' where st'': "start_node E B io_ok ttl limit (ap_driver st) (ap_mirror st) = Inr st''" "idle E K st''"
    "d_value_from_disk (ae_driver E) (ap_driver st'') = d_value_from_disk (ae_driver E) (ap_driver st)"
    "reconcile_latest_block (px_text (ae_proc E)) io_ok (ae_driver E) (d_flush_cache (ae_driver E) (ap_driver st)) (ap_mirror st) = Inr (lb, m')"
    "ap_mirror st'' = m'"
    using s'(6) used ready by (rule start_node_ok)
  have "st'' = st'" using st''(1) run by simp
  note st'' = st'' [unfolded this]
  have "mirror_readable (px_text (ae_proc E)) (ap_mirror st')" using reconcile_mirror [OF st''(4) s'(6)] by (simp add: st''(5))
  then show ?thesis using st''(2) by (intro stands_forI [OF s st''(3)]) simp_all
qed

lemma failed_commit_phase:
  assumes s: "stands_for E K (Decided, st) (S, p)" and out: "atomic_failure (ae_driver E) (ApplyFailed f)"
    and run: "commit E cs (ApplyFailed f) io_ok now st = (Inl e, st')"
  shows "stands_for E K (Decided, st') (S, p)"
proof -
  obtain meta h where dec: "decided E K meta h st" "p = Some (next_state E meta h st)" using stands_forD(9) [OF s] by blast
  obtain st'' where c: "commit E cs (ApplyFailed f) io_ok now st = (Inl (OtherError ''hard_apply''), st'')"
    "decided E K meta h st''" "next_state E meta h st'' = next_state E meta h st"
    "d_value_from_disk (ae_driver E) (ap_driver st'') = d_value_from_disk (ae_driver E) (ap_driver st)"
    "ap_mirror st'' = ap_mirror st"
    using node_okD(1) [OF stands_forD(1) [OF s]] dec(1) stands_forD(3) [OF s] out by (rule failed_commit)
  have "st'' = st'" using c(1) run by simp
  note c = c [unfolded this]
  have "\<exists>meta h. decided E K meta h st' \<and> p = Some (next_state E meta h st')" using c(2,3) dec(2) by metis
  then show ?thesis using stands_forD(6) [OF s] by (intro stands_forI [OF s c(4)]) (simp_all add: c(5))
qed

lemma failed_finalize_phase:
  assumes s: "stands_for E K (Ready, st) (S, p)" and run: "finalize_block E req st = (Inl e, st')"
  shows "p = None" "stands_for E K (Halted, st') (S, None)"
proof -
  note f = failed_finalize [OF stands_forD(1) [OF s] run]
  show "p = None" using stands_forD(7) [OF s] by blast
  show "stands_for E K (Halted, st') (S, None)"
    using stands_forD(6) [OF s] by (intro stands_forI [OF s f(1)]) (simp_all add: f(2))
qed

lemma node_sim:
  assumes "stands_for E K cfg a" "node_step E K cfg ev cfg'"
  shows "\<exists>a'. spec_step (ae_hash E) K a ev a' \<and> stands_for E K cfg' a'"
  using assms(2)
proof cases
  case (CheckTx clock raw st code st' ph)
  obtain S p where a: "a = (S, p)" by (cases a)
  note s = assms(1) [unfolded CheckTx a]
  have "st' = st\<lparr>ap_nonces := ap_nonces st', ap_mirror := ap_mirror st\<rparr>"
    using CheckTx by (auto simp: app_check_tx_def split: prod.splits)
  from stands_for_quiet [OF s this stands_forD(6) [OF s]] show ?thesis unfolding CheckTx a using spec_step.intros(1) by blast
next
  case (Info io_ok st answer st' ph)
  obtain S p where a: "a = (S, p)" by (cases a)
  note s = assms(1) [unfolded Info a]
  obtain m where "st' = st\<lparr>ap_nonces := ap_nonces st, ap_mirror := m\<rparr>" "mirror_readable (px_text (ae_proc E)) m"
    using Info(4) stands_forD(6) [OF s] by (rule info_state)
  from stands_for_quiet [OF s this] show ?thesis unfolding Info a using spec_step.intros(1) by blast
next
  case (Finalize req st r st')
  obtain S p where a: "a = (S, p)" by (cases a)
  from finalize_phase [OF assms(1) [unfolded Finalize a] Finalize(4,5)] show ?thesis unfolding Finalize a .
next
  case (FinalizeFails req st e st')
  obtain S p where a: "a = (S, p)" by (cases a)
  from failed_finalize_phase [OF assms(1) [unfolded FinalizeFails a] FinalizeFails(4)] show ?thesis
    unfolding FinalizeFails a using spec_step.intros(3) by blast
next
  case (Commit cs io_ok now st n st')
  obtain S p where a: "a = (S, p)" by (cases a)
  from commit_phase [OF assms(1) [unfolded Commit a] Commit(4)] show ?thesis unfolding Commit a .
next
  case (CommitFails f cs io_ok now st e st')
  obtain S p where a: "a = (S, p)" by (cases a)
  from failed_commit_phase [OF assms(1) [unfolded CommitFails a] CommitFails(4,5)] show ?thesis
    unfolding CommitFails a using spec_step.intros(1) by blast
next
  case (Restarted B io_ok ttl limit st st' ph)
  obtain S p where a: "a = (S, p)" by (cases a)
  from restart_phase [OF assms(1) [unfolded Restarted a] Restarted(4,5)] show ?thesis
    unfolding Restarted a using spec_step.intros(5) by blast
qed

interpretation node: simulation "node_step E K" "spec_step (ae_hash E) K" "stands_for E K" for E K
  by unfold_locales (rule node_sim)

definition consistent :: "hash_env \<Rightarrow> string set \<Rightarrow> (string \<Rightarrow> pyval) \<Rightarrow> bool" where
  "consistent H K S \<longleftrightarrow> S LATEST_BLOCK_KEY = PNone \<or>
     (\<exists>h ht n. S LATEST_BLOCK_KEY = latest_to_py \<lparr>lb_hash = hexlify h, lb_height = ht, lb_nanos = n\<rparr> \<and> root_of H K S h)"

definition spec_consistent :: "hash_env \<Rightarrow> string set \<Rightarrow> spec_state \<Rightarrow> bool" where
  "spec_consistent H K a \<longleftrightarrow> consistent H K (fst a) \<and> (\<forall>S. snd a = Some S \<longrightarrow> consistent H K S)"

lemma spec_keeps_consistent: "spec_consistent H K a \<Longrightarrow> spec_step H K a ev a' \<Longrightarrow> spec_consistent H K a'"
  by (erule spec_step.cases) (auto simp: consistent_def spec_consistent_def)

text \<open>The starting point of a chain: the node right after InitChain.\<close>

definition genesis_state :: "'d app_env \<Rightarrow> string set \<Rightarrow> 'd app \<Rightarrow> bool" where
  "genesis_state E K st' \<longleftrightarrow> node_ok E \<and> distinct_priorities (ae_hash E) K \<and> LATEST_BLOCK_KEY \<in> K \<and>
     keys_within (ae_driver E) (ap_driver st') K \<and> d_value_from_disk (ae_driver E) (ap_driver st') LATEST_BLOCK_KEY = PNone \<and>
     (\<exists>conv io_ok genesis st h. ap_staged st = None \<and> init_chain E conv io_ok genesis st = (Inr h, st'))"

lemma genesis_stands_for:
  assumes "genesis_state E K st"
  shows "stands_for E K (Ready, st) (d_value_from_disk (ae_driver E) (ap_driver st), None)"
  using assms init_chain_idle [OF node_okD(1), of E K] unfolding genesis_state_def stands_for_def by auto

text \<open>Every state a chain reaches has a marker that names the root of the state on disk.\<close>

lemma reachable_consistent:
  assumes "genesis_state E K st0" "trace (node_step E K) (Ready, st0) ls (ph, st)"
  obtains p where "stands_for E K (ph, st) (d_value_from_disk (ae_driver E) (ap_driver st), p)"
    "consistent (ae_hash E) K (d_value_from_disk (ae_driver E) (ap_driver st))"
proof -
  let ?a = "(d_value_from_disk (ae_driver E) (ap_driver st0), None :: (string \<Rightarrow> pyval) option)"
  have "spec_consistent (ae_hash E) K ?a"
    using assms(1) by (simp add: genesis_state_def consistent_def spec_consistent_def)
  then obtain a where a: "stands_for E K (ph, st) a" "spec_consistent (ae_hash E) K a"
    using node.sim_invariant [OF assms(2) genesis_stands_for [OF assms(1)], of "spec_consistent (ae_hash E) K"]
      spec_keeps_consistent by blast
  obtain S p where "a = (S, p)" by (cases a)
  with a stands_forD(4) [of E K ph st S p] show thesis by (intro that [of p]) (auto simp: spec_consistent_def)
qed

lemma reachable_committed:
  assumes "genesis_state E K st0" "trace (node_step E K) (Ready, st0) ls (ph, st)"
  obtains lb where "get_committed_latest_block (px_text (ae_proc E)) (ae_driver E) (ap_driver st) = Inr lb"
    "lb = LATEST_BLOCK_DEFAULT \<or> (\<exists>h. lb_hash lb = hexlify h \<and>
       root_of (ae_hash E) K (d_value_from_disk (ae_driver E) (ap_driver st)) h)"
proof -
  have "consistent (ae_hash E) K (d_value_from_disk (ae_driver E) (ap_driver st))"
    using assms by (rule reachable_consistent)
  then show thesis
  proof (unfold consistent_def, elim disjE exE conjE)
    assume "d_value_from_disk (ae_driver E) (ap_driver st) LATEST_BLOCK_KEY = PNone"
    then show thesis
      by (intro that [of LATEST_BLOCK_DEFAULT]) (simp_all add: get_committed_latest_block_def load_committed_latest_block_def)
  next
    fix h ht n
    assume m: "d_value_from_disk (ae_driver E) (ap_driver st) LATEST_BLOCK_KEY =
        latest_to_py \<lparr>lb_hash = hexlify h, lb_height = ht, lb_nanos = n\<rparr>"
      and "root_of (ae_hash E) K (d_value_from_disk (ae_driver E) (ap_driver st)) h"
    with committed_of_marker [OF m] show thesis by (intro that) auto
  qed
qed

section \<open>Consequences\<close>

lemma finalize_frame:
  assumes ok: "node_ok E" and run: "finalize_block E req st = (r, st')"
  shows "d_value_from_disk (ae_driver E) (ap_driver st') = d_value_from_disk (ae_driver E) (ap_driver st)"
    "ap_mirror st' = ap_mirror st"
proof -
  have "d_value_from_disk (ae_driver E) (ap_driver st') = d_value_from_disk (ae_driver E) (ap_driver st) \<and> ap_mirror st' = ap_mirror st"
  proof (cases r)
    case (Inl e)
    with failed_finalize [OF ok] run show ?thesis by blast
  next
    case (Inr x)
    note laws = node_okD(1) [OF ok]
    obtain meta st0 y s1 c staged rest where f: "initialize_block E req st = (meta, st0)" "block_step E meta req st0 = (Inr y, s1)"
      "d_detach_pending_state (ae_driver E) (ap_driver s1) = (staged, rest)"
      "st' = set_driver rest (s1\<lparr>ap_root := c, ap_merkle_root := Some (fb_app_hash x), ap_staged := Some staged\<rparr>)"
      using run [unfolded Inr] by (rule finalize_success)
    have "keeps E st0 s1" using framed_block_step [OF ok, of meta req] f(2) by (metis framed_def snd_conv)
    then show ?thesis
      using initialize_block_simps [OF f(1)] driver_lawsD(12) [OF laws, of "ap_driver s1"] f(3,4) by (simp add: keeps_def)
  qed
  then show "d_value_from_disk (ae_driver E) (ap_driver st') = d_value_from_disk (ae_driver E) (ap_driver st)"
    "ap_mirror st' = ap_mirror st" by blast+
qed

lemma finalize_stages: "finalize_block E req st = (Inr r, st') \<Longrightarrow> \<exists>staged. ap_staged st' = Some staged"
  by (elim finalize_success) simp

lemma info_cong:
  assumes "d_value_from_disk (ae_driver E) (ap_driver st') = d_value_from_disk (ae_driver E) (ap_driver st)"
    "ap_mirror st' = ap_mirror st"
  shows "fst (info E io_ok st') = fst (info E io_ok st)"
proof -
  have "reconcile_latest_block T io_ok (ae_driver E) (ap_driver st') m = reconcile_latest_block T io_ok (ae_driver E) (ap_driver st) m" for T m
    using assms(1) committed_cong [of "ae_driver E" "ap_driver st'" "ap_driver st" T] by (simp add: reconcile_latest_block_def)
  then show ?thesis using assms(2) by (simp add: info_def split: sum.split prod.split)
qed

text \<open>Commits that fail, one after the other.\<close>

fun retry_commits :: "'d app_env \<Rightarrow> commit_settings \<Rightarrow> ('d \<Rightarrow> 'd) list \<Rightarrow> 'd app \<Rightarrow> 'd app" where
  "retry_commits E cs [] st = st"
| "retry_commits E cs (f # fs) st = retry_commits E cs fs (snd (commit E cs (ApplyFailed f) True (\<lambda>_. 0) st))"

lemma retry_decided:
  assumes "driver_laws (ae_driver E)" "LATEST_BLOCK_KEY \<in> K"
  shows "decided E K meta h st \<Longrightarrow> list_all (\<lambda>f. atomic_failure (ae_driver E) (ApplyFailed f)) fs \<Longrightarrow>
    decided E K meta h (retry_commits E cs fs st) \<and>
    next_state E meta h (retry_commits E cs fs st) = next_state E meta h st"
proof (induction fs arbitrary: st)
  case (Cons f fs)
  have out: "atomic_failure (ae_driver E) (ApplyFailed f)" using Cons.prems(2) by simp
  obtain st' where st': "commit E cs (ApplyFailed f) True (\<lambda>_. 0) st = (Inl (OtherError ''hard_apply''), st')"
    "decided E K meta h st'" "next_state E meta h st' = next_state E meta h st"
    using assms(1) Cons.prems(1) assms(2) out by (rule failed_commit)
  with Cons.IH [OF st'(2)] Cons.prems(2) show ?case by simp
qed simp

lemma next_state_within:
  assumes "driver_laws (ae_driver E)" "decided E K meta h st" "LATEST_BLOCK_KEY \<in> K" "k \<notin> K"
  shows "next_state E meta h st k = PNone"
  using assms(2-4) by (auto simp: next_state_def decided_def keys_within_def driver_get_split [OF assms(1)])

section \<open>A sample chain\<close>

definition sample_genesis :: pyval where
  "sample_genesis =
     (let entry = (\<lambda>k v. PDict [(PStr ''key'', PStr k), (PStr ''value'', v)]) in
      PDict [(PStr ''genesis'', PList [entry EXECUTION_POLICY_KEY (PDict current_execution_policy), entry ''a'' (PInt 1)])])"

definition chain_keys :: "string set" where
  "chain_keys = {LATEST_BLOCK_KEY, EXECUTION_POLICY_KEY, ''a''}"

definition sample_started :: "mem_db app" where
  "sample_started = snd (init_chain chain_node Inr True sample_genesis (sample_app (mem_driver_start 0)))"

definition sample_decided :: "mem_db app" where
  "sample_decided = snd (finalize_block chain_node (sample_block []) sample_started)"

lemma sample_init: "case init_chain chain_node Inr True sample_genesis (sample_app (mem_driver_start 0)) of (Inr _, _) \<Rightarrow> True | _ \<Rightarrow> False"
  by code_simp

lemma sample_started_disk:
  "ap_driver sample_started = \<lparr>db_disk = [(EXECUTION_POLICY_KEY, PDict current_execution_policy), (''a'', PInt 1)], db_pending = []\<rparr>"
  by code_simp

lemma chain_priorities: "distinct_priorities (ae_hash chain_node) chain_keys"
  unfolding distinct_priorities_def chain_keys_def by code_simp

lemma sample_decides: "case finalize_block chain_node (sample_block []) sample_started of (Inr _, _) \<Rightarrow> True | _ \<Rightarrow> False"
  by code_simp

lemma sample_restored:
  "restored chain_node sample_decided = ap_driver sample_started"
  by code_simp

lemma sample_within: "keys_within mem_driver (ap_driver sample_started) chain_keys"
  by (auto simp: keys_within_def sample_started_disk chain_keys_def mem_driver_def mem_lookup_def)

lemma sample_genesis_state: "genesis_state chain_node chain_keys sample_started"
proof -
  obtain h where "init_chain chain_node Inr True sample_genesis (sample_app (mem_driver_start 0)) = (Inr h, sample_started)"
    using sample_init by (auto simp: sample_started_def split: prod.splits sum.splits)
  moreover have "ap_staged (sample_app (mem_driver_start 0)) = None" by (simp add: sample_app_def)
  moreover have "d_value_from_disk mem_driver (ap_driver sample_started) LATEST_BLOCK_KEY = PNone"
    by (simp add: sample_started_disk mem_driver_def mem_lookup_def LATEST_BLOCK_KEY_def EXECUTION_POLICY_KEY_def)
  ultimately show ?thesis
    using chain_node_ok chain_priorities sample_within unfolding genesis_state_def chain_node_driver
    by (auto simp: chain_keys_def) blast
qed

lemma sample_idle: "idle chain_node chain_keys sample_started"
  using stands_forD(7) [OF genesis_stands_for [OF sample_genesis_state]] by blast

definition sample_settings :: commit_settings where
  "sample_settings = \<lparr>cs_pruning_enabled = False, cs_blocks_to_keep = 0\<rparr>"

lemma sample_finalized:
  obtains r where "finalize_block chain_node (sample_block []) sample_started = (Inr r, sample_decided)"
  using sample_decides by (auto simp: sample_decided_def split: prod.splits sum.splits)

lemma sample_decided_within: "keys_within (ae_driver chain_node) (restored chain_node sample_decided) chain_keys"
  using sample_within by (simp add: chain_node_driver sample_restored)

lemma sample_marker_key: "LATEST_BLOCK_KEY \<in> chain_keys"
  by (simp add: chain_keys_def)

lemma sample_failure: "list_all (\<lambda>f. atomic_failure (ae_driver chain_node) (ApplyFailed f)) [id]"
  by (simp add: atomic_failure_def)

definition sample_committed :: "mem_db app" where
  "sample_committed = snd (commit chain_node sample_settings Applied True (\<lambda>_. 0) sample_decided)"

lemma sample_trace: "\<exists>events. trace (node_step chain_node chain_keys) (Ready, sample_started) events (Ready, sample_committed)"
proof -
  obtain r where r: "finalize_block chain_node (sample_block []) sample_started = (Inr r, sample_decided)"
    by (rule sample_finalized)
  obtain meta where "decided chain_node chain_keys meta (fb_app_hash r) sample_decided"
    using chain_node_ok sample_idle r sample_decided_within by (rule finalize_decides)
  with node_okD(1) [OF chain_node_ok] obtain n st' where
    "commit chain_node sample_settings Applied True (\<lambda>_. 0) sample_decided = (Inr n, st')"
    by (rule applied_commit) blast
  then have c: "commit chain_node sample_settings Applied True (\<lambda>_. 0) sample_decided = (Inr n, sample_committed)"
    by (simp add: sample_committed_def)
  let ?step = "node_step chain_node chain_keys"
  from trace_snoc [of ?step, OF trace_snoc [of ?step, OF trace_Nil [of ?step] Finalize [OF r sample_decided_within]] Commit [OF c]]
  show ?thesis by blast
qed

section \<open>Properties\<close>

text \<open>C2: A block that FinalizeBlock accepts on an idle node ends up on disk exactly as announced: after
  any number of Commits whose write transaction fails, the Commit that goes through leaves a
  database whose state root, recomputed from scratch, is the app hash FinalizeBlock returned,
  and whose marker is that hash with the block's height and time; the node is idle again.\<close>

theorem finalized_block_is_committed:
  assumes "node_ok E" and "distinct_priorities (ae_hash E) K" and "LATEST_BLOCK_KEY \<in> K" and "idle E K st"
    and "finalize_block E req st = (Inr r, st1)" and "keys_within (ae_driver E) (restored E st1) K"
    and "list_all (\<lambda>f. atomic_failure (ae_driver E) (ApplyFailed f)) failures"
    and "commit E cs Applied io_ok now (retry_commits E cs failures st1) = (answer, st2)"
  shows "answer = Inr (retain_height cs (br_height req)) \<and>
    compute_driver_state_root (ae_hash E) (ae_driver E) (ap_driver st2) = Inr (fb_app_hash r) \<and>
    get_committed_latest_block (px_text (ae_proc E)) (ae_driver E) (ap_driver st2) =
      Inr \<lparr>lb_hash = hexlify (fb_app_hash r), lb_height = br_height req,
           lb_nanos = get_nanotime_from_block_time (br_seconds req) (br_nanos req)\<rparr> \<and>
    idle E K st2"
proof -
  note laws = node_okD(1) [OF assms(1)]
  obtain meta where m: "decided E K meta (fb_app_hash r) st1" "bm_height meta = br_height req"
    "bm_nanos meta = get_nanotime_from_block_time (br_seconds req) (br_nanos req)"
    using assms(1,4,5,6) by (rule finalize_decides)
  let ?st = "retry_commits E cs failures st1"
  have dec: "decided E K meta (fb_app_hash r) ?st" using retry_decided [OF laws assms(3) m(1) assms(7)] by blast
  obtain st3 where c: "commit E cs Applied io_ok now ?st = (Inr (retain_height cs (bm_height meta)), st3)"
    "idle E K st3" "d_value_from_disk (ae_driver E) (ap_driver st3) = next_state E meta (fb_app_hash r) ?st"
    using laws dec by (rule applied_commit)
  have eq: "st3 = st2" "answer = Inr (retain_height cs (br_height req))" using c(1) assms(8) by (simp_all add: m(2))
  note c = c [unfolded eq(1)]
  have get: "d_get (ae_driver E) (ap_driver st2) = next_state E meta (fb_app_hash r) ?st"
    using c(2,3) by (simp add: fun_eq_iff driver_get_split [OF laws] idle_def)
  have "compute_driver_state_root (ae_hash E) (ae_driver E) (ap_driver st2) = Inr (fb_app_hash r)"
    using laws assms(2) by (rule recomputed_root)
      (simp_all add: get next_state_within [OF laws dec assms(3)] decided_root [OF dec])
  moreover have "d_value_from_disk (ae_driver E) (ap_driver st2) LATEST_BLOCK_KEY = latest_to_py (block_marker meta (fb_app_hash r))"
    unfolding c(3) by (simp add: next_state_def)
  then have "get_committed_latest_block (px_text (ae_proc E)) (ae_driver E) (ap_driver st2) = Inr (block_marker meta (fb_app_hash r))"
    unfolding block_marker_def by (rule committed_of_marker)
  ultimately show ?thesis using eq(2) c(2) by (simp add: block_marker_def m(2,3))
qed

theorem finalized_block_is_committed_witness:
  "\<exists>r. finalize_block chain_node (sample_block []) sample_started = (Inr r, sample_decided) \<and>
     compute_driver_state_root (ae_hash chain_node) mem_driver
       (ap_driver (snd (commit chain_node sample_settings Applied True (\<lambda>_. 0) (retry_commits chain_node sample_settings [id] sample_decided)))) =
     Inr (fb_app_hash r)"
proof -
  obtain r where r: "finalize_block chain_node (sample_block []) sample_started = (Inr r, sample_decided)"
    by (rule sample_finalized)
  have "commit chain_node sample_settings Applied True (\<lambda>_. 0) (retry_commits chain_node sample_settings [id] sample_decided) =
      (fst (commit chain_node sample_settings Applied True (\<lambda>_. 0) (retry_commits chain_node sample_settings [id] sample_decided)),
       snd (commit chain_node sample_settings Applied True (\<lambda>_. 0) (retry_commits chain_node sample_settings [id] sample_decided)))"
    by simp
  from finalized_block_is_committed [OF chain_node_ok chain_priorities sample_marker_key sample_idle r sample_decided_within sample_failure this] r
  show ?thesis by (auto simp: chain_node_driver)
qed

text \<open>C1: The node implements the atomic specification: whatever sequence of CheckTx, Info, FinalizeBlock
  (accepted or raising), Commit (applied or failing) and restarts it goes through from genesis, the
  specification goes through the same events, starting and ending with the states that are on the
  node's disk.\<close>

theorem node_refines_spec:
  assumes "genesis_state E K st0" and "trace (node_step E K) (Ready, st0) events (ph, st)"
  shows "\<exists>p. trace (spec_step (ae_hash E) K) (d_value_from_disk (ae_driver E) (ap_driver st0), None) events
    (d_value_from_disk (ae_driver E) (ap_driver st), p)"
proof -
  obtain a where a: "trace (spec_step (ae_hash E) K) (d_value_from_disk (ae_driver E) (ap_driver st0), None) events a"
    "stands_for E K (ph, st) a"
    using node.sim_trace [OF assms(2) genesis_stands_for [OF assms(1)]] by blast
  obtain S p where "a = (S, p)" by (cases a)
  with a stands_forD(4) [of E K ph st S p] show ?thesis by blast
qed

theorem node_refines_spec_witness:
  "\<exists>events p. trace (spec_step (ae_hash chain_node) chain_keys) (d_value_from_disk mem_driver (ap_driver sample_started), None) events
    (d_value_from_disk mem_driver (ap_driver sample_committed), p)"
  using node_refines_spec [OF sample_genesis_state] sample_trace unfolding chain_node_driver by blast

text \<open>C3: In every reachable state, in the middle of a block, between a failed Commit and its retry or
  after a crash, the committed marker can be read and names the root that a scan of the whole
  database computes; before the first Commit it is the empty default.\<close>

theorem committed_hash_is_state_root:
  assumes "genesis_state E K st0" and "trace (node_step E K) (Ready, st0) events (ph, st)"
  shows "\<exists>lb. get_committed_latest_block (px_text (ae_proc E)) (ae_driver E) (ap_driver st) = Inr lb \<and>
    (lb = LATEST_BLOCK_DEFAULT \<or>
     (\<exists>h. lb_hash lb = hexlify h \<and>
        compute_driver_state_root (ae_hash E) (ae_driver E) (d_flush_cache (ae_driver E) (ap_driver st)) = Inr h))"
proof -
  obtain p where s: "stands_for E K (ph, st) (d_value_from_disk (ae_driver E) (ap_driver st), p)"
    using assms by (rule reachable_consistent)
  note s = stands_forD [OF s]
  note get = get_flush_cache [OF node_okD(1) [OF s(1)], of "ap_driver st"]
  have root: "compute_driver_state_root (ae_hash E) (ae_driver E) (d_flush_cache (ae_driver E) (ap_driver st)) = Inr h"
    if "root_of (ae_hash E) K (d_value_from_disk (ae_driver E) (ap_driver st)) h" for h
    using node_okD(1) [OF s(1)] s(2) by (rule recomputed_root) (use s(5) that in \<open>simp_all add: get disk_ok_def\<close>)
  obtain lb where "get_committed_latest_block (px_text (ae_proc E)) (ae_driver E) (ap_driver st) = Inr lb"
    "lb = LATEST_BLOCK_DEFAULT \<or> (\<exists>h. lb_hash lb = hexlify h \<and>
       root_of (ae_hash E) K (d_value_from_disk (ae_driver E) (ap_driver st)) h)"
    using assms by (rule reachable_committed)
  with root show ?thesis by blast
qed

theorem committed_hash_is_state_root_witness:
  "\<exists>lb. get_committed_latest_block (px_text (ae_proc chain_node)) mem_driver (ap_driver sample_committed) = Inr lb \<and>
    (lb = LATEST_BLOCK_DEFAULT \<or>
     (\<exists>h. lb_hash lb = hexlify h \<and>
        compute_driver_state_root (ae_hash chain_node) mem_driver (d_flush_cache mem_driver (ap_driver sample_committed)) = Inr h))"
  using committed_hash_is_state_root [OF sample_genesis_state] sample_trace unfolding chain_node_driver by blast


text \<open>A boot over the store of the sample chain, whose genesis document names no feature.\<close>

definition sample_boot :: "mem_db boot_env" where
  "sample_boot =
     \<lparr>bo_config = PDict [], bo_genesis = PDict [(PStr ''chain_id'', PStr ''xian-1''), (PStr ''abci_genesis'', sample_genesis)],
      bo_loads = sample_loads, bo_store = Some [(EXECUTION_POLICY_KEY, policy_text)], bo_features = sample_features,
      bo_zk_available = False\<rparr>"

lemma sample_boot_in_use: "store_in_use chain_node sample_boot"
  using sample_feature_laws unfolding feature_laws_def by (simp add: store_in_use_def sample_boot_def chain_node_driver)

lemma sample_boot_ready: "boot_ready chain_node sample_boot (ap_driver sample_committed)"
  by code_simp


text \<open>C21: A block that is only finalized is invisible: FinalizeBlock, whether it succeeds or raises,
  changes neither what is on disk nor the answer to Info.\<close>

theorem finalize_is_invisible:
  assumes "node_ok E" and "finalize_block E req st = (r, st')"
  shows "d_value_from_disk (ae_driver E) (ap_driver st') = d_value_from_disk (ae_driver E) (ap_driver st) \<and>
    fst (info E io_ok st') = fst (info E io_ok st)"
  using finalize_frame [OF assms] info_cong by blast

theorem finalize_is_invisible_witness:
  "fst (info chain_node True sample_decided) = fst (info chain_node True sample_started)"
proof -
  obtain r where "finalize_block chain_node (sample_block []) sample_started = (Inr r, sample_decided)" by (rule sample_finalized)
  from finalize_is_invisible [OF chain_node_ok this] show ?thesis by blast
qed

text \<open>InitChain returns the root of exactly the state it leaves on disk, whatever the node's cache and
  database held before, and leaves the node idle; as it commits no block, a restart is
  answered with height 0 and CometBFT runs InitChain again.\<close>

theorem init_chain_establishes_root:
  assumes "node_ok E" and "distinct_priorities (ae_hash E) K" and "init_chain E conv io_ok genesis st = (Inr h, st')"
    and "ap_staged st = None" and "keys_within (ae_driver E) (ap_driver st') K"
    and "d_value_from_disk (ae_driver E) (ap_driver st') LATEST_BLOCK_KEY = PNone"
  shows "compute_driver_state_root (ae_hash E) (ae_driver E) (ap_driver st') = Inr h \<and> idle E K st' \<and>
    fst (info E io_ok' st') = Inr (0, [])"
proof -
  note laws = node_okD(1) [OF assms(1)]
  note i = init_chain_idle [OF laws assms(2-5)]
  have get: "d_get (ae_driver E) (ap_driver st') = d_value_from_disk (ae_driver E) (ap_driver st')"
    using i(1) by (simp add: fun_eq_iff driver_get_split [OF laws] idle_def)
  have "compute_driver_state_root (ae_hash E) (ae_driver E) (ap_driver st') = Inr h"
    using laws assms(2) by (rule recomputed_root) (use i(2) idle_root [OF i(1)] in \<open>simp_all add: get disk_ok_def i(3)\<close>)
  moreover have "get_committed_latest_block (px_text (ae_proc E)) (ae_driver E) (ap_driver st') = Inr LATEST_BLOCK_DEFAULT"
    by (simp add: get_committed_latest_block_def load_committed_latest_block_def assms(6))
  then have "fst (info E io_ok' st') = Inr (0, [])"
    using i(4) info_answer [of E st' LATEST_BLOCK_DEFAULT "[]" thesis io_ok' for thesis]
    by (metis LATEST_BLOCK_DEFAULT_def fst_conv fromhex.simps(1) info_answer latest_block.select_convs(1,2))
  ultimately show ?thesis using i(1) by blast
qed

theorem init_chain_establishes_root_witness:
  "\<exists>h. init_chain chain_node Inr True sample_genesis (sample_app (mem_driver_start 0)) = (Inr h, sample_started) \<and>
     compute_driver_state_root (ae_hash chain_node) mem_driver (ap_driver sample_started) = Inr h"
proof -
  obtain h where h: "init_chain chain_node Inr True sample_genesis (sample_app (mem_driver_start 0)) = (Inr h, sample_started)"
    using sample_init by (auto simp: sample_started_def split: prod.splits sum.splits)
  have "ap_staged (sample_app (mem_driver_start 0)) = None" by (simp add: sample_app_def)
  with init_chain_establishes_root [OF chain_node_ok chain_priorities h] sample_genesis_state h show ?thesis
    unfolding genesis_state_def chain_node_driver by blast
qed

text \<open>While a decided block waits for its Commit no other block is accepted: FinalizeBlock raises and
  drops the staged writes.\<close>

theorem finalize_needs_commit:
  assumes "node_ok E" and "ap_staged st = Some staged"
  shows "\<exists>e st'. finalize_block E req st = (Inl e, st') \<and> ap_staged st' = None"
proof -
  obtain r st' where run: "finalize_block E req st = (r, st')" by fastforce
  show ?thesis
  proof (cases r)
    case (Inl e)
    then have "ap_staged st' = None" using run by (auto simp: finalize_block_def split: prod.splits sum.splits)
    with Inl run show ?thesis by blast
  next
    case (Inr x)
    obtain meta st0 y s1 where f: "initialize_block E req st = (meta, st0)" "block_step E meta req st0 = (Inr y, s1)" "ap_staged s1 = None"
      using run [unfolded Inr] by (rule finalize_success)
    have "keeps E st0 s1" using framed_block_step [OF assms(1), of meta req] f(2) by (metis framed_def snd_conv)
    then show ?thesis using initialize_block_simps(4) [OF f(1)] f(3) assms(2) by (simp add: keeps_def)
  qed
qed

theorem finalize_needs_commit_witness:
  "\<exists>e st'. finalize_block chain_node (sample_block []) sample_decided = (Inl e, st') \<and> ap_staged st' = None"
proof -
  obtain r where "finalize_block chain_node (sample_block []) sample_started = (Inr r, sample_decided)" by (rule sample_finalized)
  then obtain staged where st: "ap_staged sample_decided = Some staged" using finalize_stages by blast
  from finalize_needs_commit [OF chain_node_ok st] show ?thesis .
qed

end
