(* ===== verification/State_Sync.thy ===== *)
theory State_Sync
  imports Application
begin

text \<open>
  Snapshots of the state and their transfer between nodes (\<^verbatim>\<open>src/src/xian/services/state_sync.py\<close>
  and the snapshot handlers of \<^verbatim>\<open>xian_abci.py\<close>).  The snapshot directory is a dict from file
  names to archives and a dict from manifest names to JSON values.  Third-party and library parts
  are in \<open>snap_env\<close>: SHA-256, \<^verbatim>\<open>json.loads\<close>, packing and unpacking of a compressed tar archive, and
  the integer that the text of a float equals.  The division that counts the chunks of an archive
  is exact here; the code divides floats, which is exact for a chunk size that is a power of two.
\<close>

record snap_env =
  sn_hash :: hash_env
  sn_text :: text_env
  sn_export :: export_env
  sn_loads :: "string \<Rightarrow> pyval res"
  sn_pack :: "(string \<times> string) list \<Rightarrow> string"
  sn_unpack :: "string \<Rightarrow> (string \<times> string) list res"
  sn_float_int :: "string \<Rightarrow> int option"

definition SNAPSHOT_FORMAT_VERSION :: int where "SNAPSHOT_FORMAT_VERSION = 2"
definition SNAPSHOT_METADATA_FILENAME :: string where "SNAPSHOT_METADATA_FILENAME = ''metadata.json''"
definition SNAPSHOT_STATE_FILENAME :: string where "SNAPSHOT_STATE_FILENAME = ''exported_state.json''"

definition json_bytes :: "pyval \<Rightarrow> string res" where
  "json_bytes payload = canonical_json_sorted payload"

definition sha256_hex :: "snap_env \<Rightarrow> string \<Rightarrow> string" where
  "sha256_hex N content = hexlify (he_sha256 (sn_hash N) content)"

text \<open>\<^verbatim>\<open>v == n\<close> for an integer \<open>n\<close>.\<close>

definition equals_int :: "snap_env \<Rightarrow> pyval \<Rightarrow> int \<Rightarrow> bool" where
  "equals_int N v n = (case v of PFloat s \<Rightarrow> sn_float_int N s = Some n | _ \<Rightarrow> int_value v = Some n)"

section \<open>Extraction\<close>

text \<open>\<^verbatim>\<open>Path.resolve\<close> on parts, in a directory without links.\<close>

definition resolve_parts :: "string list \<Rightarrow> string list" where
  "resolve_parts parts =
     rev (fold (\<lambda>p acc. if p = [] \<or> p = ''.'' then acc else if p = ''..'' then tl acc else p # acc) parts [])"

definition member_path :: "string list \<Rightarrow> string \<Rightarrow> string list" where
  "member_path destination name =
     (let parts = split_on CHR ''/'' name in
      resolve_parts (if prefix ''/'' name then parts else destination @ parts))"

definition safe_extract_snapshot :: "string list \<Rightarrow> (string \<times> string) list \<Rightarrow> (string list, string) dict res" where
  "safe_extract_snapshot destination members =
     rbind (mapR (\<lambda>(name, content).
              if prefix destination (member_path destination name)
              then Inr (drop (length destination) (member_path destination name), content)
              else Inl (ValueError (''unsafe snapshot member path: '' @ name))) members) (\<lambda>files.
     Inr (dict_update [] files))"

definition read_text :: "(string list, string) dict \<Rightarrow> string \<Rightarrow> string res" where
  "read_text files name = (case map_of files [name] of None \<Rightarrow> Inl (FileNotFoundError name) | Some content \<Rightarrow> Inr content)"

section \<open>Records\<close>

record snapshot_record =
  sr_archive_name :: string
  sr_manifest_name :: string
  sr_height :: int
  sr_format :: int
  sr_chunks :: int
  sr_app_hash_hex :: string
  sr_snapshot_hash_hex :: string
  sr_chunk_size :: int
  sr_metadata :: string
  sr_created_at :: string

record session =
  se_height :: int
  se_format :: int
  se_chunks :: int
  se_chunk_size :: int
  se_app_hash_hex :: string
  se_snapshot_hash_hex :: string
  se_next_index :: int
  se_archive :: string

record manager =
  sm_chain_id :: string
  sm_chunk_size :: int
  sm_archives :: "(string, string) dict"
  sm_manifests :: "(string, pyval) dict"
  sm_session :: "session option"

definition manifest_path :: "string \<Rightarrow> string" where
  "manifest_path archive_name = archive_name @ ''.manifest.json''"

definition record_of_manifest :: "snap_env \<Rightarrow> string \<Rightarrow> string \<Rightarrow> pyval \<Rightarrow> snapshot_record res" where
  "record_of_manifest N manifest_name archive_name payload =
     (let T = sn_text N; number = (\<lambda>k. rbind (dindex payload k) (py_int (te_int_of_text T)));
          content = (\<lambda>k. rbind (dindex payload k) (\<lambda>v. Inr (py_str T v))) in
      rbind (number ''height'') (\<lambda>height. rbind (number ''format'') (\<lambda>format. rbind (number ''chunks'') (\<lambda>chunks.
      rbind (content ''app_hash_hex'') (\<lambda>app_hash. rbind (content ''snapshot_hash_hex'') (\<lambda>snapshot_hash.
      rbind (number ''chunk_size'') (\<lambda>chunk_size. rbind (dindex payload ''metadata'') (\<lambda>metadata.
      rbind (json_bytes metadata) (\<lambda>metadata_bytes. rbind (content ''created_at'') (\<lambda>created_at.
      Inr \<lparr>sr_archive_name = archive_name, sr_manifest_name = manifest_name, sr_height = height, sr_format = format,
           sr_chunks = chunks, sr_app_hash_hex = app_hash, sr_snapshot_hash_hex = snapshot_hash, sr_chunk_size = chunk_size,
           sr_metadata = metadata_bytes, sr_created_at = created_at\<rparr>))))))))))"

fun load_records :: "snap_env \<Rightarrow> (string, string) dict \<Rightarrow> (string \<times> pyval) list \<Rightarrow> snapshot_record list res" where
  "load_records N archives [] = Inr []"
| "load_records N archives ((manifest_name, payload) # rest) =
     rbind (dindex payload ''archive_name'') (\<lambda>name.
     if \<not> is_str name then Inl (TypeError ''argument should be a str'')
     else if map_of archives (str_of name) = None then load_records N archives rest
     else rbind (record_of_manifest N manifest_name (str_of name) payload) (\<lambda>r.
          rbind (load_records N archives rest) (\<lambda>rs. Inr (r # rs))))"

definition list_snapshot_records :: "snap_env \<Rightarrow> manager \<Rightarrow> snapshot_record list res" where
  "list_snapshot_records N mgr =
     rbind (load_records N (sm_archives mgr) (sorted_reverse fst
              (filter (\<lambda>(name, _). suffix ''.tar.gz.manifest.json'' name) (sm_manifests mgr)))) (\<lambda>records.
     Inr (sorted_reverse sr_height (sorted_reverse sr_created_at records)))"

definition list_snapshots_response :: "snap_env \<Rightarrow> manager \<Rightarrow> (int \<times> int \<times> int \<times> string \<times> string) list res" where
  "list_snapshots_response N mgr =
     rbind (list_snapshot_records N mgr)
       (mapR (\<lambda>r. rbind (fromhex (sr_snapshot_hash_hex r)) (\<lambda>h.
          Inr (sr_height r, sr_format r, sr_chunks r, h, sr_metadata r))))"

definition cleanup_existing_height :: "snap_env \<Rightarrow> int \<Rightarrow> int \<Rightarrow> manager \<Rightarrow> manager res" where
  "cleanup_existing_height N height format_version mgr =
     rbind (list_snapshot_records N mgr) (\<lambda>records.
     Inr (fold (\<lambda>r mgr. if sr_height r \<noteq> height \<or> sr_format r \<noteq> format_version then mgr
                      else mgr\<lparr>sm_archives := AList.delete (sr_archive_name r) (sm_archives mgr),
                               sm_manifests := AList.delete (sr_manifest_name r) (sm_manifests mgr)\<rparr>) records mgr))"

definition default_snapshot_output_path :: "int \<Rightarrow> string \<Rightarrow> string \<Rightarrow> string" where
  "default_snapshot_output_path height app_hash now =
     ''xian-state-snapshot-h'' @ str_int height @ ''-'' @ (if app_hash = [] then ''empty'' else take 12 app_hash) @ ''-'' @ now @ ''.tar.gz''"

section \<open>Manifests\<close>

definition build_offer_metadata :: "manager \<Rightarrow> int \<Rightarrow> string \<Rightarrow> string \<Rightarrow> string \<Rightarrow> pyval" where
  "build_offer_metadata mgr height app_hash_hex exported_state_sha256 archive_sha256 =
     PDict [(PStr ''snapshot_format_version'', PInt SNAPSHOT_FORMAT_VERSION),
            (PStr ''execution_policy'', PDict current_execution_policy), (PStr ''chain_id'', PStr (sm_chain_id mgr)),
            (PStr ''height'', PInt height), (PStr ''app_hash'', PStr app_hash_hex), (PStr ''chunk_size'', PInt (sm_chunk_size mgr)),
            (PStr ''archive_sha256'', PStr archive_sha256), (PStr ''exported_state_sha256'', PStr exported_state_sha256)]"

definition chunk_count :: "int \<Rightarrow> nat \<Rightarrow> int" where
  "chunk_count chunk_size archive_size = max 1 (- ((- int archive_size) div chunk_size))"

definition write_manifest ::
    "snap_env \<Rightarrow> string \<Rightarrow> string \<Rightarrow> int \<Rightarrow> string \<Rightarrow> string \<Rightarrow> string \<Rightarrow> string \<Rightarrow> manager \<Rightarrow> (snapshot_record \<times> manager) res" where
  "write_manifest N now archive_name height app_hash_hex archive_sha256 exported_state_sha256 archive mgr =
     (let chunks = chunk_count (sm_chunk_size mgr) (length archive);
          metadata = build_offer_metadata mgr height app_hash_hex exported_state_sha256 archive_sha256;
          payload = PDict [(PStr ''archive_name'', PStr archive_name), (PStr ''height'', PInt height),
                           (PStr ''format'', PInt SNAPSHOT_FORMAT_VERSION), (PStr ''chunks'', PInt chunks),
                           (PStr ''app_hash_hex'', PStr app_hash_hex), (PStr ''snapshot_hash_hex'', PStr archive_sha256),
                           (PStr ''chunk_size'', PInt (sm_chunk_size mgr)), (PStr ''metadata'', metadata),
                           (PStr ''created_at'', PStr now)] in
      rbind (json_bytes metadata) (\<lambda>metadata_bytes.
      Inr (\<lparr>sr_archive_name = archive_name, sr_manifest_name = manifest_path archive_name, sr_height = height,
            sr_format = SNAPSHOT_FORMAT_VERSION, sr_chunks = chunks, sr_app_hash_hex = app_hash_hex,
            sr_snapshot_hash_hex = archive_sha256, sr_chunk_size = sm_chunk_size mgr, sr_metadata = metadata_bytes,
            sr_created_at = now\<rparr>,
           mgr\<lparr>sm_manifests := AList.update (manifest_path archive_name) payload (sm_manifests mgr)\<rparr>)))"

section \<open>Export of a snapshot\<close>

definition snapshot_metadata :: "manager \<Rightarrow> int \<Rightarrow> string \<Rightarrow> string \<Rightarrow> pyval" where
  "snapshot_metadata mgr height app_hash_hex now =
     PDict [(PStr ''snapshot_format_version'', PInt SNAPSHOT_FORMAT_VERSION),
            (PStr ''execution_policy'', PDict current_execution_policy), (PStr ''chain_id'', PStr (sm_chain_id mgr)),
            (PStr ''height'', PInt height), (PStr ''app_hash'', PStr app_hash_hex), (PStr ''created_at'', PStr now)]"

text \<open>The exported text is what \<^verbatim>\<open>export_state\<close> writes; the names stay in the snapshot directory.\<close>

definition export_snapshot ::
    "snap_env \<Rightarrow> string \<Rightarrow> string option \<Rightarrow> bool \<Rightarrow> string res \<Rightarrow> manager \<Rightarrow> (snapshot_record \<times> manager) res" where
  "export_snapshot N now output_path force exported mgr =
     rbind exported (\<lambda>content.
     rbind (load_exported_state (sn_export N) content) (\<lambda>exported_state.
     rbind (rbind (dindex exported_state ''number'') (py_int (te_int_of_text (sn_text N)))) (\<lambda>height.
     rbind (dindex exported_state ''hash'') (\<lambda>h.
     let app_hash_hex = py_str (sn_text N) h; exported_state_sha256 = sha256_hex N content in
     rbind (cleanup_existing_height N height SNAPSHOT_FORMAT_VERSION mgr) (\<lambda>mgr.
     let archive_name = (case output_path of Some p \<Rightarrow> p | None \<Rightarrow> default_snapshot_output_path height app_hash_hex now) in
     if map_of (sm_archives mgr) archive_name \<noteq> None \<and> \<not> force
     then Inl (OtherError (''FileExistsError: snapshot already exists: '' @ archive_name))
     else rbind (json_bytes (snapshot_metadata mgr height app_hash_hex now)) (\<lambda>metadata_bytes.
          let archive = sn_pack N [(SNAPSHOT_METADATA_FILENAME, metadata_bytes), (SNAPSHOT_STATE_FILENAME, content)];
              mgr = mgr\<lparr>sm_archives := AList.update archive_name archive (sm_archives mgr)\<rparr>
          in write_manifest N now archive_name height app_hash_hex (sha256_hex N archive) exported_state_sha256 archive mgr))))))"

section \<open>Import of a snapshot\<close>

definition DESTINATION :: "string list" where
  "DESTINATION = [''incoming'', ''extracted'']"

text \<open>The checks before the database is touched: the exported state and its hash.\<close>

definition open_snapshot :: "snap_env \<Rightarrow> manager \<Rightarrow> string \<Rightarrow> (pyval \<times> int \<times> string \<times> string) res" where
  "open_snapshot N mgr archive =
     (let T = sn_text N; number = (\<lambda>v k. rbind (dindex v k) (py_int (te_int_of_text T)));
          content = (\<lambda>v k. rbind (dindex v k) (\<lambda>x. Inr (py_str T x))) in
      rbind (sn_unpack N archive) (\<lambda>members.
      rbind (safe_extract_snapshot DESTINATION members) (\<lambda>files.
      rbind (rbind (read_text files SNAPSHOT_METADATA_FILENAME) (sn_loads N)) (\<lambda>metadata.
      if \<not> is_dict metadata then Inl (OtherError ''AttributeError'')
      else rbind (validate_execution_policy (dget_or metadata ''execution_policy'' PNone)) (\<lambda>_.
      rbind (read_text files SNAPSHOT_STATE_FILENAME) (\<lambda>state_bytes.
      rbind (load_exported_state (sn_export N) state_bytes) (\<lambda>exported_state.
      rbind (number metadata ''snapshot_format_version'') (\<lambda>version.
      if version \<noteq> SNAPSHOT_FORMAT_VERSION then Inl (ValueError ''unsupported snapshot format version'')
      else rbind (content metadata ''chain_id'') (\<lambda>chain_id.
      if chain_id \<noteq> sm_chain_id mgr then Inl (ValueError ''snapshot chain_id mismatch'')
      else rbind (number metadata ''height'') (\<lambda>metadata_height.
      rbind (number exported_state ''number'') (\<lambda>height.
      if metadata_height \<noteq> height then Inl (ValueError ''snapshot height metadata mismatch'')
      else rbind (content metadata ''app_hash'') (\<lambda>metadata_hash.
      rbind (content exported_state ''hash'') (\<lambda>app_hash.
      if metadata_hash \<noteq> app_hash then Inl (ValueError ''snapshot app hash metadata mismatch'')
      else rbind (compute_exported_state_root (sn_hash N) (py_str T) exported_state) (\<lambda>state_root.
      if hexlify state_root \<noteq> app_hash then Inl (ValueError ''snapshot state root mismatch'')
      else Inr (exported_state, height, app_hash, sha256_hex N state_bytes)))))))))))))))"

record 'd sync_state =
  sy_driver :: 'd
  sy_mirror :: mirror_file
  sy_manager :: manager

text \<open>The archive is stored under a name of its own once the state is imported.\<close>

definition store_snapshot ::
    "snap_env \<Rightarrow> string \<Rightarrow> string \<Rightarrow> int \<Rightarrow> string \<Rightarrow> string \<Rightarrow> manager \<Rightarrow> manager res" where
  "store_snapshot N now archive height app_hash exported_state_sha256 mgr =
     rbind (cleanup_existing_height N height SNAPSHOT_FORMAT_VERSION mgr) (\<lambda>mgr.
     let name = default_snapshot_output_path height app_hash now;
         mgr = mgr\<lparr>sm_archives := AList.update name archive (sm_archives mgr)\<rparr> in
     rbind (write_manifest N now name height app_hash (sha256_hex N archive) exported_state_sha256 archive mgr) (\<lambda>(_, mgr).
     Inr mgr))"

definition import_snapshot_archive ::
    "snap_env \<Rightarrow> bool \<Rightarrow> string \<Rightarrow> 'd driver \<Rightarrow> lmdb \<Rightarrow> string \<Rightarrow> 'd sync_state \<Rightarrow> import_report res \<times> 'd sync_state" where
  "import_snapshot_archive N io_ok now D store archive st =
     (case open_snapshot N (sy_manager st) archive of
        Inl e \<Rightarrow> (Inl e, st)
      | Inr (exported_state, height, app_hash, exported_state_sha256) \<Rightarrow>
          (case import_state (sn_hash N) (sn_text N) (sn_loads N) io_ok D store exported_state (sy_driver st, sy_mirror st) of
             (Inl e, d, m) \<Rightarrow> (Inl e, st\<lparr>sy_driver := d, sy_mirror := m\<rparr>)
           | (Inr report, d, m) \<Rightarrow>
               (let st = st\<lparr>sy_driver := d, sy_mirror := m\<rparr> in
                case store_snapshot N now archive height app_hash exported_state_sha256 (sy_manager st) of
                  Inl e \<Rightarrow> (Inl e, st)
                | Inr mgr \<Rightarrow> (Inr report, st\<lparr>sy_manager := mgr\<rparr>))))"

section \<open>State sync\<close>

record snapshot_offer =
  so_height :: int
  so_format :: int
  so_chunks :: int
  so_hash :: string
  so_metadata :: string

datatype offer_result = OfferAccept | OfferReject | OfferRejectFormat

definition reset_incoming_session :: "manager \<Rightarrow> manager" where
  "reset_incoming_session mgr = mgr\<lparr>sm_session := None\<rparr>"

text \<open>The guarded part of an offer: the metadata, its height and its chunk size, or None on any exception.\<close>

definition offer_metadata :: "snap_env \<Rightarrow> snapshot_offer \<Rightarrow> (pyval \<times> int \<times> int) option" where
  "offer_metadata N req =
     (case rbind (if utf8_valid (so_metadata req) then sn_loads N (so_metadata req) else Inl (ValueError ''utf-8'')) (\<lambda>metadata.
           if \<not> is_dict metadata then Inl (ValueError ''snapshot metadata must be an object'')
           else rbind (validate_execution_policy (dget_or metadata ''execution_policy'' PNone)) (\<lambda>_.
           rbind (py_int (te_int_of_text (sn_text N)) (dget_or metadata ''height'' (PInt (-1)))) (\<lambda>height.
           rbind (py_int (te_int_of_text (sn_text N)) (dget_or metadata ''chunk_size'' (PInt 0))) (\<lambda>chunk_size.
           Inr (metadata, height, chunk_size))))) of
        Inl _ \<Rightarrow> None
      | Inr x \<Rightarrow> Some x)"

definition offer_snapshot_response ::
    "snap_env \<Rightarrow> snapshot_offer \<Rightarrow> string \<Rightarrow> int \<Rightarrow> manager \<Rightarrow> offer_result \<times> manager" where
  "offer_snapshot_response N req app_hash current_height mgr =
     (if so_format req \<noteq> SNAPSHOT_FORMAT_VERSION then (OfferRejectFormat, mgr)
      else if so_height req \<le> current_height then (OfferReject, mgr)
      else if so_chunks req \<le> 0 then (OfferReject, mgr)
      else if length (so_hash req) \<noteq> 32 then (OfferReject, mgr)
      else case offer_metadata N req of
             None \<Rightarrow> (OfferReject, mgr)
           | Some (metadata, metadata_height, metadata_chunk_size) \<Rightarrow>
               if \<not> equals_int N (dget_or metadata ''snapshot_format_version'' PNone) SNAPSHOT_FORMAT_VERSION \<or>
                  dget_or metadata ''chain_id'' PNone \<noteq> PStr (sm_chain_id mgr) \<or>
                  metadata_height \<noteq> so_height req \<or>
                  metadata_chunk_size \<le> 0 \<or> metadata_chunk_size > sm_chunk_size mgr \<or>
                  dget_or metadata ''archive_sha256'' PNone \<noteq> PStr (hexlify (so_hash req)) \<or>
                  dget_or metadata ''app_hash'' PNone \<noteq> PStr (hexlify app_hash)
               then (OfferReject, mgr)
               else (OfferAccept, (reset_incoming_session mgr)\<lparr>sm_session := Some
                       \<lparr>se_height = so_height req, se_format = so_format req, se_chunks = so_chunks req,
                        se_chunk_size = metadata_chunk_size, se_app_hash_hex = hexlify app_hash,
                        se_snapshot_hash_hex = hexlify (so_hash req), se_next_index = 0, se_archive = []\<rparr>\<rparr>))"

text \<open>\<^verbatim>\<open>handle.seek(offset); handle.read(size)\<close>; a negative size reads to the end.\<close>

definition read_at :: "string \<Rightarrow> int \<Rightarrow> int \<Rightarrow> string res" where
  "read_at content offset amount =
     (if offset < 0 then Inl (OtherError ''OSError'')
      else let rest = drop (nat offset) content in Inr (if amount < 0 then rest else take (nat amount) rest))"

definition load_snapshot_chunk_response :: "snap_env \<Rightarrow> manager \<Rightarrow> int \<Rightarrow> int \<Rightarrow> int \<Rightarrow> string res" where
  "load_snapshot_chunk_response N mgr height format_version chunk_index =
     rbind (list_snapshot_records N mgr) (\<lambda>records.
     case find (\<lambda>r. sr_height r = height \<and> sr_format r = format_version) records of
       None \<Rightarrow> Inr []
     | Some r \<Rightarrow>
         if chunk_index < 0 \<or> sr_chunks r \<le> chunk_index then Inr []
         else (case map_of (sm_archives mgr) (sr_archive_name r) of
                 None \<Rightarrow> Inl (FileNotFoundError (sr_archive_name r))
               | Some content \<Rightarrow> read_at content (chunk_index * sr_chunk_size r) (sr_chunk_size r)))"

datatype chunk_result = ChunkAccept | ChunkRetry | ChunkRetrySnapshot | ChunkRejectSnapshot

text \<open>The last chunk: the archive is checked and imported; every exception rejects the snapshot.\<close>

definition finish_session ::
    "snap_env \<Rightarrow> bool \<Rightarrow> string \<Rightarrow> 'd driver \<Rightarrow> lmdb \<Rightarrow> session \<Rightarrow> 'd sync_state \<Rightarrow> chunk_result \<times> 'd sync_state" where
  "finish_session N io_ok now D store s st =
     (if sha256_hex N (se_archive s) \<noteq> se_snapshot_hash_hex s
      then (ChunkRejectSnapshot, st\<lparr>sy_manager := reset_incoming_session (sy_manager st)\<rparr>)
      else case import_snapshot_archive N io_ok now D store (se_archive s) st of
             (Inl _, st) \<Rightarrow> (ChunkRejectSnapshot, st\<lparr>sy_manager := reset_incoming_session (sy_manager st)\<rparr>)
           | (Inr report, st) \<Rightarrow>
               (if im_app_hash report \<noteq> se_app_hash_hex s then ChunkRejectSnapshot else ChunkAccept,
                st\<lparr>sy_manager := reset_incoming_session (sy_manager st)\<rparr>))"

definition apply_snapshot_chunk_response ::
    "snap_env \<Rightarrow> bool \<Rightarrow> string \<Rightarrow> 'd driver \<Rightarrow> lmdb \<Rightarrow> int \<Rightarrow> string \<Rightarrow> 'd sync_state \<Rightarrow> chunk_result \<times> 'd sync_state" where
  "apply_snapshot_chunk_response N io_ok now D store index chunk st =
     (case sm_session (sy_manager st) of
        None \<Rightarrow> (ChunkRetrySnapshot, st)
      | Some s \<Rightarrow>
          if index \<noteq> se_next_index s then (ChunkRetry, st)
          else if index < 0 \<or> se_chunks s \<le> index then (ChunkRejectSnapshot, st)
          else if se_chunk_size s < int (length chunk)
          then (ChunkRejectSnapshot, st\<lparr>sy_manager := reset_incoming_session (sy_manager st)\<rparr>)
          else (let s = s\<lparr>se_archive := se_archive s @ chunk, se_next_index := se_next_index s + 1\<rparr>;
                    st = st\<lparr>sy_manager := (sy_manager st)\<lparr>sm_session := Some s\<rparr>\<rparr>
                in if se_next_index s < se_chunks s then (ChunkAccept, st)
                   else finish_session N io_ok now D store s st))"

section \<open>The handlers of the application\<close>

definition offer_snapshot ::
    "'d app_env \<Rightarrow> snap_env \<Rightarrow> bool \<Rightarrow> snapshot_offer \<Rightarrow> string \<Rightarrow> 'd app \<Rightarrow> manager \<Rightarrow> (offer_result \<times> 'd app \<times> manager) res" where
  "offer_snapshot E N io_ok req app_hash st mgr =
     rbind (get_latest_block_height (px_text (ae_proc E)) io_ok (ap_mirror st)) (\<lambda>(current_height, mirror).
     case offer_snapshot_response N req app_hash current_height mgr of
       (r, mgr) \<Rightarrow> Inr (r, st\<lparr>ap_mirror := mirror\<rparr>, mgr))"

text \<open>
  The import runs on a driver of its own over the same storage; when a chunk is accepted the
  node's driver drops what it has cached and the root cache is rebuilt.
\<close>

definition apply_snapshot_chunk ::
    "'d app_env \<Rightarrow> snap_env \<Rightarrow> bool \<Rightarrow> string \<Rightarrow> lmdb \<Rightarrow> int \<Rightarrow> string \<Rightarrow> 'd app \<times> manager \<Rightarrow>
     chunk_result res \<times> 'd app \<times> manager" where
  "apply_snapshot_chunk E N io_ok now store index chunk x =
     (let (st, mgr) = x; D = ae_driver E;
          (r, sy) = apply_snapshot_chunk_response N io_ok now D store index chunk
                      \<lparr>sy_driver = ap_driver st, sy_mirror = ap_mirror st, sy_manager = mgr\<rparr>;
          st = (set_driver (sy_driver sy) st)\<lparr>ap_mirror := sy_mirror sy\<rparr>
      in if r \<noteq> ChunkAccept then (Inr r, st, sy_manager sy)
         else let d = d_flush_cache D (ap_driver st);
                  st = (set_driver d st)\<lparr>ap_nonces := flush_pending (ap_nonces st)\<rparr>
              in case rebuild (ae_hash E) (key_items (d_items D d [])) (ap_root st) of
                   (Inl e, c) \<Rightarrow> (Inl e, st\<lparr>ap_root := c\<rparr>, sy_manager sy)
                 | (Inr _, c) \<Rightarrow> (Inr r, st\<lparr>ap_root := c\<rparr>, sy_manager sy))"

section \<open>Chunks\<close>

definition chunk_of :: "string \<Rightarrow> int \<Rightarrow> nat \<Rightarrow> string" where
  "chunk_of archive chunk_size i = take (nat chunk_size) (drop (i * nat chunk_size) archive)"

lemma read_at_chunk: "0 < chunk_size \<Longrightarrow> read_at archive (int i * chunk_size) chunk_size = Inr (chunk_of archive chunk_size i)"
  by (simp add: read_at_def chunk_of_def nat_mult_distrib not_less)

lemma concat_chunks: "concat (map (chunk_of archive c) [0..<n]) = take (n * nat c) archive"
proof (induction n)
  case (Suc n)
  have "take (n * nat c + nat c) archive = take (n * nat c) archive @ chunk_of archive c n"
    by (simp add: chunk_of_def take_add)
  then show ?case by (simp add: Suc.IH add.commute)
qed simp

lemma chunk_count_covers:
  assumes "0 < c"
  shows "int archive_size \<le> chunk_count c archive_size * c"
proof -
  define q where "q = (- int archive_size) div c"
  have "c * q + (- int archive_size) mod c = - int archive_size" unfolding q_def by (rule mult_div_mod_eq)
  moreover have "0 \<le> (- int archive_size) mod c" using assms by simp
  ultimately have "int archive_size \<le> - (c * q)" by linarith
  then have "int archive_size \<le> - ((- int archive_size) div c) * c" by (simp add: q_def mult.commute)
  also have "\<dots> \<le> chunk_count c archive_size * c"
    using assms unfolding chunk_count_def by (intro mult_right_mono) auto
  finally show ?thesis .
qed

lemma chunks_reassemble:
  assumes "0 < c"
  shows "concat (map (chunk_of archive c) [0..<nat (chunk_count c (length archive))]) = archive"
proof -
  have "int (length archive) \<le> int (nat (chunk_count c (length archive)) * nat c)"
    using chunk_count_covers [OF assms, of "length archive"] assms by (simp add: chunk_count_def)
  then have "length archive \<le> nat (chunk_count c (length archive)) * nat c" by (simp only: zle_int)
  then show ?thesis by (simp add: concat_chunks)
qed

text \<open>Feeding chunks to a session.\<close>

fun feed_chunks ::
    "snap_env \<Rightarrow> bool \<Rightarrow> string \<Rightarrow> 'd driver \<Rightarrow> lmdb \<Rightarrow> int \<Rightarrow> string list \<Rightarrow> 'd sync_state \<Rightarrow> chunk_result list \<times> 'd sync_state" where
  "feed_chunks N io_ok now D store index [] st = ([], st)"
| "feed_chunks N io_ok now D store index (chunk # chunks) st =
     (let (r, st) = apply_snapshot_chunk_response N io_ok now D store index chunk st;
          (rs, st) = feed_chunks N io_ok now D store (index + 1) chunks st
      in (r # rs, st))"

definition with_session :: "session \<Rightarrow> 'd sync_state \<Rightarrow> 'd sync_state" where
  "with_session s st = st\<lparr>sy_manager := (sy_manager st)\<lparr>sm_session := Some s\<rparr>\<rparr>"

lemma with_session_simps [simp]:
  "sm_session (sy_manager (with_session s st)) = Some s"
  "with_session s (with_session s' st) = with_session s st"
  "sy_driver (with_session s st) = sy_driver st" "sy_mirror (with_session s st) = sy_mirror st"
  by (simp_all add: with_session_def)

lemma apply_chunk_next:
  assumes "se_next_index s = index" "0 \<le> index" "index < se_chunks s" "int (length chunk) \<le> se_chunk_size s"
  defines "s' \<equiv> s\<lparr>se_archive := se_archive s @ chunk, se_next_index := index + 1\<rparr>"
  shows "apply_snapshot_chunk_response N io_ok now D store index chunk (with_session s st) =
    (if index + 1 < se_chunks s then (ChunkAccept, with_session s' st) else finish_session N io_ok now D store s' (with_session s' st))"
  using assms(1-4) by (simp add: apply_snapshot_chunk_response_def Let_def s'_def) (simp add: with_session_def)

lemma feed_reassembles:
  assumes "chunks \<noteq> []" "se_next_index s = index" "0 \<le> index" "se_chunks s = index + int (length chunks)"
    and "list_all (\<lambda>chunk. int (length chunk) \<le> se_chunk_size s) chunks"
  shows "feed_chunks N io_ok now D store index chunks (with_session s st) =
    (let s' = s\<lparr>se_archive := se_archive s @ concat chunks, se_next_index := se_chunks s\<rparr>;
         (r, st') = finish_session N io_ok now D store s' (with_session s' st)
     in (replicate (length chunks - 1) ChunkAccept @ [r], st'))"
  using assms
proof (induction chunks arbitrary: s index)
  case (Cons chunk chunks)
  let ?s = "s\<lparr>se_archive := se_archive s @ chunk, se_next_index := index + 1\<rparr>"
  have nxt: "apply_snapshot_chunk_response N io_ok now D store index chunk (with_session s st) =
    (if index + 1 < se_chunks s then (ChunkAccept, with_session ?s st) else finish_session N io_ok now D store ?s (with_session ?s st))"
    using Cons.prems by (intro apply_chunk_next) auto
  show ?case
  proof (cases "chunks = []")
    case True
    then have "index + 1 = se_chunks s" using Cons.prems(4) by simp
    then show ?thesis using nxt by (simp add: True Let_def split: prod.split)
  next
    case False
    then have "index + 1 < se_chunks s" using Cons.prems(4) by (cases chunks) auto
    then have a: "apply_snapshot_chunk_response N io_ok now D store index chunk (with_session s st) = (ChunkAccept, with_session ?s st)"
      using nxt by simp
    have "feed_chunks N io_ok now D store (index + 1) chunks (with_session ?s st) =
      (let s' = ?s\<lparr>se_archive := se_archive ?s @ concat chunks, se_next_index := se_chunks ?s\<rparr>;
           (r, st') = finish_session N io_ok now D store s' (with_session s' st)
       in (replicate (length chunks - 1) ChunkAccept @ [r], st'))"
      using Cons.prems False by (intro Cons.IH) auto
    then show ?thesis using False
      by (cases chunks) (simp_all add: a Let_def split: prod.split)
  qed
qed simp

section \<open>Imported archives\<close>

lemma import_snapshot_success:
  assumes laws: "driver_laws D" and run: "import_snapshot_archive N io_ok now D store archive st = (Inr report, st')"
  obtains h where "compute_driver_state_root (sn_hash N) D (sy_driver st') = Inr h" "im_app_hash report = hexlify h"
    "d_pending_writes D (sy_driver st') = []"
proof -
  obtain ex d m where i: "import_state (sn_hash N) (sn_text N) (sn_loads N) io_ok D store ex (sy_driver st, sy_mirror st) = (Inr report, d, m)"
    "sy_driver st' = d"
    using run by (auto simp: import_snapshot_archive_def Let_def split: sum.splits prod.splits)
  obtain h writes where h: "compute_driver_state_root (sn_hash N) D d = Inr h" "im_app_hash report = hexlify h"
    "d = imported_db D h (im_height report) (im_nanos report) writes (sy_driver st)"
    using laws i(1) by (rule import_state_success)
  have "d_pending_writes D d = []" unfolding h(3) imported_db_def by (rule driver_lawsD(27) [OF laws])
  with h(1,2) i(2) show thesis by (intro that) simp_all
qed

lemma finish_session_accepts:
  assumes laws: "driver_laws D" and run: "finish_session N io_ok now D store s st = (ChunkAccept, st')"
  obtains h where "compute_driver_state_root (sn_hash N) D (sy_driver st') = Inr h" "se_app_hash_hex s = hexlify h"
    "d_pending_writes D (sy_driver st') = []"
proof -
  obtain report st1 where i: "import_snapshot_archive N io_ok now D store (se_archive s) st = (Inr report, st1)"
    "im_app_hash report = se_app_hash_hex s" "sy_driver st' = sy_driver st1"
    using run by (auto simp: finish_session_def split: if_splits sum.splits prod.splits)
  from laws i(1) show thesis by (rule import_snapshot_success) (auto intro: that simp: i(2,3) [symmetric])
qed

lemma compute_root_of:
  assumes laws: "driver_laws D" and K: "distinct_priorities H K" "\<And>k. k \<notin> K \<Longrightarrow> d_get D d k = PNone"
    and run: "compute_driver_state_root H D d = Inr h"
  shows "root_of H K (d_get D d) h"
proof -
  have items: "map_of (d_items D d []) k = (if d_get D d k \<noteq> PNone then Some (d_get D d k) else None)" for k
    by (simp add: driver_lawsD(7) [OF laws])
  have "fst ` set (d_items D d []) \<subseteq> K"
  proof
    fix k assume "k \<in> fst ` set (d_items D d [])"
    then have "map_of (d_items D d []) k \<noteq> None" unfolding map_of_None_fst by simp
    then show "k \<in> K" using items [of k] K(2) [of k] by (auto split: if_splits)
  qed
  from merkle_root_of [OF K(1) driver_wfD(2) [OF laws] this] run
  have "root_of H K (\<lambda>k. case map_of (d_items D d []) k of Some v \<Rightarrow> v | None \<Rightarrow> PNone) h"
    by (simp add: compute_driver_state_root_def cache_from_driver_def merkle_root_from_items_def)
  then show ?thesis by (subst root_of_cong [of _ "\<lambda>k. case map_of (d_items D d []) k of Some v \<Rightarrow> v | None \<Rightarrow> PNone"]) (auto simp: items)
qed

text \<open>The node after an accepted snapshot: idle on the imported state.\<close>

lemma accepted_snapshot_idle:
  assumes laws: "driver_laws (ae_driver E)" and K: "distinct_priorities (ae_hash E) K" and N: "sn_hash N = ae_hash E"
    and last: "sm_session mgr = Some s" "se_next_index s + 1 = se_chunks s"
    and run: "apply_snapshot_chunk E N io_ok now store index chunk (st, mgr) = (Inr ChunkAccept, st', mgr')"
    and st: "ap_staged st = None" and keys: "keys_within (ae_driver E) (ap_driver st') K"
  obtains h where "se_app_hash_hex s = hexlify h"
    "compute_driver_state_root (ae_hash E) (ae_driver E) (ap_driver st') = Inr h"
    "root_hash (ae_hash E) (ap_root st') = h" "idle E K st'"
proof -
  let ?D = "ae_driver E" and ?sy = "\<lparr>sy_driver = ap_driver st, sy_mirror = ap_mirror st, sy_manager = mgr\<rparr>"
  obtain sy where sy: "apply_snapshot_chunk_response N io_ok now ?D store index chunk ?sy = (ChunkAccept, sy)"
    using run by (auto simp: apply_snapshot_chunk_def Let_def split: prod.splits if_splits sum.splits)
  let ?s = "s\<lparr>se_archive := se_archive s @ chunk, se_next_index := se_next_index s + 1\<rparr>"
  have "finish_session N io_ok now ?D store ?s (?sy\<lparr>sy_manager := mgr\<lparr>sm_session := Some ?s\<rparr>\<rparr>) = (ChunkAccept, sy)"
    using sy last by (auto simp: apply_snapshot_chunk_response_def Let_def split: if_splits)
  with laws obtain h where h: "compute_driver_state_root (sn_hash N) ?D (sy_driver sy) = Inr h"
    "se_app_hash_hex ?s = hexlify h" "d_pending_writes ?D (sy_driver sy) = []" by (rule finish_session_accepts)
  let ?d = "d_flush_cache ?D (sy_driver sy)"
  obtain x c where c: "rebuild (ae_hash E) (key_items (d_items ?D ?d [])) (ap_root st) = (Inr x, c)"
    "ap_driver st' = ?d" "ap_root st' = c" "ap_staged st' = None"
    using run sy st by (auto simp: apply_snapshot_chunk_def Let_def set_driver_def split: prod.splits if_splits sum.splits)
  have get: "d_get ?D (sy_driver sy) = d_get ?D ?d"
    using h(3) by (simp add: fun_eq_iff driver_get_split [OF laws] driver_lawsD(5,6) [OF laws])
  have disk: "d_get ?D ?d = d_value_from_disk ?D ?d" by (simp add: get_flush_cache [OF laws] driver_lawsD(5) [OF laws])
  have K2: "d_get ?D ?d k = PNone" if "k \<notin> K" for k using keys that by (simp add: keys_within_def c(2) disk)
  have root: "root_of (ae_hash E) K (d_get ?D ?d) h"
    using compute_root_of [OF laws K K2 [folded get] h(1) [unfolded N]] by (simp add: get)
  have comp: "compute_driver_state_root (ae_hash E) ?D ?d = Inr h" using laws K K2 root by (rule recomputed_root)
  have cd: "cache_from_driver (ae_hash E) ?D ?d = (Inr x, c)"
    using c(1) rebuild_from_any [of "ae_hash E" _ "ap_root st"] by (simp add: cache_from_driver_def cache_from_items_def)
  have hash: "hashable (ae_hash E) k (d_get ?D ?d k)" for k using root by (auto simp: root_of_def)
  have in_K: "d_get ?D ?d k \<noteq> PNone \<Longrightarrow> k \<in> K" for k using K2 by blast
  from cache_from_driver_ok [OF laws K in_K hash] cd have
    "x = root_hash (ae_hash E) c" "cache_ok (ae_hash E) K c" "rc_staged c = []"
    "\<forall>k. leaves c k = leaf_value (ae_hash E) k (d_get ?D ?d k)" by auto
  moreover from this(1) cd comp have "root_hash (ae_hash E) c = h" by (simp add: compute_driver_state_root_def)
  ultimately show thesis
    using h(2) comp hash by (intro that [of h]) (simp_all add: c(2-4) idle_def cache_matches_def driver_lawsD(6) [OF laws] disk)
qed

section \<open>Bounded sessions\<close>

datatype sync_request = Offer snapshot_offer string int | Chunk int string

definition sync_step ::
    "snap_env \<Rightarrow> bool \<Rightarrow> string \<Rightarrow> 'd driver \<Rightarrow> lmdb \<Rightarrow> sync_request \<Rightarrow> 'd sync_state \<Rightarrow> 'd sync_state" where
  "sync_step N io_ok now D store req st =
     (case req of
        Offer offer app_hash current_height \<Rightarrow>
          st\<lparr>sy_manager := snd (offer_snapshot_response N offer app_hash current_height (sy_manager st))\<rparr>
      | Chunk index chunk \<Rightarrow> snd (apply_snapshot_chunk_response N io_ok now D store index chunk st))"

definition session_ok :: "manager \<Rightarrow> bool" where
  "session_ok mgr \<longleftrightarrow>
     (case sm_session mgr of None \<Rightarrow> True
      | Some s \<Rightarrow> 0 \<le> se_next_index s \<and> se_next_index s \<le> se_chunks s \<and> se_chunk_size s \<le> sm_chunk_size mgr \<and>
          0 < se_chunk_size s \<and> int (length (se_archive s)) \<le> se_next_index s * se_chunk_size s)"

lemma offer_session_ok: "session_ok mgr \<Longrightarrow> session_ok (snd (offer_snapshot_response N req app_hash height mgr))"
  by (auto simp: offer_snapshot_response_def session_ok_def reset_incoming_session_def split: option.split)

lemma finish_session_resets: "sm_session (sy_manager (snd (finish_session N io_ok now D store s st))) = None"
  by (auto simp: finish_session_def reset_incoming_session_def split: prod.split sum.split)

lemma apply_session_ok:
  assumes ok: "session_ok (sy_manager st)"
  shows "session_ok (sy_manager (snd (apply_snapshot_chunk_response N io_ok now D store index chunk st)))"
proof (cases "sm_session (sy_manager st)")
  case None
  with ok show ?thesis by (simp add: apply_snapshot_chunk_response_def)
next
  case (Some s)
  have "int (length (se_archive s @ chunk)) \<le> (se_next_index s + 1) * se_chunk_size s"
    if "int (length chunk) \<le> se_chunk_size s"
    using ok that by (simp add: session_ok_def Some algebra_simps)
  then show ?thesis
    using ok by (auto simp: apply_snapshot_chunk_response_def Some Let_def finish_session_resets session_ok_def reset_incoming_session_def algebra_simps)
qed

lemma sync_run_session_ok:
  "session_ok (sy_manager st) \<Longrightarrow> session_ok (sy_manager (fold (sync_step N io_ok now D store) reqs st))"
  by (induction reqs arbitrary: st)
    (auto simp: sync_step_def offer_session_ok apply_session_ok split: sync_request.split)

section \<open>A sample snapshot\<close>

definition empty_manager :: manager where
  "empty_manager = \<lparr>sm_chain_id = ''c'', sm_chunk_size = 3, sm_archives = [], sm_manifests = [], sm_session = None\<rparr>"

definition sample_snap :: snap_env where
  "sample_snap =
     \<lparr>sn_hash = short_hash, sn_text = sample_text, sn_export = sample_export_env\<lparr>xe_decode := \<lambda>_. Inr foreign_export\<rparr>,
      sn_loads = (\<lambda>_. Inr (snapshot_metadata empty_manager 7 (str_of (dget_or foreign_export ''hash'' PNone)) ''now'')),
      sn_pack = (\<lambda>_. []), sn_unpack = (\<lambda>_. Inr [(SNAPSHOT_METADATA_FILENAME, ''m''), (SNAPSHOT_STATE_FILENAME, ''s'')]),
      sn_float_int = (\<lambda>_. None)\<rparr>"

definition sample_sync :: "mem_db sync_state" where
  "sample_sync = \<lparr>sy_driver = mem_driver_start 3, sy_mirror = None, sy_manager = empty_manager\<rparr>"

definition sample_session :: "string \<Rightarrow> session" where
  "sample_session app_hash_hex =
     \<lparr>se_height = 7, se_format = 2, se_chunks = 3, se_chunk_size = 3, se_app_hash_hex = app_hash_hex,
      se_snapshot_hash_hex = hexlify ''g'', se_next_index = 0, se_archive = []\<rparr>"

lemma sort_keys_plain: "json_plain v \<Longrightarrow> json_plain (sort_keys v)"
  by (induction v rule: json_plain.induct) (auto simp: list_all_iff)

lemma offer_metadata_text: "is_ok (json_bytes (build_offer_metadata mgr height a b c))"
  unfolding json_bytes_def canonical_json_sorted_def
  by (intro dumps_plain sort_keys_plain) (simp add: build_offer_metadata_def current_execution_policy_def)

lemma file_names: "SNAPSHOT_METADATA_FILENAME \<noteq> SNAPSHOT_STATE_FILENAME" "SNAPSHOT_STATE_FILENAME \<noteq> SNAPSHOT_METADATA_FILENAME"
  by (simp_all add: SNAPSHOT_METADATA_FILENAME_def SNAPSHOT_STATE_FILENAME_def)

lemma sample_files:
  "safe_extract_snapshot DESTINATION [(SNAPSHOT_METADATA_FILENAME, m), (SNAPSHOT_STATE_FILENAME, t)] =
     Inr [([SNAPSHOT_METADATA_FILENAME], m), ([SNAPSHOT_STATE_FILENAME], t)]"
  by code_simp

lemma store_into_empty:
  assumes "sm_manifests mgr = []"
  shows "\<exists>mgr'. store_snapshot N now archive height app_hash sha mgr = Inr mgr'"
proof -
  let ?mgr = "mgr\<lparr>sm_archives := AList.update (default_snapshot_output_path height app_hash now) archive (sm_archives mgr)\<rparr>"
  have "cleanup_existing_height N height SNAPSHOT_FORMAT_VERSION mgr = Inr mgr"
    by (simp add: cleanup_existing_height_def list_snapshot_records_def sorted_reverse_def assms)
  moreover obtain t where "json_bytes (build_offer_metadata ?mgr height app_hash sha (sha256_hex N archive)) = Inr t"
    using offer_metadata_text [of ?mgr height app_hash sha "sha256_hex N archive"] unfolding is_ok_iff by blast
  ultimately show ?thesis by (simp add: store_snapshot_def write_manifest_def Let_def)
qed

definition foreign_root :: string where
  "foreign_root = projr (merkle_root_from_items short_hash (key_items foreign_genesis))"

lemma foreign_fields:
  "dget_or foreign_export ''hash'' v = PStr (hexlify foreign_root)" "dget foreign_export ''hash'' = Some (PStr (hexlify foreign_root))"
  "dget foreign_export ''number'' = Some (PInt 7)" "is_dict foreign_export"
  by (simp_all add: foreign_export_def foreign_root_def exported_to_py_def dget_or_def)

lemma foreign_imported:
  obtains rep d m where
    "import_state short_hash sample_text loads True mem_driver None foreign_export (mem_driver_start 3, None) = (Inr rep, d, m)"
    "compute_exported_state_root short_hash (py_str sample_text) foreign_export = Inr foreign_root"
    "im_app_hash rep = hexlify foreign_root"
proof -
  have l: "import_state short_hash sample_text loads True mem_driver None foreign_export x =
      import_state short_hash sample_text (\<lambda>_. Inr PNone) True mem_driver None foreign_export x" for x :: "mem_db \<times> mirror_file"
    by (simp add: import_state_def validate_persisted_execution_policy_def)
  obtain rep d m where r: "import_state short_hash sample_text (\<lambda>_. Inr PNone) True mem_driver None foreign_export (mem_driver_start 3, None) =
      (Inr rep, d, m)"
    using foreign_import by (auto split: prod.splits sum.splits)
  obtain h where h: "compute_exported_state_root short_hash (py_str sample_text) foreign_export = Inr h"
    "advertised_hash foreign_export = Inr h" "im_app_hash rep = hexlify h"
    using mem_driver_laws r by (rule import_state_success)
  have "h = foreign_root" using h(2) by (simp add: advertised_hash_def foreign_fields)
  with r h show thesis by (intro that) (simp_all add: l)
qed

lemma sample_open:
  "sm_chain_id mgr = ''c'' \<Longrightarrow>
   open_snapshot sample_snap mgr archive = Inr (foreign_export, 7, hexlify foreign_root, sha256_hex sample_snap ''s'')"
  by (rule foreign_imported [of "\<lambda>_. Inr PNone"])
    (simp add: open_snapshot_def sample_snap_def sample_files read_text_def file_names
      snapshot_metadata_def current_policy_valid load_exported_state_def sample_export_env_def dindex_def foreign_fields
      SNAPSHOT_FORMAT_VERSION_def empty_manager_def py_str_def dget_or_def sha256_hex_def)

definition sync_keys :: "string set" where
  "sync_keys = {''a'', EXECUTION_POLICY_KEY, LATEST_BLOCK_KEY}"

lemma sync_priorities: "distinct_priorities short_hash sync_keys"
  unfolding distinct_priorities_def sync_keys_def by code_simp

text \<open>The sample archive is imported whatever its bytes, into a directory without manifests.\<close>

lemma sample_archive_imported:
  assumes "sy_driver st = mem_driver_start 3" "sy_mirror st = None" "sm_chain_id (sy_manager st) = ''c''" "sm_manifests (sy_manager st) = []"
  obtains rep st1 where "import_snapshot_archive sample_snap True ''now'' mem_driver None archive st = (Inr rep, st1)"
    "im_app_hash rep = hexlify foreign_root" "keys_within mem_driver (sy_driver st1) sync_keys"
proof -
  let ?loads = "sn_loads sample_snap"
  obtain rep d m where r:
    "import_state short_hash sample_text ?loads True mem_driver None foreign_export (mem_driver_start 3, None) = (Inr rep, d, m)"
    "im_app_hash rep = hexlify foreign_root" by (rule foreign_imported)
  obtain mgr where "store_snapshot sample_snap ''now'' archive 7 (hexlify foreign_root) (sha256_hex sample_snap ''s'') (sy_manager st) = Inr mgr"
    using store_into_empty [OF assms(4)] by blast
  with r have i: "import_snapshot_archive sample_snap True ''now'' mem_driver None archive st =
      (Inr rep, st\<lparr>sy_driver := d, sy_mirror := m, sy_manager := mgr\<rparr>)"
    by (simp add: import_snapshot_archive_def sample_open [OF assms(3)] assms(1,2)) (simp add: sample_snap_def)
  obtain h writes where h: "import_writes sample_text foreign_export = Inr writes"
    "d = imported_db mem_driver h (im_height rep) (im_nanos rep) writes (mem_driver_start 3)"
    using mem_driver_laws r(1) by (rule import_state_success)
  have "writes = dict_update (dict_update [] foreign_genesis) (nonce_items [])"
    using h(1) import_writes_exported [of sample_text _ 7 9 "[]" "[]" foreign_genesis "[]"]
    by (simp add: foreign_export_def exported_nonces_def)
  then have "map_of writes k = None" if "k \<notin> sync_keys" for k
    using that by (simp add: nonce_items_def exported_nonces_def foreign_genesis_def sync_keys_def map_of_AList_update)
  then have "keys_within mem_driver d sync_keys"
    using h(2) imported_value [OF mem_driver_laws import_writes_wf [OF h(1)]]
    by (auto simp: keys_within_def imported_db_def driver_lawsD(27) [OF mem_driver_laws] sync_keys_def)
  with i r(2) show thesis by (intro that) auto
qed

lemma foreign_root_text: "hexlify foreign_root \<noteq> ''zz''"
proof
  assume "hexlify foreign_root = ''zz''"
  then have "fromhex ''zz'' = Inr foreign_root" by (metis fromhex_hexlify)
  moreover have "\<not> is_ok (fromhex ''zz'')" by code_simp
  ultimately show False by simp
qed

definition sync_app :: "mem_db app" where
  "sync_app = (sample_app (mem_driver_start 3))\<lparr>ap_root := empty_cache\<rparr>"

definition last_session :: session where
  "last_session = (sample_session (hexlify foreign_root))\<lparr>se_chunks := 1\<rparr>"

lemma last_app_hash: "se_app_hash_hex last_session = hexlify foreign_root"
  by (simp add: last_session_def sample_session_def)

lemma hexlify_inj: "hexlify x = hexlify y \<Longrightarrow> x = y"
  by (metis Inr_inject fromhex_hexlify)

lemma sample_chunk_accepted:
  obtains st' mgr' where
    "apply_snapshot_chunk chain_node sample_snap True ''now'' None 0 ''g'' (sync_app, empty_manager\<lparr>sm_session := Some last_session\<rparr>) =
       (Inr ChunkAccept, st', mgr')" "keys_within mem_driver (ap_driver st') sync_keys"
proof -
  let ?s = "last_session\<lparr>se_archive := ''g'', se_next_index := 1\<rparr>"
  let ?sy = "\<lparr>sy_driver = mem_driver_start 3, sy_mirror = None, sy_manager = empty_manager\<lparr>sm_session := Some ?s\<rparr>\<rparr>"
  have sync: "sy_driver ?sy = mem_driver_start 3" "sy_mirror ?sy = None" "sm_chain_id (sy_manager ?sy) = ''c''"
    "sm_manifests (sy_manager ?sy) = []" by (simp_all add: empty_manager_def)
  obtain rep st1 where r: "import_snapshot_archive sample_snap True ''now'' mem_driver None ''g'' ?sy = (Inr rep, st1)"
    "im_app_hash rep = hexlify foreign_root" "keys_within mem_driver (sy_driver st1) sync_keys" using sync by (rule sample_archive_imported)
  have sha: "sha256_hex sample_snap ''g'' = se_snapshot_hash_hex last_session"
    by (simp add: sha256_hex_def sample_snap_def short_hash_def last_session_def sample_session_def)
  have resp: "apply_snapshot_chunk_response sample_snap True ''now'' mem_driver None 0 ''g''
      \<lparr>sy_driver = ap_driver sync_app, sy_mirror = ap_mirror sync_app, sy_manager = empty_manager\<lparr>sm_session := Some last_session\<rparr>\<rparr> =
    (ChunkAccept, st1\<lparr>sy_manager := reset_incoming_session (sy_manager st1)\<rparr>)"
    using r(1,2) sha by (simp add: apply_snapshot_chunk_response_def finish_session_def last_session_def sample_session_def
        sync_app_def sample_app_def Let_def)
  let ?d = "d_flush_cache mem_driver (sy_driver st1)"
  obtain h where h: "compute_driver_state_root (sn_hash sample_snap) mem_driver (sy_driver st1) = Inr h" "d_pending_writes mem_driver (sy_driver st1) = []"
    using mem_driver_laws r(1) by (rule import_snapshot_success)
  have get: "d_get mem_driver ?d = d_get mem_driver (sy_driver st1)"
    using h(2) by (simp add: fun_eq_iff driver_get_split [OF mem_driver_laws] driver_lawsD(5,6) [OF mem_driver_laws])
  have K: "d_get mem_driver (sy_driver st1) k = PNone" if "k \<notin> sync_keys" for k
    using that r(3) h(2) by (simp add: keys_within_def driver_get_split [OF mem_driver_laws])
  have "compute_driver_state_root short_hash mem_driver ?d = Inr h"
    using mem_driver_laws sync_priorities
    by (rule recomputed_root) (use K compute_root_of [OF mem_driver_laws sync_priorities K] h(1) in \<open>simp_all add: get sample_snap_def\<close>)
  then obtain c where c: "rebuild short_hash (key_items (d_items mem_driver ?d [])) (ap_root sync_app) = (Inr h, c)"
    using rebuild_from_any [of short_hash _ "ap_root sync_app"]
    by (cases "rebuild short_hash (key_items (d_items mem_driver ?d [])) empty_cache")
      (auto simp: compute_driver_state_root_def cache_from_driver_def cache_from_items_def)
  have "keys_within mem_driver ?d sync_keys"
    using r(3) by (simp add: keys_within_def driver_lawsD(5,6) [OF mem_driver_laws])
  moreover have "ae_hash chain_node = short_hash" by (simp add: chain_node_def)
  ultimately have "\<exists>st' mgr'. apply_snapshot_chunk chain_node sample_snap True ''now'' None 0 ''g''
        (sync_app, empty_manager\<lparr>sm_session := Some last_session\<rparr>) = (Inr ChunkAccept, st', mgr') \<and>
      keys_within mem_driver (ap_driver st') sync_keys"
    using resp c by (simp add: apply_snapshot_chunk_def chain_node_driver Let_def set_driver_def)
  then show thesis using that by blast
qed

text \<open>An offer of three chunks, and what a session holds after the first.\<close>

definition offer_snap :: snap_env where
  "offer_snap = sample_snap\<lparr>sn_loads := \<lambda>_. Inr (build_offer_metadata empty_manager 9 (hexlify ''h'') [] (hexlify (replicate 32 CHR ''x'')))\<rparr>"

definition sample_offer :: snapshot_offer where
  "sample_offer = \<lparr>so_height = 9, so_format = 2, so_chunks = 3, so_hash = replicate 32 CHR ''x'', so_metadata = []\<rparr>"

lemma sample_offer_accepted:
  "case sm_session (sy_manager (fold (sync_step offer_snap True ''now'' mem_driver None)
      [Offer sample_offer ''h'' 4, Chunk 1 ''zzz'', Chunk 0 ''abc''] sample_sync)) of
     Some s \<Rightarrow> se_archive s = ''abc'' | None \<Rightarrow> False"
  by code_simp

section \<open>Properties\<close>

text \<open>C23: The transfer of a snapshot is exact: when the receiver's session expects the chunk size and the
  number of chunks that the sender's manifest announces, feeding it the chunks the sender reads
  from its archive, in order, accepts each of them and ends with the check of exactly the
  sender's archive.\<close>

theorem snapshot_transfer_exact:
  assumes "0 < chunk_size" and "se_chunk_size s = chunk_size" and "se_chunks s = chunk_count chunk_size (length archive)"
    and "se_next_index s = 0" and "se_archive s = []"
  defines "n \<equiv> nat (chunk_count chunk_size (length archive))"
  shows "feed_chunks N io_ok now D store 0 (map (\<lambda>i. projr (read_at archive (int i * chunk_size) chunk_size)) [0..<n]) (with_session s st) =
    (let s' = s\<lparr>se_archive := archive, se_next_index := se_chunks s\<rparr>;
         (r, st') = finish_session N io_ok now D store s' (with_session s' st)
     in (replicate (n - 1) ChunkAccept @ [r], st'))"
proof -
  let ?chunks = "map (chunk_of archive chunk_size) [0..<n]"
  have n: "0 < n" "int n = se_chunks s" by (simp_all add: n_def assms(3) chunk_count_def)
  have eq: "map (\<lambda>i. projr (read_at archive (int i * chunk_size) chunk_size)) [0..<n] = ?chunks"
    using assms(1) by (simp add: read_at_chunk)
  have "list_all (\<lambda>chunk. int (length chunk) \<le> se_chunk_size s) ?chunks"
    using assms(1,2) by (auto simp: list_all_iff chunk_of_def)
  moreover have "concat ?chunks = archive" unfolding n_def by (rule chunks_reassemble [OF assms(1)])
  ultimately show ?thesis
    unfolding eq using n assms(4,5) by (subst feed_reassembles) (simp_all add: Let_def split: prod.split)
qed

theorem snapshot_transfer_exact_witness:
  "feed_chunks sample_snap True ''now'' mem_driver None 0 [''abc'', ''def'', ''g''] (with_session (sample_session []) sample_sync) =
     (let s' = (sample_session [])\<lparr>se_archive := ''abcdefg'', se_next_index := 3\<rparr>;
          (r, st') = finish_session sample_snap True ''now'' mem_driver None s' (with_session s' sample_sync)
      in ([ChunkAccept, ChunkAccept, r], st'))"
proof -
  have n: "nat (chunk_count 3 (length ''abcdefg'')) = 3" by (simp add: chunk_count_def)
  have "map (\<lambda>i. projr (read_at ''abcdefg'' (int i * 3) 3)) [0..<3] = [''abc'', ''def'', ''g'']"
    by code_simp
  with snapshot_transfer_exact [of 3 "sample_session []" "''abcdefg''" sample_snap True "''now''" mem_driver None sample_sync] n
  show ?thesis by (simp add: sample_session_def chunk_count_def numeral_2_eq_2)
qed

text \<open>C24: A snapshot that is accepted leaves the node in the trusted state: after the last chunk is accepted
  the database, rescanned, has the root that CometBFT verified and passed with the offer, and the
  node is idle on it, its root cache included.\<close>

theorem accepted_snapshot_is_trusted:
  assumes "driver_laws (ae_driver E)" and "distinct_priorities (ae_hash E) K" and "sn_hash N = ae_hash E"
    and "sm_session mgr = Some s" and "se_next_index s + 1 = se_chunks s"
    and "apply_snapshot_chunk E N io_ok now store index chunk (st, mgr) = (Inr ChunkAccept, st', mgr')"
    and "ap_staged st = None" and "keys_within (ae_driver E) (ap_driver st') K"
  shows "\<exists>h. se_app_hash_hex s = hexlify h \<and>
    compute_driver_state_root (ae_hash E) (ae_driver E) (ap_driver st') = Inr h \<and>
    root_hash (ae_hash E) (ap_root st') = h \<and> idle E K st'"
  using assms by (rule accepted_snapshot_idle) blast

theorem accepted_snapshot_is_trusted_witness:
  "\<exists>st' mgr'. apply_snapshot_chunk chain_node sample_snap True ''now'' None 0 ''g'' (sync_app, empty_manager\<lparr>sm_session := Some last_session\<rparr>) =
      (Inr ChunkAccept, st', mgr') \<and>
     compute_driver_state_root short_hash mem_driver (ap_driver st') = Inr foreign_root"
proof -
  let ?mgr = "empty_manager\<lparr>sm_session := Some last_session\<rparr>" and ?H = "ae_hash chain_node"
  have E: "?H = short_hash" "sn_hash sample_snap = ?H" by (simp_all add: chain_node_def sample_snap_def)
  have ses: "sm_session ?mgr = Some last_session" "se_next_index last_session + 1 = se_chunks last_session"
    by (simp_all add: last_session_def sample_session_def)
  obtain st' mgr' where st': "apply_snapshot_chunk chain_node sample_snap True ''now'' None 0 ''g'' (sync_app, ?mgr) = (Inr ChunkAccept, st', mgr')"
    "keys_within mem_driver (ap_driver st') sync_keys"
    by (rule sample_chunk_accepted)
  have "ap_staged sync_app = None" by (simp add: sync_app_def sample_app_def)
  from accepted_snapshot_is_trusted [OF _ _ E(2) ses st'(1) this] obtain h where
    "se_app_hash_hex last_session = hexlify h" "compute_driver_state_root ?H mem_driver (ap_driver st') = Inr h"
    using st'(2) mem_driver_laws sync_priorities unfolding chain_node_driver E(1) by blast
  moreover from this(1) have "h = foreign_root" unfolding last_app_hash by (rule hexlify_inj [symmetric])
  ultimately show ?thesis using st'(1) E(1) by auto
qed

text \<open>The incoming archive stays within what was announced: after any sequence of offers and chunks,
  in whatever order and of whatever size they come, a session holds at most as many bytes as its
  chunks times the node's own chunk size.\<close>

theorem incoming_archive_bounded:
  assumes "sm_session (sy_manager st) = None"
    and "sm_session (sy_manager (fold (sync_step N io_ok now D store) requests st)) = Some s"
  shows "int (length (se_archive s)) \<le> se_chunks s * sm_chunk_size (sy_manager (fold (sync_step N io_ok now D store) requests st))"
proof -
  let ?mgr = "sy_manager (fold (sync_step N io_ok now D store) requests st)"
  have "session_ok ?mgr" using assms(1) by (intro sync_run_session_ok) (simp add: session_ok_def)
  then have s: "0 \<le> se_next_index s" "se_next_index s \<le> se_chunks s" "se_chunk_size s \<le> sm_chunk_size ?mgr" "0 < se_chunk_size s"
    "int (length (se_archive s)) \<le> se_next_index s * se_chunk_size s"
    by (simp_all add: session_ok_def assms(2))
  have "se_next_index s * se_chunk_size s \<le> se_chunks s * sm_chunk_size ?mgr" using s by (intro mult_mono) auto
  with s(5) show ?thesis by linarith
qed

theorem incoming_archive_bounded_witness:
  "\<exists>s. sm_session (sy_manager (fold (sync_step offer_snap True ''now'' mem_driver None)
      [Offer sample_offer ''h'' 4, Chunk 1 ''zzz'', Chunk 0 ''abc''] sample_sync)) = Some s \<and>
    int (length (se_archive s)) \<le> se_chunks s * sm_chunk_size (sy_manager (fold (sync_step offer_snap True ''now'' mem_driver None)
      [Offer sample_offer ''h'' 4, Chunk 1 ''zzz'', Chunk 0 ''abc''] sample_sync))"
proof -
  have none: "sm_session (sy_manager sample_sync) = None" by (simp add: sample_sync_def empty_manager_def)
  obtain s where "sm_session (sy_manager (fold (sync_step offer_snap True ''now'' mem_driver None)
      [Offer sample_offer ''h'' 4, Chunk 1 ''zzz'', Chunk 0 ''abc''] sample_sync)) = Some s"
    using sample_offer_accepted by (auto split: option.splits)
  with incoming_archive_bounded [OF none this] show ?thesis by blast
qed

text \<open>A rejected snapshot can replace the state: the app hash of an archive is compared with the trusted
  one only after the archive has been imported, so a self-consistent archive with another hash is
  answered with a rejection while the database already holds its state.\<close>

theorem rejected_snapshot_replaces_state:
  assumes "driver_laws D" and "sha256_hex N (se_archive s) = se_snapshot_hash_hex s"
    and "import_snapshot_archive N io_ok now D store (se_archive s) st = (Inr report, st1)"
    and "im_app_hash report \<noteq> se_app_hash_hex s"
  shows "\<exists>h. finish_session N io_ok now D store s st =
      (ChunkRejectSnapshot, st1\<lparr>sy_manager := reset_incoming_session (sy_manager st1)\<rparr>) \<and>
    compute_driver_state_root (sn_hash N) D (sy_driver st1) = Inr h \<and> hexlify h \<noteq> se_app_hash_hex s"
proof -
  obtain h where "compute_driver_state_root (sn_hash N) D (sy_driver st1) = Inr h" "im_app_hash report = hexlify h"
    using assms(1,3) by (rule import_snapshot_success)
  with assms show ?thesis by (simp add: finish_session_def)
qed

theorem rejected_snapshot_replaces_state_witness:
  "\<exists>st1 h. finish_session sample_snap True ''now'' mem_driver None ((sample_session ''zz'')\<lparr>se_archive := ''g''\<rparr>) sample_sync =
      (ChunkRejectSnapshot, st1) \<and> compute_driver_state_root short_hash mem_driver (sy_driver st1) = Inr h \<and> hexlify h \<noteq> ''zz''"
proof -
  let ?s = "(sample_session ''zz'')\<lparr>se_archive := ''g''\<rparr>"
  have sync: "sy_driver sample_sync = mem_driver_start 3" "sy_mirror sample_sync = None" "sm_chain_id (sy_manager sample_sync) = ''c''"
    "sm_manifests (sy_manager sample_sync) = []" by (simp_all add: sample_sync_def empty_manager_def)
  obtain rep st1 where r: "import_snapshot_archive sample_snap True ''now'' mem_driver None (se_archive ?s) sample_sync = (Inr rep, st1)"
    "im_app_hash rep = hexlify foreign_root" using sync by (rule sample_archive_imported)
  have "im_app_hash rep \<noteq> se_app_hash_hex ?s" using foreign_root_text by (simp add: r(2) sample_session_def)
  moreover have "sha256_hex sample_snap (se_archive ?s) = se_snapshot_hash_hex ?s" by code_simp
  ultimately show ?thesis
    using rejected_snapshot_replaces_state [OF mem_driver_laws _ r(1)] by (auto simp: sample_snap_def sample_session_def)
qed

end
