(* ===== verification/Simulator_Ipc.thy ===== *)
theory Simulator_Ipc
  imports Abci_Json
begin

text \<open>
  The encoding between the node and its simulation workers
  (\<^verbatim>\<open>src/src/xian/simulator_ipc.py\<close>): typed Python values as JSON trees and back.  The values
  have a type of their own here because the encoding tells apart what the rest of the model need
  not: decimals of two kinds, tuples of three, sets of four.  A JSON tree is a \<^typ>\<open>pyval\<close>.
  The constructors and the text of decimals, times and contract sets are third-party and are the
  fields of \<open>ipc_env\<close>, as is the equality by which Python removes duplicates; sets are lists of
  their elements in iteration order.
\<close>

datatype ipcval =
    INone
  | IBool bool
  | IInt int
  | IFloat string
  | IStr string
  | IContractingDecimal string
  | IDecimal string
  | IDatetime string
  | IBytes string
  | IDecimalTuple "ipcval list"
  | IContractingFrozenSet "ipcval list"
  | IContractingSet "ipcval list"
  | IFrozenSet "ipcval list"
  | ISet "ipcval list"
  | ITuple "ipcval list"
  | IList "ipcval list"
  | IDict "(ipcval \<times> ipcval) list"

lemma size_ipc_elem [termination_simp]: "x \<in> set xs \<Longrightarrow> size x < Suc (size_list size (xs :: ipcval list))"
  by (induction xs) auto

lemma size_ipc_pair [termination_simp]:
  "(k, v) \<in> set kvs \<Longrightarrow> size k < Suc (size_list (size_prod size size) (kvs :: (ipcval \<times> ipcval) list))"
  "(k, v) \<in> set kvs \<Longrightarrow> size v < Suc (size_list (size_prod size size) kvs)"
  unfolding size_prod_simp by (induction kvs) auto

record ipc_env =
  ie_contracting_decimal_text :: "string \<Rightarrow> string"
  ie_contracting_decimal :: "pyval \<Rightarrow> string res"
  ie_decimal_text :: "string \<Rightarrow> string"
  ie_decimal :: "pyval \<Rightarrow> string res"
  ie_datetime_text :: "string \<Rightarrow> string"
  ie_strptime :: "string \<Rightarrow> string \<Rightarrow> string res"
  ie_contracting_set :: "ipcval list \<Rightarrow> ipcval list res"
  ie_contracting_frozenset :: "ipcval list \<Rightarrow> ipcval list res"
  ie_equal :: "ipcval \<Rightarrow> ipcval \<Rightarrow> bool"

definition TYPE_KEY :: string where
  "TYPE_KEY = ''__xian_ipc_type__''"

section \<open>Encoding\<close>

fun ipc_is_str :: "ipcval \<Rightarrow> bool" where
  "ipc_is_str (IStr _) = True"
| "ipc_is_str _ = False"

fun ipc_str_of :: "ipcval \<Rightarrow> string" where
  "ipc_str_of (IStr s) = s"
| "ipc_str_of _ = []"

definition tagged_scalar :: "string \<Rightarrow> string \<Rightarrow> pyval" where
  "tagged_scalar tag content = PDict [(PStr TYPE_KEY, PStr tag), (PStr ''value'', PStr content)]"

definition tagged_items :: "string \<Rightarrow> pyval list \<Rightarrow> pyval" where
  "tagged_items tag items = PDict [(PStr TYPE_KEY, PStr tag), (PStr ''items'', PList items)]"

text \<open>A mapping that JSON keeps as it is: string keys, and none that looks like a tag.\<close>

definition plain_mapping :: "(ipcval \<times> ipcval) list \<Rightarrow> bool" where
  "plain_mapping kvs \<longleftrightarrow> (\<forall>(k, v) \<in> set kvs. ipc_is_str k \<and> k \<noteq> IStr TYPE_KEY)"

fun encode_value :: "ipc_env \<Rightarrow> ipcval \<Rightarrow> pyval" where
  "encode_value E (IContractingDecimal x) = tagged_scalar ''contracting_decimal'' (ie_contracting_decimal_text E x)"
| "encode_value E (IDecimal x) = tagged_scalar ''decimal'' (ie_decimal_text E x)"
| "encode_value E (IDatetime x) = tagged_scalar ''datetime'' (ie_datetime_text E x)"
| "encode_value E (IBytes b) = tagged_scalar ''bytes'' (hexlify b)"
| "encode_value E (IDecimalTuple xs) = tagged_items ''decimal_tuple'' (map (encode_value E) xs)"
| "encode_value E (IContractingFrozenSet xs) = tagged_items ''contracting_frozenset'' (map (encode_value E) xs)"
| "encode_value E (IContractingSet xs) = tagged_items ''contracting_set'' (map (encode_value E) xs)"
| "encode_value E (IFrozenSet xs) = tagged_items ''frozenset'' (map (encode_value E) xs)"
| "encode_value E (ISet xs) = tagged_items ''set'' (map (encode_value E) xs)"
| "encode_value E (ITuple xs) = tagged_items ''tuple'' (map (encode_value E) xs)"
| "encode_value E (IList xs) = PList (map (encode_value E) xs)"
| "encode_value E (IDict kvs) =
     (if plain_mapping kvs then PDict (map (\<lambda>(k, v). (PStr (ipc_str_of k), encode_value E v)) kvs)
      else tagged_items ''dict'' (map (\<lambda>(k, v). PList [encode_value E k, encode_value E v]) kvs))"
| "encode_value E INone = PNone"
| "encode_value E (IBool b) = PBool b"
| "encode_value E (IInt i) = PInt i"
| "encode_value E (IFloat s) = PFloat s"
| "encode_value E (IStr s) = PStr s"

definition ipc_dumps :: "ipc_env \<Rightarrow> ipcval \<Rightarrow> string res" where
  "ipc_dumps E v = ascii_json_dumps (encode_value E v)"

section \<open>Decoding\<close>

text \<open>\<^verbatim>\<open>"." in value\<close> picks the format.\<close>

definition decode_datetime :: "ipc_env \<Rightarrow> pyval \<Rightarrow> string res" where
  "decode_datetime E v =
     (case v of
        PStr s \<Rightarrow> ie_strptime E (if CHR ''.'' \<in> set s then ''%Y-%m-%d %H:%M:%S.%f'' else ''%Y-%m-%d %H:%M:%S'') s
      | _ \<Rightarrow> Inl (TypeError ''strptime() argument must be str''))"

definition decode_scalar :: "ipc_env \<Rightarrow> string \<Rightarrow> (pyval \<Rightarrow> ipcval res) option" where
  "decode_scalar E tag =
     (if tag = ''contracting_decimal'' then Some (\<lambda>v. rbind (ie_contracting_decimal E v) (Inr \<circ> IContractingDecimal))
      else if tag = ''decimal'' then Some (\<lambda>v. rbind (ie_decimal E v) (Inr \<circ> IDecimal))
      else if tag = ''datetime'' then Some (\<lambda>v. rbind (decode_datetime E v) (Inr \<circ> IDatetime))
      else if tag = ''bytes''
      then Some (\<lambda>v. case v of PStr s \<Rightarrow> rbind (fromhex s) (Inr \<circ> IBytes)
                            | _ \<Rightarrow> Inl (TypeError ''fromhex() argument must be str''))
      else None)"

text \<open>\<^verbatim>\<open>hash(x)\<close> exists.\<close>

fun ipc_hashable :: "ipcval \<Rightarrow> bool" where
  "ipc_hashable (ITuple xs) = list_all ipc_hashable xs"
| "ipc_hashable (IDecimalTuple xs) = list_all ipc_hashable xs"
| "ipc_hashable (IList _) = False"
| "ipc_hashable (IDict _) = False"
| "ipc_hashable (ISet _) = False"
| "ipc_hashable (IContractingSet _) = False"
| "ipc_hashable _ = True"

text \<open>The first of equal elements stays, as in a Python set.\<close>

definition add_element :: "ipc_env \<Rightarrow> ipcval \<Rightarrow> ipcval list \<Rightarrow> ipcval list" where
  "add_element E x xs = (if list_ex (ie_equal E x) xs then xs else xs @ [x])"

definition make_set :: "ipc_env \<Rightarrow> ipcval list \<Rightarrow> ipcval list res" where
  "make_set E xs =
     (if list_all ipc_hashable xs then Inr (fold (add_element E) xs []) else Inl (TypeError ''unhashable type''))"

text \<open>The characters of a text.\<close>

lemma dropWhile_shorter [termination_simp]: "length (dropWhile P s) < Suc (length s)"
  by (simp add: le_imp_less_Suc length_dropWhile_le)

fun utf8_chars :: "string \<Rightarrow> string list" where
  "utf8_chars [] = []"
| "utf8_chars (c # s) = (c # takeWhile utf8_cont s) # utf8_chars (dropWhile utf8_cont s)"

text \<open>The elements an iterable gives, where \<^verbatim>\<open>dict(items)\<close> expects pairs.\<close>

fun ipc_elements :: "ipcval \<Rightarrow> ipcval list option" where
  "ipc_elements (IList xs) = Some xs"
| "ipc_elements (ITuple xs) = Some xs"
| "ipc_elements (IDecimalTuple xs) = Some xs"
| "ipc_elements (ISet xs) = Some xs"
| "ipc_elements (IFrozenSet xs) = Some xs"
| "ipc_elements (IContractingSet xs) = Some xs"
| "ipc_elements (IContractingFrozenSet xs) = Some xs"
| "ipc_elements (IDict kvs) = Some (map fst kvs)"
| "ipc_elements (IStr s) = Some (map IStr (utf8_chars s))"
| "ipc_elements (IBytes b) = Some (map (\<lambda>c. IInt (of_char c)) b)"
| "ipc_elements _ = None"

definition item_pair :: "ipcval \<Rightarrow> (ipcval \<times> ipcval) res" where
  "item_pair x =
     (case ipc_elements x of
        None \<Rightarrow> Inl (TypeError ''cannot convert dictionary update sequence element to a sequence'')
      | Some [k, v] \<Rightarrow> if ipc_hashable k then Inr (k, v) else Inl (TypeError ''unhashable type'')
      | Some _ \<Rightarrow> Inl (ValueError ''dictionary update sequence element has the wrong length''))"

definition add_pair :: "ipc_env \<Rightarrow> ipcval \<times> ipcval \<Rightarrow> (ipcval \<times> ipcval) list \<Rightarrow> (ipcval \<times> ipcval) list" where
  "add_pair E kv d =
     (if list_ex (\<lambda>p. ie_equal E (fst kv) (fst p)) d
      then map (\<lambda>p. if ie_equal E (fst kv) (fst p) then (fst p, snd kv) else p) d
      else d @ [kv])"

definition make_dict :: "ipc_env \<Rightarrow> ipcval list \<Rightarrow> ipcval res" where
  "make_dict E items = rbind (mapR item_pair items) (\<lambda>pairs. Inr (IDict (fold (add_pair E) pairs [])))"

definition decode_collection :: "ipc_env \<Rightarrow> string \<Rightarrow> (ipcval list \<Rightarrow> ipcval res) option" where
  "decode_collection E tag =
     (if tag = ''decimal_tuple''
      then Some (\<lambda>xs. if length xs = 3 then Inr (IDecimalTuple xs) else Inl (TypeError ''DecimalTuple takes 3 arguments''))
      else if tag = ''contracting_frozenset'' then Some (\<lambda>xs. rbind (ie_contracting_frozenset E xs) (Inr \<circ> IContractingFrozenSet))
      else if tag = ''contracting_set'' then Some (\<lambda>xs. rbind (ie_contracting_set E xs) (Inr \<circ> IContractingSet))
      else if tag = ''frozenset'' then Some (\<lambda>xs. rbind (make_set E xs) (Inr \<circ> IFrozenSet))
      else if tag = ''set'' then Some (\<lambda>xs. rbind (make_set E xs) (Inr \<circ> ISet))
      else if tag = ''tuple'' then Some (Inr \<circ> ITuple)
      else if tag = ''dict'' then Some (make_dict E)
      else None)"

text \<open>\<^verbatim>\<open>set(value) == {_TYPE_KEY, field}\<close>.\<close>

definition has_fields :: "(pyval \<times> pyval) list \<Rightarrow> string \<Rightarrow> bool" where
  "has_fields kvs field \<longleftrightarrow> set (map fst kvs) = {PStr TYPE_KEY, PStr field}"

definition tagged_as :: "(pyval \<times> pyval) list \<Rightarrow> string \<Rightarrow> string option" where
  "tagged_as kvs field =
     (case dget (PDict kvs) TYPE_KEY of
        Some (PStr tag) \<Rightarrow> if has_fields kvs field then Some tag else None
      | _ \<Rightarrow> None)"

lemma size_dget: "dget (PDict kvs) k = Some (PList xs) \<Longrightarrow> x \<in> set xs \<Longrightarrow> size x < size (PDict kvs)"
  using size_dict_value' [of "PStr k" "PList xs" kvs] size_list_elem [of x xs] by (auto dest!: map_of_SomeD)

lemma size_item: "x \<in> set xs \<Longrightarrow> size x < size (PList xs)" "(k, v) \<in> set kvs \<Longrightarrow> size v < size (PDict kvs)"
  by (simp_all add: size_list_elem size_dict_value')

text \<open>
  The decoder.  In a JSON tree the keys of an object are strings; what \<^verbatim>\<open>value["items"]\<close> iterates
  over is a list, the keys of an object or the characters of a text.
\<close>

function decode_value :: "ipc_env \<Rightarrow> pyval \<Rightarrow> ipcval res" where
  "decode_value E v =
     (case v of
        PList xs \<Rightarrow> rbind (mapR (decode_value E) xs) (Inr \<circ> IList)
      | PDict kvs \<Rightarrow>
          (case Option.bind (tagged_as kvs ''value'') (decode_scalar E) of
             Some decoder \<Rightarrow> decoder (dget_or v ''value'' PNone)
           | None \<Rightarrow>
               (case Option.bind (tagged_as kvs ''items'') (decode_collection E) of
                  Some decoder \<Rightarrow>
                    rbind (case dget v ''items'' of
                             Some (PList xs) \<Rightarrow> mapR (decode_value E) xs
                           | Some (PDict ds) \<Rightarrow> Inr (map (\<lambda>d. IStr (str_of (fst d))) ds)
                           | Some (PStr s) \<Rightarrow> Inr (map IStr (utf8_chars s))
                           | _ \<Rightarrow> Inl (TypeError ''object is not iterable'')) decoder
                | None \<Rightarrow>
                    rbind (mapR (\<lambda>kv. rbind (decode_value E (snd kv)) (\<lambda>x. Inr (IStr (str_of (fst kv)), x))) kvs)
                      (Inr \<circ> IDict)))
      | PBool b \<Rightarrow> Inr (IBool b)
      | PInt i \<Rightarrow> Inr (IInt i)
      | PFloat s \<Rightarrow> Inr (IFloat s)
      | PStr s \<Rightarrow> Inr (IStr s)
      | _ \<Rightarrow> Inr INone)"
  by pat_completeness auto

termination
  by (relation "measure (size \<circ> snd)") (auto dest: size_dget size_item simp del: dget.simps pyval.size)

declare decode_value.simps [simp del]

lemmas decode_simps [simp] = decode_value.simps [of E "PList xs" for E xs] decode_value.simps [of E "PDict kvs" for E kvs]
  decode_value.simps [of E PNone for E] decode_value.simps [of E "PBool b" for E b] decode_value.simps [of E "PInt i" for E i]
  decode_value.simps [of E "PFloat s" for E s] decode_value.simps [of E "PStr s" for E s]

definition ipc_loads :: "ipc_env \<Rightarrow> (string \<Rightarrow> pyval res) \<Rightarrow> string \<Rightarrow> ipcval res" where
  "ipc_loads E json_loads content = rbind (json_loads content) (decode_value E)"

section \<open>Round trip\<close>

text \<open>A pair of functions of which the second reads what the first has written.\<close>

locale text_codec =
  fixes encode :: "'a \<Rightarrow> string" and decode :: "string \<Rightarrow> 'a res"
  assumes decode_encode: "decode (encode x) = Inr x"
begin

lemma encode_inj: "encode x = encode y \<longleftrightarrow> x = y"
  using decode_encode by (metis Inr_inject)

lemma decode_is_ok: "is_ok (decode (encode x))"
  by (simp add: decode_encode)

end

interpretation hex: text_codec hexlify fromhex
  by unfold_locales (rule fromhex_hexlify)

text \<open>What the encoding relies on: the text of decimals and times can be read back.\<close>

definition ipc_laws :: "ipc_env \<Rightarrow> bool" where
  "ipc_laws E \<longleftrightarrow>
     text_codec (ie_contracting_decimal_text E) (\<lambda>s. ie_contracting_decimal E (PStr s)) \<and>
     text_codec (ie_decimal_text E) (\<lambda>s. ie_decimal E (PStr s)) \<and>
     text_codec (ie_datetime_text E) (\<lambda>s. decode_datetime E (PStr s))"

lemma ipc_lawsD:
  assumes "ipc_laws E"
  shows "ie_contracting_decimal E (PStr (ie_contracting_decimal_text E x)) = Inr x"
    and "ie_decimal E (PStr (ie_decimal_text E x)) = Inr x"
    and "decode_datetime E (PStr (ie_datetime_text E x)) = Inr x"
  using assms unfolding ipc_laws_def by (blast dest: text_codec.decode_encode)+

definition unequal :: "ipc_env \<Rightarrow> ipcval list \<Rightarrow> bool" where
  "unequal E xs \<longleftrightarrow> sorted_wrt (\<lambda>x y. \<not> ie_equal E y x) xs"

text \<open>The values there are: sets and dicts have hashable, different elements and keys.\<close>

fun ipc_wf :: "ipc_env \<Rightarrow> ipcval \<Rightarrow> bool" where
  "ipc_wf E (IDecimalTuple xs) = (length xs = 3 \<and> list_all (ipc_wf E) xs)"
| "ipc_wf E (IContractingFrozenSet xs) = (ie_contracting_frozenset E xs = Inr xs \<and> list_all (ipc_wf E) xs)"
| "ipc_wf E (IContractingSet xs) = (ie_contracting_set E xs = Inr xs \<and> list_all (ipc_wf E) xs)"
| "ipc_wf E (IFrozenSet xs) = (list_all ipc_hashable xs \<and> unequal E xs \<and> list_all (ipc_wf E) xs)"
| "ipc_wf E (ISet xs) = (list_all ipc_hashable xs \<and> unequal E xs \<and> list_all (ipc_wf E) xs)"
| "ipc_wf E (ITuple xs) = list_all (ipc_wf E) xs"
| "ipc_wf E (IList xs) = list_all (ipc_wf E) xs"
| "ipc_wf E (IDict kvs) =
     (list_all (\<lambda>(k, v). ipc_hashable k \<and> ipc_wf E k \<and> ipc_wf E v) kvs \<and> unequal E (map fst kvs))"
| "ipc_wf E _ = True"

lemma add_element_fold:
  "unequal E (acc @ xs) \<Longrightarrow> fold (add_element E) xs acc = acc @ xs"
  by (induction xs arbitrary: acc)
    (auto simp: unequal_def add_element_def sorted_wrt_append list_ex_iff)

lemma add_pair_fold:
  "unequal E (map fst acc @ map fst kvs) \<Longrightarrow> fold (add_pair E) kvs acc = acc @ kvs"
  by (induction kvs arbitrary: acc)
    (auto simp: unequal_def add_pair_def sorted_wrt_append list_ex_iff)

lemma make_set_wf: "list_all ipc_hashable xs \<Longrightarrow> unequal E xs \<Longrightarrow> make_set E xs = Inr xs"
  by (simp add: make_set_def add_element_fold)

lemma make_dict_wf:
  assumes "list_all (\<lambda>(k, v). ipc_hashable k) kvs" "unequal E (map fst kvs)"
  shows "make_dict E (map (\<lambda>(k, v). IList [k, v]) kvs) = Inr (IDict kvs)"
proof -
  have "mapR item_pair (map (\<lambda>(k, v). IList [k, v]) kvs) = Inr kvs"
    using assms(1) by (induction kvs) (auto simp: item_pair_def)
  with assms(2) show ?thesis by (simp add: make_dict_def add_pair_fold)
qed

lemma tagged_scalar_decode [simp]:
  "decode_scalar E tag = Some f \<Longrightarrow> decode_value E (tagged_scalar tag t) = f (PStr t)"
  by (simp add: tagged_scalar_def tagged_as_def has_fields_def dget_or_def insert_commute TYPE_KEY_def)

lemma tagged_items_decode [simp]:
  "decode_collection E tag = Some f \<Longrightarrow> decode_value E (tagged_items tag xs) = rbind (mapR (decode_value E) xs) f"
  by (simp add: tagged_items_def tagged_as_def has_fields_def TYPE_KEY_def doubleton_eq_iff insert_commute)

lemma mapR_inverse: "(\<And>x. x \<in> set xs \<Longrightarrow> f (g x) = Inr (h x)) \<Longrightarrow> mapR f (map g xs) = Inr (map h xs)"
  by (induction xs) auto

lemma ipc_str_of_eq: "ipc_is_str k \<Longrightarrow> IStr (ipc_str_of k) = k"
  by (cases k) simp_all

lemma plain_not_tagged: "plain_mapping kvs \<Longrightarrow> map_of (map (\<lambda>(k, v). (PStr (ipc_str_of k), h v)) kvs) (PStr TYPE_KEY) = None"
  by (induction kvs) (auto simp: plain_mapping_def elim: ipc_is_str.elims)

lemma decode_list: "(\<And>x. x \<in> set xs \<Longrightarrow> decode_value E (encode_value E x) = Inr x) \<Longrightarrow>
  mapR (decode_value E) (map (encode_value E) xs) = Inr xs"
  using mapR_inverse [of xs "decode_value E" "encode_value E" id] by simp

lemma decode_dict:
  assumes ok: "\<And>k v. (k, v) \<in> set kvs \<Longrightarrow> decode_value E (encode_value E k) = Inr k \<and> decode_value E (encode_value E v) = Inr v"
    and "list_all (\<lambda>(k, v). ipc_hashable k) kvs" "unequal E (map fst kvs)"
  shows "decode_value E (encode_value E (IDict kvs)) = Inr (IDict kvs)"
proof (cases "plain_mapping kvs")
  case True
  have "mapR (\<lambda>kv. rbind (decode_value E (snd kv)) (\<lambda>x. Inr (IStr (str_of (fst kv)), x)))
      (map (\<lambda>(k, v). (PStr (ipc_str_of k), encode_value E v)) kvs) = Inr (map id kvs)"
  proof (rule mapR_inverse)
    fix x assume x: "x \<in> set kvs"
    obtain k v where "x = (k, v)" by (cases x)
    with x True ok show "(case case x of (k, v) \<Rightarrow> (PStr (ipc_str_of k), encode_value E v) of
        kv \<Rightarrow> rbind (decode_value E (snd kv)) (\<lambda>y. Inr (IStr (str_of (fst kv)), y))) = Inr (id x)"
      by (auto simp: plain_mapping_def ipc_str_of_eq)
  qed
  with True plain_not_tagged [OF True, of "encode_value E"] show ?thesis by (simp add: tagged_as_def)
next
  case False
  have "mapR (decode_value E) (map (\<lambda>(k, v). PList [encode_value E k, encode_value E v]) kvs) = Inr (map (\<lambda>(k, v). IList [k, v]) kvs)"
    by (rule mapR_inverse) (auto simp: ok)
  with False make_dict_wf [OF assms(2,3)] show ?thesis by (simp add: decode_collection_def)
qed

lemma ipc_decode_encode: "ipc_laws E \<Longrightarrow> ipc_wf E v \<Longrightarrow> decode_value E (encode_value E v) = Inr v"
proof (induction E v rule: encode_value.induct)
  case (12 E kvs)
  have wf: "ipc_wf E k \<and> ipc_wf E v" if "(k, v) \<in> set kvs" for k v
    using 12 that by (auto simp: list_all_iff)
  have "decode_value E (encode_value E v) = Inr v" if "(k, v) \<in> set kvs" for k v
    using 12 wf [OF that] that by blast
  moreover have "decode_value E (encode_value E k) = Inr k" if "(k, v) \<in> set kvs" for k v
  proof (cases "plain_mapping kvs")
    case True
    with that have "ipc_is_str k" by (auto simp: plain_mapping_def)
    then obtain s where "k = IStr s" by (cases k) simp_all
    then show ?thesis by simp
  next
    case False
    with 12 wf [OF that] that show ?thesis by blast
  qed
  ultimately have "decode_value E (encode_value E k) = Inr k \<and> decode_value E (encode_value E v) = Inr v" if "(k, v) \<in> set kvs" for k v
    using that by blast
  with 12 show ?case by (intro decode_dict) (auto simp: list_all_iff)
qed (simp_all add: decode_scalar_def decode_collection_def ipc_lawsD decode_list list_all_iff make_set_wf)

lemma encode_plain: "json_plain (encode_value E v)"
proof (induction E v rule: encode_value.induct)
  case (12 E kvs)
  then show ?case by (auto simp: tagged_items_def list_all_iff)
qed (auto simp: tagged_scalar_def tagged_items_def list_all_iff)

section \<open>Properties\<close>

text \<open>Nothing is lost between the node and a simulation worker: every value has a JSON text, and
  reading that text back gives the value with its types, for values of any nesting, mappings that
  look like a type tag and keys that JSON does not have included.\<close>

theorem ipc_roundtrip:
  assumes "ipc_laws E" and "ipc_wf E v" and "\<And>t. ascii_json_dumps (encode_value E v) = Inr t \<Longrightarrow> json_loads t = Inr (encode_value E v)"
  shows "\<exists>t. ipc_dumps E v = Inr t \<and> ipc_loads E json_loads t = Inr v"
proof -
  obtain t where "ascii_json_dumps (encode_value E v) = Inr t" using dumps_plain [OF encode_plain] unfolding is_ok_iff by blast
  with assms(3) ipc_decode_encode [OF assms(1,2)] show ?thesis by (auto simp: ipc_dumps_def ipc_loads_def)
qed

definition sample_ipc :: ipc_env where
  "sample_ipc =
     \<lparr>ie_contracting_decimal_text = (\<lambda>x. x), ie_contracting_decimal = (\<lambda>v. Inr (str_of v)), ie_decimal_text = (\<lambda>x. x),
      ie_decimal = (\<lambda>v. Inr (str_of v)), ie_datetime_text = (\<lambda>x. x), ie_strptime = (\<lambda>_ s. Inr s), ie_contracting_set = Inr,
      ie_contracting_frozenset = Inr, ie_equal = (=)\<rparr>"

text \<open>A dict that looks like a tag and has a tuple as a key.\<close>

definition sample_ipc_value :: ipcval where
  "sample_ipc_value =
     IDict [(IStr TYPE_KEY, IStr ''set''), (ITuple [IInt 1, IBytes ''a''], ISet [IInt 2, IContractingDecimal ''0.5''])]"

theorem ipc_roundtrip_witness:
  "\<exists>t loads. ipc_dumps sample_ipc sample_ipc_value = Inr t \<and> ipc_loads sample_ipc loads t = Inr sample_ipc_value"
proof -
  have "ipc_laws sample_ipc" by (simp add: ipc_laws_def text_codec_def sample_ipc_def decode_datetime_def)
  moreover have "ipc_wf sample_ipc sample_ipc_value" by code_simp
  ultimately show ?thesis
    using ipc_roundtrip [of sample_ipc sample_ipc_value "\<lambda>_. Inr (encode_value sample_ipc sample_ipc_value)"] by blast
qed

end
