(* ===== verification/Simulator.thy ===== *)
theory Simulator
  imports Tx_Processor State_Patches Simulator_Ipc
begin

text \<open>
  Read-only simulation of transactions: the simulator and the service that runs it in worker
  processes (\<^verbatim>\<open>src/src/xian/simulator.py\<close>, \<^verbatim>\<open>src/src/xian/simulator_worker.py\<close>).  The
  virtual machine, the conversion of arguments and the wire encoding are those of the transaction
  processor (\<^typ>\<open>'d proc_env\<close>).  A task and its result cross the process boundary by the encoding of
  \<^verbatim>\<open>simulator_ipc\<close>; the operating system decides whether a worker answers in time, exits with an
  error or cannot be started, which is \<open>worker_run\<close>.  Requests are served concurrently: a request
  is admitted by one step and ended by another, and any other requests may take steps in between.
\<close>

section \<open>Results\<close>

text \<open>\<^verbatim>\<open>json.dumps(v, allow_nan=False)\<close> refuses floats that are no numbers.\<close>

fun has_nan :: "pyval \<Rightarrow> bool" where
  "has_nan (PFloat s) = (s \<in> {''nan'', ''inf'', ''-inf''})"
| "has_nan (PList xs) = list_ex has_nan xs"
| "has_nan (PTuple xs) = list_ex has_nan xs"
| "has_nan (PDict kvs) = list_ex (\<lambda>kv. has_nan (snd kv)) kvs"
| "has_nan _ = False"

definition simulation_result :: "'d proc_env \<Rightarrow> pyval \<Rightarrow> pyval res" where
  "simulation_result E v =
     (case rbind (normalize_for_abci_json (vm_json (px_vm E)) v) (\<lambda>normalized.
           rbind (ascii_json_dumps normalized) (\<lambda>_.
           if has_nan normalized then Inl (ValueError ''Out of range float values are not JSON compliant'')
           else Inr normalized)) of
        Inr normalized \<Rightarrow> Inr normalized
      | Inl (AssertionError _) \<Rightarrow> Inr (px_safe_repr E v)
      | Inl (TypeError _) \<Rightarrow> Inr (px_safe_repr E v)
      | Inl (ValueError _) \<Rightarrow> Inr (px_safe_repr E v)
      | Inl e \<Rightarrow> Inl e)"

definition simulation_error_result :: "pyval \<Rightarrow> string \<Rightarrow> pyval" where
  "simulation_error_result payload message =
     PDict [(PStr ''payload'', payload), (PStr ''status'', PInt 1), (PStr ''state'', PList []), (PStr ''chi_used'', PInt 0),
            (PStr ''result'', PStr message)]"

definition simulation_error :: "pyval \<Rightarrow> exc \<Rightarrow> pyval" where
  "simulation_error payload e = simulation_error_result payload (''Simulation error: '' @ exc_text e)"

text \<open>\<^verbatim>\<open>max(int(max_chi or 1_000_000), 1)\<close>.\<close>

definition simulation_budget :: "int option \<Rightarrow> int" where
  "simulation_budget max_chi = max (case max_chi of Some n \<Rightarrow> if n = 0 then 1000000 else n | None \<Rightarrow> 1000000) 1"

definition estimated_transaction_size :: "'d proc_env \<Rightarrow> pyval \<Rightarrow> pyval \<Rightarrow> int option \<Rightarrow> nat res" where
  "estimated_transaction_size E payload chain_id max_chi =
     (case payload of
        PDict kvs \<Rightarrow>
          canonical_transaction_size_bytes (px_encode_wire E) (PDict
            [(PStr ''metadata'', PDict [(PStr ''signature'', PStr (replicate 128 CHR ''0''))]),
             (PStr ''payload'', PDict (dict_update kvs
                [(PStr ''chain_id'', py_or chain_id (PStr [])), (PStr ''nonce'', PInt 0),
                 (PStr ''chi_supplied'', PInt (simulation_budget max_chi))]))])
      | _ \<Rightarrow> Inl (TypeError ''argument after ** must be a mapping''))"

section \<open>The simulator\<close>

record simulator =
  sl_chain_id :: pyval
  sl_charge_fees :: bool

definition normalize_payload :: "pyval \<Rightarrow> pyval res" where
  "normalize_payload payload =
     (if \<not> is_dict payload then Inl (ValueError ''simulation payload must be a JSON object'')
      else let normalized = dget_or payload ''payload'' payload in
      if \<not> is_dict normalized then Inl (ValueError ''simulation payload must resolve to a JSON object'')
      else let kwargs = dget_or normalized ''kwargs'' (PDict []); kwargs = (if kwargs = PNone then PDict [] else kwargs) in
      if \<not> is_dict kwargs then Inl (ValueError ''simulation payload kwargs must be a JSON object'')
      else let field = (\<lambda>k. dget_or normalized k PNone) in
      rbind (mapR (\<lambda>k. guard (is_str (field k) \<and> field k \<noteq> PStr []) (ValueError (''simulation payload missing '' @ k)))
               [''sender'', ''contract'', ''function'']) (\<lambda>_.
      Inr (PDict [(PStr ''sender'', field ''sender''), (PStr ''contract'', field ''contract''),
                  (PStr ''function'', field ''function''), (PStr ''kwargs'', kwargs)])))"

definition payload_hash :: "'d proc_env \<Rightarrow> pyval \<Rightarrow> string res" where
  "payload_hash E payload = rbind (canonical_json_sorted payload) (\<lambda>t. Inr (px_sha3_256_hex E t))"

text \<open>\<^verbatim>\<open>int(x or 0)\<close>.\<close>

definition int_or_zero :: "text_env \<Rightarrow> pyval \<Rightarrow> int res" where
  "int_or_zero T v = py_int (te_int_of_text T) (py_or v (PInt 0))"

definition make_environment ::
    "'d proc_env \<Rightarrow> simulator \<Rightarrow> bool \<Rightarrow> mirror_file \<Rightarrow> pyval \<Rightarrow> pyval \<Rightarrow> (string, pyval) dict res \<times> mirror_file" where
  "make_environment E S io_ok m payload block_meta =
     (let T = px_text E; height = dget_or block_meta ''height'' (PInt 1);
          (block_nanos, m) = (case dget_or block_meta ''nanos'' PNone of
               PNone \<Rightarrow> (case get_latest_block_nanos T io_ok m of Inr (n, m) \<Rightarrow> (Inr (PInt n), m) | Inl e \<Rightarrow> (Inl e, m))
             | v \<Rightarrow> (Inr v, m))
      in (rbind block_nanos (\<lambda>block_nanos.
      rbind (payload_hash E payload) (\<lambda>payload_hash.
      let chain_id = py_or (dget_or block_meta ''chain_id'' PNone) (sl_chain_id S) in
      rbind (int_or_zero T block_nanos) (\<lambda>nanos.
      let block_hash = (case dget_or block_meta ''hash'' PNone of
                          PNone \<Rightarrow> PStr (px_sha3_256_hex E (''simulate:block:'' @ py_str T (py_or chain_id (PStr [])) @ '':''
                                     @ py_str T height @ '':'' @ str_int nanos))
                        | v \<Rightarrow> v) in
      Inr [(''block_hash'', block_hash), (''block_num'', height),
           (''__input_hash'', PStr (px_sha3_256_hex E (str_int nanos @ '':'' @ payload_hash))),
           (''__xian_execution_mode__'', PStr VM_EXECUTION_MODE),
           (''now'', px_from_datetime E (nanoseconds_to_utc_datetime nanos)), (''chain_id'', chain_id)]))), m))"

definition writes_to_py :: "(string, pyval) dict \<Rightarrow> pyval" where
  "writes_to_py ws = PList (map (\<lambda>(k, v). PDict [(PStr ''key'', PStr k), (PStr ''value'', v)]) ws)"

definition simulation_report :: "'d proc_env \<Rightarrow> pyval \<Rightarrow> vm_tx_result \<Rightarrow> pyval res" where
  "simulation_report E payload outcome =
     rbind (simulation_result E (vo_result (vt_output outcome))) (\<lambda>result.
     rbind (format_dictionary (PDict
              [(PStr ''payload'', payload), (PStr ''status'', PInt (vo_status (vt_output outcome))),
               (PStr ''state'', writes_to_py (vt_writes outcome)), (PStr ''chi_used'', PInt (vt_chi_used outcome)),
               (PStr ''result'', result)])) (\<lambda>formatted.
     Inr (stringify_decimals (vm_json (px_vm E)) formatted)))"

definition execute_vm_simulation ::
    "'d proc_env \<Rightarrow> simulator \<Rightarrow> pyval \<Rightarrow> pyval \<Rightarrow> (string, pyval) dict \<Rightarrow> int option \<Rightarrow> int \<Rightarrow> 'd \<Rightarrow> pyval res \<times> 'd" where
  "execute_vm_simulation E S payload kwargs environment max_chi chi_cost d =
     (case rbind (dindex payload ''sender'') (\<lambda>sender.
           rbind (rbind (dindex payload ''contract'') text_value) (\<lambda>contract.
           rbind (rbind (dindex payload ''function'') text_value) (\<lambda>func.
           rbind (estimated_transaction_size E payload
                    (case map_of environment ''chain_id'' of Some c \<Rightarrow> c | None \<Rightarrow> PNone) max_chi) (\<lambda>size_bytes.
           Inr \<lparr>rq_sender = sender, rq_contract = contract, rq_function = func, rq_kwargs = kwargs,
                rq_environment = environment, rq_meter = True, rq_chi_budget = simulation_budget max_chi,
                rq_size_bytes = int size_bytes\<rparr>)))) of
        Inl e \<Rightarrow> (Inl e, d)
      | Inr rq \<Rightarrow>
          (case execute_vm_transaction (px_vm E) (px_driver E) d rq (PInt chi_cost) False (sl_charge_fees S) of
             (Inl e, d) \<Rightarrow> (Inl e, d)
           | (Inr outcome, d) \<Rightarrow> (simulation_report E payload outcome, d)))"

definition simulation_chi_cost :: "'d proc_env \<Rightarrow> 'd \<Rightarrow> int" where
  "simulation_chi_cost E d =
     (case rbind (d_get_var (px_driver E) d ''chi_cost'' ''S'' [PStr ''value'']) (py_int (te_int_of_text (px_text E))) of
        Inr c \<Rightarrow> c
      | Inl _ \<Rightarrow> 20)"

text \<open>The body of the \<^verbatim>\<open>try\<close> whose \<^verbatim>\<open>finally\<close> restores the driver.\<close>

definition run_simulation ::
    "'d proc_env \<Rightarrow> simulator \<Rightarrow> bool \<Rightarrow> mirror_file \<Rightarrow> pyval \<Rightarrow> pyval \<Rightarrow> int option \<Rightarrow> int \<Rightarrow> 'd proc
      \<Rightarrow> pyval res \<times> 'd proc \<times> mirror_file" where
  "run_simulation E S io_ok m payload block_meta max_chi chi_cost st =
     (case prepare_step E (PDict [(PStr ''payload'', payload)]) st of
        (Inl e, st) \<Rightarrow> (Inl e, st, m)
      | (Inr contract, st) \<Rightarrow>
          (case rbind (px_convert_dict E (dget_or payload ''kwargs'' (PDict []))) (\<lambda>kwargs.
                rbind (rbind (dindex payload ''function'') text_value) (\<lambda>func. Inr (kwargs, func))) of
             Inl e \<Rightarrow> (Inl e, st, m)
           | Inr (kwargs, func) \<Rightarrow>
               if vm_requires_contract_source contract func kwargs
               then (Inr (simulation_error_result payload (vm_contract_source_error contract func)), st, m)
               else (case make_environment E S io_ok m payload block_meta of
                       (Inl e, m) \<Rightarrow> (Inl e, st, m)
                     | (Inr environment, m) \<Rightarrow>
                         (case execute_vm_simulation E S payload kwargs environment max_chi chi_cost (ps_driver st) of
                            (r, d) \<Rightarrow> (r, st\<lparr>ps_driver := d\<rparr>, m)))))"

definition execute_simulation ::
    "'d proc_env \<Rightarrow> simulator \<Rightarrow> bool \<Rightarrow> mirror_file \<Rightarrow> pyval \<Rightarrow> pyval \<Rightarrow> int option \<Rightarrow> 'd proc
      \<Rightarrow> pyval res \<times> 'd proc \<times> mirror_file" where
  "execute_simulation E S io_ok m payload block_meta max_chi st =
     (let state_snapshot = d_snapshot_state (px_driver E) (ps_driver st);
          chi_cost = simulation_chi_cost E (ps_driver st);
          (r, st, m) = run_simulation E S io_ok m payload block_meta max_chi chi_cost st
      in (r, st\<lparr>ps_driver := d_restore_state (px_driver E) state_snapshot (ps_driver st)\<rparr>, m))"

definition simulate ::
    "'d proc_env \<Rightarrow> simulator \<Rightarrow> bool \<Rightarrow> mirror_file \<Rightarrow> pyval \<Rightarrow> pyval \<Rightarrow> int option \<Rightarrow> 'd proc
      \<Rightarrow> pyval res \<times> 'd proc \<times> mirror_file" where
  "simulate E S io_ok m payload block_meta max_chi st =
     (case normalize_payload payload of
        Inl e \<Rightarrow> (Inl e, st, m)
      | Inr normalized \<Rightarrow>
          (case execute_simulation E S io_ok m normalized block_meta max_chi st of
             (Inl e, st, m) \<Rightarrow> (Inr (simulation_error normalized e), st, m)
           | (Inr answer, st, m) \<Rightarrow> (Inr answer, st, m)))"

definition decode_payload :: "(string \<Rightarrow> pyval res) \<Rightarrow> string \<Rightarrow> pyval res" where
  "decode_payload loads raw_payload_hex =
     rbind (fromhex raw_payload_hex) (\<lambda>raw. rbind (utf8_decode raw) loads)"

definition simulate_encoded_transaction ::
    "'d proc_env \<Rightarrow> simulator \<Rightarrow> bool \<Rightarrow> mirror_file \<Rightarrow> string \<Rightarrow> pyval \<Rightarrow> int option \<Rightarrow> 'd proc
      \<Rightarrow> pyval res \<times> 'd proc \<times> mirror_file" where
  "simulate_encoded_transaction E S io_ok m raw_payload_hex block_meta max_chi st =
     (case decode_payload (vm_loads (px_vm E)) raw_payload_hex of
        Inl e \<Rightarrow> (Inl e, st, m)
      | Inr decoded \<Rightarrow> simulate E S io_ok m decoded block_meta max_chi st)"

section \<open>The worker\<close>

record 'd sim_task =
  tk_payload :: pyval
  tk_block_meta :: pyval
  tk_chain_id :: pyval
  tk_max_chi :: int
  tk_charge_fees :: bool
  tk_driver_state :: 'd

text \<open>
  The worker opens the storage of the node, takes over its pending state and simulates; it leaves
  with an exception, or with the answer.  Its cache of prepared contracts is empty.  When the node
  has no block in progress it reads the time of the latest block from the mirror file.
\<close>

definition worker_main :: "'d proc_env \<Rightarrow> bool \<Rightarrow> mirror_file \<Rightarrow> 'd \<Rightarrow> 'd sim_task \<Rightarrow> pyval res \<times> 'd proc \<times> mirror_file" where
  "worker_main E io_ok m storage task =
     simulate E \<lparr>sl_chain_id = tk_chain_id task, sl_charge_fees = tk_charge_fees task\<rparr> io_ok m (tk_payload task)
       (tk_block_meta task) (Some (tk_max_chi task))
       \<lparr>ps_driver = d_restore_state (px_driver E) (tk_driver_state task) storage, ps_chi_cost = None, ps_prepared = []\<rparr>"

section \<open>The service\<close>

record sim_service =
  sv_enabled :: bool
  sv_max_concurrency :: int
  sv_timeout_ms :: int
  sv_max_chi :: int
  sv_charge_fees :: bool
  sv_chain_id :: pyval
  sv_active_requests :: int

definition new_service :: "pyval \<Rightarrow> bool \<Rightarrow> int \<Rightarrow> int \<Rightarrow> int \<Rightarrow> bool \<Rightarrow> sim_service" where
  "new_service chain_id enabled max_concurrency timeout_ms max_chi charge =
     \<lparr>sv_enabled = enabled, sv_max_concurrency = max max_concurrency 1, sv_timeout_ms = max timeout_ms 1,
      sv_max_chi = max max_chi 1, sv_charge_fees = charge, sv_chain_id = chain_id, sv_active_requests = 0\<rparr>"

text \<open>The first half of a request, up to the start of its worker.\<close>

datatype 'd admission = Answered pyval | Admitted pyval "'d sim_task"

definition admit_simulation ::
    "(string \<Rightarrow> pyval res) \<Rightarrow> pyval \<Rightarrow> 'd \<Rightarrow> string \<Rightarrow> sim_service \<Rightarrow> 'd admission \<times> sim_service" where
  "admit_simulation loads block_meta driver_state raw_payload_hex sv =
     (case rbind (decode_payload loads raw_payload_hex) normalize_payload of
        Inl e \<Rightarrow> (Answered (simulation_error PNone e), sv)
      | Inr payload \<Rightarrow>
          if \<not> sv_enabled sv
          then (Answered (simulation_error_result payload ''Simulation is disabled on this node''), sv)
          else if sv_max_concurrency sv \<le> sv_active_requests sv
          then (Answered (simulation_error_result payload ''Simulation capacity exceeded on this node; retry later''), sv)
          else (Admitted payload
                  \<lparr>tk_payload = payload, tk_block_meta = py_or block_meta (PDict []), tk_chain_id = sv_chain_id sv,
                   tk_max_chi = sv_max_chi sv, tk_charge_fees = sv_charge_fees sv, tk_driver_state = driver_state\<rparr>,
                sv\<lparr>sv_active_requests := sv_active_requests sv + 1\<rparr>))"

text \<open>What becomes of a worker: its exit code, the text on its error channel and the value read from its answer.\<close>

datatype worker_run = TimedOut | NotStarted exc | Exited int string "pyval res"

definition wait_for_task_result :: "int \<Rightarrow> string \<Rightarrow> pyval res \<Rightarrow> pyval res" where
  "wait_for_task_result returncode stderr stdout =
     (let detail = py_strip stderr in
      if returncode \<noteq> 0
      then Inl (RuntimeError (if detail = [] then ''Simulation worker exited with code '' @ str_int returncode else detail))
      else case rbind stdout (\<lambda>result.
                  if is_dict result then Inr result
                  else Inl (ValueError ''simulation worker response must be a JSON object'')) of
             Inr result \<Rightarrow> Inr result
           | Inl e \<Rightarrow> Inl (RuntimeError ((if detail = [] then ''Simulation worker returned invalid data'' else detail)
                              @ '': '' @ exc_text e)))"

definition run_task :: "sim_service \<Rightarrow> pyval \<Rightarrow> worker_run \<Rightarrow> pyval" where
  "run_task sv payload run =
     (case run of
        TimedOut \<Rightarrow> simulation_error_result payload (''Simulation timed out on this node after '' @ str_int (sv_timeout_ms sv) @ '' ms'')
      | NotStarted e \<Rightarrow> simulation_error payload e
      | Exited returncode stderr stdout \<Rightarrow>
          (case wait_for_task_result returncode stderr stdout of
             Inl e \<Rightarrow> simulation_error payload e
           | Inr result \<Rightarrow> result))"

definition end_simulation :: "pyval \<Rightarrow> worker_run \<Rightarrow> sim_service \<Rightarrow> pyval \<times> sim_service" where
  "end_simulation payload run sv =
     (run_task sv payload run, sv\<lparr>sv_active_requests := sv_active_requests sv - 1\<rparr>)"

section \<open>Concurrent requests\<close>

text \<open>
  The service and its running workers, each with the number of its request; \<open>snapshots\<close> gives the
  driver state the node has when a request arrives.
\<close>

inductive service_reachable :: "(nat \<Rightarrow> 'd) \<Rightarrow> sim_service \<Rightarrow> sim_service \<Rightarrow> (nat \<times> pyval) list \<Rightarrow> bool"
  for snapshots :: "nat \<Rightarrow> 'd" and sv0 :: sim_service where
  initial: "sv_active_requests sv0 = 0 \<Longrightarrow> service_reachable snapshots sv0 sv0 []"
| answer: "service_reachable snapshots sv0 sv running \<Longrightarrow> admit_simulation loads meta (snapshots request) raw sv = (Answered a, sv') \<Longrightarrow>
    service_reachable snapshots sv0 sv' running"
| admit: "service_reachable snapshots sv0 sv running \<Longrightarrow> admit_simulation loads meta (snapshots request) raw sv = (Admitted payload task, sv') \<Longrightarrow>
    request \<notin> fst ` set running \<Longrightarrow> service_reachable snapshots sv0 sv' ((request, payload) # running)"
| finish: "service_reachable snapshots sv0 sv running \<Longrightarrow> (request, payload) \<in> set running \<Longrightarrow>
    end_simulation payload run sv = (a, sv') \<Longrightarrow> service_reachable snapshots sv0 sv' (remove1 (request, payload) running)"

lemma admit_simulation_cases:
  assumes "admit_simulation loads meta d raw sv = (r, sv')"
  obtains a where "r = Answered a" "sv' = sv"
  | payload task where "r = Admitted payload task" "sv_active_requests sv < sv_max_concurrency sv"
      "sv' = sv\<lparr>sv_active_requests := sv_active_requests sv + 1\<rparr>" "\<exists>decoded. normalize_payload decoded = Inr payload" "tk_payload task = payload"
proof -
  show thesis
    using assms by (auto simp: admit_simulation_def rbind_def split: sum.splits if_splits intro: that)
qed

lemma service_counts:
  "service_reachable snapshots sv0 sv running \<Longrightarrow>
   sv_active_requests sv = int (length running) \<and> sv_max_concurrency sv = sv_max_concurrency sv0 \<and>
   (0 \<le> sv_max_concurrency sv0 \<longrightarrow> int (length running) \<le> sv_max_concurrency sv0)"
proof (induction rule: service_reachable.induct)
  case (answer sv running loads meta request raw a sv')
  from answer.hyps(2) have "sv' = sv" by (rule admit_simulation_cases) auto
  with answer.IH show ?case by simp
next
  case (admit sv running loads meta request raw payload task sv')
  from admit.hyps(2) have "sv_active_requests sv < sv_max_concurrency sv" "sv' = sv\<lparr>sv_active_requests := sv_active_requests sv + 1\<rparr>"
    by (rule admit_simulation_cases; simp)+
  with admit.IH show ?case by simp
next
  case (finish sv running request payload run a sv')
  from finish.hyps(2) have "int (length (remove1 (request, payload) running)) = int (length running) - 1"
    using length_pos_if_in_set [OF finish.hyps(2)] by (simp add: length_remove1 int_ops(6))
  with finish.IH finish.hyps(3) show ?case by (auto simp: end_simulation_def)
qed simp

section \<open>Simulation leaves the driver alone\<close>

lemma execute_vm_simulation_disk:
  assumes "driver_laws (px_driver E)" "vm_confined (px_driver E) (px_vm E)"
  shows "d_value_from_disk (px_driver E) (snd (execute_vm_simulation E S payload kwargs env max_chi cost d)) = d_value_from_disk (px_driver E) d"
  using execute_vm_transaction_same(1) [OF assms, of d]
  by (auto simp: execute_vm_simulation_def same_state_def split: sum.splits prod.splits) (metis snd_conv)+

lemma run_simulation_frame:
  assumes "driver_laws (px_driver E)" "vm_confined (px_driver E) (px_vm E)"
    and "run_simulation E S io_ok m payload meta max_chi cost st = (r, st', m')"
  shows "mirror_kept m m' \<and> d_value_from_disk (px_driver E) (ps_driver st') = d_value_from_disk (px_driver E) (ps_driver st) \<and> ps_chi_cost st' = ps_chi_cost st"
proof -
  obtain q st1 where q: "prepare_step E (PDict [(PStr ''payload'', payload)]) st = (q, st1)" by fastforce
  then have "ps_driver st1 = ps_driver st" "ps_chi_cost st1 = ps_chi_cost st" by (auto dest: prepare_step_same)
  moreover have "d_value_from_disk (px_driver E) d' = d_value_from_disk (px_driver E) d"
    if "execute_vm_simulation E S payload kwargs env max_chi cost d = (x, d')" for kwargs env x d d'
    using execute_vm_simulation_disk [OF assms(1,2), of S payload kwargs env max_chi cost d] that by simp
  moreover have "mirror_kept m m1" if "make_environment E S io_ok m payload meta = (x, m1)" for x m1
    using that by (auto simp: make_environment_def Let_def dest: get_latest_block_mirror(3) split: prod.splits pyval.splits sum.splits)
  ultimately show ?thesis
    using assms(3) by (auto simp: run_simulation_def q split: sum.splits prod.splits if_splits)
qed

lemma simulate_frame:
  assumes "driver_laws (px_driver E)" "vm_confined (px_driver E) (px_vm E)"
    and "simulate E S io_ok m payload meta max_chi st = (r, st', m')"
  shows "mirror_kept m m' \<and> same_state (px_driver E) (ps_driver st') (ps_driver st) \<and> ps_chi_cost st' = ps_chi_cost st"
proof (cases "normalize_payload payload")
  case (Inl e)
  with assms(3) show ?thesis by (simp add: simulate_def)
next
  case (Inr p)
  obtain q st1 m1 where q: "run_simulation E S io_ok m p meta max_chi (simulation_chi_cost E (ps_driver st)) st = (q, st1, m1)"
    by (metis prod.collapse)
  from run_simulation_frame [OF assms(1,2) q] assms(1,3) show ?thesis
    by (auto simp: simulate_def Inr execute_simulation_def q same_state_def driver_simps split: sum.splits)
qed

definition normalized_payload :: "string \<Rightarrow> string \<Rightarrow> string \<Rightarrow> (pyval \<times> pyval) list \<Rightarrow> pyval" where
  "normalized_payload sender contract func kwargs =
     PDict [(PStr ''sender'', PStr sender), (PStr ''contract'', PStr contract), (PStr ''function'', PStr func),
            (PStr ''kwargs'', PDict kwargs)]"

lemma normalize_payload_shape:
  assumes "normalize_payload v = Inr p"
  obtains sender contract func kwargs where "p = normalized_payload sender contract func kwargs"
    "sender \<noteq> []" "contract \<noteq> []" "func \<noteq> []"
proof -
  define n where "n = dget_or v ''payload'' v"
  define kw where "kw = (if dget_or n ''kwargs'' (PDict []) = PNone then PDict [] else dget_or n ''kwargs'' (PDict []))"
  have "is_dict kw" and f: "\<forall>k \<in> {''sender'', ''contract'', ''function''}. is_str (dget_or n k PNone) \<and> dget_or n k PNone \<noteq> PStr []"
    and p: "p = PDict [(PStr ''sender'', dget_or n ''sender'' PNone), (PStr ''contract'', dget_or n ''contract'' PNone),
      (PStr ''function'', dget_or n ''function'' PNone), (PStr ''kwargs'', kw)]"
    using assms unfolding normalize_payload_def Let_def n_def [symmetric] kw_def [symmetric]
    by (auto simp: rbind_Inr_iff split: if_splits)
  have texts: "\<exists>s. dget_or n k PNone = PStr s \<and> s \<noteq> []" if "k \<in> {''sender'', ''contract'', ''function''}" for k
    using f that by (metis is_str_iff)
  obtain a b c kvs where "dget_or n ''sender'' PNone = PStr a" "a \<noteq> []" "dget_or n ''contract'' PNone = PStr b" "b \<noteq> []"
    "dget_or n ''function'' PNone = PStr c" "c \<noteq> []" "kw = PDict kvs"
    using texts [of "''sender''"] texts [of "''contract''"] texts [of "''function''"] \<open>is_dict kw\<close> unfolding is_dict_iff by auto
  with p show thesis by (intro that [of a b c kvs]) (simp_all add: normalized_payload_def)
qed

lemma normalize_normalized:
  "sender \<noteq> [] \<Longrightarrow> contract \<noteq> [] \<Longrightarrow> func \<noteq> [] \<Longrightarrow>
   normalize_payload (normalized_payload sender contract func kwargs) = Inr (normalized_payload sender contract func kwargs)"
  by (simp add: normalize_payload_def normalized_payload_def Let_def dget_or_def)

lemma normalize_payload_idem: "normalize_payload v = Inr p \<Longrightarrow> normalize_payload p = Inr p"
  by (metis normalize_payload_shape normalize_normalized)

section \<open>Properties\<close>

text \<open>Simulating a transaction changes nothing: whatever the payload is and whatever the virtual machine
  does to the driver, its pending writes, the values on disk and the cached fee rate are
  afterwards what they were, and the mirror file is, unless it was missing and has been created.\<close>

theorem simulation_read_only:
  assumes "driver_laws (px_driver E)" and "vm_confined (px_driver E) (px_vm E)"
    and "simulate_encoded_transaction E S io_ok m raw block_meta max_chi st = (r, st', m')"
  shows "mirror_kept m m' \<and> d_pending_writes (px_driver E) (ps_driver st') = d_pending_writes (px_driver E) (ps_driver st) \<and>
    d_value_from_disk (px_driver E) (ps_driver st') = d_value_from_disk (px_driver E) (ps_driver st) \<and>
    ps_chi_cost st' = ps_chi_cost st"
proof (cases "decode_payload (vm_loads (px_vm E)) raw")
  case (Inl e)
  with assms(3) show ?thesis by (simp add: simulate_encoded_transaction_def)
next
  case (Inr v)
  with assms(3) have "simulate E S io_ok m v block_meta max_chi st = (r, st', m')" by (simp add: simulate_encoded_transaction_def)
  from simulate_frame [OF assms(1,2) this] show ?thesis by (simp add: same_state_def)
qed

text \<open>An admitted request gets an answer: the worker's task passes the worker's own checks, and every
  exception of the execution becomes an answer with status 1, so the worker never leaves with an
  exception and leaves the storage as it was.\<close>

theorem admitted_simulation_answers:
  assumes "driver_laws (px_driver E)" and "vm_confined (px_driver E) (px_vm E)"
    and "admit_simulation loads block_meta driver_state raw sv = (Admitted payload task, sv')"
  shows "\<exists>answer st m'. worker_main E io_ok m storage task = (Inr answer, st, m') \<and> mirror_kept m m' \<and>
    d_value_from_disk (px_driver E) (ps_driver st) = d_value_from_disk (px_driver E) (d_restore_state (px_driver E) (tk_driver_state task) storage)"
proof -
  obtain decoded where p: "normalize_payload decoded = Inr payload" "tk_payload task = payload"
    using assms(3) by (rule admit_simulation_cases) auto
  obtain r st m' where w: "worker_main E io_ok m storage task = (r, st, m')" by (metis prod.collapse)
  then have "\<exists>answer. r = Inr answer"
    using normalize_payload_idem [OF p(1)] by (auto simp: worker_main_def simulate_def p(2) split: prod.splits sum.splits)
  moreover have "mirror_kept m m'" "same_state (px_driver E) (ps_driver st) (d_restore_state (px_driver E) (tk_driver_state task) storage)"
    using simulate_frame [OF assms(1,2) w [unfolded worker_main_def]] by simp_all
  ultimately show ?thesis using w by (auto simp: same_state_def)
qed

text \<open>At no time do more workers run than configured, and no slot is lost: in every state that any
  interleaving of requests, answers, time-outs and failures reaches, the counter is the number of
  running workers and stays within the limit.\<close>

theorem simulation_capacity:
  assumes "sv0 = new_service chain_id enabled max_concurrency timeout_ms max_chi charge"
    and "service_reachable snapshots sv0 sv running"
  shows "sv_active_requests sv = int (length running) \<and> int (length running) \<le> max max_concurrency 1"
  using service_counts [OF assms(2)] by (simp add: assms(1) new_service_def)

text \<open>A processor whose reader knows one payload.\<close>

definition sample_payload_text :: string where
  "sample_payload_text = ''p''"

definition sample_sim :: "mem_db proc_env" where
  "sample_sim = sample_proc\<lparr>px_vm := sample_vm\<lparr>vm_loads := (\<lambda>t.
     if t = sample_payload_text
     then Inr (PDict [(PStr ''sender'', PStr ''ab''), (PStr ''contract'', PStr ''con''), (PStr ''function'', PStr ''f'')])
     else vm_loads sample_vm t)\<rparr>\<rparr>"

lemma sample_sim_laws: "driver_laws (px_driver sample_sim)" "vm_confined (px_driver sample_sim) (px_vm sample_sim)"
  using sample_proc_confined by (simp_all add: sample_sim_def sample_proc_def mem_driver_laws vm_confined_def)

definition sample_simulator :: simulator where
  "sample_simulator = \<lparr>sl_chain_id = PStr ''xian-1'', sl_charge_fees = True\<rparr>"

definition sample_service :: sim_service where
  "sample_service = new_service (PStr ''xian-1'') True 1 3000 1000 True"

lemma sample_admitted:
  "\<exists>p task sv. admit_simulation (vm_loads (px_vm sample_sim)) PNone sample_funds (hexlify sample_payload_text) sample_service = (Admitted p task, sv)"
proof -
  have "case admit_simulation (vm_loads (px_vm sample_sim)) PNone sample_funds (hexlify sample_payload_text) sample_service of
      (Admitted p task, sv) \<Rightarrow> True | _ \<Rightarrow> False"
    by code_simp
  then show ?thesis by (auto split: prod.splits admission.splits)
qed

theorem simulation_read_only_witness:
  "\<exists>r st' m'. simulate_encoded_transaction sample_sim sample_simulator True None (hexlify sample_payload_text) (PDict []) None sample_state = (r, st', m') \<and>
     d_pending_writes (px_driver sample_sim) (ps_driver st') = d_pending_writes (px_driver sample_sim) (ps_driver sample_state)"
proof -
  obtain r st' m' where run:
    "simulate_encoded_transaction sample_sim sample_simulator True None (hexlify sample_payload_text) (PDict []) None sample_state = (r, st', m')"
    by (metis prod.collapse)
  with simulation_read_only [OF sample_sim_laws run] show ?thesis by blast
qed

theorem admitted_simulation_answers_witness:
  "\<exists>p task sv answer st m'. admit_simulation (vm_loads (px_vm sample_sim)) PNone sample_funds (hexlify sample_payload_text) sample_service = (Admitted p task, sv) \<and>
     worker_main sample_sim True None sample_funds task = (Inr answer, st, m')"
  using sample_admitted admitted_simulation_answers [OF sample_sim_laws] by metis

theorem simulation_capacity_witness:
  "\<exists>p sv. service_reachable (\<lambda>_. sample_funds) sample_service sv [(0, p)] \<and> sv_active_requests sv = 1"
proof -
  obtain p task sv where a:
    "admit_simulation (vm_loads (px_vm sample_sim)) PNone sample_funds (hexlify sample_payload_text) sample_service = (Admitted p task, sv)"
    using sample_admitted by blast
  have "service_reachable (\<lambda>_. sample_funds) sample_service sample_service []"
    by (rule service_reachable.initial) (simp add: sample_service_def new_service_def)
  then have r: "service_reachable (\<lambda>_. sample_funds) sample_service sv [(0, p)]"
    using a by (rule service_reachable.admit) simp
  from simulation_capacity [OF sample_service_def r] r show ?thesis by auto
qed

end
