(* ===== verification/Query_Params.thy ===== *)
theory Query_Params
  imports Latest_Block Simulator_Ipc
begin

text \<open>
  The parameters, pages and cursors of ABCI queries: the helpers of
  \<^verbatim>\<open>src/src/xian/methods/query.py\<close> that do not touch the state, and the sources of price candles
  (\<^verbatim>\<open>src/src/xian/services/bds/candles.py\<close>).  \<^verbatim>\<open>int\<close> of a text is in \<^typ>\<open>text_env\<close>; the
  readers of time stamps are standard library and are the fields of \<open>time_env\<close>.  Lower case and
  white space are those of ASCII.
\<close>

section \<open>Parameters\<close>

type_synonym params = "(string, string) dict"

definition DEFAULT_KEYS_QUERY_LIMIT :: int where "DEFAULT_KEYS_QUERY_LIMIT = 100"
definition MAX_KEYS_QUERY_LIMIT :: int where "MAX_KEYS_QUERY_LIMIT = 200"
definition DEFAULT_LIST_QUERY_LIMIT :: int where "DEFAULT_LIST_QUERY_LIMIT = 100"
definition MAX_LIST_QUERY_LIMIT :: int where "MAX_LIST_QUERY_LIMIT = 1000"
definition DEFAULT_DEX_CANDLE_INTERVAL_SECONDS :: int where "DEFAULT_DEX_CANDLE_INTERVAL_SECONDS = 60"
definition MAX_DEX_CANDLE_INTERVAL_SECONDS :: int where "MAX_DEX_CANDLE_INTERVAL_SECONDS = 604800"

definition query_params :: "string list \<Rightarrow> params" where
  "query_params path_parts =
     fold (\<lambda>path ps. if CHR ''='' \<in> set path then case split_once CHR ''='' path of (k, v) \<Rightarrow> AList.update k v ps else ps)
       path_parts []"

definition param_or :: "params \<Rightarrow> string \<Rightarrow> string \<Rightarrow> string" where
  "param_or ps key alt = (case map_of ps key of Some v \<Rightarrow> v | None \<Rightarrow> alt)"

text \<open>A text as an integer, or the given value when it is none.\<close>

definition int_or :: "text_env \<Rightarrow> int \<Rightarrow> string \<Rightarrow> int" where
  "int_or T alt s = (case te_int_of_text T s of Inr n \<Rightarrow> n | Inl _ \<Rightarrow> alt)"

definition bounded_int_param :: "text_env \<Rightarrow> params \<Rightarrow> string \<Rightarrow> int \<Rightarrow> int \<Rightarrow> int option \<Rightarrow> int" where
  "bounded_int_param T ps key alt minimum maximum =
     (let v = max minimum (case map_of ps key of Some s \<Rightarrow> int_or T alt s | None \<Rightarrow> alt)
      in case maximum of Some m \<Rightarrow> min v m | None \<Rightarrow> v)"

record pagination =
  pg_limit :: int
  pg_offset :: int

definition offset_pagination :: "text_env \<Rightarrow> params \<Rightarrow> pagination" where
  "offset_pagination T ps =
     \<lparr>pg_limit = bounded_int_param T ps ''limit'' DEFAULT_LIST_QUERY_LIMIT 0 (Some MAX_LIST_QUERY_LIMIT),
      pg_offset = bounded_int_param T ps ''offset'' 0 0 None\<rparr>"

record bds_options =
  bo_limit :: int
  bo_offset :: int
  bo_after_id :: "int option"
  bo_after_note_index :: int

definition bds_query_options :: "text_env \<Rightarrow> params \<Rightarrow> bds_options" where
  "bds_query_options T ps =
     (let p = offset_pagination T ps in
      \<lparr>bo_limit = pg_limit p, bo_offset = pg_offset p,
       bo_after_id = (case map_of ps ''after_id'' of
                        None \<Rightarrow> None
                      | Some s \<Rightarrow> (case te_int_of_text T s of Inr n \<Rightarrow> Some (max n 0) | Inl _ \<Rightarrow> None)),
       bo_after_note_index = bounded_int_param T ps ''after_note_index'' 0 0 None\<rparr>)"

text \<open>A duration: an integer with an optional unit.\<close>

definition duration_unit :: "string \<Rightarrow> string \<times> int" where
  "duration_unit s =
     (case find (\<lambda>(u, _). suffix u s) [(''s'', 1), (''m'', 60), (''h'', 3600), (''d'', 86400), (''w'', 604800)] of
        Some (u, n) \<Rightarrow> (take (length s - length u) s, n)
      | None \<Rightarrow> (s, 1))"

definition duration_seconds_param :: "text_env \<Rightarrow> params \<Rightarrow> string \<Rightarrow> int \<Rightarrow> int" where
  "duration_seconds_param T ps key alt =
     (case map_of ps key of
        None \<Rightarrow> alt
      | Some raw \<Rightarrow>
          let (value_text, multiplier) = duration_unit (py_lower (py_strip raw));
              v = (case te_int_of_text T value_text of Inr n \<Rightarrow> n * multiplier | Inl _ \<Rightarrow> alt)
          in min (max v 1) MAX_DEX_CANDLE_INTERVAL_SECONDS)"

record time_env =
  ti_fromtimestamp :: "string \<Rightarrow> pyval res"
  ti_fromisoformat :: "string \<Rightarrow> pyval res"
  ti_is_naive :: "pyval \<Rightarrow> bool"
  ti_replace_utc :: "pyval \<Rightarrow> pyval"
  ti_astimezone_utc :: "pyval \<Rightarrow> pyval"

definition is_decimal_digit :: "char \<Rightarrow> bool" where
  "is_decimal_digit c = (of_char c \<in> {48 .. 57 :: nat})"

text \<open>\<^verbatim>\<open>value.replace(".", "", 1).isdigit()\<close>, and \<^verbatim>\<open>value.replace("Z", "+00:00")\<close>.\<close>

definition numeric_text :: "string \<Rightarrow> bool" where
  "numeric_text s = (let t = remove1 CHR ''.'' s in t \<noteq> [] \<and> list_all is_decimal_digit t)"

definition utc_suffix :: "string \<Rightarrow> string" where
  "utc_suffix s = concat (map (\<lambda>c. if c = CHR ''Z'' then ''+00:00'' else [c]) s)"

definition optional_timestamp_param :: "time_env \<Rightarrow> params \<Rightarrow> string \<Rightarrow> pyval option" where
  "optional_timestamp_param I ps key =
     (case map_of ps key of
        None \<Rightarrow> None
      | Some raw \<Rightarrow>
          let v = py_strip raw in
          if v = [] then None
          else if numeric_text v then (case ti_fromtimestamp I v of Inr t \<Rightarrow> Some t | Inl _ \<Rightarrow> None)
          else case ti_fromisoformat I (utc_suffix v) of
                 Inl _ \<Rightarrow> None
               | Inr parsed \<Rightarrow>
                   Some (ti_astimezone_utc I (if ti_is_naive I parsed then ti_replace_utc I parsed else parsed)))"

section \<open>Keys and their cursor\<close>

definition with_delimiter :: "string \<Rightarrow> string" where
  "with_delimiter pre = (if suffix '':'' pre then pre else pre @ '':'')"

definition keys_query_after_key :: "string \<Rightarrow> string option \<Rightarrow> string option" where
  "keys_query_after_key pre after =
     (case after of
        None \<Rightarrow> None
      | Some a \<Rightarrow>
          let normalized = py_strip a in
          if normalized = [] then None
          else if prefix pre normalized then Some normalized
          else Some (with_delimiter pre @ normalized))"

definition keys_query_suffix :: "string \<Rightarrow> string \<Rightarrow> string" where
  "keys_query_suffix pre full_key =
     (if prefix (with_delimiter pre) full_key then drop (length (with_delimiter pre)) full_key
      else if prefix pre full_key then dropWhile (\<lambda>c. c = CHR '':'') (drop (length pre) full_key)
      else full_key)"

text \<open>A page of keys: what \<^verbatim>\<open>scan_keys_from_disk\<close> returns and the page built from it.\<close>

type_synonym key_scan = "string \<Rightarrow> int \<Rightarrow> string option \<Rightarrow> string list \<times> bool"

record keys_page =
  kp_items :: "string list"
  kp_limit :: int
  kp_after :: "string option"
  kp_next_after :: "string option"
  kp_has_more :: bool

definition keys_limit :: "text_env \<Rightarrow> params \<Rightarrow> int" where
  "keys_limit T ps = bounded_int_param T ps ''limit'' DEFAULT_KEYS_QUERY_LIMIT 1 (Some MAX_KEYS_QUERY_LIMIT)"

definition keys_page_of :: "text_env \<Rightarrow> key_scan \<Rightarrow> params \<Rightarrow> string \<Rightarrow> keys_page" where
  "keys_page_of T scan ps pre =
     (let limit = keys_limit T ps;
          after = map_of ps ''after'';
          (list_of_keys, has_more) = scan pre limit (keys_query_after_key pre after);
          items = map (keys_query_suffix pre) list_of_keys
      in \<lparr>kp_items = items, kp_limit = limit, kp_after = (if after = Some [] then None else after),
          kp_next_after = (if has_more \<and> items \<noteq> [] then Some (last items) else None), kp_has_more = has_more\<rparr>)"

section \<open>Contract records\<close>

definition zero_pad :: "nat \<Rightarrow> int \<Rightarrow> string" where
  "zero_pad w i =
     (let digits = nat_digits (nat \<bar>i\<bar>); sign = (if i < 0 then ''-'' else []) in
      sign @ replicate (w - length sign - length digits) CHR ''0'' @ digits)"

definition submission_text :: "text_env \<Rightarrow> pyval \<Rightarrow> pyval \<Rightarrow> pyval \<Rightarrow> pyval \<Rightarrow> pyval \<Rightarrow> pyval \<Rightarrow> pyval res" where
  "submission_text T year month day hour minute second =
     (let number = py_int (te_int_of_text T) in
      rbind (number year) (\<lambda>y. rbind (number month) (\<lambda>mo. rbind (number day) (\<lambda>d.
      rbind (number hour) (\<lambda>h. rbind (number minute) (\<lambda>mi. rbind (number second) (\<lambda>s.
      Inr (PStr (zero_pad 4 y @ ''-'' @ zero_pad 2 mo @ ''-'' @ zero_pad 2 d @ ''T'' @ zero_pad 2 h @ '':'' @ zero_pad 2 mi
             @ '':'' @ zero_pad 2 s @ ''Z'')))))))))"

definition submission_iso :: "text_env \<Rightarrow> pyval \<Rightarrow> pyval res" where
  "submission_iso T v =
     (case dget_or v ''__time__'' PNone of
        PList (year # month # day # hour # minute # second # _) \<Rightarrow> submission_text T year month day hour minute second
      | PTuple (year # month # day # hour # minute # second # _) \<Rightarrow> submission_text T year month day hour minute second
      | _ \<Rightarrow> Inr PNone)"

record contract_record =
  cr_name :: string
  cr_submitted_at :: pyval
  cr_developer :: pyval
  cr_has_source :: bool

definition contract_record_to_py :: "contract_record \<Rightarrow> pyval" where
  "contract_record_to_py r =
     PDict [(PStr ''name'', PStr (cr_name r)), (PStr ''submitted_at'', cr_submitted_at r), (PStr ''developer'', cr_developer r),
            (PStr ''has_source'', PBool (cr_has_source r))]"

text \<open>\<^verbatim>\<open>sorted\<close> with a pair as its key sorts by the second component and then, stably, by the first.\<close>

definition sorted_by :: "bool \<Rightarrow> ('a \<Rightarrow> 'k::linorder) \<Rightarrow> 'a list \<Rightarrow> 'a list" where
  "sorted_by descending key xs = (if descending then sorted_reverse key xs else sort_key key xs)"

definition sort_contract_records :: "text_env \<Rightarrow> string \<Rightarrow> bool \<Rightarrow> contract_record list \<Rightarrow> contract_record list" where
  "sort_contract_records T by_key descending records =
     (let name = (\<lambda>r. py_lower (cr_name r)); submitted = (\<lambda>r. py_str T (py_or (cr_submitted_at r) (PStr []))) in
      if by_key = ''name'' then sorted_by descending name (sorted_by descending submitted records)
      else sorted_by descending submitted (sorted_by descending name records))"

text \<open>\<^verbatim>\<open>xs[offset : offset + limit]\<close> for natural bounds.\<close>

definition list_page :: "int \<Rightarrow> int \<Rightarrow> 'a list \<Rightarrow> 'a list" where
  "list_page offset limit xs = take (nat limit) (drop (nat offset) xs)"

definition listing_sort :: "params \<Rightarrow> string" where
  "listing_sort ps =
     (let k = py_lower (py_strip (param_or ps ''sort'' ''submitted_at'')) in if k = ''name'' then ''name'' else ''submitted_at'')"

definition listing_descending :: "params \<Rightarrow> bool" where
  "listing_descending ps = (py_lower (py_strip (param_or ps ''order'' ''desc'')) \<noteq> ''asc'')"

definition contract_listing :: "text_env \<Rightarrow> params \<Rightarrow> contract_record list \<Rightarrow> pyval" where
  "contract_listing T ps records =
     (let p = offset_pagination T ps; by_key = listing_sort ps; descending = listing_descending ps;
          sorted_records = sort_contract_records T by_key descending records
      in PDict [(PStr ''items'', PList (map contract_record_to_py (list_page (pg_offset p) (pg_limit p) sorted_records))),
                (PStr ''total'', PInt (int (length sorted_records))), (PStr ''limit'', PInt (pg_limit p)),
                (PStr ''offset'', PInt (pg_offset p)), (PStr ''sort'', PStr by_key),
                (PStr ''order'', PStr (if descending then ''desc'' else ''asc''))])"

section \<open>Metadata of contracts\<close>

text \<open>What a loop over a JSON value visits.\<close>

definition iterate :: "pyval \<Rightarrow> pyval list res" where
  "iterate v =
     (case v of PList xs \<Rightarrow> Inr xs | PTuple xs \<Rightarrow> Inr xs | PDict kvs \<Rightarrow> Inr (map fst kvs) | PStr s \<Rightarrow> Inr (map PStr (utf8_chars s))
      | _ \<Rightarrow> Inl (TypeError ''object is not iterable''))"

definition method_argument :: "pyval \<Rightarrow> pyval option" where
  "method_argument parameter =
     (case dget_or parameter ''name'' PNone of
        PStr name \<Rightarrow>
          Some (PDict ([(PStr ''name'', PStr name)] @
            (case dget_or parameter ''annotation'' PNone of PStr t \<Rightarrow> [(PStr ''type'', PStr t)] | _ \<Rightarrow> [])))
      | _ \<Rightarrow> None)"

definition method_of :: "pyval \<Rightarrow> pyval option res" where
  "method_of func =
     (case dget_or func ''name'' PNone of
        PStr name \<Rightarrow>
          if prefix ''__'' name then Inr None
          else rbind (iterate (dget_or func ''parameters'' (PList []))) (\<lambda>parameters.
               Inr (Some (PDict [(PStr ''name'', PStr name), (PStr ''arguments'', PList (List.map_filter method_argument parameters))])))
      | _ \<Rightarrow> Inr None)"

definition methods_for_contract_ir :: "pyval \<Rightarrow> pyval res" where
  "methods_for_contract_ir module_ir =
     rbind (iterate (dget_or module_ir ''functions'' (PList []))) (\<lambda>functions.
     rbind (mapR method_of functions) (\<lambda>methods. Inr (PList (List.map_filter (\<lambda>m. m) methods))))"

definition removeprefix :: "string \<Rightarrow> string \<Rightarrow> string" where
  "removeprefix p s = (if prefix p s then drop (length p) s else s)"

definition storage_names :: "string \<Rightarrow> pyval list \<Rightarrow> pyval" where
  "storage_names storage_type declarations =
     PList (List.map_filter (\<lambda>d.
       if dget_or d ''node'' PNone = PStr ''storage_decl'' \<and> dget_or d ''storage_type'' PNone = PStr storage_type
       then case dget_or d ''name'' PNone of PStr name \<Rightarrow> Some (PStr (removeprefix ''__'' name)) | _ \<Rightarrow> None
       else None) declarations)"

definition variables_for_contract_ir :: "pyval \<Rightarrow> pyval res" where
  "variables_for_contract_ir module_ir =
     rbind (iterate (dget_or module_ir ''global_declarations'' (PList []))) (\<lambda>declarations.
     Inr (PDict [(PStr ''variables'', storage_names ''Variable'' declarations), (PStr ''hashes'', storage_names ''Hash'' declarations)]))"

section \<open>Candle sources\<close>

record candle_spec =
  cs_source :: string
  cs_contract :: string
  cs_event :: string
  cs_market_field :: string
  cs_amount0_in_field :: string
  cs_amount1_in_field :: string
  cs_amount0_out_field :: string
  cs_amount1_out_field :: string
  cs_market_id_is_int :: bool

definition DEFAULT_CANDLE_SOURCE :: string where
  "DEFAULT_CANDLE_SOURCE = ''xian_pairs_v1''"

definition CANDLE_SOURCE_SPECS :: "(string, candle_spec) dict" where
  "CANDLE_SOURCE_SPECS =
     [(DEFAULT_CANDLE_SOURCE,
       \<lparr>cs_source = DEFAULT_CANDLE_SOURCE, cs_contract = ''con_pairs'', cs_event = ''Swap'', cs_market_field = ''pair'',
        cs_amount0_in_field = ''amount0In'', cs_amount1_in_field = ''amount1In'', cs_amount0_out_field = ''amount0Out'',
        cs_amount1_out_field = ''amount1Out'', cs_market_id_is_int = True\<rparr>)]"

definition with_contract :: "string \<Rightarrow> candle_spec \<Rightarrow> candle_spec" where
  "with_contract contract spec = (let resolved = py_strip contract in if resolved = [] then spec else spec\<lparr>cs_contract := resolved\<rparr>)"

definition normalize_market_id :: "text_env \<Rightarrow> candle_spec \<Rightarrow> string \<Rightarrow> (string \<times> int option) res" where
  "normalize_market_id T spec raw_market_id =
     (let raw_id = py_strip raw_market_id in
      if raw_id = [] then Inl (ValueError ''market id is required'')
      else if cs_market_id_is_int spec
      then rbind (te_int_of_text T raw_id) (\<lambda>n.
           if n \<le> 0 then Inl (ValueError ''market id must be positive'') else Inr (str_int n, Some n))
      else Inr (raw_id, None))"

definition get_candle_source_spec :: "string option \<Rightarrow> candle_spec res" where
  "get_candle_source_spec source =
     (let s = (case source of Some x \<Rightarrow> if x = [] then DEFAULT_CANDLE_SOURCE else x | None \<Rightarrow> DEFAULT_CANDLE_SOURCE);
          s = py_strip s; source_id = (if s = [] then DEFAULT_CANDLE_SOURCE else s)
      in case map_of CANDLE_SOURCE_SPECS source_id of
           Some spec \<Rightarrow> Inr spec
         | None \<Rightarrow> Inl (ValueError (''unknown candle source: '' @ source_id)))"

section \<open>Following the cursor\<close>

text \<open>
  What the storage documents of \<^verbatim>\<open>scan_keys_from_disk\<close>: over the stored keys in order, the first
  \<open>limit\<close> keys with the prefix after the given one, and whether there are more.
\<close>

definition eligible :: "string list \<Rightarrow> string \<Rightarrow> string option \<Rightarrow> string list" where
  "eligible keys pre after = filter (\<lambda>k. prefix pre k \<and> (case after of None \<Rightarrow> True | Some a \<Rightarrow> a < k)) keys"

definition scan_list :: "string list \<Rightarrow> key_scan" where
  "scan_list keys pre limit after =
     (let found = eligible keys pre after in (take (nat limit) found, limit < int (length found)))"

text \<open>A client that asks for one page after the other; None is a client that has not finished.\<close>

fun collect_keys :: "nat \<Rightarrow> (string option \<Rightarrow> keys_page) \<Rightarrow> string option \<Rightarrow> string list option" where
  "collect_keys 0 fetch after = None"
| "collect_keys (Suc n) fetch after =
     (let p = fetch after in
      if kp_next_after p = None then Some (kp_items p)
      else map_option (\<lambda>rest. kp_items p @ rest) (collect_keys n fetch (kp_next_after p)))"

definition fetch_keys :: "text_env \<Rightarrow> key_scan \<Rightarrow> params \<Rightarrow> string \<Rightarrow> string option \<Rightarrow> keys_page" where
  "fetch_keys T scan ps pre after =
     keys_page_of T scan (case after of None \<Rightarrow> ps | Some a \<Rightarrow> AList.update ''after'' a ps) pre"

lemma bounded_int_param_bounds:
  "minimum \<le> bounded_int_param T ps key alt minimum None"
  "minimum \<le> m \<Longrightarrow> minimum \<le> bounded_int_param T ps key alt minimum (Some m)"
  "bounded_int_param T ps key alt minimum (Some m) \<le> m"
  by (auto simp: bounded_int_param_def Let_def)

lemma suffix_of_delimited [simp]: "keys_query_suffix pre (with_delimiter pre @ s) = s"
  by (simp add: keys_query_suffix_def)

lemma cursor_of_delimited:
  "s \<noteq> [] \<Longrightarrow> py_strip s = s \<Longrightarrow> \<not> prefix pre s \<Longrightarrow> keys_query_after_key pre (Some s) = Some (with_delimiter pre @ s)"
  by (simp add: keys_query_after_key_def)

lemma filter_greater_nth:
  fixes xs :: "'a::linorder list"
  assumes "sorted xs" "distinct xs" "n < length xs"
  shows "filter (\<lambda>x. xs ! n < x) xs = drop (Suc n) xs"
proof -
  have strict: "sorted_wrt (<) xs" using assms(1,2) by (simp add: strict_sorted_iff)
  have "filter (\<lambda>x. xs ! n < x) (take (Suc n) xs) = []"
    using sorted_nth_mono [OF assms(1) _ assms(3)] by (auto simp: filter_empty_conv in_set_conv_nth not_less less_Suc_eq_le)
  moreover have "filter (\<lambda>x. xs ! n < x) (drop (Suc n) xs) = drop (Suc n) xs"
    using sorted_wrt_nth_less [OF strict] by (auto simp: filter_id_conv in_set_conv_nth)
  ultimately show ?thesis by (metis append_take_drop_id filter_append append_Nil)
qed

lemma eligible_after_nth:
  assumes "sorted keys" "distinct keys" "n < length (eligible keys pre after)"
  shows "eligible keys pre (Some (eligible keys pre after ! n)) = drop (Suc n) (eligible keys pre after)"
proof -
  let ?e = "eligible keys pre after"
  have e: "sorted ?e" "distinct ?e" using assms(1,2) by (simp_all add: eligible_def sorted_wrt_filter)
  have "?e ! n \<in> set ?e" using assms(3) by simp
  then have "eligible keys pre (Some (?e ! n)) = filter (\<lambda>x. ?e ! n < x) ?e"
    by (auto simp: eligible_def filter_filter split: option.splits intro!: filter_cong)
  then show ?thesis by (simp add: filter_greater_nth [OF e assms(3)])
qed

text \<open>The keys a cursor can name: under the delimiter, without outer white space, not starting with the prefix again.\<close>

definition nameable :: "string \<Rightarrow> string \<Rightarrow> bool" where
  "nameable pre k \<longleftrightarrow>
     (let s = drop (length (with_delimiter pre)) k in
      prefix (with_delimiter pre) k \<and> s \<noteq> [] \<and> py_strip s = s \<and> \<not> prefix pre s)"

lemma nameableE:
  assumes "nameable pre k"
  shows "keys_query_after_key pre (Some (keys_query_suffix pre k)) = Some k"
  using assms cursor_of_delimited by (auto simp: nameable_def Let_def elim!: prefixE)

lemma keys_limit_bounds: "1 \<le> keys_limit T ps" "keys_limit T ps \<le> MAX_KEYS_QUERY_LIMIT"
  unfolding keys_limit_def by (rule bounded_int_param_bounds; simp add: MAX_KEYS_QUERY_LIMIT_def)+

lemma fetch_keys_page:
  assumes "map_of ps ''after'' = None" "keys_query_after_key pre after = key"
  shows "kp_items (fetch_keys T (scan_list keys) ps pre after) = map (keys_query_suffix pre) (take (nat (keys_limit T ps)) (eligible keys pre key))"
    and "kp_next_after (fetch_keys T (scan_list keys) ps pre after) =
      (if keys_limit T ps < int (length (eligible keys pre key))
       then Some (keys_query_suffix pre (eligible keys pre key ! (nat (keys_limit T ps) - 1))) else None)"
proof -
  let ?ps = "case after of None \<Rightarrow> ps | Some a \<Rightarrow> AList.update ''after'' a ps"
  have "keys_limit T ?ps = keys_limit T ps"
    by (auto simp: keys_limit_def bounded_int_param_def Let_def map_of_AList_update split: option.split)
  moreover have "map_of ?ps ''after'' = after" using assms(1) by (simp add: map_of_AList_update split: option.split)
  moreover have "last (take (nat (keys_limit T ps)) e) = e ! (nat (keys_limit T ps) - 1)"
    if "keys_limit T ps < int (length e)" for e :: "string list"
    using that keys_limit_bounds(1) [of T ps] by (subst last_conv_nth) (auto simp: min_def)
  ultimately show "kp_items (fetch_keys T (scan_list keys) ps pre after) = map (keys_query_suffix pre) (take (nat (keys_limit T ps)) (eligible keys pre key))"
    "kp_next_after (fetch_keys T (scan_list keys) ps pre after) =
      (if keys_limit T ps < int (length (eligible keys pre key))
       then Some (keys_query_suffix pre (eligible keys pre key ! (nat (keys_limit T ps) - 1))) else None)"
    using assms(2) keys_limit_bounds(1) [of T ps] by (auto simp: fetch_keys_def keys_page_of_def scan_list_def Let_def last_map)
qed

lemma collect_eligible:
  assumes "sorted keys" "distinct keys" "\<And>k. k \<in> set keys \<Longrightarrow> prefix pre k \<Longrightarrow> nameable pre k" "map_of ps ''after'' = None"
  shows "length (eligible keys pre key) < fuel \<Longrightarrow> \<forall>k. key = Some k \<longrightarrow> nameable pre k \<Longrightarrow>
    collect_keys fuel (fetch_keys T (scan_list keys) ps pre) (map_option (keys_query_suffix pre) key) =
      Some (map (keys_query_suffix pre) (eligible keys pre key))"
proof (induction fuel arbitrary: key)
  case (Suc fuel)
  let ?e = "eligible keys pre key"
  let ?limit = "keys_limit T ps"
  have cursor: "keys_query_after_key pre (map_option (keys_query_suffix pre) key) = key"
    using Suc.prems(2) nameableE by (cases key) (auto simp: keys_query_after_key_def)
  note page = fetch_keys_page [OF assms(4) cursor, of T keys]
  show ?case
  proof (cases "?limit < int (length ?e)")
    case False
    then show ?thesis using page by simp
  next
    case True
    let ?n = "nat ?limit - 1" and ?k = "?e ! (nat ?limit - 1)"
    have n: "?n < length ?e" "Suc ?n = nat ?limit" using True keys_limit_bounds(1) [of T ps] by auto
    then have "?k \<in> set ?e" by simp
    then have "nameable pre ?k" using assms(3) by (auto simp: eligible_def)
    moreover have rest: "eligible keys pre (Some ?k) = drop (nat ?limit) ?e"
      using eligible_after_nth [OF assms(1,2) n(1)] n(2) by metis
    ultimately have "collect_keys fuel (fetch_keys T (scan_list keys) ps pre) (Some (keys_query_suffix pre ?k)) =
        Some (map (keys_query_suffix pre) (drop (nat ?limit) ?e))"
      using Suc.IH [of "Some ?k"] Suc.prems(1) n by simp
    then show ?thesis using page True by (simp flip: map_append)
  qed
qed simp

section \<open>Pages of a list\<close>

lemma list_page_length: "0 \<le> limit \<Longrightarrow> int (length (list_page offset limit xs)) \<le> limit"
  by (simp add: list_page_def)

lemma concat_pages: "concat (map (\<lambda>i. list_page (int i * int n) (int n) xs) [0..<k]) = take (k * n) xs"
proof (induction k)
  case (Suc k)
  have "take (Suc k * n) xs = take (k * n) xs @ take n (drop (k * n) xs)" using take_add [of "k * n" n xs] by (simp add: add.commute)
  with Suc show ?case by (simp add: list_page_def nat_mult_distrib)
qed simp

lemma pages_partition: "length xs \<le> k * n \<Longrightarrow> concat (map (\<lambda>i. list_page (int i * int n) (int n) xs) [0..<k]) = xs"
  by (simp add: concat_pages)

lemma set_sorted_by [simp]: "mset (sorted_by b key xs) = mset xs"
  by (simp add: sorted_by_def sorted_reverse_def)

lemma mset_sort_contract_records: "mset (sort_contract_records T by_key b rs) = mset rs"
  by (simp add: sort_contract_records_def Let_def)

section \<open>Properties\<close>

text \<open>Following the cursor of a keys query visits every stored key under the prefix exactly once and in
  order, whatever page size is asked for, when the keys stand under the prefix's delimiter and no
  rest of a key has outer white space or starts with the prefix again.\<close>

theorem keys_pages_complete:
  assumes "sorted keys" and "distinct keys" and "\<And>k. k \<in> set keys \<Longrightarrow> prefix pre k \<Longrightarrow> nameable pre k"
    and "map_of ps ''after'' = None" and "length keys < fuel"
  shows "collect_keys fuel (fetch_keys T (scan_list keys) ps pre) None =
    Some (map (keys_query_suffix pre) (filter (prefix pre) keys))"
proof -
  have e: "eligible keys pre None = filter (prefix pre) keys" by (simp add: eligible_def)
  have "length (filter (prefix pre) keys) < fuel" using assms(5) length_filter_le [of "prefix pre" keys] by linarith
  with collect_eligible [OF assms(1-4), of None fuel T] show ?thesis by (simp add: e)
qed

text \<open>A reader of decimal numbers.\<close>

definition digits_value :: "string \<Rightarrow> nat" where
  "digits_value s = fold (\<lambda>c n. 10 * n + (of_char c - 48)) s 0"

definition read_int :: "string \<Rightarrow> int res" where
  "read_int s =
     (let digits = (if prefix ''-'' s then tl s else s) in
      if digits = [] \<or> \<not> list_all is_decimal_digit digits then Inl (ValueError ''int'')
      else Inr (if prefix ''-'' s then - int (digits_value digits) else int (digits_value digits)))"

definition digit_text :: text_env where
  "digit_text = \<lparr>te_str = (\<lambda>_. []), te_int_of_text = read_int\<rparr>"

lemma of_digit_char: "d < 10 \<Longrightarrow> of_char (digit_char d) = 48 + d"
  by (simp add: digit_char_def)

lemma digits_value_nat_digits: "digits_value (nat_digits n) = n"
proof (induction n rule: nat_digits.induct)
  case (1 n)
  show ?case
  proof (cases "n < 10")
    case True
    then show ?thesis by (simp add: nat_digits.simps [of n] digits_value_def of_digit_char)
  next
    case False
    with 1 have "digits_value (nat_digits (n div 10)) = n div 10" by simp
    with False show ?thesis by (simp add: nat_digits.simps [of n] digits_value_def of_digit_char)
  qed
qed

lemma nat_digits_decimal: "nat_digits n \<noteq> []" "list_all is_decimal_digit (nat_digits n)"
proof (induction n rule: nat_digits.induct)
  case (1 n)
  { case 1 show ?case by (simp add: nat_digits.simps [of n]) }
  { case 2
    have "is_decimal_digit (digit_char d)" if "d < 10" for d using that by (simp add: is_decimal_digit_def of_digit_char)
    then show ?case using 1 by (simp add: nat_digits.simps [of n]) }
qed

lemma read_str_int: "te_int_of_text digit_text (str_int i) = Inr i"
proof -
  have "\<not> prefix ''-'' (nat_digits n)" for n
    using nat_digits_decimal [of n] by (cases "nat_digits n") (auto simp: is_decimal_digit_def)
  then show ?thesis
    using nat_digits_decimal by (simp add: digit_text_def read_int_def str_int_def digits_value_nat_digits)
qed

definition sample_stored_keys :: "string list" where
  "sample_stored_keys = [''a.b:x'', ''a.b:y'', ''a.b:z'', ''a.c'']"

theorem keys_pages_complete_witness:
  "collect_keys 5 (fetch_keys digit_text (scan_list sample_stored_keys) [(''limit'', ''1'')] ''a.b'') None = Some [''x'', ''y'', ''z'']"
proof -
  have "sorted sample_stored_keys" "distinct sample_stored_keys" "length sample_stored_keys < 5" by code_simp+
  moreover have "\<forall>k \<in> set sample_stored_keys. prefix ''a.b'' k \<longrightarrow> nameable ''a.b'' k" by code_simp
  moreover have "map (keys_query_suffix ''a.b'') (filter (prefix ''a.b'') sample_stored_keys) = [''x'', ''y'', ''z'']" by code_simp
  ultimately show ?thesis
    using keys_pages_complete [of sample_stored_keys "''a.b''" "[(''limit'', ''1'')]" 5 digit_text] by simp
qed

text \<open>The cursor does not advance when the prefix ends inside a name: it is turned back into a key by
  inserting the delimiter, which names a key before the page it came from, so the next page is the
  same page and a client that follows the cursor never ends.\<close>

theorem keys_cursor_stuck:
  "let fetch = fetch_keys digit_text (scan_list [''con_a.x'', ''con_b.y'']) [(''limit'', ''1'')] ''con''
   in kp_items (fetch None) = [''_a.x''] \<and> kp_next_after (fetch None) = Some ''_a.x'' \<and>
      kp_items (fetch (Some ''_a.x'')) = [''_a.x''] \<and> kp_next_after (fetch (Some ''_a.x'')) = Some ''_a.x''"
  by code_simp

text \<open>The pages of the contract listing partition it: asked with the offsets 0, n, 2n and so on and the
  limit n, the listing shows every contract exactly once, in the order that was asked for.\<close>

theorem listing_pages_partition:
  assumes "\<And>i. te_int_of_text T (str_int i) = Inr i" and "0 < n" and "n \<le> nat MAX_LIST_QUERY_LIMIT" and "length records \<le> k * n"
  shows "concat (map (\<lambda>i. case dget (contract_listing T
             (AList.update ''limit'' (str_int (int n)) (AList.update ''offset'' (str_int (int i * int n)) ps)) records) ''items'' of
           Some (PList items) \<Rightarrow> items | _ \<Rightarrow> []) [0..<k]) =
      map contract_record_to_py (sort_contract_records T (listing_sort ps) (listing_descending ps) records) \<and>
    mset (sort_contract_records T (listing_sort ps) (listing_descending ps) records) = mset records"
proof -
  let ?ps = "\<lambda>i. AList.update ''limit'' (str_int (int n)) (AList.update ''offset'' (str_int (int i * int n)) ps)"
  let ?rs = "sort_contract_records T (listing_sort ps) (listing_descending ps) records"
  have "listing_sort (?ps i) = listing_sort ps" "listing_descending (?ps i) = listing_descending ps" for i
    by (simp_all add: listing_sort_def listing_descending_def param_or_def map_of_AList_update)
  moreover have "offset_pagination T (?ps i) = \<lparr>pg_limit = int n, pg_offset = int i * int n\<rparr>" for i
    using assms(1-3) by (simp add: offset_pagination_def bounded_int_param_def map_of_AList_update int_or_def MAX_LIST_QUERY_LIMIT_def Let_def)
  ultimately have "(case dget (contract_listing T (?ps i) records) ''items'' of Some (PList items) \<Rightarrow> items | _ \<Rightarrow> []) =
      map contract_record_to_py (list_page (int i * int n) (int n) ?rs)" for i
    by (simp add: contract_listing_def Let_def)
  moreover have "length ?rs \<le> k * n" using assms(4) mset_sort_contract_records by (metis size_mset)
  moreover have "concat (map (\<lambda>i. map contract_record_to_py (list_page (int i * int n) (int n) ?rs)) [0..<k]) =
      map contract_record_to_py (concat (map (\<lambda>i. list_page (int i * int n) (int n) ?rs) [0..<k]))"
    by (simp add: map_concat comp_def)
  ultimately show ?thesis
    using pages_partition [of ?rs k n] mset_sort_contract_records by simp
qed

definition sample_records :: "contract_record list" where
  "sample_records = map (\<lambda>n. \<lparr>cr_name = n, cr_submitted_at = PNone, cr_developer = PNone, cr_has_source = True\<rparr>) [''con_a'', ''con_b'', ''con_c'']"

theorem listing_pages_partition_witness:
  "concat (map (\<lambda>i. case dget (contract_listing digit_text
             (AList.update ''limit'' (str_int (int 2)) (AList.update ''offset'' (str_int (int i * int 2)) [])) sample_records) ''items'' of
           Some (PList items) \<Rightarrow> items | _ \<Rightarrow> []) [0..<2]) =
    map contract_record_to_py (rev sample_records)"
proof -
  have "sort_contract_records digit_text (listing_sort []) (listing_descending []) sample_records = rev sample_records" by code_simp
  with listing_pages_partition [of digit_text 2 sample_records 2 "[]", OF read_str_int] show ?thesis
    by (simp add: MAX_LIST_QUERY_LIMIT_def sample_records_def)
qed

end
