(* ===== verification/Query.thy ===== *)
theory Query
  imports Application Simulator Query_Params
begin

text \<open>
  ABCI queries (\<^verbatim>\<open>src/src/xian/methods/query.py\<close>): the context of a request, the handlers of the
  routes, their dispatch and the response.  The state of a query is the application and the
  simulation service.  Third-party parts are in \<open>query_env\<close>: what the storage driver tells of
  contracts, the scan of keys, the contract parser, the readers of time stamps and the profiler.
  The block data service answers from its database; \<open>qe_bds\<close> is that database as a function of
  the call, None when the service is not initialised.  What becomes of a simulation worker, and
  what it leaves of the mirror file, is \<open>qe_worker\<close>.
\<close>

section \<open>The environment and the context\<close>

datatype bds_call =
    GetBlocks int int
  | GetStatus int
  | GetSpoolEntries int int
  | GetBlock int
  | GetBlockByHash string
  | GetTx string
  | GetTxsForBlock string
  | GetTxsBySender string int int
  | GetRecentAddresses int int
  | GetTxsByContract string int int
  | GetEventsForTx string
  | GetShieldedOutputTags string int int string "int option"
  | GetShieldedWalletHistory string int int string
  | GetEvents string string int int "int option"
  | GetRecentEvents int int
  | GetDexCandles string candle_spec int int int "pyval option" "pyval option"
  | GetState string int int
  | GetTokenBalances string int int bool
  | GetTokenContracts int int
  | GetStateHistory string int int
  | GetStatePrevious string
  | GetStateForTx string
  | GetStateForBlock string
  | GetStatePatches int int
  | GetStatePatchesForBlock int
  | GetStatePatchByHash string
  | GetStateChangesForPatch string
  | GetDeveloperRewards string
  | GetContractSummary string

record parallel_settings =
  pl_enabled :: bool
  pl_workers :: int
  pl_min_batch_size :: int
  pl_max_speculative_waves :: int
  pl_min_wave_acceptance_ratio :: pyval
  pl_low_acceptance_min_wave_size :: int
  pl_use_access_estimates :: bool

record 'd query_env =
  qe_app :: "'d app_env"
  qe_has_contract :: "('d \<Rightarrow> string \<Rightarrow> bool) option"
  qe_contract_source :: "'d \<Rightarrow> string \<Rightarrow> pyval"
  qe_contract_developer :: "'d \<Rightarrow> string \<Rightarrow> pyval"
  qe_contract_deployer :: "'d \<Rightarrow> string \<Rightarrow> pyval"
  qe_contract_initiator :: "'d \<Rightarrow> string \<Rightarrow> pyval"
  qe_time_submitted :: "'d \<Rightarrow> string \<Rightarrow> pyval"
  qe_contracts :: "'d \<Rightarrow> string list"
  qe_scan_keys :: "'d \<Rightarrow> key_scan"
  qe_methods_of_source :: "string \<Rightarrow> pyval res"
  qe_variables_of_source :: "string \<Rightarrow> pyval res"
  qe_time :: time_env
  qe_profile :: "(pyval \<times> pyval) list"
  qe_parallel :: parallel_settings
  qe_bds :: "(bds_call \<Rightarrow> pyval res) option"
  qe_worker :: "'d sim_task \<Rightarrow> mirror_file \<Rightarrow> worker_run \<times> mirror_file"
  qe_io_ok :: bool
  qe_now :: int

record query_ctx =
  cx_path_parts :: "string list"
  cx_params :: params
  cx_route :: string
  cx_key :: string

record query_result =
  qr_result :: pyval
  qr_key :: "string option"

record 'd query_state =
  qs_app :: "'d app"
  qs_service :: sim_service

type_synonym 'd handler = "query_ctx \<Rightarrow> ('d query_state, query_result) step"

abbreviation (input) qe_driver :: "'d query_env \<Rightarrow> 'd driver" where
  "qe_driver Q \<equiv> ae_driver (qe_app Q)"

abbreviation (input) qe_proc :: "'d query_env \<Rightarrow> 'd proc_env" where
  "qe_proc Q \<equiv> ae_proc (qe_app Q)"

abbreviation (input) qe_text :: "'d query_env \<Rightarrow> text_env" where
  "qe_text Q \<equiv> px_text (ae_proc (qe_app Q))"

abbreviation (input) qs_driver :: "'d query_state \<Rightarrow> 'd" where
  "qs_driver s \<equiv> ap_driver (qs_app s)"

definition answer :: "pyval \<Rightarrow> query_result" where
  "answer v = \<lparr>qr_result = v, qr_key = None\<rparr>"

text \<open>A handler that only reads.\<close>

definition reading :: "('d query_state \<Rightarrow> pyval res) \<Rightarrow> ('d query_state, query_result) step" where
  "reading f s = (rbind (f s) (\<lambda>v. Inr (answer v)), s)"

definition path_part :: "query_ctx \<Rightarrow> nat \<Rightarrow> string res" where
  "path_part cx i = (if i < length (cx_path_parts cx) then Inr (cx_path_parts cx ! i) else Inl (OtherError ''IndexError''))"

section \<open>Views of contracts\<close>

text \<open>Without a block in progress the time of the latest block is read from the mirror file.\<close>

definition make_vm_query_environment :: "'d query_env \<Rightarrow> query_ctx \<Rightarrow> 'd query_state \<Rightarrow> (string, pyval) dict \<times> mirror_file" where
  "make_vm_query_environment Q cx s =
     (let E = qe_proc Q; st = qs_app s; chain_id = cfg_chain_id (ae_cfg (qe_app Q));
          (block_nanos, mirror) =
            (case ap_meta st of
               Some meta \<Rightarrow> (bm_nanos meta, ap_mirror st)
             | None \<Rightarrow> (case get_latest_block_nanos (qe_text Q) (qe_io_ok Q) (ap_mirror st) of
                         Inr (n, m) \<Rightarrow> (n, m) | Inl _ \<Rightarrow> (0, ap_mirror st)));
          block_height = (case ap_meta st of Some meta \<Rightarrow> bm_height meta | None \<Rightarrow> 0);
          block_hash = (case ap_meta st of
                          Some meta \<Rightarrow> bm_hash meta
                        | None \<Rightarrow> px_sha3_256_hex E (''query:block:'' @ chain_id @ '':'' @ str_int block_height @ '':'' @ str_int block_nanos))
      in ([(''block_hash'', PStr block_hash), (''block_num'', PInt block_height),
          (''__input_hash'', PStr (px_sha3_256_hex E (''query:'' @ cx_route cx @ '':'' @ cx_key cx @ '':'' @ str_int block_nanos))),
          (''__xian_execution_mode__'', PStr VM_EXECUTION_MODE),
          (''now'', px_from_datetime E (nanoseconds_to_utc_datetime block_nanos)), (''chain_id'', PStr chain_id)], mirror))"

definition contract_known :: "'d query_env \<Rightarrow> 'd \<Rightarrow> string \<Rightarrow> bool" where
  "contract_known Q d name =
     (case qe_has_contract Q of
        Some has_contract \<Rightarrow> has_contract d name
      | None \<Rightarrow> qe_contract_source Q d name \<noteq> PNone \<or> vm_get_contract_ir (px_vm (qe_proc Q)) d name \<noteq> PNone)"

text \<open>The body of the \<^verbatim>\<open>try\<close> of \<^verbatim>\<open>_call_contract_view\<close>.\<close>

definition run_view ::
    "'d query_env \<Rightarrow> query_ctx \<Rightarrow> string \<Rightarrow> string \<Rightarrow> (pyval \<times> pyval) list \<Rightarrow> 'd query_state
      \<Rightarrow> pyval res \<times> 'd proc \<times> mirror_file" where
  "run_view Q cx contract_name function_name kwargs s =
     (let E = qe_proc Q; p = ap_proc (qs_app s); m = ap_mirror (qs_app s) in
      case prepare_vm_contract (px_fuel E) (px_vm E) (ps_driver p) contract_name (ps_prepared p) of
        None \<Rightarrow> (Inl (OtherError ''RecursionError''), p, m)
      | Some (Inl e, cache) \<Rightarrow> (Inl e, p\<lparr>ps_prepared := cache\<rparr>, m)
      | Some (Inr _, cache) \<Rightarrow>
          let (environment, m) = make_vm_query_environment Q cx s in
          (case execute_vm_contract (px_vm E) (ps_driver p)
                  \<lparr>rq_sender = PStr (if cx_key cx = [] then ''__query__'' else cx_key cx), rq_contract = contract_name,
                   rq_function = function_name, rq_kwargs = PDict kwargs, rq_environment = environment,
                   rq_meter = False, rq_chi_budget = 0, rq_size_bytes = 0\<rparr> of
             (r, d) \<Rightarrow>
               (rbind r (\<lambda>output. Inr (if vo_status output \<noteq> 0 then PNone else vo_result output)),
                p\<lparr>ps_driver := d, ps_prepared := cache\<rparr>, m)))"

definition call_contract_view ::
    "'d query_env \<Rightarrow> query_ctx \<Rightarrow> string \<Rightarrow> string \<Rightarrow> (pyval \<times> pyval) list \<Rightarrow> ('d query_state, pyval) step" where
  "call_contract_view Q cx contract_name function_name kwargs s =
     (if \<not> contract_known Q (qs_driver s) contract_name then (Inr PNone, s)
      else let D = qe_driver Q; state = d_snapshot_state D (qs_driver s);
               (r, p, m) = run_view Q cx contract_name function_name kwargs s
           in (r, s\<lparr>qs_app := (qs_app s)\<lparr>ap_proc := p\<lparr>ps_driver := d_restore_state D state (ps_driver p)\<rparr>, ap_mirror := m\<rparr>\<rparr>))"

definition viewing ::
    "'d query_env \<Rightarrow> query_ctx \<Rightarrow> string \<Rightarrow> (pyval \<times> pyval) list \<Rightarrow> ('d query_state, query_result) step" where
  "viewing Q cx function_name kwargs =
     sbind (call_contract_view Q cx ''validators'' function_name kwargs) (\<lambda>v. sret (answer v))"

section \<open>Votes\<close>

definition with_proposal_id :: "int \<Rightarrow> (pyval \<times> pyval) list \<Rightarrow> pyval" where
  "with_proposal_id proposal_id record_items = PDict (AList.update (PStr ''proposal_id'') (PInt proposal_id) record_items)"

definition vote_key :: "int \<Rightarrow> string" where
  "vote_key proposal_id = ''validators.votes:'' @ str_int proposal_id"

definition pending_vote :: "'d driver \<Rightarrow> 'd \<Rightarrow> int \<Rightarrow> pyval option" where
  "pending_vote D d proposal_id =
     (case d_get D d (vote_key proposal_id) of
        PDict r \<Rightarrow>
          if dget_or (PDict r) ''finalized'' PNone = PBool True \<or> dget_or (PDict r) ''status'' PNone \<noteq> PStr ''pending''
          then None else Some (with_proposal_id proposal_id r)
      | _ \<Rightarrow> None)"

definition pending_validators_votes :: "'d driver \<Rightarrow> 'd \<Rightarrow> pagination \<Rightarrow> pyval res" where
  "pending_validators_votes D d p =
     (case int_value (py_or (d_get D d ''validators.total_votes'') (PInt 0)) of
        None \<Rightarrow> Inl (TypeError ''object cannot be interpreted as an integer'')
      | Some total_votes \<Rightarrow>
          Inr (PList (list_page (pg_offset p) (pg_limit p) (List.map_filter (pending_vote D d) (rev [1..total_votes])))))"

definition validators_vote :: "'d driver \<Rightarrow> 'd \<Rightarrow> int \<Rightarrow> pyval" where
  "validators_vote D d proposal_id =
     (case d_get D d (vote_key proposal_id) of PDict r \<Rightarrow> with_proposal_id proposal_id r | _ \<Rightarrow> PNone)"

definition vote_snapshot :: "pyval \<Rightarrow> pyval list" where
  "vote_snapshot record_value =
     (case dget_or record_value ''member_snapshot'' PNone of
        PList xs \<Rightarrow> xs
      | _ \<Rightarrow> (case dget_or record_value ''voters'' PNone of PList xs \<Rightarrow> xs | _ \<Rightarrow> []))"

definition validators_vote_records :: "'d driver \<Rightarrow> 'd \<Rightarrow> int \<Rightarrow> pyval" where
  "validators_vote_records D d proposal_id =
     (let record_value = validators_vote D d proposal_id; key = (\<lambda>kind voter. kind @ str_int proposal_id @ '':'' @ voter) in
      PList (if \<not> is_dict record_value then []
             else map (\<lambda>voter. PDict
                    [(PStr ''proposal_id'', PInt proposal_id), (PStr ''voter'', voter),
                     (PStr ''vote'', d_get D d (key ''validators.vote_records:'' (str_of voter))),
                     (PStr ''weight'', py_or (d_get D d (key ''validators.vote_weights:'' (str_of voter))) (PInt 0))])
                  (filter is_str (vote_snapshot record_value))))"

section \<open>Contracts\<close>

definition contract_ir_for_metadata :: "'d query_env \<Rightarrow> 'd \<Rightarrow> string \<Rightarrow> pyval option res" where
  "contract_ir_for_metadata Q d contract_name =
     (case vm_get_contract_ir (px_vm (qe_proc Q)) d contract_name of
        PStr ir \<Rightarrow>
          if ir = [] then Inr None
          else (case vm_loads (px_vm (qe_proc Q)) ir of
                  Inr module_ir \<Rightarrow> Inr (if is_dict module_ir then Some module_ir else None)
                | Inl (ValueError _) \<Rightarrow> Inr None
                | Inl e \<Rightarrow> Inl e)
      | _ \<Rightarrow> Inr None)"

definition resolve_contract_info :: "'d query_env \<Rightarrow> 'd \<Rightarrow> string \<Rightarrow> pyval res" where
  "resolve_contract_info Q d name =
     rbind (submission_iso (qe_text Q) (qe_time_submitted Q d name)) (\<lambda>submitted.
     Inr (PDict [(PStr ''name'', PStr name), (PStr ''owner'', vm_get_owner (px_vm (qe_proc Q)) d name),
                 (PStr ''developer'', qe_contract_developer Q d name), (PStr ''deployer'', qe_contract_deployer Q d name),
                 (PStr ''initiator'', qe_contract_initiator Q d name), (PStr ''submitted_at'', submitted),
                 (PStr ''has_source'', PBool (qe_contract_source Q d name \<noteq> PNone))]))"

definition contract_record_of :: "'d query_env \<Rightarrow> 'd \<Rightarrow> string \<Rightarrow> contract_record res" where
  "contract_record_of Q d name =
     rbind (submission_iso (qe_text Q) (d_get (qe_driver Q) d (name @ ''.__submitted__''))) (\<lambda>submitted.
     Inr \<lparr>cr_name = name, cr_submitted_at = submitted, cr_developer = d_get (qe_driver Q) d (name @ ''.__developer__''),
          cr_has_source = (qe_contract_source Q d name \<noteq> PNone)\<rparr>)"

definition resolve_contract_listing :: "'d query_env \<Rightarrow> query_ctx \<Rightarrow> 'd \<Rightarrow> pyval res" where
  "resolve_contract_listing Q cx d =
     rbind (mapR (contract_record_of Q d) (sorted_list_of_set (set (qe_contracts Q d)))) (\<lambda>records.
     Inr (contract_listing (qe_text Q) (cx_params cx) records))"

definition resolve_perf_status :: "'d query_env \<Rightarrow> pyval" where
  "resolve_perf_status Q =
     (let p = qe_parallel Q in
      PDict (dict_update (qe_profile Q)
        [(PStr ''parallel_execution_enabled'', PBool (pl_enabled p)),
         (PStr ''parallel_execution_workers'', PInt (pl_workers p)),
         (PStr ''parallel_execution_min_transactions'', PInt (pl_min_batch_size p)),
         (PStr ''parallel_execution_max_speculative_waves'', PInt (pl_max_speculative_waves p)),
         (PStr ''parallel_execution_min_wave_acceptance_ratio'', pl_min_wave_acceptance_ratio p),
         (PStr ''parallel_execution_low_acceptance_min_wave_size'', PInt (pl_low_acceptance_min_wave_size p)),
         (PStr ''parallel_execution_access_estimates_enabled'', PBool (pl_use_access_estimates p))]))"

definition pending_unbond :: "'d query_env \<Rightarrow> query_ctx \<Rightarrow> pyval \<Rightarrow> ('d query_state, pyval option) step" where
  "pending_unbond Q cx unbond_id =
     sbind (call_contract_view Q cx ''validators'' ''get_pending_unbond'' [(PStr ''unbond_id'', unbond_id)]) (\<lambda>unbond.
     sret (case unbond of
             PDict items \<Rightarrow> Some (PDict (AList.update (PStr ''unbond_id'') unbond_id items))
           | _ \<Rightarrow> None))"

definition resolve_pending_unbonds :: "'d query_env \<Rightarrow> query_ctx \<Rightarrow> ('d query_state, pyval) step" where
  "resolve_pending_unbonds Q cx =
     sbind (call_contract_view Q cx ''validators'' ''get_pending_unbond_ids'' [(PStr ''owner'', PStr (cx_key cx))]) (\<lambda>pending_ids.
     if pending_ids = PNone then sret PNone
     else sbind (\<lambda>s. (iterate (py_or pending_ids (PList [])), s)) (\<lambda>ids.
          sbind (smap (pending_unbond Q cx) ids) (\<lambda>unbonds. sret (PList (List.map_filter (\<lambda>u. u) unbonds)))))"

definition opt_text :: "string option \<Rightarrow> pyval" where
  "opt_text x = (case x of None \<Rightarrow> PNone | Some t \<Rightarrow> PStr t)"

definition resolve_keys_query :: "'d query_env \<Rightarrow> query_ctx \<Rightarrow> 'd \<Rightarrow> query_result res" where
  "resolve_keys_query Q cx d =
     rbind (path_part cx 1) (\<lambda>pre.
     let p = keys_page_of (qe_text Q) (qe_scan_keys Q d) (cx_params cx) pre in
     Inr \<lparr>qr_result = PDict
            [(PStr ''prefix'', PStr pre), (PStr ''items'', PList (map PStr (kp_items p))), (PStr ''limit'', PInt (kp_limit p)),
             (PStr ''after'', opt_text (kp_after p)), (PStr ''next_after'', opt_text (kp_next_after p)),
             (PStr ''has_more'', PBool (kp_has_more p))],
          qr_key = Some pre\<rparr>)"

definition current_bds_block_height :: "'d query_env \<Rightarrow> 'd app \<Rightarrow> (int \<times> mirror_file) res" where
  "current_bds_block_height Q st =
     (case ap_meta st of
        Some meta \<Rightarrow> Inr (bm_height meta, ap_mirror st)
      | None \<Rightarrow> get_latest_block_height (qe_text Q) (qe_io_ok Q) (ap_mirror st))"

section \<open>Core handlers\<close>

definition handle_get :: "'d query_env \<Rightarrow> 'd handler" where
  "handle_get Q cx = reading (\<lambda>s. rbind (path_part cx 1) (\<lambda>k. Inr (d_get (qe_driver Q) (qs_driver s) k)))"

definition handle_health :: "'d query_env \<Rightarrow> 'd handler" where
  "handle_health Q cx = sret (answer (PStr ''OK''))"

definition handle_get_next_nonce :: "'d query_env \<Rightarrow> 'd handler" where
  "handle_get_next_nonce Q cx s =
     (case get_next_nonce (qe_driver Q) (qs_driver s) (qe_now Q) (cx_key cx) (ap_nonces (qs_app s)) of
        (n, reservations) \<Rightarrow> (Inr (answer (PInt n)), s\<lparr>qs_app := (qs_app s)\<lparr>ap_nonces := reservations\<rparr>\<rparr>))"

definition handle_contract_source :: "'d query_env \<Rightarrow> 'd handler" where
  "handle_contract_source Q cx = reading (\<lambda>s. Inr (qe_contract_source Q (qs_driver s) (cx_key cx)))"

definition handle_contract_ir :: "'d query_env \<Rightarrow> 'd handler" where
  "handle_contract_ir Q cx = reading (\<lambda>s. Inr (vm_get_contract_ir (px_vm (qe_proc Q)) (qs_driver s) (cx_key cx)))"

text \<open>Metadata from the IR, or else from the source.\<close>

definition contract_metadata ::
    "'d query_env \<Rightarrow> query_ctx \<Rightarrow> (pyval \<Rightarrow> pyval res) \<Rightarrow> (string \<Rightarrow> pyval res) \<Rightarrow> 'd \<Rightarrow> pyval res" where
  "contract_metadata Q cx from_ir from_source d =
     rbind (contract_ir_for_metadata Q d (cx_key cx)) (\<lambda>module_ir.
     case module_ir of
       Some ir \<Rightarrow> from_ir ir
     | None \<Rightarrow> (case qe_contract_source Q d (cx_key cx) of
                 PNone \<Rightarrow> Inr PNone
               | PStr source \<Rightarrow> from_source source
               | _ \<Rightarrow> Inl (TypeError ''source must be text'')))"

definition methods_to_py :: "pyval res \<Rightarrow> pyval res" where
  "methods_to_py methods = rbind methods (\<lambda>m. Inr (PDict [(PStr ''methods'', m)]))"

definition handle_contract_methods :: "'d query_env \<Rightarrow> 'd handler" where
  "handle_contract_methods Q cx =
     reading (\<lambda>s. contract_metadata Q cx (\<lambda>ir. methods_to_py (methods_for_contract_ir ir))
       (\<lambda>source. methods_to_py (qe_methods_of_source Q source)) (qs_driver s))"

definition handle_contract_vars :: "'d query_env \<Rightarrow> 'd handler" where
  "handle_contract_vars Q cx =
     reading (\<lambda>s. contract_metadata Q cx variables_for_contract_ir (qe_variables_of_source Q) (qs_driver s))"

definition handle_contract_info :: "'d query_env \<Rightarrow> 'd handler" where
  "handle_contract_info Q cx = reading (\<lambda>s. resolve_contract_info Q (qs_driver s) (cx_key cx))"

definition handle_contracts :: "'d query_env \<Rightarrow> 'd handler" where
  "handle_contracts Q cx = reading (\<lambda>s. resolve_contract_listing Q cx (qs_driver s))"

definition handle_ping :: "'d query_env \<Rightarrow> 'd handler" where
  "handle_ping Q cx = sret (answer (PDict [(PStr ''status'', PStr ''online'')]))"

definition handle_perf_status :: "'d query_env \<Rightarrow> 'd handler" where
  "handle_perf_status Q cx = sret (answer (resolve_perf_status Q))"

definition handle_validators_policy :: "'d query_env \<Rightarrow> 'd handler" where
  "handle_validators_policy Q cx = viewing Q cx ''get_policy_config'' []"

definition handle_validators_active :: "'d query_env \<Rightarrow> 'd handler" where
  "handle_validators_active Q cx = viewing Q cx ''get_active_validators'' []"

definition handle_validators_candidates :: "'d query_env \<Rightarrow> 'd handler" where
  "handle_validators_candidates Q cx = viewing Q cx ''get_pending_candidates'' []"

definition handle_validators_validator :: "'d query_env \<Rightarrow> 'd handler" where
  "handle_validators_validator Q cx = viewing Q cx ''get_validator'' [(PStr ''account'', PStr (cx_key cx))]"

definition handle_validators_pending_unbonds :: "'d query_env \<Rightarrow> 'd handler" where
  "handle_validators_pending_unbonds Q cx = sbind (resolve_pending_unbonds Q cx) (\<lambda>v. sret (answer v))"

definition handle_validators_open_votes :: "'d query_env \<Rightarrow> 'd handler" where
  "handle_validators_open_votes Q cx =
     reading (\<lambda>s. pending_validators_votes (qe_driver Q) (qs_driver s) (offset_pagination (qe_text Q) (cx_params cx)))"

definition int_part :: "'d query_env \<Rightarrow> query_ctx \<Rightarrow> int res" where
  "int_part Q cx = rbind (path_part cx 1) (te_int_of_text (qe_text Q))"

definition handle_validators_vote :: "'d query_env \<Rightarrow> 'd handler" where
  "handle_validators_vote Q cx =
     reading (\<lambda>s. rbind (int_part Q cx) (\<lambda>i. Inr (validators_vote (qe_driver Q) (qs_driver s) i)))"

definition handle_validators_vote_records :: "'d query_env \<Rightarrow> 'd handler" where
  "handle_validators_vote_records Q cx =
     reading (\<lambda>s. rbind (int_part Q cx) (\<lambda>i. Inr (validators_vote_records (qe_driver Q) (qs_driver s) i)))"

text \<open>
  A simulation from its admission to its end; the node's pending state goes to the worker, which
  may create a missing mirror file.
\<close>

definition block_meta_to_py :: "block_meta option \<Rightarrow> pyval" where
  "block_meta_to_py m = (case m of Some meta \<Rightarrow> meta_to_py meta | None \<Rightarrow> PNone)"

definition handle_simulate_tx :: "'d query_env \<Rightarrow> 'd handler" where
  "handle_simulate_tx Q cx s =
     (case path_part cx 1 of
        Inl e \<Rightarrow> (Inl e, s)
      | Inr raw_payload_hex \<Rightarrow>
          (case admit_simulation (vm_loads (px_vm (qe_proc Q))) (block_meta_to_py (ap_meta (qs_app s)))
                  (d_snapshot_state (qe_driver Q) (qs_driver s)) raw_payload_hex (qs_service s) of
             (Answered v, sv) \<Rightarrow> (Inr (answer v), s\<lparr>qs_service := sv\<rparr>)
           | (Admitted payload task, sv) \<Rightarrow>
               (case qe_worker Q task (ap_mirror (qs_app s)) of
                  (run, m) \<Rightarrow>
                    (case end_simulation payload run sv of
                       (v, sv) \<Rightarrow> (Inr (answer v), s\<lparr>qs_app := (qs_app s)\<lparr>ap_mirror := m\<rparr>, qs_service := sv\<rparr>)))))"

definition handle_state_patch_bundles :: "'d query_env \<Rightarrow> 'd handler" where
  "handle_state_patch_bundles Q cx =
     reading (\<lambda>s. rbind (get_local_bundle_inventory (ae_patches (qe_app Q))) (\<lambda>xs. Inr (PList xs)))"

definition handle_scheduled_state_patches :: "'d query_env \<Rightarrow> 'd handler" where
  "handle_scheduled_state_patches Q cx =
     reading (\<lambda>s. rbind (int_part Q cx) (\<lambda>height.
       rbind (get_scheduled_patch_inventory (qe_driver Q) (qs_driver s) (ae_patches (qe_app Q)) height) (\<lambda>xs. Inr (PList xs))))"

definition handle_keys :: "'d query_env \<Rightarrow> 'd handler" where
  "handle_keys Q cx s = (resolve_keys_query Q cx (qs_driver s), s)"

section \<open>Handlers of the block data service\<close>

definition require_bds :: "'d query_env \<Rightarrow> (bds_call \<Rightarrow> pyval res) res" where
  "require_bds Q = (case qe_bds Q of None \<Rightarrow> Inl (RuntimeError ''BDS service is not initialized'') | Some f \<Rightarrow> Inr f)"

definition ask_bds :: "'d query_env \<Rightarrow> bds_call res \<Rightarrow> ('d query_state, query_result) step" where
  "ask_bds Q call = reading (\<lambda>s. rbind (require_bds Q) (\<lambda>f. rbind call f))"

text \<open>The answers that wrap their items.\<close>

definition ask_bds_list :: "'d query_env \<Rightarrow> bds_call \<Rightarrow> (pyval \<times> pyval) list \<Rightarrow> ('d query_state, query_result) step" where
  "ask_bds_list Q call rest =
     reading (\<lambda>s. rbind (require_bds Q) (\<lambda>f. rbind (f call) (\<lambda>items.
       Inr (PDict ([(PStr ''available'', PBool True), (PStr ''items'', items)] @ rest)))))"

abbreviation (input) opts :: "'d query_env \<Rightarrow> query_ctx \<Rightarrow> bds_options" where
  "opts Q cx \<equiv> bds_query_options (qe_text Q) (cx_params cx)"

definition limit_and_offset :: "bds_options \<Rightarrow> (pyval \<times> pyval) list" where
  "limit_and_offset b = [(PStr ''limit'', PInt (bo_limit b)), (PStr ''offset'', PInt (bo_offset b))]"

definition tag_kind :: "params \<Rightarrow> string" where
  "tag_kind ps = (let k = py_lower (py_strip (param_or ps ''kind'' ''sync_hint''))
                  in if k \<in> {''sync_hint'', ''discovery_tag''} then k else ''sync_hint'')"

definition handle_blocks :: "'d query_env \<Rightarrow> 'd handler" where
  "handle_blocks Q cx = ask_bds Q (Inr (GetBlocks (bo_limit (opts Q cx)) (bo_offset (opts Q cx))))"

definition handle_bds_status :: "'d query_env \<Rightarrow> 'd handler" where
  "handle_bds_status Q cx s =
     (case rbind (require_bds Q) (\<lambda>f. rbind (current_bds_block_height Q (qs_app s)) (\<lambda>(h, m). Inr (f, h, m))) of
        Inl e \<Rightarrow> (Inl e, s)
      | Inr (f, h, m) \<Rightarrow>
          (rbind (f (GetStatus h)) (\<lambda>v. Inr (answer v)), s\<lparr>qs_app := (qs_app s)\<lparr>ap_mirror := m\<rparr>\<rparr>))"

definition handle_bds_spool :: "'d query_env \<Rightarrow> 'd handler" where
  "handle_bds_spool Q cx = ask_bds Q (Inr (GetSpoolEntries (bo_limit (opts Q cx)) (bo_offset (opts Q cx))))"

definition handle_block :: "'d query_env \<Rightarrow> 'd handler" where
  "handle_block Q cx = ask_bds Q (rbind (te_int_of_text (qe_text Q) (cx_key cx)) (\<lambda>n. Inr (GetBlock n)))"

definition handle_block_by_hash :: "'d query_env \<Rightarrow> 'd handler" where
  "handle_block_by_hash Q cx = ask_bds Q (Inr (GetBlockByHash (cx_key cx)))"

definition handle_tx :: "'d query_env \<Rightarrow> 'd handler" where
  "handle_tx Q cx = ask_bds Q (Inr (GetTx (cx_key cx)))"

definition handle_txs_for_block :: "'d query_env \<Rightarrow> 'd handler" where
  "handle_txs_for_block Q cx = ask_bds Q (Inr (GetTxsForBlock (cx_key cx)))"

definition handle_txs_by_sender :: "'d query_env \<Rightarrow> 'd handler" where
  "handle_txs_by_sender Q cx = ask_bds Q (Inr (GetTxsBySender (cx_key cx) (bo_limit (opts Q cx)) (bo_offset (opts Q cx))))"

definition handle_addresses :: "'d query_env \<Rightarrow> 'd handler" where
  "handle_addresses Q cx =
     ask_bds_list Q (GetRecentAddresses (bo_limit (opts Q cx)) (bo_offset (opts Q cx))) (limit_and_offset (opts Q cx))"

definition handle_txs_by_contract :: "'d query_env \<Rightarrow> 'd handler" where
  "handle_txs_by_contract Q cx = ask_bds Q (Inr (GetTxsByContract (cx_key cx) (bo_limit (opts Q cx)) (bo_offset (opts Q cx))))"

definition handle_events_for_tx :: "'d query_env \<Rightarrow> 'd handler" where
  "handle_events_for_tx Q cx = ask_bds Q (Inr (GetEventsForTx (cx_key cx)))"

definition handle_shielded_output_tags :: "'d query_env \<Rightarrow> 'd handler" where
  "handle_shielded_output_tags Q cx =
     ask_bds_list Q (GetShieldedOutputTags (cx_key cx) (bo_limit (opts Q cx)) (bo_offset (opts Q cx)) (tag_kind (cx_params cx))
         (bo_after_id (opts Q cx))) (limit_and_offset (opts Q cx))"

definition handle_shielded_wallet_history :: "'d query_env \<Rightarrow> 'd handler" where
  "handle_shielded_wallet_history Q cx =
     ask_bds_list Q (GetShieldedWalletHistory (cx_key cx) (bo_limit (opts Q cx)) (bo_after_note_index (opts Q cx)) (tag_kind (cx_params cx)))
       [(PStr ''limit'', PInt (bo_limit (opts Q cx))), (PStr ''after_note_index'', PInt (bo_after_note_index (opts Q cx)))]"

definition handle_events :: "'d query_env \<Rightarrow> 'd handler" where
  "handle_events Q cx =
     ask_bds Q (rbind (path_part cx 1) (\<lambda>contract. rbind (path_part cx 2) (\<lambda>event.
       Inr (GetEvents contract event (bo_limit (opts Q cx)) (bo_offset (opts Q cx)) (bo_after_id (opts Q cx))))))"

definition handle_recent_events :: "'d query_env \<Rightarrow> 'd handler" where
  "handle_recent_events Q cx =
     ask_bds_list Q (GetRecentEvents (bo_limit (opts Q cx)) (bo_offset (opts Q cx))) (limit_and_offset (opts Q cx))"

definition handle_dex_candles :: "'d query_env \<Rightarrow> 'd handler" where
  "handle_dex_candles Q cx =
     reading (\<lambda>s. rbind (get_candle_source_spec (map_of (cx_params cx) ''source'')) (\<lambda>spec.
       let spec = (case map_of (cx_params cx) ''contract'' of None \<Rightarrow> spec | Some c \<Rightarrow> with_contract c spec) in
       rbind (normalize_market_id (qe_text Q) spec (cx_key cx)) (\<lambda>(market_id, _).
       let interval = duration_seconds_param (qe_text Q) (cx_params cx) ''interval'' DEFAULT_DEX_CANDLE_INTERVAL_SECONDS in
       rbind (require_bds Q) (\<lambda>f.
       f (GetDexCandles market_id spec interval (bo_limit (opts Q cx)) (bo_offset (opts Q cx))
            (optional_timestamp_param (qe_time Q) (cx_params cx) ''start'')
            (optional_timestamp_param (qe_time Q) (cx_params cx) ''end''))))))"

definition handle_state :: "'d query_env \<Rightarrow> 'd handler" where
  "handle_state Q cx = ask_bds Q (Inr (GetState (cx_key cx) (bo_limit (opts Q cx)) (bo_offset (opts Q cx))))"

definition handle_token_balances :: "'d query_env \<Rightarrow> 'd handler" where
  "handle_token_balances Q cx =
     ask_bds Q (Inr (GetTokenBalances (cx_key cx) (bo_limit (opts Q cx)) (bo_offset (opts Q cx))
       (py_lower (py_strip (param_or (cx_params cx) ''include_zero'' [])) \<in> {''1'', ''true'', ''yes''})))"

definition handle_token_contracts :: "'d query_env \<Rightarrow> 'd handler" where
  "handle_token_contracts Q cx = ask_bds Q (Inr (GetTokenContracts (bo_limit (opts Q cx)) (bo_offset (opts Q cx))))"

definition handle_state_history :: "'d query_env \<Rightarrow> 'd handler" where
  "handle_state_history Q cx = ask_bds Q (Inr (GetStateHistory (cx_key cx) (bo_limit (opts Q cx)) (bo_offset (opts Q cx))))"

definition handle_state_previous :: "'d query_env \<Rightarrow> 'd handler" where
  "handle_state_previous Q cx = ask_bds Q (Inr (GetStatePrevious (cx_key cx)))"

definition handle_state_for_tx :: "'d query_env \<Rightarrow> 'd handler" where
  "handle_state_for_tx Q cx = ask_bds Q (Inr (GetStateForTx (cx_key cx)))"

definition handle_state_for_block :: "'d query_env \<Rightarrow> 'd handler" where
  "handle_state_for_block Q cx = ask_bds Q (Inr (GetStateForBlock (cx_key cx)))"

definition handle_state_patches :: "'d query_env \<Rightarrow> 'd handler" where
  "handle_state_patches Q cx = ask_bds Q (Inr (GetStatePatches (bo_limit (opts Q cx)) (bo_offset (opts Q cx))))"

definition handle_state_patches_for_block :: "'d query_env \<Rightarrow> 'd handler" where
  "handle_state_patches_for_block Q cx = ask_bds Q (rbind (int_part Q cx) (\<lambda>h. Inr (GetStatePatchesForBlock h)))"

definition handle_state_patch :: "'d query_env \<Rightarrow> 'd handler" where
  "handle_state_patch Q cx = ask_bds Q (Inr (GetStatePatchByHash (cx_key cx)))"

definition handle_state_changes_for_patch :: "'d query_env \<Rightarrow> 'd handler" where
  "handle_state_changes_for_patch Q cx = ask_bds Q (Inr (GetStateChangesForPatch (cx_key cx)))"

definition handle_developer_rewards :: "'d query_env \<Rightarrow> 'd handler" where
  "handle_developer_rewards Q cx = ask_bds Q (Inr (GetDeveloperRewards (cx_key cx)))"

definition handle_contract_summary :: "'d query_env \<Rightarrow> 'd handler" where
  "handle_contract_summary Q cx = ask_bds Q (Inr (GetContractSummary (cx_key cx)))"

section \<open>Dispatch\<close>

definition CORE_QUERY_HANDLERS :: "(string \<times> ('d query_env \<Rightarrow> 'd handler)) list" where
  "CORE_QUERY_HANDLERS =
     [(''get'', handle_get), (''health'', handle_health), (''get_next_nonce'', handle_get_next_nonce),
      (''contract_source'', handle_contract_source), (''contract_ir'', handle_contract_ir),
      (''contract_methods'', handle_contract_methods), (''contract_vars'', handle_contract_vars),
      (''contract_info'', handle_contract_info), (''contracts'', handle_contracts), (''ping'', handle_ping),
      (''perf_status'', handle_perf_status), (''simulate_tx'', handle_simulate_tx),
      (''state_patch_bundles'', handle_state_patch_bundles), (''scheduled_state_patches'', handle_scheduled_state_patches),
      (''keys'', handle_keys), (''validators_policy'', handle_validators_policy),
      (''validators_active'', handle_validators_active), (''validators_candidates'', handle_validators_candidates),
      (''validators_validator'', handle_validators_validator), (''validators_pending_unbonds'', handle_validators_pending_unbonds),
      (''validators_open_votes'', handle_validators_open_votes), (''validators_vote'', handle_validators_vote),
      (''validators_vote_records'', handle_validators_vote_records)]"

definition BDS_QUERY_HANDLERS :: "(string \<times> ('d query_env \<Rightarrow> 'd handler)) list" where
  "BDS_QUERY_HANDLERS =
     [(''blocks'', handle_blocks), (''bds_status'', handle_bds_status), (''bds_spool'', handle_bds_spool), (''block'', handle_block),
      (''block_by_hash'', handle_block_by_hash), (''tx'', handle_tx), (''txs_for_block'', handle_txs_for_block),
      (''txs_by_sender'', handle_txs_by_sender), (''addresses'', handle_addresses), (''txs_by_contract'', handle_txs_by_contract),
      (''events_for_tx'', handle_events_for_tx), (''shielded_output_tags'', handle_shielded_output_tags),
      (''shielded_wallet_history'', handle_shielded_wallet_history), (''events'', handle_events),
      (''recent_events'', handle_recent_events), (''dex_candles'', handle_dex_candles), (''state'', handle_state),
      (''token_contracts'', handle_token_contracts), (''token_balances'', handle_token_balances),
      (''state_history'', handle_state_history), (''state_previous'', handle_state_previous),
      (''state_for_tx'', handle_state_for_tx), (''state_for_block'', handle_state_for_block),
      (''state_patches'', handle_state_patches), (''state_patches_for_block'', handle_state_patches_for_block),
      (''state_patch'', handle_state_patch), (''state_changes_for_patch'', handle_state_changes_for_patch),
      (''developer_rewards'', handle_developer_rewards), (''contract_summary'', handle_contract_summary)]"

text \<open>An unknown route is told apart from the other failures.\<close>

datatype query_failure = UnknownQueryPath string | QueryFailed exc

definition execute_query :: "'d query_env \<Rightarrow> query_ctx \<Rightarrow> 'd query_state \<Rightarrow> (query_failure + query_result) \<times> 'd query_state" where
  "execute_query Q cx s =
     (let run = (\<lambda>h. case h Q cx s of (Inl e, s') \<Rightarrow> (Inl (QueryFailed e), s') | (Inr r, s') \<Rightarrow> (Inr r, s')) in
      case map_of CORE_QUERY_HANDLERS (cx_route cx) of
        Some h \<Rightarrow> run h
      | None \<Rightarrow>
          (case if ae_bds_enabled (qe_app Q) then map_of BDS_QUERY_HANDLERS (cx_route cx) else None of
             Some h \<Rightarrow> run h
           | None \<Rightarrow> (Inl (UnknownQueryPath (''Unknown query path: '' @ cx_route cx)), s)))"

definition encode_query_value :: "'d query_env \<Rightarrow> pyval \<Rightarrow> (string option \<times> string option) res" where
  "encode_query_value Q result =
     (let J = vm_json (px_vm (qe_proc Q)); T = qe_text Q;
          as_json = (\<lambda>kind. rbind (encode_abci_json J result) (\<lambda>t. Inr (Some t, Some kind))) in
      if result = PNone then Inr (None, None)
      else if je_is_wrapper_set J result then as_json ''dict''
      else case result of
             PBool b \<Rightarrow> Inr (Some (if b then ''True'' else ''False''), Some ''bool'')
           | PStr t \<Rightarrow> Inr (Some t, Some ''str'')
           | PInt i \<Rightarrow> Inr (Some (str_int i), Some ''int'')
           | PFloat t \<Rightarrow> Inr (Some t, Some ''decimal'')
           | PDec _ \<Rightarrow> Inr (Some (py_str T result), Some ''decimal'')
           | PDict _ \<Rightarrow> as_json ''dict''
           | PList _ \<Rightarrow> as_json ''list''
           | _ \<Rightarrow> Inr (Some (py_str T result), Some ''str''))"

section \<open>The request\<close>

record query_request =
  rq_path :: string
  rq_height :: int
  rq_prove :: bool

record query_response =
  qp_code :: int
  qp_height :: int
  qp_value :: "string option"
  qp_info :: "string option"
  qp_key :: string
  qp_log :: string

definition error_response :: "int \<Rightarrow> string \<Rightarrow> query_response" where
  "error_response height message =
     \<lparr>qp_code = ErrorCode, qp_height = height, qp_value = None, qp_info = None, qp_key = [], qp_log = message\<rparr>"

definition query_context :: "string \<Rightarrow> query_ctx" where
  "query_context path =
     (let parts = filter (\<lambda>p. p \<noteq> []) (split_on CHR ''/'' path) in
      \<lparr>cx_path_parts = parts, cx_params = query_params parts, cx_route = (if parts = [] then [] else hd parts),
       cx_key = (if length parts > 1 then parts ! 1 else [])\<rparr>)"

definition answer_query :: "'d query_env \<Rightarrow> int \<Rightarrow> query_ctx \<Rightarrow> 'd query_state \<Rightarrow> query_response \<times> 'd query_state" where
  "answer_query Q height cx s =
     (case execute_query Q cx s of
        (Inl (UnknownQueryPath message), s) \<Rightarrow> ((error_response height message)\<lparr>qp_value := Some [CHR 0x00]\<rparr>, s)
      | (Inl (QueryFailed e), s) \<Rightarrow> (error_response height [], s)
      | (Inr outcome, s) \<Rightarrow>
          (case encode_query_value Q (qr_result outcome) of
             Inl e \<Rightarrow> (error_response height [], s)
           | Inr (v, type_of_data) \<Rightarrow>
               (\<lparr>qp_code = OkCode, qp_height = height, qp_value = v, qp_info = type_of_data,
                 qp_key = (case qr_key outcome of Some k \<Rightarrow> k | None \<Rightarrow> cx_key cx), qp_log = []\<rparr>, s)))"

definition query :: "'d query_env \<Rightarrow> query_request \<Rightarrow> ('d query_state, query_response) step" where
  "query Q req s =
     (case get_committed_latest_block (qe_text Q) (qe_driver Q) (qs_driver s) of
        Inl e \<Rightarrow> (Inl e, s)
      | Inr committed \<Rightarrow>
          let height = lb_height committed in
          if rq_height req \<noteq> 0 \<and> rq_height req \<noteq> height
          then (Inr (error_response height (''Unsupported query height '' @ str_int (rq_height req) @ ''; only latest committed height ''
                  @ str_int height @ '' is available (height=0 selects latest)'')), s)
          else if rq_prove req
          then (Inr (error_response height ''Merkle proof queries are not supported; use prove=false''), s)
          else case answer_query Q height (query_context (rq_path req)) s of (r, s') \<Rightarrow> (Inr r, s'))"

section \<open>Queries leave the node alone\<close>

text \<open>
  Everything but the reservations of nonces, the cache of prepared contracts, and a mirror file
  that was missing and has been created with the default block.
\<close>

definition undisturbed :: "'d query_env \<Rightarrow> 'd query_state \<Rightarrow> 'd query_state \<Rightarrow> bool" where
  "undisturbed Q s s' \<longleftrightarrow>
     same_state (qe_driver Q) (qs_driver s') (qs_driver s) \<and> ps_chi_cost (ap_proc (qs_app s')) = ps_chi_cost (ap_proc (qs_app s)) \<and>
     ap_root (qs_app s') = ap_root (qs_app s) \<and> ap_meta (qs_app s') = ap_meta (qs_app s) \<and>
     ap_merkle_root (qs_app s') = ap_merkle_root (qs_app s) \<and> ap_staged (qs_app s') = ap_staged (qs_app s) \<and>
     mirror_kept (ap_mirror (qs_app s)) (ap_mirror (qs_app s')) \<and> qs_service s' = qs_service s"

text \<open>What the simulation worker may do to the mirror file.\<close>

definition worker_kept :: "'d query_env \<Rightarrow> bool" where
  "worker_kept Q \<longleftrightarrow> (\<forall>task m. mirror_kept m (snd (qe_worker Q task m)))"

definition quiet :: "'d query_env \<Rightarrow> ('d query_state, 'a) step \<Rightarrow> bool" where
  "quiet Q m \<longleftrightarrow> (\<forall>s. undisturbed Q s (snd (m s)) \<and> ap_nonces (qs_app (snd (m s))) = ap_nonces (qs_app s))"

named_theorems quiet_intros "handlers that leave the node alone"

lemma undisturbed_refl [simp]: "undisturbed Q s s"
  by (simp add: undisturbed_def)

lemma undisturbed_trans: "undisturbed Q a b \<Longrightarrow> undisturbed Q b c \<Longrightarrow> undisturbed Q a c"
  unfolding undisturbed_def by (auto intro: same_state_trans mirror_kept_trans)

lemma quiet_sret [quiet_intros]: "quiet Q (sret x)"
  by (simp add: quiet_def sret_def)

lemma quiet_reading [quiet_intros]: "quiet Q (reading f)"
  by (simp add: quiet_def reading_def)

lemma quiet_pure [quiet_intros]: "quiet Q (\<lambda>s. (f s, s))"
  by (simp add: quiet_def)

lemma quiet_sbind [quiet_intros]:
  assumes "quiet Q m" "\<And>x. quiet Q (f x)"
  shows "quiet Q (sbind m f)"
proof -
  have "undisturbed Q s (snd (sbind m f s)) \<and> ap_nonces (qs_app (snd (sbind m f s))) = ap_nonces (qs_app s)" for s
  proof -
    obtain r s1 where m: "m s = (r, s1)" by fastforce
    then have 1: "undisturbed Q s s1" "ap_nonces (qs_app s1) = ap_nonces (qs_app s)" using assms(1) unfolding quiet_def by (metis snd_conv)+
    show ?thesis
    proof (cases r)
      case (Inl e)
      with m 1 show ?thesis by (simp add: sbind_def)
    next
      case (Inr x)
      have "undisturbed Q s1 (snd (f x s1))" "ap_nonces (qs_app (snd (f x s1))) = ap_nonces (qs_app s1)"
        using assms(2) unfolding quiet_def by blast+
      with m 1 Inr show ?thesis by (auto simp: sbind_def intro: undisturbed_trans)
    qed
  qed
  then show ?thesis by (simp add: quiet_def)
qed

lemma quiet_smap [quiet_intros]: "(\<And>x. quiet Q (f x)) \<Longrightarrow> quiet Q (smap f xs)"
  by (induction xs) (auto intro!: quiet_intros)

lemma run_view_disk:
  assumes "vm_confined (qe_driver Q) (px_vm (qe_proc Q))" "run_view Q cx c f kw s = (r, p, m)"
  shows "mirror_kept (ap_mirror (qs_app s)) m \<and> d_value_from_disk (qe_driver Q) (ps_driver p) = d_value_from_disk (qe_driver Q) (qs_driver s) \<and>
    ps_chi_cost p = ps_chi_cost (ap_proc (qs_app s))"
proof -
  let ?E = "qe_proc Q" and ?p = "ap_proc (qs_app s)"
  have disk: "d_value_from_disk (qe_driver Q) d' = d_value_from_disk (qe_driver Q) d" if "execute_vm_contract (px_vm ?E) d rq = (x, d')" for d rq x d'
    by (rule execute_vm_contract_returns [OF assms(1), of d rq]) (use that in simp)
  consider "prepare_vm_contract (px_fuel ?E) (px_vm ?E) (ps_driver ?p) c (ps_prepared ?p) = None"
    | e cache where "prepare_vm_contract (px_fuel ?E) (px_vm ?E) (ps_driver ?p) c (ps_prepared ?p) = Some (Inl e, cache)"
    | u cache where "prepare_vm_contract (px_fuel ?E) (px_vm ?E) (ps_driver ?p) c (ps_prepared ?p) = Some (Inr u, cache)"
    by (metis old.sum.exhaust option.exhaust surj_pair)
  then show ?thesis
  proof cases
    case (3 u cache)
    obtain env m1 where env: "make_vm_query_environment Q cx s = (env, m1)" by fastforce
    then have "mirror_kept (ap_mirror (qs_app s)) m1"
      by (auto simp: make_vm_query_environment_def Let_def dest: get_latest_block_mirror(3) split: option.splits sum.splits prod.splits)
    moreover obtain x d' where x: "execute_vm_contract (px_vm ?E) (ps_driver ?p)
        \<lparr>rq_sender = PStr (if cx_key cx = [] then ''__query__'' else cx_key cx), rq_contract = c, rq_function = f, rq_kwargs = PDict kw,
         rq_environment = env, rq_meter = False, rq_chi_budget = 0, rq_size_bytes = 0\<rparr> = (x, d')"
      by fastforce
    have "p = ?p\<lparr>ps_driver := d', ps_prepared := cache\<rparr>" "m = m1" using assms(2) by (simp_all add: run_view_def Let_def 3 env x)
    ultimately show ?thesis using disk [OF x] by simp
  qed (use assms(2) in \<open>auto simp: run_view_def Let_def\<close>)
qed

lemma quiet_call_contract_view:
  assumes "driver_laws (qe_driver Q)" "vm_confined (qe_driver Q) (px_vm (qe_proc Q))"
  shows "quiet Q (call_contract_view Q cx c f kw)"
proof -
  have "undisturbed Q s (snd (call_contract_view Q cx c f kw s)) \<and>
      ap_nonces (qs_app (snd (call_contract_view Q cx c f kw s))) = ap_nonces (qs_app s)" for s
  proof -
    obtain r p m where run: "run_view Q cx c f kw s = (r, p, m)" by (metis prod.collapse)
    from run_view_disk [OF assms(2) run] assms(1) show ?thesis
      by (simp add: call_contract_view_def run Let_def undisturbed_def same_state_def driver_simps)
  qed
  then show ?thesis by (simp add: quiet_def)
qed

lemma quiet_views:
  assumes "driver_laws (qe_driver Q)" "vm_confined (qe_driver Q) (px_vm (qe_proc Q))"
  shows "quiet Q (viewing Q cx f kw)" "quiet Q (resolve_pending_unbonds Q cx)"
proof -
  note view = quiet_call_contract_view [OF assms]
  show "quiet Q (viewing Q cx f kw)" unfolding viewing_def by (intro quiet_intros view)
  have "quiet Q (pending_unbond Q cx i)" for i unfolding pending_unbond_def by (intro quiet_intros view)
  then have "quiet Q (if v = PNone then sret PNone
     else sbind (\<lambda>s. (iterate (py_or v (PList [])), s)) (\<lambda>ids.
          sbind (smap (pending_unbond Q cx) ids) (\<lambda>unbonds. sret (PList (List.map_filter (\<lambda>u. u) unbonds)))))" for v
    by (auto intro!: quiet_intros)
  then show "quiet Q (resolve_pending_unbonds Q cx)" unfolding resolve_pending_unbonds_def by (intro quiet_sbind view)
qed

lemma quiet_simulate:
  assumes "worker_kept Q"
  shows "quiet Q (handle_simulate_tx Q cx)"
proof -
  have "undisturbed Q s (snd (handle_simulate_tx Q cx s)) \<and> ap_nonces (qs_app (snd (handle_simulate_tx Q cx s))) = ap_nonces (qs_app s)" for s
  proof (cases "path_part cx (Suc 0)")
    case (Inr raw)
    obtain r sv where a: "admit_simulation (vm_loads (px_vm (qe_proc Q))) (block_meta_to_py (ap_meta (qs_app s)))
        (d_snapshot_state (qe_driver Q) (qs_driver s)) raw (qs_service s) = (r, sv)" by fastforce
    then show ?thesis
    proof (rule admit_simulation_cases)
      fix payload task assume r: "r = Admitted payload task" "sv = (qs_service s)\<lparr>sv_active_requests := sv_active_requests (qs_service s) + 1\<rparr>"
      obtain run m where w: "qe_worker Q task (ap_mirror (qs_app s)) = (run, m)" by fastforce
      then have "mirror_kept (ap_mirror (qs_app s)) m" using assms unfolding worker_kept_def by (metis snd_conv)
      then show ?thesis by (simp add: handle_simulate_tx_def Inr a r w end_simulation_def undisturbed_def same_state_def)
    qed (simp add: handle_simulate_tx_def Inr a undisturbed_def same_state_def)
  qed (simp add: handle_simulate_tx_def)
  then show ?thesis by (simp add: quiet_def)
qed

lemma quiet_bds_status: "quiet Q (handle_bds_status Q cx)"
  by (auto simp: quiet_def handle_bds_status_def current_bds_block_height_def undisturbed_def same_state_def rbind_Inr_iff
      dest: get_latest_block_mirror(2) split: sum.split option.splits)

lemma quiet_bds [quiet_intros]: "quiet Q (ask_bds Q call)" "quiet Q (ask_bds_list Q c rest)"
  by (simp_all add: ask_bds_def ask_bds_list_def quiet_intros)

text \<open>The one handler that is not quiet drops the expired reservations of one sender.\<close>

lemma core_handlers_quiet:
  assumes "driver_laws (qe_driver Q)" "vm_confined (qe_driver Q) (px_vm (qe_proc Q))"
    and "worker_kept Q" "(route, h) \<in> set CORE_QUERY_HANDLERS" "route \<noteq> ''get_next_nonce''"
  shows "quiet Q (h Q cx)"
proof -
  note defs = handle_get_def handle_health_def handle_contract_source_def handle_contract_ir_def handle_contract_methods_def
    handle_contract_vars_def handle_contract_info_def handle_contracts_def handle_ping_def handle_perf_status_def
    handle_state_patch_bundles_def handle_scheduled_state_patches_def handle_validators_policy_def
    handle_validators_active_def handle_validators_candidates_def handle_validators_validator_def
    handle_validators_open_votes_def handle_validators_vote_def handle_validators_vote_records_def
  have "quiet Q (handle_keys Q cx)" by (simp add: quiet_def handle_keys_def)
  moreover have "quiet Q (handle_validators_pending_unbonds Q cx)"
    unfolding handle_validators_pending_unbonds_def by (intro quiet_intros quiet_views(2) [OF assms(1,2)])
  ultimately show ?thesis
    using assms(4,5) quiet_simulate [OF assms(3), of cx] quiet_views(1) [OF assms(1,2)]
    by (auto simp: CORE_QUERY_HANDLERS_def defs quiet_intros)
qed

lemma bds_handlers_quiet:
  assumes "(route, h) \<in> set BDS_QUERY_HANDLERS"
  shows "quiet Q (h Q cx)"
  using assms
  by (auto simp: BDS_QUERY_HANDLERS_def quiet_intros quiet_bds_status handle_blocks_def handle_bds_spool_def handle_block_def
    handle_block_by_hash_def handle_tx_def handle_txs_for_block_def handle_txs_by_sender_def handle_addresses_def
    handle_txs_by_contract_def handle_events_for_tx_def handle_shielded_output_tags_def handle_shielded_wallet_history_def
    handle_events_def handle_recent_events_def handle_dex_candles_def handle_state_def handle_token_balances_def
    handle_token_contracts_def handle_state_history_def handle_state_previous_def handle_state_for_tx_def
    handle_state_for_block_def handle_state_patches_def handle_state_patches_for_block_def handle_state_patch_def
    handle_state_changes_for_patch_def handle_developer_rewards_def handle_contract_summary_def)

lemma execute_query_frame:
  fixes Q :: "'d query_env"
  assumes "driver_laws (qe_driver Q)" "vm_confined (qe_driver Q) (px_vm (qe_proc Q))" "worker_kept Q" "execute_query Q cx s = (r, s')"
  shows "undisturbed Q s s' \<and>
    (ap_nonces (qs_app s') = ap_nonces (qs_app s) \<or>
     ap_nonces (qs_app s') = prune_pending_for_sender (qe_now Q) (cx_key cx) (ap_nonces (qs_app s)))"
proof -
  have quiet: "undisturbed Q s s' \<and> ap_nonces (qs_app s') = ap_nonces (qs_app s)"
    if "quiet Q m" "s' = snd (m s)" for m :: "('d query_state, query_result) step" using that by (simp add: quiet_def)
  consider h where "map_of CORE_QUERY_HANDLERS (cx_route cx) = Some h" "s' = snd (h Q cx s)"
    | h where "map_of BDS_QUERY_HANDLERS (cx_route cx) = Some h" "s' = snd (h Q cx s)"
    | "s' = s"
    using assms(4) by (auto simp: execute_query_def Let_def split: option.splits prod.splits sum.splits if_splits)
  then show ?thesis
  proof cases
    case (1 h)
    show ?thesis
    proof (cases "cx_route cx = ''get_next_nonce''")
      case True
      with 1(1) have "h = handle_get_next_nonce" by (simp add: CORE_QUERY_HANDLERS_def)
      with 1(2) show ?thesis by (simp add: handle_get_next_nonce_def get_next_nonce_eq undisturbed_def)
    next
      case False
      with core_handlers_quiet [OF assms(1-3) map_of_SomeD [OF 1(1)]] quiet [of "h Q cx", OF _ 1(2)] show ?thesis by blast
    qed
  next
    case (2 h)
    with bds_handlers_quiet [OF map_of_SomeD [OF 2(1)]] quiet [of "h Q cx", OF _ 2(2)] show ?thesis by blast
  qed simp
qed

lemma answer_query_state: "snd (answer_query Q height cx s) = snd (execute_query Q cx s)"
  by (auto simp: answer_query_def split: prod.splits sum.splits query_failure.splits)

lemma answer_query_height: "qp_height (fst (answer_query Q height cx s)) = height"
  by (auto simp: answer_query_def error_response_def split: prod.splits sum.splits query_failure.splits)

section \<open>Properties\<close>


text \<open>The simulation worker of the node keeps to its part of this.\<close>

lemma worker_main_kept:
  assumes "driver_laws (px_driver E)" and "vm_confined (px_driver E) (px_vm E)"
  shows "mirror_kept m (snd (snd (worker_main E io_ok m storage task)))"
  using simulate_frame [OF assms] unfolding worker_main_def by (metis prod.collapse)

text \<open>A query is always answered, at the committed height: when the commit marker can be read, the response
  carries its height, whatever the handlers do; requests for another height and requests for a
  proof are refused with an error and leave the state untouched.\<close>

theorem query_answers_at_committed_height:
  assumes "get_committed_latest_block (qe_text Q) (qe_driver Q) (qs_driver s) = Inr lb"
  shows "\<exists>resp s'. query Q req s = (Inr resp, s') \<and> qp_height resp = lb_height lb \<and>
    (rq_prove req \<or> (rq_height req \<noteq> 0 \<and> rq_height req \<noteq> lb_height lb) \<longrightarrow> qp_code resp = ErrorCode \<and> s' = s)"
  using answer_query_height [of Q "lb_height lb" "query_context (rq_path req)" s]
  by (auto simp: query_def assms Let_def error_response_def split: prod.split)

text \<open>A finalized block is invisible to reads until it is committed: after a successful FinalizeBlock the
  route \<^verbatim>\<open>get\<close> still answers with the value that was on disk before the block.\<close>

theorem finalized_block_hidden_from_get:
  assumes "node_ok (qe_app Q)" and "finalize_block (qe_app Q) req (qs_app s) = (Inr r, st')" and "k \<noteq> []" and "CHR ''/'' \<notin> set k"
  shows "fst (handle_get Q (query_context (''get/'' @ k)) (s\<lparr>qs_app := st'\<rparr>)) =
    Inr (answer (d_value_from_disk (qe_driver Q) (qs_driver s) k))"
proof -
  note laws = node_okD(1) [OF assms(1)]
  obtain meta st0 x s1 c staged rest where f:
    "initialize_block (qe_app Q) req (qs_app s) = (meta, st0)" "block_step (qe_app Q) meta req st0 = (Inr x, s1)"
    "d_detach_pending_state (qe_driver Q) (ap_driver s1) = (staged, rest)"
    "st' = set_driver rest (s1\<lparr>ap_root := c, ap_merkle_root := Some (fb_app_hash r), ap_staged := Some staged\<rparr>)"
    using assms(2) by (rule finalize_success)
  have "d_pending_writes (qe_driver Q) rest = []" "d_value_from_disk (qe_driver Q) rest = d_value_from_disk (qe_driver Q) (ap_driver s1)"
    using driver_lawsD(11,12) [OF laws, of "ap_driver s1"] by (simp_all add: f(3))
  moreover have "keeps (qe_app Q) st0 s1" using framed_block_step [OF assms(1), of meta req] f(2) by (metis framed_def snd_conv)
  then have "d_value_from_disk (qe_driver Q) (ap_driver s1) = d_value_from_disk (qe_driver Q) (qs_driver s)"
    using initialize_block_simps(2) [OF f(1)] by (simp add: keeps_def)
  ultimately have "d_get (qe_driver Q) (ap_driver st') k = d_value_from_disk (qe_driver Q) (qs_driver s) k"
    using driver_get_split [OF laws, of rest k] by (simp add: f(4))
  moreover have "split_on CHR ''/'' k = [k]" using assms(4) by (induction k) auto
  ultimately show ?thesis
    using assms(3) by (simp add: handle_get_def reading_def path_part_def query_context_def Let_def)
qed

definition sample_query :: "mem_db query_env" where
  "sample_query =
     \<lparr>qe_app = sample_node, qe_has_contract = None, qe_contract_source = (\<lambda>_ _. PNone), qe_contract_developer = (\<lambda>_ _. PNone),
      qe_contract_deployer = (\<lambda>_ _. PNone), qe_contract_initiator = (\<lambda>_ _. PNone), qe_time_submitted = (\<lambda>_ _. PNone),
      qe_contracts = (\<lambda>_. []), qe_scan_keys = (\<lambda>_ _ _ _. ([], False)), qe_methods_of_source = (\<lambda>_. Inr PNone),
      qe_variables_of_source = (\<lambda>_. Inr PNone),
      qe_time = \<lparr>ti_fromtimestamp = (\<lambda>_. Inr PNone), ti_fromisoformat = (\<lambda>_. Inr PNone), ti_is_naive = (\<lambda>_. False),
                 ti_replace_utc = id, ti_astimezone_utc = id\<rparr>,
      qe_profile = [],
      qe_parallel = \<lparr>pl_enabled = False, pl_workers = 0, pl_min_batch_size = 0, pl_max_speculative_waves = 0,
                     pl_min_wave_acceptance_ratio = PInt 0, pl_low_acceptance_min_wave_size = 0, pl_use_access_estimates = False\<rparr>,
      qe_bds = None, qe_worker = (\<lambda>_ m. (TimedOut, m)), qe_io_ok = True, qe_now = 0\<rparr>"

definition sample_query_state :: "mem_db query_state" where
  "sample_query_state = \<lparr>qs_app = sample_app (mem_driver_start 0), qs_service = sample_service\<rparr>"

lemma sample_query_laws:
  "qe_app sample_query = sample_node" "driver_laws (qe_driver sample_query)" "vm_confined (qe_driver sample_query) (px_vm (qe_proc sample_query))"
  "worker_kept sample_query"
  using sample_node_ok by (simp_all add: sample_query_def node_ok_def worker_kept_def)


lemma sample_committed_block:
  "case get_committed_latest_block (qe_text sample_query) (qe_driver sample_query) (qs_driver sample_query_state) of Inr lb \<Rightarrow> True | _ \<Rightarrow> False"
  by code_simp

theorem query_answers_at_committed_height_witness:
  "\<exists>resp. query sample_query \<lparr>rq_path = ''/health'', rq_height = 0, rq_prove = True\<rparr> sample_query_state = (Inr resp, sample_query_state) \<and>
     qp_code resp = ErrorCode"
proof -
  obtain lb where "get_committed_latest_block (qe_text sample_query) (qe_driver sample_query) (qs_driver sample_query_state) = Inr lb"
    using sample_committed_block by (auto split: sum.splits)
  from query_answers_at_committed_height [OF this, of "\<lparr>rq_path = ''/health'', rq_height = 0, rq_prove = True\<rparr>"] show ?thesis by auto
qed

theorem finalized_block_hidden_from_get_witness:
  "\<exists>r st'. finalize_block sample_node (sample_block [raw0]) (sample_app (mem_driver_start 0)) = (Inr r, st') \<and>
     fst (handle_get sample_query (query_context (''get/'' @ ''con.x'')) (sample_query_state\<lparr>qs_app := st'\<rparr>)) =
       Inr (answer (d_value_from_disk mem_driver (mem_driver_start 0) ''con.x''))"
proof -
  obtain r st' where f: "finalize_block sample_node (sample_block [raw0]) (sample_app (mem_driver_start 0)) = (Inr r, st')"
    using sample_finalize by (auto split: prod.splits sum.splits)
  then have "finalize_block (qe_app sample_query) (sample_block [raw0]) (qs_app sample_query_state) = (Inr r, st')"
    by (simp add: sample_query_laws(1) sample_query_state_def)
  from finalized_block_hidden_from_get [OF _ this, of "''con.x''"] sample_node_ok f show ?thesis
    by (simp add: sample_query_laws(1) sample_query_state_def sample_app_def sample_node_def sample_proc_def)
qed

end
