(* ===== verification/Bds_Tables.thy ===== *)
theory Bds_Tables
  imports Query_Params Execution_Policy
begin

text \<open>
  The tables of the block data service and the statements it runs on them
  (\<^verbatim>\<open>src/src/xian/services/bds/sql.py\<close>), with the values it stores
  (\<^verbatim>\<open>serializer.py\<close>).  A table is the list of its rows in the order of their insertion, or a
  dictionary when an upsert addresses it by its key.  A statement returns what it selects or the
  violation of a constraint.  JSON columns hold the JSON text, columns of time hold microseconds.
  Text sorts by its bytes.  The generated columns of the runtime's numbers and the identity columns other than that of the
  state changes are left out: the order of the rows is the order of their identities.  The
  runtime's own encoder and decoder, the Python parser and the readers of time stamps are the
  fields of \<open>bds_env\<close>.
\<close>

section \<open>The environment\<close>

text \<open>What the sources look at in a parsed contract.\<close>

datatype py_expr = Name string | Call py_expr | OtherExpr

datatype py_stmt =
    Assign "py_expr list" py_expr
  | AnnAssign py_expr "py_expr option"
  | FunctionDef string "py_expr list" "string list" "string list"
  | OtherStmt

record bds_env =
  be_text :: text_env
  be_time :: time_env
  be_encode :: "pyval \<Rightarrow> string res"
  be_loads :: "string \<Rightarrow> pyval res"
  be_convert_dict :: "pyval \<Rightarrow> pyval"
  be_parse :: "string \<Rightarrow> py_stmt list option"
  be_datetime :: "pyval list \<Rightarrow> pyval res"
  be_to_second :: "pyval \<Rightarrow> pyval"
  be_micros :: "pyval \<Rightarrow> int res"
  be_isoformat :: "pyval \<Rightarrow> string"
  be_decimal :: "pyval \<Rightarrow> dec res"
  be_json_copy :: "pyval \<Rightarrow> pyval res"

definition canonical_json_value :: "bds_env \<Rightarrow> pyval \<Rightarrow> pyval res" where
  "canonical_json_value E value = rbind (be_encode E value) (be_loads E)"

definition canonical_json_text :: "bds_env \<Rightarrow> pyval \<Rightarrow> string res" where
  "canonical_json_text E value = rbind (canonical_json_value E value) ascii_json_dumps"

definition canonical_result_value :: "bds_env \<Rightarrow> pyval \<Rightarrow> pyval res" where
  "canonical_result_value E value =
     (if value = PNone \<or> value = PStr ''None'' then Inr PNone else canonical_json_value E value)"

definition canonical_decimal :: "bds_env \<Rightarrow> pyval \<Rightarrow> dec res" where
  "canonical_decimal E value = (case value of PDec d \<Rightarrow> Inr d | _ \<Rightarrow> be_decimal E value)"

definition utc_datetime :: "bds_env \<Rightarrow> pyval \<Rightarrow> pyval" where
  "utc_datetime E value =
     (if ti_is_naive (be_time E) value then ti_replace_utc (be_time E) value
      else ti_astimezone_utc (be_time E) value)"

section \<open>Rows\<close>

text \<open>A value bound to a parameter must have the type of its column.\<close>

definition data_error :: exc where "data_error = OtherError ''DataError''"

definition text_param :: "pyval \<Rightarrow> string res" where
  "text_param v = (case v of PStr s \<Rightarrow> Inr s | _ \<Rightarrow> Inl data_error)"

lemma text_param_Inr [simp]: "text_param v = Inr s \<longleftrightarrow> v = PStr s"
  by (cases v) (auto simp: text_param_def)

definition text_or_null :: "pyval \<Rightarrow> string option res" where
  "text_or_null v = (if v = PNone then Inr None else rbind (text_param v) (Inr \<circ> Some))"

definition int_param :: "nat \<Rightarrow> pyval \<Rightarrow> int res" where
  "int_param bits v =
     (case v of
        PInt i \<Rightarrow> if - (2 ^ (bits - 1)) \<le> i \<and> i < 2 ^ (bits - 1) then Inr i else Inl data_error
      | _ \<Rightarrow> Inl data_error)"

record block_row =
  blk_height :: int
  blk_hash :: string
  blk_time :: int
  blk_time_iso :: int
  blk_tx_count :: int
  blk_app_hash :: string
  blk_created_at :: int

record tx_row =
  txr_hash :: string
  txr_height :: int
  txr_block_hash :: string
  txr_block_time :: int
  txr_index :: int
  txr_sender :: string
  txr_nonce :: int
  txr_contract :: string
  txr_function :: string
  txr_success :: bool
  txr_status_code :: int
  txr_chi_used :: int
  txr_result :: "string option"
  txr_payload :: string
  txr_envelope :: string
  txr_created_at :: int

record address_row =
  adr_tx_count :: int
  adr_first_height :: int
  adr_first_seen :: int
  adr_last_height :: int
  adr_last_index :: int
  adr_last_seen :: int
  adr_last_hash :: string
  adr_last_contract :: string
  adr_last_function :: string
  adr_updated_at :: int

record change_row =
  chg_id :: int
  chg_height :: int
  chg_block_hash :: string
  chg_block_time :: int
  chg_tx_hash :: string
  chg_tx_index :: int
  chg_write_index :: int
  chg_key :: string
  chg_value :: string
  chg_previous_id :: "int option"
  chg_previous_hash :: "string option"
  chg_origin :: string
  chg_created_at :: int

record state_row =
  stt_value :: string
  stt_last_change :: int
  stt_last_hash :: string
  stt_last_height :: int
  stt_updated_at :: int

record event_row =
  evt_height :: int
  evt_tx_hash :: string
  evt_tx_index :: int
  evt_index :: int
  evt_contract :: string
  evt_event :: string
  evt_signer :: string
  evt_caller :: string
  evt_data_indexed :: string
  evt_data :: string
  evt_created_at :: int

record reward_row =
  rwd_height :: int
  rwd_tx_hash :: string
  rwd_tx_index :: int
  rwd_index :: int
  rwd_type :: string
  rwd_recipient :: "string option"
  rwd_source :: "string option"
  rwd_value :: dec
  rwd_created_at :: int

record output_row =
  out_height :: int
  out_tx_hash :: string
  out_tx_index :: int
  out_contract :: string
  out_function :: string
  out_action :: string
  out_index :: int
  out_note_index :: "int option"
  out_commitment :: string
  out_new_root :: string
  out_payload_hash :: string

record contract_row =
  con_last_hash :: string
  con_block :: int
  con_submitted_at :: int
  con_source :: string
  con_xsc001 :: bool

record patch_row =
  pat_hash :: string
  pat_height :: int
  pat_block_hash :: string
  pat_block_time :: int
  pat_count :: int
  pat_patches :: string
  pat_created_at :: int

text \<open>The database.  \<open>db_meta\<close> is None before \<^verbatim>\<open>bds_meta\<close> is created; a tag belongs to an output.\<close>

record bds_db =
  db_meta :: "(string, string) dict option"
  db_tables :: bool
  db_blocks :: "block_row list"
  db_transactions :: "tx_row list"
  db_addresses :: "(string, address_row) dict"
  db_changes :: "change_row list"
  db_change_seq :: int
  db_state :: "(string, state_row) dict"
  db_events :: "event_row list"
  db_rewards :: "reward_row list"
  db_outputs :: "output_row list"
  db_tags :: "(output_row \<times> string \<times> string) list"
  db_contracts :: "(string, contract_row) dict"
  db_patches :: "patch_row list"

definition empty_db :: bds_db where
  "empty_db =
     \<lparr>db_meta = None, db_tables = False, db_blocks = [], db_transactions = [], db_addresses = [], db_changes = [],
      db_change_seq = 1, db_state = [], db_events = [], db_rewards = [], db_outputs = [], db_tags = [],
      db_contracts = [], db_patches = []\<rparr>"

section \<open>Statements that write\<close>

definition SCHEMA_VERSION :: int where "SCHEMA_VERSION = 7"

definition unique_violation :: exc where "unique_violation = OtherError ''UniqueViolationError''"
definition foreign_key_violation :: exc where "foreign_key_violation = OtherError ''ForeignKeyViolationError''"

text \<open>Append a row unless a row with the same key is there; then check the other constraints.\<close>

definition insert_unless :: "bool \<Rightarrow> bool \<Rightarrow> bool \<Rightarrow> (bds_db \<Rightarrow> bds_db) \<Rightarrow> (bds_db, unit) step" where
  "insert_unless conflict unique references add_row db =
     (if conflict then (Inr (), db)
      else if \<not> unique then (Inl unique_violation, db)
      else if \<not> references then (Inl foreign_key_violation, db)
      else (Inr (), add_row db))"

definition has_block :: "bds_db \<Rightarrow> int \<Rightarrow> bool" where
  "has_block db height = list_ex (\<lambda>b. blk_height b = height) (db_blocks db)"

definition has_transaction :: "bds_db \<Rightarrow> string \<Rightarrow> bool" where
  "has_transaction db hash = list_ex (\<lambda>t. txr_hash t = hash) (db_transactions db)"

definition insert_block :: "block_row \<Rightarrow> (bds_db, unit) step" where
  "insert_block row db =
     insert_unless (has_block db (blk_height row)) (\<not> list_ex (\<lambda>b. blk_hash b = blk_hash row) (db_blocks db)) True
       (db_blocks_update (\<lambda>rows. rows @ [row])) db"

definition insert_transaction :: "tx_row \<Rightarrow> (bds_db, unit) step" where
  "insert_transaction row db =
     insert_unless (has_transaction db (txr_hash row))
       (\<not> list_ex (\<lambda>t. txr_height t = txr_height row \<and> txr_index t = txr_index row) (db_transactions db))
       (has_block db (txr_height row)) (db_transactions_update (\<lambda>rows. rows @ [row])) db"

definition upsert_address_activity ::
  "string \<Rightarrow> int \<Rightarrow> int \<Rightarrow> int \<Rightarrow> string \<Rightarrow> string \<Rightarrow> string \<Rightarrow> int \<Rightarrow> (bds_db, unit) step" where
  "upsert_address_activity address height seen tx_index hash contract function_name now db =
     (let excluded = \<lparr>adr_tx_count = 1, adr_first_height = height, adr_first_seen = seen, adr_last_height = height,
                      adr_last_index = tx_index, adr_last_seen = seen, adr_last_hash = hash,
                      adr_last_contract = contract, adr_last_function = function_name, adr_updated_at = now\<rparr>;
          merged = (case map_of (db_addresses db) address of
             None \<Rightarrow> excluded
           | Some row \<Rightarrow>
               let newest = (if adr_last_height row < height \<or> adr_last_height row = height \<and> adr_last_index row \<le> tx_index
                             then excluded else row) in
               newest\<lparr>adr_tx_count := adr_tx_count row + 1, adr_first_height := min (adr_first_height row) height,
                      adr_first_seen := min (adr_first_seen row) seen, adr_updated_at := now\<rparr>)
      in if has_transaction db hash then (Inr (), db\<lparr>db_addresses := AList.update address merged (db_addresses db)\<rparr>)
         else (Inl foreign_key_violation, db))"

text \<open>The identity of a change is drawn from a sequence, which no rollback turns back.\<close>

definition insert_state_change :: "(int \<Rightarrow> change_row) \<Rightarrow> (bds_db, int) step" where
  "insert_state_change row_of db =
     (let change_id = db_change_seq db; row = row_of change_id; db' = db\<lparr>db_change_seq := change_id + 1\<rparr> in
      if list_ex (\<lambda>c. chg_height c = chg_height row \<and> chg_tx_index c = chg_tx_index row \<and>
                      chg_write_index c = chg_write_index row) (db_changes db) then (Inl unique_violation, db')
      else if \<not> (has_block db (chg_height row) \<and> has_transaction db (chg_tx_hash row)) then (Inl foreign_key_violation, db')
      else (Inr change_id, db'\<lparr>db_changes := db_changes db @ [row]\<rparr>))"

definition upsert_state :: "string \<Rightarrow> state_row \<Rightarrow> (bds_db, unit) step" where
  "upsert_state key row db = (Inr (), db\<lparr>db_state := AList.update key row (db_state db)\<rparr>)"

definition insert_event :: "event_row \<Rightarrow> (bds_db, unit) step" where
  "insert_event row db =
     insert_unless (list_ex (\<lambda>e. evt_tx_hash e = evt_tx_hash row \<and> evt_index e = evt_index row) (db_events db)) True
       (has_block db (evt_height row) \<and> has_transaction db (evt_tx_hash row))
       (db_events_update (\<lambda>rows. rows @ [row])) db"

definition insert_reward :: "reward_row \<Rightarrow> (bds_db, unit) step" where
  "insert_reward row db =
     insert_unless
       (list_ex (\<lambda>r. rwd_height r = rwd_height row \<and> rwd_tx_index r = rwd_tx_index row \<and> rwd_index r = rwd_index row)
          (db_rewards db)) True
       (has_block db (rwd_height row) \<and> has_transaction db (rwd_tx_hash row))
       (db_rewards_update (\<lambda>rows. rows @ [row])) db"

definition insert_shielded_output :: "output_row \<Rightarrow> (bds_db, unit) step" where
  "insert_shielded_output row db =
     insert_unless (list_ex (\<lambda>r. out_tx_hash r = out_tx_hash row \<and> out_index r = out_index row) (db_outputs db)) True
       (has_block db (out_height row) \<and> has_transaction db (out_tx_hash row))
       (db_outputs_update (\<lambda>rows. rows @ [row])) db"

definition insert_shielded_output_tag :: "output_row \<Rightarrow> string \<Rightarrow> string \<Rightarrow> (bds_db, unit) step" where
  "insert_shielded_output_tag row kind tag db =
     insert_unless
       (list_ex (\<lambda>(r, k, t). out_tx_hash r = out_tx_hash row \<and> out_index r = out_index row \<and> k = kind \<and> t = tag)
          (db_tags db)) True
       (has_block db (out_height row) \<and> has_transaction db (out_tx_hash row))
       (db_tags_update (\<lambda>rows. rows @ [(row, kind, tag)])) db"

definition upsert_contract :: "string \<Rightarrow> contract_row \<Rightarrow> (bds_db, unit) step" where
  "upsert_contract name row db =
     (if has_transaction db (con_last_hash row) \<and> has_block db (con_block row)
      then (Inr (), db\<lparr>db_contracts := AList.update name row (db_contracts db)\<rparr>)
      else (Inl foreign_key_violation, db))"

definition insert_state_patch_record :: "patch_row \<Rightarrow> (bds_db, unit) step" where
  "insert_state_patch_record row db =
     insert_unless (list_ex (\<lambda>p. pat_hash p = pat_hash row) (db_patches db)) True (has_block db (pat_height row))
       (db_patches_update (\<lambda>rows. rows @ [row])) db"

definition upsert_meta :: "string \<Rightarrow> string \<Rightarrow> bds_db \<Rightarrow> bds_db" where
  "upsert_meta key value db =
     db\<lparr>db_meta := Some (AList.update key value (case db_meta db of None \<Rightarrow> [] | Some d \<Rightarrow> d))\<rparr>"

definition drop_all_tables :: "bds_db \<Rightarrow> bds_db" where
  "drop_all_tables db = empty_db"

section \<open>Statements that read\<close>

definition limit_offset :: "int \<Rightarrow> int \<Rightarrow> 'a list \<Rightarrow> 'a list" where
  "limit_offset at_most start rows = take (nat at_most) (drop (nat start) rows)"

definition select_block_identity :: "bds_db \<Rightarrow> int \<Rightarrow> (string \<times> string) option" where
  "select_block_identity db height =
     map_option (\<lambda>b. (blk_hash b, blk_app_hash b)) (List.find (\<lambda>b. blk_height b = height) (db_blocks db))"

definition select_blocks :: "bds_db \<Rightarrow> int \<Rightarrow> int \<Rightarrow> block_row list" where
  "select_blocks db at_most start = limit_offset at_most start (sorted_reverse blk_height (db_blocks db))"

definition select_block_by_height :: "bds_db \<Rightarrow> int \<Rightarrow> block_row option" where
  "select_block_by_height db height = List.find (\<lambda>b. blk_height b = height) (db_blocks db)"

definition select_block_by_hash :: "bds_db \<Rightarrow> string \<Rightarrow> block_row option" where
  "select_block_by_hash db hash = List.find (\<lambda>b. blk_hash b = hash) (db_blocks db)"

definition max_height :: "bds_db \<Rightarrow> int option" where
  "max_height db = (if db_blocks db = [] then None else Some (Max (set (map blk_height (db_blocks db)))))"

definition select_index_status :: "bds_db \<Rightarrow> nat \<times> block_row option \<times> nat" where
  "select_index_status db =
     (length (db_blocks db), (case select_blocks db 1 0 of [] \<Rightarrow> None | b # _ \<Rightarrow> Some b), length (db_transactions db))"

definition select_transaction_by_hash :: "bds_db \<Rightarrow> string \<Rightarrow> tx_row option" where
  "select_transaction_by_hash db hash = List.find (\<lambda>t. txr_hash t = hash) (db_transactions db)"

definition select_transactions_for_block_height :: "bds_db \<Rightarrow> int \<Rightarrow> tx_row list" where
  "select_transactions_for_block_height db height =
     sort_key txr_index (filter (\<lambda>t. txr_height t = height) (db_transactions db))"

definition select_transactions_for_block_hash :: "bds_db \<Rightarrow> string \<Rightarrow> tx_row list" where
  "select_transactions_for_block_hash db hash =
     sort_key txr_index (filter (\<lambda>t. txr_block_hash t = hash) (db_transactions db))"

definition newest_transactions :: "tx_row list \<Rightarrow> tx_row list" where
  "newest_transactions rows = sorted_reverse txr_height (sorted_reverse txr_index rows)"

definition select_transactions_by_sender :: "bds_db \<Rightarrow> string \<Rightarrow> int \<Rightarrow> int \<Rightarrow> tx_row list" where
  "select_transactions_by_sender db sender at_most start =
     limit_offset at_most start (newest_transactions (filter (\<lambda>t. txr_sender t = sender) (db_transactions db)))"

definition select_transactions_by_contract :: "bds_db \<Rightarrow> string \<Rightarrow> int \<Rightarrow> int \<Rightarrow> tx_row list" where
  "select_transactions_by_contract db contract at_most start =
     limit_offset at_most start (newest_transactions (filter (\<lambda>t. txr_contract t = contract) (db_transactions db)))"

definition select_recent_addresses :: "bds_db \<Rightarrow> int \<Rightarrow> int \<Rightarrow> (string \<times> address_row) list" where
  "select_recent_addresses db at_most start =
     limit_offset at_most start
       (sorted_reverse (adr_last_height \<circ> snd) (sorted_reverse (adr_last_index \<circ> snd) (sort_key fst (db_addresses db))))"

definition select_events_for_tx :: "bds_db \<Rightarrow> string \<Rightarrow> event_row list" where
  "select_events_for_tx db hash = sort_key evt_index (filter (\<lambda>e. evt_tx_hash e = hash) (db_events db))"

definition select_events_by_contract_event :: "bds_db \<Rightarrow> string \<Rightarrow> string \<Rightarrow> int \<Rightarrow> int \<Rightarrow> event_row list" where
  "select_events_by_contract_event db contract event at_most start =
     limit_offset at_most start
       (sorted_reverse evt_height (sorted_reverse evt_tx_index (sorted_reverse evt_index
          (filter (\<lambda>e. evt_contract e = contract \<and> evt_event e = event) (db_events db)))))"

definition select_contracts :: "bds_db \<Rightarrow> int \<Rightarrow> int \<Rightarrow> (string \<times> contract_row) list" where
  "select_contracts db at_most start =
     limit_offset at_most start (sort_key (con_block \<circ> snd) (sort_key fst (db_contracts db)))"

definition select_state_history :: "bds_db \<Rightarrow> string \<Rightarrow> int \<Rightarrow> int \<Rightarrow> change_row list" where
  "select_state_history db key at_most start =
     limit_offset at_most start
       (sorted_reverse chg_height (sorted_reverse chg_tx_index (sorted_reverse chg_write_index
          (filter (\<lambda>c. chg_key c = key) (db_changes db)))))"

text \<open>The current row of a key joined with its last change and the change that one points to.\<close>

definition select_state_previous :: "bds_db \<Rightarrow> string \<Rightarrow> (state_row \<times> change_row \<times> change_row option) option" where
  "select_state_previous db key =
     Option.bind (map_of (db_state db) key) (\<lambda>s.
     Option.bind (List.find (\<lambda>c. chg_id c = stt_last_change s) (db_changes db)) (\<lambda>latest.
     Some (s, latest, Option.bind (chg_previous_id latest) (\<lambda>i. List.find (\<lambda>c. chg_id c = i) (db_changes db)))))"

definition select_state_tx :: "bds_db \<Rightarrow> string \<Rightarrow> change_row list" where
  "select_state_tx db hash = sort_key chg_write_index (filter (\<lambda>c. chg_tx_hash c = hash) (db_changes db))"

definition select_state_block_height :: "bds_db \<Rightarrow> int \<Rightarrow> change_row list" where
  "select_state_block_height db height =
     sort_key chg_tx_index (sort_key chg_write_index (filter (\<lambda>c. chg_height c = height) (db_changes db)))"

definition select_state_block_hash :: "bds_db \<Rightarrow> string \<Rightarrow> change_row list" where
  "select_state_block_hash db hash =
     sort_key chg_tx_index (sort_key chg_write_index (filter (\<lambda>c. chg_block_hash c = hash) (db_changes db)))"

definition select_state_patches :: "bds_db \<Rightarrow> int \<Rightarrow> int \<Rightarrow> patch_row list" where
  "select_state_patches db at_most start =
     limit_offset at_most start (sorted_reverse pat_height (sorted_reverse pat_created_at (db_patches db)))"

definition select_state_patches_for_block :: "bds_db \<Rightarrow> int \<Rightarrow> patch_row list" where
  "select_state_patches_for_block db height =
     sort_key pat_created_at (filter (\<lambda>p. pat_height p = height) (db_patches db))"

definition select_state_patch_by_hash :: "bds_db \<Rightarrow> string \<Rightarrow> patch_row option" where
  "select_state_patch_by_hash db hash = List.find (\<lambda>p. pat_hash p = hash) (db_patches db)"

definition select_state_changes_for_patch :: "bds_db \<Rightarrow> string \<Rightarrow> change_row list" where
  "select_state_changes_for_patch db hash =
     sort_key chg_write_index
       (filter (\<lambda>c. chg_tx_hash c = hash \<and> chg_origin c = ''state_patch'') (db_changes db))"

text \<open>\<^verbatim>\<open>LIKE\<close> on the characters of a text: a percent sign stands for any text, an underscore for any one character and a
  backslash takes the next character literally.\<close>

fun sql_like :: "string list \<Rightarrow> string list \<Rightarrow> bool" where
  "sql_like s [] = (s = [])"
| "sql_like [] (c # p) = (c = ''%'' \<and> sql_like [] p)"
| "sql_like (x # s) (c # p) =
     (if c = ''%'' then sql_like (x # s) p \<or> sql_like s (c # p)
      else case p of
        q # p' \<Rightarrow> if c = [CHR 0x5C] then x = q \<and> sql_like s p' else (c = ''_'' \<or> x = c) \<and> sql_like s p
      | [] \<Rightarrow> (c = ''_'' \<or> x = c) \<and> sql_like s p)"

definition select_state :: "bds_db \<Rightarrow> string \<Rightarrow> int \<Rightarrow> int \<Rightarrow> (string \<times> state_row) list" where
  "select_state db key at_most start =
     limit_offset at_most start
       (sort_key fst (filter (\<lambda>(k, _). sql_like (utf8_chars k) (utf8_chars key @ [''%''])) (db_state db)))"

end
