(* ===== verification/Bds_Shielded.thy ===== *)
theory Bds_Shielded
  imports Bds_Tables
begin

text \<open>
  The index of shielded outputs (\<^verbatim>\<open>src/src/xian/services/bds/shielded.py\<close>): the outputs a
  transaction's events announce, joined with the payloads of its arguments, and the tags of a
  payload under which a wallet finds it.  A value that is not of the shape the code tests for is
  skipped; where the code would raise on it, the model raises.
\<close>

definition normalize_hex_bytes :: "string \<Rightarrow> string res" where
  "normalize_hex_bytes value = fromhex (if take 2 value = ''0x'' then drop 2 value else value)"

definition payload_ciphertexts :: "bds_env \<Rightarrow> string option \<Rightarrow> pyval list" where
  "payload_ciphertexts E payload_hex =
     (case payload_hex of None \<Rightarrow> []
      | Some text_hex \<Rightarrow>
          if text_hex = [] then []
          else case rbind (normalize_hex_bytes text_hex) (\<lambda>b.
                    if utf8_valid b then be_loads E b else Inl (ValueError ''utf-8'')) of
                 Inl _ \<Rightarrow> []
               | Inr decoded \<Rightarrow>
                   (case dget decoded ''ciphertexts'' of
                      Some (PList items) \<Rightarrow> filter is_dict items
                    | _ \<Rightarrow> []))"

definition unpack_blob :: "pyval \<Rightarrow> string list" where
  "unpack_blob blob =
     (case blob of PStr s \<Rightarrow> filter (\<lambda>item. item \<noteq> []) (split_on (CHR ''|'') s) | _ \<Rightarrow> [])"

text \<open>The tags of one ciphertext, in the order of their kinds; the code keeps the first of equal ones.\<close>

definition ciphertext_tags :: "pyval \<Rightarrow> (string \<times> string) list" where
  "ciphertext_tags item =
     concat (map (\<lambda>kind. case dget item kind of
                           Some (PStr tag) \<Rightarrow> if tag = [] then [] else [(kind, tag)]
                         | _ \<Rightarrow> []) [''sync_hint'', ''discovery_tag''])"

definition extract_payload_tags :: "bds_env \<Rightarrow> string option \<Rightarrow> (string \<times> string) list" where
  "extract_payload_tags E payload_hex =
     rev (remdups (rev (concat (map ciphertext_tags (payload_ciphertexts E payload_hex)))))"

text \<open>An output as an event announces it.\<close>

record output_spec =
  os_index :: int
  os_note_index :: "int option"
  os_payload_hash :: string
  os_commitment :: string

definition text_or_empty :: "pyval \<Rightarrow> string" where
  "text_or_empty v = (case v of PStr s \<Rightarrow> s | _ \<Rightarrow> [])"

definition single_output_spec :: "pyval \<Rightarrow> pyval \<Rightarrow> output_spec list" where
  "single_output_spec data_indexed data =
     (case int_value (dget_or data ''output_index'' PNone) of
        None \<Rightarrow> []
      | Some i \<Rightarrow>
          [\<lparr>os_index = i, os_note_index = int_value (dget_or data ''note_index'' PNone),
            os_payload_hash = text_or_empty (dget_or data ''payload_hash'' PNone),
            os_commitment = text_or_empty (dget_or data_indexed ''commitment'' PNone)\<rparr>])"

definition batch_output_specs :: "pyval \<Rightarrow> output_spec list" where
  "batch_output_specs data =
     (let commitments = unpack_blob (dget_or data ''commitments_blob'' PNone);
          payload_hashes = unpack_blob (dget_or data ''payload_hashes_blob'' PNone) in
      case int_value (dget_or data ''note_index_start'' PNone) of
        None \<Rightarrow> []
      | Some first \<Rightarrow>
          let output_count = (case int_value (dget_or data ''output_count'' PNone) of
                                Some n \<Rightarrow> n | None \<Rightarrow> int (length commitments)) in
          if int (length commitments) < output_count \<or> int (length payload_hashes) < output_count then []
          else map (\<lambda>i. \<lparr>os_index = int i, os_note_index = Some (first + int i),
                          os_payload_hash = payload_hashes ! i, os_commitment = commitments ! i\<rparr>)
                 [0..<nat output_count])"

definition output_specs :: "pyval \<Rightarrow> pyval \<Rightarrow> pyval \<Rightarrow> output_spec list" where
  "output_specs event_name data_indexed data =
     (if event_name = PStr ''ShieldedOutputCommitted'' then single_output_spec data_indexed data
      else if event_name = PStr ''ShieldedOutputsCommitted'' then batch_output_specs data
      else [])"

text \<open>\<^verbatim>\<open>event.get(...) or {}\<close>, of which the code then calls \<^verbatim>\<open>get\<close>.\<close>

definition mapping_or_empty :: "pyval \<Rightarrow> string \<Rightarrow> pyval res" where
  "mapping_or_empty event k =
     (let v = py_or (dget_or event k PNone) (PDict []) in
      if is_dict v then Inr v else Inl (OtherError ''AttributeError''))"

definition event_outputs ::
  "string \<Rightarrow> string \<Rightarrow> string \<Rightarrow> int \<Rightarrow> int \<Rightarrow> pyval list \<Rightarrow> pyval \<Rightarrow> (output_row \<times> pyval) list res" where
  "event_outputs contract function_name tx_hash height tx_index output_payloads event =
     (if \<not> is_dict event \<or> dget_or event ''contract'' PNone \<noteq> PStr contract then Inr []
      else rbind (mapping_or_empty event ''data_indexed'') (\<lambda>data_indexed.
           rbind (mapping_or_empty event ''data'') (\<lambda>data.
           Inr (map (\<lambda>s.
                  (\<lparr>out_height = height, out_tx_hash = tx_hash, out_tx_index = tx_index, out_contract = contract,
                    out_function = function_name,
                    out_action = (case dget_or data ''action'' PNone of PStr a \<Rightarrow> a | _ \<Rightarrow> function_name),
                    out_index = os_index s, out_note_index = os_note_index s, out_commitment = os_commitment s,
                    out_new_root = text_or_empty (dget_or data_indexed ''new_root'' PNone),
                    out_payload_hash = os_payload_hash s\<rparr>,
                   output_payloads ! nat (os_index s)))
                (filter (\<lambda>s. 0 \<le> os_index s \<and> os_index s < int (length output_payloads))
                   (output_specs (dget_or event ''event'' PNone) data_indexed data))))))"

definition collect_shielded_outputs ::
  "string \<Rightarrow> string \<Rightarrow> string \<Rightarrow> int \<Rightarrow> int \<Rightarrow> pyval list \<Rightarrow> pyval \<Rightarrow> (output_row \<times> pyval) list res" where
  "collect_shielded_outputs contract function_name tx_hash height tx_index events kwargs =
     (case dget_or kwargs ''output_payloads'' PNone of
        PList output_payloads \<Rightarrow>
          if output_payloads = [] then Inr []
          else rbind (mapR (event_outputs contract function_name tx_hash height tx_index output_payloads) events)
                 (\<lambda>rows. Inr (concat rows))
      | _ \<Rightarrow> Inr [])"

definition payload_text :: "pyval \<Rightarrow> string option" where
  "payload_text v = (case v of PStr s \<Rightarrow> Some s | _ \<Rightarrow> None)"

definition collect_shielded_output_tags ::
  "bds_env \<Rightarrow> string \<Rightarrow> string \<Rightarrow> string \<Rightarrow> int \<Rightarrow> int \<Rightarrow> pyval list \<Rightarrow> pyval \<Rightarrow>
   (output_row \<times> string \<times> string) list res" where
  "collect_shielded_output_tags E contract function_name tx_hash height tx_index events kwargs =
     rbind (collect_shielded_outputs contract function_name tx_hash height tx_index events kwargs) (\<lambda>outputs.
     Inr (concat (map (\<lambda>(row, payload).
       map (\<lambda>(kind, tag). (row, kind, tag)) (extract_payload_tags E (payload_text payload))) outputs)))"

section \<open>What is indexed\<close>

text \<open>Every indexed output belongs to the transaction's own contract and to one of its payloads.\<close>

lemma collect_shielded_outputs_sound:
  assumes "collect_shielded_outputs contract function_name tx_hash height tx_index events kwargs = Inr rows"
    and "(row, payload) \<in> set rows"
  obtains payloads where "dget kwargs ''output_payloads'' = Some (PList payloads)"
    and "out_contract row = contract" "out_tx_hash row = tx_hash"
    and "0 \<le> out_index row" "out_index row < int (length payloads)" "payload = payloads ! nat (out_index row)"
proof -
  obtain payloads where p: "dget kwargs ''output_payloads'' = Some (PList payloads)"
    using assms by (auto simp: collect_shielded_outputs_def dget_or_def split: pyval.splits option.splits)
  then obtain parts where parts: "mapR (event_outputs contract function_name tx_hash height tx_index payloads) events = Inr parts"
      and rows: "rows = concat parts"
    using assms by (auto simp: collect_shielded_outputs_def dget_or_def rbind_Inr_iff split: if_splits)
  from rows assms(2) obtain part where "part \<in> set parts" "(row, payload) \<in> set part" by auto
  moreover obtain event where "event_outputs contract function_name tx_hash height tx_index payloads event = Inr part"
    using mapR_in_set [OF parts \<open>part \<in> set parts\<close>] by blast
  ultimately show ?thesis
    using that [OF p] by (auto simp: event_outputs_def rbind_Inr_iff split: if_splits)
qed

text \<open>The tags of a payload are distinct.\<close>

lemma extract_payload_tags_distinct: "distinct (extract_payload_tags E payload_hex)"
  by (simp add: extract_payload_tags_def)

end
