(* ===== verification/Bds_Store.thy ===== *)
theory Bds_Store
  imports Bds_Shielded
begin

text \<open>
  How the block data service stores a block (the schema, genesis and \<^verbatim>\<open>persist_block\<close> part of
  \<^verbatim>\<open>src/src/xian/services/bds/bds.py\<close>).  A database transaction is a step on the tables and on
  the code's \<^verbatim>\<open>current_index\<close>, which holds the last change of every key that the block touches;
  when it raises, the tables are as before.  \<open>fault\<close> says that the database failed in the middle of
  it.
\<close>

section \<open>Payloads\<close>

record bds_tx =
  bt_index :: int
  bt_envelope :: pyval
  bt_payload :: pyval
  bt_result :: pyval

record bds_payload =
  bp_meta :: pyval
  bp_time :: pyval
  bp_app_hash :: string
  bp_transactions :: "bds_tx list"
  bp_patches :: "pyval list"
  bp_patch_hash :: "string option"
  bp_policy :: pyval

section \<open>Values\<close>

text \<open>A loop over \<^verbatim>\<open>v\<close> and \<^verbatim>\<open>v.get(k, alt)\<close> for any value.\<close>

definition py_iter :: "pyval \<Rightarrow> pyval list res" where
  "py_iter v =
     (case v of
        PList xs \<Rightarrow> Inr xs
      | PTuple xs \<Rightarrow> Inr xs
      | PDict kvs \<Rightarrow> Inr (map fst kvs)
      | PStr s \<Rightarrow> Inr (map PStr (utf8_chars s))
      | _ \<Rightarrow> Inl (TypeError ''object is not iterable''))"

definition py_get :: "pyval \<Rightarrow> string \<Rightarrow> pyval \<Rightarrow> pyval res" where
  "py_get v k alt = (if is_dict v then Inr (dget_or v k alt) else Inl (OtherError ''AttributeError''))"

definition jsonb_param :: "bds_env \<Rightarrow> pyval \<Rightarrow> string res" where
  "jsonb_param E value = canonical_json_text E value"

definition nullable_jsonb_param :: "bds_env \<Rightarrow> pyval \<Rightarrow> string option res" where
  "nullable_jsonb_param E value =
     (if value = PNone then Inr None else rbind (canonical_json_text E value) (Inr \<circ> Some))"

section \<open>Token contracts\<close>

definition XSC001_REQUIRED_EXPORTS :: "(string, string list) dict" where
  "XSC001_REQUIRED_EXPORTS =
     [(''change_metadata'', [''key'', ''value'']), (''transfer'', [''amount'', ''to'']),
      (''approve'', [''amount'', ''to'']), (''transfer_from'', [''amount'', ''to'', ''main_account'']),
      (''balance_of'', [''address''])]"

definition is_name_call :: "py_expr \<Rightarrow> string \<Rightarrow> bool" where
  "is_name_call node name = (node = Call (Name name))"

definition has_export_decorator :: "py_expr list \<Rightarrow> bool" where
  "has_export_decorator decorators = list_ex (\<lambda>d. d = Name ''export'' \<or> is_name_call d ''export'') decorators"

definition assigns_balances_hash :: "py_stmt \<Rightarrow> bool" where
  "assigns_balances_hash node =
     (case node of
        Assign targets value \<Rightarrow> is_name_call value ''Hash'' \<and> Name ''balances'' \<in> set targets
      | AnnAssign target (Some value) \<Rightarrow> is_name_call value ''Hash'' \<and> target = Name ''balances''
      | _ \<Rightarrow> False)"

definition exported_functions :: "py_stmt list \<Rightarrow> (string, string list) dict" where
  "exported_functions body =
     fold (\<lambda>node exported. case node of
             FunctionDef name decorators posonly arguments \<Rightarrow>
               if has_export_decorator decorators then AList.update name (posonly @ arguments) exported else exported
           | _ \<Rightarrow> exported) body []"

definition source_has_xsc001_surface :: "bds_env \<Rightarrow> string \<Rightarrow> bool" where
  "source_has_xsc001_surface E source =
     (case be_parse E source of
        None \<Rightarrow> False
      | Some body \<Rightarrow>
          list_ex assigns_balances_hash body \<and>
          list_all (\<lambda>(name, required). map_of (exported_functions body) name = Some required) XSC001_REQUIRED_EXPORTS)"

section \<open>Contract records\<close>

definition submission_time_from_state_value :: "bds_env \<Rightarrow> pyval \<Rightarrow> pyval option res" where
  "submission_time_from_state_value E value =
     (let fields = (case dget value ''__time__'' of Some (PList xs) \<Rightarrow> xs | Some (PTuple xs) \<Rightarrow> xs | _ \<Rightarrow> []) in
      if 6 \<le> length fields then rbind (be_datetime E (take 6 fields)) (\<lambda>t. Inr (Some (utc_datetime E t)))
      else case value of
        PDatetime _ \<Rightarrow> Inr (Some (utc_datetime E (be_to_second E value)))
      | _ \<Rightarrow> Inr None)"

text \<open>The source and the submission time of every contract that some changes write.\<close>

type_synonym contract_records = "(string, pyval \<times> pyval option) dict"

definition collect_contract_record :: "bds_env \<Rightarrow> pyval \<Rightarrow> contract_records \<Rightarrow> contract_records res" where
  "collect_contract_record E change contracts =
     (case dget change ''key'' of
        Some (PStr key) \<Rightarrow>
          if CHR ''.'' \<notin> set key then Inr contracts
          else
            let (name, variable) = split_once (CHR ''.'') key;
                (source, submitted) = (case map_of contracts name of Some r \<Rightarrow> r | None \<Rightarrow> (PNone, None));
                value = dget_or change ''value'' PNone
            in if variable = ''__source__'' then Inr (AList.update name (value, submitted) contracts)
               else if variable = ''__submitted__'' then
                 rbind (submission_time_from_state_value E value) (\<lambda>t. Inr (AList.update name (source, t) contracts))
               else Inr contracts
      | _ \<Rightarrow> Inr contracts)"

definition collect_contract_records :: "bds_env \<Rightarrow> pyval list \<Rightarrow> contract_records res" where
  "collect_contract_records E changes =
     fold (\<lambda>change acc. rbind acc (collect_contract_record E change)) changes (Inr [])"

definition GENESIS_CREATED_AT :: int where "GENESIS_CREATED_AT = 0"

definition contains_text :: "string \<Rightarrow> string \<Rightarrow> bool" where
  "contains_text needle hay = list_ex (\<lambda>i. take (length needle) (drop i hay) = needle) [0..<length hay]"

text \<open>The time of a genesis contract without a record of its submission, in microseconds.\<close>

fun get_submission_time :: "bds_env \<Rightarrow> pyval list \<Rightarrow> string \<Rightarrow> int res" where
  "get_submission_time E [] name = Inr GENESIS_CREATED_AT"
| "get_submission_time E (item # items) name =
     (if \<not> contains_text ''con_'' name then Inr (if name = ''submission'' then GENESIS_CREATED_AT else 3600 * 1000000)
      else if is_dict item \<and> dget_or item ''key'' PNone = PStr (name @ ''.__submitted__'') then
        rbind (dindex item ''value'') (\<lambda>value.
        rbind (py_get value ''__time__'' PNone) (\<lambda>fields.
        rbind (py_iter fields) (\<lambda>xs.
        rbind (be_datetime E xs) (\<lambda>t. be_micros E (utc_datetime E t)))))
      else get_submission_time E items name)"

section \<open>Storing changes\<close>

record block_ids =
  bi_height :: int
  bi_hash :: string
  bi_nanos :: int
  bi_time :: int

type_synonym change_index = "(string, int \<times> string) dict"
type_synonym 'a work = "(bds_db \<times> change_index, 'a) step"

definition on_db :: "(bds_db, 'a) step \<Rightarrow> 'a work" where
  "on_db m w = (case m (fst w) of (r, db') \<Rightarrow> (r, (db', snd w)))"

definition stored_change ::
  "block_ids \<Rightarrow> string \<Rightarrow> string \<Rightarrow> int \<Rightarrow> int \<Rightarrow> string \<Rightarrow> string \<Rightarrow> (int \<times> string) option \<Rightarrow> int \<Rightarrow> change_row" where
  "stored_change b origin tx_hash tx_index write_index key value previous change_id =
     \<lparr>chg_id = change_id, chg_height = bi_height b, chg_block_hash = bi_hash b, chg_block_time = bi_nanos b,
      chg_tx_hash = tx_hash, chg_tx_index = tx_index, chg_write_index = write_index, chg_key = key,
      chg_value = value, chg_previous_id = map_option fst previous, chg_previous_hash = map_option snd previous,
      chg_origin = origin, chg_created_at = bi_time b\<rparr>"

definition record_change :: "block_ids \<Rightarrow> string \<Rightarrow> string \<Rightarrow> int \<Rightarrow> int \<Rightarrow> string \<Rightarrow> string \<Rightarrow> unit work" where
  "record_change b origin tx_hash tx_index write_index key value w =
     (case insert_state_change (stored_change b origin tx_hash tx_index write_index key value (map_of (snd w) key)) (fst w) of
        (Inl e, db) \<Rightarrow> (Inl e, (db, snd w))
      | (Inr change_id, db) \<Rightarrow>
          on_db (upsert_state key
             \<lparr>stt_value = value, stt_last_change = change_id, stt_last_hash = tx_hash, stt_last_height = bi_height b,
              stt_updated_at = bi_time b\<rparr>) (db, AList.update key (change_id, tx_hash) (snd w)))"

definition persist_change :: "bds_env \<Rightarrow> block_ids \<Rightarrow> string \<Rightarrow> string \<Rightarrow> int \<Rightarrow> nat \<times> pyval \<Rightarrow> unit work" where
  "persist_change E b origin tx_hash tx_index numbered =
     (case numbered of (write_index, change) \<Rightarrow>
        sbind (slift (rbind (dindex change ''key'') text_param)) (\<lambda>key.
        sbind (slift (rbind (dindex change ''value'') (jsonb_param E))) (\<lambda>value.
        record_change b origin tx_hash tx_index (int write_index) key value)))"

definition persist_changes :: "bds_env \<Rightarrow> block_ids \<Rightarrow> string \<Rightarrow> string \<Rightarrow> int \<Rightarrow> pyval list \<Rightarrow> unit work" where
  "persist_changes E b origin tx_hash tx_index changes =
     sbind (smap (persist_change E b origin tx_hash tx_index) (enumerate 0 changes)) (\<lambda>_. sret ())"

section \<open>Storing a transaction\<close>

definition persist_reward ::
  "bds_env \<Rightarrow> block_ids \<Rightarrow> string \<Rightarrow> int \<Rightarrow> nat \<times> string \<times> pyval \<times> pyval \<times> pyval \<Rightarrow> unit work" where
  "persist_reward E b tx_hash tx_index numbered =
     (case numbered of (reward_index, kind, recipient, source, value) \<Rightarrow>
        sbind (slift (text_or_null recipient)) (\<lambda>recipient.
        sbind (slift (text_or_null source)) (\<lambda>source.
        sbind (slift (canonical_decimal E value)) (\<lambda>value.
        on_db (insert_reward
          \<lparr>rwd_height = bi_height b, rwd_tx_hash = tx_hash, rwd_tx_index = tx_index, rwd_index = int reward_index,
           rwd_type = kind, rwd_recipient = recipient, rwd_source = source, rwd_value = value,
           rwd_created_at = bi_time b\<rparr>)))))"

text \<open>The rewards of a result: its records, or else its groups of recipients.\<close>

definition reward_of_record :: "bds_env \<Rightarrow> pyval \<Rightarrow> (string \<times> pyval \<times> pyval \<times> pyval) res" where
  "reward_of_record E r =
     rbind (py_get r ''type'' (PStr [])) (\<lambda>kind.
     Inr (py_str (be_text E) kind, dget_or r ''recipient_key'' PNone, dget_or r ''source_contract'' PNone,
          dget_or r ''value'' (PInt 0)))"

definition py_items :: "pyval \<Rightarrow> (pyval \<times> pyval) list res" where
  "py_items v = (case v of PDict kvs \<Rightarrow> Inr kvs | _ \<Rightarrow> Inl (OtherError ''AttributeError''))"

definition rewards_of_result :: "bds_env \<Rightarrow> pyval \<Rightarrow> (string \<times> pyval \<times> pyval \<times> pyval) list res" where
  "rewards_of_result E tx_result =
     (let records = dget_or tx_result ''reward_records'' PNone in
      if truthy records then rbind (py_iter records) (mapR (reward_of_record E))
      else rbind (py_items (py_or (dget_or tx_result ''rewards'' PNone) (PDict []))) (\<lambda>groups.
           rbind (mapR (\<lambda>(kind, rewards).
                     rbind (text_param kind) (\<lambda>kind. rbind (py_items rewards) (\<lambda>items.
                     Inr (map (\<lambda>(recipient, value). (kind, recipient, PNone, value)) items)))) groups) (\<lambda>parts.
           Inr (concat parts))))"

definition persist_event :: "bds_env \<Rightarrow> block_ids \<Rightarrow> string \<Rightarrow> int \<Rightarrow> nat \<times> pyval \<Rightarrow> unit work" where
  "persist_event E b tx_hash tx_index numbered =
     (case numbered of (event_index, event) \<Rightarrow>
        sbind (slift (py_get event ''contract'' (PStr []))) (\<lambda>contract.
        sbind (slift (jsonb_param E (dget_or event ''data_indexed'' (PDict [])))) (\<lambda>data_indexed.
        sbind (slift (jsonb_param E (dget_or event ''data'' (PDict [])))) (\<lambda>data.
        on_db (insert_event
          \<lparr>evt_height = bi_height b, evt_tx_hash = tx_hash, evt_tx_index = tx_index, evt_index = int event_index,
           evt_contract = py_str (be_text E) contract,
           evt_event = py_str (be_text E) (dget_or event ''event'' (PStr ''ContractEvent'')),
           evt_signer = py_str (be_text E) (dget_or event ''signer'' (PStr [])),
           evt_caller = py_str (be_text E) (dget_or event ''caller'' (PStr [])),
           evt_data_indexed = data_indexed, evt_data = data, evt_created_at = bi_time b\<rparr>)))))"

definition persist_output :: "bds_env \<Rightarrow> output_row \<times> pyval \<Rightarrow> unit work" where
  "persist_output E output =
     (case output of (row, payload) \<Rightarrow>
        sbind (on_db (insert_shielded_output row)) (\<lambda>_.
        sbind (smap (\<lambda>(kind, tag). on_db (insert_shielded_output_tag row kind tag))
                 (extract_payload_tags E (payload_text payload))) (\<lambda>_. sret ())))"

definition persist_outputs :: "bds_env \<Rightarrow> block_ids \<Rightarrow> bds_tx \<Rightarrow> string \<Rightarrow> unit work" where
  "persist_outputs E b tx tx_hash =
     (case dget (bt_payload tx) ''kwargs'' of
        Some (PDict kwargs) \<Rightarrow>
          sbind (slift (py_iter (dget_or (bt_result tx) ''events'' (PList [])))) (\<lambda>events.
          sbind (slift (collect_shielded_outputs
                          (py_str (be_text E) (dget_or (bt_payload tx) ''contract'' (PStr [])))
                          (py_str (be_text E) (dget_or (bt_payload tx) ''function'' (PStr [])))
                          tx_hash (bi_height b) (bt_index tx) events (PDict kwargs))) (\<lambda>outputs.
          sbind (smap (persist_output E) outputs) (\<lambda>_. sret ())))
      | _ \<Rightarrow> sret ())"

definition persist_contract :: "bds_env \<Rightarrow> block_ids \<Rightarrow> string \<Rightarrow> (string \<Rightarrow> int res) \<Rightarrow> string \<times> pyval \<times> pyval option \<Rightarrow> unit work" where
  "persist_contract E b tx_hash submission_time contract_record =
     (case contract_record of (name, source, submitted_at) \<Rightarrow>
        if source = PNone then sret ()
        else
          sbind (slift (case submitted_at of Some t \<Rightarrow> be_micros E t | None \<Rightarrow> submission_time name)) (\<lambda>submitted.
          sbind (slift (text_param source)) (\<lambda>display_source.
          on_db (upsert_contract name
            \<lparr>con_last_hash = tx_hash, con_block = bi_height b, con_submitted_at = submitted,
             con_source = display_source, con_xsc001 = source_has_xsc001_surface E display_source\<rparr>))))"

definition transaction_row :: "bds_env \<Rightarrow> block_ids \<Rightarrow> bds_tx \<Rightarrow> tx_row res" where
  "transaction_row E b tx =
     (let payload = bt_payload tx; tx_result = bt_result tx;
          result = dget_or tx_result ''result'' PNone in
      rbind (rbind (dindex tx_result ''hash'') text_param) (\<lambda>tx_hash.
      rbind (rbind (dindex payload ''sender'') text_param) (\<lambda>sender.
      rbind (rbind (dindex payload ''nonce'') (int_param 64)) (\<lambda>nonce.
      rbind (rbind (dindex payload ''contract'') text_param) (\<lambda>contract.
      rbind (rbind (dindex payload ''function'') text_param) (\<lambda>function_name.
      rbind (rbind (dindex tx_result ''status'') (int_param 32)) (\<lambda>status.
      rbind (rbind (dindex tx_result ''chi_used'') (int_param 64)) (\<lambda>chi_used.
      rbind (nullable_jsonb_param E (if result = PStr ''None'' then PNone else result)) (\<lambda>result_text.
      rbind (ascii_json_dumps payload) (\<lambda>payload_json.
      rbind (ascii_json_dumps (bt_envelope tx)) (\<lambda>envelope_json.
      rbind (int_param 32 (PInt (bt_index tx))) (\<lambda>tx_index.
      Inr \<lparr>txr_hash = tx_hash, txr_height = bi_height b, txr_block_hash = bi_hash b, txr_block_time = bi_nanos b,
           txr_index = tx_index, txr_sender = sender, txr_nonce = nonce, txr_contract = contract,
           txr_function = function_name, txr_success = (status = 0), txr_status_code = status,
           txr_chi_used = chi_used, txr_result = result_text, txr_payload = payload_json,
           txr_envelope = envelope_json, txr_created_at = bi_time b\<rparr>))))))))))))"

definition persist_transaction :: "bds_env \<Rightarrow> block_ids \<Rightarrow> bds_tx \<Rightarrow> unit work" where
  "persist_transaction E b tx =
     sbind (slift (transaction_row E b tx)) (\<lambda>row.
     sbind (on_db (insert_transaction row)) (\<lambda>_.
     sbind (on_db (upsert_address_activity (txr_sender row) (bi_height b) (bi_time b) (txr_index row) (txr_hash row)
                     (txr_contract row) (txr_function row) (bi_time b))) (\<lambda>_.
     sbind (slift (rbind (dindex (bt_result tx) ''state'') py_iter)) (\<lambda>changes.
     sbind (persist_changes E b ''transaction'' (txr_hash row) (txr_index row) changes) (\<lambda>_.
     sbind (slift (rewards_of_result E (bt_result tx))) (\<lambda>rewards.
     sbind (smap (persist_reward E b (txr_hash row) (txr_index row)) (enumerate 0 rewards)) (\<lambda>_.
     sbind (slift (py_iter (dget_or (bt_result tx) ''events'' (PList [])))) (\<lambda>events.
     sbind (smap (persist_event E b (txr_hash row) (txr_index row)) (enumerate 0 events)) (\<lambda>_.
     sbind (persist_outputs E b tx (txr_hash row)) (\<lambda>_.
     if txr_status_code row \<noteq> 0 then sret ()
     else
       sbind (slift (collect_contract_records E changes)) (\<lambda>contracts.
       sbind (smap (persist_contract E b (txr_hash row) (\<lambda>_. Inr (bi_time b))) contracts) (\<lambda>_. sret ()))))))))))))"

section \<open>Storing state patches\<close>

definition flattened_changes :: "pyval list \<Rightarrow> pyval list res" where
  "flattened_changes state_patches =
     rbind (mapR (\<lambda>execution. rbind (py_get execution ''changes'' (PList [])) py_iter) state_patches) (\<lambda>parts.
     Inr (concat parts))"

definition persist_state_patches :: "bds_env \<Rightarrow> block_ids \<Rightarrow> pyval list \<Rightarrow> string \<Rightarrow> int \<Rightarrow> unit work" where
  "persist_state_patches E b state_patches patch_hash tx_index =
     sbind (slift (flattened_changes state_patches)) (\<lambda>changes.
     sbind (slift (jsonb_param E (PDict
        [(PStr ''bundle_count'', PInt (int (length state_patches))), (PStr ''patch_count'', PInt (int (length changes))),
         (PStr ''comment'', PStr ''Governed state patch pseudo-transaction'')]))) (\<lambda>result_json.
     sbind (slift (jsonb_param E (PDict [(PStr ''kind'', PStr ''state_patch'')]))) (\<lambda>payload_json.
     sbind (slift (jsonb_param E (PDict
        [(PStr ''kind'', PStr ''state_patch''), (PStr ''executions'', PList state_patches)]))) (\<lambda>envelope_json.
     sbind (on_db (insert_transaction
        \<lparr>txr_hash = patch_hash, txr_height = bi_height b, txr_block_hash = bi_hash b, txr_block_time = bi_nanos b,
         txr_index = tx_index, txr_sender = ''sys'', txr_nonce = 0, txr_contract = ''STATE_PATCHER'',
         txr_function = ''STATE_PATCH'', txr_success = True, txr_status_code = 0, txr_chi_used = 0,
         txr_result = Some result_json, txr_payload = payload_json, txr_envelope = envelope_json,
         txr_created_at = bi_time b\<rparr>)) (\<lambda>_.
     sbind (on_db (upsert_address_activity ''sys'' (bi_height b) (bi_time b) tx_index patch_hash
                     ''STATE_PATCHER'' ''STATE_PATCH'' (bi_time b))) (\<lambda>_.
     sbind (persist_changes E b ''state_patch'' patch_hash tx_index changes) (\<lambda>_.
     sbind (slift (jsonb_param E (PList state_patches))) (\<lambda>patches_json.
     on_db (insert_state_patch_record
        \<lparr>pat_hash = patch_hash, pat_height = bi_height b, pat_block_hash = bi_hash b, pat_block_time = bi_nanos b,
         pat_count = int (length changes), pat_patches = patches_json, pat_created_at = bi_time b\<rparr>)))))))))"

section \<open>Storing a block\<close>

text \<open>The last change of the given keys, from the table of the current state.\<close>

definition load_current_state_index :: "string list \<Rightarrow> unit work" where
  "load_current_state_index keys w =
     (Inr (), (fst w,
        map (\<lambda>(k, s). (k, (stt_last_change s, stt_last_hash s))) (filter (\<lambda>(k, _). k \<in> set keys) (db_state (fst w)))))"

definition touched_keys :: "bds_payload \<Rightarrow> string list res" where
  "touched_keys p =
     rbind (mapR (\<lambda>tx. rbind (rbind (dindex (bt_result tx) ''state'') py_iter)
                        (mapR (\<lambda>change. rbind (dindex change ''key'') text_param))) (bp_transactions p)) (\<lambda>parts.
     rbind (mapR text_param (concat (map (\<lambda>patch. case dget patch ''key'' of Some k \<Rightarrow> [k] | None \<Rightarrow> []) (bp_patches p))))
       (\<lambda>patched. Inr (concat parts @ patched)))"

definition block_ids_of :: "bds_env \<Rightarrow> bds_payload \<Rightarrow> block_ids res" where
  "block_ids_of E p =
     rbind (rbind (dindex (bp_meta p) ''height'') (int_param 64)) (\<lambda>height.
     rbind (rbind (dindex (bp_meta p) ''hash'') text_param) (\<lambda>hash.
     rbind (rbind (dindex (bp_meta p) ''nanos'') (int_param 64)) (\<lambda>nanos.
     rbind (be_micros E (utc_datetime E (bp_time p))) (\<lambda>created_at.
     Inr \<lparr>bi_height = height, bi_hash = hash, bi_nanos = nanos, bi_time = created_at\<rparr>))))"

definition persist_contents :: "bds_env \<Rightarrow> block_ids \<Rightarrow> bds_payload \<Rightarrow> string list \<Rightarrow> unit work" where
  "persist_contents E b p keys =
     sbind (load_current_state_index keys) (\<lambda>_.
     sbind (smap (persist_transaction E b) (bp_transactions p)) (\<lambda>_.
     if bp_patches p = [] then sret ()
     else persist_state_patches E b (bp_patches p)
            (case bp_patch_hash p of
               Some h \<Rightarrow> if h \<noteq> [] then h else ''STATE_PATCH_'' @ str_int (bi_height b)
             | None \<Rightarrow> ''STATE_PATCH_'' @ str_int (bi_height b))
            (int (length (bp_transactions p)))))"

definition new_block_row :: "block_ids \<Rightarrow> bds_payload \<Rightarrow> block_row" where
  "new_block_row b p =
     \<lparr>blk_height = bi_height b, blk_hash = bi_hash b, blk_time = bi_nanos b, blk_time_iso = bi_time b,
      blk_tx_count = int (length (bp_transactions p)), blk_app_hash = bp_app_hash p, blk_created_at = bi_time b\<rparr>"

definition persist_rows :: "bds_env \<Rightarrow> bds_payload \<Rightarrow> unit work" where
  "persist_rows E p =
     sbind (slift (block_ids_of E p)) (\<lambda>b.
     sbind (on_db (insert_block (new_block_row b p))) (\<lambda>_.
     sbind (slift (touched_keys p)) (persist_contents E b p)))"

definition validate_storage_policy :: "bds_env \<Rightarrow> bds_db \<Rightarrow> unit res" where
  "validate_storage_policy E db =
     (case db_meta db of
        None \<Rightarrow> Inl (OtherError ''UndefinedTableError'')
      | Some meta \<Rightarrow>
          (case map_of meta ''execution_policy'' of
             None \<Rightarrow> validate_execution_policy PNone
           | Some raw \<Rightarrow>
               (case be_loads E raw of
                  Inl (ValueError _) \<Rightarrow> Inl (ValueError ''invalid BDS execution policy'')
                | Inl (TypeError _) \<Rightarrow> Inl (ValueError ''invalid BDS execution policy'')
                | r \<Rightarrow> rbind r validate_execution_policy)))"

text \<open>A transaction of the database: a failure leaves the tables as they were.\<close>

definition in_transaction :: "bool \<Rightarrow> unit work \<Rightarrow> bds_db \<Rightarrow> bool \<times> bds_db" where
  "in_transaction fault m db =
     (case m (db, []) of
        (Inr _, (db', _)) \<Rightarrow> if fault then (False, db\<lparr>db_change_seq := db_change_seq db'\<rparr>) else (True, db')
      | (Inl _, (db', _)) \<Rightarrow> (False, db\<lparr>db_change_seq := db_change_seq db'\<rparr>))"

definition persist_block :: "bds_env \<Rightarrow> bool \<Rightarrow> bds_payload \<Rightarrow> bds_db \<Rightarrow> bool res \<times> bds_db" where
  "persist_block E fault p db =
     (case rbind (validate_execution_policy (bp_policy p)) (\<lambda>_. validate_storage_policy E db) of
        Inl e \<Rightarrow> (Inl e, db)
      | Inr _ \<Rightarrow>
          (case rbind (dindex (bp_meta p) ''height'') (int_param 64) of
             Inl _ \<Rightarrow> (Inr False, db)
           | Inr height \<Rightarrow>
               (case select_block_identity db height of
                  Some (block_hash, app_hash) \<Rightarrow>
                    (Inr (dget (bp_meta p) ''hash'' = Some (PStr block_hash) \<and> app_hash = bp_app_hash p), db)
                | None \<Rightarrow> (case in_transaction fault (persist_rows E p) db of (ok, db') \<Rightarrow> (Inr ok, db')))))"

section \<open>Genesis\<close>

definition GENESIS_BLOCK_HASH :: string where "GENESIS_BLOCK_HASH = ''GENESIS''"
definition GENESIS_TX_HASH :: string where "GENESIS_TX_HASH = ''GENESIS''"

definition genesis_ids :: block_ids where
  "genesis_ids = \<lparr>bi_height = 0, bi_hash = GENESIS_BLOCK_HASH, bi_nanos = 0, bi_time = GENESIS_CREATED_AT\<rparr>"

definition persist_genesis :: "bds_env \<Rightarrow> pyval \<Rightarrow> unit work" where
  "persist_genesis E genesis_state =
     sbind (slift (py_iter genesis_state)) (\<lambda>entries.
     sbind (on_db (insert_block
        \<lparr>blk_height = 0, blk_hash = GENESIS_BLOCK_HASH, blk_time = 0, blk_time_iso = GENESIS_CREATED_AT, blk_tx_count = 1,
         blk_app_hash = GENESIS_BLOCK_HASH, blk_created_at = GENESIS_CREATED_AT\<rparr>)) (\<lambda>_.
     sbind (slift (jsonb_param E (PDict
        [(PStr ''status'', PStr ''ok''), (PStr ''genesis_entries'', PInt (int (length entries)))]))) (\<lambda>result_json.
     sbind (slift (jsonb_param E (PDict [(PStr ''kind'', PStr ''genesis'')]))) (\<lambda>payload_json.
     sbind (slift (jsonb_param E (PDict [(PStr ''kind'', PStr ''genesis''), (PStr ''genesis'', genesis_state)]))) (\<lambda>envelope_json.
     sbind (on_db (insert_transaction
        \<lparr>txr_hash = GENESIS_TX_HASH, txr_height = 0, txr_block_hash = GENESIS_BLOCK_HASH, txr_block_time = 0, txr_index = 0,
         txr_sender = ''sys'', txr_nonce = 0, txr_contract = ''GENESIS_SUBMISSION'',
         txr_function = ''process_genesis_block'', txr_success = True, txr_status_code = 0, txr_chi_used = 0,
         txr_result = Some result_json, txr_payload = payload_json, txr_envelope = envelope_json,
         txr_created_at = GENESIS_CREATED_AT\<rparr>)) (\<lambda>_.
     sbind (on_db (upsert_address_activity ''sys'' 0 GENESIS_CREATED_AT 0 GENESIS_TX_HASH ''GENESIS_SUBMISSION''
                     ''process_genesis_block'' GENESIS_CREATED_AT)) (\<lambda>_.
     sbind (persist_changes E genesis_ids ''genesis'' GENESIS_TX_HASH 0 entries) (\<lambda>_.
     sbind (slift (collect_contract_records E entries)) (\<lambda>contracts.
     sbind (smap (persist_contract E genesis_ids GENESIS_TX_HASH (get_submission_time E entries)) contracts)
       (\<lambda>_. sret ()))))))))))"

definition process_genesis_block :: "bds_env \<Rightarrow> bool \<Rightarrow> pyval \<Rightarrow> bds_db \<Rightarrow> unit res \<times> bds_db" where
  "process_genesis_block E fault cometbft_genesis db =
     (case rbind (validate_genesis_execution_policy cometbft_genesis) (\<lambda>_.
           rbind (validate_storage_policy E db) (\<lambda>_.
           rbind (dindex cometbft_genesis ''abci_genesis'') (\<lambda>abci_genesis. dindex abci_genesis ''genesis''))) of
        Inl e \<Rightarrow> (Inl e, db)
      | Inr genesis_state \<Rightarrow>
          (case in_transaction fault (persist_genesis E (be_convert_dict E genesis_state)) db of
             (ok, db') \<Rightarrow> (if ok then Inr () else Inl (OtherError ''genesis was not stored''), db')))"

section \<open>Schema\<close>

text \<open>\<^verbatim>\<open>json.dumps(current_execution_policy(), sort_keys=True)\<close>.\<close>

definition stored_policy :: string where
  "stored_policy =
     (let items = sort_key fst (map (\<lambda>(k, v). (str_of k, str_of v)) current_execution_policy) in
      ''{'' @ concat (map (\<lambda>(i, k, v). (if i = 0 then [] else '', '') @ json_string k @ '': '' @ json_string v)
                       (enumerate 0 items)) @ ''}'')"

definition prepare_schema :: "bds_env \<Rightarrow> bds_db \<Rightarrow> bds_db res" where
  "prepare_schema E db =
     rbind (case Option.bind (db_meta db) (\<lambda>meta. map_of meta ''schema_version'') of
              None \<Rightarrow> guard (\<not> db_tables db) (RuntimeError ''BDS schema metadata is missing for existing tables'')
            | Some version \<Rightarrow>
                guard (version = str_int SCHEMA_VERSION) (RuntimeError ''BDS schema version does not match'')) (\<lambda>_.
     rbind (if db_meta db \<noteq> None then validate_storage_policy E db else Inr ()) (\<lambda>_.
     Inr ((upsert_meta ''execution_policy'' stored_policy (upsert_meta ''schema_version'' (str_int SCHEMA_VERSION) db))
            \<lparr>db_tables := True\<rparr>)))"

definition reset_schema :: "bds_env \<Rightarrow> bds_db \<Rightarrow> bds_db res" where
  "reset_schema E db = prepare_schema E (drop_all_tables db)"

end
