(* ===== verification/Bds_History.thy ===== *)
theory Bds_History
  imports Bds_Store
begin

text \<open>
  What the tables of the block data service say about the state: the table of the current state
  holds the last change of every key, and a change points to the one before it.  The exception are
  the changes of state patches, whose keys the code does not look up.
\<close>

section \<open>The log of changes\<close>

text \<open>The last change of a key in a log with the newest change first.\<close>

definition last_change :: "change_row list \<Rightarrow> string \<Rightarrow> change_row option" where
  "last_change older k = List.find (\<lambda>c. chg_key c = k) older"

lemma last_change_simps [simp]:
  "last_change [] k = None"
  "last_change (c # older) k = (if chg_key c = k then Some c else last_change older k)"
  by (simp_all add: last_change_def)

lemma last_change_in: "last_change older k = Some c \<Longrightarrow> c \<in> set older \<and> chg_key c = k"
  unfolding last_change_def by (auto simp: find_Some_iff)

text \<open>A change points to the last one of its key; only that of a patch may point nowhere.\<close>

definition link_ok :: "change_row \<Rightarrow> change_row list \<Rightarrow> bool" where
  "link_ok c older \<longleftrightarrow>
     (chg_previous_id c = map_option chg_id (last_change older (chg_key c)) \<and>
      chg_previous_hash c = map_option chg_tx_hash (last_change older (chg_key c))) \<or>
     (chg_origin c = ''state_patch'' \<and> chg_previous_id c = None \<and> chg_previous_hash c = None)"

fun linked :: "change_row list \<Rightarrow> bool" where
  "linked [] = True"
| "linked (c # older) = (linked older \<and> (\<forall>d \<in> set older. chg_id d < chg_id c) \<and> link_ok c older)"

abbreviation log_of :: "bds_db \<Rightarrow> change_row list" where
  "log_of db \<equiv> rev (db_changes db)"

definition state_view :: "state_row \<Rightarrow> string \<times> int \<times> string \<times> int" where
  "state_view s = (stt_value s, stt_last_change s, stt_last_hash s, stt_last_height s)"

definition change_view :: "change_row \<Rightarrow> string \<times> int \<times> string \<times> int" where
  "change_view c = (chg_value c, chg_id c, chg_tx_hash c, chg_height c)"

definition history_ok :: "bds_db \<Rightarrow> bool" where
  "history_ok db \<longleftrightarrow>
     linked (log_of db) \<and> (\<forall>c \<in> set (db_changes db). chg_id c < db_change_seq db) \<and>
     (\<forall>k. map_option state_view (map_of (db_state db) k) = map_option change_view (last_change (log_of db) k))"

text \<open>The code's index agrees with the log, and it knows every key of \<open>K\<close> that the log has.\<close>

definition index_ok :: "string set \<Rightarrow> bds_db \<times> change_index \<Rightarrow> bool" where
  "index_ok K w \<longleftrightarrow>
     (\<forall>k. (\<forall>v. map_of (snd w) k = Some v \<longrightarrow>
              map_option (\<lambda>c. (chg_id c, chg_tx_hash c)) (last_change (log_of (fst w)) k) = Some v) \<and>
          (k \<in> K \<and> map_of (snd w) k = None \<longrightarrow> last_change (log_of (fst w)) k = None))"

definition work_ok :: "int \<Rightarrow> string set \<Rightarrow> bds_db \<times> change_index \<Rightarrow> bool" where
  "work_ok n K w \<longleftrightarrow> history_ok (fst w) \<and> index_ok K w \<and> n \<le> db_change_seq (fst w)"

section \<open>Every step keeps it\<close>

lemma insert_state_change_cases:
  obtains (fails) e where "insert_state_change row_of db = (Inl e, db\<lparr>db_change_seq := db_change_seq db + 1\<rparr>)"
  | (stored) "insert_state_change row_of db =
      (Inr (db_change_seq db),
       db\<lparr>db_change_seq := db_change_seq db + 1, db_changes := db_changes db @ [row_of (db_change_seq db)]\<rparr>)"
  unfolding insert_state_change_def Let_def by (metis (mono_tags, lifting))

lemma stored_change_simps [simp]:
  "chg_id (stored_change b origin h i j key value prev n) = n"
  "chg_key (stored_change b origin h i j key value prev n) = key"
  "chg_value (stored_change b origin h i j key value prev n) = value"
  "chg_tx_hash (stored_change b origin h i j key value prev n) = h"
  "chg_height (stored_change b origin h i j key value prev n) = bi_height b"
  "chg_origin (stored_change b origin h i j key value prev n) = origin"
  "chg_previous_id (stored_change b origin h i j key value prev n) = map_option fst prev"
  "chg_previous_hash (stored_change b origin h i j key value prev n) = map_option snd prev"
  by (simp_all add: stored_change_def)

lemma record_change_keeps:
  assumes "origin = ''state_patch'' \<or> key \<in> K"
  shows "maintains (work_ok n K) (record_change b origin tx_hash tx_index write_index key value)"
  unfolding maintains_def
proof (intro allI impI)
  fix w assume w: "work_ok n K w"
  let ?db = "fst w" and ?prev = "map_of (snd w) key"
  let ?row = "stored_change b origin tx_hash tx_index write_index key value ?prev (db_change_seq ?db)"
  have below: "\<forall>c \<in> set (db_changes ?db). chg_id c < db_change_seq ?db" and lnk: "linked (log_of ?db)"
    and state: "\<And>k. map_option state_view (map_of (db_state ?db) k) = map_option change_view (last_change (log_of ?db) k)"
    and idx: "index_ok K w" and n: "n \<le> db_change_seq ?db"
    using w by (auto simp: work_ok_def history_ok_def)
  from insert_state_change_cases [of "stored_change b origin tx_hash tx_index write_index key value ?prev" ?db]
  show "work_ok n K (snd (record_change b origin tx_hash tx_index write_index key value w))"
  proof cases
    case fails
    then show ?thesis
      using below lnk state idx n by (auto simp: record_change_def work_ok_def history_ok_def index_ok_def)
  next
    case stored
    have link: "link_ok ?row (log_of ?db)"
    proof (cases ?prev)
      case None
      then show ?thesis
        using assms idx by (auto simp: link_ok_def index_ok_def)
    next
      case (Some v)
      then have "map_option (\<lambda>c. (chg_id c, chg_tx_hash c)) (last_change (log_of ?db) key) = Some v"
        using idx unfolding index_ok_def by blast
      then show ?thesis using Some by (auto simp: link_ok_def)
    qed
    show ?thesis
      using stored below lnk state idx n link
      by (auto simp: record_change_def on_db_def upsert_state_def work_ok_def history_ok_def index_ok_def
            map_of_AList_update state_view_def change_view_def)
  qed
qed

text \<open>The other statements touch neither the log nor the current state.\<close>

definition same_log :: "bds_db \<Rightarrow> bds_db \<Rightarrow> bool" where
  "same_log db db' \<longleftrightarrow>
     db_changes db' = db_changes db \<and> db_state db' = db_state db \<and> db_change_seq db' = db_change_seq db"

lemma same_log_keeps:
  assumes "\<And>db. same_log db (snd (m db))"
  shows "maintains (work_ok n K) (on_db m)"
  unfolding maintains_def
proof (intro allI impI)
  fix w assume "work_ok n K w"
  moreover have "same_log (fst w) (fst (snd (on_db m w)))" "snd (snd (on_db m w)) = snd w"
    using assms [of "fst w"] by (auto simp: on_db_def split: prod.split)
  ultimately show "work_ok n K (snd (on_db m w))"
    by (auto simp: same_log_def work_ok_def history_ok_def index_ok_def)
qed

lemma statements_keep :
  "maintains (work_ok n K) (on_db (insert_block row1))"
  "maintains (work_ok n K) (on_db (insert_transaction row2))"
  "maintains (work_ok n K) (on_db (upsert_address_activity a h t i hash c f now))"
  "maintains (work_ok n K) (on_db (insert_event row3))"
  "maintains (work_ok n K) (on_db (insert_reward row4))"
  "maintains (work_ok n K) (on_db (insert_shielded_output row5))"
  "maintains (work_ok n K) (on_db (insert_shielded_output_tag row5 kind tag))"
  "maintains (work_ok n K) (on_db (upsert_contract name row6))"
  "maintains (work_ok n K) (on_db (insert_state_patch_record row7))"
  by (auto intro!: same_log_keeps simp: insert_block_def insert_transaction_def insert_event_def insert_reward_def
      insert_shielded_output_def insert_shielded_output_tag_def insert_state_patch_record_def insert_unless_def
      same_log_def upsert_address_activity_def upsert_contract_def Let_def)

text \<open>The keys some changes write.\<close>

definition changed_keys :: "pyval list \<Rightarrow> string set" where
  "changed_keys changes = {k. \<exists>c \<in> set changes. rbind (dindex c ''key'') text_param = Inr k}"

text \<open>
  What the steps inside a database transaction keep follows from what the single statements keep:
  the changes of transactions and of genesis write keys that the index was asked for (\<open>K\<close>).
\<close>

locale work_invariant =
  fixes P :: "bds_db \<times> change_index \<Rightarrow> bool" and K :: "string set"
  assumes statements_kept:
    "maintains P (on_db (insert_transaction row2))"
    "maintains P (on_db (upsert_address_activity a h t i hash c f now))"
    "maintains P (on_db (insert_event row3))"
    "maintains P (on_db (insert_reward row4))"
    "maintains P (on_db (insert_shielded_output row5))"
    "maintains P (on_db (insert_shielded_output_tag row5 kind tag))"
    "maintains P (on_db (upsert_contract name row6))"
    "maintains P (on_db (insert_state_patch_record row7))"
    and change_kept: "origin = ''state_patch'' \<or> key \<in> K \<Longrightarrow>
      maintains P (record_change b origin tx_hash tx_index write_index key value)"
begin

lemma persist_change_keeps:
  assumes "\<And>k. rbind (dindex (snd numbered) ''key'') text_param = Inr k \<Longrightarrow> origin = ''state_patch'' \<or> k \<in> K"
  shows "maintains P (persist_change E b origin tx_hash tx_index numbered)"
  unfolding persist_change_def split_beta
  by (intro maintains_sbind_slift change_kept assms)

lemma persist_changes_keeps:
  assumes "origin = ''state_patch'' \<or> changed_keys changes \<subseteq> K"
  shows "maintains P (persist_changes E b origin tx_hash tx_index changes)"
  unfolding persist_changes_def
proof (intro maintains_rules persist_change_keeps)
  fix numbered k
  assume "numbered \<in> set (enumerate 0 changes)" "rbind (dindex (snd numbered) ''key'') text_param = Inr k"
  moreover then have "snd numbered \<in> set changes" by (metis enumerate_eq_zip in_set_zipE prod.collapse)
  ultimately show "origin = ''state_patch'' \<or> k \<in> K" using assms by (auto simp: changed_keys_def)
qed

lemma parts_keep:
  "maintains P (persist_reward E b tx_hash tx_index r)"
  "maintains P (persist_event E b tx_hash tx_index e)"
  "maintains P (persist_output E x)"
  "maintains P (persist_outputs E b tx tx_hash)"
  "maintains P (persist_contract E b tx_hash submission_time c)"
proof -
  show r: "maintains P (persist_reward E b tx_hash tx_index r)"
    unfolding persist_reward_def by (simp add: split_beta) (intro maintains_rules statements_kept)
  show "maintains P (persist_event E b tx_hash tx_index e)"
    unfolding persist_event_def by (simp add: split_beta) (intro maintains_rules statements_kept)
  have out: "maintains P (persist_output E x)" for x
    unfolding persist_output_def by (auto simp: split_beta intro!: maintains_rules statements_kept)
  then show "maintains P (persist_output E x)" .
  show "maintains P (persist_outputs E b tx tx_hash)"
    unfolding persist_outputs_def by (auto split: option.split pyval.split intro!: maintains_rules out)
  show "maintains P (persist_contract E b tx_hash submission_time c)"
    unfolding persist_contract_def by (cases c) (auto split: if_split intro!: maintains_rules statements_kept)
qed

lemma persist_transaction_keeps:
  assumes "\<And>changes. rbind (dindex (bt_result tx) ''state'') py_iter = Inr changes \<Longrightarrow> changed_keys changes \<subseteq> K"
  shows "maintains P (persist_transaction E b tx)"
  unfolding persist_transaction_def
  by (rule maintains_sbind_slift | rule maintains_sbind | rule maintains_if | rule maintains_smap | rule maintains_sret |
      rule statements_kept | rule parts_keep | rule persist_changes_keeps [OF disjI2 [OF assms]] | assumption)+

lemma persist_state_patches_keeps: "maintains P (persist_state_patches E b patches hash tx_index)"
  unfolding persist_state_patches_def
  by (rule maintains_sbind_slift | rule maintains_sbind | rule statements_kept | rule persist_changes_keeps [OF disjI1 [OF refl]])+

end

interpretation history: work_invariant "work_ok n K" K for n K
  by unfold_locales (rule statements_keep record_change_keeps; assumption?)+

text \<open>None of these steps touches the blocks, the address of the schema or the policy.\<close>

definition frame_ok :: "block_row list \<Rightarrow> (string, string) dict option \<Rightarrow> bds_db \<times> change_index \<Rightarrow> bool" where
  "frame_ok rows meta w \<longleftrightarrow> db_blocks (fst w) = rows \<and> db_meta (fst w) = meta"

lemma frame_keeps:
  assumes "\<And>db. db_blocks (snd (m db)) = db_blocks db \<and> db_meta (snd (m db)) = db_meta db"
  shows "maintains (frame_ok rows meta) (on_db m)"
  using assms by (auto simp: maintains_def frame_ok_def on_db_def split: prod.split) (metis snd_conv)+

interpretation frame: work_invariant "frame_ok rows meta" UNIV for rows meta
proof unfold_locales
  show "maintains (frame_ok rows meta) (record_change b origin tx_hash tx_index write_index key v)"
    for b origin tx_hash tx_index write_index key v
    by (auto simp: maintains_def frame_ok_def record_change_def on_db_def upsert_state_def insert_state_change_def Let_def)
qed (auto intro!: frame_keeps simp: insert_transaction_def insert_event_def insert_reward_def
      insert_shielded_output_def insert_shielded_output_tag_def insert_state_patch_record_def insert_unless_def
      upsert_address_activity_def upsert_contract_def Let_def)

section \<open>A stored block\<close>

lemma mapR_nth: "mapR f xs = Inr ys \<Longrightarrow> x \<in> set xs \<Longrightarrow> \<exists>y \<in> set ys. f x = Inr y"
  by (induction xs arbitrary: ys) (auto simp: rbind_Inr_iff)

lemma touched_keys_cover:
  assumes "touched_keys p = Inr keys" "tx \<in> set (bp_transactions p)"
    and "rbind (dindex (bt_result tx) ''state'') py_iter = Inr changes"
  shows "changed_keys changes \<subseteq> set keys"
proof
  fix k assume "k \<in> changed_keys changes"
  then obtain c where c: "c \<in> set changes" "rbind (dindex c ''key'') text_param = Inr k" by (auto simp: changed_keys_def)
  let ?keys = "\<lambda>tx. rbind (rbind (dindex (bt_result tx) ''state'') py_iter) (mapR (\<lambda>change. rbind (dindex change ''key'') text_param))"
  obtain parts where parts: "mapR ?keys (bp_transactions p) = Inr parts" and sub: "set (concat parts) \<subseteq> set keys"
    using assms(1) unfolding touched_keys_def by (auto elim!: rbind_InrE)
  obtain part where "part \<in> set parts" "?keys tx = Inr part" using mapR_nth [OF parts assms(2)] by blast
  moreover from this assms(3) have "mapR (\<lambda>change. rbind (dindex change ''key'') text_param) changes = Inr part" by simp
  then have "k \<in> set part" using mapR_nth [of _ changes part c] c by fastforce
  ultimately show "k \<in> set keys" using sub by auto
qed

definition grown_ok :: "int \<Rightarrow> bds_db \<times> change_index \<Rightarrow> bool" where
  "grown_ok n w \<longleftrightarrow> history_ok (fst w) \<and> n \<le> db_change_seq (fst w)"

lemma work_grown: "work_ok n K w \<Longrightarrow> grown_ok n w"
  by (simp add: work_ok_def grown_ok_def)

lemma load_current_state_index_ok:
  assumes "grown_ok n w"
  shows "work_ok n (set keys) (snd (load_current_state_index keys w))"
proof -
  let ?db = "fst w"
  have state: "map_option state_view (map_of (db_state ?db) k) = map_option change_view (last_change (log_of ?db) k)" for k
    using assms by (simp add: grown_ok_def history_ok_def)
  have lookup: "map_of (map (\<lambda>(k, s). (k, (stt_last_change s, stt_last_hash s))) (filter (\<lambda>(k, _). k \<in> set keys) rows)) k =
      (if k \<in> set keys then map_option (\<lambda>s. (stt_last_change s, stt_last_hash s)) (map_of rows k) else None)" for rows k
    by (induction rows) auto
  have rows: "map_option (\<lambda>s. (stt_last_change s, stt_last_hash s)) (map_of (db_state ?db) k) =
      map_option (\<lambda>c. (chg_id c, chg_tx_hash c)) (last_change (log_of ?db) k)" for k
    using state [of k] by (cases "map_of (db_state ?db) k"; cases "last_change (log_of ?db) k")
      (auto simp: state_view_def change_view_def)
  have index: "map_of (snd (snd (load_current_state_index keys w))) k =
      (if k \<in> set keys then map_option (\<lambda>c. (chg_id c, chg_tx_hash c)) (last_change (log_of ?db) k) else None)" for k
    unfolding load_current_state_index_def snd_conv lookup rows ..
  have "index_ok (set keys) (snd (load_current_state_index keys w))"
    unfolding index_ok_def index by (simp add: load_current_state_index_def)
  then show ?thesis
    using assms by (simp add: work_ok_def grown_ok_def load_current_state_index_def)
qed

lemma persist_contents_keeps:
  assumes "touched_keys p = Inr keys"
  shows "maintains (grown_ok n) (persist_contents E b p keys)"
  unfolding maintains_def
proof (intro allI impI)
  fix w assume "grown_ok n w"
  then have "work_ok n (set keys) (snd (load_current_state_index keys w))" by (rule load_current_state_index_ok)
  moreover obtain tail where tail: "persist_contents E b p keys = sbind (load_current_state_index keys) (\<lambda>_. tail)"
      "maintains (work_ok n (set keys)) tail"
    by (rule that [OF persist_contents_def]) (intro maintains_sbind maintains_smap maintains_if maintains_sret
          history.persist_state_patches_keeps history.persist_transaction_keeps touched_keys_cover [OF assms])
  moreover have "snd (sbind (load_current_state_index keys) (\<lambda>_. tail) w) = snd (tail (snd (load_current_state_index keys w)))"
    by (simp add: sbind_def load_current_state_index_def)
  ultimately show "grown_ok n (snd (persist_contents E b p keys w))"
    unfolding maintains_def by (metis work_grown)
qed

lemma persist_rows_keeps: "maintains (grown_ok n) (persist_rows E p)"
proof -
  have "maintains (grown_ok n) (on_db (insert_block row))" for row
    by (auto simp: maintains_def grown_ok_def history_ok_def on_db_def insert_block_def insert_unless_def)
  then show ?thesis
    unfolding persist_rows_def by (intro maintains_sbind_slift maintains_sbind persist_contents_keeps)
qed

lemma in_transaction_keeps:
  assumes "maintains (grown_ok (db_change_seq db)) m" "history_ok db" "in_transaction fault m db = (ok, db')"
  shows "history_ok db'"
proof -
  obtain r w where m: "m (db, []) = (r, w)" by (cases "m (db, [])") auto
  have "grown_ok (db_change_seq db) w"
    using maintainsD [OF assms(1) _ m] assms(2) by (simp add: grown_ok_def)
  then show ?thesis
    using assms(2,3) m
    by (cases w) (fastforce simp: in_transaction_def grown_ok_def history_ok_def split: sum.splits if_splits)
qed

lemma persist_block_history: "history_ok db \<Longrightarrow> persist_block E fault p db = (r, db') \<Longrightarrow> history_ok db'"
  by (auto simp: persist_block_def split: sum.splits option.splits prod.splits
        dest: in_transaction_keeps [OF persist_rows_keeps])

lemma persist_genesis_keeps: "maintains (work_ok n UNIV) (persist_genesis E genesis_state)"
  unfolding persist_genesis_def
  by (rule maintains_sbind_slift | rule maintains_sbind | rule maintains_smap | rule maintains_sret | rule statements_keep |
      rule history.parts_keep | rule history.persist_changes_keeps [OF disjI2 [OF subset_UNIV]])+

lemma process_genesis_history:
  assumes "history_ok db" "db_changes db = []" "process_genesis_block E fault genesis db = (r, db')"
  shows "history_ok db'"
proof -
  have ok: "history_ok db'" if "in_transaction fault (persist_genesis E v) db = (ok, db')" for v ok
  proof -
    obtain r w where m: "persist_genesis E v (db, []) = (r, w)" by (cases "persist_genesis E v (db, [])") auto
    have "work_ok (db_change_seq db) UNIV (db, [])" using assms(1,2) by (simp add: work_ok_def index_ok_def)
    from maintainsD [OF persist_genesis_keeps this m] have "grown_ok (db_change_seq db) w" by (rule work_grown)
    then show ?thesis
      using assms(1,2) that m
      by (cases w) (auto simp: in_transaction_def grown_ok_def history_ok_def split: sum.splits if_splits)
  qed
  then show ?thesis
    using assms(1,3) by (auto simp: process_genesis_block_def split: sum.splits prod.splits)
qed

section \<open>The tables of a running service\<close>

text \<open>The databases a service gets to: an empty one is given its schema, then genesis is stored,
  then blocks in any order, with failures.\<close>

inductive service_db :: "bds_env \<Rightarrow> bds_db \<Rightarrow> bool" for E where
  fresh: "prepare_schema E empty_db = Inr db \<Longrightarrow> service_db E db"
| genesis: "service_db E db \<Longrightarrow> db_changes db = [] \<Longrightarrow> process_genesis_block E fault g db = (r, db') \<Longrightarrow> service_db E db'"
| schema: "service_db E db \<Longrightarrow> prepare_schema E db = Inr db' \<Longrightarrow> service_db E db'"
| block: "service_db E db \<Longrightarrow> persist_block E fault p db = (r, db') \<Longrightarrow> service_db E db'"

lemma prepare_schema_same: "prepare_schema E db = Inr db' \<Longrightarrow> same_log db db'"
  by (auto simp: prepare_schema_def same_log_def upsert_meta_def rbind_Inr_iff)

lemma same_log_history: "same_log db db' \<Longrightarrow> history_ok db \<Longrightarrow> history_ok db'"
  by (simp add: same_log_def history_ok_def)

lemma service_db_history: "service_db E db \<Longrightarrow> history_ok db"
proof (induction rule: service_db.induct)
  case (fresh db)
  moreover have "history_ok empty_db" by (simp add: history_ok_def empty_db_def)
  ultimately show ?case by (metis prepare_schema_same same_log_history)
next
  case (genesis db fault g r db')
  then show ?case by (metis process_genesis_history)
next
  case (schema db db')
  then show ?case by (metis prepare_schema_same same_log_history)
next
  case (block db fault p r db')
  then show ?case by (metis persist_block_history)
qed

lemma find_by_id:
  assumes "linked (rev cs)" "c \<in> set cs"
  shows "List.find (\<lambda>d. chg_id d = chg_id c) cs = Some c"
proof -
  have "distinct (map chg_id older)" if "linked older" for older
    using that by (induction older) auto
  then have "distinct (map chg_id cs)" using assms(1) by (metis distinct_rev rev_map rev_rev_ident)
  then show ?thesis
    using assms(2) by (induction cs) auto
qed

lemma linked_split: "linked (newer @ c # older) \<Longrightarrow> link_ok c older"
  by (induction newer) auto

lemma last_change_split:
  assumes "last_change log_rows k = Some c"
  obtains newer older where "log_rows = newer @ c # older" "\<forall>d \<in> set newer. chg_key d \<noteq> k"
proof -
  from assms obtain i where i: "i < length log_rows" "c = log_rows ! i" "\<forall>j<i. chg_key (log_rows ! j) \<noteq> k"
    by (auto simp: last_change_def find_Some_iff)
  then have "log_rows = take i log_rows @ c # drop (Suc i) log_rows" by (simp add: id_take_nth_drop)
  moreover have "\<forall>d \<in> set (take i log_rows). chg_key d \<noteq> k"
    using i by (fastforce simp: in_set_conv_nth)
  ultimately show ?thesis by (rule that)
qed

text \<open>C28: The current row of a key is its last change.  The query for the change before it finds
  exactly that, unless the last change came from a state patch.\<close>

theorem state_previous_correct:
  assumes "service_db E db"
  shows "case last_change (log_of db) k of
      None \<Rightarrow> select_state_previous db k = None
    | Some c \<Rightarrow>
        (\<exists>s previous. select_state_previous db k = Some (s, c, previous) \<and> stt_value s = chg_value c \<and>
           stt_last_height s = chg_height c \<and>
           (chg_origin c \<noteq> ''state_patch'' \<longrightarrow>
              (\<exists>newer older. log_of db = newer @ c # older \<and> previous = last_change older k)))"
proof (cases "last_change (log_of db) k")
  case None
  have "map_option state_view (map_of (db_state db) k) = None"
    using service_db_history [OF assms] None by (simp add: history_ok_def)
  with None show ?thesis by (simp add: select_state_previous_def)
next
  case (Some c)
  have lnk: "linked (log_of db)" and "map_option state_view (map_of (db_state db) k) = Some (change_view c)"
    using service_db_history [OF assms] Some by (auto simp: history_ok_def)
  then obtain s where s: "map_of (db_state db) k = Some s" "stt_value s = chg_value c" "stt_last_change s = chg_id c"
      "stt_last_height s = chg_height c"
    by (auto simp: state_view_def change_view_def)
  have found: "List.find (\<lambda>d. chg_id d = chg_id e) (db_changes db) = Some e" if "e \<in> set (log_of db)" for e
    using find_by_id [OF lnk] that by simp
  obtain newer older where split: "log_of db = newer @ c # older" using last_change_split [OF Some] by metis
  have c: "c \<in> set (log_of db)" "chg_key c = k" using last_change_in [OF Some] by auto
  let ?previous = "Option.bind (chg_previous_id c) (\<lambda>i. List.find (\<lambda>d. chg_id d = i) (db_changes db))"
  have "?previous = last_change older k" if "chg_origin c \<noteq> ''state_patch''"
  proof -
    have "chg_previous_id c = map_option chg_id (last_change older k)"
      using linked_split [of newer c older] lnk split that c(2) by (auto simp: link_ok_def)
    moreover have "e \<in> set (log_of db)" if "last_change older k = Some e" for e
      using last_change_in [OF that] split by auto
    ultimately show ?thesis using found by (cases "last_change older k") auto
  qed
  moreover have "select_state_previous db k = Some (s, c, ?previous)"
    using s c found by (simp add: select_state_previous_def)
  ultimately show ?thesis using Some s split by auto
qed

section \<open>A block is stored once\<close>

text \<open>What storing a new block adds to the table of blocks.\<close>

lemma persist_rows_blocks:
  assumes "persist_rows E p (db, []) = (Inr (), w)" "block_ids_of E p = Inr b" "\<not> has_block db (bi_height b)"
  shows "db_blocks (fst w) = db_blocks db @ [new_block_row b p] \<and> db_meta (fst w) = db_meta db"
proof -
  have "sbind (on_db (insert_block (new_block_row b p))) (\<lambda>_. sbind (slift (touched_keys p)) (persist_contents E b p)) (db, [])
      = (Inr (), w)"
    using assms(1,2) by (simp add: persist_rows_def sbind_def [of "slift (Inr b)"] slift_def [of "Inr b"])
  then obtain u w1 where w1: "on_db (insert_block (new_block_row b p)) (db, []) = (Inr u, w1)"
      and rest: "sbind (slift (touched_keys p)) (persist_contents E b p) w1 = (Inr (), w)"
    by (rule sbind_Inr)
  have "frame_ok (db_blocks db @ [new_block_row b p]) (db_meta db) w1"
    using w1 assms(3) by (auto simp: on_db_def insert_block_def insert_unless_def frame_ok_def new_block_row_def split: if_splits)
  moreover have load: "maintains (frame_ok rows meta) (load_current_state_index keys)" for rows meta keys
    by (simp add: maintains_def frame_ok_def load_current_state_index_def)
  have "maintains (frame_ok rows meta) (persist_contents E b p keys)" for rows meta keys
    unfolding persist_contents_def
    by (intro maintains_sbind [OF load] maintains_sbind maintains_smap maintains_if maintains_sret
        frame.persist_transaction_keeps frame.persist_state_patches_keeps) simp
  then have "maintains (frame_ok rows meta) (sbind (slift (touched_keys p)) (persist_contents E b p))" for rows meta
    by (intro maintains_sbind maintains_slift)
  ultimately have "frame_ok (db_blocks db @ [new_block_row b p]) (db_meta db) w" using maintainsD rest by metis
  then show ?thesis by (simp add: frame_ok_def)
qed

lemma find_append: "List.find P (xs @ ys) = (case List.find P xs of None \<Rightarrow> List.find P ys | Some x \<Rightarrow> Some x)"
  by (induction xs) auto

lemma select_block_identity_None: "select_block_identity db h = None \<longleftrightarrow> \<not> has_block db h"
  by (simp add: select_block_identity_def has_block_def find_None_iff list_ex_iff Ball_def)

lemma persist_block_cases:
  assumes "persist_block E fault p db = (r, db')"
  obtains (kept) n where "r \<noteq> Inr True" "db' = db\<lparr>db_change_seq := n\<rparr>"
  | (known) h hash where "r = Inr True" "db' = db" "rbind (dindex (bp_meta p) ''height'') (int_param 64) = Inr h"
      "dget (bp_meta p) ''hash'' = Some (PStr hash)" "select_block_identity db h = Some (hash, bp_app_hash p)"
  | (stored) b where "r = Inr True" "block_ids_of E p = Inr b" "\<not> has_block db (bi_height b)"
      "db_blocks db' = db_blocks db @ [new_block_row b p]" "db_meta db' = db_meta db"
      "rbind (validate_execution_policy (bp_policy p)) (\<lambda>_. validate_storage_policy E db) = Inr ()"
proof (cases "rbind (validate_execution_policy (bp_policy p)) (\<lambda>_. validate_storage_policy E db)")
  case (Inl e)
  then show thesis using assms by (intro kept [of "db_change_seq db"]) (auto simp: persist_block_def)
next
  case policy: (Inr u)
  show thesis
  proof (cases "rbind (dindex (bp_meta p) ''height'') (int_param 64)")
    case (Inl e)
    then show thesis using assms policy by (intro kept [of "db_change_seq db"]) (auto simp: persist_block_def)
  next
    case h: (Inr h)
    show thesis
    proof (cases "select_block_identity db h")
      case (Some v)
      then show thesis
        using assms policy h kept [of "db_change_seq db"] known [of h "fst v"]
        by (cases v) (fastforce simp: persist_block_def)
    next
      case None
      obtain r' w where run: "persist_rows E p (db, []) = (r', w)" by (cases "persist_rows E p (db, [])") auto
      show thesis
      proof (cases "r' = Inr () \<and> \<not> fault")
        case False
        then have "r = Inr False" "db' = db\<lparr>db_change_seq := db_change_seq (fst w)\<rparr>"
          using assms policy h None run by (auto simp: persist_block_def in_transaction_def split: sum.splits prod.splits)
        then show thesis by (intro kept) auto
      next
        case True
        then have r: "r = Inr True" "db' = fst w"
          using assms policy h None run by (auto simp: persist_block_def in_transaction_def split: prod.splits)
        obtain b where b: "block_ids_of E p = Inr b"
          using run True unfolding persist_rows_def by (auto simp: slift_def elim!: sbind_Inr)
        have "bi_height b = h" using b h by (auto simp: block_ids_of_def elim!: rbind_InrE)
        then have new: "\<not> has_block db (bi_height b)" using None by (simp add: select_block_identity_None)
        show thesis
          using persist_rows_blocks [OF _ b new, of w] run True r policy by (intro stored [OF r(1) b new]) auto
      qed
    qed
  qed
qed

lemma block_ids_of_meta:
  assumes "block_ids_of E p = Inr b"
  shows "rbind (dindex (bp_meta p) ''height'') (int_param 64) = Inr (bi_height b)"
    and "dget (bp_meta p) ''hash'' = Some (PStr (bi_hash b))"
  using assms by (auto simp: block_ids_of_def dindex_Inr_iff rbind_Inr_iff)

lemma new_block_row_simps [simp]:
  "blk_height (new_block_row b p) = bi_height b" "blk_hash (new_block_row b p) = bi_hash b"
  "blk_app_hash (new_block_row b p) = bp_app_hash p"
  by (simp_all add: new_block_row_def)

text \<open>After a block was stored its identity is found under its height, and storing it again
  changes nothing.  When it was not stored, the tables are as before, except that the sequence of
  change numbers may have advanced.\<close>

theorem persist_block_once:
  assumes "persist_block E fault p db = (r, db')"
  shows "if r = Inr True
    then (\<exists>h hash. rbind (dindex (bp_meta p) ''height'') (int_param 64) = Inr h \<and> dget (bp_meta p) ''hash'' = Some (PStr hash) \<and>
            select_block_identity db' h = Some (hash, bp_app_hash p)) \<and> persist_block E fault' p db' = (Inr True, db')
    else \<exists>n. db' = db\<lparr>db_change_seq := n\<rparr>"
proof (cases rule: persist_block_cases [OF assms, case_names kept known stored])
  case (kept n)
  then show ?thesis by auto
next
  case (known h hash)
  moreover have "fst (persist_block E fault p db) = Inr True" using assms known by simp
  then have "is_ok (rbind (validate_execution_policy (bp_policy p)) (\<lambda>_. validate_storage_policy E db))"
    by (auto simp: persist_block_def split: sum.splits)
  ultimately show ?thesis by (auto simp: persist_block_def is_ok_iff)
next
  case (stored b)
  have "List.find (\<lambda>x. blk_height x = bi_height b) (db_blocks db') = Some (new_block_row b p)"
    using stored(3,4) by (simp add: has_block_def list_ex_iff find_append find_None_iff [THEN iffD2])
  then have id: "select_block_identity db' (bi_height b) = Some (bi_hash b, bp_app_hash p)"
    by (simp add: select_block_identity_def)
  have "validate_storage_policy E db' = validate_storage_policy E db"
    using stored(5) by (simp add: validate_storage_policy_def)
  then have "persist_block E fault' p db' = (Inr True, db')"
    using stored(6) id block_ids_of_meta [OF stored(2)] by (simp add: persist_block_def)
  then show ?thesis using stored(1) id block_ids_of_meta [OF stored(2)] by auto
qed

section \<open>Keys by prefix\<close>

definition plain_character :: "string \<Rightarrow> bool" where
  "plain_character c \<longleftrightarrow> c \<noteq> ''%'' \<and> c \<noteq> ''_'' \<and> c \<noteq> [CHR 0x5C]"

lemma sql_like_percent: "sql_like s [''%'']"
  by (induction s) simp_all

lemma sql_like_plain:
  "list_all plain_character p \<Longrightarrow> sql_like s (p @ [''%'']) \<longleftrightarrow> (\<exists>rest. s = p @ rest)"
proof (induction p arbitrary: s)
  case Nil
  then show ?case by (simp add: sql_like_percent)
next
  case (Cons c p)
  then show ?case
    by (cases s; cases "p @ [''%'']") (auto simp: plain_character_def)
qed

lemma select_state_keys:
  "map fst (select_state db prefix_text at_most start) =
   limit_offset at_most start
     (sort (filter (\<lambda>k. sql_like (utf8_chars k) (utf8_chars prefix_text @ [''%''])) (map fst (db_state db))))"
proof -
  have "map fst (sort_key fst rows) = sort (map fst rows)" for rows :: "(string \<times> state_row) list"
    by (rule properties_for_sort [symmetric]) simp_all
  then show ?thesis
    by (simp add: select_state_def limit_offset_def take_map [symmetric] drop_map [symmetric] filter_map o_def case_prod_beta')
qed

text \<open>The query for the state under a prefix gives the keys with that prefix, when no character of
  the prefix is special to \<^verbatim>\<open>LIKE\<close>.\<close>

theorem state_by_prefix:
  assumes "list_all plain_character (utf8_chars prefix_text)" "dict_wf (db_state db)"
  shows "set (select_state db prefix_text (int (length (db_state db))) 0) =
    {(k, row). map_of (db_state db) k = Some row \<and> (\<exists>rest. utf8_chars k = utf8_chars prefix_text @ rest)}"
proof -
  let ?rows = "filter (\<lambda>(k, _). sql_like (utf8_chars k) (utf8_chars prefix_text @ [''%''])) (db_state db)"
  have "length (sort_key fst ?rows) \<le> length (db_state db)" by simp
  then have "set (select_state db prefix_text (int (length (db_state db))) 0) = set ?rows"
    by (simp add: select_state_def limit_offset_def)
  then show ?thesis
    using assms by (auto simp: sql_like_plain dict_wf_map_of_iff)
qed

section \<open>Samples\<close>

definition sample_db_env :: bds_env where
  "sample_db_env =
     \<lparr>be_text = sample_text,
      be_time = \<lparr>ti_fromtimestamp = (\<lambda>_. Inl (ValueError [])), ti_fromisoformat = (\<lambda>_. Inl (ValueError [])),
                 ti_is_naive = (\<lambda>_. False), ti_replace_utc = id, ti_astimezone_utc = id\<rparr>,
      be_encode = (\<lambda>_. Inr []),
      be_loads = (\<lambda>s. Inr (if s = [] then PInt 1 else PDict current_execution_policy)),
      be_convert_dict = id, be_parse = (\<lambda>_. None), be_datetime = (\<lambda>_. Inl (ValueError [])), be_to_second = id,
      be_micros = (\<lambda>_. Inr 0), be_isoformat = (\<lambda>_. []), be_decimal = (\<lambda>_. Inl (ValueError [])),
      be_json_copy = Inr\<rparr>"

definition sample_bds_genesis :: pyval where
  "sample_bds_genesis =
     PDict [(PStr ''abci_genesis'', PDict [(PStr ''genesis'', PList
        [PDict [(PStr ''key'', PStr EXECUTION_POLICY_KEY), (PStr ''value'', PDict current_execution_policy)],
         PDict [(PStr ''key'', PStr ''con_a.x''), (PStr ''value'', PInt 1)],
         PDict [(PStr ''key'', PStr ''conXa.y''), (PStr ''value'', PInt 2)]])])]"

definition sample_bds_db :: bds_db where
  "sample_bds_db =
     (case prepare_schema sample_db_env empty_db of
        Inr db \<Rightarrow> snd (process_genesis_block sample_db_env False sample_bds_genesis db)
      | Inl _ \<Rightarrow> empty_db)"

definition sample_bds_meta :: pyval where
  "sample_bds_meta =
     PDict [(PStr ''height'', PInt 1), (PStr ''hash'', PStr ''B1''), (PStr ''nanos'', PInt 5)]"

text \<open>A block whose only change is a state patch of a key of genesis.\<close>

definition sample_patched_block :: bds_payload where
  "sample_patched_block =
     \<lparr>bp_meta = sample_bds_meta, bp_time = PNone, bp_app_hash = ''A1'', bp_transactions = [],
      bp_patches = [PDict [(PStr ''patch_id'', PStr ''p''), (PStr ''changes'', PList
         [PDict [(PStr ''key'', PStr ''con_a.x''), (PStr ''value'', PInt 7)]])]],
      bp_patch_hash = Some ''P1'', bp_policy = PDict current_execution_policy\<rparr>"

definition patched_db :: bds_db where
  "patched_db = snd (persist_block sample_db_env False sample_patched_block sample_bds_db)"

lemma sample_db_service: "service_db sample_db_env sample_bds_db"
proof -
  obtain db where db: "prepare_schema sample_db_env empty_db = Inr db" "db_changes db = []"
    by (rule that [of "(upsert_meta ''execution_policy'' stored_policy
          (upsert_meta ''schema_version'' (str_int SCHEMA_VERSION) empty_db))\<lparr>db_tables := True\<rparr>"])
      (simp_all add: prepare_schema_def empty_db_def upsert_meta_def)
  then show ?thesis
    unfolding sample_bds_db_def by (auto intro: service_db.genesis [OF service_db.fresh _ prod.collapse [symmetric]])
qed

lemma patched_db_service: "service_db sample_db_env patched_db"
  unfolding patched_db_def by (rule service_db.block [OF sample_db_service prod.collapse [symmetric]])

lemma sample_db_summary:
  "(case sample_bds_db of db \<Rightarrow>
      (map_option chg_origin (last_change (log_of db) ''con_a.x''), map fst (db_state db)))
   = (Some ''genesis'', [EXECUTION_POLICY_KEY, ''con_a.x'', ''conXa.y''])"
  by code_simp

lemma like_samples:
  "sql_like (utf8_chars ''con_a.x'') (utf8_chars ''con_a'' @ [''%''])"
  "sql_like (utf8_chars ''conXa.y'') (utf8_chars ''con_a'' @ [''%''])"
  "\<not> sql_like (utf8_chars EXECUTION_POLICY_KEY) (utf8_chars ''con_a'' @ [''%''])"
  "list_all plain_character (utf8_chars ''conX'')"
  by (simp_all add: plain_character_def EXECUTION_POLICY_KEY_def utf8_cont_def)

lemma patched_summary:
  "(case persist_block sample_db_env False sample_patched_block sample_bds_db of (r, db) \<Rightarrow>
      (r, map chg_key (db_changes db),
       map_option (\<lambda>(_, c, previous). (chg_origin c, previous)) (select_state_previous db ''con_a.x'')))
   = (Inr True, [EXECUTION_POLICY_KEY, ''con_a.x'', ''conXa.y'', ''con_a.x''], Some (''state_patch'', None))"
  by code_simp

theorem state_previous_correct_witness:
  "\<exists>s c previous. select_state_previous sample_bds_db ''con_a.x'' = Some (s, c, previous) \<and> stt_value s = chg_value c"
proof -
  obtain c where "last_change (log_of sample_bds_db) ''con_a.x'' = Some c" using sample_db_summary by auto
  with state_previous_correct [OF sample_db_service, of "''con_a.x''"] show ?thesis by auto
qed

lemma patched_stored: "persist_block sample_db_env False sample_patched_block sample_bds_db = (Inr True, patched_db)"
  using patched_summary unfolding patched_db_def by (auto split: prod.splits)

theorem persist_block_once_witness:
  "persist_block sample_db_env True sample_patched_block patched_db = (Inr True, patched_db)"
  using persist_block_once [OF patched_stored, of True] by simp

theorem state_by_prefix_witness:
  "set (select_state sample_bds_db ''conX'' (int (length (db_state sample_bds_db))) 0) =
    {(k, row). map_of (db_state sample_bds_db) k = Some row \<and> (\<exists>rest. utf8_chars k = utf8_chars ''conX'' @ rest)}"
proof (rule state_by_prefix)
  show "list_all plain_character (utf8_chars ''conX'')" by (rule like_samples)
  show "dict_wf (db_state sample_bds_db)" using sample_db_summary by (simp add: dict_wf_def EXECUTION_POLICY_KEY_def)
qed

text \<open>An underscore in the prefix also finds keys of other contracts.\<close>

theorem state_prefix_underscore:
  "map fst (select_state sample_bds_db ''con_a'' 10 0) = [''conXa.y'', ''con_a.x'']"
proof -
  have "filter (\<lambda>k. sql_like (utf8_chars k) (utf8_chars ''con_a'' @ [''%''])) (map fst (db_state sample_bds_db))
      = [''con_a.x'', ''conXa.y'']"
    using sample_db_summary like_samples by (simp del: sql_like.simps utf8_chars.simps)
  moreover have "sort [''con_a.x'', ''conXa.y''] = [''conXa.y'', ''con_a.x'']" by code_simp
  ultimately show ?thesis by (simp add: select_state_keys limit_offset_def del: sql_like.simps utf8_chars.simps)
qed

text \<open>A state patch changes a key that genesis has written; the query for its previous value
  finds none.\<close>

theorem patched_key_has_no_previous:
  "service_db sample_db_env patched_db \<and>
   map chg_key (db_changes patched_db) = [EXECUTION_POLICY_KEY, ''con_a.x'', ''conXa.y'', ''con_a.x''] \<and>
   map_option (\<lambda>(_, c, previous). (chg_origin c, previous)) (select_state_previous patched_db ''con_a.x'')
     = Some (''state_patch'', None)"
  using patched_db_service patched_summary patched_stored by simp

end
