(* ===== verification/Bds_Queue.thy ===== *)
theory Bds_Queue
  imports Bds_History
begin

text \<open>
  The block data service at work (\<^verbatim>\<open>src/src/xian/services/bds/bds.py\<close> and the documents of
  \<^verbatim>\<open>payloads.py\<close>): blocks are spooled to files and buffered, a worker stores them one by one in the
  order of their heights, and a catch-up task fetches blocks that were missed.  The tasks of the
  event loop take turns only where the code awaits something, so a step is what runs between two
  such points.  The spool is a directory: the text of each file under its name.
\<close>

section \<open>Spool documents\<close>

definition spool_version :: int where "spool_version = 2"

definition spool_tx :: "bds_env \<Rightarrow> bds_tx \<Rightarrow> pyval res" where
  "spool_tx E tx =
     rbind (be_json_copy E (bt_envelope tx)) (\<lambda>envelope.
     rbind (be_json_copy E (bt_payload tx)) (\<lambda>payload.
     rbind (canonical_json_value E (bt_result tx)) (\<lambda>tx_result.
     Inr (PDict [(PStr ''tx_index'', PInt (bt_index tx)), (PStr ''envelope'', envelope), (PStr ''payload'', payload),
                 (PStr ''tx_result'', tx_result)]))))"

definition to_spool_dict :: "bds_env \<Rightarrow> bds_payload \<Rightarrow> pyval res" where
  "to_spool_dict E p =
     rbind (validate_execution_policy (bp_policy p)) (\<lambda>_.
     rbind (canonical_json_value E (bp_meta p)) (\<lambda>meta.
     rbind (mapR (spool_tx E) (bp_transactions p)) (\<lambda>txs.
     rbind (canonical_json_value E (PList (bp_patches p))) (\<lambda>patches.
     Inr (PDict [(PStr ''version'', PInt spool_version), (PStr ''execution_policy'', bp_policy p),
                 (PStr ''block_meta'', meta),
                 (PStr ''block_time'', PStr (be_isoformat E (ti_astimezone_utc (be_time E) (bp_time p)))),
                 (PStr ''app_hash'', PStr (bp_app_hash p)), (PStr ''transactions'', PList txs),
                 (PStr ''state_patches'', patches),
                 (PStr ''state_patch_hash'', case bp_patch_hash p of None \<Rightarrow> PNone | Some h \<Rightarrow> PStr h)])))))"

text \<open>Reading a document: fields of other types than the dataclass declares are rejected.\<close>

definition unspool_tx :: "bds_env \<Rightarrow> pyval \<Rightarrow> bds_tx res" where
  "unspool_tx E tx =
     rbind (dindex tx ''tx_index'') (\<lambda>i.
     rbind (case i of PInt n \<Rightarrow> Inr n | _ \<Rightarrow> Inl (TypeError ''tx_index'')) (\<lambda>n.
     rbind (dindex tx ''envelope'') (\<lambda>envelope.
     rbind (dindex tx ''payload'') (\<lambda>payload.
     rbind (dindex tx ''tx_result'') (\<lambda>tx_result.
     Inr \<lparr>bt_index = n, bt_envelope = envelope, bt_payload = payload, bt_result = be_convert_dict E tx_result\<rparr>)))))"

definition from_spool_dict :: "bds_env \<Rightarrow> pyval \<Rightarrow> bds_payload res" where
  "from_spool_dict E data =
     rbind (py_get data ''version'' PNone) (\<lambda>version.
     rbind (guard (int_value version = Some spool_version) (ValueError ''unsupported BDS spool format version'')) (\<lambda>_.
     rbind (validate_execution_policy (dget_or data ''execution_policy'' PNone)) (\<lambda>_.
     rbind (dindex data ''block_meta'') (\<lambda>meta.
     rbind (rbind (dindex data ''block_time'') (\<lambda>t. case t of PStr s \<Rightarrow> ti_fromisoformat (be_time E) s
                                                      | _ \<Rightarrow> Inl (TypeError ''fromisoformat''))) (\<lambda>block_time.
     rbind (rbind (dindex data ''app_hash'') text_param) (\<lambda>app_hash.
     rbind (rbind (py_iter (dget_or data ''transactions'' (PList []))) (mapR (unspool_tx E))) (\<lambda>txs.
     rbind (py_iter (be_convert_dict E (dget_or data ''state_patches'' (PList [])))) (\<lambda>patches.
     rbind (text_or_null (dget_or data ''state_patch_hash'' PNone)) (\<lambda>patch_hash.
     Inr \<lparr>bp_meta = meta, bp_time = block_time, bp_app_hash = app_hash, bp_transactions = txs, bp_patches = patches,
          bp_patch_hash = patch_hash, bp_policy = dget_or data ''execution_policy'' PNone\<rparr>)))))))))"

section \<open>The service\<close>

datatype worker = NoWorker | Waiting | Persisting bds_payload | Dead

record bds =
  sv_db :: bds_db
  sv_spool :: "(string, string) dict"
  sv_pending :: "(int, bds_payload) dict"
  sv_event :: bool
  sv_indexed :: "int option"
  sv_enqueue_error :: "string option"
  sv_worker :: worker

definition payload_height :: "bds_env \<Rightarrow> bds_payload \<Rightarrow> int res" where
  "payload_height E p = rbind (dindex (bp_meta p) ''height'') (py_int (te_int_of_text (be_text E)))"

text \<open>\<^verbatim>\<open>f"{height:020d}"\<close>.\<close>

definition padded_height :: "int \<Rightarrow> string" where
  "padded_height h =
     (let digits = nat_digits (nat \<bar>h\<bar>) in
      if h < 0 then CHR ''-'' # replicate (19 - length digits) (CHR ''0'') @ digits
      else replicate (20 - length digits) (CHR ''0'') @ digits)"

definition spool_file_path :: "bds_env \<Rightarrow> bds_payload \<Rightarrow> string res" where
  "spool_file_path E p =
     rbind (payload_height E p) (\<lambda>height.
     rbind (dindex (bp_meta p) ''hash'') (\<lambda>hash.
     Inr (padded_height height @ ''-'' @ py_str (be_text E) hash @ ''.json'')))"

definition is_stale_height :: "bds \<Rightarrow> int \<Rightarrow> bool" where
  "is_stale_height st height = (case sv_indexed st of None \<Rightarrow> False | Some i \<Rightarrow> height \<le> i)"

definition is_stale_payload :: "bds_env \<Rightarrow> bds \<Rightarrow> bds_payload \<Rightarrow> bool res" where
  "is_stale_payload E st p = rbind (payload_height E p) (\<lambda>height. Inr (is_stale_height st height))"

text \<open>Where writing a spool file may fail: at the temporary file or at its renaming.\<close>

datatype io_fault = NoFault | WriteFails | ReplaceFails

definition write_spool_file :: "bds_env \<Rightarrow> io_fault \<Rightarrow> bds_payload \<Rightarrow> (bds, unit) step" where
  "write_spool_file E io p st =
     (case rbind (spool_file_path E p) (\<lambda>path. rbind (to_spool_dict E p) (\<lambda>d.
           rbind (ascii_json_dumps d) (\<lambda>content. Inr (path, content)))) of
        Inl e \<Rightarrow> (Inl e, st)
      | Inr (path, content) \<Rightarrow>
          (case io of
             WriteFails \<Rightarrow> (Inl (OtherError ''OSError''), st)
           | ReplaceFails \<Rightarrow>
               (Inl (OtherError ''OSError''), st\<lparr>sv_spool := AList.update (path @ ''.tmp'') content (sv_spool st)\<rparr>)
           | NoFault \<Rightarrow>
               (Inr (), st\<lparr>sv_spool := AList.update path content (AList.delete (path @ ''.tmp'') (sv_spool st))\<rparr>)))"

definition remove_spool_file :: "bds_env \<Rightarrow> bds_payload \<Rightarrow> (bds, unit) step" where
  "remove_spool_file E p st =
     (case spool_file_path E p of
        Inl e \<Rightarrow> (Inl e, st)
      | Inr path \<Rightarrow> (Inr (), st\<lparr>sv_spool := AList.delete path (sv_spool st)\<rparr>))"

definition read_spool_file :: "bds_env \<Rightarrow> string \<Rightarrow> bds_payload res" where
  "read_spool_file E content = rbind (be_loads E content) (from_spool_dict E)"

definition has_suffix :: "string \<Rightarrow> string \<Rightarrow> bool" where
  "has_suffix name ending = (drop (length name - length ending) name = ending)"

lemma has_suffix_iff: "has_suffix name ending \<longleftrightarrow> (\<exists>stem. name = stem @ ending)"
  unfolding has_suffix_def by (metis append_take_drop_id append_eq_conv_conj diff_add_inverse2 length_append)

definition pending_spool_files :: "bds \<Rightarrow> string list" where
  "pending_spool_files st = sort (filter (\<lambda>name. has_suffix name ''.json'') (map fst (sv_spool st)))"

text \<open>\<^verbatim>\<open>*.json*\<close>: every file with this text in its name.\<close>

definition clear_spool :: "bds \<Rightarrow> bds" where
  "clear_spool st = st\<lparr>sv_spool := filter (\<lambda>(name, _). \<not> contains_text ''.json'' name) (sv_spool st)\<rparr>"

section \<open>The buffer\<close>

definition capacity :: "int \<Rightarrow> nat" where
  "capacity queue_max_size = nat (max queue_max_size 1)"

definition enqueue_pending_payload :: "bds_env \<Rightarrow> int \<Rightarrow> bds_payload \<Rightarrow> (bds, bool) step" where
  "enqueue_pending_payload E qmax p st =
     (case rbind (validate_execution_policy (bp_policy p)) (\<lambda>_. payload_height E p) of
        Inl e \<Rightarrow> (Inl e, st)
      | Inr height \<Rightarrow>
          if is_stale_height st height then (Inr True, st)
          else if map_of (sv_pending st) height \<noteq> None then (Inr True, st)
          else if capacity qmax \<le> length (sv_pending st) then (Inr False, st)
          else (Inr True, st\<lparr>sv_pending := AList.update height p (sv_pending st), sv_event := True,
                             sv_enqueue_error := None\<rparr>))"

definition prune_stale_pending_payloads :: "bds \<Rightarrow> bds" where
  "prune_stale_pending_payloads st =
     (case sv_indexed st of None \<Rightarrow> st
      | Some i \<Rightarrow> st\<lparr>sv_pending := filter (\<lambda>(height, _). \<not> height \<le> i) (sv_pending st)\<rparr>)"

definition next_expected_height :: "bds \<Rightarrow> int" where
  "next_expected_height st = (case sv_indexed st of None \<Rightarrow> 0 | Some i \<Rightarrow> i + 1)"

definition has_next_pending_payload :: "bds \<Rightarrow> bool" where
  "has_next_pending_payload st = (map_of (sv_pending st) (next_expected_height st) \<noteq> None)"

definition pop_next_pending_payload :: "bds \<Rightarrow> bds_payload option \<times> bds" where
  "pop_next_pending_payload st =
     (map_of (sv_pending st) (next_expected_height st),
      st\<lparr>sv_pending := AList.delete (next_expected_height st) (sv_pending st)\<rparr>)"

definition enqueue_block :: "bds_env \<Rightarrow> int \<Rightarrow> io_fault \<Rightarrow> bds_payload \<Rightarrow> (bds, unit) step" where
  "enqueue_block E qmax io p st =
     (case rbind (validate_execution_policy (bp_policy p)) (\<lambda>_.
           rbind (guard (sv_worker st \<noteq> NoWorker) (RuntimeError ''BDS worker is not initialized'')) (\<lambda>_.
           is_stale_payload E st p)) of
        Inl e \<Rightarrow> (Inl e, st)
      | Inr True \<Rightarrow> (Inr (), st)
      | Inr False \<Rightarrow>
          sbind (write_spool_file E io p) (\<lambda>_.
          sbind (enqueue_pending_payload E qmax p) (\<lambda>queued st'.
          (Inr (), if queued then st' else st'\<lparr>sv_enqueue_error := Some ''pending_buffer_full''\<rparr>))) st)"

section \<open>Replay\<close>

definition validated_spool_files :: "bds_env \<Rightarrow> bds \<Rightarrow> (string \<times> bds_payload) list res" where
  "validated_spool_files E st =
     mapR (\<lambda>name. case map_of (sv_spool st) name of
             Some content \<Rightarrow> rbind (read_spool_file E content) (\<lambda>p. Inr (name, p))
           | None \<Rightarrow> Inl (FileNotFoundError name)) (pending_spool_files st)"

definition replay_file :: "bds_env \<Rightarrow> int \<Rightarrow> string \<times> bds_payload \<Rightarrow> (bds, unit) step" where
  "replay_file E qmax file st =
     (case is_stale_payload E st (snd file) of
        Inl e \<Rightarrow> (Inl e, st)
      | Inr True \<Rightarrow> (Inr (), st\<lparr>sv_spool := AList.delete (fst file) (sv_spool st)\<rparr>)
      | Inr False \<Rightarrow> sbind (enqueue_pending_payload E qmax (snd file)) (\<lambda>_. sret ()) st)"

definition replay_spool :: "bds_env \<Rightarrow> int \<Rightarrow> (bds, unit) step" where
  "replay_spool E qmax st =
     (case validated_spool_files E st of
        Inl e \<Rightarrow> (Inl e, st)
      | Inr files \<Rightarrow> sbind (smap (replay_file E qmax) files) (\<lambda>_. sret ()) st)"

section \<open>The worker\<close>

text \<open>The \<^verbatim>\<open>finally\<close> block: an exception in it ends the task.\<close>

definition worker_finally :: "bds_env \<Rightarrow> int \<Rightarrow> bds \<Rightarrow> bds" where
  "worker_finally E qmax st =
     (case (if length (sv_pending st) < capacity qmax then replay_spool E qmax st else (Inr (), st)) of
        (Inl e, st') \<Rightarrow> st'\<lparr>sv_worker := Dead\<rparr>
      | (Inr _, st') \<Rightarrow> st'\<lparr>sv_event := has_next_pending_payload st', sv_worker := Waiting\<rparr>)"

text \<open>The worker wakes up when the event is set and takes the next block.\<close>

definition worker_wake :: "bds_env \<Rightarrow> int \<Rightarrow> bds \<Rightarrow> bds" where
  "worker_wake E qmax st =
     (case pop_next_pending_payload st of
        (None, st') \<Rightarrow> worker_finally E qmax (st'\<lparr>sv_event := False\<rparr>)
      | (Some p, st') \<Rightarrow> st'\<lparr>sv_worker := Persisting p\<rparr>)"

text \<open>One attempt to store the block; after a failure the worker sleeps and tries again.\<close>

definition worker_persist :: "bds_env \<Rightarrow> int \<Rightarrow> bool \<Rightarrow> bds_payload \<Rightarrow> bds \<Rightarrow> bds" where
  "worker_persist E qmax fault p st =
     (case persist_block E fault p (sv_db st) of
        (Inr True, db) \<Rightarrow>
          (case payload_height E p of
             Inl e \<Rightarrow> st\<lparr>sv_db := db\<rparr>
           | Inr height \<Rightarrow>
               (case remove_spool_file E p (st\<lparr>sv_db := db, sv_indexed := Some height\<rparr>) of
                  (Inl e, st') \<Rightarrow> st'
                | (Inr _, st') \<Rightarrow> worker_finally E qmax (prune_stale_pending_payloads st')))
      | (_, db) \<Rightarrow> st\<lparr>sv_db := db\<rparr>)"

section \<open>Catch-up, status and maintenance\<close>

datatype catchup = Idle | Running int int | Fetching int int

definition catch_up_start :: "int \<Rightarrow> bds \<Rightarrow> catchup" where
  "catch_up_start latest_height st =
     (let indexed_height = (case sv_indexed st of Some i \<Rightarrow> i | None \<Rightarrow> 0);
          highest_pending = (if sv_pending st = [] then indexed_height else Max (set (map fst (sv_pending st))))
      in Running (indexed_height + 1) (max latest_height highest_pending))"

text \<open>The head of the loop, up to the request for a block.\<close>

definition catch_up_head :: "int \<Rightarrow> int \<Rightarrow> int \<Rightarrow> bds \<Rightarrow> catchup" where
  "catch_up_head qmax next_height target_height st =
     (if target_height < next_height then Idle
      else if capacity qmax \<le> length (sv_pending st) then Idle
      else if map_of (sv_pending st) next_height \<noteq> None then Running (next_height + 1) target_height
      else Fetching next_height target_height)"

text \<open>A fetched block is buffered; a failed request ends the round.\<close>

definition catch_up_fetched :: "bds_env \<Rightarrow> int \<Rightarrow> int \<Rightarrow> int \<Rightarrow> bds_payload res \<Rightarrow> bds \<Rightarrow> catchup \<times> bds" where
  "catch_up_fetched E qmax next_height target_height fetched st =
     (case fetched of
        Inl e \<Rightarrow> (Idle, st)
      | Inr p \<Rightarrow>
          (case enqueue_pending_payload E qmax p st of
             (Inr True, st') \<Rightarrow> (Running (next_height + 1) target_height, st')
           | (_, st') \<Rightarrow> (Idle, st')))"

text \<open>The part of \<^verbatim>\<open>get_status\<close> that changes the service, for the height the database reported.\<close>

definition status_indexed :: "int option \<Rightarrow> bds \<Rightarrow> bds" where
  "status_indexed reported st =
     prune_stale_pending_payloads
       (case reported of None \<Rightarrow> st
        | Some h \<Rightarrow> (case sv_indexed st of
                       None \<Rightarrow> st\<lparr>sv_indexed := Some h\<rparr>
                     | Some i \<Rightarrow> if i < h then st\<lparr>sv_indexed := Some h\<rparr> else st))"

definition refresh_indexed_height :: "bds \<Rightarrow> bds" where
  "refresh_indexed_height st = prune_stale_pending_payloads (st\<lparr>sv_indexed := max_height (sv_db st)\<rparr>)"

definition compact_file :: "bds_env \<Rightarrow> int \<Rightarrow> string \<times> bds_payload \<Rightarrow> (bds, unit) step" where
  "compact_file E indexed_height file st =
     (case payload_height E (snd file) of
        Inl e \<Rightarrow> (Inl e, st)
      | Inr height \<Rightarrow>
          (Inr (), if indexed_height < height then st
                   else st\<lparr>sv_spool := AList.delete (fst file) (sv_spool st)\<rparr>))"

definition compact_spool :: "bds_env \<Rightarrow> (bds, unit) step" where
  "compact_spool E st =
     (case validated_spool_files E st of
        Inl e \<Rightarrow> (Inl e, st)
      | Inr files \<Rightarrow>
          (let st' = st\<lparr>sv_spool := filter (\<lambda>(name, _). \<not> has_suffix name ''.json.tmp'') (sv_spool st)\<rparr> in
           case max_height (sv_db st) of
             None \<Rightarrow> (Inr (), st')
           | Some indexed \<Rightarrow> sbind (smap (compact_file E indexed) files) (\<lambda>_. sret ()) st'))"

definition start_worker :: "bds \<Rightarrow> bds" where
  "start_worker st = (if sv_worker st = NoWorker then st\<lparr>sv_worker := Waiting\<rparr> else st)"

definition start :: "bds_env \<Rightarrow> int \<Rightarrow> (bds, unit) step" where
  "start E qmax st = replay_spool E qmax (start_worker (refresh_indexed_height st))"

text \<open>A service after the end of its process: only the database and the spool are left.\<close>

definition stopped :: "bds_db \<Rightarrow> (string, string) dict \<Rightarrow> bds" where
  "stopped db spool =
     \<lparr>sv_db = db, sv_spool = spool, sv_pending = [], sv_event = False, sv_indexed = None, sv_enqueue_error = None,
      sv_worker = NoWorker\<rparr>"

text \<open>Preparing the storage: the schema, and genesis if there are no blocks.\<close>

definition initialize_storage :: "bds_env \<Rightarrow> bool \<Rightarrow> pyval \<Rightarrow> bool \<Rightarrow> (bds, unit) step" where
  "initialize_storage E fault cometbft_genesis reset st =
     (case validate_genesis_execution_policy cometbft_genesis of
        Inl e \<Rightarrow> (Inl e, st)
      | Inr _ \<Rightarrow>
          (let st' = (if reset then clear_spool st else st) in
           case (if reset then reset_schema E (sv_db st) else prepare_schema E (sv_db st)) of
             Inl e \<Rightarrow> (Inl e, if reset then st'\<lparr>sv_db := drop_all_tables (sv_db st)\<rparr> else st')
           | Inr db \<Rightarrow>
               if db_blocks db \<noteq> [] then (Inr (), st'\<lparr>sv_db := db\<rparr>)
               else case process_genesis_block E fault cometbft_genesis db of
                      (r, db') \<Rightarrow> (r, st'\<lparr>sv_db := db'\<rparr>)))"

record spool_entry =
  se_file :: string
  se_size_bytes :: nat
  se_height :: int
  se_hash :: string
  se_time :: string
  se_tx_count :: nat
  se_patch_count :: nat
  se_app_hash :: string

definition spool_entry_metadata :: "bds_env \<Rightarrow> string \<times> string \<Rightarrow> spool_entry res" where
  "spool_entry_metadata E spool_file =
     rbind (read_spool_file E (snd spool_file)) (\<lambda>p.
     rbind (payload_height E p) (\<lambda>height.
     rbind (dindex (bp_meta p) ''hash'') (\<lambda>hash.
     Inr \<lparr>se_file = fst spool_file, se_size_bytes = length (snd spool_file), se_height = height,
          se_hash = py_str (be_text E) hash, se_time = be_isoformat E (utc_datetime E (bp_time p)),
          se_tx_count = length (bp_transactions p), se_patch_count = length (bp_patches p),
          se_app_hash = bp_app_hash p\<rparr>)))"

definition pending_spool_file_infos :: "bds \<Rightarrow> (string \<times> string) list" where
  "pending_spool_file_infos st =
     map (\<lambda>name. (name, case map_of (sv_spool st) name of Some content \<Rightarrow> content | None \<Rightarrow> [])) (pending_spool_files st)"

definition get_spool_entries :: "bds_env \<Rightarrow> int \<Rightarrow> int \<Rightarrow> bds \<Rightarrow> spool_entry list res" where
  "get_spool_entries E at_most offset st =
     mapR (spool_entry_metadata E) (limit_offset at_most offset (pending_spool_file_infos st))"

text \<open>What is alarming about a service, for the numbers \<^verbatim>\<open>get_status\<close> has collected.\<close>

record status_input =
  si_db_ok :: bool
  si_spool_files :: nat
  si_spool_bytes :: int
  si_disk_free :: int
  si_current_height :: "int option"
  si_indexed_height :: "int option"
  si_warn_entries :: int
  si_warn_bytes :: int
  si_warn_disk :: int

definition index_height_delta :: "status_input \<Rightarrow> int option" where
  "index_height_delta s =
     (case (si_current_height s, si_indexed_height s) of (Some c, Some i) \<Rightarrow> Some (c - i) | _ \<Rightarrow> None)"

definition height_lag :: "status_input \<Rightarrow> int option" where
  "height_lag s = map_option (\<lambda>d. max d 0) (index_height_delta s)"

definition status_alerts :: "status_input \<Rightarrow> (string \<times> string) list" where
  "status_alerts s =
     (if si_db_ok s then [] else [(''error'', ''db_unavailable'')]) @
     (if si_warn_entries s \<le> int (si_spool_files s) then [(''warning'', ''spool_entries_high'')] else []) @
     (if si_warn_bytes s \<le> si_spool_bytes s then [(''warning'', ''spool_bytes_high'')] else []) @
     (if si_disk_free s \<le> si_warn_disk s then [(''warning'', ''disk_free_low'')] else []) @
     (case index_height_delta s of
        Some d \<Rightarrow> if d < 0 then [(''error'', ''indexed_height_ahead'')] else []
      | None \<Rightarrow> [])"

definition status_catching_up :: "status_input \<Rightarrow> bool" where
  "status_catching_up s \<longleftrightarrow>
     0 < si_spool_files s \<or> (case height_lag s of Some lag \<Rightarrow> 0 < lag | None \<Rightarrow> False)"

section \<open>A spooled block is read back\<close>

text \<open>What the codecs of the runtime must do on the values of a block.\<close>

definition tx_codecs_ok :: "bds_env \<Rightarrow> bds_tx \<Rightarrow> bool" where
  "tx_codecs_ok E tx \<longleftrightarrow>
     be_json_copy E (bt_envelope tx) = Inr (bt_envelope tx) \<and> be_json_copy E (bt_payload tx) = Inr (bt_payload tx) \<and>
     rbind (canonical_json_value E (bt_result tx)) (Inr \<circ> be_convert_dict E) = Inr (bt_result tx)"

definition codecs_ok :: "bds_env \<Rightarrow> bds_payload \<Rightarrow> bool" where
  "codecs_ok E p \<longleftrightarrow>
     canonical_json_value E (bp_meta p) = Inr (bp_meta p) \<and>
     ti_fromisoformat (be_time E) (be_isoformat E (ti_astimezone_utc (be_time E) (bp_time p))) = Inr (bp_time p) \<and>
     list_all (tx_codecs_ok E) (bp_transactions p) \<and>
     rbind (canonical_json_value E (PList (bp_patches p))) (Inr \<circ> be_convert_dict E) = Inr (PList (bp_patches p))"

lemma unspool_tx:
  assumes "tx_codecs_ok E tx"
  shows "rbind (spool_tx E tx) (unspool_tx E) = Inr tx"
proof -
  obtain x where "canonical_json_value E (bt_result tx) = Inr x" "be_convert_dict E x = bt_result tx"
    using assms by (auto simp: tx_codecs_ok_def elim: rbind_InrE)
  then show ?thesis using assms by (simp add: tx_codecs_ok_def spool_tx_def unspool_tx_def dindex_def)
qed

lemma unspool_txs:
  "list_all (tx_codecs_ok E) txs \<Longrightarrow> mapR (spool_tx E) txs = Inr docs \<Longrightarrow> mapR (unspool_tx E) docs = Inr txs"
proof (induction txs arbitrary: docs)
  case (Cons tx txs)
  then obtain d ds where "spool_tx E tx = Inr d" "mapR (spool_tx E) txs = Inr ds" "docs = d # ds"
    by (auto simp: rbind_Inr_iff)
  with Cons unspool_tx [of E tx] show ?case by simp
qed simp

lemma from_to_spool_dict:
  assumes "codecs_ok E p" "to_spool_dict E p = Inr d"
  shows "from_spool_dict E d = Inr p"
proof -
  obtain meta txs patches where parts: "validate_execution_policy (bp_policy p) = Inr ()"
      "canonical_json_value E (bp_meta p) = Inr meta" "mapR (spool_tx E) (bp_transactions p) = Inr txs"
      "canonical_json_value E (PList (bp_patches p)) = Inr patches"
    and d: "d = PDict [(PStr ''version'', PInt spool_version), (PStr ''execution_policy'', bp_policy p),
                 (PStr ''block_meta'', meta),
                 (PStr ''block_time'', PStr (be_isoformat E (ti_astimezone_utc (be_time E) (bp_time p)))),
                 (PStr ''app_hash'', PStr (bp_app_hash p)), (PStr ''transactions'', PList txs),
                 (PStr ''state_patches'', patches),
                 (PStr ''state_patch_hash'', case bp_patch_hash p of None \<Rightarrow> PNone | Some h \<Rightarrow> PStr h)]"
    using assms(2) unfolding to_spool_dict_def by (auto simp: rbind_Inr_iff)
  have decoded: "meta = bp_meta p" "be_convert_dict E patches = PList (bp_patches p)"
      "mapR (unspool_tx E) txs = Inr (bp_transactions p)"
    using assms(1) parts unspool_txs by (auto simp: codecs_ok_def)
  have hash: "text_or_null (case bp_patch_hash p of None \<Rightarrow> PNone | Some h \<Rightarrow> PStr h) = Inr (bp_patch_hash p)"
    by (auto simp: text_or_null_def text_param_def split: option.split)
  show ?thesis
    using assms(1) parts(1) decoded hash
    by (simp add: d from_spool_dict_def py_get_def dget_or_def dindex_def spool_version_def py_iter_def text_param_def
        codecs_ok_def)
qed

text \<open>The file that \<^verbatim>\<open>enqueue_block\<close> writes holds the block.\<close>

lemma written_file_read_back:
  assumes "write_spool_file E NoFault p st = (Inr (), st')" "codecs_ok E p"
    and "\<And>d content. to_spool_dict E p = Inr d \<Longrightarrow> ascii_json_dumps d = Inr content \<Longrightarrow> be_loads E content = Inr d"
  obtains path content where "spool_file_path E p = Inr path" "map_of (sv_spool st') path = Some content"
    "read_spool_file E content = Inr p"
proof -
  obtain path d content where "spool_file_path E p = Inr path" "to_spool_dict E p = Inr d" "ascii_json_dumps d = Inr content"
      "sv_spool st' = AList.update path content (AList.delete (path @ ''.tmp'') (sv_spool st))"
    using assms(1) by (auto simp: write_spool_file_def split: sum.splits) (auto elim!: rbind_InrE)
  then show thesis
    using that [of path content] from_to_spool_dict [OF assms(2)] assms(3) by (simp add: dict_simps read_spool_file_def)
qed

section \<open>Runs\<close>

text \<open>A step of one of the tasks.  The database reports the height of a block it has; the block
  source may answer anything.\<close>

inductive bds_step :: "bds_env \<Rightarrow> int \<Rightarrow> bds \<times> catchup \<Rightarrow> bds \<times> catchup \<Rightarrow> bool" for E qmax where
  enqueue: "enqueue_block E qmax io p st = (r, st') \<Longrightarrow> bds_step E qmax (st, c) (st', c)"
| wake: "sv_worker st = Waiting \<Longrightarrow> sv_event st \<Longrightarrow> bds_step E qmax (st, c) (worker_wake E qmax st, c)"
| persist: "sv_worker st = Persisting p \<Longrightarrow> bds_step E qmax (st, c) (worker_persist E qmax fault p st, c)"
| round: "bds_step E qmax (st, Idle) (st, catch_up_start latest st)"
| head: "bds_step E qmax (st, Running n t) (st, catch_up_head qmax n t st)"
| fetched: "catch_up_fetched E qmax n t f st = (c, st') \<Longrightarrow> bds_step E qmax (st, Fetching n t) (st', c)"
| status: "(\<And>h. reported = Some h \<Longrightarrow> has_block (sv_db st) h) \<Longrightarrow> bds_step E qmax (st, c) (status_indexed reported st, c)"
| compact: "compact_spool E st = (r, st') \<Longrightarrow> bds_step E qmax (st, c) (st', c)"

definition heights :: "bds_db \<Rightarrow> int set" where
  "heights db = blk_height ` set (db_blocks db)"

inductive bds_reachable :: "bds_env \<Rightarrow> int \<Rightarrow> bds \<times> catchup \<Rightarrow> bool" for E qmax where
  started: "heights db = {0..n} \<Longrightarrow> 0 \<le> n \<Longrightarrow> start E qmax (stopped db spool) = (r, st) \<Longrightarrow> bds_reachable E qmax (st, Idle)"
| restarted: "bds_reachable E qmax (st, c) \<Longrightarrow> start E qmax (stopped (sv_db st) (sv_spool st)) = (r, st') \<Longrightarrow>
    bds_reachable E qmax (st', Idle)"
| moved: "bds_reachable E qmax s \<Longrightarrow> bds_step E qmax s s' \<Longrightarrow> bds_reachable E qmax s'"

section \<open>The index has no gaps\<close>

definition pending_ok :: "bds_env \<Rightarrow> int \<Rightarrow> (int, bds_payload) dict \<Rightarrow> bool" where
  "pending_ok E qmax pending \<longleftrightarrow>
     dict_wf pending \<and> length pending \<le> capacity qmax \<and> (\<forall>(h, p) \<in> set pending. payload_height E p = Inr h)"

text \<open>The parts of the state that only the worker and the status change.\<close>

definition index_at :: "bds_env \<Rightarrow> int \<Rightarrow> bds \<Rightarrow> bool" where
  "index_at E n st \<longleftrightarrow>
     0 \<le> n \<and> heights (sv_db st) = {0..n} \<and> (\<exists>i. sv_indexed st = Some i \<and> 0 \<le> i \<and> i \<le> n) \<and>
     (\<forall>p. sv_worker st = Persisting p \<longrightarrow> (\<exists>h. payload_height E p = Inr h \<and> 0 \<le> h \<and> h \<le> n + 1))"

definition service_ok :: "bds_env \<Rightarrow> int \<Rightarrow> int \<Rightarrow> bds \<Rightarrow> bool" where
  "service_ok E qmax n st \<longleftrightarrow> index_at E n st \<and> pending_ok E qmax (sv_pending st)"

lemma capacity_pos: "0 < capacity qmax"
  by (simp add: capacity_def)

lemma pending_ok_Nil: "pending_ok E qmax []"
  by (simp add: pending_ok_def)

lemma buffer_ok_filter: "pending_ok E qmax pending \<Longrightarrow> pending_ok E qmax (filter P pending)"
  unfolding pending_ok_def by (auto intro: order_trans [OF length_filter_le])

lemma pending_ok_delete: "pending_ok E qmax pending \<Longrightarrow> pending_ok E qmax (AList.delete h pending)"
  unfolding AList.delete_eq by (rule buffer_ok_filter)

lemma pending_ok_update:
  assumes "pending_ok E qmax pending" "map_of pending h = None" "length pending < capacity qmax" "payload_height E p = Inr h"
  shows "pending_ok E qmax (AList.update h p pending)"
proof -
  have "AList.update h p pending = pending @ [(h, p)]" using assms(2) by (induction pending) auto
  then show ?thesis using assms by (auto simp: pending_ok_def dict_wf_def map_of_eq_None_iff)
qed

lemma enqueue_pending_payload_keeps: "maintains (service_ok E qmax n) (enqueue_pending_payload E qmax p)"
  unfolding maintains_def
proof (intro allI impI)
  fix st assume ok: "service_ok E qmax n st"
  show "service_ok E qmax n (snd (enqueue_pending_payload E qmax p st))"
  proof (cases "rbind (validate_execution_policy (bp_policy p)) (\<lambda>_. payload_height E p)")
    case (Inl e)
    then show ?thesis using ok by (simp add: enqueue_pending_payload_def)
  next
    case (Inr h)
    then have "payload_height E p = Inr h" by (auto elim: rbind_InrE)
    then show ?thesis
      using ok Inr by (auto simp: enqueue_pending_payload_def service_ok_def index_at_def intro!: pending_ok_update)
  qed
qed

lemma write_spool_file_keeps: "maintains (service_ok E qmax n) (write_spool_file E io p)"
  unfolding maintains_def write_spool_file_def
  by (auto simp: service_ok_def index_at_def split: sum.splits io_fault.splits)

lemma enqueue_block_keeps: "maintains (service_ok E qmax n) (enqueue_block E qmax io p)"
proof -
  have "maintains (service_ok E qmax n) (\<lambda>st'. (Inr (), if queued then st' else st'\<lparr>sv_enqueue_error := err\<rparr>))" for queued err
    by (simp add: maintains_def service_ok_def index_at_def)
  then have "maintains (service_ok E qmax n) (sbind (write_spool_file E io p) (\<lambda>_.
      sbind (enqueue_pending_payload E qmax p) (\<lambda>queued st'.
      (Inr (), if queued then st' else st'\<lparr>sv_enqueue_error := Some ''pending_buffer_full''\<rparr>))))"
    by (intro maintains_sbind write_spool_file_keeps enqueue_pending_payload_keeps)
  then show ?thesis
    unfolding maintains_def enqueue_block_def by (auto split: sum.split bool.split)
qed

lemma replay_spool_keeps: "maintains (service_ok E qmax n) (replay_spool E qmax)"
proof -
  have run: "maintains (service_ok E qmax n) (sbind (enqueue_pending_payload E qmax p) (\<lambda>_. sret ()))" for p
    by (intro maintains_sbind enqueue_pending_payload_keeps maintains_sret)
  have one_file: "maintains (service_ok E qmax n) (replay_file E qmax f)" for f
    unfolding maintains_def
  proof (intro allI impI)
    fix st assume ok: "service_ok E qmax n st"
    have "service_ok E qmax n (snd (sbind (enqueue_pending_payload E qmax (snd f)) (\<lambda>_. sret ()) st))"
      using run ok unfolding maintains_def by blast
    moreover have "service_ok E qmax n (st\<lparr>sv_spool := d\<rparr>)" for d using ok by (simp add: service_ok_def index_at_def)
    ultimately show "service_ok E qmax n (snd (replay_file E qmax f st))"
      using ok by (auto simp: replay_file_def split: sum.split bool.split)
  qed
  have "maintains (service_ok E qmax n) (sbind (smap (replay_file E qmax) files) (\<lambda>_. sret ()))" for files
    by (intro maintains_sbind maintains_smap one_file maintains_sret)
  then show ?thesis
    unfolding maintains_def replay_spool_def by (auto split: sum.split)
qed

lemma prune_keeps: "service_ok E qmax n st \<Longrightarrow> service_ok E qmax n (prune_stale_pending_payloads st)"
  by (auto simp: prune_stale_pending_payloads_def service_ok_def index_at_def split: option.split intro: buffer_ok_filter)

lemma worker_finally_keeps:
  assumes "service_ok E qmax n st"
  shows "service_ok E qmax n (worker_finally E qmax st)"
proof -
  have settle: "service_ok E qmax n (st'\<lparr>sv_worker := Dead\<rparr>)" "service_ok E qmax n (st'\<lparr>sv_event := b, sv_worker := Waiting\<rparr>)"
    if "service_ok E qmax n st'" for st' b
    using that by (auto simp: service_ok_def index_at_def)
  moreover have "service_ok E qmax n (snd (replay_spool E qmax st))"
    using replay_spool_keeps assms unfolding maintains_def by blast
  ultimately show ?thesis
    using assms by (auto simp: worker_finally_def split: prod.split sum.split)
qed

lemma worker_wake_keeps:
  assumes "service_ok E qmax n st"
  shows "service_ok E qmax n (worker_wake E qmax st)"
proof -
  let ?st = "st\<lparr>sv_pending := AList.delete (next_expected_height st) (sv_pending st)\<rparr>"
  have ok: "service_ok E qmax n ?st" "service_ok E qmax n (?st\<lparr>sv_event := False\<rparr>)"
    using assms by (auto simp: service_ok_def index_at_def intro: pending_ok_delete)
  show ?thesis
  proof (cases "map_of (sv_pending st) (next_expected_height st)")
    case None
    then show ?thesis
      using worker_finally_keeps [OF ok(2)] by (simp add: worker_wake_def pop_next_pending_payload_def)
  next
    case (Some p)
    obtain i where i: "sv_indexed st = Some i" "0 \<le> i" "i \<le> n"
      using assms by (auto simp: service_ok_def index_at_def)
    have "(next_expected_height st, p) \<in> set (sv_pending st)" using Some by (rule map_of_SomeD)
    then have "payload_height E p = Inr (next_expected_height st)"
      using assms by (auto simp: service_ok_def pending_ok_def)
    then show ?thesis
      using ok i Some by (auto simp: worker_wake_def pop_next_pending_payload_def service_ok_def index_at_def
          next_expected_height_def)
  qed
qed

lemma int_param_Inr: "int_param bits v = Inr i \<Longrightarrow> v = PInt i"
  by (cases v) (auto simp: int_param_def split: if_splits)

lemma int_param_height:
  "rbind (dindex (bp_meta p) ''height'') (int_param 64) = Inr h \<Longrightarrow> payload_height E p = Inr h"
  by (auto simp: payload_height_def rbind_Inr_iff dest!: int_param_Inr)

text \<open>A block that counts as stored is in the index, and nothing else is added.\<close>

lemma persist_block_adds:
  assumes "persist_block E fault p db = (r, db')" "payload_height E p = Inr h"
  shows "heights db' = (if r = Inr True then insert h (heights db) else heights db)"
proof (cases rule: persist_block_cases [OF assms(1), case_names kept known stored])
  case (kept k)
  then show ?thesis by (auto simp: heights_def)
next
  case (known k hash)
  then have "k = h" using int_param_height [OF known(3), of E] assms(2) by simp
  moreover have "has_block db k" using known(5) select_block_identity_None [of db k] by auto
  then have "k \<in> heights db" by (auto simp: has_block_def heights_def list_ex_iff)
  ultimately show ?thesis using known by (auto simp: heights_def)
next
  case (stored b)
  have "bi_height b = h" using int_param_height [OF block_ids_of_meta(1) [OF stored(2)], of E] assms(2) by simp
  then show ?thesis using stored(1,4) by (simp add: heights_def)
qed

text \<open>Storing the block with the next height extends the range of heights by it.\<close>

lemma persist_block_heights:
  assumes "persist_block E fault p db = (r, db')" "heights db = {0..n}" "0 \<le> n"
    and "payload_height E p = Inr h" "0 \<le> h" "h \<le> n + 1"
  shows "if r = Inr True then heights db' = {0..max n h} else heights db' = {0..n}"
  using persist_block_adds [OF assms(1,4)] assms(2,3,5,6) by auto

lemma worker_persist_keeps:
  assumes "service_ok E qmax n st" "sv_worker st = Persisting p"
  shows "\<exists>m. service_ok E qmax m (worker_persist E qmax fault p st)"
proof -
  obtain r db where run: "persist_block E fault p (sv_db st) = (r, db)" by (cases "persist_block E fault p (sv_db st)") auto
  obtain h where h: "payload_height E p = Inr h" "0 \<le> h" "h \<le> n + 1" "heights (sv_db st) = {0..n}" "0 \<le> n"
    using assms by (auto simp: service_ok_def index_at_def)
  note db = persist_block_heights [OF run h(4,5) h(1-3)]
  show ?thesis
  proof (cases "r = Inr True")
    case True
    let ?st = "st\<lparr>sv_db := db, sv_indexed := Some h\<rparr>"
    have ok: "service_ok E qmax (max n h) ?st"
      using assms db True h by (auto simp: service_ok_def index_at_def)
    show ?thesis
    proof (cases "spool_file_path E p")
      case (Inl e)
      then show ?thesis using ok run True h by (auto simp: worker_persist_def remove_spool_file_def)
    next
      case (Inr path)
      have "service_ok E qmax (max n h) (?st\<lparr>sv_spool := d\<rparr>)" for d using ok by (simp add: service_ok_def index_at_def)
      from worker_finally_keeps [OF prune_keeps [OF this]] show ?thesis
        using Inr run True h by (auto simp: worker_persist_def remove_spool_file_def)
    qed
  next
    case False
    then have "worker_persist E qmax fault p st = st\<lparr>sv_db := db\<rparr>"
      using run by (auto simp: worker_persist_def split: sum.splits bool.splits)
    moreover have "service_ok E qmax n (st\<lparr>sv_db := db\<rparr>)"
      using assms db False by (auto simp: service_ok_def index_at_def)
    ultimately show ?thesis by auto
  qed
qed

lemma status_indexed_keeps:
  assumes "service_ok E qmax n st" "\<And>h. reported = Some h \<Longrightarrow> has_block (sv_db st) h"
  shows "service_ok E qmax n (status_indexed reported st)"
proof -
  have "0 \<le> h \<and> h \<le> n" if "reported = Some h" for h
  proof -
    have "h \<in> heights (sv_db st)" using assms(2) [OF that] by (auto simp: has_block_def heights_def list_ex_iff)
    then show ?thesis using assms(1) by (simp add: service_ok_def index_at_def)
  qed
  then show ?thesis
    unfolding status_indexed_def using assms(1)
    by (intro prune_keeps) (auto simp: service_ok_def index_at_def split: option.splits)
qed

lemma compact_spool_keeps: "maintains (service_ok E qmax n) (compact_spool E)"
proof -
  have spool: "service_ok E qmax n st \<Longrightarrow> service_ok E qmax n (st\<lparr>sv_spool := d\<rparr>)" for st d
    by (simp add: service_ok_def index_at_def)
  then have "maintains (service_ok E qmax n) (compact_file E i f)" for i f
    by (auto simp: maintains_def compact_file_def split: sum.split)
  then have "maintains (service_ok E qmax n) (sbind (smap (compact_file E i) files) (\<lambda>_. sret ()))" for i files
    by (intro maintains_sbind maintains_smap maintains_sret)
  with spool show ?thesis
    unfolding maintains_def compact_spool_def Let_def by (auto split: sum.split option.split)
qed

lemma start_ok:
  assumes "heights db = {0..n}" "0 \<le> n" "start E qmax (stopped db spool) = (r, st)"
  shows "service_ok E qmax n st"
proof -
  have "max_height db = Some n"
    using assms(1,2) by (auto simp: max_height_def heights_def intro!: Max_eqI)
  then have "service_ok E qmax n (start_worker (refresh_indexed_height (stopped db spool)))"
    using assms(1,2) by (simp add: start_worker_def refresh_indexed_height_def stopped_def prune_stale_pending_payloads_def
        service_ok_def index_at_def pending_ok_Nil)
  from maintainsD [OF replay_spool_keeps this] assms(3) show ?thesis by (simp add: start_def)
qed

lemma catch_up_fetched_state:
  "snd (catch_up_fetched E qmax n t f st) = (case f of Inl _ \<Rightarrow> st | Inr p \<Rightarrow> snd (enqueue_pending_payload E qmax p st))"
  by (auto simp: catch_up_fetched_def split: sum.split prod.split bool.split)

lemma bds_step_ok:
  assumes "bds_step E qmax (st, c) (st', c')" "service_ok E qmax n st"
  shows "\<exists>m. service_ok E qmax m st'"
  using assms(1)
proof cases
  case (fetched n' t f)
  have "service_ok E qmax n (snd (enqueue_pending_payload E qmax p st))" for p
    using enqueue_pending_payload_keeps assms(2) unfolding maintains_def by blast
  moreover have "st' = snd (catch_up_fetched E qmax n' t f st)" using fetched by simp
  ultimately have "service_ok E qmax n st'" using assms(2) by (auto simp: catch_up_fetched_state split: sum.split)
  then show ?thesis ..
next
  case (enqueue io p r)
  then show ?thesis using maintainsD [OF enqueue_block_keeps assms(2)] by blast
next
  case (compact r)
  then show ?thesis using maintainsD [OF compact_spool_keeps assms(2)] by blast
next
  case wake
  then show ?thesis using worker_wake_keeps [OF assms(2)] by auto
next
  case (persist p fault)
  then show ?thesis using worker_persist_keeps [OF assms(2)] by auto
next
  case (status reported)
  then show ?thesis using status_indexed_keeps [OF assms(2), of reported] by auto
qed (use assms(2) in auto)

lemma bds_reachable_ok: "bds_reachable E qmax s \<Longrightarrow> \<exists>n. service_ok E qmax n (fst s)"
proof (induction rule: bds_reachable.induct)
  case (started db n spool r st)
  then show ?case using start_ok by fastforce
next
  case (restarted st c r st')
  then obtain n where "heights (sv_db st) = {0..n}" "0 \<le> n" by (auto simp: service_ok_def index_at_def)
  with restarted.hyps(2) show ?case using start_ok by fastforce
next
  case (moved s s')
  then show ?case using bds_step_ok [of E qmax "fst s" "snd s" "fst s'" "snd s'"] by auto
qed

text \<open>C26: In every run, with failures and restarts, the stored blocks have no gaps, the height in
  memory is not ahead of them and the buffer is within its limit and in order.\<close>

theorem index_has_no_gaps:
  assumes "bds_reachable E qmax (st, c)"
  shows "\<exists>n i. heights (sv_db st) = {0..n} \<and> sv_indexed st = Some i \<and> i \<le> n \<and>
    length (sv_pending st) \<le> capacity qmax \<and> (\<forall>(h, p) \<in> set (sv_pending st). payload_height E p = Inr h)"
  using bds_reachable_ok [OF assms] by (auto simp: service_ok_def index_at_def pending_ok_def)

section \<open>A file stays in the spool until its block is stored\<close>

text \<open>The height of a spool file: that of the block it holds, or that in its name.\<close>

definition file_height :: "bds_env \<Rightarrow> (string, string) dict \<Rightarrow> string \<Rightarrow> int \<Rightarrow> bool" where
  "file_height E spool name h \<longleftrightarrow>
     (\<exists>content p. map_of spool name = Some content \<and> read_spool_file E content = Inr p \<and> payload_height E p = Inr h) \<or>
     (\<exists>rest. name = padded_height h @ ''-'' @ rest)"

definition spool_kept :: "bds_env \<Rightarrow> (string, string) dict \<Rightarrow> bds \<Rightarrow> bool" where
  "spool_kept E spool st \<longleftrightarrow>
     (\<forall>name. map_of spool name \<noteq> None \<and> \<not> has_suffix name ''.tmp'' \<longrightarrow>
        map_of (sv_spool st) name \<noteq> None \<or> (\<exists>h i. max_height (sv_db st) = Some i \<and> h \<le> i \<and> file_height E spool name h))"

lemma spool_kept_delete:
  assumes "spool_kept E spool st" "file_height E spool name h" "max_height (sv_db st) = Some i" "h \<le> i"
  shows "spool_kept E spool (st\<lparr>sv_spool := AList.delete name (sv_spool st)\<rparr>)"
  using assms by (auto simp: spool_kept_def map_of_AList_delete)

lemma enqueue_pending_payload_frame:
  "sv_spool (snd (enqueue_pending_payload E qmax p st)) = sv_spool st"
  "sv_db (snd (enqueue_pending_payload E qmax p st)) = sv_db st"
  "sv_indexed (snd (enqueue_pending_payload E qmax p st)) = sv_indexed st"
  by (auto simp: enqueue_pending_payload_def split: sum.split)

lemma validated_file:
  assumes "validated_spool_files E st = Inr files" "(name, p) \<in> set files" "payload_height E p = Inr h"
    and "map_of (sv_spool st) \<subseteq>\<^sub>m map_of spool"
  shows "file_height E spool name h"
proof -
  obtain name' where "(case map_of (sv_spool st) name' of
      Some content \<Rightarrow> rbind (read_spool_file E content) (\<lambda>p. Inr (name', p)) | None \<Rightarrow> Inl (FileNotFoundError name')) = Inr (name, p)"
    using mapR_in_set [OF assms(1) [unfolded validated_spool_files_def] assms(2)] by blast
  then obtain content where "map_of (sv_spool st) name = Some content" "read_spool_file E content = Inr p"
    by (auto split: option.splits elim!: rbind_InrE)
  moreover from this have "map_of spool name = Some content" using assms(4) by (metis domI map_le_def)
  ultimately show ?thesis using assms(3) unfolding file_height_def by blast
qed

lemma replay_spool_kept:
  assumes st: "spool_kept E spool st" "map_of (sv_spool st) \<subseteq>\<^sub>m map_of spool"
    and i: "sv_indexed st = Some i" "max_height (sv_db st) = Some m" "i \<le> m"
  shows "spool_kept E spool (snd (replay_spool E qmax st)) \<and> sv_db (snd (replay_spool E qmax st)) = sv_db st"
proof -
  define Q where "Q s \<longleftrightarrow> spool_kept E spool s \<and> sv_db s = sv_db st \<and> sv_indexed s = Some i" for s
  have enq: "Q s \<Longrightarrow> Q (snd (sbind (enqueue_pending_payload E qmax p) (\<lambda>_. sret ()) s))" for s p
    using enqueue_pending_payload_frame [of E qmax p s]
    by (cases "enqueue_pending_payload E qmax p s") (auto simp: Q_def sbind_def sret_def spool_kept_def split: sum.split)
  have one_file: "maintains Q (replay_file E qmax f)" if "validated_spool_files E st = Inr files" "f \<in> set files" for f files
    unfolding maintains_def
  proof (intro allI impI)
    fix s assume s: "Q s"
    have "Q (s\<lparr>sv_spool := AList.delete (fst f) (sv_spool s)\<rparr>)" if stale: "is_stale_payload E s (snd f) = Inr True"
    proof -
      obtain h where "payload_height E (snd f) = Inr h" "h \<le> i"
        using stale s unfolding is_stale_payload_def rbind_Inr_iff by (auto simp: is_stale_height_def Q_def)
      moreover from this have "file_height E spool (fst f) h"
        using validated_file [OF \<open>validated_spool_files E st = Inr files\<close> _ _ st(2)] \<open>f \<in> set files\<close> by (metis prod.collapse)
      ultimately show ?thesis using s i spool_kept_delete [of E spool s "fst f" h m] by (auto simp: Q_def)
    qed
    with s enq show "Q (snd (replay_file E qmax f s))"
      by (auto simp: replay_file_def split: sum.split bool.split)
  qed
  have "Q (snd (replay_spool E qmax st))"
  proof (cases "validated_spool_files E st")
    case (Inl e)
    then show ?thesis using st i by (simp add: replay_spool_def Q_def)
  next
    case (Inr files)
    have "maintains Q (sbind (smap (replay_file E qmax) files) (\<lambda>_. sret ()))"
      by (intro maintains_sbind maintains_smap one_file [OF Inr] maintains_sret)
    then show ?thesis using st i Inr by (simp add: replay_spool_def Q_def maintains_def)
  qed
  then show ?thesis by (simp add: Q_def)
qed

lemma worker_finally_kept:
  assumes "spool_kept E spool st" "map_of (sv_spool st) \<subseteq>\<^sub>m map_of spool"
    and "sv_indexed st = Some i" "max_height (sv_db st) = Some m" "i \<le> m"
  shows "spool_kept E spool (worker_finally E qmax st)"
proof -
  have "spool_kept E spool (s\<lparr>sv_worker := Dead\<rparr>)" "spool_kept E spool (s\<lparr>sv_event := b, sv_worker := Waiting\<rparr>)"
    if "spool_kept E spool s" for s b
    using that by (auto simp: spool_kept_def)
  then show ?thesis
    using replay_spool_kept [OF assms, of qmax] assms(1) by (auto simp: worker_finally_def split: prod.split sum.split)
qed

lemma spool_kept_refl: "spool_kept E (sv_spool st) st"
  by (simp add: spool_kept_def)

lemma spool_kept_mono:
  assumes "\<And>name. map_of (sv_spool st) name \<noteq> None \<Longrightarrow> \<not> has_suffix name ''.tmp'' \<Longrightarrow> map_of (sv_spool st') name \<noteq> None"
  shows "spool_kept E (sv_spool st) st'"
  using assms unfolding spool_kept_def by blast

lemma service_ok_max_height: "service_ok E qmax n st \<Longrightarrow> max_height (sv_db st) = Some n"
  by (auto simp: service_ok_def index_at_def max_height_def heights_def intro!: Max_eqI)

lemma write_spool_file_kept: "spool_kept E (sv_spool st) (snd (write_spool_file E io p st))"
proof (rule spool_kept_mono)
  have "has_suffix (path @ ''.tmp'') ''.tmp''" for path by (simp add: has_suffix_def)
  then show "map_of (sv_spool (snd (write_spool_file E io p st))) name \<noteq> None"
    if "map_of (sv_spool st) name \<noteq> None" "\<not> has_suffix name ''.tmp''" for name
    using that by (auto simp: write_spool_file_def dict_simps split: sum.split io_fault.split)
qed

lemma enqueue_block_kept: "spool_kept E (sv_spool st) (snd (enqueue_block E qmax io p st))"
proof -
  obtain r s where w: "write_spool_file E io p st = (r, s)" by (cases "write_spool_file E io p st") auto
  then have s: "spool_kept E (sv_spool st) s" using write_spool_file_kept [of E st io p] by simp
  obtain r' s' where e: "enqueue_pending_payload E qmax p s = (r', s')" by (cases "enqueue_pending_payload E qmax p s") auto
  have "sv_spool s' = sv_spool s" "sv_db s' = sv_db s" using enqueue_pending_payload_frame [of E qmax p s] e by auto
  then have "spool_kept E (sv_spool st) s'" "spool_kept E (sv_spool st) (s'\<lparr>sv_enqueue_error := x\<rparr>)" for x
    using s by (auto simp: spool_kept_def)
  with s w e show ?thesis
    by (auto simp: enqueue_block_def sbind_def spool_kept_refl split: sum.split bool.split)
qed

lemma worker_persist_kept:
  assumes ok: "service_ok E qmax n st" and p: "sv_worker st = Persisting p"
  shows "spool_kept E (sv_spool st) (worker_persist E qmax fault p st)"
proof -
  obtain r db where run: "persist_block E fault p (sv_db st) = (r, db)" by (cases "persist_block E fault p (sv_db st)") auto
  obtain h where h: "payload_height E p = Inr h" "0 \<le> h" "h \<le> n + 1" "heights (sv_db st) = {0..n}" "0 \<le> n"
    using assms by (auto simp: service_ok_def index_at_def)
  have keep: "spool_kept E (sv_spool st) s" if "sv_spool s = sv_spool st" for s
    using that by (simp add: spool_kept_def)
  show ?thesis
  proof (cases "r = Inr True")
    case True
    then have "heights db = {0..max n h}" using persist_block_heights [OF run h(4,5) h(1-3)] by simp
    then have max: "max_height db = Some (max n h)" using h by (auto simp: max_height_def heights_def intro!: Max_eqI)
    let ?st = "st\<lparr>sv_db := db, sv_indexed := Some h\<rparr>"
    show ?thesis
    proof (cases "spool_file_path E p")
      case (Inl e)
      then show ?thesis using run True h by (auto simp: worker_persist_def remove_spool_file_def intro!: keep)
    next
      case (Inr path)
      let ?gone = "?st\<lparr>sv_spool := AList.delete path (sv_spool st)\<rparr>"
      have "file_height E (sv_spool st) path h"
        using Inr h(1) by (auto simp: spool_file_path_def file_height_def elim!: rbind_InrE)
      then have gone: "spool_kept E (sv_spool st) ?gone"
        using spool_kept_delete [of E "sv_spool st" ?st path h "max n h"] keep [of ?st] max by simp
      have "spool_kept E (sv_spool st) (worker_finally E qmax (prune_stale_pending_payloads ?gone))"
      proof (rule worker_finally_kept)
        show "spool_kept E (sv_spool st) (prune_stale_pending_payloads ?gone)"
          using gone by (simp add: prune_stale_pending_payloads_def spool_kept_def)
        show "map_of (sv_spool (prune_stale_pending_payloads ?gone)) \<subseteq>\<^sub>m map_of (sv_spool st)"
          by (auto simp: prune_stale_pending_payloads_def map_le_def map_of_AList_delete)
      qed (use max in \<open>auto simp: prune_stale_pending_payloads_def\<close>)
      then show ?thesis using Inr run True h by (auto simp: worker_persist_def remove_spool_file_def)
    qed
  next
    case False
    then show ?thesis using run by (auto simp: worker_persist_def split: sum.splits bool.splits intro!: keep)
  qed
qed

lemma compact_spool_kept:
  assumes "max_height (sv_db st) = Some i"
  shows "spool_kept E (sv_spool st) (snd (compact_spool E st))"
proof (cases "validated_spool_files E st")
  case (Inl e)
  then show ?thesis by (simp add: compact_spool_def spool_kept_refl)
next
  case (Inr files)
  let ?st = "st\<lparr>sv_spool := filter (\<lambda>(name, _). \<not> has_suffix name ''.json.tmp'') (sv_spool st)\<rparr>"
  define Q where "Q s \<longleftrightarrow> spool_kept E (sv_spool st) s \<and> sv_db s = sv_db st" for s
  have "maintains Q (compact_file E i f)" if "f \<in> set files" for f
    unfolding maintains_def
  proof (intro allI impI)
    fix s assume s: "Q s"
    show "Q (snd (compact_file E i f s))"
    proof (cases "payload_height E (snd f)")
      case (Inl e)
      then show ?thesis using s by (simp add: compact_file_def)
    next
      case h: (Inr h)
      have "file_height E (sv_spool st) (fst f) h"
        using validated_file [OF Inr _ h map_le_refl] that by simp
      then show ?thesis
        using s h assms spool_kept_delete [of E "sv_spool st" s "fst f" h i] by (auto simp: compact_file_def Q_def)
    qed
  qed
  then have "maintains Q (sbind (smap (compact_file E i) files) (\<lambda>_. sret ()))"
    by (intro maintains_sbind maintains_smap maintains_sret)
  moreover have "Q ?st"
    unfolding Q_def
  proof
    have tmp: "has_suffix name ''.json.tmp'' \<Longrightarrow> has_suffix name ''.tmp''" for name
      unfolding has_suffix_iff by (auto intro: exI [of _ "_ @ ''.json''"])
    have "map_of (filter (\<lambda>(name, _). \<not> has_suffix name ''.json.tmp'') d) name = map_of d name"
      if "\<not> has_suffix name ''.tmp''" for d :: "(string, string) dict" and name
      using that tmp by (induction d) auto
    then show "spool_kept E (sv_spool st) ?st" by (intro spool_kept_mono) auto
  qed simp
  ultimately show ?thesis using Inr assms by (simp add: compact_spool_def maintains_def Q_def)
qed

text \<open>No step removes a finished spool file before a block of its height, or a later one, is
  stored.\<close>

theorem spool_file_outlives_indexing:
  assumes "bds_reachable E qmax (st, c)" "bds_step E qmax (st, c) (st', c')"
    and "map_of (sv_spool st) name \<noteq> None" "\<not> has_suffix name ''.tmp''" "map_of (sv_spool st') name = None"
  shows "\<exists>h i. file_height E (sv_spool st) name h \<and> max_height (sv_db st') = Some i \<and> h \<le> i"
proof -
  obtain n where ok: "service_ok E qmax n st" using bds_reachable_ok [OF assms(1)] by auto
  have same: "spool_kept E (sv_spool st) s" if "sv_spool s = sv_spool st" for s using that by (simp add: spool_kept_def)
  from assms(2) have "spool_kept E (sv_spool st) st'"
  proof cases
    case (enqueue io p r)
    then show ?thesis using enqueue_block_kept [of E st qmax io p] by simp
  next
    case wake
    obtain i where i: "sv_indexed st = Some i" "i \<le> n" using ok by (auto simp: service_ok_def index_at_def)
    have "spool_kept E (sv_spool st) (worker_finally E qmax s)"
      if "sv_spool s = sv_spool st" "sv_db s = sv_db st" "sv_indexed s = sv_indexed st" for s
      using that i service_ok_max_height [OF ok] by (intro worker_finally_kept same) (auto simp: map_le_refl)
    then show ?thesis
      using wake by (auto simp: worker_wake_def pop_next_pending_payload_def intro!: same split: option.split)
  next
    case (persist p fault)
    then show ?thesis using worker_persist_kept [OF ok] by simp
  next
    case (fetched n' t f)
    then have "st' = snd (catch_up_fetched E qmax n' t f st)" by simp
    then show ?thesis
      by (auto simp: catch_up_fetched_state enqueue_pending_payload_frame intro!: same split: sum.split)
  next
    case (status reported)
    then show ?thesis
      by (auto simp: status_indexed_def prune_stale_pending_payloads_def intro!: same split: option.split)
  next
    case (compact r)
    then show ?thesis using compact_spool_kept [OF service_ok_max_height [OF ok], of E] by simp
  qed (simp_all add: spool_kept_refl)
  then show ?thesis using assms(3-5) unfolding spool_kept_def by blast
qed

section \<open>A full buffer without the next block\<close>

text \<open>The buffer is full of later blocks, and the next one is not among them.\<close>

definition stuck :: "int \<Rightarrow> bds \<Rightarrow> bool" where
  "stuck qmax st \<longleftrightarrow>
     sv_worker st = Waiting \<and> \<not> sv_event st \<and> capacity qmax \<le> length (sv_pending st) \<and>
     \<not> has_next_pending_payload st \<and>
     (\<exists>i. sv_indexed st = Some i \<and> max_height (sv_db st) = Some i \<and> (\<forall>(h, _) \<in> set (sv_pending st). i < h))"

definition same_queue :: "bds \<Rightarrow> bds \<Rightarrow> bool" where
  "same_queue st st' \<longleftrightarrow>
     sv_db st' = sv_db st \<and> sv_pending st' = sv_pending st \<and> sv_event st' = sv_event st \<and>
     sv_indexed st' = sv_indexed st \<and> sv_worker st' = sv_worker st"

lemma same_queue_stuck: "same_queue st st' \<Longrightarrow> stuck qmax st \<Longrightarrow> stuck qmax st'"
  by (simp add: same_queue_def stuck_def has_next_pending_payload_def next_expected_height_def)

lemma same_queue_refl: "same_queue st st"
  by (simp add: same_queue_def)

lemma same_queue_trans: "same_queue st st' \<Longrightarrow> same_queue st' st'' \<Longrightarrow> same_queue st st''"
  by (simp add: same_queue_def)

lemma stuck_enqueue_pending: "stuck qmax st \<Longrightarrow> snd (enqueue_pending_payload E qmax p st) = st"
  by (auto simp: enqueue_pending_payload_def stuck_def split: sum.split)

lemma write_spool_file_same: "same_queue st (snd (write_spool_file E io p st))"
  by (auto simp: write_spool_file_def same_queue_def split: sum.split io_fault.split)

lemma stuck_enqueue_block:
  assumes "stuck qmax st"
  shows "same_queue st (snd (enqueue_block E qmax io p st))"
proof -
  obtain r s where w: "write_spool_file E io p st = (r, s)" by (cases "write_spool_file E io p st") auto
  then have s: "same_queue st s" using write_spool_file_same [of st E io p] by simp
  then have "snd (enqueue_pending_payload E qmax p s) = s" using stuck_enqueue_pending same_queue_stuck assms by blast
  then obtain r' where "enqueue_pending_payload E qmax p s = (r', s)" by (cases "enqueue_pending_payload E qmax p s") auto
  moreover have "same_queue st (s\<lparr>sv_enqueue_error := x\<rparr>)" for x using s by (simp add: same_queue_def)
  ultimately show ?thesis
    using s w by (auto simp: enqueue_block_def sbind_def same_queue_refl split: sum.split bool.split)
qed

lemma compact_spool_same: "same_queue st (snd (compact_spool E st))"
proof -
  have "maintains (same_queue st) (compact_file E i f)" for i f
    by (auto simp: maintains_def compact_file_def same_queue_def split: sum.split)
  then have run: "maintains (same_queue st) (sbind (smap (compact_file E i) files) (\<lambda>_. sret ()))" for i files
    by (intro maintains_sbind maintains_smap maintains_sret)
  have "same_queue st (st\<lparr>sv_spool := d\<rparr>)" for d by (simp add: same_queue_def)
  with run show ?thesis
    unfolding maintains_def by (auto simp: compact_spool_def Let_def same_queue_refl split: sum.split option.split)
qed

lemma max_height_bound: "has_block db h \<Longrightarrow> max_height db = Some i \<Longrightarrow> h \<le> i"
  by (auto simp: has_block_def max_height_def list_ex_iff split: if_splits)

lemma stuck_prune: "stuck qmax st \<Longrightarrow> same_queue st (prune_stale_pending_payloads st)"
proof -
  assume "stuck qmax st"
  then obtain i where i: "sv_indexed st = Some i" "\<forall>(h, _) \<in> set (sv_pending st). i < h" by (auto simp: stuck_def)
  then have "filter (\<lambda>(h, _). \<not> h \<le> i) (sv_pending st) = sv_pending st" by (auto simp: filter_id_conv)
  with i show ?thesis by (simp add: prune_stale_pending_payloads_def same_queue_def)
qed

lemma stuck_status:
  assumes "stuck qmax st" "\<And>h. reported = Some h \<Longrightarrow> has_block (sv_db st) h"
  shows "same_queue st (status_indexed reported st)"
proof -
  obtain i where i: "sv_indexed st = Some i" "max_height (sv_db st) = Some i" using assms(1) by (auto simp: stuck_def)
  have "h \<le> i" if "reported = Some h" for h using max_height_bound [OF assms(2) [OF that] i(2)] .
  then have "status_indexed reported st = prune_stale_pending_payloads st"
    using i by (auto simp: status_indexed_def split: option.split)
  then show ?thesis using stuck_prune [OF assms(1)] by simp
qed

lemma stuck_step: "stuck qmax st \<Longrightarrow> bds_step E qmax (st, c) (st', c') \<Longrightarrow> same_queue st st'"
proof -
  assume st: "stuck qmax st" and "bds_step E qmax (st, c) (st', c')"
  from this(2) show "same_queue st st'"
  proof cases
    case (enqueue io p r)
    then show ?thesis using stuck_enqueue_block [OF st, of E io p] by simp
  next
    case (fetched n t f)
    then have "st' = snd (catch_up_fetched E qmax n t f st)" by simp
    then show ?thesis
      using stuck_enqueue_pending [OF st] by (auto simp: catch_up_fetched_state same_queue_refl split: sum.split)
  next
    case (status reported)
    then show ?thesis using stuck_status [OF st, of reported] by simp
  next
    case (compact r)
    then show ?thesis using compact_spool_same [of st E] by simp
  qed (use st in \<open>auto simp: stuck_def same_queue_refl\<close>)
qed

text \<open>C27: Once the buffer is full of later blocks, no step of any task stores a block, empties the
  buffer or fetches the missing one: the service never recovers while it runs.\<close>

theorem full_buffer_never_drains:
  assumes "stuck qmax st" "(bds_step E qmax)\<^sup>*\<^sup>* (st, c) (st', c')"
  shows "sv_db st' = sv_db st \<and> sv_indexed st' = sv_indexed st \<and> sv_pending st' = sv_pending st \<and>
    map_of (sv_pending st') (next_expected_height st') = None"
proof -
  have "same_queue st (fst s') \<and> stuck qmax (fst s')" if "(bds_step E qmax)\<^sup>*\<^sup>* s s'" "fst s = st" for s s'
    using that
  proof (induction rule: rtranclp_induct)
    case base
    then show ?case using assms(1) by (simp add: same_queue_refl)
  next
    case (step s1 s2)
    then have "same_queue (fst s1) (fst s2)" using stuck_step [of qmax "fst s1" E "snd s1" "fst s2" "snd s2"] by simp
    with step show ?case by (metis same_queue_stuck same_queue_trans)
  qed
  from this [OF assms(2)] show ?thesis
    by (auto simp: same_queue_def stuck_def has_next_pending_payload_def)
qed

section \<open>Samples\<close>

definition sample_block :: "int \<Rightarrow> bds_payload" where
  "sample_block h =
     \<lparr>bp_meta = PDict [(PStr ''height'', PInt h), (PStr ''hash'', PStr ''B''), (PStr ''nanos'', PInt 5)], bp_time = PNone,
      bp_app_hash = ''A'', bp_transactions = [], bp_patches = [], bp_patch_hash = None,
      bp_policy = PDict current_execution_policy\<rparr>"

definition idle_service :: bds where
  "idle_service =
     \<lparr>sv_db = sample_bds_db, sv_spool = [], sv_pending = [], sv_event = False, sv_indexed = Some 0, sv_enqueue_error = None,
      sv_worker = Waiting\<rparr>"

lemma sample_heights: "map blk_height (db_blocks sample_bds_db) = [0]"
  by code_simp

lemma idle_service_reachable: "bds_reachable E qmax (idle_service, Idle)"
proof -
  have "max_height sample_bds_db = Some 0" and "heights sample_bds_db = {0..0}"
    using sample_heights by (auto simp: max_height_def heights_def)
  moreover have "replay_spool E qmax idle_service = (Inr (), idle_service)"
    by (simp add: replay_spool_def idle_service_def validated_spool_files_def pending_spool_files_def sbind_def sret_def)
  ultimately have "start E qmax (stopped sample_bds_db []) = (Inr (), idle_service)"
    by (simp add: start_def start_worker_def refresh_indexed_height_def stopped_def idle_service_def
        prune_stale_pending_payloads_def)
  from bds_reachable.started [OF \<open>heights sample_bds_db = {0..0}\<close> _ this] show ?thesis by simp
qed

theorem index_has_no_gaps_witness: "\<exists>n. heights (sv_db idle_service) = {0..n}"
  using index_has_no_gaps [OF idle_service_reachable [of sample_db_env 1]] by auto

lemma sample_payload:
  "payload_height E (sample_block h) = Inr h" "validate_execution_policy (bp_policy (sample_block h)) = Inr ()"
  "spool_file_path E (sample_block h) = Inr (padded_height h @ ''-B.json'')"
  by (simp_all add: payload_height_def spool_file_path_def sample_block_def dindex_def current_policy_valid py_str_def)

lemma policy_plain: "list_all (\<lambda>kv. is_str (fst kv) \<and> json_plain (snd kv)) current_execution_policy"
  by (simp add: current_execution_policy_def)

text \<open>A block that arrives at the idle service is spooled and buffered.\<close>

lemma sample_enqueue:
  assumes "0 < h"
  obtains content where "enqueue_block sample_db_env 1 NoFault (sample_block h) idle_service =
    (Inr (), idle_service\<lparr>sv_spool := [(padded_height h @ ''-B.json'', content)], sv_pending := [(h, sample_block h)],
                          sv_event := True\<rparr>)"
proof -
  obtain d where d: "to_spool_dict sample_db_env (sample_block h) = Inr d" "json_plain d"
    by (auto simp: to_spool_dict_def sample_block_def current_policy_valid canonical_json_value_def sample_db_env_def
        policy_plain)
  obtain content where "ascii_json_dumps d = Inr content" using dumps_plain [OF d(2)] by (auto simp: is_ok_iff)
  then have "enqueue_block sample_db_env 1 NoFault (sample_block h) idle_service =
      (Inr (), idle_service\<lparr>sv_spool := [(padded_height h @ ''-B.json'', content)], sv_pending := [(h, sample_block h)],
                            sv_event := True\<rparr>)"
    using assms d by (simp add: enqueue_block_def sample_payload is_stale_payload_def is_stale_height_def
        write_spool_file_def enqueue_pending_payload_def sbind_def capacity_def idle_service_def)
  then show thesis by (rule that)
qed

lemma sample_enqueue_reachable:
  assumes "enqueue_block sample_db_env 1 NoFault (sample_block h) idle_service = (Inr (), st)"
  shows "bds_reachable sample_db_env 1 (st, Idle)"
  using assms by (intro bds_reachable.moved [OF idle_service_reachable] bds_step.enqueue)

text \<open>Block 1 was missed; block 2 arrives and fills a buffer of one place.\<close>

lemma stuck_reachable:
  obtains st where "bds_reachable sample_db_env 1 (st, Idle)" "stuck 1 st"
    "map_of (sv_pending st) 2 = Some (sample_block 2)" "heights (sv_db st) = {0}"
proof -
  obtain content where queued: "enqueue_block sample_db_env 1 NoFault (sample_block 2) idle_service =
      (Inr (), idle_service\<lparr>sv_spool := [(padded_height 2 @ ''-B.json'', content)], sv_pending := [(2, sample_block 2)],
                            sv_event := True\<rparr>)" (is "_ = (_, ?queued)")
    by (rule sample_enqueue [of 2]) simp
  let ?stuck = "?queued\<lparr>sv_event := False\<rparr>"
  have "worker_wake sample_db_env 1 ?queued = ?stuck"
    by (simp add: worker_wake_def pop_next_pending_payload_def next_expected_height_def worker_finally_def capacity_def
        has_next_pending_payload_def idle_service_def)
  then have "bds_step sample_db_env 1 (?queued, Idle) (?stuck, Idle)"
    using bds_step.wake [of ?queued sample_db_env 1 Idle] by (simp add: idle_service_def)
  then have "bds_reachable sample_db_env 1 (?stuck, Idle)"
    by (rule bds_reachable.moved [OF sample_enqueue_reachable [OF queued]])
  moreover have "stuck 1 ?stuck" and "heights (sv_db ?stuck) = {0}"
    using sample_heights by (auto simp: stuck_def capacity_def has_next_pending_payload_def next_expected_height_def
        max_height_def idle_service_def heights_def)
  ultimately show thesis using that [of ?stuck] by simp
qed

lemma sample_persisted:
  "map_prod id (map blk_height \<circ> db_blocks) (persist_block sample_db_env False (sample_block 1) sample_bds_db) = (Inr True, [0, 1])"
  by code_simp

text \<open>Block 1 arrives, is stored, and its file goes.\<close>

theorem spool_file_outlives_indexing_witness:
  "\<exists>st st' h i name. bds_reachable sample_db_env 1 (st, Idle) \<and> bds_step sample_db_env 1 (st, Idle) (st', Idle) \<and>
     map_of (sv_spool st) name \<noteq> None \<and> sv_spool st' = [] \<and> file_height sample_db_env (sv_spool st) name h \<and>
     max_height (sv_db st') = Some i \<and> h \<le> i"
proof -
  let ?name = "padded_height 1 @ ''-B.json''"
  obtain content where queued: "enqueue_block sample_db_env 1 NoFault (sample_block 1) idle_service =
      (Inr (), idle_service\<lparr>sv_spool := [(?name, content)], sv_pending := [(1, sample_block 1)],
                            sv_event := True\<rparr>)" (is "_ = (_, ?queued)")
    by (rule sample_enqueue [of 1]) simp
  let ?busy = "?queued\<lparr>sv_pending := [], sv_worker := Persisting (sample_block 1)\<rparr>"
  have "worker_wake sample_db_env 1 ?queued = ?busy"
    by (simp add: worker_wake_def pop_next_pending_payload_def next_expected_height_def idle_service_def)
  then have "bds_step sample_db_env 1 (?queued, Idle) (?busy, Idle)"
    using bds_step.wake [of ?queued sample_db_env 1 Idle] by (simp add: idle_service_def)
  then have busy: "bds_reachable sample_db_env 1 (?busy, Idle)"
    by (rule bds_reachable.moved [OF sample_enqueue_reachable [OF queued]])
  let ?done = "worker_persist sample_db_env 1 False (sample_block 1) ?busy"
  have step: "bds_step sample_db_env 1 (?busy, Idle) (?done, Idle)" by (rule bds_step.persist) simp
  obtain db where "persist_block sample_db_env False (sample_block 1) sample_bds_db = (Inr True, db)"
    using sample_persisted by (cases "persist_block sample_db_env False (sample_block 1) sample_bds_db") auto
  then have gone: "sv_spool ?done = []"
    by (simp add: worker_persist_def idle_service_def sample_payload remove_spool_file_def prune_stale_pending_payloads_def
        worker_finally_def capacity_def replay_spool_def validated_spool_files_def pending_spool_files_def sbind_def sret_def)
  have "\<not> has_suffix ?name ''.tmp''" by (simp add: has_suffix_def)
  then obtain h i where "file_height sample_db_env (sv_spool ?busy) ?name h" "max_height (sv_db ?done) = Some i" "h \<le> i"
    using spool_file_outlives_indexing [OF busy step, of ?name] gone by auto
  then show ?thesis using busy step gone by (intro exI [of _ ?busy] exI [of _ ?done] exI) auto
qed

theorem full_buffer_never_drains_witness:
  "\<exists>st. bds_reachable sample_db_env 1 (st, Idle) \<and> heights (sv_db st) = {0} \<and> sv_pending st \<noteq> [] \<and>
     (\<forall>st' c'. (bds_step sample_db_env 1)\<^sup>*\<^sup>* (st, Idle) (st', c') \<longrightarrow> heights (sv_db st') = {0})"
proof -
  obtain st where "bds_reachable sample_db_env 1 (st, Idle)" "stuck 1 st"
    "map_of (sv_pending st) 2 = Some (sample_block 2)" "heights (sv_db st) = {0}" by (rule stuck_reachable)
  then show ?thesis
    using full_buffer_never_drains [of 1 st sample_db_env Idle] by (intro exI [of _ st]) (auto simp: heights_def)
qed

end
