(* ===== verification/Bds_Reindex.thy ===== *)
theory Bds_Reindex
  imports Bds_Queue State_Patches
begin

text \<open>
  Rebuilding the index from a node's RPC interface (\<^verbatim>\<open>src/src/xian/services/bds/reindex.py\<close>):
  the requests and the shape of their answers, a block as a payload, the comparison with a trusted
  node, the plan and the loop over its heights.  The HTTP client, base 64 and the hash function are
  parameters: \<open>rpc\<close> is the answer to a path with its argument.  Since a source answers the same way
  each time, the check of its policy is repeated here where the code remembers its outcome.
\<close>

section \<open>Answers of the RPC interface\<close>

type_synonym rpc = "string \<Rightarrow> string option \<Rightarrow> pyval res"

record codec_env =
  ce_b64decode :: "string \<Rightarrow> string res"
  ce_sha256 :: "string \<Rightarrow> string"

text \<open>\<^verbatim>\<open>_get\<close>: the result of an answer, or the answer itself.\<close>

definition rpc_get :: "rpc \<Rightarrow> string \<Rightarrow> string option \<Rightarrow> pyval res" where
  "rpc_get rpc path argument =
     rbind (rpc path argument) (\<lambda>payload.
     if is_dict payload then Inr (dget_or payload ''result'' payload) else Inl (OtherError ''AttributeError''))"

definition rpc_execution_policy :: "bds_env \<Rightarrow> codec_env \<Rightarrow> rpc \<Rightarrow> pyval res" where
  "rpc_execution_policy E C rpc =
     rbind (rpc_get rpc ''abci_query'' (Some ''/get/__execution_policy'')) (\<lambda>result.
     rbind (py_get result ''response'' PNone) (\<lambda>response.
     if \<not> is_dict response \<or> int_value (dget_or response ''code'' PNone) \<noteq> Some 0
     then Inl (ValueError ''RPC execution policy query failed'')
     else case dget_or response ''value'' PNone of
       PStr value \<Rightarrow>
         if value = [] then Inl (ValueError ''RPC execution policy is missing'')
         else rbind (ce_b64decode C value) (\<lambda>bytes.
              rbind (be_loads E bytes) (\<lambda>policy.
              rbind (validate_execution_policy policy) (\<lambda>_. Inr policy)))
     | _ \<Rightarrow> Inl (ValueError ''RPC execution policy is missing'')))"

definition rpc_latest_height :: "bds_env \<Rightarrow> rpc \<Rightarrow> int res" where
  "rpc_latest_height E rpc =
     rbind (rpc_get rpc ''status'' None) (\<lambda>status.
     rbind (dindex status ''sync_info'') (\<lambda>sync_info.
     rbind (dindex sync_info ''latest_block_height'') (py_int (te_int_of_text (be_text E)))))"

definition rpc_block :: "rpc \<Rightarrow> int \<Rightarrow> pyval res" where
  "rpc_block rpc height = rpc_get rpc ''block'' (Some (str_int height))"

definition rpc_block_results :: "rpc \<Rightarrow> int \<Rightarrow> pyval res" where
  "rpc_block_results rpc height = rpc_get rpc ''block_results'' (Some (str_int height))"

definition validate_source_policies :: "bds_env \<Rightarrow> codec_env \<Rightarrow> rpc \<Rightarrow> rpc option \<Rightarrow> unit res" where
  "validate_source_policies E C source trusted =
     rbind (rpc_execution_policy E C source) (\<lambda>policy.
     rbind (validate_execution_policy policy) (\<lambda>_.
     case trusted of None \<Rightarrow> Inr ()
     | Some t \<Rightarrow> rbind (rpc_execution_policy E C t) validate_execution_policy))"

section \<open>Times\<close>

definition ljust :: "nat \<Rightarrow> char \<Rightarrow> string \<Rightarrow> string" where
  "ljust width fill s = s @ replicate (width - length s) fill"

text \<open>The fraction of a second is cut to microseconds; the offset follows the first sign.\<close>

definition parse_rfc3339_nano :: "bds_env \<Rightarrow> string \<Rightarrow> pyval res" where
  "parse_rfc3339_nano E raw =
     (let value = (if has_suffix raw ''Z'' then butlast raw @ ''+00:00'' else raw);
          read = (\<lambda>s. rbind (ti_fromisoformat (be_time E) s) (\<lambda>t. Inr (ti_astimezone_utc (be_time E) t))) in
      if CHR ''.'' \<notin> set value then read value
      else
        let (head, tail) = split_once (CHR ''.'') value;
            (fraction, offset) =
              (if CHR ''+'' \<in> set tail then (let (f, z) = split_once (CHR ''+'') tail in (f, CHR ''+'' # z))
               else if CHR ''-'' \<in> set tail then (let (f, z) = split_once (CHR ''-'') tail in (f, CHR ''-'' # z))
               else (tail, []))
        in read (head @ ''.'' @ ljust 6 (CHR ''0'') (take 6 fraction) @ offset))"

text \<open>\<^verbatim>\<open>int(timestamp())\<close> drops the fraction towards zero.\<close>

definition datetime_to_nanos :: "bds_env \<Rightarrow> pyval \<Rightarrow> int res" where
  "datetime_to_nanos E value =
     rbind (be_micros E (utc_datetime E value)) (\<lambda>micros.
     let seconds = sgn micros * (\<bar>micros\<bar> div 1000000) in
     Inr (seconds * 1000000000 + (micros mod 1000000) * 1000))"

section \<open>A block as a payload\<close>

definition extract_block_txs :: "pyval \<Rightarrow> pyval list res" where
  "extract_block_txs block =
     (case dget_or block ''data'' (PDict []) of
        PDict d \<Rightarrow> py_iter (py_or (dget_or (PDict d) ''txs'' PNone) (PList []))
      | PList xs \<Rightarrow> Inr xs
      | _ \<Rightarrow> Inr [])"

definition decode_tx_result_data :: "bds_env \<Rightarrow> codec_env \<Rightarrow> pyval \<Rightarrow> pyval option res" where
  "decode_tx_result_data E C data =
     (if \<not> truthy data then Inr None
      else rbind (text_param data) (\<lambda>data_b64.
           rbind (ce_b64decode C data_b64) (\<lambda>decoded.
           rbind (if utf8_valid decoded then Inr decoded else Inl (ValueError ''utf-8'')) (\<lambda>json_text.
           rbind (be_loads E json_text) (\<lambda>v.
           let parsed = be_convert_dict E v in
           Inr (if is_dict parsed then Some parsed else None))))))"

definition is_indexable_tx_result :: "pyval option \<Rightarrow> bool" where
  "is_indexable_tx_result tx_result =
     (case tx_result of
        None \<Rightarrow> False
      | Some v \<Rightarrow> is_dict v \<and> list_all (\<lambda>k. dget v k \<noteq> None) [''status'', ''state'', ''chi_used''])"

definition py_set :: "string \<Rightarrow> pyval \<Rightarrow> (pyval \<times> pyval) list \<Rightarrow> (pyval \<times> pyval) list" where
  "py_set k v d = AList.update (PStr k) v d"

definition py_setdefault :: "string \<Rightarrow> pyval \<Rightarrow> (pyval \<times> pyval) list \<Rightarrow> (pyval \<times> pyval) list" where
  "py_setdefault k v d = (if map_of d (PStr k) = None then py_set k v d else d)"

text \<open>The result of a transaction as the index stores it.\<close>

definition indexed_result :: "bds_env \<Rightarrow> codec_env \<Rightarrow> string \<Rightarrow> (pyval \<times> pyval) list \<Rightarrow> pyval res" where
  "indexed_result E C raw_tx decoded =
     (let hashed = py_set ''hash'' (PStr (ascii_upper (hash_bytes (ce_sha256 C) raw_tx))) decoded;
          int_of = py_int (te_int_of_text (be_text E)) in
      rbind (int_of (dget_or (PDict hashed) ''status'' PNone)) (\<lambda>status.
      rbind (int_of (dget_or (PDict hashed) ''chi_used'' PNone)) (\<lambda>chi_used.
      let numbered = py_set ''chi_used'' (PInt chi_used) (py_set ''status'' (PInt status) hashed);
          stated = py_setdefault ''state'' (PList []) numbered;
          evented = py_setdefault ''events'' (PList []) stated
      in Inr (PDict (py_setdefault ''rewards'' (PDict []) evented)))))"

definition build_transaction_payload :: "bds_env \<Rightarrow> codec_env \<Rightarrow> int \<Rightarrow> pyval \<Rightarrow> pyval \<Rightarrow> bds_tx option res" where
  "build_transaction_payload E C tx_index tx_b64 tx_result_rpc =
     rbind (rbind (text_param tx_b64) (ce_b64decode C)) (\<lambda>raw_tx.
     rbind (decode_transaction_bytes (be_loads E) raw_tx) (\<lambda>(envelope, _).
     rbind (py_get tx_result_rpc ''data'' PNone) (\<lambda>data.
     rbind (decode_tx_result_data E C data) (\<lambda>decoded_result.
     if \<not> is_indexable_tx_result decoded_result then Inr None
     else rbind (dindex tx_result_rpc ''code'') (\<lambda>_.
          rbind (case the decoded_result of PDict d \<Rightarrow> indexed_result E C raw_tx d | _ \<Rightarrow> Inl (TypeError ''dict'')) (\<lambda>tx_result.
          rbind (dindex envelope ''payload'') (\<lambda>payload.
          Inr (Some \<lparr>bt_index = tx_index, bt_envelope = envelope, bt_payload = payload, bt_result = tx_result\<rparr>))))))))"

text \<open>The hash and the application hash an answer carries, in upper case.\<close>

definition response_block_hash :: "bds_env \<Rightarrow> pyval \<Rightarrow> string res" where
  "response_block_hash E block_response =
     rbind (dindex block_response ''block_id'') (\<lambda>block_id.
     rbind (dindex block_id ''hash'') (\<lambda>h. Inr (ascii_upper (py_str (be_text E) h))))"

definition response_header :: "pyval \<Rightarrow> pyval res" where
  "response_header block_response = rbind (dindex block_response ''block'') (\<lambda>block. dindex block ''header'')"

definition response_app_hash :: "bds_env \<Rightarrow> pyval \<Rightarrow> string res" where
  "response_app_hash E block_response =
     rbind (response_header block_response) (\<lambda>header.
     rbind (dindex header ''app_hash'') (\<lambda>h. Inr (ascii_upper (py_str (be_text E) h))))"

definition verify_block_against_trusted_source :: "bds_env \<Rightarrow> rpc option \<Rightarrow> int \<Rightarrow> pyval \<Rightarrow> unit res" where
  "verify_block_against_trusted_source E trusted height block_response =
     (case trusted of
        None \<Rightarrow> Inr ()
      | Some t \<Rightarrow>
          rbind (rpc_block t height) (\<lambda>trusted_block.
          rbind (response_block_hash E block_response) (\<lambda>source_hash.
          rbind (response_block_hash E trusted_block) (\<lambda>trusted_hash.
          rbind (guard (source_hash = trusted_hash) (ValueError ''block hash mismatch'')) (\<lambda>_.
          rbind (response_app_hash E block_response) (\<lambda>source_app.
          rbind (response_app_hash E trusted_block) (\<lambda>trusted_app.
          guard (source_app = trusted_app) (ValueError ''app hash mismatch''))))))))"

section \<open>The reindexer\<close>

text \<open>Its sources, and the patches of a height.\<close>

record reindexer =
  ri_source :: rpc
  ri_trusted :: "rpc option"
  ri_patches :: "int \<Rightarrow> (string option \<times> pyval list) res"

definition applied_patch_documents ::
    "patch_env \<Rightarrow> 'd driver \<Rightarrow> 'd \<Rightarrow> patch_manager \<Rightarrow> int \<Rightarrow> (string option \<times> pyval list) res" where
  "applied_patch_documents P D d pm height =
     rbind (build_applied_patches_for_block P D d pm height) (\<lambda>(hash, executions).
     Inr (hash, map to_payload_dict executions))"

definition build_payload :: "bds_env \<Rightarrow> codec_env \<Rightarrow> reindexer \<Rightarrow> int \<Rightarrow> bds_payload res" where
  "build_payload E C X height =
     rbind (validate_source_policies E C (ri_source X) (ri_trusted X)) (\<lambda>_.
     rbind (rpc_block (ri_source X) height) (\<lambda>block_response.
     rbind (verify_block_against_trusted_source E (ri_trusted X) height block_response) (\<lambda>_.
     rbind (rpc_block_results (ri_source X) height) (\<lambda>block_results.
     rbind (dindex block_response ''block'') (\<lambda>block.
     rbind (dindex block ''header'') (\<lambda>header.
     rbind (rbind (rbind (dindex header ''time'') text_param) (parse_rfc3339_nano E)) (\<lambda>block_time.
     rbind (extract_block_txs block) (\<lambda>tx_bytes_list.
     rbind (rbind (py_get block_results ''txs_results'' PNone) (\<lambda>rs. py_iter (py_or rs (PList [])))) (\<lambda>tx_results.
     rbind (guard (length tx_bytes_list = length tx_results) (ValueError ''block tx/result count mismatch'')) (\<lambda>_.
     rbind (mapR (\<lambda>(i, tx_b64, r). build_transaction_payload E C (int i) tx_b64 r)
              (enumerate 0 (zip tx_bytes_list tx_results))) (\<lambda>transactions.
     rbind (ri_patches X height) (\<lambda>(patch_hash, applied_patches).
     rbind (rbind (dindex header ''height'') (py_int (te_int_of_text (be_text E)))) (\<lambda>header_height.
     rbind (response_block_hash E block_response) (\<lambda>block_hash.
     rbind (datetime_to_nanos E block_time) (\<lambda>nanos.
     rbind (response_app_hash E block_response) (\<lambda>app_hash.
     Inr \<lparr>bp_meta = PDict [(PStr ''height'', PInt header_height), (PStr ''hash'', PStr block_hash), (PStr ''nanos'', PInt nanos)],
          bp_time = block_time, bp_app_hash = app_hash, bp_transactions = List.map_filter id transactions,
          bp_patches = applied_patches, bp_patch_hash = patch_hash, bp_policy = PDict current_execution_policy\<rparr>))))))))))))))))"

record reindex_plan =
  pl_latest_height :: int
  pl_indexed_height :: "int option"
  pl_start_height :: int
  pl_end_height :: int

definition total_blocks :: "reindex_plan \<Rightarrow> int" where
  "total_blocks plan = (if pl_end_height plan < pl_start_height plan then 0 else pl_end_height plan - pl_start_height plan + 1)"

text \<open>\<open>query_fails\<close> tells whether the status query raises, in which case no height is known.\<close>

definition build_plan ::
    "bds_env \<Rightarrow> codec_env \<Rightarrow> reindexer \<Rightarrow> bool \<Rightarrow> int option \<Rightarrow> int option \<Rightarrow> bds_db \<Rightarrow> reindex_plan res" where
  "build_plan E C X query_fails start_height end_height db =
     rbind (validate_source_policies E C (ri_source X) (ri_trusted X)) (\<lambda>_.
     rbind (rpc_latest_height E (ri_source X)) (\<lambda>latest_height.
     let indexed_height = (if query_fails then None else max_height db);
         resolved_start =
           (case start_height of
              Some s \<Rightarrow> max (if s = 0 then 1 else s) 1
            | None \<Rightarrow> (case indexed_height of Some i \<Rightarrow> max (i + 1) 1 | None \<Rightarrow> 1));
         resolved_end = min (case end_height of None \<Rightarrow> latest_height | Some e \<Rightarrow> e) latest_height
     in Inr \<lparr>pl_latest_height = latest_height, pl_indexed_height = indexed_height, pl_start_height = resolved_start,
             pl_end_height = resolved_end\<rparr>))"

text \<open>The loop over the heights.  \<open>faults\<close> tells for which the database fails; a block that is not
  stored is counted out and the loop goes on, an exception ends it.\<close>

fun reindex_heights :: "bds_env \<Rightarrow> codec_env \<Rightarrow> reindexer \<Rightarrow> (int \<Rightarrow> bool) \<Rightarrow> int list \<Rightarrow> nat \<Rightarrow> (bds_db, nat) step" where
  "reindex_heights E C X faults [] persisted db = (Inr persisted, db)"
| "reindex_heights E C X faults (height # rest) persisted db =
     (case build_payload E C X height of
        Inl e \<Rightarrow> (Inl e, db)
      | Inr payload \<Rightarrow>
          (case persist_block E (faults height) payload db of
             (Inl e, db') \<Rightarrow> (Inl e, db')
           | (Inr ok, db') \<Rightarrow>
               reindex_heights E C X faults rest (if ok then Suc persisted else persisted) db'))"

definition reindex_range :: "bds_env \<Rightarrow> codec_env \<Rightarrow> reindexer \<Rightarrow> (int \<Rightarrow> bool) \<Rightarrow> reindex_plan \<Rightarrow> (bds_db, nat) step" where
  "reindex_range E C X faults plan = reindex_heights E C X faults [pl_start_height plan..pl_end_height plan] 0"

section \<open>What a rebuilt block carries\<close>

lemma datetime_to_nanos_micros:
  assumes "be_micros E (utc_datetime E t) = Inr m" "0 \<le> m"
  shows "datetime_to_nanos E t = Inr (m * 1000)"
proof -
  have "sgn m * (\<bar>m\<bar> div 1000000) = m div 1000000" using assms(2) by (cases "m = 0") auto
  moreover have "m div 1000000 * 1000000000 + m mod 1000000 * 1000 = m * 1000"
    by presburger
  ultimately show ?thesis using assms(1) by (simp add: datetime_to_nanos_def Let_def)
qed

lemma build_payload_source:
  assumes "build_payload E C X height = Inr p"
  obtains response block_hash where "rpc_block (ri_source X) height = Inr response"
    "verify_block_against_trusted_source E (ri_trusted X) height response = Inr ()"
    "response_block_hash E response = Inr block_hash" "dget (bp_meta p) ''hash'' = Some (PStr block_hash)"
    "response_app_hash E response = Inr (bp_app_hash p)"
    "validate_execution_policy (bp_policy p) = Inr ()"
  using assms unfolding build_payload_def
  by (elim rbind_InrE) (auto simp: current_policy_valid elim!: rbind_InrE)

text \<open>With a trusted node configured, the block hash and the application hash of a rebuilt block
  are those the trusted node reports for the height.\<close>

theorem rebuilt_block_matches_trusted:
  assumes "build_payload E C X height = Inr p" "ri_trusted X = Some t"
  shows "\<exists>trusted_block block_hash. rpc_block t height = Inr trusted_block \<and>
    response_block_hash E trusted_block = Inr block_hash \<and> dget (bp_meta p) ''hash'' = Some (PStr block_hash) \<and>
    response_app_hash E trusted_block = Inr (bp_app_hash p)"
proof -
  obtain response block_hash where r: "verify_block_against_trusted_source E (ri_trusted X) height response = Inr ()"
      "response_block_hash E response = Inr block_hash" "dget (bp_meta p) ''hash'' = Some (PStr block_hash)"
      "response_app_hash E response = Inr (bp_app_hash p)"
    using build_payload_source [OF assms(1)] by metis
  from r(1) have "\<exists>trusted_block. rpc_block t height = Inr trusted_block \<and> response_block_hash E trusted_block = Inr block_hash \<and>
      response_app_hash E trusted_block = Inr (bp_app_hash p)"
    unfolding verify_block_against_trusted_source_def assms(2) option.case
    by (elim rbind_InrE) (use r(2,4) in auto)
  then show ?thesis using r(3) by blast
qed

section \<open>What the loop stores\<close>

lemma reindex_heights_count:
  "reindex_heights E C X faults hs k db = (Inr m, db') \<Longrightarrow> k \<le> m \<and> m \<le> k + length hs"
proof (induction hs arbitrary: k db)
  case (Cons h hs)
  then obtain k' db1 where "reindex_heights E C X faults hs k' db1 = (Inr m, db')" "k' = k \<or> k' = Suc k"
    by (auto split: sum.splits prod.splits bool.splits if_splits)
  with Cons.IH show ?case by fastforce
qed simp

lemma reindex_heights_all:
  assumes "reindex_heights E C X faults hs k db = (Inr (k + length hs), db')"
    and "\<And>h p. h \<in> set hs \<Longrightarrow> build_payload E C X h = Inr p \<Longrightarrow> payload_height E p = Inr h"
  shows "heights db' = heights db \<union> set hs"
  using assms
proof (induction hs arbitrary: k db)
  case (Cons h hs)
  obtain p where p: "build_payload E C X h = Inr p" using Cons.prems(1) by (auto split: sum.splits)
  obtain r db1 where run: "persist_block E (faults h) p db = (r, db1)" by (cases "persist_block E (faults h) p db") auto
  then obtain ok where r: "r = Inr ok"
      and rest: "reindex_heights E C X faults hs (if ok then Suc k else k) db1 = (Inr (k + length (h # hs)), db')"
    using Cons.prems(1) p by (auto split: sum.splits)
  have ok using reindex_heights_count [OF rest] by (cases ok) auto
  then have "heights db1 = insert h (heights db)"
    using persist_block_adds [OF run Cons.prems(2) [OF _ p]] r by simp
  moreover have "heights db' = heights db1 \<union> set hs"
    using Cons.IH [of "Suc k" db1] rest \<open>ok\<close> Cons.prems(2) by simp
  ultimately show ?case by auto
qed simp

text \<open>C29: A reindex run that counts every planned block as stored adds exactly the planned heights to
  the index, whatever bounds were asked for, if the source returns for each of them the block
  of that height.  Without a start bound the plan begins after the last indexed block, or at 1
  when the status query fails; with one it begins there; it ends at the latest height or an
  earlier end bound.  So a gapless index stays gapless up to the end of the plan whenever the
  plan begins no later than after the last indexed block.\<close>

theorem reindex_completes_index:
  assumes "build_plan E C X query_fails start_height end_height db = Inr plan" "heights db = {0..n}" "0 \<le> n"
    and "\<And>h p. pl_start_height plan \<le> h \<Longrightarrow> h \<le> pl_end_height plan \<Longrightarrow> build_payload E C X h = Inr p \<Longrightarrow> payload_height E p = Inr h"
    and "reindex_range E C X faults plan db = (Inr (nat (total_blocks plan)), db')"
  shows "heights db' = {0..n} \<union> {pl_start_height plan..pl_end_height plan} \<and>
    pl_start_height plan = (case start_height of Some s \<Rightarrow> max s 1 | None \<Rightarrow> if query_fails then 1 else n + 1) \<and>
    pl_end_height plan = (case end_height of Some e \<Rightarrow> min e (pl_latest_height plan) | None \<Rightarrow> pl_latest_height plan) \<and>
    (pl_start_height plan \<le> n + 1 \<longrightarrow> heights db' = {0..max n (pl_end_height plan)})"
proof -
  have "max_height db = Some n" using assms(2,3) by (auto simp: max_height_def heights_def intro!: Max_eqI)
  then have plan: "pl_start_height plan = (case start_height of Some s \<Rightarrow> max s 1 | None \<Rightarrow> if query_fails then 1 else n + 1)"
    "pl_end_height plan = (case end_height of Some e \<Rightarrow> min e (pl_latest_height plan) | None \<Rightarrow> pl_latest_height plan)"
    using assms(1,3) by (auto simp: build_plan_def Let_def elim!: rbind_InrE split: option.splits if_splits)
  have "nat (total_blocks plan) = length [pl_start_height plan..pl_end_height plan]"
    by (simp add: total_blocks_def)
  then have "reindex_heights E C X faults [pl_start_height plan..pl_end_height plan] 0 db =
      (Inr (0 + length [pl_start_height plan..pl_end_height plan]), db')"
    using assms(5) by (simp add: reindex_range_def)
  then have "heights db' = heights db \<union> set [pl_start_height plan..pl_end_height plan]"
    by (rule reindex_heights_all) (use assms(4) in simp)
  then have hs: "heights db' = {0..n} \<union> {pl_start_height plan..pl_end_height plan}" by (simp add: assms(2))
  have "1 \<le> pl_start_height plan" using plan(1) assms(3) by (auto split: option.splits if_splits)
  then have "heights db' = {0..max n (pl_end_height plan)}" if "pl_start_height plan \<le> n + 1"
    unfolding hs using that assms(3) by (auto simp: max_def)
  with hs plan show ?thesis by (intro conjI impI)
qed

text \<open>A patch document has no key of its own: the keys it changes are not among those looked up.\<close>

lemma touched_keys_ignore_patches:
  assumes "touched_keys p = Inr keys" "bp_patches p = map to_payload_dict executions" "k \<in> set keys"
  shows "\<exists>tx \<in> set (bp_transactions p). \<exists>changes. rbind (dindex (bt_result tx) ''state'') py_iter = Inr changes \<and> k \<in> changed_keys changes"
proof -
  have "dget (to_payload_dict ex) ''key'' = None" for ex by (simp add: to_payload_dict_def Let_def)
  then have none: "concat (map (\<lambda>patch. case dget patch ''key'' of Some k \<Rightarrow> [k] | None \<Rightarrow> []) (bp_patches p)) = []"
    using assms(2) by simp
  obtain parts where parts: "mapR (\<lambda>tx. rbind (rbind (dindex (bt_result tx) ''state'') py_iter)
        (mapR (\<lambda>change. rbind (dindex change ''key'') text_param))) (bp_transactions p) = Inr parts" and "keys = concat parts"
    using assms(1) unfolding touched_keys_def none by (auto elim!: rbind_InrE)
  with assms(3) obtain part where "part \<in> set parts" "k \<in> set part" by auto
  moreover obtain tx where "tx \<in> set (bp_transactions p)" "rbind (rbind (dindex (bt_result tx) ''state'') py_iter)
        (mapR (\<lambda>change. rbind (dindex change ''key'') text_param)) = Inr part"
    using mapR_in_set [OF parts \<open>part \<in> set parts\<close>] by blast
  moreover then obtain changes where changes: "rbind (dindex (bt_result tx) ''state'') py_iter = Inr changes"
      "mapR (\<lambda>change. rbind (dindex change ''key'') text_param) changes = Inr part"
    by (elim rbind_InrE) auto
  moreover obtain c where "c \<in> set changes" "rbind (dindex c ''key'') text_param = Inr k"
    using mapR_in_set [OF changes(2) \<open>k \<in> set part\<close>] by blast
  then have "k \<in> changed_keys changes" by (auto simp: changed_keys_def)
  ultimately show ?thesis by blast
qed

section \<open>Samples\<close>

definition sample_rx_env :: bds_env where
  "sample_rx_env =
     sample_db_env\<lparr>be_time := \<lparr>ti_fromtimestamp = (\<lambda>_. Inr PNone), ti_fromisoformat = (\<lambda>_. Inr PNone), ti_is_naive = (\<lambda>_. False),
                              ti_replace_utc = id, ti_astimezone_utc = id\<rparr>\<rparr>"

definition sample_codec :: codec_env where
  "sample_codec = \<lparr>ce_b64decode = Inr, ce_sha256 = (\<lambda>_. [])\<rparr>"

text \<open>A node at height 2 whose blocks are empty.\<close>

definition sample_header :: "int \<Rightarrow> pyval" where
  "sample_header h =
     PDict [(PStr ''height'', PInt h), (PStr ''time'', PStr ''t''), (PStr ''app_hash'', PStr ''A'')]"

definition sample_rpc :: rpc where
  "sample_rpc path argument =
     (if path = ''abci_query''
      then Inr (PDict [(PStr ''response'', PDict [(PStr ''code'', PInt 0), (PStr ''value'', PStr ''p'')])])
      else if path = ''status'' then Inr (PDict [(PStr ''sync_info'', PDict [(PStr ''latest_block_height'', PInt 2)])])
      else if path = ''block'' \<and> argument = Some ''1''
      then Inr (PDict [(PStr ''block_id'', PDict [(PStr ''hash'', PStr ''B1'')]), (PStr ''block'', PDict [(PStr ''header'', sample_header 1)])])
      else if path = ''block'' \<and> argument = Some ''2''
      then Inr (PDict [(PStr ''block_id'', PDict [(PStr ''hash'', PStr ''B2'')]), (PStr ''block'', PDict [(PStr ''header'', sample_header 2)])])
      else if path = ''block_results'' then Inr (PDict [])
      else Inl (OtherError ''HTTP''))"

definition sample_reindexer :: reindexer where
  "sample_reindexer = \<lparr>ri_source = sample_rpc, ri_trusted = Some sample_rpc, ri_patches = (\<lambda>_. Inr (None, []))\<rparr>"

definition sample_plan :: reindex_plan where
  "sample_plan = \<lparr>pl_latest_height = 2, pl_indexed_height = Some 0, pl_start_height = 1, pl_end_height = 2\<rparr>"

lemma sample_payload_ok:
  "map_sum id (\<lambda>p. (bp_meta p, bp_app_hash p)) (build_payload sample_rx_env sample_codec sample_reindexer 1) =
   Inr (PDict [(PStr ''height'', PInt 1), (PStr ''hash'', PStr ''B1''), (PStr ''nanos'', PInt 0)], ''A'')"
  by code_simp

lemma sample_payload_2:
  "map_sum id bp_meta (build_payload sample_rx_env sample_codec sample_reindexer 2) =
   Inr (PDict [(PStr ''height'', PInt 2), (PStr ''hash'', PStr ''B2''), (PStr ''nanos'', PInt 0)])"
  by code_simp

theorem rebuilt_block_matches_trusted_witness:
  "\<exists>trusted_block. rpc_block sample_rpc 1 = Inr trusted_block \<and> response_app_hash sample_rx_env trusted_block = Inr ''A''"
proof -
  obtain p where p: "build_payload sample_rx_env sample_codec sample_reindexer 1 = Inr p" "bp_app_hash p = ''A''"
    using sample_payload_ok by (cases "build_payload sample_rx_env sample_codec sample_reindexer 1") auto
  have "ri_trusted sample_reindexer = Some sample_rpc" by (simp add: sample_reindexer_def)
  from rebuilt_block_matches_trusted [OF p(1) this] p(2) show ?thesis by auto
qed

lemma sample_build_plan: "build_plan sample_rx_env sample_codec sample_reindexer False None None sample_bds_db = Inr sample_plan"
  by code_simp

lemma sample_reindexed:
  "map_prod id (map blk_height \<circ> db_blocks) (reindex_range sample_rx_env sample_codec sample_reindexer (\<lambda>_. False) sample_plan sample_bds_db)
   = (Inr 2, [0, 1, 2])"
  by code_simp

theorem reindex_completes_index_witness:
  "heights (snd (reindex_range sample_rx_env sample_codec sample_reindexer (\<lambda>_. False) sample_plan sample_bds_db)) = {0..2}"
proof -
  obtain db' where run: "reindex_range sample_rx_env sample_codec sample_reindexer (\<lambda>_. False) sample_plan sample_bds_db
      = (Inr (nat (total_blocks sample_plan)), db')"
    using sample_reindexed
    by (cases "reindex_range sample_rx_env sample_codec sample_reindexer (\<lambda>_. False) sample_plan sample_bds_db")
      (auto simp: total_blocks_def sample_plan_def)
  have payload: "payload_height sample_rx_env p = Inr h"
    if "pl_start_height sample_plan \<le> h" "h \<le> pl_end_height sample_plan" "build_payload sample_rx_env sample_codec sample_reindexer h = Inr p" for h p
  proof -
    have "h = 1 \<or> h = 2" using that(1,2) by (auto simp: sample_plan_def)
    then have "dindex (bp_meta p) ''height'' = Inr (PInt h)"
      using that(3) sample_payload_ok sample_payload_2 by (auto simp: dindex_def)
    then show ?thesis by (simp add: payload_height_def)
  qed
  have zero: "heights sample_bds_db = {0..0}" using sample_heights by (auto simp: heights_def)
  have "heights db' = {0..0} \<union> {pl_start_height sample_plan..pl_end_height sample_plan}"
  proof (rule conjunct1 [OF reindex_completes_index [OF sample_build_plan zero _ _ run]])
    show "payload_height sample_rx_env p = Inr h" if "pl_start_height sample_plan \<le> h" "h \<le> pl_end_height sample_plan"
      "build_payload sample_rx_env sample_codec sample_reindexer h = Inr p" for h p
      using that by (rule payload)
  qed simp
  also have "{0..0} \<union> {pl_start_height sample_plan..pl_end_height sample_plan} = {0..2}" by (auto simp: sample_plan_def)
  finally show ?thesis unfolding run snd_conv .
qed

text \<open>A start bound above the next height leaves a gap: the run over block 2 alone counts every planned
  block as stored, block 1 is missing, and a later run without bounds starts after the gap.\<close>

theorem start_bound_leaves_gap:
  "(case build_plan sample_rx_env sample_codec sample_reindexer False (Some 2) None sample_bds_db of
      Inr plan \<Rightarrow>
        (case reindex_range sample_rx_env sample_codec sample_reindexer (\<lambda>_. False) plan sample_bds_db of (r, db) \<Rightarrow>
           (total_blocks plan, r, map blk_height (db_blocks db),
            map_sum id pl_start_height (build_plan sample_rx_env sample_codec sample_reindexer False None None db)) =
           (1, Inr 1, [0, 2], Inr 3))
    | Inl _ \<Rightarrow> False)"
  by code_simp

text \<open>A failure while block 1 is stored: the loop goes on with block 2, and the next plan starts
  after it.\<close>

theorem reindex_leaves_gap:
  "(case reindex_range sample_rx_env sample_codec sample_reindexer (\<lambda>h. h = 1) sample_plan sample_bds_db of (r, db) \<Rightarrow>
      (r, map blk_height (db_blocks db),
       map_sum id pl_start_height (build_plan sample_rx_env sample_codec sample_reindexer False None None db)))
   = (Inr 1, [0, 2], Inr 3)"
  by code_simp

end
