(* ===== verification/Bds_Config.thy ===== *)
theory Bds_Config
  imports Latest_Block Formatting
begin

text \<open>
  Settings of the block data service (\<^verbatim>\<open>src/src/xian/services/bds/config.py\<close>) and what the
  connection pool makes of them (\<^verbatim>\<open>database.py\<close>, \<^verbatim>\<open>runtime.py\<close>).  A setting is taken from the
  node's configuration, then from the environment, then from its default.  \<open>float_of\<close> is
  \<^verbatim>\<open>float(v)\<close>, whose result is kept as its text.
\<close>

section \<open>Reading settings\<close>

text \<open>The first value that is neither \<^verbatim>\<open>None\<close> nor the empty text.\<close>

fun first_non_empty :: "pyval list \<Rightarrow> pyval \<Rightarrow> pyval" where
  "first_non_empty [] alt = alt"
| "first_non_empty (v # vs) alt = (if v = PNone \<or> v = PStr [] then first_non_empty vs alt else v)"

definition coerce_int :: "text_env \<Rightarrow> pyval \<Rightarrow> int \<Rightarrow> int" where
  "coerce_int T value alt =
     (case py_int (te_int_of_text T) (first_non_empty [value] (PInt alt)) of Inr i \<Rightarrow> i | Inl _ \<Rightarrow> alt)"

definition coerce_float :: "(pyval \<Rightarrow> string res) \<Rightarrow> pyval \<Rightarrow> string \<Rightarrow> string" where
  "coerce_float float_of value alt =
     (case float_of (first_non_empty [value] (PFloat alt)) of Inr x \<Rightarrow> x | Inl _ \<Rightarrow> alt)"

record bds_config =
  bc_dsn :: "string option"
  bc_host :: string
  bc_port :: int
  bc_database :: string
  bc_user :: string
  bc_password :: string
  bc_pool_min_size :: int
  bc_pool_max_size :: int
  bc_statement_timeout_ms :: int
  bc_acquire_timeout_ms :: int
  bc_application_name :: string
  bc_queue_max_size :: int
  bc_catchup_enabled :: bool
  bc_catchup_poll_seconds :: string
  bc_rpc_url :: "string option"
  bc_spool_dir :: "string option"
  bc_spool_warn_entries :: int
  bc_spool_warn_bytes :: int
  bc_disk_free_warn_bytes :: int

type_synonym settings = "pyval \<times> (string, string) dict"

definition bds_settings :: "pyval \<Rightarrow> pyval" where
  "bds_settings runtime = (let v = dget_or runtime ''bds'' (PDict []) in if is_dict v then v else PDict [])"

text \<open>A setting by its name in the configuration and its name in the environment.\<close>

definition setting :: "settings \<Rightarrow> string \<Rightarrow> string \<Rightarrow> pyval \<Rightarrow> pyval" where
  "setting S name variable alt =
     first_non_empty [dget_or (fst S) name PNone,
                      case map_of (snd S) variable of Some s \<Rightarrow> PStr s | None \<Rightarrow> PNone] alt"

definition int_setting :: "text_env \<Rightarrow> settings \<Rightarrow> string \<Rightarrow> string \<Rightarrow> int \<Rightarrow> int" where
  "int_setting T S name variable alt = coerce_int T (setting S name variable PNone) alt"

definition str_setting :: "text_env \<Rightarrow> settings \<Rightarrow> string \<Rightarrow> string \<Rightarrow> string \<Rightarrow> string" where
  "str_setting T S name variable alt = py_str T (setting S name variable (PStr alt))"

definition optional_text :: "pyval \<Rightarrow> string option" where
  "optional_text v = (case v of PStr s \<Rightarrow> Some s | _ \<Rightarrow> None)"

definition lower_ascii :: "string \<Rightarrow> string" where
  "lower_ascii s = map (\<lambda>c. if CHR ''A'' \<le> c \<and> c \<le> CHR ''Z'' then char_of (of_char c + 32 :: nat) else c) s"

definition from_runtime_settings :: "text_env \<Rightarrow> (pyval \<Rightarrow> string res) \<Rightarrow> pyval \<Rightarrow> (string, string) dict \<Rightarrow> bds_config" where
  "from_runtime_settings T float_of runtime environ =
     (let S = (bds_settings runtime, environ) in
      \<lparr>bc_dsn = optional_text (setting S ''dsn'' ''XIAN_BDS_DSN'' PNone),
       bc_host = str_setting T S ''host'' ''XIAN_BDS_HOST'' ''127.0.0.1'',
       bc_port = int_setting T S ''port'' ''XIAN_BDS_PORT'' 5432,
       bc_database = str_setting T S ''database'' ''XIAN_BDS_DATABASE'' ''xian'',
       bc_user = str_setting T S ''user'' ''XIAN_BDS_USER'' ''xian'',
       bc_password = str_setting T S ''password'' ''XIAN_BDS_PASSWORD'' [],
       bc_pool_min_size = int_setting T S ''pool_min_size'' ''XIAN_BDS_POOL_MIN_SIZE'' 1,
       bc_pool_max_size = int_setting T S ''pool_max_size'' ''XIAN_BDS_POOL_MAX_SIZE'' 10,
       bc_statement_timeout_ms = int_setting T S ''statement_timeout_ms'' ''XIAN_BDS_STATEMENT_TIMEOUT_MS'' 0,
       bc_acquire_timeout_ms = int_setting T S ''acquire_timeout_ms'' ''XIAN_BDS_ACQUIRE_TIMEOUT_MS'' 10000,
       bc_application_name = str_setting T S ''application_name'' ''XIAN_BDS_APPLICATION_NAME'' ''xian-bds'',
       bc_queue_max_size = int_setting T S ''queue_max_size'' ''XIAN_BDS_QUEUE_MAX_SIZE'' 128,
       bc_catchup_enabled =
         lower_ascii (py_str T (setting S ''catchup_enabled'' ''XIAN_BDS_CATCHUP_ENABLED'' (PBool True)))
           \<notin> {''0'', ''false'', ''no'', ''off''},
       bc_catchup_poll_seconds =
         coerce_float float_of (setting S ''catchup_poll_seconds'' ''XIAN_BDS_CATCHUP_POLL_SECONDS'' (PFloat ''1.0'')) ''1.0'',
       bc_rpc_url = optional_text (setting S ''rpc_url'' ''XIAN_BDS_RPC_URL'' PNone),
       bc_spool_dir = optional_text (setting S ''spool_dir'' ''XIAN_BDS_SPOOL_DIR'' PNone),
       bc_spool_warn_entries = int_setting T S ''spool_warn_entries'' ''XIAN_BDS_SPOOL_WARN_ENTRIES'' 256,
       bc_spool_warn_bytes = int_setting T S ''spool_warn_bytes'' ''XIAN_BDS_SPOOL_WARN_BYTES'' 536870912,
       bc_disk_free_warn_bytes = int_setting T S ''disk_free_warn_bytes'' ''XIAN_BDS_DISK_FREE_WARN_BYTES'' 2147483648\<rparr>)"

definition resolve_bds_config :: "text_env \<Rightarrow> (pyval \<Rightarrow> string res) \<Rightarrow> string \<Rightarrow> pyval \<Rightarrow> (string, string) dict \<Rightarrow> bds_config" where
  "resolve_bds_config T float_of storage_home xian_config environ =
     (let config = from_runtime_settings T float_of xian_config environ in
      if bc_spool_dir config = None then config\<lparr>bc_spool_dir := Some (storage_home @ ''/bds-spool'')\<rparr> else config)"

section \<open>The connection pool\<close>

text \<open>In milliseconds; None waits for ever.\<close>

definition acquire_timeout :: "bds_config \<Rightarrow> int option" where
  "acquire_timeout cfg = (if bc_acquire_timeout_ms cfg \<le> 0 then None else Some (bc_acquire_timeout_ms cfg))"

definition pool_kwargs :: "bds_config \<Rightarrow> pyval" where
  "pool_kwargs cfg =
     (let server_settings = [(PStr ''application_name'', PStr (bc_application_name cfg))] @
            (if 0 < bc_statement_timeout_ms cfg
             then [(PStr ''statement_timeout'', PStr (str_int (bc_statement_timeout_ms cfg) @ ''ms''))] else []);
          kwargs = [(PStr ''min_size'', PInt (bc_pool_min_size cfg)), (PStr ''max_size'', PInt (bc_pool_max_size cfg)),
                    (PStr ''server_settings'', PDict server_settings)]
      in case bc_dsn cfg of
           Some dsn \<Rightarrow> if dsn \<noteq> [] then PDict (kwargs @ [(PStr ''dsn'', PStr dsn)]) else PDict (kwargs @
             [(PStr ''user'', PStr (bc_user cfg)), (PStr ''password'', PStr (bc_password cfg)),
              (PStr ''database'', PStr (bc_database cfg)), (PStr ''host'', PStr (bc_host cfg)), (PStr ''port'', PInt (bc_port cfg))])
         | None \<Rightarrow> PDict (kwargs @
             [(PStr ''user'', PStr (bc_user cfg)), (PStr ''password'', PStr (bc_password cfg)),
              (PStr ''database'', PStr (bc_database cfg)), (PStr ''host'', PStr (bc_host cfg)), (PStr ''port'', PInt (bc_port cfg))]))"

definition admin_connect_kwargs :: "bds_config \<Rightarrow> pyval" where
  "admin_connect_kwargs cfg =
     PDict [(PStr ''user'', PStr (bc_user cfg)), (PStr ''password'', PStr (bc_password cfg)),
            (PStr ''database'', PStr ''postgres''), (PStr ''host'', PStr (bc_host cfg)), (PStr ''port'', PInt (bc_port cfg)),
            (PStr ''server_settings'', PDict [(PStr ''application_name'', PStr (bc_application_name cfg @ ''-bootstrap''))])]"

text \<open>A name that goes into a statement unquoted by parameters.\<close>

definition validate_database_name :: "string \<Rightarrow> string res" where
  "validate_database_name name =
     (if name \<noteq> [] \<and> (is_letter (hd name) \<or> hd name = CHR ''_'') \<and>
         list_all (\<lambda>c. is_letter c \<or> is_digit c \<or> c = CHR ''_'') (tl name)
      then Inr name else Inl (ValueError ''invalid database name''))"

definition create_database_statement :: "bds_config \<Rightarrow> string res" where
  "create_database_statement cfg =
     rbind (validate_database_name (bc_database cfg)) (\<lambda>name. Inr (''CREATE DATABASE '' @ CHR 0x22 # name @ [CHR 0x22]))"

definition HAS_ENTRIES_ALLOWED_TABLES :: "string list" where
  "HAS_ENTRIES_ALLOWED_TABLES = [''blocks'', ''transactions'']"

definition has_entries :: "(string \<Rightarrow> nat res) \<Rightarrow> string \<Rightarrow> bool res" where
  "has_entries row_count table_name =
     (if table_name \<notin> set HAS_ENTRIES_ALLOWED_TABLES then Inl (ValueError ''has_entries() called with disallowed table name'')
      else rbind (row_count table_name) (\<lambda>n. Inr (0 < n)))"

section \<open>Precedence\<close>

text \<open>A value in the configuration wins over the environment, and that over the default.\<close>

lemma setting_precedence:
  "setting (d, environ) name variable alt =
     (case dget d name of
        Some v \<Rightarrow> if v \<noteq> PNone \<and> v \<noteq> PStr [] then v else first_non_empty
           [case map_of environ variable of Some s \<Rightarrow> PStr s | None \<Rightarrow> PNone] alt
      | None \<Rightarrow> (case map_of environ variable of
           Some s \<Rightarrow> if s \<noteq> [] then PStr s else alt
         | None \<Rightarrow> alt))"
  by (auto simp: setting_def dget_or_def split: option.split)

text \<open>The quoted name in the statement ends where the name ends.\<close>

lemma database_name_has_no_quote:
  assumes "validate_database_name name = Inr n"
  shows "n = name \<and> CHR 0x22 \<notin> set name"
proof -
  have "\<not> is_letter (CHR 0x22) \<and> \<not> is_digit (CHR 0x22)" by (simp add: is_letter_def is_digit_def)
  moreover have "set name = insert (hd name) (set (tl name))" if "name \<noteq> []" using that by (cases name) auto
  ultimately show ?thesis
    using assms by (auto simp: validate_database_name_def list_all_iff split: if_splits)
qed

end
