(* ===== verification/File_System.thy ===== *)
theory File_System
  imports Py_Value
begin

text \<open>
  The file operations the sources use of the standard library: a tree of files, symbolic links
  and directories, paths as the lists of their parts, the resolution of links, and operations
  that fail with \<^verbatim>\<open>OSError\<close> when the tree does not allow them or when the system lets them fail.
  File names are compared byte by byte.
\<close>

section \<open>Trees and paths\<close>

type_synonym path = "string list"

datatype node = File string | Link string | Dir "(string \<times> node) list"

fun lookup :: "node \<Rightarrow> path \<Rightarrow> node option" where
  "lookup n [] = Some n"
| "lookup (Dir es) (p # ps) = (case map_of es p of None \<Rightarrow> None | Some n \<Rightarrow> lookup n ps)"
| "lookup (File c) (p # ps) = None"
| "lookup (Link t) (p # ps) = None"

text \<open>Putting a node at a path whose parent is a directory, and removing one.\<close>

fun put :: "node \<Rightarrow> path \<Rightarrow> node \<Rightarrow> node" where
  "put n [] x = x"
| "put (Dir es) (p # ps) x =
     (case map_of es p of
        None \<Rightarrow> if ps = [] then Dir (AList.update p x es) else Dir es
      | Some n \<Rightarrow> Dir (AList.update p (put n ps x) es))"
| "put (File c) (p # ps) x = File c"
| "put (Link t) (p # ps) x = Link t"

fun remove :: "node \<Rightarrow> path \<Rightarrow> node" where
  "remove n [] = n"
| "remove (Dir es) (p # ps) =
     (case map_of es p of
        None \<Rightarrow> Dir es
      | Some n \<Rightarrow> if ps = [] then Dir (AList.delete p es) else Dir (AList.update p (remove n ps) es))"
| "remove (File c) (p # ps) = File c"
| "remove (Link t) (p # ps) = Link t"

definition file_at :: "node \<Rightarrow> path \<Rightarrow> string option" where
  "file_at n p = (case lookup n p of Some (File c) \<Rightarrow> Some c | _ \<Rightarrow> None)"

definition link_at :: "node \<Rightarrow> path \<Rightarrow> bool" where
  "link_at n p = (case lookup n p of Some (Link _) \<Rightarrow> True | _ \<Rightarrow> False)"

definition dir_at :: "node \<Rightarrow> path \<Rightarrow> bool" where
  "dir_at n p = (case lookup n p of Some (Dir _) \<Rightarrow> True | _ \<Rightarrow> False)"

definition entries_at :: "node \<Rightarrow> path \<Rightarrow> string list" where
  "entries_at n p = (case lookup n p of Some (Dir es) \<Rightarrow> map fst es | _ \<Rightarrow> [])"

lemma lookup_append: "lookup n (p @ q) = (case lookup n p of None \<Rightarrow> None | Some m \<Rightarrow> lookup m q)"
  by (induction n p rule: lookup.induct) (auto split: option.split)

lemma dir_at_iff: "dir_at n p \<longleftrightarrow> (\<exists>es. lookup n p = Some (Dir es))"
  by (auto simp: dir_at_def split: option.split node.split)

lemma link_at_iff: "link_at n p \<longleftrightarrow> (\<exists>t. lookup n p = Some (Link t))"
  by (auto simp: link_at_def split: option.split node.split)

lemma file_at_iff: "file_at n p = Some c \<longleftrightarrow> lookup n p = Some (File c)"
  by (auto simp: file_at_def split: option.split node.split)

lemma dir_above: "lookup n (p @ q) = Some x \<Longrightarrow> q \<noteq> [] \<Longrightarrow> dir_at n p"
proof -
  assume "lookup n (p @ q) = Some x" "q \<noteq> []"
  then obtain m where "lookup n p = Some m" "lookup m q = Some x" by (auto simp: lookup_append split: option.splits)
  with \<open>q \<noteq> []\<close> show ?thesis by (cases m; cases q) (auto simp: dir_at_def)
qed

section \<open>Reading after writing\<close>

text \<open>A path that neither leads to the changed node nor goes through it.\<close>

lemma lookup_put_apart: "\<not> prefix p q \<Longrightarrow> \<not> prefix q p \<Longrightarrow> lookup (put n p x) q = lookup n q"
proof (induction n p x arbitrary: q rule: put.induct)
  case (2 es p ps x)
  then show ?case by (cases q) (auto simp: map_of_AList_update split: option.split)
next
  case (3 c p ps x)
  then show ?case by (cases q) auto
next
  case (4 t p ps x)
  then show ?case by (cases q) auto
qed simp

lemma lookup_remove_apart: "\<not> prefix p q \<Longrightarrow> \<not> prefix q p \<Longrightarrow> lookup (remove n p) q = lookup n q"
proof (induction n p arbitrary: q rule: remove.induct)
  case (2 es p ps)
  then show ?case by (cases q) (auto simp: map_of_AList_update map_of_AList_delete split: option.split)
next
  case (3 c p ps)
  then show ?case by (cases q) auto
next
  case (4 t p ps)
  then show ?case by (cases q) auto
qed simp

lemma lookup_put_below:
  "p = [] \<or> dir_at n (butlast p) \<Longrightarrow> lookup (put n p x) (p @ q) = lookup x q"
proof (induction n p x rule: put.induct)
  case (2 es p ps x)
  then show ?case
    by (cases "ps = []") (auto simp: map_of_AList_update dir_at_def split: option.split)
qed (auto simp: dir_at_def split: if_splits)

lemma lookup_remove_below: "p \<noteq> [] \<Longrightarrow> lookup (remove n p) (p @ q) = None"
proof (induction n p rule: remove.induct)
  case (2 es p ps)
  then show ?case by (auto simp: map_of_AList_update map_of_AList_delete split: option.split)
qed simp_all

text \<open>A directory above the change stays one, with the other entries it had.\<close>

lemma dir_at_simps [simp]:
  "dir_at (Dir es) (p # ps) = (case map_of es p of None \<Rightarrow> False | Some n \<Rightarrow> dir_at n ps)"
  "dir_at (Dir es) []" "\<not> dir_at (File c) q" "\<not> dir_at (Link t) q"
  by (cases q; auto simp: dir_at_def split: option.split)+

lemma dir_put_above: "strict_prefix q p \<Longrightarrow> dir_at n q \<Longrightarrow> dir_at (put n p x) q"
proof (induction n p x arbitrary: q rule: put.induct)
  case (2 es p ps x)
  then show ?case by (cases q) (auto simp: map_of_AList_update split: option.splits if_splits)
qed auto

lemma dir_remove_above: "strict_prefix q p \<Longrightarrow> dir_at n q \<Longrightarrow> dir_at (remove n p) q"
proof (induction n p arbitrary: q rule: remove.induct)
  case (2 es p ps)
  then show ?case
    by (cases q) (auto simp: map_of_AList_update map_of_AList_delete split: option.splits if_splits)
qed auto

section \<open>Resolving links\<close>

text \<open>\<^verbatim>\<open>PurePosixPath(text).parts\<close> without the anchor, and whether there is one.\<close>

definition path_parts :: "string \<Rightarrow> path" where
  "path_parts t = filter (\<lambda>p. p \<noteq> [] \<and> p \<noteq> ''.'') (split_on (CHR ''/'') t)"

definition is_absolute :: "string \<Rightarrow> bool" where
  "is_absolute t \<longleftrightarrow> t \<noteq> [] \<and> hd t = CHR ''/''"

text \<open>\<^verbatim>\<open>base / text\<close>.\<close>

definition join_path :: "path \<Rightarrow> string \<Rightarrow> path" where
  "join_path base t = (if is_absolute t then path_parts t else base @ path_parts t)"

definition as_posix :: "path \<Rightarrow> string" where
  "as_posix p = concat (map (\<lambda>(i, part). (if i = 0 then [] else ''/'') @ part) (enumerate 0 p))"

text \<open>The system follows links from the root on, 40 of them at most; the last part need not exist.\<close>

fun walk :: "nat \<Rightarrow> node \<Rightarrow> path \<Rightarrow> path \<Rightarrow> path option" where
  "walk budget n current [] = Some current"
| "walk budget n current (p # ps) =
     (if p = ''..'' then walk budget n (butlast current) ps
      else case lookup n (current @ [p]) of
             None \<Rightarrow> if ps = [] then Some (current @ [p]) else None
           | Some (Link t) \<Rightarrow>
               (case budget of 0 \<Rightarrow> None
                | Suc b \<Rightarrow> walk b n (if is_absolute t then [] else current) (path_parts t @ ps))
           | Some _ \<Rightarrow> walk budget n (current @ [p]) ps)"

definition realpath :: "node \<Rightarrow> path \<Rightarrow> path option" where
  "realpath n p =
     (case walk 40 n [] p of None \<Rightarrow> None | Some q \<Rightarrow> if lookup n q = None then None else Some q)"

definition path_exists :: "node \<Rightarrow> path \<Rightarrow> bool" where
  "path_exists n p = (realpath n p \<noteq> None)"

definition is_dir_path :: "node \<Rightarrow> path \<Rightarrow> bool" where
  "is_dir_path n p = (case realpath n p of None \<Rightarrow> False | Some q \<Rightarrow> dir_at n q)"

definition same_file :: "node \<Rightarrow> path \<Rightarrow> path \<Rightarrow> bool" where
  "same_file n p q = (realpath n p \<noteq> None \<and> realpath n p = realpath n q)"

text \<open>No part of the path is a link or goes up.\<close>

definition plain :: "node \<Rightarrow> path \<Rightarrow> bool" where
  "plain n p \<longleftrightarrow> ''..'' \<notin> set p \<and> (\<forall>q. prefix q p \<longrightarrow> \<not> link_at n q)"

lemma plain_prefix: "plain n (p @ q) \<Longrightarrow> plain n p"
  by (auto simp: plain_def)

lemma plain_butlast: "plain n p \<Longrightarrow> plain n (butlast p)"
  by (metis append_butlast_last_id butlast.simps(1) plain_prefix)

lemma plain_snoc: "plain n (p @ [x]) \<longleftrightarrow> plain n p \<and> x \<noteq> ''..'' \<and> \<not> link_at n (p @ [x])"
  by (auto simp: plain_def)

lemma walk_plain:
  "plain n (current @ p) \<Longrightarrow> lookup n (current @ p) \<noteq> None \<Longrightarrow> walk budget n current p = Some (current @ p)"
proof (induction p arbitrary: current)
  case (Cons x p)
  have "plain n ((current @ [x]) @ p)" "lookup n ((current @ [x]) @ p) \<noteq> None" using Cons.prems by simp_all
  then have "walk budget n (current @ [x]) p = Some (current @ x # p)" using Cons.IH [of "current @ [x]"] by simp
  moreover have "plain n (current @ [x])" using Cons.prems plain_prefix [of n "current @ [x]" p] by simp
  moreover obtain m where "lookup n (current @ [x]) = Some m"
    using Cons.prems(2) lookup_append [of n "current @ [x]" p] by (auto split: option.splits)
  ultimately show ?case by (cases m) (auto simp: plain_snoc link_at_def)
qed simp

lemma realpath_plain: "plain n p \<Longrightarrow> realpath n p = (if lookup n p = None then None else Some p)"
proof (cases "lookup n p")
  case (Some m)
  then show "plain n p \<Longrightarrow> ?thesis" using walk_plain [of n "[]" p 40] by (simp add: realpath_def)
next
  case None
  assume p: "plain n p"
  have "walk b n c q = None \<or> walk b n c q = Some (c @ q)" if "plain n (c @ q)" for b c q
    using that
  proof (induction q arbitrary: c)
    case (Cons x q)
    have "plain n (c @ [x])" "plain n ((c @ [x]) @ q)" using Cons.prems plain_prefix [of n "c @ [x]" q] by simp_all
    with Cons.IH [of "c @ [x]"] show ?case by (auto simp: plain_snoc link_at_def split: option.split node.split)
  qed simp
  from this [of "[]" p 40] p None show ?thesis by (auto simp: realpath_def split: option.split)
qed

lemma plain_Nil: "dir_at n [] \<Longrightarrow> plain n []"
  by (cases n) (auto simp: plain_def link_at_def)

text \<open>What the system resolves is plain.\<close>

lemma walk_is_plain:
  "walk budget n current p = Some q \<Longrightarrow> plain n current \<Longrightarrow> dir_at n [] \<Longrightarrow> plain n q"
proof (induction budget n current p rule: walk.induct)
  case (2 budget n current p ps)
  consider "p = ''..''" | "p \<noteq> ''..''" "lookup n (current @ [p]) = None"
    | (link) t where "p \<noteq> ''..''" "lookup n (current @ [p]) = Some (Link t)"
    | (other) m where "p \<noteq> ''..''" "lookup n (current @ [p]) = Some m" "\<not> link_at n (current @ [p])"
    by (cases "lookup n (current @ [p])"; cases "link_at n (current @ [p])") (auto simp: link_at_iff)
  then show ?case
  proof cases
    case 1
    then show ?thesis using 2 by (auto intro: plain_butlast)
  next
    assume "p \<noteq> ''..''" "lookup n (current @ [p]) = None"
    then show ?thesis using "2.prems" by (auto simp: plain_snoc link_at_def split: if_splits)
  next
    case link
    show ?thesis
    proof (cases budget)
      case 0
      then show ?thesis using "2.prems" link by simp
    next
      case (Suc b)
      have "plain n (if is_absolute t then [] else current)" using "2.prems" by (simp add: plain_Nil)
      then show ?thesis using "2.IH"(3) [OF link(1) link(2) refl Suc] "2.prems" link Suc by simp
    qed
  next
    case other
    then have "plain n (current @ [p])" using "2.prems" by (simp add: plain_snoc)
    then show ?thesis using other "2.IH"(2) [of m] "2.IH"(4) [of m] "2.prems"
      by (cases m) (auto simp: link_at_def)
  qed
qed simp

lemma realpath_is_plain: "realpath n p = Some q \<Longrightarrow> dir_at n [] \<Longrightarrow> plain n q \<and> lookup n q \<noteq> None"
  by (auto simp: realpath_def intro: walk_is_plain plain_Nil split: option.splits if_splits)

section \<open>Operations that can fail\<close>

definition os_error :: exc where "os_error = OtherError ''OSError''"

text \<open>
  The tree together with the number of operations so far.  The system decides for each of them:
  None lets it go through, \<open>Some g\<close> makes it fail, and what it was deleting is then left as \<open>g\<close> says.
  A crash is a system that lets every operation from some point on fail without an effect.
\<close>

record disk =
  dk_tree :: node
  dk_clock :: nat

type_synonym faults = "nat \<Rightarrow> (node \<Rightarrow> node) option"

definition fs_op :: "faults \<Rightarrow> (node \<Rightarrow> node res) \<Rightarrow> (disk, unit) step" where
  "fs_op faults f d =
     (let d' = d\<lparr>dk_clock := Suc (dk_clock d)\<rparr> in
      case faults (dk_clock d) of
        Some g \<Rightarrow> (Inl os_error, d')
      | None \<Rightarrow> (case f (dk_tree d) of Inl e \<Rightarrow> (Inl e, d') | Inr n \<Rightarrow> (Inr (), d'\<lparr>dk_tree := n\<rparr>)))"

text \<open>\<^verbatim>\<open>mkdir(parents=True, exist_ok=True)\<close>, on a path without links.\<close>

fun mkdirs :: "node \<Rightarrow> path \<Rightarrow> node res" where
  "mkdirs (Dir es) [] = Inr (Dir es)"
| "mkdirs (Dir es) (p # ps) =
     rbind (mkdirs (case map_of es p of None \<Rightarrow> Dir [] | Some n \<Rightarrow> n) ps) (\<lambda>n. Inr (Dir (AList.update p n es)))"
| "mkdirs (File c) p = Inl (OtherError ''FileExistsError'')"
| "mkdirs (Link t) p = Inl (OtherError ''FileExistsError'')"

text \<open>\<^verbatim>\<open>open("xb")\<close> and the write: the file must be new.\<close>

definition create_file :: "path \<Rightarrow> string \<Rightarrow> node \<Rightarrow> node res" where
  "create_file p content n =
     (if \<not> dir_at n (butlast p) then Inl (FileNotFoundError (as_posix p))
      else if lookup n p \<noteq> None then Inl (OtherError ''FileExistsError'')
      else Inr (put n p (File content)))"

text \<open>\<^verbatim>\<open>shutil.copy2\<close> on a path without links: into a directory, or over a file.\<close>

definition copy_file :: "path \<Rightarrow> path \<Rightarrow> node \<Rightarrow> node res" where
  "copy_file source destination n =
     (let target = (if dir_at n destination then destination @ [last source] else destination) in
      case file_at n source of
        None \<Rightarrow> Inl os_error
      | Some content \<Rightarrow>
          if \<not> dir_at n (butlast target) \<or> dir_at n target then Inl os_error
          else Inr (put n target (File content)))"

text \<open>\<^verbatim>\<open>rename\<close> of a directory: the target is new, or an empty directory.\<close>

definition rename :: "path \<Rightarrow> path \<Rightarrow> node \<Rightarrow> node res" where
  "rename source target n =
     (case lookup n source of
        None \<Rightarrow> Inl (FileNotFoundError (as_posix source))
      | Some x \<Rightarrow>
          if \<not> dir_at n (butlast target) \<or> prefix source target \<or>
             (lookup n target \<noteq> None \<and> \<not> (dir_at n source \<and> lookup n target = Some (Dir []))) then Inl os_error
          else Inr (put (remove n source) target x))"

text \<open>\<^verbatim>\<open>shutil.rmtree\<close>: a failure leaves a part of the tree.\<close>

definition rmtree :: "faults \<Rightarrow> path \<Rightarrow> (disk, unit) step" where
  "rmtree faults p d =
     (let n = dk_tree d; d' = d\<lparr>dk_clock := Suc (dk_clock d)\<rparr> in
      case lookup n p of
        None \<Rightarrow> (Inl (FileNotFoundError (as_posix p)), d')
      | Some x \<Rightarrow>
          (case faults (dk_clock d) of
             Some g \<Rightarrow> (Inl os_error, d'\<lparr>dk_tree := put n p (g x)\<rparr>)
           | None \<Rightarrow> (Inr (), d'\<lparr>dk_tree := remove n p\<rparr>)))"

definition catch :: "('s, 'a) step \<Rightarrow> (exc \<Rightarrow> ('s, 'a) step) \<Rightarrow> ('s, 'a) step" where
  "catch m handler s = (case m s of (Inl e, s') \<Rightarrow> handler e s' | (Inr x, s') \<Rightarrow> (Inr x, s'))"

lemma fs_op_cases:
  assumes "fs_op faults f d = (r, d')"
  obtains (failed) e where "r = Inl e" "dk_tree d' = dk_tree d"
  | (passed) "r = Inr ()" "f (dk_tree d) = Inr (dk_tree d')"
  using assms by (auto simp: fs_op_def Let_def split: option.splits sum.splits)

text \<open>Making directories adds directories where nothing was.\<close>

lemma mkdirs_file: "mkdirs n p = Inr n' \<Longrightarrow> lookup n' q = Some (File c) \<longleftrightarrow> lookup n q = Some (File c)"
proof (induction n p arbitrary: n' q rule: mkdirs.induct)
  case (2 es p ps)
  obtain m where m: "mkdirs (case map_of es p of None \<Rightarrow> Dir [] | Some n \<Rightarrow> n) ps = Inr m" "n' = Dir (AList.update p m es)"
    using "2.prems" by (auto elim: rbind_InrE)
  show ?case
  proof (cases q)
    case (Cons x xs)
    have "lookup (Dir []) xs \<noteq> Some (File c)" by (cases xs) auto
    with "2.IH" [OF m(1), of xs] show ?thesis
      using m(2) Cons by (auto simp: map_of_AList_update split: option.splits)
  qed (use m(2) in simp)
qed simp_all

lemma mkdirs_link: "mkdirs n p = Inr n' \<Longrightarrow> lookup n' q = Some (Link t) \<longleftrightarrow> lookup n q = Some (Link t)"
proof (induction n p arbitrary: n' q rule: mkdirs.induct)
  case (2 es p ps)
  obtain m where m: "mkdirs (case map_of es p of None \<Rightarrow> Dir [] | Some n \<Rightarrow> n) ps = Inr m" "n' = Dir (AList.update p m es)"
    using "2.prems" by (auto elim: rbind_InrE)
  show ?case
  proof (cases q)
    case (Cons x xs)
    have "lookup (Dir []) xs \<noteq> Some (Link t)" by (cases xs) auto
    with "2.IH" [OF m(1), of xs] show ?thesis
      using m(2) Cons by (auto simp: map_of_AList_update split: option.splits)
  qed (use m(2) in simp)
qed simp_all

lemma mkdirs_dir: "mkdirs n p = Inr n' \<Longrightarrow> dir_at n q \<or> prefix q p \<longleftrightarrow> dir_at n' q"
proof (induction n p arbitrary: n' q rule: mkdirs.induct)
  case (2 es p ps)
  obtain m where m: "mkdirs (case map_of es p of None \<Rightarrow> Dir [] | Some n \<Rightarrow> n) ps = Inr m" "n' = Dir (AList.update p m es)"
    using "2.prems" by (auto elim: rbind_InrE)
  show ?case
  proof (cases q)
    case (Cons x xs)
    have "dir_at (Dir []) xs \<longleftrightarrow> xs = []" by (cases xs) auto
    with "2.IH" [OF m(1), of xs] show ?thesis
      using m(2) Cons by (auto simp: map_of_AList_update split: option.splits)
  qed (use m(2) in simp)
qed auto

lemma mkdirs_apart: "mkdirs n p = Inr n' \<Longrightarrow> \<not> prefix q p \<Longrightarrow> lookup n' q = lookup n q"
proof (induction n p arbitrary: n' q rule: mkdirs.induct)
  case (2 es p ps)
  obtain m where m: "mkdirs (case map_of es p of None \<Rightarrow> Dir [] | Some n \<Rightarrow> n) ps = Inr m" "n' = Dir (AList.update p m es)"
    using "2.prems" by (auto elim: rbind_InrE)
  show ?case
  proof (cases q)
    case (Cons x xs)
    have "lookup (Dir []) xs = None" if "\<not> prefix xs ps" using that by (cases xs) auto
    with "2.IH" [OF m(1), of xs] "2.prems"(2) show ?thesis
      using m(2) Cons by (auto simp: map_of_AList_update split: option.splits)
  qed (use "2.prems" in simp)
qed auto

text \<open>Writing a file where there is no directory.\<close>

lemma put_file:
  assumes "dir_at n (butlast p)" "p \<noteq> []" "\<not> dir_at n p"
  shows "file_at (put n p (File c)) q = (if q = p then Some c else file_at n q)"
    and "link_at (put n p (File c)) q = (q \<noteq> p \<and> link_at n q)"
    and "dir_at (put n p (File c)) q = dir_at n q"
proof -
  consider (same) "q = p" | (below) x u where "q = p @ x # u" | (above) "strict_prefix q p" | (apart) "\<not> prefix p q" "\<not> prefix q p"
    by (metis append_Nil2 neq_Nil_conv prefixE strict_prefixI)
  then have "file_at (put n p (File c)) q = (if q = p then Some c else file_at n q) \<and>
    link_at (put n p (File c)) q = (q \<noteq> p \<and> link_at n q) \<and> dir_at (put n p (File c)) q = dir_at n q"
  proof cases
    case same
    then show ?thesis using assms lookup_put_below [of p n "File c" "[]"] by (auto simp: file_at_def link_at_def dir_at_def)
  next
    case below
    have "lookup n q = None"
      using assms(3) dir_above [of n p "x # u"] by (cases "lookup n q") (auto simp: below)
    moreover have "lookup (put n p (File c)) q = None" using lookup_put_below [of p n "File c" "x # u"] assms(1) by (simp add: below)
    ultimately show ?thesis using below by (simp add: file_at_def link_at_def dir_at_def)
  next
    case above
    have "dir_at n q"
    proof -
      have "prefix q (butlast p)" using above assms(2) by (metis append_butlast_last_id prefix_snoc strict_prefix_def)
      then show ?thesis using assms(1) dir_above [of n q] by (metis append_Nil2 dir_at_iff prefixE)
    qed
    moreover have "dir_at (put n p (File c)) q" using dir_put_above [OF above calculation] .
    ultimately show ?thesis using above by (auto simp: dir_at_iff file_at_def link_at_def)
  next
    case apart
    then show ?thesis by (auto simp: file_at_def link_at_def dir_at_def lookup_put_apart)
  qed
  then show "file_at (put n p (File c)) q = (if q = p then Some c else file_at n q)"
    "link_at (put n p (File c)) q = (q \<noteq> p \<and> link_at n q)" "dir_at (put n p (File c)) q = dir_at n q" by auto
qed

lemma create_file_result:
  assumes "create_file p c n = Inr n'"
  shows "file_at n' q = (if q = p then Some c else file_at n q)" "link_at n' q = link_at n q" "dir_at n' q = dir_at n q"
    "lookup n p = None"
proof -
  have c: "n' = put n p (File c)" "dir_at n (butlast p)" "lookup n p = None" "p \<noteq> []"
    using assms by (auto simp: create_file_def split: if_splits)
  then have "\<not> dir_at n p" "\<not> link_at n p" by (auto simp: dir_at_def link_at_def)
  with c show "file_at n' q = (if q = p then Some c else file_at n q)" "link_at n' q = link_at n q" "dir_at n' q = dir_at n q"
    "lookup n p = None"
    using put_file [of n p] by auto
qed

lemma copy_file_result:
  assumes "copy_file source p n = Inr n'" "\<not> dir_at n p" "p \<noteq> []"
  obtains c where "file_at n source = Some c" "\<And>q. file_at n' q = (if q = p then Some c else file_at n q)"
    "\<And>q. link_at n' q = (q \<noteq> p \<and> link_at n q)" "\<And>q. dir_at n' q = dir_at n q"
  using assms put_file [of n p] by (auto simp: copy_file_def split: option.splits if_splits)

lemma mkdirs_result:
  assumes "mkdirs n p = Inr n'"
  shows "file_at n' q = file_at n q" "link_at n' q = link_at n q" "dir_at n' q \<longleftrightarrow> dir_at n q \<or> prefix q p"
proof -
  show "file_at n' q = file_at n q" using mkdirs_file [OF assms, of q] by (metis file_at_iff not_Some_eq)
  show "link_at n' q = link_at n q" using mkdirs_link [OF assms, of q] by (simp add: link_at_iff)
  show "dir_at n' q \<longleftrightarrow> dir_at n q \<or> prefix q p" using mkdirs_dir [OF assms, of q] by blast
qed

lemma mkdirs_new: "mkdirs n p = Inr n' \<Longrightarrow> lookup n p = None \<Longrightarrow> lookup n' p = Some (Dir [])"
proof (induction n p arbitrary: n' rule: mkdirs.induct)
  case (2 es p ps)
  obtain m where m: "mkdirs (case map_of es p of None \<Rightarrow> Dir [] | Some n \<Rightarrow> n) ps = Inr m" "n' = Dir (AList.update p m es)"
    using "2.prems" by (auto elim: rbind_InrE)
  have "lookup m ps = Some (Dir [])"
  proof (cases "map_of es p")
    case None
    then show ?thesis using "2.IH" [OF m(1)] m(1) by (cases ps) auto
  next
    case (Some n)
    then show ?thesis using "2.IH" [OF m(1)] "2.prems"(2) by simp
  qed
  then show ?case by (simp add: m(2) map_of_AList_update)
qed simp_all

end
