(* ===== verification/Snapshot_Restore.thy ===== *)
theory Snapshot_Restore
  imports File_System Execution_Policy
begin

text \<open>
  Restoring an archive of application data (\<^verbatim>\<open>src/src/xian/snapshot_restore.py\<close>).  The archive is
  unpacked into a private directory, the node's identity files are copied there, and the two
  application directories are exchanged with a way back.  Every operation on the disk may fail.
  \<open>home\<close> is the resolved path of the node's directory.  Parameters: \<^verbatim>\<open>tomllib\<close>, \<^verbatim>\<open>json.loads\<close>, what LMDB reads from a
  directory, and the folding of names on file systems that ignore case.
\<close>

record restore_env =
  re_load_toml :: "string \<Rightarrow> pyval res"
  re_loads :: "string \<Rightarrow> pyval res"
  re_store :: "node option \<Rightarrow> lmdb"
  re_fold :: "string \<Rightarrow> string"

definition ROOTS :: "string list" where "ROOTS = [''data'', ''xian'']"

definition IDENTITY_PATHS :: "(string, string) dict" where
  "IDENTITY_PATHS =
     [(''priv_validator_state_file'', ''data/priv_validator_state.json''),
      (''priv_validator_key_file'', ''config/priv_validator_key.json''),
      (''node_key_file'', ''config/node_key.json'')]"

definition WORK_PREFIX :: string where "WORK_PREFIX = ''.snapshot-restore-''"

section \<open>Identity paths\<close>

definition check_plain_path :: "node \<Rightarrow> path \<Rightarrow> path \<Rightarrow> unit res" where
  "check_plain_path n home relative =
     guard (list_all (\<lambda>k. \<not> link_at n (home @ take k relative)) [1..<Suc (length relative)])
       (ValueError ''snapshot restore does not replace symlinked local paths'')"

text \<open>The nearest parent that is the home directory, and the rest of the path.\<close>

definition home_relative_path :: "node \<Rightarrow> path \<Rightarrow> path \<Rightarrow> path option" where
  "home_relative_path n home p =
     (case filter (\<lambda>k. same_file n (take k p) home) (rev [0..<length p]) of
        [] \<Rightarrow> None
      | k # _ \<Rightarrow> Some (drop k p))"

definition application_root :: "node \<Rightarrow> path \<Rightarrow> string \<Rightarrow> string option" where
  "application_root n home name =
     (if name \<in> set ROOTS then Some name
      else find (\<lambda>r. same_file n (home @ [name]) (home @ [r])) ROOTS)"

definition check_local_identity_path :: "node \<Rightarrow> path \<Rightarrow> path \<Rightarrow> unit res" where
  "check_local_identity_path n home p =
     (case home_relative_path n home p of
        None \<Rightarrow> Inr ()
      | Some relative \<Rightarrow>
          if relative \<noteq> [] \<and> application_root n home (hd relative) \<noteq> None
          then check_plain_path n home relative else Inr ())"

text \<open>The parts of a path one after the other; a link starts again from its target.\<close>

function resolve_identity_path :: "node \<Rightarrow> path \<Rightarrow> nat \<Rightarrow> path \<Rightarrow> path \<Rightarrow> path res" where
  "resolve_identity_path n home hops current [] = Inr current"
| "resolve_identity_path n home hops current (part # rest) =
     (if part = ''..'' then resolve_identity_path n home hops (butlast current) rest
      else case lookup n (current @ [part]) of
             Some (Link t) \<Rightarrow>
               rbind (check_local_identity_path n home (current @ [part])) (\<lambda>_.
               if 40 < Suc hops then Inl (ValueError ''too many identity path symlinks'')
               else resolve_identity_path n home (Suc hops) [] (join_path current t @ rest))
           | _ \<Rightarrow> resolve_identity_path n home hops (current @ [part]) rest)"
  by pat_completeness auto
termination
  by (relation "inv_image (measure (\<lambda>hops. 41 - hops) <*lex*> measure length) (\<lambda>(n, home, hops, current, rest). (hops, rest))") auto

definition protected_relative_path :: "node \<Rightarrow> path \<Rightarrow> string \<Rightarrow> path option res" where
  "protected_relative_path n home value =
     rbind (resolve_identity_path n home 0 [] (join_path home value)) (\<lambda>p.
     rbind (guard (\<not> is_dir_path n p) (ValueError ''configured identity path must be a file'')) (\<lambda>_.
     case home_relative_path n home p of
       None \<Rightarrow> Inr None
     | Some relative \<Rightarrow>
         (case application_root n home (hd relative) of
            None \<Rightarrow> Inr None
          | Some r \<Rightarrow>
              rbind (check_plain_path n home relative) (\<lambda>_.
              if length relative = 1 then Inl (ValueError ''configured identity path must be a file'')
              else Inr (Some (r # tl relative))))))"

definition config_of :: "restore_env \<Rightarrow> node \<Rightarrow> path \<Rightarrow> pyval res" where
  "config_of E n home =
     (case realpath n (home @ [''config'', ''config.toml'']) of
        None \<Rightarrow> Inr (PDict [])
      | Some p \<Rightarrow> (case file_at n p of None \<Rightarrow> Inl os_error | Some content \<Rightarrow> re_load_toml E content))"

definition configured_paths :: "pyval \<Rightarrow> string list res" where
  "configured_paths config =
     mapR (\<lambda>(key, alt). case dget_or config key (PStr alt) of
             PStr value \<Rightarrow> Inr value | _ \<Rightarrow> Inl (TypeError ''unsupported path operand'')) IDENTITY_PATHS"

text \<open>The configured paths and the usual ones.\<close>

definition identity_values :: "restore_env \<Rightarrow> node \<Rightarrow> path \<Rightarrow> string list res" where
  "identity_values E n home =
     rbind (config_of E n home) (\<lambda>config.
     rbind (configured_paths config) (\<lambda>configured. Inr (remdups (configured @ map snd IDENTITY_PATHS))))"

definition protected_paths :: "restore_env \<Rightarrow> node \<Rightarrow> path \<Rightarrow> path list res" where
  "protected_paths E n home =
     rbind (identity_values E n home) (\<lambda>values.
     rbind (mapR (protected_relative_path n home) values) (\<lambda>ps. Inr (remdups (List.map_filter id ps))))"

section \<open>The archive\<close>

datatype member_kind = RegularFile string | Directory | OtherMember

record tar_member =
  tm_name :: string
  tm_kind :: member_kind

definition is_file_member :: "tar_member \<Rightarrow> bool" where
  "is_file_member m = (case tm_kind m of RegularFile _ \<Rightarrow> True | _ \<Rightarrow> False)"

definition is_dir_member :: "tar_member \<Rightarrow> bool" where
  "is_dir_member m = (case tm_kind m of Directory \<Rightarrow> True | _ \<Rightarrow> False)"

definition path_key :: "restore_env \<Rightarrow> path \<Rightarrow> string" where
  "path_key E p = re_fold E (as_posix p)"

definition member_path :: "tar_member \<Rightarrow> path res" where
  "member_path m =
     (let p = path_parts (tm_name m) in
      if is_absolute (tm_name m) \<or> ''..'' \<in> set p \<or> CHR 0x5C \<in> set (tm_name m)
      then Inl (ValueError ''snapshot archive contains invalid path'')
      else if \<not> (is_file_member m \<or> is_dir_member m)
      then Inl (ValueError ''snapshot archive contains unsupported member'')
      else Inr p)"

definition is_protected_member :: "restore_env \<Rightarrow> path \<Rightarrow> tar_member \<Rightarrow> string list \<Rightarrow> bool res" where
  "is_protected_member E p m protected_names =
     (let key = path_key E p in
      if key \<in> set protected_names then
        (if is_dir_member m then Inl (ValueError ''snapshot directory conflicts with local identity'') else Inr True)
      else if list_ex (\<lambda>local_key. prefix (local_key @ ''/'') key) protected_names
      then Inl (ValueError ''snapshot path is inside a local identity file'')
      else if list_ex (\<lambda>local_key. prefix (key @ ''/'') local_key \<and> \<not> is_dir_member m) protected_names
      then Inl (ValueError ''snapshot file conflicts with local identity directory'')
      else Inr False)"

definition new_member :: "restore_env \<Rightarrow> path \<Rightarrow> tar_member \<Rightarrow> (string, tar_member) dict \<Rightarrow>
    (bool \<times> (string, tar_member) dict) res" where
  "new_member E p m seen =
     (let key = path_key E p in
      case map_of seen key of
        Some earlier \<Rightarrow>
          if is_dir_member m \<and> is_dir_member earlier then Inr (False, seen)
          else Inl (ValueError ''snapshot archive contains duplicate path'')
      | None \<Rightarrow> Inr (True, AList.update key m seen))"

fun select_members :: "restore_env \<Rightarrow> string list \<Rightarrow> tar_member list \<Rightarrow> (string, tar_member) dict \<Rightarrow>
    (tar_member \<times> path) list \<Rightarrow> (tar_member \<times> path) list res" where
  "select_members E protected_names [] seen selected = Inr selected"
| "select_members E protected_names (m # ms) seen selected =
     rbind (member_path m) (\<lambda>p.
     if p = [] \<or> hd p \<notin> set ROOTS then select_members E protected_names ms seen selected
     else if length p = 1 \<and> \<not> is_dir_member m
     then Inl (ValueError ''snapshot application root must be a directory'')
     else rbind (is_protected_member E p m protected_names) (\<lambda>skip.
          if skip then select_members E protected_names ms seen selected
          else rbind (new_member E p m seen) (\<lambda>(fresh, seen').
               select_members E protected_names ms seen' (if fresh then selected @ [(m, p)] else selected))))"

definition application_members :: "restore_env \<Rightarrow> path list \<Rightarrow> tar_member list \<Rightarrow> (tar_member \<times> path) list res" where
  "application_members E protected_list members =
     rbind (select_members E (map (path_key E) protected_list) members [] []) (\<lambda>selected.
     if list_ex (\<lambda>(m, _). is_file_member m) selected then Inr selected
     else Inl (ValueError ''snapshot archive contains no application data''))"

section \<open>Unpacking and publishing\<close>

definition extract_member :: "faults \<Rightarrow> path \<Rightarrow> tar_member \<times> path \<Rightarrow> (disk, unit) step" where
  "extract_member faults staged selected =
     (case selected of (m, relative) \<Rightarrow>
        (case tm_kind m of
           RegularFile content \<Rightarrow>
             sbind (fs_op faults (\<lambda>n. mkdirs n (butlast (staged @ relative)))) (\<lambda>_.
             fs_op faults (create_file (staged @ relative) content))
         | _ \<Rightarrow> fs_op faults (\<lambda>n. mkdirs n (staged @ relative))))"

text \<open>\<open>archive\<close> is None when the file cannot be read as an archive.\<close>

definition extract_application_data ::
    "restore_env \<Rightarrow> faults \<Rightarrow> tar_member list option \<Rightarrow> path \<Rightarrow> path list \<Rightarrow> (disk, unit) step" where
  "extract_application_data E faults archive staged protected_list =
     (case archive of
        None \<Rightarrow> slift (Inl (OtherError ''ReadError''))
      | Some members \<Rightarrow>
          sbind (slift (application_members E protected_list members)) (\<lambda>selected.
          sbind (smap (extract_member faults staged) selected) (\<lambda>_. sret ())))"

definition preserve_file :: "faults \<Rightarrow> path \<Rightarrow> path \<Rightarrow> path \<Rightarrow> (disk, unit) step" where
  "preserve_file faults home staged relative d =
     (if path_exists (dk_tree d) (home @ relative)
      then sbind (fs_op faults (\<lambda>n. mkdirs n (butlast (staged @ relative)))) (\<lambda>_.
           fs_op faults (copy_file (home @ relative) (staged @ relative))) d
      else (Inr (), d))"

definition preserve_identity :: "faults \<Rightarrow> path \<Rightarrow> path \<Rightarrow> path list \<Rightarrow> (disk, unit) step" where
  "preserve_identity faults home staged protected_list =
     sbind (smap (preserve_file faults home staged) protected_list) (\<lambda>_. sret ())"

definition rollback_root :: "faults \<Rightarrow> path \<Rightarrow> path \<Rightarrow> string list \<Rightarrow> string \<Rightarrow> (disk, unit) step" where
  "rollback_root faults home backup published name =
     sbind (if name \<in> set published then rmtree faults (home @ [name]) else sret ()) (\<lambda>_ d.
     if path_exists (dk_tree d) (backup @ [name]) then fs_op faults (rename (backup @ [name]) (home @ [name])) d
     else (Inr (), d))"

definition rollback_publication :: "faults \<Rightarrow> path \<Rightarrow> path \<Rightarrow> string list \<Rightarrow> (disk, unit) step" where
  "rollback_publication faults home backup published =
     sbind (smap (rollback_root faults home backup published) (rev ROOTS)) (\<lambda>_. sret ())"

definition publish_root :: "faults \<Rightarrow> path \<Rightarrow> path \<Rightarrow> path \<Rightarrow> string \<Rightarrow> (disk, unit) step" where
  "publish_root faults home staged backup name =
     sbind (\<lambda>d. if path_exists (dk_tree d) (home @ [name])
                then fs_op faults (rename (home @ [name]) (backup @ [name])) d else (Inr (), d)) (\<lambda>_.
     fs_op faults (rename (staged @ [name]) (home @ [name])))"

text \<open>The names published so far come back with an exception too: the handler needs them.\<close>

fun publish_roots :: "faults \<Rightarrow> path \<Rightarrow> path \<Rightarrow> path \<Rightarrow> string list \<Rightarrow> string list \<Rightarrow> disk \<Rightarrow> (unit res \<times> string list) \<times> disk" where
  "publish_roots faults home staged backup [] published d = ((Inr (), published), d)"
| "publish_roots faults home staged backup (name # names) published d =
     (case publish_root faults home staged backup name d of
        (Inl e, d') \<Rightarrow> ((Inl e, published), d')
      | (Inr _, d') \<Rightarrow> publish_roots faults home staged backup names (published @ [name]) d')"

definition rollback_failed :: exc where
  "rollback_failed = RuntimeError ''snapshot rollback failed; recover original data from backup''"

definition publish :: "faults \<Rightarrow> path \<Rightarrow> path \<Rightarrow> path \<Rightarrow> (disk, unit) step" where
  "publish faults home staged backup d =
     (case publish_roots faults home staged backup ROOTS [] d of
        ((Inr _, _), d') \<Rightarrow> (Inr (), d')
      | ((Inl e, published), d') \<Rightarrow>
          (case rollback_publication faults home backup published d' of
             (Inl _, d'') \<Rightarrow> (Inl rollback_failed, d'')
           | (Inr _, d'') \<Rightarrow> (Inl e, d'')))"

section \<open>Restoring\<close>

definition check_home :: "node \<Rightarrow> path \<Rightarrow> unit res" where
  "check_home n home =
     rbind (guard (list_all (\<lambda>previous. entries_at n (home @ [previous, ''backup'']) = [])
                     (filter (prefix WORK_PREFIX) (entries_at n home)))
              (ValueError ''incomplete snapshot restore requires recovery'')) (\<lambda>_.
     rbind (mapR (\<lambda>name.
              rbind (check_plain_path n home [name]) (\<lambda>_.
              guard (lookup n (home @ [name]) = None \<or> dir_at n (home @ [name]))
                (ValueError ''snapshot application root must be a directory''))) ROOTS) (\<lambda>_. Inr ()))"

definition validate_store :: "restore_env \<Rightarrow> path \<Rightarrow> node \<Rightarrow> bool res" where
  "validate_store E storage_home n = validate_persisted_execution_policy (re_loads E) (re_store E (lookup n storage_home))"

definition make_new_dir :: "path \<Rightarrow> node \<Rightarrow> node res" where
  "make_new_dir p n = (if lookup n p \<noteq> None then Inl (OtherError ''FileExistsError'') else mkdirs n p)"

definition prepare_workspace :: "faults \<Rightarrow> path \<Rightarrow> (disk, unit) step" where
  "prepare_workspace faults work =
     sbind (fs_op faults (make_new_dir work)) (\<lambda>_.
     sbind (fs_op faults (make_new_dir (work @ [''backup'']))) (\<lambda>_.
     sbind (smap (\<lambda>name. fs_op faults (\<lambda>n. mkdirs n (work @ [''staged'', name]))) ROOTS) (\<lambda>_. sret ())))"

definition replace_data ::
    "restore_env \<Rightarrow> faults \<Rightarrow> tar_member list option \<Rightarrow> path \<Rightarrow> path \<Rightarrow> path list \<Rightarrow> (disk, unit) step" where
  "replace_data E faults archive home work protected_list =
     sbind (extract_application_data E faults archive (work @ [''staged'']) protected_list) (\<lambda>_.
     sbind (\<lambda>d. (rbind (validate_store E (work @ [''staged'', ''xian'']) (dk_tree d)) (\<lambda>present.
                 guard present (ValueError ''snapshot is missing its execution policy'')), d)) (\<lambda>_.
     sbind (preserve_identity faults home (work @ [''staged'']) protected_list) (\<lambda>_.
     publish faults home (work @ [''staged'']) (work @ [''backup'']))))"

text \<open>\<open>suffix_text\<close> is what \<^verbatim>\<open>mkdtemp\<close> appends to the prefix.\<close>

definition restore_archive_at ::
    "restore_env \<Rightarrow> faults \<Rightarrow> string \<Rightarrow> tar_member list option \<Rightarrow> path \<Rightarrow> (disk, unit) step" where
  "restore_archive_at E faults suffix_text archive home =
     (let work = home @ [WORK_PREFIX @ suffix_text] in
      sbind (\<lambda>d. (rbind (check_home (dk_tree d) home) (\<lambda>_. rbind (validate_store E (home @ [''xian'']) (dk_tree d)) (\<lambda>_.
                  protected_paths E (dk_tree d) home)), d)) (\<lambda>protected_list.
      sbind (prepare_workspace faults work) (\<lambda>_.
      sbind (catch (replace_data E faults archive home work protected_list)
               (\<lambda>e d. if entries_at (dk_tree d) (work @ [''backup'']) = []
                      then sbind (rmtree faults work) (\<lambda>_. slift (Inl e)) d else (Inl e, d))) (\<lambda>_.
      rmtree faults work))))"

definition LOCK_NAME :: string where "LOCK_NAME = ''.snapshot-restore.lock''"

definition open_lock :: "path \<Rightarrow> node \<Rightarrow> node res" where
  "open_lock home n =
     (case lookup n (home @ [LOCK_NAME]) of
        None \<Rightarrow> if dir_at n home then Inr (put n (home @ [LOCK_NAME]) (File [])) else Inl (FileNotFoundError ''lock'')
      | Some (Dir _) \<Rightarrow> Inl os_error
      | Some _ \<Rightarrow> Inr n)"

text \<open>\<open>busy\<close>: another process holds the lock.\<close>

definition restore_application_archive ::
    "restore_env \<Rightarrow> faults \<Rightarrow> bool \<Rightarrow> string \<Rightarrow> tar_member list option \<Rightarrow> path \<Rightarrow> (disk, unit) step" where
  "restore_application_archive E faults busy suffix_text archive home =
     sbind (fs_op faults (open_lock home)) (\<lambda>_.
     if busy then slift (Inl (ValueError ''another snapshot restore is already running''))
     else restore_archive_at E faults suffix_text archive home)"

end
