(* ===== verification/Restore_Safety.thy ===== *)
theory Restore_Safety
  imports Snapshot_Restore
begin

text \<open>
  Safety of a restore under failures of the disk: what an operation changes of the tree, the
  exchange of the application directories and the way back, the contents of the private directory,
  and the places of the identity files.
\<close>

section \<open>Where a tree changes\<close>

text \<open>Nothing changes but what lies below one of the given paths; what leads there stays a directory.\<close>

definition only_at :: "path set \<Rightarrow> node \<Rightarrow> node \<Rightarrow> bool" where
  "only_at S n n' \<longleftrightarrow>
     (\<forall>q. (\<forall>p \<in> S. \<not> prefix p q \<and> \<not> prefix q p) \<longrightarrow> lookup n' q = lookup n q) \<and>
     (\<forall>q. (\<forall>p \<in> S. \<not> prefix p q) \<longrightarrow> dir_at n q \<longrightarrow> dir_at n' q)"

lemma only_atD: "only_at S n n' \<Longrightarrow> (\<And>p. p \<in> S \<Longrightarrow> \<not> prefix p q \<and> \<not> prefix q p) \<Longrightarrow> lookup n' q = lookup n q"
  by (auto simp: only_at_def)

lemma only_at_dir: "only_at S n n' \<Longrightarrow> dir_at n q \<Longrightarrow> (\<And>p. p \<in> S \<Longrightarrow> \<not> prefix p q) \<Longrightarrow> dir_at n' q"
  by (auto simp: only_at_def)

lemma only_at_refl [simp]: "only_at S n n"
  by (simp add: only_at_def)

lemma only_at_trans: "only_at S n n1 \<Longrightarrow> only_at S n1 n2 \<Longrightarrow> only_at S n n2"
  by (simp add: only_at_def)

lemma only_at_mono: "only_at S n n' \<Longrightarrow> (\<And>p. p \<in> S \<Longrightarrow> \<exists>p' \<in> T. prefix p' p) \<Longrightarrow> only_at T n n'"
  unfolding only_at_def by (meson prefix_order.trans prefix_same_cases)

lemma only_at_put: "s \<in> S \<Longrightarrow> prefix s p \<Longrightarrow> only_at S n (put n p x)"
  unfolding only_at_def dir_at_def
  by (intro conjI allI impI) (meson lookup_put_apart prefix_order.trans prefix_same_cases,
    metis dir_put_above lookup_put_apart dir_at_def prefix_order.trans prefix_order.le_less)

lemma only_at_remove: "s \<in> S \<Longrightarrow> prefix s p \<Longrightarrow> only_at S n (remove n p)"
  unfolding only_at_def dir_at_def
  by (intro conjI allI impI) (meson lookup_remove_apart prefix_order.trans prefix_same_cases,
    metis dir_remove_above lookup_remove_apart dir_at_def prefix_order.trans prefix_order.le_less)

lemma only_at_mkdirs: "s \<in> S \<Longrightarrow> prefix s p \<Longrightarrow> mkdirs n p = Inr n' \<Longrightarrow> only_at S n n'"
  unfolding only_at_def by (meson mkdirs_apart mkdirs_dir prefix_same_cases)

lemma only_at_create_file: "s \<in> S \<Longrightarrow> prefix s p \<Longrightarrow> create_file p c n = Inr n' \<Longrightarrow> only_at S n n'"
  by (auto simp: create_file_def only_at_put split: if_splits)

lemma only_at_copy_file: "s \<in> S \<Longrightarrow> prefix s p \<Longrightarrow> copy_file source p n = Inr n' \<Longrightarrow> only_at S n n'"
  by (auto simp: copy_file_def Let_def only_at_put split: if_splits option.splits)

lemma only_at_make_new_dir: "s \<in> S \<Longrightarrow> prefix s p \<Longrightarrow> make_new_dir p n = Inr n' \<Longrightarrow> only_at S n n'"
  by (auto simp: make_new_dir_def intro: only_at_mkdirs split: if_splits)

abbreviation unchanged_but :: "path set \<Rightarrow> node \<Rightarrow> disk \<Rightarrow> bool" where
  "unchanged_but S n d \<equiv> only_at S n (dk_tree d)"

lemma unchanged_fs_op:
  "(\<And>t t'. f t = Inr t' \<Longrightarrow> only_at S t t') \<Longrightarrow> maintains (unchanged_but S n) (fs_op faults f)"
  unfolding maintains_def
  by (auto simp: fs_op_def Let_def intro: only_at_trans split: option.split sum.split)

lemma unchanged_rmtree: "s \<in> S \<Longrightarrow> prefix s p \<Longrightarrow> maintains (unchanged_but S n) (rmtree faults p)"
  unfolding maintains_def
  by (auto simp: rmtree_def Let_def intro: only_at_trans only_at_put only_at_remove split: option.split)

text \<open>A rename between paths of which none contains the other.\<close>

lemma rename_result:
  assumes "rename s t n = Inr n'" "s \<noteq> []" "t \<noteq> []" "\<not> prefix t s"
  obtains x where "lookup n s = Some x" "\<And>q. lookup n' (t @ q) = lookup x q" "\<And>q. lookup n' (s @ q) = None"
    "only_at {s, t} n n'"
proof -
  obtain x where x: "lookup n s = Some x" "n' = put (remove n s) t x" and ok: "dir_at n (butlast t)" "\<not> prefix s t"
    using assms(1) by (auto simp: rename_def split: option.splits if_splits)
  have dir: "dir_at (remove n s) (butlast t)"
  proof (cases "prefix (butlast t) s")
    case True
    moreover have "butlast t \<noteq> s" using ok(2) assms(3) by (metis append_butlast_last_id prefixI)
    ultimately show ?thesis using ok(1) by (auto intro: dir_remove_above)
  next
    case False
    moreover have "\<not> prefix s (butlast t)" using ok(2) by (metis prefix_order.trans prefixeq_butlast)
    ultimately show ?thesis using ok(1) by (simp add: dir_at_def lookup_remove_apart)
  qed
  have "lookup n' (t @ q) = lookup x q" for q using dir by (simp add: x(2) lookup_put_below)
  moreover have "lookup n' (s @ q) = None" for q
  proof -
    have "\<not> prefix t (s @ q)" "\<not> prefix (s @ q) t"
      using assms(4) ok(2) by (metis prefix_same_cases prefixI, metis append_prefixD)
    then show ?thesis using assms(2) by (simp add: x(2) lookup_put_apart lookup_remove_below)
  qed
  moreover have "only_at {s, t} n n'"
    unfolding x(2) by (rule only_at_trans [of _ _ "remove n s"]) (auto intro: only_at_put only_at_remove)
  ultimately show thesis using x(1) that by blast
qed

section \<open>Unpacking stays in the private directory\<close>

lemma extract_member_unchanged:
  assumes "relative \<noteq> []"
  shows "maintains (unchanged_but {staged} n) (extract_member faults staged (m, relative))"
proof -
  have "prefix staged (butlast (staged @ relative))" using assms by (simp add: butlast_append)
  then have "maintains (unchanged_but {staged} n) (fs_op faults (\<lambda>n. mkdirs n (butlast (staged @ relative))))"
    by (intro unchanged_fs_op only_at_mkdirs) auto
  moreover have "maintains (unchanged_but {staged} n) (fs_op faults (\<lambda>n. mkdirs n (staged @ relative)))"
    by (intro unchanged_fs_op only_at_mkdirs) auto
  moreover have "maintains (unchanged_but {staged} n) (fs_op faults (create_file (staged @ relative) c))" for c
    by (intro unchanged_fs_op, rule only_at_create_file) auto
  ultimately show ?thesis
    by (auto simp: extract_member_def maintains_sbind split: member_kind.split)
qed

lemma select_members_paths:
  assumes "select_members E names ms seen selected = Inr result"
    and "\<forall>(m, p) \<in> set selected. p \<noteq> [] \<and> hd p \<in> set ROOTS \<and> is_protected_member E p m names = Inr False"
  shows "\<forall>(m, p) \<in> set result. p \<noteq> [] \<and> hd p \<in> set ROOTS \<and> is_protected_member E p m names = Inr False"
  using assms
proof (induction E names ms seen selected rule: select_members.induct)
  case (2 E names m ms seen selected)
  obtain p where p: "member_path m = Inr p" using "2.prems"(1) by (simp only: select_members.simps) (erule rbind_InrE)
  show ?case
  proof (cases "p = [] \<or> hd p \<notin> set ROOTS")
    case True
    then have "select_members E names ms seen selected = Inr result" using "2.prems"(1) p by simp
    then show ?thesis by (rule "2.IH"(1) [OF p True]) (rule "2.prems"(2))
  next
    case root: False
    then have "\<not> (length p = 1 \<and> \<not> is_dir_member m)" using "2.prems"(1) p by (auto split: if_splits)
    with root p "2.prems"(1) have *: "rbind (is_protected_member E p m names) (\<lambda>skip.
        if skip then select_members E names ms seen selected
        else rbind (new_member E p m seen) (\<lambda>(fresh, seen').
             select_members E names ms seen' (if fresh then selected @ [(m, p)] else selected))) = Inr result"
      by (simp only: select_members.simps rbind_simps if_False)
    then obtain skip where skip: "is_protected_member E p m names = Inr skip" by (auto elim: rbind_InrE)
    show ?thesis
    proof (cases skip)
      case True
      then have "select_members E names ms seen selected = Inr result" using * skip by simp
      then show ?thesis by (rule "2.IH"(2) [OF p root \<open>\<not> (length p = 1 \<and> \<not> is_dir_member m)\<close> skip True]) (rule "2.prems"(2))
    next
      case False
      then obtain fresh seen' where new: "new_member E p m seen = Inr (fresh, seen')"
        and rest: "select_members E names ms seen' (if fresh then selected @ [(m, p)] else selected) = Inr result"
        using * skip by (auto elim!: rbind_InrE)
      show ?thesis
        by (rule "2.IH"(3) [OF p root \<open>\<not> (length p = 1 \<and> \<not> is_dir_member m)\<close> skip False new refl rest])
          (use "2.prems"(2) root skip False in auto)
    qed
  qed
qed simp

lemma application_members_paths:
  assumes "application_members E protected_list members = Inr selected" "(m, p) \<in> set selected"
  shows "p \<noteq> [] \<and> hd p \<in> set ROOTS \<and> is_protected_member E p m (map (path_key E) protected_list) = Inr False"
proof -
  have "select_members E (map (path_key E) protected_list) members [] [] = Inr selected"
    using assms(1) by (auto simp: application_members_def elim!: rbind_InrE split: if_splits)
  from select_members_paths [OF this] assms(2) show ?thesis by auto
qed

lemma extract_unchanged: "maintains (unchanged_but {staged} n) (extract_application_data E faults archive staged protected_list)"
proof (cases archive)
  case (Some members)
  show ?thesis
    unfolding extract_application_data_def Some option.case
  proof (rule maintains_sbind_slift)
    fix selected assume sel: "application_members E protected_list members = Inr selected"
    have "maintains (unchanged_but {staged} n) (extract_member faults staged x)" if "x \<in> set selected" for x
      using application_members_paths [OF sel, of "fst x" "snd x"] that extract_member_unchanged [of "snd x" staged n faults "fst x"]
      by simp
    then show "maintains (unchanged_but {staged} n) (sbind (smap (extract_member faults staged) selected) (\<lambda>_. sret ()))"
      by (intro maintains_rules) auto
  qed
qed (simp add: extract_application_data_def maintains_rules)

lemma preserve_unchanged:
  assumes "\<forall>p \<in> set protected_list. p \<noteq> []"
  shows "maintains (unchanged_but {staged} n) (preserve_identity faults home staged protected_list)"
proof -
  have "maintains (unchanged_but {staged} n) (preserve_file faults home staged relative)" if "relative \<noteq> []" for relative
  proof -
    have "prefix staged (butlast (staged @ relative))" using that by (simp add: butlast_append)
    then have "maintains (unchanged_but {staged} n) (fs_op faults (\<lambda>n. mkdirs n (butlast (staged @ relative))))"
      by (intro unchanged_fs_op only_at_mkdirs) auto
    moreover have "maintains (unchanged_but {staged} n) (fs_op faults (copy_file (home @ relative) (staged @ relative)))"
      by (intro unchanged_fs_op, rule only_at_copy_file [where s = staged]) auto
    ultimately have "maintains (unchanged_but {staged} n) (sbind (fs_op faults (\<lambda>n. mkdirs n (butlast (staged @ relative))))
        (\<lambda>_. fs_op faults (copy_file (home @ relative) (staged @ relative))))"
      by (rule maintains_sbind)
    then show ?thesis by (auto simp: maintains_def preserve_file_def)
  qed
  then show ?thesis using assms unfolding preserve_identity_def by (intro maintains_rules) auto
qed

section \<open>Publishing and the way back\<close>

text \<open>A directory, its replacement and its backup.\<close>

definition slots :: "path \<Rightarrow> string \<Rightarrow> string \<Rightarrow> node \<Rightarrow> node option \<times> node option \<times> node option" where
  "slots home w name n =
     (lookup n (home @ [name]), lookup n (home @ [w, ''staged'', name]), lookup n (home @ [w, ''backup'', name]))"

definition slot_paths :: "path \<Rightarrow> string \<Rightarrow> string \<Rightarrow> path set" where
  "slot_paths home w name = {home @ [name], home @ [w, ''staged'', name], home @ [w, ''backup'', name]}"

definition workspace_ok :: "path \<Rightarrow> string \<Rightarrow> node \<Rightarrow> bool" where
  "workspace_ok home w n \<longleftrightarrow>
     ''..'' \<notin> set home \<and> dir_at n (home @ [w, ''staged'']) \<and> dir_at n (home @ [w, ''backup''])"

lemma workspace_home: "workspace_ok home w n \<Longrightarrow> dir_at n home \<and> dir_at n (home @ [w])"
  using dir_above [of n home "[w, ''staged'']"] dir_above [of n "home @ [w]" "[''staged'']"]
  by (auto simp: workspace_ok_def dir_at_iff)

lemma plain_home: "''..'' \<notin> set home \<Longrightarrow> dir_at n home \<Longrightarrow> plain n home"
  unfolding plain_def link_at_iff
  by (metis append_Nil2 dir_above dir_at_iff node.distinct(5) option.inject prefixE)

lemma path_exists_below:
  assumes "''..'' \<notin> set home" "dir_at n home" "name \<noteq> ''..''" "\<not> link_at n (home @ [name])"
  shows "path_exists n (home @ [name]) \<longleftrightarrow> lookup n (home @ [name]) \<noteq> None"
  using assms plain_home [of home n] by (simp add: path_exists_def realpath_plain plain_snoc)

lemma workspace_only_at:
  assumes "workspace_ok home w n" "only_at (slot_paths home w name) n n'" "name \<noteq> w"
  shows "workspace_ok home w n'"
  using assms by (auto simp: workspace_ok_def slot_paths_def intro: only_at_dir)

lemma slots_only_at:
  assumes "only_at (slot_paths home w name) n n'" "name' \<noteq> name" "name' \<noteq> w" "name \<noteq> w"
  shows "slots home w name' n' = slots home w name' n"
  using assms by (auto simp: slots_def slot_paths_def intro!: only_atD)

lemma slots_apart:
  "p \<in> slot_paths home w name \<Longrightarrow> q \<in> slot_paths home w name \<Longrightarrow> p \<noteq> q \<Longrightarrow> name \<noteq> w \<Longrightarrow> \<not> prefix p q \<and> \<not> prefix q p"
  by (auto simp: slot_paths_def)

lemma rename_slots:
  assumes "rename (home @ s) (home @ t) n = Inr n'" "home @ s \<in> slot_paths home w name" "home @ t \<in> slot_paths home w name"
    "s \<noteq> t" "name \<noteq> w"
  shows "only_at (slot_paths home w name) n n'" "lookup n' (home @ t) = lookup n (home @ s)" "lookup n' (home @ s) = None"
    "home @ u \<in> slot_paths home w name \<Longrightarrow> u \<noteq> s \<Longrightarrow> u \<noteq> t \<Longrightarrow> lookup n' (home @ u) = lookup n (home @ u)"
proof -
  have st: "\<not> prefix (home @ t) (home @ s)" "\<not> prefix (home @ s) (home @ t)" "home @ s \<noteq> []" "home @ t \<noteq> []"
    using assms(2-5) by (auto simp: slot_paths_def)
  obtain x where x: "lookup n (home @ s) = Some x" "\<And>q. lookup n' ((home @ t) @ q) = lookup x q"
    "\<And>q. lookup n' ((home @ s) @ q) = None" "only_at {home @ s, home @ t} n n'"
    using rename_result [OF assms(1) st(3,4,1)] by blast
  show "only_at (slot_paths home w name) n n'"
    by (rule only_at_mono [OF x(4)]) (use assms(2,3) in blast)
  show "lookup n' (home @ t) = lookup n (home @ s)" "lookup n' (home @ s) = None"
    using x(1) x(2) [of "[]"] x(3) [of "[]"] by simp_all
  show "lookup n' (home @ u) = lookup n (home @ u)" if "home @ u \<in> slot_paths home w name" "u \<noteq> s" "u \<noteq> t"
  proof (rule only_atD [OF x(4)])
    fix p assume "p \<in> {home @ s, home @ t}"
    then have "p \<in> slot_paths home w name" "p \<noteq> home @ u" using that assms(2,3) by auto
    then show "\<not> prefix p (home @ u) \<and> \<not> prefix (home @ u) p" using slots_apart [OF _ that(1) _ assms(5)] by blast
  qed
qed

text \<open>One directory: nothing happens, or it is moved to the backup, or it is replaced as well.\<close>

lemma move_slot:
  assumes "fs_op faults (rename (home @ s) (home @ t)) d = (r, d')"
    and "home @ s \<in> slot_paths home w name" "home @ t \<in> slot_paths home w name" "s \<noteq> t" "name \<noteq> w"
  obtains (kept) e where "r = Inl e" "dk_tree d' = dk_tree d"
  | (moved) "r = Inr ()" "only_at (slot_paths home w name) (dk_tree d) (dk_tree d')"
      "lookup (dk_tree d') (home @ t) = lookup (dk_tree d) (home @ s)" "lookup (dk_tree d') (home @ s) = None"
      "\<And>u. home @ u \<in> slot_paths home w name \<Longrightarrow> u \<noteq> s \<Longrightarrow> u \<noteq> t \<Longrightarrow>
         lookup (dk_tree d') (home @ u) = lookup (dk_tree d) (home @ u)"
  using assms(1)
proof (cases rule: fs_op_cases)
  case passed
  show ?thesis using moved rename_slots [OF passed(2) assms(2-5)] passed(1) by blast
qed (use kept in blast)

lemma slot_path_members:
  "home @ [name] \<in> slot_paths home w name" "home @ [w, ''staged'', name] \<in> slot_paths home w name"
  "home @ [w, ''backup'', name] \<in> slot_paths home w name"
  by (simp_all add: slot_paths_def)

lemma publish_root_slots:
  assumes "publish_root faults home (home @ [w, ''staged'']) (home @ [w, ''backup'']) name d = (r, d')"
    and "workspace_ok home w (dk_tree d)" "name \<noteq> w" "name \<noteq> ''..''"
    and slots: "slots home w name (dk_tree d) = (original, Some new, None)" and "\<not> link_at (dk_tree d) (home @ [name])"
  shows "only_at (slot_paths home w name) (dk_tree d) (dk_tree d') \<and>
    (case r of Inr _ \<Rightarrow> slots home w name (dk_tree d') = (Some new, None, original)
     | Inl _ \<Rightarrow> slots home w name (dk_tree d') = (original, Some new, None) \<or>
         original \<noteq> None \<and> slots home w name (dk_tree d') = (None, Some new, original))"
proof -
  let ?set_aside = "\<lambda>d. if path_exists (dk_tree d) (home @ [name])
      then fs_op faults (rename (home @ [name]) (home @ [w, ''backup'', name])) d else (Inr (), d)"
  let ?move_in = "fs_op faults (rename (home @ [w, ''staged'', name]) (home @ [name]))"
  have pe: "path_exists (dk_tree d) (home @ [name]) \<longleftrightarrow> original \<noteq> None"
    using assms workspace_home [OF assms(2)] by (simp add: path_exists_below workspace_ok_def slots_def)
  obtain r1 d1 where 1: "?set_aside d = (r1, d1)" by (cases "?set_aside d")
  have result: "(r, d') = (case r1 of Inl e \<Rightarrow> (Inl e, d1) | Inr _ \<Rightarrow> ?move_in d1)"
    using assms(1) 1 unfolding publish_root_def sbind_def append_assoc append.simps by (simp split: sum.split)
  have aside: "only_at (slot_paths home w name) (dk_tree d) (dk_tree d1)"
    "case r1 of Inl _ \<Rightarrow> dk_tree d1 = dk_tree d | Inr _ \<Rightarrow> slots home w name (dk_tree d1) = (None, Some new, original)"
  proof -
    have "only_at (slot_paths home w name) (dk_tree d) (dk_tree d1) \<and>
      (case r1 of Inl _ \<Rightarrow> dk_tree d1 = dk_tree d | Inr _ \<Rightarrow> slots home w name (dk_tree d1) = (None, Some new, original))"
    proof (cases "original = None")
      case True
      then show ?thesis using 1 pe slots by (auto simp: slots_def split: if_splits)
    next
      case False
      then have "fs_op faults (rename (home @ [name]) (home @ [w, ''backup'', name])) d = (r1, d1)" using 1 pe by simp
      then show ?thesis
      proof (cases rule: move_slot [where w = w and name = name, case_names mem1 mem2 ne w kept moved])
        case moved
        then show ?thesis using slots moved(5) [of "[w, ''staged'', name]"] assms(3)
          by (auto simp: slots_def slot_path_members)
      qed (use assms(3) in \<open>auto simp: slot_path_members\<close>)
    qed
    then show "only_at (slot_paths home w name) (dk_tree d) (dk_tree d1)"
      "case r1 of Inl _ \<Rightarrow> dk_tree d1 = dk_tree d | Inr _ \<Rightarrow> slots home w name (dk_tree d1) = (None, Some new, original)"
      by auto
  qed
  show ?thesis
  proof (cases r1)
    case (Inl e)
    then show ?thesis using result aside slots by simp
  next
    case (Inr u)
    then have "?move_in d1 = (r, d')" using result by simp
    then show ?thesis
    proof (cases rule: move_slot [where w = w and name = name, case_names mem1 mem2 ne w kept moved])
      case (kept e)
      then show ?thesis using aside Inr by (cases original) auto
    next
      case moved
      then show ?thesis using aside Inr moved(5) [of "[w, ''backup'', name]"] assms(3)
        by (auto simp: slots_def slot_path_members intro: only_at_trans)
    qed (use assms(3) in \<open>auto simp: slot_path_members\<close>)
  qed
qed

text \<open>
  Operations fail only when the disk does: from the time on at which it is calm, a move between
  places that are ready succeeds.
\<close>

definition calm :: "faults \<Rightarrow> nat \<Rightarrow> bool" where
  "calm faults t \<longleftrightarrow> (\<forall>i \<ge> t. faults i = None)"

definition single_fault :: "faults \<Rightarrow> bool" where
  "single_fault faults \<longleftrightarrow> (\<forall>i j. faults i \<noteq> None \<longrightarrow> faults j \<noteq> None \<longrightarrow> i = j)"

lemma calm_later: "calm faults t \<Longrightarrow> t \<le> t' \<Longrightarrow> calm faults t'"
  by (auto simp: calm_def)

lemma single_fault_calm: "single_fault faults \<Longrightarrow> i < t \<Longrightarrow> faults i \<noteq> None \<Longrightarrow> calm faults t"
  unfolding single_fault_def calm_def by (metis leD not_None_eq)

lemma move_succeeds:
  assumes "fs_op faults (rename s t) d = (r, d')" "lookup (dk_tree d) s \<noteq> None" "lookup (dk_tree d) t = None"
    "dir_at (dk_tree d) (butlast t)" "\<not> prefix s t"
  shows "dk_clock d' = Suc (dk_clock d) \<and> (is_ok r \<or> faults (dk_clock d) \<noteq> None)"
  using assms by (auto simp: fs_op_def Let_def rename_def split: option.splits)

lemma publish_root_fault:
  assumes run: "publish_root faults home (home @ [w, ''staged'']) (home @ [w, ''backup'']) name d = (r, d')"
    and ws: "workspace_ok home w (dk_tree d)" and names: "name \<noteq> w" "name \<noteq> ''..''"
    and slots: "slots home w name (dk_tree d) = (original, Some new, None)" and link: "\<not> link_at (dk_tree d) (home @ [name])"
  shows "is_ok r \<or> (\<exists>i < dk_clock d'. faults i \<noteq> None)"
proof -
  let ?move_in = "fs_op faults (rename (home @ [w, ''staged'', name]) (home @ [name]))"
  have pe: "path_exists (dk_tree d) (home @ [name]) \<longleftrightarrow> original \<noteq> None"
    using ws names link slots workspace_home [OF ws] by (simp add: path_exists_below workspace_ok_def slots_def)
  have move_in: "is_ok r \<or> (\<exists>i < dk_clock d'. faults i \<noteq> None)"
    if "?move_in d1 = (r, d')" "workspace_ok home w (dk_tree d1)" "slots home w name (dk_tree d1) = (None, Some new, aside)" for d1 aside
  proof -
    have "dk_clock d' = Suc (dk_clock d1) \<and> (is_ok r \<or> faults (dk_clock d1) \<noteq> None)"
      by (rule move_succeeds [OF that(1)]) (use that(3) workspace_home [OF that(2)] names in \<open>auto simp: slots_def\<close>)
    then show ?thesis by (auto intro!: exI [of _ "dk_clock d1"])
  qed
  show ?thesis
  proof (cases "original = None")
    case True
    then have "?move_in d = (r, d')"
      using run pe unfolding publish_root_def sbind_def append_assoc append.simps by simp
    then show ?thesis using move_in ws slots True by blast
  next
    case False
    obtain r1 d1 where 1: "fs_op faults (rename (home @ [name]) (home @ [w, ''backup'', name])) d = (r1, d1)" by fastforce
    have result: "(r, d') = (case r1 of Inl e \<Rightarrow> (Inl e, d1) | Inr _ \<Rightarrow> ?move_in d1)"
      using run pe False 1 unfolding publish_root_def sbind_def append_assoc append.simps by (simp split: sum.split)
    have ok1: "dk_clock d1 = Suc (dk_clock d) \<and> (is_ok r1 \<or> faults (dk_clock d) \<noteq> None)"
      by (rule move_succeeds [OF 1]) (use False slots ws names in \<open>auto simp: slots_def workspace_ok_def butlast_append\<close>)
    from 1 show ?thesis
    proof (cases rule: move_slot [where w = w and name = name, case_names mem1 mem2 ne w kept moved])
      case (kept e)
      then show ?thesis using ok1 result by (auto intro!: exI [of _ "dk_clock d"])
    next
      case moved
      have "slots home w name (dk_tree d1) = (None, Some new, original)"
        using moved(3,4) moved(5) [of "[w, ''staged'', name]"] slots names by (auto simp: slots_def slot_path_members)
      moreover have "workspace_ok home w (dk_tree d1)" using workspace_only_at [OF ws moved(2) names(1)] .
      ultimately show ?thesis using move_in result moved(1) by simp
    qed (use names in \<open>auto simp: slot_path_members\<close>)
  qed
qed

text \<open>The way back for one directory.  Before it, the original is in its place or in the backup; after
  a failure it still is.\<close>

definition no_link :: "node option \<Rightarrow> bool" where
  "no_link x \<longleftrightarrow> (\<forall>t. x \<noteq> Some (Link t))"

definition exchanged :: "path \<Rightarrow> string \<Rightarrow> bool \<Rightarrow> string \<Rightarrow> node option \<Rightarrow> node \<Rightarrow> bool" where
  "exchanged home w published name original n \<longleftrightarrow> no_link original \<and>
     (case slots home w name n of (place, _, aside) \<Rightarrow>
        if published then place \<noteq> None \<and> aside = original
        else (place = original \<and> aside = None) \<or> (place = None \<and> aside = original))"

definition safe :: "path \<Rightarrow> string \<Rightarrow> string \<Rightarrow> node option \<Rightarrow> node \<Rightarrow> bool" where
  "safe home w name original n \<longleftrightarrow>
     original = None \<or> lookup n (home @ [name]) = original \<or> lookup n (home @ [w, ''backup'', name]) = original"

lemma exchanged_safe: "exchanged home w published name original n \<Longrightarrow> safe home w name original n"
  by (auto simp: exchanged_def safe_def slots_def split: if_splits)

lemma remove_published:
  assumes "rmtree faults (home @ [name]) d = (r, d')" "lookup (dk_tree d) (home @ [name]) \<noteq> None" "name \<noteq> w"
  shows "only_at (slot_paths home w name) (dk_tree d) (dk_tree d') \<and>
    lookup (dk_tree d') (home @ [w, ''backup'', name]) = lookup (dk_tree d) (home @ [w, ''backup'', name]) \<and>
    (is_ok r \<longrightarrow> lookup (dk_tree d') (home @ [name]) = None)"
proof -
  have apart: "\<not> prefix (home @ [name]) (home @ [w, ''backup'', name])" "\<not> prefix (home @ [w, ''backup'', name]) (home @ [name])"
    using assms(3) by auto
  show ?thesis
    using assms lookup_remove_below [of "home @ [name]" "dk_tree d" "[]"]
    by (auto simp: rmtree_def Let_def lookup_put_apart [OF apart] lookup_remove_apart [OF apart] slot_path_members
        only_at_put [OF slot_path_members(1)] only_at_remove [OF slot_path_members(1)] split: option.splits)
qed

lemma rollback_root_slots:
  assumes "rollback_root faults home (home @ [w, ''backup'']) published name d = (r, d')"
    and "workspace_ok home w (dk_tree d)" "name \<noteq> w" "name \<noteq> ''..''" "w \<noteq> ''..''"
    and ex: "exchanged home w (name \<in> set published) name original (dk_tree d)"
  shows "only_at (slot_paths home w name) (dk_tree d) (dk_tree d') \<and> safe home w name original (dk_tree d') \<and>
    (is_ok r \<longrightarrow> lookup (dk_tree d') (home @ [name]) = original \<and> lookup (dk_tree d') (home @ [w, ''backup'', name]) = None)"
proof -
  let ?clear = "if name \<in> set published then rmtree faults (home @ [name]) else sret ()"
  let ?undo = "\<lambda>d. if path_exists (dk_tree d) (home @ [w, ''backup'', name])
      then fs_op faults (rename (home @ [w, ''backup'', name]) (home @ [name])) d else (Inr (), d)"
  obtain r1 d1 where 1: "?clear d = (r1, d1)" by (cases "?clear d")
  have result: "(r, d') = (case r1 of Inl e \<Rightarrow> (Inl e, d1) | Inr _ \<Rightarrow> ?undo d1)"
    using assms(1) 1 unfolding rollback_root_def sbind_def append_assoc append.simps by (simp split: sum.split)
  have cleared: "only_at (slot_paths home w name) (dk_tree d) (dk_tree d1) \<and>
    (if is_ok r1 then exchanged home w False name original (dk_tree d1) else safe home w name original (dk_tree d1))"
  proof (cases "name \<in> set published")
    case True
    then have "rmtree faults (home @ [name]) d = (r1, d1)" "lookup (dk_tree d) (home @ [name]) \<noteq> None"
      using 1 ex by (auto simp: exchanged_def slots_def)
    from remove_published [OF this assms(3)] ex True show ?thesis
      by (auto simp: exchanged_def slots_def safe_def)
  next
    case False
    then show ?thesis using 1 ex by (auto simp: sret_def)
  qed
  show ?thesis
  proof (cases r1)
    case (Inl e)
    then show ?thesis using result cleared by simp
  next
    case (Inr u)
    then have undone: "?undo d1 = (r, d')" and ex1: "exchanged home w False name original (dk_tree d1)"
      using result cleared by simp_all
    have ws: "workspace_ok home w (dk_tree d1)" using workspace_only_at [OF assms(2) _ assms(3)] cleared by blast
    have "\<not> link_at (dk_tree d1) ((home @ [w, ''backup'']) @ [name])"
      using ex1 by (auto simp: exchanged_def slots_def no_link_def link_at_iff)
    then have pe: "path_exists (dk_tree d1) (home @ [w, ''backup'', name]) \<longleftrightarrow> lookup (dk_tree d1) (home @ [w, ''backup'', name]) \<noteq> None"
      using path_exists_below [of "home @ [w, ''backup'']" "dk_tree d1" name] ws assms(4,5) by (simp add: workspace_ok_def)
    show ?thesis
    proof (cases "lookup (dk_tree d1) (home @ [w, ''backup'', name])")
      case None
      then show ?thesis using undone pe cleared ex1 by (auto simp: exchanged_def slots_def safe_def)
    next
      case (Some x)
      then have "fs_op faults (rename (home @ [w, ''backup'', name]) (home @ [name])) d1 = (r, d')" using undone pe by simp
      then show ?thesis
      proof (cases rule: move_slot [where w = w and name = name, case_names mem1 mem2 ne w kept moved])
        case (kept e)
        then show ?thesis using cleared ex1 by (auto dest: exchanged_safe)
      next
        case moved
        then show ?thesis using cleared ex1 Some
          by (auto simp: exchanged_def slots_def safe_def intro: only_at_trans)
      qed (use assms(3) in \<open>auto simp: slot_path_members\<close>)
    qed
  qed
qed

text \<open>On a calm disk the way back succeeds.\<close>

lemma rollback_root_calm:
  assumes run: "rollback_root faults home (home @ [w, ''backup'']) published name d = (r, d')"
    and ws: "workspace_ok home w (dk_tree d)" and names: "name \<noteq> w" "name \<noteq> ''..''" "w \<noteq> ''..''"
    and ex: "exchanged home w (name \<in> set published) name original (dk_tree d)" and quiet: "calm faults (dk_clock d)"
  shows "is_ok r \<and> dk_clock d \<le> dk_clock d'"
proof -
  let ?clear = "if name \<in> set published then rmtree faults (home @ [name]) else sret ()"
  let ?undo = "\<lambda>d. if path_exists (dk_tree d) (home @ [w, ''backup'', name])
      then fs_op faults (rename (home @ [w, ''backup'', name]) (home @ [name])) d else (Inr (), d)"
  obtain r1 d1 where 1: "?clear d = (r1, d1)" by (cases "?clear d")
  have result: "(r, d') = (case r1 of Inl e \<Rightarrow> (Inl e, d1) | Inr _ \<Rightarrow> ?undo d1)"
    using run 1 unfolding rollback_root_def sbind_def append_assoc append.simps by (simp split: sum.split)
  have cleared: "r1 = Inr () \<and> dk_clock d \<le> dk_clock d1 \<and> only_at (slot_paths home w name) (dk_tree d) (dk_tree d1) \<and>
      exchanged home w False name original (dk_tree d1)"
  proof (cases "name \<in> set published")
    case True
    then have rm: "rmtree faults (home @ [name]) d = (r1, d1)" "lookup (dk_tree d) (home @ [name]) \<noteq> None"
      using 1 ex by (auto simp: exchanged_def slots_def)
    then have "r1 = Inr () \<and> dk_clock d \<le> dk_clock d1"
      using quiet by (auto simp: rmtree_def Let_def calm_def split: option.splits)
    with remove_published [OF rm names(1)] ex True show ?thesis by (auto simp: exchanged_def slots_def)
  next
    case False
    then show ?thesis using 1 ex by (auto simp: sret_def)
  qed
  then have ws1: "workspace_ok home w (dk_tree d1)" using workspace_only_at [OF ws _ names(1)] by blast
  have ex1: "exchanged home w False name original (dk_tree d1)" using cleared by blast
  have "\<not> link_at (dk_tree d1) ((home @ [w, ''backup'']) @ [name])"
    using ex1 by (auto simp: exchanged_def slots_def no_link_def link_at_iff)
  then have pe: "path_exists (dk_tree d1) (home @ [w, ''backup'', name]) \<longleftrightarrow> lookup (dk_tree d1) (home @ [w, ''backup'', name]) \<noteq> None"
    using path_exists_below [of "home @ [w, ''backup'']" "dk_tree d1" name] ws1 names(2,3) by (simp add: workspace_ok_def)
  show ?thesis
  proof (cases "lookup (dk_tree d1) (home @ [w, ''backup'', name]) = None")
    case True
    then show ?thesis using result cleared pe by simp
  next
    case False
    then have undo: "fs_op faults (rename (home @ [w, ''backup'', name]) (home @ [name])) d1 = (r, d')" using result cleared pe by simp
    have "lookup (dk_tree d1) (home @ [name]) = None" using False ex1 by (auto simp: exchanged_def slots_def)
    then have "dk_clock d' = Suc (dk_clock d1) \<and> (is_ok r \<or> faults (dk_clock d1) \<noteq> None)"
      using move_succeeds [OF undo False] workspace_home [OF ws1] names(1) by simp
    then show ?thesis using quiet cleared by (auto simp: calm_def)
  qed
qed

definition exchange_paths :: "path \<Rightarrow> string \<Rightarrow> path set" where
  "exchange_paths home w = (\<Union>name \<in> set ROOTS. slot_paths home w name)"

lemma only_at_exchange: "only_at (slot_paths home w name) n n' \<Longrightarrow> name \<in> set ROOTS \<Longrightarrow> only_at (exchange_paths home w) n n'"
  by (erule only_at_mono) (auto simp: exchange_paths_def)

lemma exchanged_only_at:
  assumes "exchanged home w published name original n" "only_at (slot_paths home w other) n n'" "name \<noteq> other" "name \<noteq> w" "other \<noteq> w"
  shows "exchanged home w published name original n'"
  using assms slots_only_at [OF assms(2-5)] by (simp add: exchanged_def)

text \<open>A name the private directory cannot be mistaken for.\<close>

definition work_name :: "string \<Rightarrow> bool" where
  "work_name w \<longleftrightarrow> w \<notin> set ROOTS \<and> w \<noteq> ''..''"

lemma ROOTS_names: "work_name w \<Longrightarrow> name \<in> set ROOTS \<Longrightarrow> name \<noteq> w \<and> name \<noteq> ''..''"
  by (auto simp: ROOTS_def work_name_def)

lemma rollback_restores_originals:
  assumes "rollback_publication faults home (home @ [w, ''backup'']) published d = (r, d')"
    and ws: "workspace_ok home w (dk_tree d)" and w: "work_name w"
    and ex: "\<And>name. name \<in> set ROOTS \<Longrightarrow> exchanged home w (name \<in> set published) name (original name) (dk_tree d)"
  shows "only_at (exchange_paths home w) (dk_tree d) (dk_tree d') \<and>
    (\<forall>name \<in> set ROOTS. safe home w name (original name) (dk_tree d') \<and>
      (is_ok r \<longrightarrow> lookup (dk_tree d') (home @ [name]) = original name \<and> lookup (dk_tree d') (home @ [w, ''backup'', name]) = None)) \<and>
    (calm faults (dk_clock d) \<longrightarrow> is_ok r)"
proof -
  let ?x = "''xian''" and ?a = "''data''"
  have names: "?x \<noteq> w" "?a \<noteq> w" "w \<noteq> ''..''" "?x \<in> set ROOTS" "?a \<in> set ROOTS" using w by (auto simp: work_name_def ROOTS_def)
  obtain r1 d1 where 1: "rollback_root faults home (home @ [w, ''backup'']) published ?x d = (r1, d1)" by fastforce
  note x = rollback_root_slots [OF 1 ws names(1) _ names(3) ex [OF names(4)], simplified]
  have ws1: "workspace_ok home w (dk_tree d1)" using workspace_only_at [OF ws _ names(1)] x by blast
  have a1: "exchanged home w (?a \<in> set published) ?a (original ?a) (dk_tree d1)"
    using exchanged_only_at [OF ex [OF names(5)], of ?x "dk_tree d1"] x names(1,2) by simp
  show ?thesis
  proof (cases r1)
    case (Inl e)
    then have "r = Inl e" "d' = d1" using assms(1) 1 by (auto simp: rollback_publication_def ROOTS_def sbind_def)
    moreover have "\<not> calm faults (dk_clock d)" using rollback_root_calm [OF 1 ws names(1) _ names(3) ex [OF names(4)]] Inl by auto
    ultimately show ?thesis using x exchanged_safe [OF a1] only_at_exchange [OF _ names(4)] by (auto simp: ROOTS_def)
  next
    case (Inr u)
    obtain r2 d2 where 2: "rollback_root faults home (home @ [w, ''backup'']) published ?a d1 = (r2, d2)" by fastforce
    then have r: "is_ok r = is_ok r2" "d' = d2"
      using assms(1) 1 Inr by (auto simp: rollback_publication_def ROOTS_def sbind_def sret_def split: sum.splits prod.splits)
    note a = rollback_root_slots [OF 2 ws1 names(2) _ names(3) a1, simplified]
    have "slots home w ?x (dk_tree d2) = slots home w ?x (dk_tree d1)"
      using slots_only_at [of home w ?a "dk_tree d1" "dk_tree d2" ?x] a names by simp
    moreover have "only_at (exchange_paths home w) (dk_tree d) (dk_tree d2)"
      using x a only_at_exchange [OF _ names(4)] only_at_exchange [OF _ names(5)] only_at_trans by metis
    moreover have "is_ok r2" if "calm faults (dk_clock d)"
    proof -
      have "calm faults (dk_clock d1)"
        using rollback_root_calm [OF 1 ws names(1) _ names(3) ex [OF names(4)] that] calm_later [OF that] by simp
      then show ?thesis using rollback_root_calm [OF 2 ws1 names(2) _ names(3) a1] by simp
    qed
    ultimately show ?thesis using x a r Inr by (auto simp: ROOTS_def safe_def slots_def)
  qed
qed

text \<open>Publication: the new data is in both places, or the originals are back, or the way back failed
  and every original is in its place or in the backup.  The way back fails only after a second fault.\<close>

lemma publish_exchange:
  assumes "publish faults home (home @ [w, ''staged'']) (home @ [w, ''backup'']) d = (r, d')"
    and ws: "workspace_ok home w (dk_tree d)" and w: "work_name w"
    and slots: "\<And>name. name \<in> set ROOTS \<Longrightarrow> no_link (original name) \<and> slots home w name (dk_tree d) = (original name, Some (new name), None)"
  shows "only_at (exchange_paths home w) (dk_tree d) (dk_tree d') \<and>
    (case r of
       Inr _ \<Rightarrow> (\<forall>name \<in> set ROOTS. slots home w name (dk_tree d') = (Some (new name), None, original name))
     | Inl e \<Rightarrow>
         (\<forall>name \<in> set ROOTS. lookup (dk_tree d') (home @ [name]) = original name \<and> lookup (dk_tree d') (home @ [w, ''backup'', name]) = None) \<or>
         (\<not> single_fault faults \<and> e = rollback_failed \<and> (\<forall>name \<in> set ROOTS. safe home w name (original name) (dk_tree d'))))"
proof -
  let ?x = "''xian''" and ?a = "''data''"
  have names: "?a \<noteq> w" "?x \<noteq> w" "w \<noteq> ''..''" "?a \<in> set ROOTS" "?x \<in> set ROOTS" using w by (auto simp: work_name_def ROOTS_def)
  have nolink: "\<not> link_at (dk_tree d) (home @ [name])" if "name \<in> set ROOTS" for name
    using slots [OF that] by (auto simp: link_at_iff no_link_def slots_def)
  obtain r1 d1 where 1: "publish_root faults home (home @ [w, ''staged'']) (home @ [w, ''backup'']) ?a d = (r1, d1)" by fastforce
  note a = publish_root_slots [OF 1 ws names(1) _ conjunct2 [OF slots [OF names(4)]] nolink [OF names(4)], simplified]
  have ws1: "workspace_ok home w (dk_tree d1)" using workspace_only_at [OF ws _ names(1)] a by blast
  have x1: "slots home w ?x (dk_tree d1) = (original ?x, Some (new ?x), None)"
    using slots_only_at [of home w ?a "dk_tree d" "dk_tree d1" ?x] a names slots [OF names(5)] by simp
  have T1: "only_at (exchange_paths home w) (dk_tree d) (dk_tree d1)" using only_at_exchange [OF _ names(4)] a by blast
  have undo: ?thesis
    if "publish_roots faults home (home @ [w, ''staged'']) (home @ [w, ''backup'']) ROOTS [] d = ((Inl e, published), d2)"
      "workspace_ok home w (dk_tree d2)" "only_at (exchange_paths home w) (dk_tree d) (dk_tree d2)"
      "\<And>name. name \<in> set ROOTS \<Longrightarrow> exchanged home w (name \<in> set published) name (original name) (dk_tree d2)"
      "\<exists>i < dk_clock d2. faults i \<noteq> None" for e published d2
  proof -
    obtain r3 d3 where 3: "rollback_publication faults home (home @ [w, ''backup'']) published d2 = (r3, d3)" by fastforce
    have "only_at (exchange_paths home w) (dk_tree d2) (dk_tree d3) \<and>
      (\<forall>name \<in> set ROOTS. safe home w name (original name) (dk_tree d3) \<and>
        (is_ok r3 \<longrightarrow> lookup (dk_tree d3) (home @ [name]) = original name \<and> lookup (dk_tree d3) (home @ [w, ''backup'', name]) = None)) \<and>
      (calm faults (dk_clock d2) \<longrightarrow> is_ok r3)"
      by (rule rollback_restores_originals [OF 3 that(2) w that(4)])
    moreover have "calm faults (dk_clock d2)" if "single_fault faults"
      using single_fault_calm [OF that] \<open>\<exists>i < dk_clock d2. faults i \<noteq> None\<close> by blast
    moreover have "d' = d3" "r = (case r3 of Inl _ \<Rightarrow> Inl rollback_failed | Inr _ \<Rightarrow> Inl e)"
      using assms(1) that(1) 3 by (auto simp: publish_def split: sum.splits)
    ultimately show ?thesis using that(3) by (auto split: sum.split intro: only_at_trans)
  qed
  show ?thesis
  proof (cases r1)
    case (Inl e)
    have "exchanged home w False ?a (original ?a) (dk_tree d1)" using a Inl slots [OF names(4)] by (auto simp: exchanged_def)
    moreover have "exchanged home w False ?x (original ?x) (dk_tree d1)" using x1 slots [OF names(5)] by (auto simp: exchanged_def)
    moreover have "\<exists>i < dk_clock d1. faults i \<noteq> None"
      using publish_root_fault [OF 1 ws names(1) _ conjunct2 [OF slots [OF names(4)]] nolink [OF names(4)]] Inl by simp
    ultimately show ?thesis
      by (intro undo [OF _ ws1 T1, of e "[]"]) (use 1 Inl in \<open>auto simp: ROOTS_def\<close>)
  next
    case (Inr u)
    obtain r2 d2 where 2: "publish_root faults home (home @ [w, ''staged'']) (home @ [w, ''backup'']) ?x d1 = (r2, d2)" by fastforce
    have nolink1: "\<not> link_at (dk_tree d1) (home @ [?x])" using x1 slots [OF names(5)] by (auto simp: link_at_iff no_link_def slots_def)
    note x = publish_root_slots [OF 2 ws1 names(2) _ x1 nolink1, simplified]
    have ws2: "workspace_ok home w (dk_tree d2)" using workspace_only_at [OF ws1 _ names(2)] x by blast
    have T2: "only_at (exchange_paths home w) (dk_tree d) (dk_tree d2)"
      using T1 only_at_exchange [OF _ names(5)] x only_at_trans by blast
    have a2: "slots home w ?a (dk_tree d2) = (Some (new ?a), None, original ?a)"
      using slots_only_at [of home w ?x "dk_tree d1" "dk_tree d2" ?a] x names a Inr by simp
    show ?thesis
    proof (cases r2)
      case (Inl e)
      have "exchanged home w True ?a (original ?a) (dk_tree d2)" using a2 slots [OF names(4)] by (simp add: exchanged_def)
      moreover have "exchanged home w False ?x (original ?x) (dk_tree d2)" using x Inl slots [OF names(5)] by (auto simp: exchanged_def)
      moreover have "\<exists>i < dk_clock d2. faults i \<noteq> None"
        using publish_root_fault [OF 2 ws1 names(2) _ x1 nolink1] Inl by simp
      ultimately show ?thesis
        by (intro undo [OF _ ws2 T2, of e "[?a]"]) (use 1 2 Inr Inl in \<open>auto simp: ROOTS_def\<close>)
    next
      case Inr2: (Inr v)
      then have "r = Inr () \<and> d' = d2" using assms(1) 1 2 Inr by (simp add: publish_def ROOTS_def)
      then show ?thesis using a2 x Inr2 T2 by (auto simp: ROOTS_def)
    qed
  qed
qed

section \<open>The contents of the private directory\<close>

definition member_files :: "(tar_member \<times> path) list \<Rightarrow> (path, string) dict" where
  "member_files selected =
     concat (map (\<lambda>(m, p). case tm_kind m of RegularFile c \<Rightarrow> [(p, c)] | _ \<Rightarrow> []) selected)"

text \<open>Below \<open>staged\<close> are exactly the given files, no links, and only directories that lead to the given paths.\<close>

definition holds_files :: "path \<Rightarrow> (path \<Rightarrow> string option) \<Rightarrow> path set \<Rightarrow> node \<Rightarrow> bool" where
  "holds_files staged files dirs t \<longleftrightarrow>
     (\<forall>rel. file_at t (staged @ rel) = files rel \<and> \<not> link_at t (staged @ rel) \<and>
        (dir_at t (staged @ rel) \<longrightarrow> (\<exists>p \<in> dirs. prefix rel p)))"

lemma holds_mkdirs:
  assumes "mkdirs t (staged @ p) = Inr t'" "holds_files staged files dirs t"
  shows "holds_files staged files (insert p dirs) t'"
  using assms(2) mkdirs_result [OF assms(1)] by (auto simp: holds_files_def)

lemma holds_create:
  assumes "create_file (staged @ p) c t = Inr t'" "holds_files staged files dirs t"
  shows "holds_files staged (\<lambda>rel. if rel = p then Some c else files rel) dirs t' \<and> files p = None"
proof -
  have "files p = file_at t (staged @ p)" using assms(2) by (simp add: holds_files_def)
  then have "files p = None" using create_file_result(4) [OF assms(1)] by (simp add: file_at_def)
  moreover have "holds_files staged (\<lambda>rel. if rel = p then Some c else files rel) dirs t'"
    using assms(2) create_file_result(1-3) [OF assms(1)] by (auto simp: holds_files_def)
  ultimately show ?thesis by simp
qed

lemma holds_mono: "holds_files staged files dirs t \<Longrightarrow> (\<And>p. p \<in> dirs \<Longrightarrow> \<exists>p' \<in> dirs'. prefix p p') \<Longrightarrow> holds_files staged files dirs' t"
  unfolding holds_files_def by (meson prefix_order.trans)

lemma extract_member_holds:
  assumes "extract_member faults staged (m, p) d = (Inr u, d')" "p \<noteq> []"
    and "holds_files staged (map_of (member_files done_members)) (snd ` set done_members \<union> dirs) (dk_tree d)"
  shows "holds_files staged (map_of (member_files (done_members @ [(m, p)]))) (snd ` set (done_members @ [(m, p)]) \<union> dirs) (dk_tree d')"
proof (cases "tm_kind m")
  case (RegularFile c)
  then obtain d1 where 1: "fs_op faults (\<lambda>n. mkdirs n (butlast (staged @ p))) d = (Inr (), d1)"
    "fs_op faults (create_file (staged @ p) c) d1 = (Inr u, d')"
    using assms(1) by (auto simp: extract_member_def elim!: sbind_Inr)
  have dir: "mkdirs (dk_tree d) (staged @ butlast p) = Inr (dk_tree d1)" using 1(1) assms(2)
    by (cases rule: fs_op_cases) (auto simp: butlast_append)
  have made: "create_file (staged @ p) c (dk_tree d1) = Inr (dk_tree d')" using 1(2) by (cases rule: fs_op_cases) auto
  have "holds_files staged (map_of (member_files done_members)) (insert (butlast p) (snd ` set done_members \<union> dirs)) (dk_tree d1)"
    by (rule holds_mkdirs [OF dir assms(3)])
  from holds_create [OF made this] have
    "holds_files staged (map_of (member_files (done_members @ [(m, p)]))) (insert (butlast p) (snd ` set done_members \<union> dirs)) (dk_tree d')"
    using RegularFile by (auto simp: member_files_def map_add_def fun_eq_iff holds_files_def split: option.split)
  then show ?thesis
    by (rule holds_mono) (use assms(2) prefixeq_butlast in auto)
qed (use assms in \<open>auto simp: extract_member_def member_files_def elim!: fs_op_cases dest: holds_mkdirs\<close>)

lemma extract_members_hold:
  assumes "smap (extract_member faults staged) selected d = (Inr us, d')" "\<forall>(m, p) \<in> set selected. p \<noteq> []"
    and "holds_files staged (map_of (member_files done_members)) (snd ` set done_members \<union> dirs) (dk_tree d)"
  shows "holds_files staged (map_of (member_files (done_members @ selected))) (snd ` set (done_members @ selected) \<union> dirs) (dk_tree d')"
  using assms
proof (induction selected arbitrary: done_members d us)
  case (Cons x selected)
  obtain m p where x: "x = (m, p)" by fastforce
  obtain u d1 us' where 1: "extract_member faults staged (m, p) d = (Inr u, d1)" "smap (extract_member faults staged) selected d1 = (Inr us', d')"
    using Cons.prems(1) by (auto simp: x sret_def elim!: sbind_Inr)
  have "p \<noteq> []" using Cons.prems(2) by (simp add: x)
  from Cons.IH [OF 1(2) _ extract_member_holds [OF 1(1) this Cons.prems(3)]] Cons.prems(2) show ?case by (simp add: x)
qed (simp add: sret_def)

text \<open>Of the identity files, those that exist are copied.\<close>

lemma preserve_file_holds:
  assumes "preserve_file faults home staged p d = (Inr u, d')" "p \<noteq> []" "plain (dk_tree d) (home @ p)"
    and "holds_files staged files dirs (dk_tree d)" "\<not> (\<exists>p' \<in> dirs. prefix p p')" "\<not> prefix staged (home @ p)"
  shows "holds_files staged (\<lambda>rel. if rel = p \<and> file_at (dk_tree d) (home @ p) \<noteq> None then file_at (dk_tree d) (home @ p) else files rel)
      (if lookup (dk_tree d) (home @ p) = None then dirs else insert (butlast p) dirs) (dk_tree d')"
    and "lookup (dk_tree d) (home @ p) \<noteq> None \<Longrightarrow> file_at (dk_tree d) (home @ p) \<noteq> None"
proof -
  have pe: "path_exists (dk_tree d) (home @ p) \<longleftrightarrow> lookup (dk_tree d) (home @ p) \<noteq> None"
    using assms(3) by (simp add: path_exists_def realpath_plain)
  have "holds_files staged (\<lambda>rel. if rel = p \<and> file_at (dk_tree d) (home @ p) \<noteq> None then file_at (dk_tree d) (home @ p) else files rel)
      (if lookup (dk_tree d) (home @ p) = None then dirs else insert (butlast p) dirs) (dk_tree d') \<and>
    (lookup (dk_tree d) (home @ p) \<noteq> None \<longrightarrow> file_at (dk_tree d) (home @ p) \<noteq> None)"
  proof (cases "lookup (dk_tree d) (home @ p)")
    case None
    then show ?thesis using assms(1,4) pe by (simp add: preserve_file_def file_at_def)
  next
    case (Some x)
    then obtain d1 where 1: "fs_op faults (\<lambda>n. mkdirs n (butlast (staged @ p))) d = (Inr (), d1)"
      "fs_op faults (copy_file (home @ p) (staged @ p)) d1 = (Inr u, d')"
      using assms(1) pe by (auto simp: preserve_file_def elim!: sbind_Inr)
    have dir: "mkdirs (dk_tree d) (staged @ butlast p) = Inr (dk_tree d1)" using 1(1) assms(2)
      by (cases rule: fs_op_cases) (auto simp: butlast_append)
    have copied: "copy_file (home @ p) (staged @ p) (dk_tree d1) = Inr (dk_tree d')" using 1(2) by (cases rule: fs_op_cases) auto
    have h1: "holds_files staged files (insert (butlast p) dirs) (dk_tree d1)" by (rule holds_mkdirs [OF dir assms(4)])
    have "\<not> prefix p (butlast p)" using assms(2) by (metis append_butlast_last_id not_Cons_self2 prefix_order.antisym prefixI self_append_conv)
    then have "\<not> dir_at (dk_tree d1) (staged @ p)" using h1 assms(5) by (auto simp: holds_files_def)
    then obtain c where c: "file_at (dk_tree d1) (home @ p) = Some c"
      "\<And>q. file_at (dk_tree d') q = (if q = staged @ p then Some c else file_at (dk_tree d1) q)"
      "\<And>q. link_at (dk_tree d') q = (q \<noteq> staged @ p \<and> link_at (dk_tree d1) q)" "\<And>q. dir_at (dk_tree d') q = dir_at (dk_tree d1) q"
      using copy_file_result [OF copied] assms(2) by auto
    have "file_at (dk_tree d) (home @ p) = Some c" using c(1) mkdirs_result(1) [OF dir] by simp
    then show ?thesis using h1 c(2-4) Some by (auto simp: holds_files_def)
  qed
  then show "holds_files staged (\<lambda>rel. if rel = p \<and> file_at (dk_tree d) (home @ p) \<noteq> None then file_at (dk_tree d) (home @ p) else files rel)
      (if lookup (dk_tree d) (home @ p) = None then dirs else insert (butlast p) dirs) (dk_tree d')"
    "lookup (dk_tree d) (home @ p) \<noteq> None \<Longrightarrow> file_at (dk_tree d) (home @ p) \<noteq> None" by auto
qed

section \<open>Identity files\<close>

lemma resolve_plain:
  "resolve_identity_path n home hops current rest = Inr q \<Longrightarrow> plain n current \<Longrightarrow> dir_at n [] \<Longrightarrow> plain n q"
proof (induction n home hops current rest rule: resolve_identity_path.induct)
  case (2 n home hops current part rest)
  consider "part = ''..''" | (link) t where "part \<noteq> ''..''" "lookup n (current @ [part]) = Some (Link t)"
    | (other) "part \<noteq> ''..''" "\<not> link_at n (current @ [part])"
    by (auto simp: link_at_iff)
  then show ?case
  proof cases
    case 1
    then show ?thesis using 2 by (auto intro: plain_butlast)
  next
    case link
    then have "resolve_identity_path n home (Suc hops) [] (join_path current t @ rest) = Inr q"
      "check_local_identity_path n home (current @ [part]) = Inr ()" "\<not> 40 < Suc hops"
      using "2.prems"(1) by (auto elim!: rbind_InrE split: if_splits)
    then show ?thesis using "2.IH"(4) [OF link(1) link(2) refl] "2.prems"(3) by (auto intro: plain_Nil)
  next
    case other
    then have "resolve_identity_path n home hops (current @ [part]) rest = Inr q" "plain n (current @ [part])"
      using "2.prems" by (auto simp: plain_snoc link_at_def split: option.splits node.splits)
    then show ?thesis using other "2.IH"(2,3,5) "2.prems"(3)
      by (cases "lookup n (current @ [part])") (auto simp: link_at_def split: node.splits)
  qed
qed simp

text \<open>A resolved path below the home directory.\<close>

lemma same_file_plain:
  "plain n p \<Longrightarrow> plain n q \<Longrightarrow> same_file n p q \<longleftrightarrow> p = q \<and> lookup n p \<noteq> None"
  by (auto simp: same_file_def realpath_plain)

lemma home_relative_plain:
  assumes "plain n q" "plain n home" "dir_at n home"
  shows "home_relative_path n home q = (if strict_prefix home q then Some (drop (length home) q) else None)"
proof -
  have same: "same_file n (take k q) home \<longleftrightarrow> take k q = home" for k
    using same_file_plain [of n "take k q" home] assms plain_prefix [of n "take k q" "drop k q"] by (auto simp: dir_at_iff)
  let ?ks = "filter (\<lambda>k. same_file n (take k q) home) (rev [0..<length q])"
  show ?thesis
  proof (cases "strict_prefix home q")
    case True
    then have "take k q = home \<longleftrightarrow> k = length home" if "k < length q" for k
      using that by (metis append_eq_conv_conj length_take min.absorb4 prefixE strict_prefix_def)
    moreover have "length home < length q" using True by (simp add: prefix_length_less)
    ultimately have "k \<in> set ?ks \<longleftrightarrow> k = length home" for k by (auto simp: same)
    then have "?ks \<noteq> []" "hd ?ks = length home" by (metis empty_iff empty_set, metis (no_types) empty_iff empty_set list.set_sel(1))
    then show ?thesis using True by (cases ?ks) (auto simp: home_relative_path_def)
  next
    case False
    then have "?ks = []" by (auto simp: same filter_empty_conv strict_prefix_def) (metis append_take_drop_id nat_less_le prefixI take_all_iff)
    then show ?thesis using False by (simp add: home_relative_path_def)
  qed
qed

lemma application_root_plain:
  assumes "plain n (home @ [name])" "\<And>r. r \<in> set ROOTS \<Longrightarrow> plain n (home @ [r])"
  shows "application_root n home name = (if name \<in> set ROOTS then Some name else None)"
proof -
  have "\<not> same_file n (home @ [name]) (home @ [r])" if "name \<notin> set ROOTS" "r \<in> set ROOTS" for r
    using same_file_plain [OF assms(1) assms(2) [OF that(2)]] that by auto
  then show ?thesis by (auto simp: application_root_def find_None_iff)
qed

text \<open>A home directory on which a restore goes ahead.\<close>

definition home_ok :: "path \<Rightarrow> node \<Rightarrow> bool" where
  "home_ok home n \<longleftrightarrow> dir_at n home \<and> plain n home \<and>
     (\<forall>r \<in> set ROOTS. \<not> link_at n (home @ [r]) \<and> (lookup n (home @ [r]) = None \<or> dir_at n (home @ [r])))"

lemma check_home_ok:
  assumes "check_home n home = Inr ()" "''..'' \<notin> set home" "dir_at n home"
  shows "home_ok home n"
proof -
  have "\<exists>rs. mapR (\<lambda>name. rbind (check_plain_path n home [name]) (\<lambda>_.
      guard (lookup n (home @ [name]) = None \<or> dir_at n (home @ [name])) (ValueError ''snapshot application root must be a directory''))) ROOTS = Inr rs"
    using assms(1) by (auto simp: check_home_def elim!: rbind_InrE)
  then have "\<forall>r \<in> set ROOTS. \<not> link_at n (home @ [r]) \<and> (lookup n (home @ [r]) = None \<or> dir_at n (home @ [r]))"
    by (auto simp: ROOTS_def check_plain_path_def rbind_Inr_iff)
  then show ?thesis using assms plain_home [OF assms(2,3)] by (simp add: home_ok_def)
qed

lemma home_ok_root: "home_ok home n \<Longrightarrow> r \<in> set ROOTS \<Longrightarrow> plain n (home @ [r])"
  by (auto simp: home_ok_def plain_snoc ROOTS_def)

lemma home_ok_top: "home_ok home n \<Longrightarrow> dir_at n []"
  by (metis append_Nil dir_above dir_at_iff home_ok_def)

lemma protected_relative:
  assumes "protected_relative_path n home value = Inr result" "home_ok home n"
  obtains q where "resolve_identity_path n home 0 [] (join_path home value) = Inr q" "plain n q" "\<not> dir_at n q"
    "result = (if strict_prefix home q \<and> q ! length home \<in> set ROOTS then Some (drop (length home) q) else None)"
    "result \<noteq> None \<Longrightarrow> 2 \<le> length (drop (length home) q)"
proof -
  obtain q where q: "resolve_identity_path n home 0 [] (join_path home value) = Inr q" "\<not> is_dir_path n q"
    and r: "(case home_relative_path n home q of None \<Rightarrow> Inr None
       | Some relative \<Rightarrow> (case application_root n home (hd relative) of None \<Rightarrow> Inr None
          | Some r \<Rightarrow> rbind (check_plain_path n home relative) (\<lambda>_.
              if length relative = 1 then Inl (ValueError ''configured identity path must be a file'')
              else Inr (Some (r # tl relative))))) = (Inr result :: path option res)"
    using assms(1) by (auto simp: protected_relative_path_def elim!: rbind_InrE)
  have plain: "plain n q" using resolve_plain [OF q(1)] home_ok_top [OF assms(2)] by (auto intro: plain_Nil)
  have dir: "\<not> dir_at n q" using q(2) plain by (auto simp: is_dir_path_def realpath_plain dir_at_iff)
  have home: "plain n home" "dir_at n home" using assms(2) by (auto simp: home_ok_def)
  show thesis
  proof (cases "strict_prefix home q")
    case False
    then show thesis using that [OF q(1) plain dir] r home_relative_plain [OF plain home] by simp
  next
    case True
    then obtain x u where xu: "q = home @ x # u" by (auto elim!: strict_prefixE')
    have "plain n (home @ [x])" using plain_prefix [of n "home @ [x]" u] plain by (simp add: xu)
    then have "application_root n home x = (if x \<in> set ROOTS then Some x else None)"
      using application_root_plain home_ok_root [OF assms(2)] by blast
    then show thesis using that [OF q(1) plain dir] r home_relative_plain [OF plain home] True
      by (cases u) (auto simp: xu elim!: rbind_InrE split: if_splits)
  qed
qed

lemma protected_paths_ok:
  assumes "protected_paths E n home = Inr ps" "home_ok home n" "p \<in> set ps"
  shows "plain n (home @ p) \<and> \<not> dir_at n (home @ p) \<and> 2 \<le> length p \<and> hd p \<in> set ROOTS"
proof -
  obtain vals rs where v: "mapR (protected_relative_path n home) vals = Inr rs" "Some p \<in> set rs"
    using assms(1,3) by (auto simp: protected_paths_def List.map_filter_def elim!: rbind_InrE)
  obtain text_value where "protected_relative_path n home text_value = Inr (Some p)" using mapR_in_set [OF v(1) v(2)] by auto
  then obtain q where q: "plain n q" "\<not> dir_at n q" "strict_prefix home q" "q ! length home \<in> set ROOTS" "p = drop (length home) q"
    "2 \<le> length (drop (length home) q)"
    using protected_relative [OF _ assms(2)] by (metis option.distinct(1) option.inject)
  then have "home @ p = q" by (metis append_eq_conv_conj prefixE strict_prefix_def)
  with q show ?thesis by (auto simp: hd_drop_conv_nth elim!: strict_prefixE')
qed

text \<open>Every configured identity file that lies in the application directories is protected.\<close>

lemma identity_location_protected:
  assumes "protected_paths E n home = Inr ps" "home_ok home n" "identity_values E n home = Inr vals" "value \<in> set vals"
    and "resolve_identity_path n home 0 [] (join_path home value) = Inr q"
  shows "\<not> dir_at n q \<and> (\<forall>r p. q = home @ r # p \<and> r \<in> set ROOTS \<longrightarrow> r # p \<in> set ps)"
proof -
  obtain rs where rs: "mapR (protected_relative_path n home) vals = Inr rs" "ps = remdups (List.map_filter id rs)"
    using assms(1,3) by (auto simp: protected_paths_def elim!: rbind_InrE)
  then obtain result where result: "protected_relative_path n home value = Inr result" "result \<in> set rs"
    using assms(4) by (auto simp: mapR_Inr_iff list_all2_conv_all_nth in_set_conv_nth) metis
  obtain q' where "resolve_identity_path n home 0 [] (join_path home value) = Inr q'" "\<not> dir_at n q'"
    "result = (if strict_prefix home q' \<and> q' ! length home \<in> set ROOTS then Some (drop (length home) q') else None)"
    using protected_relative [OF result(1) assms(2)] by metis
  moreover from this have "q' = q" using assms(5) by simp
  moreover have "r # p \<in> set ps" if "q = home @ r # p" "result = Some (r # p)" for r p
    using that result(2) rs(2) by (force simp: List.map_filter_def)
  ultimately show ?thesis by (auto simp: strict_prefix_def)
qed

section \<open>Names\<close>

text \<open>What the sources rely on of the folding of names: it works part by part.\<close>

definition fold_ok :: "restore_env \<Rightarrow> bool" where
  "fold_ok E \<longleftrightarrow> (\<forall>a b. re_fold E (a @ CHR ''/'' # b) = re_fold E a @ CHR ''/'' # re_fold E b)"

lemma as_posix_Cons: "as_posix (x # xs) = x @ concat (map (\<lambda>part. CHR ''/'' # part) xs)"
proof -
  have "concat (map (\<lambda>(i, part). (if i = 0 then [] else ''/'') @ part) (enumerate (Suc k) xs)) = concat (map (\<lambda>part. CHR ''/'' # part) xs)" for k
    by (induction xs arbitrary: k) auto
  then show ?thesis by (simp add: as_posix_def)
qed

lemma as_posix_append: "p \<noteq> [] \<Longrightarrow> q \<noteq> [] \<Longrightarrow> as_posix (p @ q) = as_posix p @ CHR ''/'' # as_posix q"
  by (cases p; cases q) (auto simp: as_posix_Cons)

lemma member_outside_protected:
  assumes "fold_ok E" "is_protected_member E p m (map (path_key E) ps) = Inr False" "p' \<in> set ps" "p' \<noteq> []"
  shows "\<not> prefix p' p"
proof
  assume "prefix p' p"
  then obtain u where u: "p = p' @ u" by (auto elim: prefixE)
  show False
  proof (cases "u = []")
    case True
    then have "path_key E p \<in> set (map (path_key E) ps)" using assms(3) u by simp
    then show False using assms(2) by (simp add: is_protected_member_def Let_def split: if_splits)
  next
    case False
    then have "prefix (path_key E p' @ ''/'') (path_key E p)"
      using assms(1,4) u by (simp add: path_key_def as_posix_append fold_ok_def)
    then have "list_ex (\<lambda>k. prefix (k @ ''/'') (path_key E p)) (map (path_key E) ps)" using assms(3) by (auto simp: list_ex_iff)
    then show False using assms(2) by (simp add: is_protected_member_def Let_def split: if_splits)
  qed
qed

section \<open>Staging\<close>

lemma local_lookup:
  "only_at {home @ [w]} n t \<Longrightarrow> p \<noteq> [] \<Longrightarrow> hd p \<noteq> w \<Longrightarrow> lookup t (home @ p) = lookup n (home @ p)"
  by (rule only_atD) (cases p; auto)+

lemma local_plain:
  assumes "only_at {home @ [w]} n t" "p \<noteq> []" "hd p \<noteq> w" "plain n (home @ p)" "dir_at n home"
  shows "plain t (home @ p)"
proof -
  have "dir_at t home" by (rule only_at_dir [OF assms(1,5)]) auto
  have "\<not> link_at t q" if below: "prefix q (home @ p)" for q
  proof (cases "prefix q home")
    case True
    then show ?thesis using plain_home [of home t] assms(4) \<open>dir_at t home\<close> by (auto simp: plain_def)
  next
    case False
    then obtain q' where q': "q = home @ q'" "q' \<noteq> []" "prefix q' p"
      using below unfolding prefix_append by (metis append_Nil2 prefix_order.refl)
    then have "hd q' \<noteq> w" using assms(3) by (auto elim!: prefixE)
    then show ?thesis using local_lookup [OF assms(1) q'(2)] assms(4) below q'(1) by (simp add: plain_def link_at_def)
  qed
  then show ?thesis using assms(4) by (auto simp: plain_def)
qed

definition with_local :: "node \<Rightarrow> path \<Rightarrow> path set \<Rightarrow> (path \<Rightarrow> string option) \<Rightarrow> path \<Rightarrow> string option" where
  "with_local n home T files rel =
     (if rel \<in> T \<and> file_at n (home @ rel) \<noteq> None then file_at n (home @ rel) else files rel)"

lemma preserve_files_hold:
  assumes "smap (preserve_file faults home (home @ [w, ''staged''])) ps d = (Inr us, d')" "work_name w" "dir_at n home"
    and "only_at {home @ [w]} n (dk_tree d)"
    and "\<forall>p \<in> set ps \<union> T. plain n (home @ p) \<and> \<not> dir_at n (home @ p) \<and> p \<noteq> [] \<and> hd p \<in> set ROOTS \<and> \<not> (\<exists>p' \<in> dirs. prefix p p')"
    and "holds_files (home @ [w, ''staged'']) (with_local n home T files) (dirs \<union> butlast ` {p \<in> T. lookup n (home @ p) \<noteq> None}) (dk_tree d)"
  shows "\<exists>dirs'. holds_files (home @ [w, ''staged'']) (with_local n home (T \<union> set ps) files) dirs' (dk_tree d') \<and>
    (\<forall>p \<in> set ps. lookup n (home @ p) \<noteq> None \<longrightarrow> file_at n (home @ p) \<noteq> None)"
  using assms
proof (induction ps arbitrary: d us T)
  case (Cons p ps)
  let ?staged = "home @ [w, ''staged'']"
  obtain u d1 us' where 1: "preserve_file faults home ?staged p d = (Inr u, d1)" "smap (preserve_file faults home ?staged) ps d1 = (Inr us', d')"
    using Cons.prems(1) by (auto simp: sret_def elim!: sbind_Inr)
  have p: "plain n (home @ p)" "\<not> dir_at n (home @ p)" "p \<noteq> []" "hd p \<in> set ROOTS" "\<not> (\<exists>p' \<in> dirs. prefix p p')"
    using Cons.prems(5) by auto
  have hd: "hd p \<noteq> w" using p(4) Cons.prems(2) by (auto simp: work_name_def)
  have same: "lookup (dk_tree d) (home @ p) = lookup n (home @ p)" by (rule local_lookup [OF Cons.prems(4) p(3) hd])
  have "\<not> prefix p (butlast p')" if "p' \<in> T" "lookup n (home @ p') \<noteq> None" for p'
  proof
    assume "prefix p (butlast p')"
    then obtain v where v: "butlast p' = p @ v" by (auto elim: prefixE)
    then have "p' = p @ v @ [last p']" using p(3) by (metis append.assoc append_butlast_last_id append_is_Nil_conv butlast.simps(1))
    then obtain x u where "home @ p' = (home @ p) @ x # u" by (cases "v @ [last p']") auto
    then show False using that(2) p(2) dir_above [of n "home @ p" "x # u"] by auto
  qed
  then have fresh: "\<not> (\<exists>p' \<in> dirs \<union> butlast ` {p \<in> T. lookup n (home @ p) \<noteq> None}. prefix p p')" using p(5) by auto
  have apart: "\<not> prefix ?staged (home @ p)" using hd p(3) by (cases p) auto
  note held = preserve_file_holds [OF 1(1) p(3) local_plain [OF Cons.prems(4) p(3) hd p(1) Cons.prems(3)] Cons.prems(6) fresh apart]
  have "(\<lambda>rel. if rel = p \<and> file_at (dk_tree d) (home @ p) \<noteq> None then file_at (dk_tree d) (home @ p) else with_local n home T files rel)
      = with_local n home (insert p T) files"
    using same by (auto simp: with_local_def file_at_def fun_eq_iff)
  moreover have "(if lookup (dk_tree d) (home @ p) = None then dirs \<union> butlast ` {p \<in> T. lookup n (home @ p) \<noteq> None}
      else insert (butlast p) (dirs \<union> butlast ` {p \<in> T. lookup n (home @ p) \<noteq> None}))
      = dirs \<union> butlast ` {q \<in> insert p T. lookup n (home @ q) \<noteq> None}"
    using same by auto
  ultimately have step: "holds_files ?staged (with_local n home (insert p T) files) (dirs \<union> butlast ` {q \<in> insert p T. lookup n (home @ q) \<noteq> None}) (dk_tree d1)"
    using held(1) by simp
  have "unchanged_but {?staged} (dk_tree d) d1"
    using maintainsD [OF preserve_unchanged [of "[p]" ?staged "dk_tree d" faults home], of d] 1(1) p(3)
    by (auto simp: preserve_identity_def sbind_def sret_def)
  then have "unchanged_but {home @ [w]} n d1"
    by (intro only_at_trans [OF Cons.prems(4)] only_at_mono [where S = "{?staged}" and T = "{home @ [w]}"]) auto
  from Cons.IH [OF 1(2) Cons.prems(2,3) this _ step] Cons.prems(5) held(2) same show ?case
    by (auto simp: file_at_def)
qed (auto simp: sret_def)

section \<open>The private directory\<close>

lemma unchanged_make_new_dir: "maintains (unchanged_but {p} n) (fs_op faults (make_new_dir (p @ q)))"
  by (intro unchanged_fs_op, rule only_at_make_new_dir [where s = p]) auto

lemma unchanged_mkdirs: "maintains (unchanged_but {p} n) (fs_op faults (\<lambda>t. mkdirs t (p @ q)))"
  by (intro unchanged_fs_op, rule only_at_mkdirs [where s = p]) auto

lemma prepare_unchanged: "maintains (unchanged_but {work} n) (prepare_workspace faults work)"
  unfolding prepare_workspace_def
  using unchanged_make_new_dir [of work n faults "[]"] unchanged_make_new_dir [of work n faults] unchanged_mkdirs [of work n faults]
  by (intro maintains_rules) auto

lemma make_new_dir_result:
  "make_new_dir p n = Inr n' \<Longrightarrow> lookup n p = None \<and> mkdirs n p = Inr n' \<and> lookup n' p = Some (Dir [])"
  by (auto simp: make_new_dir_def intro: mkdirs_new split: if_splits)

definition stage_dirs :: "path set" where "stage_dirs = {[''data''], [''xian'']}"

lemma prepared_workspace:
  assumes "prepare_workspace faults (home @ [w]) d = (Inr u, d')" "''..'' \<notin> set home"
  shows "lookup (dk_tree d) (home @ [w]) = None" "workspace_ok home w (dk_tree d')"
    "lookup (dk_tree d') (home @ [w, ''backup'']) = Some (Dir [])"
    "holds_files (home @ [w, ''staged'']) (\<lambda>_. None) stage_dirs (dk_tree d')"
    "\<forall>name \<in> set ROOTS. dir_at (dk_tree d') (home @ [w, ''staged'', name])"
proof -
  let ?s = "home @ [w, ''staged'']" and ?n = "dk_tree d" and ?n' = "dk_tree d'"
  obtain d1 d2 d3 where "fs_op faults (make_new_dir (home @ [w])) d = (Inr (), d1)"
    "fs_op faults (make_new_dir (home @ [w, ''backup''])) d1 = (Inr (), d2)"
    "fs_op faults (\<lambda>n. mkdirs n (home @ [w, ''staged'', ''data''])) d2 = (Inr (), d3)"
    "fs_op faults (\<lambda>n. mkdirs n (home @ [w, ''staged'', ''xian''])) d3 = (Inr (), d')"
    using assms(1) by (auto simp: prepare_workspace_def ROOTS_def sret_def elim!: sbind_Inr)
  then have ops: "make_new_dir (home @ [w]) ?n = Inr (dk_tree d1)" "make_new_dir (home @ [w, ''backup'']) (dk_tree d1) = Inr (dk_tree d2)"
    "mkdirs (dk_tree d2) (home @ [w, ''staged'', ''data'']) = Inr (dk_tree d3)" "mkdirs (dk_tree d3) (home @ [w, ''staged'', ''xian'']) = Inr ?n'"
    by (auto elim!: fs_op_cases)
  note new = make_new_dir_result [OF ops(1)] make_new_dir_result [OF ops(2)]
  show fresh: "lookup ?n (home @ [w]) = None" using new(1) by blast
  have r1: "file_at (dk_tree d1) q = file_at ?n q" "link_at (dk_tree d1) q = link_at ?n q" "dir_at (dk_tree d1) q \<longleftrightarrow> dir_at ?n q \<or> prefix q (home @ [w])" for q
    using new(1) mkdirs_result by blast+
  have r2: "file_at (dk_tree d2) q = file_at (dk_tree d1) q" "link_at (dk_tree d2) q = link_at (dk_tree d1) q"
    "dir_at (dk_tree d2) q \<longleftrightarrow> dir_at (dk_tree d1) q \<or> prefix q (home @ [w, ''backup''])" for q
    using new(2) mkdirs_result by blast+
  note r3 = mkdirs_result [OF ops(3)] and r4 = mkdirs_result [OF ops(4)]
  have "lookup ?n (?s @ rel) = None" for rel using fresh lookup_append [of ?n "home @ [w]" "''staged'' # rel"] by simp
  then have none: "file_at ?n (?s @ rel) = None" "\<not> link_at ?n (?s @ rel)" "\<not> dir_at ?n (?s @ rel)" for rel
    by (simp_all add: file_at_def link_at_def dir_at_def)
  show "workspace_ok home w ?n'" using assms(2) by (auto simp: workspace_ok_def r2 r3 r4)
  show "\<forall>name \<in> set ROOTS. dir_at ?n' (home @ [w, ''staged'', name])" by (auto simp: ROOTS_def r3 r4)
  show "holds_files ?s (\<lambda>_. None) stage_dirs ?n'"
    using none by (auto simp: holds_files_def stage_dirs_def r1 r2 r3 r4)
  have "lookup (dk_tree d3) (home @ [w, ''backup'']) = lookup (dk_tree d2) (home @ [w, ''backup''])"
    "lookup ?n' (home @ [w, ''backup'']) = lookup (dk_tree d3) (home @ [w, ''backup''])"
    using mkdirs_apart [OF ops(3)] mkdirs_apart [OF ops(4)] by simp_all
  then show "lookup ?n' (home @ [w, ''backup'']) = Some (Dir [])" using new(2) by simp
qed

section \<open>Directories stay while data is staged\<close>

lemma keeps_dir_op: "(\<And>t t'. f t = Inr t' \<Longrightarrow> dir_at t q \<Longrightarrow> dir_at t' q) \<Longrightarrow> maintains (\<lambda>d. dir_at (dk_tree d) q) (fs_op faults f)"
  unfolding maintains_def by (auto simp: fs_op_def Let_def split: option.split sum.split)

lemma copy_file_keeps_dir:
  assumes "copy_file source p t = Inr t'" "dir_at t q"
  shows "dir_at t' q"
proof -
  obtain c target where c: "t' = put t target (File c)" "dir_at t (butlast target)" "\<not> dir_at t target"
    using assms(1) by (auto simp: copy_file_def Let_def split: option.splits if_splits)
  then have "target \<noteq> []" by auto
  then show ?thesis using put_file(3) [OF c(2) _ c(3)] assms(2) c(1) by simp
qed

lemma stage_keeps_dir:
  "maintains (\<lambda>d. dir_at (dk_tree d) q) (extract_application_data E faults archive staged ps)"
  "maintains (\<lambda>d. dir_at (dk_tree d) q) (preserve_identity faults home staged ps)"
proof -
  have ops: "maintains (\<lambda>d. dir_at (dk_tree d) q) (fs_op faults (\<lambda>n. mkdirs n p))"
    "maintains (\<lambda>d. dir_at (dk_tree d) q) (fs_op faults (create_file p c))"
    "maintains (\<lambda>d. dir_at (dk_tree d) q) (fs_op faults (copy_file p p'))" for p p' c
    by (auto intro!: keeps_dir_op simp: mkdirs_result(3) create_file_result(3) intro: copy_file_keeps_dir)
  have "maintains (\<lambda>d. dir_at (dk_tree d) q) (extract_member faults staged x)" for x
    by (auto simp: extract_member_def split: prod.split member_kind.split intro!: maintains_sbind ops)
  then show "maintains (\<lambda>d. dir_at (dk_tree d) q) (extract_application_data E faults archive staged ps)"
    by (auto simp: extract_application_data_def split: option.split intro!: maintains_rules)
  have "maintains (\<lambda>d. dir_at (dk_tree d) q) (preserve_file faults home staged p)" for p
  proof -
    have "maintains (\<lambda>d. dir_at (dk_tree d) q) (sbind (fs_op faults (\<lambda>n. mkdirs n (butlast (staged @ p))))
        (\<lambda>_. fs_op faults (copy_file (home @ p) (staged @ p))))" by (intro maintains_sbind ops)
    then show ?thesis by (auto simp: maintains_def preserve_file_def)
  qed
  then show "maintains (\<lambda>d. dir_at (dk_tree d) q) (preserve_identity faults home staged ps)"
    unfolding preserve_identity_def by (intro maintains_rules) auto
qed

section \<open>A restore as a whole\<close>

text \<open>What a complete restore leaves in the application directories: the local identity files and the
  files of the archive.\<close>

definition restored_file :: "restore_env \<Rightarrow> tar_member list option \<Rightarrow> path \<Rightarrow> node \<Rightarrow> path \<Rightarrow> string option" where
  "restored_file E archive home n rel =
     (case protected_paths E n home of
        Inl _ \<Rightarrow> None
      | Inr ps \<Rightarrow>
          if rel \<in> set ps then file_at n (home @ rel)
          else case archive of None \<Rightarrow> None
          | Some members \<Rightarrow> (case application_members E ps members of Inl _ \<Rightarrow> None | Inr selected \<Rightarrow> map_of (member_files selected) rel))"

definition restored :: "restore_env \<Rightarrow> tar_member list option \<Rightarrow> path \<Rightarrow> node \<Rightarrow> node \<Rightarrow> bool" where
  "restored E archive home n n' \<longleftrightarrow>
     (\<forall>r \<in> set ROOTS. dir_at n' (home @ [r]) \<and>
        (\<forall>p. file_at n' (home @ r # p) = restored_file E archive home n (r # p) \<and> \<not> link_at n' (home @ r # p)))"

lemma staged_contents:
  assumes "fold_ok E" "home_ok home n" "work_name w" "protected_paths E n home = Inr ps"
    and "application_members E ps members = Inr selected"
    and "smap (extract_member faults (home @ [w, ''staged''])) selected d1 = (Inr us, d2)"
    and "preserve_identity faults home (home @ [w, ''staged'']) ps d2 = (Inr u, d3)"
    and "holds_files (home @ [w, ''staged'']) (\<lambda>_. None) stage_dirs (dk_tree d1)"
    and "only_at {home @ [w]} n (dk_tree d2)"
  shows "file_at (dk_tree d3) (home @ w # ''staged'' # rel) = restored_file E (Some members) home n rel \<and>
    \<not> link_at (dk_tree d3) (home @ w # ''staged'' # rel)"
proof -
  let ?s = "home @ [w, ''staged'']"
  have sel: "p \<noteq> [] \<and> is_protected_member E p m (map (path_key E) ps) = Inr False" if "(m, p) \<in> set selected" for m p
    using application_members_paths [OF assms(5) that] by simp
  have "holds_files ?s (map_of (member_files ([] @ selected))) (snd ` set ([] @ selected) \<union> stage_dirs) (dk_tree d2)"
    by (rule extract_members_hold [OF assms(6)]) (use sel assms(8) in \<open>auto simp: member_files_def\<close>)
  then have h2: "holds_files ?s (map_of (member_files selected)) (snd ` set selected \<union> stage_dirs) (dk_tree d2)" by simp
  have outside: "\<not> prefix p p'" if "p \<in> set ps" "p' \<in> snd ` set selected \<union> stage_dirs" for p p'
  proof (cases "p' \<in> snd ` set selected")
    case True
    then show ?thesis using that(1) sel member_outside_protected [OF assms(1)] protected_paths_ok [OF assms(4,2) that(1)] by fastforce
  next
    case False
    then have "length p' = 1" using that(2) by (auto simp: stage_dirs_def)
    then show ?thesis using protected_paths_ok [OF assms(4,2) that(1)] prefix_length_le [of p p'] by auto
  qed
  have ok: "\<forall>p \<in> set ps \<union> {}. plain n (home @ p) \<and> \<not> dir_at n (home @ p) \<and> p \<noteq> [] \<and> hd p \<in> set ROOTS \<and>
      \<not> (\<exists>p' \<in> snd ` set selected \<union> stage_dirs. prefix p p')"
    using outside protected_paths_ok [OF assms(4,2)] by fastforce
  obtain us' where run: "smap (preserve_file faults home ?s) ps d2 = (Inr us', d3)"
    using assms(7) by (auto simp: preserve_identity_def sret_def elim!: sbind_Inr)
  have "with_local n home {} (map_of (member_files selected)) = map_of (member_files selected)" by (simp add: with_local_def fun_eq_iff)
  then obtain dirs' where h3: "holds_files ?s (with_local n home (set ps) (map_of (member_files selected))) dirs' (dk_tree d3)"
    and exist: "\<forall>p \<in> set ps. lookup n (home @ p) \<noteq> None \<longrightarrow> file_at n (home @ p) \<noteq> None"
    using preserve_files_hold [OF run assms(3) _ assms(9) ok, of "map_of (member_files selected)"] assms(2) h2
    by (auto simp: home_ok_def)
  have "map_of (member_files selected) p = None" if "p \<in> set ps" for p
  proof -
    have "(p, c) \<in> set (member_files selected) \<Longrightarrow> p \<in> snd ` set selected" for c
      by (force simp: member_files_def split: member_kind.splits)
    then show ?thesis using outside [OF that, of p] by (auto simp: map_of_eq_None_iff)
  qed
  then have "with_local n home (set ps) (map_of (member_files selected)) rel = restored_file E (Some members) home n rel"
    using assms(4,5) exist by (auto simp: with_local_def restored_file_def file_at_def)
  then show ?thesis using h3 by (simp add: holds_files_def)
qed

definition restore_area :: "path \<Rightarrow> string \<Rightarrow> path set" where
  "restore_area home w = insert (home @ [w]) ((\<lambda>r. home @ [r]) ` set ROOTS)"

lemma only_at_work: "only_at {home @ [w, x]} n n' \<Longrightarrow> only_at {home @ [w]} n n'"
  by (erule only_at_mono) simp

lemma exchange_in_area: "only_at (exchange_paths home w) n n' \<Longrightarrow> only_at (restore_area home w) n n'"
  by (erule only_at_mono) (auto simp: exchange_paths_def slot_paths_def restore_area_def)

lemma work_in_area: "only_at {home @ [w]} n n' \<Longrightarrow> only_at (restore_area home w) n n'"
  by (erule only_at_mono) (auto simp: restore_area_def)

text \<open>What can go wrong between the preparation and the end, and where the data is then.\<close>

lemma staging_outcome:
  assumes "replace_data E faults archive home (home @ [w]) ps d1 = (r, d4)" "\<forall>p \<in> set ps. p \<noteq> []"
  obtains (before) e where "r = Inl e" "only_at {home @ [w, ''staged'']} (dk_tree d1) (dk_tree d4)"
  | (published) members selected us d2 u d3 where "archive = Some members" "application_members E ps members = Inr selected"
      "smap (extract_member faults (home @ [w, ''staged''])) selected d1 = (Inr us, d2)"
      "preserve_identity faults home (home @ [w, ''staged'']) ps d2 = (Inr u, d3)"
      "publish faults home (home @ [w, ''staged'']) (home @ [w, ''backup'']) d3 = (r, d4)"
      "only_at {home @ [w, ''staged'']} (dk_tree d1) (dk_tree d2)" "only_at {home @ [w, ''staged'']} (dk_tree d1) (dk_tree d3)"
      "\<And>q. dir_at (dk_tree d1) q \<Longrightarrow> dir_at (dk_tree d3) q"
proof -
  let ?s = "home @ [w, ''staged'']"
  obtain r2 d2 where 2: "extract_application_data E faults archive ?s ps d1 = (r2, d2)" by fastforce
  obtain r3 d3 where 3: "preserve_identity faults home ?s ps d2 = (r3, d3)" by fastforce
  let ?check = "rbind (validate_store E (home @ [w, ''staged'', ''xian'']) (dk_tree d2)) (\<lambda>present.
      guard present (ValueError ''snapshot is missing its execution policy''))"
  have run: "(r, d4) = (case r2 of Inl e \<Rightarrow> (Inl e, d2) | Inr _ \<Rightarrow> (case ?check of Inl e \<Rightarrow> (Inl e, d2) | Inr _ \<Rightarrow>
      (case r3 of Inl e \<Rightarrow> (Inl e, d3) | Inr _ \<Rightarrow> publish faults home ?s (home @ [w, ''backup'']) d3)))"
    unfolding assms(1) [symmetric] replace_data_def append_assoc append.simps sbind_def 2 3 prod.case by (rule refl)
  have o2: "only_at {?s} (dk_tree d1) (dk_tree d2)" using maintainsD [OF extract_unchanged _ 2] by simp
  then have o3: "only_at {?s} (dk_tree d1) (dk_tree d3)" by (rule maintainsD [OF preserve_unchanged [OF assms(2)] _ 3])
  have dirs: "dir_at (dk_tree d3) q" if "dir_at (dk_tree d1) q" for q
    using maintainsD [OF stage_keeps_dir(2) maintainsD [OF stage_keeps_dir(1) that 2] 3] .
  consider e where "r = Inl e" "d4 = d2" | e where "r = Inl e" "d4 = d3"
    | u v where "r2 = Inr u" "r3 = Inr v" "publish faults home ?s (home @ [w, ''backup'']) d3 = (r, d4)"
    using run by (auto split: sum.splits)
  then show thesis
  proof cases
    case 1
    then show thesis using before o2 by blast
  next
    case 2
    then show thesis using before o3 by blast
  next
    case case3: 3
    then obtain members selected us where "archive = Some members" "application_members E ps members = Inr selected"
      "smap (extract_member faults ?s) selected d1 = (Inr us, d2)"
      using 2 by (auto simp: extract_application_data_def slift_def sret_def elim!: sbind_Inr split: option.splits)
    then show thesis using published case3 3 o2 o3 dirs by blast
  qed
qed

lemma replace_data_outcome:
  assumes run: "replace_data E faults archive home (home @ [w]) ps d1 = (r, d4)"
    and "fold_ok E" "home_ok home n" "work_name w" "protected_paths E n home = Inr ps" "only_at {home @ [w]} n (dk_tree d1)"
    and ws: "workspace_ok home w (dk_tree d1)" "lookup (dk_tree d1) (home @ [w, ''backup'']) = Some (Dir [])"
    and staged: "holds_files (home @ [w, ''staged'']) (\<lambda>_. None) stage_dirs (dk_tree d1)"
      "\<forall>name \<in> set ROOTS. dir_at (dk_tree d1) (home @ [w, ''staged'', name])"
  shows "only_at (restore_area home w) n (dk_tree d4) \<and> dir_at (dk_tree d4) (home @ [w, ''backup'']) \<and>
    (case r of
       Inr _ \<Rightarrow> restored E archive home n (dk_tree d4)
     | Inl e \<Rightarrow> (\<forall>name \<in> set ROOTS. lookup (dk_tree d4) (home @ [name]) = lookup n (home @ [name])) \<or>
         (\<not> single_fault faults \<and> e = rollback_failed \<and> (\<forall>name \<in> set ROOTS. safe home w name (lookup n (home @ [name])) (dk_tree d4))))"
proof -
  let ?s = "home @ [w, ''staged'']"
  have names: "name \<noteq> w \<and> name \<noteq> ''..''" if "name \<in> set ROOTS" for name using ROOTS_names [OF assms(4) that] .
  have "\<forall>p \<in> set ps. p \<noteq> []" using protected_paths_ok [OF assms(5,3)] by fastforce
  from run this show ?thesis
  proof (cases rule: staging_outcome)
    case (before e)
    have o: "only_at {home @ [w]} n (dk_tree d4)" using only_at_trans [OF assms(6) only_at_work [OF before(2)]] .
    have "lookup (dk_tree d4) (home @ [name]) = lookup n (home @ [name])" if "name \<in> set ROOTS" for name
      using local_lookup [OF o, of "[name]"] names [OF that] by simp
    moreover have "dir_at (dk_tree d4) (home @ [w, ''backup''])" using only_at_dir [OF before(2)] ws(1) by (auto simp: workspace_ok_def)
    ultimately show ?thesis using before(1) work_in_area [OF o] by simp
  next
    case (published members selected us d2 u d3)
    have o2: "only_at {home @ [w]} n (dk_tree d2)" and o3: "only_at {home @ [w]} n (dk_tree d3)"
      using only_at_trans [OF assms(6) only_at_work [OF published(6)]] only_at_trans [OF assms(6) only_at_work [OF published(7)]] .
    note contents = staged_contents [OF assms(2,3,4,5) published(2,3,4) staged(1) o2]
    have ws3: "workspace_ok home w (dk_tree d3)" using ws(1) published(8) by (auto simp: workspace_ok_def)
    define new where "new name = the (lookup (dk_tree d3) (home @ [w, ''staged'', name]))" for name
    have new: "dir_at (dk_tree d3) (home @ [w, ''staged'', name])" if "name \<in> set ROOTS" for name
      using staged(2) published(8) that by blast
    have slots: "no_link (lookup n (home @ [name])) \<and> slots home w name (dk_tree d3) = (lookup n (home @ [name]), Some (new name), None)"
      if "name \<in> set ROOTS" for name
    proof -
      have "lookup (dk_tree d3) (home @ [w, ''backup'']) = Some (Dir [])"
        using only_atD [OF published(7), of "home @ [w, ''backup'']"] ws(2) by simp
      then have "lookup (dk_tree d3) (home @ [w, ''backup'', name]) = None"
        using lookup_append [of "dk_tree d3" "home @ [w, ''backup'']" "[name]"] by simp
      moreover have "no_link (lookup n (home @ [name]))" using assms(3) that by (auto simp: home_ok_def no_link_def link_at_iff)
      ultimately show ?thesis using new [OF that] local_lookup [OF o3, of "[name]"] names [OF that]
        by (auto simp: slots_def new_def dir_at_iff)
    qed
    have out: "only_at (exchange_paths home w) (dk_tree d3) (dk_tree d4) \<and>
      (case r of Inr _ \<Rightarrow> (\<forall>name \<in> set ROOTS. slots home w name (dk_tree d4) = (Some (new name), None, lookup n (home @ [name])))
       | Inl e \<Rightarrow> (\<forall>name \<in> set ROOTS. lookup (dk_tree d4) (home @ [name]) = lookup n (home @ [name]) \<and> lookup (dk_tree d4) (home @ [w, ''backup'', name]) = None) \<or>
           (\<not> single_fault faults \<and> e = rollback_failed \<and> (\<forall>name \<in> set ROOTS. safe home w name (lookup n (home @ [name])) (dk_tree d4))))"
      by (rule publish_exchange [OF published(5) ws3 assms(4) slots])
    have "restored E archive home n (dk_tree d4)"
      if moved: "\<forall>name \<in> set ROOTS. slots home w name (dk_tree d4) = (Some (new name), None, lookup n (home @ [name]))"
    proof -
      have "lookup (dk_tree d4) (home @ name # p) = lookup (dk_tree d3) (home @ w # ''staged'' # name # p)" if "name \<in> set ROOTS" for name p
        using moved that new [OF that] lookup_append [of "dk_tree d4" "home @ [name]" p]
          lookup_append [of "dk_tree d3" "home @ [w, ''staged'', name]" p]
        by (auto simp: slots_def new_def dir_at_iff)
      then show ?thesis using contents new published(1) by (auto simp: restored_def file_at_def link_at_def dir_at_def)
    qed
    moreover have "only_at (restore_area home w) n (dk_tree d4)"
      using only_at_trans [OF work_in_area [OF o3] exchange_in_area] out by blast
    moreover have "dir_at (dk_tree d4) (home @ [w, ''backup''])"
      by (rule only_at_dir [OF conjunct1 [OF out]]) (use ws3 names in \<open>auto simp: workspace_ok_def exchange_paths_def slot_paths_def\<close>)
    ultimately show ?thesis using out by (auto split: sum.splits)
  qed
qed

lemma in_entries: "lookup n (p @ [x]) \<noteq> None \<Longrightarrow> x \<in> set (entries_at n p)"
proof -
  assume "lookup n (p @ [x]) \<noteq> None"
  then obtain m y where m: "lookup n p = Some m" "lookup m [x] = Some y" by (auto simp: lookup_append split: option.splits)
  then obtain es where "m = Dir es" "map_of es x \<noteq> None" by (cases m) (auto split: option.splits)
  then show ?thesis using m(1) map_of_eq_None_iff [of es x] by (auto simp: entries_at_def)
qed

text \<open>A directory left in a backup blocks the next restore.\<close>

lemma backup_blocks:
  assumes "lookup n (home @ [WORK_PREFIX @ x, ''backup'', name]) = Some y"
  shows "\<not> is_ok (check_home n home)"
proof -
  have "WORK_PREFIX @ x \<in> set (entries_at n home)"
    using in_entries [of n home "WORK_PREFIX @ x"] assms lookup_append [of n "home @ [WORK_PREFIX @ x]" "[''backup'', name]"]
    by (auto split: option.splits)
  moreover have "entries_at n (home @ [WORK_PREFIX @ x, ''backup'']) \<noteq> []"
    using in_entries [of n "home @ [WORK_PREFIX @ x, ''backup'']" name] assms by auto
  ultimately have "\<not> list_all (\<lambda>previous. entries_at n (home @ [previous, ''backup'']) = [])
      (filter (prefix WORK_PREFIX) (entries_at n home))"
    by (auto simp: list_all_iff)
  then show ?thesis by (simp add: check_home_def)
qed

lemma rmtree_result:
  assumes "rmtree faults p d = (r, d')" "lookup (dk_tree d) p \<noteq> None" "p \<noteq> []"
  shows "only_at {p} (dk_tree d) (dk_tree d') \<and> (r = Inr () \<and> lookup (dk_tree d') p = None \<or> r = Inl os_error)"
  using assms lookup_remove_below [of p "dk_tree d" "[]"]
  by (auto simp: rmtree_def Let_def intro: only_at_put only_at_remove split: option.splits)

lemma work_name_prefix: "work_name (WORK_PREFIX @ x)"
  by (auto simp: work_name_def ROOTS_def WORK_PREFIX_def)

text \<open>An application directory as it was, or set aside in a way that blocks the next restore.\<close>

definition not_lost :: "path \<Rightarrow> string \<Rightarrow> node \<Rightarrow> node \<Rightarrow> bool" where
  "not_lost home w n n' \<longleftrightarrow>
     (\<forall>name \<in> set ROOTS. lookup n (home @ [name]) = None \<or> lookup n' (home @ [name]) = lookup n (home @ [name]) \<or>
        (lookup n' (home @ [w, ''backup'', name]) = lookup n (home @ [name]) \<and> \<not> is_ok (check_home n' home)))"

definition same_data :: "path \<Rightarrow> node \<Rightarrow> node \<Rightarrow> bool" where
  "same_data home n n' \<longleftrightarrow> (\<forall>name \<in> set ROOTS. lookup n' (home @ [name]) = lookup n (home @ [name]))"

lemma same_data_not_lost: "same_data home n n' \<Longrightarrow> not_lost home w n n'"
  by (auto simp: same_data_def not_lost_def)

lemma restored_work:
  assumes "restored E archive home n t" "only_at {home @ [w]} t t'" "work_name w"
  shows "restored E archive home n t'"
proof -
  have "lookup t' (home @ r # p) = lookup t (home @ r # p)" if "r \<in> set ROOTS" for r p
    using local_lookup [OF assms(2), of "r # p"] ROOTS_names [OF assms(3) that] by simp
  then show ?thesis using assms(1) by (auto simp: restored_def file_at_def link_at_def dir_at_def)
qed

lemma same_data_work:
  assumes "same_data home n t" "only_at {home @ [w]} t t'" "work_name w"
  shows "same_data home n t'"
  using assms local_lookup [OF assms(2)] ROOTS_names [OF assms(3)] by (auto simp: same_data_def)

lemma restore_outcome:
  assumes "restore_archive_at E faults x archive home d = (r, d')" "fold_ok E" "''..'' \<notin> set home" "dir_at (dk_tree d) home"
  shows "only_at (restore_area home (WORK_PREFIX @ x)) (dk_tree d) (dk_tree d') \<and>
    (case r of
       Inr _ \<Rightarrow> restored E archive home (dk_tree d) (dk_tree d') \<and> lookup (dk_tree d) (home @ [WORK_PREFIX @ x]) = None \<and>
         lookup (dk_tree d') (home @ [WORK_PREFIX @ x]) = None \<and> home_ok home (dk_tree d) \<and> is_ok (protected_paths E (dk_tree d) home)
     | Inl e \<Rightarrow> same_data home (dk_tree d) (dk_tree d') \<or>
         e = os_error \<and> restored E archive home (dk_tree d) (dk_tree d') \<or>
         \<not> single_fault faults \<and> e \<in> {rollback_failed, os_error} \<and> not_lost home (WORK_PREFIX @ x) (dk_tree d) (dk_tree d'))"
proof -
  let ?w = "WORK_PREFIX @ x" and ?n = "dk_tree d"
  let ?work = "home @ [?w]"
  let ?start = "rbind (check_home ?n home) (\<lambda>_. rbind (validate_store E (home @ [''xian'']) ?n) (\<lambda>_. protected_paths E ?n home))"
  let ?attempt = "\<lambda>ps. catch (replace_data E faults archive home ?work ps)
      (\<lambda>e d. if entries_at (dk_tree d) (?work @ [''backup'']) = [] then sbind (rmtree faults ?work) (\<lambda>_. slift (Inl e)) d else (Inl e, d))"
  have run: "restore_archive_at E faults x archive home d =
      (case ?start of Inl e \<Rightarrow> (Inl e, d) | Inr ps \<Rightarrow>
        sbind (prepare_workspace faults ?work) (\<lambda>_. sbind (?attempt ps) (\<lambda>_. rmtree faults ?work)) d)"
    unfolding restore_archive_at_def Let_def by (subst sbind_def) (simp only: prod.case)
  show ?thesis
  proof (cases ?start)
    case (Inl e)
    then show ?thesis using assms(1) run by (auto simp: same_data_def)
  next
    case (Inr ps)
    then have "check_home ?n home = Inr ()" and ps: "protected_paths E ?n home = Inr ps" by (auto elim!: rbind_InrE)
    then have home: "home_ok home ?n" using check_home_ok assms(3,4) by blast
    obtain r1 d1 where 1: "prepare_workspace faults ?work d = (r1, d1)" by fastforce
    have o1: "only_at {?work} ?n (dk_tree d1)" using maintainsD [OF prepare_unchanged _ 1] by simp
    have same1: "same_data home ?n (dk_tree d1)"
      by (rule same_data_work [OF _ o1 work_name_prefix]) (simp add: same_data_def)
    show ?thesis
    proof (cases r1)
      case (Inl e)
      then have "r = Inl e" "d' = d1" using assms(1) run Inr 1 by (auto simp: sbind_def)
      then show ?thesis using same1 work_in_area [OF o1] by simp
    next
      case r1: (Inr u)
      note prepared = prepared_workspace [OF 1 [unfolded r1] assms(3)]
      obtain r2 d2 where 2: "replace_data E faults archive home ?work ps d1 = (r2, d2)" by fastforce
      note out = replace_data_outcome [OF 2 assms(2) home work_name_prefix ps o1 prepared(2-5)]
      have there: "lookup (dk_tree d2) ?work \<noteq> None"
        using out lookup_append [of "dk_tree d2" ?work "[''backup'']"] by (auto simp: dir_at_iff split: option.splits)
      obtain r3 d3 where 3: "rmtree faults ?work d2 = (r3, d3)" by fastforce
      have "?work \<noteq> []" by simp
      note cleared = rmtree_result [OF 3 there this]
      have area3: "only_at (restore_area home ?w) ?n (dk_tree d3)"
        using out cleared only_at_trans work_in_area by blast
      show ?thesis
      proof (cases r2)
        case Inr
        have "r = r3" "d' = d3" using assms(1) run \<open>?start = Inr ps\<close> 1 r1 2 3 Inr by (auto simp: sbind_def catch_def)
        moreover have "restored E archive home ?n (dk_tree d3)"
          by (rule restored_work [OF _ conjunct1 [OF cleared] work_name_prefix]) (use out Inr in auto)
        ultimately show ?thesis using area3 cleared prepared(1) home ps by auto
      next
        case (Inl e)
        show ?thesis
        proof (cases "entries_at (dk_tree d2) (?work @ [''backup'']) = []")
          case True
          have end3: "r = (case r3 of Inl e' \<Rightarrow> Inl e' | Inr _ \<Rightarrow> Inl e)" "d' = d3"
            using assms(1) run Inr 1 r1 2 3 Inl True by (auto simp: sbind_def catch_def slift_def split: sum.splits)
          have "same_data home ?n (dk_tree d2) \<or> \<not> single_fault faults \<and> e = rollback_failed \<and> not_lost home ?w ?n (dk_tree d2)"
            using out Inl True in_entries [of "dk_tree d2" "?work @ [''backup'']"]
            by (fastforce simp: same_data_def not_lost_def safe_def)
          moreover have "not_lost home ?w ?n (dk_tree d3)" if "not_lost home ?w ?n (dk_tree d2)"
          proof -
            have "lookup (dk_tree d2) (home @ [?w, ''backup'', name]) = None" for name
              using True in_entries [of "dk_tree d2" "?work @ [''backup'']" name] by fastforce
            then have "lookup ?n (home @ [name]) = None \<or> lookup (dk_tree d2) (home @ [name]) = lookup ?n (home @ [name])" if "name \<in> set ROOTS" for name
              using \<open>not_lost home ?w ?n (dk_tree d2)\<close> that by (auto simp: not_lost_def)
            then show ?thesis using local_lookup [OF conjunct1 [OF cleared]] ROOTS_names [OF work_name_prefix [of x]]
              by (force simp: not_lost_def)
          qed
          moreover have "same_data home ?n (dk_tree d3)" if "same_data home ?n (dk_tree d2)"
            by (rule same_data_work [OF that conjunct1 [OF cleared] work_name_prefix])
          ultimately show ?thesis using end3 cleared area3 by (auto split: sum.splits)
        next
          case False
          have "r = Inl e" "d' = d2" using assms(1) run Inr 1 r1 2 Inl False by (auto simp: sbind_def catch_def)
          moreover have "not_lost home ?w ?n (dk_tree d2)" if "\<forall>name \<in> set ROOTS. safe home ?w name (lookup ?n (home @ [name])) (dk_tree d2)"
            using that backup_blocks [of "dk_tree d2" home x] unfolding not_lost_def safe_def by (metis not_None_eq)
          ultimately show ?thesis using out Inl by (auto simp: same_data_def)
        qed
      qed
    qed
  qed
qed

text \<open>C30: A restore is all or nothing.  Whatever operations fail, nothing outside the two application
  directories and the private directory changes, and a restore that returns has put exactly the
  files of the archive and the local identity files in place.  If at most one operation of the
  run fails, a restore that raises has left both application directories as they were, whether
  it failed before, during or after the exchange of the first of them, or has completed and
  only the removal of the private directory failed.  If more operations fail, so that the way
  back fails too, every original directory is still in its place or in a backup that
  blocks the next restore.\<close>

theorem restore_all_or_nothing:
  assumes "fold_ok E" "''..'' \<notin> set home" "dir_at (dk_tree d) home"
    and "restore_archive_at E faults x archive home d = (r, d')"
  shows "only_at (restore_area home (WORK_PREFIX @ x)) (dk_tree d) (dk_tree d') \<and>
    (case r of
       Inr _ \<Rightarrow> restored E archive home (dk_tree d) (dk_tree d')
     | Inl e \<Rightarrow> same_data home (dk_tree d) (dk_tree d') \<or>
         e = os_error \<and> restored E archive home (dk_tree d) (dk_tree d') \<or>
         \<not> single_fault faults \<and> e \<in> {rollback_failed, os_error} \<and> not_lost home (WORK_PREFIX @ x) (dk_tree d) (dk_tree d'))"
  using restore_outcome [OF assms(4,1-3)] by (auto split: sum.splits)

text \<open>C31: After a restore every identity file of the node, wherever the configuration and links put it,
  holds what it held before, whatever the archive contains.\<close>

theorem identity_survives_restore:
  assumes "fold_ok E" "''..'' \<notin> set home" "dir_at (dk_tree d) home"
    and "restore_archive_at E faults x archive home d = (Inr u, d')"
    and "identity_values E (dk_tree d) home = Inr vals" "v \<in> set vals"
    and "resolve_identity_path (dk_tree d) home 0 [] (join_path home v) = Inr q"
  shows "file_at (dk_tree d') q = file_at (dk_tree d) q"
proof -
  let ?w = "WORK_PREFIX @ x" and ?n = "dk_tree d" and ?n' = "dk_tree d'"
  have o: "only_at (restore_area home ?w) ?n ?n'" "restored E archive home ?n ?n'" "lookup ?n (home @ [?w]) = None"
    "lookup ?n' (home @ [?w]) = None" "home_ok home ?n"
    using restore_outcome [OF assms(4,1-3)] by auto
  obtain ps where ps: "protected_paths E ?n home = Inr ps" using restore_outcome [OF assms(4,1-3)] by (auto simp: is_ok_iff)
  note loc = identity_location_protected [OF ps o(5) assms(5-7)]
  consider (above) "prefix q home" | (root) r p where "r \<in> set ROOTS" "q = home @ r # p"
    | (work) p where "q = (home @ [?w]) @ p" | (outside) "\<forall>p \<in> restore_area home ?w. \<not> prefix p q \<and> \<not> prefix q p"
  proof (cases "prefix q home \<or> (\<exists>p \<in> restore_area home ?w. prefix p q)")
    case True
    then show thesis using above root work by (auto simp: restore_area_def elim!: prefixE)
  next
    case False
    then have "\<not> prefix q p" if "p \<in> restore_area home ?w" for p
      using that by (auto simp: restore_area_def prefix_snoc)
    then show thesis using False outside by blast
  qed
  then show ?thesis
  proof cases
    case above
    then have "dir_at ?n q" using assms(3) dir_above [of ?n q] by (metis append_Nil2 dir_at_iff prefixE)
    then show ?thesis using loc by simp
  next
    case root
    then have "r # p \<in> set ps" using loc by blast
    then show ?thesis using o(2) root ps by (simp add: restored_def restored_file_def)
  next
    case work
    then show ?thesis using o(3,4) lookup_append [of _ "home @ [?w]" p] by (simp add: file_at_def)
  next
    case outside
    then show ?thesis using only_atD [OF o(1), of q] by (simp add: file_at_def)
  qed
qed

section \<open>A restore, evaluated\<close>

definition sample_restore_env :: restore_env where
  "sample_restore_env =
     \<lparr>re_load_toml = \<lambda>_. Inr (PDict [(PStr ''node_key_file'', PStr ''data/node_key.json'')]),
      re_loads = sample_loads,
      re_store = \<lambda>t. case t of
          Some (Dir es) \<Rightarrow> if map_of es ''lmdb'' = None then None else Some [(EXECUTION_POLICY_KEY, policy_text)]
        | _ \<Rightarrow> None,
      re_fold = id\<rparr>"

definition sample_home :: disk where
  "sample_home = \<lparr>dk_tree = Dir [(''home'', Dir
     [(''config'', Dir [(''config.toml'', File ''node''), (''priv_validator_key.json'', Link ''../data/key.json'')]),
      (''data'', Dir [(''priv_validator_state.json'', File ''mine''), (''key.json'', File ''secret''), (''old'', File ''o'')])])],
     dk_clock = 0\<rparr>"

definition sample_members :: "tar_member list" where
  "sample_members =
     [\<lparr>tm_name = ''data/'', tm_kind = Directory\<rparr>, \<lparr>tm_name = ''data/key.json'', tm_kind = RegularFile ''theirs''\<rparr>,
      \<lparr>tm_name = ''data/block'', tm_kind = RegularFile ''b''\<rparr>, \<lparr>tm_name = ''xian/lmdb/data.mdb'', tm_kind = RegularFile ''s''\<rparr>]"

definition sample_run :: "faults \<Rightarrow> unit res \<times> disk" where
  "sample_run faults = restore_archive_at sample_restore_env faults ''1'' (Some sample_members) [''home''] sample_home"

lemma sample_fold: "fold_ok sample_restore_env"
  by (simp add: fold_ok_def sample_restore_env_def)

lemma sample_home_dir: "dir_at (dk_tree sample_home) [''home'']"
  by (simp add: sample_home_def)

lemma sample_success: "sample_run (\<lambda>_. None) = (Inr (), snd (sample_run (\<lambda>_. None))) \<and>
  dk_tree (snd (sample_run (\<lambda>_. None))) = Dir [(''home'', Dir
     [(''config'', Dir [(''config.toml'', File ''node''), (''priv_validator_key.json'', Link ''../data/key.json'')]),
      (''data'', Dir [(''block'', File ''b''), (''priv_validator_state.json'', File ''mine''), (''key.json'', File ''secret'')]),
      (''xian'', Dir [(''lmdb'', Dir [(''data.mdb'', File ''s'')])])])]"
  by code_simp

lemma sample_restore: "restore_archive_at sample_restore_env (\<lambda>_. None) ''1'' (Some sample_members) [''home''] sample_home
    = (Inr (), snd (sample_run (\<lambda>_. None)))"
  using sample_success by (simp add: sample_run_def)

text \<open>One operation fails: the move of the second new directory into its place, when the first one
  has already been exchanged.\<close>

definition late_fault :: faults where
  "late_fault i = (if i = 15 then Some id else None)"

lemma late_fault_run:
  "fst (sample_run late_fault) = Inl os_error" "\<not> dir_at (dk_tree (snd (sample_run late_fault))) [''home'', ''xian'']"
  by code_simp+

theorem restore_all_or_nothing_witness:
  "fst (sample_run late_fault) = Inl os_error \<and>
   same_data [''home''] (dk_tree sample_home) (dk_tree (snd (sample_run late_fault)))"
proof -
  have run: "restore_archive_at sample_restore_env late_fault ''1'' (Some sample_members) [''home''] sample_home
      = (Inl os_error, snd (sample_run late_fault))"
    using late_fault_run(1) unfolding sample_run_def by (metis prod.collapse)
  have "single_fault late_fault" by (simp add: single_fault_def late_fault_def)
  moreover have "\<not> restored sample_restore_env (Some sample_members) [''home''] (dk_tree sample_home) (dk_tree (snd (sample_run late_fault)))"
    using late_fault_run(2) by (auto simp: restored_def ROOTS_def)
  ultimately show ?thesis
    using restore_all_or_nothing [OF sample_fold _ sample_home_dir run] late_fault_run(1) by simp
qed

lemma sample_identity:
  "identity_values sample_restore_env (dk_tree sample_home) [''home''] =
     Inr [''data/node_key.json'', ''data/priv_validator_state.json'', ''config/priv_validator_key.json'', ''config/node_key.json'']"
  "resolve_identity_path (dk_tree sample_home) [''home''] 0 [] (join_path [''home''] ''config/priv_validator_key.json'')
     = Inr [''home'', ''data'', ''key.json'']"
  by code_simp+

theorem identity_survives_restore_witness:
  "file_at (dk_tree (snd (sample_run (\<lambda>_. None)))) [''home'', ''data'', ''key.json''] = Some ''secret''"
proof -
  have "file_at (dk_tree (snd (sample_run (\<lambda>_. None)))) [''home'', ''data'', ''key.json'']
      = file_at (dk_tree sample_home) [''home'', ''data'', ''key.json'']"
    by (rule identity_survives_restore [OF sample_fold _ sample_home_dir sample_restore sample_identity(1) _ sample_identity(2)]) simp_all
  then show ?thesis by (simp add: sample_home_def file_at_def)
qed

end
