(* ===== verification/Genesis_Builder.thy ===== *)
theory Genesis_Builder
  imports Node_Protocol Runtime_Features File_System
begin

text \<open>
  The construction of a genesis document (\<^verbatim>\<open>src/src/xian/genesis_builder.py\<close>): a bundle of
  contracts is deployed into an empty store, the pending writes are committed, sorted and signed
  as the genesis block, and the block becomes part of the document CometBFT reads.  Parameters are
  the storage driver and the native machine, the compiler of the submission contract, accounts and
  signatures, the digests, the encoders of the runtime types, the parser of ISO times and the
  text of the files under the contracts directory.
\<close>

record 'd genesis_env =
  ge_driver :: "'d driver"
  ge_fresh_driver :: 'd
  ge_vm :: "'d vm_env"
  ge_bindings :: "vm_bindings option"
  ge_hash :: hash_env
  ge_features :: "'d feature_env"
  ge_text :: text_env
  ge_submission_artifacts :: "(pyval \<times> pyval) res"
  ge_set_contract :: "string \<Rightarrow> pyval \<Rightarrow> pyval \<Rightarrow> pyval \<Rightarrow> 'd \<Rightarrow> 'd"
  ge_has_contract :: "'d \<Rightarrow> pyval \<Rightarrow> bool"
  ge_public_key :: "string \<Rightarrow> string res"
  ge_sign_msg :: "string \<Rightarrow> string \<Rightarrow> string"
  ge_encode :: "pyval \<Rightarrow> string res"
  ge_encode_wire :: "pyval \<Rightarrow> string res"
  ge_sha3_256 :: "string \<Rightarrow> string"
  ge_sha256 :: "string \<Rightarrow> string"
  ge_b64encode :: "string \<Rightarrow> string"
  ge_read_text :: "path \<Rightarrow> string res"
  ge_json_loads :: "string \<Rightarrow> pyval res"
  ge_fromisoformat :: "string \<Rightarrow> (int \<times> int option) res"
  ge_now :: int
  ge_datetime :: "int \<Rightarrow> pyval"

section \<open>Time\<close>

text \<open>
  A datetime is its local time in microseconds since 1970 and the offset of its zone, if it has
  one.  \<open>civil\<close> is the proleptic Gregorian date of a day.
\<close>

definition civil :: "int \<Rightarrow> int \<times> int \<times> int" where
  "civil days =
     (let z = days + 719468; era = z div 146097; doe = z mod 146097;
          yoe = (doe - doe div 1460 + doe div 36524 - doe div 146096) div 365;
          doy = doe - (365 * yoe + yoe div 4 - yoe div 100);
          mp = (5 * doy + 2) div 153;
          m = (if mp < 10 then mp + 3 else mp - 9)
      in (yoe + era * 400 + (if m \<le> 2 then 1 else 0), m, doy - (153 * mp + 2) div 5 + 1))"

definition padded :: "nat \<Rightarrow> int \<Rightarrow> string" where
  "padded width i = (let t = str_int i in replicate (width - length t) (CHR ''0'') @ t)"

definition DAY_MICROSECONDS :: int where "DAY_MICROSECONDS = 86400000000"

text \<open>\<^verbatim>\<open>isoformat(timespec="microseconds").replace("+00:00", "Z")\<close> of a UTC time.\<close>

definition iso_utc :: "int \<Rightarrow> string" where
  "iso_utc t =
     (let (y, m, d) = civil (t div DAY_MICROSECONDS); us = t mod DAY_MICROSECONDS; s = us div 1000000 in
      padded 4 y @ ''-'' @ padded 2 m @ ''-'' @ padded 2 d @ ''T'' @ padded 2 (s div 3600) @ '':'' @
      padded 2 (s div 60 mod 60) @ '':'' @ padded 2 (s mod 60) @ ''.'' @ padded 6 (us mod 1000000) @ ''Z'')"

definition in_datetime_range :: "int \<Rightarrow> bool" where
  "in_datetime_range t = (case civil (t div DAY_MICROSECONDS) of (y, _, _) \<Rightarrow> 1 \<le> y \<and> y \<le> 9999)"

definition utc_instant :: "'d genesis_env \<Rightarrow> string option \<Rightarrow> int res" where
  "utc_instant G value =
     rbind (case value of None \<Rightarrow> Inr (ge_now G, Some 0) | Some s \<Rightarrow> ge_fromisoformat G s) (\<lambda>(local, offset).
     case offset of
       None \<Rightarrow> Inl (ValueError ''genesis_time must include a timezone'')
     | Some off \<Rightarrow> if in_datetime_range (local - off) then Inr (local - off) else Inl (OtherError ''OverflowError''))"

definition normalize_genesis_time :: "'d genesis_env \<Rightarrow> string option \<Rightarrow> string res" where
  "normalize_genesis_time G value = rbind (utc_instant G value) (\<lambda>t. Inr (iso_utc t))"

text \<open>The runtime's \<^verbatim>\<open>Datetime\<close> is built from the fields of the local time.\<close>

definition parse_genesis_time :: "'d genesis_env \<Rightarrow> string option \<Rightarrow> pyval res" where
  "parse_genesis_time G value =
     rbind (normalize_genesis_time G value) (\<lambda>t.
     rbind (ge_fromisoformat G t) (\<lambda>(local, _). Inr (ge_datetime G local)))"

section \<open>Bundles\<close>

text \<open>The base-class \<^verbatim>\<open>%%(.*?)%%\<close>: the first pair of markers with no line break between them.\<close>

fun lazy_group :: "string \<Rightarrow> string option" where
  "lazy_group s =
     (if take 2 s = ''%%'' then Some []
      else case s of [] \<Rightarrow> None | c # rest \<Rightarrow> if c = CHR 0x0A then None else map_option ((#) c) (lazy_group rest))"

declare lazy_group.simps [simp del]

fun search_template :: "string \<Rightarrow> string option" where
  "search_template s =
     (case (if take 2 s = ''%%'' then lazy_group (drop 2 s) else None) of
        Some name \<Rightarrow> Some name
      | None \<Rightarrow> (case s of [] \<Rightarrow> None | c # rest \<Rightarrow> search_template rest))"

declare search_template.simps [simp del]

text \<open>\<^verbatim>\<open>s.replace(old, new)\<close>.\<close>

function replace_text :: "string \<Rightarrow> string \<Rightarrow> string \<Rightarrow> string" where
  "replace_text old new s =
     (if old = [] \<or> s = [] then s
      else if prefix old s then new @ replace_text old new (drop (length old) s)
      else hd s # replace_text old new (tl s))"
  by pat_completeness auto

termination
  by (relation "measure (\<lambda>(old, new, s). length s)") auto

declare replace_text.simps [simp del]

definition render_text :: "(string, string) dict \<Rightarrow> string \<Rightarrow> string res" where
  "render_text substitutions s =
     (case search_template s of
        None \<Rightarrow> Inr s
      | Some name \<Rightarrow>
          (case map_of substitutions name of
             None \<Rightarrow> Inl (KeyError name)
           | Some replacement \<Rightarrow> Inr (replace_text (''%%'' @ name @ ''%%'') replacement s)))"

fun render_template_values :: "(string, string) dict \<Rightarrow> pyval \<Rightarrow> pyval res" where
  "render_template_values subs (PStr s) = rbind (render_text subs s) (\<lambda>t. Inr (PStr t))"
| "render_template_values subs (PList xs) = rbind (mapR (render_template_values subs) xs) (\<lambda>ys. Inr (PList ys))"
| "render_template_values subs (PDict kvs) =
     rbind (mapR (\<lambda>kv. rbind (render_template_values subs (snd kv)) (\<lambda>v. Inr (fst kv, v))) kvs) (\<lambda>kvs. Inr (PDict kvs))"
| "render_template_values subs v = Inr v"

definition load_contract_bundle_config :: "'d genesis_env \<Rightarrow> string \<Rightarrow> path \<Rightarrow> pyval res" where
  "load_contract_bundle_config G network contracts_dir =
     rbind (ge_read_text G (join_path contracts_dir (''contracts_'' @ network @ ''.json''))) (ge_json_loads G)"

text \<open>\<^verbatim>\<open>value[key]\<close> as a list, and \<^verbatim>\<open>contract.get(key)\<close>, which other values do not have.\<close>

definition list_item :: "pyval \<Rightarrow> string \<Rightarrow> pyval list res" where
  "list_item v k = rbind (dindex v k) iter_list"

definition pget :: "pyval \<Rightarrow> string \<Rightarrow> pyval \<Rightarrow> pyval res" where
  "pget v k d = (if is_dict v then Inr (dget_or v k d) else Inl (OtherError ''AttributeError''))"

fun find_named :: "string \<Rightarrow> pyval list \<Rightarrow> pyval res" where
  "find_named name [] = Inl (ValueError ''contract bundle does not define validators seed data'')"
| "find_named name (c # cs) =
     rbind (pget c ''name'' PNone) (\<lambda>n. if n = PStr name then Inr c else find_named name cs)"

definition find_validators_contract :: "pyval \<Rightarrow> pyval res" where
  "find_validators_contract contract_config = rbind (list_item contract_config ''contracts'') (find_named ''validators'')"

definition genesis_contract_name :: "pyval \<Rightarrow> (string, string) dict \<Rightarrow> pyval res" where
  "genesis_contract_name contract substitutions =
     rbind (dindex contract ''name'') (\<lambda>name.
     rbind (render_template_values substitutions name) (\<lambda>contract_name.
     let submit_as = dget_or contract ''submit_as'' PNone in
     if submit_as \<noteq> PNone then render_template_values substitutions submit_as else Inr contract_name))"

section \<open>Deployment\<close>

definition stage_native_submission_contract :: "'d genesis_env \<Rightarrow> pyval \<Rightarrow> ('d, unit) step" where
  "stage_native_submission_contract G submission_time d =
     (case ge_submission_artifacts G of
        Inl e \<Rightarrow> (Inl e, d)
      | Inr (source, vm_ir_json) \<Rightarrow> (Inr (), ge_set_contract G ''submission'' source vm_ir_json submission_time d))"

definition submit_request :: "pyval \<Rightarrow> string \<Rightarrow> pyval \<Rightarrow> pyval \<Rightarrow> pyval \<Rightarrow> vm_request" where
  "submit_request contract_name source owner constructor_args submission_time =
     \<lparr>rq_sender = PStr ''sys'', rq_contract = ''submission'', rq_function = ''submit_contract'',
      rq_kwargs = PDict [(PStr ''name'', contract_name), (PStr ''code'', PStr source), (PStr ''owner'', owner),
        (PStr ''constructor_args'', py_or constructor_args (PDict []))],
      rq_environment = [(''now'', submission_time)], rq_meter = False, rq_chi_budget = 0, rq_size_bytes = 0\<rparr>"

definition deploy_native_genesis_contract ::
    "'d genesis_env \<Rightarrow> pyval \<Rightarrow> string \<Rightarrow> pyval \<Rightarrow> pyval \<Rightarrow> pyval \<Rightarrow> ('d, unit) step" where
  "deploy_native_genesis_contract G contract_name source owner constructor_args submission_time d =
     (case execute_vm_contract (ge_vm G) d (submit_request contract_name source owner constructor_args submission_time) of
        (Inl e, d) \<Rightarrow> (Inl e, d)
      | (Inr out, d) \<Rightarrow>
          if vo_status out \<noteq> 0 then (Inl (ValueError ''Failed to deploy genesis contract''), d)
          else (Inr (), d_apply_writes (ge_driver G) (vo_writes out) d))"

text \<open>\<^verbatim>\<open>overrides.get(name)\<close>; lists and dicts cannot be keys.\<close>

definition override_for :: "(pyval \<times> pyval) list \<Rightarrow> pyval \<Rightarrow> pyval res" where
  "override_for overrides name =
     (case name of
        PList _ \<Rightarrow> Inl (TypeError ''unhashable type'')
      | PDict _ \<Rightarrow> Inl (TypeError ''unhashable type'')
      | _ \<Rightarrow> Inr (case map_of overrides name of None \<Rightarrow> PNone | Some v \<Rightarrow> v))"

definition override_args :: "(pyval \<times> pyval) list option \<Rightarrow> pyval \<Rightarrow> pyval \<Rightarrow> pyval res" where
  "override_args constructor_overrides contract_name name =
     (case constructor_overrides of
        None \<Rightarrow> Inr PNone
      | Some overrides \<Rightarrow>
          rbind (override_for overrides contract_name) (\<lambda>v. if truthy v then Inr v else override_for overrides name))"

definition merge_constructor_args :: "pyval \<Rightarrow> pyval \<Rightarrow> pyval res" where
  "merge_constructor_args constructor_args overrides =
     (if \<not> truthy overrides then Inr constructor_args
      else case (constructor_args, overrides) of
        (PNone, PDict o') \<Rightarrow> Inr (PDict (dict_update [] o'))
      | (PDict c, PDict o') \<Rightarrow> Inr (PDict (dict_update c o'))
      | _ \<Rightarrow> Inl (OtherError ''AttributeError''))"

text \<open>What the loop reads of one contract before it deploys it: name, source, owner and arguments.\<close>

definition contract_inputs ::
    "'d genesis_env \<Rightarrow> path \<Rightarrow> pyval \<Rightarrow> (string, string) dict \<Rightarrow> (pyval \<times> pyval) list option \<Rightarrow> pyval \<Rightarrow>
     (pyval \<times> string \<times> pyval \<times> pyval) res" where
  "contract_inputs G contracts_dir extension substitutions constructor_overrides contract =
     rbind (genesis_contract_name contract substitutions) (\<lambda>contract_name.
     rbind (dindex contract ''name'') (\<lambda>name.
     rbind (render_template_values substitutions name) (\<lambda>stem.
     if \<not> is_str stem \<or> \<not> is_str extension then Inl (TypeError ''can only concatenate str'')
     else
     rbind (ge_read_text G (join_path contracts_dir (str_of stem @ str_of extension))) (\<lambda>code.
     rbind (render_template_values substitutions (dget_or contract ''owner'' PNone)) (\<lambda>owner.
     rbind (render_template_values substitutions (dget_or contract ''constructor_args'' PNone)) (\<lambda>constructor_args.
     rbind (override_args constructor_overrides contract_name name) (\<lambda>overrides.
     rbind (merge_constructor_args constructor_args overrides) (\<lambda>constructor_args.
     Inr (contract_name, code, owner, constructor_args)))))))))"

definition deploy_contract ::
    "'d genesis_env \<Rightarrow> path \<Rightarrow> pyval \<Rightarrow> (string, string) dict \<Rightarrow> (pyval \<times> pyval) list option \<Rightarrow> pyval \<Rightarrow> pyval \<Rightarrow>
     ('d, unit) step" where
  "deploy_contract G contracts_dir extension substitutions constructor_overrides submission_time contract =
     sbind (slift (contract_inputs G contracts_dir extension substitutions constructor_overrides contract))
       (\<lambda>(contract_name, code, owner, constructor_args) d.
          if ge_has_contract G d contract_name then (Inr (), d)
          else deploy_native_genesis_contract G contract_name code owner constructor_args submission_time d)"

definition founder_substitutions :: "string \<Rightarrow> string \<Rightarrow> (string, string) dict" where
  "founder_substitutions founder_private_key public_key =
     [(''founder_privkey'', founder_private_key), (''founder_private_key'', founder_private_key),
      (''founder_public_key'', public_key)]"

definition set_feature_entries :: "'d genesis_env \<Rightarrow> (string \<times> pyval) list \<Rightarrow> ('d, unit) step" where
  "set_feature_entries G entries d = (Inr (), fold (\<lambda>(k, v). d_set (ge_driver G) k v) entries d)"

definition normalized_features :: "(string, bool) dict \<Rightarrow> pyval" where
  "normalized_features fs = feature_dict (bool_features fs)"

definition deploy_bundle_contracts ::
    "'d genesis_env \<Rightarrow> string \<Rightarrow> string \<Rightarrow> path \<Rightarrow> (pyval \<times> pyval) list option \<Rightarrow> pyval \<Rightarrow> pyval option \<Rightarrow> ('d, unit) step" where
  "deploy_bundle_contracts G founder_private_key network contracts_dir constructor_overrides runtime_features submission_time =
     sbind (slift (fe_normalize (ge_features G) runtime_features)) (\<lambda>features.
     sbind (\<lambda>d. (Inr (), install_driver_runtime_features (ge_features G)
        \<lparr>rf_features = features, rf_source = ''genesis_builder''\<rparr> d)) (\<lambda>_.
     sbind (slift (build_vm_runtime (ge_bindings G))) (\<lambda>_.
     sbind (slift (case submission_time of Some t \<Rightarrow> Inr t | None \<Rightarrow> parse_genesis_time G None)) (\<lambda>submission_time.
     sbind (stage_native_submission_contract G submission_time) (\<lambda>_.
     sbind (slift (load_contract_bundle_config G network contracts_dir)) (\<lambda>contract_config.
     sbind (slift (ge_public_key G founder_private_key)) (\<lambda>public_key.
     sbind (slift (dindex contract_config ''extension'')) (\<lambda>extension.
     sbind (slift (list_item contract_config ''contracts'')) (\<lambda>contracts.
     sbind (smap (deploy_contract G contracts_dir extension (founder_substitutions founder_private_key public_key)
        constructor_overrides submission_time) contracts) (\<lambda>_.
     sbind (slift (genesis_runtime_feature_entries (ge_features G) (normalized_features features))) (\<lambda>entries.
     set_feature_entries G entries)))))))))))"

section \<open>The genesis block\<close>

definition hash_state_changes :: "'d genesis_env \<Rightarrow> (string, pyval) dict \<Rightarrow> string res" where
  "hash_state_changes G state_changes =
     rbind (ge_encode G (PList (map genesis_entry (sort_key fst state_changes)))) (\<lambda>t. Inr (hexlify (ge_sha3_256 G t)))"

definition genesis_block :: "string \<Rightarrow> string \<Rightarrow> (string, pyval) dict \<Rightarrow> string \<Rightarrow> string \<Rightarrow> pyval" where
  "genesis_block hash number entries signature sender =
     PDict [(PStr ''hash'', PStr hash), (PStr ''number'', PStr number), (PStr ''genesis'', PList (map genesis_entry entries)),
       (PStr ''origin'', PDict [(PStr ''signature'', PStr signature), (PStr ''sender'', PStr sender)])]"

definition previous_policy_ok :: "pyval \<Rightarrow> unit res" where
  "previous_policy_ok previous = (if previous = PNone then Inr () else validate_execution_policy previous)"

text \<open>The block of the committed state, signed by the founder unless the key is empty or missing.\<close>

definition sealed_block :: "'d genesis_env \<Rightarrow> string option \<Rightarrow> string \<Rightarrow> 'd \<Rightarrow> pyval res" where
  "sealed_block G founder_private_key number d =
     (let entries = sort_key fst (d_items (ge_driver G) d []) in
      rbind (fst (cache_from_driver (ge_hash G) (ge_driver G) d)) (\<lambda>root.
      if founder_private_key = None \<or> founder_private_key = Some []
      then Inr (genesis_block (hexlify root) number entries [] [])
      else rbind (ge_public_key G (the founder_private_key)) (\<lambda>sender.
           rbind (hash_state_changes G entries) (\<lambda>digest.
           Inr (genesis_block (hexlify root) number entries (ge_sign_msg G (the founder_private_key) digest) sender)))))"

definition finalize_genesis_block :: "'d genesis_env \<Rightarrow> string option \<Rightarrow> string \<Rightarrow> ('d, pyval) step" where
  "finalize_genesis_block G founder_private_key number d =
     (let D = ge_driver G in
      case previous_policy_ok (d_get D d EXECUTION_POLICY_KEY) of
        Inl e \<Rightarrow> (Inl e, d)
      | Inr _ \<Rightarrow>
          (let d = d_flush_cache D (d_hard_apply D ''0'' (d_set D EXECUTION_POLICY_KEY (PDict current_execution_policy) d))
           in (sealed_block G founder_private_key number d, d)))"

text \<open>A build into a storage home that may hold a state already, or into a new directory.\<close>

definition build_genesis_block ::
    "'d genesis_env \<Rightarrow> string \<Rightarrow> string \<Rightarrow> path \<Rightarrow> 'd option \<Rightarrow> (pyval \<times> pyval) list option \<Rightarrow> pyval \<Rightarrow> string option \<Rightarrow>
     pyval res \<times> 'd" where
  "build_genesis_block G founder_private_key network contracts_dir storage constructor_overrides runtime_features genesis_time =
     (let d = (case storage of Some d \<Rightarrow> d | None \<Rightarrow> ge_fresh_driver G) in
      sbind (slift (parse_genesis_time G genesis_time)) (\<lambda>submission_time.
      sbind (deploy_bundle_contracts G founder_private_key network contracts_dir constructor_overrides runtime_features
        (Some submission_time)) (\<lambda>_.
      finalize_genesis_block G (Some founder_private_key) ''0'')) d)"

section \<open>The document\<close>

definition build_validator_genesis_entry :: "'d genesis_env \<Rightarrow> pyval \<Rightarrow> pyval \<Rightarrow> pyval \<Rightarrow> pyval res" where
  "build_validator_genesis_entry G priv_validator_key voting_power name =
     rbind (dindex priv_validator_key ''address'') (\<lambda>address.
     rbind (dindex priv_validator_key ''pub_key'') (\<lambda>pub_key.
     Inr (PDict [(PStr ''address'', address), (PStr ''pub_key'', pub_key), (PStr ''power'', PStr (py_str (ge_text G) voting_power)),
       (PStr ''name'', name)])))"

definition build_validator_genesis_entry_from_public_key ::
    "'d genesis_env \<Rightarrow> string \<Rightarrow> pyval \<Rightarrow> pyval \<Rightarrow> pyval res" where
  "build_validator_genesis_entry_from_public_key G public_key_hex voting_power name =
     rbind (fromhex public_key_hex) (\<lambda>public_key_bytes.
     Inr (PDict
       [(PStr ''address'', PStr (ascii_upper (hexlify (take 20 (ge_sha256 G public_key_bytes))))),
        (PStr ''pub_key'', PDict [(PStr ''type'', PStr ''tendermint/PubKeyEd25519''),
          (PStr ''value'', PStr (ge_b64encode G public_key_bytes))]),
        (PStr ''power'', PStr (py_str (ge_text G) voting_power)), (PStr ''name'', name)]))"

definition seeded_validator_args :: "pyval \<Rightarrow> pyval" where
  "seeded_validator_args validators_contract = py_or (dget_or validators_contract ''constructor_args'' PNone) (PDict [])"

definition bundle_power :: "pyval option \<Rightarrow> pyval \<Rightarrow> pyval \<Rightarrow> string \<Rightarrow> pyval res" where
  "bundle_power chosen_power configured_powers default_node_power public_key_hex =
     (case chosen_power of Some p \<Rightarrow> Inr p | None \<Rightarrow> pget configured_powers public_key_hex default_node_power)"

definition derive_genesis_validators_from_bundle ::
    "'d genesis_env \<Rightarrow> string \<Rightarrow> path \<Rightarrow> pyval option \<Rightarrow> pyval list res" where
  "derive_genesis_validators_from_bundle G network contracts_dir chosen_power =
     rbind (load_contract_bundle_config G network contracts_dir) (\<lambda>contract_config.
     rbind (find_validators_contract contract_config) (\<lambda>validators_contract.
     let constructor_args = seeded_validator_args validators_contract in
     rbind (pget constructor_args ''genesis_nodes'' PNone) (\<lambda>genesis_nodes.
     case genesis_nodes of
       PList (n # ns) \<Rightarrow>
         let configured_powers = py_or (dget_or constructor_args ''genesis_powers'' PNone) (PDict []);
             default_node_power = dget_or constructor_args ''default_node_power'' (PInt 10) in
         mapR (\<lambda>key. if \<not> is_str key then Inl (TypeError ''fromhex() argument must be str'')
                     else rbind (bundle_power chosen_power configured_powers default_node_power (str_of key)) (\<lambda>voting_power.
                          build_validator_genesis_entry_from_public_key G (str_of key) voting_power (PStr []))) (n # ns)
     | _ \<Rightarrow> Inl (ValueError ''contract bundle validators seed data must define genesis_nodes''))))"

definition DEFAULT_CONSENSUS_PARAMS :: pyval where
  "DEFAULT_CONSENSUS_PARAMS =
     (let text = (\<lambda>kvs. PDict (map (\<lambda>(k, v). (PStr k, PStr v)) kvs)) in
      PDict
       [(PStr ''block'', text [(''max_bytes'', ''22020096''), (''max_gas'', ''-1''), (''time_iota_ms'', ''1000'')]),
        (PStr ''evidence'', text [(''max_age_num_blocks'', ''100000''), (''max_age_duration'', ''172800000000000''),
           (''max_bytes'', ''1048576'')]),
        (PStr ''validator'', PDict [(PStr ''pub_key_types'', PList [PStr ''ed25519''])]),
        (PStr ''version'', PDict [])])"

definition DEFAULT_PRESET_GENESIS_PRIVATE_KEY :: string where
  "DEFAULT_PRESET_GENESIS_PRIVATE_KEY = replicate 64 (CHR ''1'')"

definition build_cometbft_genesis ::
    "'d genesis_env \<Rightarrow> string \<Rightarrow> pyval \<Rightarrow> pyval list \<Rightarrow> string option \<Rightarrow> pyval res" where
  "build_cometbft_genesis G chain_id abci_genesis validators genesis_time =
     rbind (normalize_genesis_time G genesis_time) (\<lambda>resolved_genesis_time.
     Inr (PDict
       [(PStr ''genesis_time'', PStr resolved_genesis_time), (PStr ''chain_id'', PStr chain_id),
        (PStr ''initial_height'', PStr (py_str (ge_text G) (dget_or abci_genesis ''number'' (PStr ''0'')))),
        (PStr ''consensus_params'', DEFAULT_CONSENSUS_PARAMS), (PStr ''validators'', PList validators),
        (PStr ''app_hash'', PStr (py_str (ge_text G) (dget_or abci_genesis ''hash'' (PStr [])))),
        (PStr ''abci_genesis'', abci_genesis)]))"

text \<open>The dict from account keys to a value of each validator.\<close>

definition by_account :: "(pyval \<Rightarrow> pyval) \<Rightarrow> pyval list \<Rightarrow> pyval res" where
  "by_account f validators =
     rbind (mapR (\<lambda>v. rbind (dindex v ''account_public_key'') (\<lambda>k. Inr (k, f v))) validators) (\<lambda>kvs.
     Inr (PDict (dict_update [] kvs)))"

definition reward_key :: "pyval \<Rightarrow> pyval" where
  "reward_key validator = py_or (dget_or validator ''reward_key'' PNone) (dget_or validator ''account_public_key'' PNone)"

definition validator_overrides ::
    "pyval \<Rightarrow> pyval list \<Rightarrow> int \<Rightarrow> (pyval \<times> pyval) list \<Rightarrow> (pyval \<times> pyval) list res" where
  "validator_overrides seeded validators registration_fee constructor_overrides =
     rbind (mapR (\<lambda>v. dindex v ''account_public_key'') validators) (\<lambda>genesis_nodes.
     rbind (by_account (\<lambda>v. dget_or v ''power'' (PInt 10)) validators) (\<lambda>genesis_powers.
     rbind (by_account reward_key validators) (\<lambda>genesis_reward_keys.
     Inr (dict_update
       ([(PStr ''genesis_nodes'', PList genesis_nodes), (PStr ''genesis_registration_fee'', PInt registration_fee)] @
        (if dget seeded ''genesis_powers'' \<noteq> None then [(PStr ''genesis_powers'', genesis_powers)] else []) @
        (if dget seeded ''genesis_reward_keys'' \<noteq> None then [(PStr ''genesis_reward_keys'', genesis_reward_keys)] else []))
       constructor_overrides))))"

definition network_overrides :: "string \<Rightarrow> (pyval \<times> pyval) list \<Rightarrow> (pyval \<times> pyval) list" where
  "network_overrides public_key overrides =
     [(PStr ''currency'', PDict [(PStr ''vk'', PStr public_key)]), (PStr ''foundation'', PDict [(PStr ''vk'', PStr public_key)]),
      (PStr ''validators'', PDict overrides)]"

definition build_local_network_genesis ::
    "'d genesis_env \<Rightarrow> string \<Rightarrow> string \<Rightarrow> pyval list \<Rightarrow> string \<Rightarrow> int \<Rightarrow> path \<Rightarrow> pyval \<Rightarrow> (pyval \<times> pyval) list \<Rightarrow> string option \<Rightarrow>
     pyval res" where
  "build_local_network_genesis G chain_id founder_private_key validators network registration_fee contracts_dir
      runtime_features constructor_overrides genesis_time =
     (if validators = [] then Inl (ValueError ''at least one validator is required'')
      else
     rbind (normalize_genesis_time G genesis_time) (\<lambda>resolved_genesis_time.
     rbind (load_contract_bundle_config G network contracts_dir) (\<lambda>contract_config.
     rbind (find_validators_contract contract_config) (\<lambda>validators_contract.
     rbind (ge_public_key G founder_private_key) (\<lambda>public_key.
     rbind (validator_overrides (seeded_validator_args validators_contract) validators registration_fee constructor_overrides) (\<lambda>overrides.
     rbind (fst (build_genesis_block G founder_private_key network contracts_dir None
        (Some (network_overrides public_key overrides)) runtime_features (Some resolved_genesis_time))) (\<lambda>abci_genesis.
     rbind (mapR (\<lambda>v. rbind (dindex v ''priv_validator_key'') (\<lambda>key.
        build_validator_genesis_entry G key (dget_or v ''power'' (PInt 10)) (dget_or v ''name'' (PStr [])))) validators) (\<lambda>entries.
     build_cometbft_genesis G chain_id abci_genesis entries (Some resolved_genesis_time)))))))))"

definition build_single_validator_genesis ::
    "'d genesis_env \<Rightarrow> string \<Rightarrow> pyval \<Rightarrow> string \<Rightarrow> string \<Rightarrow> string \<Rightarrow> pyval \<Rightarrow> int \<Rightarrow> path \<Rightarrow> pyval \<Rightarrow> string option \<Rightarrow> pyval res" where
  "build_single_validator_genesis G chain_id priv_validator_key founder_private_key network validator_name chosen_power
      registration_fee contracts_dir runtime_features genesis_time =
     rbind (ge_public_key G founder_private_key) (\<lambda>public_key.
     build_local_network_genesis G chain_id founder_private_key
       [PDict [(PStr ''account_public_key'', PStr public_key), (PStr ''name'', PStr validator_name), (PStr ''power'', chosen_power),
          (PStr ''priv_validator_key'', priv_validator_key)]]
       network registration_fee contracts_dir runtime_features [] genesis_time)"

text \<open>The preset key is public, so the document carries no signature.\<close>

definition unsigned :: "pyval \<Rightarrow> pyval" where
  "unsigned block =
     (case block of
        PDict kvs \<Rightarrow> PDict (AList.update (PStr ''origin'') (PDict [(PStr ''sender'', PStr []), (PStr ''signature'', PStr [])]) kvs)
      | v \<Rightarrow> v)"

definition build_bundle_network_genesis ::
    "'d genesis_env \<Rightarrow> string \<Rightarrow> string \<Rightarrow> path \<Rightarrow> string option \<Rightarrow> pyval \<Rightarrow> pyval res" where
  "build_bundle_network_genesis G chain_id network contracts_dir genesis_time runtime_features =
     rbind (normalize_genesis_time G genesis_time) (\<lambda>resolved_genesis_time.
     rbind (fst (build_genesis_block G DEFAULT_PRESET_GENESIS_PRIVATE_KEY network contracts_dir None None runtime_features
        (Some resolved_genesis_time))) (\<lambda>abci_genesis.
     rbind (derive_genesis_validators_from_bundle G network contracts_dir None) (\<lambda>validators.
     build_cometbft_genesis G chain_id (unsigned abci_genesis) validators (Some resolved_genesis_time))))"

text \<open>Files are truncated when they are opened, before the text is made.\<close>

definition write_encoded :: "'d genesis_env \<Rightarrow> pyval \<Rightarrow> unit res \<times> string" where
  "write_encoded G v = (case ge_encode_wire G v of Inl e \<Rightarrow> (Inl e, []) | Inr t \<Rightarrow> (Inr (), t))"

definition write_genesis_block :: "'d genesis_env \<Rightarrow> pyval \<Rightarrow> (string option, unit) step" where
  "write_genesis_block G block content = (case write_encoded G block of (r, t) \<Rightarrow> (r, Some t))"

definition with_abci_genesis :: "'d genesis_env \<Rightarrow> pyval \<Rightarrow> pyval \<Rightarrow> pyval res" where
  "with_abci_genesis G cometbft_genesis abci_genesis =
     (case cometbft_genesis of
        PDict kvs \<Rightarrow>
          rbind (dindex abci_genesis ''number'') (\<lambda>number.
          Inr (PDict (dict_update kvs
            [(PStr ''abci_genesis'', abci_genesis), (PStr ''initial_height'', PStr (py_str (ge_text G) number)),
             (PStr ''app_hash'', PStr (py_str (ge_text G) (dget_or abci_genesis ''hash'' (PStr []))))])))
      | _ \<Rightarrow> Inl (TypeError ''object does not support item assignment''))"

definition update_cometbft_genesis :: "'d genesis_env \<Rightarrow> pyval \<Rightarrow> (string option, unit) step" where
  "update_cometbft_genesis G abci_genesis content =
     (case content of
        None \<Rightarrow> (Inl (FileNotFoundError ''genesis.json''), None)
      | Some t \<Rightarrow>
          (case rbind (ge_json_loads G t) (\<lambda>doc. with_abci_genesis G doc abci_genesis) of
             Inl e \<Rightarrow> (Inl e, content)
           | Inr doc \<Rightarrow> (case write_encoded G doc of (r, t) \<Rightarrow> (r, Some t))))"

end
