(* ===== verification/Genesis_Chain.thy ===== *)
theory Genesis_Chain
  imports Genesis_Builder
begin

text \<open>
  A chain starts from the document the genesis builder makes: InitChain accepts it, answers with
  the hash it declares, and leaves the node on the builder's state, with the runtime features the
  builder was asked for.
\<close>

section \<open>The committed state and its entries\<close>

lemma single_entry:
  assumes "dict_wf d" "map_of d k = Some v"
  shows "filter (\<lambda>kv. fst kv = k) d = [(k, v)]"
  using assms
proof (induction d)
  case (Cons kv d)
  have "filter (\<lambda>kv. fst kv = k) d = []" if "fst kv = k"
    using Cons.prems(1) that by (cases kv) (auto simp: filter_empty_conv)
  with Cons show ?case by (cases kv) auto
qed simp

definition state_entries :: "'d driver \<Rightarrow> 'd \<Rightarrow> (string, pyval) dict" where
  "state_entries D d = sort_key fst (d_items D d [])"

lemma state_entries_wf: "driver_laws D \<Longrightarrow> dict_wf (state_entries D d)"
  by (simp add: state_entries_def driver_wfD)

lemma state_entries_lookup:
  assumes "driver_laws D"
  shows "map_of (state_entries D d) k = (if d_get D d k \<noteq> PNone then Some (d_get D d k) else None)"
  using driver_wfD(2) [OF assms] by (simp add: state_entries_def map_of_sort_key driver_lawsD(7) [OF assms])

lemma sealed_success:
  assumes laws: "driver_laws (ge_driver G)" and "finalize_genesis_block G key number d = (Inr block, d')"
  obtains rt signature sender where
    "block = genesis_block (hexlify rt) number (state_entries (ge_driver G) d') signature sender"
    "fst (cache_from_driver (ge_hash G) (ge_driver G) d') = Inr rt"
    "d_get (ge_driver G) d' = (d_get (ge_driver G) d)(EXECUTION_POLICY_KEY := PDict current_execution_policy)"
    "d_value_from_disk (ge_driver G) d' = d_get (ge_driver G) d'" "d_pending_writes (ge_driver G) d' = []"
proof -
  let ?D = "ge_driver G"
  let ?d = "d_flush_cache ?D (d_hard_apply ?D ''0'' (d_set ?D EXECUTION_POLICY_KEY (PDict current_execution_policy) d))"
  have d': "d' = ?d" and s: "sealed_block G key number d' = Inr block"
    using assms(2) by (auto simp: finalize_genesis_block_def Let_def split: sum.splits)
  have disk: "d_value_from_disk ?D d' = (d_get ?D d)(EXECUTION_POLICY_KEY := PDict current_execution_policy)"
    by (auto simp: d' fun_eq_iff driver_simps [OF laws])
  have get: "d_get ?D d' = d_value_from_disk ?D d'" by (simp add: d' get_flush_cache [OF laws] driver_simps [OF laws])
  have pend: "d_pending_writes ?D d' = []" by (simp add: d' driver_simps [OF laws])
  from s obtain rt signature sender where
    "block = genesis_block (hexlify rt) number (state_entries ?D d') signature sender"
    "fst (cache_from_driver (ge_hash G) ?D d') = Inr rt"
    unfolding sealed_block_def Let_def state_entries_def by (fastforce elim!: rbind_InrE split: if_splits)
  with disk get pend show thesis by (intro that) simp_all
qed

section \<open>Reading the block\<close>

text \<open>The block as the node finds it in the document: the values went through their wire form.\<close>

definition as_loaded :: "(pyval \<Rightarrow> pyval) \<Rightarrow> pyval \<Rightarrow> pyval" where
  "as_loaded wire block =
     (case block of
        PDict kvs \<Rightarrow>
          PDict (map (\<lambda>(k, v). (k, if k = PStr ''genesis''
            then (case v of PList es \<Rightarrow> PList (map (\<lambda>e. genesis_entry (str_of (dget_or e ''key'' PNone), wire (dget_or e ''value'' PNone))) es)
                  | _ \<Rightarrow> v)
            else v)) kvs)
      | _ \<Rightarrow> block)"

text \<open>The documented round trip of the encoders, on the values of a state.\<close>

definition reads_back :: "(pyval \<Rightarrow> pyval res) \<Rightarrow> (pyval \<Rightarrow> pyval) \<Rightarrow> (string \<Rightarrow> pyval) \<Rightarrow> bool" where
  "reads_back conv wire S \<longleftrightarrow>
     (\<forall>k. S k \<noteq> PNone \<longrightarrow> convert_runtime_value conv (wire (S k)) = Inr (S k)) \<and>
     wire (PDict current_execution_policy) = PDict current_execution_policy \<and> (\<forall>b. wire (PBool b) = PBool b)"

definition wire_entries :: "(pyval \<Rightarrow> pyval) \<Rightarrow> (string, pyval) dict \<Rightarrow> (string, pyval) dict" where
  "wire_entries wire entries = map (\<lambda>(k, v). (k, wire v)) entries"

lemma genesis_entry_items [simp]:
  "dget_or (genesis_entry kv) ''key'' x = PStr (fst kv)" "dget_or (genesis_entry kv) ''value'' x = snd kv"
  "dindex (genesis_entry kv) ''key'' = Inr (PStr (fst kv))" "dindex (genesis_entry kv) ''value'' = Inr (snd kv)"
  "is_dict (genesis_entry kv)"
  by (simp_all add: genesis_entry_def dget_or_def dindex_def)

lemma as_loaded_block:
  "as_loaded wire (genesis_block h n entries sig snd') = genesis_block h n (wire_entries wire entries) sig snd'"
  by (simp add: as_loaded_def genesis_block_def wire_entries_def split_def)

lemma genesis_block_items [simp]:
  "dget_or (genesis_block h n entries sig sender) ''genesis'' x = PList (map genesis_entry entries)"
  "dget_or (genesis_block h n entries sig sender) ''hash'' x = PStr h"
  "dget_or (genesis_block h n entries sig sender) ''number'' x = PStr n"
  "dget_or (genesis_block h n entries sig sender) ''abci_genesis'' x = x"
  "dget_or (genesis_block h n entries sig sender) ''nonces'' x = x"
  "dget_or (genesis_block h n entries sig sender) ''rewards'' x = x"
  "genesis_block h n entries sig sender \<noteq> PNone" "is_dict (genesis_block h n entries sig sender)"
  by (simp_all add: genesis_block_def dget_or_def)

lemma wire_entries_wf [simp]: "dict_wf (wire_entries wire entries) = dict_wf entries"
  by (simp add: dict_wf_def wire_entries_def split_def comp_def)

lemma map_of_wire_entries: "map_of (wire_entries wire entries) k = map_option wire (map_of entries k)"
  by (induction entries) (auto simp: wire_entries_def)

lemma block_policy_valid:
  assumes "dict_wf entries" "map_of entries EXECUTION_POLICY_KEY = Some (PDict current_execution_policy)"
  shows "validate_genesis_execution_policy (genesis_block h n entries sig sender) = Inr ()"
proof -
  have "filter (\<lambda>e. is_dict e \<and> dget_or e ''key'' PNone = PStr EXECUTION_POLICY_KEY) (map genesis_entry entries) =
      map genesis_entry (filter (\<lambda>kv. fst kv = EXECUTION_POLICY_KEY) entries)"
    by (simp add: filter_map comp_def)
  then have "genesis_policies (genesis_block h n entries sig sender) = [PDict current_execution_policy]"
    using single_entry [OF assms] by (simp add: genesis_policies_def)
  then show ?thesis by (simp add: validate_genesis_execution_policy_def current_policy_valid)
qed

section \<open>Storing the block\<close>

lemma set_genesis_entries:
  assumes "\<And>k v. (k, v) \<in> set entries \<Longrightarrow> convert_runtime_value conv (wire v) = Inr v"
  shows "foldR (set_entry D conv) (map genesis_entry (wire_entries wire entries)) d =
    Inr (fold (\<lambda>(k, v). d_set D k v) entries d)"
  using assms
proof (induction entries arbitrary: d)
  case (Cons kv entries)
  obtain k v where kv: "kv = (k, v)" by (cases kv)
  have "convert_runtime_value conv (wire v) = Inr v" using Cons.prems [of k v] by (simp add: kv)
  then have "set_entry D conv (genesis_entry (k, wire v)) d = Inr (d_set D k v d)" by (simp add: set_entry_def)
  moreover have "foldR (set_entry D conv) (map genesis_entry (wire_entries wire entries)) e =
      Inr (fold (\<lambda>(k, v). d_set D k v) entries e)" for e
    by (rule Cons.IH) (use Cons.prems in auto)
  ultimately show ?case by (simp add: kv wire_entries_def)
qed (simp add: wire_entries_def)

lemma store_built_block:
  assumes laws: "driver_laws D" and wf: "dict_wf entries"
    and conv: "\<And>k v. (k, v) \<in> set entries \<Longrightarrow> convert_runtime_value conv (wire v) = Inr v"
  obtains d1 where "store_genesis_block T conv D (genesis_block h n (wire_entries wire entries) sig sender) (d_flush_full D d) = Inr d1"
    "d_get D d1 = (\<lambda>k. case map_of entries k of Some v \<Rightarrow> v | None \<Rightarrow> PNone)"
    "d_value_from_disk D d1 = d_get D d1" "d_pending_writes D d1 = []"
proof -
  let ?f = "d_flush_full D d"
  let ?g = "fold (\<lambda>(k, v). d_set D k v) entries ?f"
  let ?nanos = "py_str T (dget_or (genesis_block h n (wire_entries wire entries) sig sender) ''hlc_timestamp'' PNone)"
  have "d_get D ?f k = PNone" for k by (simp add: driver_get_split [OF laws] driver_lawsD(18,19) [OF laws])
  then have get: "d_get D ?g = (\<lambda>k. case map_of entries k of Some v \<Rightarrow> v | None \<Rightarrow> PNone)"
    by (auto simp: fun_eq_iff get_fold_set_wf [OF laws wf] split: option.split)
  show thesis
  proof (rule that [of "d_hard_apply D ?nanos ?g"])
    show "store_genesis_block T conv D (genesis_block h n (wire_entries wire entries) sig sender) ?f = Inr (d_hard_apply D ?nanos ?g)"
      by (simp add: store_genesis_block_def apply_state_changes_from_block_def iter_list_def set_genesis_entries [OF conv])
  qed (simp_all add: get_hard_apply [OF laws] get driver_lawsD(3,4) [OF laws])
qed

section \<open>InitChain on a built block\<close>

lemma built_root:
  assumes laws: "driver_laws D" and K: "distinct_priorities H K" and keys: "\<And>k. k \<notin> K \<Longrightarrow> d_get D d' k = PNone"
    and root: "fst (cache_from_driver H D d') = Inr rt" and same: "d_get D d1 = d_get D d'"
  shows "fst (cache_from_driver H D d1) = Inr rt"
proof -
  obtain c where c: "rebuild H (key_items (d_items D d' [])) empty_cache = (Inr rt, c)"
    using root by (cases "cache_from_driver H D d'") (auto simp: cache_from_driver_def cache_from_items_def)
  have hash: "hashable H k (d_get D d' k)" for k
  proof (cases "d_get D d' k = PNone")
    case False
    then have "map_of (d_items D d' []) k = Some (d_get D d' k)" by (simp add: driver_lawsD(7) [OF laws])
    then have "(k, d_get D d' k) \<in> set (d_items D d' [])" by (rule map_of_SomeD)
    with c show ?thesis unfolding rebuild_def by (rule rebuild_loop_hashable)
  qed simp
  have in_K: "k \<in> K" if "d_get D d' k \<noteq> PNone" for k using that keys by blast
  have "root_of H K (d_get D d') rt"
    using cache_from_driver_ok [OF laws K in_K hash] root hash by (auto simp: root_of_def)
  then show ?thesis
    using recomputed_root [OF laws K, of d1 rt] keys by (simp add: same compute_driver_state_root_def)
qed

lemma set_latest_block_total:
  assumes "load_latest_block T True m = Inr (lb, m')"
  obtains m2 where "set_latest_block T True (Some h) (Some n) None m = Inr m2"
  using assms that by (simp add: set_latest_block_def Let_def write_latest_block_json_def)

lemma init_chain_on_built_block:
  assumes ok: "node_ok E" and G: "ge_driver G = ae_driver E" "ge_hash G = ae_hash E"
    and built: "finalize_genesis_block G key number d = (Inr block, d')"
    and K: "distinct_priorities (ae_hash E) K" "keys_within (ae_driver E) d' K" "LATEST_BLOCK_KEY \<in> K"
    and marker: "d_get (ae_driver E) d' LATEST_BLOCK_KEY = PNone"
    and wire: "reads_back conv wire (d_get (ae_driver E) d')"
    and number: "number \<noteq> []" "te_int_of_text (px_text (ae_proc E)) number = Inr n"
    and st: "ap_staged st = None" "load_latest_block (px_text (ae_proc E)) True (ap_mirror st) = Inr lm"
  obtains h st' where "init_chain E conv True (as_loaded wire block) st = (Inr h, st')" "dget_or block ''hash'' PNone = PStr (hexlify h)"
    "d_get (ae_driver E) (ap_driver st') = d_get (ae_driver E) d'" "genesis_state E K st'"
proof -
  let ?D = "ae_driver E" and ?H = "ae_hash E" and ?T = "px_text (ae_proc E)"
  note laws = node_okD(1) [OF ok]
  obtain rt signature sender where b: "block = genesis_block (hexlify rt) number (state_entries ?D d') signature sender"
    "fst (cache_from_driver ?H ?D d') = Inr rt"
    "d_get ?D d' = (d_get ?D d)(EXECUTION_POLICY_KEY := PDict current_execution_policy)"
    "d_value_from_disk ?D d' = d_get ?D d'" "d_pending_writes ?D d' = []"
    using sealed_success [of G key number d block d'] built laws unfolding G by metis
  let ?es = "state_entries ?D d'"
  have look: "map_of ?es k = (if d_get ?D d' k \<noteq> PNone then Some (d_get ?D d' k) else None)" for k
    using laws by (rule state_entries_lookup)
  have wf: "dict_wf ?es" using laws by (rule state_entries_wf)
  have conv: "convert_runtime_value conv (wire v) = Inr v" if "(k, v) \<in> set ?es" for k v
    using that look [of k] wf wire by (auto simp: dict_wf_map_of_iff [symmetric] reads_back_def split: if_splits)
  obtain d1 where d1:
    "store_genesis_block ?T conv ?D (genesis_block (hexlify rt) number (wire_entries wire ?es) signature sender)
       (d_flush_full ?D (ap_driver st)) = Inr d1"
    "d_get ?D d1 = (\<lambda>k. case map_of ?es k of Some v \<Rightarrow> v | None \<Rightarrow> PNone)"
    "d_value_from_disk ?D d1 = d_get ?D d1" "d_pending_writes ?D d1 = []"
    using laws wf conv by (rule store_built_block)
  have same: "d_get ?D d1 = d_get ?D d'" by (auto simp: d1(2) look)
  have "d_get ?D d' k = PNone" if "k \<notin> K" for k using K(2) that by (simp add: keys_within_def b(4))
  from built_root [OF laws K(1) this b(2) same] obtain c where
    c: "cache_from_driver ?H ?D d1 = (Inr rt, c)" by (cases "cache_from_driver ?H ?D d1") auto
  then have rb: "rebuild ?H (key_items (d_items ?D d1 [])) (ap_root st) = (Inr rt, c)"
    using rebuild_from_any [of ?H _ "ap_root st"] by (simp add: cache_from_driver_def cache_from_items_def)
  obtain lb m' where lm: "lm = (lb, m')" by (cases lm)
  obtain m2 where m2: "set_latest_block ?T True (Some rt) (Some n) None (ap_mirror st) = Inr m2"
    using st(2) [unfolded lm] by (rule set_latest_block_total)
  have "map_of (wire_entries wire ?es) EXECUTION_POLICY_KEY = Some (PDict current_execution_policy)"
    using wire by (simp add: map_of_wire_entries look b(3) reads_back_def)
  then have policy: "validate_genesis_execution_policy (as_loaded wire block) = Inr ()"
    using wf by (simp add: b(1) as_loaded_block block_policy_valid)
  have hash: "genesis_hash_matches (as_loaded wire block) rt = Inr ()"
    by (simp add: genesis_hash_matches_def b(1) as_loaded_block Let_def)
  have num: "py_int (te_int_of_text ?T) (py_or (dget_or (as_loaded wire block) ''number'' (PInt 0)) (PInt 0)) = Inr n"
    using number by (simp add: b(1) as_loaded_block py_or_def)
  define st' where "st' = (set_driver d1 st)\<lparr>ap_root := c, ap_mirror := m2\<rparr>"
  have run: "init_chain E conv True (as_loaded wire block) st = (Inr rt, st')"
    unfolding init_chain_def Let_def using policy hash num d1(1) rb m2
    by (simp add: b(1) as_loaded_block st'_def set_driver_def)
  have get: "d_get ?D (ap_driver st') = d_get ?D d'" by (simp add: st'_def same)
  have "keys_within ?D (ap_driver st') K"
    using K(2) by (simp add: keys_within_def st'_def d1(3,4) same b(4))
  moreover have "d_value_from_disk ?D (ap_driver st') LATEST_BLOCK_KEY = PNone"
    using marker by (simp add: st'_def d1(3) same)
  ultimately have "genesis_state E K st'"
    unfolding genesis_state_def using ok K run st(1) by blast
  with run get show thesis by (intro that [of rt st']) (simp_all add: b(1))
qed

section \<open>The features of a built chain\<close>

lemma feature_entries_wf:
  assumes "feature_laws F D" "fe_normalize F v = Inr fs"
  shows "dict_wf (map (feature_entry F) (sort_key fst fs))"
    "(f, b) \<in> set fs \<Longrightarrow> map_of (map (feature_entry F) (sort_key fst fs)) (fe_state_key F f) = Some (PBool b)"
proof -
  have keys: "fst ` set (fe_defaults F) = fst ` set fs"
    using arg_cong [OF normalized_laws(1) [OF assms], of set] by simp
  have inj: "inj_on (fe_state_key F) (fst ` set fs)" using assms(1) unfolding feature_laws_def keys by blast
  have "dict_wf (sort_key fst fs)" using normalized_laws(2) [OF assms] by simp
  then have "distinct (map (fe_state_key F) (map fst (sort_key fst fs)))"
    using inj by (simp only: distinct_map dict_wf_def) simp
  then show wf: "dict_wf (map (feature_entry F) (sort_key fst fs))"
    by (simp add: dict_wf_def feature_entry_def comp_def)
  assume "(f, b) \<in> set fs"
  then have "(fe_state_key F f, PBool b) \<in> set (map (feature_entry F) (sort_key fst fs))"
    by (force simp: feature_entry_def)
  then show "map_of (map (feature_entry F) (sort_key fst fs)) (fe_state_key F f) = Some (PBool b)"
    using wf by (simp add: dict_wf_map_of_iff)
qed

lemma deployed_features:
  assumes laws: "driver_laws (ge_driver G)" "feature_laws (ge_features G) (ge_driver G)"
    and "deploy_bundle_contracts G key network dir overrides features time d = (Inr (), d1)"
  obtains fs where "fe_normalize (ge_features G) features = Inr fs"
    "holds_features (ge_features G) (d_get (ge_driver G) d1) fs"
proof -
  let ?F = "ge_features G"
  obtain fs entries d0 where f: "fe_normalize ?F features = Inr fs"
    "genesis_runtime_feature_entries ?F (normalized_features fs) = Inr entries"
    "d1 = fold (\<lambda>(k, v). d_set (ge_driver G) k v) entries d0"
    using assms(3) unfolding deploy_bundle_contracts_def slift_def set_feature_entries_def
    by (elim sbind_Inr) (auto simp del: sbind_def)
  note n = normalized_laws [OF laws(2) f(1)] and wf = feature_entries_wf [OF laws(2) f(1)]
  have "entries = map (feature_entry ?F) (sort_key fst fs)"
    using f(2) n(4) [OF n(2) refl] by (simp add: genesis_runtime_feature_entries_def normalized_features_def)
  then have "holds_features ?F (d_get (ge_driver G) d1) fs"
    using wf by (auto simp: holds_features_def f(3) get_fold_set_wf [OF laws(1)])
  with f(1) show thesis by (rule that)
qed

lemma build_parts:
  assumes "build_genesis_block G key network dir storage overrides features time = (Inr block, d')"
  obtains t d0 d1 where
    "deploy_bundle_contracts G key network dir overrides features (Some t) d0 = (Inr (), d1)"
    "finalize_genesis_block G (Some key) ''0'' d1 = (Inr block, d')"
  using assms unfolding build_genesis_block_def Let_def slift_def by (elim sbind_Inr) auto

lemma built_features:
  assumes laws: "driver_laws (ge_driver G)" "feature_laws (ge_features G) (ge_driver G)"
    and policy: "EXECUTION_POLICY_KEY \<notin> fe_state_key (ge_features G) ` fst ` set (fe_defaults (ge_features G))"
    and "build_genesis_block G key network dir storage overrides features time = (Inr block, d')"
  obtains fs where "fe_normalize (ge_features G) features = Inr fs"
    "holds_features (ge_features G) (d_get (ge_driver G) d') fs"
proof -
  let ?F = "ge_features G"
  obtain t d0 d1 where b: "deploy_bundle_contracts G key network dir overrides features (Some t) d0 = (Inr (), d1)"
    "finalize_genesis_block G (Some key) ''0'' d1 = (Inr block, d')" using assms(4) by (rule build_parts)
  obtain fs where f: "fe_normalize ?F features = Inr fs" "holds_features ?F (d_get (ge_driver G) d1) fs"
    using laws b(1) by (rule deployed_features)
  have "d_get (ge_driver G) d' = (d_get (ge_driver G) d1)(EXECUTION_POLICY_KEY := PDict current_execution_policy)"
    using laws(1) b(2) by (rule sealed_success)
  moreover have "fst ` set (fe_defaults ?F) = fst ` set fs"
    using arg_cong [OF normalized_laws(1) [OF laws(2) f(1)], of set] by simp
  ultimately have "holds_features ?F (d_get (ge_driver G) d') fs"
    using f(2) policy by (force simp: holds_features_def)
  with f(1) show thesis by (rule that)
qed

lemma loaded_features:
  assumes laws: "driver_laws D" "feature_laws F D" and f: "fe_normalize F v = Inr fs" "holds_features F (d_get D d') fs"
    and wire: "reads_back conv wire (d_get D d')"
  shows "explicit_features_from_genesis F (genesis_block h n (wire_entries wire (state_entries D d')) sig sender) = Inr (Some fs)"
proof (rule explicit_from_entries [OF laws(2) f(1)])
  show "dict_wf (wire_entries wire (state_entries D d'))" using state_entries_wf [OF laws(1)] by simp
  show "abci_genesis_state (genesis_block h n (wire_entries wire (state_entries D d')) sig sender) =
      map genesis_entry (wire_entries wire (state_entries D d'))"
    by (simp add: abci_genesis_state_def)
  show "holds_features F (\<lambda>k. case map_of (wire_entries wire (state_entries D d')) k of Some v \<Rightarrow> v | None \<Rightarrow> PNone) fs"
    using f(2) wire by (auto simp: holds_features_def map_of_wire_entries state_entries_lookup [OF laws(1)] reads_back_def)
qed

text \<open>C32: A genesis block that the builder makes starts a chain.  InitChain accepts it as the node
  loads it from the document, answers with the hash that the block and the document declare and
  leaves the node at the start of a chain with the builder's state.  The runtime features that were
  asked for are the ones a new node takes from the document and a restarted node from its state.\<close>

theorem built_genesis_starts_chain:
  assumes "node_ok E" and "ge_driver G = ae_driver E" and "ge_hash G = ae_hash E" and "feature_laws (ge_features G) (ae_driver E)"
    and "EXECUTION_POLICY_KEY \<notin> fe_state_key (ge_features G) ` fst ` set (fe_defaults (ge_features G))"
    and "build_genesis_block G key network dir storage overrides features time = (Inr block, d')"
    and "build_cometbft_genesis G chain_id block validators time' = Inr document"
    and "distinct_priorities (ae_hash E) K" and "keys_within (ae_driver E) d' K" and "LATEST_BLOCK_KEY \<in> K"
    and "d_get (ae_driver E) d' LATEST_BLOCK_KEY = PNone"
    and "reads_back conv wire (d_get (ae_driver E) d')" and "te_int_of_text (px_text (ae_proc E)) ''0'' = Inr 0"
    and "ap_staged st = None" and "load_latest_block (px_text (ae_proc E)) True (ap_mirror st) = Inr lm"
    and "\<forall>f\<in>fst ` set (fe_defaults (ge_features G)). d_get (ae_driver E) d0 (fe_state_key (ge_features G) f) = PNone"
  shows "\<exists>h st' fs. init_chain E conv True (as_loaded wire block) st = (Inr h, st') \<and>
    dget document ''abci_genesis'' = Some block \<and> dget document ''app_hash'' = Some (PStr (hexlify h)) \<and>
    d_get (ae_driver E) (ap_driver st') = d_get (ae_driver E) d' \<and> genesis_state E K st' \<and>
    fe_normalize (ge_features G) features = Inr fs \<and>
    resolve_runtime_features (ge_features G) (ae_driver E) (Some d0) (as_loaded wire block) =
      Inr \<lparr>rf_features = fs, rf_source = ''genesis''\<rparr> \<and>
    resolve_runtime_features (ge_features G) (ae_driver E) (Some (ap_driver st')) (as_loaded wire block) =
      Inr \<lparr>rf_features = fs, rf_source = ''state''\<rparr>"
proof -
  let ?D = "ae_driver E" and ?F = "ge_features G"
  note laws = node_okD(1) [OF assms(1)]
  obtain t d1 d2 where "deploy_bundle_contracts G key network dir overrides features (Some t) d1 = (Inr (), d2)"
    and fin: "finalize_genesis_block G (Some key) ''0'' d2 = (Inr block, d')" using assms(6) by (rule build_parts)
  obtain h st' where i: "init_chain E conv True (as_loaded wire block) st = (Inr h, st')"
    "dget_or block ''hash'' PNone = PStr (hexlify h)" "d_get ?D (ap_driver st') = d_get ?D d'" "genesis_state E K st'"
    using assms(1-3) fin assms(8-12) _ assms(13-15) by (rule init_chain_on_built_block) simp
  obtain rt sig sender where b: "block = genesis_block (hexlify rt) ''0'' (state_entries ?D d') sig sender"
    using sealed_success [of G "Some key" "''0''" d2 block d'] fin laws unfolding assms(2) by metis
  obtain fs where f: "fe_normalize ?F features = Inr fs" "holds_features ?F (d_get ?D d') fs"
    using built_features [of G key network dir storage overrides features time block d'] laws assms(4-6)
    unfolding assms(2) by metis
  have "explicit_features_from_genesis ?F (as_loaded wire block) = Inr (Some fs)"
    using loaded_features [OF laws assms(4) f assms(12)] by (simp add: b as_loaded_block)
  moreover have "explicit_features_from_driver ?F ?D (Some d0) = Inr None"
    using assms(16) by (auto simp: explicit_features_from_driver_def explicit_features_def filter_empty_conv)
  ultimately have "resolve_runtime_features ?F ?D (Some d0) (as_loaded wire block) = Inr \<lparr>rf_features = fs, rf_source = ''genesis''\<rparr>"
    using resolve_explicit(2) [OF assms(4) f(1)] by blast
  moreover have "explicit_features_from_driver ?F ?D (Some (ap_driver st')) = Inr (Some fs)"
    using assms(4) f(1) by (rule explicit_from_state) (simp add: i(3) f(2))
  then have "resolve_runtime_features ?F ?D (Some (ap_driver st')) (as_loaded wire block) = Inr \<lparr>rf_features = fs, rf_source = ''state''\<rparr>"
    using resolve_explicit(1) [OF assms(4) f(1)] by blast
  moreover have "dget document ''abci_genesis'' = Some block" "dget document ''app_hash'' = Some (PStr (hexlify h))"
    using assms(7) i(2) by (auto simp: build_cometbft_genesis_def b py_str_def elim!: rbind_InrE)
  ultimately show ?thesis using i f(1) by blast
qed

section \<open>A sample chain\<close>

definition builder_machine :: "mem_db vm_env" where
  "builder_machine = sample_vm\<lparr>vm_execute := (\<lambda>d c.
     (Inr \<lparr>vo_status = 0, vo_result = PNone, vo_writes = [(''con.x'', dget_or (vc_kwargs c) ''owner'' PNone)], vo_events = [],
           vo_chi_used = 0, vo_contract_costs = []\<rparr>, d))\<rparr>"

definition sample_bundle :: pyval where
  "sample_bundle = PDict [(PStr ''extension'', PStr ''.py''), (PStr ''contracts'', PList
     [PDict [(PStr ''name'', PStr ''con''), (PStr ''owner'', PStr ''%%founder_public_key%%'')]])]"

definition sample_builder :: "mem_db genesis_env" where
  "sample_builder =
     \<lparr>ge_driver = mem_driver, ge_fresh_driver = \<lparr>db_disk = [], db_pending = []\<rparr>, ge_vm = builder_machine,
      ge_bindings = Some \<lparr>vb_runtime_info = PDict [(PStr ''execution_revision'', PStr VM_EXECUTION_REVISION),
         (PStr ''set_codec'', PStr SET_CODEC), (PStr ''vm_profile'', PStr VM_EXECUTION_MODE)],
         vb_supports_execution_policy = (\<lambda>_ _. True)\<rparr>,
      ge_hash = short_hash, ge_features = sample_features, ge_text = sample_text,
      ge_submission_artifacts = Inr (PStr ''source'', PStr ''ir''),
      ge_set_contract = (\<lambda>name source ir time. d_set mem_driver (name @ ''.__code__'') source),
      ge_has_contract = (\<lambda>d name. name = PStr ''submission''),
      ge_public_key = (\<lambda>k. Inr (k @ ''P'')), ge_sign_msg = (\<lambda>k m. k @ m), ge_encode = (\<lambda>_. Inr ''encoded''),
      ge_encode_wire = (\<lambda>_. Inr ''wire''), ge_sha3_256 = id, ge_sha256 = id, ge_b64encode = id,
      ge_read_text = (\<lambda>p. Inr (last p)), ge_json_loads = (\<lambda>_. Inr sample_bundle),
      ge_fromisoformat = (\<lambda>_. Inr (0, Some 0)), ge_now = 0, ge_datetime = (\<lambda>_. PDatetime ''genesis'')\<rparr>"

definition sample_build :: "pyval res \<times> mem_db" where
  "sample_build = build_genesis_block sample_builder ''f'' ''local'' [''contracts''] None None PNone None"

definition sample_built :: mem_db where
  "sample_built = \<lparr>db_disk = [(''submission.__code__'', PStr ''source''), (''con.x'', PStr ''fP''), (''__runtime.async'', PBool True),
     (''__runtime.zkp'', PBool False), (EXECUTION_POLICY_KEY, PDict current_execution_policy)], db_pending = []\<rparr>"

definition built_keys :: "string set" where
  "built_keys = {LATEST_BLOCK_KEY, ''submission.__code__'', ''con.x'', ''__runtime.async'', ''__runtime.zkp'', EXECUTION_POLICY_KEY}"

lemma sample_build_state: "case sample_build of (Inr _, d) \<Rightarrow> d = sample_built | _ \<Rightarrow> False"
  by code_simp

definition first_node :: "mem_db app_env" where
  "first_node = chain_node\<lparr>ae_proc := (ae_proc chain_node)\<lparr>px_text := sample_text\<lparr>te_int_of_text :=
     (\<lambda>s. if s = ''0'' then Inr 0 else Inl (ValueError ''int''))\<rparr>\<rparr>\<rparr>"

lemma first_node_simps:
  "ae_driver first_node = mem_driver" "ae_hash first_node = short_hash" "ae_hash chain_node = short_hash"
  "te_int_of_text (px_text (ae_proc first_node)) ''0'' = Inr 0" "node_ok first_node"
  using chain_node_ok chain_node_driver by (simp_all add: first_node_def node_ok_def chain_node_def)

lemma convert_plain: "convert_runtime_value Inr v = Inr v"
proof (induction "Inr :: pyval \<Rightarrow> pyval res" v rule: convert_runtime_value.induct)
  case (2 xs)
  then have "mapR (convert_runtime_value Inr) xs = Inr xs" using mapR_total [of xs _ id] by simp
  then show ?case by simp
qed simp_all

lemma built_priorities: "distinct_priorities short_hash built_keys"
  unfolding distinct_priorities_def built_keys_def by code_simp

lemma built_within: "keys_within mem_driver sample_built built_keys" "d_get mem_driver sample_built LATEST_BLOCK_KEY = PNone"
proof -
  have "fst ` set (db_disk sample_built) \<subseteq> built_keys" 
    unfolding sample_built_def built_keys_def mem_db.simps list.set image_insert image_empty fst_conv by blast
  then have "map_of (db_disk sample_built) k = None" if "k \<notin> built_keys" for k
    using that by (auto simp only: map_of_eq_None_iff)
  moreover have "db_pending sample_built = []" by (simp add: sample_built_def)
  ultimately show "keys_within mem_driver sample_built built_keys"
    by (simp add: keys_within_def mem_driver_def mem_lookup_def)
  show "d_get mem_driver sample_built LATEST_BLOCK_KEY = PNone" by code_simp
qed

theorem built_genesis_starts_chain_witness:
  "\<exists>h st'. init_chain first_node Inr True (as_loaded id (projr (fst sample_build))) (sample_app (mem_driver_start 0)) = (Inr h, st') \<and>
     d_get mem_driver (ap_driver st') = d_get mem_driver sample_built \<and> genesis_state first_node built_keys st'"
proof -
  obtain block where run: "sample_build = (Inr block, sample_built)"
    using sample_build_state by (auto split: prod.splits sum.splits)
  obtain document where doc: "build_cometbft_genesis sample_builder ''xian-1'' block [] None = Inr document"
  proof -
    have "is_ok (normalize_genesis_time sample_builder None)" by code_simp
    then show thesis using that by (auto simp: is_ok_iff build_cometbft_genesis_def)
  qed
  have f: "ge_features sample_builder = sample_features" by (simp add: sample_builder_def)
  have lm: "load_latest_block (px_text (ae_proc first_node)) True (ap_mirror (sample_app (mem_driver_start 0))) = 
     Inr (LATEST_BLOCK_DEFAULT, Some (Inr (latest_to_py LATEST_BLOCK_DEFAULT)))"
    by code_simp
  have "EXECUTION_POLICY_KEY \<notin> fe_state_key (ge_features sample_builder) ` fst ` set (fe_defaults (ge_features sample_builder))"
    "\<forall>f\<in>fst ` set (fe_defaults (ge_features sample_builder)).
       d_get mem_driver (mem_driver_start 0) (fe_state_key (ge_features sample_builder) f) = PNone"
    unfolding f by code_simp+
  moreover have "reads_back Inr id (d_get mem_driver sample_built)" by (simp add: reads_back_def convert_plain)
  moreover have "ge_driver sample_builder = mem_driver" "ge_hash sample_builder = short_hash" by (simp_all add: sample_builder_def)
  moreover have "ap_staged (sample_app (mem_driver_start 0)) = None" by (simp add: sample_app_def)
  ultimately show ?thesis
    using built_genesis_starts_chain [of first_node sample_builder "''f''" "''local''" "[''contracts'']" None None PNone None
        block sample_built "''xian-1''" "[]" None document built_keys Inr id "sample_app (mem_driver_start 0)" _ "mem_driver_start 0"]
      first_node_simps sample_feature_laws run [unfolded sample_build_def] doc built_priorities built_within lm
    unfolding run by (auto simp: f built_keys_def)
qed

end
