(* ===== verification/Bds_Snapshot.thy ===== *)
theory Bds_Snapshot
  imports Bds_Reindex File_System
begin

text \<open>
  Snapshots of the block data index (\<^verbatim>\<open>src/src/xian/services/bds/snapshot.py\<close>).  A snapshot is
  made of whole tables, so here a table is the list of its rows, a row maps columns to values, and
  the statements of \<^verbatim>\<open>sql.py\<close> that create the tables are their constraints.  An archive is its
  metadata text and its files, a file is its lines.  JSON text, ISO times and decimals are made and
  read by parameters; what is relied on is that reading gives the written value with sorted keys.
\<close>

type_synonym row = "(string, pyval) dict"
type_synonym tables = "string \<Rightarrow> row list"

record snapshot_env =
  se_bds :: bds_env
  se_isoformat :: "pyval \<Rightarrow> string"
  se_fromisoformat :: "string \<Rightarrow> pyval res"
  se_decimal :: "string \<Rightarrow> pyval res"
  se_render :: "pyval \<Rightarrow> string"
  se_convert_dict :: "pyval \<Rightarrow> pyval res"
  se_now :: pyval

section \<open>Tables\<close>

record table_spec =
  ts_name :: string
  ts_columns :: "string list"
  ts_order_by :: "string list"
  ts_datetime_columns :: "string list"
  ts_decimal_columns :: "string list"
  ts_overriding_system_value :: bool
  ts_upsert_by :: "string option"

definition bds_meta_spec :: table_spec where
  "bds_meta_spec = \<lparr>ts_name = ''bds_meta'', ts_columns = [''key'', ''value'', ''updated_at''], ts_order_by = [''key''],
     ts_datetime_columns = [''updated_at''], ts_decimal_columns = [], ts_overriding_system_value = False,
     ts_upsert_by = Some ''key''\<rparr>"

definition blocks_spec :: table_spec where
  "blocks_spec = \<lparr>ts_name = ''blocks'',
     ts_columns = [''height'', ''block_hash'', ''block_time'', ''block_time_iso'', ''tx_count'', ''app_hash'', ''created_at''],
     ts_order_by = [''height''], ts_datetime_columns = [''block_time_iso'', ''created_at''], ts_decimal_columns = [],
     ts_overriding_system_value = False, ts_upsert_by = None\<rparr>"

definition transactions_spec :: table_spec where
  "transactions_spec = \<lparr>ts_name = ''transactions'',
     ts_columns = [''hash'', ''block_height'', ''block_hash'', ''block_time'', ''tx_index'', ''sender'', ''nonce'', ''contract'',
       ''function'', ''success'', ''status_code'', ''chi_used'', ''result'', ''payload'', ''envelope'', ''created_at''],
     ts_order_by = [''block_height'', ''tx_index''], ts_datetime_columns = [''created_at''], ts_decimal_columns = [],
     ts_overriding_system_value = False, ts_upsert_by = None\<rparr>"

definition addresses_spec :: table_spec where
  "addresses_spec = \<lparr>ts_name = ''addresses'',
     ts_columns = [''address'', ''tx_count'', ''first_block_height'', ''first_seen'', ''last_block_height'', ''last_tx_index'',
       ''last_seen'', ''last_tx_hash'', ''last_contract'', ''last_function'', ''updated_at''],
     ts_order_by = [''address''], ts_datetime_columns = [''first_seen'', ''last_seen'', ''updated_at''], ts_decimal_columns = [],
     ts_overriding_system_value = False, ts_upsert_by = None\<rparr>"

definition state_changes_spec :: table_spec where
  "state_changes_spec = \<lparr>ts_name = ''state_changes'',
     ts_columns = [''change_id'', ''block_height'', ''block_hash'', ''block_time'', ''tx_hash'', ''tx_index'', ''write_index'',
       ''key'', ''new_value'', ''previous_change_id'', ''previous_tx_hash'', ''origin_type'', ''created_at''],
     ts_order_by = [''change_id''], ts_datetime_columns = [''created_at''], ts_decimal_columns = [],
     ts_overriding_system_value = True, ts_upsert_by = None\<rparr>"

definition state_spec :: table_spec where
  "state_spec = \<lparr>ts_name = ''state'',
     ts_columns = [''key'', ''value'', ''last_change_id'', ''last_tx_hash'', ''last_block_height'', ''updated_at''],
     ts_order_by = [''key''], ts_datetime_columns = [''updated_at''], ts_decimal_columns = [],
     ts_overriding_system_value = False, ts_upsert_by = None\<rparr>"

definition events_spec :: table_spec where
  "events_spec = \<lparr>ts_name = ''events'',
     ts_columns = [''id'', ''block_height'', ''tx_hash'', ''tx_index'', ''event_index'', ''contract'', ''event'', ''signer'',
       ''caller'', ''data_indexed'', ''data'', ''created_at''],
     ts_order_by = [''id''], ts_datetime_columns = [''created_at''], ts_decimal_columns = [],
     ts_overriding_system_value = True, ts_upsert_by = None\<rparr>"

definition rewards_spec :: table_spec where
  "rewards_spec = \<lparr>ts_name = ''rewards'',
     ts_columns = [''id'', ''block_height'', ''tx_hash'', ''tx_index'', ''reward_index'', ''type'', ''recipient_key'',
       ''source_contract'', ''value'', ''created_at''],
     ts_order_by = [''id''], ts_datetime_columns = [''created_at''], ts_decimal_columns = [''value''],
     ts_overriding_system_value = True, ts_upsert_by = None\<rparr>"

definition shielded_outputs_spec :: table_spec where
  "shielded_outputs_spec = \<lparr>ts_name = ''shielded_outputs'',
     ts_columns = [''id'', ''block_height'', ''tx_hash'', ''tx_index'', ''contract'', ''function'', ''action'', ''output_index'',
       ''note_index'', ''commitment'', ''new_root'', ''payload_hash'', ''created_at''],
     ts_order_by = [''id''], ts_datetime_columns = [''created_at''], ts_decimal_columns = [],
     ts_overriding_system_value = True, ts_upsert_by = None\<rparr>"

definition shielded_output_tags_spec :: table_spec where
  "shielded_output_tags_spec = \<lparr>ts_name = ''shielded_output_tags'',
     ts_columns = [''id'', ''block_height'', ''tx_hash'', ''tx_index'', ''contract'', ''function'', ''action'', ''output_index'',
       ''note_index'', ''commitment'', ''new_root'', ''payload_hash'', ''tag_kind'', ''tag_value'', ''created_at''],
     ts_order_by = [''id''], ts_datetime_columns = [''created_at''], ts_decimal_columns = [],
     ts_overriding_system_value = True, ts_upsert_by = None\<rparr>"

definition contracts_spec :: table_spec where
  "contracts_spec = \<lparr>ts_name = ''contracts'',
     ts_columns = [''name'', ''last_tx_hash'', ''submitted_at_block'', ''submitted_at'', ''source'', ''xsc001''],
     ts_order_by = [''name''], ts_datetime_columns = [''submitted_at''], ts_decimal_columns = [],
     ts_overriding_system_value = False, ts_upsert_by = None\<rparr>"

definition state_patches_spec :: table_spec where
  "state_patches_spec = \<lparr>ts_name = ''state_patches'',
     ts_columns = [''hash'', ''block_height'', ''block_hash'', ''block_time'', ''patch_count'', ''patches'', ''created_at''],
     ts_order_by = [''block_height''], ts_datetime_columns = [''created_at''], ts_decimal_columns = [],
     ts_overriding_system_value = False, ts_upsert_by = None\<rparr>"

definition TABLE_SPECS :: "table_spec list" where
  "TABLE_SPECS =
     [bds_meta_spec, blocks_spec, transactions_spec, addresses_spec, state_changes_spec, state_spec, events_spec, rewards_spec,
      shielded_outputs_spec, shielded_output_tags_spec, contracts_spec, state_patches_spec]"

lemmas spec_defs =
  bds_meta_spec_def blocks_spec_def transactions_spec_def addresses_spec_def state_changes_spec_def state_spec_def
  events_spec_def rewards_spec_def shielded_outputs_spec_def shielded_output_tags_spec_def contracts_spec_def state_patches_spec_def

text \<open>
  The constraints of a table: its keys, the columns that refer to a column of another table, and
  the columns that may be null.
\<close>

record table_constraints =
  tc_keys :: "string list list"
  tc_references :: "(string \<times> string \<times> string) list"
  tc_nullable :: "string list"

definition block_reference :: "string \<times> string \<times> string" where
  "block_reference = (''block_height'', ''blocks'', ''height'')"

definition tx_reference :: "string \<Rightarrow> string \<times> string \<times> string" where
  "tx_reference column = (column, ''transactions'', ''hash'')"

definition schema :: "(string \<times> table_constraints) list" where
  "schema =
     [(''bds_meta'', \<lparr>tc_keys = [[''key'']], tc_references = [], tc_nullable = []\<rparr>),
      (''blocks'', \<lparr>tc_keys = [[''height''], [''block_hash'']], tc_references = [], tc_nullable = []\<rparr>),
      (''transactions'', \<lparr>tc_keys = [[''hash''], [''block_height'', ''tx_index'']], tc_references = [block_reference],
         tc_nullable = [''result'']\<rparr>),
      (''addresses'', \<lparr>tc_keys = [[''address'']], tc_references = [tx_reference ''last_tx_hash''],
         tc_nullable = [''last_tx_hash'']\<rparr>),
      (''state_changes'', \<lparr>tc_keys = [[''change_id''], [''block_height'', ''tx_index'', ''write_index'']],
         tc_references = [block_reference, tx_reference ''tx_hash''],
         tc_nullable = [''tx_hash'', ''new_value'', ''previous_change_id'', ''previous_tx_hash'']\<rparr>),
      (''state'', \<lparr>tc_keys = [[''key'']], tc_references = [], tc_nullable = [''value'', ''last_tx_hash'']\<rparr>),
      (''events'', \<lparr>tc_keys = [[''id''], [''tx_hash'', ''event_index'']],
         tc_references = [block_reference, tx_reference ''tx_hash''], tc_nullable = []\<rparr>),
      (''rewards'', \<lparr>tc_keys = [[''id''], [''block_height'', ''tx_index'', ''reward_index'']],
         tc_references = [block_reference, tx_reference ''tx_hash''],
         tc_nullable = [''tx_hash'', ''recipient_key'', ''source_contract'']\<rparr>),
      (''shielded_outputs'', \<lparr>tc_keys = [[''id''], [''tx_hash'', ''output_index'']],
         tc_references = [block_reference, tx_reference ''tx_hash''], tc_nullable = [''note_index'']\<rparr>),
      (''shielded_output_tags'', \<lparr>tc_keys = [[''id''], [''tx_hash'', ''output_index'', ''tag_kind'', ''tag_value'']],
         tc_references = [block_reference, tx_reference ''tx_hash''], tc_nullable = [''note_index'']\<rparr>),
      (''contracts'', \<lparr>tc_keys = [[''name'']],
         tc_references = [tx_reference ''last_tx_hash'', (''submitted_at_block'', ''blocks'', ''height'')], tc_nullable = []\<rparr>),
      (''state_patches'', \<lparr>tc_keys = [[''hash'']], tc_references = [block_reference], tc_nullable = []\<rparr>)]"

definition constraints_of :: "table_spec \<Rightarrow> table_constraints" where
  "constraints_of spec =
     (case map_of schema (ts_name spec) of Some c \<Rightarrow> c | None \<Rightarrow> \<lparr>tc_keys = [], tc_references = [], tc_nullable = []\<rparr>)"

definition cell :: "row \<Rightarrow> string \<Rightarrow> pyval" where
  "cell row column = (case map_of row column of Some v \<Rightarrow> v | None \<Rightarrow> PNone)"

definition key_values :: "string list \<Rightarrow> row \<Rightarrow> pyval list" where
  "key_values key row = map (cell row) key"

text \<open>Nulls are never equal.\<close>

definition same_key :: "string list \<Rightarrow> row \<Rightarrow> row \<Rightarrow> bool" where
  "same_key key r r' = (key_values key r = key_values key r' \<and> PNone \<notin> set (key_values key r))"

definition null_violation :: exc where "null_violation = OtherError ''NotNullViolationError''"

definition refers :: "tables \<Rightarrow> row \<Rightarrow> string \<times> string \<times> string \<Rightarrow> bool" where
  "refers t row reference =
     (case reference of (column, target, target_column) \<Rightarrow>
        cell row column = PNone \<or> list_ex (\<lambda>r. cell r target_column = cell row column) (t target))"

definition check_row :: "table_spec \<Rightarrow> tables \<Rightarrow> row \<Rightarrow> unit res" where
  "check_row spec t row =
     (let c = constraints_of spec in
      if list_ex (\<lambda>(column, v). v = PNone \<and> column \<notin> set (tc_nullable c)) row then Inl null_violation
      else if list_ex (\<lambda>key. list_ex (\<lambda>r. same_key key r row) (t (ts_name spec))) (tc_keys c) then Inl unique_violation
      else guard (list_all (refers t row) (tc_references c)) foreign_key_violation)"

section \<open>Queries\<close>

definition int_key :: "pyval \<Rightarrow> int" where
  "int_key v = (case v of PInt i \<Rightarrow> i | _ \<Rightarrow> 0)"

definition text_key :: "pyval \<Rightarrow> string" where
  "text_key v = (case v of PStr s \<Rightarrow> s | _ \<Rightarrow> [])"

text \<open>\<^verbatim>\<open>ORDER BY\<close>: numbers before texts, each ascending.\<close>

definition select_query :: "table_spec \<Rightarrow> tables \<Rightarrow> row list" where
  "select_query spec t =
     foldr (\<lambda>column rows. sort_key (\<lambda>r. int_key (cell r column)) (sort_key (\<lambda>r. text_key (cell r column)) rows))
       (ts_order_by spec) (t (ts_name spec))"

definition insert_query :: "table_spec \<Rightarrow> row \<Rightarrow> tables \<Rightarrow> tables res" where
  "insert_query spec row t =
     (let rows = t (ts_name spec) in
      case ts_upsert_by spec of
        Some key \<Rightarrow>
          if list_ex (\<lambda>r. cell r key = cell row key) rows
          then Inr (t(ts_name spec := map (\<lambda>r. if cell r key = cell row key then row else r) rows))
          else rbind (check_row spec t row) (\<lambda>_. Inr (t(ts_name spec := rows @ [row])))
      | None \<Rightarrow> rbind (check_row spec t row) (\<lambda>_. Inr (t(ts_name spec := rows @ [row]))))"

section \<open>Rows in a file\<close>

definition json_text :: "snapshot_env \<Rightarrow> pyval \<Rightarrow> string res" where
  "json_text S v = rbind (json_dumps v) (\<lambda>_. Inr (se_render S v))"

definition encode_row_value :: "snapshot_env \<Rightarrow> table_spec \<Rightarrow> string \<Rightarrow> pyval \<Rightarrow> pyval" where
  "encode_row_value S spec column value =
     (if value = PNone then PNone
      else if column \<in> set (ts_datetime_columns spec) then PStr (se_isoformat S value)
      else if column \<in> set (ts_decimal_columns spec) then PStr (py_str (be_text (se_bds S)) value)
      else value)"

definition decode_row_value :: "snapshot_env \<Rightarrow> table_spec \<Rightarrow> string \<Rightarrow> pyval \<Rightarrow> pyval res" where
  "decode_row_value S spec column value =
     (if value = PNone then Inr PNone
      else if column \<in> set (ts_datetime_columns spec) then se_fromisoformat S (py_str (be_text (se_bds S)) value)
      else if column \<in> set (ts_decimal_columns spec) then se_decimal S (py_str (be_text (se_bds S)) value)
      else Inr value)"

definition serialize_snapshot_row :: "snapshot_env \<Rightarrow> table_spec \<Rightarrow> row \<Rightarrow> pyval res" where
  "serialize_snapshot_row S spec row =
     rbind (mapR (\<lambda>column. case map_of row column of
         None \<Rightarrow> Inl (KeyError column)
       | Some v \<Rightarrow> Inr (PStr column, encode_row_value S spec column v)) (ts_columns spec)) (\<lambda>items. Inr (PDict items))"

definition deserialize_snapshot_row :: "snapshot_env \<Rightarrow> table_spec \<Rightarrow> pyval \<Rightarrow> row res" where
  "deserialize_snapshot_row S spec payload =
     (case payload of
        PDict items \<Rightarrow>
          if set (map fst items) \<noteq> set (map PStr (ts_columns spec)) then Inl (ValueError ''invalid BDS snapshot row columns'')
          else mapR (\<lambda>column. rbind (dindex payload column) (\<lambda>v.
                 rbind (decode_row_value S spec column v) (\<lambda>v. Inr (column, v)))) (ts_columns spec)
      | _ \<Rightarrow> Inl (ValueError ''invalid BDS snapshot row columns''))"

definition RUNTIME_JSON_COLUMNS :: "(string \<times> string list) list" where
  "RUNTIME_JSON_COLUMNS =
     [(''transactions'', [''result'']), (''state'', [''value'']), (''state_changes'', [''new_value'']),
      (''events'', [''data'', ''data_indexed'']), (''state_patches'', [''patches''])]"

definition validate_column :: "snapshot_env \<Rightarrow> table_spec \<Rightarrow> pyval \<Rightarrow> string \<Rightarrow> unit res" where
  "validate_column S spec payload column =
     rbind (dindex payload column) (\<lambda>value.
     rbind (case value of PStr s \<Rightarrow> be_loads (se_bds S) s | _ \<Rightarrow> Inr value) (\<lambda>wire.
     rbind (se_convert_dict S wire) (\<lambda>typed.
     rbind (Bds_Tables.canonical_json_text (se_bds S) typed) (\<lambda>_.
     if ts_name spec \<in> {''state'', ''state_changes''}
     then rbind (dindex payload ''key'') (\<lambda>key.
          if key = PStr EXECUTION_POLICY_KEY then validate_execution_policy typed else Inr ())
     else Inr ()))))"

definition validate_snapshot_value :: "snapshot_env \<Rightarrow> table_spec \<Rightarrow> pyval \<Rightarrow> unit res" where
  "validate_snapshot_value S spec payload =
     rbind (mapR (validate_column S spec payload)
       (case map_of RUNTIME_JSON_COLUMNS (ts_name spec) of Some columns \<Rightarrow> columns | None \<Rightarrow> [])) (\<lambda>_. Inr ())"

record archive =
  ar_metadata :: string
  ar_files :: "(string, string list) dict"

definition table_file :: "table_spec \<Rightarrow> string" where
  "table_file spec = ts_name spec @ ''.jsonl''"

definition is_blank :: "string \<Rightarrow> bool" where
  "is_blank line = list_all is_ascii_space line"

definition snapshot_rows :: "snapshot_env \<Rightarrow> (string, string list) dict \<Rightarrow> string \<Rightarrow> pyval list res" where
  "snapshot_rows S files name =
     (case map_of files name of
        None \<Rightarrow> Inl (FileNotFoundError ''snapshot table file missing'')
      | Some lines \<Rightarrow> mapR (be_loads (se_bds S)) (filter (\<lambda>l. \<not> is_blank l) lines))"

fun meta_values :: "pyval list \<Rightarrow> (pyval \<times> pyval) list \<Rightarrow> (pyval \<times> pyval) list res" where
  "meta_values [] values = Inr values"
| "meta_values (row # rows) seen =
     rbind (dindex row ''key'') (\<lambda>key.
     if map_of seen key \<noteq> None then Inl (ValueError ''duplicate BDS snapshot metadata key'')
     else rbind (dindex row ''value'') (\<lambda>value. meta_values rows (AList.update key value seen)))"

definition snapshot_meta_values :: "snapshot_env \<Rightarrow> (string, string list) dict \<Rightarrow> (pyval \<times> pyval) list res" where
  "snapshot_meta_values S files = rbind (snapshot_rows S files (table_file bds_meta_spec)) (\<lambda>rows. meta_values rows [])"

definition declared_count :: "pyval \<Rightarrow> table_spec \<Rightarrow> pyval res" where
  "declared_count metadata spec =
     rbind (py_get metadata ''tables'' (PDict [])) (\<lambda>ts.
     rbind (py_get ts (ts_name spec) (PDict [])) (\<lambda>entry. py_get entry ''row_count'' PNone))"

definition preflight_table :: "snapshot_env \<Rightarrow> (string, string list) dict \<Rightarrow> pyval \<Rightarrow> table_spec \<Rightarrow> unit res" where
  "preflight_table S files metadata spec =
     rbind (snapshot_rows S files (table_file spec)) (\<lambda>rows.
     rbind (mapR (\<lambda>payload. rbind (deserialize_snapshot_row S spec payload) (\<lambda>_. validate_snapshot_value S spec payload)) rows) (\<lambda>_.
     rbind (declared_count metadata spec) (\<lambda>declared.
     guard (declared = PInt (int (length rows))) (ValueError ''BDS snapshot row count mismatch''))))"

definition preflight_snapshot :: "snapshot_env \<Rightarrow> (string, string list) dict \<Rightarrow> pyval \<Rightarrow> unit res" where
  "preflight_snapshot S files metadata =
     rbind (py_get metadata ''execution_policy'' PNone) (\<lambda>policy.
     rbind (validate_execution_policy policy) (\<lambda>_.
     rbind (mapR (preflight_table S files metadata) TABLE_SPECS) (\<lambda>_.
     rbind (snapshot_meta_values S files) (\<lambda>meta_rows.
     rbind (guard (map_of meta_rows (PStr ''schema_version'') = Some (PStr (str_int SCHEMA_VERSION)))
        (ValueError ''BDS snapshot schema metadata mismatch'')) (\<lambda>_.
     rbind (case map_of meta_rows (PStr ''execution_policy'') of
          None \<Rightarrow> Inr PNone
        | Some PNone \<Rightarrow> Inr PNone
        | Some (PStr raw) \<Rightarrow> be_loads (se_bds S) raw
        | Some _ \<Rightarrow> Inl (TypeError ''the JSON object must be str'')) validate_execution_policy)))))"

section \<open>Export\<close>

text \<open>
  \<^verbatim>\<open>get_status()["indexed"]\<close>: the columns of the last block and the numbers of rows; when the
  status query raises, the values it started with.
\<close>

definition last_block :: "tables \<Rightarrow> row option" where
  "last_block t = (case rev (sort_key (\<lambda>r. int_key (cell r ''height'')) (t ''blocks'')) of [] \<Rightarrow> None | r # _ \<Rightarrow> Some r)"

definition index_status :: "bool \<Rightarrow> tables \<Rightarrow> pyval" where
  "index_status query_fails t =
     (let column = (\<lambda>c. if query_fails then PNone else case last_block t of None \<Rightarrow> PNone | Some r \<Rightarrow> cell r c) in
      PDict [(PStr ''indexed_block_count'', PInt (if query_fails then 0 else int (length (t ''blocks'')))), (PStr ''indexed_height'', column ''height''),
        (PStr ''indexed_block_hash'', column ''block_hash''), (PStr ''indexed_block_time'', column ''block_time''),
        (PStr ''indexed_block_time_iso'', column ''block_time_iso''),
        (PStr ''indexed_tx_count'', if query_fails then PNone else PInt (int (length (t ''transactions'')))), (PStr ''indexed_app_hash'', column ''app_hash'')])"

definition SNAPSHOT_FORMAT_VERSION :: int where "SNAPSHOT_FORMAT_VERSION = 2"
definition IMPORT_BATCH_SIZE :: nat where "IMPORT_BATCH_SIZE = 1000"

definition table_lines :: "snapshot_env \<Rightarrow> table_spec \<Rightarrow> tables \<Rightarrow> string list res" where
  "table_lines S spec t = mapR (\<lambda>row. rbind (serialize_snapshot_row S spec row) (json_text S)) (select_query spec t)"

definition snapshot_files :: "snapshot_env \<Rightarrow> tables \<Rightarrow> (string, string list) dict res" where
  "snapshot_files S t = mapR (\<lambda>spec. rbind (table_lines S spec t) (\<lambda>lines. Inr (table_file spec, lines))) TABLE_SPECS"

definition table_counts :: "tables \<Rightarrow> pyval" where
  "table_counts t =
     PDict (map (\<lambda>spec. (PStr (ts_name spec), PDict [(PStr ''row_count'', PInt (int (length (t (ts_name spec)))))])) TABLE_SPECS)"

definition snapshot_metadata :: "snapshot_env \<Rightarrow> pyval \<Rightarrow> int \<Rightarrow> tables \<Rightarrow> pyval" where
  "snapshot_metadata S indexed spool_pending_count t =
     PDict [(PStr ''snapshot_format_version'', PInt SNAPSHOT_FORMAT_VERSION), (PStr ''schema_version'', PInt SCHEMA_VERSION),
       (PStr ''execution_policy'', PDict current_execution_policy), (PStr ''exported_at'', PStr (se_isoformat S (se_now S))),
       (PStr ''indexed'', indexed), (PStr ''spool_pending_count'', PInt spool_pending_count), (PStr ''tables'', table_counts t)]"

definition export_bds_snapshot :: "snapshot_env \<Rightarrow> bool \<Rightarrow> bool \<Rightarrow> bool \<Rightarrow> int \<Rightarrow> tables \<Rightarrow> archive res" where
  "export_bds_snapshot S output_exists force query_fails spool_pending_count t =
     rbind (guard (\<not> output_exists \<or> force) (OtherError ''FileExistsError'')) (\<lambda>_.
     let metadata = snapshot_metadata S (index_status query_fails t) spool_pending_count t in
     rbind (snapshot_files S t) (\<lambda>files.
     rbind (preflight_snapshot S files metadata) (\<lambda>_.
     rbind (json_text S metadata) (\<lambda>content. Inr \<lparr>ar_metadata = content, ar_files = files\<rparr>))))"

definition default_snapshot_output_path :: "string \<Rightarrow> int option \<Rightarrow> string \<Rightarrow> string" where
  "default_snapshot_output_path output_dir indexed_height timestamp =
     output_dir @ ''/xian-bds-snapshot-h'' @ (case indexed_height of Some h \<Rightarrow> str_int h | None \<Rightarrow> ''empty'') @ ''-'' @ timestamp @
     ''.tar.gz''"

section \<open>Import\<close>

text \<open>The new directory that is extracted to has no links, so resolving removes the upward steps.\<close>

definition resolved_path :: "path \<Rightarrow> path" where
  "resolved_path p = fold (\<lambda>part current. if part = ''..'' then butlast current else current @ [part]) p []"

definition safe_member :: "path \<Rightarrow> string \<Rightarrow> bool" where
  "safe_member destination name = prefix destination (resolved_path (join_path destination name))"

definition safe_extract_snapshot :: "path \<Rightarrow> (string, string list) dict \<Rightarrow> (string, string list) dict res" where
  "safe_extract_snapshot destination members =
     (if list_ex (\<lambda>(name, _). \<not> safe_member destination name) members then Inl (ValueError ''unsafe snapshot member path'')
      else Inr (fold (\<lambda>(name, lines). AList.update name lines) members []))"

definition verify_snapshot_indexed_chain_state ::
    "snapshot_env \<Rightarrow> pyval \<Rightarrow> (int \<Rightarrow> pyval res) option \<Rightarrow> unit res" where
  "verify_snapshot_indexed_chain_state S metadata trusted_block_source =
     rbind (py_get metadata ''indexed'' PNone) (\<lambda>indexed.
     if \<not> is_dict indexed then Inl (ValueError ''BDS snapshot indexed metadata missing'')
     else let indexed_height = dget_or indexed ''indexed_height'' PNone;
              indexed_block_hash = dget_or indexed ''indexed_block_hash'' PNone;
              indexed_app_hash = dget_or indexed ''indexed_app_hash'' PNone in
       if indexed_height = PNone then Inr ()
       else if \<not> is_str indexed_block_hash \<or> indexed_block_hash = PStr [] then Inl (ValueError ''BDS snapshot indexed block hash missing'')
       else if \<not> is_str indexed_app_hash \<or> indexed_app_hash = PStr [] then Inl (ValueError ''BDS snapshot indexed app hash missing'')
       else case trusted_block_source of
         None \<Rightarrow> Inr ()
       | Some source \<Rightarrow>
           rbind (py_int (te_int_of_text (be_text (se_bds S))) indexed_height) (\<lambda>height.
           rbind (source height) (\<lambda>block.
           rbind (response_block_hash (se_bds S) block) (\<lambda>trusted_block_hash.
           rbind (response_app_hash (se_bds S) block) (\<lambda>trusted_app_hash.
           rbind (guard (trusted_block_hash = ascii_upper (str_of indexed_block_hash))
             (ValueError ''BDS snapshot indexed block hash mismatch'')) (\<lambda>_.
           guard (trusted_app_hash = ascii_upper (str_of indexed_app_hash))
             (ValueError ''BDS snapshot indexed app hash mismatch''))))))) "

record snapshot_store =
  ss_tables :: tables
  ss_sequences :: "string \<Rightarrow> int"
  ss_spool :: "(string, string) dict"

definition meta_row :: "snapshot_env \<Rightarrow> string \<Rightarrow> string \<Rightarrow> row" where
  "meta_row S key content = [(''key'', PStr key), (''value'', PStr content), (''updated_at'', se_now S)]"

text \<open>The tables after \<^verbatim>\<open>reset_schema\<close>: empty but for the two rows of \<^verbatim>\<open>bds_meta\<close>.\<close>

definition reset_tables :: "snapshot_env \<Rightarrow> tables" where
  "reset_tables S =
     (\<lambda>_. [])(''bds_meta'' := [meta_row S ''schema_version'' (str_int SCHEMA_VERSION), meta_row S ''execution_policy'' stored_policy])"

function chunks :: "nat \<Rightarrow> 'a list \<Rightarrow> 'a list list" where
  "chunks n xs = (if n = 0 \<or> xs = [] then [] else take n xs # chunks n (drop n xs))"
  by pat_completeness auto

termination
  by (relation "measure (\<lambda>(n, xs). length xs)") auto

declare chunks.simps [simp del]

fun insert_rows :: "table_spec \<Rightarrow> row list \<Rightarrow> tables \<Rightarrow> tables res" where
  "insert_rows spec [] t = Inr t"
| "insert_rows spec (row # rows) t = rbind (insert_query spec row t) (insert_rows spec rows)"

text \<open>\<^verbatim>\<open>executemany\<close> on one batch after the other; the connection may fail at any batch of a table.\<close>

fun insert_batches :: "(string \<Rightarrow> nat \<Rightarrow> bool) \<Rightarrow> table_spec \<Rightarrow> nat \<Rightarrow> row list list \<Rightarrow> tables \<Rightarrow> tables res" where
  "insert_batches fails spec n [] t = Inr t"
| "insert_batches fails spec n (batch # batches) t =
     (if fails (ts_name spec) n then Inl (OtherError ''ConnectionError'')
      else rbind (insert_rows spec batch t) (insert_batches fails spec (Suc n) batches))"

definition import_table ::
    "snapshot_env \<Rightarrow> (string \<Rightarrow> nat \<Rightarrow> bool) \<Rightarrow> (string, string list) dict \<Rightarrow> table_spec \<Rightarrow> tables \<Rightarrow> tables res" where
  "import_table S fails files spec t =
     rbind (snapshot_rows S files (table_file spec)) (\<lambda>payloads.
     rbind (mapR (deserialize_snapshot_row S spec) payloads) (\<lambda>rows.
     insert_batches fails spec 0 (chunks IMPORT_BATCH_SIZE rows) t))"

definition SEQUENCES :: "(string \<times> string) list" where
  "SEQUENCES = [(''state_changes'', ''change_id''), (''events'', ''id''), (''rewards'', ''id''), (''shielded_outputs'', ''id''),
     (''shielded_output_tags'', ''id'')]"

definition set_sequence :: "tables \<Rightarrow> string \<times> string \<Rightarrow> (string \<Rightarrow> int) \<Rightarrow> string \<Rightarrow> int" where
  "set_sequence t s seqs =
     (case map (\<lambda>r. int_key (cell r (snd s))) (t (fst s)) of [] \<Rightarrow> seqs(fst s := 1) | ids \<Rightarrow> seqs(fst s := Max (set ids)))"

definition import_tables ::
    "snapshot_env \<Rightarrow> (string \<Rightarrow> nat \<Rightarrow> bool) \<Rightarrow> (string, string list) dict \<Rightarrow> tables \<Rightarrow> tables res" where
  "import_tables S fails files t = foldR (import_table S fails files) TABLE_SPECS t"

definition checked_metadata ::
    "snapshot_env \<Rightarrow> path \<Rightarrow> (int \<Rightarrow> pyval res) option \<Rightarrow> archive \<Rightarrow> (string, string list) dict res" where
  "checked_metadata S destination trusted_block_source a =
     rbind (safe_extract_snapshot destination (ar_files a)) (\<lambda>files.
     rbind (be_loads (se_bds S) (ar_metadata a)) (\<lambda>metadata.
     rbind (py_get metadata ''snapshot_format_version'' PNone) (\<lambda>format_version.
     rbind (guard (format_version = PInt SNAPSHOT_FORMAT_VERSION) (ValueError ''unsupported BDS snapshot format version'')) (\<lambda>_.
     rbind (py_get metadata ''schema_version'' PNone) (\<lambda>version.
     rbind (guard (version = PInt SCHEMA_VERSION) (ValueError ''BDS snapshot schema version mismatch'')) (\<lambda>_.
     rbind (py_get metadata ''execution_policy'' PNone) (\<lambda>policy.
     rbind (validate_execution_policy policy) (\<lambda>_.
     rbind (verify_snapshot_indexed_chain_state S metadata trusted_block_source) (\<lambda>_.
     rbind (preflight_snapshot S files metadata) (\<lambda>_.
     Inr files))))))))))"

text \<open>The schema is reset before the transaction in which the rows are inserted.\<close>

definition import_bds_snapshot ::
    "snapshot_env \<Rightarrow> path \<Rightarrow> (string \<Rightarrow> nat \<Rightarrow> bool) \<Rightarrow> archive option \<Rightarrow> bool \<Rightarrow> (int \<Rightarrow> pyval res) option \<Rightarrow>
     (snapshot_store, unit) step" where
  "import_bds_snapshot S destination fails archived clear trusted_block_source s =
     (case archived of
        None \<Rightarrow> (Inl (FileNotFoundError ''snapshot not found''), s)
      | Some a \<Rightarrow>
          (case checked_metadata S destination trusted_block_source a of
             Inl e \<Rightarrow> (Inl e, s)
           | Inr files \<Rightarrow>
               (let s = s\<lparr>ss_tables := reset_tables S, ss_sequences := (\<lambda>_. 1), ss_spool := (if clear then [] else ss_spool s)\<rparr> in
                case import_tables S fails files (reset_tables S) of
                  Inl e \<Rightarrow> (Inl e, s)
                | Inr t \<Rightarrow> (Inr (), s\<lparr>ss_tables := t, ss_sequences := fold (set_sequence t) SEQUENCES (ss_sequences s)\<rparr>))))"

end
