(* ===== verification/Bds_Import.thy ===== *)
theory Bds_Import
  imports Bds_Snapshot
begin

text \<open>
  Importing the files that an export writes gives back every row of every table, as long as the
  tables satisfied their constraints: the order of the tables puts a row after the rows it refers to.
\<close>

section \<open>JSON with sorted keys\<close>

fun sort_json :: "pyval \<Rightarrow> pyval" where
  "sort_json (PList xs) = PList (map sort_json xs)"
| "sort_json (PDict kvs) = PDict (sort_key (\<lambda>kv. str_of (fst kv)) (map (\<lambda>kv. (fst kv, sort_json (snd kv))) kvs))"
| "sort_json v = v"

definition reads_json :: "snapshot_env \<Rightarrow> pyval \<Rightarrow> bool" where
  "reads_json S v \<longleftrightarrow> be_loads (se_bds S) (se_render S v) = Inr (sort_json v) \<and> \<not> is_blank (se_render S v)"

definition json_plain :: "pyval \<Rightarrow> bool" where
  "json_plain v = (case v of PNone \<Rightarrow> True | PBool _ \<Rightarrow> True | PInt _ \<Rightarrow> True | PStr _ \<Rightarrow> True | _ \<Rightarrow> False)"

lemma json_plain_simps [simp]:
  "json_plain v \<Longrightarrow> sort_json v = v" "json_plain v \<Longrightarrow> is_ok (json_dumps v)" "json_plain (PStr s)" "json_plain PNone"
  by (cases v; simp add: json_plain_def)+

lemma json_dumps_dict:
  assumes "\<And>k v. (k, v) \<in> set kvs \<Longrightarrow> is_str k \<and> is_ok (json_dumps v)"
  shows "is_ok (json_dumps (PDict kvs))"
proof -
  have "is_ok (mapR (\<lambda>kv. if is_str (fst kv)
      then rbind (json_dumps (snd kv)) (\<lambda>t. Inr (json_string (str_of (fst kv)) @ CHR '':'' # t))
      else Inl (TypeError ''keys must be str'')) kvs)"
  proof (rule mapR_is_ok)
    fix kv assume "kv \<in> set kvs"
    then show "is_ok (if is_str (fst kv)
      then rbind (json_dumps (snd kv)) (\<lambda>t. Inr (json_string (str_of (fst kv)) @ CHR '':'' # t))
      else Inl (TypeError ''keys must be str''))"
      using assms [of "fst kv" "snd kv"] by (auto simp: is_ok_iff)
  qed
  then show ?thesis by (auto simp: is_ok_iff)
qed

lemma json_dumps_value:
  assumes "is_ok (json_dumps (PDict kvs))" "(k, v) \<in> set kvs"
  shows "is_ok (json_dumps v)"
proof -
  have each: "mapR f xs = Inr ys \<Longrightarrow> x \<in> set xs \<Longrightarrow> is_ok (f x)" for f :: "pyval \<times> pyval \<Rightarrow> string res" and xs ys x
    by (induction xs arbitrary: ys) (auto simp: rbind_Inr_iff)
  obtain ts where "mapR (\<lambda>kv. if is_str (fst kv)
      then rbind (json_dumps (snd kv)) (\<lambda>t. Inr (json_string (str_of (fst kv)) @ CHR '':'' # t))
      else Inl (TypeError ''keys must be str'')) kvs = Inr ts"
    using assms(1) by (auto simp: is_ok_iff rbind_Inr_iff)
  from each [OF this assms(2)] show ?thesis by (cases "json_dumps v") (auto split: if_splits)
qed

lemma json_text_ok: "is_ok (json_dumps v) \<Longrightarrow> json_text S v = Inr (se_render S v)"
  by (auto simp: json_text_def is_ok_iff)

lemma dget_sort_json:
  assumes "dict_wf kvs"
  shows "dget (sort_json (PDict kvs)) k = map_option sort_json (dget (PDict kvs) k)"
proof -
  let ?m = "map (\<lambda>kv. (fst kv, sort_json (snd kv))) kvs"
  have "dict_wf ?m" using assms by (simp add: dict_wf_def comp_def)
  then have "map_of (sort_key (\<lambda>kv. str_of (fst kv)) ?m) = map_of ?m" by (intro map_of_perm [symmetric]) simp_all
  moreover have "map_of ?m x = map_option sort_json (map_of kvs x)" for x by (induction kvs) auto
  ultimately show ?thesis by simp
qed

lemma dindex_sort_json:
  assumes "dict_wf kvs"
  shows "dindex (sort_json (PDict kvs)) k = rbind (dindex (PDict kvs) k) (\<lambda>v. Inr (sort_json v))"
proof -
  have "is_dict (sort_json (PDict kvs))" by simp
  then show ?thesis using dget_sort_json [OF assms, of k] by (cases "dget (PDict kvs) k") (simp_all add: dindex_def)
qed

section \<open>Rows\<close>

definition cell_ok :: "snapshot_env \<Rightarrow> table_spec \<Rightarrow> string \<Rightarrow> pyval \<Rightarrow> bool" where
  "cell_ok S spec column v \<longleftrightarrow> v = PNone \<or>
     (if column \<in> set (ts_datetime_columns spec) then se_fromisoformat S (se_isoformat S v) = Inr v
      else if column \<in> set (ts_decimal_columns spec) then se_decimal S (py_str (be_text (se_bds S)) v) = Inr v
      else json_plain v)"

definition row_payload :: "snapshot_env \<Rightarrow> table_spec \<Rightarrow> row \<Rightarrow> pyval" where
  "row_payload S spec row = PDict (map (\<lambda>(column, v). (PStr column, encode_row_value S spec column v)) row)"

definition row_ok :: "snapshot_env \<Rightarrow> table_spec \<Rightarrow> row \<Rightarrow> bool" where
  "row_ok S spec row \<longleftrightarrow> map fst row = ts_columns spec \<and> (\<forall>(column, v)\<in>set row. cell_ok S spec column v) \<and>
     reads_json S (row_payload S spec row) \<and> validate_snapshot_value S spec (row_payload S spec row) = Inr ()"

lemma spec_columns_distinct: "spec \<in> set TABLE_SPECS \<Longrightarrow> distinct (ts_columns spec)"
proof -
  have "list_all (\<lambda>spec. distinct (ts_columns spec)) TABLE_SPECS" by code_simp
  then show "spec \<in> set TABLE_SPECS \<Longrightarrow> distinct (ts_columns spec)" by (simp add: list_all_iff)
qed

lemma encoded_cell_plain: "cell_ok S spec column v \<Longrightarrow> json_plain (encode_row_value S spec column v)"
  by (auto simp: cell_ok_def encode_row_value_def split: if_splits)

lemma decode_encode: "cell_ok S spec column v \<Longrightarrow> decode_row_value S spec column (encode_row_value S spec column v) = Inr v"
  by (auto simp: cell_ok_def encode_row_value_def decode_row_value_def py_str_def split: if_splits)

lemma row_okD:
  assumes "row_ok S spec row"
  shows "map fst row = ts_columns spec" "(column, v) \<in> set row \<Longrightarrow> cell_ok S spec column v"
    "reads_json S (row_payload S spec row)" "validate_snapshot_value S spec (row_payload S spec row) = Inr ()"
  using assms unfolding row_ok_def by auto

lemma row_wf: "spec \<in> set TABLE_SPECS \<Longrightarrow> row_ok S spec row \<Longrightarrow> dict_wf row"
  by (simp add: dict_wf_def row_okD(1) spec_columns_distinct)

lemma payload_wf: "dict_wf row \<Longrightarrow> dict_wf (map (\<lambda>(column, v). (PStr column, encode_row_value S spec column v)) row)"
  by (simp add: dict_wf_def split_def comp_def distinct_map inj_on_def)

lemma payload_item:
  assumes "dict_wf row" "(column, v) \<in> set row"
  shows "dindex (row_payload S spec row) column = Inr (encode_row_value S spec column v)"
proof -
  have "map_of (map (\<lambda>(column, v). (PStr column, encode_row_value S spec column v)) row) (PStr column) =
      Some (encode_row_value S spec column v)"
    using assms(2) by (subst dict_wf_map_of_iff [OF payload_wf [OF assms(1)]]) force
  then show ?thesis by (simp add: row_payload_def dindex_def)
qed

lemma serialize_row:
  assumes "spec \<in> set TABLE_SPECS" "row_ok S spec row"
  shows "serialize_snapshot_row S spec row = Inr (row_payload S spec row)"
proof -
  note wf = row_wf [OF assms]
  let ?g = "\<lambda>column. (PStr column, encode_row_value S spec column (the (map_of row column)))"
  have "mapR (\<lambda>column. case map_of row column of None \<Rightarrow> Inl (KeyError column)
      | Some v \<Rightarrow> Inr (PStr column, encode_row_value S spec column v)) (ts_columns spec) = Inr (map ?g (ts_columns spec))"
  proof (rule mapR_total)
    fix column assume "column \<in> set (ts_columns spec)"
    then obtain v where "(column, v) \<in> set row" unfolding row_okD(1) [OF assms(2), symmetric] by auto
    then have "map_of row column = Some v" by (simp add: dict_wf_map_of_iff [OF wf])
    then show "(case map_of row column of None \<Rightarrow> Inl (KeyError column)
      | Some v \<Rightarrow> Inr (PStr column, encode_row_value S spec column v)) = Inr (?g column)" by simp
  qed
  moreover have "map ?g (ts_columns spec) = map (\<lambda>(column, v). (PStr column, encode_row_value S spec column v)) row"
    unfolding row_okD(1) [OF assms(2), symmetric] map_map
    by (rule map_cong) (auto simp: dict_wf_map_of_iff [OF wf, THEN iffD2])
  ultimately show ?thesis by (simp add: serialize_snapshot_row_def row_payload_def)
qed

lemma payload_text:
  assumes "row_ok S spec row"
  shows "json_text S (row_payload S spec row) = Inr (se_render S (row_payload S spec row))"
proof (rule json_text_ok)
  show "is_ok (json_dumps (row_payload S spec row))"
    unfolding row_payload_def
  proof (rule json_dumps_dict)
    fix k v assume "(k, v) \<in> set (map (\<lambda>(column, v). (PStr column, encode_row_value S spec column v)) row)"
    then obtain column x where "(column, x) \<in> set row" "k = PStr column" "v = encode_row_value S spec column x" by auto
    then show "is_str k \<and> is_ok (json_dumps v)" using row_okD(2) [OF assms] encoded_cell_plain by (simp only: is_str.simps json_plain_simps)
  qed
qed

lemma loaded_item:
  assumes "spec \<in> set TABLE_SPECS" "row_ok S spec row"
  shows "dindex (sort_json (row_payload S spec row)) k = dindex (row_payload S spec row) k"
proof -
  let ?kvs = "map (\<lambda>(column, v). (PStr column, encode_row_value S spec column v)) row"
  note wf = payload_wf [OF row_wf [OF assms], of S spec]
  have "sort_json v = v" if "dindex (PDict ?kvs) k = Inr v" for v
  proof -
    have "map_of ?kvs (PStr k) = Some v" using that by (simp add: dindex_Inr_iff)
    then obtain column x where "(column, x) \<in> set row" "v = encode_row_value S spec column x" 
      using map_of_SomeD [of ?kvs "PStr k" v] by auto
    then show ?thesis using row_okD(2) [OF assms(2)] encoded_cell_plain by (simp only: json_plain_simps)
  qed
  then show ?thesis
    using dindex_sort_json [OF wf, of k] unfolding row_payload_def
    by (cases "dindex (PDict ?kvs) k") (simp_all only: rbind_simps)
qed

lemma deserialize_row:
  assumes "spec \<in> set TABLE_SPECS" "row_ok S spec row"
  shows "deserialize_snapshot_row S spec (sort_json (row_payload S spec row)) = Inr row"
proof -
  note wf = row_wf [OF assms]
  let ?p = "sort_json (row_payload S spec row)"
  have keys: "set (map fst (sort_key (\<lambda>kv. str_of (fst kv)) (map (\<lambda>kv. (fst kv, sort_json (snd kv)))
      (map (\<lambda>(column, v). (PStr column, encode_row_value S spec column v)) row)))) = set (map PStr (ts_columns spec))"
    by (force simp: row_okD(1) [OF assms(2), symmetric])
  have "mapR (\<lambda>column. rbind (dindex ?p column) (\<lambda>v. rbind (decode_row_value S spec column v) (\<lambda>v. Inr (column, v)))) (ts_columns spec) =
      Inr (map (\<lambda>column. (column, the (map_of row column))) (ts_columns spec))"
  proof (rule mapR_total)
    fix column assume "column \<in> set (ts_columns spec)"
    then obtain v where v: "(column, v) \<in> set row"
      unfolding row_okD(1) [OF assms(2), symmetric] by auto
    then show "rbind (dindex ?p column) (\<lambda>v. rbind (decode_row_value S spec column v) (\<lambda>v. Inr (column, v))) =
        Inr (column, the (map_of row column))"
      using loaded_item [OF assms, of column] payload_item [OF wf v] decode_encode [OF row_okD(2) [OF assms(2) v]]
        dict_wf_map_of_iff [OF wf, of column v] by simp
  qed
  moreover have "map (\<lambda>column. (column, the (map_of row column))) (ts_columns spec) = row"
    unfolding row_okD(1) [OF assms(2), symmetric] map_map
    by (rule map_idI) (auto simp: dict_wf_map_of_iff [OF wf, THEN iffD2])
  ultimately show ?thesis using keys
    unfolding deserialize_snapshot_row_def row_payload_def sort_json.simps pyval.case by simp
qed

lemma validate_loaded:
  assumes "spec \<in> set TABLE_SPECS" "row_ok S spec row"
  shows "validate_snapshot_value S spec (sort_json (row_payload S spec row)) = Inr ()"
  using row_okD(4) [OF assms(2)] unfolding validate_snapshot_value_def validate_column_def loaded_item [OF assms] .

section \<open>Files\<close>

lemma map_of_keyed: "distinct (map f xs) \<Longrightarrow> x \<in> set xs \<Longrightarrow> map_of (map (\<lambda>x. (f x, g x)) xs) (f x) = Some (g x)"
  by (induction xs) (auto simp: image_iff)

lemma mset_select_query: "mset (select_query spec t) = mset (t (ts_name spec))"
proof -
  have "mset (foldr (\<lambda>column rows. sort_key (\<lambda>r. int_key (cell r column)) (sort_key (\<lambda>r. text_key (cell r column)) rows)) cs rows) = mset rows"
    for cs and rows :: "row list" by (induction cs) simp_all
  then show ?thesis by (simp add: select_query_def)
qed

lemma set_select_query: "set (select_query spec t) = set (t (ts_name spec))"
  by (rule mset_eq_setD) (rule mset_select_query)

lemma length_select_query: "length (select_query spec t) = length (t (ts_name spec))"
  by (rule mset_eq_length) (rule mset_select_query)

definition tables_ok :: "snapshot_env \<Rightarrow> tables \<Rightarrow> bool" where
  "tables_ok S t \<longleftrightarrow> (\<forall>spec\<in>set TABLE_SPECS. \<forall>row\<in>set (t (ts_name spec)). row_ok S spec row)"

definition table_content :: "snapshot_env \<Rightarrow> tables \<Rightarrow> table_spec \<Rightarrow> string list" where
  "table_content S t spec = map (\<lambda>row. se_render S (row_payload S spec row)) (select_query spec t)"

lemma exported_files:
  assumes "tables_ok S t"
  shows "snapshot_files S t = Inr (map (\<lambda>spec. (table_file spec, table_content S t spec)) TABLE_SPECS)"
  unfolding snapshot_files_def
proof (rule mapR_total)
  fix spec assume spec: "spec \<in> set TABLE_SPECS"
  have "table_lines S spec t = Inr (table_content S t spec)"
    unfolding table_lines_def table_content_def
  proof (rule mapR_total)
    fix row assume "row \<in> set (select_query spec t)"
    then have "row_ok S spec row" using assms spec by (simp add: tables_ok_def set_select_query)
    then show "rbind (serialize_snapshot_row S spec row) (json_text S) = Inr (se_render S (row_payload S spec row))"
      using serialize_row [OF spec] payload_text by simp
  qed
  then show "rbind (table_lines S spec t) (\<lambda>lines. Inr (table_file spec, lines)) = Inr (table_file spec, table_content S t spec)"
    by simp
qed

lemma table_files_distinct: "distinct (map table_file TABLE_SPECS)"
  by code_simp

lemma table_files_plain: "spec \<in> set TABLE_SPECS \<Longrightarrow> \<not> is_absolute (table_file spec) \<and> path_parts (table_file spec) = [table_file spec]"
proof -
  have "list_all (\<lambda>spec. \<not> is_absolute (table_file spec) \<and> path_parts (table_file spec) = [table_file spec]) TABLE_SPECS" by code_simp
  then show "spec \<in> set TABLE_SPECS \<Longrightarrow> ?thesis" by (simp add: list_all_iff)
qed

lemma resolved_plain: "''..'' \<notin> set p \<Longrightarrow> resolved_path p = p"
proof -
  have "''..'' \<notin> set p \<Longrightarrow> fold (\<lambda>part current. if part = ''..'' then butlast current else current @ [part]) p q = q @ p" for q
    by (induction p arbitrary: q) auto
  then show "''..'' \<notin> set p \<Longrightarrow> resolved_path p = p" by (simp add: resolved_path_def)
qed

lemma table_files_safe:
  assumes "spec \<in> set TABLE_SPECS" "''..'' \<notin> set destination"
  shows "safe_member destination (table_file spec)"
proof -
  have "list_all (\<lambda>spec. table_file spec \<noteq> ''..'') TABLE_SPECS" by code_simp
  then have "''..'' \<notin> set (destination @ [table_file spec])" using assms by (auto simp: list_all_iff)
  then show ?thesis
    using table_files_plain [OF assms(1)] by (simp add: safe_member_def join_path_def resolved_plain)
qed

lemma extracted_files:
  assumes "''..'' \<notin> set destination"
  obtains files where "safe_extract_snapshot destination (map (\<lambda>spec. (table_file spec, table_content S t spec)) TABLE_SPECS) = Inr files"
    "\<And>spec. spec \<in> set TABLE_SPECS \<Longrightarrow> map_of files (table_file spec) = Some (table_content S t spec)"
proof
  let ?m = "map (\<lambda>spec. (table_file spec, table_content S t spec)) TABLE_SPECS"
  show "safe_extract_snapshot destination ?m = Inr (dict_update [] ?m)"
    using table_files_safe [OF _ assms] by (auto simp: safe_extract_snapshot_def dict_update_def list_ex_iff)
  fix spec assume "spec \<in> set TABLE_SPECS"
  then have "map_of ?m (table_file spec) = Some (table_content S t spec)" by (rule map_of_keyed [OF table_files_distinct])
  moreover have "dict_wf ?m" using table_files_distinct by (simp add: dict_wf_def comp_def)
  ultimately show "map_of (dict_update [] ?m) (table_file spec) = Some (table_content S t spec)"
    by (simp add: map_of_dict_update)
qed

lemma loaded_rows:
  assumes "tables_ok S t" "spec \<in> set TABLE_SPECS" "map_of files (table_file spec) = Some (table_content S t spec)"
  shows "snapshot_rows S files (table_file spec) = Inr (map (\<lambda>row. sort_json (row_payload S spec row)) (select_query spec t))"
proof -
  have ok: "row_ok S spec row" if "row \<in> set (select_query spec t)" for row
    using that assms(1,2) by (simp add: tables_ok_def set_select_query)
  have "filter (\<lambda>l. \<not> is_blank l) (table_content S t spec) = table_content S t spec"
    using row_okD(3) [OF ok] by (auto simp: filter_id_conv table_content_def reads_json_def)
  moreover have "mapR (be_loads (se_bds S)) (table_content S t spec) =
      Inr (map (\<lambda>row. sort_json (row_payload S spec row)) (select_query spec t))"
    unfolding table_content_def using row_okD(3) [OF ok]
    by (auto simp: mapR_Inr_iff list_all2_map1 list_all2_map2 list_all2_same reads_json_def)
  ultimately show ?thesis by (simp add: snapshot_rows_def assms(3))
qed

lemma deserialized_rows:
  assumes "tables_ok S t" "spec \<in> set TABLE_SPECS"
  shows "mapR (deserialize_snapshot_row S spec) (map (\<lambda>row. sort_json (row_payload S spec row)) (select_query spec t)) =
    Inr (select_query spec t)"
  using assms deserialize_row
  by (auto simp: mapR_Inr_iff list_all2_map1 list_all2_same tables_ok_def set_select_query)

section \<open>Inserting\<close>

lemma concat_batches: "0 < n \<Longrightarrow> concat (chunks n xs) = xs"
  by (induction n xs rule: chunks.induct) (simp add: chunks.simps)

lemma insert_rows_append: "insert_rows spec (xs @ ys) t = rbind (insert_rows spec xs t) (insert_rows spec ys)"
  by (induction xs arbitrary: t) (simp_all add: rbind_def split: sum.split)

lemma insert_batches_eq: "insert_batches (\<lambda>_ _. False) spec n bs t = insert_rows spec (concat bs) t"
  by (induction bs arbitrary: n t) (simp_all add: insert_rows_append rbind_def split: sum.split)

lemma import_table_eq:
  assumes "tables_ok S t" "spec \<in> set TABLE_SPECS" "map_of files (table_file spec) = Some (table_content S t spec)"
  shows "import_table S (\<lambda>_ _. False) files spec t' = insert_rows spec (select_query spec t) t'"
  by (simp add: import_table_def loaded_rows [OF assms] deserialized_rows [OF assms(1,2)] insert_batches_eq
      concat_batches IMPORT_BATCH_SIZE_def)

text \<open>No two rows share a key, no column that may not be null is null, and references lead somewhere.\<close>

definition keyed :: "string list \<Rightarrow> row list \<Rightarrow> bool" where
  "keyed key rows \<longleftrightarrow> distinct (map (key_values key) (filter (\<lambda>r. PNone \<notin> set (key_values key r)) rows))"

definition nulls_ok :: "table_spec \<Rightarrow> row \<Rightarrow> bool" where
  "nulls_ok spec row \<longleftrightarrow> (\<forall>(column, v)\<in>set row. v = PNone \<longrightarrow> column \<in> set (tc_nullable (constraints_of spec)))"

definition constrained :: "tables \<Rightarrow> table_spec \<Rightarrow> bool" where
  "constrained t spec \<longleftrightarrow>
     (\<forall>key\<in>set (tc_keys (constraints_of spec)). keyed key (t (ts_name spec))) \<and>
     (\<forall>row\<in>set (t (ts_name spec)). nulls_ok spec row \<and> list_all (refers t row) (tc_references (constraints_of spec)))"

lemma keyed_perm: "mset xs = mset ys \<Longrightarrow> keyed key xs = keyed key ys"
  unfolding keyed_def by (rule mset_eq_imp_distinct_iff) simp

lemma keyed_fresh: "keyed key (xs @ r # ys) \<Longrightarrow> \<not> list_ex (\<lambda>x. same_key key x r) xs"
proof
  assume keyed: "keyed key (xs @ r # ys)" and "list_ex (\<lambda>x. same_key key x r) xs"
  then obtain x where x: "x \<in> set xs" "key_values key x = key_values key r" "PNone \<notin> set (key_values key r)"
    by (auto simp: list_ex_iff same_key_def)
  then have "key_values key r \<in> set (map (key_values key) (filter (\<lambda>r. PNone \<notin> set (key_values key r)) xs))"
    by (auto simp: image_iff intro!: bexI [of _ x])
  with keyed x(3) show False by (simp add: keyed_def)
qed

lemma insert_all:
  assumes "ts_upsert_by spec = None"
    and "\<forall>key\<in>set (tc_keys (constraints_of spec)). keyed key (t (ts_name spec) @ rows)"
    and "\<forall>row\<in>set rows. nulls_ok spec row \<and> list_all (refers t row) (tc_references (constraints_of spec))"
    and "\<forall>(_, target, _)\<in>set (tc_references (constraints_of spec)). target \<noteq> ts_name spec"
  shows "insert_rows spec rows t = Inr (t(ts_name spec := t (ts_name spec) @ rows))"
  using assms(2,3)
proof (induction rows arbitrary: t)
  case (Cons row rows)
  let ?t = "t(ts_name spec := t (ts_name spec) @ [row])"
  have refs: "list_all (refers ?t r) (tc_references (constraints_of spec)) = list_all (refers t r) (tc_references (constraints_of spec))" for r
    unfolding list_all_iff
  proof (rule ball_cong)
    fix ref assume "ref \<in> set (tc_references (constraints_of spec))"
    then have "fst (snd ref) \<noteq> ts_name spec" using assms(4) by auto
    then show "refers ?t r ref = refers t r ref" by (cases ref) (simp add: refers_def)
  qed simp
  have "check_row spec t row = Inr ()"
    using Cons.prems keyed_fresh unfolding check_row_def Let_def
    by (auto simp: list_ex_iff nulls_ok_def)
  then have "insert_query spec row t = Inr ?t" by (simp add: insert_query_def assms(1))
  moreover have "insert_rows spec rows ?t = Inr (?t(ts_name spec := ?t (ts_name spec) @ rows))"
  proof (rule Cons.IH)
    show "\<forall>key\<in>set (tc_keys (constraints_of spec)). keyed key (?t (ts_name spec) @ rows)" using Cons.prems(1) by simp
    show "\<forall>row\<in>set rows. nulls_ok spec row \<and> list_all (refers ?t row) (tc_references (constraints_of spec))"
      unfolding refs using Cons.prems(2) by simp
  qed
  ultimately show ?case by (auto simp: fun_eq_iff)
qed simp

text \<open>A table comes after the tables its references lead to.\<close>

fun references_before :: "string list \<Rightarrow> table_spec list \<Rightarrow> bool" where
  "references_before seen [] = True"
| "references_before seen (spec # specs) =
     (list_all (\<lambda>(_, target, _). target \<in> set seen \<and> target \<noteq> ts_name spec) (tc_references (constraints_of spec)) \<and>
      ts_name spec \<notin> set seen \<and> ts_upsert_by spec = None \<and> references_before (ts_name spec # seen) specs)"

lemma schema_order: "TABLE_SPECS = bds_meta_spec # tl TABLE_SPECS" "references_before [''bds_meta''] (tl TABLE_SPECS)"
  by (simp add: TABLE_SPECS_def) code_simp

lemma refers_cong:
  assumes "\<And>n. n \<in> set seen \<Longrightarrow> set (t' n) = set (t n)" "fst (snd ref) \<in> set seen"
  shows "refers t' row ref = refers t row ref"
  using assms(1) [OF assms(2)] by (cases ref) (simp add: refers_def list_ex_iff)

lemma import_rest:
  assumes ok: "tables_ok S t" and files: "\<And>spec. spec \<in> set TABLE_SPECS \<Longrightarrow> map_of files (table_file spec) = Some (table_content S t spec)"
    and constr: "\<And>spec. spec \<in> set TABLE_SPECS \<Longrightarrow> constrained t spec"
  shows "set specs \<subseteq> set TABLE_SPECS \<Longrightarrow> references_before seen specs \<Longrightarrow>
    (\<And>n. n \<in> set seen \<Longrightarrow> set (t' n) = set (t n)) \<Longrightarrow> (\<And>n. n \<notin> set seen \<Longrightarrow> t' n = []) \<Longrightarrow>
    \<exists>t2. foldR (import_table S (\<lambda>_ _. False) files) specs t' = Inr t2 \<and>
      (\<forall>n\<in>set seen \<union> ts_name ` set specs. set (t2 n) = set (t n))"
proof (induction specs arbitrary: t' seen)
  case (Cons spec specs)
  have spec: "spec \<in> set TABLE_SPECS" using Cons.prems(1) by simp
  have before: "list_all (\<lambda>(_, target, _). target \<in> set seen \<and> target \<noteq> ts_name spec) (tc_references (constraints_of spec))"
    "ts_name spec \<notin> set seen" "ts_upsert_by spec = None" "references_before (ts_name spec # seen) specs"
    using Cons.prems(2) by simp_all
  note c = constr [OF spec, unfolded constrained_def]
  let ?rows = "select_query spec t" and ?t = "t'(ts_name spec := select_query spec t)"
  have refs: "refers t' row ref = refers t row ref" if "ref \<in> set (tc_references (constraints_of spec))" for row ref
  proof (rule refers_cong)
    show "n \<in> set seen \<Longrightarrow> set (t' n) = set (t n)" for n by (rule Cons.prems(3))
    show "fst (snd ref) \<in> set seen" using before(1) that by (auto simp: list_all_iff)
  qed
  have "insert_rows spec ?rows t' = Inr (t'(ts_name spec := t' (ts_name spec) @ ?rows))"
  proof (rule insert_all [OF before(3)])
    show "\<forall>key\<in>set (tc_keys (constraints_of spec)). keyed key (t' (ts_name spec) @ ?rows)"
      using c Cons.prems(4) [OF before(2)] keyed_perm [OF mset_select_query] by simp
    show "\<forall>row\<in>set ?rows. nulls_ok spec row \<and> list_all (refers t' row) (tc_references (constraints_of spec))"
      using c refs by (simp add: set_select_query list_all_iff)
    show "\<forall>(_, target, _)\<in>set (tc_references (constraints_of spec)). target \<noteq> ts_name spec"
      using before(1) by (auto simp: list_all_iff)
  qed
  then have step: "import_table S (\<lambda>_ _. False) files spec t' = Inr ?t"
    using import_table_eq [OF ok spec files [OF spec]] Cons.prems(4) [OF before(2)] by simp
  have "\<exists>t2. foldR (import_table S (\<lambda>_ _. False) files) specs ?t = Inr t2 \<and>
      (\<forall>n\<in>set (ts_name spec # seen) \<union> ts_name ` set specs. set (t2 n) = set (t n))"
  proof (rule Cons.IH [OF _ before(4)])
    show "set specs \<subseteq> set TABLE_SPECS" using Cons.prems(1) by simp
    show "set (?t n) = set (t n)" if "n \<in> set (ts_name spec # seen)" for n
      using that Cons.prems(3) by (auto simp: set_select_query)
    show "?t n = []" if "n \<notin> set (ts_name spec # seen)" for n using that Cons.prems(4) by auto
  qed
  then show ?case using step by auto
qed auto

text \<open>The rows of \<^verbatim>\<open>bds_meta\<close> replace rows with the same key.\<close>

lemma upsert_all:
  assumes "\<forall>row\<in>set rows. nulls_ok bds_meta_spec row \<and> cell row ''key'' \<noteq> PNone" "distinct (map (\<lambda>r. cell r ''key'') rows)"
  shows "\<exists>t2. insert_rows bds_meta_spec rows t = Inr t2 \<and> (\<forall>n. n \<noteq> ''bds_meta'' \<longrightarrow> t2 n = t n) \<and>
    set (t2 ''bds_meta'') = {r\<in>set (t ''bds_meta''). cell r ''key'' \<notin> (\<lambda>r. cell r ''key'') ` set rows} \<union> set rows"
  using assms
proof (induction rows arbitrary: t)
  case (Cons row rows)
  let ?E = "t ''bds_meta''" and ?k = "\<lambda>r. cell r ''key''"
  have meta: "ts_name bds_meta_spec = ''bds_meta''" "ts_upsert_by bds_meta_spec = Some ''key''"
    "constraints_of bds_meta_spec = \<lparr>tc_keys = [[''key'']], tc_references = [], tc_nullable = []\<rparr>"
    by (simp_all add: bds_meta_spec_def constraints_of_def schema_def)
  have "\<exists>rows1. insert_query bds_meta_spec row t = Inr (t(''bds_meta'' := rows1)) \<and>
      set rows1 = {r\<in>set ?E. ?k r \<noteq> ?k row} \<union> {row}"
  proof (cases "list_ex (\<lambda>r. ?k r = ?k row) ?E")
    case True
    then show ?thesis by (auto simp: insert_query_def Let_def meta list_ex_iff split: if_splits)
  next
    case False
    then have "check_row bds_meta_spec t row = Inr ()"
      using Cons.prems(1) by (auto simp: check_row_def meta list_ex_iff same_key_def key_values_def nulls_ok_def Let_def)
    with False show ?thesis by (auto simp: insert_query_def Let_def meta list_ex_iff)
  qed
  then obtain rows1 where r1: "insert_query bds_meta_spec row t = Inr (t(''bds_meta'' := rows1))"
    "set rows1 = {r\<in>set ?E. ?k r \<noteq> ?k row} \<union> {row}" by blast
  obtain t2 where t2: "insert_rows bds_meta_spec rows (t(''bds_meta'' := rows1)) = Inr t2"
    "\<forall>n. n \<noteq> ''bds_meta'' \<longrightarrow> t2 n = (t(''bds_meta'' := rows1)) n"
    "set (t2 ''bds_meta'') = {r\<in>set rows1. ?k r \<notin> ?k ` set rows} \<union> set rows"
  proof -
    have "distinct (map ?k rows)" "\<forall>row\<in>set rows. nulls_ok bds_meta_spec row \<and> cell row ''key'' \<noteq> PNone" using Cons.prems by simp_all
    from Cons.IH [OF this(2,1), of "t(''bds_meta'' := rows1)"] show thesis
      by (elim exE conjE, intro that) (simp_all only: fun_upd_same)
  qed
  have "?k row \<notin> ?k ` set rows" using Cons.prems(2) by simp
  with t2 r1 show ?case by auto
qed auto

section \<open>The whole import\<close>

lemma meta_values_rows:
  assumes "\<And>row. row \<in> set rows \<Longrightarrow> dindex (f row) ''key'' = Inr (cell row ''key'') \<and> dindex (f row) ''value'' = Inr (cell row ''value'')"
    "distinct (map (\<lambda>r. cell r ''key'') rows)" "\<forall>r\<in>set rows. map_of seen (cell r ''key'') = None"
  shows "\<exists>vs. meta_values (map f rows) seen = Inr vs \<and>
    (\<forall>k. map_of vs k = (case map_of (map (\<lambda>r. (cell r ''key'', cell r ''value'')) rows) k of Some v \<Rightarrow> Some v | None \<Rightarrow> map_of seen k))"
  using assms
proof (induction rows arbitrary: seen)
  case (Cons row rows)
  let ?seen = "AList.update (cell row ''key'') (cell row ''value'') seen"
  have "\<forall>r\<in>set rows. map_of ?seen (cell r ''key'') = None"
  proof
    fix r assume r: "r \<in> set rows"
    then have "cell r ''key'' \<in> (\<lambda>r. cell r ''key'') ` set rows" by (rule imageI)
    then have "cell r ''key'' \<noteq> cell row ''key''" using Cons.prems(2) by auto
    then show "map_of ?seen (cell r ''key'') = None" using Cons.prems(3) r by (simp add: map_of_AList_update)
  qed
  then obtain vs where vs: "meta_values (map f rows) ?seen = Inr vs"
    "\<forall>k. map_of vs k = (case map_of (map (\<lambda>r. (cell r ''key'', cell r ''value'')) rows) k of Some v \<Rightarrow> Some v | None \<Rightarrow> map_of ?seen k)"
    using Cons.IH [of ?seen] Cons.prems(1,2) by auto
  have "map_of (map (\<lambda>r. (cell r ''key'', cell r ''value'')) rows) (cell row ''key'') = None"
    using Cons.prems(2) by (auto simp: map_of_eq_None_iff image_iff)
  with vs Cons.prems show ?case by (auto simp: map_of_AList_update split: option.split)
qed simp

definition meta_ok :: "snapshot_env \<Rightarrow> tables \<Rightarrow> bool" where
  "meta_ok S t \<longleftrightarrow> (\<forall>row\<in>set (t ''bds_meta''). cell row ''key'' \<noteq> PNone) \<and>
     (\<exists>row\<in>set (t ''bds_meta''). cell row ''key'' = PStr ''schema_version'' \<and> cell row ''value'' = PStr (str_int SCHEMA_VERSION)) \<and>
     (\<exists>row\<in>set (t ''bds_meta''). \<exists>raw policy. cell row ''key'' = PStr ''execution_policy'' \<and> cell row ''value'' = PStr raw \<and>
        be_loads (se_bds S) raw = Inr policy \<and> validate_execution_policy policy = Inr ())"

lemma meta_spec_simps:
  "ts_name bds_meta_spec = ''bds_meta''" "ts_columns bds_meta_spec = [''key'', ''value'', ''updated_at'']"
  "ts_datetime_columns bds_meta_spec = [''updated_at'']" "ts_decimal_columns bds_meta_spec = []"
  "bds_meta_spec \<in> set TABLE_SPECS"
  by (simp_all add: bds_meta_spec_def TABLE_SPECS_def)

lemma meta_keys_distinct:
  assumes "constrained t bds_meta_spec" "meta_ok S t"
  shows "distinct (map (\<lambda>r. cell r ''key'') (select_query bds_meta_spec t))"
proof -
  have "keyed [''key''] (t ''bds_meta'')"
    using assms(1) by (simp add: constrained_def meta_spec_simps constraints_of_def schema_def)
  moreover have "filter (\<lambda>r. PNone \<notin> set (key_values [''key''] r)) (t ''bds_meta'') = t ''bds_meta''"
    using assms(2) by (auto simp: filter_id_conv key_values_def meta_ok_def)
  ultimately have "distinct (map (key_values [''key'']) (t ''bds_meta''))" by (simp add: keyed_def)
  then have "distinct (map hd (map (key_values [''key'']) (t ''bds_meta'')))"
    by (simp add: distinct_map) (auto simp: inj_on_def key_values_def)
  then have "distinct (map (\<lambda>r. cell r ''key'') (t ''bds_meta''))" by (simp add: comp_def key_values_def)
  then show ?thesis
    by (subst mset_eq_imp_distinct_iff [of _ "map (\<lambda>r. cell r ''key'') (t ''bds_meta'')"])
      (use mset_select_query [of bds_meta_spec t] in \<open>simp_all add: meta_spec_simps\<close>)
qed

lemma meta_item:
  assumes "row_ok S bds_meta_spec row" "column \<in> {''key'', ''value''}"
  shows "dindex (sort_json (row_payload S bds_meta_spec row)) column = Inr (cell row column)"
proof -
  note wf = row_wf [OF meta_spec_simps(5) assms(1)]
  obtain v where v: "(column, v) \<in> set row"
    using row_okD(1) [OF assms(1)] assms(2) by (auto simp: meta_spec_simps Cons_eq_map_conv map_eq_Cons_conv)
  have "encode_row_value S bds_meta_spec column v = v" using assms(2) by (auto simp: encode_row_value_def meta_spec_simps)
  moreover have "cell row column = v" using v by (simp add: cell_def dict_wf_map_of_iff [OF wf, THEN iffD2])
  ultimately show ?thesis using loaded_item [OF meta_spec_simps(5) assms(1)] payload_item [OF wf v] by simp
qed

definition sound_metadata :: "snapshot_env \<Rightarrow> tables \<Rightarrow> pyval \<Rightarrow> bool" where
  "sound_metadata S t m \<longleftrightarrow> is_dict m \<and> dget m ''snapshot_format_version'' = Some (PInt SNAPSHOT_FORMAT_VERSION) \<and>
     dget m ''schema_version'' = Some (PInt SCHEMA_VERSION) \<and>
     (\<exists>p. dget m ''execution_policy'' = Some p \<and> validate_execution_policy p = Inr ()) \<and>
     (\<forall>spec\<in>set TABLE_SPECS. declared_count m spec = Inr (PInt (int (length (t (ts_name spec))))))"

lemma preflight_ok:
  assumes ok: "tables_ok S t" and files: "\<And>spec. spec \<in> set TABLE_SPECS \<Longrightarrow> map_of files (table_file spec) = Some (table_content S t spec)"
    and m: "sound_metadata S t m" and constr: "constrained t bds_meta_spec" and meta: "meta_ok S t"
  shows "preflight_snapshot S files m = Inr ()"
proof -
  have table: "preflight_table S files m spec = Inr ()" if spec: "spec \<in> set TABLE_SPECS" for spec
  proof -
    have "mapR (\<lambda>payload. rbind (deserialize_snapshot_row S spec payload) (\<lambda>_. validate_snapshot_value S spec payload))
        (map (\<lambda>row. sort_json (row_payload S spec row)) (select_query spec t)) = Inr (map (\<lambda>_. ()) (select_query spec t))"
      using ok spec deserialize_row [OF spec] validate_loaded [OF spec]
      by (auto simp: mapR_Inr_iff list_all2_map1 list_all2_map2 list_all2_same tables_ok_def set_select_query)
    then show ?thesis
      using m spec by (simp add: preflight_table_def loaded_rows [OF ok spec files [OF spec]] sound_metadata_def length_select_query)
  qed
  then have tables: "mapR (preflight_table S files m) TABLE_SPECS = Inr (map (\<lambda>_. ()) TABLE_SPECS)" by (rule mapR_total)
  let ?rows = "select_query bds_meta_spec t"
  note distinct = meta_keys_distinct [OF constr meta]
  have row: "row_ok S bds_meta_spec row" if "row \<in> set ?rows" for row
    using that ok by (simp add: tables_ok_def set_select_query meta_spec_simps(5))
  obtain vs where vs: "meta_values (map (\<lambda>row. sort_json (row_payload S bds_meta_spec row)) ?rows) [] = Inr vs"
    "\<forall>k. map_of vs k = (case map_of (map (\<lambda>r. (cell r ''key'', cell r ''value'')) ?rows) k of Some v \<Rightarrow> Some v | None \<Rightarrow> map_of [] k)"
    using meta_values_rows [of ?rows "\<lambda>row. sort_json (row_payload S bds_meta_spec row)" "[]"] distinct meta_item [OF row] by auto
  have loaded: "snapshot_meta_values S files = Inr vs"
    using vs(1) loaded_rows [OF ok meta_spec_simps(5) files [OF meta_spec_simps(5)]] by (simp add: snapshot_meta_values_def)
  have lookup: "map_of vs (cell r ''key'') = Some (cell r ''value'')" if "r \<in> set (t ''bds_meta'')" for r
    using vs(2) map_of_keyed [OF distinct, of r "\<lambda>r. cell r ''value''"] that by (simp add: set_select_query meta_spec_simps)
  obtain r1 where r1: "r1 \<in> set (t ''bds_meta'')" "cell r1 ''key'' = PStr ''schema_version''"
    "cell r1 ''value'' = PStr (str_int SCHEMA_VERSION)" using meta unfolding meta_ok_def by blast
  obtain r2 raw policy where r2: "r2 \<in> set (t ''bds_meta'')" "cell r2 ''key'' = PStr ''execution_policy''" "cell r2 ''value'' = PStr raw"
    "be_loads (se_bds S) raw = Inr policy" "validate_execution_policy policy = Inr ()" using meta unfolding meta_ok_def by blast
  from m obtain p where p: "py_get m ''execution_policy'' PNone = Inr p" "validate_execution_policy p = Inr ()"
    by (auto simp: sound_metadata_def py_get_def dget_or_def)
  show ?thesis
    using p tables loaded lookup [OF r1(1)] lookup [OF r2(1)] r1 r2 by (simp add: preflight_snapshot_def)
qed

lemma import_tables_ok:
  assumes ok: "tables_ok S t" and files: "\<And>spec. spec \<in> set TABLE_SPECS \<Longrightarrow> map_of files (table_file spec) = Some (table_content S t spec)"
    and constr: "\<And>spec. spec \<in> set TABLE_SPECS \<Longrightarrow> constrained t spec" and meta: "meta_ok S t"
  shows "\<exists>t2. import_tables S (\<lambda>_ _. False) files (reset_tables S) = Inr t2 \<and>
    (\<forall>spec\<in>set TABLE_SPECS. set (t2 (ts_name spec)) = set (t (ts_name spec)))"
proof -
  let ?rows = "select_query bds_meta_spec t" and ?k = "\<lambda>r. cell r ''key''"
  note m = constr [OF meta_spec_simps(5)]
  have rows: "set ?rows = set (t ''bds_meta'')" by (simp add: set_select_query meta_spec_simps)
  obtain t1 where t1: "insert_rows bds_meta_spec ?rows (reset_tables S) = Inr t1" "\<forall>n. n \<noteq> ''bds_meta'' \<longrightarrow> t1 n = reset_tables S n"
    "set (t1 ''bds_meta'') = {r\<in>set (reset_tables S ''bds_meta''). ?k r \<notin> ?k ` set ?rows} \<union> set ?rows"
    using upsert_all [OF _ meta_keys_distinct [OF m meta], of "reset_tables S"] m meta rows
    by (auto simp: constrained_def meta_ok_def meta_spec_simps)
  have "{PStr ''schema_version'', PStr ''execution_policy''} \<subseteq> ?k ` set ?rows"
    using meta rows unfolding meta_ok_def by (force simp: image_iff)
  then have "set (t1 ''bds_meta'') = set (t ''bds_meta'')"
    using t1(3) rows by (auto simp: reset_tables_def meta_row_def cell_def)
  moreover have "t1 n = []" if "n \<noteq> ''bds_meta''" for n using t1(2) that by (simp add: reset_tables_def)
  ultimately have "\<exists>t2. foldR (import_table S (\<lambda>_ _. False) files) (tl TABLE_SPECS) t1 = Inr t2 \<and>
      (\<forall>n\<in>set [''bds_meta''] \<union> ts_name ` set (tl TABLE_SPECS). set (t2 n) = set (t n))"
    by (intro import_rest [OF ok files constr _ schema_order(2)]) (auto simp: TABLE_SPECS_def)
  then obtain t2 where t2: "foldR (import_table S (\<lambda>_ _. False) files) (tl TABLE_SPECS) t1 = Inr t2"
    "\<forall>n\<in>set [''bds_meta''] \<union> ts_name ` set (tl TABLE_SPECS). set (t2 n) = set (t n)" by blast
  have "import_table S (\<lambda>_ _. False) files bds_meta_spec (reset_tables S) = Inr t1"
    using t1(1) import_table_eq [OF ok meta_spec_simps(5) files [OF meta_spec_simps(5)]] by simp
  then have "import_tables S (\<lambda>_ _. False) files (reset_tables S) = Inr t2"
    unfolding import_tables_def by (subst schema_order(1)) (simp add: t2(1))
  moreover have "set (t2 (ts_name spec)) = set (t (ts_name spec))" if "spec \<in> set TABLE_SPECS" for spec
  proof -
    have "spec \<in> set (bds_meta_spec # tl TABLE_SPECS)" using that schema_order(1) by simp
    then have "ts_name spec \<in> set [''bds_meta''] \<union> ts_name ` set (tl TABLE_SPECS)" by (auto simp: meta_spec_simps)
    with t2(2) show ?thesis by blast
  qed
  ultimately show ?thesis by blast
qed

section \<open>Properties\<close>

text \<open>The identifiers a sequence hands out next are new.\<close>

lemma sequence_ahead:
  assumes "s \<in> set SEQUENCES" "r \<in> set (t (fst s))"
  shows "int_key (cell r (snd s)) \<le> fold (set_sequence t) SEQUENCES q (fst s)"
proof -
  have step: "set_sequence t s' q' n = q' n" if "n \<noteq> fst s'" for s' q' n
    using that by (simp add: set_sequence_def split: list.split)
  have top: "int_key (cell r (snd s')) \<le> set_sequence t s' q' (fst s')" if "r \<in> set (t (fst s'))" for s' q'
  proof -
    have "t (fst s') \<noteq> []" using that by auto
    then obtain x xs where ids: "map (\<lambda>r. int_key (cell r (snd s'))) (t (fst s')) = x # xs" by (cases "t (fst s')") auto
    have "int_key (cell r (snd s')) \<in> set (x # xs)" using that unfolding ids [symmetric] by auto
    then show ?thesis by (simp add: set_sequence_def ids)
  qed
  show ?thesis using assms step top unfolding SEQUENCES_def by auto
qed

text \<open>C33: The files that an export writes hold the whole index: an import of them, with metadata that
  counts the rows, returns and leaves every table with exactly the rows it had, whatever the
  database held before, and the sequences are ahead of every identifier.\<close>

theorem import_restores_tables:
  assumes "tables_ok S t" and "\<forall>spec\<in>set TABLE_SPECS. constrained t spec" and "meta_ok S t"
    and "snapshot_files S t = Inr files" and "be_loads (se_bds S) content = Inr m" and "sound_metadata S t m"
    and "verify_snapshot_indexed_chain_state S m source = Inr ()" and "''..'' \<notin> set destination"
  shows "\<exists>s'. import_bds_snapshot S destination (\<lambda>_ _. False) (Some \<lparr>ar_metadata = content, ar_files = files\<rparr>) clear source s = (Inr (), s') \<and>
    (\<forall>spec\<in>set TABLE_SPECS. set (ss_tables s' (ts_name spec)) = set (t (ts_name spec))) \<and>
    (\<forall>q\<in>set SEQUENCES. \<forall>r\<in>set (ss_tables s' (fst q)). int_key (cell r (snd q)) \<le> ss_sequences s' (fst q))"
proof -
  have files: "files = map (\<lambda>spec. (table_file spec, table_content S t spec)) TABLE_SPECS"
    using exported_files [OF assms(1)] assms(4) by simp
  obtain extracted where x: "safe_extract_snapshot destination files = Inr extracted"
    "\<And>spec. spec \<in> set TABLE_SPECS \<Longrightarrow> map_of extracted (table_file spec) = Some (table_content S t spec)"
    using extracted_files [OF assms(8), of S t] unfolding files by metis
  have constr: "constrained t spec" if "spec \<in> set TABLE_SPECS" for spec using that assms(2) by blast
  have "preflight_snapshot S extracted m = Inr ()"
    using assms(1) x(2) assms(6) constr [OF meta_spec_simps(5)] assms(3) by (rule preflight_ok)
  moreover from assms(6) obtain p where "py_get m ''execution_policy'' PNone = Inr p" "validate_execution_policy p = Inr ()"
    "py_get m ''snapshot_format_version'' PNone = Inr (PInt SNAPSHOT_FORMAT_VERSION)" "py_get m ''schema_version'' PNone = Inr (PInt SCHEMA_VERSION)"
    by (auto simp: sound_metadata_def py_get_def dget_or_def)
  ultimately have checked: "checked_metadata S destination source \<lparr>ar_metadata = content, ar_files = files\<rparr> = Inr extracted"
    using x(1) assms(5,7) by (simp add: checked_metadata_def)
  obtain t2 where t2: "import_tables S (\<lambda>_ _. False) extracted (reset_tables S) = Inr t2"
    "\<forall>spec\<in>set TABLE_SPECS. set (t2 (ts_name spec)) = set (t (ts_name spec))"
    using import_tables_ok [OF assms(1) x(2) constr assms(3)] by blast
  show ?thesis
    using checked t2 sequence_ahead by (auto simp: import_bds_snapshot_def Let_def)
qed

text \<open>C34: When the status query answers, no index with a block can be exported: the status that goes
  into the metadata holds the time of the last block as a datetime, which JSON has no text for.
  (When the query itself fails, the metadata records an empty index and can be written.)\<close>

theorem export_fails_once_indexed:
  assumes "t ''blocks'' \<noteq> []" and "\<forall>r\<in>set (t ''blocks''). \<exists>time. cell r ''block_time_iso'' = PDatetime time"
  shows "\<exists>e. export_bds_snapshot S output_exists force False n t = Inl e"
proof -
  let ?sorted = "sort_key (\<lambda>r. int_key (cell r ''height'')) (t ''blocks'')"
  have members: "set (rev ?sorted) = set (t ''blocks'')" by simp
  have "rev ?sorted \<noteq> []"
  proof
    assume "rev ?sorted = []"
    then have "set (t ''blocks'') = {}" unfolding members [symmetric] by (simp only: list.set)
    with assms(1) show False by simp
  qed
  then obtain r rs where r: "rev ?sorted = r # rs" by (cases "rev ?sorted") auto
  then have "r \<in> set (t ''blocks'')" unfolding members [symmetric] by (simp only: list.set_intros(1))
  with assms(2) obtain time where "cell r ''block_time_iso'' = PDatetime time" by blast
  then obtain kvs where kvs: "index_status False t = PDict kvs" "(PStr ''indexed_block_time_iso'', PDatetime time) \<in> set kvs"
    by (intro that, unfold index_status_def last_block_def r Let_def list.case option.case if_False) (rule refl, simp only: list.set insert_iff simp_thms)
  have "\<not> is_ok (json_dumps (PDatetime time))" by simp
  then have "\<not> is_ok (json_dumps (PDict kvs))" using json_dumps_value [OF _ kvs(2)] by blast
  then have "\<not> is_ok (json_dumps (index_status False t))" unfolding kvs(1) .
  then have "\<not> is_ok (json_text S (snapshot_metadata S (index_status False t) n t))"
  proof (rule contrapos_nn)
    assume "is_ok (json_text S (snapshot_metadata S (index_status False t) n t))"
    then have "is_ok (json_dumps (snapshot_metadata S (index_status False t) n t))" by (auto simp only: json_text_def is_ok_iff rbind_Inr_iff)
    then show "is_ok (json_dumps (index_status False t))"
      unfolding snapshot_metadata_def by (rule json_dumps_value [where k = "PStr ''indexed''"]) simp
  qed
  then show ?thesis
    unfolding export_bds_snapshot_def Let_def
    by (cases "guard (\<not> output_exists \<or> force) (OtherError ''FileExistsError'')"; cases "snapshot_files S t";
        cases "preflight_snapshot S (projr (snapshot_files S t)) (snapshot_metadata S (index_status False t) n t)";
        cases "json_text S (snapshot_metadata S (index_status False t) n t)") auto
qed

section \<open>A sample index\<close>

definition sample_block_row :: row where
  "sample_block_row = [(''height'', PInt 1), (''block_hash'', PStr ''B''), (''block_time'', PInt 5), (''block_time_iso'', PDatetime ''iso''),
     (''tx_count'', PInt 0), (''app_hash'', PStr ''A''), (''created_at'', PDatetime ''now'')]"

definition sample_meta_row :: "string \<Rightarrow> string \<Rightarrow> row" where
  "sample_meta_row key content = [(''key'', PStr key), (''value'', PStr content), (''updated_at'', PDatetime ''now'')]"

definition sample_tables :: tables where
  "sample_tables = (\<lambda>_. [])(''bds_meta'' := [sample_meta_row ''schema_version'' ''7'', sample_meta_row ''execution_policy'' ''policy''],
     ''blocks'' := [sample_block_row])"

definition render_first :: "pyval \<Rightarrow> string" where
  "render_first v = (case v of PDict ((_, PStr s) # _) \<Rightarrow> s | PDict ((_, PInt i) # _) \<Rightarrow> str_int i | _ \<Rightarrow> [])"

definition meta_payload :: "string \<Rightarrow> string \<Rightarrow> pyval" where
  "meta_payload key content = PDict [(PStr ''key'', PStr key), (PStr ''value'', PStr content), (PStr ''updated_at'', PStr ''now'')]"

definition block_payload :: pyval where
  "block_payload = PDict [(PStr ''height'', PInt 1), (PStr ''block_hash'', PStr ''B''), (PStr ''block_time'', PInt 5),
     (PStr ''block_time_iso'', PStr ''iso''), (PStr ''tx_count'', PInt 0), (PStr ''app_hash'', PStr ''A''), (PStr ''created_at'', PStr ''now'')]"

definition sample_metadata :: pyval where
  "sample_metadata = PDict [(PStr ''snapshot_format_version'', PInt SNAPSHOT_FORMAT_VERSION), (PStr ''schema_version'', PInt SCHEMA_VERSION),
     (PStr ''execution_policy'', PDict current_execution_policy), (PStr ''indexed'', PDict []), (PStr ''tables'', table_counts sample_tables)]"

definition sample_snapshot_env :: snapshot_env where
  "sample_snapshot_env =
     \<lparr>se_bds = sample_rx_env\<lparr>be_loads := (\<lambda>s.
        if s = ''schema_version'' then Inr (sort_json (meta_payload s ''7''))
        else if s = ''execution_policy'' then Inr (sort_json (meta_payload s ''policy''))
        else if s = ''1'' then Inr (sort_json block_payload)
        else if s = ''policy'' then Inr (PDict current_execution_policy)
        else Inr sample_metadata)\<rparr>,
      se_isoformat = (\<lambda>v. case v of PDatetime s \<Rightarrow> s | _ \<Rightarrow> []), se_fromisoformat = (\<lambda>s. Inr (PDatetime s)),
      se_decimal = (\<lambda>_. Inl (ValueError ''decimal'')), se_render = render_first, se_convert_dict = Inr, se_now = PDatetime ''later''\<rparr>"

lemma sample_tables_ok: "tables_ok sample_snapshot_env sample_tables"
  by code_simp

lemma sample_constrained: "\<forall>spec\<in>set TABLE_SPECS. constrained sample_tables spec"
  by code_simp

lemma sample_meta_ok: "meta_ok sample_snapshot_env sample_tables"
proof -
  have "sample_tables ''bds_meta'' = [sample_meta_row ''schema_version'' ''7'', sample_meta_row ''execution_policy'' ''policy'']"
    by (simp add: sample_tables_def)
  moreover have "str_int SCHEMA_VERSION = ''7''" by code_simp
  ultimately show ?thesis
    using current_policy_valid by (simp add: meta_ok_def sample_meta_row_def cell_def sample_snapshot_env_def)
qed

lemma sample_metadata_sound: "sound_metadata sample_snapshot_env sample_tables sample_metadata"
proof -
  have "\<forall>spec\<in>set TABLE_SPECS. declared_count sample_metadata spec = Inr (PInt (int (length (sample_tables (ts_name spec)))))"
    by code_simp
  then show ?thesis using current_policy_valid by (simp add: sound_metadata_def sample_metadata_def)
qed

theorem import_restores_tables_witness:
  "\<exists>s'. import_bds_snapshot sample_snapshot_env [''tmp''] (\<lambda>_ _. False) (Some \<lparr>ar_metadata = ''m'', ar_files =
       projr (snapshot_files sample_snapshot_env sample_tables)\<rparr>) False None \<lparr>ss_tables = (\<lambda>_. []), ss_sequences = (\<lambda>_. 1), ss_spool = []\<rparr>
     = (Inr (), s') \<and> set (ss_tables s' ''blocks'') = {sample_block_row}"
proof -
  have files: "snapshot_files sample_snapshot_env sample_tables = Inr (projr (snapshot_files sample_snapshot_env sample_tables))"
    using exported_files [OF sample_tables_ok] by simp
  have "be_loads (se_bds sample_snapshot_env) ''m'' = Inr sample_metadata" by (simp add: sample_snapshot_env_def)
  moreover have "verify_snapshot_indexed_chain_state sample_snapshot_env sample_metadata None = Inr ()" by code_simp
  moreover have "blocks_spec \<in> set TABLE_SPECS" "ts_name blocks_spec = ''blocks''" "sample_tables ''blocks'' = [sample_block_row]"
    by (simp_all add: TABLE_SPECS_def blocks_spec_def sample_tables_def)
  ultimately show ?thesis
    using import_restores_tables [OF sample_tables_ok sample_constrained sample_meta_ok files _ sample_metadata_sound,
        of "''m''" None "[''tmp'']" False "\<lparr>ss_tables = (\<lambda>_. []), ss_sequences = (\<lambda>_. 1), ss_spool = []\<rparr>"]
    by fastforce
qed

theorem export_fails_once_indexed_witness: "\<exists>e. export_bds_snapshot sample_snapshot_env False False False 0 sample_tables = Inl e"
proof (rule export_fails_once_indexed)
  show "sample_tables ''blocks'' \<noteq> []" "\<forall>r\<in>set (sample_tables ''blocks''). \<exists>time. cell r ''block_time_iso'' = PDatetime time"
    by (simp_all add: sample_tables_def sample_block_row_def cell_def)
qed

text \<open>An import that raises has changed nothing, or it has already dropped every table.\<close>

lemma failed_import:
  "import_bds_snapshot S destination fails archived clear source s = (Inl e, s') \<Longrightarrow> s' = s \<or> ss_tables s' = reset_tables S"
  by (auto simp: import_bds_snapshot_def Let_def split: option.splits sum.splits)

end
