(* ===== verification/Node_Setup.thy ===== *)
theory Node_Setup
  imports Bds_Config Fee_Policy File_System
begin

text \<open>
  The settings of a node and the files of its home directory (\<^verbatim>\<open>src/src/xian/node_setup.py\<close>).  The two
  default configurations are the values their TOML text stands for.  A float is its text and is
  compared by parameters; keys are made by a parameter for Ed25519.  A file that is opened for
  writing is first emptied, and every operation on the disk may fail.
\<close>

section \<open>Options\<close>

record statesync_options =
  so_enable :: bool
  so_rpc_servers :: "string list"
  so_trust_height :: int
  so_trust_hash :: string
  so_trust_period :: string

record metrics_options =
  mo_enabled :: bool
  mo_host :: string
  mo_port :: int
  mo_bds_refresh_seconds :: string

record app_logging_options =
  lo_level :: string
  lo_json_logging :: bool
  lo_rotation_hours :: int
  lo_retention_days :: int
  lo_max_file_mb :: int
  lo_max_total_mb :: int

record simulation_options =
  io_enabled :: bool
  io_max_concurrency :: int
  io_timeout_ms :: int
  io_max_chi :: int

record parallel_options =
  po_enabled :: bool
  po_workers :: int
  po_min_transactions :: int
  po_max_speculative_waves :: int
  po_min_wave_acceptance_ratio :: string
  po_low_acceptance_min_wave_size :: int
  po_warm_workers :: bool
  po_access_estimates_enabled :: bool

record bds_options =
  bo_dsn :: string
  bo_host :: string
  bo_port :: int
  bo_database :: string
  bo_user :: string
  bo_password :: string
  bo_pool_min_size :: int
  bo_pool_max_size :: int
  bo_statement_timeout_ms :: int
  bo_acquire_timeout_ms :: int
  bo_application_name :: string
  bo_queue_max_size :: int
  bo_catchup_enabled :: bool
  bo_catchup_poll_seconds :: string
  bo_rpc_url :: string
  bo_spool_dir :: string
  bo_spool_warn_entries :: int
  bo_spool_warn_bytes :: int
  bo_disk_free_warn_bytes :: int

record node_config_options =
  no_moniker :: string
  no_p2p_seeds :: "string list"
  no_p2p_persistent_peers :: "string list"
  no_allow_cors :: bool
  no_bds_enabled :: bool
  no_enable_pruning :: bool
  no_blocks_to_keep :: int
  no_transaction_trace_logging :: bool
  no_block_policy_mode :: string
  no_block_policy_interval :: string
  no_statesync :: statesync_options
  no_metrics :: metrics_options
  no_app_logging :: app_logging_options
  no_simulation :: simulation_options
  no_tx_fee_mode :: string
  no_free_tx_max_chi :: int
  no_free_block_max_chi :: int
  no_parallel_execution :: parallel_options
  no_pending_nonce_reservation_ttl_seconds :: string
  no_max_pending_nonces_per_sender :: int
  no_bds :: bds_options
  no_proxy_app :: string
  no_prometheus :: bool

definition default_statesync :: statesync_options where
  "default_statesync = \<lparr>so_enable = False, so_rpc_servers = [], so_trust_height = 0, so_trust_hash = [], so_trust_period = ''168h0m0s''\<rparr>"

definition default_metrics :: metrics_options where
  "default_metrics = \<lparr>mo_enabled = True, mo_host = ''127.0.0.1'', mo_port = 9108, mo_bds_refresh_seconds = ''5.0''\<rparr>"

definition default_app_logging :: app_logging_options where
  "default_app_logging = \<lparr>lo_level = ''INFO'', lo_json_logging = False, lo_rotation_hours = 1, lo_retention_days = 7,
     lo_max_file_mb = 50, lo_max_total_mb = 250\<rparr>"

definition default_simulation :: simulation_options where
  "default_simulation = \<lparr>io_enabled = True, io_max_concurrency = 2, io_timeout_ms = 3000, io_max_chi = 1000000\<rparr>"

definition default_parallel :: parallel_options where
  "default_parallel = \<lparr>po_enabled = False, po_workers = 4, po_min_transactions = 8, po_max_speculative_waves = 4,
     po_min_wave_acceptance_ratio = ''0.25'', po_low_acceptance_min_wave_size = 8, po_warm_workers = True,
     po_access_estimates_enabled = True\<rparr>"

definition default_bds :: bds_options where
  "default_bds = \<lparr>bo_dsn = [], bo_host = [], bo_port = 5432, bo_database = ''xian'', bo_user = [], bo_password = [],
     bo_pool_min_size = 1, bo_pool_max_size = 10, bo_statement_timeout_ms = 0, bo_acquire_timeout_ms = 10000,
     bo_application_name = ''xian-bds'', bo_queue_max_size = 128, bo_catchup_enabled = True, bo_catchup_poll_seconds = ''1.0'',
     bo_rpc_url = [], bo_spool_dir = [], bo_spool_warn_entries = 256, bo_spool_warn_bytes = 536870912,
     bo_disk_free_warn_bytes = 2147483648\<rparr>"

definition node_config :: "string \<Rightarrow> node_config_options" where
  "node_config moniker =
     \<lparr>no_moniker = moniker, no_p2p_seeds = [], no_p2p_persistent_peers = [], no_allow_cors = True, no_bds_enabled = False,
      no_enable_pruning = False, no_blocks_to_keep = 100000, no_transaction_trace_logging = False,
      no_block_policy_mode = ''on_demand'', no_block_policy_interval = ''0s'', no_statesync = default_statesync,
      no_metrics = default_metrics, no_app_logging = default_app_logging, no_simulation = default_simulation,
      no_tx_fee_mode = PAID_METERED, no_free_tx_max_chi = DEFAULT_FREE_TX_MAX_CHI,
      no_free_block_max_chi = DEFAULT_FREE_BLOCK_MAX_CHI, no_parallel_execution = default_parallel,
      no_pending_nonce_reservation_ttl_seconds = ''60.0'', no_max_pending_nonces_per_sender = 128, no_bds = default_bds,
      no_proxy_app = ''unix:///tmp/abci.sock'', no_prometheus = True\<rparr>"

section \<open>Default configurations\<close>

definition toml :: "(string, pyval) dict \<Rightarrow> pyval" where
  "toml kvs = PDict (map (\<lambda>(k, v). (PStr k, v)) kvs)"

definition default_cometbft_config_rpc :: "(string, pyval) dict" where
  "default_cometbft_config_rpc =
     [(''laddr'', PStr ''tcp://127.0.0.1:26657''), (''cors_allowed_origins'', PList [PStr ''*'']),
      (''cors_allowed_methods'', PList [PStr ''HEAD'', PStr ''GET'', PStr ''POST'']),
      (''cors_allowed_headers'', PList [PStr ''Origin'', PStr ''Accept'', PStr ''Content-Type'', PStr ''X-Requested-With'',
        PStr ''X-Server-Time'']),
      (''grpc_laddr'', PStr []), (''grpc_max_open_connections'', PInt 900), (''unsafe'', PBool False),
      (''max_open_connections'', PInt 900), (''max_subscription_clients'', PInt 100),
      (''max_subscriptions_per_client'', PInt 5), (''experimental_subscription_buffer_size'', PInt 200),
      (''experimental_websocket_write_buffer_size'', PInt 200), (''experimental_close_on_slow_client'', PBool False),
      (''timeout_broadcast_tx_commit'', PStr ''10s''), (''max_body_bytes'', PInt 10485760),
      (''max_header_bytes'', PInt 1048576), (''tls_cert_file'', PStr []), (''tls_key_file'', PStr []),
      (''pprof_laddr'', PStr [])]"

definition default_cometbft_config_p2p :: "(string, pyval) dict" where
  "default_cometbft_config_p2p =
     [(''laddr'', PStr ''tcp://0.0.0.0:26656''), (''external_address'', PStr []), (''seeds'', PStr []),
      (''persistent_peers'', PStr []), (''addr_book_file'', PStr ''config/addrbook.json''),
      (''addr_book_strict'', PBool True), (''max_num_inbound_peers'', PInt 40), (''max_num_outbound_peers'', PInt 10),
      (''unconditional_peer_ids'', PStr []), (''persistent_peers_max_dial_period'', PStr ''0s''),
      (''flush_throttle_timeout'', PStr ''100ms''), (''max_packet_msg_payload_size'', PInt 1024),
      (''send_rate'', PInt 5120000), (''recv_rate'', PInt 5120000), (''pex'', PBool True),
      (''seed_mode'', PBool False), (''private_peer_ids'', PStr []), (''allow_duplicate_ip'', PBool False),
      (''handshake_timeout'', PStr ''20s''), (''dial_timeout'', PStr ''3s'')] @
     [(''libp2p'', toml [(''enabled'', PBool False), (''bootstrap_peers'', PList [])])]"

definition default_cometbft_config_mempool :: "(string, pyval) dict" where
  "default_cometbft_config_mempool =
     [(''type'', PStr ''flood''), (''recheck'', PBool True), (''broadcast'', PBool True), (''wal_dir'', PStr []),
      (''size'', PInt 5000), (''max_txs_bytes'', PInt 1073741824), (''cache_size'', PInt 10000),
      (''keep-invalid-txs-in-cache'', PBool False), (''max_tx_bytes'', PInt 4194304), (''max_batch_bytes'', PInt 0),
      (''experimental_max_gossip_connections_to_persistent_peers'', PInt 0),
      (''experimental_max_gossip_connections_to_non_persistent_peers'', PInt 0)]"

definition default_cometbft_config_statesync :: "(string, pyval) dict" where
  "default_cometbft_config_statesync =
     [(''enable'', PBool False), (''rpc_servers'', PStr []), (''trust_height'', PInt 0), (''trust_hash'', PStr []),
      (''trust_period'', PStr ''168h0m0s''), (''discovery_time'', PStr ''15s''), (''temp_dir'', PStr []),
      (''chunk_request_timeout'', PStr ''10s''), (''chunk_fetchers'', PStr ''4'')]"

definition default_cometbft_config_blocksync :: "(string, pyval) dict" where
  "default_cometbft_config_blocksync =
     [(''version'', PStr ''v0''), (''adaptive_sync'', PBool False)]"

definition default_cometbft_config_consensus :: "(string, pyval) dict" where
  "default_cometbft_config_consensus =
     [(''wal_file'', PStr ''data/cs.wal/wal''), (''timeout_propose'', PStr ''3s''),
      (''timeout_propose_delta'', PStr ''500ms''), (''timeout_prevote'', PStr ''1s''),
      (''timeout_prevote_delta'', PStr ''500ms''), (''timeout_precommit'', PStr ''1s''),
      (''timeout_precommit_delta'', PStr ''500ms''), (''timeout_commit'', PStr ''1s''),
      (''double_sign_check_height'', PInt 0), (''skip_timeout_commit'', PBool False),
      (''create_empty_blocks'', PBool False), (''create_empty_blocks_interval'', PStr ''0s''),
      (''peer_gossip_sleep_duration'', PStr ''100ms''), (''peer_query_maj23_sleep_duration'', PStr ''2s'')]"

definition default_cometbft_config_storage :: "(string, pyval) dict" where
  "default_cometbft_config_storage =
     [(''discard_abci_responses'', PBool False)]"

definition default_cometbft_config_tx_index :: "(string, pyval) dict" where
  "default_cometbft_config_tx_index =
     [(''indexer'', PStr ''kv''), (''psql-conn'', PStr [])]"

definition default_cometbft_config_instrumentation :: "(string, pyval) dict" where
  "default_cometbft_config_instrumentation =
     [(''prometheus'', PBool True), (''prometheus_listen_addr'', PStr '':26660''), (''max_open_connections'', PInt 3),
      (''namespace'', PStr ''cometbft'')]"

definition DEFAULT_COMETBFT_CONFIG :: "(string, pyval) dict" where
  "DEFAULT_COMETBFT_CONFIG =
     [(''version'', PStr ''0.39.3''), (''proxy_app'', PStr ''unix:///tmp/abci.sock''),
      (''moniker'', PStr ''xian-node''), (''db_backend'', PStr ''goleveldb''), (''db_dir'', PStr ''data''),
      (''log_level'', PStr ''info''), (''log_format'', PStr ''plain''),
      (''genesis_file'', PStr ''config/genesis.json''),
      (''priv_validator_key_file'', PStr ''config/priv_validator_key.json''),
      (''priv_validator_state_file'', PStr ''data/priv_validator_state.json''), (''priv_validator_laddr'', PStr []),
      (''node_key_file'', PStr ''config/node_key.json''), (''abci'', PStr ''socket''), (''filter_peers'', PBool False)] @
     [(''rpc'', toml default_cometbft_config_rpc), (''p2p'', toml default_cometbft_config_p2p), (''mempool'', toml default_cometbft_config_mempool), (''statesync'', toml default_cometbft_config_statesync), (''blocksync'', toml default_cometbft_config_blocksync), (''consensus'', toml default_cometbft_config_consensus), (''storage'', toml default_cometbft_config_storage), (''tx_index'', toml default_cometbft_config_tx_index), (''instrumentation'', toml default_cometbft_config_instrumentation)]"

definition default_xian_config_bds :: "(string, pyval) dict" where
  "default_xian_config_bds =
     [(''dsn'', PStr []), (''host'', PStr []), (''port'', PInt 5432), (''database'', PStr ''xian''),
      (''user'', PStr []), (''password'', PStr []), (''pool_min_size'', PInt 1), (''pool_max_size'', PInt 10),
      (''statement_timeout_ms'', PInt 0), (''acquire_timeout_ms'', PInt 10000),
      (''application_name'', PStr ''xian-bds''), (''queue_max_size'', PInt 128), (''catchup_enabled'', PBool True),
      (''catchup_poll_seconds'', PFloat ''1.0''), (''rpc_url'', PStr []), (''spool_dir'', PStr []),
      (''spool_warn_entries'', PInt 256), (''spool_warn_bytes'', PInt 536870912),
      (''disk_free_warn_bytes'', PInt 2147483648)]"

definition DEFAULT_XIAN_CONFIG :: "(string, pyval) dict" where
  "DEFAULT_XIAN_CONFIG =
     [(''bds_enabled'', PBool False), (''pruning_enabled'', PBool False), (''blocks_to_keep'', PInt 100000),
      (''metrics_enabled'', PBool True), (''metrics_host'', PStr ''127.0.0.1''), (''metrics_port'', PInt 9108),
      (''metrics_bds_refresh_seconds'', PFloat ''5.0''), (''transaction_trace_logging'', PBool False),
      (''app_log_level'', PStr ''INFO''), (''app_log_json'', PBool False), (''app_log_rotation_hours'', PInt 1),
      (''app_log_retention_days'', PInt 7), (''app_log_max_file_mb'', PInt 50), (''app_log_max_total_mb'', PInt 250),
      (''simulation_enabled'', PBool True), (''simulation_max_concurrency'', PInt 2),
      (''simulation_timeout_ms'', PInt 3000), (''simulation_max_chi'', PInt 1000000),
      (''tx_fee_mode'', PStr ''paid_metered''), (''free_tx_max_chi'', PInt 1000000),
      (''free_block_max_chi'', PInt 20000000), (''parallel_execution_enabled'', PBool False),
      (''parallel_execution_workers'', PInt 4), (''parallel_execution_min_transactions'', PInt 8),
      (''parallel_execution_max_speculative_waves'', PInt 4),
      (''parallel_execution_min_wave_acceptance_ratio'', PFloat ''0.25''),
      (''parallel_execution_low_acceptance_min_wave_size'', PInt 8),
      (''parallel_execution_warm_workers'', PBool True),
      (''parallel_execution_access_estimates_enabled'', PBool True),
      (''pending_nonce_reservation_ttl_seconds'', PFloat ''60.0''), (''max_pending_nonces_per_sender'', PInt 128)] @
     [(''bds'', toml default_xian_config_bds)]"

section \<open>Checks\<close>

record float_ops =
  fl_positive :: "string \<Rightarrow> bool"
  fl_nonnegative :: "string \<Rightarrow> bool"
  fl_in_unit :: "string \<Rightarrow> bool"

definition SUPPORTED_BLOCK_POLICY_MODES :: "string list" where
  "SUPPORTED_BLOCK_POLICY_MODES = [''on_demand'', ''idle_interval'', ''periodic'']"

definition SUPPORTED_APP_LOG_LEVELS :: "string list" where
  "SUPPORTED_APP_LOG_LEVELS = [''TRACE'', ''DEBUG'', ''INFO'', ''SUCCESS'', ''WARNING'', ''ERROR'', ''CRITICAL'']"

definition require :: "bool \<Rightarrow> string \<Rightarrow> unit res" where
  "require ok message = guard ok (ValueError message)"

fun require_all :: "(bool \<times> string) list \<Rightarrow> unit res" where
  "require_all [] = Inr ()"
| "require_all ((ok, message) # rest) = rbind (require ok message) (\<lambda>_. require_all rest)"

definition resolve_block_policy :: "string \<Rightarrow> string \<Rightarrow> (bool \<times> string) res" where
  "resolve_block_policy policy interval =
     rbind (require_all
       [(policy \<in> set SUPPORTED_BLOCK_POLICY_MODES, ''block_policy_mode must be one of the supported modes''),
        (interval \<noteq> [], ''block_policy_interval must be a non-empty string'')]) (\<lambda>_.
     if policy = ''on_demand'' then Inr (False, ''0s'')
     else if interval = ''0s'' then Inl (ValueError ''block_policy_interval must be non-zero for idle_interval and periodic modes'')
     else if policy = ''idle_interval'' then Inr (False, interval)
     else Inr (True, interval))"

definition resolve_simulation_settings :: "simulation_options \<Rightarrow> simulation_options res" where
  "resolve_simulation_settings s =
     rbind (require_all
       [(0 < io_max_concurrency s, ''simulation_max_concurrency must be greater than zero''),
        (0 < io_timeout_ms s, ''simulation_timeout_ms must be greater than zero''),
        (0 < io_max_chi s, ''simulation_max_chi must be greater than zero'')]) (\<lambda>_. Inr s)"

definition validate_node_runtime_settings :: "float_ops \<Rightarrow> node_config_options \<Rightarrow> unit res" where
  "validate_node_runtime_settings F opts =
     (let m = no_metrics opts; p = no_parallel_execution opts; b = no_bds opts in
      rbind (normalize_tx_fee_mode (PStr (no_tx_fee_mode opts))) (\<lambda>_.
      require_all
       [(0 < no_free_tx_max_chi opts, ''free_tx_max_chi must be greater than zero''),
        (0 < no_free_block_max_chi opts, ''free_block_max_chi must be greater than zero''),
        (no_free_tx_max_chi opts \<le> no_free_block_max_chi opts, ''free_block_max_chi must be greater than or equal to free_tx_max_chi''),
        (0 < no_blocks_to_keep opts, ''blocks_to_keep must be greater than zero''),
        (1 \<le> mo_port m \<and> mo_port m \<le> 65535, ''metrics_port must be between 1 and 65535''),
        (fl_positive F (mo_bds_refresh_seconds m), ''metrics_bds_refresh_seconds must be greater than zero''),
        (\<not> (po_enabled p \<and> po_workers p \<le> 0), ''parallel_execution_workers must be greater than zero''),
        (1 \<le> po_min_transactions p, ''parallel_execution_min_transactions must be greater than zero''),
        (0 \<le> po_max_speculative_waves p, ''parallel_execution_max_speculative_waves must be non-negative''),
        (fl_in_unit F (po_min_wave_acceptance_ratio p), ''parallel_execution_min_wave_acceptance_ratio must be between 0.0 and 1.0''),
        (1 \<le> po_low_acceptance_min_wave_size p, ''parallel_execution_low_acceptance_min_wave_size must be greater than zero''),
        (fl_nonnegative F (no_pending_nonce_reservation_ttl_seconds opts), ''pending_nonce_reservation_ttl_seconds must be non-negative''),
        (1 \<le> no_max_pending_nonces_per_sender opts, ''max_pending_nonces_per_sender must be greater than zero''),
        (1 \<le> bo_port b \<and> bo_port b \<le> 65535, ''bds_port must be between 1 and 65535''),
        (0 \<le> bo_pool_min_size b, ''bds_pool_min_size must be non-negative''),
        (1 \<le> bo_pool_max_size b, ''bds_pool_max_size must be greater than zero''),
        (bo_pool_min_size b \<le> bo_pool_max_size b, ''bds_pool_min_size must be less than or equal to bds_pool_max_size''),
        (0 \<le> bo_statement_timeout_ms b, ''bds_statement_timeout_ms must be non-negative''),
        (0 \<le> bo_acquire_timeout_ms b, ''bds_acquire_timeout_ms must be non-negative''),
        (1 \<le> bo_queue_max_size b, ''bds_queue_max_size must be greater than zero''),
        (fl_positive F (bo_catchup_poll_seconds b), ''bds_catchup_poll_seconds must be greater than zero''),
        (0 \<le> bo_spool_warn_entries b, ''bds_spool_warn_entries must be non-negative''),
        (0 \<le> bo_spool_warn_bytes b, ''bds_spool_warn_bytes must be non-negative''),
        (0 \<le> bo_disk_free_warn_bytes b, ''bds_disk_free_warn_bytes must be non-negative'')]))"

definition resolve_app_logging_settings :: "app_logging_options \<Rightarrow> app_logging_options res" where
  "resolve_app_logging_settings l =
     (let normalized_level = ascii_upper (lo_level l) in
      rbind (require_all
        [(normalized_level \<in> set SUPPORTED_APP_LOG_LEVELS, ''app_log_level must be one of the supported levels''),
         (0 < lo_rotation_hours l, ''app_log_rotation_hours must be a positive integer''),
         (0 < lo_retention_days l, ''app_log_retention_days must be a positive integer''),
         (0 < lo_max_file_mb l, ''app_log_max_file_mb must be a positive integer''),
         (0 < lo_max_total_mb l, ''app_log_max_total_mb must be a positive integer''),
         (lo_max_file_mb l \<le> lo_max_total_mb l, ''app_log_max_total_mb must cover app_log_max_file_mb'')]) (\<lambda>_.
      Inr (l\<lparr>lo_level := normalized_level\<rparr>)))"

record statesync_settings =
  ss_enable :: bool
  ss_rpc_servers :: string
  ss_trust_height :: int
  ss_trust_hash :: string
  ss_trust_period :: string

definition resolve_statesync_settings :: "statesync_options \<Rightarrow> statesync_settings res" where
  "resolve_statesync_settings s =
     (if \<not> so_enable s
      then Inr \<lparr>ss_enable = False, ss_rpc_servers = [], ss_trust_height = 0, ss_trust_hash = [], ss_trust_period = so_trust_period s\<rparr>
      else let normalized_servers = filter (\<lambda>server. server \<noteq> []) (map py_strip (so_rpc_servers s)) in
        rbind (require_all
          [(2 \<le> length normalized_servers, ''statesync requires at least two RPC servers for light-client verification''),
           (0 < so_trust_height s, ''statesync_trust_height must be greater than zero''),
           (so_trust_hash s \<noteq> [], ''statesync_trust_hash must be provided when statesync is enabled'')]) (\<lambda>_.
        Inr \<lparr>ss_enable = True, ss_rpc_servers = join_comma normalized_servers, ss_trust_height = so_trust_height s,
             ss_trust_hash = so_trust_hash s, ss_trust_period = so_trust_period s\<rparr>))"

section \<open>Keys\<close>

text \<open>\<open>ke_public\<close> is the public key of a seed; \<open>ke_random\<close> is what \<^verbatim>\<open>secrets.token_bytes(32)\<close> returned.\<close>

record key_env =
  ke_public :: "string \<Rightarrow> string"
  ke_b64encode :: "string \<Rightarrow> string"
  ke_b64decode :: "string \<Rightarrow> string"
  ke_sha256 :: "string \<Rightarrow> string"
  ke_random :: string

definition normalize_private_key :: "key_env \<Rightarrow> string option \<Rightarrow> string res" where
  "normalize_private_key K private_key_hex =
     (case private_key_hex of
        None \<Rightarrow> Inr (ke_random K)
      | Some h \<Rightarrow>
          if length h \<noteq> 64 then Inl (ValueError ''private key must be a 64-character hex string'')
          else case fromhex h of Inl _ \<Rightarrow> Inl (ValueError ''private key must be valid hex'') | Inr seed \<Rightarrow> Inr seed)"

text \<open>The key pair of a seed, which must have 32 bytes: public key and the text of both keys.\<close>

definition build_ed25519_key_material :: "key_env \<Rightarrow> string \<Rightarrow> (string \<times> string) res" where
  "build_ed25519_key_material K seed =
     (if length seed \<noteq> 32 then Inl (ValueError ''The seed must be exactly 32 bytes long'')
      else Inr (ke_public K seed, ke_b64encode K (seed @ ke_public K seed)))"

definition key_address :: "key_env \<Rightarrow> string \<Rightarrow> string" where
  "key_address K public_key = ascii_upper (hexlify (take 20 (ke_sha256 K public_key)))"

definition typed_key :: "string \<Rightarrow> string \<Rightarrow> pyval" where
  "typed_key type_name content = toml [(''type'', PStr type_name), (''value'', PStr content)]"

definition build_priv_validator_key :: "key_env \<Rightarrow> string option \<Rightarrow> (string, pyval) dict res" where
  "build_priv_validator_key K private_key_hex =
     rbind (normalize_private_key K private_key_hex) (\<lambda>seed.
     rbind (build_ed25519_key_material K seed) (\<lambda>(public_key, priv_key_b64).
     Inr [(''address'', PStr (key_address K public_key)),
          (''pub_key'', typed_key ''tendermint/PubKeyEd25519'' (ke_b64encode K public_key)),
          (''priv_key'', typed_key ''tendermint/PrivKeyEd25519'' priv_key_b64),
          (''_private_key_hex'', PStr (hexlify seed))]))"

definition without_private_hex :: "(string, pyval) dict \<Rightarrow> (string, pyval) dict" where
  "without_private_hex key = filter (\<lambda>(k, _). k \<noteq> ''_private_key_hex'') key"

definition generate_validator_material :: "key_env \<Rightarrow> string option \<Rightarrow> (string, pyval) dict res" where
  "generate_validator_material K private_key_hex =
     rbind (normalize_private_key K private_key_hex) (\<lambda>seed.
     rbind (build_priv_validator_key K (Some (hexlify seed))) (\<lambda>key.
     let item = (\<lambda>k. case map_of key k of Some v \<Rightarrow> v | None \<Rightarrow> PNone) in
     Inr [(''validator_private_key_hex'', item ''_private_key_hex''),
          (''validator_public_key_hex'', PStr (hexlify (ke_b64decode K (str_of (dget_or (item ''pub_key'') ''value'' PNone))))),
          (''priv_validator_key'', toml (without_private_hex key))]))"

definition build_node_key :: "key_env \<Rightarrow> string option \<Rightarrow> (string, pyval) dict res" where
  "build_node_key K private_key_hex =
     rbind (normalize_private_key K private_key_hex) (\<lambda>seed.
     rbind (build_ed25519_key_material K seed) (\<lambda>(public_key, priv_key_b64).
     Inr [(''node_id'', PStr (key_address K public_key)), (''priv_key'', typed_key ''tendermint/PrivKeyEd25519'' priv_key_b64)]))"

definition build_priv_validator_state :: "(string, pyval) dict" where
  "build_priv_validator_state = [(''height'', PStr ''0''), (''round'', PInt 0), (''step'', PInt 0)]"

section \<open>Rendering\<close>

text \<open>\<^verbatim>\<open>config[section][key] = value\<close> for several keys.\<close>

definition set_nested :: "string \<Rightarrow> (string, pyval) dict \<Rightarrow> (string, pyval) dict \<Rightarrow> (string, pyval) dict" where
  "set_nested part changes config =
     (case map_of config part of
        Some (PDict kvs) \<Rightarrow> AList.update part (PDict (dict_update kvs (map (\<lambda>(k, v). (PStr k, v)) changes))) config
      | _ \<Rightarrow> config)"

definition rendered_cometbft :: "node_config_options \<Rightarrow> bool \<times> string \<Rightarrow> statesync_settings \<Rightarrow> (string, pyval) dict" where
  "rendered_cometbft opts policy s =
     set_nested ''statesync'' [(''enable'', PBool (ss_enable s)), (''rpc_servers'', PStr (ss_rpc_servers s)),
        (''trust_height'', PInt (ss_trust_height s)), (''trust_hash'', PStr (ss_trust_hash s)), (''trust_period'', PStr (ss_trust_period s))]
     (set_nested ''instrumentation'' [(''prometheus'', PBool (no_prometheus opts))]
     (set_nested ''rpc'' [(''cors_allowed_origins'', PList (if no_allow_cors opts then [PStr ''*''] else []))]
     (set_nested ''p2p'' [(''seeds'', PStr (join_comma (no_p2p_seeds opts))),
        (''persistent_peers'', PStr (join_comma (no_p2p_persistent_peers opts)))]
     (set_nested ''consensus'' [(''create_empty_blocks'', PBool (fst policy)), (''create_empty_blocks_interval'', PStr (snd policy))]
     (dict_update DEFAULT_COMETBFT_CONFIG [(''proxy_app'', PStr (no_proxy_app opts)), (''moniker'', PStr (no_moniker opts))])))))"

definition rendered_bds :: "bds_options \<Rightarrow> pyval" where
  "rendered_bds b =
     toml [(''dsn'', PStr (bo_dsn b)), (''host'', PStr (bo_host b)), (''port'', PInt (bo_port b)), (''database'', PStr (bo_database b)),
       (''user'', PStr (bo_user b)), (''password'', PStr (bo_password b)), (''pool_min_size'', PInt (bo_pool_min_size b)),
       (''pool_max_size'', PInt (bo_pool_max_size b)), (''statement_timeout_ms'', PInt (bo_statement_timeout_ms b)),
       (''acquire_timeout_ms'', PInt (bo_acquire_timeout_ms b)), (''application_name'', PStr (bo_application_name b)),
       (''queue_max_size'', PInt (bo_queue_max_size b)), (''catchup_enabled'', PBool (bo_catchup_enabled b)),
       (''catchup_poll_seconds'', PFloat (bo_catchup_poll_seconds b)), (''rpc_url'', PStr (bo_rpc_url b)),
       (''spool_dir'', PStr (bo_spool_dir b)), (''spool_warn_entries'', PInt (bo_spool_warn_entries b)),
       (''spool_warn_bytes'', PInt (bo_spool_warn_bytes b)), (''disk_free_warn_bytes'', PInt (bo_disk_free_warn_bytes b))]"

definition rendered_xian ::
    "node_config_options \<Rightarrow> app_logging_options \<Rightarrow> simulation_options \<Rightarrow> string \<Rightarrow> (string, pyval) dict" where
  "rendered_xian opts l s tx_fee_mode =
     (let m = no_metrics opts; p = no_parallel_execution opts in
      dict_update DEFAULT_XIAN_CONFIG
       [(''bds_enabled'', PBool (no_bds_enabled opts)), (''pruning_enabled'', PBool (no_enable_pruning opts)),
        (''blocks_to_keep'', PInt (no_blocks_to_keep opts)), (''metrics_enabled'', PBool (mo_enabled m)),
        (''metrics_host'', PStr (mo_host m)), (''metrics_port'', PInt (mo_port m)),
        (''metrics_bds_refresh_seconds'', PFloat (mo_bds_refresh_seconds m)),
        (''transaction_trace_logging'', PBool (no_transaction_trace_logging opts)), (''app_log_level'', PStr (lo_level l)),
        (''app_log_json'', PBool (lo_json_logging l)), (''app_log_rotation_hours'', PInt (lo_rotation_hours l)),
        (''app_log_retention_days'', PInt (lo_retention_days l)), (''app_log_max_file_mb'', PInt (lo_max_file_mb l)),
        (''app_log_max_total_mb'', PInt (lo_max_total_mb l)), (''simulation_enabled'', PBool (io_enabled s)),
        (''simulation_max_concurrency'', PInt (io_max_concurrency s)), (''simulation_timeout_ms'', PInt (io_timeout_ms s)),
        (''simulation_max_chi'', PInt (io_max_chi s)), (''tx_fee_mode'', PStr tx_fee_mode),
        (''free_tx_max_chi'', PInt (no_free_tx_max_chi opts)), (''free_block_max_chi'', PInt (no_free_block_max_chi opts)),
        (''parallel_execution_enabled'', PBool (po_enabled p)), (''parallel_execution_workers'', PInt (po_workers p)),
        (''parallel_execution_min_transactions'', PInt (po_min_transactions p)),
        (''parallel_execution_max_speculative_waves'', PInt (po_max_speculative_waves p)),
        (''parallel_execution_min_wave_acceptance_ratio'', PFloat (po_min_wave_acceptance_ratio p)),
        (''parallel_execution_low_acceptance_min_wave_size'', PInt (po_low_acceptance_min_wave_size p)),
        (''parallel_execution_warm_workers'', PBool (po_warm_workers p)),
        (''parallel_execution_access_estimates_enabled'', PBool (po_access_estimates_enabled p)),
        (''pending_nonce_reservation_ttl_seconds'', PFloat (no_pending_nonce_reservation_ttl_seconds opts)),
        (''max_pending_nonces_per_sender'', PInt (no_max_pending_nonces_per_sender opts)), (''bds'', rendered_bds (no_bds opts))])"

definition render_node_configs ::
    "float_ops \<Rightarrow> node_config_options \<Rightarrow> ((string, pyval) dict \<times> (string, pyval) dict) res" where
  "render_node_configs F opts =
     rbind (validate_node_runtime_settings F opts) (\<lambda>_.
     rbind (resolve_block_policy (no_block_policy_mode opts) (no_block_policy_interval opts)) (\<lambda>policy.
     rbind (resolve_statesync_settings (no_statesync opts)) (\<lambda>statesync.
     rbind (resolve_app_logging_settings (no_app_logging opts)) (\<lambda>app_logging.
     rbind (resolve_simulation_settings (no_simulation opts)) (\<lambda>simulation.
     rbind (normalize_tx_fee_mode (PStr (no_tx_fee_mode opts))) (\<lambda>tx_fee_mode.
     Inr (rendered_cometbft opts policy statesync, rendered_xian opts app_logging simulation tx_fee_mode)))))))"

definition render_cometbft_config :: "float_ops \<Rightarrow> node_config_options \<Rightarrow> (string, pyval) dict res" where
  "render_cometbft_config F opts = rbind (render_node_configs F opts) (\<lambda>c. Inr (fst c))"

definition render_xian_config :: "float_ops \<Rightarrow> node_config_options \<Rightarrow> (string, pyval) dict res" where
  "render_xian_config F opts = rbind (render_node_configs F opts) (\<lambda>c. Inr (snd c))"

section \<open>Files\<close>

text \<open>\<open>se_wire\<close> is \<^verbatim>\<open>encode_wire\<close>, \<open>se_toml\<close> is \<^verbatim>\<open>toml_utils.dumps\<close>.\<close>

record setup_env =
  se_wire :: "pyval \<Rightarrow> string res"
  se_toml :: "pyval \<Rightarrow> string res"
  se_keys :: key_env
  se_floats :: float_ops

text \<open>\<^verbatim>\<open>open(path, "w")\<close> follows links and empties a file that exists.\<close>

definition write_file :: "path \<Rightarrow> string \<Rightarrow> node \<Rightarrow> node res" where
  "write_file p content n =
     (case walk 40 n [] p of
        None \<Rightarrow> Inl os_error
      | Some q \<Rightarrow> if q = [] \<or> \<not> dir_at n (butlast q) \<or> dir_at n q then Inl os_error else Inr (put n q (File content)))"

definition write_text :: "faults \<Rightarrow> path \<Rightarrow> string res \<Rightarrow> bool \<Rightarrow> (disk, unit) step" where
  "write_text faults p content overwrite d =
     (if path_exists (dk_tree d) p \<and> \<not> overwrite then (Inl (OtherError ''FileExistsError''), d)
      else sbind (fs_op faults (\<lambda>n. mkdirs n (butlast p))) (\<lambda>_.
           sbind (fs_op faults (write_file p [])) (\<lambda>_.
           sbind (slift content) (\<lambda>t. fs_op faults (write_file p t)))) d)"

definition write_json :: "setup_env \<Rightarrow> faults \<Rightarrow> path \<Rightarrow> pyval \<Rightarrow> bool \<Rightarrow> (disk, unit) step" where
  "write_json E faults p payload overwrite =
     write_text faults p (rbind (se_wire E payload) (\<lambda>t. Inr (t @ [CHR 0x0A]))) overwrite"

definition write_toml :: "setup_env \<Rightarrow> faults \<Rightarrow> path \<Rightarrow> pyval \<Rightarrow> bool \<Rightarrow> (disk, unit) step" where
  "write_toml E faults p payload overwrite = write_text faults p (se_toml E payload) overwrite"

definition unless_exists :: "path \<Rightarrow> (disk, unit) step \<Rightarrow> (disk, unit) step" where
  "unless_exists p m d = (if path_exists (dk_tree d) p then (Inr (), d) else m d)"

definition node_key_payload :: "setup_env \<Rightarrow> (string, pyval) dict option \<Rightarrow> pyval res" where
  "node_key_payload E node_key =
     rbind (case node_key of Some k \<Rightarrow> if k \<noteq> [] then Inr k else build_node_key (se_keys E) None
            | None \<Rightarrow> build_node_key (se_keys E) None) (\<lambda>k.
     case map_of k ''priv_key'' of None \<Rightarrow> Inl (KeyError ''priv_key'') | Some v \<Rightarrow> Inr (toml [(''priv_key'', v)]))"

definition materialize_cometbft_home ::
    "setup_env \<Rightarrow> faults \<Rightarrow> path \<Rightarrow> (string, pyval) dict \<Rightarrow> (string, pyval) dict \<Rightarrow> pyval \<Rightarrow> (string, pyval) dict \<Rightarrow>
     (string, pyval) dict option \<Rightarrow> bool \<Rightarrow> (disk, unit) step" where
  "materialize_cometbft_home E faults home config xian_config genesis priv_validator_key node_key overwrite =
     (let config_dir = home @ [''config'']; data_dir = home @ [''data'']; storage_dir = home @ [''xian''] in
      sbind (smap (\<lambda>p. fs_op faults (\<lambda>n. mkdirs n p)) [config_dir, data_dir, storage_dir]) (\<lambda>_.
      sbind (write_toml E faults (config_dir @ [''config.toml'']) (toml config) overwrite) (\<lambda>_.
      sbind (write_toml E faults (config_dir @ [''xian.toml'']) (toml xian_config) overwrite) (\<lambda>_.
      sbind (write_json E faults (config_dir @ [''genesis.json'']) genesis overwrite) (\<lambda>_.
      sbind (write_json E faults (config_dir @ [''priv_validator_key.json'']) (toml (without_private_hex priv_validator_key)) overwrite) (\<lambda>_.
      sbind (unless_exists (config_dir @ [''node_key.json''])
        (sbind (slift (node_key_payload E node_key)) (\<lambda>payload.
         write_json E faults (config_dir @ [''node_key.json'']) payload False))) (\<lambda>_.
      unless_exists (data_dir @ [''priv_validator_state.json''])
        (write_json E faults (data_dir @ [''priv_validator_state.json'']) (toml build_priv_validator_state) False))))))))"

end
