(* ===== verification/Setup_Safety.thy ===== *)
theory Setup_Safety
  imports Node_Setup
begin

text \<open>
  Writing a node's home directory never touches its node key and its signing state, and changes an
  existing file only when it was told to overwrite.  The settings that are rendered are the ones
  the node reads.
\<close>

section \<open>Files that are kept\<close>

text \<open>Every file of the old tree that may not change is still there, and no link was added.\<close>

definition keeps_files :: "node \<Rightarrow> path set \<Rightarrow> disk \<Rightarrow> bool" where
  "keeps_files n0 allowed d \<longleftrightarrow>
     (\<forall>q c. file_at n0 q = Some c \<and> q \<notin> allowed \<longrightarrow> file_at (dk_tree d) q = Some c) \<and>
     (\<forall>q. link_at (dk_tree d) q \<longrightarrow> link_at n0 q)"

lemma walk_plain_target: "plain n (current @ p) \<Longrightarrow> walk budget n current p = Some q \<Longrightarrow> q = current @ p"
proof (induction p arbitrary: current)
  case (Cons x p)
  have pl: "plain n ((current @ [x]) @ p)" using Cons.prems(1) by simp
  then have "plain n (current @ [x])" by (rule plain_prefix)
  then have x: "x \<noteq> ''..''" "\<not> link_at n (current @ [x])" by (simp_all add: plain_snoc)
  show ?case
  proof (cases "lookup n (current @ [x])")
    case None
    then show ?thesis using Cons.prems(2) x by (auto split: if_splits)
  next
    case (Some m)
    have "walk budget n (current @ [x]) p = Some q"
      using Cons.prems(2) x Some by (cases m) (auto simp: link_at_iff)
    with Cons.IH [OF pl] show ?thesis by simp
  qed
qed simp

lemma keeps_plain: "keeps_files n0 allowed d \<Longrightarrow> plain n0 p \<Longrightarrow> plain (dk_tree d) p"
  unfolding keeps_files_def plain_def by blast

lemma keeps_mkdirs: "maintains (keeps_files n0 allowed) (fs_op faults (\<lambda>n. mkdirs n p))"
proof -
  have "keeps_files n0 allowed d'" if k: "keeps_files n0 allowed d" and run: "fs_op faults (\<lambda>n. mkdirs n p) d = (r, d')" for d r d'
    using run
  proof (cases rule: fs_op_cases)
    case passed
    then show ?thesis using k mkdirs_file [OF passed(2)] mkdirs_link [OF passed(2)]
      by (simp add: keeps_files_def file_at_iff link_at_iff)
  qed (use k in \<open>simp add: keeps_files_def\<close>)
  then show ?thesis unfolding maintains_def by (metis prod.collapse)
qed

lemma keeps_write:
  assumes "plain n0 p" "file_at n0 p = None \<or> p \<in> allowed"
  shows "maintains (keeps_files n0 allowed) (fs_op faults (write_file p content))"
proof -
  have "keeps_files n0 allowed d'" if k: "keeps_files n0 allowed d" and run: "fs_op faults (write_file p content) d = (r, d')" for d r d'
    using run
  proof (cases rule: fs_op_cases)
    case passed
    have pl: "plain (dk_tree d) ([] @ p)" using keeps_plain [OF k assms(1)] by simp
    obtain q where q: "walk 40 (dk_tree d) [] p = Some q" "q \<noteq> []" "dir_at (dk_tree d) (butlast q)" "\<not> dir_at (dk_tree d) q"
      "dk_tree d' = put (dk_tree d) q (File content)"
      using passed(2) by (auto simp: write_file_def split: option.splits if_splits)
    have "q = p" using walk_plain_target [OF pl q(1)] by simp
    with put_file [OF q(3,2,4)] k assms(2) show ?thesis by (auto simp: keeps_files_def q(5))
  qed (use k in \<open>simp add: keeps_files_def\<close>)
  then show ?thesis unfolding maintains_def by (metis prod.collapse)
qed

lemma keeps_write_text:
  assumes "plain n0 p" "overwrite \<Longrightarrow> p \<in> allowed"
  shows "maintains (keeps_files n0 allowed) (write_text faults p content overwrite)"
  unfolding maintains_def
proof (intro allI impI)
  fix d assume k: "keeps_files n0 allowed d"
  show "keeps_files n0 allowed (snd (write_text faults p content overwrite d))"
  proof (cases "path_exists (dk_tree d) p \<and> \<not> overwrite")
    case True
    then show ?thesis using k by (simp add: write_text_def)
  next
    case False
    have "file_at n0 p = None \<or> p \<in> allowed"
    proof (cases overwrite)
      case no: False
      have "file_at (dk_tree d) p = None"
      proof (rule ccontr)
        assume "file_at (dk_tree d) p \<noteq> None"
        then have "lookup (dk_tree d) p \<noteq> None" by (auto simp: file_at_def split: option.splits)
        then have "realpath (dk_tree d) p = Some p"
          using walk_plain [of "dk_tree d" "[]" p 40] keeps_plain [OF k assms(1)] by (simp add: realpath_def)
        with False no show False by (simp add: path_exists_def)
      qed
      moreover have "file_at (dk_tree d) p = Some c" if "file_at n0 p = Some c" "p \<notin> allowed" for c
        using k that unfolding keeps_files_def by blast
      ultimately show ?thesis by (cases "file_at n0 p") auto
    qed (use assms(2) in simp)
    note w = keeps_write [OF assms(1) this]
    have "maintains (keeps_files n0 allowed) (sbind (fs_op faults (\<lambda>n. mkdirs n (butlast p))) (\<lambda>_.
        sbind (fs_op faults (write_file p [])) (\<lambda>_. sbind (slift content) (\<lambda>t. fs_op faults (write_file p t)))))"
      by (intro maintains_rules keeps_mkdirs w)
    moreover have "write_text faults p content overwrite d = sbind (fs_op faults (\<lambda>n. mkdirs n (butlast p))) (\<lambda>_.
        sbind (fs_op faults (write_file p [])) (\<lambda>_. sbind (slift content) (\<lambda>t. fs_op faults (write_file p t)))) d"
      unfolding write_text_def using False by (simp only: if_False)
    ultimately show ?thesis using k by (simp add: maintains_def)
  qed
qed

lemma keeps_unless_exists: "maintains P m \<Longrightarrow> maintains P (unless_exists p m)"
  by (simp add: maintains_def unless_exists_def)

definition config_files :: "path \<Rightarrow> path set" where
  "config_files home = (\<lambda>name. home @ [''config'', name]) ` {''config.toml'', ''xian.toml'', ''genesis.json'', ''priv_validator_key.json''}"

definition home_files :: "path \<Rightarrow> path set" where
  "home_files home = config_files home \<union> {home @ [''config'', ''node_key.json''], home @ [''data'', ''priv_validator_state.json'']}"

lemma keeps_materialize:
  assumes "\<And>p. p \<in> home_files home \<Longrightarrow> plain n0 p"
  shows "maintains (keeps_files n0 (if overwrite then config_files home else {}))
    (materialize_cometbft_home E faults home config xian_config genesis priv_validator_key node_key overwrite)"
proof -
  have pl: "plain n0 (home @ [''config'', name])"
    if "name \<in> {''config.toml'', ''xian.toml'', ''genesis.json'', ''priv_validator_key.json'', ''node_key.json''}" for name
    using that by (intro assms) (auto simp: home_files_def config_files_def)
  have pl2: "plain n0 (home @ [''data'', ''priv_validator_state.json''])" by (intro assms) (simp add: home_files_def)
  show ?thesis
    unfolding materialize_cometbft_home_def Let_def write_toml_def write_json_def append_assoc append.simps
    by (intro maintains_rules keeps_mkdirs keeps_unless_exists keeps_write_text pl pl2) (auto simp: config_files_def)
qed

text \<open>C35: Setting up a home directory in which none of the six paths it writes goes through a link:
  whatever operations fail on the way, no file that was there changes, unless it was told to
  overwrite, and then only the four configuration files; the node key and the state of the signer
  are never replaced, which would let a validator sign twice.\<close>

theorem setup_keeps_identity:
  assumes "\<forall>p\<in>home_files home. plain (dk_tree d) p"
    and "materialize_cometbft_home E faults home config xian_config genesis priv_validator_key node_key overwrite d = (r, d')"
    and "file_at (dk_tree d) q = Some c" and "overwrite \<Longrightarrow> q \<notin> config_files home"
  shows "file_at (dk_tree d') q = Some c"
proof -
  let ?A = "if overwrite then config_files home else {}"
  have "keeps_files (dk_tree d) ?A d" by (simp add: keeps_files_def)
  then have "keeps_files (dk_tree d) ?A d'"
    using maintainsD [OF keeps_materialize] assms(1,2) by blast
  then show ?thesis using assms(3,4) by (auto simp: keeps_files_def split: if_splits)
qed

section \<open>Settings that are read\<close>

lemma dget_toml: "dget (toml d) k = map_of d k"
  by (induction d) (auto simp: toml_def)

lemma require_all_iff: "require_all checks = Inr () \<longleftrightarrow> (\<forall>(ok, _)\<in>set checks. ok)"
  by (induction checks rule: require_all.induct) (auto simp: require_def rbind_Inr_iff)

lemma rendered_xian_items:
  "map_of (rendered_xian opts l s m) ''tx_fee_mode'' = Some (PStr m)"
  "map_of (rendered_xian opts l s m) ''free_tx_max_chi'' = Some (PInt (no_free_tx_max_chi opts))"
  "map_of (rendered_xian opts l s m) ''free_block_max_chi'' = Some (PInt (no_free_block_max_chi opts))"
  "map_of (rendered_xian opts l s m) ''bds'' = Some (rendered_bds (no_bds opts))"
  unfolding rendered_xian_def Let_def
  by (subst map_of_dict_update; simp add: dict_wf_def)+

lemma normalize_idem: "normalize_tx_fee_mode v = Inr m \<Longrightarrow> normalize_tx_fee_mode (PStr m) = Inr m"
proof -
  have "normalize_tx_fee_mode (PStr PAID_METERED) = Inr PAID_METERED" "normalize_tx_fee_mode (PStr FREE_METERED) = Inr FREE_METERED"
    by code_simp+
  then show "normalize_tx_fee_mode v = Inr m \<Longrightarrow> normalize_tx_fee_mode (PStr m) = Inr m"
    by (auto simp: normalize_tx_fee_mode_def Let_def split: if_splits)
qed

lemma validated_bounds:
  assumes "validate_node_runtime_settings F opts = Inr ()"
  shows "0 < no_free_tx_max_chi opts" "no_free_tx_max_chi opts \<le> no_free_block_max_chi opts"
    "0 \<le> bo_pool_min_size (no_bds opts)" "bo_pool_min_size (no_bds opts) \<le> bo_pool_max_size (no_bds opts)"
    "1 \<le> bo_pool_max_size (no_bds opts)" "1 \<le> bo_queue_max_size (no_bds opts)"
    "1 \<le> bo_port (no_bds opts) \<and> bo_port (no_bds opts) \<le> 65535"
proof -
  note [simp del] = require_all.simps
  show "0 < no_free_tx_max_chi opts" "no_free_tx_max_chi opts \<le> no_free_block_max_chi opts"
    "0 \<le> bo_pool_min_size (no_bds opts)" "bo_pool_min_size (no_bds opts) \<le> bo_pool_max_size (no_bds opts)"
    "1 \<le> bo_pool_max_size (no_bds opts)" "1 \<le> bo_queue_max_size (no_bds opts)"
    "1 \<le> bo_port (no_bds opts) \<and> bo_port (no_bds opts) \<le> 65535"
    using assms unfolding validate_node_runtime_settings_def Let_def
    by (auto simp: require_all_iff elim!: rbind_InrE)
qed

definition chosen_policy :: "node_config_options \<Rightarrow> string \<Rightarrow> fee_policy" where
  "chosen_policy opts m =
     (if m = PAID_METERED then paid_metered None None
      else free_metered (no_free_tx_max_chi opts) (no_free_block_max_chi opts))"

text \<open>The numbers of the block data service are those of the options, a text is unless it is empty.\<close>

definition reads_bds :: "bds_options \<Rightarrow> bds_config \<Rightarrow> bool" where
  "reads_bds b c \<longleftrightarrow>
     bc_port c = bo_port b \<and> bc_pool_min_size c = bo_pool_min_size b \<and> bc_pool_max_size c = bo_pool_max_size b \<and>
     bc_statement_timeout_ms c = bo_statement_timeout_ms b \<and> bc_acquire_timeout_ms c = bo_acquire_timeout_ms b \<and>
     bc_queue_max_size c = bo_queue_max_size b \<and> bc_spool_warn_entries c = bo_spool_warn_entries b \<and>
     bc_spool_warn_bytes c = bo_spool_warn_bytes b \<and> bc_disk_free_warn_bytes c = bo_disk_free_warn_bytes b \<and>
     bc_catchup_enabled c = bo_catchup_enabled b \<and>
     (bo_dsn b \<noteq> [] \<longrightarrow> bc_dsn c = Some (bo_dsn b)) \<and> (bo_host b \<noteq> [] \<longrightarrow> bc_host c = bo_host b) \<and>
     (bo_database b \<noteq> [] \<longrightarrow> bc_database c = bo_database b) \<and> (bo_user b \<noteq> [] \<longrightarrow> bc_user c = bo_user b) \<and>
     (bo_password b \<noteq> [] \<longrightarrow> bc_password c = bo_password b) \<and> (bo_rpc_url b \<noteq> [] \<longrightarrow> bc_rpc_url c = Some (bo_rpc_url b)) \<and>
     (bo_spool_dir b \<noteq> [] \<longrightarrow> bc_spool_dir c = Some (bo_spool_dir b))"

lemma rendered_bds_items:
  "dget_or (rendered_bds b) ''dsn'' x = PStr (bo_dsn b)" "dget_or (rendered_bds b) ''host'' x = PStr (bo_host b)"
  "dget_or (rendered_bds b) ''port'' x = PInt (bo_port b)" "dget_or (rendered_bds b) ''database'' x = PStr (bo_database b)"
  "dget_or (rendered_bds b) ''user'' x = PStr (bo_user b)" "dget_or (rendered_bds b) ''password'' x = PStr (bo_password b)"
  "dget_or (rendered_bds b) ''pool_min_size'' x = PInt (bo_pool_min_size b)"
  "dget_or (rendered_bds b) ''pool_max_size'' x = PInt (bo_pool_max_size b)"
  "dget_or (rendered_bds b) ''statement_timeout_ms'' x = PInt (bo_statement_timeout_ms b)"
  "dget_or (rendered_bds b) ''acquire_timeout_ms'' x = PInt (bo_acquire_timeout_ms b)"
  "dget_or (rendered_bds b) ''queue_max_size'' x = PInt (bo_queue_max_size b)"
  "dget_or (rendered_bds b) ''catchup_enabled'' x = PBool (bo_catchup_enabled b)"
  "dget_or (rendered_bds b) ''rpc_url'' x = PStr (bo_rpc_url b)" "dget_or (rendered_bds b) ''spool_dir'' x = PStr (bo_spool_dir b)"
  "dget_or (rendered_bds b) ''spool_warn_entries'' x = PInt (bo_spool_warn_entries b)"
  "dget_or (rendered_bds b) ''spool_warn_bytes'' x = PInt (bo_spool_warn_bytes b)"
  "dget_or (rendered_bds b) ''disk_free_warn_bytes'' x = PInt (bo_disk_free_warn_bytes b)"
  unfolding rendered_bds_def dget_or_def dget_toml by simp_all

lemma rendered_bds_read:
  assumes "te_str T (PBool True) = ''True''" "te_str T (PBool False) = ''False''"
    and "bds_settings runtime = rendered_bds b"
  shows "reads_bds b (from_runtime_settings T float_of runtime environ)"
proof -
  have int: "int_setting T (rendered_bds b, environ) name variable alt = i" if "\<And>x. dget_or (rendered_bds b) name x = PInt i" for name variable alt i
    by (simp add: int_setting_def setting_def coerce_int_def that)
  have plain_text: "setting (rendered_bds b, environ) name variable alt = PStr s"
    if "\<And>x. dget_or (rendered_bds b) name x = PStr s" "s \<noteq> []" for name variable alt s
    by (simp add: setting_def that)
  have str: "str_setting T (rendered_bds b, environ) name variable alt = s"
    if "\<And>x. dget_or (rendered_bds b) name x = PStr s" "s \<noteq> []" for name variable alt s
    using plain_text [OF that] by (simp add: str_setting_def py_str_def)
  have flag: "setting (rendered_bds b, environ) ''catchup_enabled'' variable alt = PBool (bo_catchup_enabled b)" for variable alt
    by (simp add: setting_def rendered_bds_items)
  have "lower_ascii ''True'' = ''true''" "lower_ascii ''False'' = ''false''" by code_simp+
  then have catchup: "(lower_ascii (py_str T (PBool v)) \<notin> {''0'', ''false'', ''no'', ''off''}) = v" for v
    using assms(1,2) by (cases v) (simp_all add: py_str_def)
  show ?thesis
    unfolding reads_bds_def from_runtime_settings_def Let_def assms(3) bds_config.simps flag
    using int str plain_text catchup by (simp add: rendered_bds_items optional_text_def)
qed


section \<open>Examples\<close>

definition sample_setup_env :: setup_env where
  "sample_setup_env =
     \<lparr>se_wire = (\<lambda>_. Inr ''{}''), se_toml = (\<lambda>_. Inr ''x = 1''),
      se_keys = \<lparr>ke_public = (\<lambda>s. s), ke_b64encode = (\<lambda>s. s), ke_b64decode = (\<lambda>s. s), ke_sha256 = (\<lambda>s. s),
        ke_random = replicate 32 (CHR ''k'')\<rparr>,
      se_floats = \<lparr>fl_positive = (\<lambda>_. True), fl_nonnegative = (\<lambda>_. True), fl_in_unit = (\<lambda>_. True)\<rparr>\<rparr>"

text \<open>A home that has a node key and an old configuration.\<close>

definition sample_old_home :: disk where
  "sample_old_home =
     \<lparr>dk_tree = Dir [(''home'', Dir [(''config'', Dir [(''config.toml'', File ''old''), (''node_key.json'', File ''secret'')])])],
      dk_clock = 0\<rparr>"

definition sample_setup :: "unit res \<times> disk" where
  "sample_setup =
     materialize_cometbft_home sample_setup_env (\<lambda>_. None) [''home''] [] [] (PDict []) [] None True sample_old_home"

lemma plain_by_prefixes: "plain n p \<longleftrightarrow> ''..'' \<notin> set p \<and> list_all (\<lambda>q. \<not> link_at n q) (Sublist.prefixes p)"
  unfolding plain_def list_all_iff in_set_prefixes [symmetric] by blast

lemma sample_setup_facts:
  "\<forall>p\<in>home_files [''home'']. plain (dk_tree sample_old_home) p"
  "file_at (dk_tree sample_old_home) [''home'', ''config'', ''node_key.json''] = Some ''secret''"
  "[''home'', ''config'', ''node_key.json''] \<notin> config_files [''home'']"
  "fst sample_setup = Inr ()" "file_at (dk_tree (snd sample_setup)) [''home'', ''config'', ''config.toml''] = Some ''x = 1''"
  unfolding plain_by_prefixes by code_simp+

theorem setup_keeps_identity_witness:
  "sample_setup = (Inr (), snd sample_setup) \<and>
   file_at (dk_tree (snd sample_setup)) [''home'', ''config'', ''config.toml''] = Some ''x = 1'' \<and>
   file_at (dk_tree (snd sample_setup)) [''home'', ''config'', ''node_key.json''] = Some ''secret''"
proof -
  have run: "sample_setup = (Inr (), snd sample_setup)" by (metis prod.collapse sample_setup_facts(4))
  show ?thesis
    using setup_keeps_identity [OF sample_setup_facts(1) run [unfolded sample_setup_def] sample_setup_facts(2,3)]
      run sample_setup_facts(5)
    by (simp add: sample_setup_def)
qed

text \<open>The paths must be free of links: a configuration file that is a link to the node key is opened for
  writing, and the key is gone.\<close>

lemma setup_writes_through_link:
  "let d = \<lparr>dk_tree = Dir [(''home'', Dir [(''config'', Dir [(''config.toml'', Link ''node_key.json''), (''node_key.json'', File ''secret'')])])],
            dk_clock = 0\<rparr>;
       d' = snd (materialize_cometbft_home sample_setup_env (\<lambda>_. None) [''home''] [] [] (PDict []) [] None True d) in
   file_at (dk_tree d') [''home'', ''config'', ''node_key.json''] = Some ''x = 1''"
  by code_simp

definition sample_text_env :: text_env where
  "sample_text_env = \<lparr>te_str = (\<lambda>v. if v = PBool True then ''True'' else ''False''), te_int_of_text = (\<lambda>_. Inl (ValueError ''int''))\<rparr>"

definition sample_rendered :: "(string, pyval) dict" where
  "sample_rendered = (case render_xian_config (se_floats sample_setup_env) (node_config ''n'') of Inr c \<Rightarrow> c | Inl _ \<Rightarrow> [])"

lemma sample_renders:
  "\<exists>c. render_node_configs (se_floats sample_setup_env) (node_config ''n'') = Inr (c, sample_rendered)"
proof -
  have ok: "case render_node_configs (se_floats sample_setup_env) (node_config ''n'') of Inr _ \<Rightarrow> True | Inl _ \<Rightarrow> False"
    by code_simp
  then show ?thesis
    unfolding sample_rendered_def render_xian_config_def by (auto simp: rbind_def split: sum.splits)
qed


end
