(* ===== verification/Parallel_Executor.thy ===== *)
theory Parallel_Executor
  imports Tx_Processor
begin

text \<open>
  Speculative execution of the transactions of a block (\<^verbatim>\<open>src/src/xian/parallel_executor.py\<close>).  The
  controller that plans waves and decides which speculations are accepted is third-party and is a
  parameter; what the executor gives it is modelled: how a worker runs a transaction on the pending
  writes of the block, what it reports, and how an accepted speculation is applied.  A worker process
  keeps its runtimes by storage home and the contracts its machine has prepared.
\<close>

section \<open>Workers\<close>

record 'd runtime =
  rn_driver :: 'd
  rn_chi_cost :: "pyval option"

record 'd worker =
  wk_runtimes :: "(string \<times> bool, 'd runtime) dict"
  wk_prepared :: prepared_cache

record task =
  tk_storage_home :: string
  tk_tx :: pyval
  tk_fee_policy :: fee_policy
  tk_use_rewards_handler :: bool
  tk_base_pending_writes :: "(string, pyval) dict"

text \<open>\<open>open_driver\<close> is the driver that is opened on the storage home of the task.\<close>

definition get_worker_runtime :: "(string \<Rightarrow> 'd) \<Rightarrow> string \<Rightarrow> bool \<Rightarrow> 'd worker \<Rightarrow> 'd runtime \<times> 'd worker" where
  "get_worker_runtime open_driver storage_home use_rewards w =
     (case map_of (wk_runtimes w) (storage_home, use_rewards) of
        Some runtime \<Rightarrow> (runtime, w)
      | None \<Rightarrow>
          let runtime = \<lparr>rn_driver = open_driver storage_home, rn_chi_cost = None\<rparr>
          in (runtime, w\<lparr>wk_runtimes := AList.update (storage_home, use_rewards) runtime (wk_runtimes w)\<rparr>))"

definition speculation_base :: "'d proc_env \<Rightarrow> (string, pyval) dict \<Rightarrow> 'd runtime \<Rightarrow> prepared_cache \<Rightarrow> 'd proc" where
  "speculation_base E base_pending_writes runtime prepared =
     (let d = d_flush_cache (px_driver E) (rn_driver runtime)
      in \<lparr>ps_driver = (if base_pending_writes \<noteq> [] then d_apply_writes (px_driver E) base_pending_writes d else d),
          ps_chi_cost = None, ps_prepared = prepared\<rparr>)"

definition speculative_process_tx ::
    "'d proc_env \<Rightarrow> (string \<Rightarrow> 'd) \<Rightarrow> task \<Rightarrow> 'd worker \<Rightarrow> tx_response res \<times> 'd worker" where
  "speculative_process_tx E open_driver t w =
     (let (runtime, w) = get_worker_runtime open_driver (tk_storage_home t) (tk_use_rewards_handler t) w;
          (r, st) = process_tx E (tk_tx t) (tk_use_rewards_handler t) (Some (tk_fee_policy t)) True
                      (speculation_base E (tk_base_pending_writes t) runtime (wk_prepared w));
          after = \<lparr>rn_driver = d_flush_cache (px_driver E) (ps_driver st), rn_chi_cost = ps_chi_cost st\<rparr>
      in (r, w\<lparr>wk_runtimes := AList.update (tk_storage_home t, tk_use_rewards_handler t) after (wk_runtimes w),
               wk_prepared := ps_prepared st\<rparr>))"

definition warm_worker :: "(string \<Rightarrow> 'd) \<Rightarrow> string \<Rightarrow> bool \<Rightarrow> 'd worker \<Rightarrow> 'd worker" where
  "warm_worker open_driver storage_home use_rewards w = snd (get_worker_runtime open_driver storage_home use_rewards w)"

text \<open>
  The pool gives every task to one of its processes, in an order it chooses; the results are in the
  order of the tasks.  A task that raises makes the whole wave fail.
\<close>

fun run_tasks ::
    "'d proc_env \<Rightarrow> (string \<Rightarrow> 'd) \<Rightarrow> (task \<times> nat) list \<Rightarrow> (nat \<Rightarrow> 'd worker) \<Rightarrow> tx_response list res \<times> (nat \<Rightarrow> 'd worker)" where
  "run_tasks E open_driver [] pool = (Inr [], pool)"
| "run_tasks E open_driver ((t, i) # rest) pool =
     (case speculative_process_tx E open_driver t (pool i) of
        (Inl e, w) \<Rightarrow> (Inl e, pool(i := w))
      | (Inr r, w) \<Rightarrow>
          (case run_tasks E open_driver rest (pool(i := w)) of
             (Inl e, pool) \<Rightarrow> (Inl e, pool)
           | (Inr rs, pool) \<Rightarrow> (Inr (r # rs), pool)))"

record executor =
  pe_storage_home :: string
  pe_enabled :: bool
  pe_workers :: int
  pe_use_access_estimates :: bool

definition make_task :: "executor \<Rightarrow> fee_policy \<Rightarrow> bool \<Rightarrow> (string, pyval) dict \<Rightarrow> pyval \<Rightarrow> task" where
  "make_task X policy rewards base tx =
     \<lparr>tk_storage_home = pe_storage_home X, tk_tx = tx, tk_fee_policy = policy, tk_use_rewards_handler = rewards,
      tk_base_pending_writes = base\<rparr>"

definition speculate_many ::
    "'d proc_env \<Rightarrow> (string \<Rightarrow> 'd) \<Rightarrow> executor \<Rightarrow> fee_policy \<Rightarrow> bool \<Rightarrow> (nat \<Rightarrow> nat) \<Rightarrow> pyval list \<Rightarrow> (string, pyval) dict \<Rightarrow>
     (nat \<Rightarrow> 'd worker) \<Rightarrow> tx_response list res \<times> (nat \<Rightarrow> 'd worker)" where
  "speculate_many E open_driver X policy rewards assign txs base pool =
     (let tasks = map (make_task X policy rewards base) txs in
      if pe_workers X = 1 then run_tasks E open_driver (map (\<lambda>t. (t, 0)) tasks) pool
      else run_tasks E open_driver (zip tasks (map assign [0..<length tasks])) pool)"

definition warm :: "(string \<Rightarrow> 'd) \<Rightarrow> executor \<Rightarrow> bool \<Rightarrow> (nat \<Rightarrow> nat) \<Rightarrow> (nat \<Rightarrow> 'd worker) \<Rightarrow> (nat \<Rightarrow> 'd worker)" where
  "warm open_driver X use_rewards assign pool =
     (if \<not> pe_enabled X \<or> pe_workers X \<le> 0 then pool
      else if pe_workers X = 1 then pool(0 := warm_worker open_driver (pe_storage_home X) use_rewards (pool 0))
      else fold (\<lambda>n pool. pool(assign n := warm_worker open_driver (pe_storage_home X) use_rewards (pool (assign n))))
             [0..<nat (pe_workers X)] pool)"

section \<open>What the controller calls\<close>

definition get_base_pending_writes :: "'d proc_env \<Rightarrow> 'd proc \<Rightarrow> (string, pyval) dict" where
  "get_base_pending_writes E st = d_pending_writes (px_driver E) (ps_driver st)"

definition execute_serial_request ::
    "'d proc_env \<Rightarrow> fee_policy \<Rightarrow> bool \<Rightarrow> pyval \<Rightarrow> 'd proc \<Rightarrow> tx_response res \<times> 'd proc" where
  "execute_serial_request E policy rewards tx st = process_tx E tx rewards (Some policy) True st"

definition normalize_access :: "int \<Rightarrow> tx_response option \<Rightarrow> tx_access option" where
  "normalize_access index r =
     (case r of None \<Rightarrow> None | Some r \<Rightarrow> map_option (\<lambda>a. a\<lparr>ta_index := index\<rparr>) (rs_access r))"

definition get_request_sender :: "pyval \<Rightarrow> string option" where
  "get_request_sender tx =
     (let payload = dget_or tx ''payload'' PNone in
      if \<not> is_dict payload then None
      else case dget_or payload ''sender'' PNone of PStr s \<Rightarrow> Some s | _ \<Rightarrow> None)"

definition indexed_estimate :: "'d proc_env \<Rightarrow> int \<Rightarrow> pyval \<Rightarrow> tx_access option" where
  "indexed_estimate E index tx = map_option (\<lambda>a. a\<lparr>ta_index := index\<rparr>) (estimate_access E tx)"

definition apply_speculative_output :: "'d proc_env \<Rightarrow> tx_response \<Rightarrow> ('d proc, tx_response) step" where
  "apply_speculative_output E r st =
     (case rs_tx_result r of
        None \<Rightarrow> (Inl (TypeError ''NoneType object does not support item assignment''), st)
      | Some result \<Rightarrow>
          (case materialize_writes E (ps_driver st) (rs_base_writes r) (rs_reward_deltas r) of
             Inl e \<Rightarrow> (Inl e, st)
           | Inr state \<Rightarrow>
               let st = update_chi_cost_cache E (rs_base_writes r) st in
               (Inr (r\<lparr>rs_tx_result := Some (result\<lparr>xr_state := state\<rparr>)\<rparr>),
                st\<lparr>ps_driver := apply_tx_result E state (ps_driver st)\<rparr>)))"

section \<open>Shapes of transactions\<close>

definition tx_shape :: "pyval \<Rightarrow> string \<times> string" where
  "tx_shape tx =
     (let payload = dget_or tx ''payload'' PNone;
          name = (\<lambda>k. case dget_or payload k PNone of PStr s \<Rightarrow> s | _ \<Rightarrow> ''<invalid>'')
      in if \<not> is_dict payload then (''<invalid>'', ''<invalid>'') else (name ''contract'', name ''function''))"

definition count_shape :: "string \<times> string \<Rightarrow> (string \<times> string, nat) dict \<Rightarrow> (string \<times> string, nat) dict" where
  "count_shape s counter = AList.update s (case map_of counter s of None \<Rightarrow> 1 | Some n \<Rightarrow> Suc n) counter"

definition format_shape_summary :: "nat \<Rightarrow> (string \<times> string, nat) dict \<Rightarrow> ((string \<times> string) \<times> nat) list" where
  "format_shape_summary limit counter =
     take limit (sort_key (\<lambda>(_, n). - int n) (sort_key (\<lambda>((c, _), _). c) (sort_key (\<lambda>((_, f), _). f) counter)))"

definition estimate_shape_summaries ::
    "'d proc_env \<Rightarrow> executor \<Rightarrow> nat \<Rightarrow> pyval list \<Rightarrow> ((string \<times> string) \<times> nat) list \<times> ((string \<times> string) \<times> nat) list" where
  "estimate_shape_summaries E X limit txs =
     (if \<not> pe_use_access_estimates X then ([], [])
      else let known = fold (\<lambda>tx. count_shape (tx_shape tx)) (filter (\<lambda>tx. estimate_access E tx \<noteq> None) txs) [];
               unknown = fold (\<lambda>tx. count_shape (tx_shape tx)) (filter (\<lambda>tx. estimate_access E tx = None) txs) []
           in (format_shape_summary limit known, format_shape_summary limit unknown))"

text \<open>\<open>controller\<close> is \<^verbatim>\<open>SpeculativeExecutionController.execute\<close>; None is a batch it is not enabled for.\<close>

definition execute ::
    "'d proc_env \<Rightarrow> executor \<Rightarrow> (nat \<Rightarrow> bool) \<Rightarrow> (pyval list \<Rightarrow> 'd proc \<Rightarrow> (tx_response list \<times> 's) res \<times> 'd proc) \<Rightarrow> pyval list \<Rightarrow>
     'd proc \<Rightarrow> (tx_response list \<times> 's \<times> ((string \<times> string) \<times> nat) list \<times> ((string \<times> string) \<times> nat) list) option res \<times> 'd proc" where
  "execute E X is_enabled_for_batch controller txs st =
     (if \<not> is_enabled_for_batch (length txs) then (Inr None, st)
      else let (known, unknown) = estimate_shape_summaries E X 16 txs in
        case controller txs st of
          (Inl e, st) \<Rightarrow> (Inl e, st)
        | (Inr (results, stats), st) \<Rightarrow> (Inr (Some (results, stats, known, unknown)), st))"

section \<open>States with the same view\<close>

definition same_view :: "'d driver \<Rightarrow> 'd \<Rightarrow> 'd \<Rightarrow> bool" where
  "same_view D d e \<longleftrightarrow>
     map_of (d_pending_writes D d) = map_of (d_pending_writes D e) \<and> d_value_from_disk D d = d_value_from_disk D e"

text \<open>
  What the machine promises: what it returns and the reads it records are determined by the state it
  sees, by whether reads are recorded, and by the call.
\<close>

definition state_determined :: "'d driver \<Rightarrow> 'd vm_env \<Rightarrow> bool" where
  "state_determined D V \<longleftrightarrow>
     (\<forall>d e b. d_read_tracking D (d_set_read_tracking D b d) = d_read_tracking D (d_set_read_tracking D b e)) \<and>
     (\<forall>d e. same_view D d e \<longrightarrow>
        vm_get_owner V d = vm_get_owner V e \<and> vm_get_contract_ir V d = vm_get_contract_ir V e \<and> vm_zk_enabled V d = vm_zk_enabled V e) \<and>
     (\<forall>d e c. same_view D d e \<longrightarrow> d_read_tracking D d = d_read_tracking D e \<longrightarrow>
        fst (vm_execute V (d_clear_transaction D d) c) = fst (vm_execute V (d_clear_transaction D e) c) \<and>
        vm_transaction_reads V (snd (vm_execute V (d_clear_transaction D d) c)) =
          vm_transaction_reads V (snd (vm_execute V (d_clear_transaction D e) c)) \<and>
        vm_transaction_read_prefixes V (snd (vm_execute V (d_clear_transaction D d) c)) =
          vm_transaction_read_prefixes V (snd (vm_execute V (d_clear_transaction D e) c)))"

lemma same_view_refl [simp]: "same_view D d d"
  by (simp add: same_view_def)

lemma same_view_sym: "same_view D d e \<Longrightarrow> same_view D e d"
  by (simp add: same_view_def)

lemma same_view_trans [trans]: "same_view D a b \<Longrightarrow> same_view D b c \<Longrightarrow> same_view D a c"
  by (simp add: same_view_def)

lemma same_state_view: "same_state D d e \<Longrightarrow> same_view D d e"
  by (simp add: same_state_def same_view_def)

lemma view_get:
  assumes "driver_laws D" "same_view D d e"
  shows "d_get D d = d_get D e" "d_get_var D d = d_get_var D e"
proof -
  show get: "d_get D d = d_get D e"
    using assms(2) by (intro ext) (simp add: driver_get_split [OF assms(1)] same_view_def split: option.split)
  show "d_get_var D d = d_get_var D e"
    by (intro ext) (simp add: driver_simps [OF assms(1)] get)
qed

lemma view_set: "driver_laws D \<Longrightarrow> same_view D d e \<Longrightarrow> same_view D (d_set D k v d) (d_set D k v e)"
  by (simp add: same_view_def fun_eq_iff driver_simps)

lemma view_apply: "driver_laws (px_driver E) \<Longrightarrow> same_view (px_driver E) d e \<Longrightarrow>
  same_view (px_driver E) (apply_tx_result E ws d) (apply_tx_result E ws e)"
  unfolding apply_tx_result_def by (induction ws arbitrary: d e) (auto intro: view_set)

text \<open>The base of a speculation has the view of the block it speculates on.\<close>

lemma speculation_base_view:
  assumes laws: "driver_laws (px_driver E)"
    and disk: "d_value_from_disk (px_driver E) (rn_driver rn) = d_value_from_disk (px_driver E) d"
  shows "same_view (px_driver E) (ps_driver (speculation_base E (d_pending_writes (px_driver E) d) rn p)) d"
proof -
  let ?D = "px_driver E" and ?ws = "d_pending_writes (px_driver E) d" and ?f = "d_flush_cache (px_driver E) (rn_driver rn)"
  have "ps_driver (speculation_base E ?ws rn p) = apply_tx_result E ?ws ?f"
    by (simp add: speculation_base_def Let_def driver_simps [OF laws] apply_tx_result_def)
  moreover have "map_of (d_pending_writes ?D (apply_tx_result E ?ws ?f)) = map_of ?ws"
    by (intro ext) (simp add: apply_tx_result_pending [OF laws driver_wfD(1) [OF laws]] driver_simps [OF laws] split: option.split)
  ultimately show ?thesis
    using disk by (simp add: same_view_def apply_tx_result_disk [OF laws] driver_simps [OF laws])
qed

section \<open>Everything a transaction reads is in the view\<close>

lemma delegator_weights_view:
  "d_get_var D d = d_get_var D e \<Longrightarrow> delegator_weights E D d v ds = delegator_weights E D e v ds"
proof (induction ds)
  case (Cons x ds)
  note v = Cons.prems
  show ?case
    unfolding delegator_weights.simps get_validator_delegation_def get_delegator_reward_key_def v Cons.IH [OF v] ..
qed simp

lemma reward_outputs_view:
  assumes v: "d_get_var D d = d_get_var D e"
  shows "build_tx_reward_outputs E D d = build_tx_reward_outputs E D e"
proof -
  have single: "build_single_validator_reward_outputs E D d = build_single_validator_reward_outputs E D e"
    unfolding build_single_validator_reward_outputs_def [abs_def] get_validator_reward_key_def get_validator_commission_bps_def
        get_validator_self_bond_def get_validator_delegators_def v delegator_weights_view [OF v] ..
  have m: "merge_outputs E D d = merge_outputs E D e" unfolding merge_outputs_def [abs_def] single ..
  have set: "build_validator_set_reward_outputs E D d = build_validator_set_reward_outputs E D e"
    unfolding build_validator_set_reward_outputs_def [abs_def] get_validator_power_def v m ..
  have p: "pay_developer E D d = pay_developer E D e" unfolding pay_developer_def [abs_def] v ..
  have f: "find_developer_and_reward E D d = find_developer_and_reward E D e"
    unfolding find_developer_and_reward_def [abs_def] p ..
  have c: "calculate_tx_output_rewards E D d = calculate_tx_output_rewards E D e"
    unfolding calculate_tx_output_rewards_def [abs_def] reward_split_def active_validators_def v set f ..
  show ?thesis unfolding build_tx_reward_outputs_def [abs_def] reward_split_def v c ..
qed

lemma materialize_view:
  assumes "driver_laws (px_driver E)" "same_view (px_driver E) d e"
  shows "materialize_writes E d = materialize_writes E e"
proof -
  have a: "add_reward E d = add_reward E e" unfolding add_reward_def [abs_def] view_get [OF assms] ..
  show ?thesis unfolding materialize_writes_def [abs_def] a ..
qed

lemma metering_view:
  assumes "driver_laws D" "same_view D d e"
  shows "vm_metering_writes V D d = vm_metering_writes V D e"
  unfolding vm_metering_writes_def [abs_def] view_get [OF assms] ..

lemma process_tx_output_view:
  assumes laws: "driver_laws (px_driver E)" and view: "same_view (px_driver E) d e"
  shows "fst (process_tx_output E out tx c ch di tr d) = fst (process_tx_output E out tx c ch di tr e)"
    and "same_view (px_driver E) (snd (process_tx_output E out tx c ch di tr d)) (snd (process_tx_output E out tx c ch di tr e))"
proof -
  note same = materialize_view [OF assms] metering_view [OF assms] reward_outputs_view [OF view_get(2) [OF assms]]
  have w: "determine_writes_from_output E d = determine_writes_from_output E e"
    unfolding determine_writes_from_output_def [abs_def] same ..
  show "fst (process_tx_output E out tx c ch di tr d) = fst (process_tx_output E out tx c ch di tr e)"
    unfolding process_tx_output_def Let_def same w by (simp split: sum.split)
  show "same_view (px_driver E) (snd (process_tx_output E out tx c ch di tr d)) (snd (process_tx_output E out tx c ch di tr e))"
    unfolding process_tx_output_def Let_def same w using view_apply [OF laws view] view by (simp split: sum.split)
qed

lemma state_determinedD:
  assumes "state_determined D V"
  shows "d_read_tracking D (d_set_read_tracking D b d) = d_read_tracking D (d_set_read_tracking D b e)"
    and "same_view D d e \<Longrightarrow> vm_get_owner V d = vm_get_owner V e"
    and "same_view D d e \<Longrightarrow> vm_get_contract_ir V d = vm_get_contract_ir V e"
    and "same_view D d e \<Longrightarrow> vm_zk_enabled V d = vm_zk_enabled V e"
    and "same_view D d e \<Longrightarrow> d_read_tracking D d = d_read_tracking D e \<Longrightarrow>
      fst (vm_execute V (d_clear_transaction D d) c) = fst (vm_execute V (d_clear_transaction D e) c)"
    and "same_view D d e \<Longrightarrow> d_read_tracking D d = d_read_tracking D e \<Longrightarrow>
      vm_transaction_reads V (snd (vm_execute V (d_clear_transaction D d) c)) =
      vm_transaction_reads V (snd (vm_execute V (d_clear_transaction D e) c))"
    and "same_view D d e \<Longrightarrow> d_read_tracking D d = d_read_tracking D e \<Longrightarrow>
      vm_transaction_read_prefixes V (snd (vm_execute V (d_clear_transaction D d) c)) =
      vm_transaction_read_prefixes V (snd (vm_execute V (d_clear_transaction D e) c))"
  using assms unfolding state_determined_def by blast+

lemma view_clear: "driver_laws D \<Longrightarrow> same_view D d e \<Longrightarrow> same_view D (d_clear_transaction D d) (d_clear_transaction D e)"
  by (simp add: same_view_def driver_simps)

lemma execute_vm_tx_view:
  assumes laws: "driver_laws (px_driver E)" "vm_confined (px_driver E) (px_vm E)" "state_determined (px_driver E) (px_vm E)"
    and view: "same_view (px_driver E) d e" and track: "d_read_tracking (px_driver E) d = d_read_tracking (px_driver E) e"
    and source: "\<not> vm_requires_contract_source contract func kwargs"
  shows "fst (execute_vm_tx E tx contract func kwargs c env m ch d) = fst (execute_vm_tx E tx contract func kwargs c env m ch e)"
proof -
  let ?D = "px_driver E" and ?V = "px_vm E"
  let ?d = "d_clear_transaction ?D d" and ?e = "d_clear_transaction ?D e"
  note det = state_determinedD [OF laws(3)]
  have tx: "fst (execute_vm_transaction ?V ?D ?d rq c True ch) = fst (execute_vm_transaction ?V ?D ?e rq c True ch)"
    if source: "\<not> vm_requires_contract_source (rq_contract rq) (rq_function rq) (rq_kwargs rq)" for rq
  proof -
    have call: "vm_call_of ?V ?d rq = vm_call_of ?V ?e rq"
      unfolding vm_call_of_def call_context_def det(2) [OF view_clear [OF laws(1) view]] ..
    obtain o1 d1 where r1: "vm_execute ?V ?d (vm_call_of ?V ?e rq) = (o1, d1)" by fastforce
    obtain o2 e1 where r2: "vm_execute ?V ?e (vm_call_of ?V ?e rq) = (o2, e1)" by fastforce
    have same: "o1 = o2" "vm_transaction_reads ?V d1 = vm_transaction_reads ?V e1"
      "vm_transaction_read_prefixes ?V d1 = vm_transaction_read_prefixes ?V e1"
      using det(5-7) [OF view track, of "vm_call_of ?V ?e rq"] by (simp_all add: r1 r2)
    have "d_value_from_disk ?D (snd (vm_execute ?V x y)) = d_value_from_disk ?D x" for x y
      using laws(2) unfolding vm_confined_def by blast
    from this [of ?d "vm_call_of ?V ?e rq"] this [of ?e "vm_call_of ?V ?e rq"]
    have disk: "d_value_from_disk ?D d1 = d_value_from_disk ?D d" "d_value_from_disk ?D e1 = d_value_from_disk ?D e"
      by (simp_all add: r1 r2 driver_simps [OF laws(1)])
    have v: "same_view ?D (d_restore_state ?D (d_snapshot_state ?D ?d) d1) (d_restore_state ?D (d_snapshot_state ?D ?e) e1)"
      using view disk by (simp add: same_view_def driver_simps [OF laws(1)])
    have merge: "merge_metering ?V ?D a rq c True ch = merge_metering ?V ?D b rq c True ch" if "same_view ?D a b" for a b
      unfolding merge_metering_def [abs_def] metering_view [OF laws(1) that] ..
    show ?thesis
      using source
      by (simp add: execute_vm_transaction_def execute_vm_contract_def call r1 r2 same merge [OF v] Let_def split: sum.split)
  qed
  show ?thesis
    unfolding execute_vm_tx_def Let_def using source
    by (auto simp: tx elim!: rbind_InrE split: sum.split option.splits)
qed

section \<open>A speculation is a serial execution\<close>

text \<open>Preparation succeeds whatever the process has prepared before.\<close>

definition always_prepared :: "'d proc_env \<Rightarrow> pyval \<Rightarrow> 'd \<Rightarrow> bool" where
  "always_prepared E tx d \<longleftrightarrow>
     (\<exists>contract. payload_field tx ''contract'' = Inr (PStr contract) \<and>
       (\<forall>cache. \<exists>cache'. prepare_vm_contract (px_fuel E) (px_vm E) d contract cache = Some (Inr (), cache')))"

text \<open>The cached chi cost is the one the driver holds.\<close>

definition chi_coherent :: "'d proc_env \<Rightarrow> 'd proc \<Rightarrow> bool" where
  "chi_coherent E st \<longleftrightarrow>
     ps_chi_cost st \<in> {None, Some (py_or (d_get (px_driver E) (ps_driver st) (chi_cost_key E)) (PInt 1))}"

lemma prepare_bundle_view:
  assumes "state_determined D V" "same_view D d e"
  shows "prepare_bundle fuel V d stack name cache = prepare_bundle fuel V e stack name cache"
proof -
  have "load_module V d = load_module V e"
    unfolding load_module_def [abs_def] load_vm_module_ir_json_def reject_disabled_runtime_features_def
      state_determinedD(3,4) [OF assms] ..
  then show ?thesis
  proof (induction fuel arbitrary: stack name cache)
    case (Suc fuel)
    then have same: "prepare_bundle fuel V d = prepare_bundle fuel V e" by (intro ext) blast
    show ?case unfolding prepare_bundle.simps same Suc.prems ..
  qed simp
qed

lemma prepare_step_prepared:
  assumes "always_prepared E tx (ps_driver st)"
  obtains contract cache where "prepare_step E tx st = (Inr contract, st\<lparr>ps_prepared := cache\<rparr>)"
    "payload_field tx ''contract'' = Inr (PStr contract)"
proof -
  obtain contract where c: "payload_field tx ''contract'' = Inr (PStr contract)"
    "\<And>cache. \<exists>cache'. prepare_vm_contract (px_fuel E) (px_vm E) (ps_driver st) contract cache = Some (Inr (), cache')"
    using assms unfolding always_prepared_def by blast
  obtain cache where "prepare_vm_contract (px_fuel E) (px_vm E) (ps_driver st) contract (ps_prepared st) = Some (Inr (), cache)"
    using c(2) by blast
  with c(1) have "prepare_step E tx st = (Inr contract, st\<lparr>ps_prepared := cache\<rparr>)"
    by (simp add: prepare_step_def text_value_def)
  then show thesis using c(1) by (rule that)
qed

lemma always_prepared_view:
  "state_determined (px_driver E) (px_vm E) \<Longrightarrow> same_view (px_driver E) d e \<Longrightarrow> always_prepared E tx e \<Longrightarrow> always_prepared E tx d"
  unfolding always_prepared_def prepare_vm_contract_def by (simp add: prepare_bundle_view)

lemma run_step_view:
  assumes "driver_laws (px_driver E)" "vm_confined (px_driver E) (px_vm E)" "state_determined (px_driver E) (px_vm E)"
    and "same_view (px_driver E) d e" "d_read_tracking (px_driver E) d = d_read_tracking (px_driver E) e"
  shows "fst (run_step E tx contract c env m ch d) = fst (run_step E tx contract c env m ch e)"
  unfolding run_step_def using execute_vm_tx_view [OF assms] by (auto split: sum.split)

lemma execute_tx_view:
  assumes laws: "driver_laws (px_driver E)" "vm_confined (px_driver E) (px_vm E)" "state_determined (px_driver E) (px_vm E)"
    and view: "same_view (px_driver E) (ps_driver a) (ps_driver b)"
    and track: "d_read_tracking (px_driver E) (ps_driver a) = d_read_tracking (px_driver E) (ps_driver b)"
    and prepared: "always_prepared E tx (ps_driver b)"
  shows "fst (execute_tx E tx c env m ch a) = fst (execute_tx E tx c env m ch b)"
proof -
  obtain n ca where a: "prepare_step E tx a = (Inr n, a\<lparr>ps_prepared := ca\<rparr>)" "payload_field tx ''contract'' = Inr (PStr n)"
    by (rule prepare_step_prepared [OF always_prepared_view [OF laws(3) view prepared]])
  obtain n' cb where b: "prepare_step E tx b = (Inr n', b\<lparr>ps_prepared := cb\<rparr>)" "payload_field tx ''contract'' = Inr (PStr n')"
    by (rule prepare_step_prepared [OF prepared])
  have "n' = n" using a(2) b(2) by simp
  then show ?thesis
    using run_step_view [OF laws view track, of tx n c env m ch]
    by (simp add: execute_tx_def a(1) b(1) split_beta)
qed

lemma chi_cost_read:
  assumes "driver_laws (px_driver E)" "chi_coherent E st"
  shows "\<exists>st'. get_chi_cost E st = Inr (py_or (d_get (px_driver E) (ps_driver st) (chi_cost_key E)) (PInt 1), st') \<and>
    ps_driver st' = ps_driver st \<and> ps_prepared st' = ps_prepared st"
  using assms(2) unfolding chi_coherent_def get_chi_cost_def chi_cost_key_def
  by (auto simp: driver_simps [OF assms(1)] Let_def)

lemma process_guarded_view:
  assumes laws: "driver_laws (px_driver E)" "vm_confined (px_driver E) (px_vm E)" "state_determined (px_driver E) (px_vm E)"
    and view: "same_view (px_driver E) (ps_driver a) (ps_driver b)"
    and track: "d_read_tracking (px_driver E) (ps_driver a) = d_read_tracking (px_driver E) (ps_driver b)"
    and prepared: "always_prepared E tx (ps_driver b)"
  shows "fst (process_guarded E tx rw pol tr c env a) = fst (process_guarded E tx rw pol tr c env b)"
proof -
  obtain r a' where a: "execute_tx E tx c env (meter_execution pol) (charge_fees pol) a = (r, a')" by fastforce
  obtain r' b' where b: "execute_tx E tx c env (meter_execution pol) (charge_fees pol) b = (r', b')" by fastforce
  have "r' = r" using execute_tx_view [OF laws view track prepared, of c env "meter_execution pol" "charge_fees pol"] a b by simp
  moreover have v: "same_view (px_driver E) (ps_driver a') (ps_driver b')"
    using execute_tx_same(1) [OF laws(1,2) a] execute_tx_same(1) [OF laws(1,2) b] view
    by (auto intro: same_view_trans same_view_sym dest!: same_state_view)
  ultimately show ?thesis
    unfolding process_guarded_def a b by (simp add: split_beta process_tx_output_view(1) [OF laws(1) v] split: sum.split option.split)
qed

text \<open>Two processors with the same view of the state answer a transaction alike.\<close>

lemma process_tx_view:
  assumes laws: "driver_laws (px_driver E)" "vm_confined (px_driver E) (px_vm E)" "state_determined (px_driver E) (px_vm E)"
    and view: "same_view (px_driver E) (ps_driver a) (ps_driver b)"
    and chi: "chi_coherent E a" "chi_coherent E b" and prepared: "always_prepared E tx (ps_driver b)"
  shows "fst (process_tx E tx rw pol True a) = fst (process_tx E tx rw pol True b)"
proof -
  let ?D = "px_driver E"
  define a0 where "a0 = a\<lparr>ps_driver := d_set_read_tracking ?D True (ps_driver a)\<rparr>"
  define b0 where "b0 = b\<lparr>ps_driver := d_set_read_tracking ?D True (ps_driver b)\<rparr>"
  have va: "same_view ?D (ps_driver a0) (ps_driver a)" and vb: "same_view ?D (ps_driver b0) (ps_driver b)"
    by (simp_all add: a0_def b0_def same_view_def driver_simps [OF laws(1)])
  have v: "same_view ?D (ps_driver a0) (ps_driver b0)"
    using va vb view by (blast intro: same_view_trans same_view_sym)
  have coherent: "chi_coherent E a0" "chi_coherent E b0"
    using chi view_get(1) [OF laws(1) va] view_get(1) [OF laws(1) vb] by (simp_all add: chi_coherent_def a0_def b0_def)
  let ?c = "py_or (d_get ?D (ps_driver b0) (chi_cost_key E)) (PInt 1)"
  obtain a1 where a1: "get_chi_cost E a0 = Inr (?c, a1)" "ps_driver a1 = ps_driver a0"
    using chi_cost_read [OF laws(1) coherent(1)] view_get(1) [OF laws(1) v] by auto
  obtain b1 where b1: "get_chi_cost E b0 = Inr (?c, b1)" "ps_driver b1 = ps_driver b0"
    using chi_cost_read [OF laws(1) coherent(2)] by auto
  have track: "d_read_tracking ?D (ps_driver a1) = d_read_tracking ?D (ps_driver b1)"
    unfolding a1(2) b1(2) a0_def b0_def by (simp, rule state_determinedD(1) [OF laws(3)])
  have "fst (process_guarded E tx rw p True ?c env a1) = fst (process_guarded E tx rw p True ?c env b1)" for env p
    by (rule process_guarded_view [OF laws _ track])
      (simp_all add: a1(2) b1(2) v always_prepared_view [OF laws(3) vb prepared])
  then show ?thesis
    unfolding process_tx_def Let_def a0_def [symmetric] b0_def [symmetric]
    by (simp add: a1(1) b1(1) rbind_def split_beta split: sum.split)
qed

text \<open>What a processed transaction reports is what was applied.\<close>

lemma process_tx_output_Inr:
  assumes "process_tx_output E out tx c ch di tr d = (Inr p, d')"
  shows "materialize_writes E d (pp_base_writes p) (pp_reward_deltas p) = Inr (xr_state (pp_tx_result p))"
    and "d' = apply_tx_result E (xr_state (pp_tx_result p)) d"
  using assms unfolding process_tx_output_def Let_def
  by (auto elim!: rbind_InrE split: sum.splits prod.splits)

lemma process_guarded_result:
  assumes laws: "driver_laws (px_driver E)" "vm_confined (px_driver E) (px_vm E)"
    and run: "process_guarded E tx rw pol True c env st = (r, st')" and result: "rs_tx_result r = Some t"
  shows "materialize_writes E (ps_driver st) (rs_base_writes r) (rs_reward_deltas r) = Inr (xr_state t)"
    and "same_view (px_driver E) (ps_driver st') (apply_tx_result E (xr_state t) (ps_driver st))"
proof -
  obtain out st1 where ex: "execute_tx E tx c env (meter_execution pol) (charge_fees pol) st = (Inr (Some out), st1)"
    using run result by (auto simp: process_guarded_def no_result_def split: prod.splits sum.splits option.splits)
  obtain p d where out: "process_tx_output E out tx c (charge_fees pol) (distribute_fee_rewards pol \<and> rw) True (ps_driver st1) = (Inr p, d)"
    using run result by (auto simp: process_guarded_def ex no_result_def split: prod.splits sum.splits)
  have st': "ps_driver st' = d" and r: "respond tx out p True = Inr r"
    using run result
    by (auto simp: process_guarded_def ex out no_result_def update_chi_cost_cache_def split: sum.splits option.splits)
  have fields: "rs_base_writes r = pp_base_writes p" "rs_reward_deltas r = pp_reward_deltas p" "t = pp_tx_result p"
    using r result by (auto simp: respond_def elim!: rbind_InrE)
  have v: "same_view (px_driver E) (ps_driver st1) (ps_driver st)"
    by (rule same_state_view [OF execute_tx_same(1) [OF laws ex]])
  note o = process_tx_output_Inr [OF out]
  show "materialize_writes E (ps_driver st) (rs_base_writes r) (rs_reward_deltas r) = Inr (xr_state t)"
    using o(1) materialize_view [OF laws(1) v] by (simp add: fields)
  show "same_view (px_driver E) (ps_driver st') (apply_tx_result E (xr_state t) (ps_driver st))"
    using view_apply [OF laws(1) v] by (simp add: st' o(2) fields)
qed

lemma process_tx_result:
  assumes laws: "driver_laws (px_driver E)" "vm_confined (px_driver E) (px_vm E)"
    and run: "process_tx E tx rw (Some pol) True st = (Inr r, st')" and result: "rs_tx_result r = Some t"
  shows "materialize_writes E (ps_driver st) (rs_base_writes r) (rs_reward_deltas r) = Inr (xr_state t)"
    and "same_view (px_driver E) (ps_driver st') (apply_tx_result E (xr_state t) (ps_driver st))"
proof -
  let ?D = "px_driver E"
  let ?st = "st\<lparr>ps_driver := d_set_read_tracking ?D True (ps_driver st)\<rparr>"
  obtain env c st1 where chi: "get_environment E tx = Inr env" "get_chi_cost E ?st = Inr (c, st1)"
    using run unfolding process_tx_def Let_def by (auto simp: rbind_def split: sum.splits prod.splits)
  obtain st2 where g: "process_guarded E tx rw pol True c env st1 = (r, st2)"
    and st': "ps_driver st' = d_set_read_tracking ?D (d_read_tracking ?D (ps_driver st)) (ps_driver st2)"
    using run unfolding process_tx_def Let_def by (auto simp: chi split: prod.splits)
  have "ps_driver st1 = ps_driver ?st"
    using chi(2) by (auto simp: get_chi_cost_def Let_def split: option.splits elim!: rbind_InrE)
  then have v: "same_view ?D (ps_driver st1) (ps_driver st)"
    by (simp add: same_view_def driver_simps [OF laws(1)])
  note res = process_guarded_result [OF laws g result]
  show "materialize_writes E (ps_driver st) (rs_base_writes r) (rs_reward_deltas r) = Inr (xr_state t)"
    using res(1) materialize_view [OF laws(1) v] by simp
  have "same_view ?D (ps_driver st') (ps_driver st2)"
    by (simp add: st' same_view_def driver_simps [OF laws(1)])
  then show "same_view ?D (ps_driver st') (apply_tx_result E (xr_state t) (ps_driver st))"
    using res(2) view_apply [OF laws(1) v] by (blast intro: same_view_trans)
qed

text \<open>A worker whose runtimes are on the block's storage.\<close>

definition worker_on :: "'d driver \<Rightarrow> (string \<Rightarrow> 'd) \<Rightarrow> string \<Rightarrow> 'd \<Rightarrow> 'd worker \<Rightarrow> bool" where
  "worker_on D open_driver storage_home d w \<longleftrightarrow>
     d_value_from_disk D (open_driver storage_home) = d_value_from_disk D d \<and>
     (\<forall>b rn. map_of (wk_runtimes w) (storage_home, b) = Some rn \<longrightarrow> d_value_from_disk D (rn_driver rn) = d_value_from_disk D d)"

text \<open>C36: A speculation that is applied to the state it was made on is the serial execution of its
  transaction.  Let the machine's answers depend on the state it reads only (\<open>state_determined\<close>), let the
  chi cost that the block's processor keeps be the one of its state (\<open>chi_coherent\<close>), let the called
  contract be prepared without error from every preparation cache (\<open>always_prepared\<close>), and let the worker's
  runtimes be on the block's storage (\<open>worker_on\<close>).  Then a worker that is given the block's pending
  writes answers as the block's own processor would, and applying its output leaves the writes that
  serial execution leaves.  Without the second or the third condition the two may differ, as
  \<open>chi_cost_cache_incoherent\<close> and \<open>preparation_depends_on_cache\<close> show.\<close>

theorem speculation_is_serial:
  assumes "driver_laws (px_driver E)" and "vm_confined (px_driver E) (px_vm E)" and "state_determined (px_driver E) (px_vm E)"
    and "chi_coherent E st" and "always_prepared E (tk_tx t) (ps_driver st)"
    and "worker_on (px_driver E) open_driver (tk_storage_home t) (ps_driver st) w"
    and "tk_base_pending_writes t = get_base_pending_writes E st"
    and "speculative_process_tx E open_driver t w = (Inr r, w')"
  shows "\<exists>st1. execute_serial_request E (tk_fee_policy t) (tk_use_rewards_handler t) (tk_tx t) st = (Inr r, st1) \<and>
    (rs_tx_result r \<noteq> None \<longrightarrow>
       (\<exists>st2. apply_speculative_output E r st = (Inr r, st2) \<and> same_view (px_driver E) (ps_driver st1) (ps_driver st2)))"
proof -
  let ?D = "px_driver E"
  obtain rn w1 where g: "get_worker_runtime open_driver (tk_storage_home t) (tk_use_rewards_handler t) w = (rn, w1)" by fastforce
  have disk: "d_value_from_disk ?D (rn_driver rn) = d_value_from_disk ?D (ps_driver st)"
    using g assms(6) by (auto simp: get_worker_runtime_def worker_on_def Let_def split: option.splits)
  define base where "base = speculation_base E (tk_base_pending_writes t) rn (wk_prepared w1)"
  have view: "same_view ?D (ps_driver base) (ps_driver st)"
    unfolding base_def assms(7) get_base_pending_writes_def by (rule speculation_base_view [OF assms(1) disk])
  have chi: "chi_coherent E base" by (simp add: chi_coherent_def base_def speculation_base_def Let_def)
  obtain st1 where run: "process_tx E (tk_tx t) (tk_use_rewards_handler t) (Some (tk_fee_policy t)) True st = (Inr r, st1)"
    using process_tx_view [OF assms(1-3) view chi assms(4,5), of "tk_use_rewards_handler t" "Some (tk_fee_policy t)"] assms(8)
    by (auto simp: speculative_process_tx_def g base_def [symmetric] Let_def split_beta prod_eq_iff)
  have "\<exists>st2. apply_speculative_output E r st = (Inr r, st2) \<and> same_view ?D (ps_driver st1) (ps_driver st2)"
    if "rs_tx_result r = Some x" for x
    using process_tx_result [OF assms(1,2) run that]
    by (auto simp: apply_speculative_output_def that Let_def update_chi_cost_cache_def split: option.split)
  then show ?thesis using run by (auto simp: execute_serial_request_def)
qed

section \<open>Examples\<close>

text \<open>A machine that copies a variable and reports that it read it; its result depends on nothing else.\<close>

definition reading_vm :: "mem_db vm_env" where
  "reading_vm = sample_vm\<lparr>
     vm_execute := (\<lambda>d c. (Inr \<lparr>vo_status = 0, vo_result = PNone, vo_writes = [(''con.x'', d_get mem_driver d ''con.y'')],
        vo_events = [], vo_chi_used = 10, vo_contract_costs = []\<rparr>, d)),
     vm_transaction_reads := (\<lambda>d. [(''con.y'', d_get mem_driver d ''con.y'')])\<rparr>"

definition reading_proc :: "mem_db proc_env" where
  "reading_proc = sample_proc\<lparr>px_vm := reading_vm\<rparr>"

definition fresh_worker :: "mem_db worker" where
  "fresh_worker = \<lparr>wk_runtimes = [], wk_prepared = []\<rparr>"

definition sample_task :: "(string, pyval) dict \<Rightarrow> task" where
  "sample_task base =
     \<lparr>tk_storage_home = ''home'', tk_tx = sample_call ''copy'', tk_fee_policy = paid_metered None None, tk_use_rewards_handler = False,
      tk_base_pending_writes = base\<rparr>"

definition sample_speculation :: "(string, pyval) dict \<Rightarrow> tx_response res" where
  "sample_speculation base = fst (speculative_process_tx reading_proc (\<lambda>_. sample_funds) (sample_task base) fresh_worker)"

lemma reading_vm_determined:
  "same_view mem_driver d e \<Longrightarrow> fst (vm_execute reading_vm d c) = fst (vm_execute reading_vm e c)"
  "state_determined mem_driver reading_vm" "vm_confined mem_driver reading_vm"
proof -
  have get: "d_get mem_driver d = d_get mem_driver e" if "same_view mem_driver d e" for d e
    by (rule view_get(1) [OF mem_driver_laws that])
  show "same_view mem_driver d e \<Longrightarrow> fst (vm_execute reading_vm d c) = fst (vm_execute reading_vm e c)"
    using get by (simp add: reading_vm_def)
  have "d_read_tracking mem_driver d = False" "d_clear_transaction mem_driver d = d" for d by (simp_all add: mem_driver_def)
  then show "state_determined mem_driver reading_vm"
    using get by (auto simp: state_determined_def reading_vm_def sample_vm_def)
  show "vm_confined mem_driver reading_vm"
    by (auto simp: vm_confined_def reading_vm_def sample_vm_def)
qed

definition reading_state :: "mem_db proc" where
  "reading_state = sample_state\<lparr>ps_driver := sample_funds\<lparr>db_pending := [(''con.y'', PInt 7), (''chi_cost.S:value'', PInt 2)]\<rparr>\<rparr>"

lemma sample_prepared: "always_prepared reading_proc (sample_call ''copy'') d"
proof -
  have "load_module reading_vm d ''con'' = Inr (hexlify ''con'', PDict [])"
    by (simp add: load_module_def load_vm_module_ir_json_def reject_disabled_runtime_features_def reading_vm_def sample_vm_def)
  moreover have "import_modules reading_vm (PDict []) = Inr []" "vm_validate_module_ir reading_vm v = Inr ()" for v
    by (simp_all add: import_modules_def dget_or_def reading_vm_def sample_vm_def)
  moreover have fuel: "px_fuel reading_proc = Suc 4" and vm: "px_vm reading_proc = reading_vm"
    by (simp_all add: reading_proc_def sample_proc_def)
  ultimately have "\<exists>cache'. prepare_vm_contract (px_fuel reading_proc) (px_vm reading_proc) d ''con'' cache = Some (Inr (), cache')" for cache
    unfolding prepare_vm_contract_def fuel vm prepare_bundle.simps by simp
  moreover have "payload_field (sample_call ''copy'') ''contract'' = Inr (PStr ''con'')"
    by code_simp
  ultimately show ?thesis unfolding always_prepared_def by blast
qed

lemma sample_speculation_runs:
  "case sample_speculation (get_base_pending_writes reading_proc reading_state) of
     Inr r \<Rightarrow> map_option xr_state (rs_tx_result r) = Some [(''con.x'', PInt 7), (''currency.balances:ab'', PInt 45)] | Inl _ \<Rightarrow> False"
  by code_simp

theorem speculation_is_serial_witness:
  "\<exists>r st1 st2. sample_speculation (get_base_pending_writes reading_proc reading_state) = Inr r \<and> rs_tx_result r \<noteq> None \<and>
     execute_serial_request reading_proc (paid_metered None None) False (sample_call ''copy'') reading_state = (Inr r, st1) \<and>
     apply_speculative_output reading_proc r reading_state = (Inr r, st2) \<and> same_view mem_driver (ps_driver st1) (ps_driver st2)"
proof -
  let ?t = "sample_task (get_base_pending_writes reading_proc reading_state)"
  obtain r w' where run: "speculative_process_tx reading_proc (\<lambda>_. sample_funds) ?t fresh_worker = (Inr r, w')"
    and some: "rs_tx_result r \<noteq> None"
    using sample_speculation_runs unfolding sample_speculation_def
    by (cases "speculative_process_tx reading_proc (\<lambda>_. sample_funds) ?t fresh_worker") (auto split: sum.splits)
  have E: "px_driver reading_proc = mem_driver" "px_vm reading_proc = reading_vm"
    by (simp_all add: reading_proc_def sample_proc_def)
  have chi: "chi_coherent reading_proc reading_state" unfolding chi_coherent_def by code_simp
  have worker: "worker_on (px_driver reading_proc) (\<lambda>_. sample_funds) (tk_storage_home ?t) (ps_driver reading_state) fresh_worker"
    by (simp add: worker_on_def E fresh_worker_def mem_driver_def reading_state_def sample_state_def)
  have tx: "tk_tx ?t = sample_call ''copy''" "tk_fee_policy ?t = paid_metered None None" "\<not> tk_use_rewards_handler ?t"
    "tk_base_pending_writes ?t = get_base_pending_writes reading_proc reading_state" by (simp_all add: sample_task_def)
  from speculation_is_serial [of reading_proc reading_state ?t "\<lambda>_. sample_funds" fresh_worker r w', unfolded E tx(1),
      OF mem_driver_laws reading_vm_determined(3) reading_vm_determined(2) chi sample_prepared worker [unfolded E] tx(4) run]
  show ?thesis using run some tx(2,3) unfolding sample_speculation_def E by auto
qed

end
