(* ===== verification/Shielded_Preverify.thy ===== *)
theory Shielded_Preverify
  imports Simulator_Ipc Tx_Processor
begin

text \<open>
  Verification of shielded proofs ahead of the execution of a block
  (\<^verbatim>\<open>src/src/xian/shielded_preverify.py\<close>).  The bridge to the proof system is third-party and is the
  record \<open>zk_env\<close>; its cache of verified proofs is a state it threads.  Every function that may raise
  returns a result, so that what is swallowed and what is not can be stated.
\<close>

record preverify_stats =
  candidate_count :: nat
  verified_count :: nat
  failed_count :: nat

definition no_stats :: preverify_stats where
  "no_stats = \<lparr>candidate_count = 0, verified_count = 0, failed_count = 0\<rparr>"

text \<open>The values of the runtime's environment.\<close>

datatype 'd env_value = EnvDriver 'd | EnvValue pyval

type_synonym 'd rt_env = "(string, 'd env_value) dict"

text \<open>
  \<open>zk_canonicalize\<close> is missing when the package is not installed.  \<open>zk_warm\<close> reads the driver it
  finds in the environment and returns its results, or raises, with its new cache.
\<close>

record ('d, 'c) zk_env =
  zk_available :: bool
  zk_text :: text_env
  zk_canonicalize :: "(pyval \<Rightarrow> pyval res) option"
  zk_output_payload_hashes :: "pyval list \<Rightarrow> pyval list res"
  zk_deposit_public_inputs :: "pyval list \<Rightarrow> pyval res"
  zk_transfer_public_inputs :: "pyval list \<Rightarrow> pyval res"
  zk_withdraw_public_inputs :: "pyval list \<Rightarrow> pyval res"
  zk_command_nullifier_digest :: "pyval \<Rightarrow> pyval res"
  zk_command_binding :: "pyval list \<Rightarrow> pyval res"
  zk_command_execution_tag :: "pyval \<Rightarrow> pyval \<Rightarrow> pyval res"
  zk_command_public_inputs :: "pyval list \<Rightarrow> pyval res"
  zk_warm :: "'d rt_env \<Rightarrow> pyval list \<Rightarrow> 'c \<Rightarrow> pyval list res \<times> 'c"

section \<open>Fields\<close>

definition vk_id_for :: "'d driver \<Rightarrow> 'd \<Rightarrow> string \<Rightarrow> string \<Rightarrow> string option res" where
  "vk_id_for D d contract action =
     rbind (d_get_var D d contract ''vk_ids'' [PStr action]) (\<lambda>vk_id.
     Inr (case vk_id of PStr s \<Rightarrow> if s \<noteq> [] then Some s else None | _ \<Rightarrow> None))"

text \<open>\<^verbatim>\<open>value in (None, "")\<close>.\<close>

definition is_blank :: "pyval \<Rightarrow> bool" where
  "is_blank v \<longleftrightarrow> v = PNone \<or> v = PStr []"

definition normalize_output_payloads :: "pyval \<Rightarrow> nat \<Rightarrow> pyval list res" where
  "normalize_output_payloads output_payloads expected_count =
     (if output_payloads = PNone then Inr (replicate expected_count (PStr []))
      else case output_payloads of
        PList ps \<Rightarrow>
          if length ps \<noteq> expected_count then Inl (AssertionError ''output_payloads length must match output commitments'')
          else Inr (map (\<lambda>p. if is_blank p then PStr [] else p) ps)
      | _ \<Rightarrow> Inl (AssertionError ''output_payloads length must match output commitments''))"

definition text_field_hash :: "('d, 'c) zk_env \<Rightarrow> pyval \<Rightarrow> pyval res" where
  "text_field_hash Z v =
     (case v of
        PStr s \<Rightarrow>
          rbind (zk_output_payload_hashes Z [PStr (''0x'' @ hexlify s)]) (\<lambda>hashes.
          case hashes of [] \<Rightarrow> Inl (OtherError ''IndexError'') | h # _ \<Rightarrow> Inr h)
      | _ \<Rightarrow> Inl (OtherError ''AttributeError''))"

definition expiry_field :: "('d, 'c) zk_env \<Rightarrow> pyval \<Rightarrow> pyval res" where
  "expiry_field Z expires_at =
     (if is_blank expires_at then Inr (PStr (''0x'' @ concat (replicate 32 ''00'')))
      else text_field_hash Z (PStr (py_str (zk_text Z) expires_at)))"

definition command_payload_digest :: "('d, 'c) zk_env \<Rightarrow> pyval \<Rightarrow> pyval res" where
  "command_payload_digest Z payload =
     (case zk_canonicalize Z of
        None \<Rightarrow> Inl (AssertionError ''xian_zk command payload canonicalizer is unavailable'')
      | Some canonicalize \<Rightarrow>
          let payload = (if payload = PNone then PDict [] else payload) in
          if \<not> is_dict payload then Inl (AssertionError ''payload must be a dict'')
          else rbind (canonicalize payload) (text_field_hash Z))"

definition py_len :: "pyval \<Rightarrow> nat res" where
  "py_len v =
     (case v of PList xs \<Rightarrow> Inr (length xs) | PTuple xs \<Rightarrow> Inr (length xs) | PDict kvs \<Rightarrow> Inr (length kvs)
      | PStr s \<Rightarrow> Inr (length (utf8_chars s)) | PBytes b \<Rightarrow> Inr (length b) | _ \<Rightarrow> Inl (TypeError ''object has no len()''))"

section \<open>Requests\<close>

definition entry_inputs ::
    "('d, 'c) zk_env \<Rightarrow> 'd driver \<Rightarrow> 'd \<Rightarrow> string \<Rightarrow> string \<Rightarrow> pyval \<Rightarrow> (string \<times> pyval \<times> pyval list) option res" where
  "entry_inputs Z D d contract action kwargs =
     rbind (vk_id_for D d contract action) (\<lambda>vk.
     case vk of
       None \<Rightarrow> Inr None
     | Some vk_id \<Rightarrow>
         rbind (dindex kwargs ''output_commitments'') (\<lambda>commitments.
         rbind (py_len commitments) (\<lambda>n.
         rbind (normalize_output_payloads (dget_or kwargs ''output_payloads'' PNone) n) (\<lambda>payloads.
         rbind (zk_output_payload_hashes Z payloads) (\<lambda>hashes.
         Inr (Some (vk_id, commitments, hashes)))))))"

definition request_dict :: "string \<Rightarrow> pyval \<Rightarrow> pyval \<Rightarrow> pyval" where
  "request_dict vk_id proof_hex public_inputs =
     PDict [(PStr ''vk_id'', PStr vk_id), (PStr ''proof_hex'', proof_hex), (PStr ''public_inputs'', public_inputs)]"

text \<open>\<^verbatim>\<open>kwargs[name]\<close> for several names.\<close>

definition args :: "pyval \<Rightarrow> string list \<Rightarrow> pyval list res" where
  "args kwargs names = mapR (dindex kwargs) names"

definition with_inputs ::
    "(string \<times> pyval \<times> pyval list) option res \<Rightarrow> (string \<Rightarrow> pyval \<Rightarrow> pyval list \<Rightarrow> pyval res) \<Rightarrow> pyval option res" where
  "with_inputs r f =
     rbind r (\<lambda>inputs. case inputs of None \<Rightarrow> Inr None
       | Some (vk_id, commitments, hashes) \<Rightarrow> rbind (f vk_id commitments hashes) (\<lambda>request. Inr (Some request)))"

definition deposit_entry :: "('d, 'c) zk_env \<Rightarrow> 'd driver \<Rightarrow> 'd \<Rightarrow> string \<Rightarrow> pyval \<Rightarrow> pyval option res" where
  "deposit_entry Z D d contract kwargs =
     with_inputs (entry_inputs Z D d contract ''deposit'' kwargs) (\<lambda>vk_id commitments hashes.
       rbind (dindex kwargs ''proof_hex'') (\<lambda>proof.
       rbind (args kwargs [''old_root'', ''amount'']) (\<lambda>xs.
       rbind (zk_deposit_public_inputs Z (PStr contract # xs @ [commitments, PList hashes])) (\<lambda>inputs.
       Inr (request_dict vk_id proof inputs)))))"

definition transfer_entry :: "('d, 'c) zk_env \<Rightarrow> 'd driver \<Rightarrow> 'd \<Rightarrow> string \<Rightarrow> pyval \<Rightarrow> pyval option res" where
  "transfer_entry Z D d contract kwargs =
     with_inputs (entry_inputs Z D d contract ''transfer'' kwargs) (\<lambda>vk_id commitments hashes.
       rbind (dindex kwargs ''proof_hex'') (\<lambda>proof.
       rbind (args kwargs [''old_root'', ''input_nullifiers'']) (\<lambda>xs.
       rbind (zk_transfer_public_inputs Z (PStr contract # xs @ [commitments, PList hashes])) (\<lambda>inputs.
       Inr (request_dict vk_id proof inputs)))))"

definition withdraw_entry :: "('d, 'c) zk_env \<Rightarrow> 'd driver \<Rightarrow> 'd \<Rightarrow> string \<Rightarrow> pyval \<Rightarrow> pyval option res" where
  "withdraw_entry Z D d contract kwargs =
     with_inputs (entry_inputs Z D d contract ''withdraw'' kwargs) (\<lambda>vk_id commitments hashes.
       rbind (dindex kwargs ''proof_hex'') (\<lambda>proof.
       rbind (args kwargs [''old_root'', ''amount'', ''to'', ''input_nullifiers'']) (\<lambda>xs.
       rbind (zk_withdraw_public_inputs Z (PStr contract # xs @ [commitments, PList hashes])) (\<lambda>inputs.
       Inr (request_dict vk_id proof inputs)))))"

text \<open>What distinguishes the two kinds of command.\<close>

record command =
  cm_target_hash :: pyval
  cm_payload_digest :: pyval
  cm_interaction :: string
  cm_domain :: string
  cm_public_amount :: pyval

definition command_request ::
    "('d, 'c) zk_env \<Rightarrow> string \<Rightarrow> pyval \<Rightarrow> pyval \<Rightarrow> pyval \<Rightarrow> command \<Rightarrow> string \<Rightarrow> pyval \<Rightarrow> pyval list \<Rightarrow> pyval res" where
  "command_request Z contract sender chain_id kwargs cm vk_id commitments hashes =
     (let fee = dget_or kwargs ''relayer_fee'' (PInt 0) in
      rbind (dindex kwargs ''input_nullifiers'') (\<lambda>nullifiers.
      rbind (zk_command_nullifier_digest Z nullifiers) (\<lambda>nullifier_digest.
      rbind (text_field_hash Z sender) (\<lambda>sender_hash.
      rbind (expiry_field Z (dget_or kwargs ''expires_at'' PNone)) (\<lambda>expiry.
      rbind (text_field_hash Z chain_id) (\<lambda>chain_hash.
      rbind (text_field_hash Z (PStr (cm_interaction cm))) (\<lambda>interaction_hash.
      rbind (text_field_hash Z (PStr (cm_domain cm))) (\<lambda>domain_hash.
      rbind (zk_command_binding Z
        [nullifier_digest, cm_target_hash cm, cm_payload_digest cm, sender_hash, expiry, chain_hash, interaction_hash, domain_hash,
         fee, cm_public_amount cm]) (\<lambda>binding.
      rbind (zk_command_execution_tag Z nullifier_digest binding) (\<lambda>execution_tag.
      rbind (dindex kwargs ''proof_hex'') (\<lambda>proof.
      rbind (dindex kwargs ''old_root'') (\<lambda>old_root.
      rbind (zk_command_public_inputs Z
        [PStr contract, old_root, binding, execution_tag, fee, cm_public_amount cm, nullifiers, commitments, PList hashes]) (\<lambda>inputs.
      Inr (request_dict vk_id proof inputs))))))))))))))"

definition chain_id_of :: "pyval \<Rightarrow> pyval res" where
  "chain_id_of tx = rbind (dindex tx ''b_meta'') (\<lambda>meta. dindex meta ''chain_id'')"

definition relay_transfer_entry ::
    "('d, 'c) zk_env \<Rightarrow> 'd driver \<Rightarrow> 'd \<Rightarrow> pyval \<Rightarrow> string \<Rightarrow> pyval \<Rightarrow> pyval \<Rightarrow> pyval option res" where
  "relay_transfer_entry Z D d tx contract sender kwargs =
     with_inputs (entry_inputs Z D d contract ''relay_transfer'' kwargs) (\<lambda>vk_id commitments hashes.
       rbind (chain_id_of tx) (\<lambda>chain_id.
       rbind (text_field_hash Z (PStr ''shielded-note-relay-transfer'')) (\<lambda>target.
       rbind (text_field_hash Z (PStr ''transfer'')) (\<lambda>digest.
       command_request Z contract sender chain_id kwargs
         \<lparr>cm_target_hash = target, cm_payload_digest = digest, cm_interaction = ''relay_transfer_shielded'',
          cm_domain = ''shielded-note-relay-v1'', cm_public_amount = PInt 0\<rparr> vk_id commitments hashes))))"

definition execute_command_entry ::
    "('d, 'c) zk_env \<Rightarrow> 'd driver \<Rightarrow> 'd \<Rightarrow> pyval \<Rightarrow> string \<Rightarrow> pyval \<Rightarrow> pyval \<Rightarrow> pyval option res" where
  "execute_command_entry Z D d tx contract sender kwargs =
     with_inputs (entry_inputs Z D d contract ''command'' kwargs) (\<lambda>vk_id commitments hashes.
       rbind (chain_id_of tx) (\<lambda>chain_id.
       rbind (dindex kwargs ''target_contract'') (\<lambda>target_contract.
       rbind (text_field_hash Z target_contract) (\<lambda>target.
       rbind (command_payload_digest Z (dget_or kwargs ''payload'' PNone)) (\<lambda>digest.
       command_request Z contract sender chain_id kwargs
         \<lparr>cm_target_hash = target, cm_payload_digest = digest, cm_interaction = ''interact'', cm_domain = ''shielded-command-v4'',
          cm_public_amount = dget_or kwargs ''public_amount'' (PInt 0)\<rparr> vk_id commitments hashes)))))"

definition build_verification_request :: "('d, 'c) zk_env \<Rightarrow> 'd driver \<Rightarrow> 'd \<Rightarrow> pyval \<Rightarrow> pyval option res" where
  "build_verification_request Z D d tx =
     (if \<not> is_dict tx then Inl (OtherError ''AttributeError'')
      else let payload = dget_or tx ''payload'' PNone in
      if \<not> is_dict payload then Inr None
      else let kwargs = dget_or payload ''kwargs'' PNone in
      if \<not> is_dict kwargs \<or> dget kwargs ''proof_hex'' = None then Inr None
      else let contract = dget_or payload ''contract'' PNone; func = dget_or payload ''function'' PNone;
               sender = dget_or payload ''sender'' PNone in
      if \<not> is_str contract \<or> \<not> is_str func then Inr None
      else if \<not> is_str sender \<or> sender = PStr [] then Inr None
      else if func = PStr ''deposit_shielded'' then deposit_entry Z D d (str_of contract) kwargs
      else if func = PStr ''transfer_shielded'' then transfer_entry Z D d (str_of contract) kwargs
      else if func = PStr ''relay_transfer_shielded'' then relay_transfer_entry Z D d tx (str_of contract) sender kwargs
      else if func = PStr ''withdraw_shielded'' then withdraw_entry Z D d (str_of contract) kwargs
      else if func = PStr ''execute_command'' then execute_command_entry Z D d tx (str_of contract) sender kwargs
      else Inr None)"

section \<open>Warming the cache\<close>

text \<open>One request at a time; one that raises counts as not verified.\<close>

fun warm_each :: "('d, 'c) zk_env \<Rightarrow> 'd rt_env \<Rightarrow> pyval list \<Rightarrow> 'c \<Rightarrow> pyval list \<times> 'c" where
  "warm_each Z env [] c = ([], c)"
| "warm_each Z env (request # rest) c =
     (let (r, c) = zk_warm Z env [request] c; (results, c) = warm_each Z env rest c
      in ((case r of Inr xs \<Rightarrow> xs | Inl _ \<Rightarrow> [PBool False]) @ results, c))"

definition warm_verified_proofs :: "('d, 'c) zk_env \<Rightarrow> 'd rt_env \<Rightarrow> pyval list \<Rightarrow> 'c \<Rightarrow> pyval list \<times> 'c" where
  "warm_verified_proofs Z env requests c =
     (case zk_warm Z env requests c of (Inr results, c) \<Rightarrow> (results, c) | (Inl _, c) \<Rightarrow> warm_each Z env requests c)"

definition collect_requests :: "('d, 'c) zk_env \<Rightarrow> 'd driver \<Rightarrow> 'd \<Rightarrow> pyval list \<Rightarrow> pyval list" where
  "collect_requests Z D d txs =
     List.map_filter (\<lambda>tx. case build_verification_request Z D d tx of Inl _ \<Rightarrow> None | Inr r \<Rightarrow> r) txs"

definition DRIVER_NAME :: string where
  "DRIVER_NAME = ''__Driver''"

definition previous_driver :: "'d rt_env \<Rightarrow> 'd env_value option" where
  "previous_driver env =
     (case map_of env DRIVER_NAME of None \<Rightarrow> None | Some (EnvValue PNone) \<Rightarrow> None | Some v \<Rightarrow> Some v)"

definition restore_driver :: "'d env_value option \<Rightarrow> 'd rt_env \<Rightarrow> 'd rt_env" where
  "restore_driver previous env =
     (case previous of None \<Rightarrow> AList.delete DRIVER_NAME env | Some v \<Rightarrow> AList.update DRIVER_NAME v env)"

definition count_stats :: "pyval list \<Rightarrow> preverify_stats" where
  "count_stats results =
     (let verified = length (filter (\<lambda>r. r = PBool True) results) in
      \<lparr>candidate_count = length results, verified_count = verified, failed_count = length results - verified\<rparr>)"

definition warm_shielded_proof_cache ::
    "('d, 'c) zk_env \<Rightarrow> 'd driver \<Rightarrow> 'd \<Rightarrow> pyval list \<Rightarrow> 'd rt_env \<times> 'c \<Rightarrow> preverify_stats \<times> 'd rt_env \<times> 'c" where
  "warm_shielded_proof_cache Z D d txs = (\<lambda>(env, c).
     if \<not> zk_available Z then (no_stats, env, c)
     else let requests = collect_requests Z D d txs in
       if requests = [] then (no_stats, env, c)
       else let previous = previous_driver env; env = AList.update DRIVER_NAME (EnvDriver d) env;
                (results, c) = warm_verified_proofs Z env requests c
            in (count_stats results, restore_driver previous env, c))"

text \<open>Proofs are verified ahead only when the block is executed serially.\<close>

definition preverify_shielded_for_serial_execution ::
    "bool \<Rightarrow> ('d, 'c) zk_env \<Rightarrow> 'd driver \<Rightarrow> 'd \<Rightarrow> pyval list \<Rightarrow> 'd rt_env \<times> 'c \<Rightarrow> preverify_stats option \<times> 'd rt_env \<times> 'c" where
  "preverify_shielded_for_serial_execution parallel_enabled Z D d txs st =
     (if parallel_enabled then (None, st)
      else let (stats, st) = warm_shielded_proof_cache Z D d txs st in (Some stats, st))"

section \<open>The block is left alone\<close>

lemma warm_each_length:
  assumes "\<And>env rs c xs c'. zk_warm Z env rs c = (Inr xs, c') \<Longrightarrow> length xs = length rs"
  shows "length (fst (warm_each Z env requests c)) = length requests"
proof (induction requests arbitrary: c)
  case (Cons r rs)
  obtain o1 c1 where w: "zk_warm Z env [r] c = (o1, c1)" by fastforce
  show ?case using Cons.IH [of c1] assms [of env "[r]" c _ c1] w
    by (cases o1) (simp_all add: split_beta)
qed simp

lemma warm_verified_length:
  assumes "\<And>env rs c xs c'. zk_warm Z env rs c = (Inr xs, c') \<Longrightarrow> length xs = length rs"
  shows "length (fst (warm_verified_proofs Z env requests c)) = length requests"
  using assms warm_each_length [OF assms]
  by (auto simp: warm_verified_proofs_def split: prod.split sum.split)

lemma collect_requests_length: "length (collect_requests Z D d txs) \<le> length txs"
  unfolding collect_requests_def by (induction txs) (simp_all add: map_filter_simps split: option.split)

lemma count_stats_sum: "candidate_count (count_stats rs) = verified_count (count_stats rs) + failed_count (count_stats rs)"
  by (simp add: count_stats_def Let_def)

lemma restore_driver_map_of:
  assumes "map_of env DRIVER_NAME \<noteq> Some (EnvValue PNone)"
  shows "map_of (restore_driver (previous_driver env) (AList.update DRIVER_NAME v env)) = map_of env"
  using assms
  by (auto simp: restore_driver_def previous_driver_def update_conv' delete_conv' fun_eq_iff
      split: option.split env_value.split pyval.split)

section \<open>Requests and their transactions\<close>

definition tx_payload_item :: "pyval \<Rightarrow> string \<Rightarrow> pyval" where
  "tx_payload_item tx k = dget_or (dget_or tx ''payload'' PNone) k PNone"

definition tx_kwargs :: "pyval \<Rightarrow> pyval" where
  "tx_kwargs tx = tx_payload_item tx ''kwargs''"

text \<open>The functions whose proofs are bound to a sender.\<close>

definition is_command :: "pyval \<Rightarrow> bool" where
  "is_command tx \<longleftrightarrow> tx_payload_item tx ''function'' \<in> {PStr ''relay_transfer_shielded'', PStr ''execute_command''}"

text \<open>The hashes of the bridge have no collisions.\<close>

definition collision_free :: "('d, 'c) zk_env \<Rightarrow> bool" where
  "collision_free Z \<longleftrightarrow>
     (\<forall>s t h. text_field_hash Z (PStr s) = Inr h \<longrightarrow> text_field_hash Z (PStr t) = Inr h \<longrightarrow> s = t) \<and>
     (\<forall>xs ys h. zk_command_binding Z xs = Inr h \<longrightarrow> zk_command_binding Z ys = Inr h \<longrightarrow> xs = ys) \<and>
     (\<forall>xs ys h. zk_command_public_inputs Z xs = Inr h \<longrightarrow> zk_command_public_inputs Z ys = Inr h \<longrightarrow> xs = ys)"

lemma text_field_hash_str: "text_field_hash Z v = Inr h \<Longrightarrow> \<exists>s. v = PStr s"
  by (cases v) (simp_all add: text_field_hash_def)

lemma collision_freeD:
  assumes "collision_free Z" "text_field_hash Z v = Inr h" "text_field_hash Z w = Inr h"
  shows "v = w"
proof -
  obtain s t where "v = PStr s" "w = PStr t" using text_field_hash_str assms(2,3) by blast
  with assms show ?thesis by (simp add: collision_free_def)
qed

lemma command_request_obtains:
  assumes "command_request Z contract sender chain_id kwargs cm vk_id commitments hashes = Inr r"
  obtains pf inputs b nd sh ex ch ih dh fee tag root nul where
    "r = request_dict vk_id pf inputs" "text_field_hash Z sender = Inr sh" "text_field_hash Z chain_id = Inr ch"
    "text_field_hash Z (PStr (cm_interaction cm)) = Inr ih"
    "zk_command_binding Z [nd, cm_target_hash cm, cm_payload_digest cm, sh, ex, ch, ih, dh, fee, cm_public_amount cm] = Inr b"
    "zk_command_public_inputs Z [PStr contract, root, b, tag, fee, cm_public_amount cm, nul, commitments, PList hashes] = Inr inputs"
  using assms unfolding command_request_def Let_def
  by (elim rbind_InrE, simp only: sum.inject) (rule that, (assumption | rule sym, assumption)+)

lemma command_requests_bound:
  assumes "collision_free Z"
    and "command_request Z contract sender chain_id kwargs cm vk commitments hashes = Inr r"
    and "command_request Z contract' sender' chain_id' kwargs' cm' vk' commitments' hashes' = Inr r"
  shows "contract = contract' \<and> sender = sender' \<and> chain_id = chain_id' \<and> cm_interaction cm = cm_interaction cm' \<and>
    cm_target_hash cm = cm_target_hash cm' \<and> cm_payload_digest cm = cm_payload_digest cm' \<and>
    cm_public_amount cm = cm_public_amount cm' \<and> vk = vk'"
proof -
  obtain pf inp b nd sh ex ch ih dh fee tag root nul where a:
    "r = request_dict vk pf inp" "text_field_hash Z sender = Inr sh" "text_field_hash Z chain_id = Inr ch"
    "text_field_hash Z (PStr (cm_interaction cm)) = Inr ih"
    "zk_command_binding Z [nd, cm_target_hash cm, cm_payload_digest cm, sh, ex, ch, ih, dh, fee, cm_public_amount cm] = Inr b"
    "zk_command_public_inputs Z [PStr contract, root, b, tag, fee, cm_public_amount cm, nul, commitments, PList hashes] = Inr inp"
    by (rule command_request_obtains [OF assms(2)])
  obtain pf' inp' b' nd' sh' ex' ch' ih' dh' fee' tag' root' nul' where a':
    "r = request_dict vk' pf' inp'" "text_field_hash Z sender' = Inr sh'" "text_field_hash Z chain_id' = Inr ch'"
    "text_field_hash Z (PStr (cm_interaction cm')) = Inr ih'"
    "zk_command_binding Z [nd', cm_target_hash cm', cm_payload_digest cm', sh', ex', ch', ih', dh', fee', cm_public_amount cm'] = Inr b'"
    "zk_command_public_inputs Z [PStr contract', root', b', tag', fee', cm_public_amount cm', nul', commitments', PList hashes'] = Inr inp'"
    by (rule command_request_obtains [OF assms(3)])
  have "inp = inp'" "vk = vk'" using a(1) a'(1) by (simp_all add: request_dict_def)
  with a(6) a'(6) assms(1) have 1: "contract = contract'" "b = b'" "cm_public_amount cm = cm_public_amount cm'"
    unfolding collision_free_def by blast+
  then have 2: "sh = sh'" "ch = ch'" "ih = ih'" "cm_target_hash cm = cm_target_hash cm'"
    "cm_payload_digest cm = cm_payload_digest cm'"
    using a(5) a'(5) assms(1) unfolding collision_free_def by blast+
  have "sender = sender'" "chain_id = chain_id'" "PStr (cm_interaction cm) = PStr (cm_interaction cm')"
    using collision_freeD [OF assms(1)] a(2-4) a'(2-4) 2(1-3) by blast+
  with 1 2 \<open>vk = vk'\<close> show ?thesis by simp
qed

lemma with_inputs_Some:
  assumes "with_inputs r f = Inr (Some q)"
  obtains vk commitments hashes where "r = Inr (Some (vk, commitments, hashes))" "f vk commitments hashes = Inr q"
  using assms unfolding with_inputs_def by (auto simp: rbind_Inr_iff split: option.splits)

lemma dindex_dget_or: "dindex v k = Inr x \<Longrightarrow> dget_or v k alt = x"
  by (auto simp: dindex_def dget_or_def split: option.splits if_splits)

text \<open>A request for a command comes from the command request of its transaction.\<close>

lemma command_of_request:
  assumes "build_verification_request Z D d tx = Inr (Some r)" "is_command tx"
  obtains chain_id cm vk commitments hashes where
    "command_request Z (str_of (tx_payload_item tx ''contract'')) (tx_payload_item tx ''sender'') chain_id (tx_kwargs tx) cm vk
       commitments hashes = Inr r"
    "chain_id_of tx = Inr chain_id" "is_str (tx_payload_item tx ''contract'')"
    "cm_interaction cm = (if tx_payload_item tx ''function'' = PStr ''execute_command'' then ''interact'' else ''relay_transfer_shielded'')"
    "tx_payload_item tx ''function'' = PStr ''execute_command'' \<longrightarrow>
       text_field_hash Z (dget_or (tx_kwargs tx) ''target_contract'' PNone) = Inr (cm_target_hash cm)"
proof -
  note b = assms(1) [unfolded build_verification_request_def Let_def, folded tx_payload_item_def, folded tx_kwargs_def]
  have str: "is_str (tx_payload_item tx ''contract'')" using b by (auto split: if_splits)
  show thesis
  proof (cases "tx_payload_item tx ''function'' = PStr ''execute_command''")
    case True
    then have "execute_command_entry Z D d tx (str_of (tx_payload_item tx ''contract'')) (tx_payload_item tx ''sender'') (tx_kwargs tx) = Inr (Some r)"
      using b by (simp split: if_splits)
    then show thesis unfolding execute_command_entry_def
      by (elim with_inputs_Some rbind_InrE) (rule that, assumption, assumption, use True str in \<open>simp_all add: dindex_dget_or\<close>)
  next
    case False
    then have f: "tx_payload_item tx ''function'' = PStr ''relay_transfer_shielded''" using assms(2) by (simp add: is_command_def)
    then have "relay_transfer_entry Z D d tx (str_of (tx_payload_item tx ''contract'')) (tx_payload_item tx ''sender'') (tx_kwargs tx) = Inr (Some r)"
      using b by (simp split: if_splits)
    then show thesis unfolding relay_transfer_entry_def
      by (elim with_inputs_Some rbind_InrE) (rule that, assumption, assumption, use f str in simp_all)
  qed
qed

text \<open>C38: Verification ahead of execution cannot change what the block does: it leaves the runtime's
  environment as it found it, whatever the bridge raises, and its counts add up, one candidate for
  each request that could be built.\<close>

theorem preverification_harmless:
  assumes "map_of env DRIVER_NAME \<noteq> Some (EnvValue PNone)"
    and "\<And>e rs c xs c'. zk_warm Z e rs c = (Inr xs, c') \<Longrightarrow> length xs = length rs"
    and "warm_shielded_proof_cache Z D d txs (env, c) = (stats, env', c')"
  shows "map_of env' = map_of env \<and> candidate_count stats = verified_count stats + failed_count stats \<and>
    candidate_count stats = (if zk_available Z then length (collect_requests Z D d txs) else 0) \<and>
    candidate_count stats \<le> length txs"
proof -
  let ?env = "AList.update DRIVER_NAME (EnvDriver d) env" and ?rs = "collect_requests Z D d txs"
  obtain results c1 where w: "warm_verified_proofs Z ?env ?rs c = (results, c1)" by fastforce
  have "length (fst (warm_verified_proofs Z ?env ?rs c)) = length ?rs" by (rule warm_verified_length) (rule assms(2))
  then have len: "length results = length ?rs" by (simp add: w)
  note run = assms(3) [unfolded warm_shielded_proof_cache_def Let_def prod.case w]
  show ?thesis
  proof (cases "zk_available Z \<and> ?rs \<noteq> []")
    case True
    then have st: "stats = count_stats results" and env: "env' = restore_driver (previous_driver env) ?env"
      using run by simp_all
    have n: "candidate_count stats = length ?rs" by (simp add: st count_stats_def Let_def len)
    show ?thesis
      using True n collect_requests_length [of Z D d txs] count_stats_sum [of results]
      unfolding env restore_driver_map_of [OF assms(1)] by (simp add: st)
  next
    case False
    then have "stats = no_stats" "env' = env" using run by (simp_all split: if_splits)
    then show ?thesis using False by (auto simp: no_stats_def)
  qed
qed

text \<open>C39: A proof that is verified ahead counts for one sender on one chain only: two commands with the
  same verification request have the same sender, the same chain and contract, and both are relayed
  transfers or both are calls of the same target.\<close>

theorem shielded_request_bound:
  assumes "collision_free Z" and "is_command tx" and "is_command tx'"
    and "build_verification_request Z D d tx = Inr (Some r)" and "build_verification_request Z D d' tx' = Inr (Some r)"
  shows "tx_payload_item tx ''sender'' = tx_payload_item tx' ''sender'' \<and>
    chain_id_of tx = chain_id_of tx' \<and> tx_payload_item tx ''contract'' = tx_payload_item tx' ''contract'' \<and>
    tx_payload_item tx ''function'' = tx_payload_item tx' ''function'' \<and>
    (tx_payload_item tx ''function'' = PStr ''execute_command'' \<longrightarrow>
       dget_or (tx_kwargs tx) ''target_contract'' PNone = dget_or (tx_kwargs tx') ''target_contract'' PNone)"
proof -
  obtain ch cm vk co ha where a:
    "command_request Z (str_of (tx_payload_item tx ''contract'')) (tx_payload_item tx ''sender'') ch (tx_kwargs tx) cm vk co ha = Inr r"
    "chain_id_of tx = Inr ch" "is_str (tx_payload_item tx ''contract'')"
    "cm_interaction cm = (if tx_payload_item tx ''function'' = PStr ''execute_command'' then ''interact'' else ''relay_transfer_shielded'')"
    "tx_payload_item tx ''function'' = PStr ''execute_command'' \<longrightarrow>
       text_field_hash Z (dget_or (tx_kwargs tx) ''target_contract'' PNone) = Inr (cm_target_hash cm)"
    by (rule command_of_request [OF assms(4,2)])
  obtain ch' cm' vk' co' ha' where a':
    "command_request Z (str_of (tx_payload_item tx' ''contract'')) (tx_payload_item tx' ''sender'') ch' (tx_kwargs tx') cm' vk' co' ha' = Inr r"
    "chain_id_of tx' = Inr ch'" "is_str (tx_payload_item tx' ''contract'')"
    "cm_interaction cm' = (if tx_payload_item tx' ''function'' = PStr ''execute_command'' then ''interact'' else ''relay_transfer_shielded'')"
    "tx_payload_item tx' ''function'' = PStr ''execute_command'' \<longrightarrow>
       text_field_hash Z (dget_or (tx_kwargs tx') ''target_contract'' PNone) = Inr (cm_target_hash cm')"
    by (rule command_of_request [OF assms(5,3)])
  note same = command_requests_bound [OF assms(1) a(1) a'(1)]
  have fn: "tx_payload_item tx ''function'' = tx_payload_item tx' ''function''"
    using same a(4) a'(4) assms(2,3) by (auto simp: is_command_def split: if_splits)
  have con: "tx_payload_item tx ''contract'' = tx_payload_item tx' ''contract''"
    using same a(3) a'(3) by (cases "tx_payload_item tx ''contract''"; cases "tx_payload_item tx' ''contract''") simp_all
  have "dget_or (tx_kwargs tx) ''target_contract'' PNone = dget_or (tx_kwargs tx') ''target_contract'' PNone"
    if "tx_payload_item tx ''function'' = PStr ''execute_command''"
    using collision_freeD [OF assms(1) a(5) [rule_format, OF that]] a'(5) that fn same by simp
  then show ?thesis using same a(2) a'(2) fn con by simp
qed

section \<open>Examples\<close>

text \<open>A bridge whose hashes are their arguments, and whose batch raises on a malformed proof.\<close>

definition sample_zk :: "(mem_db, nat) zk_env" where
  "sample_zk =
     \<lparr>zk_available = True, zk_text = \<lparr>te_str = (\<lambda>_. []), te_int_of_text = (\<lambda>_. Inl (ValueError ''int''))\<rparr>,
      zk_canonicalize = None, zk_output_payload_hashes = Inr, zk_deposit_public_inputs = (\<lambda>xs. Inr (PList xs)),
      zk_transfer_public_inputs = (\<lambda>xs. Inr (PList xs)), zk_withdraw_public_inputs = (\<lambda>xs. Inr (PList xs)),
      zk_command_nullifier_digest = Inr, zk_command_binding = (\<lambda>xs. Inr (PList xs)),
      zk_command_execution_tag = (\<lambda>x y. Inr (PList [x, y])), zk_command_public_inputs = (\<lambda>xs. Inr (PList xs)),
      zk_warm = (\<lambda>_ rs c. if list_all (\<lambda>r. dget r ''proof_hex'' = Some (PStr ''good'')) rs then (Inr (map (\<lambda>_. PBool True) rs), c + length rs)
                          else (Inl (ValueError ''proof''), c))\<rparr>"

definition sample_relay :: "string \<Rightarrow> string \<Rightarrow> pyval" where
  "sample_relay sender proof_hex =
     PDict [(PStr ''payload'', PDict [(PStr ''contract'', PStr ''con_notes''), (PStr ''function'', PStr ''relay_transfer_shielded''),
        (PStr ''sender'', PStr sender),
        (PStr ''kwargs'', PDict [(PStr ''proof_hex'', PStr proof_hex), (PStr ''old_root'', PStr ''0x''),
           (PStr ''input_nullifiers'', PList [PStr ''n'']), (PStr ''output_commitments'', PList [PStr ''c''])])]),
      (PStr ''b_meta'', PDict [(PStr ''chain_id'', PStr ''xian-1'')])]"

definition sample_deposit :: "string \<Rightarrow> pyval" where
  "sample_deposit proof_hex =
     PDict [(PStr ''payload'', PDict [(PStr ''contract'', PStr ''con_notes''), (PStr ''function'', PStr ''deposit_shielded''),
        (PStr ''sender'', PStr ''a''),
        (PStr ''kwargs'', PDict [(PStr ''proof_hex'', PStr proof_hex), (PStr ''old_root'', PStr ''0x''), (PStr ''amount'', PInt 5),
           (PStr ''output_commitments'', PList [PStr ''c''])])])]"

definition sample_notes :: mem_db where
  "sample_notes = d_set_var mem_driver ''con_notes'' ''vk_ids'' [PStr ''relay_transfer''] (PStr ''vk'')
     (d_set_var mem_driver ''con_notes'' ''vk_ids'' [PStr ''deposit''] (PStr ''vk'') sample_funds)"

definition sample_warm :: "preverify_stats \<times> mem_db rt_env \<times> nat" where
  "sample_warm =
     warm_shielded_proof_cache sample_zk mem_driver sample_notes [sample_deposit ''good'', PNone, sample_deposit ''bad''] ([], 0)"

lemma sample_zk_laws:
  "zk_warm sample_zk e rs c = (Inr xs, c') \<Longrightarrow> length xs = length rs" "collision_free sample_zk"
proof -
  have "hexlify s = hexlify t \<Longrightarrow> s = t" for s t
  proof -
    assume "hexlify s = hexlify t"
    then have "fromhex (hexlify s) = fromhex (hexlify t)" by (rule arg_cong)
    then show ?thesis by (simp only: fromhex_hexlify sum.inject)
  qed
  then show "collision_free sample_zk"
    by (auto simp: collision_free_def sample_zk_def text_field_hash_def)
qed (auto simp: sample_zk_def split: if_splits)

lemma sample_warm_run:
  "verified_count (fst sample_warm) = 1" "failed_count (fst sample_warm) = 1"
  by code_simp+

theorem preverification_harmless_witness:
  "candidate_count (fst sample_warm) = 2 \<and> map_of (fst (snd sample_warm)) = Map.empty"
proof -
  have run: "warm_shielded_proof_cache sample_zk mem_driver sample_notes [sample_deposit ''good'', PNone, sample_deposit ''bad''] ([], 0) =
    (fst sample_warm, fst (snd sample_warm), snd (snd sample_warm))" by (simp add: sample_warm_def)
  have "map_of (fst (snd sample_warm)) = map_of [] \<and>
      candidate_count (fst sample_warm) = verified_count (fst sample_warm) + failed_count (fst sample_warm)"
    using preverification_harmless [OF _ sample_zk_laws(1) run] by simp
  then show ?thesis using sample_warm_run by simp
qed

lemma sample_relay_requests:
  "is_command (sample_relay s p)"
  "\<exists>r. build_verification_request sample_zk mem_driver sample_notes (sample_relay ''a'' ''good'') = Inr (Some r)"
  "tx_payload_item (sample_relay s p) ''sender'' = PStr s"
proof -
  have vk: "vk_id_for mem_driver sample_notes ''con_notes'' ''relay_transfer'' = Inr (Some ''vk'')" by code_simp
  show "\<exists>r. build_verification_request sample_zk mem_driver sample_notes (sample_relay ''a'' ''good'') = Inr (Some r)"
    by (simp add: build_verification_request_def sample_relay_def dget_or_def dindex_def relay_transfer_entry_def with_inputs_def
        entry_inputs_def vk py_len_def normalize_output_payloads_def chain_id_of_def text_field_hash_def command_request_def
        expiry_field_def is_blank_def sample_zk_def Let_def del: hexlify_def)
qed (simp_all add: is_command_def tx_payload_item_def sample_relay_def dget_or_def)

theorem shielded_request_bound_witness:
  "build_verification_request sample_zk mem_driver sample_notes (sample_relay ''a'' ''good'') \<noteq>
   build_verification_request sample_zk mem_driver sample_notes (sample_relay ''b'' ''good'')"
proof
  assume eq: "build_verification_request sample_zk mem_driver sample_notes (sample_relay ''a'' ''good'') =
    build_verification_request sample_zk mem_driver sample_notes (sample_relay ''b'' ''good'')"
  obtain r where "build_verification_request sample_zk mem_driver sample_notes (sample_relay ''a'' ''good'') = Inr (Some r)"
    using sample_relay_requests(2) by blast
  with shielded_request_bound [OF sample_zk_laws(2) sample_relay_requests(1) sample_relay_requests(1)] eq
  have "tx_payload_item (sample_relay ''a'' ''good'') ''sender'' = tx_payload_item (sample_relay ''b'' ''good'') ''sender''" by metis
  then show False by (simp add: sample_relay_requests(3))
qed

end
