(* ===== verification/Toml_Utils.thy ===== *)
theory Toml_Utils
  imports Abci_Json
begin

text \<open>
  The TOML text of a configuration (\<^verbatim>\<open>src/src/xian/toml_utils.py\<close>): scalars of a table first, then its
  tables, each under its dotted name.  A float is its \<^verbatim>\<open>repr\<close>.
\<close>

fun join_text :: "string \<Rightarrow> string list \<Rightarrow> string" where
  "join_text s [] = []"
| "join_text s [x] = x"
| "join_text s (x # xs) = x @ s @ join_text s xs"

definition is_finite_text :: "string \<Rightarrow> bool" where
  "is_finite_text t \<longleftrightarrow> t \<notin> {''nan'', ''inf'', ''-inf''}"

fun format_value :: "pyval \<Rightarrow> string res" where
  "format_value (PBool b) = Inr (if b then ''true'' else ''false'')"
| "format_value (PInt i) = Inr (str_int i)"
| "format_value (PFloat t) =
     (if is_finite_text t then Inr t else Inl (TypeError ''non-finite floats are not supported in TOML''))"
| "format_value (PStr s) = Inr (ascii_json_string s)"
| "format_value (PList xs) = rbind (mapR format_value xs) (\<lambda>ts. Inr (''['' @ join_text '', '' ts @ '']''))"
| "format_value v = Inl (TypeError ''unsupported TOML value type'')"

definition scalar_line :: "pyval \<times> pyval \<Rightarrow> string res" where
  "scalar_line = (\<lambda>(k, v). rbind (format_value v) (\<lambda>t. Inr (str_of k @ '' = '' @ t)))"

definition table_header :: "string list \<Rightarrow> string list" where
  "table_header names = (if names = [] then [] else [''['' @ join_text ''.'' names @ '']''])"

definition add_table :: "string list \<Rightarrow> string list \<Rightarrow> string list" where
  "add_table lines table = (if lines = [] then lines else lines @ [[]]) @ table"

fun dump_table :: "string list \<Rightarrow> pyval \<Rightarrow> string list res" where
  "dump_table names (PDict kvs) =
     rbind (mapR scalar_line (filter (\<lambda>kv. \<not> is_dict (snd kv)) kvs)) (\<lambda>scalars.
     rbind (mapR (\<lambda>kv. dump_table (names @ [str_of (fst kv)]) (snd kv)) (filter (\<lambda>kv. is_dict (snd kv)) kvs)) (\<lambda>tables.
     Inr (foldl add_table (table_header names @ scalars) tables)))"
| "dump_table names v = Inl (OtherError ''AttributeError'')"

definition dumps :: "pyval \<Rightarrow> string res" where
  "dumps payload = rbind (dump_table [] payload) (\<lambda>lines. Inr (join_text [CHR 0x0A] lines @ [CHR 0x0A]))"

text \<open>What the configurations of a node hold can be written.\<close>

fun writable :: "pyval \<Rightarrow> bool" where
  "writable (PBool b) = True"
| "writable (PInt i) = True"
| "writable (PFloat t) = is_finite_text t"
| "writable (PStr s) = True"
| "writable (PList xs) = list_all writable xs"
| "writable v = False"

fun writable_table :: "pyval \<Rightarrow> bool" where
  "writable_table (PDict kvs) = list_all (\<lambda>kv. if is_dict (snd kv) then writable_table (snd kv) else writable (snd kv)) kvs"
| "writable_table v = False"

lemma format_value_total: "writable v \<Longrightarrow> is_ok (format_value v)"
proof (induction v rule: format_value.induct)
  case (5 xs)
  then have "is_ok (mapR format_value xs)" by (intro mapR_is_ok) (simp add: list_all_iff)
  then show ?case by (auto simp: is_ok_iff)
qed (auto simp: is_ok_iff)

lemma dump_table_total: "writable_table v \<Longrightarrow> is_ok (dump_table names v)"
proof (induction names v rule: dump_table.induct)
  case (1 names kvs)
  have w: "writable (snd kv)" if "kv \<in> set kvs" "\<not> is_dict (snd kv)" for kv
    using 1(2) that by (auto simp: list_all_iff)
  have "is_ok (scalar_line kv)" if "kv \<in> set kvs" "\<not> is_dict (snd kv)" for kv
    using format_value_total [OF w [OF that]] by (cases kv) (auto simp: scalar_line_def is_ok_iff)
  then have sc: "is_ok (mapR scalar_line (filter (\<lambda>kv. \<not> is_dict (snd kv)) kvs))" by (intro mapR_is_ok) simp
  then obtain scalars where "mapR scalar_line (filter (\<lambda>kv. \<not> is_dict (snd kv)) kvs) = Inr scalars" by (auto simp: is_ok_iff)
  note IH = 1(1) [OF this]
  have "is_ok (mapR (\<lambda>kv. dump_table (names @ [str_of (fst kv)]) (snd kv)) (filter (\<lambda>kv. is_dict (snd kv)) kvs))"
    using IH 1(2) by (intro mapR_is_ok) (auto simp: list_all_iff)
  with sc show ?case by (auto simp: is_ok_iff)
qed simp_all

text \<open>A character outside the basic plane is written as two escaped surrogates, which TOML does not allow.\<close>

lemma astral_escaped:
  "format_value (PStr [CHR 0xF0, CHR 0x9F, CHR 0x98, CHR 0x80]) =
     Inr (CHR 0x22 # CHR 0x5C # ''ud83d'' @ CHR 0x5C # ''ude00'' @ [CHR 0x22])"
  by (simp add: ascii_json_string_def ascii_escape_def u_escape_def hex_digit_def char_of_def bit_iff_odd)

end
