(* ===== verification/Cometbft_Utils.thy ===== *)
theory Cometbft_Utils
  imports Node_Setup
begin

text \<open>
  Addresses of nodes and the files of a node's home (\<^verbatim>\<open>src/src/xian/utils/cometbft.py\<close>) and the lookup of
  network configurations (\<^verbatim>\<open>src/src/xian/config_paths.py\<close>).  Whether a text is an IPv6 address, whether it
  consists of digits, and the parts of a URL are what Python's library says.
\<close>

section \<open>Addresses\<close>

record url_parts =
  up_scheme :: string
  up_netloc :: string
  up_path :: string
  up_query :: string
  up_fragment :: string
  up_hostname :: "string option"
  up_port :: "int option res"

record url_ops =
  uo_is_ipv6 :: "string \<Rightarrow> bool"
  uo_isdigit :: "string \<Rightarrow> bool"
  uo_urlsplit :: "string \<Rightarrow> url_parts res"

definition strip_host_brackets :: "string \<Rightarrow> string" where
  "strip_host_brackets host =
     (if host \<noteq> [] \<and> hd host = CHR ''['' \<and> last host = CHR '']'' then butlast (tl host) else host)"

definition is_ipv6_literal :: "url_ops \<Rightarrow> string \<Rightarrow> bool" where
  "is_ipv6_literal U host = uo_is_ipv6 U (strip_host_brackets host)"

text \<open>\<^verbatim>\<open>text.rsplit(c, 1)\<close> of a text that has the character.\<close>

definition rsplit_once :: "char \<Rightarrow> string \<Rightarrow> string \<times> string" where
  "rsplit_once c s =
     (let after = rev (takeWhile (\<lambda>x. x \<noteq> c) (rev s)) in (take (length s - length after - 1) s, after))"

definition after_bracket :: "string \<Rightarrow> (string \<times> string option) option" where
  "after_bracket s =
     (if s \<noteq> [] \<and> hd s = CHR ''['' \<and> CHR '']'' \<in> set s
      then let host = takeWhile (\<lambda>c. c \<noteq> CHR '']'') (tl s); rest = tl (dropWhile (\<lambda>c. c \<noteq> CHR '']'') s)
           in Some (host, if rest \<noteq> [] \<and> hd rest = CHR '':'' then Some (tl rest) else None)
      else None)"

definition split_host_port :: "url_ops \<Rightarrow> string \<Rightarrow> string \<times> string option" where
  "split_host_port U v =
     (let host_port = py_strip v; colons = length (filter (\<lambda>c. c = CHR '':'') host_port) in
      case after_bracket host_port of
        Some r \<Rightarrow> r
      | None \<Rightarrow>
          if colons = 0 then (host_port, None)
          else let (host, port) = rsplit_once (CHR '':'') host_port in
            if colons = 1 then (host, Some port)
            else if uo_isdigit U port \<and> is_ipv6_literal U host then (host, Some port)
            else (host_port, None))"

definition format_url_netloc :: "url_ops \<Rightarrow> string \<Rightarrow> string option \<Rightarrow> string" where
  "format_url_netloc U host port =
     (let normalized_host = strip_host_brackets (py_strip host);
          netloc = (if is_ipv6_literal U normalized_host then ''['' @ normalized_host @ '']'' else normalized_host)
      in case port of None \<Rightarrow> netloc | Some p \<Rightarrow> netloc @ '':'' @ p)"

definition normalize_url_netloc :: "url_ops \<Rightarrow> string \<Rightarrow> string" where
  "normalize_url_netloc U netloc =
     (let (userinfo, host_port) = (if CHR ''@'' \<in> set netloc then rsplit_once (CHR ''@'') netloc else ([], netloc));
          (host, port) = split_host_port U host_port;
          normalized = format_url_netloc U host port
      in if CHR ''@'' \<in> set netloc then userinfo @ ''@'' @ normalized else normalized)"

text \<open>\<^verbatim>\<open>urlunsplit\<close> for the schemes that have a location.\<close>

definition urlunsplit :: "string \<Rightarrow> string \<Rightarrow> string \<Rightarrow> string \<Rightarrow> string \<Rightarrow> string" where
  "urlunsplit scheme netloc url_path query fragment =
     (let located =
        (if netloc \<noteq> []
         then ''//'' @ netloc @ (if url_path \<noteq> [] \<and> hd url_path \<noteq> CHR ''/'' then CHR ''/'' # url_path else url_path)
         else if url_path = [] \<or> hd url_path = CHR ''/'' then ''//'' @ url_path else url_path)
      in scheme @ '':'' @ located @ (if query \<noteq> [] then ''?'' @ query else []) @ (if fragment \<noteq> [] then ''#'' @ fragment else []))"

definition rstrip_slash :: "string \<Rightarrow> string" where
  "rstrip_slash s = rev (dropWhile (\<lambda>c. c = CHR ''/'') (rev s))"

text \<open>The scheme and the rest of an address, split at the first \<^verbatim>\<open>://\<close>.\<close>

fun split_scheme :: "string \<Rightarrow> (string \<times> string) option" where
  "split_scheme [] = None"
| "split_scheme (c # s) =
     (if take 3 (c # s) = ''://'' then Some ([], drop 2 s)
      else map_option (\<lambda>(a, b). (c # a, b)) (split_scheme s))"

definition normalize_rpc_url :: "url_ops \<Rightarrow> string \<Rightarrow> string res" where
  "normalize_rpc_url U address =
     (let normalized = py_strip address;
          (scheme, rest) = (case split_scheme normalized of
             None \<Rightarrow> (''http'', normalized)
           | Some (raw_scheme, rest) \<Rightarrow> (if py_lower raw_scheme \<in> {''http'', ''https''} then py_lower raw_scheme else ''http'', rest))
      in rbind (uo_urlsplit U (scheme @ ''://'' @ rest)) (\<lambda>parts.
         let netloc = (if up_netloc parts \<noteq> [] then normalize_url_netloc U (up_netloc parts) else []) in
         Inr (rstrip_slash (urlunsplit scheme netloc (up_path parts) (up_query parts) (up_fragment parts)))))"

definition resolve_local_rpc_url :: "url_ops \<Rightarrow> string \<Rightarrow> string \<Rightarrow> string option \<Rightarrow> int \<Rightarrow> string res" where
  "resolve_local_rpc_url U address default_host default_ipv6_host default_port =
     rbind (normalize_rpc_url U address) (\<lambda>normalized.
     rbind (uo_urlsplit U normalized) (\<lambda>parts.
     let or_default = (\<lambda>h. case h of Some s \<Rightarrow> if s \<noteq> [] then s else default_host | None \<Rightarrow> default_host);
         host = or_default (up_hostname parts);
         local_host = (if host = ''0.0.0.0'' then Some default_host
                       else if host = ''::'' then Some (or_default default_ipv6_host) else None)
     in case local_host of
          None \<Rightarrow> Inr normalized
        | Some h \<Rightarrow>
            rbind (up_port parts) (\<lambda>port.
            let p = (case port of Some i \<Rightarrow> if i \<noteq> 0 then i else default_port | None \<Rightarrow> default_port) in
            Inr (urlunsplit (if up_scheme parts \<noteq> [] then up_scheme parts else ''http'')
                   (format_url_netloc U h (Some (str_int p))) (up_path parts) [] []))))"

section \<open>Files of the home directory\<close>

definition read_text :: "node \<Rightarrow> path \<Rightarrow> string res" where
  "read_text n p =
     (case Option.bind (realpath n p) (file_at n) of None \<Rightarrow> Inl (FileNotFoundError (as_posix p)) | Some c \<Rightarrow> Inr c)"

definition is_file_path :: "node \<Rightarrow> path \<Rightarrow> bool" where
  "is_file_path n p = (case realpath n p of None \<Rightarrow> False | Some q \<Rightarrow> file_at n q \<noteq> None)"

definition load_home_file :: "(string \<Rightarrow> pyval res) \<Rightarrow> node \<Rightarrow> path \<Rightarrow> string \<Rightarrow> pyval res" where
  "load_home_file load n home name =
     (if \<not> is_dir_path n home then Inl (FileNotFoundError ''You must initialize CometBFT first'')
      else if \<not> is_file_path n (home @ [''config'', name]) then Inl (FileNotFoundError (as_posix (home @ [''config'', name])))
      else rbind (read_text n (home @ [''config'', name])) load)"

definition load_tendermint_config :: "(string \<Rightarrow> pyval res) \<Rightarrow> node \<Rightarrow> path \<Rightarrow> pyval res" where
  "load_tendermint_config load_toml n home = load_home_file load_toml n home ''config.toml''"

definition load_xian_config :: "(string \<Rightarrow> pyval res) \<Rightarrow> node \<Rightarrow> path \<Rightarrow> pyval res" where
  "load_xian_config load_toml n home = load_home_file load_toml n home ''xian.toml''"

definition load_genesis_data :: "(string \<Rightarrow> pyval res) \<Rightarrow> node \<Rightarrow> path \<Rightarrow> pyval res" where
  "load_genesis_data loads n home =
     (let p = home @ [''config'', ''genesis.json''] in
      if \<not> is_file_path n p then Inl (FileNotFoundError (as_posix p)) else rbind (read_text n p) loads)"

section \<open>Network configurations\<close>

text \<open>\<open>ce_expand\<close> is \<^verbatim>\<open>expanduser\<close>; relative paths start at the working directory.\<close>

record configs_env =
  ce_cwd :: path
  ce_expand :: "string \<Rightarrow> string"
  ce_environ :: "(string, string) dict"
  ce_repo_root :: path

definition resolve_candidate :: "configs_env \<Rightarrow> node \<Rightarrow> string \<Rightarrow> path option" where
  "resolve_candidate C n candidate = realpath n (join_path (ce_cwd C) (ce_expand C candidate))"

fun first_resolved :: "configs_env \<Rightarrow> node \<Rightarrow> string list \<Rightarrow> path option" where
  "first_resolved C n [] = None"
| "first_resolved C n (c # cs) = (case resolve_candidate C n c of Some p \<Rightarrow> Some p | None \<Rightarrow> first_resolved C n cs)"

definition absolute_text :: "path \<Rightarrow> string" where
  "absolute_text p = CHR ''/'' # as_posix p"

definition resolve_configs_dir :: "configs_env \<Rightarrow> node \<Rightarrow> string option \<Rightarrow> path res" where
  "resolve_configs_dir C n explicit =
     (case first_resolved C n
        ((case explicit of Some e \<Rightarrow> [e] | None \<Rightarrow> []) @
         (case map_of (ce_environ C) ''XIAN_CONFIGS_DIR'' of Some v \<Rightarrow> if v \<noteq> [] then [v] else [] | None \<Rightarrow> []) @
         [absolute_text (butlast (ce_repo_root C) @ [''xian-configs'']), ''/usr/src/app/xian-configs'']) of
        Some p \<Rightarrow> Inr p
      | None \<Rightarrow> Inl (FileNotFoundError ''unable to resolve xian-configs directory''))"

definition existing_path :: "node \<Rightarrow> path \<Rightarrow> string \<Rightarrow> path res" where
  "existing_path n p what = (if path_exists n p then Inr p else Inl (FileNotFoundError what))"

definition resolve_contracts_dir :: "configs_env \<Rightarrow> node \<Rightarrow> string option \<Rightarrow> path res" where
  "resolve_contracts_dir C n configs_dir =
     rbind (resolve_configs_dir C n configs_dir) (\<lambda>p. existing_path n (p @ [''contracts'']) ''contracts directory not found'')"

definition resolve_network_dir :: "configs_env \<Rightarrow> node \<Rightarrow> string \<Rightarrow> string option \<Rightarrow> path res" where
  "resolve_network_dir C n network_name configs_dir =
     rbind (resolve_configs_dir C n configs_dir) (\<lambda>p.
     existing_path n (join_path (p @ [''networks'']) network_name) ''network directory not found'')"

definition resolve_network_manifest_file :: "configs_env \<Rightarrow> node \<Rightarrow> string \<Rightarrow> string option \<Rightarrow> path res" where
  "resolve_network_manifest_file C n network_name configs_dir =
     rbind (resolve_network_dir C n network_name configs_dir) (\<lambda>p. existing_path n (p @ [''manifest.json'']) ''network manifest not found'')"

definition resolve_network_genesis_file :: "configs_env \<Rightarrow> node \<Rightarrow> string \<Rightarrow> string option \<Rightarrow> path res" where
  "resolve_network_genesis_file C n network_name configs_dir =
     rbind (resolve_network_dir C n network_name configs_dir) (\<lambda>p. existing_path n (p @ [''genesis.json'']) ''network genesis not found'')"

text \<open>The last part of a path has no suffix: no dot but leading ones.\<close>

definition no_suffix :: "path \<Rightarrow> bool" where
  "no_suffix p = (p = [] \<or> CHR ''.'' \<notin> set (dropWhile (\<lambda>c. c = CHR ''.'') (last p)))"

definition resolve_genesis_source :: "configs_env \<Rightarrow> node \<Rightarrow> string \<Rightarrow> string option \<Rightarrow> path res" where
  "resolve_genesis_source C n source configs_dir =
     rbind (resolve_configs_dir C n configs_dir) (\<lambda>configs_root.
     let parts = path_parts source;
         candidates = (if is_absolute source then [source]
                       else absolute_text (configs_root @ parts) #
                         (if no_suffix parts \<and> length parts \<le> 1
                          then [absolute_text (join_path (configs_root @ [''networks'']) source @ [''genesis.json''])] else []))
     in case first_resolved C n candidates of
          Some p \<Rightarrow> Inr p
        | None \<Rightarrow> Inl (FileNotFoundError ''unable to resolve genesis source''))"

section \<open>Addresses survive formatting\<close>

text \<open>A host without blanks, brackets and colons that is no IPv6 address, or an IPv6 address.\<close>

definition host_ok :: "url_ops \<Rightarrow> string \<Rightarrow> bool" where
  "host_ok U host \<longleftrightarrow>
     list_all (\<lambda>c. \<not> is_ascii_space c \<and> c \<noteq> CHR ''['' \<and> c \<noteq> CHR '']'') host \<and> (CHR '':'' \<notin> set host \<or> uo_is_ipv6 U host)"

definition port_ok :: "string \<Rightarrow> bool" where
  "port_ok p \<longleftrightarrow> p \<noteq> [] \<and> list_all (\<lambda>c. \<not> is_ascii_space c \<and> c \<noteq> CHR '':'') p"

lemma py_strip_none: "list_all (\<lambda>c. \<not> is_ascii_space c) s \<Longrightarrow> py_strip s = s"
proof -
  assume s: "list_all (\<lambda>c. \<not> is_ascii_space c) s"
  have drop: "dropWhile is_ascii_space t = t" if "list_all (\<lambda>c. \<not> is_ascii_space c) t" for t using that by (cases t) auto
  have "dropWhile is_ascii_space s = s" "dropWhile is_ascii_space (rev s) = rev s"
    using drop [of s] drop [of "rev s"] s by (simp_all add: list_all_rev)
  then show "py_strip s = s" by (simp add: py_strip_def)
qed

lemma rsplit_once_last: "c \<notin> set b \<Longrightarrow> rsplit_once c (a @ c # b) = (a, b)"
  by (simp add: rsplit_once_def takeWhile_append takeWhile_eq_all_conv Let_def)

text \<open>Formatting an address and taking it apart again gives the host and the port.\<close>

lemma host_port_roundtrip:
  assumes "host_ok U host" "host \<noteq> []" "port_ok p"
  shows "split_host_port U (format_url_netloc U host (Some p)) = (host, Some p)"
proof -
  have blank: "\<not> is_ascii_space (CHR '':'')" "\<not> is_ascii_space (CHR ''['')" "\<not> is_ascii_space (CHR '']'')" by code_simp+
  have h: "list_all (\<lambda>c. \<not> is_ascii_space c) host" "CHR ''['' \<notin> set host" "CHR '']'' \<notin> set host"
    using assms(1) by (auto simp: host_ok_def list_all_iff)
  have port: "list_all (\<lambda>c. \<not> is_ascii_space c) p" "CHR '':'' \<notin> set p" using assms(3) by (auto simp: port_ok_def list_all_iff)
  have hd: "hd host \<noteq> CHR ''[''" using h(2) assms(2) hd_in_set by metis
  then have plain_host: "strip_host_brackets (py_strip host) = host" "is_ipv6_literal U host = uo_is_ipv6 U host"
    by (simp_all add: py_strip_none [OF h(1)] strip_host_brackets_def is_ipv6_literal_def)
  show ?thesis
  proof (cases "uo_is_ipv6 U host")
    case True
    then have f: "format_url_netloc U host (Some p) = CHR ''['' # host @ CHR '']'' # CHR '':'' # p"
      by (simp add: format_url_netloc_def plain_host Let_def)
    have "py_strip (CHR ''['' # host @ CHR '']'' # CHR '':'' # p) = CHR ''['' # host @ CHR '']'' # CHR '':'' # p"
      using h(1) port(1) blank by (intro py_strip_none) simp
    moreover have "after_bracket (CHR ''['' # host @ CHR '']'' # CHR '':'' # p) = Some (host, Some p)"
      using h(3) by (simp add: after_bracket_def Let_def takeWhile_append dropWhile_append takeWhile_eq_all_conv)
    ultimately show ?thesis unfolding f split_host_port_def Let_def by simp
  next
    case False
    then have f: "format_url_netloc U host (Some p) = host @ CHR '':'' # p"
      by (simp add: format_url_netloc_def plain_host Let_def)
    have colon: "CHR '':'' \<notin> set host" using False assms(1) by (simp add: host_ok_def)
    have "py_strip (host @ CHR '':'' # p) = host @ CHR '':'' # p"
      using h(1) port(1) blank by (intro py_strip_none) simp
    moreover have "after_bracket (host @ CHR '':'' # p) = None"
      using hd assms(2) by (simp add: after_bracket_def)
    moreover have "length (filter (\<lambda>c. c = CHR '':'') (host @ CHR '':'' # p)) = 1"
      using colon port(2) by (auto simp: filter_empty_conv)
    ultimately show ?thesis
      unfolding f split_host_port_def Let_def by (simp add: rsplit_once_last [OF port(2)])
  qed
qed

end
