(* ===== verification/Node_Admin.thy ===== *)
theory Node_Admin
  imports Cometbft_Utils Snapshot_Restore Simulator_Ipc
begin

text \<open>
  Configuration of an existing home directory and the restore of a remote snapshot
  (\<^verbatim>\<open>src/src/xian/node_admin.py\<close>).  The network, the signature check and the tar format are parameters; the
  disk is the one of the restore, on which every operation may fail.
\<close>

record admin_env =
  am_fetch_json :: "string \<Rightarrow> pyval res"
  am_status :: "string \<Rightarrow> nat \<Rightarrow> pyval res"
  am_download :: "string \<Rightarrow> string res"
  am_url_path :: "string \<Rightarrow> string res"
  am_url :: url_ops
  am_is_valid_ed25519_key :: "string \<Rightarrow> bool"
  am_verify_message :: "string \<Rightarrow> string \<Rightarrow> string \<Rightarrow> bool"
  am_sha256 :: "string \<Rightarrow> string"
  am_is_tarfile :: "string \<Rightarrow> bool"
  am_members :: "string \<Rightarrow> tar_member list option"
  am_restore :: restore_env
  am_setup :: setup_env
  am_configs :: configs_env
  am_text :: text_env

record existing_home_options =
  eh_moniker :: string
  eh_validator_private_key_hex :: "string option"
  eh_home :: path
  eh_discover_seeds :: "string list"
  eh_p2p_seeds :: "string list"
  eh_p2p_persistent_peers :: "string list"
  eh_snapshot_url :: "string option"
  eh_snapshot_signing_public_keys :: "string list"
  eh_snapshot_expected_chain_id :: "string option"
  eh_genesis_source :: "string option"
  eh_genesis_payload :: "pyval option"
  eh_node_config :: "node_config_options option"

section \<open>The configuration that is kept\<close>

definition ROOT_CONFIG_KEYS_TO_PRESERVE :: "string list" where
  "ROOT_CONFIG_KEYS_TO_PRESERVE =
     [''db_backend'', ''db_dir'', ''genesis_file'', ''priv_validator_key_file'', ''priv_validator_state_file'', ''node_key_file'',
      ''abci'', ''log_level'', ''log_format'', ''version'']"

definition NESTED_CONFIG_KEYS_TO_PRESERVE :: "(string \<times> string) list" where
  "NESTED_CONFIG_KEYS_TO_PRESERVE = [(''rpc'', ''laddr''), (''p2p'', ''laddr'')]"

definition load_existing_cometbft_config :: "(string \<Rightarrow> pyval res) \<Rightarrow> node \<Rightarrow> path \<Rightarrow> pyval res" where
  "load_existing_cometbft_config load_toml n config_path =
     (if \<not> path_exists n config_path then Inl (FileNotFoundError ''initialize CometBFT first'')
      else rbind (read_text n config_path) load_toml)"

definition preserve_root :: "pyval \<Rightarrow> string \<Rightarrow> (string, pyval) dict \<Rightarrow> (string, pyval) dict res" where
  "preserve_root existing key rendered = rbind (dindex existing key) (\<lambda>v. Inr (AList.update key v rendered))"

definition preserve_nested :: "pyval \<Rightarrow> string \<times> string \<Rightarrow> (string, pyval) dict \<Rightarrow> (string, pyval) dict res" where
  "preserve_nested existing = (\<lambda>(part, key) rendered.
     rbind (dindex existing part) (\<lambda>old. rbind (dindex old key) (\<lambda>v. Inr (set_nested part [(key, v)] rendered))))"

definition preserve_runtime_config :: "(string, pyval) dict \<Rightarrow> pyval \<Rightarrow> (string, pyval) dict res" where
  "preserve_runtime_config rendered existing =
     rbind (foldR (preserve_root existing) ROOT_CONFIG_KEYS_TO_PRESERVE rendered)
       (foldR (preserve_nested existing) NESTED_CONFIG_KEYS_TO_PRESERVE)"

section \<open>Seeds\<close>

definition DEFAULT_DISCOVERY_RPC_PORT :: int where "DEFAULT_DISCOVERY_RPC_PORT = 26657"
definition DEFAULT_DISCOVERY_P2P_PORT :: int where "DEFAULT_DISCOVERY_P2P_PORT = 26656"

text \<open>Scheme, host and port of a seed.\<close>

definition seed_parts :: "url_ops \<Rightarrow> string \<Rightarrow> (string \<times> string \<times> string option) res" where
  "seed_parts U seed_node =
     (let seed = py_strip seed_node in
      if split_scheme seed \<noteq> None
      then rbind (normalize_rpc_url U seed) (\<lambda>url. rbind (uo_urlsplit U url) (\<lambda>parts. rbind (up_port parts) (\<lambda>port.
           Inr (if up_scheme parts \<noteq> [] then up_scheme parts else ''http'',
                case up_hostname parts of Some h \<Rightarrow> h | None \<Rightarrow> [], map_option str_int port))))
      else let (host, port) = split_host_port U seed in Inr (''http'', host, port))"

definition seed_host_port :: "url_ops \<Rightarrow> string \<Rightarrow> (string \<times> string option) res" where
  "seed_host_port U seed_node = rbind (seed_parts U seed_node) (\<lambda>(_, host, port). Inr (host, port))"

definition seed_rpc_status_url :: "url_ops \<Rightarrow> string \<Rightarrow> string res" where
  "seed_rpc_status_url U seed_node =
     rbind (seed_parts U seed_node) (\<lambda>(scheme, host, port).
     let p = (case port of Some t \<Rightarrow> if t \<noteq> [] then t else str_int DEFAULT_DISCOVERY_RPC_PORT
              | None \<Rightarrow> str_int DEFAULT_DISCOVERY_RPC_PORT)
     in Inr (urlunsplit scheme (format_url_netloc U host (Some p)) ''status'' [] []))"

definition p2p_seed_address :: "url_ops \<Rightarrow> string \<Rightarrow> string \<Rightarrow> string res" where
  "p2p_seed_address U node_id seed_node =
     rbind (seed_host_port U seed_node) (\<lambda>(host, _).
     Inr (node_id @ ''@'' @ format_url_netloc U host (Some (str_int DEFAULT_DISCOVERY_P2P_PORT))))"

definition normalize_p2p_seed :: "url_ops \<Rightarrow> string \<Rightarrow> string" where
  "normalize_p2p_seed U seed =
     (if CHR ''@'' \<notin> set seed then seed
      else let (node_id, address) = rsplit_once (CHR ''@'') seed; (host, port) = split_host_port U address in
        case port of
          None \<Rightarrow> seed
        | Some p \<Rightarrow> if host = [] then seed else node_id @ ''@'' @ format_url_netloc U host (Some p))"

text \<open>Failures of the network and answers that are no JSON are tried again.\<close>

definition is_retried :: "exc \<Rightarrow> bool" where
  "is_retried e = (case e of ValueError _ \<Rightarrow> True | OtherError t \<Rightarrow> t \<in> {''HTTPError'', ''URLError'', ''TimeoutError''} | _ \<Rightarrow> False)"

text \<open>\<open>am_status A url k\<close> is what the seed answers to the \<open>k\<close>-th request.\<close>

fun fetch_attempts :: "admin_env \<Rightarrow> string \<Rightarrow> nat \<Rightarrow> nat \<Rightarrow> pyval option res" where
  "fetch_attempts A seed_node k 0 = Inr None"
| "fetch_attempts A seed_node k (Suc left) =
     (case rbind (seed_rpc_status_url (am_url A) seed_node) (\<lambda>url. am_status A url k) of
        Inr v \<Rightarrow> Inr (Some v)
      | Inl e \<Rightarrow> if is_retried e then fetch_attempts A seed_node (Suc k) left else Inl e)"

definition fetch_seed_node_status :: "admin_env \<Rightarrow> string \<Rightarrow> pyval option res" where
  "fetch_seed_node_status A seed_node = fetch_attempts A seed_node 0 10"

definition discover_seed :: "admin_env \<Rightarrow> string \<Rightarrow> string res" where
  "discover_seed A seed =
     rbind (fetch_seed_node_status A seed) (\<lambda>status.
     case status of
       None \<Rightarrow> Inl (OtherError ''RuntimeError'')
     | Some v \<Rightarrow>
         rbind (dindex v ''result'') (\<lambda>result. rbind (dindex result ''node_info'') (\<lambda>info. rbind (dindex info ''id'') (\<lambda>node_id.
         p2p_seed_address (am_url A) (py_str (am_text A) node_id) seed))))"

definition resolve_p2p_seeds :: "admin_env \<Rightarrow> string list \<Rightarrow> string list \<Rightarrow> string list res" where
  "resolve_p2p_seeds A discover_seeds p2p_seeds =
     rbind (mapR (discover_seed A) discover_seeds) (\<lambda>found. Inr (map (normalize_p2p_seed (am_url A)) p2p_seeds @ found))"

section \<open>Signed snapshots\<close>

definition normalize_key :: "admin_env \<Rightarrow> string \<Rightarrow> string res" where
  "normalize_key A v =
     (if am_is_valid_ed25519_key A (py_strip v) then Inr (py_strip v) else Inl (ValueError ''invalid snapshot signing key''))"

definition normalize_snapshot_manifest_public_keys :: "admin_env \<Rightarrow> string list option \<Rightarrow> string list res" where
  "normalize_snapshot_manifest_public_keys A public_keys =
     (case public_keys of None \<Rightarrow> Inr [] | Some ks \<Rightarrow> mapR (normalize_key A) ks)"

record manifest =
  mf_chain_id :: string
  mf_height :: int
  mf_snapshot_url :: string
  mf_snapshot_sha256 :: string
  mf_signing_public_key :: string
  mf_signature :: string

text \<open>JSON without blanks and with sorted keys; the version of a verified manifest is 1.\<close>

definition canonical_snapshot_manifest_payload :: "manifest \<Rightarrow> string" where
  "canonical_snapshot_manifest_payload m =
     (let item = (\<lambda>k v. ascii_json_string k @ CHR '':'' # v) in
      ''{'' @ join_comma
        [item ''chain_id'' (ascii_json_string (mf_chain_id m)), item ''height'' (str_int (mf_height m)),
         item ''manifest_version'' (str_int 1), item ''signing_public_key'' (ascii_json_string (mf_signing_public_key m)),
         item ''snapshot_sha256'' (ascii_json_string (mf_snapshot_sha256 m)), item ''snapshot_url'' (ascii_json_string (mf_snapshot_url m))]
      @ ''}'')"

definition required_text :: "pyval \<Rightarrow> string \<Rightarrow> string \<Rightarrow> string res" where
  "required_text v k message = (case dget_or v k PNone of PStr s \<Rightarrow> if s \<noteq> [] then Inr s else Inl (ValueError message) | _ \<Rightarrow> Inl (ValueError message))"

definition verify_snapshot_manifest :: "admin_env \<Rightarrow> string list \<Rightarrow> string option \<Rightarrow> pyval \<Rightarrow> manifest res" where
  "verify_snapshot_manifest A trusted expected_chain_id v =
     (if \<not> is_dict v then Inl (ValueError ''snapshot manifest must be a JSON object'')
      else rbind (case dget_or v ''manifest_version'' PNone of PInt i \<Rightarrow> Inr i
             | _ \<Rightarrow> Inl (ValueError ''snapshot manifest_version must be an integer'')) (\<lambda>version.
      rbind (guard (version = 1) (ValueError ''unsupported snapshot manifest_version'')) (\<lambda>_.
      rbind (required_text v ''chain_id'' ''snapshot manifest chain_id must be a string'') (\<lambda>chain_id.
      rbind (guard (expected_chain_id = None \<or> expected_chain_id = Some chain_id)
               (ValueError ''snapshot manifest chain_id mismatch'')) (\<lambda>_.
      rbind (case dget_or v ''height'' PNone of PInt i \<Rightarrow> if 0 < i then Inr i else Inl (ValueError ''snapshot manifest height must be a positive integer'')
             | _ \<Rightarrow> Inl (ValueError ''snapshot manifest height must be a positive integer'')) (\<lambda>height.
      rbind (required_text v ''snapshot_url'' ''snapshot manifest snapshot_url must be a string'') (\<lambda>url.
      rbind (case dget_or v ''snapshot_sha256'' PNone of
               PStr s \<Rightarrow> if length (utf8_chars s) = 64 \<and> is_ok (fromhex s) then Inr (py_lower s)
                 else Inl (ValueError ''snapshot manifest snapshot_sha256 must be a 64-character hex string'')
             | _ \<Rightarrow> Inl (ValueError ''snapshot manifest snapshot_sha256 must be a 64-character hex string'')) (\<lambda>sha.
      rbind (case dget_or v ''signing_public_key'' PNone of
               PStr k \<Rightarrow> if am_is_valid_ed25519_key A k then Inr k
                 else Inl (ValueError ''snapshot manifest signing_public_key must be a valid Ed25519 hex key'')
             | _ \<Rightarrow> Inl (ValueError ''snapshot manifest signing_public_key must be a valid Ed25519 hex key'')) (\<lambda>key.
      rbind (guard (key \<in> set trusted) (ValueError ''snapshot manifest signer is not trusted'')) (\<lambda>_.
      rbind (required_text v ''signature'' ''snapshot manifest signature must be a hex string'') (\<lambda>signature.
      let m = \<lparr>mf_chain_id = chain_id, mf_height = height, mf_snapshot_url = url, mf_snapshot_sha256 = sha,
               mf_signing_public_key = key, mf_signature = signature\<rparr> in
      rbind (guard (am_verify_message A key (canonical_snapshot_manifest_payload m) signature)
               (ValueError ''snapshot manifest signature verification failed'')) (\<lambda>_.
      Inr m))))))))))))"

text \<open>Where the archive is and what its digest must be.\<close>

definition snapshot_source :: "admin_env \<Rightarrow> string \<Rightarrow> string option \<Rightarrow> string list \<Rightarrow> string option \<Rightarrow> (string \<times> string) res" where
  "snapshot_source A snapshot_url expected_sha256 trusted expected_chain_id =
     (case expected_sha256 of
        Some h \<Rightarrow> Inr (snapshot_url, h)
      | None \<Rightarrow>
          if trusted = [] then Inl (ValueError ''remote snapshot restore requires expected_sha256 or trusted snapshot signing keys'')
          else rbind (am_fetch_json A snapshot_url) (\<lambda>v. rbind (verify_snapshot_manifest A trusted expected_chain_id v) (\<lambda>m.
               Inr (mf_snapshot_url m, mf_snapshot_sha256 m))))"

definition archive_name :: "admin_env \<Rightarrow> string \<Rightarrow> string res" where
  "archive_name A url =
     rbind (am_url_path A url) (\<lambda>p. Inr (if path_parts p = [] then ''snapshot.tar.gz'' else last (path_parts p)))"

definition sha256_file :: "admin_env \<Rightarrow> string \<Rightarrow> string" where
  "sha256_file A content = hexlify (am_sha256 A content)"

text \<open>A temporary directory that is removed whatever the body does.\<close>

definition with_temporary_directory :: "faults \<Rightarrow> path \<Rightarrow> (disk, 'a) step \<Rightarrow> (disk, 'a) step" where
  "with_temporary_directory faults p body =
     sbind (fs_op faults (make_new_dir p)) (\<lambda>_.
     sbind (catch body (\<lambda>e. sbind (rmtree faults p) (\<lambda>_. slift (Inl e)))) (\<lambda>x.
     sbind (rmtree faults p) (\<lambda>_. sret x)))"

definition check_archive :: "admin_env \<Rightarrow> string \<Rightarrow> string \<Rightarrow> unit res" where
  "check_archive A digest content =
     rbind (guard (am_is_tarfile A content) (ValueError ''snapshot archive must be a .tar or .tar.gz file'')) (\<lambda>_.
     guard (py_lower (sha256_file A content) = py_lower digest) (ValueError ''snapshot archive sha256 mismatch''))"

record restore_call =
  rc_busy :: bool
  rc_suffix :: string
  rc_tmp :: string

definition download_and_restore ::
    "admin_env \<Rightarrow> faults \<Rightarrow> restore_call \<Rightarrow> path \<Rightarrow> string \<times> string \<Rightarrow> (disk, string) step" where
  "download_and_restore A faults C home = (\<lambda>(url, digest).
     sbind (slift (archive_name A url)) (\<lambda>name.
     sbind (slift (am_download A url)) (\<lambda>content.
     sbind (fs_op faults (write_file (home @ [rc_tmp C, name]) content)) (\<lambda>_.
     sbind (slift (check_archive A digest content)) (\<lambda>_.
     sbind (restore_application_archive (am_restore A) faults (rc_busy C) (rc_suffix C) (am_members A content) home) (\<lambda>_.
     sret name))))))"

definition apply_snapshot_archive ::
    "admin_env \<Rightarrow> faults \<Rightarrow> restore_call \<Rightarrow> string \<Rightarrow> path \<Rightarrow> string option \<Rightarrow> string list option \<Rightarrow> string option \<Rightarrow> (disk, string) step" where
  "apply_snapshot_archive A faults C snapshot_url home expected_sha256 trusted_keys expected_chain_id =
     sbind (fs_op faults (\<lambda>n. mkdirs n home)) (\<lambda>_.
     sbind (slift (rbind (normalize_snapshot_manifest_public_keys A trusted_keys) (\<lambda>trusted.
                   snapshot_source A snapshot_url expected_sha256 trusted expected_chain_id))) (\<lambda>source.
     with_temporary_directory faults (home @ [rc_tmp C]) (download_and_restore A faults C home source)))"

section \<open>Configuring an existing home\<close>

definition effective_options :: "existing_home_options \<Rightarrow> string list \<Rightarrow> node_config_options" where
  "effective_options req p2p_seeds =
     (case eh_node_config req of Some c \<Rightarrow> c | None \<Rightarrow> node_config (eh_moniker req))
       \<lparr>no_p2p_seeds := p2p_seeds, no_p2p_persistent_peers := eh_p2p_persistent_peers req\<rparr>"

definition text_item :: "(string, pyval) dict \<Rightarrow> string \<Rightarrow> string res" where
  "text_item config k = (case map_of config k of Some (PStr s) \<Rightarrow> Inr s | Some _ \<Rightarrow> Inl (TypeError ''path'') | None \<Rightarrow> Inl (KeyError k))"

text \<open>\<open>copy2\<close> of the resolved source into the resolved target.\<close>

definition copy_genesis :: "admin_env \<Rightarrow> faults \<Rightarrow> string \<Rightarrow> path \<Rightarrow> (disk, unit) step" where
  "copy_genesis A faults source target d =
     (case resolve_genesis_source (am_configs A) (dk_tree d) source None of
        Inl e \<Rightarrow> (Inl e, d)
      | Inr p \<Rightarrow> fs_op faults (\<lambda>n. case walk 40 n [] target of None \<Rightarrow> Inl os_error | Some q \<Rightarrow> copy_file p q n) d)"

definition install_genesis :: "admin_env \<Rightarrow> faults \<Rightarrow> existing_home_options \<Rightarrow> (string, pyval) dict \<Rightarrow> (disk, unit) step" where
  "install_genesis A faults req config =
     (if eh_genesis_payload req = None \<and> eh_genesis_source req = None then sret ()
      else sbind (slift (text_item config ''genesis_file'')) (\<lambda>f.
        let target = join_path (eh_home req) f in
        sbind (fs_op faults (\<lambda>n. mkdirs n (butlast target))) (\<lambda>_.
        case eh_genesis_payload req of
          Some payload \<Rightarrow> write_json (am_setup A) faults target payload True
        | None \<Rightarrow> (case eh_genesis_source req of Some s \<Rightarrow> copy_genesis A faults s target | None \<Rightarrow> sret ()))))"

definition install_key :: "admin_env \<Rightarrow> faults \<Rightarrow> existing_home_options \<Rightarrow> (string, pyval) dict \<Rightarrow> (disk, unit) step" where
  "install_key A faults req config =
     (case eh_validator_private_key_hex req of
        None \<Rightarrow> sret ()
      | Some h \<Rightarrow>
          sbind (slift (text_item config ''priv_validator_key_file'')) (\<lambda>f.
          sbind (slift (build_priv_validator_key (se_keys (am_setup A)) (Some h))) (\<lambda>key.
          write_json (am_setup A) faults (join_path (eh_home req) f) (toml (without_private_hex key)) True)))"

definition restore_step :: "admin_env \<Rightarrow> faults \<Rightarrow> restore_call \<Rightarrow> existing_home_options \<Rightarrow> (disk, string option) step" where
  "restore_step A faults C req =
     (case eh_snapshot_url req of
        None \<Rightarrow> sret None
      | Some url \<Rightarrow>
          if url = [] then sret None
          else sbind (apply_snapshot_archive A faults C url (eh_home req) None
                 (if eh_snapshot_signing_public_keys req = [] then None else Some (eh_snapshot_signing_public_keys req))
                 (eh_snapshot_expected_chain_id req)) (\<lambda>name. sret (Some name)))"

definition planned_configs ::
    "admin_env \<Rightarrow> (string \<Rightarrow> pyval res) \<Rightarrow> existing_home_options \<Rightarrow> node \<Rightarrow> ((string, pyval) dict \<times> (string, pyval) dict) res" where
  "planned_configs A load_toml req n =
     rbind (load_existing_cometbft_config load_toml n (eh_home req @ [''config'', ''config.toml''])) (\<lambda>existing.
     rbind (resolve_p2p_seeds A (eh_discover_seeds req) (eh_p2p_seeds req)) (\<lambda>seeds.
     rbind (render_node_configs (se_floats (am_setup A)) (effective_options req seeds)) (\<lambda>(rendered, xian_config).
     rbind (preserve_runtime_config rendered existing) (\<lambda>config. Inr (config, xian_config)))))"

definition configure_existing_home ::
    "admin_env \<Rightarrow> (string \<Rightarrow> pyval res) \<Rightarrow> faults \<Rightarrow> restore_call \<Rightarrow> existing_home_options \<Rightarrow> (disk, string option) step" where
  "configure_existing_home A load_toml faults C req =
     sbind (\<lambda>d. (planned_configs A load_toml req (dk_tree d), d)) (\<lambda>(config, xian_config).
     sbind (restore_step A faults C req) (\<lambda>archive.
     sbind (install_genesis A faults req config) (\<lambda>_.
     sbind (install_key A faults req config) (\<lambda>_.
     sbind (write_toml (am_setup A) faults (eh_home req @ [''config'', ''config.toml'']) (toml config) True) (\<lambda>_.
     sbind (write_toml (am_setup A) faults (eh_home req @ [''config'', ''xian.toml'']) (toml xian_config) True) (\<lambda>_.
     sret archive))))))"

end
