(* ===== verification/Admin_Safety.thy ===== *)
theory Admin_Safety
  imports Node_Admin Setup_Safety Restore_Safety
begin

text \<open>
  A remote snapshot reaches a node's data only with a digest that the operator gave or that a trusted
  key signed; until it has been checked, no file of the node changes.  Configuring a node keeps its
  runtime settings.
\<close>

section \<open>Until the archive is checked\<close>

text \<open>Outside the temporary directory files and links are the old ones; inside there is no link.\<close>

definition files_outside :: "node \<Rightarrow> path \<Rightarrow> disk \<Rightarrow> bool" where
  "files_outside n0 tmp d \<longleftrightarrow> (\<forall>q. \<not> prefix tmp q \<longrightarrow> file_at (dk_tree d) q = file_at n0 q)"

definition work_outside :: "node \<Rightarrow> path \<Rightarrow> disk \<Rightarrow> bool" where
  "work_outside n0 tmp d \<longleftrightarrow> files_outside n0 tmp d \<and>
     (\<forall>q. \<not> prefix tmp q \<longrightarrow> link_at (dk_tree d) q = link_at n0 q) \<and> (\<forall>q. prefix tmp q \<longrightarrow> \<not> link_at (dk_tree d) q)"

lemma outside_mkdirs: "maintains (work_outside n0 tmp) (fs_op faults (\<lambda>n. mkdirs n p))"
proof -
  have "work_outside n0 tmp d'" if k: "work_outside n0 tmp d" and run: "fs_op faults (\<lambda>n. mkdirs n p) d = (r, d')" for d r d'
    using run
  proof (cases rule: fs_op_cases)
    case passed
    then show ?thesis using k mkdirs_result(1,2) [OF passed(2)] by (simp add: work_outside_def files_outside_def)
  qed (use k in \<open>simp add: work_outside_def files_outside_def\<close>)
  then show ?thesis unfolding maintains_def by (metis prod.collapse)
qed

lemma outside_make_new_dir: "maintains (work_outside n0 tmp) (fs_op faults (make_new_dir p))"
proof -
  have "work_outside n0 tmp d'" if k: "work_outside n0 tmp d" and run: "fs_op faults (make_new_dir p) d = (r, d')" for d r d'
    using run
  proof (cases rule: fs_op_cases)
    case passed
    then have "mkdirs (dk_tree d) p = Inr (dk_tree d')" by (simp add: make_new_dir_def split: if_splits)
    then show ?thesis using k mkdirs_result(1,2) by (simp add: work_outside_def files_outside_def)
  qed (use k in \<open>simp add: work_outside_def files_outside_def\<close>)
  then show ?thesis unfolding maintains_def by (metis prod.collapse)
qed

lemma walk_beyond:
  "plain n (current @ p) \<Longrightarrow> lookup n (current @ p) \<noteq> None \<Longrightarrow> walk budget n current (p @ q) = walk budget n (current @ p) q"
proof (induction p arbitrary: current)
  case (Cons x p)
  have "plain n ((current @ [x]) @ p)" "lookup n ((current @ [x]) @ p) \<noteq> None" using Cons.prems by simp_all
  then have "walk budget n (current @ [x]) (p @ q) = walk budget n (current @ x # p) q" using Cons.IH [of "current @ [x]"] by simp
  moreover have "plain n (current @ [x])" using Cons.prems plain_prefix [of n "current @ [x]" p] by simp
  moreover obtain m where "lookup n (current @ [x]) = Some m"
    using Cons.prems(2) lookup_append [of n "current @ [x]" p] by (auto split: option.splits)
  ultimately show ?case by (cases m) (auto simp: plain_snoc link_at_def)
qed simp

lemma walk_missing:
  "plain n (current @ p) \<Longrightarrow> lookup n (current @ p) = None \<Longrightarrow> lookup n current \<noteq> None \<Longrightarrow> q \<noteq> [] \<Longrightarrow>
   walk budget n current (p @ q) = None"
proof (induction p arbitrary: current)
  case (Cons x p)
  have pl: "plain n ((current @ [x]) @ p)" and none: "lookup n ((current @ [x]) @ p) = None" using Cons.prems by simp_all
  have x: "x \<noteq> ''..''" "\<not> link_at n (current @ [x])" using plain_prefix [OF pl] by (simp_all add: plain_snoc)
  show ?case
  proof (cases "lookup n (current @ [x])")
    case (Some m)
    have "walk budget n (current @ [x]) (p @ q) = None" using Cons.IH [OF pl none] Some Cons.prems(4) by simp
    then show ?thesis using Some x by (cases m) (auto simp: link_at_def)
  qed (use x Cons.prems(4) in simp)
qed simp

lemma write_inside_target:
  assumes plain_tmp: "plain n (home @ [t])" and links: "\<And>q. prefix (home @ [t]) q \<Longrightarrow> \<not> link_at n q"
    and run: "write_file (home @ [t, name]) content n = Inr n'"
  shows "n' = put n (home @ [t, name]) (File content) \<and> dir_at n (home @ [t]) \<and> \<not> dir_at n (home @ [t, name])"
proof -
  obtain q where q: "walk 40 n [] (home @ [t, name]) = Some q" "q \<noteq> []" "dir_at n (butlast q)" "\<not> dir_at n q"
    "n' = put n q (File content)"
    using run by (auto simp: write_file_def split: option.splits if_splits)
  show ?thesis
  proof (cases "name = ''..''")
    case True
    show ?thesis
    proof (cases "lookup n (home @ [t])")
      case None
      then have "walk 40 n [] ((home @ [t]) @ [''..'']) = None" using walk_missing [of n "[]" "home @ [t]" "[''..'']" 40] plain_tmp by simp
      then show ?thesis using q(1) True by simp
    next
      case (Some x)
      then have "walk 40 n [] ((home @ [t]) @ [''..'']) = walk 40 n (home @ [t]) [''..'']"
        using walk_beyond [of n "[]" "home @ [t]" 40 "[''..'']"] plain_tmp by simp
      then have "q = home" using q(1) True by simp
      moreover have "dir_at n home" using Some dir_above [of n home "[t]" x] by simp
      ultimately show ?thesis using q(4) by simp
    qed
  next
    case False
    have "plain n ((home @ [t]) @ [name])"
      using plain_tmp False links [of "home @ [t, name]"] plain_snoc [of n "home @ [t]" name] by simp
    then have "q = home @ [t, name]" using walk_plain_target [of n "[]" "home @ [t, name]"] q(1) by simp
    then show ?thesis using q by (simp add: butlast_append)
  qed
qed

lemma outside_write:
  assumes "plain n0 home" "t \<noteq> ''..''"
  shows "maintains (work_outside n0 (home @ [t])) (fs_op faults (write_file (home @ [t, name]) content))"
proof -
  have "work_outside n0 (home @ [t]) d'"
    if k: "work_outside n0 (home @ [t]) d" and run: "fs_op faults (write_file (home @ [t, name]) content) d = (r, d')" for d r d'
    using run
  proof (cases rule: fs_op_cases)
    case passed
    have "\<not> link_at (dk_tree d) q" if "prefix q home" for q
    proof -
      have "\<not> prefix (home @ [t]) q" using prefix_length_le [OF that] prefix_length_le [of "home @ [t]" q] by auto
      then show ?thesis using k assms(1) that by (simp add: work_outside_def plain_def)
    qed
    then have pl: "plain (dk_tree d) (home @ [t])"
      using assms k unfolding plain_snoc by (simp add: plain_def work_outside_def)
    have w: "dk_tree d' = put (dk_tree d) (home @ [t, name]) (File content)" "dir_at (dk_tree d) (home @ [t])"
      "\<not> dir_at (dk_tree d) (home @ [t, name])"
      using write_inside_target [OF pl _ passed(2)] k by (simp_all add: work_outside_def)
    then have "dir_at (dk_tree d) (butlast (home @ [t, name]))" by (simp add: butlast_append)
    note p = put_file [OF this _ w(3), of content, folded w(1)]
    show ?thesis using k p by (auto simp: work_outside_def files_outside_def)
  qed (use k in \<open>simp add: work_outside_def files_outside_def\<close>)
  then show ?thesis unfolding maintains_def by (metis prod.collapse)
qed

lemma outside_rmtree: "maintains (files_outside n0 tmp) (rmtree faults tmp)"
proof -
  have "files_outside n0 tmp d'" if k: "files_outside n0 tmp d" and run: "rmtree faults tmp d = (r, d')" for d r d'
  proof -
    have same: "file_at n' q = file_at (dk_tree d) q"
      if n': "n' = put (dk_tree d) tmp y \<or> n' = remove (dk_tree d) tmp" and ex: "lookup (dk_tree d) tmp = Some x" and q: "\<not> prefix tmp q" for n' y x q
    proof (cases "prefix q tmp")
      case True
      then obtain u where u: "tmp = q @ u" "u \<noteq> []" using q by (metis append_Nil2 prefixE prefix_order.refl)
      have d: "dir_at (dk_tree d) q" using dir_above [of "dk_tree d" q u x] ex u by simp
      moreover have "strict_prefix q tmp" using True q by (metis prefix_order.refl strict_prefixI)
      ultimately have "dir_at n' q" using n' dir_put_above dir_remove_above by blast
      with d show ?thesis by (auto simp: dir_at_iff file_at_def)
    next
      case False
      then show ?thesis using n' q by (auto simp: file_at_def lookup_put_apart lookup_remove_apart)
    qed
    consider "dk_tree d' = dk_tree d" | x y where "lookup (dk_tree d) tmp = Some x"
        "dk_tree d' = put (dk_tree d) tmp y \<or> dk_tree d' = remove (dk_tree d) tmp"
      using run by (auto simp: rmtree_def Let_def split: option.splits) blast
    then show ?thesis
    proof cases
      case (2 x y)
      then show ?thesis using k same [OF 2(2,1)] by (simp add: files_outside_def)
    qed (use k in \<open>simp add: files_outside_def\<close>)
  qed
  then show ?thesis unfolding maintains_def by (metis prod.collapse)
qed

section \<open>What may be restored\<close>

text \<open>The digest is the operator's, or a trusted key signed it together with the address and the chain.\<close>

definition trusted_digest :: "admin_env \<Rightarrow> string \<Rightarrow> string option \<Rightarrow> string list option \<Rightarrow> string option \<Rightarrow> string \<Rightarrow> string \<Rightarrow> bool" where
  "trusted_digest A url expected_sha256 trusted_keys expected_chain_id archive_url digest \<longleftrightarrow>
     (case expected_sha256 of
        Some h \<Rightarrow> digest = h \<and> archive_url = url
      | None \<Rightarrow>
          \<exists>m. mf_snapshot_url m = archive_url \<and> mf_snapshot_sha256 m = digest \<and>
            expected_chain_id \<in> {None, Some (mf_chain_id m)} \<and> 0 < mf_height m \<and>
            (\<exists>ks. trusted_keys = Some ks \<and> mf_signing_public_key m \<in> py_strip ` set ks) \<and>
            am_verify_message A (mf_signing_public_key m) (canonical_snapshot_manifest_payload m) (mf_signature m))"

definition trusted_archive :: "admin_env \<Rightarrow> string \<Rightarrow> string option \<Rightarrow> string list option \<Rightarrow> string option \<Rightarrow> string \<Rightarrow> bool" where
  "trusted_archive A url expected_sha256 trusted_keys expected_chain_id content \<longleftrightarrow>
     (\<exists>archive_url digest. trusted_digest A url expected_sha256 trusted_keys expected_chain_id archive_url digest \<and>
        am_download A archive_url = Inr content \<and> am_is_tarfile A content \<and>
        py_lower (hexlify (am_sha256 A content)) = py_lower digest)"

lemma verified_manifest:
  assumes "verify_snapshot_manifest A trusted chain v = Inr m"
  shows "chain \<in> {None, Some (mf_chain_id m)} \<and> 0 < mf_height m \<and> mf_signing_public_key m \<in> set trusted \<and>
    am_verify_message A (mf_signing_public_key m) (canonical_snapshot_manifest_payload m) (mf_signature m)"
  using assms unfolding verify_snapshot_manifest_def Let_def
  by (auto simp: guard_def elim!: rbind_InrE split: if_splits pyval.splits)

lemma normalized_keys:
  assumes "normalize_snapshot_manifest_public_keys A ks = Inr trusted"
  shows "set trusted = (case ks of None \<Rightarrow> {} | Some l \<Rightarrow> py_strip ` set l)"
proof (cases ks)
  case (Some l)
  have "list_all2 (\<lambda>k t. normalize_key A k = Inr t) l trusted"
    using assms Some by (simp add: normalize_snapshot_manifest_public_keys_def mapR_Inr_iff)
  then have "list_all2 (\<lambda>k t. t = py_strip k) l trusted"
    by (rule list_all2_mono) (simp add: normalize_key_def split: if_splits)
  then have "trusted = map py_strip l" by (induction rule: list_all2_induct) simp_all
  then show ?thesis by (simp add: Some)
qed (use assms in \<open>simp add: normalize_snapshot_manifest_public_keys_def\<close>)

lemma source_trusted:
  assumes "normalize_snapshot_manifest_public_keys A ks = Inr trusted" "snapshot_source A url sha trusted chain = Inr (archive_url, digest)"
  shows "trusted_digest A url sha ks chain archive_url digest"
proof (cases sha)
  case None
  obtain v m where m: "verify_snapshot_manifest A trusted chain v = Inr m" "archive_url = mf_snapshot_url m" "digest = mf_snapshot_sha256 m"
    using assms(2) None by (auto simp: snapshot_source_def elim!: rbind_InrE split: if_splits)
  have "\<exists>l. ks = Some l \<and> mf_signing_public_key m \<in> py_strip ` set l"
    using verified_manifest [OF m(1)] normalized_keys [OF assms(1)] by (auto split: option.splits)
  then show ?thesis using verified_manifest [OF m(1)] m(2,3) None unfolding trusted_digest_def by auto
qed (use assms(2) in \<open>simp add: snapshot_source_def trusted_digest_def\<close>)

lemma checked_archive:
  "check_archive A digest content = Inr () \<longleftrightarrow> am_is_tarfile A content \<and> py_lower (hexlify (am_sha256 A content)) = py_lower digest"
  by (auto simp: check_archive_def sha256_file_def guard_def rbind_def)

text \<open>Without an archive that passes the check the body ends before the restore.\<close>

lemma unchecked_body:
  assumes "\<And>content. am_download A url = Inr content \<Longrightarrow> check_archive A digest content \<noteq> Inr ()"
    and "plain n0 home" "rc_tmp C \<noteq> ''..''"
  shows "maintains (work_outside n0 (home @ [rc_tmp C])) (download_and_restore A faults C home (url, digest))"
    and "\<exists>e. fst (download_and_restore A faults C home (url, digest) d) = Inl e"
proof -
  have check: "maintains P (sbind (slift (check_archive A digest content)) f)" if "am_download A url = Inr content" for P content f
    by (rule maintains_sbind_slift) (use assms(1) [OF that] in auto)
  show "maintains (work_outside n0 (home @ [rc_tmp C])) (download_and_restore A faults C home (url, digest))"
    unfolding download_and_restore_def prod.case
    by (rule maintains_sbind_slift, rule maintains_sbind_slift, rule maintains_sbind, rule outside_write [OF assms(2,3)],
        rule check, assumption)
  show "\<exists>e. fst (download_and_restore A faults C home (url, digest) d) = Inl e"
  proof (cases "fst (download_and_restore A faults C home (url, digest) d)")
    case (Inr name)
    then obtain d' where "download_and_restore A faults C home (url, digest) d = (Inr name, d')" by (metis prod.collapse)
    then obtain content d1 where "am_download A url = Inr content" "check_archive A digest content = Inr ()"
      unfolding download_and_restore_def prod.case by (auto simp: slift_def elim!: sbind_Inr)
    then show ?thesis using assms(1) by blast
  qed simp
qed

text \<open>The whole run when no archive is to be trusted.\<close>

lemma untrusted_run:
  assumes untrusted: "\<nexists>content. trusted_archive A url sha ks chain content"
    and home: "plain (dk_tree d) home" "rc_tmp C \<noteq> ''..''" "lookup (dk_tree d) (home @ [rc_tmp C]) = None"
    and run: "apply_snapshot_archive A faults C url home sha ks chain d = (r, d')"
  shows "(\<exists>e. r = Inl e) \<and> files_outside (dk_tree d) (home @ [rc_tmp C]) d'"
proof -
  let ?n = "dk_tree d" and ?t = "home @ [rc_tmp C]"
  have start: "work_outside ?n ?t d"
  proof -
    have "\<not> link_at ?n q" if below: "prefix ?t q" for q
    proof -
      obtain u where u: "q = ?t @ u" using below by (rule prefixE)
      have "lookup ?n q = None" using lookup_append [of ?n ?t u] home(3) unfolding u by simp
      then show ?thesis by (simp add: link_at_def)
    qed
    then show ?thesis by (simp add: work_outside_def files_outside_def)
  qed
  define source where "source = rbind (normalize_snapshot_manifest_public_keys A ks) (\<lambda>trusted. snapshot_source A url sha trusted chain)"
  have body: "maintains (work_outside ?n ?t) (download_and_restore A faults C home s)"
    "\<exists>e. fst (download_and_restore A faults C home s x) = Inl e" if "source = Inr s" for s x
  proof -
    obtain archive_url digest where s: "s = (archive_url, digest)" by (cases s)
    have t: "trusted_digest A url sha ks chain archive_url digest"
      using that unfolding source_def s by (auto elim!: rbind_InrE intro: source_trusted)
    have no: "check_archive A digest content \<noteq> Inr ()" if "am_download A archive_url = Inr content" for content
      using untrusted t that unfolding trusted_archive_def checked_archive by blast
    show "maintains (work_outside ?n ?t) (download_and_restore A faults C home s)"
      unfolding s by (rule unchecked_body(1) [OF no home(1,2)])
    show "\<exists>e. fst (download_and_restore A faults C home s x) = Inl e"
      unfolding s by (rule unchecked_body(2) [OF no home(1,2)])
  qed
  obtain r1 d1 where m: "fs_op faults (\<lambda>n. mkdirs n home) d = (r1, d1)" by fastforce
  have w1: "work_outside ?n ?t d1" using maintainsD [OF outside_mkdirs start m] .
  show ?thesis
  proof (cases "r1 = Inr () \<and> is_ok source")
    case False
    then have "d' = d1 \<and> (\<exists>e. r = Inl e)"
      using run m by (cases r1; cases source) (auto simp: apply_snapshot_archive_def sbind_def slift_def source_def [symmetric] is_ok_def)
    then show ?thesis using w1 by (simp add: work_outside_def)
  next
    case True
    then obtain s where s: "source = Inr s" by (cases source) (auto simp: is_ok_def)
    have run1: "with_temporary_directory faults ?t (download_and_restore A faults C home s) d1 = (r, d')"
      using run m True s by (simp add: apply_snapshot_archive_def sbind_def slift_def source_def [symmetric])
    obtain r2 d2 where k: "fs_op faults (make_new_dir ?t) d1 = (r2, d2)" by fastforce
    have w2: "work_outside ?n ?t d2" using maintainsD [OF outside_make_new_dir w1 k] .
    obtain e d3 where b: "download_and_restore A faults C home s d2 = (Inl e, d3)"
      using body(2) [OF s, of d2] by (metis prod.collapse)
    have w3: "files_outside ?n ?t d3" using maintainsD [OF body(1) [OF s] w2 b] by (simp add: work_outside_def)
    obtain r4 d4 where c: "rmtree faults ?t d3 = (r4, d4)" by fastforce
    have "files_outside ?n ?t d4" using maintainsD [OF outside_rmtree w3 c] .
    then show ?thesis
      using run1 w2 unfolding with_temporary_directory_def
      by (cases r2; cases r4) (auto simp: sbind_def catch_def slift_def k b c work_outside_def)
  qed
qed

text \<open>The runs that restore.\<close>

lemma accepted_run:
  assumes run: "apply_snapshot_archive A faults C url home sha ks chain d = (Inr name, d')"
  obtains content d1 d2 d3 where "trusted_archive A url sha ks chain content"
    "restore_application_archive (am_restore A) faults (rc_busy C) (rc_suffix C) (am_members A content) home d1 = (Inr (), d2)"
    "rmtree faults (home @ [rc_tmp C]) d2 = (Inr (), d')"
proof -
  obtain trusted archive_url digest da db where
    keys: "normalize_snapshot_manifest_public_keys A ks = Inr trusted" and
    source: "snapshot_source A url sha trusted chain = Inr (archive_url, digest)" and
    run1: "with_temporary_directory faults (home @ [rc_tmp C]) (download_and_restore A faults C home (archive_url, digest)) da = (Inr name, d')"
    using run unfolding apply_snapshot_archive_def
    by (auto simp: slift_def elim!: sbind_Inr rbind_InrE)
  obtain dc d2 where body: "download_and_restore A faults C home (archive_url, digest) dc = (Inr name, d2)"
    and rm: "rmtree faults (home @ [rc_tmp C]) d2 = (Inr (), d')"
    using run1 unfolding with_temporary_directory_def
    by (auto simp: catch_def sret_def slift_def elim!: sbind_Inr split: prod.splits sum.splits)
  obtain content d1 where "am_download A archive_url = Inr content" "check_archive A digest content = Inr ()"
    "restore_application_archive (am_restore A) faults (rc_busy C) (rc_suffix C) (am_members A content) home d1 = (Inr (), d2)"
    using body unfolding download_and_restore_def prod.case
    by (auto simp: slift_def sret_def elim!: sbind_Inr)
  then show thesis
    using that [of content d1 d2] rm source_trusted [OF keys source] unfolding trusted_archive_def checked_archive by blast
qed

text \<open>C40: A remote snapshot is restored only if it is to be trusted: its digest is the one the operator gave, or
  a trusted key signed it together with the address, the height and the chain.  A run that returns
  has restored the members of such an archive and nothing else; when nothing that can be downloaded
  is to be trusted, the run raises and every file outside its own temporary directory is the old one,
  whatever operations fail.\<close>

theorem snapshot_needs_trust:
  assumes "plain (dk_tree d) home" and "rc_tmp C \<noteq> ''..''" and "lookup (dk_tree d) (home @ [rc_tmp C]) = None"
    and "apply_snapshot_archive A faults C url home sha ks chain d = (r, d')"
  shows "case r of
      Inr name \<Rightarrow> \<exists>content d1 d2. trusted_archive A url sha ks chain content \<and>
        restore_application_archive (am_restore A) faults (rc_busy C) (rc_suffix C) (am_members A content) home d1 = (Inr (), d2) \<and>
        (\<forall>q. \<not> prefix (home @ [rc_tmp C]) q \<longrightarrow> file_at (dk_tree d') q = file_at (dk_tree d2) q)
    | Inl e \<Rightarrow> (\<exists>content. trusted_archive A url sha ks chain content) \<or>
        (\<forall>q. \<not> prefix (home @ [rc_tmp C]) q \<longrightarrow> file_at (dk_tree d') q = file_at (dk_tree d) q)"
proof (cases r)
  case (Inl e)
  then show ?thesis using untrusted_run [OF _ assms] by (auto simp: files_outside_def)
next
  case (Inr name)
  obtain content d1 d2 where c: "trusted_archive A url sha ks chain content"
    "restore_application_archive (am_restore A) faults (rc_busy C) (rc_suffix C) (am_members A content) home d1 = (Inr (), d2)"
    "rmtree faults (home @ [rc_tmp C]) d2 = (Inr (), d')"
    by (rule accepted_run [OF assms(4) [unfolded Inr]])
  have "files_outside (dk_tree d2) (home @ [rc_tmp C]) d'"
    by (rule maintainsD [OF outside_rmtree _ c(3)]) (simp add: files_outside_def)
  with c(1,2) show ?thesis unfolding Inr files_outside_def by auto
qed

section \<open>Settings that are kept\<close>

lemma preserve_root_map:
  assumes "foldR (preserve_root existing) ks rendered = Inr config"
  shows "map_of config k = (if k \<in> set ks then dget existing k else map_of rendered k)"
  using assms
proof (induction ks arbitrary: rendered)
  case (Cons x ks)
  obtain v where v: "dindex existing x = Inr v" "foldR (preserve_root existing) ks (AList.update x v rendered) = Inr config"
    using Cons.prems by (auto simp: preserve_root_def [of existing x] elim!: rbind_InrE)
  have "dget existing x = Some v" using v(1) by (auto simp: dindex_def split: if_splits option.splits)
  then show ?case using Cons.IH [OF v(2)] by (auto simp: map_of_AList_update)
qed simp

lemma set_nested_root: "k \<noteq> part \<Longrightarrow> map_of (set_nested part changes config) k = map_of config k"
  by (auto simp: set_nested_def map_of_AList_update split: option.split pyval.split)

text \<open>Configuring a node that runs keeps where its data, its keys and its state are and how it listens.\<close>

lemma preserved_settings:
  assumes "preserve_runtime_config rendered existing = Inr config" "k \<in> set ROOT_CONFIG_KEYS_TO_PRESERVE"
  shows "map_of config k = dget existing k" "dget existing k \<noteq> None"
proof -
  obtain c1 where c1: "foldR (preserve_root existing) ROOT_CONFIG_KEYS_TO_PRESERVE rendered = Inr c1"
    "foldR (preserve_nested existing) NESTED_CONFIG_KEYS_TO_PRESERVE c1 = Inr config"
    using assms(1) unfolding preserve_runtime_config_def by (auto elim!: rbind_InrE)
  have k: "k \<noteq> ''rpc''" "k \<noteq> ''p2p''" using assms(2) by (auto simp: ROOT_CONFIG_KEYS_TO_PRESERVE_def)
  have "map_of config k = map_of c1 k"
    using c1(2) k unfolding NESTED_CONFIG_KEYS_TO_PRESERVE_def
    by (auto simp: preserve_nested_def set_nested_root elim!: rbind_InrE)
  then show "map_of config k = dget existing k" using preserve_root_map [OF c1(1)] assms(2) by simp
  have "dget existing k \<noteq> None" if "foldR (preserve_root existing) ks x = Inr y" "k \<in> set ks" for ks x y
    using that by (induction ks arbitrary: x) (auto simp: preserve_root_def dindex_def elim!: rbind_InrE split: if_splits option.splits)
  then show "dget existing k \<noteq> None" using c1(1) assms(2) by blast
qed

section \<open>Examples\<close>

text \<open>An operator's digest that is not the one of the archive.\<close>

definition sample_admin :: admin_env where
  "sample_admin =
     \<lparr>am_fetch_json = (\<lambda>_. Inl (ValueError ''json'')), am_status = (\<lambda>_ _. Inl (ValueError ''json'')), am_download = (\<lambda>_. Inr ''evil''),
      am_url_path = Inr, am_url = \<lparr>uo_is_ipv6 = (\<lambda>_. False), uo_isdigit = (\<lambda>_. False), uo_urlsplit = (\<lambda>_. Inl (ValueError ''url''))\<rparr>,
      am_is_valid_ed25519_key = (\<lambda>_. True), am_verify_message = (\<lambda>_ _ _. False), am_sha256 = (\<lambda>s. s), am_is_tarfile = (\<lambda>_. True),
      am_members = (\<lambda>_. Some sample_members), am_restore = sample_restore_env, am_setup = sample_setup_env,
      am_configs = \<lparr>ce_cwd = [], ce_expand = (\<lambda>s. s), ce_environ = [], ce_repo_root = []\<rparr>, am_text = sample_text_env\<rparr>"

definition sample_restore_call :: restore_call where
  "sample_restore_call = \<lparr>rc_busy = False, rc_suffix = ''1'', rc_tmp = ''tmp1''\<rparr>"

definition sample_apply :: "string res \<times> disk" where
  "sample_apply =
     apply_snapshot_archive sample_admin (\<lambda>_. None) sample_restore_call ''/s.tar'' [''home''] (Some ''00'') None None sample_home"

lemma sample_apply_facts:
  "fst sample_apply = Inl (ValueError ''snapshot archive sha256 mismatch'')"
  "plain (dk_tree sample_home) [''home'']" "lookup (dk_tree sample_home) ([''home''] @ [rc_tmp sample_restore_call]) = None"
  "rc_tmp sample_restore_call \<noteq> ''..''"
  unfolding plain_by_prefixes by code_simp+

lemma sample_untrusted: "\<not> trusted_archive sample_admin ''/s.tar'' (Some ''00'') None None content"
proof -
  have "py_lower (hexlify ''evil'') \<noteq> py_lower ''00''" by code_simp
  then show ?thesis by (auto simp: trusted_archive_def trusted_digest_def sample_admin_def)
qed

theorem snapshot_needs_trust_witness:
  "file_at (dk_tree (snd sample_apply)) [''home'', ''data'', ''key.json''] = Some ''secret''"
proof -
  have run: "apply_snapshot_archive sample_admin (\<lambda>_. None) sample_restore_call ''/s.tar'' [''home''] (Some ''00'') None None sample_home =
    (Inl (ValueError ''snapshot archive sha256 mismatch''), snd sample_apply)"
    using sample_apply_facts(1) unfolding sample_apply_def by (metis prod.collapse)
  have "\<not> prefix ([''home''] @ [rc_tmp sample_restore_call]) [''home'', ''data'', ''key.json'']"
    by (simp add: sample_restore_call_def)
  then have "file_at (dk_tree (snd sample_apply)) [''home'', ''data'', ''key.json''] = file_at (dk_tree sample_home) [''home'', ''data'', ''key.json'']"
    using snapshot_needs_trust [OF sample_apply_facts(2,4,3) run, unfolded sum.case] sample_untrusted by blast
  then show ?thesis by (simp add: sample_home_def file_at_def)
qed

end
