(* ===== verification/Spec2Isabelle.thy ===== *)
theory Spec2Isabelle
  imports Abci_Wire Node_Protocol State_Sync Query Bds_Reindex Bds_Config Restore_Safety Genesis_Chain Bds_Import Setup_Safety
    Parallel_Executor Shielded_Preverify Toml_Utils Admin_Safety
begin

text \<open>
  A model of the Xian ABCI application (\<^verbatim>\<open>src/src/abci\<close>, \<^verbatim>\<open>src/src/xian\<close>), the state machine
  that CometBFT replicates, with the theorems that make it correct.

  \<^bold>\<open>The program.\<close>  CometBFT sends length-prefixed requests to the ABCI server.  CheckTx admits
  transactions to the local mempool and reserves their nonces.  A proposer packs them with
  PrepareProposal, the others vote with ProcessProposal.  FinalizeBlock decodes a decided block,
  executes its transactions in the native machine, applies fees, rewards, governed state patches
  and penalties for evidence, computes the validator updates and the state root, and stages all
  of that.  Commit writes the staged block to the disk in one database transaction, together
  with the marker of the latest block; Info reports that marker after a restart.  Queries and
  simulations read the committed state.  A stopped node exports and imports its state as a
  document or as snapshot chunks that CometBFT's state sync transfers.

  \<^bold>\<open>Theories, in order of dependency.\<close>
  \<^item> \<open>Prelude\<close>, \<open>Py_Value\<close>: exceptions and results as values, dictionaries in insertion
    order, decimal numerals, Python values, JSON text, hexadecimal text, UTF-8.
  \<^item> \<open>Abci_Wire\<close>: \<^verbatim>\<open>abci/utils.py\<close>, \<^verbatim>\<open>abci/server.py\<close>.  Varints are words of 8 bits in a
    list; the handler is a loop over the chunks it reads.
  \<^item> \<open>Formatting\<close>, \<open>Encoding\<close>, \<open>Abci_Json\<close>, \<open>Fee_Policy\<close>, \<open>Tx_Validation\<close>:
    \<^verbatim>\<open>formatting.py\<close>, \<^verbatim>\<open>utils/encoding.py\<close>, \<^verbatim>\<open>fee_policy.py\<close>, \<^verbatim>\<open>utils/tx.py\<close>.
  \<^item> \<open>Driver\<close>: what the sources rely on of the storage driver of the contracting runtime, with
    an instance.  \<open>Nonce_Storage\<close>, \<open>Admission\<close>: \<^verbatim>\<open>nonce.py\<close>, \<^verbatim>\<open>methods/check_tx.py\<close>,
    \<^verbatim>\<open>prepare_proposal.py\<close>, \<^verbatim>\<open>process_proposal.py\<close>.
  \<^item> \<open>State_Root\<close>, \<open>Validators\<close>, \<open>Latest_Block\<close>, \<open>State_Patches\<close>, \<open>Execution_Policy\<close>:
    \<^verbatim>\<open>state_root.py\<close> (a treap of leaf hashes with a cache), \<^verbatim>\<open>validators.py\<close>,
    \<^verbatim>\<open>utils/block.py\<close>, \<^verbatim>\<open>utils/state_patches.py\<close>, \<^verbatim>\<open>execution_policy.py\<close>.
  \<^item> \<open>Execution\<close>, \<open>Rewards\<close>, \<open>Tx_Processor\<close>, \<open>Finalize_Block\<close>: \<^verbatim>\<open>execution_engine.py\<close>,
    \<^verbatim>\<open>rewards.py\<close>, \<^verbatim>\<open>processor.py\<close>, \<^verbatim>\<open>methods/finalize_block.py\<close>, \<^verbatim>\<open>methods/_evidence.py\<close>.
    A step returns its result or exception together with the state it leaves behind.
  \<^item> \<open>State_Export\<close>, \<open>Application\<close>, \<open>Node_Protocol\<close>: \<^verbatim>\<open>state_export.py\<close>, \<^verbatim>\<open>xian_abci.py\<close>,
    \<^verbatim>\<open>methods/commit.py\<close>, \<^verbatim>\<open>info.py\<close>, \<^verbatim>\<open>init_chain.py\<close>, and the runs of the whole node as a
    step relation with its specification.
  \<^item> \<open>State_Sync\<close>: \<^verbatim>\<open>services/state_sync.py\<close>.
  \<^item> \<open>Simulator_Ipc\<close>, \<open>Simulator\<close>: \<^verbatim>\<open>simulator_ipc.py\<close>, \<^verbatim>\<open>simulator.py\<close>,
    \<^verbatim>\<open>simulator_worker.py\<close>.  \<open>Query_Params\<close>, \<open>Query\<close>: \<^verbatim>\<open>methods/query.py\<close>,
    \<^verbatim>\<open>services/bds/candles.py\<close>.
  \<^item> \<open>Parallel_Executor\<close>, \<open>Shielded_Preverify\<close>: \<^verbatim>\<open>parallel_executor.py\<close>, \<^verbatim>\<open>shielded_preverify.py\<close>.  What a
    worker computes and what is applied is modelled; the controller that accepts speculations and
    the bridge to the proof system are parameters.
  \<^item> \<open>Bds_Tables\<close>, \<open>Bds_Shielded\<close>, \<open>Bds_Store\<close>, \<open>Bds_History\<close>, \<open>Bds_Queue\<close>, \<open>Bds_Reindex\<close>, \<open>Bds_Config\<close>,
    \<open>Bds_Snapshot\<close>, \<open>Bds_Import\<close>: \<^verbatim>\<open>services/bds\<close>.  Tables are lists of rows with the keys, the conflict
    clauses and the sequences of the schema; a statement is a function on them.
  \<^item> \<open>File_System\<close>, \<open>Snapshot_Restore\<close>, \<open>Restore_Safety\<close>: \<^verbatim>\<open>snapshot_restore.py\<close> on a tree of files and
    links in which every operation may fail.
  \<^item> \<open>Runtime_Features\<close>, \<open>Genesis_Builder\<close>, \<open>Genesis_Chain\<close>: \<^verbatim>\<open>runtime_features.py\<close>, \<^verbatim>\<open>genesis_builder.py\<close>, and
    InitChain on what was built.
  \<^item> \<open>Node_Setup\<close>, \<open>Setup_Safety\<close>: \<^verbatim>\<open>node_setup.py\<close>: options, checks, rendered configurations, keys and the
    files of the home directory.
  \<^item> \<open>Toml_Utils\<close>, \<open>Cometbft_Utils\<close>, \<open>Node_Admin\<close>, \<open>Admin_Safety\<close>: \<^verbatim>\<open>toml_utils.py\<close>, \<^verbatim>\<open>utils/cometbft.py\<close>,
    \<^verbatim>\<open>config_paths.py\<close>, \<^verbatim>\<open>node_admin.py\<close>: the text of configurations, addresses, and the administration of an
    existing home with the restore of a remote snapshot.

  \<^bold>\<open>What is shown.\<close>
  \<^item> The whole node refines a specification in which the state on disk is replaced in one step by
    that of the decided block; the hash it reports is the state root of what is on disk; a crash
    at any point loses or repeats a block but never half of it; FinalizeBlock is invisible to
    other readers until Commit.  A new process whose startup checks pass comes up idle on the
    committed block, and raises when one of them fails (\<open>boot_ready\<close>).
  \<^item> The cached treap gives the same root as a rebuild from the entries, in every state.
  \<^item> Proposals: a prepared proposal is accepted, accepted nonces are consecutive per sender, and
    acceptance agrees with the decoding in FinalizeBlock.  Signatures cover the payload, a
    reserved nonce is not given twice, reservations are bounded.
  \<^item> Execution leaves the driver as it was, the effects of a transaction are exactly its writes,
    fee and rewards.  Rewards never exceed what was paid when the ratios sum to at most one and
    dust is rounded down.  The patches of a block are exactly those that governance scheduled for
    it.  Validator updates reach the staged set when the selected powers are positive.
  \<^item> Round trips: varints, transaction bytes, IPC values, exported state, snapshot chunks.
    Segmentation of a stream of requests that parse does not matter.  A decoded transaction is its
    own canonical form.
  \<^item> Queries and simulations change nothing that is committed or staged; a read of the latest block
    may create its mirror file when it is missing.  The number of running
    simulations is bounded under every interleaving, pages of keys are complete.
  \<^item> A speculation that is applied to the state it was made on is the serial execution of its
    transaction, if the cached chi cost is that of the state and its contract can be prepared.  Proofs that are verified ahead leave the runtime as it was and are bound to one
    sender on one chain.
  \<^item> The index of blocks has no gaps, its history of the state is right, a reindex adds exactly
    the heights of its plan, and an import restores what was exported.
  \<^item> A restore is all or nothing: after a single failure both directories are as they were, after
    several the originals are at least in a backup.  It never changes the node's identity, nor
    does the setup of a home without links; a remote snapshot is restored only with a digest that is trusted; a built genesis starts the chain with its state; rendered settings are
    the ones the node reads.
  \<^item> Where the code does not do what it means to, the behaviour is a theorem too: a full buffer of the
    index that never drains, an index that cannot be exported, a start bound that leaves a gap, an
    answer that depends on how an unparsable frame arrives.

  \<^bold>\<open>Conventions.\<close>  Text is its UTF-8 bytes, floats are their text, lower case and white space
  are those of ASCII.  A loop of the sources is structural recursion or comes with a termination
  proof.  Third-party code is a parameter (a record of functions, named in the header of its
  theory); what is relied on is a named predicate over it, with an instance for which it holds.
  Logging, metrics and profiling are left out.  Locks are taken as mutual exclusion: a method that
  holds its lock throughout is one step.

  \<^bold>\<open>Not modelled.\<close>  The planning of speculative waves, which is in the contracting package; parts of the
  block data service that only page through rows or format them for the dashboard; the dashboard,
  and the command lines, which are input and output around libraries; metrics, profiling and logging,
  which no modelled state depends on; generated protobuf classes.
\<close>

end
